(* ===== verification/Prelude.thy ===== *)
theory Prelude
  imports Main "HOL-Library.Multiset" "HOL-Library.Word" "HOL-Library.Char_ord" "HOL-Library.List_Lexorder"
begin

text \<open>
  Shared ground of the development: results of fallible code, JavaScript's insertion-ordered
  \<open>Map\<close> as an association list (with the locale \<open>kv_map\<close> that states its contract), the string
  operations of the language the sources use (\<open>split\<close>, \<open>trim\<close>, \<open>startsWith\<close>, decimal and
  hexadecimal rendering), and the run-time functions that are not under \<open>src/\<close> (the record
  \<open>js_rt\<close>: \<open>Date\<close> parsing and printing, SHA-256, HMAC-SHA256), which are arguments of the
  definitions that call them.
\<close>

named_theorems result_simps \<open>unfolding of the result combinators\<close>
named_theorems str_simps \<open>rendering and parsing of numbers\<close>

section \<open>Results of code that can throw\<close>

definition res_bind :: "'e + 'a \<Rightarrow> ('a \<Rightarrow> 'e + 'b) \<Rightarrow> 'e + 'b" where
  "res_bind m f = (case m of Inl e \<Rightarrow> Inl e | Inr x \<Rightarrow> f x)"

definition ensure :: "bool \<Rightarrow> 'e \<Rightarrow> 'e + unit" where
  "ensure b e = (if b then Inr () else Inl e)"

lemma res_bind_simps [simp]:
  "res_bind (Inl e) f = Inl e"
  "res_bind (Inr x) f = f x"
  by (simp_all add: res_bind_def)

lemma res_bind_eq_Inr [result_simps]:
  "res_bind m f = Inr y \<longleftrightarrow> (\<exists>x. m = Inr x \<and> f x = Inr y)"
  by (cases m) simp_all

lemma res_bind_eq_Inl [result_simps]:
  "res_bind m f = Inl e \<longleftrightarrow> m = Inl e \<or> (\<exists>x. m = Inr x \<and> f x = Inl e)"
  by (cases m) simp_all

lemma ensure_eq_Inr [simp]: "ensure b e = Inr u \<longleftrightarrow> b"
  by (simp add: ensure_def)

lemma ensure_eq_Inl [simp]: "ensure b e = Inl e' \<longleftrightarrow> \<not> b \<and> e' = e"
  by (auto simp: ensure_def)

lemma ensure_True [simp]: "ensure True e = Inr ()"
  and ensure_False [simp]: "ensure False e = Inl e"
  by (simp_all add: ensure_def)

lemma find_SomeD: "find P xs = Some x \<Longrightarrow> x \<in> set xs \<and> P x"
  by (induction xs) (auto split: if_splits)

section \<open>JavaScript's \<open>Map\<close>\<close>

text \<open>
  A \<open>Map\<close> enumerates its entries in insertion order; \<open>set\<close> on a present key keeps its position.
\<close>

type_synonym ('k, 'v) amap = "('k \<times> 'v) list"

definition amap_get :: "'k \<Rightarrow> ('k, 'v) amap \<Rightarrow> 'v option" where
  "amap_get k m = map_of m k"

fun amap_set :: "'k \<Rightarrow> 'v \<Rightarrow> ('k, 'v) amap \<Rightarrow> ('k, 'v) amap" where
  "amap_set k v [] = [(k, v)]"
| "amap_set k v ((k', v') # m) = (if k = k' then (k, v) # m else (k', v') # amap_set k v m)"

definition amap_delete :: "'k \<Rightarrow> ('k, 'v) amap \<Rightarrow> ('k, 'v) amap" where
  "amap_delete k m = filter (\<lambda>(k', _). k' \<noteq> k) m"

definition amap_wf :: "('k, 'v) amap \<Rightarrow> bool" where
  "amap_wf m \<longleftrightarrow> distinct (map fst m)"

locale kv_map =
  fixes empty :: "'m"
    and get :: "'k \<Rightarrow> 'm \<Rightarrow> 'v option"
    and set :: "'k \<Rightarrow> 'v \<Rightarrow> 'm \<Rightarrow> 'm"
    and delete :: "'k \<Rightarrow> 'm \<Rightarrow> 'm"
    and entries :: "'m \<Rightarrow> ('k \<times> 'v) list"
    and wf :: "'m \<Rightarrow> bool"
  assumes get_empty: "get k empty = None"
    and get_set: "get k (set k' v m) = (if k = k' then Some v else get k m)"
    and get_delete: "get k (delete k' m) = (if k = k' then None else get k m)"
    and entries_get: "wf m \<Longrightarrow> (k, v) \<in> List.set (entries m) \<longleftrightarrow> get k m = Some v"
    and wf_empty: "wf empty"
    and wf_set: "wf m \<Longrightarrow> wf (set k v m)"
    and wf_delete: "wf m \<Longrightarrow> wf (delete k m)"
begin

lemma set_then_delete_other: "k \<noteq> k' \<Longrightarrow> get k (delete k' (set k v m)) = Some v"
  by (simp add: get_set get_delete)

lemma delete_fold: "get k (fold delete ks m) = (if k \<in> List.set ks then None else get k m)"
  by (induction ks arbitrary: m) (auto simp: get_delete)

lemma wf_delete_fold: "wf m \<Longrightarrow> wf (fold delete ks m)"
  by (induction ks arbitrary: m) (auto simp: wf_delete)

end

lemma amap_get_Nil [simp]: "amap_get k [] = None"
  by (simp add: amap_get_def)

lemma amap_get_set: "amap_get k (amap_set k' v m) = (if k = k' then Some v else amap_get k m)"
  by (induction k' v m rule: amap_set.induct) (auto simp: amap_get_def)

lemma amap_get_delete: "amap_get k (amap_delete k' m) = (if k = k' then None else amap_get k m)"
  by (induction m) (auto simp: amap_get_def amap_delete_def)

lemma fst_amap_set: "fst ` set (amap_set k v m) = insert k (fst ` set m)"
  by (induction k v m rule: amap_set.induct) auto

lemma set_amap_set: "set (amap_set k v m) \<subseteq> insert (k, v) (set m)"
  by (induction k v m rule: amap_set.induct) auto

lemma amap_wf_set: "amap_wf m \<Longrightarrow> amap_wf (amap_set k v m)"
  by (induction k v m rule: amap_set.induct) (auto simp: amap_wf_def fst_amap_set)

lemma amap_wf_delete: "amap_wf m \<Longrightarrow> amap_wf (amap_delete k m)"
  by (induction m) (auto simp: amap_wf_def amap_delete_def)

lemma amap_entries: "amap_wf m \<Longrightarrow> (k, v) \<in> set m \<longleftrightarrow> amap_get k m = Some v"
  by (simp add: amap_wf_def amap_get_def)

lemma amap_wf_Nil [simp]: "amap_wf []"
  by (simp add: amap_wf_def)

interpretation am: kv_map "[]" amap_get amap_set amap_delete "\<lambda>m. m" amap_wf
  by unfold_locales
    (simp_all add: amap_get_set amap_get_delete amap_entries amap_wf_set amap_wf_delete)

lemmas amap_simps = amap_get_set amap_get_delete amap_wf_set amap_wf_delete

section \<open>Decimal and hexadecimal digits\<close>

definition digit_char :: "nat \<Rightarrow> char" where
  "digit_char n = char_of (48 + n)"

definition is_digit :: "char \<Rightarrow> bool" where
  "is_digit c \<longleftrightarrow> CHR ''0'' \<le> c \<and> c \<le> CHR ''9''"

definition digit_val :: "char \<Rightarrow> nat" where
  "digit_val c = of_char c - 48"

fun dec :: "nat \<Rightarrow> string" where
  "dec n = (if n < 10 then [digit_char n] else dec (n div 10) @ [digit_char (n mod 10)])"

declare dec.simps [simp del]

definition dec_int :: "int \<Rightarrow> string" where
  "dec_int i = (if i < 0 then CHR ''-'' # dec (nat (- i)) else dec (nat i))"

definition digits_val :: "string \<Rightarrow> nat" where
  "digits_val s = foldl (\<lambda>a c. 10 * a + digit_val c) 0 s"

lemma is_digit_of_char: "is_digit c \<longleftrightarrow> 48 \<le> (of_char c :: nat) \<and> (of_char c :: nat) \<le> 57"
  by (simp add: is_digit_def less_eq_char_def)

lemma digit_char_props [str_simps]:
  assumes "n < 10"
  shows "is_digit (digit_char n)" "digit_val (digit_char n) = n"
  using assms by (simp_all add: is_digit_of_char digit_char_def digit_val_def of_char_of)

lemma digit_char_val [str_simps]: "is_digit c \<Longrightarrow> digit_char (digit_val c) = c"
  by (simp add: is_digit_of_char digit_char_def digit_val_def)

lemma digit_val_lt [str_simps]: "is_digit c \<Longrightarrow> digit_val c < 10"
  unfolding is_digit_of_char digit_val_def by linarith

lemma digits_val_snoc [simp]: "digits_val (s @ [c]) = 10 * digits_val s + digit_val c"
  by (simp add: digits_val_def)

lemma digits_val_Nil [simp]: "digits_val [] = 0"
  by (simp add: digits_val_def)

lemma dec_digits: "list_all is_digit (dec n)"
  by (induction n rule: dec.induct) (subst dec.simps, simp add: str_simps)

lemma dec_not_Nil [simp]: "dec n \<noteq> []"
  by (subst dec.simps) simp

lemma length_dec_le: "m < 10 ^ k \<Longrightarrow> 0 < k \<Longrightarrow> length (dec m) \<le> k"
proof (induction m arbitrary: k rule: dec.induct)
  case (1 m)
  show ?case
  proof (cases "m < 10")
    case False
    with "1.prems" obtain j where k: "k = Suc j" "0 < j" by (cases k; cases "k - 1") auto
    with "1.prems" have "m div 10 < 10 ^ j" by (simp add: div_less_iff_less_mult mult.commute)
    with "1.IH" [OF False] k False show ?thesis by (subst dec.simps) simp
  qed (use "1.prems" in \<open>subst dec.simps, simp\<close>)
qed

lemma digits_val_dec [simp]: "digits_val (dec n) = n"
proof (induction n rule: dec.induct)
  case (1 n)
  show ?case
  proof (cases "n < 10")
    case True
    then show ?thesis by (subst dec.simps) (simp add: digits_val_def str_simps)
  next
    case False
    with "1" show ?thesis by (subst dec.simps) (simp add: str_simps)
  qed
qed

lemma dec_inj [simp]: "dec m = dec n \<longleftrightarrow> m = n"
  by (metis digits_val_dec)

lemma digit_val_char0: "digit_val CHR ''0'' = 0"
  by code_simp

lemma digit_val_inj: "is_digit c \<Longrightarrow> is_digit d \<Longrightarrow> digit_val c = digit_val d \<longleftrightarrow> c = d"
  by (metis digit_char_val)

lemma digit_val_0_iff: "is_digit c \<Longrightarrow> digit_val c = 0 \<longleftrightarrow> c = CHR ''0''"
  using digit_val_inj [of c "CHR ''0''"] by (simp add: digit_val_char0 is_digit_def)

text \<open>The canonical decimal numerals \<open>[1-9][0-9]*\<close> are exactly the renderings of the positives.\<close>

definition canonical_dec :: "string \<Rightarrow> bool" where
  "canonical_dec s \<longleftrightarrow> s \<noteq> [] \<and> list_all is_digit s \<and> hd s \<noteq> CHR ''0''"

lemma canonical_dec_pos: "canonical_dec s \<Longrightarrow> 0 < digits_val s"
proof (induction s rule: rev_induct)
  case Nil
  then show ?case by (simp add: canonical_dec_def)
next
  case (snoc c s)
  then show ?case
    by (cases "s = []") (auto simp: canonical_dec_def digits_val_def simp flip: digit_val_0_iff)
qed

lemma dec_digits_val: "canonical_dec s \<Longrightarrow> dec (digits_val s) = s"
proof (induction s rule: rev_induct)
  case Nil
  then show ?case by (simp add: canonical_dec_def)
next
  case (snoc c s)
  then have c: "is_digit c" by (simp add: canonical_dec_def)
  show ?case
  proof (cases "s = []")
    case True
    with c show ?thesis by (subst dec.simps) (simp add: digits_val_def str_simps)
  next
    case False
    with snoc.prems have s: "canonical_dec s" by (simp add: canonical_dec_def)
    with canonical_dec_pos have "\<not> 10 * digits_val s + digit_val c < 10" by fastforce
    with c s snoc.IH show ?thesis
      by (subst dec.simps) (simp add: str_simps)
  qed
qed

lemma hd_dec: "0 < n \<Longrightarrow> hd (dec n) \<noteq> CHR ''0''"
proof (induction n rule: dec.induct)
  case (1 n)
  then show ?case
    by (subst dec.simps) (auto simp: hd_append str_simps simp flip: digit_val_0_iff)
qed

lemma canonical_dec_iff: "canonical_dec s \<longleftrightarrow> (\<exists>n>0. s = dec n)"
  by (metis canonical_dec_def canonical_dec_pos dec_digits dec_digits_val dec_not_Nil hd_dec)

lemma list_all_dec_int: "i \<ge> 0 \<Longrightarrow> list_all is_digit (dec_int i)"
  by (simp add: dec_int_def dec_digits)

lemma minus_not_digit [simp]: "\<not> is_digit CHR ''-''"
  by (simp add: is_digit_def)

lemma dec_no_minus: "dec n \<noteq> CHR ''-'' # s"
  using dec_digits [of n] by auto

lemma dec_int_inj [simp]: "dec_int i = dec_int j \<longleftrightarrow> i = j"
  by (auto simp: dec_int_def dec_no_minus dec_no_minus [THEN not_sym] split: if_splits)

lemma dec_int_not_Nil [simp]: "dec_int i \<noteq> []"
  by (simp add: dec_int_def)

definition hex_digit :: "nat \<Rightarrow> char" where
  "hex_digit n = (if n < 10 then char_of (48 + n) else char_of (87 + n))"

definition is_hex_lower :: "char \<Rightarrow> bool" where
  "is_hex_lower c \<longleftrightarrow> is_digit c \<or> (CHR ''a'' \<le> c \<and> c \<le> CHR ''f'')"

text \<open>\<open>Buffer.toString('hex')\<close>: two lower-case digits for each byte.\<close>

definition byte_hex :: "8 word \<Rightarrow> string" where
  "byte_hex b = [hex_digit (unat b div 16), hex_digit (unat b mod 16)]"

definition to_hex :: "8 word list \<Rightarrow> string" where
  "to_hex bs = concat (map byte_hex bs)"

text \<open>Reading hexadecimal digits in either case.\<close>

definition hex_value :: "char \<Rightarrow> nat" where
  "hex_value c = (let n = of_char c in if n \<le> 57 then n - 48 else if n \<le> 70 then n - 55 else n - 87)"

definition is_hex :: "char \<Rightarrow> bool" where
  "is_hex c \<longleftrightarrow> (let n = of_char c :: nat in (48 \<le> n \<and> n \<le> 57) \<or> (65 \<le> n \<and> n \<le> 70) \<or> (97 \<le> n \<and> n \<le> 102))"

definition hex_number :: "string \<Rightarrow> int" where
  "hex_number s = foldl (\<lambda>a c. 16 * a + int (hex_value c)) 0 s"

lemma hex_digit_lower: "n < 16 \<Longrightarrow> is_hex_lower (hex_digit n)"
  by (auto simp: hex_digit_def is_hex_lower_def is_digit_of_char of_char_of less_eq_char_def)

lemma hex_digit_inj: "m < 16 \<Longrightarrow> n < 16 \<Longrightarrow> hex_digit m = hex_digit n \<longleftrightarrow> m = n"
  by (auto simp: hex_digit_def char_of_eq_iff take_bit_eq_mod dest!: arg_cong [of _ _ "of_char :: char \<Rightarrow> nat"] split: if_splits)

lemma byte_high: "unat (b :: 8 word) div 16 < 16"
proof -
  have "unat b < 256" using unsigned_less [where w = b and 'a = nat] by simp
  then show ?thesis by simp
qed

lemma byte_hex_inj: "byte_hex a = byte_hex b \<longleftrightarrow> a = b"
proof
  assume "byte_hex a = byte_hex b"
  moreover have "unat a div 16 < 16" "unat b div 16 < 16"
    by (simp_all add: byte_high)
  ultimately have "unat a div 16 = unat b div 16" "unat a mod 16 = unat b mod 16"
    by (simp_all add: byte_hex_def hex_digit_inj)
  then show "a = b" by (metis div_mult_mod_eq unsigned_word_eqI)
qed simp

lemma length_to_hex [simp]: "length (to_hex bs) = 2 * length bs"
  by (induction bs) (simp_all add: to_hex_def byte_hex_def)

lemma to_hex_lower: "list_all is_hex_lower (to_hex bs)"
proof (induction bs)
  case Nil
  then show ?case by (simp add: to_hex_def)
next
  case (Cons b bs)
  then show ?case by (simp add: to_hex_def byte_hex_def hex_digit_lower byte_high)
qed

lemma to_hex_inj: "to_hex as = to_hex bs \<longleftrightarrow> as = bs"
proof (induction as arbitrary: bs)
  case Nil
  then show ?case by (cases bs) (simp_all add: to_hex_def byte_hex_def)
next
  case (Cons a as)
  then show ?case
    by (cases bs) (auto simp: to_hex_def byte_hex_def simp flip: byte_hex_inj)
qed

section \<open>String operations of the language\<close>

fun js_split :: "char \<Rightarrow> string \<Rightarrow> string list" where
  "js_split d [] = [[]]"
| "js_split d (c # s) = (if c = d then [] # js_split d s
     else (case js_split d s of [] \<Rightarrow> [[c]] | w # ws \<Rightarrow> (c # w) # ws))"

fun js_join :: "string \<Rightarrow> string list \<Rightarrow> string" where
  "js_join d [] = []"
| "js_join d [w] = w"
| "js_join d (w # v # ws) = w @ d @ js_join d (v # ws)"

text \<open>White space and line terminators among the first 256 code points.\<close>

definition js_space :: "char \<Rightarrow> bool" where
  "js_space c \<longleftrightarrow> (of_char c :: nat) \<in> {9, 10, 11, 12, 13, 32, 160}"

definition js_trim :: "string \<Rightarrow> string" where
  "js_trim s = rev (dropWhile js_space (rev (dropWhile js_space s)))"

definition js_lower_char :: "char \<Rightarrow> char" where
  "js_lower_char c = (let n = of_char c :: nat in
     if (65 \<le> n \<and> n \<le> 90) \<or> (192 \<le> n \<and> n \<le> 222 \<and> n \<noteq> 215) then char_of (n + 32) else c)"

definition js_lower :: "string \<Rightarrow> string" where
  "js_lower s = map js_lower_char s"

definition starts_with :: "string \<Rightarrow> string \<Rightarrow> bool" where
  "starts_with p s \<longleftrightarrow> take (length p) s = p"

text \<open>Bytes of the UTF-8 encoding of a string over the first 256 code points.\<close>

definition utf8_length :: "string \<Rightarrow> nat" where
  "utf8_length s = sum_list (map (\<lambda>c. if (of_char c :: nat) < 128 then 1 else 2) s)"

lemma js_split_not_Nil [simp]: "js_split d s \<noteq> []"
  by (induction s) (auto split: list.splits)

lemma js_join_split: "js_join [d] (js_split d s) = s"
proof (induction s)
  case (Cons c s)
  then show ?case by (cases "js_split d s"; cases "tl (js_split d s)") auto
qed simp

lemma js_split_no_sep: "d \<notin> set s \<Longrightarrow> js_split d s = [s]"
  by (induction s) auto

lemma js_split_append: "d \<notin> set p \<Longrightarrow> js_split d (p @ d # s) = p # js_split d s"
  by (induction p) auto

lemma js_split_parts: "w \<in> set (js_split d s) \<Longrightarrow> d \<notin> set w"
proof (induction s arbitrary: w)
  case (Cons c s)
  then show ?case by (cases "js_split d s") (auto split: if_splits)
qed simp

lemma starts_with_append [simp]: "starts_with p (p @ s)"
  by (simp add: starts_with_def)

lemma starts_with_iff: "starts_with p s \<longleftrightarrow> (\<exists>t. s = p @ t)"
  by (metis append_eq_conv_conj starts_with_def append_take_drop_id)

lemma js_trim_no_space: "s \<noteq> [] \<Longrightarrow> \<not> js_space (hd s) \<Longrightarrow> \<not> js_space (last s) \<Longrightarrow> js_trim s = s"
  by (metis dropWhile_eq_self_iff hd_rev js_trim_def rev_is_Nil_conv rev_rev_ident)

lemma js_trim_id: "list_all (\<lambda>c. \<not> js_space c) s \<Longrightarrow> js_trim s = s"
  by (cases "s = []") (auto simp: js_trim_no_space list_all_iff js_trim_def [of "[]"])

lemma digit_not_space: "is_digit c \<Longrightarrow> \<not> js_space c"
  by (auto simp: is_digit_of_char js_space_def)

section \<open>Run-time functions outside the repository\<close>

text \<open>
  \<open>dateParse\<close> is \<open>new Date(s).getTime()\<close> with \<open>None\<close> for \<open>NaN\<close>; \<open>toISO\<close> is
  \<open>new Date(ms).toISOString()\<close>; \<open>sha256\<close> and \<open>hmac\<close> are Node's digests in hexadecimal.
  Instants are milliseconds since the epoch. The first argument of every definition that reads
  them is such a record.
\<close>

record js_rt =
  dateParse :: "string \<Rightarrow> int option"
  toISO :: "int \<Rightarrow> string"
  sha256 :: "string \<Rightarrow> string"
  hmac :: "string \<Rightarrow> string \<Rightarrow> string"

text \<open>\<open>new Date(s) <= new Date(t)\<close>: a comparison with \<open>NaN\<close> is false.\<close>

definition date_le :: "int option \<Rightarrow> int \<Rightarrow> bool" where
  "date_le d t = (case d of None \<Rightarrow> False | Some x \<Rightarrow> x \<le> t)"

definition date_lt :: "int option \<Rightarrow> int \<Rightarrow> bool" where
  "date_lt d t = (case d of None \<Rightarrow> False | Some x \<Rightarrow> x < t)"

definition date_ge :: "int option \<Rightarrow> int \<Rightarrow> bool" where
  "date_ge d t = (case d of None \<Rightarrow> False | Some x \<Rightarrow> t \<le> x)"

lemma date_cmp_simps [simp]:
  "date_le None t = False" "date_le (Some x) t = (x \<le> t)"
  "date_lt None t = False" "date_lt (Some x) t = (x < t)"
  "date_ge None t = False" "date_ge (Some x) t = (t \<le> x)"
  by (simp_all add: date_le_def date_lt_def date_ge_def)

end
