(* ===== verification/Js_Json.thy ===== *)
theory Js_Json
  imports Prelude
begin

text \<open>
  JSON values and \<open>JSON.stringify\<close>. Request bodies, invoice metadata and webhook payloads are
  values of \<open>json\<close>; \<open>JUndef\<close> is JavaScript's \<open>undefined\<close> (an absent property), numbers are the
  integral ones, objects list their properties in enumeration order. The main fact is that
  \<open>json_stringify\<close> is injective on values without \<open>undefined\<close> (\<open>json_stringify_inj\<close>): two
  different values never serialise to the same bytes.
\<close>

section \<open>Values\<close>

datatype json =
    JUndef
  | JNull
  | JBool bool
  | JNum int
  | JStr string
  | JArr "json list"
  | JObj "(string \<times> json) list"

fun js_truthy :: "json \<Rightarrow> bool" where
  "js_truthy JUndef = False"
| "js_truthy JNull = False"
| "js_truthy (JBool b) = b"
| "js_truthy (JNum n) = (n \<noteq> 0)"
| "js_truthy (JStr s) = (s \<noteq> [])"
| "js_truthy (JArr _) = True"
| "js_truthy (JObj _) = True"

fun is_jstr :: "json \<Rightarrow> bool" where
  "is_jstr (JStr _) = True"
| "is_jstr _ = False"

fun jstr :: "json \<Rightarrow> string" where
  "jstr (JStr s) = s"
| "jstr _ = []"

text \<open>Property access; anything but an object has none of the properties the sources read.\<close>

fun jget :: "string \<Rightarrow> json \<Rightarrow> json" where
  "jget k (JObj kvs) = (case map_of kvs k of None \<Rightarrow> JUndef | Some v \<Rightarrow> v)"
| "jget k _ = JUndef"

lemma is_jstr_iff: "is_jstr v \<longleftrightarrow> (\<exists>s. v = JStr s)"
  by (cases v) simp_all

section \<open>Serialisation\<close>

definition json_escape :: "char \<Rightarrow> string" where
  "json_escape c =
     (if c = CHR 0x22 then [CHR 0x5C, CHR 0x22]
      else if c = CHR 0x5C then [CHR 0x5C, CHR 0x5C]
      else if c = CHR 0x08 then [CHR 0x5C, CHR ''b'']
      else if c = CHR 0x0C then [CHR 0x5C, CHR ''f'']
      else if c = CHR 0x0A then [CHR 0x5C, CHR ''n'']
      else if c = CHR 0x0D then [CHR 0x5C, CHR ''r'']
      else if c = CHR 0x09 then [CHR 0x5C, CHR ''t'']
      else if (of_char c :: nat) < 32
        then [CHR 0x5C, CHR ''u'', CHR ''0'', CHR ''0'',
              hex_digit (of_char c div 16), hex_digit (of_char c mod 16)]
      else [c])"

definition json_quote :: "string \<Rightarrow> string" where
  "json_quote s = CHR 0x22 # concat (map json_escape s) @ [CHR 0x22]"

fun obj_parts :: "(string \<times> string option) list \<Rightarrow> string list" where
  "obj_parts [] = []"
| "obj_parts ((k, None) # r) = obj_parts r"
| "obj_parts ((k, Some s) # r) = (json_quote k @ '':'' @ s) # obj_parts r"

definition or_null :: "string option \<Rightarrow> string" where
  "or_null x = (case x of None \<Rightarrow> ''null'' | Some s \<Rightarrow> s)"

definition json_brackets :: "string list \<Rightarrow> string" where
  "json_brackets ws = ''['' @ js_join '','' ws @ '']''"

definition json_braces :: "string list \<Rightarrow> string" where
  "json_braces ws = ''{'' @ js_join '','' ws @ ''}''"

fun json_stringify :: "json \<Rightarrow> string option" where
  "json_stringify JUndef = None"
| "json_stringify JNull = Some ''null''"
| "json_stringify (JBool b) = Some (if b then ''true'' else ''false'')"
| "json_stringify (JNum i) = Some (dec_int i)"
| "json_stringify (JStr s) = Some (json_quote s)"
| "json_stringify (JArr vs) = Some (json_brackets (map (\<lambda>v. or_null (json_stringify v)) vs))"
| "json_stringify (JObj kvs) =
     Some (json_braces (obj_parts (map (\<lambda>(k, v). (k, json_stringify v)) kvs)))"

section \<open>Injectivity\<close>

fun json_clean :: "json \<Rightarrow> bool" where
  "json_clean JUndef = False"
| "json_clean (JArr vs) = list_all json_clean vs"
| "json_clean (JObj kvs) = list_all (\<lambda>(_, v). json_clean v) kvs"
| "json_clean _ = True"

definition json_enc :: "json \<Rightarrow> string" where
  "json_enc v = or_null (json_stringify v)"

definition json_field :: "string \<times> json \<Rightarrow> string" where
  "json_field kv = json_quote (fst kv) @ '':'' @ json_enc (snd kv)"

lemma json_stringify_clean: "json_clean v \<Longrightarrow> json_stringify v = Some (json_enc v)"
  by (cases v) (simp_all add: json_enc_def or_null_def)

lemma obj_parts_clean:
  "list_all (\<lambda>(_, v). json_clean v) kvs \<Longrightarrow>
   obj_parts (map (\<lambda>(k, v). (k, json_stringify v)) kvs) = map json_field kvs"
  by (induction kvs) (auto simp: json_field_def json_stringify_clean)

lemma json_enc_clean_simps:
  "json_enc JNull = ''null''"
  "json_enc (JBool b) = (if b then ''true'' else ''false'')"
  "json_enc (JNum i) = dec_int i"
  "json_enc (JStr s) = json_quote s"
  "json_enc (JArr vs) = CHR ''['' # js_join '','' (map json_enc vs) @ [CHR '']'']"
  "json_clean (JObj kvs) \<Longrightarrow>
     json_enc (JObj kvs) = CHR ''{'' # js_join '','' (map json_field kvs) @ [CHR ''}'']"
  by (simp_all add: json_enc_def or_null_def json_brackets_def json_braces_def obj_parts_clean
      cong: map_cong)

text \<open>A decoder for one escaped character, which shows that escaping loses nothing.\<close>

fun unescape :: "string \<Rightarrow> (char \<times> string) option" where
  "unescape [] = None"
| "unescape (c # r) =
     (if c \<noteq> CHR 0x5C then Some (c, r)
      else (case r of
        [] \<Rightarrow> None
      | d # r' \<Rightarrow>
          if d = CHR ''b'' then Some (CHR 0x08, r')
          else if d = CHR ''f'' then Some (CHR 0x0C, r')
          else if d = CHR ''n'' then Some (CHR 0x0A, r')
          else if d = CHR ''r'' then Some (CHR 0x0D, r')
          else if d = CHR ''t'' then Some (CHR 0x09, r')
          else if d = CHR ''u'' then
            (case find (\<lambda>n. [hex_digit (n div 16), hex_digit (n mod 16)] = take 2 (drop 2 r')) [0..<32] of
               None \<Rightarrow> None | Some n \<Rightarrow> Some (char_of n, drop 4 r'))
          else Some (d, r')))"

lemma find_hex32:
  assumes "n < 32"
  shows "find (\<lambda>m. hex_digit (m div 16) = hex_digit (n div 16) \<and>
           hex_digit (m mod 16) = hex_digit (n mod 16)) [0..<32] = Some n"
proof -
  have "(hex_digit (m div 16) = hex_digit (n div 16) \<and> hex_digit (m mod 16) = hex_digit (n mod 16))
      \<longleftrightarrow> m = n" if "m < 32" for m
    using that assms by (auto simp: hex_digit_inj) (metis div_mult_mod_eq)
  then have "find (\<lambda>m. hex_digit (m div 16) = hex_digit (n div 16) \<and>
           hex_digit (m mod 16) = hex_digit (n mod 16)) [0..<32] = find (\<lambda>m. m = n) [0..<32]"
    by (intro find_cong) auto
  also have "\<dots> = Some n"
    using assms by (simp add: find_Some_iff) (rule exI [of _ n], simp)
  finally show ?thesis .
qed

lemma unescape_escape: "unescape (json_escape c @ r) = Some (c, r)"
  by (auto simp: json_escape_def find_hex32)

lemma json_escape_first: "json_escape c \<noteq> []" "json_escape c \<noteq> CHR 0x22 # r"
  by (auto simp: json_escape_def)

lemma json_escape_not_quote: "json_escape c @ x = CHR 0x22 # r \<Longrightarrow> False"
  using json_escape_first [of c] by (cases "json_escape c") auto

lemma json_escape_prefix: "json_escape c @ r = json_escape d @ s \<Longrightarrow> c = d \<and> r = s"
  by (metis unescape_escape option.inject prod.inject)

lemma json_quote_prefix: "json_quote s @ r = json_quote t @ u \<Longrightarrow> s = t \<and> r = u"
proof -
  have "concat (map json_escape s) @ CHR 0x22 # r = concat (map json_escape t) @ CHR 0x22 # u
      \<Longrightarrow> s = t \<and> r = u"
  proof (induction s arbitrary: t)
    case Nil
    then show ?case by (cases t) (auto dest: json_escape_not_quote [OF sym])
  next
    case (Cons c s)
    show ?case
    proof (cases t)
      case Nil
      with Cons.prems show ?thesis by (auto dest: json_escape_not_quote)
    next
      case (Cons d t')
      with Cons.prems Cons.IH [of t'] show ?thesis
        by (auto dest: json_escape_prefix)
    qed
  qed
  then show "json_quote s @ r = json_quote t @ u \<Longrightarrow> s = t \<and> r = u"
    by (simp add: json_quote_def)
qed

text \<open>What may follow a serialised value: the end, a separator or a closing bracket.\<close>

definition json_delim :: "string \<Rightarrow> bool" where
  "json_delim r \<longleftrightarrow> r = [] \<or> hd r \<in> {CHR '','', CHR '']'', CHR ''}''}"

lemma json_delim_not_digit: "json_delim (c # r) \<Longrightarrow> \<not> is_digit c"
  by (auto simp: json_delim_def is_digit_def)

lemma digits_prefix:
  "list_all is_digit a \<Longrightarrow> list_all is_digit b \<Longrightarrow> json_delim r \<Longrightarrow> json_delim s \<Longrightarrow>
   a @ r = b @ s \<Longrightarrow> a = b \<and> r = s"
proof (induction a arbitrary: b)
  case Nil
  then show ?case by (cases b) (auto dest: json_delim_not_digit)
next
  case (Cons c a)
  then show ?case by (cases b) (auto dest: json_delim_not_digit)
qed

lemma dec_int_hd: "\<exists>c t. dec_int i = c # t \<and> (is_digit c \<or> c = CHR ''-'')"
  by (cases "dec (nat \<bar>i\<bar>)") (use dec_digits [of "nat \<bar>i\<bar>"] in \<open>auto simp: dec_int_def\<close>)

lemma dec_prefix:
  "json_delim r \<Longrightarrow> json_delim s \<Longrightarrow> dec m @ r = dec n @ s \<Longrightarrow> m = n \<and> r = s"
  using digits_prefix [OF dec_digits dec_digits] by (metis dec_inj)

lemma dec_append_minus: "dec m @ x = CHR ''-'' # y \<Longrightarrow> False"
  using dec_digits [of m] by (cases "dec m") auto

lemma dec_int_prefix:
  assumes r: "json_delim r" and s: "json_delim s" and eq: "dec_int i @ r = dec_int j @ s"
  shows "i = j \<and> r = s"
proof (cases "i < 0"; cases "j < 0")
  assume "i < 0" "j < 0"
  with eq dec_prefix [OF r s, of "nat (- i)" "nat (- j)"] show ?thesis
    by (simp add: dec_int_def eq_nat_nat_iff)
next
  assume "\<not> i < 0" "\<not> j < 0"
  with eq dec_prefix [OF r s, of "nat i" "nat j"] show ?thesis
    by (simp add: dec_int_def eq_nat_nat_iff)
next
  assume "i < 0" "\<not> j < 0"
  with eq show ?thesis by (auto simp: dec_int_def dest: dec_append_minus [OF sym])
next
  assume "\<not> i < 0" "j < 0"
  with eq show ?thesis by (auto simp: dec_int_def dest: dec_append_minus)
qed

lemma json_enc_hd:
  assumes "json_clean v"
  shows "\<exists>c t. json_enc v = c # t \<and> c \<notin> {CHR '','', CHR '']'', CHR ''}''}"
proof (cases v)
  case (JNum i)
  obtain c t where "dec_int i = c # t" "is_digit c \<or> c = CHR ''-''"
    using dec_int_hd by blast
  then show ?thesis by (auto simp: JNum json_enc_clean_simps is_digit_def)
qed (use assms in \<open>auto simp: json_enc_clean_simps json_quote_def\<close>)

text \<open>Comma-separated sequences of items that are themselves uniquely readable.\<close>

definition prefix_unique :: "('a \<Rightarrow> string) \<Rightarrow> 'a \<Rightarrow> 'a \<Rightarrow> bool" where
  "prefix_unique f x y \<longleftrightarrow>
     (\<forall>r s. json_delim r \<longrightarrow> json_delim s \<longrightarrow> f x @ r = f y @ s \<longrightarrow> x = y \<and> r = s)"

lemma js_join_Cons: "js_join d (w # ws) = w @ (if ws = [] then [] else d @ js_join d ws)"
  by (cases ws) simp_all

lemma join_prefix:
  assumes items: "\<And>x y. x \<in> set xs \<Longrightarrow> y \<in> set ys \<Longrightarrow> prefix_unique f x y"
    and hd_xs: "\<And>x. x \<in> set xs \<Longrightarrow> \<exists>c t. f x = c # t \<and> c \<noteq> close"
    and hd_ys: "\<And>y. y \<in> set ys \<Longrightarrow> \<exists>c t. f y = c # t \<and> c \<noteq> close"
    and close: "close \<in> {CHR '']'', CHR ''}''}"
    and eq: "js_join '','' (map f xs) @ close # r = js_join '','' (map f ys) @ close # s"
  shows "xs = ys \<and> r = s"
  using assms
proof (induction xs arbitrary: ys)
  case Nil
  show ?case
  proof (cases ys)
    case (Cons y ys')
    then obtain c t where "f y = c # t" "c \<noteq> close" using Nil.prems(3) [of y] by auto
    with Cons Nil.prems(5) show ?thesis by (simp add: js_join_Cons)
  qed (use Nil in simp)
next
  case (Cons x xs)
  obtain c t where x: "f x = c # t" "c \<noteq> close" using Cons.prems(2) [of x] by auto
  show ?case
  proof (cases ys)
    case Nil
    with x Cons.prems(5) show ?thesis by (simp add: js_join_Cons)
  next
    case ys: (Cons y ys')
    let ?tail = "\<lambda>zs u. (if zs = [] then [] else '','' @ js_join '','' (map f zs)) @ close # u"
    have delim: "json_delim (?tail zs u)" for zs u
      using close by (auto simp: json_delim_def)
    from Cons.prems(5) ys have "f x @ ?tail xs r = f y @ ?tail ys' s"
      by (simp add: js_join_Cons split: if_splits)
    moreover have "prefix_unique f x y" using Cons.prems(1) ys by simp
    ultimately have "x = y" and tails: "?tail xs r = ?tail ys' s"
      using delim unfolding prefix_unique_def by blast+
    have "js_join '','' (map f xs) @ close # r = js_join '','' (map f ys') @ close # s"
      using tails close by (auto split: if_splits)
    with Cons.IH [of ys'] Cons.prems ys tails close have "xs = ys' \<and> r = s"
      by (auto split: if_splits)
    with \<open>x = y\<close> ys show ?thesis by simp
  qed
qed

lemma json_field_prefix:
  assumes "prefix_unique json_enc (snd x) (snd y)"
  shows "prefix_unique json_field x y"
  unfolding prefix_unique_def
proof (intro allI impI)
  fix r s
  assume delims: "json_delim r" "json_delim s" and "json_field x @ r = json_field y @ s"
  then have "json_quote (fst x) @ '':'' @ json_enc (snd x) @ r
      = json_quote (fst y) @ '':'' @ json_enc (snd y) @ s"
    by (simp add: json_field_def)
  then have "fst x = fst y" "json_enc (snd x) @ r = json_enc (snd y) @ s"
    by (auto dest: json_quote_prefix)
  with assms delims show "x = y \<and> r = s"
    unfolding prefix_unique_def by (auto intro: prod_eqI)
qed

lemma json_enc_append_hd:
  assumes "json_clean v" "json_enc v @ r = c # t"
  shows "case v of JNull \<Rightarrow> c = CHR ''n'' | JBool _ \<Rightarrow> c \<in> {CHR ''t'', CHR ''f''}
     | JNum _ \<Rightarrow> is_digit c \<or> c = CHR ''-'' | JStr _ \<Rightarrow> c = CHR 0x22
     | JArr _ \<Rightarrow> c = CHR ''['' | JObj _ \<Rightarrow> c = CHR ''{'' | JUndef \<Rightarrow> False"
proof (cases v)
  case (JNum i)
  obtain d u where "dec_int i = d # u" "is_digit d \<or> d = CHR ''-''"
    using dec_int_hd by blast
  with assms JNum show ?thesis by (auto simp: json_enc_clean_simps)
qed (use assms in \<open>auto simp: json_enc_clean_simps json_quote_def split: if_splits\<close>)

lemma json_enc_same_kind:
  assumes "json_clean v" "json_clean w" "json_enc v @ r = json_enc w @ s"
  shows "(case v of JNull \<Rightarrow> w = JNull | JBool _ \<Rightarrow> (\<exists>b. w = JBool b) | JNum _ \<Rightarrow> (\<exists>i. w = JNum i)
     | JStr _ \<Rightarrow> (\<exists>t. w = JStr t) | JArr _ \<Rightarrow> (\<exists>ws. w = JArr ws)
     | JObj _ \<Rightarrow> (\<exists>kvs. w = JObj kvs) | JUndef \<Rightarrow> False)"
proof -
  obtain c t where v: "json_enc v = c # t" using json_enc_hd [OF assms(1)] by blast
  then have "json_enc v @ r = c # (t @ r)" "json_enc w @ s = c # (t @ r)"
    using assms(3) by simp_all
  from json_enc_append_hd [OF assms(1) this(1)] json_enc_append_hd [OF assms(2) this(2)]
  show ?thesis by (cases v; cases w) (auto simp: is_digit_def)
qed

lemma json_enc_prefix: "json_clean v \<Longrightarrow> json_clean w \<Longrightarrow> prefix_unique json_enc v w"
proof (induction v arbitrary: w)
  case JNull
  then show ?case
    using json_enc_same_kind [of JNull w] by (auto simp: prefix_unique_def)
next
  case (JBool b)
  then show ?case
    using json_enc_same_kind [of "JBool b" w]
    by (fastforce simp: prefix_unique_def json_enc_clean_simps split: if_splits)
next
  case (JNum i)
  then show ?case
    using json_enc_same_kind [of "JNum i" w] dec_int_prefix
    by (fastforce simp: prefix_unique_def json_enc_clean_simps)
next
  case (JStr t)
  then show ?case
    using json_enc_same_kind [of "JStr t" w]
    by (fastforce simp: prefix_unique_def json_enc_clean_simps dest: json_quote_prefix)
next
  case (JArr vs)
  show ?case
    unfolding prefix_unique_def
  proof (intro allI impI)
    fix r s
    assume eq: "json_enc (JArr vs) @ r = json_enc w @ s"
    obtain ws where w: "w = JArr ws"
      using json_enc_same_kind [OF JArr.prems eq] by auto
    from JArr.prems w have clean: "\<And>x. x \<in> set vs \<Longrightarrow> json_clean x" "\<And>y. y \<in> set ws \<Longrightarrow> json_clean y"
      by (auto simp: list_all_iff)
    have "vs = ws \<and> r = s"
      by (rule join_prefix [where f = json_enc and close = "CHR '']''"])
        (use eq w clean JArr.IH json_enc_hd in \<open>auto simp: json_enc_clean_simps, (metis (no_types, lifting) insert_iff)+\<close>)
    with w show "JArr vs = w \<and> r = s" by simp
  qed
next
  case (JObj kvs)
  show ?case
    unfolding prefix_unique_def
  proof (intro allI impI)
    fix r s
    assume eq: "json_enc (JObj kvs) @ r = json_enc w @ s"
    obtain jws where w: "w = JObj jws"
      using json_enc_same_kind [OF JObj.prems eq] by auto
    from JObj.prems w have clean: "\<And>x. x \<in> set kvs \<Longrightarrow> json_clean (snd x)"
        "\<And>y. y \<in> set jws \<Longrightarrow> json_clean (snd y)"
      by (auto simp: list_all_iff)
    have "kvs = jws \<and> r = s"
    proof (rule join_prefix [where f = json_field and close = "CHR ''}''"])
      show "prefix_unique json_field x y" if "x \<in> set kvs" "y \<in> set jws" for x y
        using JObj.IH [OF that(1), of "snd x" "snd y"] clean that
        by (auto intro: json_field_prefix simp: snds.simps)
    qed (use eq w JObj.prems in \<open>auto simp: json_enc_clean_simps json_field_def json_quote_def\<close>)
    with w show "JObj kvs = w \<and> r = s" by simp
  qed
qed simp

theorem json_stringify_inj:
  assumes "json_clean v" "json_clean w" "json_stringify v = json_stringify w"
  shows "v = w"
proof -
  from assms have "json_enc v @ [] = json_enc w @ []"
    by (simp add: json_enc_def)
  moreover have "prefix_unique json_enc v w" using assms by (intro json_enc_prefix)
  ultimately show ?thesis unfolding prefix_unique_def by (auto simp: json_delim_def)
qed

end
