(* ===== verification/Api_Types.thy ===== *)
theory Api_Types
  imports Js_Json
begin

text \<open>
  The data of the Merchant API (\<open>api/src/types/invoice.ts\<close>, \<open>api/src/types/errors.ts\<close>): error
  codes with their HTTP status, the exceptions the services throw, invoices, settlements, API
  keys and the protocol constants. Optional properties are \<open>option\<close>s; time stamps kept as ISO
  strings in the code are strings here, and \<open>dateParse\<close> of \<open>js_rt\<close> reads them.
\<close>

section \<open>Error codes\<close>

datatype error_code =
    INVALID_API_KEY
  | UNAUTHORIZED_MERCHANT
  | INVALID_NFT_ADDRESS
  | NFT_NOT_WHITELISTED
  | INVALID_AMOUNT
  | INVALID_METADATA
  | INVOICE_NOT_FOUND
  | INVOICE_EXPIRED
  | RATE_LIMIT_EXCEEDED
  | INTERNAL_ERROR
  | BLOCKCHAIN_UNAVAILABLE
  | UNTRUSTED_SETTLEMENT_SOURCE

fun error_code_string :: "error_code \<Rightarrow> string" where
  "error_code_string INVALID_API_KEY = ''INVALID_API_KEY''"
| "error_code_string UNAUTHORIZED_MERCHANT = ''UNAUTHORIZED_MERCHANT''"
| "error_code_string INVALID_NFT_ADDRESS = ''INVALID_NFT_ADDRESS''"
| "error_code_string NFT_NOT_WHITELISTED = ''NFT_NOT_WHITELISTED''"
| "error_code_string INVALID_AMOUNT = ''INVALID_AMOUNT''"
| "error_code_string INVALID_METADATA = ''INVALID_METADATA''"
| "error_code_string INVOICE_NOT_FOUND = ''INVOICE_NOT_FOUND''"
| "error_code_string INVOICE_EXPIRED = ''INVOICE_EXPIRED''"
| "error_code_string RATE_LIMIT_EXCEEDED = ''RATE_LIMIT_EXCEEDED''"
| "error_code_string INTERNAL_ERROR = ''INTERNAL_ERROR''"
| "error_code_string BLOCKCHAIN_UNAVAILABLE = ''BLOCKCHAIN_UNAVAILABLE''"
| "error_code_string UNTRUSTED_SETTLEMENT_SOURCE = ''UNTRUSTED_SETTLEMENT_SOURCE''"

fun ERROR_CODE_HTTP_STATUS :: "error_code \<Rightarrow> nat" where
  "ERROR_CODE_HTTP_STATUS INVALID_API_KEY = 401"
| "ERROR_CODE_HTTP_STATUS UNAUTHORIZED_MERCHANT = 403"
| "ERROR_CODE_HTTP_STATUS INVALID_NFT_ADDRESS = 400"
| "ERROR_CODE_HTTP_STATUS NFT_NOT_WHITELISTED = 403"
| "ERROR_CODE_HTTP_STATUS INVALID_AMOUNT = 400"
| "ERROR_CODE_HTTP_STATUS INVALID_METADATA = 400"
| "ERROR_CODE_HTTP_STATUS INVOICE_NOT_FOUND = 404"
| "ERROR_CODE_HTTP_STATUS INVOICE_EXPIRED = 410"
| "ERROR_CODE_HTTP_STATUS RATE_LIMIT_EXCEEDED = 429"
| "ERROR_CODE_HTTP_STATUS INTERNAL_ERROR = 500"
| "ERROR_CODE_HTTP_STATUS BLOCKCHAIN_UNAVAILABLE = 503"
| "ERROR_CODE_HTTP_STATUS UNTRUSTED_SETTLEMENT_SOURCE = 403"

definition all_error_codes :: "error_code list" where
  "all_error_codes =
     [INVALID_API_KEY, UNAUTHORIZED_MERCHANT, INVALID_NFT_ADDRESS, NFT_NOT_WHITELISTED,
      INVALID_AMOUNT, INVALID_METADATA, INVOICE_NOT_FOUND, INVOICE_EXPIRED, RATE_LIMIT_EXCEEDED,
      INTERNAL_ERROR, BLOCKCHAIN_UNAVAILABLE, UNTRUSTED_SETTLEMENT_SOURCE]"

text \<open>The lookup by string; a string that is no code falls back to 500.\<close>

definition getHttpStatusForErrorCode :: "string \<Rightarrow> nat" where
  "getHttpStatusForErrorCode code =
     (case find (\<lambda>c. error_code_string c = code) all_error_codes of
        Some c \<Rightarrow> ERROR_CODE_HTTP_STATUS c
      | None \<Rightarrow> 500)"

text \<open>
  What a service call can throw: a \<open>ValidationError\<close> with its code, message and optional
  details, or any other \<open>Error\<close> with its name and message.
\<close>

type_synonym details = "(string \<times> json) list"

datatype exn =
    ValidationError error_code string "details option"
  | OtherError string string

section \<open>Invoices and settlements\<close>

datatype invoice_status = Pending | Settled | Expired

record settlement =
  st_payer_nft :: string
  st_merchant_nft :: string
  st_amount_tbc :: string
  st_block_number :: int
  st_tx_hash :: string
  st_timestamp :: string
  st_payload_hash :: string
  st_on_chain_verified :: bool
  st_verification_url :: string
  st_confirmations :: "int option"
  st_is_final :: "bool option"

record invoice =
  iv_id :: string
  iv_merchant_nft :: string
  iv_amount_tbc :: string
  iv_currency :: string
  iv_metadata :: "details option"
  iv_status :: invoice_status
  iv_created_at :: string
  iv_expires_at :: string
  iv_payment_url :: string
  iv_settlement :: "settlement option"

record public_invoice_view =
  pv_id :: string
  pv_amount_tbc :: string
  pv_currency :: string
  pv_status :: invoice_status
  pv_created_at :: string
  pv_expires_at :: string
  pv_payment_url :: string

record invoice_status_response =
  sr_id :: string
  sr_status :: invoice_status
  sr_created_at :: string
  sr_expires_at :: string
  sr_settlement :: "settlement option"

section \<open>API keys\<close>

datatype permission = InvoiceCreate | InvoiceRead | InvoiceStatusScope

record rate_limits =
  invoice_create_rpm :: nat
  invoice_read_rpm :: nat
  invoice_status_rpm :: nat

record api_key =
  ak_id :: string
  ak_hash :: string
  ak_merchant_nft :: string
  ak_permissions :: "permission list"
  ak_rate_limits :: rate_limits
  ak_created_at :: string
  ak_expires_at :: "string option"
  ak_last_used_at :: "string option"
  ak_is_active :: bool

section \<open>Constants\<close>

definition WHITELISTED_NFT_COLLECTIONS :: "string list" where
  "WHITELISTED_NFT_COLLECTIONS =
     [''EQAjHkHtt1MIoU5c7dks73Rz8NMxAA3oStSrcQ_qgn3il-Le'',
      ''EQBedyJo8oEKJEmGUaxPELXM8dQUzXN3QYx7e8WBsfu9aVQ7'']"

definition MAX_TBC_AMOUNT :: int where
  "MAX_TBC_AMOUNT = 2 ^ 120 - 1"

definition MAX_METADATA_FIELDS :: nat where
  "MAX_METADATA_FIELDS = 10"

definition MAX_METADATA_SIZE :: nat where
  "MAX_METADATA_SIZE = 1024"

definition DEFAULT_EXPIRY_MS :: int where
  "DEFAULT_EXPIRY_MS = 24 * 60 * 60 * 1000"

definition MIN_CONFIRMATIONS :: int where
  "MIN_CONFIRMATIONS = 6"

definition IDEMPOTENCY_TTL_MS :: int where
  "IDEMPOTENCY_TTL_MS = 24 * 60 * 60 * 1000"

section \<open>The error registry\<close>

lemma error_code_string_inj [simp]: "error_code_string c = error_code_string d \<longleftrightarrow> c = d"
  by (cases c; cases d) simp_all

lemma all_error_codes_complete: "c \<in> set all_error_codes"
  by (cases c) (simp_all add: all_error_codes_def)

lemma find_error_code:
  "find (\<lambda>d. error_code_string d = error_code_string c) all_error_codes = Some c"
  by (cases c) (simp_all add: all_error_codes_def)

lemma http_status_of_code:
  "getHttpStatusForErrorCode (error_code_string c) = ERROR_CODE_HTTP_STATUS c"
  unfolding getHttpStatusForErrorCode_def find_error_code by simp

lemma http_status_unknown:
  "(\<forall>c. error_code_string c \<noteq> s) \<Longrightarrow> getHttpStatusForErrorCode s = 500"
  by (auto simp: getHttpStatusForErrorCode_def find_Some_iff split: option.splits)

lemma http_status_is_error: "400 \<le> ERROR_CODE_HTTP_STATUS c \<and> ERROR_CODE_HTTP_STATUS c < 600"
  by (cases c) simp_all

end
