(* ===== verification/Api_Validation.thy ===== *)
theory Api_Validation
  imports Api_Types
begin

text \<open>
  Input validation of the Merchant API (\<open>api/src/utils/validation.ts\<close>). The validators take
  \<open>json\<close> values, because the request body is untyped at run time and they test \<open>typeof\<close>
  themselves; each returns \<open>Inr True\<close> or the \<open>ValidationError\<close> it throws. \<open>js_bigint\<close> is the
  language's \<open>BigInt(string)\<close>.
\<close>

section \<open>Regular expressions of the validators\<close>

definition is_b64url :: "char \<Rightarrow> bool" where
  "is_b64url c \<longleftrightarrow> (CHR ''A'' \<le> c \<and> c \<le> CHR ''Z'') \<or> (CHR ''a'' \<le> c \<and> c \<le> CHR ''z'') \<or> is_digit c
     \<or> c = CHR ''_'' \<or> c = CHR ''-''"

definition is_word_char :: "char \<Rightarrow> bool" where
  "is_word_char c \<longleftrightarrow> (CHR ''a'' \<le> c \<and> c \<le> CHR ''z'') \<or> (CHR ''A'' \<le> c \<and> c \<le> CHR ''Z'') \<or> is_digit c
     \<or> c = CHR ''_''"

definition tonAddressRegex :: "string \<Rightarrow> bool" where
  "tonAddressRegex s \<longleftrightarrow> length s = 48 \<and> s ! 0 \<in> {CHR ''E'', CHR ''k''} \<and> s ! 1 \<in> {CHR ''Q'', CHR ''q''}
     \<and> list_all is_b64url (drop 2 s)"

definition validKeyRegex :: "string \<Rightarrow> bool" where
  "validKeyRegex s \<longleftrightarrow> s \<noteq> [] \<and> list_all is_word_char s"

definition uuidRegex :: "string \<Rightarrow> bool" where
  "uuidRegex s \<longleftrightarrow> starts_with ''inv_'' s \<and> length s = 20 \<and> list_all is_hex_lower (drop 4 s)"

section \<open>\<open>BigInt(string)\<close>\<close>

definition base_digit :: "char \<Rightarrow> nat" where
  "base_digit c =
     (if is_digit c then digit_val c
      else if CHR ''a'' \<le> c \<and> c \<le> CHR ''f'' then of_char c - 87
      else if CHR ''A'' \<le> c \<and> c \<le> CHR ''F'' then of_char c - 55
      else 99)"

definition base_value :: "nat \<Rightarrow> string \<Rightarrow> int option" where
  "base_value b s =
     (if s \<noteq> [] \<and> list_all (\<lambda>c. base_digit c < b) s
      then Some (int (foldl (\<lambda>a c. b * a + base_digit c) 0 s)) else None)"

fun signed_decimal :: "string \<Rightarrow> int option" where
  "signed_decimal (c # s) =
     (if c = CHR ''-'' then map_option uminus (base_value 10 s)
      else if c = CHR ''+'' then base_value 10 s
      else base_value 10 (c # s))"
| "signed_decimal [] = None"

definition js_bigint :: "string \<Rightarrow> int option" where
  "js_bigint str = (let s = js_trim str in
     if s = [] then Some 0
     else if starts_with ''0x'' s \<or> starts_with ''0X'' s then base_value 16 (drop 2 s)
     else if starts_with ''0o'' s \<or> starts_with ''0O'' s then base_value 8 (drop 2 s)
     else if starts_with ''0b'' s \<or> starts_with ''0B'' s then base_value 2 (drop 2 s)
     else signed_decimal s)"

section \<open>Validators\<close>

definition validateTonAddress :: "json \<Rightarrow> exn + bool" where
  "validateTonAddress address =
     (if \<not> js_truthy address \<or> \<not> is_jstr address then
        Inl (ValidationError INVALID_NFT_ADDRESS ''Address must be a non-empty string''
          (Some [(''address'', address)]))
      else if \<not> tonAddressRegex (jstr address) then
        Inl (ValidationError INVALID_NFT_ADDRESS ''Invalid TON address format''
          (Some [(''address'', address), (''expected'', JStr ''EQxxxxx... (48 characters)'')]))
      else Inr True)"

definition validateWhitelistedNFT :: "json \<Rightarrow> exn + bool" where
  "validateWhitelistedNFT nftAddress =
     res_bind (validateTonAddress nftAddress) (\<lambda>_.
       if \<not> List.member WHITELISTED_NFT_COLLECTIONS (jstr nftAddress) then
         Inl (ValidationError NFT_NOT_WHITELISTED ''NFT address is not from a whitelisted collection''
           (Some [(''nftAddress'', nftAddress)]))
       else Inr True)"

definition validateAmount :: "json \<Rightarrow> exn + bool" where
  "validateAmount amountTbc =
     (if \<not> js_truthy amountTbc \<or> \<not> is_jstr amountTbc then
        Inl (ValidationError INVALID_AMOUNT ''Amount must be a non-empty string''
          (Some [(''amountTbc'', amountTbc)]))
      else case js_bigint (jstr amountTbc) of
        None \<Rightarrow>
          Inl (ValidationError INVALID_AMOUNT ''Amount must be a valid integer''
            (Some [(''amountTbc'', amountTbc),
                   (''error'', JStr (''Cannot convert '' @ jstr amountTbc @ '' to a BigInt''))]))
      | Some amount \<Rightarrow>
          if amount \<le> 0 then
            Inl (ValidationError INVALID_AMOUNT ''Amount must be greater than zero''
              (Some [(''amountTbc'', amountTbc), (''constraint'', JStr ''amount_tbc > 0'')]))
          else if amount > MAX_TBC_AMOUNT then
            Inl (ValidationError INVALID_AMOUNT ''Amount exceeds maximum allowed value''
              (Some [(''amountTbc'', amountTbc), (''max'', JStr (dec_int MAX_TBC_AMOUNT)),
                     (''constraint'', JStr ''amount_tbc <= 2^120 - 1'')]))
          else if \<not> canonical_dec (jstr amountTbc) then
            Inl (ValidationError INVALID_AMOUNT
              ''Amount must be a canonical positive decimal integer (no signs, whitespace, leading zeros, or 0x/0o/0b prefixes)''
              (Some [(''amountTbc'', amountTbc), (''constraint'', JStr ''^[1-9][0-9]*$'')]))
          else Inr True)"

fun check_metadata_keys :: "string list \<Rightarrow> exn + unit" where
  "check_metadata_keys [] = Inr ()"
| "check_metadata_keys (key # ks) =
     (if \<not> validKeyRegex key then
        Inl (ValidationError INVALID_METADATA ''Metadata keys must be alphanumeric with underscores''
          (Some [(''invalidKey'', JStr key), (''pattern'', JStr ''a-zA-Z0-9_'')]))
      else if key = ''invoice_id'' then
        Inl (ValidationError INVALID_METADATA
          (''Metadata key '' @ CHR 0x27 # ''invoice_id'' @ CHR 0x27 # '' is reserved and cannot be used'')
          (Some [(''invalidKey'', JStr key)]))
      else check_metadata_keys ks)"

text \<open>\<open>typeof\<close> of a metadata value; \<open>null\<close>, arrays and objects are \<open>'object'\<close>.\<close>

fun js_typeof :: "json \<Rightarrow> string" where
  "js_typeof JUndef = ''undefined''"
| "js_typeof (JBool _) = ''boolean''"
| "js_typeof (JNum _) = ''number''"
| "js_typeof (JStr _) = ''string''"
| "js_typeof _ = ''object''"

fun check_metadata_values :: "(string \<times> json) list \<Rightarrow> exn + unit" where
  "check_metadata_values [] = Inr ()"
| "check_metadata_values ((key, value) # kvs) =
     (if js_typeof value \<noteq> ''string'' \<and> js_typeof value \<noteq> ''number'' \<and> js_typeof value \<noteq> ''boolean''
         \<and> value \<noteq> JUndef then
        Inl (ValidationError INVALID_METADATA
          ''Metadata values must be string, number, boolean, or undefined''
          (Some [(''key'', JStr key), (''value'', value), (''type'', JStr (js_typeof value))]))
      else check_metadata_values kvs)"

fun is_jobj :: "json \<Rightarrow> bool" where
  "is_jobj (JObj _) = True"
| "is_jobj _ = False"

fun jfields :: "json \<Rightarrow> (string \<times> json) list" where
  "jfields (JObj kvs) = kvs"
| "jfields _ = []"

definition validateMetadata :: "json \<Rightarrow> exn + bool" where
  "validateMetadata metadata =
     (if \<not> js_truthy metadata then Inr True
      else if \<not> is_jobj metadata then
        Inl (ValidationError INVALID_METADATA ''Metadata must be an object''
          (Some [(''metadata'', metadata)]))
      else let fields = map fst (jfields metadata) in
        if length fields > MAX_METADATA_FIELDS then
          Inl (ValidationError INVALID_METADATA
            (''Metadata cannot have more than '' @ dec MAX_METADATA_FIELDS @ '' fields'')
            (Some [(''count'', JNum (int (length fields))), (''max'', JNum (int MAX_METADATA_FIELDS))]))
        else
          res_bind (check_metadata_keys fields) (\<lambda>_.
          res_bind (check_metadata_values (jfields metadata)) (\<lambda>_.
            let size = utf8_length (or_null (json_stringify metadata)) in
            if size > MAX_METADATA_SIZE then
              Inl (ValidationError INVALID_METADATA
                (''Metadata size exceeds '' @ dec MAX_METADATA_SIZE @ '' bytes'')
                (Some [(''size'', JNum (int size)), (''max'', JNum (int MAX_METADATA_SIZE))]))
            else Inr True)))"

definition validateTimestamp :: "js_rt \<Rightarrow> json \<Rightarrow> exn + bool" where
  "validateTimestamp rt timestamp =
     (if \<not> js_truthy timestamp \<or> \<not> is_jstr timestamp then
        Inl (ValidationError INVALID_METADATA ''Timestamp must be a non-empty string''
          (Some [(''timestamp'', timestamp)]))
      else if dateParse rt (jstr timestamp) = None then
        Inl (ValidationError INVALID_METADATA ''Invalid ISO 8601 timestamp''
          (Some [(''timestamp'', timestamp), (''expected'', JStr ''YYYY-MM-DDTHH:mm:ss.sssZ'')]))
      else Inr True)"

definition validateExpirationTime :: "js_rt \<Rightarrow> int \<Rightarrow> json \<Rightarrow> exn + bool" where
  "validateExpirationTime rt now expiresAt =
     res_bind (validateTimestamp rt expiresAt) (\<lambda>_.
       if date_le (dateParse rt (jstr expiresAt)) now then
         Inl (ValidationError INVALID_METADATA ''Expiration time must be in the future''
           (Some [(''expiresAt'', expiresAt), (''now'', JStr (toISO rt now))]))
       else Inr True)"

definition validateInvoiceId :: "json \<Rightarrow> exn + bool" where
  "validateInvoiceId invoiceId =
     (if \<not> js_truthy invoiceId \<or> \<not> is_jstr invoiceId then
        Inl (ValidationError INVOICE_NOT_FOUND ''Invoice ID must be a non-empty string''
          (Some [(''invoiceId'', invoiceId)]))
      else if \<not> uuidRegex (jstr invoiceId) then
        Inl (ValidationError INVOICE_NOT_FOUND ''Invalid invoice ID format''
          (Some [(''invoiceId'', invoiceId), (''expected'', JStr ''inv_<16 hex characters>'')]))
      else Inr True)"

section \<open>Facts about the validators\<close>

lemma base_digit_of_digit: "is_digit c \<Longrightarrow> base_digit c = digit_val c"
  by (simp add: base_digit_def)

lemma base_value_10: "s \<noteq> [] \<Longrightarrow> list_all is_digit s \<Longrightarrow> base_value 10 s = Some (int (digits_val s))"
proof -
  assume "s \<noteq> []" and digits: "list_all is_digit s"
  then have "list_all (\<lambda>c. base_digit c < 10) s"
    by (simp add: list_all_iff base_digit_of_digit digit_val_lt)
  moreover have "foldl (\<lambda>a c. 10 * a + base_digit c) a s = foldl (\<lambda>a c. 10 * a + digit_val c) a s" for a
    using digits by (induction s arbitrary: a) (simp_all add: base_digit_of_digit)
  ultimately show ?thesis
    using \<open>s \<noteq> []\<close> by (simp add: base_value_def digits_val_def)
qed

lemma js_bigint_canonical:
  assumes "canonical_dec s"
  shows "js_bigint s = Some (int (digits_val s))"
proof -
  obtain c t where s: "s = c # t" "is_digit c" "c \<noteq> CHR ''0''" and digits: "list_all is_digit s"
    using assms by (cases s) (auto simp: canonical_dec_def)
  have trim: "js_trim s = s"
    using digits by (intro js_trim_id) (auto simp: list_all_iff digit_not_space)
  have "c \<noteq> CHR ''+''" "c \<noteq> CHR ''-''" using s by (auto simp: is_digit_def)
  with s trim digits base_value_10 [of s] show ?thesis
    by (simp add: js_bigint_def Let_def starts_with_def)
qed

lemma validateAmount_accepts:
  "validateAmount v = Inr b \<longleftrightarrow> b \<and> (\<exists>n. 0 < n \<and> int n \<le> MAX_TBC_AMOUNT \<and> v = JStr (dec n))"
proof -
  have "validateAmount (JStr s) = Inr b \<longleftrightarrow>
      b \<and> canonical_dec s \<and> int (digits_val s) \<le> MAX_TBC_AMOUNT" for s
  proof (cases "canonical_dec s")
    case True
    then have "s \<noteq> []" by (auto simp: canonical_dec_def)
    with True canonical_dec_pos [OF True] show ?thesis
      by (simp add: validateAmount_def js_bigint_canonical not_less)
  next
    case False
    then show ?thesis by (auto simp: validateAmount_def split: option.splits if_splits)
  qed
  note str = this
  show ?thesis
  proof (cases v)
    case (JStr s)
    show ?thesis unfolding JStr str canonical_dec_iff by auto
  qed (simp_all add: validateAmount_def)
qed

lemma validateAmount_rejects: "validateAmount v = Inl e \<Longrightarrow> \<exists>m d. e = ValidationError INVALID_AMOUNT m d"
  by (auto simp: validateAmount_def split: if_splits option.splits)

lemma validateTonAddress_accepts:
  "validateTonAddress v = Inr b \<longleftrightarrow> b \<and> (\<exists>s. v = JStr s \<and> tonAddressRegex s)"
  by (cases v) (auto simp: validateTonAddress_def tonAddressRegex_def)

lemma validateWhitelistedNFT_accepts:
  "validateWhitelistedNFT v = Inr b \<longleftrightarrow>
     b \<and> (\<exists>s. v = JStr s \<and> tonAddressRegex s \<and> s \<in> set WHITELISTED_NFT_COLLECTIONS)"
  by (auto simp: validateWhitelistedNFT_def result_simps validateTonAddress_accepts split: if_splits)

lemma whitelist_wellformed: "s \<in> set WHITELISTED_NFT_COLLECTIONS \<Longrightarrow> tonAddressRegex s"
  by (auto simp: WHITELISTED_NFT_COLLECTIONS_def tonAddressRegex_def is_b64url_def is_digit_def)

lemma check_metadata_keys_ok:
  "check_metadata_keys ks = Inr u \<longleftrightarrow> (\<forall>k\<in>set ks. validKeyRegex k \<and> k \<noteq> ''invoice_id'')"
  by (induction ks) auto

definition metadata_primitive :: "json \<Rightarrow> bool" where
  "metadata_primitive v \<longleftrightarrow> (case v of JNull \<Rightarrow> False | JArr _ \<Rightarrow> False | JObj _ \<Rightarrow> False | _ \<Rightarrow> True)"

lemma check_metadata_values_ok:
  "check_metadata_values kvs = Inr u \<longleftrightarrow> (\<forall>(_, v)\<in>set kvs. metadata_primitive v)"
proof (induction kvs)
  case (Cons kv kvs)
  then show ?case by (cases kv; cases "snd kv") (auto simp: metadata_primitive_def)
qed simp

lemma validateMetadata_accepts:
  "validateMetadata (JObj kvs) = Inr b \<longleftrightarrow>
     b \<and> length kvs \<le> 10 \<and> (\<forall>(k, v)\<in>set kvs. validKeyRegex k \<and> k \<noteq> ''invoice_id'' \<and> metadata_primitive v)
     \<and> utf8_length (or_null (json_stringify (JObj kvs))) \<le> 1024"
  unfolding validateMetadata_def
  by (auto simp: Let_def result_simps check_metadata_keys_ok check_metadata_values_ok
      MAX_METADATA_FIELDS_def MAX_METADATA_SIZE_def not_less split: if_splits)

lemma validateExpirationTime_accepts:
  "validateExpirationTime rt now v = Inr b \<longleftrightarrow>
     b \<and> (\<exists>s t. v = JStr s \<and> s \<noteq> [] \<and> dateParse rt s = Some t \<and> now < t)"
  by (cases v) (auto simp: validateExpirationTime_def validateTimestamp_def result_simps split: if_splits)

lemma validateInvoiceId_accepts:
  "validateInvoiceId v = Inr b \<longleftrightarrow> b \<and> (\<exists>s. v = JStr s \<and> uuidRegex s)"
  by (cases v) (auto simp: validateInvoiceId_def uuidRegex_def)

section \<open>Properties\<close>

text \<open>
  The amount validator accepts exactly the canonical decimal renderings of the integers from 1
  to \<open>2^120 - 1\<close>, so the stored string is the one an on-chain settlement prints, and it
  rejects everything else with the code \<open>INVALID_AMOUNT\<close>.
\<close>

theorem validateAmount_exact:
  "(validateAmount v = Inr True \<longleftrightarrow> (\<exists>n. 0 < n \<and> int n \<le> 2 ^ 120 - 1 \<and> v = JStr (dec n)))
   \<and> (validateAmount v = Inr True \<or> (\<exists>m d. validateAmount v = Inl (ValidationError INVALID_AMOUNT m d)))"
proof (cases "validateAmount v")
  case (Inl e)
  with validateAmount_rejects [OF Inl] validateAmount_accepts [of v True] show ?thesis
    by (auto simp: MAX_TBC_AMOUNT_def)
next
  case (Inr b)
  with validateAmount_accepts [of v b] show ?thesis
    by (simp add: MAX_TBC_AMOUNT_def)
qed

end
