(* ===== verification/Api_Helpers.thy ===== *)
theory Api_Helpers
  imports Api_Validation
begin

text \<open>
  Helpers of the Merchant API: canonical JSON and the hashes built on it
  (\<open>api/src/utils/helpers.ts\<close>), API key generation and parsing
  (\<open>api/src/utils/apiKeyGenerator.ts\<close>), and the attestation of settlement events
  (\<open>api/src/utils/settlementAttestation.ts\<close>). Random bytes and the clock are arguments.
  The central facts: \<open>canonicalize\<close> identifies two values exactly when they agree up to the
  order of object keys and absent properties (\<open>canonicalize_eq_iff\<close>), so an idempotency key
  depends on every field of the request, and an attestation binds every field of the event.
\<close>

section \<open>Canonical JSON\<close>

function canonicalize :: "json \<Rightarrow> string option" where
  "canonicalize JUndef = None"
| "canonicalize JNull = json_stringify JNull"
| "canonicalize (JBool b) = json_stringify (JBool b)"
| "canonicalize (JNum i) = json_stringify (JNum i)"
| "canonicalize (JStr s) = json_stringify (JStr s)"
| "canonicalize (JArr vs) = Some (json_brackets (map (\<lambda>v. or_null (canonicalize v)) vs))"
| "canonicalize (JObj kvs) =
     Some (json_braces (obj_parts (map (\<lambda>(k, v). (k, canonicalize v)) (sort_key fst kvs))))"
  by pat_completeness auto
termination
proof (relation "measure size", goal_cases)
  case (2 vs v)
  then show ?case by (induction vs) auto
next
  case (3 kvs kv k v)
  then have "(k, v) \<in> set kvs" by simp
  then show ?case by (induction kvs) auto
qed simp

text \<open>The value a canonical string stands for: keys sorted, absent properties dropped.\<close>

function json_norm :: "json \<Rightarrow> json" where
  "json_norm JUndef = JUndef"
| "json_norm JNull = JNull"
| "json_norm (JBool b) = JBool b"
| "json_norm (JNum i) = JNum i"
| "json_norm (JStr s) = JStr s"
| "json_norm (JArr vs) = JArr (map (\<lambda>v. if v = JUndef then JNull else json_norm v) vs)"
| "json_norm (JObj kvs) =
     JObj (map (\<lambda>(k, v). (k, json_norm v)) (filter (\<lambda>(_, v). v \<noteq> JUndef) (sort_key fst kvs)))"
  by pat_completeness auto
termination
proof (relation "measure size", goal_cases)
  case (2 vs v)
  then show ?case by (induction vs) auto
next
  case (3 kvs kv k v)
  then have "(k, v) \<in> set kvs" by simp
  then show ?case by (induction kvs) auto
qed simp

section \<open>Identifiers, hashes, URLs and the clock\<close>

definition generateInvoiceId :: "8 word list \<Rightarrow> string" where
  "generateInvoiceId randomBytes = ''inv_'' @ to_hex randomBytes"

definition idempotency_data :: "json \<Rightarrow> string option \<Rightarrow> json" where
  "idempotency_data request keyId =
     JObj [(''key_id'', case keyId of None \<Rightarrow> JNull | Some k \<Rightarrow> JStr k),
           (''merchant_nft'', jget ''merchant_nft'' request),
           (''amount_tbc'', jget ''amount_tbc'' request),
           (''currency'', jget ''currency'' request),
           (''metadata'', if js_truthy (jget ''metadata'' request) then jget ''metadata'' request else JObj []),
           (''expires_at'', if jget ''expires_at'' request = JUndef then JNull else jget ''expires_at'' request)]"

definition or_empty :: "string option \<Rightarrow> string" where
  "or_empty x = (case x of None \<Rightarrow> [] | Some s \<Rightarrow> s)"

definition generateIdempotencyKey :: "js_rt \<Rightarrow> json \<Rightarrow> string option \<Rightarrow> string" where
  "generateIdempotencyKey rt request keyId =
     sha256 rt (or_empty (canonicalize (idempotency_data request keyId)))"

definition hashMetadata :: "js_rt \<Rightarrow> details \<Rightarrow> string" where
  "hashMetadata rt metadata = sha256 rt (or_empty (canonicalize (JObj metadata)))"

definition generateDefaultExpiry :: "js_rt \<Rightarrow> int \<Rightarrow> string" where
  "generateDefaultExpiry rt now = toISO rt (now + DEFAULT_EXPIRY_MS)"

definition generatePaymentUrl :: "string \<Rightarrow> string \<Rightarrow> string" where
  "generatePaymentUrl invoiceId baseUrl = baseUrl @ ''/pay/'' @ invoiceId"

definition generateExplorerUrl :: "string \<Rightarrow> string \<Rightarrow> string" where
  "generateExplorerUrl txHash explorer = explorer @ ''/tx/'' @ txHash"

definition isExpired :: "js_rt \<Rightarrow> int \<Rightarrow> string \<Rightarrow> bool" where
  "isExpired rt now expiresAt = date_le (dateParse rt expiresAt) now"

text \<open>
  The copy is by assignment to an object literal: assigning a primitive to \<open>__proto__\<close> has no effect, but is counted. (An object
  would become the prototype; the validation admits primitives only.)
\<close>

fun sanitize_loop :: "nat \<Rightarrow> details \<Rightarrow> details" where
  "sanitize_loop fieldCount [] = []"
| "sanitize_loop fieldCount ((key, value) # kvs) =
     (if value \<noteq> JUndef \<and> fieldCount < MAX_METADATA_FIELDS
      then (if key = ''__proto__'' then [] else [(key, value)]) @ sanitize_loop (fieldCount + 1) kvs
      else sanitize_loop fieldCount kvs)"

definition sanitizeMetadata :: "json \<Rightarrow> details option" where
  "sanitizeMetadata metadata =
     (if \<not> js_truthy metadata then None
      else let sanitized = sanitize_loop 0 (jfields metadata) in
        if length sanitized > 0 then Some sanitized else None)"

definition hashApiKey :: "js_rt \<Rightarrow> string \<Rightarrow> string \<Rightarrow> string" where
  "hashApiKey rt apiKeyValue secret = hmac rt secret apiKeyValue"

definition getCurrentTimestamp :: "js_rt \<Rightarrow> int \<Rightarrow> string" where
  "getCurrentTimestamp rt now = toISO rt now"

text \<open>
  \<open>retryWithBackoff\<close>: \<open>fn i\<close> is the outcome of the i-th attempt; the result comes with the
  delays slept. With no attempt allowed the code throws \<open>undefined\<close> (\<open>Inl None\<close>).
\<close>

function retry_loop :: "(nat \<Rightarrow> 'e + 'a) \<Rightarrow> nat \<Rightarrow> nat \<Rightarrow> nat \<Rightarrow> 'e option \<Rightarrow> nat list \<Rightarrow> ('e option + 'a) \<times> nat list" where
  "retry_loop fn maxAttempts baseDelay attempt lastError slept =
     (if attempt \<le> maxAttempts then
        (case fn attempt of
           Inr x \<Rightarrow> (Inr x, slept)
         | Inl e \<Rightarrow>
             if attempt = maxAttempts then (Inl (Some e), slept)
             else retry_loop fn maxAttempts baseDelay (attempt + 1) (Some e)
                    (slept @ [baseDelay * 2 ^ (attempt - 1)]))
      else (Inl lastError, slept))"
  by pat_completeness auto
termination
  by (relation "measure (\<lambda>(fn, m, b, a, l, s). Suc m - a)") auto

declare retry_loop.simps [simp del]

definition retryWithBackoff :: "(nat \<Rightarrow> 'e + 'a) \<Rightarrow> nat \<Rightarrow> nat \<Rightarrow> ('e option + 'a) \<times> nat list" where
  "retryWithBackoff fn maxAttempts baseDelay = retry_loop fn maxAttempts baseDelay 1 None []"

section \<open>API key format\<close>

datatype api_env = Live | Test

definition LIVE_KEY_PREFIX :: string where
  "LIVE_KEY_PREFIX = ''tbc_live_''"

definition TEST_KEY_PREFIX :: string where
  "TEST_KEY_PREFIX = ''tbc_test_''"

definition API_KEY_PATTERN :: "string \<Rightarrow> bool" where
  "API_KEY_PATTERN s \<longleftrightarrow> (starts_with ''tbc_live_'' s \<or> starts_with ''tbc_test_'' s) \<and> length s = 41
     \<and> list_all is_hex_lower (drop 9 s)"

definition generateApiKey :: "api_env \<Rightarrow> 8 word list \<Rightarrow> string" where
  "generateApiKey environment randomBytes =
     (if environment = Live then LIVE_KEY_PREFIX else TEST_KEY_PREFIX) @ to_hex randomBytes"

definition isValidApiKeyFormat :: "string \<Rightarrow> bool" where
  "isValidApiKeyFormat key = API_KEY_PATTERN key"

definition getApiKeyEnvironment :: "string \<Rightarrow> api_env option" where
  "getApiKeyEnvironment key =
     (if starts_with LIVE_KEY_PREFIX key then Some Live
      else if starts_with TEST_KEY_PREFIX key then Some Test
      else None)"

definition redactApiKey :: "string \<Rightarrow> string" where
  "redactApiKey key =
     (if key = [] then []
      else let visible = take 12 key in
        visible @ replicate (length key - length visible) CHR ''*'')"

section \<open>Settlement attestation\<close>

record settlement_event =
  ev_payer_nft :: string
  ev_merchant_nft :: string
  ev_amount_tbc :: string
  ev_payload_hash :: string
  ev_block_number :: int
  ev_tx_hash :: string
  ev_timestamp :: int

definition settlement_event_object :: "settlement_event \<Rightarrow> json" where
  "settlement_event_object event =
     JObj [(''amount_tbc'', JStr (ev_amount_tbc event)),
           (''block_number'', JNum (ev_block_number event)),
           (''merchant_nft'', JStr (ev_merchant_nft event)),
           (''payer_nft'', JStr (ev_payer_nft event)),
           (''payload_hash'', JStr (ev_payload_hash event)),
           (''timestamp'', JNum (ev_timestamp event)),
           (''tx_hash'', JStr (ev_tx_hash event))]"

text \<open>
  \<open>JSON.stringify(canonical, keys)\<close> prints the listed properties in the list's order; the keys
  are those of the object, sorted.
\<close>

definition canonicalizeSettlementEvent :: "settlement_event \<Rightarrow> string" where
  "canonicalizeSettlementEvent event =
     or_empty (json_stringify (JObj (sort_key fst (jfields (settlement_event_object event)))))"

definition signSettlementEvent :: "js_rt \<Rightarrow> string \<Rightarrow> settlement_event \<Rightarrow> string" where
  "signSettlementEvent rt secret event = hmac rt secret (canonicalizeSettlementEvent event)"

text \<open>
  \<open>crypto.timingSafeEqual\<close> throws when the byte lengths of the buffers differ, and the guard
  compares string lengths.
\<close>

definition constantTimeEqual :: "string \<Rightarrow> string \<Rightarrow> exn + bool" where
  "constantTimeEqual a b =
     (if length a \<noteq> length b then Inr False
      else if utf8_length a \<noteq> utf8_length b then
        Inl (OtherError ''RangeError'' ''Input buffers must have the same byte length'')
      else Inr (a = b))"

definition verifySettlementAttestation ::
    "js_rt \<Rightarrow> string \<Rightarrow> settlement_event \<Rightarrow> string option \<Rightarrow> exn + bool" where
  "verifySettlementAttestation rt secret event attestation =
     (case attestation of
        None \<Rightarrow> Inr False
      | Some a \<Rightarrow>
          if length a = 0 then Inr False
          else constantTimeEqual a (signSettlementEvent rt secret event))"

section \<open>Facts about canonical JSON and the helpers\<close>

lemma obj_parts_norm:
  assumes "\<And>k v. (k, v) \<in> set xs \<Longrightarrow> canonicalize v = json_stringify (json_norm v)"
  shows "obj_parts (map (\<lambda>(k, v). (k, canonicalize v)) xs) =
     obj_parts (map (\<lambda>(k, v). (k, json_stringify v))
       (map (\<lambda>(k, v). (k, json_norm v)) (filter (\<lambda>(_, v). v \<noteq> JUndef) xs)))"
  using assms
proof (induction xs)
  case (Cons x xs)
  obtain k v where x: "x = (k, v)" by (cases x)
  from Cons have "obj_parts (map (\<lambda>(k, v). (k, canonicalize v)) xs) =
     obj_parts (map (\<lambda>(k, v). (k, json_stringify v))
       (map (\<lambda>(k, v). (k, json_norm v)) (filter (\<lambda>(_, v). v \<noteq> JUndef) xs)))"
    by (intro Cons.IH) (use Cons.prems in auto)
  moreover have "canonicalize v = json_stringify (json_norm v)" using Cons.prems [of k v] x by simp
  ultimately show ?case
    using x by (cases "json_stringify (json_norm v)") auto
qed simp

lemma canonicalize_norm: "canonicalize v = json_stringify (json_norm v)"
proof (induction v rule: canonicalize.induct)
  case (6 vs)
  then show ?case by (auto simp: or_null_def intro!: arg_cong [where f = json_brackets])
next
  case (7 kvs)
  have "canonicalize v = json_stringify (json_norm v)" if "(k, v) \<in> set (sort_key fst kvs)" for k v
    using "7.IH" [OF that refl] .
  then show ?case by (simp add: obj_parts_norm del: set_sort)
qed simp_all

lemma json_norm_undef [simp]: "json_norm v = JUndef \<longleftrightarrow> v = JUndef"
  by (cases v) simp_all

lemma json_norm_clean: "v \<noteq> JUndef \<Longrightarrow> json_clean (json_norm v)"
proof (induction v rule: json_norm.induct)
  case (6 vs)
  then show ?case by (auto simp: list_all_iff)
next
  case (7 kvs)
  have "json_clean (json_norm v)" if "(k, v) \<in> set kvs" "v \<noteq> JUndef" for k v
    using "7.IH" [of "(k, v)" k v] that by simp
  then show ?case by (auto simp: list_all_iff)
qed simp_all

lemma canonicalize_eq_iff: "canonicalize v = canonicalize w \<longleftrightarrow> json_norm v = json_norm w"
proof (cases "v = JUndef \<or> w = JUndef")
  case True
  have "canonicalize u = None \<longleftrightarrow> u = JUndef" for u by (cases u) simp_all
  moreover have "json_norm u = JUndef \<longleftrightarrow> u = JUndef" for u by simp
  ultimately show ?thesis using True by (metis canonicalize.simps(1) json_norm.simps(1))
next
  case False
  then show ?thesis
    using json_stringify_inj [OF json_norm_clean json_norm_clean] by (auto simp: canonicalize_norm)
qed

lemma sort_key_unique:
  assumes "distinct (map fst xs)" "mset xs = mset ys"
  shows "sort_key fst xs = sort_key fst ys"
proof (rule map_sorted_distinct_set_unique [where f = fst])
  have set: "set xs = set ys" using assms(2) by (metis set_mset_mset)
  have "mset (map fst xs) = mset (map fst ys)" using assms(2) by simp
  with assms(1) have dy: "distinct (map fst ys)" by (metis mset_eq_imp_distinct_iff)
  show "inj_on fst (set (sort_key fst xs) \<union> set (sort_key fst ys))"
    using assms(1) set by (simp add: distinct_map)
  show "distinct (map fst (sort_key fst xs))" "distinct (map fst (sort_key fst ys))"
    using assms(1) dy by (simp_all add: distinct_map)
  show "set (sort_key fst xs) = set (sort_key fst ys)" using set by simp
qed simp_all

lemma canonicalize_key_order:
  "distinct (map fst kvs) \<Longrightarrow> mset kvs = mset kvs' \<Longrightarrow> canonicalize (JObj kvs) = canonicalize (JObj kvs')"
  using sort_key_unique by force

lemma map_of_sort_key: "distinct (map fst kvs) \<Longrightarrow> map_of (sort_key fst kvs) = map_of kvs"
  by (rule map_of_inject_set [THEN iffD2]) (simp_all add: distinct_map)

lemma map_of_norm_fields:
  "distinct (map fst xs) \<Longrightarrow>
   map_of (map (\<lambda>(k, v). (k, json_norm v)) (filter (\<lambda>(_, v). v \<noteq> JUndef) xs)) k =
   (case map_of xs k of None \<Rightarrow> None | Some v \<Rightarrow> if v = JUndef then None else Some (json_norm v))"
  by (induction xs) (auto simp: image_iff dest: map_of_SomeD split: option.splits)

lemma json_norm_field:
  assumes "json_norm (JObj kvs) = json_norm (JObj kvs')"
    and "distinct (map fst kvs)" "distinct (map fst kvs')"
  shows "json_norm (jget k (JObj kvs)) = json_norm (jget k (JObj kvs'))"
proof -
  have d: "distinct (map fst (sort_key fst kvs))" "distinct (map fst (sort_key fst kvs'))"
    using assms(2,3) by (simp_all add: distinct_map)
  have "map_of (map (\<lambda>(k, v). (k, json_norm v)) (filter (\<lambda>(_, v). v \<noteq> JUndef) (sort_key fst kvs))) k
      = map_of (map (\<lambda>(k, v). (k, json_norm v)) (filter (\<lambda>(_, v). v \<noteq> JUndef) (sort_key fst kvs'))) k"
    using assms(1) by simp
  then show ?thesis
    unfolding map_of_norm_fields [OF d(1)] map_of_norm_fields [OF d(2)]
    by (cases "map_of kvs k"; cases "map_of kvs' k")
      (simp_all add: map_of_sort_key assms(2,3) split: if_splits)
qed

lemma idempotency_data_distinct: "distinct (map fst (jfields (idempotency_data r k)))"
  by (simp add: idempotency_data_def)

lemma idempotency_data_inj:
  assumes "canonicalize (idempotency_data r k) = canonicalize (idempotency_data r' k')"
  shows "k = k'"
    and "json_norm (jget ''merchant_nft'' r) = json_norm (jget ''merchant_nft'' r')"
    and "json_norm (jget ''amount_tbc'' r) = json_norm (jget ''amount_tbc'' r')"
    and "json_norm (jget ''currency'' r) = json_norm (jget ''currency'' r')"
    and "json_norm (jget ''metadata'' (idempotency_data r k)) = json_norm (jget ''metadata'' (idempotency_data r' k'))"
    and "json_norm (jget ''expires_at'' (idempotency_data r k)) = json_norm (jget ''expires_at'' (idempotency_data r' k'))"
proof -
  have eq: "json_norm (jget f (idempotency_data r k)) = json_norm (jget f (idempotency_data r' k'))" for f
    using assms [unfolded canonicalize_eq_iff] json_norm_field
      idempotency_data_distinct [of r k] idempotency_data_distinct [of r' k']
    unfolding idempotency_data_def jfields.simps by blast
  show "k = k'"
    using eq [of "''key_id''"] by (simp add: idempotency_data_def split: option.splits)
  show "json_norm (jget ''merchant_nft'' r) = json_norm (jget ''merchant_nft'' r')"
    using eq [of "''merchant_nft''"] by (simp add: idempotency_data_def)
  show "json_norm (jget ''amount_tbc'' r) = json_norm (jget ''amount_tbc'' r')"
    using eq [of "''amount_tbc''"] by (simp add: idempotency_data_def)
  show "json_norm (jget ''currency'' r) = json_norm (jget ''currency'' r')"
    using eq [of "''currency''"] by (simp add: idempotency_data_def)
  show "json_norm (jget ''metadata'' (idempotency_data r k)) = json_norm (jget ''metadata'' (idempotency_data r' k'))"
    by (rule eq)
  show "json_norm (jget ''expires_at'' (idempotency_data r k)) = json_norm (jget ''expires_at'' (idempotency_data r' k'))"
    by (rule eq)
qed

lemma canonicalize_idempotency_Some: "\<exists>s. canonicalize (idempotency_data r k) = Some s"
  by (simp add: idempotency_data_def)

lemma sorted_event_fields: "sort_key fst (jfields (settlement_event_object e)) = jfields (settlement_event_object e)"
  by (simp add: settlement_event_object_def)

lemma canonicalizeSettlementEvent_inj:
  assumes "canonicalizeSettlementEvent e = canonicalizeSettlementEvent e'"
  shows "e = e'"
proof -
  have "json_stringify (settlement_event_object e) = json_stringify (settlement_event_object e')"
    using assms unfolding canonicalizeSettlementEvent_def sorted_event_fields
    by (simp add: settlement_event_object_def or_empty_def)
  moreover have "json_clean (settlement_event_object x)" for x
    by (simp add: settlement_event_object_def)
  ultimately have "settlement_event_object e = settlement_event_object e'"
    using json_stringify_inj by blast
  then show ?thesis
    by (simp add: settlement_event_object_def settlement_event.equality)
qed

lemma utf8_length_ascii: "list_all (\<lambda>c. (of_char c :: nat) < 128) s \<Longrightarrow> utf8_length s = length s"
  by (induction s) (simp_all add: utf8_length_def)

lemma constantTimeEqual_True: "constantTimeEqual a b = Inr True \<longleftrightarrow> a = b"
  by (auto simp: constantTimeEqual_def)

lemma verifySettlementAttestation_True:
  "verifySettlementAttestation rt secret e a = Inr True \<longleftrightarrow>
     (\<exists>s. a = Some s \<and> s \<noteq> [] \<and> s = signSettlementEvent rt secret e)"
  by (auto simp: verifySettlementAttestation_def constantTimeEqual_True split: option.splits if_splits)

lemma sanitize_loop_eq:
  "n \<le> 10 \<Longrightarrow> sanitize_loop n kvs = filter (\<lambda>(k, _). k \<noteq> ''__proto__'') (take (10 - n) (filter (\<lambda>(_, v). v \<noteq> JUndef) kvs))"
proof (induction n kvs rule: sanitize_loop.induct)
  case (2 n k v kvs)
  then show ?case
    by (cases "n = 10") (auto simp: MAX_METADATA_FIELDS_def Suc_diff_le take_Cons')
qed simp

text \<open>A field of that name passes the validation and is lost.\<close>

lemma proto_field_dropped: "sanitizeMetadata (JObj [(''__proto__'', JNum 1), (''a'', JNum 2)]) = Some [(''a'', JNum 2)]"
  by code_simp

lemma generateInvoiceId_valid: "length bs = 8 \<Longrightarrow> uuidRegex (generateInvoiceId bs)"
  by (simp add: uuidRegex_def generateInvoiceId_def to_hex_lower starts_with_def)

lemma generateInvoiceId_inj: "generateInvoiceId bs = generateInvoiceId bs' \<longleftrightarrow> bs = bs'"
  by (simp add: generateInvoiceId_def to_hex_inj)

lemma generateApiKey_wellformed:
  assumes "length bs = 16"
  shows "isValidApiKeyFormat (generateApiKey env bs)"
    and "getApiKeyEnvironment (generateApiKey env bs) = Some env"
  using assms to_hex_lower [of bs]
  by (cases env; simp add: generateApiKey_def isValidApiKeyFormat_def API_KEY_PATTERN_def
      LIVE_KEY_PREFIX_def TEST_KEY_PREFIX_def getApiKeyEnvironment_def starts_with_def)+

lemma retry_loop_result:
  "attempt \<le> Suc m \<Longrightarrow>
   retry_loop fn m b attempt l s =
     (case find (\<lambda>i. \<not> isl (fn i)) [attempt..<Suc m] of
        Some i \<Rightarrow> (Inr (projr (fn i)), s @ map (\<lambda>j. b * 2 ^ (j - 1)) [attempt..<i])
      | None \<Rightarrow> (Inl (if attempt \<le> m then Some (projl (fn m)) else l),
                 s @ map (\<lambda>j. b * 2 ^ (j - 1)) [attempt..<m]))"
proof (induction fn m b attempt l s rule: retry_loop.induct)
  case (1 fn m b attempt l s)
  show ?case
  proof (cases "attempt \<le> m")
    case False
    then show ?thesis using "1.prems" by (simp add: retry_loop.simps [of fn m b attempt])
  next
    case True
    then have upt: "[attempt..<Suc m] = attempt # [Suc attempt..<Suc m]" by (simp add: upt_conv_Cons)
    show ?thesis
    proof (cases "fn attempt")
      case (Inr x)
      with True show ?thesis unfolding upt by (simp add: retry_loop.simps [of fn m b attempt])
    next
      case (Inl e)
      show ?thesis
      proof (cases "attempt = m")
        case True
        with Inl show ?thesis by (simp add: retry_loop.simps [of fn m b m])
      next
        case False
        with \<open>attempt \<le> m\<close> have lt: "attempt < m" by simp
        have tail: "[attempt..<i] = attempt # [Suc attempt..<i]" if "attempt < i" for i
          using that by (simp add: upt_conv_Cons)
        have found: "attempt < i" if "find (\<lambda>i. \<not> isl (fn i)) [Suc attempt..<Suc m] = Some i" for i
          using find_SomeD [OF that] by (auto simp: Suc_le_eq)
        from "1.IH" [OF True Inl False] lt Inl show ?thesis
          unfolding upt
          by (auto simp: retry_loop.simps [of fn m b attempt] tail simp del: upt_Suc dest!: found split: option.splits)
      qed
    qed
  qed
qed

section \<open>Properties\<close>

text \<open>
  Canonical serialisation is exact: two values have the same canonical string if and only if
  they are the same value up to the order of object keys at every level and up to properties that
  are \<open>undefined\<close>. In particular nested differences survive, and for objects with the same
  properties the insertion order is irrelevant.
\<close>

theorem canonicalize_exact:
  "(canonicalize v = canonicalize w \<longleftrightarrow> json_norm v = json_norm w)
   \<and> (distinct (map fst kvs) \<and> mset kvs = mset kvs' \<longrightarrow>
        canonicalize (JObj kvs) = canonicalize (JObj kvs'))"
  using canonicalize_eq_iff canonicalize_key_order by blast

theorem canonicalize_exact_witness:
  "canonicalize (JObj [(''b'', JNum 2), (''a'', JObj [(''y'', JNull), (''x'', JBool True)])])
   = canonicalize (JObj [(''a'', JObj [(''y'', JNull), (''x'', JBool True)]), (''b'', JNum 2)])"
  using canonicalize_exact
    [where kvs = "[(''b'', JNum 2), (''a'', JObj [(''y'', JNull), (''x'', JBool True)])]"
       and kvs' = "[(''a'', JObj [(''y'', JNull), (''x'', JBool True)]), (''b'', JNum 2)]"]
  by simp

text \<open>
  An idempotency key separates requests: where SHA-256 does not collide on the two canonical
  strings, equal keys come from the same API key identifier and from requests whose merchant,
  amount, currency, metadata and requested expiry all agree.
\<close>

theorem idempotency_key_separates:
  assumes no_collision: "sha256 rt (or_empty (canonicalize (idempotency_data r k)))
        = sha256 rt (or_empty (canonicalize (idempotency_data r' k')))
      \<Longrightarrow> or_empty (canonicalize (idempotency_data r k)) = or_empty (canonicalize (idempotency_data r' k'))"
    and same_key: "generateIdempotencyKey rt r k = generateIdempotencyKey rt r' k'"
  shows "k = k'
    \<and> json_norm (jget ''merchant_nft'' r) = json_norm (jget ''merchant_nft'' r')
    \<and> json_norm (jget ''amount_tbc'' r) = json_norm (jget ''amount_tbc'' r')
    \<and> json_norm (jget ''currency'' r) = json_norm (jget ''currency'' r')
    \<and> json_norm (jget ''metadata'' (idempotency_data r k)) = json_norm (jget ''metadata'' (idempotency_data r' k'))
    \<and> json_norm (jget ''expires_at'' (idempotency_data r k)) = json_norm (jget ''expires_at'' (idempotency_data r' k'))"
proof -
  have "canonicalize (idempotency_data r k) = canonicalize (idempotency_data r' k')"
    using no_collision same_key canonicalize_idempotency_Some [of r k] canonicalize_idempotency_Some [of r' k']
    by (auto simp: generateIdempotencyKey_def or_empty_def)
  from idempotency_data_inj [OF this] show ?thesis by blast
qed

definition rt0 :: js_rt where
  "rt0 = \<lparr>dateParse = (\<lambda>s. if canonical_dec s then Some (int (digits_val s)) else None),
          toISO = dec_int, sha256 = (\<lambda>s. s), hmac = (\<lambda>k s. k @ ''/'' @ s)\<rparr>"

theorem idempotency_key_separates_witness:
  "generateIdempotencyKey rt0 (JObj [(''amount_tbc'', JStr ''5''), (''metadata'', JObj [(''a'', JNum 1), (''b'', JNum 2)])]) (Some ''k1'')
   = generateIdempotencyKey rt0 (JObj [(''metadata'', JObj [(''b'', JNum 2), (''a'', JNum 1)]), (''amount_tbc'', JStr ''5'')]) (Some ''k1'')
   \<and> json_norm (jget ''amount_tbc'' (JObj [(''amount_tbc'', JStr ''5'')])) = JStr ''5''"
proof -
  let ?r = "JObj [(''amount_tbc'', JStr ''5''), (''metadata'', JObj [(''a'', JNum 1), (''b'', JNum 2)])]"
  let ?r' = "JObj [(''metadata'', JObj [(''b'', JNum 2), (''a'', JNum 1)]), (''amount_tbc'', JStr ''5'')]"
  have key: "generateIdempotencyKey rt0 ?r (Some ''k1'') = generateIdempotencyKey rt0 ?r' (Some ''k1'')"
    by (simp add: generateIdempotencyKey_def idempotency_data_def)
  have inj: "sha256 rt0 x = sha256 rt0 y \<Longrightarrow> x = y" for x y by (simp add: rt0_def)
  from idempotency_key_separates [OF inj key] key show ?thesis by simp
qed

text \<open>
  A settlement attestation binds the whole event: it verifies only if it is the HMAC of the
  canonical event under the shared secret, and where the HMAC does not collide on two canonical
  events, one attestation cannot verify for two different events.
\<close>

theorem attestation_binds_event:
  assumes v: "verifySettlementAttestation rt secret e a = Inr True"
    and v': "verifySettlementAttestation rt secret e' a = Inr True"
    and no_collision: "hmac rt secret (canonicalizeSettlementEvent e) = hmac rt secret (canonicalizeSettlementEvent e')
      \<Longrightarrow> canonicalizeSettlementEvent e = canonicalizeSettlementEvent e'"
  shows "a = Some (signSettlementEvent rt secret e) \<and> e = e'"
proof -
  from v v' have "a = Some (signSettlementEvent rt secret e)"
    "signSettlementEvent rt secret e = signSettlementEvent rt secret e'"
    by (auto simp: verifySettlementAttestation_True)
  with no_collision canonicalizeSettlementEvent_inj show ?thesis
    by (auto simp: signSettlementEvent_def)
qed

definition ev0 :: settlement_event where
  "ev0 = \<lparr>ev_payer_nft = ''p'', ev_merchant_nft = ''m'', ev_amount_tbc = ''5'', ev_payload_hash = ''h'',
          ev_block_number = 7, ev_tx_hash = ''tx'', ev_timestamp = 9\<rparr>"

theorem attestation_binds_event_witness:
  "verifySettlementAttestation rt0 ''s'' ev0 (Some (signSettlementEvent rt0 ''s'' ev0)) = Inr True
   \<and> Some (signSettlementEvent rt0 ''s'' ev0) = Some (signSettlementEvent rt0 ''s'' ev0) \<and> ev0 = ev0"
proof -
  have v: "verifySettlementAttestation rt0 ''s'' ev0 (Some (signSettlementEvent rt0 ''s'' ev0)) = Inr True"
    by (simp add: verifySettlementAttestation_True signSettlementEvent_def rt0_def)
  show ?thesis using v attestation_binds_event [OF v v] by simp
qed

end
