(* ===== verification/Api_Secrets.thy ===== *)
theory Api_Secrets
  imports Api_Helpers
begin

text \<open>
  Resolution of the server-side secrets (\<open>api/src/config/secrets.ts\<close>). The environment is a map
  from variable names to values. Every secret goes through \<open>resolveStrongSecret\<close>, which refuses a
  missing, weak or short value outside the test environment.
\<close>

type_synonym env = "string \<Rightarrow> string option"

definition MIN_API_KEY_SECRET_LENGTH :: nat where
  "MIN_API_KEY_SECRET_LENGTH = 16"

definition KNOWN_WEAK_API_KEY_SECRETS :: "string list" where
  "KNOWN_WEAK_API_KEY_SECRETS =
     [''default-dev-secret'', ''change-me-to-a-32-byte-random-value'',
      ''sandbox-do-not-use-in-production-32-bytes'', ''changeme'', ''change-me'', ''secret'',
      ''password'']"

definition TEST_API_KEY_SECRET :: string where
  "TEST_API_KEY_SECRET = ''test-only-api-key-secret-do-not-use-in-prod''"

definition TEST_SETTLEMENT_INDEXER_SECRET :: string where
  "TEST_SETTLEMENT_INDEXER_SECRET = ''test-only-settlement-indexer-secret-do-not-use-in-prod''"

definition TEST_WEBHOOK_SECRET_ENCRYPTION_KEY :: string where
  "TEST_WEBHOOK_SECRET_ENCRYPTION_KEY = ''test-only-webhook-secret-encryption-key-do-not-use-in-prod''"

definition InsecureSecretError :: "string \<Rightarrow> exn" where
  "InsecureSecretError message = OtherError ''InsecureSecretError'' message"

definition isTestEnv :: "env \<Rightarrow> bool" where
  "isTestEnv env \<longleftrightarrow> env ''NODE_ENV'' = Some ''test''"

definition resolveStrongSecret :: "env \<Rightarrow> string \<Rightarrow> string \<Rightarrow> exn + string" where
  "resolveStrongSecret env varName testFallback =
     (let secret = js_trim (or_empty (env varName)); testEnv = isTestEnv env in
      if secret = [] then
        (if testEnv then Inr testFallback
         else Inl (InsecureSecretError
           (varName @ '' is not set. Refusing to start: this secret protects a security '' @
            ''boundary and must not fall back to a publicly known constant. Generate a '' @
            ''secret with `openssl rand -hex 32` and set '' @ varName @ '' before starting the API.'')))
      else if List.member KNOWN_WEAK_API_KEY_SECRETS (js_lower secret) then
        (if testEnv then Inr secret
         else Inl (InsecureSecretError
           (varName @ '' is set to a known weak/default value. Refusing to start. '' @
            ''Generate a unique secret with `openssl rand -hex 32`.'')))
      else if length secret < MIN_API_KEY_SECRET_LENGTH then
        (if testEnv then Inr secret
         else Inl (InsecureSecretError
           (varName @ '' is too short ('' @ dec (length secret) @ '' characters). A minimum of '' @
            dec MIN_API_KEY_SECRET_LENGTH @ '' characters is required. Generate one with '' @
            ''`openssl rand -hex 32`.'')))
      else Inr secret)"

definition resolveApiKeySecret :: "env \<Rightarrow> exn + string" where
  "resolveApiKeySecret env = resolveStrongSecret env ''API_KEY_SECRET'' TEST_API_KEY_SECRET"

definition resolveSettlementIndexerSecret :: "env \<Rightarrow> exn + string" where
  "resolveSettlementIndexerSecret env =
     resolveStrongSecret env ''SETTLEMENT_INDEXER_SECRET'' TEST_SETTLEMENT_INDEXER_SECRET"

definition resolveWebhookSecretEncryptionKey :: "env \<Rightarrow> exn + string" where
  "resolveWebhookSecretEncryptionKey env =
     resolveStrongSecret env ''WEBHOOK_SECRET_ENCRYPTION_KEY'' TEST_WEBHOOK_SECRET_ENCRYPTION_KEY"

definition assertApiKeySecretConfigured :: "env \<Rightarrow> exn + unit" where
  "assertApiKeySecretConfigured env = res_bind (resolveApiKeySecret env) (\<lambda>_. Inr ())"

section \<open>Properties\<close>

definition strong_secret :: "string \<Rightarrow> bool" where
  "strong_secret s \<longleftrightarrow> 16 \<le> length s \<and> js_lower s \<notin> set KNOWN_WEAK_API_KEY_SECRETS \<and> js_trim s = s"

lemma dropWhile_idem_rev: "dropWhile P (rev (dropWhile P (rev (dropWhile P s)))) = rev (dropWhile P (rev (dropWhile P s)))"
proof (cases "rev (dropWhile P (rev (dropWhile P s)))")
  case (Cons c t)
  have "dropWhile P s = rev (dropWhile P (rev (dropWhile P s))) @ rev (takeWhile P (rev (dropWhile P s)))"
    by (metis rev_append rev_rev_ident takeWhile_dropWhile_id)
  then have "hd (dropWhile P s) = c" "dropWhile P s \<noteq> []" using Cons by (metis append_Cons list.sel(1), force)
  then have "\<not> P c" using hd_dropWhile by blast
  then show ?thesis unfolding Cons by simp
next
  case Nil
  show ?thesis unfolding Nil by simp
qed

lemma js_trim_idem: "js_trim (js_trim s) = js_trim s"
  unfolding js_trim_def dropWhile_idem_rev by simp

lemma resolveStrongSecret_outside_test:
  "\<not> isTestEnv env \<Longrightarrow> resolveStrongSecret env v f = Inr s \<longleftrightarrow>
     strong_secret s \<and> s = js_trim (or_empty (env v))"
  by (auto simp: resolveStrongSecret_def Let_def strong_secret_def MIN_API_KEY_SECRET_LENGTH_def
      js_trim_idem split: if_splits)

lemma resolveStrongSecret_error:
  "resolveStrongSecret env v f = Inl e \<Longrightarrow> \<not> isTestEnv env \<and> (\<exists>m. e = InsecureSecretError m)"
  by (auto simp: resolveStrongSecret_def Let_def split: if_splits)

text \<open>
  Outside the test environment a secret is resolved exactly when the configured value, trimmed,
  has at least 16 characters and is none of the published weak values in any case, and then it is
  that value; otherwise start-up fails with \<open>InsecureSecretError\<close>. In the test environment
  resolution never fails.
\<close>

theorem secrets_fail_closed:
  "(\<not> isTestEnv env \<longrightarrow>
      (resolveStrongSecret env v f = Inr s \<longleftrightarrow>
         s = js_trim (or_empty (env v)) \<and> 16 \<le> length s \<and> js_lower s \<notin> set KNOWN_WEAK_API_KEY_SECRETS))
   \<and> (\<not> isTestEnv env \<longrightarrow> (\<forall>s. resolveStrongSecret env v f \<noteq> Inr s) \<longrightarrow>
        (\<exists>m. resolveStrongSecret env v f = Inl (InsecureSecretError m)))
   \<and> (isTestEnv env \<longrightarrow> (\<exists>s. resolveStrongSecret env v f = Inr s))"
proof (intro conjI impI)
  show "resolveStrongSecret env v f = Inr s \<longleftrightarrow>
      s = js_trim (or_empty (env v)) \<and> 16 \<le> length s \<and> js_lower s \<notin> set KNOWN_WEAK_API_KEY_SECRETS"
    if "\<not> isTestEnv env"
    using resolveStrongSecret_outside_test [OF that] js_trim_idem by (auto simp: strong_secret_def)
  show "\<exists>m. resolveStrongSecret env v f = Inl (InsecureSecretError m)"
    if "\<forall>s. resolveStrongSecret env v f \<noteq> Inr s"
    using that resolveStrongSecret_error [of env v f] by (cases "resolveStrongSecret env v f") auto
  show "\<exists>s. resolveStrongSecret env v f = Inr s" if "isTestEnv env"
    using that resolveStrongSecret_error [of env v f] by (cases "resolveStrongSecret env v f") auto
qed

theorem secrets_fail_closed_witness:
  "(\<forall>s. resolveStrongSecret (\<lambda>v. Some '' ChangeMe '') ''API_KEY_SECRET'' [] \<noteq> Inr s)
   \<and> resolveStrongSecret (\<lambda>v. Some '' 0123456789abcdef'') ''API_KEY_SECRET'' [] = Inr ''0123456789abcdef''"
proof -
  have weak: "js_lower (js_trim '' ChangeMe '') \<in> set KNOWN_WEAK_API_KEY_SECRETS"
    by code_simp
  have strong: "js_trim '' 0123456789abcdef'' = ''0123456789abcdef''"
      "js_lower ''0123456789abcdef'' \<notin> set KNOWN_WEAK_API_KEY_SECRETS"
    by (simp_all add: js_lower_def js_lower_char_def js_trim_def js_space_def KNOWN_WEAK_API_KEY_SECRETS_def)
  have "\<not> isTestEnv (\<lambda>v. Some '' ChangeMe '')" "\<not> isTestEnv (\<lambda>v. Some '' 0123456789abcdef'')"
    by (simp_all add: isTestEnv_def)
  with weak strong secrets_fail_closed [where env = "\<lambda>v. Some '' ChangeMe ''"]
    secrets_fail_closed [where env = "\<lambda>v. Some '' 0123456789abcdef''" and s = "''0123456789abcdef''"]
  show ?thesis by (auto simp: or_empty_def)
qed

end
