(* ===== verification/Api_Keys.thy ===== *)
theory Api_Keys
  imports Api_Secrets
begin

text \<open>
  The API key service (\<open>api/src/services/ApiKeyService.ts\<close>) with its process-local registry, its
  authorisation cache and the optional persistent store, which is modelled from
  \<open>api/src/storage/PostgresApiKeyStorage.ts\<close> (table \<open>api_keys\<close>: primary key \<open>key_hash\<close>,
  \<open>key_id\<close> unique). \<open>secret\<close> is the value \<open>resolveApiKeySecret\<close> returned at start-up; instants and
  random bytes are arguments, one for each reading of the clock.

  The invariant \<open>keys_inv\<close> says that every cached answer is the answer the registry gave when
  the entry was written; registration and revocation keep it by flushing the entries of the key.
\<close>

section \<open>State\<close>

record auth_cache_entry =
  ae_authorized :: bool
  ae_expiresAt :: int

record key_service =
  apiKeyRegistry :: "(string, api_key) amap"
  authCache :: "(string, auth_cache_entry) amap"
  persistentStore :: "(string, string \<times> api_key) amap option"

definition AUTH_CACHE_TTL_MS :: int where
  "AUTH_CACHE_TTL_MS = 60 * 1000"

definition generateKeyId :: "8 word list \<Rightarrow> string" where
  "generateKeyId randomBytes = ''key_'' @ to_hex randomBytes"

definition new_key_service :: key_service where
  "new_key_service = \<lparr>apiKeyRegistry = [], authCache = [], persistentStore = None\<rparr>"

section \<open>\<open>PostgresApiKeyStorage\<close>\<close>

definition pk_get :: "string \<Rightarrow> (string, string \<times> api_key) amap \<Rightarrow> api_key option" where
  "pk_get hash t = map_option snd (amap_get hash t)"

text \<open>The upsert; a \<open>key_id\<close> that another row holds violates the unique constraint.\<close>

definition pk_set :: "api_key \<Rightarrow> (string, string \<times> api_key) amap \<Rightarrow> exn + (string, string \<times> api_key) amap" where
  "pk_set key t =
     (if list_ex (\<lambda>(h, kid, _). kid = ak_id key \<and> h \<noteq> ak_hash key) t
      then Inl (OtherError ''error'' ''duplicate key value violates unique constraint'')
      else Inr (amap_set (ak_hash key) (ak_id key, key) t))"

definition pk_findById :: "string \<Rightarrow> (string, string \<times> api_key) amap \<Rightarrow> api_key option" where
  "pk_findById kid t = map_option (\<lambda>(_, _, r). r) (find (\<lambda>(_, i, _). i = kid) t)"

definition pk_revoke :: "string \<Rightarrow> (string, string \<times> api_key) amap \<Rightarrow> bool \<times> (string, string \<times> api_key) amap" where
  "pk_revoke kid t =
     (list_ex (\<lambda>(_, i, _). i = kid) t,
      map (\<lambda>(h, i, r). (h, i, if i = kid then r\<lparr>ak_is_active := False\<rparr> else r)) t)"

definition pk_touch :: "js_rt \<Rightarrow> int \<Rightarrow> string \<Rightarrow> (string, string \<times> api_key) amap \<Rightarrow> (string, string \<times> api_key) amap" where
  "pk_touch rt now hash t =
     map (\<lambda>(h, i, r). (h, i, if h = hash then r\<lparr>ak_last_used_at := Some (toISO rt now)\<rparr> else r)) t"

section \<open>Operations on the registry\<close>

definition configureStorage :: "(string, string \<times> api_key) amap \<Rightarrow> key_service \<Rightarrow> key_service" where
  "configureStorage store s = s\<lparr>persistentStore := Some store\<rparr>"

definition invalidateCacheForKey :: "string \<Rightarrow> key_service \<Rightarrow> key_service" where
  "invalidateCacheForKey keyHash s =
     s\<lparr>authCache := fold amap_delete
         (filter (starts_with (keyHash @ '':'')) (map fst (authCache s))) (authCache s)\<rparr>"

text \<open>Overrides of the default limits: each is optional.\<close>

type_synonym limit_overrides = "nat option \<times> nat option \<times> nat option"

definition default_limits :: "limit_overrides \<Rightarrow> rate_limits" where
  "default_limits ov = (case ov of (c, r, st) \<Rightarrow>
     \<lparr>invoice_create_rpm = (case c of None \<Rightarrow> 100 | Some n \<Rightarrow> n),
      invoice_read_rpm = (case r of None \<Rightarrow> 1000 | Some n \<Rightarrow> n),
      invoice_status_rpm = (case st of None \<Rightarrow> 500 | Some n \<Rightarrow> n)\<rparr>)"

definition registerApiKey :: "js_rt \<Rightarrow> string \<Rightarrow> int \<Rightarrow> 8 word list \<Rightarrow> string \<Rightarrow> string \<Rightarrow> permission list \<Rightarrow>
    limit_overrides \<Rightarrow> string option \<Rightarrow> key_service \<Rightarrow> api_key \<times> key_service" where
  "registerApiKey rt secret now randomBytes plaintextKey merchantNft permissions rateLimits expiresAt s =
     (let keyHash = hashApiKey rt plaintextKey secret;
          apiKey = \<lparr>ak_id = generateKeyId randomBytes, ak_hash = keyHash, ak_merchant_nft = merchantNft,
            ak_permissions = permissions, ak_rate_limits = default_limits rateLimits,
            ak_created_at = toISO rt now, ak_expires_at = expiresAt, ak_last_used_at = None,
            ak_is_active = True\<rparr>
      in (apiKey, invalidateCacheForKey keyHash
            (s\<lparr>apiKeyRegistry := amap_set keyHash apiKey (apiKeyRegistry s)\<rparr>)))"

definition registerKey :: "js_rt \<Rightarrow> string \<Rightarrow> int \<Rightarrow> 8 word list \<Rightarrow> string \<Rightarrow> string \<Rightarrow> key_service \<Rightarrow> api_key \<times> key_service" where
  "registerKey rt secret now randomBytes plaintextKey merchantNft s =
     registerApiKey rt secret now randomBytes plaintextKey merchantNft
       [InvoiceCreate, InvoiceRead, InvoiceStatusScope] (None, None, None) None s"

text \<open>\<open>expires_at && new Date(expires_at) < now\<close>: the empty string and \<open>NaN\<close> do not expire.\<close>

definition key_expired :: "js_rt \<Rightarrow> int \<Rightarrow> api_key \<Rightarrow> bool" where
  "key_expired rt now k =
     (case ak_expires_at k of None \<Rightarrow> False | Some e \<Rightarrow> e \<noteq> [] \<and> date_lt (dateParse rt e) now)"

text \<open>\<open>!expires_at || new Date(expires_at) >= now\<close>: \<open>NaN\<close> counts as expired.\<close>

definition key_unexpired :: "js_rt \<Rightarrow> int \<Rightarrow> api_key \<Rightarrow> bool" where
  "key_unexpired rt now k =
     (case ak_expires_at k of None \<Rightarrow> True | Some e \<Rightarrow> e = [] \<or> date_ge (dateParse rt e) now)"

definition findAndValidateKey :: "js_rt \<Rightarrow> string \<Rightarrow> int \<Rightarrow> string \<Rightarrow> key_service \<Rightarrow> exn + api_key" where
  "findAndValidateKey rt secret now plaintextKey s =
     (case amap_get (hashApiKey rt plaintextKey secret) (apiKeyRegistry s) of
        None \<Rightarrow> Inl (ValidationError INVALID_API_KEY ''Invalid API key'' None)
      | Some apiKey \<Rightarrow>
          if \<not> ak_is_active apiKey then
            Inl (ValidationError INVALID_API_KEY ''API key is deactivated'' None)
          else if key_expired rt now apiKey then
            Inl (ValidationError INVALID_API_KEY ''API key has expired'' None)
          else Inr apiKey)"

definition auth_cache_key :: "string \<Rightarrow> string \<Rightarrow> string" where
  "auth_cache_key keyHash merchantNft = keyHash @ '':'' @ merchantNft"

definition fresh_authorized :: "js_rt \<Rightarrow> int \<Rightarrow> string \<Rightarrow> string \<Rightarrow> (string, api_key) amap \<Rightarrow> bool" where
  "fresh_authorized rt now keyHash merchantNft reg =
     (case amap_get keyHash reg of
        None \<Rightarrow> False
      | Some apiKey \<Rightarrow> ak_is_active apiKey \<and> ak_merchant_nft apiKey = merchantNft \<and> key_unexpired rt now apiKey)"

text \<open>The first instant is \<open>now\<close>, the second the \<open>new Date()\<close> of the fresh computation.\<close>

definition isAuthorizedMerchant :: "js_rt \<Rightarrow> string \<Rightarrow> int \<Rightarrow> int \<Rightarrow> string \<Rightarrow> string \<Rightarrow> key_service \<Rightarrow> bool \<times> key_service" where
  "isAuthorizedMerchant rt secret now now2 plaintextKey merchantNft s =
     (let keyHash = hashApiKey rt plaintextKey secret;
          cacheKey = auth_cache_key keyHash merchantNft;
          recompute =
            (let authorized = fresh_authorized rt now2 keyHash merchantNft (apiKeyRegistry s) in
             (authorized, s\<lparr>authCache := amap_set cacheKey
                \<lparr>ae_authorized = authorized, ae_expiresAt = now + AUTH_CACHE_TTL_MS\<rparr> (authCache s)\<rparr>))
      in case amap_get cacheKey (authCache s) of
           Some cached \<Rightarrow> if ae_expiresAt cached > now then (ae_authorized cached, s) else recompute
         | None \<Rightarrow> recompute)"

definition getKeyId :: "js_rt \<Rightarrow> string \<Rightarrow> string \<Rightarrow> key_service \<Rightarrow> string option" where
  "getKeyId rt secret plaintextKey s =
     map_option ak_id (amap_get (hashApiKey rt plaintextKey secret) (apiKeyRegistry s))"

definition touchKey :: "js_rt \<Rightarrow> int \<Rightarrow> string \<Rightarrow> key_service \<Rightarrow> key_service" where
  "touchKey rt now keyHash s =
     (case amap_get keyHash (apiKeyRegistry s) of
        None \<Rightarrow> s
      | Some apiKey \<Rightarrow> s\<lparr>apiKeyRegistry :=
          amap_set keyHash (apiKey\<lparr>ak_last_used_at := Some (toISO rt now)\<rparr>) (apiKeyRegistry s)\<rparr>)"

definition deactivateKey :: "string \<Rightarrow> key_service \<Rightarrow> key_service" where
  "deactivateKey keyHash s =
     (case amap_get keyHash (apiKeyRegistry s) of
        None \<Rightarrow> s
      | Some apiKey \<Rightarrow> invalidateCacheForKey keyHash
          (s\<lparr>apiKeyRegistry := amap_set keyHash (apiKey\<lparr>ak_is_active := False\<rparr>) (apiKeyRegistry s)\<rparr>))"

definition findByKeyId :: "string \<Rightarrow> key_service \<Rightarrow> api_key option" where
  "findByKeyId keyId s = find (\<lambda>apiKey. ak_id apiKey = keyId) (map snd (apiKeyRegistry s))"

definition revokeByKeyId :: "string \<Rightarrow> key_service \<Rightarrow> bool \<times> key_service" where
  "revokeByKeyId keyId s =
     (case findByKeyId keyId s of
        None \<Rightarrow> (False, s)
      | Some apiKey \<Rightarrow> (True, deactivateKey (ak_hash apiKey) s))"

definition keys_size :: "key_service \<Rightarrow> nat" where
  "keys_size s = length (apiKeyRegistry s)"

definition clearAll :: "key_service \<Rightarrow> key_service" where
  "clearAll s = s\<lparr>apiKeyRegistry := [], authCache := []\<rparr>"

section \<open>The asynchronous front\<close>

definition registerApiKeyAsync :: "js_rt \<Rightarrow> string \<Rightarrow> int \<Rightarrow> 8 word list \<Rightarrow> string \<Rightarrow> string \<Rightarrow> permission list \<Rightarrow>
    limit_overrides \<Rightarrow> string option \<Rightarrow> key_service \<Rightarrow> (exn + api_key) \<times> key_service" where
  "registerApiKeyAsync rt secret now randomBytes plaintextKey merchantNft permissions rateLimits expiresAt s =
     (case registerApiKey rt secret now randomBytes plaintextKey merchantNft permissions rateLimits expiresAt s of
        (key, s') \<Rightarrow>
          (case persistentStore s' of
             None \<Rightarrow> (Inr key, s')
           | Some t \<Rightarrow>
               (let s'' = s'\<lparr>apiKeyRegistry := amap_delete (ak_hash key) (apiKeyRegistry s')\<rparr> in
                case pk_set key t of
                  Inl e \<Rightarrow> (Inl e, s'')
                | Inr t' \<Rightarrow> (Inr key, s''\<lparr>persistentStore := Some t'\<rparr>))))"

definition findAndValidateKeyAsync :: "js_rt \<Rightarrow> string \<Rightarrow> int \<Rightarrow> string \<Rightarrow> key_service \<Rightarrow> exn + api_key" where
  "findAndValidateKeyAsync rt secret now plaintext s =
     (case persistentStore s of
        None \<Rightarrow> findAndValidateKey rt secret now plaintext s
      | Some t \<Rightarrow>
          (case pk_get (hashApiKey rt plaintext secret) t of
             None \<Rightarrow> Inl (ValidationError INVALID_API_KEY ''Invalid API key'' None)
           | Some key \<Rightarrow>
               if \<not> ak_is_active key \<or> key_expired rt now key
               then Inl (ValidationError INVALID_API_KEY ''Invalid API key'' None)
               else Inr key))"

definition isAuthorizedMerchantAsync :: "js_rt \<Rightarrow> string \<Rightarrow> int \<Rightarrow> int \<Rightarrow> string \<Rightarrow> string \<Rightarrow> key_service \<Rightarrow>
    (exn + bool) \<times> key_service" where
  "isAuthorizedMerchantAsync rt secret now now2 plaintext merchant s =
     (case persistentStore s of
        None \<Rightarrow> (case isAuthorizedMerchant rt secret now now2 plaintext merchant s of (b, s') \<Rightarrow> (Inr b, s'))
      | Some _ \<Rightarrow>
          (case findAndValidateKeyAsync rt secret now plaintext s of
             Inr key \<Rightarrow> (Inr (ak_merchant_nft key = merchant), s)
           | Inl (ValidationError _ _ _) \<Rightarrow> (Inr False, s)
           | Inl (OtherError n m) \<Rightarrow> (Inl (OtherError n m), s)))"

definition getKeyIdAsync :: "js_rt \<Rightarrow> string \<Rightarrow> int \<Rightarrow> string \<Rightarrow> key_service \<Rightarrow> exn + string option" where
  "getKeyIdAsync rt secret now plaintext s =
     (case persistentStore s of
        None \<Rightarrow> Inr (getKeyId rt secret plaintext s)
      | Some _ \<Rightarrow> res_bind (findAndValidateKeyAsync rt secret now plaintext s) (\<lambda>key. Inr (Some (ak_id key))))"

definition touchKeyAsync :: "js_rt \<Rightarrow> int \<Rightarrow> string \<Rightarrow> key_service \<Rightarrow> key_service" where
  "touchKeyAsync rt now hash s =
     (case persistentStore s of
        None \<Rightarrow> touchKey rt now hash s
      | Some t \<Rightarrow> s\<lparr>persistentStore := Some (pk_touch rt now hash t)\<rparr>)"

definition revokeByKeyIdAsync :: "string \<Rightarrow> key_service \<Rightarrow> bool \<times> key_service" where
  "revokeByKeyIdAsync kid s =
     (case persistentStore s of
        None \<Rightarrow> revokeByKeyId kid s
      | Some t \<Rightarrow> (case pk_revoke kid t of (b, t') \<Rightarrow> (b, s\<lparr>persistentStore := Some t'\<rparr>)))"

section \<open>Steps and the invariant\<close>

text \<open>
  The record an operation consults for a plaintext key: the row of the persistent store when one
  is configured, the registry otherwise.
\<close>

definition key_record :: "js_rt \<Rightarrow> string \<Rightarrow> string \<Rightarrow> key_service \<Rightarrow> api_key option" where
  "key_record rt secret plaintext s =
     (case persistentStore s of
        None \<Rightarrow> amap_get (hashApiKey rt plaintext secret) (apiKeyRegistry s)
      | Some t \<Rightarrow> pk_get (hashApiKey rt plaintext secret) t)"

inductive key_step :: "js_rt \<Rightarrow> string \<Rightarrow> key_service \<Rightarrow> key_service \<Rightarrow> bool" for rt secret where
  register: "key_step rt secret s (snd (registerApiKeyAsync rt secret now bytes p m perms lims ex s))"
| check: "now \<le> now2 \<Longrightarrow> key_step rt secret s (snd (isAuthorizedMerchantAsync rt secret now now2 p m s))"
| touch: "key_step rt secret s (touchKeyAsync rt now h s)"
| deactivate: "key_step rt secret s (deactivateKey h s)"
| revoke: "key_step rt secret s (snd (revokeByKeyIdAsync kid s))"
| clear: "key_step rt secret s (clearAll s)"
| configure: "key_step rt secret s (configureStorage t s)"

inductive key_reach :: "js_rt \<Rightarrow> string \<Rightarrow> key_service \<Rightarrow> bool" for rt secret where
  init: "key_reach rt secret new_key_service"
| step: "key_reach rt secret s \<Longrightarrow> key_step rt secret s s' \<Longrightarrow> key_reach rt secret s'"

definition cache_entry_ok :: "js_rt \<Rightarrow> (string, api_key) amap \<Rightarrow> string \<Rightarrow> auth_cache_entry \<Rightarrow> bool" where
  "cache_entry_ok rt reg ck e \<longleftrightarrow>
     (\<exists>h m t. CHR '':'' \<notin> set h \<and> ck = auth_cache_key h m \<and> ae_expiresAt e - AUTH_CACHE_TTL_MS \<le> t
        \<and> ae_authorized e = fresh_authorized rt t h m reg)"

definition keys_inv :: "js_rt \<Rightarrow> key_service \<Rightarrow> bool" where
  "keys_inv rt s \<longleftrightarrow> amap_wf (apiKeyRegistry s) \<and> amap_wf (authCache s)
     \<and> (\<forall>h k. amap_get h (apiKeyRegistry s) = Some k \<longrightarrow> ak_hash k = h \<and> CHR '':'' \<notin> set h)
     \<and> (\<forall>ck e. amap_get ck (authCache s) = Some e \<longrightarrow> cache_entry_ok rt (apiKeyRegistry s) ck e)"

text \<open>HMAC digests are hexadecimal, so they do not contain the separator of the cache keys.\<close>

definition hex_digests :: "js_rt \<Rightarrow> string \<Rightarrow> bool" where
  "hex_digests rt secret \<longleftrightarrow> (\<forall>p. CHR '':'' \<notin> set (hashApiKey rt p secret))"

lemma colon_split:
  "CHR '':'' \<notin> set h \<Longrightarrow> CHR '':'' \<notin> set h' \<Longrightarrow> h @ CHR '':'' # m = h' @ CHR '':'' # m' \<longleftrightarrow> h = h' \<and> m = m'"
  by (metis append_same_eq js_split_append list.inject same_append_eq)

lemma auth_cache_key_inj:
  "CHR '':'' \<notin> set h \<Longrightarrow> CHR '':'' \<notin> set h' \<Longrightarrow> auth_cache_key h m = auth_cache_key h' m' \<longleftrightarrow> h = h' \<and> m = m'"
  by (simp add: auth_cache_key_def colon_split)

lemma auth_cache_key_prefix:
  "CHR '':'' \<notin> set h \<Longrightarrow> CHR '':'' \<notin> set h' \<Longrightarrow> starts_with (h @ '':'') (auth_cache_key h' m) \<longleftrightarrow> h = h'"
  by (auto simp: starts_with_iff auth_cache_key_def colon_split)

lemma invalidate_registry [simp]: "apiKeyRegistry (invalidateCacheForKey h s) = apiKeyRegistry s"
  "persistentStore (invalidateCacheForKey h s) = persistentStore s"
  by (simp_all add: invalidateCacheForKey_def)

lemma amap_get_in_keys: "amap_get k m = Some v \<Longrightarrow> k \<in> fst ` set m"
  by (force simp: amap_get_def dest: map_of_SomeD)

lemma invalidate_get:
  "amap_get ck (authCache (invalidateCacheForKey h s)) =
     (if starts_with (h @ '':'') ck then None else amap_get ck (authCache s))"
  using amap_get_in_keys [of ck "authCache s"]
  by (cases "amap_get ck (authCache s)") (auto simp: invalidateCacheForKey_def am.delete_fold)

lemma invalidate_wf: "amap_wf (authCache s) \<Longrightarrow> amap_wf (authCache (invalidateCacheForKey h s))"
  by (simp add: invalidateCacheForKey_def am.wf_delete_fold)

lemma cache_entry_ok_other:
  assumes "cache_entry_ok rt reg ck e" "CHR '':'' \<notin> set h" "\<not> starts_with (h @ '':'') ck"
    and "\<And>h'. h' \<noteq> h \<Longrightarrow> amap_get h' reg' = amap_get h' reg"
  shows "cache_entry_ok rt reg' ck e"
proof -
  obtain h' m t where e: "CHR '':'' \<notin> set h'" "ck = auth_cache_key h' m" "ae_expiresAt e - AUTH_CACHE_TTL_MS \<le> t"
      "ae_authorized e = fresh_authorized rt t h' m reg"
    using assms(1) by (auto simp: cache_entry_ok_def)
  with assms(2,3) have "h' \<noteq> h" by (auto simp: auth_cache_key_prefix)
  with assms(4) have "fresh_authorized rt t h' m reg' = fresh_authorized rt t h' m reg"
    by (simp add: fresh_authorized_def)
  with e show ?thesis unfolding cache_entry_ok_def by metis
qed

lemma keys_invI:
  "amap_wf (apiKeyRegistry s) \<Longrightarrow> amap_wf (authCache s)
   \<Longrightarrow> (\<And>h k. amap_get h (apiKeyRegistry s) = Some k \<Longrightarrow> ak_hash k = h \<and> CHR '':'' \<notin> set h)
   \<Longrightarrow> (\<And>ck e. amap_get ck (authCache s) = Some e \<Longrightarrow> cache_entry_ok rt (apiKeyRegistry s) ck e)
   \<Longrightarrow> keys_inv rt s"
  unfolding keys_inv_def by blast

lemma keys_invD:
  assumes "keys_inv rt s"
  shows "amap_wf (apiKeyRegistry s)" "amap_wf (authCache s)"
    "amap_get h (apiKeyRegistry s) = Some k \<Longrightarrow> ak_hash k = h \<and> CHR '':'' \<notin> set h"
    "amap_get ck (authCache s) = Some e \<Longrightarrow> cache_entry_ok rt (apiKeyRegistry s) ck e"
  using assms unfolding keys_inv_def by blast+

text \<open>Replacing or removing one key and flushing its cache entries keeps the invariant.\<close>

lemma keys_inv_flush:
  assumes inv: "keys_inv rt s" and h: "CHR '':'' \<notin> set h"
    and reg: "amap_wf reg'" "\<And>h'. h' \<noteq> h \<Longrightarrow> amap_get h' reg' = amap_get h' (apiKeyRegistry s)"
      "\<And>k. amap_get h reg' = Some k \<Longrightarrow> ak_hash k = h"
  shows "keys_inv rt (invalidateCacheForKey h (s\<lparr>apiKeyRegistry := reg', persistentStore := st\<rparr>))"
proof -
  let ?s = "s\<lparr>apiKeyRegistry := reg', persistentStore := st\<rparr>"
  show ?thesis
  proof (rule keys_invI)
    fix ck e
    assume "amap_get ck (authCache (invalidateCacheForKey h ?s)) = Some e"
    then have "\<not> starts_with (h @ '':'') ck" "amap_get ck (authCache s) = Some e"
      by (simp_all add: invalidate_get split: if_splits)
    with keys_invD(4) [OF inv] h reg(2)
    show "cache_entry_ok rt (apiKeyRegistry (invalidateCacheForKey h ?s)) ck e"
      by (simp add: cache_entry_ok_other [of rt "apiKeyRegistry s"])
  next
    fix h' k
    assume "amap_get h' (apiKeyRegistry (invalidateCacheForKey h ?s)) = Some k"
    then have "amap_get h' reg' = Some k" by simp
    then show "ak_hash k = h' \<and> CHR '':'' \<notin> set h'"
      using reg(2,3) h keys_invD(3) [OF inv] by (cases "h' = h") metis+
  qed (use reg(1) keys_invD(2) [OF inv] invalidate_wf [of ?s h] in simp_all)
qed

lemma keys_inv_deactivate:
  assumes inv: "keys_inv rt s"
  shows "keys_inv rt (deactivateKey h s)"
proof (cases "amap_get h (apiKeyRegistry s)")
  case None
  with inv show ?thesis by (simp add: deactivateKey_def)
next
  case (Some k)
  let ?reg = "amap_set h (k\<lparr>ak_is_active := False\<rparr>) (apiKeyRegistry s)"
  have "keys_inv rt (invalidateCacheForKey h (s\<lparr>apiKeyRegistry := ?reg, persistentStore := persistentStore s\<rparr>))"
    by (rule keys_inv_flush [OF inv])
      (use keys_invD(1) [OF inv] keys_invD(3) [OF inv Some] in \<open>auto simp: amap_simps\<close>)
  then show ?thesis by (simp add: deactivateKey_def Some)
qed

lemma keys_inv_congI:
  "keys_inv rt s \<Longrightarrow> apiKeyRegistry s' = apiKeyRegistry s \<Longrightarrow> authCache s' = authCache s \<Longrightarrow> keys_inv rt s'"
  by (simp add: keys_inv_def)

lemma keys_inv_check:
  assumes inv: "keys_inv rt s" and hex: "hex_digests rt secret" and le: "now \<le> now2"
  shows "keys_inv rt (snd (isAuthorizedMerchant rt secret now now2 p m s))"
proof -
  let ?h = "hashApiKey rt p secret"
  let ?e = "\<lparr>ae_authorized = fresh_authorized rt now2 ?h m (apiKeyRegistry s), ae_expiresAt = now + AUTH_CACHE_TTL_MS\<rparr>"
  have "CHR '':'' \<notin> set ?h" using hex unfolding hex_digests_def by blast
  with le have "cache_entry_ok rt (apiKeyRegistry s) (auth_cache_key ?h m) ?e"
    unfolding cache_entry_ok_def by (intro exI [of _ ?h] exI [of _ m] exI [of _ now2]) simp
  with inv have "keys_inv rt (s\<lparr>authCache := amap_set (auth_cache_key ?h m) ?e (authCache s)\<rparr>)"
    by (auto simp: keys_inv_def amap_simps split: if_splits)
  with inv show ?thesis
    by (auto simp: isAuthorizedMerchant_def Let_def split: option.splits)
qed

lemma keys_inv_touch:
  assumes inv: "keys_inv rt s"
  shows "keys_inv rt (touchKey rt now h s)"
proof (cases "amap_get h (apiKeyRegistry s)")
  case None
  with inv show ?thesis by (simp add: touchKey_def)
next
  case (Some k)
  let ?reg = "amap_set h (k\<lparr>ak_last_used_at := Some (toISO rt now)\<rparr>) (apiKeyRegistry s)"
  have fresh: "fresh_authorized rt t h' m ?reg = fresh_authorized rt t h' m (apiKeyRegistry s)" for t h' m
    using Some by (simp add: fresh_authorized_def amap_simps key_unexpired_def)
  have "keys_inv rt (s\<lparr>apiKeyRegistry := ?reg\<rparr>)"
  proof (rule keys_invI)
    fix h' k'
    assume "amap_get h' (apiKeyRegistry (s\<lparr>apiKeyRegistry := ?reg\<rparr>)) = Some k'"
    then show "ak_hash k' = h' \<and> CHR '':'' \<notin> set h'"
      using keys_invD(3) [OF inv Some] keys_invD(3) [OF inv, of h'] by (auto simp: amap_simps split: if_splits)
  next
    fix ck e
    assume "amap_get ck (authCache (s\<lparr>apiKeyRegistry := ?reg\<rparr>)) = Some e"
    then show "cache_entry_ok rt (apiKeyRegistry (s\<lparr>apiKeyRegistry := ?reg\<rparr>)) ck e"
      using keys_invD(4) [OF inv] by (simp add: cache_entry_ok_def fresh)
  qed (use keys_invD(1,2) [OF inv] in \<open>simp_all add: amap_simps\<close>)
  then show ?thesis by (simp add: touchKey_def Some)
qed

lemma keys_inv_register:
  assumes inv: "keys_inv rt s" and hex: "hex_digests rt secret"
  shows "keys_inv rt (snd (registerApiKeyAsync rt secret now bytes p m perms lims ex s))"
proof -
  let ?h = "hashApiKey rt p secret"
  have h: "CHR '':'' \<notin> set ?h" using hex by (simp add: hex_digests_def)
  define k where "k = fst (registerApiKey rt secret now bytes p m perms lims ex s)"
  have k: "ak_hash k = ?h" by (simp add: k_def registerApiKey_def Let_def)
  have reg: "registerApiKey rt secret now bytes p m perms lims ex s =
      (k, invalidateCacheForKey ?h (s\<lparr>apiKeyRegistry := amap_set ?h k (apiKeyRegistry s)\<rparr>))"
    by (simp add: k_def registerApiKey_def Let_def)
  have added: "keys_inv rt (invalidateCacheForKey ?h (s\<lparr>apiKeyRegistry := amap_set ?h k (apiKeyRegistry s), persistentStore := st\<rparr>))" for st
    by (rule keys_inv_flush [OF inv h]) (use keys_invD(1) [OF inv] k in \<open>auto simp: amap_simps\<close>)
  have removed: "keys_inv rt (invalidateCacheForKey ?h
      (s\<lparr>apiKeyRegistry := amap_delete ?h (amap_set ?h k (apiKeyRegistry s)), persistentStore := st\<rparr>))" for st
    by (rule keys_inv_flush [OF inv h]) (use keys_invD(1) [OF inv] in \<open>auto simp: amap_simps\<close>)
  show ?thesis
  proof (cases "persistentStore s")
    case None
    with keys_inv_congI [OF added [of None]] show ?thesis
      by (simp add: registerApiKeyAsync_def reg invalidateCacheForKey_def)
  next
    case (Some t)
    then show ?thesis
      by (auto simp: registerApiKeyAsync_def reg k Let_def split: sum.split
          intro: keys_inv_congI [OF removed] simp: invalidateCacheForKey_def)
  qed
qed

lemma keys_inv_revoke: "keys_inv rt s \<Longrightarrow> keys_inv rt (snd (revokeByKeyIdAsync kid s))"
  by (auto simp: revokeByKeyIdAsync_def revokeByKeyId_def pk_revoke_def keys_inv_deactivate
      intro: keys_inv_congI split: option.split)

lemma keys_inv_check_async:
  "keys_inv rt s \<Longrightarrow> hex_digests rt secret \<Longrightarrow> now \<le> now2 \<Longrightarrow>
   keys_inv rt (snd (isAuthorizedMerchantAsync rt secret now now2 p m s))"
  using keys_inv_check [of rt s secret now now2 p m]
  by (auto simp: isAuthorizedMerchantAsync_def split: option.split sum.split exn.split prod.split)

lemma key_step_inv:
  assumes "key_step rt secret s s'" "hex_digests rt secret" "keys_inv rt s"
  shows "keys_inv rt s'"
  using assms
proof cases
  case (touch now h)
  then show ?thesis using assms(3)
    by (auto simp: touchKeyAsync_def keys_inv_touch intro: keys_inv_congI split: option.split)
next
  case clear
  then show ?thesis by (simp add: clearAll_def keys_inv_def)
next
  case (configure t)
  then show ?thesis using assms(3) by (auto simp: configureStorage_def intro: keys_inv_congI)
qed (use assms in \<open>simp_all add: keys_inv_register keys_inv_check_async keys_inv_deactivate keys_inv_revoke\<close>)

lemma key_reach_inv:
  assumes "key_reach rt secret s" "hex_digests rt secret"
  shows "keys_inv rt s"
  using assms
  by (induction rule: key_reach.induct) (simp add: new_key_service_def keys_inv_def, blast intro: key_step_inv)

section \<open>What a check answers\<close>

lemma key_unexpired_not_expired: "key_unexpired rt t k \<Longrightarrow> t' \<le> t \<Longrightarrow> \<not> key_expired rt t' k"
  by (auto simp: key_unexpired_def key_expired_def date_lt_def date_ge_def split: option.splits)

lemma isAuthorizedMerchant_sound:
  assumes inv: "keys_inv rt s" and hex: "hex_digests rt secret" and le: "now \<le> now2"
    and "fst (isAuthorizedMerchant rt secret now now2 p m s)"
  obtains k where "amap_get (hashApiKey rt p secret) (apiKeyRegistry s) = Some k" "ak_is_active k"
    "ak_merchant_nft k = m" "\<not> key_expired rt (now - AUTH_CACHE_TTL_MS) k"
proof -
  let ?h = "hashApiKey rt p secret"
  have h: "CHR '':'' \<notin> set ?h" using hex by (simp add: hex_digests_def)
  have "\<exists>t. now - AUTH_CACHE_TTL_MS \<le> t \<and> fresh_authorized rt t ?h m (apiKeyRegistry s)"
  proof (cases "\<exists>e. amap_get (auth_cache_key ?h m) (authCache s) = Some e \<and> now < ae_expiresAt e")
    case True
    then obtain e where e: "amap_get (auth_cache_key ?h m) (authCache s) = Some e" "now < ae_expiresAt e" by blast
    from keys_invD(4) [OF inv e(1)] h obtain t where "ae_expiresAt e - AUTH_CACHE_TTL_MS \<le> t"
        "ae_authorized e = fresh_authorized rt t ?h m (apiKeyRegistry s)"
      unfolding cache_entry_ok_def using auth_cache_key_inj by metis
    moreover have "ae_authorized e" using assms(4) e by (simp add: isAuthorizedMerchant_def Let_def)
    ultimately show ?thesis using e(2) by (intro exI [of _ t]) simp
  next
    case False
    then have "fresh_authorized rt now2 ?h m (apiKeyRegistry s)"
      using assms(4) by (auto simp: isAuthorizedMerchant_def Let_def split: option.splits if_splits)
    then show ?thesis using le by (intro exI [of _ now2]) (simp add: AUTH_CACHE_TTL_MS_def)
  qed
  then show thesis
    by (auto simp: fresh_authorized_def dest: key_unexpired_not_expired intro: that split: option.splits)
qed

lemma isAuthorizedMerchantAsync_sound:
  assumes "keys_inv rt s" "hex_digests rt secret" "now \<le> now2"
    and auth: "fst (isAuthorizedMerchantAsync rt secret now now2 p m s) = Inr True"
  shows "\<exists>k. key_record rt secret p s = Some k \<and> ak_is_active k \<and> ak_merchant_nft k = m
    \<and> \<not> key_expired rt (now - AUTH_CACHE_TTL_MS) k"
proof (cases "persistentStore s")
  case None
  then have "fst (isAuthorizedMerchant rt secret now now2 p m s)"
    using auth by (auto simp: isAuthorizedMerchantAsync_def split: prod.splits)
  from isAuthorizedMerchant_sound [OF assms(1-3) this] None show ?thesis
    by (metis key_record_def option.simps(4))
next
  case (Some t)
  have mono: "key_expired rt (now - AUTH_CACHE_TTL_MS) k \<Longrightarrow> key_expired rt now k" for k
    by (auto simp: key_expired_def date_lt_def AUTH_CACHE_TTL_MS_def split: option.splits)
  from Some auth show ?thesis
    by (auto simp: isAuthorizedMerchantAsync_def findAndValidateKeyAsync_def key_record_def dest: mono
        split: option.splits sum.splits exn.splits if_splits)
qed

text \<open>Every answer of a check is a boolean: it never throws.\<close>

lemma isAuthorizedMerchantAsync_total: "\<exists>b. fst (isAuthorizedMerchantAsync rt secret now now2 p m s) = Inr b"
  by (auto simp: isAuthorizedMerchantAsync_def findAndValidateKeyAsync_def
      split: option.split sum.split exn.split prod.split)

lemma deactivated_record:
  "key_record rt secret p s = Some k \<Longrightarrow> persistentStore s = None \<Longrightarrow>
   key_record rt secret p (deactivateKey (hashApiKey rt p secret) s) = Some (k\<lparr>ak_is_active := False\<rparr>)"
  by (simp add: key_record_def deactivateKey_def amap_simps)

lemma pk_revoke_get: "pk_get h (snd (pk_revoke kid t)) =
    (case amap_get h t of None \<Rightarrow> None | Some (i, r) \<Rightarrow> Some (if i = kid then r\<lparr>ak_is_active := False\<rparr> else r))"
  by (induction t) (auto simp: pk_get_def pk_revoke_def amap_get_def split: option.splits)

section \<open>Properties\<close>

text \<open>
  C1. An authorisation is sound in every reachable state: if a check answers yes, the presented key
  has a record, that record is active and bound to the merchant asked about, and it was not expired
  one cache lifetime (60 seconds) ago.
\<close>

theorem authorization_sound:
  assumes "key_reach rt secret s" "hex_digests rt secret" "now \<le> now2"
    and "isAuthorizedMerchantAsync rt secret now now2 p m s = (Inr True, s')"
  shows "\<exists>k. key_record rt secret p s = Some k \<and> ak_is_active k \<and> ak_merchant_nft k = m
    \<and> \<not> key_expired rt (now - AUTH_CACHE_TTL_MS) k"
  using isAuthorizedMerchantAsync_sound [OF key_reach_inv [OF assms(1,2)] assms(2,3)] assms(4) by simp

text \<open>
  C2. Revocation takes effect at once: after a revocation by public identifier succeeds, every key
  that carries this identifier is refused by validation and by every later authorisation check, for
  every merchant, whatever was cached before. The identifiers of registered keys are
  distinct, as the random generator makes them.
\<close>

theorem revocation_immediate:
  assumes reach: "key_reach rt secret s" and hex: "hex_digests rt secret" and le: "now \<le> now2"
    and unique: "distinct (map (ak_id \<circ> snd) (apiKeyRegistry s))"
    and columns: "\<And>t h i r. persistentStore s = Some t \<Longrightarrow> amap_get h t = Some (i, r) \<Longrightarrow> i = ak_id r"
    and rec: "key_record rt secret p s = Some k" and kid: "ak_id k = kid"
    and revoked: "revokeByKeyIdAsync kid s = (ok, s')"
  shows "ok \<and> fst (isAuthorizedMerchantAsync rt secret now now2 p m s') = Inr False
    \<and> (\<exists>msg. findAndValidateKeyAsync rt secret now p s' = Inl (ValidationError INVALID_API_KEY msg None))"
proof -
  let ?h = "hashApiKey rt p secret"
  have s': "ok" "key_record rt secret p s' = Some (k\<lparr>ak_is_active := False\<rparr>)"
  proof (atomize (full), cases "persistentStore s")
    case None
    note inv = key_reach_inv [OF reach hex]
    have k: "amap_get ?h (apiKeyRegistry s) = Some k" using rec None by (simp add: key_record_def)
    then have mem: "(?h, k) \<in> set (apiKeyRegistry s)" using keys_invD(1) [OF inv] by (simp add: amap_entries)
    obtain k' where k': "findByKeyId kid s = Some k'"
      using mem kid by (cases "findByKeyId kid s") (auto simp: findByKeyId_def find_None_iff)
    then have "k' \<in> snd ` set (apiKeyRegistry s)" "ak_id k' = kid"
      using find_SomeD by (fastforce simp: findByKeyId_def)+
    with unique mem kid have "k' = k"
      unfolding distinct_map inj_on_def by force
    with k' None keys_invD(3) [OF inv k] revoked
    have "ok \<and> s' = deactivateKey ?h s" by (auto simp: revokeByKeyIdAsync_def revokeByKeyId_def)
    with deactivated_record [OF rec None]
    show "ok \<and> key_record rt secret p s' = Some (k\<lparr>ak_is_active := False\<rparr>)" by simp
  next
    case (Some t)
    then obtain i where row: "amap_get ?h t = Some (i, k)" using rec by (auto simp: key_record_def pk_get_def)
    with columns Some kid have "i = kid" by blast
    with row Some revoked pk_revoke_get [of ?h kid t]
    show "ok \<and> key_record rt secret p s' = Some (k\<lparr>ak_is_active := False\<rparr>)"
      by (auto simp: revokeByKeyIdAsync_def pk_revoke_def key_record_def amap_get_def list_ex_iff dest!: map_of_SomeD)
  qed
  have inv': "keys_inv rt s'"
    using keys_inv_revoke [OF key_reach_inv [OF reach hex], of kid] revoked by simp
  have "fst (isAuthorizedMerchantAsync rt secret now now2 p m s') \<noteq> Inr True"
    using isAuthorizedMerchantAsync_sound [OF inv' hex le, of p m] s'(2) by auto
  with isAuthorizedMerchantAsync_total [of rt secret now now2 p m s']
  have "fst (isAuthorizedMerchantAsync rt secret now now2 p m s') = Inr False" by auto
  moreover have "\<exists>msg. findAndValidateKeyAsync rt secret now p s' = Inl (ValidationError INVALID_API_KEY msg None)"
    using s'(2) by (auto simp: findAndValidateKeyAsync_def findAndValidateKey_def key_record_def split: option.splits)
  ultimately show ?thesis using s'(1) by simp
qed

text \<open>
  Registration rebinds a key at once: after a key is registered for a merchant, the very next
  check answers yes exactly for that merchant (and only while the new record is unexpired), even if
  the same key was bound to another merchant before and that answer was cached.
\<close>

theorem registration_binds:
  assumes reg: "registerApiKeyAsync rt secret t bytes p m' perms lims ex s = (Inr k, s')"
  shows "key_record rt secret p s' = Some k \<and> ak_merchant_nft k = m' \<and> ak_is_active k
    \<and> fst (isAuthorizedMerchantAsync rt secret now now2 p m s') =
        Inr (m = m' \<and> (if persistentStore s = None then key_unexpired rt now2 k else \<not> key_expired rt now k))"
proof -
  let ?h = "hashApiKey rt p secret"
  have miss: "amap_get (auth_cache_key ?h m) (authCache (invalidateCacheForKey ?h x)) = None" for x
    by (simp add: invalidate_get auth_cache_key_def starts_with_def)
  show ?thesis
  proof (cases "persistentStore s")
    case None
    with reg miss show ?thesis
      by (auto simp: registerApiKeyAsync_def registerApiKey_def key_record_def isAuthorizedMerchantAsync_def
          isAuthorizedMerchant_def fresh_authorized_def Let_def amap_simps)
  next
    case (Some t)
    with reg show ?thesis
      by (auto simp: registerApiKeyAsync_def registerApiKey_def key_record_def isAuthorizedMerchantAsync_def
          findAndValidateKeyAsync_def pk_set_def pk_get_def Let_def amap_simps
          split: if_splits sum.splits exn.splits)
  qed
qed

definition rt1 :: js_rt where
  "rt1 = rt0\<lparr>hmac := (\<lambda>k s. concat (map (\<lambda>c. byte_hex (of_nat (of_char c))) s))\<rparr>"

definition ks1 :: key_service where
  "ks1 = snd (registerApiKeyAsync rt1 ''s'' 5 [1, 2] ''tbc_test_a'' ''EQm'' [InvoiceRead] (None, None, None) None new_key_service)"

lemma rt1_hex: "hex_digests rt1 secret"
proof -
  have "CHR '':'' \<notin> set (byte_hex b)" for b
    using to_hex_lower [of "[b]"] by (auto simp: to_hex_def is_hex_lower_def is_digit_def list_all_iff)
  then show ?thesis by (simp add: hex_digests_def hashApiKey_def rt1_def)
qed

lemma ks1_reach: "key_reach rt1 ''s'' ks1"
  unfolding ks1_def by (rule key_reach.step [OF key_reach.init key_step.register])

lemma ks1_key: "amap_get (hashApiKey rt1 ''tbc_test_a'' ''s'') (apiKeyRegistry ks1) = Some
    \<lparr>ak_id = generateKeyId [1, 2], ak_hash = hashApiKey rt1 ''tbc_test_a'' ''s'', ak_merchant_nft = ''EQm'',
     ak_permissions = [InvoiceRead], ak_rate_limits = default_limits (None, None, None),
     ak_created_at = toISO rt1 5, ak_expires_at = None, ak_last_used_at = None, ak_is_active = True\<rparr>"
  by (simp add: ks1_def registerApiKeyAsync_def registerApiKey_def Let_def new_key_service_def amap_get_def)

lemma ks1_store: "persistentStore ks1 = None" "authCache ks1 = []" "map (ak_id \<circ> snd) (apiKeyRegistry ks1) = [generateKeyId [1, 2]]"
  by (simp_all add: ks1_def registerApiKeyAsync_def registerApiKey_def Let_def new_key_service_def invalidateCacheForKey_def)

theorem authorization_sound_witness:
  "fst (isAuthorizedMerchantAsync rt1 ''s'' 7 8 ''tbc_test_a'' ''EQm'' ks1) = Inr True
   \<and> (\<exists>k. key_record rt1 ''s'' ''tbc_test_a'' ks1 = Some k \<and> ak_is_active k \<and> ak_merchant_nft k = ''EQm'')"
proof -
  have "fst (isAuthorizedMerchantAsync rt1 ''s'' 7 8 ''tbc_test_a'' ''EQm'' ks1) = Inr True"
    by (simp add: isAuthorizedMerchantAsync_def isAuthorizedMerchant_def ks1_store fresh_authorized_def ks1_key
        key_unexpired_def Let_def)
  then obtain s' where a: "isAuthorizedMerchantAsync rt1 ''s'' 7 8 ''tbc_test_a'' ''EQm'' ks1 = (Inr True, s')"
    by (cases "isAuthorizedMerchantAsync rt1 ''s'' 7 8 ''tbc_test_a'' ''EQm'' ks1") simp
  show ?thesis using authorization_sound [OF ks1_reach rt1_hex _ a] a by auto
qed

theorem revocation_immediate_witness:
  "fst (isAuthorizedMerchantAsync rt1 ''s'' 7 8 ''tbc_test_a'' ''EQm''
     (snd (revokeByKeyIdAsync (generateKeyId [1, 2]) ks1))) = Inr False"
proof -
  have rec: "key_record rt1 ''s'' ''tbc_test_a'' ks1 = Some
    \<lparr>ak_id = generateKeyId [1, 2], ak_hash = hashApiKey rt1 ''tbc_test_a'' ''s'', ak_merchant_nft = ''EQm'',
     ak_permissions = [InvoiceRead], ak_rate_limits = default_limits (None, None, None),
     ak_created_at = toISO rt1 5, ak_expires_at = None, ak_last_used_at = None, ak_is_active = True\<rparr>"
    by (simp add: key_record_def ks1_store ks1_key)
  obtain ok s' where r: "revokeByKeyIdAsync (generateKeyId [1, 2]) ks1 = (ok, s')" by fastforce
  have "ok \<and> fst (isAuthorizedMerchantAsync rt1 ''s'' 7 8 ''tbc_test_a'' ''EQm'' s') = Inr False
    \<and> (\<exists>msg. findAndValidateKeyAsync rt1 ''s'' 7 ''tbc_test_a'' s' = Inl (ValidationError INVALID_API_KEY msg None))"
    by (rule revocation_immediate [OF ks1_reach rt1_hex _ _ _ rec _ r]) (simp_all add: ks1_store)
  then show ?thesis by (simp add: r)
qed

theorem registration_binds_witness:
  "fst (isAuthorizedMerchantAsync rt1 ''s'' 7 8 ''tbc_test_a'' ''EQm''
     (snd (registerApiKeyAsync rt1 ''s'' 6 [3] ''tbc_test_a'' ''EQn'' [] (None, None, None) None ks1))) = Inr False"
proof -
  obtain k s' where r: "registerApiKeyAsync rt1 ''s'' 6 [3] ''tbc_test_a'' ''EQn'' [] (None, None, None) None ks1 = (Inr k, s')"
    by (simp add: registerApiKeyAsync_def registerApiKey_def Let_def ks1_store)
  show ?thesis using registration_binds [OF r, of 7 8 "''EQm''"] r by simp
qed

end
