(* ===== verification/Api_Storage.thy ===== *)
theory Api_Storage
  imports Api_Keys
begin

text \<open>
  Storage of invoices and idempotency records (\<open>api/src/storage/IStorage.ts\<close>): the interfaces as
  records of operations over an abstract state, their contracts as the locales
  \<open>invoice_store\<close> and \<open>idempotency_store\<close>, and the in-memory implementation
  (\<open>api/src/storage/InMemoryStorage.ts\<close>) that interprets them. \<open>structuredClone\<close> is the identity on
  values. \<open>ir_expiresAt\<close> is \<open>None\<close> for \<open>NaN\<close>.
\<close>

section \<open>The interfaces\<close>

record idempotency_record =
  ir_invoiceId :: string
  ir_expiresAt :: "int option"

record 's inv_ops =
  is_set :: "invoice \<Rightarrow> 's \<Rightarrow> 's"
  is_transition :: "int \<Rightarrow> string \<Rightarrow> invoice_status \<Rightarrow> invoice_status \<Rightarrow> settlement option \<Rightarrow> 's \<Rightarrow> invoice option \<times> 's"
  is_get :: "string \<Rightarrow> 's \<Rightarrow> invoice option"
  is_delete :: "string \<Rightarrow> 's \<Rightarrow> 's"
  is_entries :: "'s \<Rightarrow> (string \<times> invoice) list"

text \<open>
  \<open>ii_entries\<close> is \<open>None\<close> for a backend that omits the optional method. The clock of
  \<open>ii_setIfAbsent\<close> is a sequence of readings, because a backend may retry.
\<close>

record 'i idem_ops =
  ii_set :: "int \<Rightarrow> string \<Rightarrow> idempotency_record \<Rightarrow> 'i \<Rightarrow> 'i"
  ii_setIfAbsent :: "(nat \<Rightarrow> int) \<Rightarrow> string \<Rightarrow> idempotency_record \<Rightarrow> 'i \<Rightarrow> (exn + idempotency_record option) \<times> 'i"
  ii_get :: "int \<Rightarrow> string \<Rightarrow> 'i \<Rightarrow> idempotency_record option \<times> 'i"
  ii_delete :: "string \<Rightarrow> 'i \<Rightarrow> 'i"
  ii_entries :: "('i \<Rightarrow> (string \<times> idempotency_record) list) option"

text \<open>What \<open>transition\<close> writes, and when it applies.\<close>

definition transition_applies :: "js_rt \<Rightarrow> int \<Rightarrow> invoice_status \<Rightarrow> invoice_status \<Rightarrow> invoice \<Rightarrow> bool" where
  "transition_applies rt now fro to v \<longleftrightarrow> iv_status v = fro
     \<and> \<not> (to = Expired \<and> \<not> date_le (dateParse rt (iv_expires_at v)) now \<and> dateParse rt (iv_expires_at v) \<noteq> None)"

definition transition_result :: "invoice_status \<Rightarrow> settlement option \<Rightarrow> invoice \<Rightarrow> invoice" where
  "transition_result to patch v =
     v\<lparr>iv_settlement := (case patch of None \<Rightarrow> iv_settlement v | Some x \<Rightarrow> Some x), iv_status := to\<rparr>"

text \<open>The contract of \<open>IInvoiceStorage\<close>, over the states the backend keeps (\<open>ok\<close>).\<close>

locale invoice_store =
  fixes rt :: js_rt and io :: "'s inv_ops" and ok :: "'s \<Rightarrow> bool"
  assumes get_set: "ok s \<Longrightarrow> is_get io i (is_set io v s) = (if i = iv_id v then Some v else is_get io i s)"
    and get_delete: "ok s \<Longrightarrow> is_get io i (is_delete io j s) = (if i = j then None else is_get io i s)"
    and transition_hit: "ok s \<Longrightarrow> is_get io i s = Some v \<Longrightarrow> transition_applies rt now fro to v \<Longrightarrow>
        fst (is_transition io now i fro to patch s) = Some (transition_result to patch v)"
    and transition_miss: "ok s \<Longrightarrow> \<not> (\<exists>v. is_get io i s = Some v \<and> transition_applies rt now fro to v) \<Longrightarrow>
        is_transition io now i fro to patch s = (None, s)"
    and transition_get: "ok s \<Longrightarrow> fst (is_transition io now i fro to patch s) = Some w \<Longrightarrow>
        is_get io j (snd (is_transition io now i fro to patch s)) = (if j = i then Some w else is_get io j s)"
    and get_id: "ok s \<Longrightarrow> is_get io i s = Some v \<Longrightarrow> iv_id v = i"
    and entries_get: "ok s \<Longrightarrow> (i, v) \<in> set (is_entries io s) \<longleftrightarrow> is_get io i s = Some v"
    and entries_distinct: "ok s \<Longrightarrow> distinct (map fst (is_entries io s))"
    and ok_set: "ok s \<Longrightarrow> ok (is_set io v s)"
    and ok_delete: "ok s \<Longrightarrow> ok (is_delete io i s)"
    and ok_transition: "ok s \<Longrightarrow> ok (snd (is_transition io now i fro to patch s))"
begin

lemma transition_cases:
  assumes "ok s"
  obtains (miss) "is_transition io now i fro to patch s = (None, s)"
      "\<not> (\<exists>v. is_get io i s = Some v \<and> transition_applies rt now fro to v)"
    | (hit) v s' where "is_get io i s = Some v" "transition_applies rt now fro to v" "ok s'"
      "is_transition io now i fro to patch s = (Some (transition_result to patch v), s')"
      "\<And>j. is_get io j s' = (if j = i then Some (transition_result to patch v) else is_get io j s)"
proof (cases "\<exists>v. is_get io i s = Some v \<and> transition_applies rt now fro to v")
  case False
  with transition_miss [OF assms] miss show thesis by blast
next
  case True
  then obtain v where v: "is_get io i s = Some v" "transition_applies rt now fro to v" by blast
  from transition_hit [OF assms v] have f: "fst (is_transition io now i fro to patch s) = Some (transition_result to patch v)" .
  show thesis
  proof (rule hit [OF v ok_transition [OF assms]])
    show "is_transition io now i fro to patch s =
        (Some (transition_result to patch v), snd (is_transition io now i fro to patch s))"
      using f by (metis prod.collapse)
    show "is_get io j (snd (is_transition io now i fro to patch s)) =
        (if j = i then Some (transition_result to patch v) else is_get io j s)" for j
      by (rule transition_get [OF assms f])
  qed
qed

end

text \<open>
  The contract of \<open>IIdempotencyStorage\<close>: \<open>look\<close> is the record a key is mapped to, expired or not.
  \<open>setIfAbsent\<close> either returns an active record and changes nothing, or installs the candidate.
\<close>

locale idempotency_store =
  fixes ii :: "'i idem_ops" and look :: "string \<Rightarrow> 'i \<Rightarrow> idempotency_record option" and ok :: "'i \<Rightarrow> bool"
  assumes set_look: "ok t \<Longrightarrow> look k (ii_set ii now k' r t) = (if k = k' then Some r else look k t)"
    and get_value: "ok t \<Longrightarrow> fst (ii_get ii now k t) =
        (case look k t of None \<Rightarrow> None | Some r \<Rightarrow> if date_lt (ir_expiresAt r) now then None else Some r)"
    and get_look: "ok t \<Longrightarrow> look k' (snd (ii_get ii now k t)) =
        (if k' = k then fst (ii_get ii now k t) else look k' t)"
    and absent_active: "ok t \<Longrightarrow> look k t = Some r \<Longrightarrow> date_ge (ir_expiresAt r) (clk 0) \<Longrightarrow>
        ii_setIfAbsent ii clk k rec t = (Inr (Some r), t)"
    and absent_free: "ok t \<Longrightarrow> \<not> (\<exists>r. look k t = Some r \<and> date_ge (ir_expiresAt r) (clk 0)) \<Longrightarrow>
        fst (ii_setIfAbsent ii clk k rec t) = Inr None
        \<and> look k' (snd (ii_setIfAbsent ii clk k rec t)) = (if k' = k then Some rec else look k' t)"
    and delete_look: "ok t \<Longrightarrow> look k (ii_delete ii k' t) = (if k = k' then None else look k t)"
    and entries_look: "ok t \<Longrightarrow> ii_entries ii = Some es \<Longrightarrow> (k, r) \<in> set (es t) \<longleftrightarrow> look k t = Some r"
    and ok_set: "ok t \<Longrightarrow> ok (ii_set ii now k r t)"
    and ok_get: "ok t \<Longrightarrow> ok (snd (ii_get ii now k t))"
    and ok_setIfAbsent: "ok t \<Longrightarrow> ok (snd (ii_setIfAbsent ii clk k rec t))"
    and ok_delete: "ok t \<Longrightarrow> ok (ii_delete ii k t)"
begin

text \<open>Of two competing writers with the same key, the second is given the record of the first.\<close>

lemma second_writer_loses:
  assumes "ok t" "ii_setIfAbsent ii clk k rec t = (Inr None, t')" "date_ge (ir_expiresAt rec) (clk' 0)"
  shows "ii_setIfAbsent ii clk' k rec' t' = (Inr (Some rec), t')"
proof -
  have "\<not> (\<exists>r. look k t = Some r \<and> date_ge (ir_expiresAt r) (clk 0))"
  proof
    assume "\<exists>r. look k t = Some r \<and> date_ge (ir_expiresAt r) (clk 0)"
    then obtain r where "ii_setIfAbsent ii clk k rec t = (Inr (Some r), t)"
      using absent_active [OF assms(1)] by blast
    with assms(2) show False by simp
  qed
  from absent_free [OF assms(1), where k = k and clk = clk and rec = rec and k' = k, OF this] have "look k t' = Some rec" using assms(2) by simp
  moreover have "ok t'" using ok_setIfAbsent [OF assms(1), of clk k rec] assms(2) by simp
  ultimately show ?thesis using absent_active assms(3) by blast
qed

end

section \<open>In-memory invoice storage\<close>

type_synonym mem_invoices = "(string, invoice) amap"

definition mem_set :: "invoice \<Rightarrow> mem_invoices \<Rightarrow> mem_invoices" where
  "mem_set invoice store = amap_set (iv_id invoice) invoice store"

definition mem_get :: "string \<Rightarrow> mem_invoices \<Rightarrow> invoice option" where
  "mem_get invoiceId store = amap_get invoiceId store"

definition mem_transition :: "js_rt \<Rightarrow> int \<Rightarrow> string \<Rightarrow> invoice_status \<Rightarrow> invoice_status \<Rightarrow> settlement option \<Rightarrow>
    mem_invoices \<Rightarrow> invoice option \<times> mem_invoices" where
  "mem_transition rt now invoiceId fro to patch store =
     (case amap_get invoiceId store of
        None \<Rightarrow> (None, store)
      | Some current \<Rightarrow>
          if iv_status current \<noteq> fro then (None, store)
          else if to = Expired \<and> (case dateParse rt (iv_expires_at current) of None \<Rightarrow> False | Some t \<Rightarrow> t > now)
          then (None, store)
          else let next = (case patch of None \<Rightarrow> current | Some x \<Rightarrow> current\<lparr>iv_settlement := Some x\<rparr>)\<lparr>iv_status := to\<rparr> in
            (Some next, amap_set invoiceId next store))"

definition mem_delete :: "string \<Rightarrow> mem_invoices \<Rightarrow> mem_invoices" where
  "mem_delete invoiceId store = amap_delete invoiceId store"

definition mem_entries :: "mem_invoices \<Rightarrow> (string \<times> invoice) list" where
  "mem_entries store = store"

definition InMemoryInvoiceStorage :: "js_rt \<Rightarrow> mem_invoices inv_ops" where
  "InMemoryInvoiceStorage rt =
     \<lparr>is_set = mem_set, is_transition = mem_transition rt, is_get = mem_get,
      is_delete = mem_delete, is_entries = mem_entries\<rparr>"

definition mem_ok :: "mem_invoices \<Rightarrow> bool" where
  "mem_ok s \<longleftrightarrow> amap_wf s \<and> list_all (\<lambda>(i, v). iv_id v = i) s"

section \<open>In-memory idempotency storage\<close>

type_synonym mem_idempotency = "(string, idempotency_record) amap"

definition memi_set :: "int \<Rightarrow> string \<Rightarrow> idempotency_record \<Rightarrow> mem_idempotency \<Rightarrow> mem_idempotency" where
  "memi_set now key record store = amap_set key record store"

definition memi_setIfAbsent :: "(nat \<Rightarrow> int) \<Rightarrow> string \<Rightarrow> idempotency_record \<Rightarrow> mem_idempotency \<Rightarrow>
    (exn + idempotency_record option) \<times> mem_idempotency" where
  "memi_setIfAbsent clk key record store =
     (case amap_get key store of
        Some existing \<Rightarrow>
          if date_ge (ir_expiresAt existing) (clk 0) then (Inr (Some existing), store)
          else (Inr None, amap_set key record (amap_delete key store))
      | None \<Rightarrow> (Inr None, amap_set key record store))"

definition memi_get :: "int \<Rightarrow> string \<Rightarrow> mem_idempotency \<Rightarrow> idempotency_record option \<times> mem_idempotency" where
  "memi_get now key store =
     (case amap_get key store of
        None \<Rightarrow> (None, store)
      | Some record \<Rightarrow>
          if date_lt (ir_expiresAt record) now then (None, amap_delete key store) else (Some record, store))"

definition memi_delete :: "string \<Rightarrow> mem_idempotency \<Rightarrow> mem_idempotency" where
  "memi_delete key store = amap_delete key store"

definition memi_entries :: "mem_idempotency \<Rightarrow> (string \<times> idempotency_record) list" where
  "memi_entries store = store"

definition InMemoryIdempotencyStorage :: "mem_idempotency idem_ops" where
  "InMemoryIdempotencyStorage =
     \<lparr>ii_set = memi_set, ii_setIfAbsent = memi_setIfAbsent, ii_get = memi_get,
      ii_delete = memi_delete, ii_entries = Some memi_entries\<rparr>"

section \<open>The in-memory stores meet the contracts\<close>

lemma mem_ok_get: "mem_ok s \<Longrightarrow> amap_get i s = Some v \<Longrightarrow> iv_id v = i"
  by (auto simp: mem_ok_def list_all_iff amap_get_def dest: map_of_SomeD)

lemma mem_ok_amap_set: "mem_ok s \<Longrightarrow> iv_id v = i \<Longrightarrow> mem_ok (amap_set i v s)"
  using set_amap_set [of i v s] by (auto simp: mem_ok_def amap_wf_set list_all_iff)

lemma mem_ok_delete: "mem_ok s \<Longrightarrow> mem_ok (amap_delete i s)"
  by (simp add: mem_ok_def amap_wf_delete) (simp add: amap_delete_def list_all_iff)

lemma mem_transition_eq:
  "mem_transition rt now i fro to patch s =
     (case amap_get i s of
        None \<Rightarrow> (None, s)
      | Some v \<Rightarrow> if transition_applies rt now fro to v
          then (Some (transition_result to patch v), amap_set i (transition_result to patch v) s)
          else (None, s))"
  by (cases patch) (auto simp: mem_transition_def transition_applies_def transition_result_def Let_def date_le_def
      split: option.splits)

lemmas mem_ops_defs = InMemoryInvoiceStorage_def mem_set_def mem_get_def mem_delete_def mem_entries_def

interpretation mem: invoice_store rt "InMemoryInvoiceStorage rt" mem_ok for rt
proof (unfold_locales, goal_cases)
  case (3 s i v now fro to patch)
  then show ?case by (simp add: mem_ops_defs mem_transition_eq)
next
  case (4 s i now fro to patch)
  then show ?case by (auto simp: mem_ops_defs mem_transition_eq split: option.split)
next
  case (5 s now i fro to patch w j)
  then show ?case by (auto simp: mem_ops_defs mem_transition_eq amap_simps split: option.splits if_splits)
next
  case (11 s now i fro to patch)
  then show ?case
    by (auto simp: mem_ops_defs mem_transition_eq transition_result_def mem_ok_get split: option.split intro!: mem_ok_amap_set)
next
  case (6 s i v)
  then show ?case by (simp add: mem_ops_defs mem_ok_get)
next
  case (7 s i v)
  then show ?case by (simp add: mem_ops_defs mem_ok_def amap_entries)
next
  case (8 s)
  then show ?case by (simp add: mem_ops_defs mem_ok_def amap_wf_def)
qed (simp_all add: mem_ops_defs amap_simps mem_ok_amap_set mem_ok_delete)

lemmas memi_ops_defs = InMemoryIdempotencyStorage_def memi_set_def memi_setIfAbsent_def memi_get_def
  memi_delete_def memi_entries_def

interpretation memi: idempotency_store InMemoryIdempotencyStorage amap_get amap_wf
  by unfold_locales
    (auto simp: memi_ops_defs amap_simps amap_entries split: option.splits)

end
