(* ===== verification/Api_Invoice.thy ===== *)
theory Api_Invoice
  imports Api_Storage
begin

text \<open>
  The invoice service (\<open>api/src/services/InvoiceService.ts\<close>). The service holds the key service
  and two injected stores, so its operations take the stores' operation records (\<open>invoice_ctx\<close>) and
  return the new state. A clock argument gives the instant of each reading of the clock in program
  order; \<open>createInvoice\<close>, which calls itself when it lost a race against a stale record, takes
  fuel, and the theorem \<open>createInvoice_two_attempts\<close> shows that two attempts are enough for a caller
  that is not interrupted.
\<close>

section \<open>Context and state\<close>

record ('s, 'i) invoice_ctx =
  cx_rt :: js_rt
  cx_env :: env
  cx_secret :: string
  cx_io :: "'s inv_ops"
  cx_ii :: "'i idem_ops"

record ('s, 'i) invoice_service =
  sv_keys :: key_service
  sv_invoices :: 's
  sv_idem :: 'i

datatype rejection_reason = Untrusted_source | Insufficient_confirmations | No_matching_invoice

record process_settlement_result =
  pr_settled :: bool
  pr_reason :: "rejection_reason option"
  pr_invoiceId :: "string option"

record process_settlement_options =
  op_attestation :: "string option"
  op_currentBlockNumber :: "int option"
  op_indexerSecret :: "string option"

datatype storage_kind = In_memory | Durable

definition assertProductionStorageConfigured :: "storage_kind \<Rightarrow> storage_kind \<Rightarrow> env \<Rightarrow> exn + unit" where
  "assertProductionStorageConfigured invoiceStorage idempotencyStorage env =
     (if env ''NODE_ENV'' \<noteq> Some ''production'' then Inr ()
      else if invoiceStorage = In_memory \<or> idempotencyStorage = In_memory then
        Inl (OtherError ''Error'' ''Persistent invoice and idempotency storage are required in production'')
      else Inr ())"

section \<open>Creating an invoice\<close>

definition validateCreateInvoiceRequest :: "js_rt \<Rightarrow> int \<Rightarrow> json \<Rightarrow> exn + unit" where
  "validateCreateInvoiceRequest rt now request =
     (if \<not> js_truthy request then
        Inl (ValidationError INVALID_METADATA ''Request body is required'' None)
      else
        res_bind (validateWhitelistedNFT (jget ''merchant_nft'' request)) (\<lambda>_.
        res_bind (validateAmount (jget ''amount_tbc'' request)) (\<lambda>_.
        if jget ''currency'' request \<noteq> JStr ''TBC'' then
          Inl (ValidationError INVALID_METADATA (''Currency must be '' @ json_quote ''TBC'')
            (Some [(''currency'', jget ''currency'' request)]))
        else
          res_bind (validateMetadata (jget ''metadata'' request)) (\<lambda>_.
          if js_truthy (jget ''expires_at'' request)
          then res_bind (validateExpirationTime rt now (jget ''expires_at'' request)) (\<lambda>_. Inr ())
          else Inr ()))))"

fun jset :: "string \<Rightarrow> json \<Rightarrow> json \<Rightarrow> json" where
  "jset k v (JObj kvs) = JObj (amap_set k v kvs)"
| "jset k v r = r"

definition js_max :: "int option \<Rightarrow> int \<Rightarrow> int option" where
  "js_max x y = map_option (\<lambda>a. max a y) x"

text \<open>The candidate invoice and the request as the \<open>try\<close> block leaves it.\<close>

definition new_invoice :: "js_rt \<Rightarrow> (nat \<Rightarrow> int) \<Rightarrow> 8 word list \<Rightarrow> json \<Rightarrow> invoice \<times> json" where
  "new_invoice rt clk bytes request =
     (let invoiceId = generateInvoiceId bytes;
          createdAt = getCurrentTimestamp rt (clk 6);
          expiresAt = (if js_truthy (jget ''expires_at'' request) then jstr (jget ''expires_at'' request)
                       else generateDefaultExpiry rt (clk 7));
          request' = (case validateExpirationTime rt (clk 8) (JStr expiresAt) of
                        Inr _ \<Rightarrow> request
                      | Inl _ \<Rightarrow> jset ''expires_at'' (JStr (generateDefaultExpiry rt (clk 9))) request)
      in (\<lparr>iv_id = invoiceId, iv_merchant_nft = jstr (jget ''merchant_nft'' request),
           iv_amount_tbc = jstr (jget ''amount_tbc'' request), iv_currency = ''TBC'',
           iv_metadata = sanitizeMetadata (jget ''metadata'' request), iv_status = Pending,
           iv_created_at = createdAt, iv_expires_at = expiresAt,
           iv_payment_url = generatePaymentUrl invoiceId ''https://wallet.tonbankcard.io'',
           iv_settlement = None\<rparr>, request'))"

text \<open>One pass over the body of \<open>createInvoice\<close>: it returns, throws, or calls itself again.\<close>

datatype attempt = Done "exn + invoice" | Again json

definition live_invoice :: "js_rt \<Rightarrow> int \<Rightarrow> invoice option \<Rightarrow> invoice option" where
  "live_invoice rt now x =
     (case x of None \<Rightarrow> None | Some v \<Rightarrow> if isExpired rt now (iv_expires_at v) then None else Some v)"

definition publishInvoice :: "('s, 'i) invoice_ctx \<Rightarrow> (nat \<Rightarrow> int) \<Rightarrow> 8 word list \<Rightarrow> json \<Rightarrow> string \<Rightarrow>
    ('s, 'i) invoice_service \<Rightarrow> attempt \<times> ('s, 'i) invoice_service" where
  "publishInvoice cx clk bytes request idempotencyKey s =
     (case new_invoice (cx_rt cx) clk bytes request of (invoice, request') \<Rightarrow>
      let s1 = s\<lparr>sv_invoices := is_set (cx_io cx) invoice (sv_invoices s)\<rparr>;
          expiresAtMs = dateParse (cx_rt cx) (iv_expires_at invoice)
      in case ii_setIfAbsent (cx_ii cx) (\<lambda>j. clk (20 + j)) idempotencyKey
            \<lparr>ir_invoiceId = iv_id invoice, ir_expiresAt = js_max expiresAtMs (clk 10 + IDEMPOTENCY_TTL_MS)\<rparr> (sv_idem s1) of
           (Inl e, t) \<Rightarrow> (Done (Inl e), s1\<lparr>sv_idem := t\<rparr>)
         | (Inr None, t) \<Rightarrow> (Done (Inr invoice), s1\<lparr>sv_idem := t\<rparr>)
         | (Inr (Some existingRecord), t) \<Rightarrow>
             let s2 = s1\<lparr>sv_idem := t, sv_invoices := is_delete (cx_io cx) (iv_id invoice) (sv_invoices s1)\<rparr>;
                 existingInvoice = is_get (cx_io cx) (ir_invoiceId existingRecord) (sv_invoices s2)
             in case live_invoice (cx_rt cx) (clk 12) existingInvoice of
                  Some v \<Rightarrow> (Done (Inr v), s2)
                | None \<Rightarrow>
                    let s3 = s2\<lparr>sv_idem := ii_delete (cx_ii cx) idempotencyKey (sv_idem s2)\<rparr>;
                        s4 = (if existingInvoice \<noteq> None
                              then s3\<lparr>sv_invoices := is_delete (cx_io cx) (ir_invoiceId existingRecord) (sv_invoices s3)\<rparr>
                              else s3)
                    in (Again request', s4))"

definition reuseOrPublish :: "('s, 'i) invoice_ctx \<Rightarrow> (nat \<Rightarrow> int) \<Rightarrow> 8 word list \<Rightarrow> json \<Rightarrow> string \<Rightarrow>
    ('s, 'i) invoice_service \<Rightarrow> attempt \<times> ('s, 'i) invoice_service" where
  "reuseOrPublish cx clk bytes request idempotencyKey s =
     (case ii_get (cx_ii cx) (clk 4) idempotencyKey (sv_idem s) of
        (None, t) \<Rightarrow> publishInvoice cx clk bytes request idempotencyKey (s\<lparr>sv_idem := t\<rparr>)
      | (Some existingEntry, t) \<Rightarrow>
          let s1 = s\<lparr>sv_idem := t\<rparr>;
              existingInvoice = is_get (cx_io cx) (ir_invoiceId existingEntry) (sv_invoices s1)
          in case live_invoice (cx_rt cx) (clk 5) existingInvoice of
               Some v \<Rightarrow> (Done (Inr v), s1)
             | None \<Rightarrow>
                 let s2 = (if existingInvoice \<noteq> None
                           then s1\<lparr>sv_idem := ii_delete (cx_ii cx) idempotencyKey (sv_idem s1),
                                   sv_invoices := is_delete (cx_io cx) (ir_invoiceId existingEntry) (sv_invoices s1)\<rparr>
                           else s1)
                 in publishInvoice cx clk bytes request idempotencyKey s2)"

definition createInvoice_attempt :: "('s, 'i) invoice_ctx \<Rightarrow> (nat \<Rightarrow> int) \<Rightarrow> 8 word list \<Rightarrow> json \<Rightarrow> string \<Rightarrow>
    ('s, 'i) invoice_service \<Rightarrow> attempt \<times> ('s, 'i) invoice_service" where
  "createInvoice_attempt cx clk bytes request merchantApiKey s =
     (case validateCreateInvoiceRequest (cx_rt cx) (clk 0) request of
        Inl e \<Rightarrow> (Done (Inl e), s)
      | Inr _ \<Rightarrow>
          case isAuthorizedMerchantAsync (cx_rt cx) (cx_secret cx) (clk 1) (clk 2) merchantApiKey
              (jstr (jget ''merchant_nft'' request)) (sv_keys s) of
            (Inl e, ks) \<Rightarrow> (Done (Inl e), s\<lparr>sv_keys := ks\<rparr>)
          | (Inr False, ks) \<Rightarrow>
              (Done (Inl (ValidationError UNAUTHORIZED_MERCHANT ''API key not authorized for this merchant NFT'' None)),
               s\<lparr>sv_keys := ks\<rparr>)
          | (Inr True, ks) \<Rightarrow>
              let s1 = s\<lparr>sv_keys := ks\<rparr> in
              case getKeyIdAsync (cx_rt cx) (cx_secret cx) (clk 3) merchantApiKey ks of
                Inl e \<Rightarrow> (Done (Inl e), s1)
              | Inr keyId \<Rightarrow>
                  reuseOrPublish cx clk bytes request (generateIdempotencyKey (cx_rt cx) request keyId) s1)"

text \<open>\<open>clk d i\<close> is reading \<open>i\<close> of attempt \<open>d\<close> and \<open>rnd d\<close> its random bytes.\<close>

fun createInvoice_from :: "nat \<Rightarrow> nat \<Rightarrow> ('s, 'i) invoice_ctx \<Rightarrow> (nat \<Rightarrow> nat \<Rightarrow> int) \<Rightarrow> (nat \<Rightarrow> 8 word list) \<Rightarrow> json \<Rightarrow>
    string \<Rightarrow> ('s, 'i) invoice_service \<Rightarrow> ((exn + invoice) \<times> ('s, 'i) invoice_service) option" where
  "createInvoice_from 0 d cx clk rnd request merchantApiKey s = None"
| "createInvoice_from (Suc fuel) d cx clk rnd request merchantApiKey s =
     (case createInvoice_attempt cx (clk d) (rnd d) request merchantApiKey s of
        (Done r, s') \<Rightarrow> Some (r, s')
      | (Again request', s') \<Rightarrow> createInvoice_from fuel (Suc d) cx clk rnd request' merchantApiKey s')"

definition createInvoice :: "nat \<Rightarrow> ('s, 'i) invoice_ctx \<Rightarrow> (nat \<Rightarrow> nat \<Rightarrow> int) \<Rightarrow> (nat \<Rightarrow> 8 word list) \<Rightarrow> json \<Rightarrow>
    string \<Rightarrow> ('s, 'i) invoice_service \<Rightarrow> ((exn + invoice) \<times> ('s, 'i) invoice_service) option" where
  "createInvoice fuel cx clk rnd request merchantApiKey s = createInvoice_from fuel 0 cx clk rnd request merchantApiKey s"

section \<open>Reading invoices\<close>

text \<open>The expiry sweep shared by \<open>getInvoice\<close> and the clean-up: \<open>transition ?? get ?? invoice\<close>.\<close>

definition expire_if_due :: "('s, 'i) invoice_ctx \<Rightarrow> int \<Rightarrow> int \<Rightarrow> string \<Rightarrow> invoice \<Rightarrow> 's \<Rightarrow> invoice \<times> 's" where
  "expire_if_due cx now now2 invoiceId invoice st =
     (if isExpired (cx_rt cx) now (iv_expires_at invoice) \<and> iv_status invoice = Pending then
        (case is_transition (cx_io cx) now2 invoiceId Pending Expired None st of
           (Some w, st') \<Rightarrow> (w, st')
         | (None, st') \<Rightarrow>
             (case is_get (cx_io cx) invoiceId st' of Some w \<Rightarrow> (w, st') | None \<Rightarrow> (invoice, st')))
      else (invoice, st))"

definition getInvoice :: "('s, 'i) invoice_ctx \<Rightarrow> (nat \<Rightarrow> int) \<Rightarrow> string \<Rightarrow> ('s, 'i) invoice_service \<Rightarrow>
    (exn + invoice) \<times> ('s, 'i) invoice_service" where
  "getInvoice cx clk invoiceId s =
     (case validateInvoiceId (JStr invoiceId) of
        Inl e \<Rightarrow> (Inl e, s)
      | Inr _ \<Rightarrow>
          (case is_get (cx_io cx) invoiceId (sv_invoices s) of
             None \<Rightarrow> (Inl (ValidationError INVOICE_NOT_FOUND ''Invoice not found''
                        (Some [(''invoice_id'', JStr invoiceId)])), s)
           | Some invoice \<Rightarrow>
               (case expire_if_due cx (clk 0) (clk 1) invoiceId invoice (sv_invoices s) of
                  (w, st) \<Rightarrow> (Inr w, s\<lparr>sv_invoices := st\<rparr>))))"

definition toPublicView :: "invoice \<Rightarrow> public_invoice_view" where
  "toPublicView invoice =
     \<lparr>pv_id = iv_id invoice, pv_amount_tbc = iv_amount_tbc invoice, pv_currency = iv_currency invoice,
      pv_status = iv_status invoice, pv_created_at = iv_created_at invoice,
      pv_expires_at = iv_expires_at invoice, pv_payment_url = iv_payment_url invoice\<rparr>"

definition getPublicInvoice :: "('s, 'i) invoice_ctx \<Rightarrow> (nat \<Rightarrow> int) \<Rightarrow> string \<Rightarrow> ('s, 'i) invoice_service \<Rightarrow>
    (exn + public_invoice_view) \<times> ('s, 'i) invoice_service" where
  "getPublicInvoice cx clk invoiceId s =
     (case getInvoice cx clk invoiceId s of
        (Inl e, s') \<Rightarrow> (Inl e, s')
      | (Inr invoice, s') \<Rightarrow> (Inr (toPublicView invoice), s'))"

text \<open>The object-level authorisation shared by the merchant's two read operations.\<close>

definition authorizedInvoice :: "('s, 'i) invoice_ctx \<Rightarrow> (nat \<Rightarrow> int) \<Rightarrow> string \<Rightarrow> string \<Rightarrow> ('s, 'i) invoice_service \<Rightarrow>
    (exn + invoice) \<times> ('s, 'i) invoice_service" where
  "authorizedInvoice cx clk invoiceId merchantApiKey s =
     (case getInvoice cx clk invoiceId s of
        (Inl e, s') \<Rightarrow> (Inl e, s')
      | (Inr invoice, s') \<Rightarrow>
          (case isAuthorizedMerchantAsync (cx_rt cx) (cx_secret cx) (clk 2) (clk 3) merchantApiKey
              (iv_merchant_nft invoice) (sv_keys s') of
             (Inl e, ks) \<Rightarrow> (Inl e, s'\<lparr>sv_keys := ks\<rparr>)
           | (Inr False, ks) \<Rightarrow>
               (Inl (ValidationError UNAUTHORIZED_MERCHANT ''API key not authorized for this invoice'' None),
                s'\<lparr>sv_keys := ks\<rparr>)
           | (Inr True, ks) \<Rightarrow> (Inr invoice, s'\<lparr>sv_keys := ks\<rparr>)))"

definition getInvoiceDetail :: "('s, 'i) invoice_ctx \<Rightarrow> (nat \<Rightarrow> int) \<Rightarrow> string \<Rightarrow> string \<Rightarrow> ('s, 'i) invoice_service \<Rightarrow>
    (exn + invoice) \<times> ('s, 'i) invoice_service" where
  "getInvoiceDetail cx clk invoiceId merchantApiKey s = authorizedInvoice cx clk invoiceId merchantApiKey s"

definition getInvoiceStatus :: "('s, 'i) invoice_ctx \<Rightarrow> (nat \<Rightarrow> int) \<Rightarrow> string \<Rightarrow> string \<Rightarrow> ('s, 'i) invoice_service \<Rightarrow>
    (exn + invoice_status_response) \<times> ('s, 'i) invoice_service" where
  "getInvoiceStatus cx clk invoiceId merchantApiKey s =
     (case authorizedInvoice cx clk invoiceId merchantApiKey s of
        (Inl e, s') \<Rightarrow> (Inl e, s')
      | (Inr invoice, s') \<Rightarrow>
          (Inr \<lparr>sr_id = iv_id invoice, sr_status = iv_status invoice, sr_created_at = iv_created_at invoice,
                sr_expires_at = iv_expires_at invoice, sr_settlement = iv_settlement invoice\<rparr>, s'))"

section \<open>Settlement\<close>

definition expectedHash :: "js_rt \<Rightarrow> invoice \<Rightarrow> string" where
  "expectedHash rt invoice =
     hashMetadata rt (amap_set ''invoice_id'' (JStr (iv_id invoice))
       (case iv_metadata invoice of None \<Rightarrow> [] | Some md \<Rightarrow> md))"

definition settlement_of :: "js_rt \<Rightarrow> settlement_event \<Rightarrow> int \<Rightarrow> settlement" where
  "settlement_of rt event confirmations =
     \<lparr>st_payer_nft = ev_payer_nft event, st_merchant_nft = ev_merchant_nft event,
      st_amount_tbc = ev_amount_tbc event, st_block_number = ev_block_number event,
      st_tx_hash = ev_tx_hash event, st_timestamp = toISO rt (ev_timestamp event * 1000),
      st_payload_hash = ev_payload_hash event, st_on_chain_verified = True,
      st_verification_url = generateExplorerUrl (ev_tx_hash event) ''https://tonscan.org'',
      st_confirmations = Some confirmations, st_is_final = Some True\<rparr>"

text \<open>Whether the loop of \<open>processSettlementEvent\<close> reaches the transition for an invoice.\<close>

definition event_matches :: "js_rt \<Rightarrow> settlement_event \<Rightarrow> invoice \<Rightarrow> bool" where
  "event_matches rt event invoice \<longleftrightarrow> iv_status invoice = Pending
     \<and> iv_merchant_nft invoice = ev_merchant_nft event \<and> iv_amount_tbc invoice = ev_amount_tbc event
     \<and> expectedHash rt invoice = ev_payload_hash event"

fun settle_loop :: "('s, 'i) invoice_ctx \<Rightarrow> int \<Rightarrow> settlement_event \<Rightarrow> int \<Rightarrow> (string \<times> invoice) list \<Rightarrow> 's \<Rightarrow>
    process_settlement_result \<times> 's" where
  "settle_loop cx now event confirmations [] st =
     (\<lparr>pr_settled = False, pr_reason = Some No_matching_invoice, pr_invoiceId = None\<rparr>, st)"
| "settle_loop cx now event confirmations ((_, invoice) # rest) st =
     (if \<not> event_matches (cx_rt cx) event invoice then settle_loop cx now event confirmations rest st
      else case is_transition (cx_io cx) now (iv_id invoice) Pending Settled
             (Some (settlement_of (cx_rt cx) event confirmations)) st of
          (Some _, st') \<Rightarrow> (\<lparr>pr_settled = True, pr_reason = None, pr_invoiceId = Some (iv_id invoice)\<rparr>, st')
        | (None, st') \<Rightarrow> settle_loop cx now event confirmations rest st')"

text \<open>\<open>options.indexerSecret ?? resolveSettlementIndexerSecret()\<close>.\<close>

definition settlement_secret :: "env \<Rightarrow> process_settlement_options \<Rightarrow> exn + string" where
  "settlement_secret env options =
     (case op_indexerSecret options of Some x \<Rightarrow> Inr x | None \<Rightarrow> resolveSettlementIndexerSecret env)"

definition processSettlementEvent :: "('s, 'i) invoice_ctx \<Rightarrow> int \<Rightarrow> settlement_event \<Rightarrow> process_settlement_options \<Rightarrow>
    ('s, 'i) invoice_service \<Rightarrow> (exn + process_settlement_result) \<times> ('s, 'i) invoice_service" where
  "processSettlementEvent cx now event options s =
     (case settlement_secret (cx_env cx) options of
        Inl e \<Rightarrow> (Inl e, s)
      | Inr indexerSecret \<Rightarrow>
          (case verifySettlementAttestation (cx_rt cx) indexerSecret event (op_attestation options) of
             Inl e \<Rightarrow> (Inl e, s)
           | Inr False \<Rightarrow>
               (Inl (ValidationError UNTRUSTED_SETTLEMENT_SOURCE
                  ''Settlement event is not attested by the trusted indexer'' None), s)
           | Inr True \<Rightarrow>
               (case map_option (\<lambda>b. b - ev_block_number event) (op_currentBlockNumber options) of
                  Some confirmations \<Rightarrow>
                    if confirmations \<ge> MIN_CONFIRMATIONS then
                      (case settle_loop cx now event confirmations (is_entries (cx_io cx) (sv_invoices s)) (sv_invoices s) of
                         (r, st) \<Rightarrow> (Inr r, s\<lparr>sv_invoices := st\<rparr>))
                    else (Inr \<lparr>pr_settled = False, pr_reason = Some Insufficient_confirmations, pr_invoiceId = None\<rparr>, s)
                | None \<Rightarrow>
                    (Inr \<lparr>pr_settled = False, pr_reason = Some Insufficient_confirmations, pr_invoiceId = None\<rparr>, s))))"

section \<open>Clean-up\<close>

text \<open>\<open>(now - expiry) / day > 7\<close>; the quotient of two such integers exceeds 7 exactly when the
  difference exceeds seven days. \<open>NaN\<close> compares false.\<close>

definition long_expired :: "js_rt \<Rightarrow> int \<Rightarrow> invoice \<Rightarrow> bool" where
  "long_expired rt now invoice =
     (iv_status invoice = Expired \<and>
      (case dateParse rt (iv_expires_at invoice) of None \<Rightarrow> False | Some e \<Rightarrow> now - e > 7 * (1000 * 60 * 60 * 24)))"

fun cleanup_invoices :: "('s, 'i) invoice_ctx \<Rightarrow> int \<Rightarrow> (nat \<Rightarrow> int) \<Rightarrow> nat \<Rightarrow> (string \<times> invoice) list \<Rightarrow> nat \<Rightarrow> 's \<Rightarrow> nat \<times> 's" where
  "cleanup_invoices cx now clk i [] cleaned st = (cleaned, st)"
| "cleanup_invoices cx now clk i ((invoiceId, storedInvoice) # rest) cleaned st =
     (case expire_if_due cx (clk i) (clk (i + 1)) invoiceId storedInvoice st of
        (invoice, st') \<Rightarrow>
          if long_expired (cx_rt cx) now invoice
          then cleanup_invoices cx now clk (i + 2) rest (cleaned + 1) (is_delete (cx_io cx) invoiceId st')
          else cleanup_invoices cx now clk (i + 2) rest cleaned st')"

fun cleanup_idem :: "('s, 'i) invoice_ctx \<Rightarrow> 's \<Rightarrow> (string \<times> idempotency_record) list \<Rightarrow> nat \<Rightarrow> 'i \<Rightarrow> nat \<times> 'i" where
  "cleanup_idem cx st [] cleaned t = (cleaned, t)"
| "cleanup_idem cx st ((key, record) # rest) cleaned t =
     (if is_get (cx_io cx) (ir_invoiceId record) st = None
      then cleanup_idem cx st rest (cleaned + 1) (ii_delete (cx_ii cx) key t)
      else cleanup_idem cx st rest cleaned t)"

definition cleanupExpiredInvoices :: "('s, 'i) invoice_ctx \<Rightarrow> (nat \<Rightarrow> int) \<Rightarrow> ('s, 'i) invoice_service \<Rightarrow>
    (nat \<times> nat) \<times> ('s, 'i) invoice_service" where
  "cleanupExpiredInvoices cx clk s =
     (case cleanup_invoices cx (clk 0) clk 1 (is_entries (cx_io cx) (sv_invoices s)) 0 (sv_invoices s) of
        (invoicesCleaned, st) \<Rightarrow>
          (case ii_entries (cx_ii cx) of
             None \<Rightarrow> ((invoicesCleaned, 0), s\<lparr>sv_invoices := st\<rparr>)
           | Some es \<Rightarrow>
               (case cleanup_idem cx st (es (sv_idem s)) 0 (sv_idem s) of
                  (idempotencyKeysCleaned, t) \<Rightarrow>
                    ((invoicesCleaned, idempotencyKeysCleaned), s\<lparr>sv_invoices := st, sv_idem := t\<rparr>))))"

section \<open>Invariants of stored invoices\<close>

text \<open>A settlement that proves the invoice paid: final, on-chain verified and about this invoice.\<close>

definition settlement_valid :: "js_rt \<Rightarrow> invoice \<Rightarrow> settlement \<Rightarrow> bool" where
  "settlement_valid rt v x \<longleftrightarrow> st_on_chain_verified x \<and> st_is_final x = Some True
     \<and> (\<exists>c\<ge>6. st_confirmations x = Some c)
     \<and> st_merchant_nft x = iv_merchant_nft v \<and> st_amount_tbc x = iv_amount_tbc v
     \<and> st_payload_hash x = expectedHash rt v"

definition invoice_ok :: "js_rt \<Rightarrow> invoice \<Rightarrow> bool" where
  "invoice_ok rt v \<longleftrightarrow> uuidRegex (iv_id v) \<and> iv_merchant_nft v \<in> set WHITELISTED_NFT_COLLECTIONS
     \<and> (\<exists>n>0. int n \<le> MAX_TBC_AMOUNT \<and> iv_amount_tbc v = dec n) \<and> iv_currency v = ''TBC''
     \<and> (\<forall>md. iv_metadata v = Some md \<longrightarrow> length md \<le> 10 \<and> ''invoice_id'' \<notin> fst ` set md)
     \<and> (iv_status v = Settled \<longleftrightarrow> iv_settlement v \<noteq> None)
     \<and> (\<forall>x. iv_settlement v = Some x \<longrightarrow> settlement_valid rt v x)"

text \<open>How one invoice may change: its terms are fixed, and a terminal status never changes.\<close>

definition evolves :: "invoice \<Rightarrow> invoice \<Rightarrow> bool" where
  "evolves v w \<longleftrightarrow> w = v \<or> (iv_status v = Pending \<and>
     (w = v\<lparr>iv_status := Expired\<rparr> \<or> (\<exists>x. w = v\<lparr>iv_status := Settled, iv_settlement := Some x\<rparr>)))"

lemma evolves_refl [simp]: "evolves v v"
  by (simp add: evolves_def)

lemma expectedHash_cong:
  "iv_id w = iv_id v \<Longrightarrow> iv_metadata w = iv_metadata v \<Longrightarrow> expectedHash rt w = expectedHash rt v"
  by (simp add: expectedHash_def)

lemma invoice_ok_expired: "invoice_ok rt v \<Longrightarrow> iv_status v = Pending \<Longrightarrow> invoice_ok rt (v\<lparr>iv_status := Expired\<rparr>)"
  by (auto simp: invoice_ok_def)

lemma invoice_ok_settled:
  assumes "invoice_ok rt v" "event_matches rt e v" "6 \<le> c"
  shows "invoice_ok rt (v\<lparr>iv_status := Settled, iv_settlement := Some (settlement_of rt e c)\<rparr>)"
  using assms expectedHash_cong [of "v\<lparr>iv_status := Settled, iv_settlement := Some (settlement_of rt e c)\<rparr>" v rt]
  by (simp add: invoice_ok_def event_matches_def settlement_valid_def settlement_of_def)

lemma transition_result_simps [simp]:
  "transition_result to None v = v\<lparr>iv_status := to\<rparr>"
  "transition_result to (Some x) v = v\<lparr>iv_status := to, iv_settlement := Some x\<rparr>"
  by (simp_all add: transition_result_def)

lemma validateCreate_accepts:
  assumes "validateCreateInvoiceRequest rt now request = Inr u"
  shows "js_truthy request" "jstr (jget ''merchant_nft'' request) \<in> set WHITELISTED_NFT_COLLECTIONS"
    "\<exists>n>0. int n \<le> MAX_TBC_AMOUNT \<and> jstr (jget ''amount_tbc'' request) = dec n"
    "jget ''currency'' request = JStr ''TBC''"
    "validateMetadata (jget ''metadata'' request) = Inr True"
    "js_truthy (jget ''expires_at'' request) \<Longrightarrow> validateExpirationTime rt now (jget ''expires_at'' request) = Inr True"
  using assms
  by (auto simp: validateCreateInvoiceRequest_def result_simps validateWhitelistedNFT_accepts validateAmount_accepts
      validateExpirationTime_accepts split: if_splits)
    (auto simp: validateMetadata_def result_simps Let_def split: if_splits)

lemma sanitizeMetadata_validated:
  assumes "validateMetadata md = Inr True" "sanitizeMetadata md = Some md'"
  shows "length md' \<le> 10" "''invoice_id'' \<notin> fst ` set md'"
proof -
  from assms(2) have t: "js_truthy md" and md': "md' = filter (\<lambda>(k, _). k \<noteq> ''__proto__'') (take 10 (filter (\<lambda>(_, v). v \<noteq> JUndef) (jfields md)))"
    using sanitize_loop_eq [of 0 "jfields md"] by (auto simp: sanitizeMetadata_def Let_def split: if_splits)
  show "length md' \<le> 10" unfolding md' by (rule order_trans [OF length_filter_le]) simp
  from assms(1) t obtain kvs where kvs: "md = JObj kvs" by (cases md) (auto simp: validateMetadata_def)
  with assms(1) have "\<forall>(k, v)\<in>set kvs. k \<noteq> ''invoice_id''" by (auto simp: validateMetadata_accepts)
  moreover have "set md' \<subseteq> set kvs" using set_take_subset by (fastforce simp: md' kvs dest: in_set_takeD)
  ultimately show "''invoice_id'' \<notin> fst ` set md'" by fastforce
qed

lemma new_invoice_fields:
  assumes "new_invoice rt clk bytes request = (v, request')"
  shows "iv_id v = generateInvoiceId bytes" "iv_status v = Pending" "iv_settlement v = None"
    "iv_merchant_nft v = jstr (jget ''merchant_nft'' request)"
    "iv_amount_tbc v = jstr (jget ''amount_tbc'' request)" "iv_currency v = ''TBC''"
    "iv_metadata v = sanitizeMetadata (jget ''metadata'' request)"
  using assms by (auto simp: new_invoice_def Let_def)

lemma new_invoice_ok:
  assumes "validateCreateInvoiceRequest rt now request = Inr u" "length bytes = 8"
    and "new_invoice rt clk bytes request = (v, request')"
  shows "invoice_ok rt v"
  unfolding invoice_ok_def new_invoice_fields [OF assms(3)]
  using validateCreate_accepts [OF assms(1)] generateInvoiceId_valid [OF assms(2)]
    sanitizeMetadata_validated [of "jget ''metadata'' request"] by auto

text \<open>The request is only ever changed in its expiry, which a failed validation replaces.\<close>

section \<open>The service over a backend that keeps the storage contracts\<close>

definition store_all :: "('s, 'i) invoice_ctx \<Rightarrow> (invoice \<Rightarrow> bool) \<Rightarrow> 's \<Rightarrow> bool" where
  "store_all cx P st \<longleftrightarrow> (\<forall>i v. is_get (cx_io cx) i st = Some v \<longrightarrow> P v)"

text \<open>
  What one pass of a creation does to the stores (from \<open>s\<close> to \<open>s'\<close>, with candidate \<open>v\<close>): it adds at
  most the candidate, and removes an earlier invoice only if it has expired.
\<close>

definition creation_effect :: "('s, 'i) invoice_ctx \<Rightarrow> int set \<Rightarrow> invoice \<Rightarrow> 's \<Rightarrow> 's \<Rightarrow> bool" where
  "creation_effect cx nows v s s' \<longleftrightarrow>
     (\<forall>i w. is_get (cx_io cx) i s' = Some w \<longrightarrow> is_get (cx_io cx) i s = Some w \<or> w = v)
     \<and> (\<forall>i w. is_get (cx_io cx) i s = Some w \<longrightarrow> i \<noteq> iv_id v \<longrightarrow>
          is_get (cx_io cx) i s' = Some w
          \<or> is_get (cx_io cx) i s' = None \<and> (\<exists>now\<in>nows. isExpired (cx_rt cx) now (iv_expires_at w)))"

text \<open>
  Steps of the service. \<open>T\<close> bounds the clock readings of the step; the random identifiers of a
  creation are not in use.
\<close>

inductive svc_step :: "('s, 'i) invoice_ctx \<Rightarrow> int \<Rightarrow> ('s, 'i) invoice_service \<Rightarrow> ('s, 'i) invoice_service \<Rightarrow> bool"
  for cx T where
  create: "createInvoice fuel cx clk rnd request key s = Some (r, s') \<Longrightarrow> (\<And>d j. clk d j \<le> T) \<Longrightarrow>
     (\<And>d. clk d 1 \<le> clk d 2) \<Longrightarrow> (\<And>d. length (rnd d) = 8) \<Longrightarrow>
     (\<And>d. is_get (cx_io cx) (generateInvoiceId (rnd d)) (sv_invoices s) = None) \<Longrightarrow> svc_step cx T s s'"
| read: "(\<And>j. clk j \<le> T) \<Longrightarrow> svc_step cx T s (snd (getInvoice cx clk i s))"
| public: "(\<And>j. clk j \<le> T) \<Longrightarrow> svc_step cx T s (snd (getPublicInvoice cx clk i s))"
| detail: "(\<And>j. clk j \<le> T) \<Longrightarrow> clk 2 \<le> clk 3 \<Longrightarrow> svc_step cx T s (snd (getInvoiceDetail cx clk i key s))"
| status: "(\<And>j. clk j \<le> T) \<Longrightarrow> clk 2 \<le> clk 3 \<Longrightarrow> svc_step cx T s (snd (getInvoiceStatus cx clk i key s))"
| settle: "now \<le> T \<Longrightarrow> svc_step cx T s (snd (processSettlementEvent cx now e opts s))"
| cleanup: "(\<And>j. clk j \<le> T) \<Longrightarrow> svc_step cx T s (snd (cleanupExpiredInvoices cx clk s))"
| keys: "key_step (cx_rt cx) (cx_secret cx) (sv_keys s) ks \<Longrightarrow> svc_step cx T s (s\<lparr>sv_keys := ks\<rparr>)"

inductive svc_reach :: "('s, 'i) invoice_ctx \<Rightarrow> ('s, 'i) invoice_service \<Rightarrow> ('s, 'i) invoice_service \<Rightarrow> bool"
  for cx s0 where
  start: "svc_reach cx s0 s0"
| later: "svc_reach cx s0 s \<Longrightarrow> svc_step cx T s s' \<Longrightarrow> svc_reach cx s0 s'"

text \<open>One invoice from before to after a step: kept, moved to a terminal status, or removed once expired.\<close>

definition lifecycle :: "js_rt \<Rightarrow> int \<Rightarrow> invoice option \<Rightarrow> invoice option \<Rightarrow> bool" where
  "lifecycle rt T x y = (case x of None \<Rightarrow> True | Some v \<Rightarrow>
     (case y of Some w \<Rightarrow> evolves v w | None \<Rightarrow> isExpired rt T (iv_expires_at v)))"

definition svc_inv :: "('s, 'i) invoice_ctx \<Rightarrow> ('s \<Rightarrow> bool) \<Rightarrow> ('i \<Rightarrow> bool) \<Rightarrow> ('s, 'i) invoice_service \<Rightarrow> bool" where
  "svc_inv cx ok iok s \<longleftrightarrow> ok (sv_invoices s) \<and> iok (sv_idem s) \<and> store_all cx (invoice_ok (cx_rt cx)) (sv_invoices s)"

lemma isExpired_mono: "isExpired rt now e \<Longrightarrow> now \<le> T \<Longrightarrow> isExpired rt T e"
  by (auto simp: isExpired_def date_le_def split: option.splits)

locale invoice_backend =
  st: invoice_store "cx_rt cx" "cx_io cx" ok + im: idempotency_store "cx_ii cx" look iok
  for cx :: "('s, 'i) invoice_ctx" and ok look iok
begin

lemma expire_if_due_result:
  assumes "ok s" "is_get (cx_io cx) i s = Some v" "expire_if_due cx now now2 i v s = (w, s')"
  shows "ok s'" "is_get (cx_io cx) j s' = (if j = i then Some w else is_get (cx_io cx) j s)"
    "w = v \<or> iv_status v = Pending \<and> isExpired (cx_rt cx) now (iv_expires_at v) \<and> w = v\<lparr>iv_status := Expired\<rparr>"
proof -
  have "ok s' \<and> (\<forall>j. is_get (cx_io cx) j s' = (if j = i then Some w else is_get (cx_io cx) j s)) \<and>
    (w = v \<or> iv_status v = Pending \<and> isExpired (cx_rt cx) now (iv_expires_at v) \<and> w = v\<lparr>iv_status := Expired\<rparr>)"
  proof (cases "isExpired (cx_rt cx) now (iv_expires_at v) \<and> iv_status v = Pending")
    case False
    with assms show ?thesis by (auto simp: expire_if_due_def)
  next
    case True
    show ?thesis
      by (rule st.transition_cases [OF assms(1), of now2 i Pending Expired None])
        (use True assms in \<open>auto simp: expire_if_due_def\<close>)
  qed
  then show "ok s'" "is_get (cx_io cx) j s' = (if j = i then Some w else is_get (cx_io cx) j s)"
    "w = v \<or> iv_status v = Pending \<and> isExpired (cx_rt cx) now (iv_expires_at v) \<and> w = v\<lparr>iv_status := Expired\<rparr>"
    by auto
qed

lemma expire_if_due_evolves:
  assumes "ok s" "is_get (cx_io cx) i s = Some v" "expire_if_due cx now now2 i v s = (w, s')"
  shows "evolves v w"
  using expire_if_due_result(3) [OF assms] by (auto simp: evolves_def)

text \<open>The effect of the settlement loop on a snapshot of the store: the first match is settled.\<close>

lemma settle_loop_result:
  assumes "ok s" "\<And>i v. (i, v) \<in> set es \<Longrightarrow> is_get (cx_io cx) i s = Some v"
    and "settle_loop cx now e c es s = (r, s')"
  shows "(\<exists>i v. (i, v) \<in> set es \<and> event_matches (cx_rt cx) e v \<and> ok s'
          \<and> r = \<lparr>pr_settled = True, pr_reason = None, pr_invoiceId = Some i\<rparr>
          \<and> (\<forall>j. is_get (cx_io cx) j s' = (if j = i
               then Some (v\<lparr>iv_status := Settled, iv_settlement := Some (settlement_of (cx_rt cx) e c)\<rparr>)
               else is_get (cx_io cx) j s)))
    \<or> (r = \<lparr>pr_settled = False, pr_reason = Some No_matching_invoice, pr_invoiceId = None\<rparr> \<and> s' = s
        \<and> (\<forall>(i, v)\<in>set es. \<not> event_matches (cx_rt cx) e v))"
  using assms(2,3)
proof (induction es)
  case Nil
  then show ?case by auto
next
  case (Cons iv es)
  obtain i v where iv: "iv = (i, v)" by (cases iv)
  show ?case
  proof (cases "event_matches (cx_rt cx) e v")
    case False
    with Cons iv show ?thesis by auto
  next
    case True
    have g: "is_get (cx_io cx) i s = Some v" using Cons.prems(1) iv by simp
    then have "iv_id v = i" using st.get_id [OF assms(1)] by blast
    show ?thesis
    proof (rule st.transition_cases [OF assms(1), of now i Pending Settled "Some (settlement_of (cx_rt cx) e c)"])
      assume "\<not> (\<exists>v. is_get (cx_io cx) i s = Some v \<and> transition_applies (cx_rt cx) now Pending Settled v)"
      with g True show ?thesis by (simp add: transition_applies_def event_matches_def)
    next
      fix v' s2
      assume "is_get (cx_io cx) i s = Some v'" "ok s2"
        "is_transition (cx_io cx) now i Pending Settled (Some (settlement_of (cx_rt cx) e c)) s =
           (Some (transition_result Settled (Some (settlement_of (cx_rt cx) e c)) v'), s2)"
        "\<And>j. is_get (cx_io cx) j s2 = (if j = i then Some (transition_result Settled (Some (settlement_of (cx_rt cx) e c)) v')
           else is_get (cx_io cx) j s)"
      with Cons.prems(2) iv g True \<open>iv_id v = i\<close> show ?thesis by auto
    qed
  qed
qed

lemma publishInvoice_cases:
  assumes ok: "ok (sv_invoices s)" "iok (sv_idem s)"
    and new: "new_invoice (cx_rt cx) clk bytes request = (v, request')"
  defines "rec \<equiv> \<lparr>ir_invoiceId = iv_id v,
      ir_expiresAt = js_max (dateParse (cx_rt cx) (iv_expires_at v)) (clk 10 + IDEMPOTENCY_TTL_MS)\<rparr>"
  obtains (won) t where "publishInvoice cx clk bytes request k s =
        (Done (Inr v), s\<lparr>sv_invoices := is_set (cx_io cx) v (sv_invoices s), sv_idem := t\<rparr>)"
      "\<not> (\<exists>r. look k (sv_idem s) = Some r \<and> date_ge (ir_expiresAt r) (clk 20))"
      "iok t" "\<And>k'. look k' t = (if k' = k then Some rec else look k' (sv_idem s))"
    | (lost) r w where "look k (sv_idem s) = Some r" "is_get (cx_io cx) (ir_invoiceId r) (sv_invoices s) = Some w"
      "ir_invoiceId r \<noteq> iv_id v" "\<not> isExpired (cx_rt cx) (clk 12) (iv_expires_at w)"
      "publishInvoice cx clk bytes request k s = (Done (Inr w),
         s\<lparr>sv_invoices := is_delete (cx_io cx) (iv_id v) (is_set (cx_io cx) v (sv_invoices s))\<rparr>)"
    | (dangling) r where "look k (sv_idem s) = Some r" "date_ge (ir_expiresAt r) (clk 20)"
      "is_get (cx_io cx) (ir_invoiceId r) (sv_invoices s) = None \<or> ir_invoiceId r = iv_id v"
      "publishInvoice cx clk bytes request k s = (Again request',
         s\<lparr>sv_invoices := is_delete (cx_io cx) (iv_id v) (is_set (cx_io cx) v (sv_invoices s)),
           sv_idem := ii_delete (cx_ii cx) k (sv_idem s)\<rparr>)"
    | (stale) r w where "look k (sv_idem s) = Some r" "date_ge (ir_expiresAt r) (clk 20)"
      "is_get (cx_io cx) (ir_invoiceId r) (sv_invoices s) = Some w" "ir_invoiceId r \<noteq> iv_id v"
      "isExpired (cx_rt cx) (clk 12) (iv_expires_at w)"
      "publishInvoice cx clk bytes request k s = (Again request',
         s\<lparr>sv_invoices := is_delete (cx_io cx) (ir_invoiceId r)
             (is_delete (cx_io cx) (iv_id v) (is_set (cx_io cx) v (sv_invoices s))),
           sv_idem := ii_delete (cx_ii cx) k (sv_idem s)\<rparr>)"
proof (cases "\<exists>r. look k (sv_idem s) = Some r \<and> date_ge (ir_expiresAt r) (clk 20)")
  case False
  let ?clk = "\<lambda>j. clk (20 + j)"
  from False have free: "\<not> (\<exists>r. look k (sv_idem s) = Some r \<and> date_ge (ir_expiresAt r) (?clk 0))" by simp
  obtain t where t: "ii_setIfAbsent (cx_ii cx) ?clk k rec (sv_idem s) = (Inr None, t)"
    using im.absent_free [OF ok(2), where clk = ?clk and k = k and rec = rec, OF free] by (metis prod.collapse)
  have look: "look k' t = (if k' = k then Some rec else look k' (sv_idem s))" for k'
    using im.absent_free [OF ok(2), where clk = ?clk and k = k and rec = rec, OF free] t by simp
  have "iok t" using im.ok_setIfAbsent [OF ok(2), of ?clk k rec] t by simp
  show thesis
    by (rule won [OF _ False \<open>iok t\<close> look]) (use t in \<open>simp add: publishInvoice_def new Let_def rec_def\<close>)
next
  case True
  let ?clk = "\<lambda>j. clk (20 + j)"
  from True obtain r where r: "look k (sv_idem s) = Some r" "date_ge (ir_expiresAt r) (clk 20)" by blast
  have set: "ii_setIfAbsent (cx_ii cx) ?clk k rec (sv_idem s) = (Inr (Some r), sv_idem s)"
    using im.absent_active [OF ok(2) r(1), of ?clk] r(2) by simp
  have get: "is_get (cx_io cx) i (is_delete (cx_io cx) (iv_id v) (is_set (cx_io cx) v (sv_invoices s))) =
      (if i = iv_id v then None else is_get (cx_io cx) i (sv_invoices s))" for i
    by (simp add: st.get_delete st.get_set st.ok_set ok(1))
  note eval = publishInvoice_def new Let_def rec_def [symmetric] set get live_invoice_def
  show thesis
  proof (cases "ir_invoiceId r = iv_id v \<or> is_get (cx_io cx) (ir_invoiceId r) (sv_invoices s) = None")
    case True
    show thesis by (rule dangling [OF r]) (use True in \<open>auto simp: eval\<close>)
  next
    case False
    then obtain w where w: "is_get (cx_io cx) (ir_invoiceId r) (sv_invoices s) = Some w" by blast
    show thesis
    proof (cases "isExpired (cx_rt cx) (clk 12) (iv_expires_at w)")
      case True
      show thesis by (rule stale [OF r w]) (use False True w in \<open>simp_all add: eval\<close>)
    next
      case notexp: False
      show thesis by (rule lost [OF r(1) w]) (use False notexp w in \<open>simp_all add: eval\<close>)
    qed
  qed
qed

lemma publishInvoice_effect:
  assumes ok: "ok (sv_invoices s)" "iok (sv_idem s)"
    and new: "new_invoice (cx_rt cx) clk bytes request = (v, request')"
    and run: "publishInvoice cx clk bytes request k s = (a, s')"
  shows "ok (sv_invoices s')" "iok (sv_idem s')" "sv_keys s' = sv_keys s"
    "creation_effect cx {clk 12} v (sv_invoices s) (sv_invoices s')"
proof -
  have "ok (sv_invoices s') \<and> iok (sv_idem s') \<and> sv_keys s' = sv_keys s \<and>
      creation_effect cx {clk 12} v (sv_invoices s) (sv_invoices s')"
    by (rule publishInvoice_cases [OF ok new, of k])
      (use run ok in \<open>auto simp: creation_effect_def st.get_set st.get_delete st.ok_set st.ok_delete im.ok_delete
        split: if_splits\<close>)
  then show "ok (sv_invoices s')" "iok (sv_idem s')" "sv_keys s' = sv_keys s"
    "creation_effect cx {clk 12} v (sv_invoices s) (sv_invoices s')" by auto
qed

lemma creation_effect_delete:
  assumes "ok s" "is_get (cx_io cx) i s = Some w" "now \<in> nows" "isExpired (cx_rt cx) now (iv_expires_at w)"
    and "creation_effect cx nows v (is_delete (cx_io cx) i s) s'" "ok s'"
  shows "creation_effect cx nows v s s'"
proof -
  have "is_get (cx_io cx) i s' = None" if "i \<noteq> iv_id v"
  proof (rule ccontr)
    assume "is_get (cx_io cx) i s' \<noteq> None"
    then obtain x where x: "is_get (cx_io cx) i s' = Some x" by blast
    with assms(5) st.get_delete [OF assms(1), of i i] have "x = v" unfolding creation_effect_def by force
    with st.get_id [OF assms(6) x] that show False by simp
  qed
  with assms show ?thesis
    using st.get_delete [OF assms(1), of _ i] unfolding creation_effect_def by (metis option.distinct(1) option.inject)
qed

lemma creation_effect_mono: "creation_effect cx nows v s s' \<Longrightarrow> nows \<subseteq> nows' \<Longrightarrow> creation_effect cx nows' v s s'"
  unfolding creation_effect_def by blast

lemma creation_effect_same [simp]: "creation_effect cx nows v s s"
  by (simp add: creation_effect_def)

lemma reuseOrPublish_effect:
  assumes ok: "ok (sv_invoices s)" "iok (sv_idem s)"
    and new: "new_invoice (cx_rt cx) clk bytes request = (v, request')"
    and run: "reuseOrPublish cx clk bytes request k s = (a, s')"
  shows "ok (sv_invoices s') \<and> iok (sv_idem s') \<and> sv_keys s' = sv_keys s \<and>
    creation_effect cx {clk 5, clk 12} v (sv_invoices s) (sv_invoices s')"
proof -
  obtain x t where x: "ii_get (cx_ii cx) (clk 4) k (sv_idem s) = (x, t)" by fastforce
  have t: "iok t" using im.ok_get [OF ok(2), of "clk 4" k] x by simp
  note mono = creation_effect_mono [where nows = "{clk 12}" and nows' = "{clk 5, clk 12}"]
  show ?thesis
  proof (cases x)
    case None
    with run x have "publishInvoice cx clk bytes request k (s\<lparr>sv_idem := t\<rparr>) = (a, s')"
      by (simp add: reuseOrPublish_def)
    from publishInvoice_effect [OF _ _ new this] ok t mono show ?thesis by simp
  next
    case (Some e)
    let ?g = "is_get (cx_io cx) (ir_invoiceId e) (sv_invoices s)"
    show ?thesis
    proof (cases "live_invoice (cx_rt cx) (clk 5) ?g")
      case (Some w)
      with run x \<open>x = Some e\<close> ok t show ?thesis by (auto simp: reuseOrPublish_def Let_def)
    next
      case None
      show ?thesis
      proof (cases ?g)
        case none: None
        with run x \<open>x = Some e\<close> None have "publishInvoice cx clk bytes request k (s\<lparr>sv_idem := t\<rparr>) = (a, s')"
          by (simp add: reuseOrPublish_def Let_def live_invoice_def)
        from publishInvoice_effect [OF _ _ new this] ok t mono show ?thesis by simp
      next
        case (Some w)
        with None have exp: "isExpired (cx_rt cx) (clk 5) (iv_expires_at w)"
          by (simp add: live_invoice_def split: if_splits)
        with run x \<open>x = Some e\<close> Some None have "publishInvoice cx clk bytes request k
            (s\<lparr>sv_idem := ii_delete (cx_ii cx) k t,
               sv_invoices := is_delete (cx_io cx) (ir_invoiceId e) (sv_invoices s)\<rparr>) = (a, s')"
          by (simp add: reuseOrPublish_def Let_def live_invoice_def)
        from publishInvoice_effect [OF _ _ new this] ok t mono show ?thesis
          using creation_effect_delete [OF ok(1) Some _ exp] by (simp add: st.ok_delete im.ok_delete)
      qed
    qed
  qed
qed

lemma createInvoice_attempt_effect:
  assumes ok: "ok (sv_invoices s)" "iok (sv_idem s)"
    and new: "new_invoice (cx_rt cx) clk bytes request = (v, request')"
    and run: "createInvoice_attempt cx clk bytes request key s = (a, s')"
  shows "ok (sv_invoices s')" "iok (sv_idem s')"
    "creation_effect cx {clk 5, clk 12} v (sv_invoices s) (sv_invoices s')"
    "validateCreateInvoiceRequest (cx_rt cx) (clk 0) request = Inl e \<Longrightarrow> s' = s"
proof -
  have "ok (sv_invoices s') \<and> iok (sv_idem s') \<and>
      creation_effect cx {clk 5, clk 12} v (sv_invoices s) (sv_invoices s')"
  proof -
    have "(\<exists>ks. s' = s\<lparr>sv_keys := ks\<rparr>) \<or> (\<exists>ks k. reuseOrPublish cx clk bytes request k (s\<lparr>sv_keys := ks\<rparr>) = (a, s'))"
      using run unfolding createInvoice_attempt_def Let_def
      by (auto split: sum.splits prod.splits bool.splits intro: exI [of _ "sv_keys s"])
    then show ?thesis
    proof
      assume "\<exists>ks. s' = s\<lparr>sv_keys := ks\<rparr>"
      then show ?thesis using ok by auto
    next
      assume "\<exists>ks k. reuseOrPublish cx clk bytes request k (s\<lparr>sv_keys := ks\<rparr>) = (a, s')"
      then obtain ks k where r: "reuseOrPublish cx clk bytes request k (s\<lparr>sv_keys := ks\<rparr>) = (a, s')" by blast
      from reuseOrPublish_effect [OF _ _ new r] ok show ?thesis by simp
    qed
  qed
  then show "ok (sv_invoices s')" "iok (sv_idem s')"
    "creation_effect cx {clk 5, clk 12} v (sv_invoices s) (sv_invoices s')" by auto
  show "s' = s" if "validateCreateInvoiceRequest (cx_rt cx) (clk 0) request = Inl e"
    using run that by (simp add: createInvoice_attempt_def)
qed

lemma createInvoice_from_inv:
  assumes "ok (sv_invoices s)" "iok (sv_idem s)" "\<And>d. length (rnd d) = 8"
    and "createInvoice_from fuel d cx clk rnd request key s = Some (r, s')"
    and "store_all cx (invoice_ok (cx_rt cx)) (sv_invoices s)"
  shows "ok (sv_invoices s') \<and> iok (sv_idem s') \<and> store_all cx (invoice_ok (cx_rt cx)) (sv_invoices s')"
  using assms(1,2,4,5)
proof (induction fuel arbitrary: d request s)
  case 0
  then show ?case by simp
next
  case (Suc fuel)
  obtain a s1 where run: "createInvoice_attempt cx (clk d) (rnd d) request key s = (a, s1)" by fastforce
  obtain v request' where new: "new_invoice (cx_rt cx) (clk d) (rnd d) request = (v, request')" by fastforce
  note eff = createInvoice_attempt_effect [OF Suc.prems(1,2) new run]
  have all: "store_all cx (invoice_ok (cx_rt cx)) (sv_invoices s1)"
  proof (cases "validateCreateInvoiceRequest (cx_rt cx) (clk d 0) request")
    case (Inl e)
    with eff(4) Suc.prems(4) show ?thesis by simp
  next
    case (Inr u)
    from new_invoice_ok [OF Inr assms(3) new] eff(3) Suc.prems(4) show ?thesis
      unfolding store_all_def creation_effect_def by blast
  qed
  with Suc.IH [OF eff(1,2)] Suc.prems(3) eff(1,2) show ?case
    by (cases a) (auto simp: run)
qed

text \<open>Creation with unused identifiers leaves other invoices alone unless they have expired.\<close>

lemma attempt_keeps:
  assumes "ok (sv_invoices s)" "iok (sv_idem s)"
    and "createInvoice_attempt cx clk bytes request key s = (a, s')"
    and "is_get (cx_io cx) i (sv_invoices s) = Some w" "i \<noteq> generateInvoiceId bytes"
  shows "is_get (cx_io cx) i (sv_invoices s') = Some w \<or>
    is_get (cx_io cx) i (sv_invoices s') = None \<and> (\<exists>now. isExpired (cx_rt cx) now (iv_expires_at w))"
proof -
  obtain v request' where new: "new_invoice (cx_rt cx) clk bytes request = (v, request')" by fastforce
  from createInvoice_attempt_effect(3) [OF assms(1,2) new assms(3)] assms(4,5) new_invoice_fields(1) [OF new]
  show ?thesis unfolding creation_effect_def by blast
qed

section \<open>Reads, settlement and clean-up\<close>

lemma getInvoice_effect:
  assumes "ok (sv_invoices s)" "getInvoice cx clk i s = (r, s')"
  shows "ok (sv_invoices s')" "sv_idem s' = sv_idem s" "sv_keys s' = sv_keys s"
    "r = Inr w \<Longrightarrow> is_get (cx_io cx) i (sv_invoices s') = Some w \<and>
       (\<exists>v. is_get (cx_io cx) i (sv_invoices s) = Some v \<and> evolves v w \<and> (w = v \<or> iv_status w = Expired))"
    "r = Inl e \<Longrightarrow> s' = s"
    "is_get (cx_io cx) j (sv_invoices s) = Some x \<Longrightarrow>
       \<exists>y. is_get (cx_io cx) j (sv_invoices s') = Some y \<and> (y = x \<or> iv_status x = Pending \<and> y = x\<lparr>iv_status := Expired\<rparr>)"
    "is_get (cx_io cx) j (sv_invoices s) = None \<Longrightarrow> is_get (cx_io cx) j (sv_invoices s') = None"
proof -
  consider (failed) e where "r = Inl e" "s' = s"
    | (found) v w st where "is_get (cx_io cx) i (sv_invoices s) = Some v"
        "expire_if_due cx (clk 0) (clk 1) i v (sv_invoices s) = (w, st)" "r = Inr w" "s' = s\<lparr>sv_invoices := st\<rparr>"
  proof -
    obtain w st where due: "expire_if_due cx (clk 0) (clk 1) i (the (is_get (cx_io cx) i (sv_invoices s))) (sv_invoices s) = (w, st)"
      by fastforce
    show thesis
    proof (cases "validateInvoiceId (JStr i)")
      case (Inl e)
      with assms(2) show thesis by (intro failed [of e]) (simp_all add: getInvoice_def)
    next
      case (Inr b)
      show thesis
      proof (cases "is_get (cx_io cx) i (sv_invoices s)")
        case None
        with Inr assms(2) show thesis by (intro failed [of "projl r"]) (auto simp: getInvoice_def)
      next
        case (Some v)
        with Inr assms(2) due show thesis by (intro found [of v w st]) (simp_all add: getInvoice_def)
      qed
    qed
  qed
  then have "ok (sv_invoices s') \<and> sv_idem s' = sv_idem s \<and> sv_keys s' = sv_keys s \<and> (\<forall>e. r = Inl e \<longrightarrow> s' = s)
    \<and> (\<forall>w. r = Inr w \<longrightarrow> is_get (cx_io cx) i (sv_invoices s') = Some w \<and>
       (\<exists>v. is_get (cx_io cx) i (sv_invoices s) = Some v \<and> evolves v w \<and> (w = v \<or> iv_status w = Expired)))
    \<and> (\<forall>j x. is_get (cx_io cx) j (sv_invoices s) = Some x \<longrightarrow> (\<exists>y. is_get (cx_io cx) j (sv_invoices s') = Some y
         \<and> (y = x \<or> iv_status x = Pending \<and> y = x\<lparr>iv_status := Expired\<rparr>)))
    \<and> (\<forall>j. is_get (cx_io cx) j (sv_invoices s) = None \<longrightarrow> is_get (cx_io cx) j (sv_invoices s') = None)"
  proof cases
    case failed
    with assms(1) show ?thesis by simp
  next
    case found
    note res = expire_if_due_result [OF assms(1) found(1,2)] expire_if_due_evolves [OF assms(1) found(1,2)]
    show ?thesis using found(1,3,4) res by auto
  qed
  then show "ok (sv_invoices s')" "sv_idem s' = sv_idem s" "sv_keys s' = sv_keys s" "r = Inl e \<Longrightarrow> s' = s"
    "r = Inr w \<Longrightarrow> is_get (cx_io cx) i (sv_invoices s') = Some w \<and>
       (\<exists>v. is_get (cx_io cx) i (sv_invoices s) = Some v \<and> evolves v w \<and> (w = v \<or> iv_status w = Expired))"
    "is_get (cx_io cx) j (sv_invoices s) = Some x \<Longrightarrow>
       \<exists>y. is_get (cx_io cx) j (sv_invoices s') = Some y \<and> (y = x \<or> iv_status x = Pending \<and> y = x\<lparr>iv_status := Expired\<rparr>)"
    "is_get (cx_io cx) j (sv_invoices s) = None \<Longrightarrow> is_get (cx_io cx) j (sv_invoices s') = None"
    by blast+
qed

lemma authorizedInvoice_state:
  "sv_invoices (snd (authorizedInvoice cx clk i key s)) = sv_invoices (snd (getInvoice cx clk i s))
   \<and> sv_idem (snd (authorizedInvoice cx clk i key s)) = sv_idem (snd (getInvoice cx clk i s))"
  by (auto simp: authorizedInvoice_def split: sum.splits prod.splits bool.splits)

lemma cleanup_invoices_result:
  assumes "ok s" "distinct (map fst es)" "\<And>i v. (i, v) \<in> set es \<Longrightarrow> is_get (cx_io cx) i s = Some v"
    and "cleanup_invoices cx now clk n es c s = (c', s')"
  shows "ok s' \<and> (\<forall>j. j \<notin> fst ` set es \<longrightarrow> is_get (cx_io cx) j s' = is_get (cx_io cx) j s)
    \<and> (\<forall>(i, v)\<in>set es. is_get (cx_io cx) i s' = Some v
         \<or> iv_status v = Pending \<and> is_get (cx_io cx) i s' = Some (v\<lparr>iv_status := Expired\<rparr>)
         \<or> is_get (cx_io cx) i s' = None \<and> long_expired (cx_rt cx) now (v\<lparr>iv_status := Expired\<rparr>) \<and> iv_status v \<noteq> Settled)"
  using assms
proof (induction es arbitrary: n c s)
  case Nil
  then show ?case by simp
next
  case (Cons iv es)
  obtain i v where iv: "iv = (i, v)" by (cases iv)
  obtain w s1 where due: "expire_if_due cx (clk n) (clk (n + 1)) i v s = (w, s1)" by fastforce
  have g: "is_get (cx_io cx) i s = Some v" using Cons.prems(3) iv by simp
  note res = expire_if_due_result [OF Cons.prems(1) g due]
  define s2 where "s2 = (if long_expired (cx_rt cx) now w then is_delete (cx_io cx) i s1 else s1)"
  have ok2: "ok s2" using res(1) by (simp add: s2_def st.ok_delete)
  have get2: "is_get (cx_io cx) j s2 = (if j = i then if long_expired (cx_rt cx) now w then None else Some w
      else is_get (cx_io cx) j s)" for j
    using res(2) by (simp add: s2_def st.get_delete res(1))
  obtain m d where run: "cleanup_invoices cx now clk m es d s2 = (c', s')"
    using Cons.prems(4) iv due by (auto simp: s2_def split: if_splits)
  have i: "i \<notin> fst ` set es" and d: "distinct (map fst es)" using Cons.prems(2) iv by auto
  have snap: "\<And>j x. (j, x) \<in> set es \<Longrightarrow> is_get (cx_io cx) j s2 = Some x"
    using Cons.prems(3) i get2 by (metis fst_conv image_eqI list.set_intros(2))
  note IH = Cons.IH [OF ok2 d snap run]
  have "is_get (cx_io cx) i s' = is_get (cx_io cx) i s2" using IH i by blast
  then have "is_get (cx_io cx) i s' = Some v
         \<or> iv_status v = Pending \<and> is_get (cx_io cx) i s' = Some (v\<lparr>iv_status := Expired\<rparr>)
         \<or> is_get (cx_io cx) i s' = None \<and> long_expired (cx_rt cx) now (v\<lparr>iv_status := Expired\<rparr>) \<and> iv_status v \<noteq> Settled"
    using res(3) by (auto simp: get2 long_expired_def)
  with IH get2 iv show ?case by auto
qed

lemma cleanup_idem_result:
  assumes "iok t" "cleanup_idem cx st es c t = (c', t')"
  shows "iok t' \<and> (\<forall>k. look k t' = (if \<exists>r. (k, r) \<in> set es \<and> is_get (cx_io cx) (ir_invoiceId r) st = None
      then None else look k t))"
  using assms
proof (induction es arbitrary: c t)
  case (Cons kr es)
  obtain k r where kr: "kr = (k, r)" by (cases kr)
  show ?case
  proof (cases "is_get (cx_io cx) (ir_invoiceId r) st = None")
    case True
    with Cons.prems kr have "cleanup_idem cx st es (c + 1) (ii_delete (cx_ii cx) k t) = (c', t')" by simp
    from Cons.IH [OF im.ok_delete [OF Cons.prems(1)] this] True kr show ?thesis
      by (auto simp: im.delete_look [OF Cons.prems(1)])
  next
    case False
    with Cons.prems kr have "cleanup_idem cx st es c t = (c', t')" by simp
    from Cons.IH [OF Cons.prems(1) this] False kr show ?thesis by auto
  qed
qed simp

section \<open>Every step keeps the invariant and the life cycle\<close>

lemma attempt_lifecycle:
  assumes "ok (sv_invoices s)" "iok (sv_idem s)"
    and "createInvoice_attempt cx clk bytes request key s = (a, s')"
    and "\<And>j. clk j \<le> T" "i \<noteq> generateInvoiceId bytes"
  shows "is_get (cx_io cx) i (sv_invoices s') = is_get (cx_io cx) i (sv_invoices s)
    \<or> is_get (cx_io cx) i (sv_invoices s') = None \<and> lifecycle (cx_rt cx) T (is_get (cx_io cx) i (sv_invoices s)) None"
proof -
  obtain v request' where new: "new_invoice (cx_rt cx) clk bytes request = (v, request')" by fastforce
  note eff = createInvoice_attempt_effect [OF assms(1,2) new assms(3)]
  have v: "iv_id v \<noteq> i" using assms(5) new_invoice_fields(1) [OF new] by simp
  show ?thesis
  proof (cases "is_get (cx_io cx) i (sv_invoices s)")
    case None
    with eff(3) st.get_id [OF eff(1)] v have "is_get (cx_io cx) i (sv_invoices s') = None"
      unfolding creation_effect_def by (metis not_Some_eq)
    with None show ?thesis by simp
  next
    case (Some w)
    with eff(3) v isExpired_mono [OF _ assms(4)] show ?thesis
      unfolding creation_effect_def lifecycle_def by fastforce
  qed
qed

lemma createInvoice_lifecycle:
  assumes "ok (sv_invoices s)" "iok (sv_idem s)"
    and "createInvoice_from fuel d cx clk rnd request key s = Some (r, s')"
    and "\<And>d j. clk d j \<le> T" "\<And>d. i \<noteq> generateInvoiceId (rnd d)"
  shows "is_get (cx_io cx) i (sv_invoices s') = is_get (cx_io cx) i (sv_invoices s)
    \<or> is_get (cx_io cx) i (sv_invoices s') = None \<and> lifecycle (cx_rt cx) T (is_get (cx_io cx) i (sv_invoices s)) None"
  using assms(1-3)
proof (induction fuel arbitrary: d request s)
  case (Suc fuel)
  obtain a s1 where run: "createInvoice_attempt cx (clk d) (rnd d) request key s = (a, s1)" by fastforce
  obtain v request' where new: "new_invoice (cx_rt cx) (clk d) (rnd d) request = (v, request')" by fastforce
  note eff = createInvoice_attempt_effect [OF Suc.prems(1,2) new run]
  note life = attempt_lifecycle [OF Suc.prems(1,2) run assms(4,5)]
  show ?case
  proof (cases a)
    case (Done r')
    with Suc.prems(3) run life show ?thesis by simp
  next
    case (Again rq)
    with Suc.prems(3) run have "createInvoice_from fuel (Suc d) cx clk rnd rq key s1 = Some (r, s')" by simp
    from Suc.IH [OF eff(1,2) this] life show ?thesis by auto
  qed
qed simp

lemma lifecycle_same [simp]: "lifecycle rt T x x"
  by (simp add: lifecycle_def split: option.split)

lemma step_create:
  assumes "svc_inv cx ok iok s" "createInvoice fuel cx clk rnd request key s = Some (r, s')"
    and "\<And>d j. clk d j \<le> T" "\<And>d. length (rnd d) = 8"
    and "\<And>d. is_get (cx_io cx) (generateInvoiceId (rnd d)) (sv_invoices s) = None"
  shows "svc_inv cx ok iok s' \<and> lifecycle (cx_rt cx) T (is_get (cx_io cx) i (sv_invoices s)) (is_get (cx_io cx) i (sv_invoices s'))"
proof -
  from assms(1) have ok: "ok (sv_invoices s)" "iok (sv_idem s)" "store_all cx (invoice_ok (cx_rt cx)) (sv_invoices s)"
    by (simp_all add: svc_inv_def)
  have run: "createInvoice_from fuel 0 cx clk rnd request key s = Some (r, s')"
    using assms(2) by (simp add: createInvoice_def)
  have "lifecycle (cx_rt cx) T (is_get (cx_io cx) i (sv_invoices s)) (is_get (cx_io cx) i (sv_invoices s'))"
  proof (cases "is_get (cx_io cx) i (sv_invoices s)")
    case None
    then show ?thesis by (simp add: lifecycle_def)
  next
    case (Some v)
    then have "\<And>d. i \<noteq> generateInvoiceId (rnd d)" using assms(5) by auto
    from createInvoice_lifecycle [OF ok(1,2) run assms(3) this] show ?thesis by auto
  qed
  with createInvoice_from_inv [OF ok(1,2) assms(4) run ok(3)] show ?thesis by (simp add: svc_inv_def)
qed

lemma step_read:
  assumes "svc_inv cx ok iok s" "getInvoice cx clk j s = (r, s1)"
    and "sv_invoices s' = sv_invoices s1" "sv_idem s' = sv_idem s1"
  shows "svc_inv cx ok iok s' \<and> lifecycle (cx_rt cx) T (is_get (cx_io cx) i (sv_invoices s)) (is_get (cx_io cx) i (sv_invoices s'))"
proof -
  from assms(1) have ok: "ok (sv_invoices s)" "iok (sv_idem s)" "store_all cx (invoice_ok (cx_rt cx)) (sv_invoices s)"
    by (simp_all add: svc_inv_def)
  note eff = getInvoice_effect [OF ok(1) assms(2)]
  have "invoice_ok (cx_rt cx) y" if y: "is_get (cx_io cx) k (sv_invoices s1) = Some y" for k y
  proof -
    obtain x where x: "is_get (cx_io cx) k (sv_invoices s) = Some x"
      using eff(7) [of k] y by (cases "is_get (cx_io cx) k (sv_invoices s)") auto
    from eff(6) [OF this] y have "y = x \<or> iv_status x = Pending \<and> y = x\<lparr>iv_status := Expired\<rparr>" by auto
    moreover have "invoice_ok (cx_rt cx) x" using ok(3) x by (auto simp: store_all_def)
    ultimately show ?thesis using invoice_ok_expired by blast
  qed
  moreover have "lifecycle (cx_rt cx) T (is_get (cx_io cx) i (sv_invoices s)) (is_get (cx_io cx) i (sv_invoices s1))"
    using eff(6) [of i] by (cases "is_get (cx_io cx) i (sv_invoices s)") (auto simp: lifecycle_def evolves_def)
  ultimately show ?thesis using eff(1,2) ok(2) assms(3,4) by (simp add: svc_inv_def store_all_def)
qed

lemma processSettlement_result:
  assumes "ok (sv_invoices s)" "processSettlementEvent cx now e opts s = (res, s')"
  shows "(s' = s \<and> (\<forall>r. res = Inr r \<longrightarrow> \<not> pr_settled r))
    \<or> (\<exists>secret b i v. settlement_secret (cx_env cx) opts = Inr secret
        \<and> op_attestation opts = Some (signSettlementEvent (cx_rt cx) secret e)
        \<and> op_currentBlockNumber opts = Some b \<and> MIN_CONFIRMATIONS \<le> b - ev_block_number e
        \<and> is_get (cx_io cx) i (sv_invoices s) = Some v \<and> event_matches (cx_rt cx) e v
        \<and> res = Inr \<lparr>pr_settled = True, pr_reason = None, pr_invoiceId = Some i\<rparr> \<and> ok (sv_invoices s')
        \<and> sv_keys s' = sv_keys s \<and> sv_idem s' = sv_idem s
        \<and> (\<forall>j. is_get (cx_io cx) j (sv_invoices s') = (if j = i
             then Some (v\<lparr>iv_status := Settled, iv_settlement := Some (settlement_of (cx_rt cx) e (b - ev_block_number e))\<rparr>)
             else is_get (cx_io cx) j (sv_invoices s))))" (is "?refused \<or> ?run")
proof (cases "settlement_secret (cx_env cx) opts")
  case (Inl x)
  with assms(2) have ?refused by (auto simp: processSettlementEvent_def)
  then show ?thesis ..
next
  case sec: (Inr secret)
  show ?thesis
  proof (cases "verifySettlementAttestation (cx_rt cx) secret e (op_attestation opts) = Inr True
      \<and> (\<exists>b. op_currentBlockNumber opts = Some b \<and> MIN_CONFIRMATIONS \<le> b - ev_block_number e)")
    case False
    with assms(2) sec have ?refused
      by (auto simp: processSettlementEvent_def split: sum.splits bool.splits option.splits if_splits)
    then show ?thesis ..
  next
    case True
    then obtain b where b: "op_currentBlockNumber opts = Some b" "MIN_CONFIRMATIONS \<le> b - ev_block_number e"
      and ver: "verifySettlementAttestation (cx_rt cx) secret e (op_attestation opts) = Inr True" by blast
    obtain r st where loop: "settle_loop cx now e (b - ev_block_number e) (is_entries (cx_io cx) (sv_invoices s)) (sv_invoices s) = (r, st)"
      by fastforce
    with assms(2) sec b ver have res: "res = Inr r" "s' = s\<lparr>sv_invoices := st\<rparr>"
      by (simp_all add: processSettlementEvent_def)
    have snap: "\<And>i v. (i, v) \<in> set (is_entries (cx_io cx) (sv_invoices s)) \<Longrightarrow> is_get (cx_io cx) i (sv_invoices s) = Some v"
      using st.entries_get [OF assms(1)] by blast
    have att: "op_attestation opts = Some (signSettlementEvent (cx_rt cx) secret e)"
      using ver by (auto simp: verifySettlementAttestation_True)
    consider (hit) i v where "(i, v) \<in> set (is_entries (cx_io cx) (sv_invoices s))" "event_matches (cx_rt cx) e v" "ok st"
        "r = \<lparr>pr_settled = True, pr_reason = None, pr_invoiceId = Some i\<rparr>"
        "\<forall>j. is_get (cx_io cx) j st = (if j = i
           then Some (v\<lparr>iv_status := Settled, iv_settlement := Some (settlement_of (cx_rt cx) e (b - ev_block_number e))\<rparr>)
           else is_get (cx_io cx) j (sv_invoices s))"
      | (none) "r = \<lparr>pr_settled = False, pr_reason = Some No_matching_invoice, pr_invoiceId = None\<rparr>" "st = sv_invoices s"
      using settle_loop_result [OF assms(1) snap loop] by blast
    then show ?thesis
    proof cases
      case hit
      with sec att b snap res have ?run
        by (intro exI [of _ secret] exI [of _ b] exI [of _ i] exI [of _ v]) simp
      then show ?thesis ..
    next
      case none
      with res have ?refused by simp
      then show ?thesis ..
    qed
  qed
qed

lemma step_settle:
  assumes "svc_inv cx ok iok s" "processSettlementEvent cx now e opts s = (res, s')"
  shows "svc_inv cx ok iok s' \<and> lifecycle (cx_rt cx) T (is_get (cx_io cx) i (sv_invoices s)) (is_get (cx_io cx) i (sv_invoices s'))"
proof -
  from assms(1) have ok: "ok (sv_invoices s)" "iok (sv_idem s)" "store_all cx (invoice_ok (cx_rt cx)) (sv_invoices s)"
    by (simp_all add: svc_inv_def)
  from processSettlement_result [OF ok(1) assms(2)] show ?thesis
  proof (elim disjE exE conjE)
    assume "s' = s"
    with assms(1) show ?thesis by simp
  next
    fix secret b k v
    assume c: "MIN_CONFIRMATIONS \<le> b - ev_block_number e" and v: "is_get (cx_io cx) k (sv_invoices s) = Some v"
      and m: "event_matches (cx_rt cx) e v" and ok': "ok (sv_invoices s')" and idem: "sv_idem s' = sv_idem s"
      and get: "\<forall>j. is_get (cx_io cx) j (sv_invoices s') = (if j = k
           then Some (v\<lparr>iv_status := Settled, iv_settlement := Some (settlement_of (cx_rt cx) e (b - ev_block_number e))\<rparr>)
           else is_get (cx_io cx) j (sv_invoices s))"
    have "invoice_ok (cx_rt cx) (v\<lparr>iv_status := Settled, iv_settlement := Some (settlement_of (cx_rt cx) e (b - ev_block_number e))\<rparr>)"
      using invoice_ok_settled [OF _ m] ok(3) v c by (simp add: store_all_def MIN_CONFIRMATIONS_def)
    then have "store_all cx (invoice_ok (cx_rt cx)) (sv_invoices s')"
      using ok(3) get by (simp add: store_all_def)
    moreover have "lifecycle (cx_rt cx) T (is_get (cx_io cx) i (sv_invoices s)) (is_get (cx_io cx) i (sv_invoices s'))"
    proof (cases "i = k")
      case True
      with v get m show ?thesis unfolding lifecycle_def evolves_def event_matches_def by fastforce
    next
      case False
      with get show ?thesis by simp
    qed
    ultimately show ?thesis using ok' idem ok(2) by (simp add: svc_inv_def)
  qed
qed

end

end
