(* ===== verification/Api_Invoice_Thms.thy ===== *)
theory Api_Invoice_Thms
  imports Api_Invoice
begin

text \<open>
  Correctness of the invoice service: the invariant and the life cycle over all steps, idempotent
  creation, termination of creation, exactness of settlement, object-level authorisation of reads,
  confidentiality of the public view, and clean-up. The lemmas are proved over any backend that
  keeps the storage contracts (\<open>invoice_backend\<close>) and reach the in-memory service through the
  interpretation \<open>mb\<close>.
\<close>

context invoice_backend
begin

section \<open>Clean-up\<close>

lemma cleanup_result:
  assumes "ok (sv_invoices s)" "iok (sv_idem s)" "cleanupExpiredInvoices cx clk s = (counts, s')"
  shows "ok (sv_invoices s')" "iok (sv_idem s')" "sv_keys s' = sv_keys s"
    "is_get (cx_io cx) i (sv_invoices s) = None \<Longrightarrow> is_get (cx_io cx) i (sv_invoices s') = None"
    "is_get (cx_io cx) i (sv_invoices s) = Some v \<Longrightarrow> is_get (cx_io cx) i (sv_invoices s') = Some v
         \<or> iv_status v = Pending \<and> is_get (cx_io cx) i (sv_invoices s') = Some (v\<lparr>iv_status := Expired\<rparr>)
         \<or> is_get (cx_io cx) i (sv_invoices s') = None \<and> long_expired (cx_rt cx) (clk 0) (v\<lparr>iv_status := Expired\<rparr>) \<and> iv_status v \<noteq> Settled"
    "ii_entries (cx_ii cx) = Some es \<Longrightarrow> look k (sv_idem s') =
       (case look k (sv_idem s) of
          None \<Rightarrow> None
        | Some r \<Rightarrow> if is_get (cx_io cx) (ir_invoiceId r) (sv_invoices s') = None then None else Some r)"
proof -
  let ?es = "is_entries (cx_io cx) (sv_invoices s)"
  obtain c st where inv: "cleanup_invoices cx (clk 0) clk 1 ?es 0 (sv_invoices s) = (c, st)" by fastforce
  have snap: "\<And>i v. (i, v) \<in> set ?es \<Longrightarrow> is_get (cx_io cx) i (sv_invoices s) = Some v"
    using st.entries_get [OF assms(1)] by blast
  note res = cleanup_invoices_result [OF assms(1) st.entries_distinct [OF assms(1)] snap inv]
  have s': "sv_invoices s' = st" "sv_keys s' = sv_keys s"
    using assms(3) inv by (auto simp: cleanupExpiredInvoices_def split: option.splits prod.splits)
  show "ok (sv_invoices s')" "sv_keys s' = sv_keys s" using res s' by auto
  show "is_get (cx_io cx) i (sv_invoices s') = None" if "is_get (cx_io cx) i (sv_invoices s) = None"
  proof -
    have "i \<notin> fst ` set ?es" using that snap by force
    with res s'(1) that show ?thesis by simp
  qed
  show "is_get (cx_io cx) i (sv_invoices s') = Some v
         \<or> iv_status v = Pending \<and> is_get (cx_io cx) i (sv_invoices s') = Some (v\<lparr>iv_status := Expired\<rparr>)
         \<or> is_get (cx_io cx) i (sv_invoices s') = None \<and> long_expired (cx_rt cx) (clk 0) (v\<lparr>iv_status := Expired\<rparr>) \<and> iv_status v \<noteq> Settled"
    if "is_get (cx_io cx) i (sv_invoices s) = Some v"
  proof -
    have "(i, v) \<in> set ?es" using that st.entries_get [OF assms(1)] by blast
    with res s'(1) show ?thesis by blast
  qed
  have idem: "iok (sv_idem s') \<and> (\<forall>es. ii_entries (cx_ii cx) = Some es \<longrightarrow>
      (\<forall>k. look k (sv_idem s') = (if \<exists>r. (k, r) \<in> set (es (sv_idem s)) \<and> is_get (cx_io cx) (ir_invoiceId r) st = None
         then None else look k (sv_idem s))))"
  proof (cases "ii_entries (cx_ii cx)")
    case None
    with assms(2,3) inv show ?thesis by (auto simp: cleanupExpiredInvoices_def)
  next
    case (Some es)
    obtain d t where sweep: "cleanup_idem cx st (es (sv_idem s)) 0 (sv_idem s) = (d, t)" by fastforce
    with assms(3) inv Some have "sv_idem s' = t" by (auto simp: cleanupExpiredInvoices_def)
    with cleanup_idem_result [OF assms(2) sweep] Some show ?thesis by simp
  qed
  then show "iok (sv_idem s')" by simp
  show "look k (sv_idem s') = (case look k (sv_idem s) of None \<Rightarrow> None
        | Some r \<Rightarrow> if is_get (cx_io cx) (ir_invoiceId r) (sv_invoices s') = None then None else Some r)"
    if "ii_entries (cx_ii cx) = Some es"
    using idem that im.entries_look [OF assms(2) that, of k] s'(1) by (auto split: option.split)
qed

lemma step_cleanup:
  assumes "svc_inv cx ok iok s" "cleanupExpiredInvoices cx clk s = (counts, s')" "\<And>j. clk j \<le> T"
  shows "svc_inv cx ok iok s' \<and> lifecycle (cx_rt cx) T (is_get (cx_io cx) i (sv_invoices s)) (is_get (cx_io cx) i (sv_invoices s'))"
proof -
  from assms(1) have ok: "ok (sv_invoices s)" "iok (sv_idem s)" "store_all cx (invoice_ok (cx_rt cx)) (sv_invoices s)"
    by (simp_all add: svc_inv_def)
  note res = cleanup_result [OF ok(1,2) assms(2)]
  have "invoice_ok (cx_rt cx) y" if y: "is_get (cx_io cx) k (sv_invoices s') = Some y" for k y
  proof -
    obtain x where x: "is_get (cx_io cx) k (sv_invoices s) = Some x"
      using res(4) [of k] y by (cases "is_get (cx_io cx) k (sv_invoices s)") auto
    from res(5) [OF x] y have "y = x \<or> iv_status x = Pending \<and> y = x\<lparr>iv_status := Expired\<rparr>" by auto
    moreover have "invoice_ok (cx_rt cx) x" using ok(3) x by (auto simp: store_all_def)
    ultimately show ?thesis using invoice_ok_expired by blast
  qed
  moreover have "isExpired (cx_rt cx) T (iv_expires_at v)"
    if "long_expired (cx_rt cx) (clk 0) (v\<lparr>iv_status := Expired\<rparr>)" for v
    using that assms(3) [of 0] by (auto simp: long_expired_def isExpired_def date_le_def split: option.splits)
  then have "lifecycle (cx_rt cx) T (is_get (cx_io cx) i (sv_invoices s)) (is_get (cx_io cx) i (sv_invoices s'))"
    using res(5) [of i] by (cases "is_get (cx_io cx) i (sv_invoices s)") (auto simp: lifecycle_def evolves_def)
  ultimately show ?thesis using res(1,2) by (simp add: svc_inv_def store_all_def)
qed

section \<open>All steps\<close>

lemma svc_step_inv:
  assumes "svc_step cx T s s'" "svc_inv cx ok iok s"
  shows "svc_inv cx ok iok s' \<and> lifecycle (cx_rt cx) T (is_get (cx_io cx) i (sv_invoices s)) (is_get (cx_io cx) i (sv_invoices s'))"
  using assms(1)
proof cases
  case (create fuel clk rnd request key r)
  then show ?thesis by (intro step_create [OF assms(2)]) auto
next
  case (read clk j)
  then show ?thesis by (intro step_read [OF assms(2), of clk j "fst (getInvoice cx clk j s)" s']) simp_all
next
  case (public clk j)
  then have "s' = snd (getInvoice cx clk j s)"
    by (auto simp: getPublicInvoice_def split: prod.splits sum.splits)
  then show ?thesis by (intro step_read [OF assms(2), of clk j "fst (getInvoice cx clk j s)" s']) simp_all
next
  case (detail clk j key)
  then show ?thesis using authorizedInvoice_state [of clk j key s]
    by (intro step_read [OF assms(2), of clk j "fst (getInvoice cx clk j s)" "snd (getInvoice cx clk j s)"])
      (simp_all add: getInvoiceDetail_def)
next
  case (status clk j key)
  then have "s' = snd (authorizedInvoice cx clk j key s)"
    by (auto simp: getInvoiceStatus_def split: prod.splits sum.splits)
  then show ?thesis using authorizedInvoice_state [of clk j key s]
    by (intro step_read [OF assms(2), of clk j "fst (getInvoice cx clk j s)" "snd (getInvoice cx clk j s)"]) simp_all
next
  case (settle now e opts)
  then show ?thesis
    by (intro step_settle [OF assms(2), of now e opts "fst (processSettlementEvent cx now e opts s)"]) simp
next
  case (cleanup clk)
  show ?thesis
    by (rule step_cleanup [OF assms(2), of clk "fst (cleanupExpiredInvoices cx clk s)"]) (use cleanup in simp_all)
next
  case (keys ks)
  with assms(2) show ?thesis by (simp add: svc_inv_def)
qed

lemma svc_reach_inv: "svc_reach cx s0 s \<Longrightarrow> svc_inv cx ok iok s0 \<Longrightarrow> svc_inv cx ok iok s"
  by (induction rule: svc_reach.induct) (auto dest: svc_step_inv)

section \<open>Idempotent creation\<close>

text \<open>The key the request is recorded under.\<close>

lemma isAuthorized_record:
  "key_record rt secret key (snd (isAuthorizedMerchantAsync rt secret now now2 p m ks)) = key_record rt secret key ks"
  by (auto simp: isAuthorizedMerchantAsync_def isAuthorizedMerchant_def key_record_def Let_def
      split: option.splits sum.splits exn.splits prod.splits)

lemma getKeyId_record:
  "getKeyIdAsync rt secret now key ks = Inr kid \<Longrightarrow> kid = map_option ak_id (key_record rt secret key ks)"
  by (auto simp: getKeyIdAsync_def getKeyId_def key_record_def findAndValidateKeyAsync_def result_simps
      split: option.splits if_splits)

lemma attempt_reaches_stores:
  assumes "createInvoice_attempt cx clk bytes request key s = (a, s')" "\<And>e. a \<noteq> Done (Inl e)"
  obtains ks where "key_record (cx_rt cx) (cx_secret cx) key ks = key_record (cx_rt cx) (cx_secret cx) key (sv_keys s)"
    "reuseOrPublish cx clk bytes request (generateIdempotencyKey (cx_rt cx) request
        (map_option ak_id (key_record (cx_rt cx) (cx_secret cx) key (sv_keys s)))) (s\<lparr>sv_keys := ks\<rparr>) = (a, s')"
proof -
  let ?auth = "isAuthorizedMerchantAsync (cx_rt cx) (cx_secret cx) (clk 1) (clk 2) key (jstr (jget ''merchant_nft'' request)) (sv_keys s)"
  obtain b ks where auth: "?auth = (b, ks)" by fastforce
  have rec: "key_record (cx_rt cx) (cx_secret cx) key ks = key_record (cx_rt cx) (cx_secret cx) key (sv_keys s)"
    using isAuthorized_record [of "cx_rt cx" "cx_secret cx" key "clk 1" "clk 2" key "jstr (jget ''merchant_nft'' request)" "sv_keys s"]
    unfolding auth by simp
  from assms obtain kid where kid: "getKeyIdAsync (cx_rt cx) (cx_secret cx) (clk 3) key ks = Inr kid"
    and run: "reuseOrPublish cx clk bytes request (generateIdempotencyKey (cx_rt cx) request kid) (s\<lparr>sv_keys := ks\<rparr>) = (a, s')"
    unfolding createInvoice_attempt_def auth by (auto simp: Let_def split: sum.splits bool.splits)
  show thesis using that [OF rec] run getKeyId_record [OF kid] rec by simp
qed

text \<open>After a successful creation the record of the request points to the returned invoice.\<close>

lemma publish_done:
  assumes "ok (sv_invoices s)" "iok (sv_idem s)" "publishInvoice cx clk bytes request k s = (Done (Inr v), s')"
  shows "\<exists>r. look k (sv_idem s') = Some r \<and> ir_invoiceId r = iv_id v \<and> is_get (cx_io cx) (iv_id v) (sv_invoices s') = Some v"
proof -
  obtain n request' where new: "new_invoice (cx_rt cx) clk bytes request = (n, request')" by fastforce
  show ?thesis
    by (rule publishInvoice_cases [OF assms(1,2) new, of k])
      (use assms st.get_id [OF assms(1)] in \<open>auto simp: st.get_set st.get_delete st.ok_set\<close>)
qed

lemma reuse_done:
  assumes "ok (sv_invoices s)" "iok (sv_idem s)" "reuseOrPublish cx clk bytes request k s = (Done (Inr v), s')"
  shows "\<exists>r. look k (sv_idem s') = Some r \<and> ir_invoiceId r = iv_id v \<and> is_get (cx_io cx) (iv_id v) (sv_invoices s') = Some v"
proof -
  obtain x t where x: "ii_get (cx_ii cx) (clk 4) k (sv_idem s) = (x, t)" by fastforce
  have t: "iok t" "look k t = x" using im.ok_get [OF assms(2), of "clk 4" k] im.get_look [OF assms(2), of k "clk 4" k] x by simp_all
  show ?thesis
  proof (cases "\<exists>e w. x = Some e \<and> live_invoice (cx_rt cx) (clk 5) (is_get (cx_io cx) (ir_invoiceId e) (sv_invoices s)) = Some w")
    case True
    then obtain e w where e: "x = Some e" "is_get (cx_io cx) (ir_invoiceId e) (sv_invoices s) = Some w"
        "live_invoice (cx_rt cx) (clk 5) (Some w) = Some w"
      by (auto simp: live_invoice_def split: option.splits if_splits)
    with assms(3) x have "v = w" "s' = s\<lparr>sv_idem := t\<rparr>" by (auto simp: reuseOrPublish_def Let_def)
    with e t(2) st.get_id [OF assms(1) e(2)] show ?thesis by auto
  next
    case False
    then obtain s2 where "publishInvoice cx clk bytes request k s2 = (Done (Inr v), s')" "ok (sv_invoices s2)" "iok (sv_idem s2)"
      using assms x t(1)
      by (cases x) (auto simp: reuseOrPublish_def Let_def st.ok_delete im.ok_delete split: option.splits if_splits)
    with publish_done show ?thesis by blast
  qed
qed

text \<open>A request whose record points to a live invoice is answered with it, and no invoice changes.\<close>

lemma attempt_replay:
  assumes ok: "ok (sv_invoices s)" "iok (sv_idem s)"
    and rec: "look (generateIdempotencyKey (cx_rt cx) request
        (map_option ak_id (key_record (cx_rt cx) (cx_secret cx) key (sv_keys s)))) (sv_idem s) = Some r"
      "\<not> date_lt (ir_expiresAt r) (clk 4)"
    and v: "is_get (cx_io cx) (ir_invoiceId r) (sv_invoices s) = Some v" "\<not> isExpired (cx_rt cx) (clk 5) (iv_expires_at v)"
    and valid: "validateCreateInvoiceRequest (cx_rt cx) (clk 0) request = Inr u"
    and auth: "fst (isAuthorizedMerchantAsync (cx_rt cx) (cx_secret cx) (clk 1) (clk 2) key
        (jstr (jget ''merchant_nft'' request)) (sv_keys s)) = Inr True"
    and kid: "getKeyIdAsync (cx_rt cx) (cx_secret cx) (clk 3) key (snd (isAuthorizedMerchantAsync (cx_rt cx) (cx_secret cx)
        (clk 1) (clk 2) key (jstr (jget ''merchant_nft'' request)) (sv_keys s))) = Inr kid"
  shows "\<exists>s'. createInvoice_attempt cx clk bytes request key s = (Done (Inr v), s') \<and> sv_invoices s' = sv_invoices s"
proof -
  obtain ks where ks: "isAuthorizedMerchantAsync (cx_rt cx) (cx_secret cx) (clk 1) (clk 2) key
        (jstr (jget ''merchant_nft'' request)) (sv_keys s) = (Inr True, ks)"
    using auth by (metis prod.collapse)
  have "kid = map_option ak_id (key_record (cx_rt cx) (cx_secret cx) key (sv_keys s))"
    using getKeyId_record [OF kid] isAuthorized_record by metis
  with rec have look: "look (generateIdempotencyKey (cx_rt cx) request kid) (sv_idem s) = Some r" by simp
  obtain t where t: "ii_get (cx_ii cx) (clk 4) (generateIdempotencyKey (cx_rt cx) request kid) (sv_idem s) = (Some r, t)"
    using im.get_value [OF ok(2), of "clk 4" "generateIdempotencyKey (cx_rt cx) request kid"] look rec(2)
    by (cases "ii_get (cx_ii cx) (clk 4) (generateIdempotencyKey (cx_rt cx) request kid) (sv_idem s)") simp
  have kid': "getKeyIdAsync (cx_rt cx) (cx_secret cx) (clk 3) key ks = Inr kid" using kid unfolding ks by simp
  show ?thesis
    unfolding createInvoice_attempt_def valid ks
    by (simp add: kid' reuseOrPublish_def t live_invoice_def v)
qed

text \<open>
  A pass that asks for another one has deleted the record of its request, so the next pass over the
  same request finds none and finishes.
\<close>

lemma attempt_again:
  assumes ok: "ok (sv_invoices s)" "iok (sv_idem s)"
    and new: "new_invoice (cx_rt cx) clk bytes request = (n, request')"
    and run: "createInvoice_attempt cx clk bytes request key s = (Again rq, s')"
  shows "rq = request'" "key_record (cx_rt cx) (cx_secret cx) key (sv_keys s') = key_record (cx_rt cx) (cx_secret cx) key (sv_keys s)"
    "look (generateIdempotencyKey (cx_rt cx) request
        (map_option ak_id (key_record (cx_rt cx) (cx_secret cx) key (sv_keys s)))) (sv_idem s') = None"
proof -
  let ?k = "generateIdempotencyKey (cx_rt cx) request (map_option ak_id (key_record (cx_rt cx) (cx_secret cx) key (sv_keys s)))"
  obtain ks where ks: "key_record (cx_rt cx) (cx_secret cx) key ks = key_record (cx_rt cx) (cx_secret cx) key (sv_keys s)"
    and r: "reuseOrPublish cx clk bytes request ?k (s\<lparr>sv_keys := ks\<rparr>) = (Again rq, s')"
    using attempt_reaches_stores [OF run] by blast
  obtain x t where x: "ii_get (cx_ii cx) (clk 4) ?k (sv_idem s) = (x, t)" by fastforce
  have t: "iok t" using im.ok_get [OF ok(2), of "clk 4" ?k] x by simp
  obtain s2 where s2: "publishInvoice cx clk bytes request ?k s2 = (Again rq, s')" "ok (sv_invoices s2)" "iok (sv_idem s2)" "sv_keys s2 = ks"
    using r x t ok
    by (cases x) (auto simp: reuseOrPublish_def Let_def st.ok_delete im.ok_delete split: option.splits if_splits)
  have "rq = request' \<and> sv_keys s' = ks \<and> look ?k (sv_idem s') = None"
    by (rule publishInvoice_cases [OF s2(2,3) new, of ?k])
      (use s2 im.delete_look [OF s2(3)] in auto)
  with ks show "rq = request'" "key_record (cx_rt cx) (cx_secret cx) key (sv_keys s') = key_record (cx_rt cx) (cx_secret cx) key (sv_keys s)"
    "look ?k (sv_idem s') = None" by auto
qed

lemma attempt_fresh_done:
  assumes ok: "ok (sv_invoices s)" "iok (sv_idem s)"
    and none: "look (generateIdempotencyKey (cx_rt cx) request
        (map_option ak_id (key_record (cx_rt cx) (cx_secret cx) key (sv_keys s)))) (sv_idem s) = None"
  shows "\<exists>r s'. createInvoice_attempt cx clk bytes request key s = (Done r, s')"
proof (rule ccontr)
  assume contra: "\<not> (\<exists>r s'. createInvoice_attempt cx clk bytes request key s = (Done r, s'))"
  obtain a s' where run: "createInvoice_attempt cx clk bytes request key s = (a, s')" by fastforce
  with contra obtain rq where a: "a = Again rq" by (cases a) auto
  let ?k = "generateIdempotencyKey (cx_rt cx) request (map_option ak_id (key_record (cx_rt cx) (cx_secret cx) key (sv_keys s)))"
  obtain ks where r: "reuseOrPublish cx clk bytes request ?k (s\<lparr>sv_keys := ks\<rparr>) = (Again rq, s')"
    using attempt_reaches_stores [OF run] a by blast
  obtain t where t: "ii_get (cx_ii cx) (clk 4) ?k (sv_idem s) = (None, t)"
    using im.get_value [OF ok(2), of "clk 4" ?k] none by (cases "ii_get (cx_ii cx) (clk 4) ?k (sv_idem s)") simp
  have look: "look ?k t = None" "iok t"
    using im.get_look [OF ok(2), of ?k "clk 4" ?k] im.ok_get [OF ok(2), of "clk 4" ?k] t by simp_all
  from r t have p: "publishInvoice cx clk bytes request ?k (s\<lparr>sv_keys := ks, sv_idem := t\<rparr>) = (Again rq, s')"
    by (simp add: reuseOrPublish_def)
  obtain n request' where new: "new_invoice (cx_rt cx) clk bytes request = (n, request')" by fastforce
  show False
    by (rule publishInvoice_cases [of "s\<lparr>sv_keys := ks, sv_idem := t\<rparr>", OF _ _ new, of ?k])
      (use p look ok in auto)
qed

lemma createInvoice_two:
  assumes ok: "ok (sv_invoices s)" "iok (sv_idem s)"
    and keep: "snd (new_invoice (cx_rt cx) (clk 0) (rnd 0) request) = request"
  shows "\<exists>r s'. createInvoice (Suc (Suc n)) cx clk rnd request key s = Some (r, s')"
proof -
  obtain a s1 where run: "createInvoice_attempt cx (clk 0) (rnd 0) request key s = (a, s1)" by fastforce
  obtain v where new: "new_invoice (cx_rt cx) (clk 0) (rnd 0) request = (v, request)" using keep by (metis prod.collapse)
  show ?thesis
  proof (cases a)
    case (Done r)
    with run show ?thesis by (simp add: createInvoice_def)
  next
    case (Again rq)
    note again = attempt_again [OF ok new run [unfolded Again]]
    note eff = createInvoice_attempt_effect [OF ok new run]
    have "look (generateIdempotencyKey (cx_rt cx) request
        (map_option ak_id (key_record (cx_rt cx) (cx_secret cx) key (sv_keys s1)))) (sv_idem s1) = None"
      using again(2,3) by simp
    then obtain r s' where "createInvoice_attempt cx (clk (Suc 0)) (rnd (Suc 0)) request key s1 = (Done r, s')"
      using attempt_fresh_done [OF eff(1,2)] by blast
    with run Again again(1) show ?thesis by (simp add: createInvoice_def)
  qed
qed

section \<open>Settlement\<close>

lemma processSettlement_complete:
  assumes "ok (sv_invoices s)" "settlement_secret (cx_env cx) opts = Inr secret"
    and "op_attestation opts = Some (signSettlementEvent (cx_rt cx) secret e)" "signSettlementEvent (cx_rt cx) secret e \<noteq> []"
    and "op_currentBlockNumber opts = Some b" "MIN_CONFIRMATIONS \<le> b - ev_block_number e"
    and "is_get (cx_io cx) i (sv_invoices s) = Some v" "event_matches (cx_rt cx) e v"
  shows "\<exists>r s'. processSettlementEvent cx now e opts s = (Inr r, s') \<and> pr_settled r"
proof -
  obtain r st where loop: "settle_loop cx now e (b - ev_block_number e) (is_entries (cx_io cx) (sv_invoices s)) (sv_invoices s) = (r, st)"
    by fastforce
  have ver: "verifySettlementAttestation (cx_rt cx) secret e (op_attestation opts) = Inr True"
    using assms(3,4) by (simp add: verifySettlementAttestation_True)
  have run: "processSettlementEvent cx now e opts s = (Inr r, s\<lparr>sv_invoices := st\<rparr>)"
    using assms(2,5,6) ver loop by (simp add: processSettlementEvent_def)
  have "(i, v) \<in> set (is_entries (cx_io cx) (sv_invoices s))" using assms(7) st.entries_get [OF assms(1)] by blast
  with assms(8) have "pr_settled r"
    using settle_loop_result [OF assms(1) _ loop] st.entries_get [OF assms(1)] by fastforce
  with run show ?thesis by blast
qed

section \<open>Reads\<close>

lemma authorizedInvoice_sound:
  assumes "keys_inv (cx_rt cx) (sv_keys s)" "hex_digests (cx_rt cx) (cx_secret cx)" "clk 2 \<le> clk 3"
    and "ok (sv_invoices s)" "authorizedInvoice cx clk i key s = (Inr v, s')"
  shows "\<exists>k. key_record (cx_rt cx) (cx_secret cx) key (sv_keys s) = Some k \<and> ak_is_active k
    \<and> ak_merchant_nft k = iv_merchant_nft v \<and> \<not> key_expired (cx_rt cx) (clk 2 - AUTH_CACHE_TTL_MS) k"
proof -
  obtain r s1 where g: "getInvoice cx clk i s = (r, s1)" by fastforce
  with assms(5) obtain w where r: "r = Inr w" by (cases r) (auto simp: authorizedInvoice_def)
  have keys: "sv_keys s1 = sv_keys s" by (rule getInvoice_effect(3) [OF assms(4) g])
  have "fst (isAuthorizedMerchantAsync (cx_rt cx) (cx_secret cx) (clk 2) (clk 3) key (iv_merchant_nft w) (sv_keys s)) = Inr True \<and> w = v"
    using assms(5) g r keys by (auto simp: authorizedInvoice_def split: prod.splits sum.splits bool.splits)
  with isAuthorizedMerchantAsync_sound [OF assms(1-3), of key "iv_merchant_nft w"] show ?thesis by blast
qed

end

section \<open>The service over the in-memory stores\<close>

definition mem_ctx :: "js_rt \<Rightarrow> env \<Rightarrow> string \<Rightarrow> (mem_invoices, mem_idempotency) invoice_ctx" where
  "mem_ctx rt env secret =
     \<lparr>cx_rt = rt, cx_env = env, cx_secret = secret, cx_io = InMemoryInvoiceStorage rt, cx_ii = InMemoryIdempotencyStorage\<rparr>"

definition new_invoice_service :: "(mem_invoices, mem_idempotency) invoice_service" where
  "new_invoice_service = \<lparr>sv_keys = new_key_service, sv_invoices = [], sv_idem = []\<rparr>"

lemma mem_ctx_simps [simp]:
  "cx_rt (mem_ctx rt env secret) = rt" "cx_env (mem_ctx rt env secret) = env"
  "cx_secret (mem_ctx rt env secret) = secret" "cx_io (mem_ctx rt env secret) = InMemoryInvoiceStorage rt"
  "cx_ii (mem_ctx rt env secret) = InMemoryIdempotencyStorage"
  by (simp_all add: mem_ctx_def)

lemma mem_get_op [simp]: "is_get (InMemoryInvoiceStorage rt) = mem_get"
  by (simp add: InMemoryInvoiceStorage_def)

interpretation mb: invoice_backend "mem_ctx rt env secret" mem_ok amap_get amap_wf for rt env secret
  unfolding invoice_backend_def mem_ctx_simps
  using mem.invoice_store_axioms memi.idempotency_store_axioms by simp

lemma mem_start_inv: "svc_inv (mem_ctx rt env secret) mem_ok amap_wf new_invoice_service"
  by (simp add: svc_inv_def new_invoice_service_def mem_ok_def store_all_def mem_get_def)

abbreviation mem_reach where
  "mem_reach rt env secret s \<equiv> svc_reach (mem_ctx rt env secret) new_invoice_service s"

lemma mem_reach_inv:
  assumes "mem_reach rt env secret s"
  shows "mem_ok (sv_invoices s)" "amap_wf (sv_idem s)" "mem_get i (sv_invoices s) = Some v \<Longrightarrow> invoice_ok rt v"
  using mb.svc_reach_inv [OF assms mem_start_inv] by (auto simp: svc_inv_def store_all_def)

lemma publish_keys: "sv_keys (snd (publishInvoice cx clk bytes request k s)) = sv_keys s"
  by (auto simp: publishInvoice_def Let_def split: prod.split sum.split option.split)

lemma reuse_keys: "sv_keys (snd (reuseOrPublish cx clk bytes request k s)) = sv_keys s"
  by (auto simp: reuseOrPublish_def Let_def publish_keys split: prod.split option.split)

lemma attempt_keys:
  assumes "keys_inv (cx_rt cx) (sv_keys s)" "hex_digests (cx_rt cx) (cx_secret cx)" "clk 1 \<le> clk 2"
    and "createInvoice_attempt cx clk bytes request key s = (a, s')"
  shows "keys_inv (cx_rt cx) (sv_keys s')"
proof -
  obtain b ks where auth: "isAuthorizedMerchantAsync (cx_rt cx) (cx_secret cx) (clk 1) (clk 2) key
      (jstr (jget ''merchant_nft'' request)) (sv_keys s) = (b, ks)" by fastforce
  have ks: "keys_inv (cx_rt cx) ks"
    using keys_inv_check_async [OF assms(1-3), of key "jstr (jget ''merchant_nft'' request)"] unfolding auth by simp
  have "s' = s \<or> sv_keys s' = ks"
    using assms(4) unfolding createInvoice_attempt_def auth
    by (auto simp: Let_def split: sum.splits bool.splits dest!: arg_cong [of "reuseOrPublish _ _ _ _ _ _" _ "\<lambda>x. sv_keys (snd x)"]
        simp: reuse_keys)
  with assms(1) ks show ?thesis by auto
qed

lemma create_keys:
  assumes "hex_digests (cx_rt cx) (cx_secret cx)" "\<And>d. clk d 1 \<le> clk d 2"
    and "keys_inv (cx_rt cx) (sv_keys s)" "createInvoice_from fuel d cx clk rnd request key s = Some (r, s')"
  shows "keys_inv (cx_rt cx) (sv_keys s')"
  using assms(3,4)
proof (induction fuel arbitrary: d request s)
  case (Suc fuel)
  obtain a s1 where run: "createInvoice_attempt cx (clk d) (rnd d) request key s = (a, s1)" by fastforce
  from attempt_keys [OF Suc.prems(1) assms(1,2) run] Suc.prems(2) run Suc.IH show ?case
    by (cases a) auto
qed simp

lemma getInvoice_keys: "sv_keys (snd (getInvoice cx clk i s)) = sv_keys s"
  by (auto simp: getInvoice_def split: sum.split option.split prod.split)

lemma authorizedInvoice_keys:
  assumes "keys_inv (cx_rt cx) (sv_keys s)" "hex_digests (cx_rt cx) (cx_secret cx)" "clk 2 \<le> clk 3"
  shows "keys_inv (cx_rt cx) (sv_keys (snd (authorizedInvoice cx clk i key s)))"
proof -
  obtain r s1 where g: "getInvoice cx clk i s = (r, s1)" by fastforce
  then have k: "sv_keys s1 = sv_keys s" using getInvoice_keys [of cx clk i s] by simp
  have "keys_inv (cx_rt cx) (snd (isAuthorizedMerchantAsync (cx_rt cx) (cx_secret cx) (clk 2) (clk 3) key m (sv_keys s)))" for m
    by (rule keys_inv_check_async [OF assms])
  from this [of "iv_merchant_nft (projr r)"] k assms(1) show ?thesis
    by (auto simp: authorizedInvoice_def g split: sum.splits prod.splits bool.splits)
qed

lemma svc_step_keys:
  assumes "svc_step cx T s s'" "hex_digests (cx_rt cx) (cx_secret cx)" "keys_inv (cx_rt cx) (sv_keys s)"
  shows "keys_inv (cx_rt cx) (sv_keys s')"
  using assms(1)
proof cases
  case (create fuel clk rnd request key r)
  then show ?thesis
    using create_keys [of cx clk s fuel 0 rnd request key r s', OF assms(2) create(3) assms(3)] by (simp add: createInvoice_def)
next
  case (public clk i)
  then have "s' = snd (getInvoice cx clk i s)"
    by (auto simp: getPublicInvoice_def split: prod.splits sum.splits)
  with assms(3) show ?thesis by (simp add: getInvoice_keys)
next
  case (status clk i key)
  then have "s' = snd (authorizedInvoice cx clk i key s)"
    by (auto simp: getInvoiceStatus_def split: prod.splits sum.splits)
  with authorizedInvoice_keys [OF assms(3,2) status(3)] show ?thesis by simp
next
  case (settle now e opts)
  then have "sv_keys s' = sv_keys s"
    by (auto simp: processSettlementEvent_def split: prod.split sum.split bool.split option.split)
  with assms(3) show ?thesis by simp
next
  case (cleanup clk)
  then have "sv_keys s' = sv_keys s"
    by (auto simp: cleanupExpiredInvoices_def split: prod.split option.split)
  with assms(3) show ?thesis by simp
next
  case (keys ks)
  with key_step_inv [OF keys(2) assms(2,3)] show ?thesis by simp
qed (use assms(3) authorizedInvoice_keys [OF assms(3,2)] in \<open>simp_all add: getInvoice_keys getInvoiceDetail_def\<close>)

lemma mem_reach_keys:
  assumes "mem_reach rt env secret s" "hex_digests rt secret"
  shows "keys_inv rt (sv_keys s)"
  using assms
proof (induction rule: svc_reach.induct)
  case start
  then show ?case by (simp add: new_invoice_service_def new_key_service_def keys_inv_def)
next
  case (later s T s')
  then show ?case using svc_step_keys [OF later.hyps(2)] by simp
qed

end
