(* ===== verification/Api_Http.thy ===== *)
theory Api_Http
  imports Complex_Main Api_Invoice_Thms
begin

text \<open>
  The HTTP front of the Merchant API: request identifiers, error envelopes, rate limiters, sandbox relaxations,
  authentication and the handlers that call the key service and the invoice service
  (\<open>api/src/middleware\<close>, \<open>api/src/config/trustProxy.ts\<close>, \<open>api/src/routes\<close>, \<open>api/src/index.ts\<close>). Routing, body parsing and
  \<open>express-rate-limit\<close> are outside the repository: a request comes with its matched route and its parsed body (or
  the parser's error), and a limiter acts on a state \<open>'l\<close> through the operations of \<open>limiter_ops\<close>. One request is one
  step; log lines are JSON values.
\<close>

section \<open>Requests and replies\<close>

datatype route =
    PostInvoiceCreate
  | GetInvoice string
  | GetInvoiceStatus string
  | GetInvoiceDetail string
  | GetHealth
  | PostKeys
  | DeleteKey string
  | GetSandboxInfo
  | OtherRoute

record http_request =
  rq_method :: string
  rq_url :: string
  rq_ip :: "string option"
  rq_authorization :: "string option"
  rq_requestIdHeader :: "string option"
  rq_body :: "exn + json"

record issued_key =
  ik_api_key :: string
  ik_key_id :: string
  ik_merchant_nft :: string
  ik_environment :: api_env
  ik_permissions :: "permission list"
  ik_created_at :: string
  ik_expires_at :: "string option"

datatype reply_body =
    InvoiceReply invoice
  | PublicReply public_invoice_view
  | StatusReply invoice_status_response
  | HealthReply string
  | KeyReply issued_key
  | RevokedReply string
  | SandboxReply json
  | ErrorReply string string "details option"

record http_reply =
  rp_status :: nat
  rp_headers :: "(string \<times> string) list"
  rp_body :: reply_body

section \<open>Request identifiers\<close>

definition REQUEST_ID_HEADER :: string where
  "REQUEST_ID_HEADER = ''X-Request-Id''"

definition SAFE_REQUEST_ID :: "string \<Rightarrow> bool" where
  "SAFE_REQUEST_ID s \<longleftrightarrow> 1 \<le> length s \<and> length s \<le> 128
     \<and> list_all (\<lambda>c. is_word_char c \<or> c = CHR ''.'' \<or> c = CHR ''-'') s"

text \<open>\<open>uuid\<close> is what \<open>randomUUID()\<close> gives.\<close>

definition requestId_of :: "string \<Rightarrow> string option \<Rightarrow> string" where
  "requestId_of uuid supplied =
     (case supplied of None \<Rightarrow> uuid | Some s \<Rightarrow> if s \<noteq> [] \<and> SAFE_REQUEST_ID s then s else uuid)"

section \<open>Error envelopes\<close>

definition sanitiseDetails :: "details option \<Rightarrow> details option" where
  "sanitiseDetails ds =
     (case ds of None \<Rightarrow> None
      | Some kvs \<Rightarrow>
          let safe = filter (\<lambda>(key, val). val \<noteq> JUndef \<and> val \<noteq> JNull
            \<and> key \<noteq> ''error'' \<and> key \<noteq> ''stack'' \<and> key \<noteq> ''cause'' \<and> key \<noteq> ''whitelistedCollections'') kvs
          in if safe = [] then None else Some safe)"

definition requestId_json :: "string option \<Rightarrow> json" where
  "requestId_json r = (case r of None \<Rightarrow> JUndef | Some s \<Rightarrow> JStr s)"

definition log_context :: "string \<Rightarrow> string \<Rightarrow> string option \<Rightarrow> http_request \<Rightarrow> string \<Rightarrow> (string \<times> json) list" where
  "log_context level msg requestId req code =
     [(''level'', JStr level), (''msg'', JStr msg), (''requestId'', requestId_json requestId),
      (''method'', JStr (rq_method req)), (''path'', JStr (rq_url req)), (''errorCode'', JStr code)]"

definition logClientError :: "string option \<Rightarrow> http_request \<Rightarrow> string \<Rightarrow> string \<Rightarrow> json" where
  "logClientError requestId req code message = JObj (log_context ''warn'' message requestId req code)"

definition logServerError :: "string option \<Rightarrow> http_request \<Rightarrow> string \<Rightarrow> string \<Rightarrow> string \<Rightarrow> json" where
  "logServerError requestId req code name message =
     JObj (log_context ''error'' message requestId req code
       @ [(''err'', JObj [(''name'', JStr name), (''message'', JStr message)])])"

definition is_production :: "env \<Rightarrow> bool" where
  "is_production env \<longleftrightarrow> env ''NODE_ENV'' = Some ''production''"

text \<open>The status and the envelope, and the log line.\<close>

definition sendErrorResponse :: "env \<Rightarrow> string option \<Rightarrow> http_request \<Rightarrow> exn \<Rightarrow> (nat \<times> reply_body) \<times> json" where
  "sendErrorResponse env requestId req e =
     (case e of
        ValidationError code message ds \<Rightarrow>
          (let statusCode = getHttpStatusForErrorCode (error_code_string code) in
           ((statusCode, ErrorReply (error_code_string code) message (sanitiseDetails ds)),
            if statusCode \<ge> 500 then logServerError requestId req (error_code_string code) ''ValidationError'' message
            else logClientError requestId req (error_code_string code) message))
      | OtherError name message \<Rightarrow>
          ((500, ErrorReply (error_code_string INTERNAL_ERROR) ''Internal server error''
             (if is_production env then
                (case requestId of None \<Rightarrow> None
                 | Some r \<Rightarrow> if r = [] then None else Some [(''requestId'', JStr r)])
              else Some [(''requestId'', requestId_json requestId), (''error'', JStr message)])),
           logServerError requestId req (error_code_string INTERNAL_ERROR) name message))"

definition notFoundHandlerMiddleware :: "nat \<times> reply_body" where
  "notFoundHandlerMiddleware = (404, ErrorReply (error_code_string INVOICE_NOT_FOUND) ''Resource not found'' None)"

section \<open>Rate limiters\<close>

text \<open>\<open>num\<close> is \<open>Number(raw)\<close>, \<open>None\<close> for \<open>NaN\<close> and the infinities.\<close>

definition envNumber :: "(string \<Rightarrow> rat option) \<Rightarrow> env \<Rightarrow> string \<Rightarrow> int \<Rightarrow> int" where
  "envNumber num env name fallback =
     (case env name of None \<Rightarrow> fallback
      | Some raw \<Rightarrow>
          if raw = [] then fallback
          else (case num raw of None \<Rightarrow> fallback
                | Some parsed \<Rightarrow> if parsed \<le> 0 then fallback else \<lfloor>parsed\<rfloor>))"

datatype api_limiter = PublicIp | AuthFailure | KeyCreate | KeyStatus | KeyRead

record limiter_options =
  lo_windowMs :: int
  lo_max :: int
  lo_skipSuccessfulRequests :: bool

definition limiter_options_of :: "(string \<Rightarrow> rat option) \<Rightarrow> env \<Rightarrow> api_limiter \<Rightarrow> limiter_options" where
  "limiter_options_of num env which =
     \<lparr>lo_windowMs = envNumber num env ''RATE_LIMIT_WINDOW_MS'' 60000,
      lo_max = (case which of
          PublicIp \<Rightarrow> envNumber num env ''RATE_LIMIT_PUBLIC_PER_MIN'' 10
        | AuthFailure \<Rightarrow> envNumber num env ''RATE_LIMIT_AUTH_FAIL_PER_MIN'' 10
        | KeyCreate \<Rightarrow> envNumber num env ''RATE_LIMIT_INVOICE_CREATE_PER_MIN'' 60
        | KeyStatus \<Rightarrow> envNumber num env ''RATE_LIMIT_INVOICE_STATUS_PER_MIN'' 300
        | KeyRead \<Rightarrow> envNumber num env ''RATE_LIMIT_INVOICE_READ_PER_MIN'' 1000),
      lo_skipSuccessfulRequests = (which = AuthFailure)\<rparr>"

text \<open>
  \<open>lm_hit\<close> counts a request against a bucket and says whether it may pass; a refusal comes with the value of
  the \<open>Retry-After\<close> header, if the library set one. \<open>lm_done\<close> sees the status of the finished reply. The
  library's own key of an address is \<open>lm_ipKey\<close>, and its default status of a refusal is 429.
\<close>

datatype verdict = Passed | Refused "int option"

record 'l limiter_ops =
  lm_ipKey :: "string option \<Rightarrow> string"
  lm_hit :: "api_limiter \<Rightarrow> limiter_options \<Rightarrow> string \<Rightarrow> 'l \<Rightarrow> verdict \<times> 'l"
  lm_done :: "api_limiter \<Rightarrow> limiter_options \<Rightarrow> string \<Rightarrow> nat \<Rightarrow> 'l \<Rightarrow> 'l"

definition rateLimitHandler :: "limiter_options \<Rightarrow> int option \<Rightarrow> nat \<times> reply_body" where
  "rateLimitHandler options retryAfterHeader =
     (let windowSeconds = \<lceil>of_int (lo_windowMs options) / (1000 :: rat)\<rceil>;
          retryAfter = (case retryAfterHeader of Some n \<Rightarrow> n | None \<Rightarrow> windowSeconds)
      in (429, ErrorReply (error_code_string RATE_LIMIT_EXCEEDED) ''Rate limit exceeded''
            (Some [(''retryAfter'', JNum retryAfter), (''limit'', JNum (lo_max options)),
                   (''window'', JNum windowSeconds)])))"

text \<open>The bucket of a per-key limiter; without a key it is that of the address.\<close>

definition keyGenerator :: "api_key option \<Rightarrow> string option \<Rightarrow> string" where
  "keyGenerator apiKey ip =
     (case apiKey of Some k \<Rightarrow> ak_id k
      | None \<Rightarrow> ''ip:'' @ (case ip of None \<Rightarrow> ''unknown'' | Some a \<Rightarrow> a))"

section \<open>Proxy trust and origins\<close>

datatype trust_proxy = TrustBool bool | TrustHops nat | TrustString string

definition parseTrustProxy :: "string option \<Rightarrow> trust_proxy" where
  "parseTrustProxy raw =
     (case raw of None \<Rightarrow> TrustBool False
      | Some r \<Rightarrow>
          let val = js_trim r; lower = js_lower val in
          if val = [] then TrustBool False
          else if lower = ''false'' then TrustBool False
          else if lower = ''true'' then TrustBool True
          else if list_all is_digit val then TrustHops (digits_val val)
          else TrustString val)"

definition getTrustProxySetting :: "env \<Rightarrow> trust_proxy" where
  "getTrustProxySetting env = parseTrustProxy (env ''TRUST_PROXY'')"

definition allowedOrigins :: "env \<Rightarrow> string list" where
  "allowedOrigins env =
     (case env ''ALLOWED_ORIGINS'' of None \<Rightarrow> []
      | Some s \<Rightarrow> if s = [] then [] else filter (\<lambda>x. x \<noteq> []) (map js_trim (js_split CHR '','' s)))"

definition corsOrigin :: "env \<Rightarrow> string option \<Rightarrow> bool" where
  "corsOrigin env origin =
     (case origin of None \<Rightarrow> True | Some x \<Rightarrow> x = [] \<or> List.member (allowedOrigins env) x)"

section \<open>Sandbox mode\<close>

definition PUBLIC_SANDBOX_API_KEY :: string where
  "PUBLIC_SANDBOX_API_KEY = ''tbc_test_a3f8c2e91d4b7a6e5c3f8d2a1b9e4c7d''"

definition env_or :: "env \<Rightarrow> string \<Rightarrow> string \<Rightarrow> string" where
  "env_or env name fallback = (case env name of None \<Rightarrow> fallback | Some v \<Rightarrow> v)"

definition PUBLIC_SANDBOX_MERCHANT_NFT :: "env \<Rightarrow> string" where
  "PUBLIC_SANDBOX_MERCHANT_NFT env =
     env_or env ''SANDBOX_DEFAULT_MERCHANT_NFT'' ''EQAAAAAAAAAAAAAAAAAAAAAAAAAAAAAAAAAAAAAAAAAAAAAA''"

definition SANDBOX_TEST_NFT_CARDS :: "env \<Rightarrow> string list" where
  "SANDBOX_TEST_NFT_CARDS env =
     filter (\<lambda>x. x \<noteq> []) (map js_trim (js_split CHR '','' (env_or env ''SANDBOX_TEST_NFT_CARDS''
       (''0:'' @ replicate 64 CHR ''1'' @ '',0:'' @ replicate 64 CHR ''2''))))"

definition isSandboxMode :: "env \<Rightarrow> bool" where
  "isSandboxMode env =
     (case env ''TONBANKCARD_SANDBOX'' of
        Some v \<Rightarrow> List.member [''1'', ''true'', ''yes'', ''on''] (js_lower v)
      | None \<Rightarrow> env ''NODE_ENV'' = Some ''sandbox'')"

definition ensureSandboxKeyRegistered :: "js_rt \<Rightarrow> env \<Rightarrow> string \<Rightarrow> int \<Rightarrow> int \<Rightarrow> 8 word list \<Rightarrow> key_service \<Rightarrow> (exn + unit) \<times> key_service" where
  "ensureSandboxKeyRegistered rt env secret now now2 randomBytes ks =
     (if \<not> isValidApiKeyFormat PUBLIC_SANDBOX_API_KEY then
        (Inl (OtherError ''Error'' ''Configured public sandbox API key does not match the canonical format''), ks)
      else (case findAndValidateKey rt secret now PUBLIC_SANDBOX_API_KEY ks of
              Inr _ \<Rightarrow> (Inr (), ks)
            | Inl _ \<Rightarrow> (Inr (), snd (registerApiKey rt secret now2 randomBytes PUBLIC_SANDBOX_API_KEY
                (PUBLIC_SANDBOX_MERCHANT_NFT env) [InvoiceCreate, InvoiceRead, InvoiceStatusScope] (None, None, None) None ks))))"

definition sandboxHeaders :: "(string \<times> string) list" where
  "sandboxHeaders = [(''X-Tonbankcard-Environment'', ''sandbox'')]"

definition sandboxAnonymousAuthMiddleware :: "http_request \<Rightarrow> http_request" where
  "sandboxAnonymousAuthMiddleware req =
     (case rq_authorization req of
        None \<Rightarrow> req\<lparr>rq_authorization := Some (''Bearer '' @ PUBLIC_SANDBOX_API_KEY)\<rparr>
      | Some h \<Rightarrow> if h = [] then req\<lparr>rq_authorization := Some (''Bearer '' @ PUBLIC_SANDBOX_API_KEY)\<rparr> else req)"

definition buildSandboxInfo :: "env \<Rightarrow> json" where
  "buildSandboxInfo env = JObj
     [(''environment'', JStr ''sandbox''),
      (''network'', JStr (env_or env ''TON_NETWORK'' ''testnet'')),
      (''baseUrl'', JStr (env_or env ''SANDBOX_BASE_URL'' ''https://sandbox.api.tonbankcard.com'')),
      (''faucetUrl'', JStr (env_or env ''SANDBOX_FAUCET_URL'' ''https://sandbox.api.tonbankcard.com/faucet'')),
      (''defaultMerchantNft'', JStr (PUBLIC_SANDBOX_MERCHANT_NFT env)),
      (''defaultSandboxApiKey'', JStr PUBLIC_SANDBOX_API_KEY),
      (''testNftCards'', JArr (map JStr (SANDBOX_TEST_NFT_CARDS env))),
      (''resetCadence'', JStr (env_or env ''SANDBOX_RESET_CADENCE'' ''weekly'')),
      (''docs'', JStr ''https://github.com/xlabtg/tonbankcard-protocol/blob/main/docs/sandbox.md''),
      (''notice'', JStr ''Sandbox: no real funds, no production data, rate-limited. Test data may be reset on a regular cadence.'')]"

section \<open>Authentication\<close>

definition extractApiKey :: "http_request \<Rightarrow> exn + string" where
  "extractApiKey req =
     (case rq_authorization req of
        None \<Rightarrow> Inl (ValidationError INVALID_API_KEY ''Authorization header is required'' None)
      | Some authHeader \<Rightarrow>
          if authHeader = [] then Inl (ValidationError INVALID_API_KEY ''Authorization header is required'' None)
          else let parts = js_split CHR '' '' authHeader in
            if length parts \<noteq> 2 \<or> parts ! 0 \<noteq> ''Bearer'' then
              Inl (ValidationError INVALID_API_KEY ''Authorization header must be in format: Bearer <API_KEY>'' None)
            else Inr (parts ! 1))"

fun permission_string :: "permission \<Rightarrow> string" where
  "permission_string InvoiceCreate = ''invoice:create''"
| "permission_string InvoiceRead = ''invoice:read''"
| "permission_string InvoiceStatusScope = ''invoice:status''"

definition hasPermission :: "api_key \<Rightarrow> permission \<Rightarrow> bool" where
  "hasPermission apiKey requiredPermission = List.member (ak_permissions apiKey) requiredPermission"

text \<open>\<open>now\<close> is read by the look-up, \<open>now2\<close> by the touch.\<close>

definition authenticateWithPermission :: "js_rt \<Rightarrow> string \<Rightarrow> int \<Rightarrow> int \<Rightarrow> permission \<Rightarrow> http_request \<Rightarrow> key_service \<Rightarrow>
    (exn + api_key) \<times> key_service" where
  "authenticateWithPermission rt secret now now2 requiredPermission req ks =
     (case extractApiKey req of
        Inl e \<Rightarrow> (Inl e, ks)
      | Inr apiKeyValue \<Rightarrow>
          (case findAndValidateKeyAsync rt secret now apiKeyValue ks of
             Inl e \<Rightarrow> (Inl e, ks)
           | Inr apiKey \<Rightarrow>
               if \<not> hasPermission apiKey requiredPermission then
                 (Inl (ValidationError UNAUTHORIZED_MERCHANT
                    (''API key does not have permission: '' @ permission_string requiredPermission)
                    (Some [(''required_permission'', JStr (permission_string requiredPermission))])), ks)
               else (Inr apiKey, touchKeyAsync rt now2 (ak_hash apiKey) ks)))"

definition getAdminToken :: "env \<Rightarrow> string option" where
  "getAdminToken env =
     (case env ''API_KEY_ADMIN_TOKEN'' of None \<Rightarrow> None | Some v \<Rightarrow> if v = [] then None else Some v)"

definition requireAdminToken :: "env \<Rightarrow> http_request \<Rightarrow> exn + unit" where
  "requireAdminToken env req =
     (case getAdminToken env of
        None \<Rightarrow> Inl (ValidationError UNAUTHORIZED_MERCHANT
          ''Key management is disabled (API_KEY_ADMIN_TOKEN is not configured)'' None)
      | Some expected \<Rightarrow>
          (case rq_authorization req of
             None \<Rightarrow> Inl (ValidationError INVALID_API_KEY ''Authorization header is required'' None)
           | Some authHeader \<Rightarrow>
               if authHeader = [] then Inl (ValidationError INVALID_API_KEY ''Authorization header is required'' None)
               else let parts = js_split CHR '' '' authHeader in
                 if length parts \<noteq> 2 \<or> parts ! 0 \<noteq> ''Bearer'' then
                   Inl (ValidationError INVALID_API_KEY
                     ''Authorization header must be in format: Bearer <admin-token>'' None)
                 else res_bind (constantTimeEqual (parts ! 1) expected) (\<lambda>ok.
                   if \<not> ok then Inl (ValidationError UNAUTHORIZED_MERCHANT ''Invalid admin token'' None)
                   else Inr ())))"

section \<open>Key management\<close>

text \<open>
  \<open>String(v)\<close> in an error message. An object with an own property \<open>toString\<close> has no callable conversion, because
  a parsed value holds no functions.
\<close>

fun js_String :: "json \<Rightarrow> exn + string" and js_elements :: "json list \<Rightarrow> exn + string list" where
  "js_String JUndef = Inr ''undefined''"
| "js_String JNull = Inr ''null''"
| "js_String (JBool b) = Inr (if b then ''true'' else ''false'')"
| "js_String (JNum n) = Inr (dec_int n)"
| "js_String (JStr s) = Inr s"
| "js_String (JArr xs) = res_bind (js_elements xs) (\<lambda>ss. Inr (js_join '','' ss))"
| "js_String (JObj kvs) =
     (if ''toString'' \<in> fst ` set kvs
      then Inl (OtherError ''TypeError'' ''Cannot convert object to primitive value'')
      else Inr ''[object Object]'')"
| "js_elements [] = Inr []"
| "js_elements (v # xs) =
     res_bind (if v = JUndef \<or> v = JNull then Inr [] else js_String v) (\<lambda>s.
     res_bind (js_elements xs) (\<lambda>ss. Inr (s # ss)))"

definition DEFAULT_PERMISSIONS :: "permission list" where
  "DEFAULT_PERMISSIONS = [InvoiceCreate, InvoiceRead, InvoiceStatusScope]"

definition parseEnvironment :: "json \<Rightarrow> exn + api_env" where
  "parseEnvironment v =
     (if v = JStr ''live'' then Inr Live
      else if v = JStr ''test'' then Inr Test
      else if v = JUndef \<or> v = JNull then Inr Live
      else Inl (ValidationError INVALID_METADATA
        (''environment must be '' @ json_quote ''live'' @ '' or '' @ json_quote ''test'') None))"

definition permission_of :: "json \<Rightarrow> permission option" where
  "permission_of item = find (\<lambda>p. item = JStr (permission_string p)) DEFAULT_PERMISSIONS"

fun parse_scopes :: "json list \<Rightarrow> exn + permission list" where
  "parse_scopes [] = Inr []"
| "parse_scopes (item # items) =
     (case permission_of item of
        None \<Rightarrow> res_bind (js_String item) (\<lambda>s.
          Inl (ValidationError INVALID_METADATA (''Unknown permission scope: '' @ s) None))
      | Some p \<Rightarrow> res_bind (parse_scopes items) (\<lambda>ps. Inr (p # ps)))"

definition parsePermissions :: "json \<Rightarrow> exn + permission list" where
  "parsePermissions v =
     (if v = JUndef \<or> v = JNull then Inr DEFAULT_PERMISSIONS
      else (case v of
              JArr items \<Rightarrow>
                if items = [] then Inl (ValidationError INVALID_METADATA ''permissions must be a non-empty array of scopes'' None)
                else parse_scopes items
            | _ \<Rightarrow> Inl (ValidationError INVALID_METADATA ''permissions must be a non-empty array of scopes'' None)))"

definition parseExpiresAt :: "js_rt \<Rightarrow> json \<Rightarrow> exn + string option" where
  "parseExpiresAt rt v =
     (if v = JUndef \<or> v = JNull \<or> v = JStr [] then Inr None
      else if \<not> is_jstr v then
        Inl (ValidationError INVALID_METADATA ''expires_at must be an ISO 8601 timestamp string'' None)
      else (case dateParse rt (jstr v) of
              None \<Rightarrow> Inl (ValidationError INVALID_METADATA ''expires_at is not a valid ISO 8601 timestamp'' None)
            | Some ms \<Rightarrow> Inr (Some (toISO rt ms))))"

text \<open>What a request draws: clock readings, random bytes of a plaintext key, of identifiers and of invoices.\<close>

record http_inputs =
  in_uuid :: string
  in_now :: int
  in_now2 :: int
  in_clk :: "nat \<Rightarrow> nat \<Rightarrow> int"
  in_keyBytes :: "8 word list"
  in_idBytes :: "8 word list"
  in_rnd :: "nat \<Rightarrow> 8 word list"

definition env_string :: "api_env \<Rightarrow> string" where
  "env_string e = (case e of Live \<Rightarrow> ''live'' | Test \<Rightarrow> ''test'')"

definition parseKeyRequest :: "js_rt \<Rightarrow> json \<Rightarrow> exn + (string \<times> api_env \<times> permission list \<times> string option)" where
  "parseKeyRequest rt body =
     (let nft = jget ''merchant_nft'' body in
      if \<not> is_jstr nft \<or> jstr nft = [] then Inl (ValidationError INVALID_NFT_ADDRESS ''merchant_nft is required'' None)
      else res_bind (validateTonAddress nft) (\<lambda>_.
           res_bind (parseEnvironment (jget ''environment'' body)) (\<lambda>environment.
           res_bind (parsePermissions (jget ''permissions'' body)) (\<lambda>permissions.
           res_bind (parseExpiresAt rt (jget ''expires_at'' body)) (\<lambda>expiresAt.
           Inr (jstr nft, environment, permissions, expiresAt))))))"

text \<open>
  The handler: its reply, the key service and the audit line. An absent body has no properties, like the empty object
  that replaces it.
\<close>

definition createApiKey :: "js_rt \<Rightarrow> string \<Rightarrow> http_inputs \<Rightarrow> json \<Rightarrow> key_service \<Rightarrow>
    (exn + nat \<times> reply_body) \<times> key_service \<times> json list" where
  "createApiKey rt secret inp body ks =
     (case parseKeyRequest rt body of
        Inl e \<Rightarrow> (Inl e, ks, [])
      | Inr (merchantNft, environment, permissions, expiresAt) \<Rightarrow>
          let plaintext = generateApiKey environment (in_keyBytes inp) in
          if \<not> isValidApiKeyFormat plaintext then
            (Inl (OtherError ''Error'' ''Generated API key failed format validation''), ks, [])
          else
            (case registerApiKeyAsync rt secret (in_now inp) (in_idBytes inp) plaintext merchantNft permissions
                (None, None, None) expiresAt ks of
               (Inl e, ks') \<Rightarrow> (Inl e, ks', [])
             | (Inr apiKey, ks') \<Rightarrow>
                 (Inr (201, KeyReply \<lparr>ik_api_key = plaintext, ik_key_id = ak_id apiKey,
                    ik_merchant_nft = ak_merchant_nft apiKey, ik_environment = environment,
                    ik_permissions = ak_permissions apiKey, ik_created_at = ak_created_at apiKey,
                    ik_expires_at = ak_expires_at apiKey\<rparr>), ks',
                  [JObj [(''level'', JStr ''info''), (''msg'', JStr ''api_key.issued''), (''key_id'', JStr (ak_id apiKey)),
                     (''merchant_nft'', JStr (ak_merchant_nft apiKey)), (''environment'', JStr (env_string environment)),
                     (''permissions'', JArr (map (JStr \<circ> permission_string) permissions)),
                     (''redacted_key'', JStr (redactApiKey plaintext))]])))"

definition revokeApiKey :: "string \<Rightarrow> key_service \<Rightarrow> (exn + nat \<times> reply_body) \<times> key_service \<times> json list" where
  "revokeApiKey key_id ks =
     (if key_id = [] then (Inl (ValidationError INVALID_API_KEY ''key_id path parameter is required'' None), ks, [])
      else (case revokeByKeyIdAsync key_id ks of
              (False, ks') \<Rightarrow> (Inl (ValidationError INVALID_API_KEY ''Unknown key_id'' None), ks', [])
            | (True, ks') \<Rightarrow> (Inr (200, RevokedReply key_id), ks',
                [JObj [(''level'', JStr ''info''), (''msg'', JStr ''api_key.revoked''), (''key_id'', JStr key_id)]])))"

section \<open>Invoice handlers\<close>

text \<open>\<open>None\<close> when the creation needs more passes than the fuel allows.\<close>

definition createInvoiceHandler :: "nat \<Rightarrow> ('s, 'i) invoice_ctx \<Rightarrow> http_inputs \<Rightarrow> json \<Rightarrow> http_request \<Rightarrow> ('s, 'i) invoice_service \<Rightarrow>
    ((exn + nat \<times> reply_body) \<times> ('s, 'i) invoice_service) option" where
  "createInvoiceHandler fuel cx inp body req s =
     (case extractApiKey req of
        Inl e \<Rightarrow> Some (Inl e, s)
      | Inr apiKey \<Rightarrow> map_option (\<lambda>(r, s'). (map_sum id (\<lambda>v. (201, InvoiceReply v)) r, s'))
          (createInvoice fuel cx (in_clk inp) (in_rnd inp) body apiKey s))"

definition getInvoiceHandler :: "('s, 'i) invoice_ctx \<Rightarrow> http_inputs \<Rightarrow> string \<Rightarrow> ('s, 'i) invoice_service \<Rightarrow>
    (exn + nat \<times> reply_body) \<times> ('s, 'i) invoice_service" where
  "getInvoiceHandler cx inp invoice_id s =
     (case getPublicInvoice cx (in_clk inp 0) invoice_id s of
        (r, s') \<Rightarrow> (map_sum id (\<lambda>v. (200, PublicReply v)) r, s'))"

definition getInvoiceDetailHandler :: "('s, 'i) invoice_ctx \<Rightarrow> http_inputs \<Rightarrow> string \<Rightarrow> http_request \<Rightarrow> ('s, 'i) invoice_service \<Rightarrow>
    (exn + nat \<times> reply_body) \<times> ('s, 'i) invoice_service" where
  "getInvoiceDetailHandler cx inp invoice_id req s =
     (case extractApiKey req of
        Inl e \<Rightarrow> (Inl e, s)
      | Inr apiKey \<Rightarrow>
          (case getInvoiceDetail cx (in_clk inp 0) invoice_id apiKey s of
             (r, s') \<Rightarrow> (map_sum id (\<lambda>v. (200, InvoiceReply v)) r, s')))"

definition getInvoiceStatusHandler :: "('s, 'i) invoice_ctx \<Rightarrow> http_inputs \<Rightarrow> string \<Rightarrow> http_request \<Rightarrow> ('s, 'i) invoice_service \<Rightarrow>
    (exn + nat \<times> reply_body) \<times> ('s, 'i) invoice_service" where
  "getInvoiceStatusHandler cx inp invoice_id req s =
     (case extractApiKey req of
        Inl e \<Rightarrow> (Inl e, s)
      | Inr apiKey \<Rightarrow>
          (case getInvoiceStatus cx (in_clk inp 0) invoice_id apiKey s of
             (r, s') \<Rightarrow> (map_sum id (\<lambda>v. (200, StatusReply v)) r, s')))"

section \<open>The application\<close>

record ('s, 'i, 'l) http_ctx =
  hc_cx :: "('s, 'i) invoice_ctx"
  hc_num :: "string \<Rightarrow> rat option"
  hc_limits :: "'l limiter_ops"
  hc_fuel :: nat

record ('s, 'i, 'l) http_state =
  hs_sv :: "('s, 'i) invoice_service"
  hs_limits :: 'l
  hs_log :: "json list"

type_synonym ('s, 'i, 'l) answer = "(nat \<times> reply_body) \<times> ('s, 'i, 'l) http_state"

definition options_for :: "('s, 'i, 'l) http_ctx \<Rightarrow> api_limiter \<Rightarrow> limiter_options" where
  "options_for hc which = limiter_options_of (hc_num hc) (cx_env (hc_cx hc)) which"

text \<open>A handler's outcome on the wire: the reply itself, or the envelope and a log line.\<close>

definition reply_or_error :: "('s, 'i, 'l) http_ctx \<Rightarrow> string option \<Rightarrow> http_request \<Rightarrow> exn + nat \<times> reply_body \<Rightarrow>
    ('s, 'i, 'l) http_state \<Rightarrow> ('s, 'i, 'l) answer" where
  "reply_or_error hc requestId req r st =
     (case r of Inr rep \<Rightarrow> (rep, st)
      | Inl e \<Rightarrow> (case sendErrorResponse (cx_env (hc_cx hc)) requestId req e of
          (rep, line) \<Rightarrow> (rep, st\<lparr>hs_log := hs_log st @ [line]\<rparr>)))"

text \<open>A limiter in front of the rest of a chain.\<close>

definition limited :: "('s, 'i, 'l) http_ctx \<Rightarrow> api_limiter \<Rightarrow> string \<Rightarrow>
    (('s, 'i, 'l) http_state \<Rightarrow> ('s, 'i, 'l) answer option) \<Rightarrow> ('s, 'i, 'l) http_state \<Rightarrow> ('s, 'i, 'l) answer option" where
  "limited hc which bucket rest st =
     (let options = options_for hc which in
      case lm_hit (hc_limits hc) which options bucket (hs_limits st) of
        (Refused retryAfter, l) \<Rightarrow> Some (rateLimitHandler options retryAfter,
           st\<lparr>hs_limits := lm_done (hc_limits hc) which options bucket 429 l\<rparr>)
      | (Passed, l) \<Rightarrow>
          (case rest (st\<lparr>hs_limits := l\<rparr>) of
             None \<Rightarrow> None
           | Some (rep, st') \<Rightarrow> Some (rep, st'\<lparr>hs_limits :=
               lm_done (hc_limits hc) which options bucket (fst rep) (hs_limits st')\<rparr>)))"

definition ip_bucket :: "('s, 'i, 'l) http_ctx \<Rightarrow> http_request \<Rightarrow> string" where
  "ip_bucket hc req = lm_ipKey (hc_limits hc) (rq_ip req)"

definition admin_route :: "('s, 'i, 'l) http_ctx \<Rightarrow> http_request \<Rightarrow>
    (key_service \<Rightarrow> (exn + nat \<times> reply_body) \<times> key_service \<times> json list) \<Rightarrow> ('s, 'i, 'l) http_state \<Rightarrow> ('s, 'i, 'l) answer option" where
  "admin_route hc req handler =
     limited hc PublicIp (ip_bucket hc req) (\<lambda>st.
       case requireAdminToken (cx_env (hc_cx hc)) req of
         Inl e \<Rightarrow> Some (reply_or_error hc None req (Inl e) st)
       | Inr _ \<Rightarrow>
           (case handler (sv_keys (hs_sv st)) of
              (r, ks, lines) \<Rightarrow> Some (reply_or_error hc None req r
                (st\<lparr>hs_sv := (hs_sv st)\<lparr>sv_keys := ks\<rparr>, hs_log := hs_log st @ lines\<rparr>))))"

definition protected_route :: "('s, 'i, 'l) http_ctx \<Rightarrow> permission \<Rightarrow> api_limiter \<Rightarrow> http_inputs \<Rightarrow> string \<Rightarrow> http_request \<Rightarrow>
    (('s, 'i) invoice_service \<Rightarrow> ((exn + nat \<times> reply_body) \<times> ('s, 'i) invoice_service) option) \<Rightarrow>
    ('s, 'i, 'l) http_state \<Rightarrow> ('s, 'i, 'l) answer option" where
  "protected_route hc permission which inp requestId req handler =
     limited hc AuthFailure (ip_bucket hc req) (\<lambda>st.
       case authenticateWithPermission (cx_rt (hc_cx hc)) (cx_secret (hc_cx hc)) (in_now inp) (in_now2 inp) permission req
           (sv_keys (hs_sv st)) of
         (Inl e, ks) \<Rightarrow> Some (reply_or_error hc (Some requestId) req (Inl e) (st\<lparr>hs_sv := (hs_sv st)\<lparr>sv_keys := ks\<rparr>\<rparr>))
       | (Inr apiKey, ks) \<Rightarrow>
           limited hc which (keyGenerator (Some apiKey) (rq_ip req)) (\<lambda>st.
             map_option (\<lambda>(r, sv). reply_or_error hc (Some requestId) req r (st\<lparr>hs_sv := sv\<rparr>)) (handler (hs_sv st)))
           (st\<lparr>hs_sv := (hs_sv st)\<lparr>sv_keys := ks\<rparr>\<rparr>))"

text \<open>
  The chain in the order \<open>createApp\<close> mounts it: body parser, sandbox, key routes, request identifier, invoice routes,
  not found. An error of the body parser goes past every route to the error handler, before a request identifier is set.
  The headers of \<open>helmet\<close> and \<open>cors\<close> and those of the limiters are left out.
\<close>

definition serve_route :: "('s, 'i, 'l) http_ctx \<Rightarrow> http_inputs \<Rightarrow> route \<Rightarrow> http_request \<Rightarrow> json \<Rightarrow> string \<Rightarrow>
    ('s, 'i, 'l) http_state \<Rightarrow> ('s, 'i, 'l) answer option" where
  "serve_route hc inp r req body requestId st =
     (let cx = hc_cx hc in
      case r of
        PostKeys \<Rightarrow> admin_route hc req (createApiKey (cx_rt cx) (cx_secret cx) inp body) st
      | DeleteKey key_id \<Rightarrow> admin_route hc req (revokeApiKey key_id) st
      | PostInvoiceCreate \<Rightarrow> protected_route hc InvoiceCreate KeyCreate inp requestId req
          (createInvoiceHandler (hc_fuel hc) cx inp body req) st
      | GetInvoiceStatus i \<Rightarrow> protected_route hc InvoiceStatusScope KeyStatus inp requestId req
          (Some \<circ> getInvoiceStatusHandler cx inp i req) st
      | GetInvoiceDetail i \<Rightarrow> protected_route hc InvoiceRead KeyRead inp requestId req
          (Some \<circ> getInvoiceDetailHandler cx inp i req) st
      | GetInvoice i \<Rightarrow> limited hc PublicIp (ip_bucket hc req) (\<lambda>st.
          case getInvoiceHandler cx inp i (hs_sv st) of
            (a, sv) \<Rightarrow> Some (reply_or_error hc (Some requestId) req a (st\<lparr>hs_sv := sv\<rparr>))) st
      | GetHealth \<Rightarrow> Some ((200, HealthReply (toISO (cx_rt cx) (in_now inp))), st)
      | GetSandboxInfo \<Rightarrow> Some (if isSandboxMode (cx_env cx) then (200, SandboxReply (buildSandboxInfo (cx_env cx)))
          else notFoundHandlerMiddleware, st)
      | OtherRoute \<Rightarrow> Some (notFoundHandlerMiddleware, st))"

definition key_route :: "route \<Rightarrow> bool" where
  "key_route r \<longleftrightarrow> (case r of PostKeys \<Rightarrow> True | DeleteKey _ \<Rightarrow> True | _ \<Rightarrow> False)"

definition sandboxed :: "env \<Rightarrow> http_request \<Rightarrow> http_request" where
  "sandboxed env req = (if isSandboxMode env then sandboxAnonymousAuthMiddleware req else req)"

definition serve :: "('s, 'i, 'l) http_ctx \<Rightarrow> http_inputs \<Rightarrow> route \<Rightarrow> http_request \<Rightarrow> ('s, 'i, 'l) http_state \<Rightarrow>
    (http_reply \<times> ('s, 'i, 'l) http_state) option" where
  "serve hc inp r req st =
     (let env = cx_env (hc_cx hc);
          requestId = requestId_of (in_uuid inp) (rq_requestIdHeader req);
          sandbox = (if isSandboxMode env then sandboxHeaders else []);
          withId = (if key_route r \<or> r = GetSandboxInfo \<and> isSandboxMode env then []
                    else [(REQUEST_ID_HEADER, requestId)])
      in case rq_body req of
           Inl e \<Rightarrow> (case reply_or_error hc None req (Inl e) st of
             (rep, st') \<Rightarrow> Some (\<lparr>rp_status = fst rep, rp_headers = [], rp_body = snd rep\<rparr>, st'))
         | Inr body \<Rightarrow>
             map_option (\<lambda>(rep, st'). (\<lparr>rp_status = fst rep, rp_headers = sandbox @ withId, rp_body = snd rep\<rparr>, st'))
               (serve_route hc inp r (sandboxed env req) body requestId st))"

end
