(* ===== verification/Api_Invoice_Props.thy ===== *)
theory Api_Invoice_Props
  imports Api_Invoice_Thms
begin

text \<open>
  The properties of the invoice service over the in-memory stores, with a concrete run that shows
  their hypotheses can hold.
\<close>

section \<open>A concrete run\<close>

text \<open>
  A registered key, a created invoice and a settlement event for it, evaluated once; the witnesses
  below are about this run.
\<close>

definition run_request :: json where
  "run_request = JObj [(''merchant_nft'', JStr ''EQAjHkHtt1MIoU5c7dks73Rz8NMxAA3oStSrcQ_qgn3il-Le''),
     (''amount_tbc'', JStr ''5''), (''currency'', JStr ''TBC''), (''expires_at'', JStr ''9'')]"

definition run_keys :: key_service where
  "run_keys = snd (registerApiKeyAsync rt1 ''s'' 5 [1, 2] ''tbc_test_a''
     ''EQAjHkHtt1MIoU5c7dks73Rz8NMxAA3oStSrcQ_qgn3il-Le'' [InvoiceRead] (None, None, None) None new_key_service)"

definition run_start :: "(mem_invoices, mem_idempotency) invoice_service" where
  "run_start = new_invoice_service\<lparr>sv_keys := run_keys\<rparr>"

definition run_ctx :: "(mem_invoices, mem_idempotency) invoice_ctx" where
  "run_ctx = mem_ctx rt1 (\<lambda>_. None) ''s''"

definition run_event :: "invoice \<Rightarrow> settlement_event" where
  "run_event v = \<lparr>ev_payer_nft = ''p'', ev_merchant_nft = iv_merchant_nft v, ev_amount_tbc = iv_amount_tbc v,
     ev_payload_hash = expectedHash rt1 v, ev_block_number = 1, ev_tx_hash = ''tx'', ev_timestamp = 0\<rparr>"

definition run_options :: "invoice \<Rightarrow> process_settlement_options" where
  "run_options v = \<lparr>op_attestation = Some (signSettlementEvent rt1 ''k'' (run_event v)),
     op_currentBlockNumber = Some 9, op_indexerSecret = Some ''k''\<rparr>"

definition run_created where
  "run_created = createInvoice_attempt run_ctx (\<lambda>_. 5) (replicate 8 7) run_request ''tbc_test_a'' run_start"

lemma run_facts:
  "case run_created of
     (Done (Inr v), s) \<Rightarrow> mem_get (iv_id v) (sv_invoices s) = Some v \<and> iv_status v = Pending \<and> iv_settlement v = None
       \<and> iv_id v = ''inv_0707070707070707'' \<and> iv_expires_at v = ''9''
       \<and> iv_merchant_nft v = ''EQAjHkHtt1MIoU5c7dks73Rz8NMxAA3oStSrcQ_qgn3il-Le''
       \<and> list_all (\<lambda>(_, r). ir_expiresAt r = Some 86400005) (sv_idem s)
       \<and> persistentStore (sv_keys s) = None
       \<and> fst (isAuthorizedMerchantAsync rt1 ''s'' 6 6 ''tbc_test_a''
            ''EQAjHkHtt1MIoU5c7dks73Rz8NMxAA3oStSrcQ_qgn3il-Le'' (sv_keys s)) = Inr True
   | _ \<Rightarrow> False"
  by code_simp

lemma run_obtain:
  obtains v s where "createInvoice_attempt run_ctx (\<lambda>_. 5) (replicate 8 7) run_request ''tbc_test_a'' run_start = (Done (Inr v), s)"
    "mem_get ''inv_0707070707070707'' (sv_invoices s) = Some v" "iv_status v = Pending" "iv_settlement v = None"
    "iv_id v = ''inv_0707070707070707''" "iv_expires_at v = ''9''"
    "iv_merchant_nft v = ''EQAjHkHtt1MIoU5c7dks73Rz8NMxAA3oStSrcQ_qgn3il-Le''"
    "list_all (\<lambda>(_, r). ir_expiresAt r = Some 86400005) (sv_idem s)" "persistentStore (sv_keys s) = None"
    "fst (isAuthorizedMerchantAsync rt1 ''s'' 6 6 ''tbc_test_a''
       ''EQAjHkHtt1MIoU5c7dks73Rz8NMxAA3oStSrcQ_qgn3il-Le'' (sv_keys s)) = Inr True"
  using run_facts by (auto simp: run_created_def split: prod.splits attempt.splits sum.splits)

lemma run_start_reach: "mem_reach rt1 (\<lambda>_. None) ''s'' run_start"
proof -
  have "key_step rt1 ''s'' new_key_service run_keys" unfolding run_keys_def by (rule key_step.register)
  then have "svc_step (mem_ctx rt1 (\<lambda>_. None) ''s'') 0 new_invoice_service run_start"
    using svc_step.keys [of "mem_ctx rt1 (\<lambda>_. None) ''s''" new_invoice_service run_keys 0]
    by (simp add: run_start_def new_invoice_service_def)
  then show ?thesis by (rule svc_reach.later [OF svc_reach.start])
qed

lemma run_step:
  assumes "createInvoice_attempt run_ctx (\<lambda>_. 5) (replicate 8 7) run_request ''tbc_test_a'' run_start = (Done (Inr v), s)"
  shows "svc_step (mem_ctx rt1 (\<lambda>_. None) ''s'') 5 run_start s" "mem_reach rt1 (\<lambda>_. None) ''s'' s"
proof -
  show "svc_step (mem_ctx rt1 (\<lambda>_. None) ''s'') 5 run_start s"
    by (rule svc_step.create [where fuel = "Suc 0" and clk = "\<lambda>_ _. 5" and rnd = "\<lambda>_. replicate 8 7"
          and request = run_request and key = "''tbc_test_a''" and r = "Inr v"])
      (use assms in \<open>simp_all add: createInvoice_def run_ctx_def run_start_def new_invoice_service_def mem_get_def\<close>)
  then show "mem_reach rt1 (\<lambda>_. None) ''s'' s" by (rule svc_reach.later [OF run_start_reach])
qed

text \<open>The canonical payload whose hash the event carries.\<close>

definition invoice_payload :: "invoice \<Rightarrow> string" where
  "invoice_payload u = or_empty (canonicalize (JObj (amap_set ''invoice_id'' (JStr (iv_id u))
     (case iv_metadata u of None \<Rightarrow> [] | Some md \<Rightarrow> md))))"

section \<open>Properties\<close>

text \<open>
  C4. Every stored invoice is well formed in every reachable state of the service: it is stored
  under its own identifier, its merchant is whitelisted, its amount is a canonical positive amount,
  it never carries a metadata key that could shadow its identifier, and it is settled exactly
  when it carries a settlement, which is final (at least six confirmations), on-chain verified and
  agrees with the invoice in merchant, amount and payload hash.
\<close>

theorem invoice_invariant:
  assumes "mem_reach rt env secret s" "mem_get i (sv_invoices s) = Some v"
  shows "iv_id v = i \<and> invoice_ok rt v"
  using mem_reach_inv [OF assms(1)] assms(2) mem_ok_get by (auto simp: mem_get_def)

theorem invoice_invariant_witness:
  "\<exists>s v. mem_reach rt1 (\<lambda>_. None) ''s'' s \<and> mem_get ''inv_0707070707070707'' (sv_invoices s) = Some v \<and> invoice_ok rt1 v \<and> iv_status v = Pending"
proof -
  obtain v s where run: "createInvoice_attempt run_ctx (\<lambda>_. 5) (replicate 8 7) run_request ''tbc_test_a'' run_start = (Done (Inr v), s)"
    and v: "mem_get ''inv_0707070707070707'' (sv_invoices s) = Some v" "iv_status v = Pending" by (rule run_obtain)
  from invoice_invariant [OF run_step(2) [OF run] v(1)] run_step(2) [OF run] v show ?thesis by blast
qed

text \<open>
  C5. The life cycle of an invoice: no step of the service changes its terms; the status moves
  only from pending to settled (gaining a settlement) or from pending to expired; a settled or
  expired invoice never changes; and an invoice disappears only after its expiry instant.
\<close>

theorem invoice_lifecycle:
  assumes "mem_reach rt env secret s" "svc_step (mem_ctx rt env secret) T s s'"
    and "mem_get i (sv_invoices s) = Some v"
  shows "case mem_get i (sv_invoices s') of Some w \<Rightarrow> evolves v w | None \<Rightarrow> isExpired rt T (iv_expires_at v)"
  using mb.svc_step_inv [OF assms(2) mb.svc_reach_inv [OF assms(1) mem_start_inv], of i] assms(3)
  by (simp add: lifecycle_def)

theorem invoice_lifecycle_witness:
  "\<exists>s s' v. svc_step (mem_ctx rt1 (\<lambda>_. None) ''s'') 6 s s' \<and> mem_get ''inv_0707070707070707'' (sv_invoices s) = Some v
     \<and> (case mem_get ''inv_0707070707070707'' (sv_invoices s') of Some w \<Rightarrow> evolves v w | None \<Rightarrow> isExpired rt1 6 (iv_expires_at v))"
proof -
  obtain v s where run: "createInvoice_attempt run_ctx (\<lambda>_. 5) (replicate 8 7) run_request ''tbc_test_a'' run_start = (Done (Inr v), s)"
    and v: "mem_get ''inv_0707070707070707'' (sv_invoices s) = Some v" by (rule run_obtain)
  have step: "svc_step (mem_ctx rt1 (\<lambda>_. None) ''s'') 6 s (snd (cleanupExpiredInvoices (mem_ctx rt1 (\<lambda>_. None) ''s'') (\<lambda>_. 6) s))"
    by (rule svc_step.cleanup) simp
  from invoice_lifecycle [OF run_step(2) [OF run] step v] step v show ?thesis by blast
qed

text \<open>
  C6. Settlement is exact. The service reports an invoice settled if and only if the event carries
  the HMAC of its canonical form under the indexer secret, the chain head is known and at least six
  blocks above the event, and some pending invoice has the event's merchant, amount and payload
  hash; then exactly one such invoice changes, to settled with the event's proof. In every
  other case nothing changes.
\<close>

theorem settlement_exact:
  assumes "mem_reach rt env secret s" "processSettlementEvent (mem_ctx rt env secret) now e opts s = (res, s')"
    and "\<And>x. settlement_secret env opts = Inr x \<Longrightarrow> signSettlementEvent rt x e \<noteq> []"
  shows "((\<exists>r. res = Inr r \<and> pr_settled r) \<longleftrightarrow>
      (\<exists>x b i v. settlement_secret env opts = Inr x \<and> op_attestation opts = Some (signSettlementEvent rt x e)
         \<and> op_currentBlockNumber opts = Some b \<and> 6 \<le> b - ev_block_number e
         \<and> mem_get i (sv_invoices s) = Some v \<and> event_matches rt e v))
    \<and> ((\<exists>r. res = Inr r \<and> pr_settled r) \<longrightarrow>
      (\<exists>b i v. res = Inr \<lparr>pr_settled = True, pr_reason = None, pr_invoiceId = Some i\<rparr>
         \<and> op_currentBlockNumber opts = Some b
         \<and> mem_get i (sv_invoices s) = Some v \<and> event_matches rt e v
         \<and> (\<forall>j. mem_get j (sv_invoices s') = (if j = i
              then Some (v\<lparr>iv_status := Settled, iv_settlement := Some (settlement_of rt e (b - ev_block_number e))\<rparr>)
              else mem_get j (sv_invoices s)))))
    \<and> (\<not> (\<exists>r. res = Inr r \<and> pr_settled r) \<longrightarrow> s' = s)"
proof -
  note ok = mem_reach_inv(1) [OF assms(1)]
  note res = mb.processSettlement_result [OF ok assms(2)]
  have conv: "\<exists>r. res = Inr r \<and> pr_settled r"
    if "settlement_secret env opts = Inr x" "op_attestation opts = Some (signSettlementEvent rt x e)"
      "op_currentBlockNumber opts = Some b" "6 \<le> b - ev_block_number e"
      "mem_get i (sv_invoices s) = Some v" "event_matches rt e v" for x b i v
    using mb.processSettlement_complete [where env = env and rt = rt and secret = x and secreta = secret, OF ok, of opts e b i v now]
      that assms(2,3) by (auto simp: MIN_CONFIRMATIONS_def)
  consider (refused) "s' = s" "\<forall>r. res = Inr r \<longrightarrow> \<not> pr_settled r"
    | (paid) x b i v where "settlement_secret env opts = Inr x" "op_attestation opts = Some (signSettlementEvent rt x e)"
      "op_currentBlockNumber opts = Some b" "6 \<le> b - ev_block_number e"
      "mem_get i (sv_invoices s) = Some v" "event_matches rt e v"
      "res = Inr \<lparr>pr_settled = True, pr_reason = None, pr_invoiceId = Some i\<rparr>"
      "\<forall>j. mem_get j (sv_invoices s') = (if j = i
          then Some (v\<lparr>iv_status := Settled, iv_settlement := Some (settlement_of rt e (b - ev_block_number e))\<rparr>)
          else mem_get j (sv_invoices s))"
    using res unfolding mem_ctx_simps mem_get_op MIN_CONFIRMATIONS_def by blast
  then show ?thesis
  proof cases
    case refused
    then show ?thesis using conv by blast
  next
    case paid
    then have "\<exists>r. res = Inr r \<and> pr_settled r" by simp
    with paid show ?thesis by blast
  qed
qed

theorem settlement_exact_witness:
  "\<exists>s s' v r. mem_reach rt1 (\<lambda>_. None) ''s'' s \<and> mem_get ''inv_0707070707070707'' (sv_invoices s) = Some v
     \<and> processSettlementEvent (mem_ctx rt1 (\<lambda>_. None) ''s'') 6 (run_event v) (run_options v) s = (Inr r, s') \<and> pr_settled r"
proof -
  obtain v s where run: "createInvoice_attempt run_ctx (\<lambda>_. 5) (replicate 8 7) run_request ''tbc_test_a'' run_start = (Done (Inr v), s)"
    and v: "mem_get ''inv_0707070707070707'' (sv_invoices s) = Some v" "iv_status v = Pending" by (rule run_obtain)
  obtain res s' where p: "processSettlementEvent (mem_ctx rt1 (\<lambda>_. None) ''s'') 6 (run_event v) (run_options v) s = (res, s')"
    by fastforce
  have sec: "settlement_secret (\<lambda>_. None) (run_options v) = Inr ''k''"
    by (simp add: settlement_secret_def run_options_def)
  have sign: "signSettlementEvent rt1 ''k'' (run_event v) \<noteq> []"
    by (simp add: signSettlementEvent_def canonicalizeSettlementEvent_def rt1_def or_empty_def json_braces_def byte_hex_def)
  have m: "event_matches rt1 (run_event v) v" using v(2) by (simp add: event_matches_def run_event_def)
  have "\<exists>r. res = Inr r \<and> pr_settled r"
  proof (rule settlement_exact [OF run_step(2) [OF run] p, THEN conjunct1, THEN iffD2])
    show "signSettlementEvent rt1 x (run_event v) \<noteq> []" if "settlement_secret (\<lambda>_. None) (run_options v) = Inr x" for x
      using that sec sign by simp
    show "\<exists>x b i w. settlement_secret (\<lambda>_. None) (run_options v) = Inr x
        \<and> op_attestation (run_options v) = Some (signSettlementEvent rt1 x (run_event v))
        \<and> op_currentBlockNumber (run_options v) = Some b \<and> 6 \<le> b - ev_block_number (run_event v)
        \<and> mem_get i (sv_invoices s) = Some w \<and> event_matches rt1 (run_event v) w"
      using sec v(1) m
      by (intro exI [of _ "''k''"] exI [of _ 9] exI [of _ "''inv_0707070707070707''"] exI [of _ v])
        (simp add: run_options_def run_event_def)
  qed
  with p v(1) run_step(2) [OF run] show ?thesis by blast
qed

text \<open>
  A payload hash identifies one invoice: where SHA-256 does not collide on the two canonical
  payloads, two invoices that the same event matches have the same identifier, whatever their
  metadata say, so an event can settle only the invoice it was made for.
\<close>

theorem payload_hash_identifies_invoice:
  assumes m: "event_matches rt e v" "event_matches rt e w"
    and keys: "amap_wf (case iv_metadata v of None \<Rightarrow> [] | Some md \<Rightarrow> md)" "amap_wf (case iv_metadata w of None \<Rightarrow> [] | Some md \<Rightarrow> md)"
    and no_collision: "\<And>x y. x = invoice_payload v \<Longrightarrow> y = invoice_payload w \<Longrightarrow> sha256 rt x = sha256 rt y \<Longrightarrow> x = y"
  shows "iv_id v = iv_id w"
proof -
  let ?md = "\<lambda>u. amap_set ''invoice_id'' (JStr (iv_id u)) (case iv_metadata u of None \<Rightarrow> [] | Some md \<Rightarrow> md)"
  have "sha256 rt (invoice_payload v) = sha256 rt (invoice_payload w)"
    using m by (simp add: event_matches_def expectedHash_def hashMetadata_def invoice_payload_def)
  with no_collision have "invoice_payload v = invoice_payload w" by blast
  then have "json_norm (JObj (?md v)) = json_norm (JObj (?md w))"
    unfolding canonicalize_eq_iff [symmetric] by (simp add: invoice_payload_def or_empty_def)
  from json_norm_field [OF this, of "''invoice_id''"] keys
  have "json_norm (jget ''invoice_id'' (JObj (?md v))) = json_norm (jget ''invoice_id'' (JObj (?md w)))"
    by (simp add: amap_wf_def [symmetric] amap_wf_set)
  moreover have "jget ''invoice_id'' (JObj (?md u)) = JStr (iv_id u)" for u
    by (simp add: amap_get_set flip: amap_get_def)
  ultimately have "json_norm (JStr (iv_id v)) = json_norm (JStr (iv_id w))" by metis
  then show ?thesis by simp
qed

definition inv0 :: invoice where
  "inv0 = \<lparr>iv_id = ''inv_1'', iv_merchant_nft = ''m'', iv_amount_tbc = ''5'', iv_currency = ''TBC'',
     iv_metadata = Some [(''a'', JNum 1)], iv_status = Pending, iv_created_at = ''1'', iv_expires_at = ''9'',
     iv_payment_url = ''u'', iv_settlement = None\<rparr>"

theorem payload_hash_identifies_invoice_witness:
  "event_matches rt1 (run_event inv0) inv0 \<and> event_matches rt1 (run_event inv0) (inv0\<lparr>iv_expires_at := ''8''\<rparr>)
   \<and> iv_id inv0 = iv_id (inv0\<lparr>iv_expires_at := ''8''\<rparr>)"
proof -
  have m: "event_matches rt1 (run_event inv0) inv0" "event_matches rt1 (run_event inv0) (inv0\<lparr>iv_expires_at := ''8''\<rparr>)"
    by (simp_all add: event_matches_def run_event_def inv0_def expectedHash_def)
  have "iv_id inv0 = iv_id (inv0\<lparr>iv_expires_at := ''8''\<rparr>)"
    by (rule payload_hash_identifies_invoice [OF m]) (simp_all add: inv0_def amap_wf_def rt1_def rt0_def)
  with m show ?thesis by blast
qed

text \<open>
  C7. Creation is idempotent: after a request has been answered with an invoice, the same request
  under the same key is answered with the same invoice and creates none, as long as the
  idempotency record and the invoice are alive, the key is still authorised and the request still
  validates.
\<close>

theorem create_idempotent:
  assumes reach: "mem_reach rt env secret s"
    and first: "createInvoice_attempt (mem_ctx rt env secret) clk bytes request key s = (Done (Inr v), s1)"
  defines "ikey \<equiv> generateIdempotencyKey rt request (map_option ak_id (key_record rt secret key (sv_keys s1)))"
  assumes live: "\<And>r. amap_get ikey (sv_idem s1) = Some r \<Longrightarrow> \<not> date_lt (ir_expiresAt r) (clk' 0 4)"
      "\<not> isExpired rt (clk' 0 5) (iv_expires_at v)"
    and valid: "validateCreateInvoiceRequest rt (clk' 0 0) request = Inr ()"
    and auth: "fst (isAuthorizedMerchantAsync rt secret (clk' 0 1) (clk' 0 2) key (jstr (jget ''merchant_nft'' request)) (sv_keys s1)) = Inr True"
    and kid: "\<exists>k. getKeyIdAsync rt secret (clk' 0 3) key (snd (isAuthorizedMerchantAsync rt secret (clk' 0 1) (clk' 0 2) key
        (jstr (jget ''merchant_nft'' request)) (sv_keys s1))) = Inr k"
  shows "\<exists>s2. createInvoice (Suc n) (mem_ctx rt env secret) clk' rnd' request key s1 = Some (Inr v, s2)
    \<and> sv_invoices s2 = sv_invoices s1"
proof -
  note ok = mem_reach_inv(1,2) [OF reach]
  obtain nv rq where new: "new_invoice rt clk bytes request = (nv, rq)" by fastforce
  note eff = mb.createInvoice_attempt_effect [OF ok _ first, unfolded mem_ctx_simps, OF new]
  have keep: "key_record rt secret key (sv_keys s1) = key_record rt secret key (sv_keys s)"
    and post: "\<exists>r. amap_get ikey (sv_idem s1) = Some r \<and> ir_invoiceId r = iv_id v \<and> mem_get (iv_id v) (sv_invoices s1) = Some v"
  proof -
    obtain ks where ks: "key_record rt secret key ks = key_record rt secret key (sv_keys s)"
      and run: "reuseOrPublish (mem_ctx rt env secret) clk bytes request (generateIdempotencyKey rt request
          (map_option ak_id (key_record rt secret key (sv_keys s)))) (s\<lparr>sv_keys := ks\<rparr>) = (Done (Inr v), s1)"
      using mb.attempt_reaches_stores [OF first] unfolding mem_ctx_simps by (metis attempt.inject(1) sum.distinct(1))
    have "sv_keys s1 = ks" using reuse_keys [of "mem_ctx rt env secret" clk bytes request] run
      by (metis invoice_service.select_convs(1) invoice_service.surjective invoice_service.update_convs(1) snd_conv)
    with ks show "key_record rt secret key (sv_keys s1) = key_record rt secret key (sv_keys s)" by simp
    with mb.reuse_done [OF _ _ run] ok
    show "\<exists>r. amap_get ikey (sv_idem s1) = Some r \<and> ir_invoiceId r = iv_id v \<and> mem_get (iv_id v) (sv_invoices s1) = Some v"
      by (simp add: ikey_def)
  qed
  then obtain r where r: "amap_get ikey (sv_idem s1) = Some r" "ir_invoiceId r = iv_id v" "mem_get (iv_id v) (sv_invoices s1) = Some v"
    by blast
  from kid obtain k where k: "getKeyIdAsync rt secret (clk' 0 3) key (snd (isAuthorizedMerchantAsync rt secret (clk' 0 1) (clk' 0 2) key
        (jstr (jget ''merchant_nft'' request)) (sv_keys s1))) = Inr k" ..
  have "\<exists>s2. createInvoice_attempt (mem_ctx rt env secret) (clk' 0) (rnd' 0) request key s1 = (Done (Inr v), s2)
      \<and> sv_invoices s2 = sv_invoices s1"
    by (rule mb.attempt_replay [unfolded mem_ctx_simps mem_get_op, OF eff(1,2) r(1) [unfolded ikey_def] live(1) [OF r(1)] _ live(2) valid auth k])
      (simp add: r)
  then show ?thesis by (auto simp: createInvoice_def)
qed

lemma run_request_valid: "validateCreateInvoiceRequest rt1 6 run_request = Inr ()"
  by code_simp

lemma run_merchant: "jstr (jget ''merchant_nft'' run_request) = ''EQAjHkHtt1MIoU5c7dks73Rz8NMxAA3oStSrcQ_qgn3il-Le''"
  by (simp add: run_request_def)

lemma rt1_date: "dateParse rt1 ''9'' = Some 9" by code_simp

lemma check_keeps_store: "persistentStore (snd (isAuthorizedMerchantAsync rt secret now now2 p m ks)) = persistentStore ks"
  by (auto simp: isAuthorizedMerchantAsync_def isAuthorizedMerchant_def Let_def
      split: option.splits sum.splits exn.splits prod.splits)

theorem create_idempotent_witness:
  "\<exists>s1 s2 v. mem_get ''inv_0707070707070707'' (sv_invoices s1) = Some v
     \<and> createInvoice 1 (mem_ctx rt1 (\<lambda>_. None) ''s'') (\<lambda>_ _. 6) (\<lambda>_. replicate 8 8) run_request ''tbc_test_a'' s1 = Some (Inr v, s2)
     \<and> sv_invoices s2 = sv_invoices s1"
proof -
  obtain v s where run: "createInvoice_attempt run_ctx (\<lambda>_. 5) (replicate 8 7) run_request ''tbc_test_a'' run_start = (Done (Inr v), s)"
    and v: "mem_get ''inv_0707070707070707'' (sv_invoices s) = Some v" and e: "iv_expires_at v = ''9''"
    and idem: "list_all (\<lambda>(_, r). ir_expiresAt r = Some 86400005) (sv_idem s)" and mem: "persistentStore (sv_keys s) = None"
    and auth: "fst (isAuthorizedMerchantAsync rt1 ''s'' 6 6 ''tbc_test_a''
       ''EQAjHkHtt1MIoU5c7dks73Rz8NMxAA3oStSrcQ_qgn3il-Le'' (sv_keys s)) = Inr True" by (rule run_obtain)
  have "\<exists>s2. createInvoice (Suc 0) (mem_ctx rt1 (\<lambda>_. None) ''s'') (\<lambda>_ _. 6) (\<lambda>_. replicate 8 8) run_request ''tbc_test_a'' s
      = Some (Inr v, s2) \<and> sv_invoices s2 = sv_invoices s"
  proof (rule create_idempotent [OF run_start_reach run [unfolded run_ctx_def]])
    show "\<not> date_lt (ir_expiresAt r) 6"
      if "amap_get (generateIdempotencyKey rt1 run_request (map_option ak_id (key_record rt1 ''s'' ''tbc_test_a'' (sv_keys s)))) (sv_idem s) = Some r" for r
      using idem that by (auto simp: amap_get_def list_all_iff dest!: map_of_SomeD)
    show "\<not> isExpired rt1 6 (iv_expires_at v)" by (simp add: isExpired_def e rt1_date)
    show "\<exists>k. getKeyIdAsync rt1 ''s'' 6 ''tbc_test_a'' (snd (isAuthorizedMerchantAsync rt1 ''s'' 6 6 ''tbc_test_a''
        (jstr (jget ''merchant_nft'' run_request)) (sv_keys s))) = Inr k"
      by (simp add: getKeyIdAsync_def check_keeps_store mem)
  qed (use run_request_valid auth run_merchant in simp_all)
  with v show ?thesis by auto
qed

text \<open>
  C8. Creation terminates: whatever the two stores hold (any invoices under their identifiers and any
  idempotency records, among them records whose invoice is gone, as a clean-up or another process
  leaves them), a caller that runs undisturbed needs at most two passes, provided the
  expiry chosen in the first pass is still in the future when it is checked, so that the request is
  not rewritten. A pass that meets a stale record and starts over repeats the same request and has deleted the
  record of its idempotency key, so the next pass finds none.
\<close>

theorem createInvoice_two_attempts:
  assumes "mem_ok (sv_invoices s)" "amap_wf (sv_idem s)" "snd (new_invoice rt (clk 0) (rnd 0) request) = request"
  shows "(\<exists>r s'. createInvoice (2 + n) (mem_ctx rt env secret) clk rnd request key s = Some (r, s'))
    \<and> (\<forall>rq s1. createInvoice_attempt (mem_ctx rt env secret) (clk 0) (rnd 0) request key s = (Again rq, s1) \<longrightarrow>
        rq = request \<and> amap_get (generateIdempotencyKey rt request (map_option ak_id (key_record rt secret key (sv_keys s))))
          (sv_idem s1) = None)"
proof -
  obtain v where new: "new_invoice rt (clk 0) (rnd 0) request = (v, request)" using assms(3) by (metis prod.collapse)
  show ?thesis
    using mb.createInvoice_two [OF assms(1,2), where rt = rt and clk = clk and rnd = rnd and request = request] assms(3)
      mb.attempt_again [OF assms(1,2), where rt = rt] new by simp
qed

text \<open>A record of the request that names an invoice the store does not have: the first pass starts over, the second creates.\<close>

definition run_dangling :: "(mem_invoices, mem_idempotency) invoice_service" where
  "run_dangling = run_start\<lparr>sv_idem := [(generateIdempotencyKey rt1 run_request (map_option ak_id (key_record rt1 ''s'' ''tbc_test_a'' run_keys)),
     \<lparr>ir_invoiceId = ''gone'', ir_expiresAt = Some 99\<rparr>)]\<rparr>"

definition run_again where
  "run_again = createInvoice_attempt run_ctx (\<lambda>_. 6) (replicate 8 8) run_request ''tbc_test_a'' run_dangling"

lemma run_again_facts: "case run_again of (Again rq, s) \<Rightarrow> sv_invoices s = [] | _ \<Rightarrow> False"
  by code_simp

theorem createInvoice_two_attempts_witness:
  "createInvoice 1 (mem_ctx rt1 (\<lambda>_. None) ''s'') (\<lambda>_ _. 6) (\<lambda>_. replicate 8 8) run_request ''tbc_test_a'' run_dangling = None
   \<and> (\<exists>r s'. createInvoice 2 (mem_ctx rt1 (\<lambda>_. None) ''s'') (\<lambda>_ _. 6) (\<lambda>_. replicate 8 8) run_request ''tbc_test_a'' run_dangling = Some (r, s'))"
proof -
  obtain rq s1 where again: "createInvoice_attempt (mem_ctx rt1 (\<lambda>_. None) ''s'') (\<lambda>_. 6) (replicate 8 8) run_request ''tbc_test_a'' run_dangling = (Again rq, s1)"
    using run_again_facts by (auto simp: run_again_def run_ctx_def split: prod.splits attempt.splits)
  have "validateExpirationTime rt1 6 (JStr ''9'') = Inr True"
    by (simp add: validateExpirationTime_accepts rt1_date)
  then have "snd (new_invoice rt1 (\<lambda>_. 6) (replicate 8 8) run_request) = run_request"
    by (simp add: new_invoice_def Let_def run_request_def)
  moreover have "mem_ok (sv_invoices run_dangling)" "amap_wf (sv_idem run_dangling)"
    by (simp_all add: run_dangling_def run_start_def new_invoice_service_def mem_ok_def amap_wf_def)
  ultimately have "\<exists>r s'. createInvoice 2 (mem_ctx rt1 (\<lambda>_. None) ''s'') (\<lambda>_ _. 6) (\<lambda>_. replicate 8 8) run_request ''tbc_test_a'' run_dangling = Some (r, s')"
    using createInvoice_two_attempts [of run_dangling rt1 "\<lambda>_ _. 6" "\<lambda>_. replicate 8 8" run_request 0] by simp
  moreover have "createInvoice (Suc 0) (mem_ctx rt1 (\<lambda>_. None) ''s'') (\<lambda>_ _. 6) (\<lambda>_. replicate 8 8) run_request ''tbc_test_a'' run_dangling = None"
    using again by (simp add: createInvoice_def)
  ultimately show ?thesis by simp
qed

text \<open>
  Object-level authorisation: the merchant's two read operations hand out an invoice, or its
  status with the settlement, only to a key whose record is active, bound to the merchant of that
  invoice and unexpired up to the cache lifetime; the record returned is the stored one.
\<close>

theorem merchant_reads_authorized:
  assumes "mem_reach rt env secret s" "hex_digests rt secret" "clk 2 \<le> clk 3"
  shows "(\<forall>v s'. getInvoiceDetail (mem_ctx rt env secret) clk i key s = (Inr v, s') \<longrightarrow>
      mem_get i (sv_invoices s') = Some v \<and> (\<exists>k. key_record rt secret key (sv_keys s) = Some k \<and> ak_is_active k
        \<and> ak_merchant_nft k = iv_merchant_nft v \<and> \<not> key_expired rt (clk 2 - AUTH_CACHE_TTL_MS) k))
    \<and> (\<forall>q s'. getInvoiceStatus (mem_ctx rt env secret) clk i key s = (Inr q, s') \<longrightarrow>
      (\<exists>v k. mem_get i (sv_invoices s') = Some v \<and> sr_settlement q = iv_settlement v \<and> sr_status q = iv_status v
        \<and> key_record rt secret key (sv_keys s) = Some k \<and> ak_is_active k
        \<and> ak_merchant_nft k = iv_merchant_nft v \<and> \<not> key_expired rt (clk 2 - AUTH_CACHE_TTL_MS) k))"
proof -
  note ok = mem_reach_inv(1) [OF assms(1)] and keys = mem_reach_keys [OF assms(1,2)]
  have base: "mem_get i (sv_invoices s') = Some v \<and> (\<exists>k. key_record rt secret key (sv_keys s) = Some k \<and> ak_is_active k
        \<and> ak_merchant_nft k = iv_merchant_nft v \<and> \<not> key_expired rt (clk 2 - AUTH_CACHE_TTL_MS) k)"
    if run: "authorizedInvoice (mem_ctx rt env secret) clk i key s = (Inr v, s')" for v s'
  proof -
    obtain r s1 where g: "getInvoice (mem_ctx rt env secret) clk i s = (r, s1)" by fastforce
    with run have r: "r = Inr v" by (cases r) (auto simp: authorizedInvoice_def split: prod.splits sum.splits bool.splits)
    have "sv_invoices s' = sv_invoices s1" using mb.authorizedInvoice_state [of rt env secret clk i key s] run g by simp
    with mb.getInvoice_effect(4) [OF ok g r] mb.authorizedInvoice_sound [OF _ _ _ ok run] keys assms(2,3)
    show ?thesis by simp
  qed
  show ?thesis
    using base by (auto simp: getInvoiceDetail_def getInvoiceStatus_def split: prod.splits sum.splits)
qed

theorem merchant_reads_authorized_witness:
  "\<exists>s v s'. getInvoiceDetail (mem_ctx rt1 (\<lambda>_. None) ''s'') (\<lambda>_. 6) ''inv_0707070707070707'' ''tbc_test_a'' s = (Inr v, s')
     \<and> (\<exists>k. key_record rt1 ''s'' ''tbc_test_a'' (sv_keys s) = Some k \<and> ak_merchant_nft k = iv_merchant_nft v)"
proof -
  obtain v s where run: "createInvoice_attempt run_ctx (\<lambda>_. 5) (replicate 8 7) run_request ''tbc_test_a'' run_start = (Done (Inr v), s)"
    and v: "mem_get ''inv_0707070707070707'' (sv_invoices s) = Some v" "iv_expires_at v = ''9''"
      "iv_merchant_nft v = ''EQAjHkHtt1MIoU5c7dks73Rz8NMxAA3oStSrcQ_qgn3il-Le''"
    and auth: "fst (isAuthorizedMerchantAsync rt1 ''s'' 6 6 ''tbc_test_a''
       ''EQAjHkHtt1MIoU5c7dks73Rz8NMxAA3oStSrcQ_qgn3il-Le'' (sv_keys s)) = Inr True" by (rule run_obtain)
  have id: "validateInvoiceId (JStr ''inv_0707070707070707'') = Inr True" by code_simp
  have "getInvoice (mem_ctx rt1 (\<lambda>_. None) ''s'') (\<lambda>_. 6) ''inv_0707070707070707'' s = (Inr v, s)"
    by (simp add: getInvoice_def id v expire_if_due_def isExpired_def rt1_date)
  moreover obtain ks where "isAuthorizedMerchantAsync rt1 ''s'' 6 6 ''tbc_test_a''
       ''EQAjHkHtt1MIoU5c7dks73Rz8NMxAA3oStSrcQ_qgn3il-Le'' (sv_keys s) = (Inr True, ks)"
    using auth by (metis prod.collapse)
  ultimately have d: "getInvoiceDetail (mem_ctx rt1 (\<lambda>_. None) ''s'') (\<lambda>_. 6) ''inv_0707070707070707'' ''tbc_test_a'' s = (Inr v, s\<lparr>sv_keys := ks\<rparr>)"
    using v(3) by (simp add: getInvoiceDetail_def authorizedInvoice_def)
  with merchant_reads_authorized [OF run_step(2) [OF run] rt1_hex, of "\<lambda>_. 6" "''inv_0707070707070707''" "''tbc_test_a''"]
  show ?thesis by blast
qed

lemma expire_if_due_mem:
  assumes "mem_get i st = Some v"
  shows "fst (expire_if_due (mem_ctx rt env secret) now now2 i v st) =
    (if isExpired rt now (iv_expires_at v) \<and> iv_status v = Pending \<and> transition_applies rt now2 Pending Expired v
     then v\<lparr>iv_status := Expired\<rparr> else v)"
  using assms
  by (auto simp: expire_if_due_def InMemoryInvoiceStorage_def mem_transition_eq mem_get_def split: option.split)

lemma public_view_fields:
  "toPublicView v = toPublicView w \<longleftrightarrow> iv_id v = iv_id w \<and> iv_amount_tbc v = iv_amount_tbc w \<and> iv_currency v = iv_currency w
     \<and> iv_status v = iv_status w \<and> iv_created_at v = iv_created_at w \<and> iv_expires_at v = iv_expires_at w
     \<and> iv_payment_url v = iv_payment_url w"
  by (auto simp: toPublicView_def)

text \<open>
  The unauthenticated read leaks nothing but the payer's fields: if two services agree on the
  payer-facing projection of every invoice, the public read gives the same answer on both, so it
  depends neither on the merchant, nor on metadata, nor on settlements, keys or idempotency records.
\<close>

theorem public_view_confidential:
  assumes "\<And>j. map_option toPublicView (mem_get j (sv_invoices s)) = map_option toPublicView (mem_get j (sv_invoices t))"
  shows "fst (getPublicInvoice (mem_ctx rt env secret) clk i s) = fst (getPublicInvoice (mem_ctx rt env' secret') clk i t)"
proof (cases "mem_get i (sv_invoices s)")
  case None
  with assms [of i] have "mem_get i (sv_invoices t) = None" by simp
  with None show ?thesis by (auto simp: getPublicInvoice_def getInvoice_def split: sum.split)
next
  case (Some v)
  with assms [of i] obtain w where w: "mem_get i (sv_invoices t) = Some w" "toPublicView v = toPublicView w"
    by (cases "mem_get i (sv_invoices t)") auto
  have "toPublicView (fst (expire_if_due (mem_ctx rt env secret) (clk 0) (clk 1) i v (sv_invoices s)))
      = toPublicView (fst (expire_if_due (mem_ctx rt env' secret') (clk 0) (clk 1) i w (sv_invoices t)))"
    using w(2) unfolding expire_if_due_mem [OF Some] expire_if_due_mem [OF w(1)] public_view_fields
    by (simp add: transition_applies_def)
  with Some w(1) show ?thesis
    by (auto simp: getPublicInvoice_def getInvoice_def split: sum.split prod.split)
qed

theorem public_view_confidential_witness:
  "fst (getPublicInvoice (mem_ctx rt1 (\<lambda>_. None) ''s'') (\<lambda>_. 6) ''inv_1'' \<lparr>sv_keys = new_key_service, sv_invoices = [(''inv_1'', inv0)], sv_idem = []\<rparr>)
   = fst (getPublicInvoice (mem_ctx rt1 (\<lambda>_. None) ''s'') (\<lambda>_. 6) ''inv_1''
       \<lparr>sv_keys = new_key_service, sv_invoices = [(''inv_1'', inv0\<lparr>iv_merchant_nft := ''other'', iv_metadata := None\<rparr>)], sv_idem = []\<rparr>)"
  by (rule public_view_confidential) (simp add: mem_get_def amap_get_def inv0_def toPublicView_def)

text \<open>
  Clean-up is safe and complete: a settled invoice is kept as it is; an invoice is removed only
  if it is not settled and its expiry lies more than seven days back; afterwards every idempotency
  record left is one that was there before and points to a stored invoice, and no record with a
  stored invoice was dropped.
\<close>

theorem cleanup_safe:
  assumes "mem_reach rt env secret s" "cleanupExpiredInvoices (mem_ctx rt env secret) clk s = (counts, s')"
  shows "(\<forall>i v. mem_get i (sv_invoices s) = Some v \<longrightarrow>
      (iv_status v = Settled \<longrightarrow> mem_get i (sv_invoices s') = Some v)
      \<and> (mem_get i (sv_invoices s') = None \<longrightarrow>
          iv_status v \<noteq> Settled \<and> (\<exists>e. dateParse rt (iv_expires_at v) = Some e \<and> clk 0 - e > 7 * 86400000)))
    \<and> (\<forall>k r. amap_get k (sv_idem s') = Some r \<longleftrightarrow>
        amap_get k (sv_idem s) = Some r \<and> mem_get (ir_invoiceId r) (sv_invoices s') \<noteq> None)"
proof -
  note ok = mem_reach_inv(1,2) [OF assms(1)]
  note res = mb.cleanup_result [OF ok assms(2)]
  have entries: "ii_entries (cx_ii (mem_ctx rt env secret)) = Some memi_entries"
    by (simp add: InMemoryIdempotencyStorage_def)
  have "(iv_status v = Settled \<longrightarrow> mem_get i (sv_invoices s') = Some v)
      \<and> (mem_get i (sv_invoices s') = None \<longrightarrow>
          iv_status v \<noteq> Settled \<and> (\<exists>e. dateParse rt (iv_expires_at v) = Some e \<and> clk 0 - e > 7 * 86400000))"
    if "mem_get i (sv_invoices s) = Some v" for i v
    using res(5) [of i v] that by (auto simp: long_expired_def split: option.splits)
  moreover have "amap_get k (sv_idem s') = Some r \<longleftrightarrow>
      amap_get k (sv_idem s) = Some r \<and> mem_get (ir_invoiceId r) (sv_invoices s') \<noteq> None" for k r
    using res(6) [OF entries, of k] by (auto split: option.splits if_splits)
  ultimately show ?thesis by blast
qed

theorem cleanup_safe_witness:
  "\<exists>s s'. mem_get ''inv_0707070707070707'' (sv_invoices s) \<noteq> None
     \<and> snd (cleanupExpiredInvoices (mem_ctx rt1 (\<lambda>_. None) ''s'') (\<lambda>_. 6) s) = s'
     \<and> (\<forall>k r. amap_get k (sv_idem s') = Some r \<longrightarrow> mem_get (ir_invoiceId r) (sv_invoices s') \<noteq> None)"
proof -
  obtain v s where run: "createInvoice_attempt run_ctx (\<lambda>_. 5) (replicate 8 7) run_request ''tbc_test_a'' run_start = (Done (Inr v), s)"
    and v: "mem_get ''inv_0707070707070707'' (sv_invoices s) = Some v" by (rule run_obtain)
  obtain c s' where r: "cleanupExpiredInvoices (mem_ctx rt1 (\<lambda>_. None) ''s'') (\<lambda>_. 6) s = (c, s')" by fastforce
  from cleanup_safe [OF run_step(2) [OF run] r] v r show ?thesis by (intro exI [of _ s] exI [of _ s']) simp
qed

end
