(* ===== verification/Api_Http_Props.thy ===== *)
theory Api_Http_Props
  imports Api_Http Api_Invoice_Props
begin

text \<open>
  What the HTTP front guarantees over every reachable state: a request succeeds on a protected route only for an
  active, unexpired key with the required scope that belongs to the merchant concerned, key management only for the
  holder of the administration token, error replies keep internals to themselves, and an issued key can be used.
\<close>

section \<open>Reachable states\<close>

text \<open>
  The services may have been used before the application is mounted. The clock does not run backwards between the
  two readings of an authorisation check.
\<close>

definition inputs_ok :: "http_inputs \<Rightarrow> bool" where
  "inputs_ok inp \<longleftrightarrow> (\<forall>d. in_clk inp d 1 \<le> in_clk inp d 2) \<and> in_clk inp 0 2 \<le> in_clk inp 0 3"

inductive http_reach :: "('s, 'i, 'l) http_ctx \<Rightarrow> ('s, 'i, 'l) http_state \<Rightarrow> bool" for hc where
  mounted: "key_reach (cx_rt (hc_cx hc)) (cx_secret (hc_cx hc)) (sv_keys (hs_sv st)) \<Longrightarrow> http_reach hc st"
| served: "http_reach hc st \<Longrightarrow> inputs_ok inp \<Longrightarrow> serve hc inp r req st = Some (rep, st') \<Longrightarrow> http_reach hc st'"

section \<open>Limiters and replies\<close>

lemma rateLimitHandler_status [simp]: "fst (rateLimitHandler options ra) = 429"
  by (simp add: rateLimitHandler_def Let_def)

lemma limited_cases:
  assumes "limited hc which b rest st = Some (rep, st')"
  obtains (refused) ra where "rep = rateLimitHandler (options_for hc which) ra" "hs_sv st' = hs_sv st" "hs_log st' = hs_log st"
  | (passed) l st1 where "rest (st\<lparr>hs_limits := l\<rparr>) = Some (rep, st1)" "hs_sv st' = hs_sv st1" "hs_log st' = hs_log st1"
  using assms
  by (auto simp: limited_def Let_def split: prod.splits verdict.splits option.splits)

lemma reply_or_error_sv [simp]: "hs_sv (snd (reply_or_error hc rid req r st)) = hs_sv st"
  by (auto simp: reply_or_error_def split: sum.split prod.split)

lemma getHttpStatus_code: "getHttpStatusForErrorCode (error_code_string c) = ERROR_CODE_HTTP_STATUS c"
  by (simp add: http_status_of_code)

lemma status_ge_400: "400 \<le> ERROR_CODE_HTTP_STATUS c"
  by (cases c) simp_all

lemma error_status: "400 \<le> fst (fst (reply_or_error hc rid req (Inl e) st))"
  by (cases e) (auto simp: reply_or_error_def sendErrorResponse_def Let_def getHttpStatus_code status_ge_400)

lemma reply_success:
  assumes "fst (fst (reply_or_error hc rid req r st)) < 400"
  obtains rep where "r = Inr rep" "reply_or_error hc rid req r st = (rep, st)"
  using assms error_status [of hc rid req _ st] by (cases r) (auto simp: reply_or_error_def not_less [symmetric])

lemma split_two:
  assumes "length (js_split CHR '' '' h) = 2" "js_split CHR '' '' h ! 0 = w"
  shows "h = w @ CHR '' '' # js_split CHR '' '' h ! 1"
proof -
  obtain a b where ab: "js_split CHR '' '' h = [a, b]"
    using assms(1) by (auto simp: numeral_2_eq_2 length_Suc_conv)
  with js_join_split [of "CHR '' ''" h] have "h = a @ CHR '' '' # b" by simp
  with ab assms(2) show ?thesis by simp
qed

section \<open>Keys behind a request\<close>

lemma findAndValidateKeyAsync_record:
  assumes "findAndValidateKeyAsync rt secret now p ks = Inr k"
  shows "key_record rt secret p ks = Some k" "ak_is_active k" "\<not> key_expired rt now k"
  using assms
  by (auto simp: findAndValidateKeyAsync_def findAndValidateKey_def key_record_def split: option.splits if_splits)

lemma touched_record:
  assumes "key_record rt secret p (touchKeyAsync rt now h ks) = Some k"
  obtains k0 where "key_record rt secret p ks = Some k0" "ak_merchant_nft k0 = ak_merchant_nft k"
proof (cases "persistentStore ks")
  case None
  with assms that show thesis
    by (cases "amap_get h (apiKeyRegistry ks)")
      (auto simp: key_record_def touchKeyAsync_def touchKey_def amap_simps split: if_splits)
next
  case (Some t)
  have "pk_get h' (pk_touch rt now h t) = map_option (\<lambda>r. if h' = h then r\<lparr>ak_last_used_at := Some (toISO rt now)\<rparr> else r) (pk_get h' t)" for h'
    by (induction t) (auto simp: pk_get_def pk_touch_def amap_get_def)
  with assms Some that show thesis
    by (fastforce simp: key_record_def touchKeyAsync_def split: if_splits)
qed

lemma touchKeyAsync_inv: "keys_inv rt ks \<Longrightarrow> keys_inv rt (touchKeyAsync rt now h ks)"
  by (auto simp: touchKeyAsync_def keys_inv_touch intro: keys_inv_congI split: option.split)

lemma authenticate_cases:
  assumes "authenticateWithPermission rt secret now now2 perm req ks = (a, ks')"
  obtains (refused) e where "a = Inl e" "ks' = ks"
  | (granted) p k where "a = Inr k" "ks' = touchKeyAsync rt now2 (ak_hash k) ks" "extractApiKey req = Inr p"
      "key_record rt secret p ks = Some k" "ak_is_active k" "\<not> key_expired rt now k" "perm \<in> set (ak_permissions k)"
proof (cases "extractApiKey req")
  case (Inl e)
  with assms have "a = Inl e" "ks' = ks" by (simp_all add: authenticateWithPermission_def)
  then show thesis by (rule refused)
next
  case (Inr p)
  show thesis
  proof (cases "findAndValidateKeyAsync rt secret now p ks")
    case (Inl e)
    with \<open>extractApiKey req = Inr p\<close> assms have "a = Inl e" "ks' = ks" by (simp_all add: authenticateWithPermission_def)
    then show thesis by (rule refused)
  next
    case (Inr k)
    note found = this
    show thesis
    proof (cases "perm \<in> set (ak_permissions k)")
      case True
      with \<open>extractApiKey req = Inr p\<close> found assms have "a = Inr k" "ks' = touchKeyAsync rt now2 (ak_hash k) ks"
        by (simp_all add: authenticateWithPermission_def hasPermission_def)
      with True \<open>extractApiKey req = Inr p\<close> findAndValidateKeyAsync_record [OF found] show thesis by (intro granted)
    next
      case False
      with \<open>extractApiKey req = Inr p\<close> found assms have "\<exists>e. a = Inl e" "ks' = ks"
        by (auto simp: authenticateWithPermission_def hasPermission_def)
      with refused show thesis by blast
    qed
  qed
qed

text \<open>A creation that returns an invoice was authorised on its first pass, for the merchant named in the request.\<close>

lemma createInvoice_authorised:
  assumes "createInvoice fuel cx clk rnd request key s = Some (Inr v, s')"
  shows "fst (isAuthorizedMerchantAsync (cx_rt cx) (cx_secret cx) (clk 0 1) (clk 0 2) key
    (jstr (jget ''merchant_nft'' request)) (sv_keys s)) = Inr True"
proof (rule ccontr)
  assume no: "\<not> ?thesis"
  obtain a ks where a: "isAuthorizedMerchantAsync (cx_rt cx) (cx_secret cx) (clk 0 1) (clk 0 2) key
      (jstr (jget ''merchant_nft'' request)) (sv_keys s) = (a, ks)" by fastforce
  with no have "a \<noteq> Inr True" by simp
  then have "\<exists>e s1. createInvoice_attempt cx (clk 0) (rnd 0) request key s = (Done (Inl e), s1)"
    unfolding createInvoice_attempt_def a by (auto split: sum.split bool.split)
  with assms show False by (cases fuel) (auto simp: createInvoice_def)
qed

lemma authorizedInvoice_authorised:
  assumes "authorizedInvoice cx clk i key s = (Inr v, s')"
  shows "fst (getInvoice cx clk i s) = Inr v"
    "fst (isAuthorizedMerchantAsync (cx_rt cx) (cx_secret cx) (clk 2) (clk 3) key (iv_merchant_nft v) (sv_keys s)) = Inr True"
proof -
  obtain r s1 where g: "getInvoice cx clk i s = (r, s1)" by fastforce
  then have "sv_keys s1 = sv_keys s" using getInvoice_keys [of cx clk i s] by simp
  with assms g show "fst (getInvoice cx clk i s) = Inr v"
    "fst (isAuthorizedMerchantAsync (cx_rt cx) (cx_secret cx) (clk 2) (clk 3) key (iv_merchant_nft v) (sv_keys s)) = Inr True"
    by (auto simp: authorizedInvoice_def split: sum.splits prod.splits bool.splits)
qed

lemma getInvoice_with_keys:
  "fst (getInvoice cx clk i (s\<lparr>sv_keys := ks\<rparr>)) = fst (getInvoice cx clk i s)"
  by (auto simp: getInvoice_def split: sum.split option.split prod.split)

section \<open>The invariant of the key service\<close>

lemma admin_route_cases:
  assumes "admin_route hc req handler st = Some (rep, st')"
  obtains (kept) "hs_sv st' = hs_sv st" "400 \<le> fst rep"
  | (handled) r ks lines where "requireAdminToken (cx_env (hc_cx hc)) req = Inr ()"
      "handler (sv_keys (hs_sv st)) = (r, ks, lines)" "hs_sv st' = (hs_sv st)\<lparr>sv_keys := ks\<rparr>"
      "\<exists>st2. rep = fst (reply_or_error hc None req r st2)"
proof -
  from assms show thesis unfolding admin_route_def
  proof (cases rule: limited_cases)
    case (refused ra)
    with kept show thesis by simp
  next
    case (passed l st1)
    show thesis
    proof (cases "requireAdminToken (cx_env (hc_cx hc)) req")
      case (Inl e)
      with passed have rep: "reply_or_error hc None req (Inl e) (st\<lparr>hs_limits := l\<rparr>) = (rep, st1)" by simp
      from arg_cong [OF rep, of "\<lambda>x. hs_sv (snd x)"] passed(2) have "hs_sv st' = hs_sv st" by simp
      moreover from rep error_status [of hc None req e "st\<lparr>hs_limits := l\<rparr>"] have "400 \<le> fst rep" by simp
      ultimately show thesis by (rule kept)
    next
      case (Inr u)
      obtain r ks lines where h: "handler (sv_keys (hs_sv st)) = (r, ks, lines)" by (metis surj_pair)
      with passed Inr
      have rep: "reply_or_error hc None req r (st\<lparr>hs_limits := l, hs_sv := (hs_sv st)\<lparr>sv_keys := ks\<rparr>, hs_log := hs_log st @ lines\<rparr>) = (rep, st1)"
        by simp
      from arg_cong [OF rep, of "\<lambda>x. hs_sv (snd x)"] have "hs_sv st' = (hs_sv st)\<lparr>sv_keys := ks\<rparr>"
        by (simp add: passed(2))
      moreover from rep have "\<exists>st2. rep = fst (reply_or_error hc None req r st2)" by (metis fst_conv)
      ultimately show thesis using handled h Inr by simp
    qed
  qed
qed

lemma protected_route_cases:
  assumes "protected_route hc perm which inp rid req handler st = Some (rep, st')"
  defines "rt \<equiv> cx_rt (hc_cx hc)" and "secret \<equiv> cx_secret (hc_cx hc)"
  obtains (kept) "hs_sv st' = hs_sv st" "400 \<le> fst rep"
  | (limited) k :: api_key where "hs_sv st' = (hs_sv st)\<lparr>sv_keys := touchKeyAsync rt (in_now2 inp) (ak_hash k) (sv_keys (hs_sv st))\<rparr>" "400 \<le> fst rep"
  | (handled) p k r sv where "extractApiKey req = Inr p" "key_record rt secret p (sv_keys (hs_sv st)) = Some k"
      "ak_is_active k" "\<not> key_expired rt (in_now inp) k" "perm \<in> set (ak_permissions k)"
      "handler ((hs_sv st)\<lparr>sv_keys := touchKeyAsync rt (in_now2 inp) (ak_hash k) (sv_keys (hs_sv st))\<rparr>) = Some (r, sv)"
      "hs_sv st' = sv" "\<exists>st2. rep = fst (reply_or_error hc (Some rid) req r st2)"
  using assms(1) unfolding protected_route_def
proof (cases rule: limited_cases)
  case (refused ra)
  with kept show thesis by simp
next
  case (passed l st1)
  obtain a ks where auth: "authenticateWithPermission rt secret (in_now inp) (in_now2 inp) perm req (sv_keys (hs_sv st)) = (a, ks)"
    by fastforce
  from auth show thesis
  proof (cases rule: authenticate_cases)
    case (refused e)
    with passed auth have rep: "reply_or_error hc (Some rid) req (Inl e) (st\<lparr>hs_limits := l\<rparr>) = (rep, st1)"
      by (simp add: rt_def secret_def)
    from arg_cong [OF rep, of "\<lambda>x. hs_sv (snd x)"] passed(2) have "hs_sv st' = hs_sv st" by simp
    moreover from rep error_status [of hc "Some rid" req e "st\<lparr>hs_limits := l\<rparr>"] have "400 \<le> fst rep" by simp
    ultimately show thesis by (rule kept)
  next
    case (granted p k)
    let ?sv = "(hs_sv st)\<lparr>sv_keys := touchKeyAsync rt (in_now2 inp) (ak_hash k) (sv_keys (hs_sv st))\<rparr>"
    from passed(1) auth granted(1,2) have "limited hc which (keyGenerator (Some k) (rq_ip req))
        (\<lambda>st. map_option (\<lambda>(r, sv). reply_or_error hc (Some rid) req r (st\<lparr>hs_sv := sv\<rparr>)) (handler (hs_sv st)))
        (st\<lparr>hs_limits := l, hs_sv := ?sv\<rparr>) = Some (rep, st1)"
      by (simp add: rt_def secret_def)
    then show thesis
    proof (cases rule: limited_cases)
      case (refused ra)
      then show thesis using limited [of k] passed(2) by simp
    next
      case (passed l2 st2)
      then obtain r sv where h: "handler ?sv = Some (r, sv)"
          "reply_or_error hc (Some rid) req r (st\<lparr>hs_limits := l2, hs_sv := sv\<rparr>) = (rep, st2)"
        by auto
      from arg_cong [OF h(2), of "\<lambda>x. hs_sv (snd x)"] \<open>hs_sv st1 = hs_sv st2\<close> \<open>hs_sv st' = hs_sv st1\<close>
      have "hs_sv st' = sv" by simp
      moreover from h(2) have "\<exists>st2. rep = fst (reply_or_error hc (Some rid) req r st2)" by (metis fst_conv)
      ultimately show thesis using handled [OF granted(3-7) h(1)] by simp
    qed
  qed
qed

lemma serve_cases:
  assumes "serve hc inp r req st = Some (rep, st')"
  obtains (unparsed) e where "rq_body req = Inl e" "hs_sv st' = hs_sv st" "400 \<le> rp_status rep"
  | (routed) body where "rq_body req = Inr body"
      "serve_route hc inp r (sandboxed (cx_env (hc_cx hc)) req) body (requestId_of (in_uuid inp) (rq_requestIdHeader req)) st =
         Some ((rp_status rep, rp_body rep), st')"
proof (cases "rq_body req")
  case (Inl e)
  with assms error_status [of hc None req e st] arg_cong [of _ _ "\<lambda>x. hs_sv (snd x)", OF refl, of "reply_or_error hc None req (Inl e) st"]
  show thesis by (intro unparsed [of e]) (auto simp: serve_def Let_def reply_or_error_def split: prod.splits)
next
  case (Inr body)
  with assms show thesis by (intro routed [of body]) (auto simp: serve_def Let_def)
qed

lemma createApiKey_keys:
  assumes "createApiKey rt secret inp body ks = (r, ks', lines)" "keys_inv rt ks" "hex_digests rt secret"
  shows "keys_inv rt ks'"
proof (cases "parseKeyRequest rt body")
  case (Inl e)
  with assms show ?thesis by (simp add: createApiKey_def)
next
  case (Inr x)
  obtain nft environment perms ex where x: "x = (nft, environment, perms, ex)" by (metis surj_pair)
  note inv = keys_inv_register [OF assms(2,3), of "in_now inp" "in_idBytes inp" "generateApiKey environment (in_keyBytes inp)"
      nft perms "(None, None, None)" ex]
  show ?thesis using assms(1,2) inv unfolding createApiKey_def Inr x Let_def
    by (auto split: if_splits sum.splits prod.splits)
qed

lemma revokeApiKey_keys:
  "revokeApiKey kid ks = (r, ks', lines) \<Longrightarrow> keys_inv rt ks \<Longrightarrow> keys_inv rt ks'"
  using keys_inv_revoke [of rt ks kid] by (auto simp: revokeApiKey_def split: if_splits prod.splits bool.splits)

lemma handlers_keys:
  assumes hex: "hex_digests (cx_rt cx) (cx_secret cx)" and inp: "inputs_ok inp" and inv: "keys_inv (cx_rt cx) (sv_keys s)"
  shows "createInvoiceHandler fuel cx inp body req s = Some (r, s') \<Longrightarrow> keys_inv (cx_rt cx) (sv_keys s')"
    "getInvoiceDetailHandler cx inp i req s = (r, s') \<Longrightarrow> keys_inv (cx_rt cx) (sv_keys s')"
    "getInvoiceStatusHandler cx inp i req s = (r, s') \<Longrightarrow> keys_inv (cx_rt cx) (sv_keys s')"
    "getInvoiceHandler cx inp i s = (r, s') \<Longrightarrow> keys_inv (cx_rt cx) (sv_keys s')"
proof -
  have le: "\<And>d. in_clk inp d 1 \<le> in_clk inp d 2" "in_clk inp 0 2 \<le> in_clk inp 0 3" using inp by (simp_all add: inputs_ok_def)
  show "createInvoiceHandler fuel cx inp body req s = Some (r, s') \<Longrightarrow> keys_inv (cx_rt cx) (sv_keys s')"
    using create_keys [where clk = "in_clk inp", OF hex le(1) inv] inv
    by (auto simp: createInvoiceHandler_def createInvoice_def split: sum.splits)
  have read: "authorizedInvoice cx (in_clk inp 0) i key s = (x, s') \<Longrightarrow> keys_inv (cx_rt cx) (sv_keys s')" for key x s'
    using authorizedInvoice_keys [OF inv hex, of "in_clk inp 0" i, OF le(2)] by (metis snd_conv)
  show "getInvoiceDetailHandler cx inp i req s = (r, s') \<Longrightarrow> keys_inv (cx_rt cx) (sv_keys s')"
    using inv read by (auto simp: getInvoiceDetailHandler_def getInvoiceDetail_def split: sum.splits prod.splits)
  show "getInvoiceStatusHandler cx inp i req s = (r, s') \<Longrightarrow> keys_inv (cx_rt cx) (sv_keys s')"
    using inv read by (auto simp: getInvoiceStatusHandler_def getInvoiceStatus_def split: sum.splits prod.splits)
  show "getInvoiceHandler cx inp i s = (r, s') \<Longrightarrow> keys_inv (cx_rt cx) (sv_keys s')"
    using inv getInvoice_keys [of cx "in_clk inp 0" i s]
    by (auto simp: getInvoiceHandler_def getPublicInvoice_def split: sum.splits prod.splits)
qed

lemma admin_keys:
  assumes "admin_route hc req handler st = Some (rep, st')"
    and "\<And>r ks lines. handler (sv_keys (hs_sv st)) = (r, ks, lines) \<Longrightarrow> keys_inv rt ks"
    and "keys_inv rt (sv_keys (hs_sv st))"
  shows "keys_inv rt (sv_keys (hs_sv st'))"
  using assms(1) by (cases rule: admin_route_cases) (use assms(2,3) in auto)

lemma protected_keys:
  assumes "protected_route hc perm which inp rid req handler st = Some (rep, st')"
    and "\<And>s r s'. keys_inv (cx_rt (hc_cx hc)) (sv_keys s) \<Longrightarrow> handler s = Some (r, s') \<Longrightarrow> keys_inv (cx_rt (hc_cx hc)) (sv_keys s')"
    and inv: "keys_inv (cx_rt (hc_cx hc)) (sv_keys (hs_sv st))"
  shows "keys_inv (cx_rt (hc_cx hc)) (sv_keys (hs_sv st'))"
  using assms(1)
proof (cases rule: protected_route_cases)
  case (handled p k r sv)
  then show ?thesis
    using assms(2) [of "(hs_sv st)\<lparr>sv_keys := touchKeyAsync (cx_rt (hc_cx hc)) (in_now2 inp) (ak_hash k) (sv_keys (hs_sv st))\<rparr>"]
      touchKeyAsync_inv [OF inv] by simp
qed (simp_all add: inv touchKeyAsync_inv)

lemma served_keys:
  assumes "serve hc inp r req st = Some (rep, st')" "inputs_ok inp"
    and hex: "hex_digests (cx_rt (hc_cx hc)) (cx_secret (hc_cx hc))"
    and inv: "keys_inv (cx_rt (hc_cx hc)) (sv_keys (hs_sv st))"
  shows "keys_inv (cx_rt (hc_cx hc)) (sv_keys (hs_sv st'))"
  using assms(1)
proof (cases rule: serve_cases)
  case (unparsed e)
  with inv show ?thesis by simp
next
  case (routed body)
  note h = handlers_keys [OF hex assms(2)]
  show ?thesis
  proof (cases r)
    case PostKeys
    with routed(2) have "admin_route hc (sandboxed (cx_env (hc_cx hc)) req)
        (createApiKey (cx_rt (hc_cx hc)) (cx_secret (hc_cx hc)) inp body) st = Some ((rp_status rep, rp_body rep), st')"
      by (simp add: serve_route_def Let_def)
    from admin_keys [OF this createApiKey_keys [OF _ inv hex] inv] show ?thesis .
  next
    case (DeleteKey kid)
    with routed(2) have "admin_route hc (sandboxed (cx_env (hc_cx hc)) req) (revokeApiKey kid) st =
        Some ((rp_status rep, rp_body rep), st')"
      by (simp add: serve_route_def Let_def)
    from admin_keys [OF this revokeApiKey_keys [OF _ inv] inv] show ?thesis .
  next
    case PostInvoiceCreate
    with routed(2) show ?thesis
      by (intro protected_keys [OF _ _ inv]) (auto simp: serve_route_def Let_def intro: h)
  next
    case (GetInvoiceStatus i)
    with routed(2) show ?thesis
      by (intro protected_keys [OF _ _ inv]) (auto simp: serve_route_def Let_def intro: h)
  next
    case (GetInvoiceDetail i)
    with routed(2) show ?thesis
      by (intro protected_keys [OF _ _ inv]) (auto simp: serve_route_def Let_def intro: h)
  next
    case (GetInvoice i)
    obtain a sv where g: "getInvoiceHandler (hc_cx hc) inp i (hs_sv st) = (a, sv)" by fastforce
    from routed(2) GetInvoice obtain x rid rq where "limited hc PublicIp x (\<lambda>st. case getInvoiceHandler (hc_cx hc) inp i (hs_sv st) of
        (a, sv) \<Rightarrow> Some (reply_or_error hc rid rq a (st\<lparr>hs_sv := sv\<rparr>))) st = Some ((rp_status rep, rp_body rep), st')"
      by (auto simp: serve_route_def Let_def)
    then show ?thesis
    proof (cases rule: limited_cases)
      case (passed l st1)
      then have "reply_or_error hc rid rq a (st\<lparr>hs_limits := l, hs_sv := sv\<rparr>) = ((rp_status rep, rp_body rep), st1)"
        using g by simp
      from arg_cong [OF this, of "\<lambda>x. hs_sv (snd x)"] have "hs_sv st1 = sv" by simp
      with passed(2) h(4) [OF inv g] show ?thesis by simp
    qed (simp add: inv)
  qed (use routed(2) inv in \<open>auto simp: serve_route_def Let_def\<close>)
qed

lemma http_keys_inv:
  assumes "http_reach hc st" "hex_digests (cx_rt (hc_cx hc)) (cx_secret (hc_cx hc))"
  shows "keys_inv (cx_rt (hc_cx hc)) (sv_keys (hs_sv st))"
  using assms by (induction rule: http_reach.induct) (blast intro: key_reach_inv served_keys)+

section \<open>What a handler's success shows\<close>

lemma createInvoiceHandler_success:
  assumes "createInvoiceHandler fuel cx inp body req s = Some (Inr rep, s')" "extractApiKey req = Inr p"
  shows "fst (isAuthorizedMerchantAsync (cx_rt cx) (cx_secret cx) (in_clk inp 0 1) (in_clk inp 0 2) p
    (jstr (jget ''merchant_nft'' body)) (sv_keys s)) = Inr True"
proof -
  from assms obtain v s1 where "createInvoice fuel cx (in_clk inp) (in_rnd inp) body p s = Some (Inr v, s1)"
    unfolding createInvoiceHandler_def
    by (auto split: sum.splits) (metis map_sum.simps(1) old.sum.exhaust sum.distinct(1))
  then show ?thesis by (rule createInvoice_authorised)
qed

lemma getInvoiceDetailHandler_success:
  assumes "getInvoiceDetailHandler cx inp i req s = (Inr rep, s')" "extractApiKey req = Inr p"
  obtains v where "rep = (200, InvoiceReply v)" "fst (getInvoice cx (in_clk inp 0) i s) = Inr v"
    "fst (isAuthorizedMerchantAsync (cx_rt cx) (cx_secret cx) (in_clk inp 0 2) (in_clk inp 0 3) p (iv_merchant_nft v) (sv_keys s)) = Inr True"
proof -
  obtain a s1 where a: "authorizedInvoice cx (in_clk inp 0) i p s = (a, s1)" by fastforce
  with assms obtain v where "a = Inr v" "rep = (200, InvoiceReply v)"
    by (cases a) (auto simp: getInvoiceDetailHandler_def getInvoiceDetail_def)
  with authorizedInvoice_authorised a that show thesis by blast
qed

lemma getInvoiceStatusHandler_success:
  assumes "getInvoiceStatusHandler cx inp i req s = (Inr rep, s')" "extractApiKey req = Inr p"
  obtains v where "fst (getInvoice cx (in_clk inp 0) i s) = Inr v"
    "fst (isAuthorizedMerchantAsync (cx_rt cx) (cx_secret cx) (in_clk inp 0 2) (in_clk inp 0 3) p (iv_merchant_nft v) (sv_keys s)) = Inr True"
proof -
  obtain a s1 where a: "authorizedInvoice cx (in_clk inp 0) i p s = (a, s1)" by fastforce
  with assms obtain v where "a = Inr v"
    by (cases a) (auto simp: getInvoiceStatusHandler_def getInvoiceStatus_def)
  with authorizedInvoice_authorised a that show thesis by blast
qed

section \<open>Properties\<close>

text \<open>The key a request presents, the record the service holds for it, and what that record allows.\<close>

definition allowed_by :: "('s, 'i, 'l) http_ctx \<Rightarrow> http_inputs \<Rightarrow> http_request \<Rightarrow> permission \<Rightarrow> string \<Rightarrow> ('s, 'i, 'l) http_state \<Rightarrow> bool" where
  "allowed_by hc inp req perm merchant st \<longleftrightarrow>
     (\<exists>p k. extractApiKey req = Inr p
        \<and> key_record (cx_rt (hc_cx hc)) (cx_secret (hc_cx hc)) p (sv_keys (hs_sv st)) = Some k \<and> ak_is_active k
        \<and> \<not> key_expired (cx_rt (hc_cx hc)) (in_now inp) k \<and> perm \<in> set (ak_permissions k) \<and> ak_merchant_nft k = merchant)"

definition admin_bearer :: "env \<Rightarrow> http_request \<Rightarrow> bool" where
  "admin_bearer env req \<longleftrightarrow>
     (\<exists>t. env ''API_KEY_ADMIN_TOKEN'' = Some t \<and> t \<noteq> [] \<and> rq_authorization req = Some (''Bearer '' @ t))"

lemma requireAdminToken_bearer:
  assumes "requireAdminToken env req = Inr u"
  shows "admin_bearer env req"
proof -
  obtain t h where t: "getAdminToken env = Some t" and h: "rq_authorization req = Some h" "h \<noteq> []"
    using assms by (auto simp: requireAdminToken_def split: option.splits if_splits)
  let ?parts = "js_split CHR '' '' h"
  have parts: "length ?parts = 2" "?parts ! 0 = ''Bearer''" and eq: "constantTimeEqual (?parts ! 1) t = Inr True"
    using assms unfolding requireAdminToken_def t h(1)
    by (auto simp: h(2) Let_def result_simps split: if_splits)
  from eq have "?parts ! 1 = t" by (auto simp: constantTimeEqual_def split: if_splits)
  with split_two [OF parts] h(1) t show ?thesis
    by (auto simp: admin_bearer_def getAdminToken_def split: option.splits if_splits)
qed

text \<open>The check inside a handler is about the record the authentication looked up.\<close>

lemma handler_merchant:
  assumes "keys_inv rt ks" "hex_digests rt secret" "now \<le> now2"
    and rec: "key_record rt secret p ks = Some k"
    and auth: "fst (isAuthorizedMerchantAsync rt secret now now2 p m (touchKeyAsync rt t h ks)) = Inr True"
  shows "ak_merchant_nft k = m"
proof -
  obtain k1 where "key_record rt secret p (touchKeyAsync rt t h ks) = Some k1" "ak_merchant_nft k1 = m"
    using isAuthorizedMerchantAsync_sound [OF touchKeyAsync_inv [OF assms(1)] assms(2,3) auth] by blast
  with rec show ?thesis by (metis touched_record option.inject)
qed

lemma protected_success:
  assumes "protected_route hc perm which inp rid req handler st = Some (rep, st')" "fst rep < 400"
    and keys: "keys_inv (cx_rt (hc_cx hc)) (sv_keys (hs_sv st))" and hex: "hex_digests (cx_rt (hc_cx hc)) (cx_secret (hc_cx hc))"
  obtains p and k :: api_key and sv where "extractApiKey req = Inr p"
    "handler ((hs_sv st)\<lparr>sv_keys := touchKeyAsync (cx_rt (hc_cx hc)) (in_now2 inp) (ak_hash k) (sv_keys (hs_sv st))\<rparr>) = Some (Inr rep, sv)"
    "\<And>now now2 m. now \<le> now2 \<Longrightarrow> fst (isAuthorizedMerchantAsync (cx_rt (hc_cx hc)) (cx_secret (hc_cx hc)) now now2 p m
        (touchKeyAsync (cx_rt (hc_cx hc)) (in_now2 inp) (ak_hash k) (sv_keys (hs_sv st)))) = Inr True \<Longrightarrow>
      allowed_by hc inp req perm m st"
  using assms(1)
proof (cases rule: protected_route_cases)
  case (handled p k r sv)
  from handled(8) assms(2) have "r = Inr rep" by (metis reply_success fst_conv)
  with handled(6) have run: "handler ((hs_sv st)\<lparr>sv_keys := touchKeyAsync (cx_rt (hc_cx hc)) (in_now2 inp) (ak_hash k) (sv_keys (hs_sv st))\<rparr>) = Some (Inr rep, sv)"
    by simp
  have "allowed_by hc inp req perm m st"
    if "now \<le> now2" "fst (isAuthorizedMerchantAsync (cx_rt (hc_cx hc)) (cx_secret (hc_cx hc)) now now2 p m
        (touchKeyAsync (cx_rt (hc_cx hc)) (in_now2 inp) (ak_hash k) (sv_keys (hs_sv st)))) = Inr True" for now now2 m
    using handler_merchant [OF keys hex that(1) handled(2) that(2)] handled(1-5) unfolding allowed_by_def by blast
  with that [OF handled(1) run] show thesis by blast
qed (use assms(2) in simp_all)

lemma create_access:
  assumes "protected_route hc InvoiceCreate which inp rid req (createInvoiceHandler fuel (hc_cx hc) inp body req) st = Some (rep, st')"
    and "fst rep < 400" "inputs_ok inp" "keys_inv (cx_rt (hc_cx hc)) (sv_keys (hs_sv st))"
    and "hex_digests (cx_rt (hc_cx hc)) (cx_secret (hc_cx hc))"
  shows "allowed_by hc inp req InvoiceCreate (jstr (jget ''merchant_nft'' body)) st"
  using assms(1)
proof (rule protected_success [OF _ assms(2,4,5)])
  fix p k sv
  assume p: "extractApiKey req = Inr p"
    and run: "createInvoiceHandler fuel (hc_cx hc) inp body req ((hs_sv st)\<lparr>sv_keys :=
        touchKeyAsync (cx_rt (hc_cx hc)) (in_now2 inp) (ak_hash k) (sv_keys (hs_sv st))\<rparr>) = Some (Inr rep, sv)"
    and ok: "\<And>now now2 m. now \<le> now2 \<Longrightarrow> fst (isAuthorizedMerchantAsync (cx_rt (hc_cx hc)) (cx_secret (hc_cx hc)) now now2 p m
        (touchKeyAsync (cx_rt (hc_cx hc)) (in_now2 inp) (ak_hash k) (sv_keys (hs_sv st)))) = Inr True \<Longrightarrow>
      allowed_by hc inp req InvoiceCreate m st"
  have "in_clk inp 0 1 \<le> in_clk inp 0 2" using assms(3) by (simp add: inputs_ok_def)
  from ok [OF this] createInvoiceHandler_success [OF run p] show ?thesis by (simp del: One_nat_def)
qed

lemma status_access:
  assumes "protected_route hc InvoiceStatusScope which inp rid req (Some \<circ> getInvoiceStatusHandler (hc_cx hc) inp i req) st = Some (rep, st')"
    and "fst rep < 400" "inputs_ok inp" "keys_inv (cx_rt (hc_cx hc)) (sv_keys (hs_sv st))"
    and "hex_digests (cx_rt (hc_cx hc)) (cx_secret (hc_cx hc))"
  shows "\<exists>v. fst (getInvoice (hc_cx hc) (in_clk inp 0) i (hs_sv st)) = Inr v \<and> allowed_by hc inp req InvoiceStatusScope (iv_merchant_nft v) st"
  using assms(1)
proof (rule protected_success [OF _ assms(2,4,5)])
  fix p k sv
  assume p: "extractApiKey req = Inr p"
    and run: "(Some \<circ> getInvoiceStatusHandler (hc_cx hc) inp i req) ((hs_sv st)\<lparr>sv_keys :=
        touchKeyAsync (cx_rt (hc_cx hc)) (in_now2 inp) (ak_hash k) (sv_keys (hs_sv st))\<rparr>) = Some (Inr rep, sv)"
    and ok: "\<And>now now2 m. now \<le> now2 \<Longrightarrow> fst (isAuthorizedMerchantAsync (cx_rt (hc_cx hc)) (cx_secret (hc_cx hc)) now now2 p m
        (touchKeyAsync (cx_rt (hc_cx hc)) (in_now2 inp) (ak_hash k) (sv_keys (hs_sv st)))) = Inr True \<Longrightarrow>
      allowed_by hc inp req InvoiceStatusScope m st"
  from run have "getInvoiceStatusHandler (hc_cx hc) inp i req ((hs_sv st)\<lparr>sv_keys :=
      touchKeyAsync (cx_rt (hc_cx hc)) (in_now2 inp) (ak_hash k) (sv_keys (hs_sv st))\<rparr>) = (Inr rep, sv)" by simp
  from getInvoiceStatusHandler_success [OF this p] obtain v where
      v: "fst (getInvoice (hc_cx hc) (in_clk inp 0) i (hs_sv st)) = Inr v"
      "fst (isAuthorizedMerchantAsync (cx_rt (hc_cx hc)) (cx_secret (hc_cx hc)) (in_clk inp 0 2) (in_clk inp 0 3) p (iv_merchant_nft v)
        (touchKeyAsync (cx_rt (hc_cx hc)) (in_now2 inp) (ak_hash k) (sv_keys (hs_sv st)))) = Inr True"
    by (auto simp: getInvoice_with_keys)
  have "in_clk inp 0 2 \<le> in_clk inp 0 3" using assms(3) by (simp add: inputs_ok_def)
  from ok [OF this v(2)] v show ?thesis by simp
qed

lemma detail_access:
  assumes "protected_route hc InvoiceRead which inp rid req (Some \<circ> getInvoiceDetailHandler (hc_cx hc) inp i req) st = Some (rep, st')"
    and "fst rep < 400" "inputs_ok inp" "keys_inv (cx_rt (hc_cx hc)) (sv_keys (hs_sv st))"
    and "hex_digests (cx_rt (hc_cx hc)) (cx_secret (hc_cx hc))"
  shows "\<exists>v. snd rep = InvoiceReply v \<and> fst (getInvoice (hc_cx hc) (in_clk inp 0) i (hs_sv st)) = Inr v
    \<and> allowed_by hc inp req InvoiceRead (iv_merchant_nft v) st"
  using assms(1)
proof (rule protected_success [OF _ assms(2,4,5)])
  fix p k sv
  assume p: "extractApiKey req = Inr p"
    and run: "(Some \<circ> getInvoiceDetailHandler (hc_cx hc) inp i req) ((hs_sv st)\<lparr>sv_keys :=
        touchKeyAsync (cx_rt (hc_cx hc)) (in_now2 inp) (ak_hash k) (sv_keys (hs_sv st))\<rparr>) = Some (Inr rep, sv)"
    and ok: "\<And>now now2 m. now \<le> now2 \<Longrightarrow> fst (isAuthorizedMerchantAsync (cx_rt (hc_cx hc)) (cx_secret (hc_cx hc)) now now2 p m
        (touchKeyAsync (cx_rt (hc_cx hc)) (in_now2 inp) (ak_hash k) (sv_keys (hs_sv st)))) = Inr True \<Longrightarrow>
      allowed_by hc inp req InvoiceRead m st"
  from run have "getInvoiceDetailHandler (hc_cx hc) inp i req ((hs_sv st)\<lparr>sv_keys :=
      touchKeyAsync (cx_rt (hc_cx hc)) (in_now2 inp) (ak_hash k) (sv_keys (hs_sv st))\<rparr>) = (Inr rep, sv)" by simp
  from getInvoiceDetailHandler_success [OF this p] obtain v where
      v: "rep = (200, InvoiceReply v)" "fst (getInvoice (hc_cx hc) (in_clk inp 0) i (hs_sv st)) = Inr v"
      "fst (isAuthorizedMerchantAsync (cx_rt (hc_cx hc)) (cx_secret (hc_cx hc)) (in_clk inp 0 2) (in_clk inp 0 3) p (iv_merchant_nft v)
        (touchKeyAsync (cx_rt (hc_cx hc)) (in_now2 inp) (ak_hash k) (sv_keys (hs_sv st)))) = Inr True"
    by (auto simp: getInvoice_with_keys)
  have "in_clk inp 0 2 \<le> in_clk inp 0 3" using assms(3) by (simp add: inputs_ok_def)
  from ok [OF this v(3)] v show ?thesis by simp
qed

text \<open>An error reply shows a code of the catalogue with its status, and in production none of the internal details.\<close>

definition envelope_ok :: "env \<Rightarrow> nat \<times> reply_body \<Rightarrow> bool" where
  "envelope_ok env rep \<longleftrightarrow>
     (\<exists>c msg ds. snd rep = ErrorReply (error_code_string c) msg ds \<and> fst rep = ERROR_CODE_HTTP_STATUS c
        \<and> (is_production env \<longrightarrow> (\<forall>kvs. ds = Some kvs \<longrightarrow>
             kvs \<noteq> [] \<and> fst ` set kvs \<inter> {''error'', ''stack'', ''cause'', ''whitelistedCollections''} = {})))"

lemma envelope_okI:
  assumes "fst rep = ERROR_CODE_HTTP_STATUS c" "snd rep = ErrorReply (error_code_string c) msg ds"
    and "\<And>kvs. is_production env \<Longrightarrow> ds = Some kvs \<Longrightarrow>
      kvs \<noteq> [] \<and> fst ` set kvs \<inter> {''error'', ''stack'', ''cause'', ''whitelistedCollections''} = {}"
  shows "envelope_ok env rep"
  using assms unfolding envelope_ok_def by blast

lemma sanitised:
  "sanitiseDetails ds = Some kvs \<Longrightarrow> kvs \<noteq> [] \<and> fst ` set kvs \<inter> {''error'', ''stack'', ''cause'', ''whitelistedCollections''} = {}"
  by (auto simp: sanitiseDetails_def Let_def split: option.splits if_splits)

lemma sendErrorResponse_envelope: "envelope_ok env (fst (sendErrorResponse env rid req e))"
proof (cases e)
  case (ValidationError c msg ds)
  then show ?thesis
    by (intro envelope_okI [of _ c msg "sanitiseDetails ds"])
      (simp_all add: sendErrorResponse_def Let_def getHttpStatus_code sanitised)
next
  case (OtherError n m)
  show ?thesis
    by (rule envelope_okI [of _ INTERNAL_ERROR])
      (auto simp: sendErrorResponse_def OtherError split: option.splits if_splits)
qed

lemma reply_or_error_envelope:
  assumes "\<And>a. r = Inr a \<Longrightarrow> fst a < 400"
  shows "fst (fst (reply_or_error hc rid req r st)) < 400 \<or> envelope_ok (cx_env (hc_cx hc)) (fst (reply_or_error hc rid req r st))"
proof (cases r)
  case (Inl e)
  then show ?thesis using sendErrorResponse_envelope [of "cx_env (hc_cx hc)" rid req e]
    by (auto simp: reply_or_error_def split: prod.split)
qed (use assms in \<open>auto simp: reply_or_error_def\<close>)

lemma rateLimit_envelope: "envelope_ok env (rateLimitHandler options ra)"
  by (rule envelope_okI [of _ RATE_LIMIT_EXCEEDED]) (auto simp: rateLimitHandler_def Let_def)

lemma notFound_envelope: "envelope_ok env notFoundHandlerMiddleware"
  by (rule envelope_okI [of _ INVOICE_NOT_FOUND]) (auto simp: notFoundHandlerMiddleware_def)

lemma handler_statuses:
  "createApiKey rt secret inp body ks = (Inr a, x) \<Longrightarrow> fst a < 400"
  "revokeApiKey kid ks = (Inr a, x) \<Longrightarrow> fst a < 400"
  "createInvoiceHandler fuel cx inp body req s = Some (Inr a, s') \<Longrightarrow> fst a < 400"
  "getInvoiceDetailHandler cx inp i req s = (Inr a, s') \<Longrightarrow> fst a < 400"
  "getInvoiceStatusHandler cx inp i req s = (Inr a, s') \<Longrightarrow> fst a < 400"
  "getInvoiceHandler cx inp i s = (Inr a, s') \<Longrightarrow> fst a < 400"
proof -
  have *: "map_sum id (\<lambda>v. (n, f v)) x = Inr a \<Longrightarrow> n < 400 \<Longrightarrow> fst a < 400" for n :: nat and f x by (cases x) auto
  show "createApiKey rt secret inp body ks = (Inr a, x) \<Longrightarrow> fst a < 400"
    by (auto simp: createApiKey_def Let_def split: sum.splits if_splits prod.splits)
  show "revokeApiKey kid ks = (Inr a, x) \<Longrightarrow> fst a < 400"
    by (auto simp: revokeApiKey_def split: if_splits prod.splits bool.splits)
  show "createInvoiceHandler fuel cx inp body req s = Some (Inr a, s') \<Longrightarrow> fst a < 400"
    "getInvoiceDetailHandler cx inp i req s = (Inr a, s') \<Longrightarrow> fst a < 400"
    "getInvoiceStatusHandler cx inp i req s = (Inr a, s') \<Longrightarrow> fst a < 400"
    "getInvoiceHandler cx inp i s = (Inr a, s') \<Longrightarrow> fst a < 400"
    by (auto simp: createInvoiceHandler_def getInvoiceDetailHandler_def getInvoiceStatusHandler_def getInvoiceHandler_def
        split: sum.splits prod.splits dest: *)
qed

definition answer_ok :: "env \<Rightarrow> nat \<times> reply_body \<Rightarrow> bool" where
  "answer_ok env rep \<longleftrightarrow> fst rep < 400 \<or> envelope_ok env rep"

lemma limited_answer:
  assumes "limited hc which b rest st = Some (rep, st')"
    and "\<And>st0 st1. rest st0 = Some (rep, st1) \<Longrightarrow> answer_ok env rep"
  shows "answer_ok env rep"
  using assms(1) by (cases rule: limited_cases) (use assms(2) rateLimit_envelope in \<open>auto simp: answer_ok_def\<close>)

lemma reply_or_error_answer:
  assumes "reply_or_error hc rid req r st0 = (rep, st1)" "\<And>a. r = Inr a \<Longrightarrow> fst a < 400"
  shows "answer_ok (cx_env (hc_cx hc)) rep"
  using reply_or_error_envelope [of r hc rid req st0] assms by (auto simp: answer_ok_def)

lemma admin_answer:
  assumes "admin_route hc req handler st = Some (rep, st')"
    and "\<And>ks a x. handler ks = (Inr a, x) \<Longrightarrow> fst a < 400"
  shows "answer_ok (cx_env (hc_cx hc)) rep"
  using assms(1) unfolding admin_route_def
proof (rule limited_answer, goal_cases)
  case (1 st0 st1)
  then show ?case
    by (auto split: sum.splits prod.splits elim!: reply_or_error_answer dest: assms(2))
qed

lemma protected_answer:
  assumes "protected_route hc perm which inp rid req handler st = Some (rep, st')"
    and "\<And>s a x. handler s = Some (Inr a, x) \<Longrightarrow> fst a < 400"
  shows "answer_ok (cx_env (hc_cx hc)) rep"
  using assms(1) unfolding protected_route_def
proof (rule limited_answer, goal_cases)
  case (1 st0 st1)
  show ?case
  proof (cases "authenticateWithPermission (cx_rt (hc_cx hc)) (cx_secret (hc_cx hc)) (in_now inp) (in_now2 inp) perm req (sv_keys (hs_sv st0))")
    case (Pair a ks)
    show ?thesis
    proof (cases a)
      case (Inl e)
      with 1 Pair show ?thesis by (auto elim!: reply_or_error_answer)
    next
      case (Inr k)
      with 1 Pair have "limited hc which (keyGenerator (Some k) (rq_ip req))
        (\<lambda>st. map_option (\<lambda>(r, sv). reply_or_error hc (Some rid) req r (st\<lparr>hs_sv := sv\<rparr>)) (handler (hs_sv st)))
        (st0\<lparr>hs_sv := (hs_sv st0)\<lparr>sv_keys := ks\<rparr>\<rparr>) = Some (rep, st1)"
        by simp
      then show ?thesis
        by (rule limited_answer) (auto elim!: reply_or_error_answer dest: assms(2))
    qed
  qed
qed

lemma serve_answer:
  assumes "serve hc inp r req st = Some (rep, st')"
  shows "answer_ok (cx_env (hc_cx hc)) (rp_status rep, rp_body rep)"
proof (cases "rq_body req")
  case (Inl e)
  have "answer_ok (cx_env (hc_cx hc)) (fst (reply_or_error hc None req (Inl e) st))"
    by (rule reply_or_error_answer [of hc None req "Inl e" st _ "snd (reply_or_error hc None req (Inl e) st)"]) simp_all
  with assms Inl show ?thesis by (auto simp: serve_def Let_def split: prod.splits)
next
  case (Inr body)
  let ?rid = "requestId_of (in_uuid inp) (rq_requestIdHeader req)" and ?rq = "sandboxed (cx_env (hc_cx hc)) req"
  from assms Inr have "serve_route hc inp r ?rq body ?rid st = Some ((rp_status rep, rp_body rep), st')"
    by (cases rule: serve_cases) auto
  note route = this [unfolded serve_route_def Let_def]
  show ?thesis
  proof (cases r)
    case PostInvoiceCreate
    with route show ?thesis by (auto intro: protected_answer handler_statuses)
  next
    case (GetInvoice i)
    with route have "limited hc PublicIp (ip_bucket hc ?rq) (\<lambda>st. case getInvoiceHandler (hc_cx hc) inp i (hs_sv st) of
        (a, sv) \<Rightarrow> Some (reply_or_error hc (Some ?rid) ?rq a (st\<lparr>hs_sv := sv\<rparr>))) st = Some ((rp_status rep, rp_body rep), st')"
      by simp
    then show ?thesis
      by (rule limited_answer) (auto split: prod.splits elim!: reply_or_error_answer dest: handler_statuses)
  next
    case (GetInvoiceStatus i)
    with route show ?thesis by - (simp, erule protected_answer, simp, erule handler_statuses)
  next
    case (GetInvoiceDetail i)
    with route show ?thesis by - (simp, erule protected_answer, simp, erule handler_statuses)
  next
    case PostKeys
    with route show ?thesis by (auto intro: admin_answer handler_statuses)
  next
    case (DeleteKey kid)
    with route show ?thesis by (auto intro: admin_answer handler_statuses)
  qed (use route notFound_envelope in \<open>auto simp: answer_ok_def split: if_splits\<close>)
qed

text \<open>
  C3. Access control of the whole API. In every reachable state, a successful reply (status below 400) on a protected
  route means that the request carried a bearer key with a stored record that is active, unexpired and has the scope
  of the route, and that this record belongs to the merchant concerned: the one named in a creation, the owner of the
  stored invoice on the detail and status routes. On the key management routes it means that the request carried the
  configured administration token. In sandbox mode a request without credentials counts with the public key.
\<close>

theorem http_access_control:
  assumes "http_reach hc st" "hex_digests (cx_rt (hc_cx hc)) (cx_secret (hc_cx hc))" "inputs_ok inp"
    and "serve hc inp r req st = Some (rep, st')" "rp_status rep < 400"
  shows "case r of
      PostInvoiceCreate \<Rightarrow> (\<exists>body. rq_body req = Inr body
        \<and> allowed_by hc inp (sandboxed (cx_env (hc_cx hc)) req) InvoiceCreate (jstr (jget ''merchant_nft'' body)) st)
    | GetInvoiceStatus i \<Rightarrow> (\<exists>v. fst (getInvoice (hc_cx hc) (in_clk inp 0) i (hs_sv st)) = Inr v
        \<and> allowed_by hc inp (sandboxed (cx_env (hc_cx hc)) req) InvoiceStatusScope (iv_merchant_nft v) st)
    | GetInvoiceDetail i \<Rightarrow> (\<exists>v. rp_body rep = InvoiceReply v \<and> fst (getInvoice (hc_cx hc) (in_clk inp 0) i (hs_sv st)) = Inr v
        \<and> allowed_by hc inp (sandboxed (cx_env (hc_cx hc)) req) InvoiceRead (iv_merchant_nft v) st)
    | PostKeys \<Rightarrow> admin_bearer (cx_env (hc_cx hc)) (sandboxed (cx_env (hc_cx hc)) req)
    | DeleteKey kid \<Rightarrow> admin_bearer (cx_env (hc_cx hc)) (sandboxed (cx_env (hc_cx hc)) req)
    | _ \<Rightarrow> True"
proof -
  note facts = _ _ assms(3) http_keys_inv [OF assms(1,2)] assms(2)
  obtain body where body: "rq_body req = Inr body"
    and route: "serve_route hc inp r (sandboxed (cx_env (hc_cx hc)) req) body
      (requestId_of (in_uuid inp) (rq_requestIdHeader req)) st = Some ((rp_status rep, rp_body rep), st')"
    using assms(4) by (cases rule: serve_cases) (use assms(5) in auto)
  note route = route [unfolded serve_route_def Let_def]
  have admin: "admin_bearer (cx_env (hc_cx hc)) rq"
    if "admin_route hc rq handler st = Some ((rp_status rep, rp_body rep), st')" for handler rq
    using that by (cases rule: admin_route_cases) (use assms(5) in \<open>auto intro: requireAdminToken_bearer\<close>)
  show ?thesis
  proof (cases r)
    case PostInvoiceCreate
    with route assms(5) body show ?thesis by (auto intro: create_access [OF facts])
  next
    case (GetInvoiceStatus i)
    with route assms(5) show ?thesis by (auto intro: status_access [OF facts])
  next
    case (GetInvoiceDetail i)
    with route assms(5) show ?thesis using detail_access [OF facts, of KeyRead _ _ i] by fastforce
  qed (use route admin in simp_all)
qed


text \<open>
  C34. Errors keep internals to themselves. Every reply of the API is a success below 400 or the standard envelope with
  a code of the catalogue and exactly the status the catalogue gives it; in production its details never hold an error
  text, a stack, a cause or the list of collections, and two unexpected exceptions give the same reply whatever they say.
\<close>

theorem http_errors_confidential:
  assumes "serve hc inp r req st = Some (rep, st')"
  shows "(rp_status rep < 400 \<or> envelope_ok (cx_env (hc_cx hc)) (rp_status rep, rp_body rep))
    \<and> (\<forall>rid rq n m n' m'. is_production (cx_env (hc_cx hc)) \<longrightarrow>
         fst (sendErrorResponse (cx_env (hc_cx hc)) rid rq (OtherError n m))
         = fst (sendErrorResponse (cx_env (hc_cx hc)) rid rq (OtherError n' m')))"
  using serve_answer [OF assms] by (simp add: answer_ok_def sendErrorResponse_def)

section \<open>Issued keys\<close>

lemma findAndValidateKeyAsync_accepts:
  "key_record rt secret p ks = Some k \<Longrightarrow> ak_is_active k \<Longrightarrow> \<not> key_expired rt now k \<Longrightarrow>
   findAndValidateKeyAsync rt secret now p ks = Inr k"
  by (auto simp: findAndValidateKeyAsync_def findAndValidateKey_def key_record_def split: option.splits)

lemma api_key_no_space:
  assumes "isValidApiKeyFormat p"
  shows "CHR '' '' \<notin> set p"
proof -
  obtain q where "p = ''tbc_live_'' @ q \<or> p = ''tbc_test_'' @ q" "list_all is_hex_lower q"
    using assms by (auto simp: isValidApiKeyFormat_def API_KEY_PATTERN_def starts_with_iff)
  moreover have "\<not> is_hex_lower CHR '' ''" by code_simp
  ultimately show ?thesis by (auto simp: list_all_iff)
qed

lemma extract_bearer:
  assumes "rq_authorization req = Some (''Bearer '' @ p)" "CHR '' '' \<notin> set p"
  shows "extractApiKey req = Inr p"
proof -
  have "js_split CHR '' '' (''Bearer'' @ CHR '' '' # p) = [''Bearer'', p]"
    using js_split_append [of "CHR '' ''" "''Bearer''" p] js_split_no_sep [of "CHR '' ''" p] assms(2) by simp
  then show ?thesis using assms(1) by (simp add: extractApiKey_def Let_def)
qed

lemma issued_record:
  assumes "createApiKey rt secret inp body ks = (Inr (status, KeyReply ik), ks', lines)"
  obtains k where "key_record rt secret (ik_api_key ik) ks' = Some k" "ak_is_active k" "ak_id k = ik_key_id ik"
    "ak_merchant_nft k = ik_merchant_nft ik" "ak_permissions k = ik_permissions ik" "ak_expires_at k = ik_expires_at ik"
    "isValidApiKeyFormat (ik_api_key ik)"
proof -
  obtain nft environment perms ex where x: "parseKeyRequest rt body = Inr (nft, environment, perms, ex)"
    using assms by (auto simp: createApiKey_def split: sum.splits)
  let ?p = "generateApiKey environment (in_keyBytes inp)"
  obtain a ks1 where reg: "registerApiKeyAsync rt secret (in_now inp) (in_idBytes inp) ?p nft perms (None, None, None) ex ks = (a, ks1)"
    by fastforce
  from assms x reg obtain k where k: "a = Inr k" "ks' = ks1" "isValidApiKeyFormat ?p" "ik_api_key ik = ?p" "ik_key_id ik = ak_id k"
      "ik_merchant_nft ik = ak_merchant_nft k" "ik_permissions ik = ak_permissions k" "ik_expires_at ik = ak_expires_at k"
    by (auto simp: createApiKey_def Let_def split: if_splits sum.splits)
  with registration_binds [of rt secret _ _ ?p nft perms _ ex ks k ks1] reg that show thesis by metis
qed

text \<open>
  A key that the API issues can be used at once: the request that carries it passes the authentication of every scope
  the key was given, as long as the key has not expired.
\<close>

theorem issued_key_usable:
  assumes "createApiKey rt secret inp body ks = (Inr (status, KeyReply ik), ks', lines)"
    and "rq_authorization req = Some (''Bearer '' @ ik_api_key ik)" "perm \<in> set (ik_permissions ik)"
    and unexpired: "\<And>k. ak_expires_at k = ik_expires_at ik \<Longrightarrow> \<not> key_expired rt now k"
  shows "\<exists>k. fst (authenticateWithPermission rt secret now now2 perm req ks') = Inr k
    \<and> ak_id k = ik_key_id ik \<and> ak_merchant_nft k = ik_merchant_nft ik"
proof -
  obtain k where k: "key_record rt secret (ik_api_key ik) ks' = Some k" "ak_is_active k" "ak_id k = ik_key_id ik"
      "ak_merchant_nft k = ik_merchant_nft ik" "ak_permissions k = ik_permissions ik" "ak_expires_at k = ik_expires_at ik"
      "isValidApiKeyFormat (ik_api_key ik)"
    using issued_record [OF assms(1)] .
  from extract_bearer [OF assms(2) api_key_no_space [OF k(7)]] findAndValidateKeyAsync_accepts [OF k(1,2) unexpired [OF k(6)]] k assms(3)
  show ?thesis by (simp add: authenticateWithPermission_def hasPermission_def)
qed

section \<open>A body that does not parse\<close>

text \<open>The parser's error passes every route and becomes an internal error, without a request identifier.\<close>

lemma malformed_body_is_500:
  assumes "rq_body req = Inl (OtherError n m)"
  shows "\<exists>ds st'. serve hc inp r req st = Some (\<lparr>rp_status = 500, rp_headers = [],
    rp_body = ErrorReply ''INTERNAL_ERROR'' ''Internal server error'' ds\<rparr>, st')"
  using assms by (simp add: serve_def Let_def reply_or_error_def sendErrorResponse_def)

lemma key_routes_without_id:
  assumes "serve hc inp r req st = Some (rep, st')" "key_route r" "\<not> isSandboxMode (cx_env (hc_cx hc))"
  shows "rp_headers rep = []"
  using assms by (auto simp: serve_def Let_def split: sum.splits prod.splits)

section \<open>A concrete request\<close>

definition hc0 :: "(mem_invoices, mem_idempotency, unit) http_ctx" where
  "hc0 = \<lparr>hc_cx = run_ctx, hc_num = (\<lambda>_. None),
     hc_limits = \<lparr>lm_ipKey = (\<lambda>_. []), lm_hit = (\<lambda>_ _ _ l. (Passed, l)), lm_done = (\<lambda>_ _ _ _ l. l)\<rparr>, hc_fuel = 2\<rparr>"

definition hv0 :: invoice where
  "hv0 = \<lparr>iv_id = ''inv_0707070707070707'', iv_merchant_nft = ''EQAjHkHtt1MIoU5c7dks73Rz8NMxAA3oStSrcQ_qgn3il-Le'',
     iv_amount_tbc = ''5'', iv_currency = ''TBC'', iv_metadata = None, iv_status = Pending, iv_created_at = ''5'',
     iv_expires_at = ''9'', iv_payment_url = [], iv_settlement = None\<rparr>"

definition hst0 :: "(mem_invoices, mem_idempotency, unit) http_state" where
  "hst0 = \<lparr>hs_sv = \<lparr>sv_keys = run_keys, sv_invoices = [(iv_id hv0, hv0)], sv_idem = []\<rparr>, hs_limits = (), hs_log = []\<rparr>"

definition hrq0 :: "string option \<Rightarrow> http_request" where
  "hrq0 auth = \<lparr>rq_method = ''GET'', rq_url = ''/'', rq_ip = None, rq_authorization = auth, rq_requestIdHeader = None, rq_body = Inr JUndef\<rparr>"

definition hin0 :: http_inputs where
  "hin0 = \<lparr>in_uuid = ''u'', in_now = 6, in_now2 = 6, in_clk = (\<lambda>_ _. 6), in_keyBytes = [], in_idBytes = [], in_rnd = (\<lambda>_. [])\<rparr>"

lemma http_demo:
  "map_option (\<lambda>(rep, _). rp_status rep) (serve hc0 hin0 (GetInvoiceDetail (iv_id hv0)) (hrq0 (Some ''Bearer tbc_test_a'')) hst0) = Some 200"
  "map_option (\<lambda>(rep, _). rp_status rep) (serve hc0 hin0 (GetInvoiceDetail (iv_id hv0)) (hrq0 (Some ''Bearer tbc_test_b'')) hst0) = Some 401"
  by (code_simp, code_simp)

lemma http_demo_reach: "http_reach hc0 hst0" "hex_digests (cx_rt (hc_cx hc0)) (cx_secret (hc_cx hc0))" "inputs_ok hin0"
proof -
  have "key_reach rt1 ''s'' run_keys" unfolding run_keys_def by (rule key_reach.step [OF key_reach.init key_step.register])
  then show "http_reach hc0 hst0" by (intro http_reach.mounted) (simp add: hc0_def hst0_def run_ctx_def)
qed (simp_all add: hc0_def run_ctx_def rt1_hex inputs_ok_def hin0_def)

theorem http_access_control_witness:
  "\<exists>v. fst (getInvoice run_ctx (\<lambda>_. 6) ''inv_0707070707070707'' (hs_sv hst0)) = Inr v
    \<and> allowed_by hc0 hin0 (sandboxed (\<lambda>_. None) (hrq0 (Some ''Bearer tbc_test_a''))) InvoiceRead (iv_merchant_nft v) hst0"
proof -
  obtain rep st' where r: "serve hc0 hin0 (GetInvoiceDetail (iv_id hv0)) (hrq0 (Some ''Bearer tbc_test_a'')) hst0 = Some (rep, st')"
      "rp_status rep = 200"
    using http_demo(1) by auto
  from http_access_control [OF http_demo_reach r(1)] r(2) show ?thesis
    by (auto simp: hv0_def hc0_def run_ctx_def hin0_def)
qed

theorem http_errors_confidential_witness:
  "\<exists>rep :: http_reply. rp_status rep = 401 \<and> envelope_ok (\<lambda>_. None) (rp_status rep, rp_body rep)"
proof -
  obtain rep st' where r: "serve hc0 hin0 (GetInvoiceDetail (iv_id hv0)) (hrq0 (Some ''Bearer tbc_test_b'')) hst0 = Some (rep, st')"
      "rp_status rep = 401"
    using http_demo(2) by auto
  from http_errors_confidential [OF r(1)] r(2) have "envelope_ok (\<lambda>_. None) (rp_status rep, rp_body rep)"
    by (simp add: hc0_def run_ctx_def)
  with r(2) show ?thesis by blast
qed

end
