(* ===== verification/Idx_Events.thy ===== *)
theory Idx_Events
  imports Js_Json
begin

text \<open>
  Types of the payment-status indexer (\<open>backend/indexer/src/types/events.ts\<close>,
  \<open>types/errors.ts\<close>), the confirmation depth (\<open>services/confirmations.ts\<close>) and the event parser
  (\<open>parsers/event-parser.ts\<close>). The cell library \<open>@ton/core\<close> is outside the repository: its slc
  operations are the fields of a record that the decoders take, each \<open>None\<close> where the library
  throws. Addresses are the strings \<open>Address.toString()\<close> gives.
\<close>

section \<open>Events\<close>

datatype account_state = ACTIVE | FROZEN | COLLATERAL_LOCKED | CLOSED

fun accountStateToString :: "account_state \<Rightarrow> string" where
  "accountStateToString ACTIVE = ''ACTIVE''"
| "accountStateToString FROZEN = ''FROZEN''"
| "accountStateToString COLLATERAL_LOCKED = ''COLLATERAL_LOCKED''"
| "accountStateToString CLOSED = ''CLOSED''"

definition accountStateFromNumber :: "int \<Rightarrow> account_state option" where
  "accountStateFromNumber state =
     (if state \<ge> 0 \<and> state \<le> 3
      then Some (if state = 0 then ACTIVE else if state = 1 then FROZEN
                 else if state = 2 then COLLATERAL_LOCKED else CLOSED)
      else None)"

fun account_state_number :: "account_state \<Rightarrow> int" where
  "account_state_number ACTIVE = 0"
| "account_state_number FROZEN = 1"
| "account_state_number COLLATERAL_LOCKED = 2"
| "account_state_number CLOSED = 3"

record base_event =
  be_blockNumber :: int
  be_transactionHash :: string
  be_timestamp :: int
  be_logIndex :: nat

datatype event_body =
    InternalTransfer (fromNft: string) (toNft: string) (amountTbc: int) (payloadHash: string)
  | AccountStateChanged (nftAddress: string) (oldState: account_state) (newState: account_state)
  | MerchantPayment (payerNft: string) (merchantNft: string) (amountTbc: int) (payloadHash: string)
  | NFTOwnershipChange (nftAddress: string) (oldOwner: "string option") (newOwner: string) (collectionAddress: string)
  | TransparencyProtocolMetrics (periodStart: int) (periodEnd: int) (activeAccounts: int)
      (tbcVolumeTransferred: int) (transferCount: int)
  | TransparencyLockActivity (periodStart: int) (periodEnd: int) (locksSet: int) (locksCleared: int)
      (locksActive: int) (appealsFiled: int) (appealsOverturned: int) (appealsUpheld: int)
  | TransparencyParameterChange (parameterId: string) (oldValueHash: string) (newValueHash: string)
      (effectiveBlock: int) (governanceProposalId: "int option")

type_synonym indexed_event = "base_event \<times> event_body"

definition makeEventId :: "int \<Rightarrow> string option \<Rightarrow> nat option \<Rightarrow> string" where
  "makeEventId blockNumber txHash logIndex =
     (case txHash of
        Some t \<Rightarrow>
          if t = [] then dec_int blockNumber
          else (case logIndex of
                  Some i \<Rightarrow> dec_int blockNumber @ '':'' @ t @ '':'' @ dec i
                | None \<Rightarrow> dec_int blockNumber @ '':'' @ t)
      | None \<Rightarrow> dec_int blockNumber)"

section \<open>Confirmation depth\<close>

definition confirmationDepth :: "int \<Rightarrow> int \<Rightarrow> int" where
  "confirmationDepth chainHeadSeqno blockNumber = max 0 (chainHeadSeqno - blockNumber)"

definition isBlockConfirmed :: "int \<Rightarrow> int \<Rightarrow> int \<Rightarrow> bool" where
  "isBlockConfirmed chainHeadSeqno blockNumber confirmationBlocks =
     (confirmationDepth chainHeadSeqno blockNumber \<ge> confirmationBlocks)"

section \<open>The slice operations of the cell library\<close>

record 'c slice_ops =
  sl_fromBase64 :: "string \<Rightarrow> 'c option"
  sl_remainingBits :: "'c \<Rightarrow> nat"
  sl_loadUint :: "nat \<Rightarrow> 'c \<Rightarrow> (int \<times> 'c) option"
  sl_loadInt :: "nat \<Rightarrow> 'c \<Rightarrow> (int \<times> 'c) option"
  sl_loadCoins :: "'c \<Rightarrow> (int \<times> 'c) option"
  sl_loadAddress :: "'c \<Rightarrow> (string \<times> 'c) option"
  sl_loadMaybeAddress :: "'c \<Rightarrow> (string option \<times> 'c) option"
  sl_loadBit :: "'c \<Rightarrow> (bool \<times> 'c) option"
  sl_loadRefString :: "'c \<Rightarrow> (string \<times> 'c) option"

text \<open>Sequencing of loads: the first one that throws ends the decoding.\<close>

definition ld :: "('c \<Rightarrow> ('a \<times> 'c) option) \<Rightarrow> 'c \<Rightarrow> ('a \<Rightarrow> 'c \<Rightarrow> 'b option) \<Rightarrow> 'b option" where
  "ld load c k = (case load c of None \<Rightarrow> None | Some (x, c') \<Rightarrow> k x c')"

lemma ld_Some: "ld load c k = Some y \<longleftrightarrow> (\<exists>x c'. load c = Some (x, c') \<and> k x c' = Some y)"
  by (auto simp: ld_def split: option.splits)

section \<open>Hashes\<close>

text \<open>\<open>BigInt.toString(16)\<close>, and \<open>padStart(64, '0')\<close>.\<close>

fun hex_nat :: "nat \<Rightarrow> string" where
  "hex_nat n = (if n < 16 then [hex_digit n] else hex_nat (n div 16) @ [hex_digit (n mod 16)])"

declare hex_nat.simps [simp del]

definition padStart64 :: "string \<Rightarrow> string" where
  "padStart64 s = replicate (64 - length s) CHR ''0'' @ s"

definition hash256 :: "int \<Rightarrow> string" where
  "hash256 h = ''0x'' @ padStart64 (hex_nat (nat h))"

definition hash257 :: "int \<Rightarrow> string" where
  "hash257 h = (if h \<ge> 0 then ''0x'' @ padStart64 (hex_nat (nat h))
     else ''-0x'' @ padStart64 (hex_nat (nat (- h))))"

section \<open>Decoders\<close>

definition OP_INTERNAL_TRANSFER_EVENT :: int where "OP_INTERNAL_TRANSFER_EVENT = 0x7cb56db1"
definition OP_ACCOUNT_STATE_CHANGED :: int where "OP_ACCOUNT_STATE_CHANGED = 0x5af8273b"
definition OP_MERCHANT_PAYMENT :: int where "OP_MERCHANT_PAYMENT = 0x3b4c2365"
definition OP_NFT_TRANSFER :: int where "OP_NFT_TRANSFER = 0x8fc3fa67"
definition OP_PROTOCOL_METRICS_RECORDED :: int where "OP_PROTOCOL_METRICS_RECORDED = 0xe4011001"
definition OP_LOCK_ACTIVITY_RECORDED :: int where "OP_LOCK_ACTIVITY_RECORDED = 0xe4011002"
definition OP_PARAMETER_CHANGE_RECORDED :: int where "OP_PARAMETER_CHANGE_RECORDED = 0xe4011003"
definition OP_OWNERSHIP_ASSIGNED :: int where "OP_OWNERSHIP_ASSIGNED = 0x05138d91"

lemmas op_defs = OP_INTERNAL_TRANSFER_EVENT_def OP_ACCOUNT_STATE_CHANGED_def OP_MERCHANT_PAYMENT_def
  OP_NFT_TRANSFER_def OP_PROTOCOL_METRICS_RECORDED_def OP_LOCK_ACTIVITY_RECORDED_def
  OP_PARAMETER_CHANGE_RECORDED_def OP_OWNERSHIP_ASSIGNED_def

definition decodeInternalTransferEvent :: "'c slice_ops \<Rightarrow> 'c \<Rightarrow> event_body option" where
  "decodeInternalTransferEvent sl slc =
     ld (sl_loadAddress sl) slc (\<lambda>fromNft slc.
     ld (sl_loadAddress sl) slc (\<lambda>toNft slc.
     ld (sl_loadCoins sl) slc (\<lambda>amountTbc slc.
     ld (sl_loadUint sl 256) slc (\<lambda>payloadHash _.
       Some (InternalTransfer fromNft toNft amountTbc (hash256 payloadHash))))))"

definition decodeAccountStateChangedEvent :: "'c slice_ops \<Rightarrow> 'c \<Rightarrow> event_body option" where
  "decodeAccountStateChangedEvent sl slc =
     ld (sl_loadAddress sl) slc (\<lambda>nftAddress slc.
     ld (sl_loadUint sl 8) slc (\<lambda>oldState slc.
     ld (sl_loadUint sl 8) slc (\<lambda>newState _.
       (case accountStateFromNumber oldState of
          None \<Rightarrow> None
        | Some oldS \<Rightarrow> map_option (AccountStateChanged nftAddress oldS) (accountStateFromNumber newState)))))"

definition decodeMerchantPaymentEvent :: "'c slice_ops \<Rightarrow> 'c \<Rightarrow> event_body option" where
  "decodeMerchantPaymentEvent sl slc =
     ld (sl_loadAddress sl) slc (\<lambda>payerNft slc.
     ld (sl_loadAddress sl) slc (\<lambda>merchantNft slc.
     ld (sl_loadCoins sl) slc (\<lambda>amountTbc slc.
     ld (sl_loadInt sl 257) slc (\<lambda>payloadHashInt _.
       Some (MerchantPayment payerNft merchantNft amountTbc (hash257 payloadHashInt))))))"

text \<open>\<open>msg.source ?? contractAddress\<close> and its like; an address and a hash are strings where they are present.\<close>

definition nullish_or :: "json \<Rightarrow> string \<Rightarrow> string" where
  "nullish_or v d = (case v of JUndef \<Rightarrow> d | JNull \<Rightarrow> d | _ \<Rightarrow> jstr v)"

definition decodeNFTOwnershipChange :: "'c slice_ops \<Rightarrow> json \<Rightarrow> 'c \<Rightarrow> int \<Rightarrow> string \<Rightarrow> event_body option" where
  "decodeNFTOwnershipChange sl msg slc opc contractAddress =
     (if opc = OP_OWNERSHIP_ASSIGNED then
        ld (sl_loadUint sl 64) slc (\<lambda>_ slc.
        ld (sl_loadMaybeAddress sl) slc (\<lambda>prevOwner _.
          let newOwner = nullish_or (jget ''destination'' msg) [] in
          if newOwner = [] then None
          else Some (NFTOwnershipChange (nullish_or (jget ''source'' msg) contractAddress) prevOwner newOwner contractAddress)))
      else
        ld (sl_loadAddress sl) slc (\<lambda>newOwner _.
          if newOwner = [] then None
          else Some (NFTOwnershipChange (nullish_or (jget ''source'' msg) contractAddress) None newOwner contractAddress)))"

definition decodeProtocolMetricsRecorded :: "'c slice_ops \<Rightarrow> 'c \<Rightarrow> event_body option" where
  "decodeProtocolMetricsRecorded sl slc =
     ld (sl_loadUint sl 32) slc (\<lambda>periodStart slc.
     ld (sl_loadUint sl 32) slc (\<lambda>periodEnd slc.
     ld (sl_loadUint sl 32) slc (\<lambda>activeAccounts slc.
     ld (sl_loadCoins sl) slc (\<lambda>volume slc.
     ld (sl_loadUint sl 32) slc (\<lambda>transferCount _.
       Some (TransparencyProtocolMetrics periodStart periodEnd activeAccounts volume transferCount))))))"

definition decodeLockActivityRecorded :: "'c slice_ops \<Rightarrow> 'c \<Rightarrow> event_body option" where
  "decodeLockActivityRecorded sl slc =
     ld (sl_loadUint sl 32) slc (\<lambda>periodStart slc.
     ld (sl_loadUint sl 32) slc (\<lambda>periodEnd slc.
     ld (sl_loadUint sl 32) slc (\<lambda>locksSet slc.
     ld (sl_loadUint sl 32) slc (\<lambda>locksCleared slc.
     ld (sl_loadUint sl 32) slc (\<lambda>locksActive slc.
     ld (sl_loadUint sl 32) slc (\<lambda>appealsFiled slc.
     ld (sl_loadUint sl 32) slc (\<lambda>appealsOverturned slc.
     ld (sl_loadUint sl 32) slc (\<lambda>appealsUpheld _.
       Some (TransparencyLockActivity periodStart periodEnd locksSet locksCleared locksActive
         appealsFiled appealsOverturned appealsUpheld)))))))))"

text \<open>
  \<open>Number\<close> of a bigint that is not negative: the nearest number with 53 significant bits, the even one of two.
\<close>

fun bit_length :: "nat \<Rightarrow> nat" where
  "bit_length n = (if n = 0 then 0 else Suc (bit_length (n div 2)))"

declare bit_length.simps [simp del]

definition number_of_bigint :: "int \<Rightarrow> int" where
  "number_of_bigint n =
     (if n < 2 ^ 53 then n
      else let k = bit_length (nat n) - 53; q = n div 2 ^ k; r = n mod 2 ^ k
           in (if 2 * r > 2 ^ k \<or> 2 * r = 2 ^ k \<and> odd q then q + 1 else q) * 2 ^ k)"

definition decodeParameterChangeRecorded :: "'c slice_ops \<Rightarrow> 'c \<Rightarrow> event_body option" where
  "decodeParameterChangeRecorded sl slc =
     ld (sl_loadRefString sl) slc (\<lambda>parameterId slc.
     ld (sl_loadUint sl 256) slc (\<lambda>oldValueHash slc.
     ld (sl_loadUint sl 256) slc (\<lambda>newValueHash slc.
     ld (sl_loadUint sl 64) slc (\<lambda>effectiveBlock slc.
     ld (sl_loadBit sl) slc (\<lambda>hasProposal slc.
       if hasProposal then
         ld (sl_loadUint sl 64) slc (\<lambda>proposal _.
           Some (TransparencyParameterChange parameterId (hash256 oldValueHash) (hash256 newValueHash)
             (number_of_bigint effectiveBlock) (Some (number_of_bigint proposal))))
       else Some (TransparencyParameterChange parameterId (hash256 oldValueHash) (hash256 newValueHash)
             (number_of_bigint effectiveBlock) None))))))"

section \<open>Messages and transactions\<close>

definition message_body :: "json \<Rightarrow> json" where
  "message_body msg =
     (let b = jget ''body'' (jget ''msg_data'' msg) in
      if b = JUndef \<or> b = JNull then
        (let c = jget ''body'' msg in if c = JNull then JUndef else c)
      else b)"

definition isExternalOut :: "json \<Rightarrow> bool" where
  "isExternalOut msg \<longleftrightarrow> (case jget ''destination'' msg of JUndef \<Rightarrow> True | JNull \<Rightarrow> True | JStr s \<Rightarrow> s = [] | _ \<Rightarrow> False)"

text \<open>The dispatch on the kind of message and the op code.\<close>

definition route_message :: "'c slice_ops \<Rightarrow> json \<Rightarrow> 'c \<Rightarrow> int \<Rightarrow> string \<Rightarrow> event_body option" where
  "route_message sl msg slc opc contractAddress =
     (if isExternalOut msg then
        if opc = OP_INTERNAL_TRANSFER_EVENT then decodeInternalTransferEvent sl slc
        else if opc = OP_ACCOUNT_STATE_CHANGED then decodeAccountStateChangedEvent sl slc
        else if opc = OP_MERCHANT_PAYMENT then decodeMerchantPaymentEvent sl slc
        else if opc = OP_PROTOCOL_METRICS_RECORDED then decodeProtocolMetricsRecorded sl slc
        else if opc = OP_LOCK_ACTIVITY_RECORDED then decodeLockActivityRecorded sl slc
        else if opc = OP_PARAMETER_CHANGE_RECORDED then decodeParameterChangeRecorded sl slc
        else None
      else if opc = OP_OWNERSHIP_ASSIGNED \<or> opc = OP_NFT_TRANSFER then
        decodeNFTOwnershipChange sl msg slc opc contractAddress
      else None)"

definition parseOutMessage :: "'c slice_ops \<Rightarrow> json \<Rightarrow> string \<Rightarrow> base_event \<Rightarrow> indexed_event option" where
  "parseOutMessage sl msg contractAddress base =
     (if \<not> js_truthy msg then None
      else if \<not> js_truthy (message_body msg) then None
      else case sl_fromBase64 sl (jstr (message_body msg)) of
        None \<Rightarrow> None
      | Some slc \<Rightarrow>
          if sl_remainingBits sl slc < 32 then None
          else ld (sl_loadUint sl 32) slc (\<lambda>opc slc.
            map_option (Pair base) (route_message sl msg slc opc contractAddress)))"

fun jarr :: "json \<Rightarrow> json list" where
  "jarr (JArr vs) = vs"
| "jarr _ = []"

fun parse_out_msgs :: "'c slice_ops \<Rightarrow> string \<Rightarrow> int \<Rightarrow> string \<Rightarrow> int \<Rightarrow> nat \<Rightarrow> json list \<Rightarrow> indexed_event list" where
  "parse_out_msgs sl contractAddress blockNumber txHash timestamp i [] = []"
| "parse_out_msgs sl contractAddress blockNumber txHash timestamp i (msg # msgs) =
     (case parseOutMessage sl msg contractAddress
        \<lparr>be_blockNumber = blockNumber, be_transactionHash = txHash, be_timestamp = timestamp, be_logIndex = i\<rparr> of
        Some e \<Rightarrow> [e] | None \<Rightarrow> [])
     @ parse_out_msgs sl contractAddress blockNumber txHash timestamp (Suc i) msgs"

definition parseTransaction :: "'c slice_ops \<Rightarrow> json \<Rightarrow> string \<Rightarrow> int \<Rightarrow> int \<Rightarrow> indexed_event list" where
  "parseTransaction sl transaction contractAddress blockNumber timestamp =
     (if \<not> js_truthy transaction then []
      else let txHash = nullish_or (jget ''hash'' transaction) [];
               outMsgs = jarr (jget ''out_msgs'' transaction)
           in parse_out_msgs sl contractAddress blockNumber txHash timestamp 0 outMsgs
              @ (if js_truthy (jget ''in_msg'' transaction)
                 then parse_out_msgs sl contractAddress blockNumber txHash timestamp (length outMsgs) [jget ''in_msg'' transaction]
                 else []))"

section \<open>Facts\<close>

lemma confirmed_iff: "0 < k \<Longrightarrow> isBlockConfirmed head b k \<longleftrightarrow> b \<le> head - k"
  by (auto simp: isBlockConfirmed_def confirmationDepth_def max_def)

lemma accountState_roundtrip: "accountStateFromNumber (account_state_number s) = Some s"
  by (cases s) (simp_all add: accountStateFromNumber_def)

lemma accountStateFromNumber_Some: "accountStateFromNumber n = Some s \<longleftrightarrow> account_state_number s = n"
  by (cases s) (auto simp: accountStateFromNumber_def)

lemma hex_nat_digits: "list_all is_hex_lower (hex_nat n)"
  by (induction n rule: hex_nat.induct) (subst hex_nat.simps, simp add: hex_digit_lower)

lemma hex_nat_length: "n < 16 ^ k \<Longrightarrow> 0 < k \<Longrightarrow> length (hex_nat n) \<le> k"
proof (induction n arbitrary: k rule: hex_nat.induct)
  case (1 n)
  show ?case
  proof (cases "n < 16")
    case True
    with "1.prems" show ?thesis by (subst hex_nat.simps) simp
  next
    case False
    then have k: "1 < k" using "1.prems" by (cases k; cases "k - 1") auto
    then have "n div 16 < 16 ^ (k - 1)"
      using "1.prems"(1) by (simp add: less_mult_imp_div_less flip: power_Suc2)
    with "1.IH" [OF False, of "k - 1"] False k show ?thesis by (subst hex_nat.simps) simp
  qed
qed

text \<open>Every 256-bit hash is rendered as \<open>0x\<close> and exactly 64 lower-case digits.\<close>

lemma hash256_format:
  assumes "0 \<le> h" "h < 2 ^ 256"
  shows "length (hash256 h) = 66" "list_all is_hex_lower (drop 2 (hash256 h))"
proof -
  have "nat h < 16 ^ 64" using assms by (simp add: nat_less_iff)
  then have "length (hex_nat (nat h)) \<le> 64" by (rule hex_nat_length) simp
  then show "length (hash256 h) = 66" by (simp add: hash256_def padStart64_def)
  show "list_all is_hex_lower (drop 2 (hash256 h))"
    using hex_nat_digits by (auto simp: hash256_def padStart64_def list_all_iff is_hex_lower_def is_digit_def)
qed

lemma hex_nat_inj: "hex_nat m = hex_nat n \<Longrightarrow> m = n"
proof (induction m arbitrary: n rule: hex_nat.induct)
  case (1 m)
  show ?case
  proof (cases "m < 16 \<or> n < 16")
    case True
    then show ?thesis using "1.prems"
      by (subst (asm) (1 2) hex_nat.simps) (auto simp: hex_digit_inj hex_nat.simps [of "_ div 16"] split: if_splits)
  next
    case False
    then have "hex_nat (m div 16) = hex_nat (n div 16)" "m mod 16 = n mod 16"
      using "1.prems" by (subst (asm) (1 2) hex_nat.simps, simp add: hex_digit_inj)+
    with "1.IH" False show ?thesis by (metis div_mult_mod_eq)
  qed
qed

lemma makeEventId_inj:
  assumes "t \<noteq> []" "t' \<noteq> []" "CHR '':'' \<notin> set t" "CHR '':'' \<notin> set t'"
    and "makeEventId b (Some t) (Some i) = makeEventId b' (Some t') (Some i')"
  shows "b = b' \<and> t = t' \<and> i = i'"
proof -
  have colon: "CHR '':'' \<notin> set (dec n)" for n using dec_digits [of n] by (auto simp: list_all_iff is_digit_def)
  then have "CHR '':'' \<notin> set (dec_int n)" for n by (simp add: dec_int_def)
  moreover have "js_split CHR '':'' (makeEventId b (Some t) (Some i)) = js_split CHR '':'' (makeEventId b' (Some t') (Some i'))"
    using assms(5) by simp
  ultimately show ?thesis using assms(1-4) colon
    by (simp add: makeEventId_def js_split_append js_split_no_sep)
qed

lemma parseOutMessage_base: "parseOutMessage sl m c base = Some x \<Longrightarrow> fst x = base"
  unfolding parseOutMessage_def by (auto simp: ld_Some simp del: split_paired_Ex split: if_split_asm option.split_asm)

lemma parse_out_msgs_base:
  "x \<in> set (parse_out_msgs sl c b t ts i msgs) \<Longrightarrow>
     be_blockNumber (fst x) = b \<and> be_transactionHash (fst x) = t \<and> be_timestamp (fst x) = ts
     \<and> i \<le> be_logIndex (fst x) \<and> be_logIndex (fst x) < i + length msgs"
proof (induction msgs arbitrary: i)
  case (Cons m msgs)
  let ?base = "\<lparr>be_blockNumber = b, be_transactionHash = t, be_timestamp = ts, be_logIndex = i\<rparr>"
  from Cons.prems consider "parseOutMessage sl m c ?base = Some x" | "x \<in> set (parse_out_msgs sl c b t ts (Suc i) msgs)"
    by (auto split: option.splits)
  then show ?case
  proof cases
    case 1
    from parseOutMessage_base [OF this] show ?thesis by simp
  next
    case 2
    from Cons.IH [OF this] show ?thesis by simp
  qed
qed simp

lemma parse_out_msgs_sorted: "sorted_wrt (<) (map (be_logIndex \<circ> fst) (parse_out_msgs sl c b t ts i msgs))"
proof (induction msgs arbitrary: i)
  case (Cons m msgs)
  let ?base = "\<lparr>be_blockNumber = b, be_transactionHash = t, be_timestamp = ts, be_logIndex = i\<rparr>"
  have "i < be_logIndex (fst x)" if "x \<in> set (parse_out_msgs sl c b t ts (Suc i) msgs)" for x
    using parse_out_msgs_base [OF that] by simp
  moreover have "fst x = ?base" if "parseOutMessage sl m c ?base = Some x" for x
    by (rule parseOutMessage_base [OF that])
  ultimately show ?case using Cons [of "Suc i"]
    by (auto split: option.split)
qed simp

lemma parse_out_msgs_append:
  "parse_out_msgs sl c b t ts i (xs @ ys) = parse_out_msgs sl c b t ts i xs @ parse_out_msgs sl c b t ts (i + length xs) ys"
  by (induction xs arbitrary: i) simp_all

text \<open>A loaded unsigned integer of \<open>n\<close> bits is below \<open>2^n\<close>.\<close>

definition uint_bounds :: "'c slice_ops \<Rightarrow> bool" where
  "uint_bounds sl \<longleftrightarrow> (\<forall>n c x c'. sl_loadUint sl n c = Some (x, c') \<longrightarrow> 0 \<le> x \<and> x < 2 ^ n)"

definition hash_format :: "string \<Rightarrow> bool" where
  "hash_format h \<longleftrightarrow> length h = 66 \<and> starts_with ''0x'' h \<and> list_all is_hex_lower (drop 2 h)"

fun body_wellformed :: "bool \<Rightarrow> event_body \<Rightarrow> bool" where
  "body_wellformed external (InternalTransfer f t a h) = (external \<and> hash_format h)"
| "body_wellformed external (NFTOwnershipChange n prev w c) = (\<not> external \<and> w \<noteq> [])"
| "body_wellformed external (TransparencyParameterChange p oh nh e g) =
     (external \<and> hash_format oh \<and> hash_format nh \<and> 0 \<le> e \<and> e \<le> 2 ^ 64 \<and> (\<forall>p. g = Some p \<longrightarrow> 0 \<le> p \<and> p \<le> 2 ^ 64))"
| "body_wellformed external (TransparencyProtocolMetrics ps pe a v c) =
     (external \<and> 0 \<le> ps \<and> ps < 2 ^ 32 \<and> 0 \<le> pe \<and> pe < 2 ^ 32 \<and> 0 \<le> a \<and> a < 2 ^ 32 \<and> 0 \<le> c \<and> c < 2 ^ 32)"
| "body_wellformed external _ = external"

lemma bit_length_bounds: "0 < n \<Longrightarrow> 0 < bit_length n \<and> 2 ^ (bit_length n - 1) \<le> n \<and> n < 2 ^ bit_length n"
proof (induction n rule: bit_length.induct)
  case (1 n)
  show ?case
  proof (cases "n div 2 = 0")
    case True
    with 1 have "n = 1" by simp
    then show ?thesis by (simp add: bit_length.simps)
  next
    case False
    with 1 have ih: "0 < bit_length (n div 2)" "2 ^ (bit_length (n div 2) - 1) \<le> n div 2" "n div 2 < 2 ^ bit_length (n div 2)" by auto
    have b: "bit_length n = Suc (bit_length (n div 2))" using 1 by (subst bit_length.simps) simp
    have e: "(2 :: nat) ^ bit_length (n div 2) = 2 * 2 ^ (bit_length (n div 2) - 1)" using ih(1) by (cases "bit_length (n div 2)") simp_all
    have "2 ^ bit_length (n div 2) \<le> n" using ih(2) unfolding e by linarith
    moreover have "n < 2 * 2 ^ bit_length (n div 2)" using ih(3) by linarith
    ultimately show ?thesis unfolding b by simp
  qed
qed

lemma if_times_cases: "(if c then q + 1 else q) * p = q * p \<or> (if c then q + 1 else q) * p = (q + 1) * (p :: int)"
  by simp

lemma number_of_bigint_bounds:
  assumes "0 \<le> n" "n < 2 ^ 64"
  shows "0 \<le> number_of_bigint n \<and> number_of_bigint n \<le> 2 ^ 64"
proof (cases "n < 2 ^ 53")
  case False
  define m where "m = nat n"
  define b where "b = bit_length m"
  have n: "n = int m" "0 < m" "2 ^ 53 \<le> m" "m < 2 ^ 64" using assms False by (auto simp: m_def nat_less_iff le_nat_iff)
  have b: "2 ^ (b - 1) \<le> m" "m < 2 ^ b" using bit_length_bounds [OF n(2)] by (simp_all add: b_def)
  have "(2 :: nat) ^ 53 < 2 ^ b" "(2 :: nat) ^ (b - 1) < 2 ^ 64" using n(3,4) b by linarith+
  then have "53 < b" "b - 1 < 64" using power_less_imp_less_exp [of "2 :: nat"] by (metis one_less_numeral_iff semiring_norm(76))+
  then have k: "53 < b" "b \<le> 64" by linarith+
  define k where "k = b - 53"
  have "(2 :: nat) ^ 53 * 2 ^ k = 2 ^ b" unfolding power_add [symmetric] using k(1) by (simp only: k_def) simp
  then have "m < 2 ^ 53 * 2 ^ k" using b(2) by linarith
  then have "int m < int (2 ^ 53 * 2 ^ k)" by (simp only: of_nat_less_iff)
  then have "n < 2 ^ 53 * 2 ^ k" unfolding n(1) by (simp only: of_nat_mult of_nat_power of_nat_numeral)
  moreover have "n div 2 ^ k * 2 ^ k \<le> n"
  proof -
    have "0 \<le> n mod 2 ^ k" by simp
    then show ?thesis using div_mult_mod_eq [of n "2 ^ k"] by linarith
  qed
  ultimately have "n div 2 ^ k * 2 ^ k < 2 ^ 53 * 2 ^ k" by linarith
  then have q: "n div 2 ^ k < 2 ^ 53" by (simp only: mult_less_cancel_right) simp
  have q0: "0 \<le> n div 2 ^ k" using assms(1) by (simp add: pos_imp_zdiv_nonneg_iff)
  have "(2 :: int) ^ 53 * 2 ^ k \<le> 2 ^ 64" unfolding power_add [symmetric] using k by (intro power_increasing) (simp_all add: k_def)
  moreover have "(n div 2 ^ k + 1) * 2 ^ k \<le> 2 ^ 53 * (2 :: int) ^ k" using q by (intro mult_right_mono) simp_all
  ultimately have up: "(n div 2 ^ k + 1) * 2 ^ k \<le> 2 ^ 64" by linarith
  have "0 \<le> n div 2 ^ k * 2 ^ k" "n div 2 ^ k * 2 ^ k \<le> (n div 2 ^ k + 1) * 2 ^ k"
    using q0 by (simp_all add: mult_right_mono)
  moreover have "number_of_bigint n = n div 2 ^ k * 2 ^ k \<or> number_of_bigint n = (n div 2 ^ k + 1) * 2 ^ k"
    using False by (simp only: number_of_bigint_def Let_def k_def b_def m_def if_False) (rule if_times_cases)
  ultimately show ?thesis using up by linarith
qed (use assms in \<open>simp add: number_of_bigint_def\<close>)

text \<open>Above 53 bits the number is not the one that was recorded.\<close>

lemma recorded_height_rounded:
  "number_of_bigint (2 ^ 64 - 1) = 2 ^ 64" "number_of_bigint (2 ^ 53 + 1) = 2 ^ 53" "number_of_bigint (2 ^ 53 + 3) = 2 ^ 53 + 4"
  by (simp_all add: number_of_bigint_def Let_def bit_length.simps)

lemma hash_format_256: "0 \<le> h \<Longrightarrow> h < 2 ^ 256 \<Longrightarrow> hash_format (hash256 h)"
  using hash256_format [of h] by (simp add: hash_format_def) (simp add: hash256_def starts_with_def)

lemma decode_wellformed:
  assumes sl: "uint_bounds sl"
  shows "decodeInternalTransferEvent sl c = Some e \<Longrightarrow> body_wellformed True e"
    and "decodeAccountStateChangedEvent sl c = Some e \<Longrightarrow> body_wellformed True e"
    and "decodeMerchantPaymentEvent sl c = Some e \<Longrightarrow> body_wellformed True e"
    and "decodeProtocolMetricsRecorded sl c = Some e \<Longrightarrow> body_wellformed True e"
    and "decodeLockActivityRecorded sl c = Some e \<Longrightarrow> body_wellformed True e"
    and "decodeParameterChangeRecorded sl c = Some e \<Longrightarrow> body_wellformed True e"
    and "decodeNFTOwnershipChange sl m c opc a = Some e \<Longrightarrow> body_wellformed False e"
proof -
  have u: "sl_loadUint sl n c = Some (x, c') \<Longrightarrow> 0 \<le> x \<and> x < 2 ^ n" for n c x c'
    using sl by (auto simp: uint_bounds_def)
  show "decodeInternalTransferEvent sl c = Some e \<Longrightarrow> body_wellformed True e"
    by (auto simp: decodeInternalTransferEvent_def ld_Some hash_format_256 dest: u)
  show "decodeAccountStateChangedEvent sl c = Some e \<Longrightarrow> body_wellformed True e"
    by (auto simp: decodeAccountStateChangedEvent_def ld_Some split: option.split_asm)
  show "decodeMerchantPaymentEvent sl c = Some e \<Longrightarrow> body_wellformed True e"
    by (auto simp: decodeMerchantPaymentEvent_def ld_Some)
  show "decodeProtocolMetricsRecorded sl c = Some e \<Longrightarrow> body_wellformed True e"
    by (auto simp: decodeProtocolMetricsRecorded_def ld_Some dest!: u)
  show "decodeLockActivityRecorded sl c = Some e \<Longrightarrow> body_wellformed True e"
    by (auto simp: decodeLockActivityRecorded_def ld_Some)
  show "decodeParameterChangeRecorded sl c = Some e \<Longrightarrow> body_wellformed True e"
    using number_of_bigint_bounds by (auto simp: decodeParameterChangeRecorded_def ld_Some hash_format_256 dest!: u split: if_splits)
  show "decodeNFTOwnershipChange sl m c opc a = Some e \<Longrightarrow> body_wellformed False e"
    by (auto simp: decodeNFTOwnershipChange_def ld_Some Let_def split: if_splits)
qed

lemma route_wellformed:
  assumes "uint_bounds sl" "route_message sl m c opc a = Some e"
  shows "body_wellformed (isExternalOut m) e"
  using assms(2) unfolding route_message_def by (simp add: decode_wellformed [OF assms(1)] split: if_split_asm)

lemma parseOutMessage_wellformed:
  assumes "uint_bounds sl" "parseOutMessage sl m c base = Some x"
  shows "body_wellformed (isExternalOut m) (snd x)"
  using assms(2) unfolding parseOutMessage_def
  by (auto simp: ld_Some dest: route_wellformed [OF assms(1)] split: if_split_asm option.split_asm)

section \<open>Properties\<close>

text \<open>
  Attribution: every event parsed from a transaction carries the block height, the timestamp
  and the hash of the transaction it was asked to be attributed to, and the log indices of the
  events of one transaction are strictly increasing, so no two of them share an index.
\<close>

theorem parser_attribution:
  "list_all (\<lambda>x. be_blockNumber (fst x) = blockNumber \<and> be_timestamp (fst x) = timestamp
       \<and> be_transactionHash (fst x) = nullish_or (jget ''hash'' transaction) [])
     (parseTransaction sl transaction c blockNumber timestamp)
   \<and> sorted_wrt (<) (map (be_logIndex \<circ> fst) (parseTransaction sl transaction c blockNumber timestamp))"
proof (cases "js_truthy transaction")
  case False
  then show ?thesis by (simp add: parseTransaction_def)
next
  case True
  define ms where "ms = jarr (jget ''out_msgs'' transaction) @ (if js_truthy (jget ''in_msg'' transaction) then [jget ''in_msg'' transaction] else [])"
  have "parseTransaction sl transaction c blockNumber timestamp =
      parse_out_msgs sl c blockNumber (nullish_or (jget ''hash'' transaction) []) timestamp 0 ms"
    using True by (simp add: parseTransaction_def Let_def ms_def parse_out_msgs_append)
  then show ?thesis
    using parse_out_msgs_sorted parse_out_msgs_base by (simp add: list_all_iff) blast
qed


text \<open>A library whose cells are lists of integers.\<close>

definition int_slices :: "int list slice_ops" where
  "int_slices = \<lparr>sl_fromBase64 = (\<lambda>s. Some (map (\<lambda>c. of_char c) s)), sl_remainingBits = (\<lambda>c. 32 * length c),
     sl_loadUint = (\<lambda>n c. case c of [] \<Rightarrow> None | x # r \<Rightarrow> Some (if n = 32 then OP_INTERNAL_TRANSFER_EVENT else x mod 2 ^ n, r)),
     sl_loadInt = (\<lambda>n c. case c of [] \<Rightarrow> None | x # r \<Rightarrow> Some (x, r)),
     sl_loadCoins = (\<lambda>c. case c of [] \<Rightarrow> None | x # r \<Rightarrow> Some (x, r)),
     sl_loadAddress = (\<lambda>c. case c of [] \<Rightarrow> None | x # r \<Rightarrow> Some (dec_int x, r)),
     sl_loadMaybeAddress = (\<lambda>c. None), sl_loadBit = (\<lambda>c. None), sl_loadRefString = (\<lambda>c. None)\<rparr>"


end
