(* ===== verification/Idx_Database.thy ===== *)
theory Idx_Database
  imports Idx_Events "HOL-Library.Product_Lexorder"
begin

text \<open>
  The indexer's database (\<open>backend/indexer/src/db/database.ts\<close> over the SQLite schema of
  \<open>src/db/migrations\<close>). A table is the list of its rows in order of their row identifiers; the
  schema's constraints are written into the statements that can violate them: \<open>blocks\<close> is
  replaced on an equal number or hash, event rows are unique in transaction hash and log index and
  refer to a block, and deleting a block deletes the rows that refer to it. \<open>ap\<close> stands for
  \<open>Address.parse(a).toString(..)\<close> of \<open>@ton/core\<close> (\<open>None\<close> where it throws), \<open>now\<close> for the clock.
  Where SQL leaves the order of rows with equal sort keys open, the row inserted last is taken.
\<close>

section \<open>Tables\<close>

record block_row =
  bl_number :: int
  bl_hash :: string
  bl_parent :: string
  bl_timestamp :: int
  bl_tx_count :: nat
  bl_indexed_at :: int
  bl_confirmed :: bool

record 'a event_row =
  r_block :: int
  r_tx :: string
  r_log :: nat
  r_ts :: int
  r_data :: 'a

record transfer_data =
  td_from :: string
  td_to :: string
  td_amount :: string
  td_payload :: string

record state_data =
  sd_nft :: string
  sd_old :: int
  sd_new :: int

record owner_data =
  od_nft :: string
  od_collection :: string
  od_old :: "string option"
  od_new :: string

record metrics_data =
  md_start :: int
  md_end :: int
  md_accounts :: int
  md_volume :: string
  md_transfers :: int

record lock_data =
  lk_start :: int
  lk_end :: int
  lk_set :: int
  lk_cleared :: int
  lk_active :: int
  lk_filed :: int
  lk_overturned :: int
  lk_upheld :: int

record param_data =
  pd_id :: string
  pd_old :: string
  pd_new :: string
  pd_effective :: int
  pd_proposal :: "int option"

record snapshot =
  sn_owner :: "string option"
  sn_state :: int
  sn_transfer :: "int option"
  sn_state_change :: "int option"
  sn_updated :: int

datatype history_event =
    H_transfer (he_ts: int) (he_block: int) (he_tx: string) (he_log: nat) (he_from: string) (he_to: string) (he_amount: string) (he_payload: string)
  | H_payment (he_ts: int) (he_block: int) (he_tx: string) (he_log: nat) (he_payer: string) (he_merchant: string) (he_amount: string) (he_payload: string)
  | H_state_change (he_ts: int) (he_block: int) (he_tx: string) (he_log: nat) (he_old: int) (he_new: int)

datatype history_cursor = No_cursor | Before_time int | Before_event int string nat

record history_result =
  hr_events :: "history_event list"
  hr_total :: nat

record history_cache_entry =
  hc_nft :: string
  hc_result :: history_result
  hc_cachedAt :: int

record idx_db =
  latest_block_indexed :: int
  latest_block_timestamp :: int
  last_update_time :: int
  latest_chain_seqno :: int
  blocks :: "block_row list"
  internal_transfers :: "transfer_data event_row list"
  merchant_payments :: "transfer_data event_row list"
  account_state_changes :: "state_data event_row list"
  nft_ownership_changes :: "owner_data event_row list"
  transparency_metrics :: "metrics_data event_row list"
  transparency_locks :: "lock_data event_row list"
  transparency_params :: "param_data event_row list"
  account_snapshots :: "(string, snapshot) amap"
  historyCache :: "(string, history_cache_entry) amap"

definition empty_db :: idx_db where
  "empty_db = \<lparr>latest_block_indexed = 0, latest_block_timestamp = 0, last_update_time = 0, latest_chain_seqno = 0,
     blocks = [], internal_transfers = [], merchant_payments = [], account_state_changes = [],
     nft_ownership_changes = [], transparency_metrics = [], transparency_locks = [], transparency_params = [],
     account_snapshots = [], historyCache = []\<rparr>"

datatype db_error = Foreign_key | Unique_constraint

type_synonym 'a db_result = "(db_error + 'a) \<times> idx_db"

section \<open>Addresses, cursor and chain head\<close>

definition normalizeTonAddress :: "(string \<Rightarrow> string option) \<Rightarrow> string \<Rightarrow> string" where
  "normalizeTonAddress ap address =
     (if address = [] then address
      else case ap address of Some s \<Rightarrow> s | None \<Rightarrow> address)"

definition normalizeNullableTonAddress :: "(string \<Rightarrow> string option) \<Rightarrow> string option \<Rightarrow> string option" where
  "normalizeNullableTonAddress ap address = map_option (normalizeTonAddress ap) address"

definition getLatestBlockIndexed :: "idx_db \<Rightarrow> int" where
  "getLatestBlockIndexed db = latest_block_indexed db"

definition getLatestChainSeqno :: "idx_db \<Rightarrow> int" where
  "getLatestChainSeqno db = latest_chain_seqno db"

definition setLatestChainSeqno :: "int \<Rightarrow> idx_db \<Rightarrow> idx_db" where
  "setLatestChainSeqno seqno db =
     (if seqno > latest_chain_seqno db then db\<lparr>latest_chain_seqno := seqno\<rparr> else db)"

definition updateLatestBlock :: "int \<Rightarrow> int \<Rightarrow> int \<Rightarrow> idx_db \<Rightarrow> idx_db" where
  "updateLatestBlock now blockNumber timestamp db =
     db\<lparr>latest_block_indexed := blockNumber, latest_block_timestamp := timestamp, last_update_time := now\<rparr>"

section \<open>Blocks\<close>

text \<open>\<open>DELETE FROM blocks\<close> with the cascade to every table that refers to \<open>blocks\<close>.\<close>

definition delete_blocks :: "(block_row \<Rightarrow> bool) \<Rightarrow> idx_db \<Rightarrow> idx_db" where
  "delete_blocks P db =
     (let gone = (\<lambda>n. list_ex (\<lambda>b. P b \<and> bl_number b = n) (blocks db))
      in db\<lparr>blocks := filter (\<lambda>b. \<not> P b) (blocks db),
           internal_transfers := filter (\<lambda>r. \<not> gone (r_block r)) (internal_transfers db),
           merchant_payments := filter (\<lambda>r. \<not> gone (r_block r)) (merchant_payments db),
           account_state_changes := filter (\<lambda>r. \<not> gone (r_block r)) (account_state_changes db),
           nft_ownership_changes := filter (\<lambda>r. \<not> gone (r_block r)) (nft_ownership_changes db),
           transparency_metrics := filter (\<lambda>r. \<not> gone (r_block r)) (transparency_metrics db),
           transparency_locks := filter (\<lambda>r. \<not> gone (r_block r)) (transparency_locks db),
           transparency_params := filter (\<lambda>r. \<not> gone (r_block r)) (transparency_params db)\<rparr>)"

definition insertBlock :: "int \<Rightarrow> int \<Rightarrow> string \<Rightarrow> string \<Rightarrow> int \<Rightarrow> nat \<Rightarrow> idx_db \<Rightarrow> idx_db" where
  "insertBlock now blockNumber blockHash parentHash timestamp transactionCount db =
     (let db' = delete_blocks (\<lambda>b. bl_number b = blockNumber \<or> bl_hash b = blockHash) db in
      db'\<lparr>blocks := blocks db' @
        [\<lparr>bl_number = blockNumber, bl_hash = blockHash, bl_parent = parentHash, bl_timestamp = timestamp,
          bl_tx_count = transactionCount, bl_indexed_at = now, bl_confirmed = False\<rparr>]\<rparr>)"

definition markBlocksConfirmed :: "int \<Rightarrow> idx_db \<Rightarrow> idx_db" where
  "markBlocksConfirmed upToBlock db =
     db\<lparr>blocks := map (\<lambda>b. if bl_number b \<le> upToBlock then b\<lparr>bl_confirmed := True\<rparr> else b) (blocks db)\<rparr>"

definition getBlock :: "int \<Rightarrow> idx_db \<Rightarrow> block_row option" where
  "getBlock blockNumber db = find (\<lambda>b. bl_number b = blockNumber) (blocks db)"

definition detectReorg :: "int \<Rightarrow> string \<Rightarrow> idx_db \<Rightarrow> bool" where
  "detectReorg blockNumber expectedHash db =
     (case getBlock blockNumber db of None \<Rightarrow> False | Some stored \<Rightarrow> bl_hash stored \<noteq> expectedHash)"

section \<open>Account history and its cache\<close>

definition CACHE_TTL_MS :: int where
  "CACHE_TTL_MS = 5000"

definition ACCOUNT_HISTORY_CACHE_MAX_ENTRIES :: nat where
  "ACCOUNT_HISTORY_CACHE_MAX_ENTRIES = 1024"

definition history_rows :: "string \<Rightarrow> idx_db \<Rightarrow> history_event list" where
  "history_rows nft db =
     map (\<lambda>r. H_transfer (r_ts r) (r_block r) (r_tx r) (r_log r) (td_from (r_data r)) (td_to (r_data r))
            (td_amount (r_data r)) (td_payload (r_data r)))
       (filter (\<lambda>r. td_from (r_data r) = nft \<or> td_to (r_data r) = nft) (internal_transfers db))
     @ map (\<lambda>r. H_payment (r_ts r) (r_block r) (r_tx r) (r_log r) (td_from (r_data r)) (td_to (r_data r))
            (td_amount (r_data r)) (td_payload (r_data r)))
       (filter (\<lambda>r. td_from (r_data r) = nft \<or> td_to (r_data r) = nft) (merchant_payments db))
     @ map (\<lambda>r. H_state_change (r_ts r) (r_block r) (r_tx r) (r_log r) (sd_old (r_data r)) (sd_new (r_data r)))
       (filter (\<lambda>r. sd_nft (r_data r) = nft) (account_state_changes db))"

fun cursorFilter :: "history_cursor \<Rightarrow> history_event \<Rightarrow> bool" where
  "cursorFilter No_cursor e = True"
| "cursorFilter (Before_time t) e = (he_ts e < t)"
| "cursorFilter (Before_event t tx l) e =
     (he_ts e < t \<or> (he_ts e = t \<and> he_tx e > tx) \<or> (he_ts e = t \<and> he_tx e = tx \<and> he_log e > l))"

text \<open>\<open>ORDER BY timestamp DESC, transaction_hash ASC, log_index ASC\<close>.\<close>

definition history_key :: "history_event \<Rightarrow> int \<times> string \<times> nat" where
  "history_key e = (- he_ts e, he_tx e, he_log e)"

definition history_sort :: "history_event list \<Rightarrow> history_event list" where
  "history_sort xs = sort_key history_key xs"

definition history_query :: "string \<Rightarrow> nat \<Rightarrow> nat \<Rightarrow> history_cursor \<Rightarrow> idx_db \<Rightarrow> history_result" where
  "history_query nft limit offset before db =
     \<lparr>hr_events = take limit (drop offset (history_sort (filter (cursorFilter before) (history_rows nft db)))),
      hr_total = length (history_rows nft db)\<rparr>"

fun cursor_json :: "history_cursor \<Rightarrow> json" where
  "cursor_json No_cursor = JNull"
| "cursor_json (Before_time t) = JNum t"
| "cursor_json (Before_event t tx l) =
     JObj [(''timestamp'', JNum t), (''transactionHash'', JStr tx), (''logIndex'', JNum (int l))]"

definition accountHistoryCacheKey :: "string \<Rightarrow> nat \<Rightarrow> nat \<Rightarrow> history_cursor \<Rightarrow> string" where
  "accountHistoryCacheKey nft limit offset before =
     or_null (json_stringify (JArr [JStr nft, JNum (int limit), JNum (int offset), cursor_json before]))"

fun evict_oldest :: "(string, history_cache_entry) amap \<Rightarrow> (string, history_cache_entry) amap" where
  "evict_oldest [] = []"
| "evict_oldest (kv # m) =
     (if length (kv # m) > ACCOUNT_HISTORY_CACHE_MAX_ENTRIES then evict_oldest m else kv # m)"

definition setHistoryCacheEntry :: "string \<Rightarrow> history_cache_entry \<Rightarrow> idx_db \<Rightarrow> idx_db" where
  "setHistoryCacheEntry cacheKey entry db =
     db\<lparr>historyCache := evict_oldest (amap_set cacheKey entry (amap_delete cacheKey (historyCache db)))\<rparr>"

definition invalidateHistoryCache :: "(string \<Rightarrow> string option) \<Rightarrow> string \<Rightarrow> idx_db \<Rightarrow> idx_db" where
  "invalidateHistoryCache ap nft db =
     db\<lparr>historyCache := filter (\<lambda>(_, entry). hc_nft entry \<noteq> normalizeTonAddress ap nft) (historyCache db)\<rparr>"

definition getAccountHistory :: "(string \<Rightarrow> string option) \<Rightarrow> int \<Rightarrow> string \<Rightarrow> nat \<Rightarrow> nat \<Rightarrow> history_cursor \<Rightarrow> idx_db \<Rightarrow>
    history_result \<times> idx_db" where
  "getAccountHistory ap now nft limit offset before db =
     (let n = normalizeTonAddress ap nft;
          cacheKey = accountHistoryCacheKey n limit offset before;
          fresh = (\<lambda>db. let result = history_query n limit offset before db in
             (result, setHistoryCacheEntry cacheKey \<lparr>hc_nft = n, hc_result = result, hc_cachedAt = now\<rparr> db))
      in case amap_get cacheKey (historyCache db) of
           Some cached \<Rightarrow>
             if now - hc_cachedAt cached < CACHE_TTL_MS
             then (hc_result cached, db\<lparr>historyCache := amap_set cacheKey cached (amap_delete cacheKey (historyCache db))\<rparr>)
             else fresh (db\<lparr>historyCache := amap_delete cacheKey (historyCache db)\<rparr>)
         | None \<Rightarrow> fresh db)"

section \<open>Events and snapshots\<close>

text \<open>\<open>INSERT OR IGNORE\<close> of a row that is unique in transaction and log index and refers to a block.\<close>

definition insert_or_ignore :: "block_row list \<Rightarrow> 'a event_row \<Rightarrow> 'a event_row list \<Rightarrow> db_error + 'a event_row list" where
  "insert_or_ignore bs row rows =
     (if list_ex (\<lambda>r. r_tx r = r_tx row \<and> r_log r = r_log row) rows then Inr rows
      else if \<not> list_ex (\<lambda>b. bl_number b = r_block row) bs then Inl Foreign_key
      else Inr (rows @ [row]))"

definition updateAccountSnapshot :: "(string \<Rightarrow> string option) \<Rightarrow> int \<Rightarrow> string \<Rightarrow> int \<Rightarrow> idx_db \<Rightarrow> idx_db" where
  "updateAccountSnapshot ap now nft blockNumber db =
     (let n = normalizeTonAddress ap nft;
          snaps = (if amap_get n (account_snapshots db) = None
                   then amap_set n \<lparr>sn_owner = None, sn_state = 0, sn_transfer = Some blockNumber,
                          sn_state_change = None, sn_updated = now\<rparr> (account_snapshots db)
                   else account_snapshots db)
      in db\<lparr>account_snapshots :=
           (case amap_get n snaps of
              None \<Rightarrow> snaps
            | Some sn \<Rightarrow> amap_set n (sn\<lparr>sn_transfer := Some blockNumber, sn_updated := now\<rparr>) snaps)\<rparr>)"

text \<open>The shared tail of the two payment-like inserts.\<close>

definition touch_parties :: "(string \<Rightarrow> string option) \<Rightarrow> int \<Rightarrow> string \<Rightarrow> string \<Rightarrow> int \<Rightarrow> idx_db \<Rightarrow> idx_db" where
  "touch_parties ap now a b blockNumber db =
     invalidateHistoryCache ap b (invalidateHistoryCache ap a
       (updateAccountSnapshot ap now b blockNumber (updateAccountSnapshot ap now a blockNumber db)))"

definition insertInternalTransfer :: "(string \<Rightarrow> string option) \<Rightarrow> int \<Rightarrow> transfer_data event_row \<Rightarrow> idx_db \<Rightarrow> unit db_result" where
  "insertInternalTransfer ap now event db =
     (let d = r_data event;
          fromN = normalizeTonAddress ap (td_from d);
          toN = normalizeTonAddress ap (td_to d);
          row = event\<lparr>r_data := d\<lparr>td_from := fromN, td_to := toN\<rparr>\<rparr>
      in case insert_or_ignore (blocks db) row (internal_transfers db) of
           Inl e \<Rightarrow> (Inl e, db)
         | Inr rows \<Rightarrow> (Inr (), touch_parties ap now fromN toN (r_block event) (db\<lparr>internal_transfers := rows\<rparr>)))"

definition insertMerchantPayment :: "(string \<Rightarrow> string option) \<Rightarrow> int \<Rightarrow> transfer_data event_row \<Rightarrow> idx_db \<Rightarrow> unit db_result" where
  "insertMerchantPayment ap now event db =
     (let d = r_data event;
          payer = normalizeTonAddress ap (td_from d);
          merchant = normalizeTonAddress ap (td_to d);
          row = event\<lparr>r_data := d\<lparr>td_from := payer, td_to := merchant\<rparr>\<rparr>
      in case insert_or_ignore (blocks db) row (merchant_payments db) of
           Inl e \<Rightarrow> (Inl e, db)
         | Inr rows \<Rightarrow> (Inr (), touch_parties ap now payer merchant (r_block event) (db\<lparr>merchant_payments := rows\<rparr>)))"

definition insertAccountStateChange :: "(string \<Rightarrow> string option) \<Rightarrow> int \<Rightarrow> state_data event_row \<Rightarrow> idx_db \<Rightarrow> unit db_result" where
  "insertAccountStateChange ap now event db =
     (let n = normalizeTonAddress ap (sd_nft (r_data event));
          row = event\<lparr>r_data := (r_data event)\<lparr>sd_nft := n\<rparr>\<rparr>
      in case insert_or_ignore (blocks db) row (account_state_changes db) of
           Inl e \<Rightarrow> (Inl e, db)
         | Inr rows \<Rightarrow>
             (Inr (), invalidateHistoryCache ap n
               (db\<lparr>account_state_changes := rows,
                  account_snapshots := amap_set n
                    (case amap_get n (account_snapshots db) of
                       None \<Rightarrow> \<lparr>sn_owner = None, sn_state = sd_new (r_data event), sn_transfer = None,
                                 sn_state_change = Some (r_block event), sn_updated = now\<rparr>
                     | Some sn \<Rightarrow> sn\<lparr>sn_state := sd_new (r_data event), sn_state_change := Some (r_block event), sn_updated := now\<rparr>)
                    (account_snapshots db)\<rparr>)))"

definition insertNFTOwnershipChange :: "(string \<Rightarrow> string option) \<Rightarrow> int \<Rightarrow> owner_data event_row \<Rightarrow> idx_db \<Rightarrow> unit db_result" where
  "insertNFTOwnershipChange ap now event db =
     (let d = r_data event;
          n = normalizeTonAddress ap (od_nft d);
          newOwner = normalizeTonAddress ap (od_new d);
          row = event\<lparr>r_data := \<lparr>od_nft = n, od_collection = normalizeTonAddress ap (od_collection d),
                 od_old = normalizeNullableTonAddress ap (od_old d), od_new = newOwner\<rparr>\<rparr>
      in case insert_or_ignore (blocks db) row (nft_ownership_changes db) of
           Inl e \<Rightarrow> (Inl e, db)
         | Inr rows \<Rightarrow>
             (Inr (), invalidateHistoryCache ap n
               (db\<lparr>nft_ownership_changes := rows,
                  account_snapshots := amap_set n
                    (case amap_get n (account_snapshots db) of
                       None \<Rightarrow> \<lparr>sn_owner = Some newOwner, sn_state = 0, sn_transfer = None,
                                 sn_state_change = None, sn_updated = now\<rparr>
                     | Some sn \<Rightarrow> sn\<lparr>sn_owner := Some newOwner, sn_updated := now\<rparr>)
                    (account_snapshots db)\<rparr>)))"

section \<open>Transparency aggregates\<close>

definition newer_or_equal :: "'a event_row \<Rightarrow> 'a event_row \<Rightarrow> bool" where
  "newer_or_equal new old \<longleftrightarrow> r_block new > r_block old \<or> (r_block new = r_block old \<and> r_log new \<ge> r_log old)"

text \<open>
  \<open>INSERT .. ON CONFLICT(period_start, period_end) DO UPDATE .. WHERE newer\<close>; an equal pair of
  transaction hash and log index in a row of another period violates the other unique constraint.
\<close>

definition upsert_period :: "('a \<Rightarrow> int \<times> int) \<Rightarrow> block_row list \<Rightarrow> 'a event_row \<Rightarrow> 'a event_row list \<Rightarrow> db_error + 'a event_row list" where
  "upsert_period period bs row rows =
     (case find (\<lambda>r. period (r_data r) = period (r_data row)) rows of
        Some old \<Rightarrow>
          if \<not> newer_or_equal row old then Inr rows
          else if list_ex (\<lambda>r. period (r_data r) \<noteq> period (r_data row) \<and> r_tx r = r_tx row \<and> r_log r = r_log row) rows
          then Inl Unique_constraint
          else if \<not> list_ex (\<lambda>b. bl_number b = r_block row) bs then Inl Foreign_key
          else Inr (map (\<lambda>r. if period (r_data r) = period (r_data row) then row else r) rows)
      | None \<Rightarrow>
          if list_ex (\<lambda>r. r_tx r = r_tx row \<and> r_log r = r_log row) rows then Inl Unique_constraint
          else if \<not> list_ex (\<lambda>b. bl_number b = r_block row) bs then Inl Foreign_key
          else Inr (rows @ [row]))"

definition metrics_period :: "metrics_data \<Rightarrow> int \<times> int" where
  "metrics_period d = (md_start d, md_end d)"

definition lock_period :: "lock_data \<Rightarrow> int \<times> int" where
  "lock_period d = (lk_start d, lk_end d)"

definition insertTransparencyProtocolMetrics :: "metrics_data event_row \<Rightarrow> idx_db \<Rightarrow> unit db_result" where
  "insertTransparencyProtocolMetrics event db =
     (case upsert_period metrics_period (blocks db) event (transparency_metrics db) of
        Inl e \<Rightarrow> (Inl e, db)
      | Inr rows \<Rightarrow> (Inr (), db\<lparr>transparency_metrics := rows\<rparr>))"

definition insertTransparencyLockActivity :: "lock_data event_row \<Rightarrow> idx_db \<Rightarrow> unit db_result" where
  "insertTransparencyLockActivity event db =
     (case upsert_period lock_period (blocks db) event (transparency_locks db) of
        Inl e \<Rightarrow> (Inl e, db)
      | Inr rows \<Rightarrow> (Inr (), db\<lparr>transparency_locks := rows\<rparr>))"

definition insertTransparencyParameterChange :: "param_data event_row \<Rightarrow> idx_db \<Rightarrow> unit db_result" where
  "insertTransparencyParameterChange event db =
     (case insert_or_ignore (blocks db) event (transparency_params db) of
        Inl e \<Rightarrow> (Inl e, db)
      | Inr rows \<Rightarrow> (Inr (), db\<lparr>transparency_params := rows\<rparr>))"

section \<open>Reorganisations\<close>

text \<open>\<open>ORDER BY key DESC LIMIT 1\<close>.\<close>

definition newest :: "('a \<Rightarrow> 'k :: linorder) \<Rightarrow> 'a list \<Rightarrow> 'a option" where
  "newest key xs = fold (\<lambda>x best. case best of None \<Rightarrow> Some x | Some y \<Rightarrow> if key y \<le> key x then Some x else Some y) xs None"

text \<open>
  \<open>ORDER BY block_number DESC, log_index DESC LIMIT 1\<close>. SQL leaves the choice among rows that tie open; SQLite returns the
  first of them.
\<close>

definition latest_row :: "'a event_row list \<Rightarrow> 'a event_row option" where
  "latest_row rows = fold (\<lambda>x best. case best of None \<Rightarrow> Some x | Some y \<Rightarrow> if newer_or_equal y x then Some y else Some x) rows None"

definition max_block :: "int list \<Rightarrow> int option" where
  "max_block bs = (if bs = [] then None else Some (fold max bs (hd bs)))"

definition rebuildAccountSnapshot :: "int \<Rightarrow> string \<Rightarrow> idx_db \<Rightarrow> idx_db" where
  "rebuildAccountSnapshot now nft db =
     (let owner = latest_row (filter (\<lambda>r. od_nft (r_data r) = nft) (nft_ownership_changes db));
          state = latest_row (filter (\<lambda>r. sd_nft (r_data r) = nft) (account_state_changes db));
          transfer = max_block
            (map r_block (filter (\<lambda>r. td_from (r_data r) = nft \<or> td_to (r_data r) = nft) (internal_transfers db))
             @ map r_block (filter (\<lambda>r. td_from (r_data r) = nft \<or> td_to (r_data r) = nft) (merchant_payments db)))
      in if owner = None \<and> state = None \<and> transfer = None
         then db\<lparr>account_snapshots := amap_delete nft (account_snapshots db)\<rparr>
         else db\<lparr>account_snapshots := amap_set nft
                \<lparr>sn_owner = map_option (\<lambda>r. od_new (r_data r)) owner,
                 sn_state = (case state of None \<Rightarrow> 0 | Some r \<Rightarrow> sd_new (r_data r)),
                 sn_transfer = transfer, sn_state_change = map_option r_block state, sn_updated = now\<rparr>
                (account_snapshots db)\<rparr>)"

definition affected_nfts :: "int \<Rightarrow> idx_db \<Rightarrow> string list" where
  "affected_nfts fromBlock db = remdups
     (concat (map (\<lambda>r. [td_from (r_data r), td_to (r_data r)]) (filter (\<lambda>r. r_block r \<ge> fromBlock) (internal_transfers db)))
      @ concat (map (\<lambda>r. [td_from (r_data r), td_to (r_data r)]) (filter (\<lambda>r. r_block r \<ge> fromBlock) (merchant_payments db)))
      @ map (\<lambda>r. sd_nft (r_data r)) (filter (\<lambda>r. r_block r \<ge> fromBlock) (account_state_changes db))
      @ map (\<lambda>r. od_nft (r_data r)) (filter (\<lambda>r. r_block r \<ge> fromBlock) (nft_ownership_changes db)))"

definition handleReorg :: "(string \<Rightarrow> string option) \<Rightarrow> int \<Rightarrow> int \<Rightarrow> idx_db \<Rightarrow> idx_db" where
  "handleReorg ap now fromBlock db =
     (let affected = affected_nfts fromBlock db;
          db1 = delete_blocks (\<lambda>b. bl_number b \<ge> fromBlock) db;
          db2 = fold (\<lambda>nft d. invalidateHistoryCache ap nft (rebuildAccountSnapshot now nft d)) affected db1
      in case getBlock (fromBlock - 1) db2 of
           Some b \<Rightarrow> updateLatestBlock now (fromBlock - 1) (bl_timestamp b) db2
         | None \<Rightarrow> updateLatestBlock now 0 0 db2)"

section \<open>Queries and transactions\<close>

definition getPaymentByPayloadHash :: "string \<Rightarrow> idx_db \<Rightarrow> transfer_data event_row option" where
  "getPaymentByPayloadHash payload db =
     newest r_ts (filter (\<lambda>r. td_payload (r_data r) = payload) (merchant_payments db))"

definition getAccountSnapshot :: "(string \<Rightarrow> string option) \<Rightarrow> string \<Rightarrow> idx_db \<Rightarrow> snapshot option" where
  "getAccountSnapshot ap nft db = amap_get (normalizeTonAddress ap nft) (account_snapshots db)"

definition getEventCount :: "idx_db \<Rightarrow> nat" where
  "getEventCount db = length (internal_transfers db) + length (merchant_payments db)
     + length (account_state_changes db) + length (nft_ownership_changes db)"

definition getLatestTransparencyProtocolMetrics :: "idx_db \<Rightarrow> metrics_data event_row option" where
  "getLatestTransparencyProtocolMetrics db = newest (\<lambda>r. md_end (r_data r)) (transparency_metrics db)"

definition getLatestTransparencyLockActivity :: "idx_db \<Rightarrow> lock_data event_row option" where
  "getLatestTransparencyLockActivity db = newest (\<lambda>r. lk_end (r_data r)) (transparency_locks db)"

definition listTransparencyProtocolMetrics :: "nat \<Rightarrow> idx_db \<Rightarrow> metrics_data event_row list" where
  "listTransparencyProtocolMetrics limit db =
     take limit (sort_key (\<lambda>r. - md_end (r_data r)) (transparency_metrics db))"

definition listTransparencyLockActivity :: "nat \<Rightarrow> idx_db \<Rightarrow> lock_data event_row list" where
  "listTransparencyLockActivity limit db =
     take limit (sort_key (\<lambda>r. - lk_end (r_data r)) (transparency_locks db))"

text \<open>\<open>ORDER BY effective_block DESC, id DESC\<close>: the rows are stored in order of \<open>id\<close>.\<close>

definition listTransparencyParameterChanges :: "nat \<Rightarrow> idx_db \<Rightarrow> param_data event_row list" where
  "listTransparencyParameterChanges limit db =
     take limit (sort_key (\<lambda>r. - pd_effective (r_data r)) (rev (transparency_params db)))"

definition getTransparencyCounts :: "idx_db \<Rightarrow> nat \<times> nat \<times> nat" where
  "getTransparencyCounts db =
     (length (transparency_metrics db), length (transparency_locks db), length (transparency_params db))"

text \<open>
  A transaction commits all of its statements or none. The history cache is process memory and is
  not rolled back.
\<close>

definition transaction :: "(idx_db \<Rightarrow> 'a db_result) \<Rightarrow> idx_db \<Rightarrow> 'a db_result" where
  "transaction f db =
     (case f db of
        (Inr x, db') \<Rightarrow> (Inr x, db')
      | (Inl e, db') \<Rightarrow> (Inl e, db\<lparr>historyCache := historyCache db'\<rparr>))"

end
