(* ===== verification/Idx_Database_Thms.thy ===== *)
theory Idx_Database_Thms
  imports Idx_Database
begin

text \<open>
  Correctness of the indexer's database: integrity of the tables under every statement,
  snapshots that are the fold of the stored events, complete rollback, convergence of the
  transparency aggregates, keyset pagination, and transparency of the history cache.
\<close>

section \<open>Integrity\<close>

definition rows_ok :: "int set \<Rightarrow> 'a event_row list \<Rightarrow> bool" where
  "rows_ok B rows \<longleftrightarrow> (\<forall>r\<in>set rows. r_block r \<in> B) \<and> distinct (map (\<lambda>r. (r_tx r, r_log r)) rows)"

definition block_numbers :: "idx_db \<Rightarrow> int set" where
  "block_numbers db = bl_number ` set (blocks db)"

definition db_wf :: "idx_db \<Rightarrow> bool" where
  "db_wf db \<longleftrightarrow> distinct (map bl_number (blocks db)) \<and> distinct (map bl_hash (blocks db))
     \<and> rows_ok (block_numbers db) (internal_transfers db) \<and> rows_ok (block_numbers db) (merchant_payments db)
     \<and> rows_ok (block_numbers db) (account_state_changes db) \<and> rows_ok (block_numbers db) (nft_ownership_changes db)
     \<and> rows_ok (block_numbers db) (transparency_metrics db) \<and> rows_ok (block_numbers db) (transparency_locks db)
     \<and> rows_ok (block_numbers db) (transparency_params db)
     \<and> distinct (map (metrics_period \<circ> r_data) (transparency_metrics db))
     \<and> distinct (map (lock_period \<circ> r_data) (transparency_locks db))"

lemma rows_ok_filter: "rows_ok B rows \<Longrightarrow> rows_ok (B - {n. gone n}) (filter (\<lambda>r. \<not> gone (r_block r)) rows)"
  by (auto simp: rows_ok_def distinct_map_filter)

lemma rows_ok_mono: "rows_ok B rows \<Longrightarrow> B \<subseteq> B' \<Longrightarrow> rows_ok B' rows"
  by (auto simp: rows_ok_def)

lemma block_mem: "list_ex (\<lambda>b. bl_number b = n) bs \<longleftrightarrow> n \<in> bl_number ` set bs"
  by (auto simp: list_ex_iff)

lemma rows_ok_snoc:
  "rows_ok B rows \<Longrightarrow> \<not> list_ex (\<lambda>r. r_tx r = r_tx row \<and> r_log r = r_log row) rows \<Longrightarrow> r_block row \<in> B \<Longrightarrow>
   rows_ok B (rows @ [row])"
  by (auto simp: rows_ok_def list_ex_iff)

lemma rows_ok_insert:
  assumes "rows_ok (bl_number ` set bs) rows" "insert_or_ignore bs row rows = Inr rows'"
  shows "rows_ok (bl_number ` set bs) rows'"
  using assms by (auto simp: insert_or_ignore_def block_mem intro: rows_ok_snoc split: if_splits)

lemma rows_ok_replace:
  assumes "distinct (map (\<lambda>r. (r_tx r, r_log r)) rows)" "distinct (map (period \<circ> r_data) rows)"
    and "\<not> (\<exists>r\<in>set rows. period (r_data r) \<noteq> p \<and> r_tx r = r_tx row \<and> r_log r = r_log row)"
  shows "distinct (map (\<lambda>r. (r_tx r, r_log r)) (map (\<lambda>r. if period (r_data r) = p then row else r) rows))"
  using assms by (induction rows) (auto simp: image_iff)

lemma periods_replace:
  "period (r_data row) = p \<Longrightarrow>
   map (period \<circ> r_data) (map (\<lambda>r. if period (r_data r) = p then row else r) rows) = map (period \<circ> r_data) rows"
  by simp

lemma rows_ok_upsert:
  assumes "rows_ok (bl_number ` set bs) rows" "distinct (map (period \<circ> r_data) rows)"
    and "upsert_period period bs row rows = Inr rows'"
  shows "rows_ok (bl_number ` set bs) rows' \<and> distinct (map (period \<circ> r_data) rows')"
proof (cases "find (\<lambda>r. period (r_data r) = period (r_data row)) rows")
  case None
  then have "period (r_data r) \<noteq> period (r_data row)" if "r \<in> set rows" for r
    using that by (simp add: find_None_iff)
  then have "distinct (map (period \<circ> r_data) (rows @ [row]))"
    using assms(2) by fastforce
  with None assms show ?thesis
    by (auto simp: upsert_period_def block_mem intro: rows_ok_snoc split: if_splits)
next
  case (Some old)
  let ?rep = "map (\<lambda>r. if period (r_data r) = period (r_data row) then row else r) rows"
  consider "rows' = rows" | "rows' = ?rep" "\<not> (\<exists>r\<in>set rows. period (r_data r) \<noteq> period (r_data row) \<and> r_tx r = r_tx row \<and> r_log r = r_log row)"
      "r_block row \<in> bl_number ` set bs"
    using assms(3) Some unfolding upsert_period_def block_mem by (auto simp: list_ex_iff split: if_splits)
  then show ?thesis
  proof cases
    case 1
    with assms show ?thesis by simp
  next
    case 2
    have "distinct (map (\<lambda>r. (r_tx r, r_log r)) ?rep)"
      using rows_ok_replace [OF _ assms(2) 2(2)] assms(1) by (simp add: rows_ok_def)
    moreover have "\<forall>r\<in>set ?rep. r_block r \<in> bl_number ` set bs"
      using assms(1) 2(3) by (auto simp: rows_ok_def)
    moreover have "distinct (map (period \<circ> r_data) ?rep)"
      using assms(2) by (subst periods_replace) simp_all
    ultimately show ?thesis using 2(1) by (simp only: rows_ok_def)
  qed
qed

lemma distinct_map_filter_inst: "distinct (map f xs) \<Longrightarrow> distinct (map f (filter P xs))"
  by (simp add: distinct_map_filter)

lemma delete_blocks_numbers:
  assumes "distinct (map bl_number (blocks db))"
  shows "block_numbers (delete_blocks P db) = block_numbers db - {n. list_ex (\<lambda>b. P b \<and> bl_number b = n) (blocks db)}"
proof -
  have "b = b'" if "b \<in> set (blocks db)" "b' \<in> set (blocks db)" "bl_number b = bl_number b'" for b b'
    using assms that by (metis distinct_map inj_onD)
  then show ?thesis by (auto simp: block_numbers_def delete_blocks_def list_ex_iff Let_def)
qed

lemma db_wf_delete:
  assumes "db_wf db"
  shows "db_wf (delete_blocks P db)"
proof -
  let ?gone = "\<lambda>n. list_ex (\<lambda>b. P b \<and> bl_number b = n) (blocks db)"
  have "block_numbers (delete_blocks P db) = block_numbers db - {n. ?gone n}"
    using assms by (intro delete_blocks_numbers) (simp add: db_wf_def)
  then show ?thesis
    using assms unfolding db_wf_def
    by (elim conjE) (simp add: delete_blocks_def [of P db] Let_def distinct_map_filter rows_ok_filter [of "block_numbers db" _ ?gone])
qed

text \<open>
  The tables with everything but the cursor, the snapshots and the history cache: what the
  integrity constraints are about.
\<close>

definition same_tables :: "idx_db \<Rightarrow> idx_db \<Rightarrow> bool" where
  "same_tables db db' \<longleftrightarrow> blocks db' = blocks db \<and> internal_transfers db' = internal_transfers db
     \<and> merchant_payments db' = merchant_payments db \<and> account_state_changes db' = account_state_changes db
     \<and> nft_ownership_changes db' = nft_ownership_changes db \<and> transparency_metrics db' = transparency_metrics db
     \<and> transparency_locks db' = transparency_locks db \<and> transparency_params db' = transparency_params db"

lemma same_tables_refl [simp]: "same_tables db db"
  by (simp add: same_tables_def)

lemma same_tables_trans: "same_tables a b \<Longrightarrow> same_tables b c \<Longrightarrow> same_tables a c"
  by (simp add: same_tables_def)

lemma db_wf_same: "same_tables db db' \<Longrightarrow> db_wf db' = db_wf db"
  by (simp add: same_tables_def db_wf_def block_numbers_def)

lemma same_tables_ops [simp]:
  "same_tables db (setLatestChainSeqno n db)"
  "same_tables db (updateLatestBlock now n ts db)"
  "same_tables db (invalidateHistoryCache ap a db)"
  "same_tables db (setHistoryCacheEntry k e db)"
  "same_tables db (snd (getAccountHistory ap now a limit off before db))"
  "same_tables db (updateAccountSnapshot ap now a n db)"
  "same_tables db (rebuildAccountSnapshot now a db)"
  by (simp_all add: same_tables_def setLatestChainSeqno_def updateLatestBlock_def invalidateHistoryCache_def
      setHistoryCacheEntry_def getAccountHistory_def updateAccountSnapshot_def rebuildAccountSnapshot_def
      Let_def split: option.split)

lemma same_tables_touch: "same_tables db (touch_parties ap now a b n db)"
  unfolding touch_parties_def by (meson same_tables_ops same_tables_trans)

lemma same_tables_rebuilds:
  "same_tables db (fold (\<lambda>nft d. invalidateHistoryCache ap nft (rebuildAccountSnapshot now nft d)) nfts db)"
proof (induction nfts arbitrary: db)
  case (Cons nft nfts)
  have "same_tables db (invalidateHistoryCache ap nft (rebuildAccountSnapshot now nft db))"
    by (rule same_tables_trans [OF same_tables_ops(7) same_tables_ops(3)])
  then show ?case unfolding fold_simps by (rule same_tables_trans [OF _ Cons.IH])
qed simp

lemma same_tables_reorg:
  "same_tables (delete_blocks (\<lambda>b. bl_number b \<ge> from) db) (handleReorg ap now from db)"
  unfolding handleReorg_def Let_def
  by (auto split: option.split intro: same_tables_trans [OF same_tables_rebuilds] same_tables_ops)

section \<open>Statements and their sequences\<close>

datatype db_op =
    Op_block int string string int nat
  | Op_confirm int
  | Op_cursor int int
  | Op_head int
  | Op_transfer "transfer_data event_row"
  | Op_payment "transfer_data event_row"
  | Op_state "state_data event_row"
  | Op_owner "owner_data event_row"
  | Op_metrics "metrics_data event_row"
  | Op_locks "lock_data event_row"
  | Op_param "param_data event_row"
  | Op_reorg int
  | Op_history string nat nat history_cursor

fun db_exec :: "(string \<Rightarrow> string option) \<Rightarrow> int \<Rightarrow> db_op \<Rightarrow> idx_db \<Rightarrow> idx_db" where
  "db_exec ap now (Op_block n h p ts c) db = insertBlock now n h p ts c db"
| "db_exec ap now (Op_confirm n) db = markBlocksConfirmed n db"
| "db_exec ap now (Op_cursor n ts) db = updateLatestBlock now n ts db"
| "db_exec ap now (Op_head n) db = setLatestChainSeqno n db"
| "db_exec ap now (Op_transfer e) db = snd (insertInternalTransfer ap now e db)"
| "db_exec ap now (Op_payment e) db = snd (insertMerchantPayment ap now e db)"
| "db_exec ap now (Op_state e) db = snd (insertAccountStateChange ap now e db)"
| "db_exec ap now (Op_owner e) db = snd (insertNFTOwnershipChange ap now e db)"
| "db_exec ap now (Op_metrics e) db = snd (insertTransparencyProtocolMetrics e db)"
| "db_exec ap now (Op_locks e) db = snd (insertTransparencyLockActivity e db)"
| "db_exec ap now (Op_param e) db = snd (insertTransparencyParameterChange e db)"
| "db_exec ap now (Op_reorg n) db = handleReorg ap now n db"
| "db_exec ap now (Op_history a l off c) db = snd (getAccountHistory ap now a l off c db)"

definition db_run :: "(string \<Rightarrow> string option) \<Rightarrow> (int \<times> db_op) list \<Rightarrow> idx_db \<Rightarrow> idx_db" where
  "db_run ap ops db = fold (\<lambda>(now, op). db_exec ap now op) ops db"

lemma db_wf_add_block:
  assumes "db_wf d" "\<forall>b\<in>set (blocks d). bl_number b \<noteq> bl_number x \<and> bl_hash b \<noteq> bl_hash x"
  shows "db_wf (d\<lparr>blocks := blocks d @ [x]\<rparr>)"
proof -
  have "block_numbers (d\<lparr>blocks := blocks d @ [x]\<rparr>) = insert (bl_number x) (block_numbers d)"
    by (simp add: block_numbers_def)
  moreover have "distinct (map bl_number (blocks d @ [x]))" "distinct (map bl_hash (blocks d @ [x]))"
    using assms by (auto simp: db_wf_def)
  ultimately show ?thesis
    using assms(1) unfolding db_wf_def by (elim conjE) (simp add: rows_ok_mono [OF _ subset_insertI])
qed

lemma db_wf_insertBlock: "db_wf db \<Longrightarrow> db_wf (insertBlock now n h p ts c db)"
  unfolding insertBlock_def Let_def
  by (rule db_wf_add_block [OF db_wf_delete]) (simp_all add: delete_blocks_def Let_def)

lemma db_wf_confirm: "db_wf db \<Longrightarrow> db_wf (markBlocksConfirmed n db)"
proof -
  let ?f = "\<lambda>b. if bl_number b \<le> n then b\<lparr>bl_confirmed := True\<rparr> else b"
  have f: "bl_number \<circ> ?f = bl_number" "bl_hash \<circ> ?f = bl_hash" by (auto simp: fun_eq_iff)
  assume "db_wf db"
  moreover have "block_numbers (markBlocksConfirmed n db) = block_numbers db"
    unfolding block_numbers_def markBlocksConfirmed_def by (simp add: f image_comp del: if_image_distrib)
  ultimately show ?thesis by (simp add: db_wf_def markBlocksConfirmed_def f)
qed

lemma insert_ok:
  assumes "rows_ok (block_numbers db) rows" "insert_or_ignore (blocks db) row rows = Inr rows'"
  shows "rows_ok (block_numbers db) rows'"
  using assms unfolding block_numbers_def by (rule rows_ok_insert)

lemma upsert_ok:
  assumes "rows_ok (block_numbers db) rows" "distinct (map (period \<circ> r_data) rows)"
    and "upsert_period period (blocks db) row rows = Inr rows'"
  shows "rows_ok (block_numbers db) rows'" "distinct (map (period \<circ> r_data) rows')"
  using rows_ok_upsert [OF _ assms(2,3)] assms(1) unfolding block_numbers_def by auto

lemma db_wf_tables:
  assumes "db_wf db"
  shows "rows_ok (block_numbers db) ts \<Longrightarrow> db_wf (db\<lparr>internal_transfers := ts\<rparr>)"
    "rows_ok (block_numbers db) ts \<Longrightarrow> db_wf (db\<lparr>merchant_payments := ts\<rparr>)"
    "rows_ok (block_numbers db) ss \<Longrightarrow> db_wf (db\<lparr>account_state_changes := ss, account_snapshots := sn\<rparr>)"
    "rows_ok (block_numbers db) os \<Longrightarrow> db_wf (db\<lparr>nft_ownership_changes := os, account_snapshots := sn\<rparr>)"
    "rows_ok (block_numbers db) ms \<Longrightarrow> distinct (map (metrics_period \<circ> r_data) ms) \<Longrightarrow> db_wf (db\<lparr>transparency_metrics := ms\<rparr>)"
    "rows_ok (block_numbers db) ls \<Longrightarrow> distinct (map (lock_period \<circ> r_data) ls) \<Longrightarrow> db_wf (db\<lparr>transparency_locks := ls\<rparr>)"
    "rows_ok (block_numbers db) ps \<Longrightarrow> db_wf (db\<lparr>transparency_params := ps\<rparr>)"
  using assms unfolding db_wf_def block_numbers_def by simp_all

lemma db_wf_rows:
  assumes "db_wf db"
  shows "rows_ok (block_numbers db) (internal_transfers db)" "rows_ok (block_numbers db) (merchant_payments db)"
    "rows_ok (block_numbers db) (account_state_changes db)" "rows_ok (block_numbers db) (nft_ownership_changes db)"
    "rows_ok (block_numbers db) (transparency_metrics db)" "rows_ok (block_numbers db) (transparency_locks db)"
    "rows_ok (block_numbers db) (transparency_params db)"
    "distinct (map (metrics_period \<circ> r_data) (transparency_metrics db))"
    "distinct (map (lock_period \<circ> r_data) (transparency_locks db))"
    "distinct (map bl_number (blocks db))"
  using assms unfolding db_wf_def by simp_all

lemmas insert_defs = insertInternalTransfer_def insertMerchantPayment_def insertAccountStateChange_def
  insertNFTOwnershipChange_def insertTransparencyProtocolMetrics_def insertTransparencyLockActivity_def
  insertTransparencyParameterChange_def

lemma db_wf_events:
  assumes "db_wf db"
  shows "db_wf (snd (insertInternalTransfer ap now te db))" "db_wf (snd (insertMerchantPayment ap now te db))"
    "db_wf (snd (insertAccountStateChange ap now se db))" "db_wf (snd (insertNFTOwnershipChange ap now oe db))"
    "db_wf (snd (insertTransparencyProtocolMetrics me db))" "db_wf (snd (insertTransparencyLockActivity le db))"
    "db_wf (snd (insertTransparencyParameterChange pe db))"
  unfolding insert_defs Let_def
  by (auto split: sum.split simp: assms db_wf_same [OF same_tables_touch] db_wf_same [OF same_tables_ops(3)]
      intro!: db_wf_tables [OF assms] elim: insert_ok [OF db_wf_rows(1) [OF assms]] insert_ok [OF db_wf_rows(2) [OF assms]]
        insert_ok [OF db_wf_rows(3) [OF assms]] insert_ok [OF db_wf_rows(4) [OF assms]] insert_ok [OF db_wf_rows(7) [OF assms]]
        upsert_ok [OF db_wf_rows(5) [OF assms] db_wf_rows(8) [OF assms]] upsert_ok [OF db_wf_rows(6) [OF assms] db_wf_rows(9) [OF assms]])

lemma db_wf_reorg: "db_wf db \<Longrightarrow> db_wf (handleReorg ap now n db)"
  using db_wf_same [OF same_tables_reorg] db_wf_delete by blast

lemma db_wf_exec: "db_wf db \<Longrightarrow> db_wf (db_exec ap now op db)"
  by (cases op) (simp_all add: db_wf_insertBlock db_wf_confirm db_wf_events db_wf_reorg db_wf_same [OF same_tables_ops(1)]
      db_wf_same [OF same_tables_ops(2)] db_wf_same [OF same_tables_ops(5)])

lemma db_wf_empty: "db_wf empty_db"
  by (simp add: db_wf_def empty_db_def rows_ok_def)

lemma db_run_invariant:
  assumes "P db" "\<And>db now op. P db \<Longrightarrow> P (db_exec ap now op db)"
  shows "P (db_run ap ops db)"
  unfolding db_run_def using assms by (induction ops arbitrary: db) auto

section \<open>Snapshots as a view of the stored events\<close>

definition parties :: "string \<Rightarrow> transfer_data event_row \<Rightarrow> bool" where
  "parties nft r \<longleftrightarrow> td_from (r_data r) = nft \<or> td_to (r_data r) = nft"

definition owner_rows :: "string \<Rightarrow> idx_db \<Rightarrow> owner_data event_row list" where
  "owner_rows nft db = filter (\<lambda>r. od_nft (r_data r) = nft) (nft_ownership_changes db)"

definition state_rows :: "string \<Rightarrow> idx_db \<Rightarrow> state_data event_row list" where
  "state_rows nft db = filter (\<lambda>r. sd_nft (r_data r) = nft) (account_state_changes db)"

definition transfer_blocks :: "string \<Rightarrow> idx_db \<Rightarrow> int list" where
  "transfer_blocks nft db = map r_block (filter (parties nft) (internal_transfers db))
     @ map r_block (filter (parties nft) (merchant_payments db))"

text \<open>Owner, state, last transfer block and last state-change block, from the event tables.\<close>

definition derived_snapshot :: "string \<Rightarrow> idx_db \<Rightarrow> (string option \<times> int \<times> int option \<times> int option) option" where
  "derived_snapshot nft db =
     (if owner_rows nft db = [] \<and> state_rows nft db = [] \<and> transfer_blocks nft db = [] then None
      else Some (map_option (\<lambda>r. od_new (r_data r)) (latest_row (owner_rows nft db)),
                 (case latest_row (state_rows nft db) of None \<Rightarrow> 0 | Some r \<Rightarrow> sd_new (r_data r)),
                 max_block (transfer_blocks nft db),
                 map_option r_block (latest_row (state_rows nft db))))"

definition snap_view :: "snapshot \<Rightarrow> string option \<times> int \<times> int option \<times> int option" where
  "snap_view sn = (sn_owner sn, sn_state sn, sn_transfer sn, sn_state_change sn)"

definition snapshot_of :: "string \<Rightarrow> idx_db \<Rightarrow> (string option \<times> int \<times> int option \<times> int option) option" where
  "snapshot_of nft db = map_option snap_view (amap_get nft (account_snapshots db))"

definition snapshots_ok :: "idx_db \<Rightarrow> bool" where
  "snapshots_ok db \<longleftrightarrow> (\<forall>nft. snapshot_of nft db = derived_snapshot nft db)"

text \<open>The newest row, the last one of those that tie.\<close>

definition newest_row :: "'a event_row list \<Rightarrow> 'a event_row option" where
  "newest_row rows = fold (\<lambda>x best. case best of None \<Rightarrow> Some x | Some y \<Rightarrow> if newer_or_equal x y then Some x else Some y) rows None"

lemma newest_row_Nil [simp]: "newest_row [] = None"
  by (simp add: newest_row_def)

lemma newest_row_snoc:
  "newest_row (rows @ [r]) = (case newest_row rows of None \<Rightarrow> Some r | Some y \<Rightarrow> if newer_or_equal r y then Some r else Some y)"
  by (simp add: newest_row_def)

lemma newest_row_None [simp]: "newest_row rows = None \<longleftrightarrow> rows = []"
  by (induction rows rule: rev_induct) (auto simp: newest_row_snoc split: option.splits)

lemma newest_row_in: "newest_row rows = Some r \<Longrightarrow> r \<in> set rows"
  by (induction rows rule: rev_induct) (auto simp: newest_row_snoc split: option.splits if_splits)

lemma newest_row_append_newest:
  "list_all (newer_or_equal r) rows \<Longrightarrow> newest_row (rows @ [r]) = Some r"
  by (auto simp: newest_row_snoc list_all_iff dest: newest_row_in split: option.split)

lemma latest_row_Nil [simp]: "latest_row [] = None"
  by (simp add: latest_row_def)

lemma latest_row_snoc:
  "latest_row (rows @ [r]) = (case latest_row rows of None \<Rightarrow> Some r | Some y \<Rightarrow> if newer_or_equal y r then Some y else Some r)"
  by (simp add: latest_row_def)

lemma latest_row_None [simp]: "latest_row rows = None \<longleftrightarrow> rows = []"
  by (induction rows rule: rev_induct) (auto simp: latest_row_snoc split: option.splits)

lemma latest_row_in: "latest_row rows = Some r \<Longrightarrow> r \<in> set rows"
  by (induction rows rule: rev_induct) (auto simp: latest_row_snoc split: option.splits if_splits)

lemma latest_row_append_latest:
  "list_all (\<lambda>y. \<not> newer_or_equal y r) rows \<Longrightarrow> latest_row (rows @ [r]) = Some r"
  by (auto simp: latest_row_snoc list_all_iff dest: latest_row_in split: option.split)

lemma max_block_None [simp]: "max_block bs = None \<longleftrightarrow> bs = []"
  by (simp add: max_block_def)

lemma max_block_Nil [simp]: "max_block [] = None"
  by (simp add: max_block_def)

lemma fold_max_eq: "fold max bs (b :: int) = Max (insert b (set bs))"
  by (simp add: Max.set_eq_fold [symmetric])

lemma max_block_eq: "max_block bs = (if bs = [] then None else Some (Max (set bs)))"
  unfolding max_block_def fold_max_eq by (cases bs) auto

lemma max_block_dominated:
  assumes "set bs' = insert n (set bs)" "\<forall>b\<in>set bs. b \<le> n"
  shows "max_block bs' = Some n"
proof -
  have "Max (set bs') = n" unfolding assms(1) using assms(2) by (intro Max_eqI) auto
  moreover have "bs' \<noteq> []" using assms(1) by auto
  ultimately show ?thesis by (simp add: max_block_eq)
qed

lemma snapshot_rebuild:
  "snapshot_of nft (rebuildAccountSnapshot now a db) = (if nft = a then derived_snapshot a db else snapshot_of nft db)"
  by (simp add: rebuildAccountSnapshot_def Let_def snapshot_of_def derived_snapshot_def snap_view_def amap_simps
      owner_rows_def state_rows_def transfer_blocks_def parties_def [abs_def])

lemma derived_same: "same_tables db db' \<Longrightarrow> derived_snapshot nft db' = derived_snapshot nft db"
  by (simp add: same_tables_def derived_snapshot_def owner_rows_def state_rows_def transfer_blocks_def)

lemma snapshot_rebuilds:
  "snapshot_of nft (fold (\<lambda>nft d. invalidateHistoryCache ap nft (rebuildAccountSnapshot now nft d)) nfts db) =
     (if nft \<in> set nfts then derived_snapshot nft db else snapshot_of nft db)"
proof (induction nfts arbitrary: db)
  case (Cons a nfts)
  let ?db = "invalidateHistoryCache ap a (rebuildAccountSnapshot now a db)"
  have "derived_snapshot nft ?db = derived_snapshot nft db"
    by (rule derived_same [OF same_tables_trans [OF same_tables_ops(7) same_tables_ops(3)]])
  moreover have "snapshot_of nft ?db = (if nft = a then derived_snapshot a db else snapshot_of nft db)"
    using snapshot_rebuild [of nft now a db] by (simp add: snapshot_of_def invalidateHistoryCache_def)
  ultimately show ?case unfolding fold_simps Cons.IH by auto
qed simp

section \<open>Rollback\<close>

definition keep_below :: "int \<Rightarrow> 'a event_row list \<Rightarrow> 'a event_row list" where
  "keep_below n rows = filter (\<lambda>r. r_block r < n) rows"

lemma rows_deleted:
  assumes "rows_ok (block_numbers db) rows"
  shows "filter (\<lambda>r. \<not> list_ex (\<lambda>b. bl_number b \<ge> n \<and> bl_number b = r_block r) (blocks db)) rows = keep_below n rows"
proof -
  have "\<exists>b\<in>set (blocks db). bl_number b = r_block r" if "r \<in> set rows" for r
    using assms that by (fastforce simp: rows_ok_def block_numbers_def)
  then show ?thesis
    unfolding keep_below_def by (intro filter_cong) (force simp: list_ex_iff)+
qed

lemma delete_from:
  assumes "db_wf db"
  shows "delete_blocks (\<lambda>b. bl_number b \<ge> n) db =
     db\<lparr>blocks := filter (\<lambda>b. bl_number b < n) (blocks db),
        internal_transfers := keep_below n (internal_transfers db), merchant_payments := keep_below n (merchant_payments db),
        account_state_changes := keep_below n (account_state_changes db),
        nft_ownership_changes := keep_below n (nft_ownership_changes db),
        transparency_metrics := keep_below n (transparency_metrics db),
        transparency_locks := keep_below n (transparency_locks db),
        transparency_params := keep_below n (transparency_params db)\<rparr>"
  unfolding delete_blocks_def Let_def by (simp add: rows_deleted db_wf_rows [OF assms] not_le)

lemma keep_filter: "(\<And>r. r \<in> set rows \<Longrightarrow> P r \<Longrightarrow> r_block r < n) \<Longrightarrow> filter P (keep_below n rows) = filter P rows"
  unfolding keep_below_def filter_filter by (rule filter_cong) auto

lemma unaffected_rows:
  assumes "nft \<notin> set (affected_nfts n db)"
  shows "\<forall>r\<in>set (internal_transfers db). parties nft r \<longrightarrow> r_block r < n"
    "\<forall>r\<in>set (merchant_payments db). parties nft r \<longrightarrow> r_block r < n"
    "\<forall>r\<in>set (account_state_changes db). sd_nft (r_data r) = nft \<longrightarrow> r_block r < n"
    "\<forall>r\<in>set (nft_ownership_changes db). od_nft (r_data r) = nft \<longrightarrow> r_block r < n"
  using assms by (fastforce simp: affected_nfts_def parties_def not_less)+

lemma unaffected_derived:
  assumes "db_wf db" "nft \<notin> set (affected_nfts n db)"
  shows "derived_snapshot nft (delete_blocks (\<lambda>b. bl_number b \<ge> n) db) = derived_snapshot nft db"
  using unaffected_rows [OF assms(2)]
  unfolding derived_snapshot_def owner_rows_def state_rows_def transfer_blocks_def
  by (simp add: delete_from [OF assms(1)] keep_filter)

lemma snapshot_updateLatest [simp]: "snapshot_of nft (updateLatestBlock now n ts db) = snapshot_of nft db"
  by (simp add: snapshot_of_def updateLatestBlock_def)

lemma snapshots_reorg:
  assumes "db_wf db" "\<And>nft. nft \<notin> set (affected_nfts n db) \<Longrightarrow> snapshot_of nft db = derived_snapshot nft db"
  shows "snapshots_ok (handleReorg ap now n db)"
  unfolding snapshots_ok_def
proof
  fix nft
  have "derived_snapshot nft (handleReorg ap now n db) = derived_snapshot nft (delete_blocks (\<lambda>b. bl_number b \<ge> n) db)"
    by (rule derived_same [OF same_tables_reorg])
  moreover have "snapshot_of nft (delete_blocks P db) = snapshot_of nft db" for P
    by (simp add: snapshot_of_def delete_blocks_def Let_def)
  ultimately show "snapshot_of nft (handleReorg ap now n db) = derived_snapshot nft (handleReorg ap now n db)"
    using assms unaffected_derived [OF assms(1)]
    by (simp add: handleReorg_def Let_def snapshot_rebuilds split: option.split)
qed

section \<open>Incremental snapshots\<close>

text \<open>Printing a parsed address in the one form the code asks for gives an address that parses to itself.\<close>

definition ap_canonical :: "(string \<Rightarrow> string option) \<Rightarrow> bool" where
  "ap_canonical ap \<longleftrightarrow> (\<forall>a s. ap a = Some s \<longrightarrow> ap s = Some s)"

lemma norm_idem: "ap_canonical ap \<Longrightarrow> normalizeTonAddress ap (normalizeTonAddress ap a) = normalizeTonAddress ap a"
  by (auto simp: normalizeTonAddress_def ap_canonical_def split: option.split)

definition fresh_row :: "'a event_row \<Rightarrow> 'a event_row list \<Rightarrow> bool" where
  "fresh_row e rows \<longleftrightarrow> list_all (\<lambda>r. \<not> (r_tx r = r_tx e \<and> r_log r = r_log e)) rows"

definition block_at_top :: "'a event_row \<Rightarrow> 'b event_row list \<Rightarrow> bool" where
  "block_at_top e rows \<longleftrightarrow> list_all (\<lambda>r. r_block r \<le> r_block e) rows"

text \<open>
  Statements in the order of the chain: new blocks and new events, transfers of no older block than the stored ones, and a
  change of an account's state or owner after the stored ones by block and log index.
\<close>

fun in_order :: "(string \<Rightarrow> string option) \<Rightarrow> db_op \<Rightarrow> idx_db \<Rightarrow> bool" where
  "in_order ap (Op_block n h p ts c) db = list_all (\<lambda>b. bl_number b \<noteq> n \<and> bl_hash b \<noteq> h) (blocks db)"
| "in_order ap (Op_transfer e) db =
     (fresh_row e (internal_transfers db) \<and> block_at_top e (internal_transfers db) \<and> block_at_top e (merchant_payments db))"
| "in_order ap (Op_payment e) db =
     (fresh_row e (merchant_payments db) \<and> block_at_top e (internal_transfers db) \<and> block_at_top e (merchant_payments db))"
| "in_order ap (Op_state e) db =
     (fresh_row e (account_state_changes db)
      \<and> list_all (\<lambda>y. \<not> newer_or_equal y e) (state_rows (normalizeTonAddress ap (sd_nft (r_data e))) db))"
| "in_order ap (Op_owner e) db =
     (fresh_row e (nft_ownership_changes db)
      \<and> list_all (\<lambda>y. \<not> newer_or_equal y e) (owner_rows (normalizeTonAddress ap (od_nft (r_data e))) db))"
| "in_order ap _ db = True"

lemma insert_fresh:
  "fresh_row e rows \<Longrightarrow> insert_or_ignore bs (e\<lparr>r_data := d\<rparr>) rows =
     (if r_block e \<in> bl_number ` set bs then Inr (rows @ [e\<lparr>r_data := d\<rparr>]) else Inl Foreign_key)"
  unfolding insert_or_ignore_def block_mem by (auto simp: fresh_row_def list_ex_iff list_all_iff)

definition touched :: "int \<Rightarrow> (string option \<times> int \<times> int option \<times> int option) option \<Rightarrow> (string option \<times> int \<times> int option \<times> int option) option" where
  "touched n v = (case v of None \<Rightarrow> Some (None, 0, Some n, None) | Some (ow, st, _, sc) \<Rightarrow> Some (ow, st, Some n, sc))"

lemma touched_touched [simp]: "touched n (touched n v) = touched n v"
  by (auto simp: touched_def split: option.split)

lemma snapshot_update:
  "snapshot_of nft (updateAccountSnapshot ap now a n db) =
     (if nft = normalizeTonAddress ap a then touched n (snapshot_of nft db) else snapshot_of nft db)"
  by (auto simp: updateAccountSnapshot_def Let_def snapshot_of_def touched_def snap_view_def amap_simps split: option.splits)

lemma snapshot_invalidate [simp]: "snapshot_of nft (invalidateHistoryCache ap a db) = snapshot_of nft db"
  by (simp add: snapshot_of_def invalidateHistoryCache_def)

lemma snapshot_touch:
  "snapshot_of nft (touch_parties ap now a b n db) =
     (if nft = normalizeTonAddress ap a \<or> nft = normalizeTonAddress ap b then touched n (snapshot_of nft db) else snapshot_of nft db)"
  by (simp add: touch_parties_def snapshot_update)

lemma derived_touched:
  assumes "owner_rows nft db' = owner_rows nft db" "state_rows nft db' = state_rows nft db"
    and "set (transfer_blocks nft db') = insert n (set (transfer_blocks nft db))"
    and "\<forall>b\<in>set (transfer_blocks nft db). b \<le> n"
  shows "derived_snapshot nft db' = touched n (derived_snapshot nft db)"
proof -
  have "max_block (transfer_blocks nft db') = Some n" "transfer_blocks nft db' \<noteq> []"
    using max_block_dominated [OF assms(3,4)] assms(3) by auto
  then show ?thesis
    using assms(1,2) by (auto simp: derived_snapshot_def touched_def split: option.split)
qed

lemma transfer_blocks_top:
  "block_at_top e (internal_transfers db) \<Longrightarrow> block_at_top e (merchant_payments db) \<Longrightarrow>
   \<forall>b\<in>set (transfer_blocks nft db). b \<le> r_block e"
  by (auto simp: transfer_blocks_def block_at_top_def list_all_iff)

lemma snapshots_parties:
  assumes "ap_canonical ap" "snapshots_ok db" "account_snapshots d = account_snapshots db"
    and "nft_ownership_changes d = nft_ownership_changes db" "account_state_changes d = account_state_changes db"
    and parties: "\<And>nft. set (transfer_blocks nft d) =
        (if nft = normalizeTonAddress ap a \<or> nft = normalizeTonAddress ap b
         then insert n (set (transfer_blocks nft db)) else set (transfer_blocks nft db))"
    and top: "\<And>nft. \<forall>m\<in>set (transfer_blocks nft db). m \<le> n"
  shows "snapshots_ok (touch_parties ap now (normalizeTonAddress ap a) (normalizeTonAddress ap b) n d)"
proof -
  have rows: "owner_rows nft d = owner_rows nft db" "state_rows nft d = state_rows nft db" "snapshot_of nft d = snapshot_of nft db" for nft
    using assms(3-5) by (simp_all add: owner_rows_def state_rows_def snapshot_of_def)
  have "derived_snapshot nft d = (if nft = normalizeTonAddress ap a \<or> nft = normalizeTonAddress ap b
      then touched n (derived_snapshot nft db) else derived_snapshot nft db)" for nft
  proof (cases "nft = normalizeTonAddress ap a \<or> nft = normalizeTonAddress ap b")
    case True
    then have "set (transfer_blocks nft d) = insert n (set (transfer_blocks nft db))" using parties [of nft] by simp
    from derived_touched [OF rows(1,2) this top] True show ?thesis by simp
  next
    case False
    then have same: "set (transfer_blocks nft d) = set (transfer_blocks nft db)" using parties [of nft] by simp
    then have "max_block (transfer_blocks nft d) = max_block (transfer_blocks nft db)"
      "transfer_blocks nft d = [] \<longleftrightarrow> transfer_blocks nft db = []"
      by (simp_all add: max_block_eq flip: set_empty)
    with False rows show ?thesis by (simp add: derived_snapshot_def)
  qed
  then show ?thesis
    using assms(1,2) rows(3) unfolding snapshots_ok_def derived_same [OF same_tables_touch] snapshot_touch by (simp add: norm_idem)
qed

lemma snapshots_transfer:
  assumes "ap_canonical ap" "snapshots_ok db" "in_order ap (Op_transfer e) db"
  shows "snapshots_ok (snd (insertInternalTransfer ap now e db))"
proof (cases "r_block e \<in> bl_number ` set (blocks db)")
  case True
  then show ?thesis
    using assms(3) transfer_blocks_top [of e db]
    by (auto simp: insertInternalTransfer_def Let_def insert_fresh transfer_blocks_def parties_def
        intro!: snapshots_parties [OF assms(1,2)])
qed (use assms in \<open>simp add: insertInternalTransfer_def Let_def insert_fresh\<close>)

lemma snapshots_payment:
  assumes "ap_canonical ap" "snapshots_ok db" "in_order ap (Op_payment e) db"
  shows "snapshots_ok (snd (insertMerchantPayment ap now e db))"
proof (cases "r_block e \<in> bl_number ` set (blocks db)")
  case True
  then show ?thesis
    using assms(3) transfer_blocks_top [of e db]
    by (auto simp: insertMerchantPayment_def Let_def insert_fresh transfer_blocks_def parties_def
        intro!: snapshots_parties [OF assms(1,2)])
qed (use assms in \<open>simp add: insertMerchantPayment_def Let_def insert_fresh\<close>)

lemma snapshots_state:
  assumes "snapshots_ok db" "in_order ap (Op_state e) db"
  shows "snapshots_ok (snd (insertAccountStateChange ap now e db))"
proof (cases "r_block e \<in> bl_number ` set (blocks db)")
  case True
  let ?n = "normalizeTonAddress ap (sd_nft (r_data e))"
  let ?row = "e\<lparr>r_data := (r_data e)\<lparr>sd_nft := ?n\<rparr>\<rparr>"
  let ?db = "snd (insertAccountStateChange ap now e db)"
  have "newer_or_equal y ?row = newer_or_equal y e" for y :: "state_data event_row" by (simp add: newer_or_equal_def)
  with assms(2) have "latest_row (state_rows ?n db @ [?row]) = Some ?row"
    by (intro latest_row_append_latest) simp
  moreover have "state_rows nft ?db = (if nft = ?n then state_rows ?n db @ [?row] else state_rows nft db)"
    "owner_rows nft ?db = owner_rows nft db" "transfer_blocks nft ?db = transfer_blocks nft db" for nft
    using True assms(2)
    by (simp_all add: insertAccountStateChange_def Let_def insert_fresh state_rows_def owner_rows_def transfer_blocks_def invalidateHistoryCache_def)
  moreover have "snapshot_of nft ?db = (if nft = ?n then
      (case snapshot_of ?n db of None \<Rightarrow> Some (None, sd_new (r_data e), None, Some (r_block e))
       | Some (ow, st, tr, sc) \<Rightarrow> Some (ow, sd_new (r_data e), tr, Some (r_block e))) else snapshot_of nft db)" for nft
    using True assms(2)
    by (auto simp: insertAccountStateChange_def Let_def insert_fresh snapshot_of_def invalidateHistoryCache_def amap_simps snap_view_def
        split: option.split)
  ultimately show ?thesis
    using assms(1) unfolding snapshots_ok_def by (auto simp: derived_snapshot_def)
qed (use assms in \<open>simp add: insertAccountStateChange_def Let_def insert_fresh\<close>)

lemma snapshots_owner:
  assumes "snapshots_ok db" "in_order ap (Op_owner e) db"
  shows "snapshots_ok (snd (insertNFTOwnershipChange ap now e db))"
proof (cases "r_block e \<in> bl_number ` set (blocks db)")
  case True
  let ?n = "normalizeTonAddress ap (od_nft (r_data e))"
  let ?new = "normalizeTonAddress ap (od_new (r_data e))"
  let ?row = "e\<lparr>r_data := \<lparr>od_nft = ?n, od_collection = normalizeTonAddress ap (od_collection (r_data e)),
                 od_old = normalizeNullableTonAddress ap (od_old (r_data e)), od_new = ?new\<rparr>\<rparr>"
  let ?db = "snd (insertNFTOwnershipChange ap now e db)"
  have "newer_or_equal y ?row = newer_or_equal y e" for y :: "owner_data event_row" by (simp add: newer_or_equal_def)
  with assms(2) have "latest_row (owner_rows ?n db @ [?row]) = Some ?row"
    by (intro latest_row_append_latest) simp
  moreover have "owner_rows nft ?db = (if nft = ?n then owner_rows ?n db @ [?row] else owner_rows nft db)"
    "state_rows nft ?db = state_rows nft db" "transfer_blocks nft ?db = transfer_blocks nft db" for nft
    using True assms(2)
    by (simp_all add: insertNFTOwnershipChange_def Let_def insert_fresh state_rows_def owner_rows_def transfer_blocks_def invalidateHistoryCache_def)
  moreover have "snapshot_of nft ?db = (if nft = ?n then
      (case snapshot_of ?n db of None \<Rightarrow> Some (Some ?new, 0, None, None)
       | Some (ow, st, tr, sc) \<Rightarrow> Some (Some ?new, st, tr, sc)) else snapshot_of nft db)" for nft
    using True assms(2)
    by (auto simp: insertNFTOwnershipChange_def Let_def insert_fresh snapshot_of_def invalidateHistoryCache_def amap_simps snap_view_def
        split: option.split)
  ultimately show ?thesis
    using assms(1) unfolding snapshots_ok_def by (auto simp: derived_snapshot_def)
qed (use assms in \<open>simp add: insertNFTOwnershipChange_def Let_def insert_fresh\<close>)

lemma snapshots_cong:
  assumes "account_snapshots d = account_snapshots db" "internal_transfers d = internal_transfers db"
    "merchant_payments d = merchant_payments db" "account_state_changes d = account_state_changes db"
    "nft_ownership_changes d = nft_ownership_changes db"
    and "snapshots_ok db"
  shows "snapshots_ok d"
  using assms by (simp add: snapshots_ok_def snapshot_of_def derived_snapshot_def owner_rows_def state_rows_def transfer_blocks_def)

lemma insertBlock_fresh:
  assumes "db_wf db" "in_order ap (Op_block n h p ts c) db"
  shows "insertBlock now n h p ts c db = db\<lparr>blocks := blocks db @
        [\<lparr>bl_number = n, bl_hash = h, bl_parent = p, bl_timestamp = ts, bl_tx_count = c, bl_indexed_at = now, bl_confirmed = False\<rparr>]\<rparr>"
proof -
  have "\<forall>b\<in>set (blocks db). bl_number b \<noteq> n \<and> bl_hash b \<noteq> h" using assms(2) by (simp add: list_all_iff)
  then have "delete_blocks (\<lambda>b. bl_number b = n \<or> bl_hash b = h) db = db"
    by (simp add: delete_blocks_def Let_def list_ex_iff cong: filter_cong)
  then show ?thesis by (simp add: insertBlock_def)
qed

lemma snapshots_exec:
  assumes "ap_canonical ap" "db_wf db" "snapshots_ok db" "in_order ap op db"
  shows "snapshots_ok (db_exec ap now op db)"
proof (cases op)
  case (Op_block n h p ts c)
  then have "db_exec ap now op db = db\<lparr>blocks := blocks db @ [\<lparr>bl_number = n, bl_hash = h, bl_parent = p,
      bl_timestamp = ts, bl_tx_count = c, bl_indexed_at = now, bl_confirmed = False\<rparr>]\<rparr>"
    using insertBlock_fresh [OF assms(2)] assms(4) by simp
  then show ?thesis by (intro snapshots_cong [OF _ _ _ _ _ assms(3)]) simp_all
next
  case (Op_reorg n)
  then show ?thesis
    using assms(3) snapshots_reorg [OF assms(2)] by (simp add: snapshots_ok_def)
qed (use assms in \<open>simp_all add: snapshots_transfer snapshots_payment snapshots_state snapshots_owner\<close>,
    (rule snapshots_cong [OF _ _ _ _ _ assms(3)];
     simp add: markBlocksConfirmed_def updateLatestBlock_def setLatestChainSeqno_def
      insertTransparencyProtocolMetrics_def insertTransparencyLockActivity_def insertTransparencyParameterChange_def
      getAccountHistory_def setHistoryCacheEntry_def Let_def split: sum.split option.split)+)

text \<open>Sequences of statements each of which satisfies a condition on the state it meets.\<close>

fun run_guarded :: "(db_op \<Rightarrow> idx_db \<Rightarrow> bool) \<Rightarrow> (string \<Rightarrow> string option) \<Rightarrow> (int \<times> db_op) list \<Rightarrow> idx_db \<Rightarrow> bool" where
  "run_guarded G ap [] db = True"
| "run_guarded G ap ((now, op) # ops) db = (G op db \<and> run_guarded G ap ops (db_exec ap now op db))"

lemma db_run_Nil [simp]: "db_run ap [] db = db"
  by (simp add: db_run_def)

lemma db_run_Cons [simp]: "db_run ap ((now, op) # ops) db = db_run ap ops (db_exec ap now op db)"
  by (simp add: db_run_def)

lemma guarded_invariant:
  assumes "P db" "run_guarded G ap ops db" "\<And>db now op. P db \<Longrightarrow> G op db \<Longrightarrow> P (db_exec ap now op db)"
  shows "P (db_run ap ops db)"
  using assms(1,2) by (induction ops arbitrary: db) (use assms(3) in auto)

lemma snapshots_run:
  assumes "ap_canonical ap" "db_wf db" "snapshots_ok db" "run_guarded (in_order ap) ap ops db"
  shows "snapshots_ok (db_run ap ops db)"
proof -
  have "db_wf (db_run ap ops db) \<and> snapshots_ok (db_run ap ops db)"
    by (rule guarded_invariant [OF _ assms(4)]) (use assms in \<open>auto intro: db_wf_exec snapshots_exec\<close>)
  then show ?thesis by simp
qed

lemma snapshots_empty: "snapshots_ok empty_db"
  by (simp add: snapshots_ok_def snapshot_of_def derived_snapshot_def owner_rows_def state_rows_def transfer_blocks_def empty_db_def)

end
