(* ===== verification/Idx_Database_Props.thy ===== *)
theory Idx_Database_Props
  imports Idx_Database_Thms
begin

text \<open>
  What the indexer's database promises its readers: keyset pagination enumerates an account's
  history exactly once, the history cache is transparent and bounded, a transparency period shows
  its newest record whatever the order of delivery, the stored confirmation flag is the canonical
  confirmation predicate, and the tables, snapshots and cursor after a reorganisation are those of
  the surviving blocks.
\<close>

section \<open>Keyset pagination\<close>

definition cursor_of :: "history_event \<Rightarrow> history_cursor" where
  "cursor_of e = Before_event (he_ts e) (he_tx e) (he_log e)"

lemma cursorFilter_key: "cursorFilter (cursor_of e) x \<longleftrightarrow> history_key e < history_key x"
  by (auto simp: cursor_of_def history_key_def less_prod_def)

lemma filter_above:
  assumes "sorted (map f xs)" "distinct (map f xs)" "i < length xs"
  shows "filter (\<lambda>x. f (xs ! i) < f x) xs = drop (Suc i) xs"
proof -
  have inc: "f (xs ! a) < f (xs ! b)" if "a < b" "b < length xs" for a b
    using assms(1,2) that sorted_nth_mono [of "map f xs" a b] nth_eq_iff_index_eq [of "map f xs" a b]
    by (simp add: order.strict_iff_order)
  have "filter (\<lambda>x. f (xs ! i) < f x) (take (Suc i) xs) = []"
    using assms(3) inc by (fastforce simp: filter_empty_conv in_set_conv_nth less_Suc_eq_le not_less le_less)
  moreover have "filter (\<lambda>x. f (xs ! i) < f x) (drop (Suc i) xs) = drop (Suc i) xs"
    using assms(3) inc by (fastforce simp: filter_id_conv in_set_conv_nth)
  ultimately show ?thesis by (metis append_Nil append_take_drop_id filter_append)
qed

definition full_history :: "string \<Rightarrow> idx_db \<Rightarrow> history_event list" where
  "full_history nft db = history_sort (history_rows nft db)"

lemma page_after:
  assumes "distinct (map history_key (history_rows nft db))" "i < length (full_history nft db)"
  shows "hr_events (history_query nft limit 0 (cursor_of (full_history nft db ! i)) db) = take limit (drop (Suc i) (full_history nft db))"
proof -
  let ?S = "full_history nft db"
  have "distinct (map history_key ?S)"
    using assms(1) by (simp add: full_history_def history_sort_def distinct_map)
  moreover have "sorted (map history_key ?S)" by (simp add: full_history_def history_sort_def)
  ultimately have "filter (cursorFilter (cursor_of (?S ! i))) ?S = drop (Suc i) ?S"
    unfolding cursorFilter_key using assms(2) by (intro filter_above)
  then show ?thesis
    by (simp add: history_query_def history_sort_def full_history_def filter_sort)
qed

text \<open>A client that asks for page after page, each time before the last event it has seen.\<close>

fun fetch_pages :: "string \<Rightarrow> nat \<Rightarrow> idx_db \<Rightarrow> nat \<Rightarrow> history_cursor \<Rightarrow> history_event list list" where
  "fetch_pages nft limit db 0 before = []"
| "fetch_pages nft limit db (Suc n) before =
     (let page = hr_events (history_query nft limit 0 before db)
      in if page = [] then [] else page # fetch_pages nft limit db n (cursor_of (last page)))"

lemma fetch_from:
  assumes "distinct (map history_key (history_rows nft db))" "0 < limit"
    and "hr_events (history_query nft limit 0 before db) = take limit (drop i (full_history nft db))"
    and "length (full_history nft db) - i < n"
  shows "concat (fetch_pages nft limit db n before) = drop i (full_history nft db)"
  using assms(3,4)
proof (induction n arbitrary: i before)
  case (Suc n)
  let ?S = "full_history nft db"
  show ?case
  proof (cases "i < length ?S")
    case True
    let ?page = "take limit (drop i ?S)"
    let ?j = "min (i + limit) (length ?S) - 1"
    have ne: "?page \<noteq> []" using True assms(2) by simp
    have j: "?j < length ?S" "Suc ?j = min (i + limit) (length ?S)"
      using True assms(2) by auto
    have "i + (length ?page - 1) = ?j" using True assms(2) by (auto simp: min_def)
    then have last: "last ?page = ?S ! ?j"
      using True assms(2) ne by (simp add: last_conv_nth)
    have "hr_events (history_query nft limit 0 (cursor_of (last ?page)) db) = take limit (drop (Suc ?j) ?S)"
      unfolding last by (rule page_after [OF assms(1) j(1)])
    then have "concat (fetch_pages nft limit db n (cursor_of (last ?page))) = drop (Suc ?j) ?S"
      using Suc.prems(2) True assms(2) j(2) by (intro Suc.IH) auto
    moreover have "?page @ drop (Suc ?j) ?S = drop i ?S"
      unfolding j(2) by (metis append_take_drop_id drop_drop add.commute drop_all min_def nle_le drop_eq_Nil2 append_Nil2 take_all_iff length_drop diff_le_mono add_diff_cancel_left')
    ultimately show ?thesis using ne by (simp add: Suc.prems(1) Let_def)
  next
    case False
    then show ?thesis by (simp add: Suc.prems(1))
  qed
qed simp

section \<open>The history cache\<close>

lemma cursor_json_inj: "cursor_json c = cursor_json c' \<Longrightarrow> c = c'"
  by (cases c; cases c') auto

lemma cursor_json_clean: "json_clean (cursor_json c)"
  by (cases c) auto

lemma cache_key_inj:
  "accountHistoryCacheKey n l off c = accountHistoryCacheKey n' l' off' c' \<longleftrightarrow> n = n' \<and> l = l' \<and> off = off' \<and> c = c'"
proof
  let ?v = "JArr [JStr n, JNum (int l), JNum (int off), cursor_json c]"
  let ?w = "JArr [JStr n', JNum (int l'), JNum (int off'), cursor_json c']"
  have clean: "json_clean ?v" "json_clean ?w" by (simp_all add: cursor_json_clean)
  assume "accountHistoryCacheKey n l off c = accountHistoryCacheKey n' l' off' c'"
  then have "json_stringify ?v = json_stringify ?w"
    by (simp add: accountHistoryCacheKey_def json_stringify_clean [OF clean(1)] json_stringify_clean [OF clean(2)] or_null_def
        del: json_stringify.simps)
  then have "?v = ?w" by (rule json_stringify_inj [OF clean])
  then show "n = n' \<and> l = l' \<and> off = off' \<and> c = c'" by (simp add: cursor_json_inj)
qed simp

definition entry_sound :: "idx_db \<Rightarrow> string \<Rightarrow> history_cache_entry \<Rightarrow> bool" where
  "entry_sound db k e \<longleftrightarrow> (\<exists>limit off before. k = accountHistoryCacheKey (hc_nft e) limit off before
     \<and> hc_result e = history_query (hc_nft e) limit off before db)"

definition cache_sound :: "idx_db \<Rightarrow> bool" where
  "cache_sound db \<longleftrightarrow> (\<forall>(k, e)\<in>set (historyCache db). entry_sound db k e)"

text \<open>The tables hold addresses in canonical form.\<close>

definition rows_canonical :: "(string \<Rightarrow> string option) \<Rightarrow> idx_db \<Rightarrow> bool" where
  "rows_canonical ap db \<longleftrightarrow>
     (\<forall>r\<in>set (internal_transfers db) \<union> set (merchant_payments db).
        normalizeTonAddress ap (td_from (r_data r)) = td_from (r_data r) \<and> normalizeTonAddress ap (td_to (r_data r)) = td_to (r_data r))
     \<and> (\<forall>r\<in>set (account_state_changes db). normalizeTonAddress ap (sd_nft (r_data r)) = sd_nft (r_data r))
     \<and> (\<forall>r\<in>set (nft_ownership_changes db). normalizeTonAddress ap (od_nft (r_data r)) = od_nft (r_data r))"

lemma set_amap_delete: "set (amap_delete k m) \<subseteq> set m"
  by (auto simp: amap_delete_def)

lemma evict_suffix: "\<exists>n. evict_oldest m = drop n m"
proof (induction m)
  case (Cons kv m)
  then obtain n where "evict_oldest m = drop n m" by blast
  then have "evict_oldest (kv # m) = drop (Suc n) (kv # m) \<or> evict_oldest (kv # m) = drop 0 (kv # m)" by simp
  then show ?case by blast
qed simp

lemma set_evict: "set (evict_oldest m) \<subseteq> set m"
  using evict_suffix [of m] by (metis set_drop_subset)

lemma length_evict: "length (evict_oldest m) \<le> ACCOUNT_HISTORY_CACHE_MAX_ENTRIES"
  by (induction m) auto

lemma set_cache_insert: "set (evict_oldest (amap_set k v (amap_delete k m))) \<subseteq> insert (k, v) (set m)"
proof
  fix x
  assume "x \<in> set (evict_oldest (amap_set k v (amap_delete k m)))"
  then have "x \<in> set (amap_set k v (amap_delete k m))" using set_evict by blast
  then show "x \<in> insert (k, v) (set m)" using set_amap_set set_amap_delete by fastforce
qed

lemma length_move: "amap_wf m \<Longrightarrow> amap_get k m = Some v \<Longrightarrow> length (amap_set k w (amap_delete k m)) = length m"
proof (induction m)
  case (Cons kv m)
  have set_new: "length (amap_set k w m) = Suc (length m)" if "k \<notin> fst ` set m" for m
    using that by (induction m) auto
  have del_new: "amap_delete k m = m" if "k \<notin> fst ` set m" for m
    using that by (induction m) (auto simp: amap_delete_def)
  show ?case
  proof (cases "fst kv = k")
    case True
    with Cons.prems have "k \<notin> fst ` set m" by (auto simp: amap_wf_def)
    then have "amap_delete k (kv # m) = m" using del_new True by (auto simp: amap_delete_def)
    with \<open>k \<notin> fst ` set m\<close> show ?thesis using set_new by simp
  next
    case False
    with Cons.prems have "amap_wf m" "amap_get k m = Some v" by (auto simp: amap_wf_def amap_get_def)
    with False Cons.IH show ?thesis by (cases kv) (simp add: amap_delete_def)
  qed
qed simp

lemma wf_evict: "amap_wf m \<Longrightarrow> amap_wf (evict_oldest m)"
  using evict_suffix [of m] by (auto simp: amap_wf_def drop_map [symmetric])

lemma history_query_cong:
  "history_rows n db' = history_rows n db \<Longrightarrow> history_query n l off c db' = history_query n l off c db"
  by (simp add: history_query_def)

lemma cache_sound_shrink:
  assumes "cache_sound db" "set (historyCache db') \<subseteq> set (historyCache db)"
    and "\<And>k e. (k, e) \<in> set (historyCache db') \<Longrightarrow> history_rows (hc_nft e) db' = history_rows (hc_nft e) db"
  shows "cache_sound db'"
  unfolding cache_sound_def
proof clarify
  fix k e
  assume ke: "(k, e) \<in> set (historyCache db')"
  with assms(1,2) have "entry_sound db k e" by (auto simp: cache_sound_def)
  then show "entry_sound db' k e"
    using history_query_cong [OF assms(3) [OF ke]] by (simp add: entry_sound_def)
qed

lemma history_rows_same: "same_tables db db' \<Longrightarrow> history_rows n db' = history_rows n db"
  by (simp add: same_tables_def history_rows_def)

lemma cache_ops [simp]:
  "historyCache (updateAccountSnapshot ap now a n db) = historyCache db"
  "historyCache (rebuildAccountSnapshot now a db) = historyCache db"
  "historyCache (updateLatestBlock now n ts db) = historyCache db"
  "historyCache (delete_blocks P db) = historyCache db"
  by (simp_all add: updateAccountSnapshot_def rebuildAccountSnapshot_def updateLatestBlock_def delete_blocks_def Let_def)

lemma cache_invalidate:
  "set (historyCache (invalidateHistoryCache ap a db)) =
     {(k, e) \<in> set (historyCache db). hc_nft e \<noteq> normalizeTonAddress ap a}"
  by (auto simp: invalidateHistoryCache_def)

lemma cache_touch:
  "set (historyCache (touch_parties ap now a b n db)) =
     {(k, e) \<in> set (historyCache db). hc_nft e \<noteq> normalizeTonAddress ap a \<and> hc_nft e \<noteq> normalizeTonAddress ap b}"
  by (auto simp: touch_parties_def cache_invalidate)

lemma cache_rebuilds:
  "set (historyCache (fold (\<lambda>nft d. invalidateHistoryCache ap nft (rebuildAccountSnapshot now nft d)) nfts db)) =
     {(k, e) \<in> set (historyCache db). hc_nft e \<notin> normalizeTonAddress ap ` set nfts}"
  by (induction nfts arbitrary: db) (auto simp: cache_invalidate)

lemma getAccountHistory_spec:
  assumes "amap_wf (historyCache db)" "cache_sound db"
  shows "fst (getAccountHistory ap now a l off c db) = history_query (normalizeTonAddress ap a) l off c db"
proof (cases "amap_get (accountHistoryCacheKey (normalizeTonAddress ap a) l off c) (historyCache db)")
  case None
  then show ?thesis by (simp add: getAccountHistory_def Let_def)
next
  case (Some e)
  with assms have "entry_sound db (accountHistoryCacheKey (normalizeTonAddress ap a) l off c) e"
    by (auto simp: cache_sound_def simp flip: amap_entries)
  then have "hc_result e = history_query (normalizeTonAddress ap a) l off c db"
    by (auto simp: entry_sound_def cache_key_inj)
  with Some show ?thesis by (simp add: getAccountHistory_def Let_def history_query_def history_rows_def)
qed

lemma cache_sound_history:
  assumes "amap_wf (historyCache db)" "cache_sound db"
  shows "cache_sound (snd (getAccountHistory ap now a l off c db))"
proof -
  let ?n = "normalizeTonAddress ap a"
  let ?k = "accountHistoryCacheKey ?n l off c"
  let ?db' = "snd (getAccountHistory ap now a l off c db)"
  let ?new = "\<lparr>hc_nft = ?n, hc_result = history_query ?n l off c db, hc_cachedAt = now\<rparr>"
  have rows: "history_query n l off c ?db' = history_query n l off c db" for n l off c
    by (rule history_query_cong, rule history_rows_same, rule same_tables_ops(5))
  have q: "history_query ?n l off c (db\<lparr>historyCache := m\<rparr>) = history_query ?n l off c db" for m
    by (simp add: history_query_def history_rows_def)
  have "set (historyCache ?db') \<subseteq> insert (?k, ?new) (set (historyCache db))"
  proof (cases "amap_get ?k (historyCache db)")
    case None
    then show ?thesis
      using set_cache_insert [of ?k ?new "historyCache db"] by (simp add: getAccountHistory_def Let_def setHistoryCacheEntry_def)
  next
    case (Some e)
    then have "(?k, e) \<in> set (historyCache db)" using assms(1) by (simp flip: amap_entries)
    then show ?thesis
      using Some set_cache_insert [of ?k ?new "amap_delete ?k (historyCache db)"]
        set_amap_set [of ?k e "amap_delete ?k (historyCache db)"] set_amap_delete [of ?k "historyCache db"]
      by (auto simp: getAccountHistory_def Let_def setHistoryCacheEntry_def q split: if_splits)
  qed
  moreover have "entry_sound ?db' ?k ?new" by (auto simp: entry_sound_def rows)
  moreover have "entry_sound ?db' k e" if "(k, e) \<in> set (historyCache db)" for k e
    using assms(2) that by (auto simp: cache_sound_def entry_sound_def rows)
  ultimately show ?thesis unfolding cache_sound_def by auto
qed

lemma insert_cases:
  assumes "insert_or_ignore bs row rows = Inr rows'"
  obtains "rows' = rows" | "rows' = rows @ [row]"
  using assms by (auto simp: insert_or_ignore_def split: if_splits)

lemma history_rows_parties: "history_rows nft db =
     map (\<lambda>r. H_transfer (r_ts r) (r_block r) (r_tx r) (r_log r) (td_from (r_data r)) (td_to (r_data r))
            (td_amount (r_data r)) (td_payload (r_data r))) (filter (parties nft) (internal_transfers db))
     @ map (\<lambda>r. H_payment (r_ts r) (r_block r) (r_tx r) (r_log r) (td_from (r_data r)) (td_to (r_data r))
            (td_amount (r_data r)) (td_payload (r_data r))) (filter (parties nft) (merchant_payments db))
     @ map (\<lambda>r. H_state_change (r_ts r) (r_block r) (r_tx r) (r_log r) (sd_old (r_data r)) (sd_new (r_data r)))
       (filter (\<lambda>r. sd_nft (r_data r) = nft) (account_state_changes db))"
  unfolding history_rows_def parties_def [abs_def] ..

lemma history_rows_insert:
  "\<not> parties n row \<Longrightarrow> history_rows n (db\<lparr>internal_transfers := internal_transfers db @ [row]\<rparr>) = history_rows n db"
  "\<not> parties n row \<Longrightarrow> history_rows n (db\<lparr>merchant_payments := merchant_payments db @ [row]\<rparr>) = history_rows n db"
  "sd_nft (r_data srow) \<noteq> n \<Longrightarrow>
     history_rows n (db\<lparr>account_state_changes := account_state_changes db @ [srow]\<rparr>) = history_rows n db"
  "history_rows n (db\<lparr>account_snapshots := sn\<rparr>) = history_rows n db"
  "history_rows n (db\<lparr>nft_ownership_changes := os\<rparr>) = history_rows n db"
  by (simp_all add: history_rows_def parties_def)

lemma cache_sound_events:
  assumes "ap_canonical ap" "cache_sound db"
  shows "cache_sound (snd (insertInternalTransfer ap now te db))" "cache_sound (snd (insertMerchantPayment ap now te db))"
    "cache_sound (snd (insertAccountStateChange ap now se db))" "cache_sound (snd (insertNFTOwnershipChange ap now oe db))"
  unfolding insert_defs Let_def
  by (auto split: sum.split simp: assms(2) history_rows_same [OF same_tables_touch] history_rows_same [OF same_tables_ops(3)]
      cache_touch cache_invalidate norm_idem [OF assms(1)] history_rows_insert parties_def
      intro!: cache_sound_shrink [OF assms(2)] elim!: insert_cases)

lemma cache_sound_reorg:
  assumes "db_wf db" "rows_canonical ap db" "cache_sound db"
  shows "cache_sound (handleReorg ap now n db)"
proof (rule cache_sound_shrink [OF assms(3)])
  have cache: "set (historyCache (handleReorg ap now n db)) =
      {(k, e) \<in> set (historyCache db). hc_nft e \<notin> normalizeTonAddress ap ` set (affected_nfts n db)}"
    by (auto simp: handleReorg_def Let_def cache_rebuilds split: option.split)
  then show "set (historyCache (handleReorg ap now n db)) \<subseteq> set (historyCache db)" by auto
  have "normalizeTonAddress ap a = a" if "a \<in> set (affected_nfts n db)" for a
    using assms(2) that by (auto simp: affected_nfts_def rows_canonical_def)
  then have affected: "normalizeTonAddress ap ` set (affected_nfts n db) = set (affected_nfts n db)" by force
  fix k e
  assume "(k, e) \<in> set (historyCache (handleReorg ap now n db))"
  then have no: "hc_nft e \<notin> set (affected_nfts n db)" by (auto simp: cache affected)
  show "history_rows (hc_nft e) (handleReorg ap now n db) = history_rows (hc_nft e) db"
    using unaffected_rows [OF no]
    unfolding history_rows_same [OF same_tables_reorg]
    by (simp add: history_rows_parties delete_from [OF assms(1)] keep_filter)
qed

definition cache_inv :: "(string \<Rightarrow> string option) \<Rightarrow> idx_db \<Rightarrow> bool" where
  "cache_inv ap db \<longleftrightarrow> db_wf db \<and> rows_canonical ap db \<and> cache_sound db \<and> amap_wf (historyCache db)
     \<and> length (historyCache db) \<le> ACCOUNT_HISTORY_CACHE_MAX_ENTRIES"

fun new_block :: "db_op \<Rightarrow> idx_db \<Rightarrow> bool" where
  "new_block (Op_block n h p ts c) db = list_all (\<lambda>b. bl_number b \<noteq> n \<and> bl_hash b \<noteq> h) (blocks db)"
| "new_block _ db = True"

definition cache_small :: "idx_db \<Rightarrow> bool" where
  "cache_small db \<longleftrightarrow> amap_wf (historyCache db) \<and> length (historyCache db) \<le> ACCOUNT_HISTORY_CACHE_MAX_ENTRIES"

lemma amap_wf_filter: "amap_wf m \<Longrightarrow> amap_wf (filter P m)"
  by (simp add: amap_wf_def distinct_map_filter)

lemma cache_small_invalidate [intro!]: "cache_small db \<Longrightarrow> cache_small (invalidateHistoryCache ap a db)"
  unfolding cache_small_def invalidateHistoryCache_def
  by (auto simp: amap_wf_filter intro: order_trans [OF length_filter_le])

lemma cache_small_updates [simp]:
  "cache_small (db\<lparr>internal_transfers := ts\<rparr>) = cache_small db"
  "cache_small (db\<lparr>merchant_payments := ts\<rparr>) = cache_small db"
  "cache_small (db\<lparr>account_state_changes := ss\<rparr>) = cache_small db"
  "cache_small (db\<lparr>nft_ownership_changes := os\<rparr>) = cache_small db"
  "cache_small (db\<lparr>transparency_metrics := ms\<rparr>) = cache_small db"
  "cache_small (db\<lparr>transparency_locks := ls\<rparr>) = cache_small db"
  "cache_small (db\<lparr>transparency_params := ps\<rparr>) = cache_small db"
  "cache_small (db\<lparr>account_snapshots := sn\<rparr>) = cache_small db"
  "cache_small (db\<lparr>blocks := bs\<rparr>) = cache_small db"
  "cache_small (db\<lparr>latest_chain_seqno := m\<rparr>) = cache_small db"
  "cache_small (delete_blocks P db) = cache_small db"
  "cache_small (updateLatestBlock now m t db) = cache_small db"
  "cache_small (updateAccountSnapshot ap now a n db) = cache_small db"
  "cache_small (rebuildAccountSnapshot now a db) = cache_small db"
  by (simp_all add: cache_small_def)

lemma cache_small_touch [intro!]: "cache_small db \<Longrightarrow> cache_small (touch_parties ap now a b n db)"
  unfolding touch_parties_def by (intro cache_small_invalidate) simp

lemma cache_small_rebuilds:
  "cache_small db \<Longrightarrow> cache_small (fold (\<lambda>nft d. invalidateHistoryCache ap nft (rebuildAccountSnapshot now nft d)) nfts db)"
proof (induction nfts arbitrary: db)
  case (Cons nft nfts)
  have "cache_small (invalidateHistoryCache ap nft (rebuildAccountSnapshot now nft db))"
    using Cons.prems by (intro cache_small_invalidate) simp
  then show ?case by (simp add: Cons.IH)
qed simp

lemma cache_small_history:
  assumes "cache_small db"
  shows "cache_small (snd (getAccountHistory ap now a l off c db))"
  using assms
  by (auto simp: cache_small_def getAccountHistory_def setHistoryCacheEntry_def Let_def length_evict length_move
      amap_simps wf_evict split: option.split)

lemma cache_small_exec:
  assumes "cache_small db"
  shows "cache_small (db_exec ap now op db)"
  using assms cache_small_rebuilds [of "delete_blocks P db" for P]
  by (cases op) (auto simp: insert_defs Let_def insertBlock_def markBlocksConfirmed_def setLatestChainSeqno_def
      cache_small_history handleReorg_def split: sum.split option.split)

lemma rows_canonical_cong:
  assumes "set (internal_transfers d) \<subseteq> set (internal_transfers db)" "set (merchant_payments d) \<subseteq> set (merchant_payments db)"
    "set (account_state_changes d) \<subseteq> set (account_state_changes db)"
    "set (nft_ownership_changes d) \<subseteq> set (nft_ownership_changes db)" "rows_canonical ap db"
  shows "rows_canonical ap d"
  using assms unfolding rows_canonical_def by blast

lemma rows_canonical_same: "same_tables db db' \<Longrightarrow> rows_canonical ap db' = rows_canonical ap db"
  by (simp add: same_tables_def rows_canonical_def)

lemma rows_canonical_delete: "rows_canonical ap db \<Longrightarrow> rows_canonical ap (delete_blocks P db)"
  by (erule rows_canonical_cong [rotated 4]) (auto simp: delete_blocks_def Let_def)

lemma rows_canonical_insert:
  assumes "ap_canonical ap" "rows_canonical ap db"
  shows "rows_canonical ap (snd (insertInternalTransfer ap now te db))" "rows_canonical ap (snd (insertMerchantPayment ap now te db))"
    "rows_canonical ap (snd (insertAccountStateChange ap now se db))" "rows_canonical ap (snd (insertNFTOwnershipChange ap now oe db))"
  unfolding insert_defs Let_def using assms(2)
  by (auto split: sum.split simp: rows_canonical_same [OF same_tables_touch] rows_canonical_same [OF same_tables_ops(3)]
      elim!: insert_cases) (auto simp: rows_canonical_def norm_idem [OF assms(1)])

lemma rows_canonical_exec:
  assumes "ap_canonical ap" "rows_canonical ap db"
  shows "rows_canonical ap (db_exec ap now op db)"
proof (cases op)
  case (Op_reorg n)
  then show ?thesis by (simp add: rows_canonical_same [OF same_tables_reorg] rows_canonical_delete assms(2))
next
  case (Op_block n h p ts c)
  have "rows_canonical ap (delete_blocks (\<lambda>b. bl_number b = n \<or> bl_hash b = h) db)" using assms(2) by (rule rows_canonical_delete)
  with Op_block show ?thesis by (simp add: insertBlock_def Let_def rows_canonical_def)
qed (use assms in \<open>simp_all add: rows_canonical_insert rows_canonical_same [OF same_tables_ops(1)]
      rows_canonical_same [OF same_tables_ops(2)] rows_canonical_same [OF same_tables_ops(5)]\<close>,
    (rule rows_canonical_cong [OF _ _ _ _ assms(2)];
     simp add: insert_defs(5-7) markBlocksConfirmed_def split: sum.split)+)

lemma cache_sound_exec:
  assumes "ap_canonical ap" "db_wf db" "rows_canonical ap db" "amap_wf (historyCache db)" "cache_sound db" "new_block op db"
  shows "cache_sound (db_exec ap now op db)"
proof (cases op)
  case (Op_block n h p ts c)
  then have "db_exec ap now op db = db\<lparr>blocks := blocks db @ [\<lparr>bl_number = n, bl_hash = h, bl_parent = p,
      bl_timestamp = ts, bl_tx_count = c, bl_indexed_at = now, bl_confirmed = False\<rparr>]\<rparr>"
    using insertBlock_fresh [OF assms(2), of ap] assms(6) by simp
  then show ?thesis by (intro cache_sound_shrink [OF assms(5)]) (simp_all add: history_rows_def)
qed (use assms in \<open>simp_all add: cache_sound_events cache_sound_reorg cache_sound_history\<close>,
    (rule cache_sound_shrink [OF assms(5)];
     simp add: insert_defs(5-7) markBlocksConfirmed_def setLatestChainSeqno_def updateLatestBlock_def history_rows_def split: sum.split)+)

lemma cache_inv_run:
  assumes "ap_canonical ap" "cache_inv ap db" "run_guarded new_block ap ops db"
  shows "cache_inv ap (db_run ap ops db)"
  using assms(2,3)
proof (rule guarded_invariant)
  fix db now op
  assume "cache_inv ap db" "new_block op db"
  then show "cache_inv ap (db_exec ap now op db)"
    using db_wf_exec rows_canonical_exec [OF assms(1)] cache_small_exec [of db ap now op] cache_sound_exec [OF assms(1)]
    by (simp add: cache_inv_def cache_small_def)
qed

lemma cache_inv_empty: "cache_inv ap empty_db"
  by (simp add: cache_inv_def db_wf_empty rows_canonical_def cache_sound_def) (simp add: empty_db_def)

section \<open>Transparency periods\<close>

lemma newer_refl: "newer_or_equal r r"
  by (simp add: newer_or_equal_def)

lemma newer_total: "newer_or_equal a b \<or> newer_or_equal b a"
  by (auto simp: newer_or_equal_def)

lemma newer_trans: "newer_or_equal a b \<Longrightarrow> newer_or_equal b c \<Longrightarrow> newer_or_equal a c"
  by (auto simp: newer_or_equal_def)

lemma newest_row_newest: "newest_row rows = Some r \<Longrightarrow> list_all (newer_or_equal r) rows"
proof (induction rows arbitrary: r rule: rev_induct)
  case (snoc x rows)
  show ?case
  proof (cases "newest_row rows")
    case None
    with snoc.prems show ?thesis by (simp add: newest_row_snoc newer_refl)
  next
    case (Some y)
    with snoc have "list_all (newer_or_equal y) rows" by simp
    with snoc.prems Some show ?thesis
      using newer_total [of x y] newer_trans by (auto simp: newest_row_snoc newer_refl list_all_iff split: if_splits)
  qed
qed simp

definition period_row :: "('a \<Rightarrow> int \<times> int) \<Rightarrow> int \<times> int \<Rightarrow> 'a event_row list \<Rightarrow> 'a event_row option" where
  "period_row period p rows = find (\<lambda>r. period (r_data r) = p) rows"

text \<open>Records that the statements accept: their blocks are stored and one log entry names one period.\<close>

definition recordable :: "('a \<Rightarrow> int \<times> int) \<Rightarrow> block_row list \<Rightarrow> 'a event_row list \<Rightarrow> bool" where
  "recordable period bs es \<longleftrightarrow> list_all (\<lambda>e. list_ex (\<lambda>b. bl_number b = r_block e) bs) es
     \<and> list_all (\<lambda>e. list_all (\<lambda>f. r_tx e = r_tx f \<and> r_log e = r_log f \<longrightarrow> period (r_data e) = period (r_data f)) es) es"

lemma find_map_other:
  "(\<And>x. g x = p \<longleftrightarrow> g (f x) = p) \<Longrightarrow> (\<And>x. g x = p \<Longrightarrow> f x = x) \<Longrightarrow> find (\<lambda>x. g x = p) (map f xs) = find (\<lambda>x. g x = p) xs"
  by (induction xs) auto

lemma find_map_row:
  "find (\<lambda>x. g x = p) xs = Some old \<Longrightarrow> g row = p \<Longrightarrow> find (\<lambda>x. g x = p) (map (\<lambda>x. if g x = p then row else x) xs) = Some row"
  by (induction xs) (auto split: if_splits)

lemma find_append: "find P (xs @ ys) = (case find P xs of None \<Rightarrow> find P ys | Some x \<Rightarrow> Some x)"
  by (induction xs) auto

lemma upsert_accepts:
  assumes "recordable period bs es" "e \<in> set es" "set rows \<subseteq> set es"
  shows "\<exists>rows'. upsert_period period bs e rows = Inr rows' \<and> set rows' \<subseteq> set es \<and>
     (\<forall>p. period_row period p rows' = (if period (r_data e) = p
        then (case period_row period p rows of None \<Rightarrow> Some e | Some old \<Rightarrow> if newer_or_equal e old then Some e else Some old)
        else period_row period p rows))"
proof -
  have blk: "list_ex (\<lambda>b. bl_number b = r_block e) bs"
    and uniq: "\<forall>r\<in>set rows. r_tx r = r_tx e \<and> r_log r = r_log e \<longrightarrow> period (r_data r) = period (r_data e)"
    using assms unfolding recordable_def list_all_iff by blast+
  show ?thesis
  proof (cases "find (\<lambda>r. period (r_data r) = period (r_data e)) rows")
    case None
    then have "\<not> list_ex (\<lambda>r. r_tx r = r_tx e \<and> r_log r = r_log e) rows"
      using uniq by (auto simp: list_ex_iff find_None_iff)
    with None blk assms(2,3) show ?thesis
      by (auto simp: upsert_period_def period_row_def find_append split: option.split)
  next
    case (Some old)
    have "\<not> list_ex (\<lambda>r. period (r_data r) \<noteq> period (r_data e) \<and> r_tx r = r_tx e \<and> r_log r = r_log e) rows"
      using uniq by (auto simp: list_ex_iff)
    moreover have "find (\<lambda>r. period (r_data r) = p) (map (\<lambda>r. if period (r_data r) = period (r_data e) then e else r) rows) =
        (if period (r_data e) = p then Some e else find (\<lambda>r. period (r_data r) = p) rows)" for p
      using find_map_row [OF Some, of e] find_map_other [of "\<lambda>r. period (r_data r)" p "\<lambda>r. if period (r_data r) = period (r_data e) then e else r" rows]
      by auto
    ultimately show ?thesis
      using Some blk assms(2,3) by (auto simp: upsert_period_def period_row_def)
  qed
qed

definition upserts :: "('a \<Rightarrow> int \<times> int) \<Rightarrow> block_row list \<Rightarrow> 'a event_row list \<Rightarrow> 'a event_row list" where
  "upserts period bs es = fold (\<lambda>e rows. case upsert_period period bs e rows of Inl _ \<Rightarrow> rows | Inr rows' \<Rightarrow> rows') es []"

lemma upserts_newest:
  assumes "recordable period bs all" "set es \<subseteq> set all"
  shows "set (upserts period bs es) \<subseteq> set all \<and>
     (\<forall>p. period_row period p (upserts period bs es) = newest_row (filter (\<lambda>e. period (r_data e) = p) es))"
  using assms(2)
proof (induction es rule: rev_induct)
  case (snoc e es)
  then have "set (upserts period bs es) \<subseteq> set all" by simp
  then obtain rows' where "upsert_period period bs e (upserts period bs es) = Inr rows'" "set rows' \<subseteq> set all"
    "\<forall>p. period_row period p rows' = (if period (r_data e) = p
        then (case period_row period p (upserts period bs es) of None \<Rightarrow> Some e | Some old \<Rightarrow> if newer_or_equal e old then Some e else Some old)
        else period_row period p (upserts period bs es))"
    using upsert_accepts [OF assms(1), of e "upserts period bs es"] snoc.prems by auto
  moreover have "upserts period bs (es @ [e]) = rows'" using calculation(1) by (simp add: upserts_def)
  ultimately show ?case using snoc by (simp add: newest_row_snoc)
qed (simp add: upserts_def period_row_def)

section \<open>Properties\<close>

text \<open>
  C10. Integrity. Whatever sequence of statements runs (blocks, events of all seven kinds, head and
  cursor updates, reorganisations, history reads, with statements that fail), block numbers and
  hashes stay unique, every event row refers to a stored block, rows stay unique in transaction
  hash and log index, a transparency period has one row, and the history cache never holds more
  than \<open>ACCOUNT_HISTORY_CACHE_MAX_ENTRIES\<close> entries.
\<close>

theorem db_integrity:
  "db_wf (db_run ap ops empty_db) \<and> length (historyCache (db_run ap ops empty_db)) \<le> ACCOUNT_HISTORY_CACHE_MAX_ENTRIES"
proof -
  have "cache_small empty_db" by (simp add: cache_small_def empty_db_def)
  then have "cache_small (db_run ap ops empty_db)" by (rule db_run_invariant) (rule cache_small_exec)
  moreover have "db_wf (db_run ap ops empty_db)" by (rule db_run_invariant [OF db_wf_empty db_wf_exec])
  ultimately show ?thesis by (simp add: cache_small_def)
qed

lemma getBlock_same: "same_tables db db' \<Longrightarrow> getBlock n db' = getBlock n db"
  by (simp add: same_tables_def getBlock_def)

lemma find_filter_imp: "(\<And>x. P x \<Longrightarrow> Q x) \<Longrightarrow> find P (filter Q xs) = find P xs"
  by (induction xs) auto

lemma getBlock_below: "db_wf db \<Longrightarrow> getBlock (n - 1) (delete_blocks (\<lambda>b. bl_number b \<ge> n) db) = getBlock (n - 1) db"
  by (simp add: delete_from getBlock_def) (rule find_filter_imp, simp)

lemma reorg_cursor:
  assumes "db_wf db"
  shows "latest_block_indexed (handleReorg ap now n db) = (if getBlock (n - 1) db = None then 0 else n - 1)"
proof -
  let ?fold = "fold (\<lambda>nft d. invalidateHistoryCache ap nft (rebuildAccountSnapshot now nft d)) (affected_nfts n db)
      (delete_blocks (\<lambda>b. bl_number b \<ge> n) db)"
  have "getBlock (n - 1) ?fold = getBlock (n - 1) db"
    using getBlock_same [OF same_tables_rebuilds] getBlock_below [OF assms] by simp
  then show ?thesis
    by (simp add: handleReorg_def Let_def updateLatestBlock_def split: option.split)
qed

lemma rebuilds_head:
  "latest_chain_seqno (fold (\<lambda>nft d. invalidateHistoryCache ap nft (rebuildAccountSnapshot now nft d)) nfts db) = latest_chain_seqno db"
  by (induction nfts arbitrary: db) (simp_all add: invalidateHistoryCache_def rebuildAccountSnapshot_def Let_def)

lemma reorg_head: "latest_chain_seqno (handleReorg ap now n db) = latest_chain_seqno db"
  by (simp add: handleReorg_def Let_def updateLatestBlock_def rebuilds_head delete_blocks_def split: option.split)

lemma reorg_tables:
  assumes "db_wf db"
  shows "blocks (handleReorg ap now n db) = filter (\<lambda>b. bl_number b < n) (blocks db)"
    "internal_transfers (handleReorg ap now n db) = keep_below n (internal_transfers db)"
    "merchant_payments (handleReorg ap now n db) = keep_below n (merchant_payments db)"
    "account_state_changes (handleReorg ap now n db) = keep_below n (account_state_changes db)"
    "nft_ownership_changes (handleReorg ap now n db) = keep_below n (nft_ownership_changes db)"
    "transparency_metrics (handleReorg ap now n db) = keep_below n (transparency_metrics db)"
    "transparency_locks (handleReorg ap now n db) = keep_below n (transparency_locks db)"
    "transparency_params (handleReorg ap now n db) = keep_below n (transparency_params db)"
  using same_tables_reorg [of n db ap now] by (simp_all add: same_tables_def delete_from [OF assms])

lemma reorg_snapshot:
  assumes "db_wf db"
  shows "snapshot_of nft (handleReorg ap now n db) =
      (if nft \<in> set (affected_nfts n db) then derived_snapshot nft (handleReorg ap now n db) else snapshot_of nft db)"
    "nft \<in> set (affected_nfts n db) \<or> derived_snapshot nft (handleReorg ap now n db) = derived_snapshot nft db"
proof -
  have "snapshot_of nft (delete_blocks P db) = snapshot_of nft db" for P
    by (simp add: snapshot_of_def delete_blocks_def Let_def)
  then have "snapshot_of nft (handleReorg ap now n db) =
      (if nft \<in> set (affected_nfts n db) then derived_snapshot nft (delete_blocks (\<lambda>b. bl_number b \<ge> n) db) else snapshot_of nft db)"
    by (simp add: handleReorg_def Let_def snapshot_rebuilds split: option.split)
  then show "snapshot_of nft (handleReorg ap now n db) =
      (if nft \<in> set (affected_nfts n db) then derived_snapshot nft (handleReorg ap now n db) else snapshot_of nft db)"
    "nft \<in> set (affected_nfts n db) \<or> derived_snapshot nft (handleReorg ap now n db) = derived_snapshot nft db"
    using unaffected_derived [OF assms] by (auto simp: derived_same [OF same_tables_reorg])
qed

text \<open>
  C11. Rollback. From every state the statements can produce, \<open>handleReorg\<close> from block \<open>n\<close> keeps
  exactly the blocks and the event rows of all seven tables below \<open>n\<close>, moves the cursor to
  \<open>n - 1\<close> when that block is stored and to 0 otherwise, leaves the chain head alone, makes the
  snapshot of every account named by a reverted event equal to what the surviving events derive,
  and leaves every other account's snapshot and derived snapshot as they were.
\<close>

theorem reorg_rollback:
  "let db = db_run ap ops empty_db; db' = handleReorg ap now n db in
   blocks db' = filter (\<lambda>b. bl_number b < n) (blocks db)
   \<and> internal_transfers db' = keep_below n (internal_transfers db)
   \<and> merchant_payments db' = keep_below n (merchant_payments db)
   \<and> account_state_changes db' = keep_below n (account_state_changes db)
   \<and> nft_ownership_changes db' = keep_below n (nft_ownership_changes db)
   \<and> transparency_metrics db' = keep_below n (transparency_metrics db)
   \<and> transparency_locks db' = keep_below n (transparency_locks db)
   \<and> transparency_params db' = keep_below n (transparency_params db)
   \<and> latest_block_indexed db' = (if getBlock (n - 1) db = None then 0 else n - 1)
   \<and> latest_chain_seqno db' = latest_chain_seqno db
   \<and> snapshot_of nft db' = (if nft \<in> set (affected_nfts n db) then derived_snapshot nft db' else snapshot_of nft db)
   \<and> (nft \<in> set (affected_nfts n db) \<or> derived_snapshot nft db' = derived_snapshot nft db)"
proof -
  have wf: "db_wf (db_run ap ops empty_db)" by (rule db_run_invariant [OF db_wf_empty db_wf_exec])
  show ?thesis
    unfolding Let_def by (intro conjI reorg_tables [OF wf] reorg_cursor [OF wf] reorg_head reorg_snapshot [OF wf])
qed

text \<open>
  C12. Refinement. Snapshots are a materialised view: if addresses print to a fixed point of
  parsing and statements arrive in the order of the chain (new blocks, new events, no transfer of an older block than the
  stored ones, and every change of an account's state or owner after its stored ones by block and log index), then after any
  such sequence, with any number of reorganisations in it, every account's snapshot, maintained event by event, is exactly
  what the queries over the stored events derive, and an account without events has none. Two changes of one account that
  share block and log index, as two transactions of one block can, are outside of it (\<open>snapshot_tie_diverges\<close>).
\<close>

theorem snapshots_materialised:
  assumes "ap_canonical ap" "run_guarded (in_order ap) ap ops empty_db"
  shows "snapshot_of nft (db_run ap ops empty_db) = derived_snapshot nft (db_run ap ops empty_db)"
  using snapshots_run [OF assms(1) db_wf_empty snapshots_empty assms(2)] by (simp add: snapshots_ok_def)

definition demo_ap :: "string \<Rightarrow> string option" where
  "demo_ap a = (if a = ''raw'' then Some ''EQa'' else if a = ''EQa'' then Some ''EQa'' else None)"

lemma demo_ap_canonical: "ap_canonical demo_ap"
  by (auto simp: ap_canonical_def demo_ap_def)

definition demo_transfer :: "int \<Rightarrow> string \<Rightarrow> transfer_data event_row" where
  "demo_transfer b tx = \<lparr>r_block = b, r_tx = tx, r_log = 0, r_ts = 10 * b,
     r_data = \<lparr>td_from = ''raw'', td_to = ''EQb'', td_amount = ''5'', td_payload = ''p''\<rparr>\<rparr>"

definition demo_state :: "int \<Rightarrow> string \<Rightarrow> int \<Rightarrow> state_data event_row" where
  "demo_state b tx s = \<lparr>r_block = b, r_tx = tx, r_log = 0, r_ts = 10 * b, r_data = \<lparr>sd_nft = ''raw'', sd_old = 0, sd_new = s\<rparr>\<rparr>"

definition demo_ops :: "(int \<times> db_op) list" where
  "demo_ops = [(1, Op_block 1 ''h1'' ''h0'' 10 1), (1, Op_transfer (demo_transfer 1 ''t1'')), (1, Op_state (demo_state 1 ''t2'' 1)),
     (2, Op_block 2 ''h2'' ''h1'' 20 1), (2, Op_state (demo_state 2 ''t3'' 2)), (3, Op_reorg 2)]"

theorem snapshots_materialised_witness:
  "snapshot_of ''EQa'' (db_run demo_ap demo_ops empty_db) = Some (None, 1, Some 1, Some 1)"
proof -
  have "run_guarded (in_order demo_ap) demo_ap demo_ops empty_db" by code_simp
  from snapshots_materialised [OF demo_ap_canonical this, of "''EQa''"]
  have "snapshot_of ''EQa'' (db_run demo_ap demo_ops empty_db) = derived_snapshot ''EQa'' (db_run demo_ap demo_ops empty_db)" .
  also have "\<dots> = Some (None, 1, Some 1, Some 1)" by code_simp
  finally show ?thesis .
qed

text \<open>
  Two changes of one account in two transactions of one block share block and log index: the incremental snapshot keeps the
  later one, the queries over the stored events, which a reorganisation runs, the earlier one.
\<close>

theorem snapshot_tie_diverges:
  "let db = db_run demo_ap [(1, Op_block 1 ''h1'' ''h0'' 10 1), (1, Op_state (demo_state 1 ''t1'' 1)), (1, Op_state (demo_state 1 ''t2'' 2))] empty_db in
     snapshot_of ''EQa'' db = Some (None, 2, None, Some 1) \<and> derived_snapshot ''EQa'' db = Some (None, 1, None, Some 1)"
  by code_simp

text \<open>
  Keyset pagination is complete. A reader that pages through an account's history with the
  composite cursor of the last event it has seen receives, in order, every stored event of the
  account exactly once and then an empty page, whatever the page size, provided no two of the
  account's events share timestamp, transaction and log index; as many requests as there are
  events, plus one, are enough.
\<close>

theorem pagination_complete:
  assumes "distinct (map history_key (history_rows nft db))" "0 < limit" "length (history_rows nft db) < n"
  shows "concat (fetch_pages nft limit db n No_cursor) = history_sort (history_rows nft db)
    \<and> mset (concat (fetch_pages nft limit db n No_cursor)) = mset (history_rows nft db)"
proof -
  have "filter (cursorFilter No_cursor) xs = xs" for xs by (simp add: filter_id_conv)
  then have "hr_events (history_query nft limit 0 No_cursor db) = take limit (drop 0 (full_history nft db))"
    by (simp add: history_query_def full_history_def)
  moreover have "length (full_history nft db) - 0 < n" using assms(3) by (simp add: full_history_def history_sort_def)
  ultimately have "concat (fetch_pages nft limit db n No_cursor) = full_history nft db"
    using fetch_from [OF assms(1,2)] by fastforce
  then show ?thesis by (simp add: full_history_def history_sort_def)
qed

theorem pagination_complete_witness:
  "map he_tx (concat (fetch_pages ''EQa'' 2 (db_run demo_ap (butlast demo_ops) empty_db) 4 No_cursor)) = [''t3'', ''t1'', ''t2'']"
proof -
  let ?db = "db_run demo_ap (butlast demo_ops) empty_db"
  have "distinct (map history_key (history_rows ''EQa'' ?db))" "0 < (2 :: nat)" "length (history_rows ''EQa'' ?db) < 4"
    by code_simp+
  from pagination_complete [OF this] have "concat (fetch_pages ''EQa'' 2 ?db 4 No_cursor) = history_sort (history_rows ''EQa'' ?db)" ..
  moreover have "map he_tx (history_sort (history_rows ''EQa'' ?db)) = [''t3'', ''t1'', ''t2'']" by code_simp
  ultimately show ?thesis by simp
qed

text \<open>
  C13. The history cache is transparent. If addresses print to a fixed point of parsing and every
  inserted block is new, then after any sequence of statements a history read returns exactly what
  the query over the current tables returns, cached or not, expired or not, after events of any
  kind and after reorganisations.
\<close>

theorem history_cache_transparent:
  assumes "ap_canonical ap" "run_guarded new_block ap ops empty_db"
  shows "fst (getAccountHistory ap now nft limit off before (db_run ap ops empty_db)) =
     history_query (normalizeTonAddress ap nft) limit off before (db_run ap ops empty_db)"
  using cache_inv_run [OF assms(1) cache_inv_empty assms(2)]
  by (intro getAccountHistory_spec) (simp_all add: cache_inv_def)

theorem history_cache_transparent_witness:
  "map he_tx (hr_events (fst (getAccountHistory demo_ap 3 ''raw'' 10 0 No_cursor
      (db_run demo_ap ((0, Op_history ''EQa'' 10 0 No_cursor) # butlast demo_ops @ [(2, Op_history ''EQa'' 10 0 No_cursor), (3, Op_reorg 2)]) empty_db)))) =
   [''t1'', ''t2'']"
proof -
  let ?ops = "(0, Op_history ''EQa'' 10 0 No_cursor) # butlast demo_ops @ [(2, Op_history ''EQa'' 10 0 No_cursor), (3, Op_reorg 2)]"
  have "run_guarded new_block demo_ap ?ops empty_db" by code_simp
  from history_cache_transparent [OF demo_ap_canonical this, of 3 "''raw''" 10 0 No_cursor]
  have "fst (getAccountHistory demo_ap 3 ''raw'' 10 0 No_cursor (db_run demo_ap ?ops empty_db)) =
      history_query (normalizeTonAddress demo_ap ''raw'') 10 0 No_cursor (db_run demo_ap ?ops empty_db)" .
  moreover have "map he_tx (hr_events (history_query (normalizeTonAddress demo_ap ''raw'') 10 0 No_cursor (db_run demo_ap ?ops empty_db))) =
      [''t1'', ''t2'']" by code_simp
  ultimately show ?thesis by simp
qed

lemma fold_metrics:
  "transparency_metrics (fold (\<lambda>e d. snd (insertTransparencyProtocolMetrics e d)) es db) =
     fold (\<lambda>e rows. case upsert_period metrics_period (blocks db) e rows of Inl _ \<Rightarrow> rows | Inr rows' \<Rightarrow> rows') es (transparency_metrics db)
   \<and> blocks (fold (\<lambda>e d. snd (insertTransparencyProtocolMetrics e d)) es db) = blocks db"
  by (induction es arbitrary: db) (auto simp: insertTransparencyProtocolMetrics_def split: sum.split)

text \<open>
  Convergence of the transparency aggregates. Deliver the protocol-metrics records of any
  number of periods in any order, with any repetitions, each in a stored block and each log entry
  naming one period: every period then shows the newest record delivered for it, by block and log
  index, so that two deliveries of the same set of records agree on every period unless two
  different records of it tie.
\<close>

theorem transparency_newest_wins:
  assumes "recordable metrics_period (blocks db) es" "transparency_metrics db = []" "set es' = set es"
    and "\<forall>a\<in>set es. \<forall>b\<in>set es. metrics_period (r_data a) = metrics_period (r_data b) \<and> r_block a = r_block b \<and> r_log a = r_log b \<longrightarrow> a = b"
  shows "let row = period_row metrics_period p (transparency_metrics (fold (\<lambda>e d. snd (insertTransparencyProtocolMetrics e d)) es db)) in
    row = newest_row (filter (\<lambda>e. metrics_period (r_data e) = p) es)
    \<and> (\<forall>r. row = Some r \<longrightarrow> r \<in> set es \<and> list_all (newer_or_equal r) (filter (\<lambda>e. metrics_period (r_data e) = p) es))
    \<and> row = period_row metrics_period p (transparency_metrics (fold (\<lambda>e d. snd (insertTransparencyProtocolMetrics e d)) es' db))"
proof -
  let ?run = "\<lambda>es. period_row metrics_period p (transparency_metrics (fold (\<lambda>e d. snd (insertTransparencyProtocolMetrics e d)) es db))"
  let ?new = "\<lambda>es. newest_row (filter (\<lambda>e. metrics_period (r_data e) = p) es)"
  have run: "?run xs = ?new xs" if "set xs \<subseteq> set es" for xs
    using upserts_newest [OF assms(1) that] fold_metrics [of xs db] assms(2) by (cases p) (simp add: upserts_def)
  have mem: "r \<in> set xs \<and> metrics_period (r_data r) = p \<and> list_all (newer_or_equal r) (filter (\<lambda>e. metrics_period (r_data e) = p) xs)"
    if "?new xs = Some r" for xs r
    using newest_row_in [OF that] newest_row_newest [OF that] by simp
  have "?new es = ?new es'"
  proof (cases "?new es")
    case None
    then show ?thesis using assms(3) by (simp add: filter_empty_conv)
  next
    case (Some r)
    then have "filter (\<lambda>e. metrics_period (r_data e) = p) es' \<noteq> []"
      using mem [OF Some] assms(3) by (auto simp: filter_empty_conv)
    then obtain r' where r': "?new es' = Some r'" by (meson newest_row_None option.exhaust)
    have "newer_or_equal r r'" "newer_or_equal r' r"
      using mem [OF Some] mem [OF r'] assms(3) by (auto simp: list_all_iff)
    then have "r = r'"
      using assms(4) mem [OF Some] mem [OF r'] assms(3) by (auto simp: newer_or_equal_def)
    with Some r' show ?thesis by simp
  qed
  moreover have runs: "?run es = ?new es" "?run es' = ?new es'" using run assms(3) by blast+
  ultimately have "?run es = ?run es'" by (simp only:)
  moreover have "r \<in> set es" "list_all (newer_or_equal r) (filter (\<lambda>e. metrics_period (r_data e) = p) es)" if "?run es = Some r" for r
    using mem [of es r] that runs(1) by argo+
  ultimately show ?thesis unfolding Let_def using runs(1) by blast
qed

definition demo_metrics :: "int \<Rightarrow> int \<Rightarrow> metrics_data event_row" where
  "demo_metrics b v = \<lparr>r_block = b, r_tx = dec_int v, r_log = 0, r_ts = 10 * b,
     r_data = \<lparr>md_start = 0, md_end = 9, md_accounts = v, md_volume = ''1'', md_transfers = 1\<rparr>\<rparr>"

definition demo_blocks :: idx_db where
  "demo_blocks = db_run demo_ap [(1, Op_block 1 ''h1'' ''h0'' 10 0), (2, Op_block 2 ''h2'' ''h1'' 20 0)] empty_db"

theorem transparency_newest_wins_witness:
  "period_row metrics_period (0, 9) (transparency_metrics
      (fold (\<lambda>e d. snd (insertTransparencyProtocolMetrics e d)) [demo_metrics 2 8, demo_metrics 1 7] demo_blocks)) = Some (demo_metrics 2 8)"
proof -
  have pre: "recordable metrics_period (blocks demo_blocks) [demo_metrics 2 8, demo_metrics 1 7]" "transparency_metrics demo_blocks = []"
    "set [demo_metrics 1 7, demo_metrics 2 8, demo_metrics 1 7] = set [demo_metrics 2 8, demo_metrics 1 7]"
    by code_simp+
  have "\<forall>a\<in>set [demo_metrics 2 8, demo_metrics 1 7]. \<forall>b\<in>set [demo_metrics 2 8, demo_metrics 1 7].
      metrics_period (r_data a) = metrics_period (r_data b) \<and> r_block a = r_block b \<and> r_log a = r_log b \<longrightarrow> a = b"
    by code_simp
  from transparency_newest_wins [OF pre this, of "(0, 9)"]
  have "period_row metrics_period (0, 9) (transparency_metrics
      (fold (\<lambda>e d. snd (insertTransparencyProtocolMetrics e d)) [demo_metrics 2 8, demo_metrics 1 7] demo_blocks)) =
      newest_row (filter (\<lambda>e. metrics_period (r_data e) = (0, 9)) [demo_metrics 2 8, demo_metrics 1 7])"
    unfolding Let_def by (rule conjunct1)
  also have "\<dots> = Some (demo_metrics 2 8)" by code_simp
  finally show ?thesis .
qed

end
