(* ===== verification/Idx_Config.thy ===== *)
theory Idx_Config
  imports Prelude
begin

text \<open>
  Configuration of the indexer (\<open>backend/indexer/src/types/config.ts\<close>): the record and its reading
  from environment variables, with the bounds the service relies on. A number is the value of the
  decimal prefix that \<open>parseInt\<close> reads, \<open>None\<close> where the program sees \<open>NaN\<close> or infinity (below that,
  values above \<open>2^53\<close> are kept exact where the program rounds them).
\<close>

section \<open>The configuration\<close>

record redis_config =
  rd_host :: string
  rd_port :: int
  rd_password :: "string option"
  rd_db :: int

record idx_config =
  cf_network :: string
  cf_tonApiEndpoint :: string
  cf_tonApiKey :: "string option"
  cf_paymentHub :: string
  cf_merchantPaymentHub :: string
  cf_nftCollections :: "string list"
  cf_transparencyRegistry :: string
  cf_databasePath :: string
  cf_startBlock :: int
  cf_pollIntervalMs :: int
  cf_batchSize :: int
  cf_confirmationBlocks :: int
  cf_redis :: "redis_config option"
  cf_port :: int
  cf_host :: string
  cf_trustProxy :: bool
  cf_trustedProxyCount :: int
  cf_rateWindowMs :: int
  cf_rateMaxRequests :: int
  cf_logLevel :: string
  cf_logPretty :: bool

section \<open>Environment variables\<close>

datatype config_error = Missing_variable string | Not_finite string string | Below_minimum string int int | Above_maximum string int int

type_synonym environment = "string \<Rightarrow> string option"

text \<open>\<open>!value\<close> for a variable that is unset or empty.\<close>

definition env_value :: "environment \<Rightarrow> string \<Rightarrow> string option" where
  "env_value env key = (case env key of None \<Rightarrow> None | Some v \<Rightarrow> if v = [] then None else Some v)"

definition getEnv :: "environment \<Rightarrow> string \<Rightarrow> string option \<Rightarrow> config_error + string" where
  "getEnv env key dflt =
     (case env_value env key of
        Some v \<Rightarrow> Inr v
      | None \<Rightarrow> (case dflt of None \<Rightarrow> Inl (Missing_variable key) | Some d \<Rightarrow> Inr d))"

text \<open>The least integer that rounds to \<open>Infinity\<close>.\<close>

definition double_overflow :: nat where
  "double_overflow = 2 ^ 1024 - 2 ^ 970"

text \<open>\<open>parseInt(s, 10)\<close>, with \<open>None\<close> for \<open>NaN\<close> and for \<open>Infinity\<close>.\<close>

definition parse_digits :: "string \<Rightarrow> int option" where
  "parse_digits s = (let d = takeWhile is_digit s in
     if d = [] \<or> digits_val d \<ge> double_overflow then None else Some (int (digits_val d)))"

definition js_parseInt :: "string \<Rightarrow> int option" where
  "js_parseInt s =
     (case dropWhile js_space s of
        [] \<Rightarrow> None
      | c # t \<Rightarrow>
          if c = CHR ''-'' then map_option uminus (parse_digits t)
          else if c = CHR ''+'' then parse_digits t
          else parse_digits (c # t))"

definition getEnvNumber :: "environment \<Rightarrow> string \<Rightarrow> int \<Rightarrow> int option \<Rightarrow> int option \<Rightarrow> config_error + int" where
  "getEnvNumber env key dflt lo hi =
     (case env_value env key of
        None \<Rightarrow> Inr dflt
      | Some v \<Rightarrow>
          (case js_parseInt v of
             None \<Rightarrow> Inl (Not_finite key v)
           | Some parsed \<Rightarrow>
               (case lo of
                  Some l \<Rightarrow> if parsed < l then Inl (Below_minimum key parsed l)
                    else (case hi of Some h \<Rightarrow> if parsed > h then Inl (Above_maximum key parsed h) else Inr parsed | None \<Rightarrow> Inr parsed)
                | None \<Rightarrow> (case hi of Some h \<Rightarrow> if parsed > h then Inl (Above_maximum key parsed h) else Inr parsed | None \<Rightarrow> Inr parsed))))"

definition getEnvBoolean :: "environment \<Rightarrow> string \<Rightarrow> bool \<Rightarrow> bool" where
  "getEnvBoolean env key dflt = (case env_value env key of Some v \<Rightarrow> js_lower v = ''true'' | None \<Rightarrow> dflt)"

definition load_redis :: "environment \<Rightarrow> config_error + redis_config option" where
  "load_redis env =
     (case env_value env ''REDIS_HOST'' of
        None \<Rightarrow> Inr None
      | Some _ \<Rightarrow>
          res_bind (getEnv env ''REDIS_HOST'' (Some ''127.0.0.1'')) (\<lambda>host.
          res_bind (getEnvNumber env ''REDIS_PORT'' 6379 None None) (\<lambda>port.
          res_bind (getEnvNumber env ''REDIS_DB'' 0 None None) (\<lambda>db.
            Inr (Some \<lparr>rd_host = host, rd_port = port, rd_password = env ''REDIS_PASSWORD'', rd_db = db\<rparr>)))))"

text \<open>The fields are read in the order of the object literal; the first error is thrown.\<close>

definition loadConfig :: "environment \<Rightarrow> config_error + idx_config" where
  "loadConfig env =
     (let str = (\<lambda>key d. case getEnv env key (Some d) of Inr v \<Rightarrow> v | Inl _ \<Rightarrow> d);
          trustProxy = getEnvBoolean env ''API_TRUST_PROXY'' False in
      res_bind (getEnvNumber env ''INDEXER_START_BLOCK'' 0 (Some 0) None) (\<lambda>startBlock.
      res_bind (getEnvNumber env ''INDEXER_POLL_INTERVAL_MS'' 5000 (Some 1) None) (\<lambda>pollIntervalMs.
      res_bind (getEnvNumber env ''INDEXER_BATCH_SIZE'' 100 (Some 1) None) (\<lambda>batchSize.
      res_bind (getEnvNumber env ''INDEXER_CONFIRMATION_BLOCKS'' 10 (Some 0) None) (\<lambda>confirmationBlocks.
      res_bind (load_redis env) (\<lambda>redis.
      res_bind (getEnvNumber env ''PORT'' 3000 None None) (\<lambda>port.
      res_bind (getEnvNumber env ''API_TRUSTED_PROXY_COUNT'' (if trustProxy then 1 else 0) (Some 0) None) (\<lambda>trustedProxyCount.
      res_bind (getEnvNumber env ''API_RATE_LIMIT_WINDOW_MS'' 60000 None None) (\<lambda>windowMs.
      res_bind (getEnvNumber env ''API_RATE_LIMIT_MAX_REQUESTS'' 100 None None) (\<lambda>maxRequests.
        Inr \<lparr>cf_network = str ''TON_NETWORK'' ''testnet'',
             cf_tonApiEndpoint = str ''TON_API_ENDPOINT'' ''https://testnet.toncenter.com/api/v2'',
             cf_tonApiKey = env ''TON_API_KEY'',
             cf_paymentHub = str ''PAYMENT_HUB_ADDRESS'' [],
             cf_merchantPaymentHub = str ''MERCHANT_PAYMENT_HUB_ADDRESS'' [],
             cf_nftCollections = filter (\<lambda>a. a \<noteq> []) [str ''NFT_COLLECTION_7777_ADDRESS'' [], str ''NFT_COLLECTION_8888_ADDRESS'' []],
             cf_transparencyRegistry = str ''TRANSPARENCY_REGISTRY_ADDRESS'' [],
             cf_databasePath = str ''DB_PATH'' ''./data/indexer.db'',
             cf_startBlock = startBlock, cf_pollIntervalMs = pollIntervalMs, cf_batchSize = batchSize,
             cf_confirmationBlocks = confirmationBlocks, cf_redis = redis, cf_port = port,
             cf_host = str ''HOST'' ''0.0.0.0'', cf_trustProxy = trustProxy, cf_trustedProxyCount = trustedProxyCount,
             cf_rateWindowMs = windowMs, cf_rateMaxRequests = maxRequests,
             cf_logLevel = str ''LOG_LEVEL'' ''info'', cf_logPretty = getEnvBoolean env ''LOG_PRETTY'' True\<rparr>))))))))))"

section \<open>Properties\<close>

lemma getEnvNumber_min: "getEnvNumber env key d (Some l) hi = Inr n \<Longrightarrow> l \<le> d \<Longrightarrow> l \<le> n"
  by (auto simp: getEnvNumber_def split: option.splits if_splits)

lemma parse_digits_dec: "n < double_overflow \<Longrightarrow> parse_digits (dec n) = Some (int n)"
proof -
  assume "n < double_overflow"
  moreover have "takeWhile is_digit (dec n) = dec n"
    using dec_digits [of n] unfolding list_all_iff takeWhile_eq_all_conv .
  ultimately show ?thesis unfolding parse_digits_def Let_def by (simp only:) simp
qed

lemma parseInt_dec: "n < double_overflow \<Longrightarrow> js_parseInt (dec n) = Some (int n)"
proof -
  assume n: "n < double_overflow"
  obtain c t where ct: "dec n = c # t" by (meson dec_not_Nil neq_Nil_conv)
  then have c: "is_digit c" using dec_digits [of n] by simp
  then have "\<not> js_space c" "c \<noteq> CHR ''-''" "c \<noteq> CHR ''+''"
    by (auto simp: is_digit_of_char js_space_def)
  with ct show ?thesis using parse_digits_dec [OF n] by (simp add: js_parseInt_def)
qed

lemma loadConfig_numbers:
  assumes "loadConfig env = Inr cf"
  shows "getEnvNumber env ''INDEXER_START_BLOCK'' 0 (Some 0) None = Inr (cf_startBlock cf)"
    "getEnvNumber env ''INDEXER_POLL_INTERVAL_MS'' 5000 (Some 1) None = Inr (cf_pollIntervalMs cf)"
    "getEnvNumber env ''INDEXER_BATCH_SIZE'' 100 (Some 1) None = Inr (cf_batchSize cf)"
    "getEnvNumber env ''INDEXER_CONFIRMATION_BLOCKS'' 10 (Some 0) None = Inr (cf_confirmationBlocks cf)"
    "getEnvNumber env ''API_TRUSTED_PROXY_COUNT'' (if getEnvBoolean env ''API_TRUST_PROXY'' False then 1 else 0) (Some 0) None
       = Inr (cf_trustedProxyCount cf)"
  using assms unfolding loadConfig_def Let_def res_bind_eq_Inr sum.inject by - (elim exE conjE, hypsubst, simp only: idx_config.simps)+

lemma loadConfig_collections: "loadConfig env = Inr cf \<Longrightarrow> list_all (\<lambda>a. a \<noteq> []) (cf_nftCollections cf)"
  unfolding loadConfig_def Let_def res_bind_eq_Inr sum.inject by (elim exE conjE, hypsubst, unfold idx_config.simps) (simp add: list_all_iff)

text \<open>
  A configuration that loads satisfies the bounds the indexer relies on: a positive batch size
  and poll interval, non-negative start block, confirmation depth and number of trusted proxies, no
  empty collection address; and a numeric variable set to the decimal form of a number within its
  bounds is read back as that number.
\<close>

theorem loadConfig_bounds:
  assumes "loadConfig env = Inr cf"
  shows "1 \<le> cf_batchSize cf \<and> 1 \<le> cf_pollIntervalMs cf \<and> 0 \<le> cf_startBlock cf \<and> 0 \<le> cf_confirmationBlocks cf
    \<and> 0 \<le> cf_trustedProxyCount cf \<and> list_all (\<lambda>a. a \<noteq> []) (cf_nftCollections cf)
    \<and> (env ''INDEXER_BATCH_SIZE'' = Some (dec n) \<and> n < double_overflow \<longrightarrow> cf_batchSize cf = int n)"
proof -
  have batch: "b = int n" if "getEnvNumber env ''INDEXER_BATCH_SIZE'' 100 (Some 1) None = Inr b" "env ''INDEXER_BATCH_SIZE'' = Some (dec n)" "n < double_overflow" for b
    using that by (simp add: getEnvNumber_def env_value_def parseInt_dec split: if_splits)
  note num = loadConfig_numbers [OF assms]
  from num [THEN getEnvNumber_min] batch [OF num(3)] loadConfig_collections [OF assms] show ?thesis
    by (auto split: if_splits)
qed

theorem loadConfig_bounds_witness:
  "\<exists>cf. loadConfig (\<lambda>k. if k = ''INDEXER_BATCH_SIZE'' then Some ''7'' else None) = Inr cf \<and> cf_batchSize cf = 7"
proof -
  let ?env = "\<lambda>k. if k = ''INDEXER_BATCH_SIZE'' then Some ''7'' else None"
  have big: "\<not> double_overflow \<le> 7" by (simp add: double_overflow_def)
  have "js_parseInt ''7'' = Some 7"
    by (simp add: js_parseInt_def parse_digits_def js_space_def is_digit_def digits_val_def digit_val_def big)
  then obtain cf where cf: "loadConfig ?env = Inr cf"
    by (auto simp: loadConfig_def Let_def getEnvNumber_def env_value_def load_redis_def)
  have "dec 7 = ''7''" by code_simp
  then have "cf_batchSize cf = int 7" using loadConfig_bounds [OF cf, of 7] big by simp
  with cf show ?thesis by auto
qed

end
