(* ===== verification/Idx_Service.thy ===== *)
theory Idx_Service
  imports Idx_Database_Props Idx_Config
begin

text \<open>
  The indexer service (\<open>backend/indexer/src/services/indexer-service.ts\<close>): fetching blocks and
  transactions from the chain's HTTP interface with retries and paging, reorganisation checks,
  atomic processing of a block and the poll that ties them together. What lies outside the
  repository is the record \<open>idx_env\<close>: the HTTP server and the client library answer from a world
  state \<open>'w\<close> that every call may change, \<open>Address.parse\<close> is a partial function for each of the three
  forms the code prints, the cell library is the record of slice operations, and the clock reads
  seconds. A poll threads the database and the world; a thrown error is an \<open>Inl\<close>. The URL of a request
  is the pair of its method and its parameters, back-off delays and log lines are not modelled.
\<close>

section \<open>Environment\<close>

datatype http_reply = Net_error | Http_error int | Http_json json | Http_garbled

datatype idx_error =
    Fetch_failed
  | Http_status int
  | Bad_body
  | Type_error
  | No_block_data int
  | Db_failed db_error

record ('w, 'c) idx_env =
  http_get :: "string \<Rightarrow> (string \<times> json) list \<Rightarrow> 'w \<Rightarrow> http_reply \<times> 'w"
  masterchainInfo :: "'w \<Rightarrow> json option \<times> 'w"
  addr_db :: "string \<Rightarrow> string option"
  addr_std :: "string \<Rightarrow> string option"
  addr_raw :: "string \<Rightarrow> string option"
  env_slices :: "'c slice_ops"
  env_now :: "'w \<Rightarrow> int"

type_synonym ('w, 'a) fetched = "(idx_error + 'a) \<times> 'w"

definition BLOCK_TX_PAGE_SIZE :: int where
  "BLOCK_TX_PAGE_SIZE = 256"

definition MAX_BLOCK_TX_PAGES :: nat where
  "MAX_BLOCK_TX_PAGES = 1000"

section \<open>Values of a reply\<close>

text \<open>\<open>v.k\<close>, which throws on \<open>null\<close> and \<open>undefined\<close>; \<open>v?.k\<close> is \<open>jget\<close>.\<close>

definition jprop :: "string \<Rightarrow> json \<Rightarrow> idx_error + json" where
  "jprop k v = (if v = JNull \<or> v = JUndef then Inl Type_error else Inr (jget k v))"

text \<open>\<open>a || b\<close>.\<close>

definition js_or :: "json \<Rightarrow> json \<Rightarrow> json" where
  "js_or a b = (if js_truthy a then a else b)"

fun jnum :: "json \<Rightarrow> int" where
  "jnum (JNum n) = n"
| "jnum _ = 0"

text \<open>What \<open>for .. of\<close> iterates; \<open>None\<close> where the value is not iterable.\<close>

fun js_iter :: "json \<Rightarrow> json list option" where
  "js_iter (JArr vs) = Some vs"
| "js_iter (JStr s) = Some (map (\<lambda>c. JStr [c]) s)"
| "js_iter _ = None"

text \<open>\<open>{...v}\<close> as far as the fields the code reads afterwards are concerned.\<close>

fun js_fields :: "json \<Rightarrow> (string \<times> json) list" where
  "js_fields (JObj kvs) = kvs"
| "js_fields _ = []"

section \<open>Requests\<close>

text \<open>
  The loop of \<open>fetchWithRetry\<close> with \<open>n\<close> attempts left: network errors and 5xx answers are retried,
  other error answers and bodies that are not JSON are not.
\<close>

fun fetch_attempts :: "('w, 'c) idx_env \<Rightarrow> string \<Rightarrow> (string \<times> json) list \<Rightarrow> nat \<Rightarrow> 'w \<Rightarrow> ('w, json) fetched" where
  "fetch_attempts ev meth params 0 w = (Inl Fetch_failed, w)"
| "fetch_attempts ev meth params (Suc n) w =
     (case http_get ev meth params w of
        (Net_error, w') \<Rightarrow> if n = 0 then (Inl Fetch_failed, w') else fetch_attempts ev meth params n w'
      | (Http_error s, w') \<Rightarrow>
          if s < 500 then (Inl (Http_status s), w')
          else if n = 0 then (Inl (Http_status s), w')
          else fetch_attempts ev meth params n w'
      | (Http_json j, w') \<Rightarrow> (Inr j, w')
      | (Http_garbled, w') \<Rightarrow> (Inl Bad_body, w'))"

definition fetchWithRetry :: "('w, 'c) idx_env \<Rightarrow> string \<Rightarrow> (string \<times> json) list \<Rightarrow> nat \<Rightarrow> 'w \<Rightarrow> ('w, json) fetched" where
  "fetchWithRetry ev meth params maxRetries w = fetch_attempts ev meth params maxRetries w"

definition fetchTonApi :: "('w, 'c) idx_env \<Rightarrow> string \<Rightarrow> (string \<times> json) list \<Rightarrow> 'w \<Rightarrow> ('w, json) fetched" where
  "fetchTonApi ev meth params w = fetchWithRetry ev meth params 3 w"

section \<open>Addresses\<close>

definition normalizeAddress :: "('w, 'c) idx_env \<Rightarrow> string \<Rightarrow> string" where
  "normalizeAddress ev addr =
     (if addr = [] then [] else case addr_std ev addr of Some s \<Rightarrow> s | None \<Rightarrow> addr)"

text \<open>A value that is not a string does not parse.\<close>

definition toRawAddress :: "('w, 'c) idx_env \<Rightarrow> json \<Rightarrow> string option" where
  "toRawAddress ev v = (case v of JStr addr \<Rightarrow> addr_raw ev addr | _ \<Rightarrow> None)"

definition trackedAddresses :: "idx_config \<Rightarrow> string list" where
  "trackedAddresses cf = filter (\<lambda>a. a \<noteq> [])
     ([cf_paymentHub cf, cf_merchantPaymentHub cf, cf_transparencyRegistry cf] @ cf_nftCollections cf)"

definition trackedByRaw :: "('w, 'c) idx_env \<Rightarrow> idx_config \<Rightarrow> (string, string) amap" where
  "trackedByRaw ev cf = fold (\<lambda>addr m. case toRawAddress ev (JStr addr) of
       Some raw \<Rightarrow> if raw = [] then m else amap_set raw addr m | None \<Rightarrow> m) (trackedAddresses cf) []"

section \<open>The chain head and block headers\<close>

definition extractLatestSeqno :: "json \<Rightarrow> int option" where
  "extractLatestSeqno info =
     (case info of
        JObj _ \<Rightarrow>
          (case jget ''latestSeqno'' info of
             JNum n \<Rightarrow> Some n
           | _ \<Rightarrow> (case jget ''seqno'' (jget ''last'' info) of JNum n \<Rightarrow> Some n | _ \<Rightarrow> None))
      | _ \<Rightarrow> None)"

definition getLatestBlock :: "('w, 'c) idx_env \<Rightarrow> 'w \<Rightarrow> int option \<times> 'w" where
  "getLatestBlock ev w =
     (case masterchainInfo ev w of
        (None, w') \<Rightarrow> (None, w')
      | (Some info, w') \<Rightarrow> (extractLatestSeqno info, w'))"

record chain_block =
  cb_hash :: string
  cb_parent :: string
  cb_now :: int

text \<open>\<open>!data.ok || !data.result\<close> of a reply, or its result.\<close>

definition api_result :: "json \<Rightarrow> int \<Rightarrow> idx_error + json" where
  "api_result data blockNumber =
     res_bind (jprop ''ok'' data) (\<lambda>ok.
       if js_truthy ok \<and> js_truthy (jget ''result'' data) then Inr (jget ''result'' data)
       else Inl (No_block_data blockNumber))"

definition first_prev :: "json \<Rightarrow> json" where
  "first_prev header = (case jget ''prev_blocks'' header of JArr (b # _) \<Rightarrow> jget ''root_hash'' b | _ \<Rightarrow> JUndef)"

definition block_of_header :: "json \<Rightarrow> json \<Rightarrow> chain_block" where
  "block_of_header blockId header =
     \<lparr>cb_hash = jstr (js_or (jget ''root_hash'' (jget ''id'' header)) (js_or (jget ''root_hash'' blockId) (JStr []))),
      cb_parent = jstr (js_or (first_prev header) (JStr [])),
      cb_now = jnum (js_or (jget ''gen_utime'' header) (JNum 0))\<rparr>"

definition getBlockByNumber :: "('w, 'c) idx_env \<Rightarrow> int \<Rightarrow> 'w \<Rightarrow> ('w, chain_block) fetched" where
  "getBlockByNumber ev blockNumber w =
     (case fetchTonApi ev ''lookupBlock''
        [(''workchain'', JNum (- 1)), (''shard'', JStr ''-9223372036854775808''), (''seqno'', JNum blockNumber)] w of
        (Inl e, w) \<Rightarrow> (Inl e, w)
      | (Inr lookupData, w) \<Rightarrow>
          (case api_result lookupData blockNumber of
             Inl e \<Rightarrow> (Inl e, w)
           | Inr blockId \<Rightarrow>
               (case fetchTonApi ev ''getBlockHeader''
                  [(''workchain'', jget ''workchain'' blockId), (''shard'', jget ''shard'' blockId), (''seqno'', jget ''seqno'' blockId)] w of
                  (Inl e, w) \<Rightarrow> (Inl e, w)
                | (Inr headerData, w) \<Rightarrow>
                    (case api_result headerData blockNumber of
                       Inl e \<Rightarrow> (Inl e, w)
                     | Inr header \<Rightarrow> (Inr (block_of_header blockId header), w)))))"

section \<open>The transactions of a block\<close>

record shard_id =
  sh_workchain :: json
  sh_shard :: json
  sh_seqno :: json

record descriptor =
  ds_account :: json
  ds_lt :: json
  ds_hash :: json

definition shard_of :: "json \<Rightarrow> shard_id" where
  "shard_of s = \<lparr>sh_workchain = jget ''workchain'' s, sh_shard = jget ''shard'' s, sh_seqno = jget ''seqno'' s\<rparr>"

definition nullish :: "json \<Rightarrow> bool" where
  "nullish v \<longleftrightarrow> v = JNull \<or> v = JUndef"

text \<open>Every failure is logged and gives the empty list.\<close>

definition getBlockShards :: "('w, 'c) idx_env \<Rightarrow> int \<Rightarrow> 'w \<Rightarrow> shard_id list \<times> 'w" where
  "getBlockShards ev blockNumber w =
     (case fetchTonApi ev ''shards'' [(''seqno'', JNum blockNumber)] w of
        (Inl _, w) \<Rightarrow> ([], w)
      | (Inr data, w) \<Rightarrow>
          (if js_truthy (jget ''ok'' data)
           then (case jget ''shards'' (jget ''result'' data) of
                   JArr ss \<Rightarrow> (if list_ex nullish ss then [] else map shard_of ss, w)
                 | _ \<Rightarrow> ([], w))
           else ([], w)))"

definition page_params :: "shard_id \<Rightarrow> json \<Rightarrow> json \<Rightarrow> (string \<times> json) list" where
  "page_params shard afterLt afterHash =
     [(''workchain'', sh_workchain shard), (''shard'', sh_shard shard), (''seqno'', sh_seqno shard), (''count'', JNum BLOCK_TX_PAGE_SIZE)]
     @ (if js_truthy afterLt \<and> js_truthy afterHash then [(''after_lt'', afterLt), (''after_hash'', afterHash)] else [])"

definition descriptor_of :: "json \<Rightarrow> descriptor" where
  "descriptor_of tx = \<lparr>ds_account = jget ''account'' tx, ds_lt = jget ''lt'' tx, ds_hash = jget ''hash'' tx\<rparr>"

text \<open>The transactions of a page and whether another one follows; what is not iterable throws.\<close>

definition page_txs :: "json \<Rightarrow> idx_error + json list" where
  "page_txs data =
     res_bind (jprop ''ok'' data) (\<lambda>ok.
       let ts = jget ''transactions'' (jget ''result'' data) in
       if js_truthy ok \<and> js_truthy ts
       then (case js_iter ts of Some txs \<Rightarrow> if list_ex nullish txs then Inl Type_error else Inr txs | None \<Rightarrow> Inl Type_error)
       else Inr [])"

definition page_incomplete :: "json \<Rightarrow> bool" where
  "page_incomplete data \<longleftrightarrow> js_truthy (jget ''ok'' data) \<and> jget ''incomplete'' (jget ''result'' data) = JBool True"

fun fetch_pages_from :: "('w, 'c) idx_env \<Rightarrow> shard_id \<Rightarrow> nat \<Rightarrow> json \<Rightarrow> json \<Rightarrow> 'w \<Rightarrow> ('w, descriptor list) fetched" where
  "fetch_pages_from ev shard 0 afterLt afterHash w = (Inr [], w)"
| "fetch_pages_from ev shard (Suc pages) afterLt afterHash w =
     (case fetchTonApi ev ''getBlockTransactions'' (page_params shard afterLt afterHash) w of
        (Inl _, w) \<Rightarrow> (Inr [], w)
      | (Inr data, w) \<Rightarrow>
          (case page_txs data of
             Inl e \<Rightarrow> (Inl e, w)
           | Inr txs \<Rightarrow>
               (if \<not> page_incomplete data \<or> txs = [] then (Inr (map descriptor_of txs), w)
                else case fetch_pages_from ev shard pages (jget ''lt'' (last txs)) (jget ''hash'' (last txs)) w of
                       (Inl e, w) \<Rightarrow> (Inl e, w)
                     | (Inr ds, w) \<Rightarrow> (Inr (map descriptor_of txs @ ds), w))))"

definition fetchBlockTransactionDescriptors :: "('w, 'c) idx_env \<Rightarrow> shard_id \<Rightarrow> 'w \<Rightarrow> ('w, descriptor list) fetched" where
  "fetchBlockTransactionDescriptors ev shard w = fetch_pages_from ev shard MAX_BLOCK_TX_PAGES JUndef JUndef w"

text \<open>\<open>None\<close> for an answer without transactions and for every failure.\<close>

definition fetchTransactionByCursor :: "('w, 'c) idx_env \<Rightarrow> string \<Rightarrow> json \<Rightarrow> json \<Rightarrow> 'w \<Rightarrow> json option \<times> 'w" where
  "fetchTransactionByCursor ev address lt hash w =
     (case fetchTonApi ev ''getTransactions''
        [(''address'', JStr address), (''lt'', lt), (''hash'', hash), (''limit'', JNum 1)] w of
        (Inl _, w) \<Rightarrow> (None, w)
      | (Inr data, w) \<Rightarrow>
          (if js_truthy (jget ''ok'' data)
           then (case js_iter (jget ''result'' data) of Some (tx # _) \<Rightarrow> (Some tx, w) | _ \<Rightarrow> (None, w))
           else (None, w)))"

definition tag_transaction :: "json \<Rightarrow> string \<Rightarrow> json \<Rightarrow> json" where
  "tag_transaction tx configAddress hash =
     JObj (amap_set ''hash'' (js_or (jget ''hash'' (jget ''transaction_id'' tx)) hash)
            (amap_set ''destination'' (JStr configAddress) (js_fields tx)))"

fun resolve_descriptors :: "('w, 'c) idx_env \<Rightarrow> (string, string) amap \<Rightarrow> descriptor list \<Rightarrow> 'w \<Rightarrow> json list \<times> 'w" where
  "resolve_descriptors ev tracked [] w = ([], w)"
| "resolve_descriptors ev tracked (d # ds) w =
     (case (case toRawAddress ev (ds_account d) of Some raw \<Rightarrow> (if raw = [] then None else amap_get raw tracked) | None \<Rightarrow> None) of
        None \<Rightarrow> resolve_descriptors ev tracked ds w
      | Some configAddress \<Rightarrow>
          (case fetchTransactionByCursor ev configAddress (ds_lt d) (ds_hash d) w of
             (found, w) \<Rightarrow>
               (case resolve_descriptors ev tracked ds w of
                  (txs, w) \<Rightarrow>
                    ((case found of
                        Some tx \<Rightarrow> if js_truthy tx then [tag_transaction tx configAddress (ds_hash d)] else []
                      | None \<Rightarrow> []) @ txs, w))))"

fun fetch_shards :: "('w, 'c) idx_env \<Rightarrow> (string, string) amap \<Rightarrow> shard_id list \<Rightarrow> 'w \<Rightarrow> ('w, json list) fetched" where
  "fetch_shards ev tracked [] w = (Inr [], w)"
| "fetch_shards ev tracked (s # ss) w =
     (case fetchBlockTransactionDescriptors ev s w of
        (Inl e, w) \<Rightarrow> (Inl e, w)
      | (Inr ds, w) \<Rightarrow>
          (case resolve_descriptors ev tracked ds w of
             (txs, w) \<Rightarrow>
               (case fetch_shards ev tracked ss w of
                  (Inl e, w) \<Rightarrow> (Inl e, w)
                | (Inr rest, w) \<Rightarrow> (Inr (txs @ rest), w))))"

definition fetchBlockTransactions :: "('w, 'c) idx_env \<Rightarrow> idx_config \<Rightarrow> int \<Rightarrow> 'w \<Rightarrow> ('w, json list) fetched" where
  "fetchBlockTransactions ev cf blockNumber w =
     (if trackedAddresses cf = [] then (Inr [], w)
      else case getBlockShards ev blockNumber w of
             (shards, w) \<Rightarrow> fetch_shards ev (trackedByRaw ev cf) shards w)"

section \<open>Events of a block\<close>

record pending_event =
  pe_event :: event_body
  pe_tx :: string
  pe_log :: nat

definition getTransactionHash :: "json \<Rightarrow> string" where
  "getTransactionHash tx = jstr (js_or (jget ''hash'' tx) (JStr []))"

definition getTransactionDestination :: "json \<Rightarrow> string" where
  "getTransactionDestination tx = jstr (js_or (jget ''destination'' (jget ''in_msg'' tx)) (JStr []))"

definition collect_transaction :: "('w, 'c) idx_env \<Rightarrow> idx_config \<Rightarrow> int \<Rightarrow> int \<Rightarrow> json \<Rightarrow> pending_event list" where
  "collect_transaction ev cf blockNumber timestamp tx =
     (let txDestination = getTransactionDestination tx in
      if normalizeAddress ev txDestination \<notin> set (map (normalizeAddress ev) (trackedAddresses cf)) then []
      else map (\<lambda>(i, e). \<lparr>pe_event = snd e, pe_tx = getTransactionHash tx, pe_log = i\<rparr>)
             (enumerate 0 (parseTransaction (env_slices ev) tx txDestination blockNumber timestamp)))"

definition collectBlockEvents :: "('w, 'c) idx_env \<Rightarrow> idx_config \<Rightarrow> json list \<Rightarrow> int \<Rightarrow> int \<Rightarrow> pending_event list" where
  "collectBlockEvents ev cf transactions blockNumber timestamp =
     concat (map (collect_transaction ev cf blockNumber timestamp) transactions)"

definition event_row_of :: "int \<Rightarrow> string \<Rightarrow> nat \<Rightarrow> int \<Rightarrow> 'a \<Rightarrow> 'a event_row" where
  "event_row_of blockNumber txHash logIndex timestamp d =
     \<lparr>r_block = blockNumber, r_tx = txHash, r_log = logIndex, r_ts = timestamp, r_data = d\<rparr>"

fun storeEvent :: "(string \<Rightarrow> string option) \<Rightarrow> int \<Rightarrow> event_body \<Rightarrow> int \<Rightarrow> string \<Rightarrow> nat \<Rightarrow> int \<Rightarrow> idx_db \<Rightarrow> unit db_result" where
  "storeEvent ap now (InternalTransfer f t a h) b tx l ts db =
     insertInternalTransfer ap now (event_row_of b tx l ts \<lparr>td_from = f, td_to = t, td_amount = dec_int a, td_payload = h\<rparr>) db"
| "storeEvent ap now (AccountStateChanged n o1 n1) b tx l ts db =
     insertAccountStateChange ap now
       (event_row_of b tx l ts \<lparr>sd_nft = n, sd_old = account_state_number o1, sd_new = account_state_number n1\<rparr>) db"
| "storeEvent ap now (MerchantPayment p m a h) b tx l ts db =
     insertMerchantPayment ap now (event_row_of b tx l ts \<lparr>td_from = p, td_to = m, td_amount = dec_int a, td_payload = h\<rparr>) db"
| "storeEvent ap now (NFTOwnershipChange n ow nw c) b tx l ts db =
     insertNFTOwnershipChange ap now (event_row_of b tx l ts \<lparr>od_nft = n, od_collection = c, od_old = ow, od_new = nw\<rparr>) db"
| "storeEvent ap now (TransparencyProtocolMetrics ps pe ac v c) b tx l ts db =
     insertTransparencyProtocolMetrics
       (event_row_of b tx l ts \<lparr>md_start = ps, md_end = pe, md_accounts = ac, md_volume = dec_int v, md_transfers = c\<rparr>) db"
| "storeEvent ap now (TransparencyLockActivity ps pe s c a f ov u) b tx l ts db =
     insertTransparencyLockActivity
       (event_row_of b tx l ts \<lparr>lk_start = ps, lk_end = pe, lk_set = s, lk_cleared = c, lk_active = a, lk_filed = f,
          lk_overturned = ov, lk_upheld = u\<rparr>) db"
| "storeEvent ap now (TransparencyParameterChange p oh nh e g) b tx l ts db =
     insertTransparencyParameterChange
       (event_row_of b tx l ts \<lparr>pd_id = p, pd_old = oh, pd_new = nh, pd_effective = e, pd_proposal = g\<rparr>) db"

fun store_events :: "(string \<Rightarrow> string option) \<Rightarrow> int \<Rightarrow> int \<Rightarrow> int \<Rightarrow> pending_event list \<Rightarrow> idx_db \<Rightarrow> unit db_result" where
  "store_events ap now b ts [] db = (Inr (), db)"
| "store_events ap now b ts (p # ps) db =
     (case storeEvent ap now (pe_event p) b (pe_tx p) (pe_log p) ts db of
        (Inl e, db') \<Rightarrow> (Inl e, db')
      | (Inr _, db') \<Rightarrow> store_events ap now b ts ps db')"

text \<open>The write phase of \<open>processBlock\<close>: one database transaction.\<close>

definition commit_block :: "(string \<Rightarrow> string option) \<Rightarrow> int \<Rightarrow> int \<Rightarrow> chain_block \<Rightarrow> nat \<Rightarrow> pending_event list \<Rightarrow> idx_db \<Rightarrow> unit db_result" where
  "commit_block ap now blockNumber block txCount pending db =
     transaction (\<lambda>db.
       case store_events ap now blockNumber (cb_now block) pending
              (insertBlock now blockNumber (cb_hash block) (cb_parent block) (cb_now block) txCount db) of
         (Inl e, db') \<Rightarrow> (Inl e, db')
       | (Inr _, db') \<Rightarrow> (Inr (), updateLatestBlock now blockNumber (cb_now block) db')) db"

section \<open>The poll\<close>

type_synonym ('w, 'a) polled = "(idx_error + 'a) \<times> idx_db \<times> 'w"

definition processBlock :: "('w, 'c) idx_env \<Rightarrow> idx_config \<Rightarrow> int \<Rightarrow> idx_db \<Rightarrow> 'w \<Rightarrow> ('w, unit) polled" where
  "processBlock ev cf blockNumber db w =
     (case getBlockByNumber ev blockNumber w of
        (Inl e, w) \<Rightarrow> (Inl e, db, w)
      | (Inr block, w) \<Rightarrow>
          (case fetchBlockTransactions ev cf blockNumber w of
             (Inl e, w) \<Rightarrow> (Inl e, db, w)
           | (Inr transactions, w) \<Rightarrow>
               (case commit_block (addr_db ev) (env_now ev w) blockNumber block (length transactions)
                       (collectBlockEvents ev cf transactions blockNumber (cb_now block)) db of
                  (Inl e, db') \<Rightarrow> (Inl (Db_failed e), db', w)
                | (Inr _, db') \<Rightarrow> (Inr (), db', w))))"

definition detectAndHandleReorg :: "('w, 'c) idx_env \<Rightarrow> int \<Rightarrow> idx_db \<Rightarrow> 'w \<Rightarrow> ('w, bool) polled" where
  "detectAndHandleReorg ev blockNumber db w =
     (case getBlock blockNumber db of
        None \<Rightarrow> (Inr False, db, w)
      | Some storedBlock \<Rightarrow>
          (case getBlockByNumber ev blockNumber w of
             (Inl e, w) \<Rightarrow> (Inl e, db, w)
           | (Inr chainBlock, w) \<Rightarrow>
               if bl_hash storedBlock \<noteq> cb_hash chainBlock
               then (Inr True, handleReorg (addr_db ev) (env_now ev w) blockNumber db, w)
               else (Inr False, db, w)))"

fun revalidate_from :: "('w, 'c) idx_env \<Rightarrow> int list \<Rightarrow> idx_db \<Rightarrow> 'w \<Rightarrow> ('w, int option) polled" where
  "revalidate_from ev [] db w = (Inr None, db, w)"
| "revalidate_from ev (n # ns) db w =
     (case detectAndHandleReorg ev n db w of
        (Inl e, db, w) \<Rightarrow> (Inl e, db, w)
      | (Inr True, db, w) \<Rightarrow> (Inr (Some n), db, w)
      | (Inr False, db, w) \<Rightarrow> revalidate_from ev ns db w)"

definition revalidateIndexedRange :: "('w, 'c) idx_env \<Rightarrow> idx_config \<Rightarrow> int \<Rightarrow> idx_db \<Rightarrow> 'w \<Rightarrow> ('w, int option) polled" where
  "revalidateIndexedRange ev cf latestIndexed db w =
     (if latestIndexed \<le> 0 then (Inr None, db, w)
      else revalidate_from ev [max 1 (latestIndexed - max 1 (cf_confirmationBlocks cf) + 1)..latestIndexed] db w)"

fun sync_blocks_in :: "('w, 'c) idx_env \<Rightarrow> idx_config \<Rightarrow> int list \<Rightarrow> idx_db \<Rightarrow> 'w \<Rightarrow> ('w, unit) polled" where
  "sync_blocks_in ev cf [] db w = (Inr (), db, w)"
| "sync_blocks_in ev cf (n # ns) db w =
     (case detectAndHandleReorg ev n db w of
        (Inl e, db, w) \<Rightarrow> (Inl e, db, w)
      | (Inr True, db, w) \<Rightarrow> (Inr (), db, w)
      | (Inr False, db, w) \<Rightarrow>
          (case processBlock ev cf n db w of
             (Inl e, db, w) \<Rightarrow> (Inl e, db, w)
           | (Inr _, db, w) \<Rightarrow> sync_blocks_in ev cf ns db w))"

definition syncBlockRange :: "('w, 'c) idx_env \<Rightarrow> idx_config \<Rightarrow> int \<Rightarrow> int \<Rightarrow> idx_db \<Rightarrow> 'w \<Rightarrow> ('w, unit) polled" where
  "syncBlockRange ev cf startBlock endBlock db w = sync_blocks_in ev cf [startBlock..endBlock] db w"

text \<open>
  The batches of a poll. With a batch size that is not positive the loop does not advance, so
  it has fuel: \<open>None\<close> is a poll that has not returned.
\<close>

fun sync_batches :: "nat \<Rightarrow> ('w, 'c) idx_env \<Rightarrow> idx_config \<Rightarrow> int \<Rightarrow> int \<Rightarrow> idx_db \<Rightarrow> 'w \<Rightarrow> ('w, unit) polled option" where
  "sync_batches 0 ev cf currentBlock endBlock db w = (if currentBlock \<le> endBlock then None else Some (Inr (), db, w))"
| "sync_batches (Suc fuel) ev cf currentBlock endBlock db w =
     (if currentBlock \<le> endBlock
      then (case syncBlockRange ev cf currentBlock (min (currentBlock + cf_batchSize cf - 1) endBlock) db w of
              (Inl e, db, w) \<Rightarrow> Some (Inl e, db, w)
            | (Inr _, db, w) \<Rightarrow> sync_batches fuel ev cf (currentBlock + cf_batchSize cf) endBlock db w)
      else Some (Inr (), db, w))"

definition syncBlocks :: "nat \<Rightarrow> ('w, 'c) idx_env \<Rightarrow> idx_config \<Rightarrow> idx_db \<Rightarrow> 'w \<Rightarrow> ('w, unit) polled option" where
  "syncBlocks fuel ev cf db w =
     (case getLatestBlock ev w of
        (None, w) \<Rightarrow> Some (Inr (), db, w)
      | (Some seqno, w) \<Rightarrow>
          (case revalidateIndexedRange ev cf (getLatestBlockIndexed db) (setLatestChainSeqno seqno db) w of
             (Inl e, db, w) \<Rightarrow> Some (Inl e, db, w)
           | (Inr _, db, w) \<Rightarrow>
               (let startBlock = max (getLatestBlockIndexed db + 1) (cf_startBlock cf);
                    endBlock = seqno - cf_confirmationBlocks cf
                in if startBlock > endBlock then Some (Inr (), db, w)
                   else case sync_batches fuel ev cf startBlock endBlock db w of
                          None \<Rightarrow> None
                        | Some (Inl e, db, w) \<Rightarrow> Some (Inl e, db, w)
                        | Some (Inr _, db, w) \<Rightarrow>
                            Some (Inr (), if endBlock > 0 then markBlocksConfirmed endBlock db else db, w))))"

section \<open>Running state\<close>

record indexer_service =
  is_running :: bool
  is_polling :: bool

definition stop :: "indexer_service \<Rightarrow> indexer_service" where
  "stop s = (if \<not> is_running s then s else s\<lparr>is_running := False, is_polling := False\<rparr>)"

text \<open>The first poll is awaited before the timer is set; when it throws, the service stays marked as running without a timer.\<close>

definition start :: "nat \<Rightarrow> ('w, 'c) idx_env \<Rightarrow> idx_config \<Rightarrow> indexer_service \<Rightarrow> idx_db \<Rightarrow> 'w \<Rightarrow> (indexer_service \<times> ('w, unit) polled) option" where
  "start fuel ev cf s db w =
     (if is_running s then Some (s, Inr (), db, w)
      else case syncBlocks fuel ev cf db w of
             None \<Rightarrow> None
           | Some (Inl e, db, w) \<Rightarrow> Some (s\<lparr>is_running := True\<rparr>, Inl e, db, w)
           | Some (Inr _, db, w) \<Rightarrow> Some (s\<lparr>is_running := True, is_polling := True\<rparr>, Inr (), db, w))"

definition getSyncStatus :: "indexer_service \<Rightarrow> idx_db \<Rightarrow> int \<times> bool" where
  "getSyncStatus s db = (getLatestBlockIndexed db, is_running s)"

end
