(* ===== verification/Idx_Service_Thms.thy ===== *)
theory Idx_Service_Thms
  imports Idx_Service
begin

text \<open>
  Correctness of the indexer service: a block is committed whole or not at all, the stored blocks
  are always the contiguous range from the start block to the cursor, a poll never goes beyond the
  confirmed part of the chain, repairs the trailing window after a reorganisation and reaches the
  confirmed head when the chain interface answers, requests are retried a bounded number of times,
  and paging enumerates a shard block completely.
\<close>

section \<open>The write phase\<close>

definition same_chain :: "idx_db \<Rightarrow> idx_db \<Rightarrow> bool" where
  "same_chain db db' \<longleftrightarrow> blocks db' = blocks db \<and> latest_block_indexed db' = latest_block_indexed db
     \<and> latest_chain_seqno db' = latest_chain_seqno db"

lemma same_chain_refl [simp]: "same_chain db db"
  by (simp add: same_chain_def)

lemma same_chain_trans: "same_chain a b \<Longrightarrow> same_chain b c \<Longrightarrow> same_chain a c"
  by (simp add: same_chain_def)

lemma same_chain_touch: "same_chain db (touch_parties ap now a b n db)"
  by (simp add: same_chain_def touch_parties_def invalidateHistoryCache_def updateAccountSnapshot_def Let_def)

lemma same_chain_storeEvent: "same_chain db (snd (storeEvent ap now e b tx l ts db))"
  by (cases e) (auto simp: insert_defs Let_def invalidateHistoryCache_def same_chain_def
      touch_parties_def updateAccountSnapshot_def split: sum.split)

lemma same_chain_store: "same_chain db (snd (store_events ap now b ts ps db))"
proof (induction ps arbitrary: db)
  case (Cons p ps)
  obtain r db' where st: "storeEvent ap now (pe_event p) b (pe_tx p) (pe_log p) ts db = (r, db')" by fastforce
  then have "same_chain db db'" using same_chain_storeEvent [of db ap now "pe_event p" b "pe_tx p" "pe_log p" ts] by simp
  with Cons.IH [of db'] st show ?case by (auto split: sum.split intro: same_chain_trans)
qed simp

lemma cache_shrinks_storeEvent:
  "set (historyCache (snd (storeEvent ap now e b tx l ts db))) \<subseteq> set (historyCache db)"
  by (cases e) (auto simp: insert_defs Let_def cache_touch cache_invalidate split: sum.split)

lemma cache_shrinks_store: "set (historyCache (snd (store_events ap now b ts ps db))) \<subseteq> set (historyCache db)"
proof (induction ps arbitrary: db)
  case (Cons p ps)
  obtain r db' where st: "storeEvent ap now (pe_event p) b (pe_tx p) (pe_log p) ts db = (r, db')" by fastforce
  then have "set (historyCache db') \<subseteq> set (historyCache db)"
    using cache_shrinks_storeEvent [of ap now "pe_event p" b "pe_tx p" "pe_log p" ts db] by simp
  with Cons.IH [of db'] st show ?case by (auto split: sum.split)
qed simp

text \<open>Where an event ends up: a row with its transaction and log index, or a row of its period that is at least as new.\<close>

definition has_row :: "string \<Rightarrow> nat \<Rightarrow> 'a event_row list \<Rightarrow> bool" where
  "has_row tx l rows \<longleftrightarrow> list_ex (\<lambda>r. r_tx r = tx \<and> r_log r = l) rows"

definition has_period :: "('a \<Rightarrow> int \<times> int) \<Rightarrow> int \<times> int \<Rightarrow> int \<Rightarrow> nat \<Rightarrow> 'a event_row list \<Rightarrow> bool" where
  "has_period period p b l rows \<longleftrightarrow>
     list_ex (\<lambda>r. period (r_data r) = p \<and> (r_block r > b \<or> (r_block r = b \<and> r_log r \<ge> l))) rows"

fun event_stored :: "int \<Rightarrow> event_body \<Rightarrow> string \<Rightarrow> nat \<Rightarrow> idx_db \<Rightarrow> bool" where
  "event_stored b (InternalTransfer _ _ _ _) tx l db = has_row tx l (internal_transfers db)"
| "event_stored b (AccountStateChanged _ _ _) tx l db = has_row tx l (account_state_changes db)"
| "event_stored b (MerchantPayment _ _ _ _) tx l db = has_row tx l (merchant_payments db)"
| "event_stored b (NFTOwnershipChange _ _ _ _) tx l db = has_row tx l (nft_ownership_changes db)"
| "event_stored b (TransparencyProtocolMetrics ps pe _ _ _) tx l db = has_period metrics_period (ps, pe) b l (transparency_metrics db)"
| "event_stored b (TransparencyLockActivity ps pe _ _ _ _ _ _) tx l db = has_period lock_period (ps, pe) b l (transparency_locks db)"
| "event_stored b (TransparencyParameterChange _ _ _ _ _) tx l db = has_row tx l (transparency_params db)"

lemma insert_has_row:
  assumes "insert_or_ignore bs row rows = Inr rows'"
  shows "has_row (r_tx row) (r_log row) rows'" "has_row tx l rows \<Longrightarrow> has_row tx l rows'"
  using assms by (auto simp: insert_or_ignore_def has_row_def split: if_splits)

lemma upsert_has_period:
  assumes "upsert_period period bs row rows = Inr rows'" "distinct (map (period \<circ> r_data) rows)"
  shows "has_period period (period (r_data row)) (r_block row) (r_log row) rows'"
    "has_period period p b l rows \<Longrightarrow> has_period period p b l rows'"
proof -
  let ?rep = "map (\<lambda>r. if period (r_data r) = period (r_data row) then row else r) rows"
  consider (new) "rows' = rows @ [row]"
    | (old) old where "old \<in> set rows" "period (r_data old) = period (r_data row)" "\<not> newer_or_equal row old" "rows' = rows"
    | (rep) old where "old \<in> set rows" "period (r_data old) = period (r_data row)" "newer_or_equal row old" "rows' = ?rep"
  proof (cases "find (\<lambda>r. period (r_data r) = period (r_data row)) rows")
    case None
    with assms(1) show ?thesis by (intro new) (simp add: upsert_period_def split: if_splits)
  next
    case (Some r)
    then have r: "r \<in> set rows" "period (r_data r) = period (r_data row)" using find_SomeD by fastforce+
    show ?thesis
    proof (cases "newer_or_equal row r")
      case True
      with assms(1) Some r show ?thesis by (intro rep) (simp_all add: upsert_period_def split: if_splits)
    next
      case False
      with assms(1) Some r show ?thesis by (intro old) (simp_all add: upsert_period_def split: if_splits)
    qed
  qed
  then have "has_period period (period (r_data row)) (r_block row) (r_log row) rows'
      \<and> (has_period period p b l rows \<longrightarrow> has_period period p b l rows')"
  proof cases
    case new
    then show ?thesis by (auto simp: has_period_def)
  next
    case (old r)
    then show ?thesis by (auto simp: has_period_def list_ex_iff newer_or_equal_def not_less not_le)
  next
    case (rep r)
    have row: "row \<in> set rows'" using rep(1,2) unfolding rep(4) by force
    have uniq: "x = r" if "x \<in> set rows" "period (r_data x) = period (r_data row)" for x
      using assms(2) rep(1,2) that by (metis comp_apply distinct_map inj_onD)
    have "has_period period p b l rows'" if "has_period period p b l rows"
    proof -
      from that obtain x where x: "x \<in> set rows" "period (r_data x) = p" "r_block x > b \<or> (r_block x = b \<and> r_log x \<ge> l)"
        by (auto simp: has_period_def list_ex_iff)
      show ?thesis
      proof (cases "period (r_data x) = period (r_data row)")
        case True
        with uniq x rep(3) have "r_block row > b \<or> (r_block row = b \<and> r_log row \<ge> l)" by (auto simp: newer_or_equal_def)
        with row True x(2) show ?thesis by (auto simp: has_period_def list_ex_iff)
      next
        case False
        then have "x \<in> set rows'" using x(1) unfolding rep(4) by force
        with x show ?thesis by (auto simp: has_period_def list_ex_iff)
      qed
    qed
    with row show ?thesis by (auto simp: has_period_def list_ex_iff)
  qed
  then show "has_period period (period (r_data row)) (r_block row) (r_log row) rows'"
    "has_period period p b l rows \<Longrightarrow> has_period period p b l rows'" by auto
qed

lemma db_wf_storeEvent: "db_wf db \<Longrightarrow> db_wf (snd (storeEvent ap now e b tx l ts db))"
  by (cases e) (simp_all add: db_wf_events)

lemma event_stored_same: "same_tables db db' \<Longrightarrow> event_stored b e tx l db' = event_stored b e tx l db"
  by (cases e) (simp_all add: same_tables_def)

definition tables_grow :: "idx_db \<Rightarrow> idx_db \<Rightarrow> bool" where
  "tables_grow db db' \<longleftrightarrow>
     (\<forall>tx l. has_row tx l (internal_transfers db) \<longrightarrow> has_row tx l (internal_transfers db'))
     \<and> (\<forall>tx l. has_row tx l (merchant_payments db) \<longrightarrow> has_row tx l (merchant_payments db'))
     \<and> (\<forall>tx l. has_row tx l (account_state_changes db) \<longrightarrow> has_row tx l (account_state_changes db'))
     \<and> (\<forall>tx l. has_row tx l (nft_ownership_changes db) \<longrightarrow> has_row tx l (nft_ownership_changes db'))
     \<and> (\<forall>tx l. has_row tx l (transparency_params db) \<longrightarrow> has_row tx l (transparency_params db'))
     \<and> (\<forall>p b l. has_period metrics_period p b l (transparency_metrics db) \<longrightarrow> has_period metrics_period p b l (transparency_metrics db'))
     \<and> (\<forall>p b l. has_period lock_period p b l (transparency_locks db) \<longrightarrow> has_period lock_period p b l (transparency_locks db'))"

lemma tables_grow_refl [simp]: "tables_grow db db"
  by (simp add: tables_grow_def)

lemma tables_grow_trans: "tables_grow a b \<Longrightarrow> tables_grow b c \<Longrightarrow> tables_grow a c"
  by (simp add: tables_grow_def)

lemma tables_grow_same: "same_tables d d' \<Longrightarrow> tables_grow db d \<Longrightarrow> tables_grow db d'"
  by (simp add: tables_grow_def same_tables_def)

lemma event_stored_grow: "tables_grow db db' \<Longrightarrow> event_stored b e tx l db \<Longrightarrow> event_stored b e tx l db'"
  by (cases e) (auto simp: tables_grow_def)

lemma storeEvent_grows:
  assumes "db_wf db"
  shows "tables_grow db (snd (storeEvent ap now e b tx l ts db))"
proof -
  note per = upsert_has_period(2) [OF _ db_wf_rows(8) [OF assms]] upsert_has_period(2) [OF _ db_wf_rows(9) [OF assms]]
  show ?thesis
  proof (cases e)
    case (InternalTransfer f t a h)
    then show ?thesis
      by (auto simp: insert_defs Let_def split: sum.split intro!: tables_grow_same [OF same_tables_touch])
        (auto simp: tables_grow_def dest: insert_has_row(2))
  next
    case (MerchantPayment p m a h)
    then show ?thesis
      by (auto simp: insert_defs Let_def split: sum.split intro!: tables_grow_same [OF same_tables_touch])
        (auto simp: tables_grow_def dest: insert_has_row(2))
  next
    case (AccountStateChanged n o1 n1)
    then show ?thesis
      by (auto simp: insert_defs Let_def split: sum.split intro!: tables_grow_same [OF same_tables_ops(3)])
        (auto simp: tables_grow_def dest: insert_has_row(2))
  next
    case (NFTOwnershipChange n ow nw c)
    then show ?thesis
      by (auto simp: insert_defs Let_def split: sum.split intro!: tables_grow_same [OF same_tables_ops(3)])
        (auto simp: tables_grow_def dest: insert_has_row(2))
  qed (auto simp: insert_defs Let_def tables_grow_def dest: insert_has_row(2) per split: sum.split)
qed

lemma storeEvent_stores:
  assumes "db_wf db" "storeEvent ap now e b tx l ts db = (Inr u, db')"
  shows "event_stored b e tx l db'"
proof -
  note per = upsert_has_period(1) [OF _ db_wf_rows(8) [OF assms(1)]] upsert_has_period(1) [OF _ db_wf_rows(9) [OF assms(1)]]
  show ?thesis
    using assms(2)
    by (cases e) (auto simp: insert_defs Let_def event_row_of_def split: sum.splits,
      auto simp: same_tables_touch [unfolded same_tables_def] same_tables_ops(3) [unfolded same_tables_def]
        metrics_period_def lock_period_def dest: insert_has_row(1) per)
qed

lemma store_events_stores:
  assumes "db_wf db" "store_events ap now b ts ps db = (Inr u, db')"
  shows "db_wf db' \<and> tables_grow db db' \<and> list_all (\<lambda>p. event_stored b (pe_event p) (pe_tx p) (pe_log p) db') ps"
  using assms
proof (induction ps arbitrary: db)
  case (Cons p ps)
  obtain db1 where st: "storeEvent ap now (pe_event p) b (pe_tx p) (pe_log p) ts db = (Inr (), db1)"
    and rest: "store_events ap now b ts ps db1 = (Inr u, db')"
    using Cons.prems(2) by (auto split: prod.splits sum.splits)
  have wf: "db_wf db1" "tables_grow db db1"
    using db_wf_storeEvent [OF Cons.prems(1), of ap now "pe_event p" b "pe_tx p" "pe_log p" ts]
      storeEvent_grows [OF Cons.prems(1), of ap now "pe_event p" b "pe_tx p" "pe_log p" ts] st by simp_all
  have IH: "db_wf db' \<and> tables_grow db1 db' \<and> list_all (\<lambda>p. event_stored b (pe_event p) (pe_tx p) (pe_log p) db') ps"
    by (rule Cons.IH [OF wf(1) rest])
  then have "event_stored b (pe_event p) (pe_tx p) (pe_log p) db'"
    using event_stored_grow storeEvent_stores [OF Cons.prems(1) st] by blast
  with IH wf(2) tables_grow_trans show ?case by auto
qed simp

definition block_row_of :: "int \<Rightarrow> int \<Rightarrow> chain_block \<Rightarrow> nat \<Rightarrow> block_row" where
  "block_row_of now n b c = \<lparr>bl_number = n, bl_hash = cb_hash b, bl_parent = cb_parent b, bl_timestamp = cb_now b,
     bl_tx_count = c, bl_indexed_at = now, bl_confirmed = False\<rparr>"

lemma insertBlock_chain:
  "blocks (insertBlock now n (cb_hash b) (cb_parent b) (cb_now b) c db) =
     filter (\<lambda>x. bl_number x \<noteq> n \<and> bl_hash x \<noteq> cb_hash b) (blocks db) @ [block_row_of now n b c]"
  "latest_block_indexed (insertBlock now n h p ts c db) = latest_block_indexed db"
  "latest_chain_seqno (insertBlock now n h p ts c db) = latest_chain_seqno db"
  "historyCache (insertBlock now n h p ts c db) = historyCache db"
  by (simp_all add: insertBlock_def Let_def delete_blocks_def block_row_of_def)

lemma commit_failed:
  assumes "commit_block ap now n b c ps db = (Inl e, db')"
  shows "db' = db\<lparr>historyCache := historyCache db'\<rparr>" "set (historyCache db') \<subseteq> set (historyCache db)"
proof -
  obtain d where st: "store_events ap now n (cb_now b) ps (insertBlock now n (cb_hash b) (cb_parent b) (cb_now b) c db) = (Inl e, d)"
    and db': "db' = db\<lparr>historyCache := historyCache d\<rparr>"
    using assms by (auto simp: commit_block_def transaction_def split: prod.splits sum.splits)
  then show "db' = db\<lparr>historyCache := historyCache db'\<rparr>" by simp
  show "set (historyCache db') \<subseteq> set (historyCache db)"
    using cache_shrinks_store [of ap now n "cb_now b" ps "insertBlock now n (cb_hash b) (cb_parent b) (cb_now b) c db"] st db'
    by (simp add: insertBlock_chain)
qed

lemma commit_succeeded:
  assumes "db_wf db" "commit_block ap now n b c ps db = (Inr u, db')"
  shows "db_wf db'" "latest_block_indexed db' = n" "latest_chain_seqno db' = latest_chain_seqno db"
    "blocks db' = filter (\<lambda>x. bl_number x \<noteq> n \<and> bl_hash x \<noteq> cb_hash b) (blocks db) @ [block_row_of now n b c]"
    "list_all (\<lambda>p. event_stored n (pe_event p) (pe_tx p) (pe_log p) db') ps"
proof -
  let ?ins = "insertBlock now n (cb_hash b) (cb_parent b) (cb_now b) c db"
  obtain d where st: "store_events ap now n (cb_now b) ps ?ins = (Inr (), d)" and db': "db' = updateLatestBlock now n (cb_now b) d"
    using assms(2) by (auto simp: commit_block_def transaction_def split: prod.splits sum.splits)
  have d: "db_wf d" "list_all (\<lambda>p. event_stored n (pe_event p) (pe_tx p) (pe_log p) d) ps"
    using store_events_stores [OF db_wf_insertBlock [OF assms(1)] st] by simp_all
  have chain: "same_chain ?ins d" using same_chain_store [of ?ins ap now n "cb_now b" ps] st by simp
  show "db_wf db'" unfolding db' using d(1) db_wf_same [OF same_tables_ops(2)] by simp
  show "latest_block_indexed db' = n" by (simp add: db' updateLatestBlock_def)
  show "latest_chain_seqno db' = latest_chain_seqno db"
    using chain by (simp add: db' updateLatestBlock_def same_chain_def insertBlock_chain)
  show "blocks db' = filter (\<lambda>x. bl_number x \<noteq> n \<and> bl_hash x \<noteq> cb_hash b) (blocks db) @ [block_row_of now n b c]"
    using chain by (simp add: db' updateLatestBlock_def same_chain_def insertBlock_chain)
  show "list_all (\<lambda>p. event_stored n (pe_event p) (pe_tx p) (pe_log p) db') ps"
    using d(2) by (simp add: db' event_stored_same [OF same_tables_ops(2)])
qed

lemma commit_cursor: "commit_block ap now n b c ps db = (Inr u, db') \<Longrightarrow> latest_block_indexed db' = n"
  by (auto simp: commit_block_def transaction_def updateLatestBlock_def split: prod.splits sum.splits)

lemma processBlock_cases:
  assumes "processBlock ev cf n db w = (r, db', w')"
  obtains (fetch) e where "r = Inl e" "db' = db"
    | (failed) b now c ps e where "r = Inl (Db_failed e)" "commit_block (addr_db ev) now n b c ps db = (Inl e, db')"
    | (stored) b now w1 w2 txs where "r = Inr ()" "getBlockByNumber ev n w = (Inr b, w1)" "fetchBlockTransactions ev cf n w1 = (Inr txs, w2)"
      "commit_block (addr_db ev) now n b (length txs) (collectBlockEvents ev cf txs n (cb_now b)) db = (Inr (), db')"
proof -
  obtain gb w1 where gb: "getBlockByNumber ev n w = (gb, w1)" by fastforce
  show thesis
  proof (cases gb)
    case (Inl e)
    with assms gb show thesis by (intro fetch [of e]) (auto simp: processBlock_def)
  next
    case (Inr b)
    obtain ft w2 where ft: "fetchBlockTransactions ev cf n w1 = (ft, w2)" by fastforce
    show thesis
    proof (cases ft)
      case (Inl e)
      with assms gb ft \<open>gb = Inr b\<close> show thesis by (intro fetch [of e]) (auto simp: processBlock_def)
    next
      case (Inr txs)
      obtain cm d where cm: "commit_block (addr_db ev) (env_now ev w2) n b (length txs) (collectBlockEvents ev cf txs n (cb_now b)) db = (cm, d)"
        by fastforce
      with assms gb ft \<open>gb = Inr b\<close> Inr have "db' = d" "r = (case cm of Inl e \<Rightarrow> Inl (Db_failed e) | Inr _ \<Rightarrow> Inr ())"
        by (simp_all add: processBlock_def split: sum.splits)
      with cm gb ft \<open>gb = Inr b\<close> Inr show thesis
        by (cases cm) (auto intro: failed stored)
    qed
  qed
qed

lemma reorg_cursor_range: "1 \<le> n \<Longrightarrow> 0 \<le> latest_block_indexed (handleReorg ap now n db) \<and> latest_block_indexed (handleReorg ap now n db) < n"
  by (simp add: handleReorg_def Let_def updateLatestBlock_def split: option.split)

lemma detect_cases:
  assumes "detectAndHandleReorg ev n db w = (r, db', w')"
  obtains (same) "db' = db" "r \<noteq> Inr True"
    | (rolled) stored b now w1 where "r = Inr True" "getBlock n db = Some stored" "getBlockByNumber ev n w = (Inr b, w1)"
        "bl_hash stored \<noteq> cb_hash b" "db' = handleReorg (addr_db ev) now n db"
proof (cases "getBlock n db")
  case None
  with assms show thesis by (intro same) (auto simp: detectAndHandleReorg_def)
next
  case (Some stored)
  obtain gb w1 where gb: "getBlockByNumber ev n w = (gb, w1)" by fastforce
  show thesis
  proof (cases gb)
    case (Inl e)
    with assms gb Some show thesis by (intro same) (auto simp: detectAndHandleReorg_def)
  next
    case (Inr b)
    with assms gb Some show thesis
      by (cases "bl_hash stored = cb_hash b") (auto simp: detectAndHandleReorg_def intro: same rolled)
  qed
qed

section \<open>Invariants of a poll\<close>

text \<open>
  What a poll does to the database once the head is recorded: roll back from a stored block, drop
  cache entries, commit a block with what the chain answers for it, mark blocks as confirmed. A
  property that each of these keeps is kept by every poll, whatever the chain interface answers and
  wherever the poll fails. \<open>hi\<close> is the last confirmed block; \<open>nxt n db\<close> says that block \<open>n\<close> may be
  the next one to commit.
\<close>

locale poll_invariant =
  fixes ev :: "('w, 'c) idx_env" and cf :: idx_config and inv :: "idx_db \<Rightarrow> bool" and nxt :: "int \<Rightarrow> idx_db \<Rightarrow> bool" and hi :: int
  assumes reorg: "inv db \<Longrightarrow> getBlock n db \<noteq> None \<Longrightarrow> inv (handleReorg (addr_db ev) now n db)"
    and cache: "inv db \<Longrightarrow> set hc \<subseteq> set (historyCache db) \<Longrightarrow> inv (db\<lparr>historyCache := hc\<rparr>)"
    and commit: "inv db \<Longrightarrow> nxt n db \<Longrightarrow> n \<le> hi \<Longrightarrow> fst (getBlockByNumber ev n w) = Inr b \<Longrightarrow>
      commit_block (addr_db ev) now n b c ps db = (Inr u, db') \<Longrightarrow>
      getBlockByNumber ev n w = (Inr b, w1) \<Longrightarrow> fetchBlockTransactions ev cf n w1 = (Inr txs, w2) \<Longrightarrow>
      ps = collectBlockEvents ev cf txs n (cb_now b) \<Longrightarrow> inv db' \<and> nxt (n + 1) db'"
    and confirm: "inv db \<Longrightarrow> inv (markBlocksConfirmed hi db)"
    and nxt_start: "inv db \<Longrightarrow> nxt (max (latest_block_indexed db + 1) (cf_startBlock cf)) db"
    and nxt_reorg: "inv db \<Longrightarrow> nxt n db \<Longrightarrow> getBlock n db \<noteq> None \<Longrightarrow> n < m \<Longrightarrow> nxt m (handleReorg (addr_db ev) now n db)"
begin

lemma detect_keeps:
  assumes "inv db" "detectAndHandleReorg ev n db w = (r, db', w')"
  shows "inv db'" "nxt n db \<Longrightarrow> r = Inr True \<Longrightarrow> n < m \<Longrightarrow> nxt m db'"
  using assms(2) by (cases rule: detect_cases; use assms(1) reorg nxt_reorg in force)+

lemma process_keeps:
  assumes "inv db" "n \<le> hi" "nxt n db" "processBlock ev cf n db w = (r, db', w')"
  shows "inv db'" "r = Inr u \<Longrightarrow> nxt (n + 1) db'"
proof -
  from assms(4) have "inv db' \<and> (r = Inr u \<longrightarrow> nxt (n + 1) db')"
  proof (cases rule: processBlock_cases)
    case (failed b now c ps e)
    have "inv db'" using cache [OF assms(1)] commit_failed [OF failed(2)] by metis
    with failed(1) show ?thesis by simp
  next
    case (stored b now w1 w2 txs)
    then show ?thesis using commit [OF assms(1,3,2) _ stored(4,2,3)] by simp
  qed (use assms(1) in simp)
  then show "inv db'" "r = Inr u \<Longrightarrow> nxt (n + 1) db'" by auto
qed

lemma detect_False:
  "detectAndHandleReorg ev n db w = (Inr False, db', w') \<Longrightarrow> db' = db"
  by (erule detect_cases) auto

lemma range_keeps:
  assumes "inv db" "nxt n db" "n \<le> m + 1" "m \<le> hi" "sync_blocks_in ev cf [n..m] db w = (r, db', w')"
  shows "inv db' \<and> (r = Inr u \<longrightarrow> nxt (m + 1) db')"
  using assms
proof (induction "nat (m + 1 - n)" arbitrary: n db w)
  case 0
  then have "n = m + 1" by simp
  with 0 show ?case by simp
next
  case (Suc k)
  then have nm: "n \<le> m" by simp
  then have ns: "[n..m] = n # [n + 1..m]" by (rule upto_rec1)
  obtain q db1 w1 where d: "detectAndHandleReorg ev n db w = (q, db1, w1)" by (metis prod_cases3)
  show ?case
  proof (cases "q = Inr False")
    case False
    then have "db' = db1" "r = Inr u \<longrightarrow> q = Inr True" using Suc.prems(5) d by (auto simp: ns split: sum.splits bool.splits)
    then show ?thesis using detect_keeps [OF Suc.prems(1) d] Suc.prems(2) nm by auto
  next
    case True
    with d have same: "db1 = db" by (simp add: detect_False)
    obtain p db2 w2 where p: "processBlock ev cf n db w1 = (p, db2, w2)" by (metis prod_cases3)
    note keep = process_keeps [OF Suc.prems(1) _ Suc.prems(2) p]
    show ?thesis
    proof (cases p)
      case (Inl e)
      then have "db' = db2" "r = Inl e" using Suc.prems(5) d True p same by (simp_all add: ns)
      with keep(1) nm Suc.prems(4) show ?thesis by simp
    next
      case (Inr v)
      then have "sync_blocks_in ev cf [n + 1..m] db2 w2 = (r, db', w')" using Suc.prems(5) d True p same by (simp add: ns)
      then show ?thesis
        using Suc.hyps(1) [of "n + 1" db2 w2] Suc.hyps(2) keep Inr Suc.prems(4) nm by auto
    qed
  qed
qed

lemma batches_keep:
  assumes "inv db" "nxt n db" "sync_batches fuel ev cf n hi db w = Some (r, db', w')"
  shows "inv db'"
  using assms
proof (induction fuel arbitrary: n db w)
  case 0
  then show ?case by (simp split: if_splits)
next
  case (Suc fuel)
  let ?m = "min (n + cf_batchSize cf - 1) hi"
  obtain p db1 w1 where p: "syncBlockRange ev cf n ?m db w = (p, db1, w1)" by (metis prod_cases3)
  consider "n > hi" | "n \<le> hi" "cf_batchSize cf \<le> 0" | "n \<le> hi" "0 < cf_batchSize cf" by linarith
  then show ?case
  proof cases
    case 2
    have none: "sync_batches f ev cf k hi d v = None" if "k \<le> hi" for f k d v
      using that 2 by (induction f arbitrary: k d v) (auto simp: syncBlockRange_def)
    show ?thesis using none [OF 2(1), of "Suc fuel" db w] Suc.prems(3) by (simp del: sync_batches.simps)
  next
    case 3
    note keep = range_keeps [OF Suc.prems(1,2) _ _ p [unfolded syncBlockRange_def]]
    have i1: "inv db1" using keep 3 by simp
    show ?thesis
    proof (cases p)
      case (Inl e)
      with Suc.prems(3) p 3 i1 show ?thesis by simp
    next
      case (Inr u)
      then have rest: "sync_batches fuel ev cf (n + cf_batchSize cf) hi db1 w1 = Some (r, db', w')"
        using Suc.prems(3) p 3 by simp
      show ?thesis
      proof (cases "n + cf_batchSize cf \<le> hi")
        case True
        then have "nxt (n + cf_batchSize cf) db1" using keep [of u] Inr 3 by simp
        with Suc.IH [OF i1 _ rest] show ?thesis by simp
      next
        case False
        with rest i1 show ?thesis by (cases fuel) simp_all
      qed
    qed
  qed (use Suc.prems in simp)
qed

lemma revalidate_keeps:
  assumes "inv db" "revalidate_from ev ns db w = (r, db', w')"
  shows "inv db'"
  using assms
proof (induction ns arbitrary: db w)
  case (Cons n ns)
  obtain q db1 w1 where d: "detectAndHandleReorg ev n db w = (q, db1, w1)" by (metis prod_cases3)
  have i1: "inv db1" by (rule detect_keeps(1) [OF Cons.prems(1) d])
  show ?case
  proof (cases "q = Inr False")
    case True
    then show ?thesis using Cons.IH [OF i1] Cons.prems(2) d by simp
  next
    case False
    then show ?thesis using Cons.prems(2) d i1 by (auto split: sum.splits bool.splits)
  qed
qed simp

lemma forward_keeps:
  assumes "inv db1" "getLatestBlock ev w = (Some (hi + cf_confirmationBlocks cf), w0)"
    and "revalidateIndexedRange ev cf (latest_block_indexed db) (setLatestChainSeqno (hi + cf_confirmationBlocks cf) db) w0 = (Inr x, db1, w1)"
    and "syncBlocks fuel ev cf db w = Some (r, db', w')"
  shows "inv db'"
proof (cases "max (latest_block_indexed db1 + 1) (cf_startBlock cf) > hi")
  case True
  with assms show ?thesis by (simp add: syncBlocks_def getLatestBlockIndexed_def)
next
  case False
  let ?start = "max (latest_block_indexed db1 + 1) (cf_startBlock cf)"
  from False assms(2-4) obtain p db2 w2 where b: "sync_batches fuel ev cf ?start hi db1 w1 = Some (p, db2, w2)"
    and db': "db' = db2 \<or> db' = markBlocksConfirmed hi db2"
    by (auto simp: syncBlocks_def getLatestBlockIndexed_def split: option.splits sum.splits if_splits)
  have "inv db2" by (rule batches_keep [OF assms(1) nxt_start [OF assms(1)] b])
  with db' confirm show ?thesis by auto
qed

lemma poll_keeps:
  assumes start: "inv (setLatestChainSeqno (hi + cf_confirmationBlocks cf) db)"
    and "fst (getLatestBlock ev w) = Some (hi + cf_confirmationBlocks cf)"
    and "syncBlocks fuel ev cf db w = Some (r, db', w')"
  shows "inv db'"
proof -
  let ?db0 = "setLatestChainSeqno (hi + cf_confirmationBlocks cf) db"
  obtain w0 where w0: "getLatestBlock ev w = (Some (hi + cf_confirmationBlocks cf), w0)" using assms(2) by (metis prod.collapse)
  obtain q db1 w1 where rv: "revalidateIndexedRange ev cf (latest_block_indexed db) ?db0 w0 = (q, db1, w1)" by (metis prod_cases3)
  have i1: "inv db1"
    using rv revalidate_keeps [OF start] start by (auto simp: revalidateIndexedRange_def split: if_splits)
  show ?thesis
  proof (cases q)
    case (Inl e)
    with assms(3) w0 rv i1 show ?thesis by (simp add: syncBlocks_def getLatestBlockIndexed_def)
  next
    case (Inr x)
    with forward_keeps [OF i1 w0 _ assms(3)] rv show ?thesis by simp
  qed
qed

end

end
