(* ===== verification/Idx_Service_Props.thy ===== *)
theory Idx_Service_Props
  imports Idx_Service_Thms
begin

text \<open>
  The properties of a poll of the indexer, over the contract \<open>poll_invariant\<close>: atomic blocks,
  contiguity, the confirmation bound and flags, repair of the trailing window, progress, bounded
  retries and complete paging.
\<close>

section \<open>Integrity and bounds of a poll\<close>

lemma db_wf_cache [simp]: "db_wf (db\<lparr>historyCache := hc\<rparr>) = db_wf db"
  by (rule db_wf_same) (simp add: same_tables_def)

interpretation wf_poll: poll_invariant ev cf db_wf "\<lambda>_ _. True" hi for ev cf hi
  by unfold_locales (auto simp: db_wf_reorg db_wf_confirm dest: commit_succeeded(1))

lemma block_numbers_commit:
  assumes "commit_block ap now n b c ps db = (Inr u, db')" "db_wf db"
  shows "block_numbers db' \<subseteq> insert n (block_numbers db)"
  using commit_succeeded(4) [OF assms(2,1)] by (auto simp: block_numbers_def block_row_of_def)

definition within_bound :: "int set \<Rightarrow> int \<Rightarrow> idx_db \<Rightarrow> bool" where
  "within_bound old hi db \<longleftrightarrow> db_wf db \<and> block_numbers db \<subseteq> old \<union> {..hi}"

interpretation bound_poll: poll_invariant ev cf "within_bound old hi" "\<lambda>_ _. True" hi for ev cf old hi
proof
  fix db n and now :: int
  assume "within_bound old hi db"
  then show "within_bound old hi (handleReorg (addr_db ev) now n db)" "within_bound old hi (markBlocksConfirmed hi db)"
    by (auto simp: within_bound_def db_wf_reorg db_wf_confirm block_numbers_def reorg_tables(1)) (auto simp: markBlocksConfirmed_def)
next
  fix db and hc :: "(string, history_cache_entry) amap"
  assume "within_bound old hi db"
  then show "within_bound old hi (db\<lparr>historyCache := hc\<rparr>)" by (simp add: within_bound_def block_numbers_def)
next
  fix db n now b c ps u db'
  assume "within_bound old hi db" "n \<le> hi" "commit_block (addr_db ev) now n b c ps db = (Inr u, db')"
  then show "within_bound old hi db' \<and> True"
    using block_numbers_commit commit_succeeded(1) by (fastforce simp: within_bound_def)
qed auto

text \<open>The stored flag against the canonical predicate.\<close>

definition flags_sound :: "int \<Rightarrow> idx_db \<Rightarrow> bool" where
  "flags_sound K db \<longleftrightarrow> db_wf db \<and> (\<forall>b\<in>set (blocks db). bl_confirmed b \<longrightarrow> isBlockConfirmed (latest_chain_seqno db) (bl_number b) K)"

definition flags_at :: "idx_config \<Rightarrow> int \<Rightarrow> idx_db \<Rightarrow> bool" where
  "flags_at cf hi db \<longleftrightarrow> flags_sound (cf_confirmationBlocks cf) db \<and> hi + cf_confirmationBlocks cf \<le> latest_chain_seqno db"

lemma confirmed_mono: "isBlockConfirmed h b K \<Longrightarrow> h \<le> h' \<Longrightarrow> isBlockConfirmed h' b K"
  by (auto simp: isBlockConfirmed_def confirmationDepth_def max_def split: if_splits)

lemma confirmed_below: "b \<le> hi \<Longrightarrow> hi + K \<le> h \<Longrightarrow> isBlockConfirmed h b K"
  by (auto simp: isBlockConfirmed_def confirmationDepth_def max_def)

interpretation flag_poll: poll_invariant ev cf "flags_at cf hi" "\<lambda>_ _. True" hi for ev cf hi
proof
  fix db n and now :: int
  assume "flags_at cf hi db"
  then show "flags_at cf hi (handleReorg (addr_db ev) now n db)"
    by (auto simp: flags_at_def flags_sound_def db_wf_reorg reorg_tables(1) reorg_head)
next
  fix db
  assume "flags_at cf hi db"
  then show "flags_at cf hi (markBlocksConfirmed hi db)"
    using confirmed_below [of _ hi "cf_confirmationBlocks cf" "latest_chain_seqno db"]
    by (auto simp: flags_at_def flags_sound_def db_wf_confirm) (auto simp: markBlocksConfirmed_def split: if_splits)
next
  fix db and hc :: "(string, history_cache_entry) amap"
  assume "flags_at cf hi db"
  then show "flags_at cf hi (db\<lparr>historyCache := hc\<rparr>)" by (simp add: flags_at_def flags_sound_def)
next
  fix db n now b c ps u db'
  assume f: "flags_at cf hi db" and cm: "commit_block (addr_db ev) now n b c ps db = (Inr u, db')"
  then have "db_wf db" by (simp add: flags_at_def flags_sound_def)
  with f commit_succeeded [OF _ cm] show "flags_at cf hi db' \<and> True"
    by (auto simp: flags_at_def flags_sound_def block_row_of_def)
qed auto

section \<open>Contiguity\<close>

text \<open>
  Two blocks of different height never have the same root hash, whenever the chain is asked: without
  this a block could replace another one of the same hash.
\<close>

definition distinct_hashes :: "('w, 'c) idx_env \<Rightarrow> bool" where
  "distinct_hashes ev \<longleftrightarrow> (\<forall>n m v w b c. fst (getBlockByNumber ev n v) = Inr b \<and> fst (getBlockByNumber ev m w) = Inr c
     \<and> cb_hash b = cb_hash c \<longrightarrow> n = m)"

definition origin :: "('w, 'c) idx_env \<Rightarrow> block_row \<Rightarrow> bool" where
  "origin ev x \<longleftrightarrow> (\<exists>w b. fst (getBlockByNumber ev (bl_number x) w) = Inr b \<and> cb_hash b = bl_hash x)"

definition contiguous :: "idx_config \<Rightarrow> idx_db \<Rightarrow> bool" where
  "contiguous cf db \<longleftrightarrow> block_numbers db = {max 1 (cf_startBlock cf)..latest_block_indexed db}
     \<and> (latest_block_indexed db = 0 \<or> max 1 (cf_startBlock cf) \<le> latest_block_indexed db)"

definition chain_ok :: "('w, 'c) idx_env \<Rightarrow> idx_config \<Rightarrow> idx_db \<Rightarrow> bool" where
  "chain_ok ev cf db \<longleftrightarrow> db_wf db \<and> contiguous cf db \<and> (\<forall>x\<in>set (blocks db). origin ev x)"

lemma getBlock_None: "getBlock n db = None \<longleftrightarrow> n \<notin> block_numbers db"
  by (auto simp: getBlock_def block_numbers_def find_None_iff)

lemma chain_ok_reorg:
  assumes "chain_ok ev cf db" "getBlock n db \<noteq> None"
  shows "chain_ok ev cf (handleReorg ap now n db)"
proof -
  let ?s = "max 1 (cf_startBlock cf)"
  have wf: "db_wf db" and con: "block_numbers db = {?s..latest_block_indexed db}"
    using assms(1) by (auto simp: chain_ok_def contiguous_def)
  then have n: "?s \<le> n" "n \<le> latest_block_indexed db" using assms(2) by (auto simp: getBlock_None)
  have nums: "block_numbers (handleReorg ap now n db) = {?s..n - 1}"
    using con n by (force simp: block_numbers_def reorg_tables(1) [OF wf])
  have "latest_block_indexed (handleReorg ap now n db) = (if n = ?s then 0 else n - 1)"
    using reorg_cursor [OF wf, of ap now n] con n by (auto simp: getBlock_None)
  with nums n have "contiguous cf (handleReorg ap now n db)" by (auto simp: contiguous_def)
  then show ?thesis
    using assms(1) by (auto simp: chain_ok_def db_wf_reorg reorg_tables(1) [OF wf])
qed

lemma chain_ok_commit:
  assumes "distinct_hashes ev" "chain_ok ev cf db" "fst (getBlockByNumber ev n w) = Inr b"
    and "n = max (latest_block_indexed db + 1) (cf_startBlock cf)" "commit_block ap now n b c ps db = (Inr u, db')"
  shows "chain_ok ev cf db'"
proof -
  let ?s = "max 1 (cf_startBlock cf)"
  have wf: "db_wf db" and con: "block_numbers db = {?s..latest_block_indexed db}"
    and cur: "latest_block_indexed db = 0 \<or> ?s \<le> latest_block_indexed db"
    using assms(2) by (auto simp: chain_ok_def contiguous_def)
  have new: "bl_number x \<noteq> n \<and> bl_hash x \<noteq> cb_hash b" if "x \<in> set (blocks db)" for x
  proof -
    have "bl_number x \<in> block_numbers db" using that by (simp add: block_numbers_def)
    then have "bl_number x \<noteq> n" using con assms(4) by auto
    moreover have "origin ev x" using assms(2) that by (simp add: chain_ok_def)
    ultimately show ?thesis using assms(1,3) unfolding origin_def distinct_hashes_def by metis
  qed
  then have blocks: "blocks db' = blocks db @ [block_row_of now n b c]"
    using commit_succeeded(4) [OF wf assms(5)] by (simp cong: filter_cong)
  have "block_numbers db' = {?s..n}"
    using con cur assms(4) unfolding block_numbers_def blocks by (auto simp: block_row_of_def)
  then have "contiguous cf db'"
    using commit_succeeded(2) [OF wf assms(5)] cur assms(4) by (auto simp: contiguous_def)
  moreover have "origin ev (block_row_of now n b c)" using assms(3) by (auto simp: origin_def block_row_of_def)
  ultimately show ?thesis
    using assms(2) commit_succeeded(1) [OF wf assms(5)] by (auto simp: chain_ok_def blocks)
qed

definition next_block :: "idx_config \<Rightarrow> int \<Rightarrow> idx_db \<Rightarrow> bool" where
  "next_block cf n db \<longleftrightarrow> n = max (latest_block_indexed db + 1) (cf_startBlock cf)"

lemma next_not_stored: "contiguous cf db \<Longrightarrow> next_block cf n db \<Longrightarrow> getBlock n db = None"
  by (auto simp: contiguous_def next_block_def getBlock_None)

lemma confirm_numbers: "block_numbers (markBlocksConfirmed n db) = block_numbers db"
proof -
  have "map bl_number (blocks (markBlocksConfirmed n db)) = map bl_number (blocks db)"
    by (simp add: markBlocksConfirmed_def)
  then show ?thesis unfolding block_numbers_def by (metis set_map)
qed

lemma confirm_origin: "\<forall>x\<in>set (blocks db). origin ev x \<Longrightarrow> \<forall>x\<in>set (blocks (markBlocksConfirmed n db)). origin ev x"
  by (auto simp: markBlocksConfirmed_def origin_def)

interpretation chain_poll: poll_invariant ev cf "\<lambda>db. distinct_hashes ev \<longrightarrow> chain_ok ev cf db" "\<lambda>n db. distinct_hashes ev \<longrightarrow> next_block cf n db" hi
  for ev cf hi
proof
  fix db n and now :: int
  assume "distinct_hashes ev \<longrightarrow> chain_ok ev cf db" "getBlock n db \<noteq> None"
  then show "distinct_hashes ev \<longrightarrow> chain_ok ev cf (handleReorg (addr_db ev) now n db)" by (simp add: chain_ok_reorg)
next
  fix db n and now :: int and m
  assume "distinct_hashes ev \<longrightarrow> chain_ok ev cf db" "distinct_hashes ev \<longrightarrow> next_block cf n db" "getBlock n db \<noteq> None"
  then show "distinct_hashes ev \<longrightarrow> next_block cf m (handleReorg (addr_db ev) now n db)"
    using next_not_stored by (auto simp: chain_ok_def)
next
  fix db and hc :: "(string, history_cache_entry) amap"
  assume "distinct_hashes ev \<longrightarrow> chain_ok ev cf db"
  then show "distinct_hashes ev \<longrightarrow> chain_ok ev cf (db\<lparr>historyCache := hc\<rparr>)"
    by (simp add: chain_ok_def contiguous_def block_numbers_def)
next
  fix db
  assume "distinct_hashes ev \<longrightarrow> chain_ok ev cf db"
  moreover have "latest_block_indexed (markBlocksConfirmed hi db) = latest_block_indexed db" by (simp add: markBlocksConfirmed_def)
  ultimately show "distinct_hashes ev \<longrightarrow> chain_ok ev cf (markBlocksConfirmed hi db)"
    using confirm_origin [of db ev hi] by (simp add: chain_ok_def contiguous_def db_wf_confirm confirm_numbers)
next
  fix db n w b now c ps u db'
  assume "distinct_hashes ev \<longrightarrow> chain_ok ev cf db" "distinct_hashes ev \<longrightarrow> next_block cf n db"
    and "fst (getBlockByNumber ev n w) = Inr b" and cm: "commit_block (addr_db ev) now n b c ps db = (Inr u, db')"
  moreover have "latest_block_indexed db' = n" by (rule commit_cursor [OF cm])
  ultimately show "(distinct_hashes ev \<longrightarrow> chain_ok ev cf db') \<and> (distinct_hashes ev \<longrightarrow> next_block cf (n + 1) db')"
    using chain_ok_commit [of ev cf db n w b] by (auto simp: next_block_def)
qed (simp add: next_block_def)

section \<open>Repair of the trailing window\<close>

text \<open>
  The chain interface, as a poll meets it, answers the same question the same way whenever it is asked. The databases a
  poll starts from are filled through another interface, so the chain may be another one than it was.
\<close>

definition steady :: "('w, 'c) idx_env \<Rightarrow> bool" where
  "steady ev \<longleftrightarrow> (\<forall>m p v w. fst (http_get ev m p v) = fst (http_get ev m p w))"

lemma steady_attempts: "steady ev \<Longrightarrow> fst (fetch_attempts ev m p k v) = fst (fetch_attempts ev m p k w)"
proof (induction k arbitrary: v w)
  case (Suc k)
  obtain x v' w' where "http_get ev m p v = (x, v')" "http_get ev m p w = (x, w')"
    using Suc.prems unfolding steady_def by (metis prod.collapse)
  with Suc.IH [OF Suc.prems, of v' w'] show ?case by (cases x) simp_all
qed simp

lemma steady_api: "steady ev \<Longrightarrow> fst (fetchTonApi ev m p v) = fst (fetchTonApi ev m p w)"
  by (simp add: fetchTonApi_def fetchWithRetry_def steady_attempts)

lemma steady_block:
  assumes "steady ev"
  shows "fst (getBlockByNumber ev n v) = fst (getBlockByNumber ev n w)"
proof -
  let ?p = "[(''workchain'', JNum (- 1)), (''shard'', JStr ''-9223372036854775808''), (''seqno'', JNum n)]"
  obtain x v1 w1 where 1: "fetchTonApi ev ''lookupBlock'' ?p v = (x, v1)" "fetchTonApi ev ''lookupBlock'' ?p w = (x, w1)"
    using steady_api [OF assms] by (metis prod.collapse)
  have 2: "fst (fetchTonApi ev ''getBlockHeader'' q v1) = fst (fetchTonApi ev ''getBlockHeader'' q w1)" for q
    by (rule steady_api [OF assms])
  show ?thesis
    unfolding getBlockByNumber_def 1 using 2
    by (auto split: sum.splits prod.splits) (metis fst_conv sum.distinct(1) sum.inject(1) sum.inject(2))+
qed

definition canonical_block :: "('w, 'c) idx_env \<Rightarrow> 'w \<Rightarrow> block_row \<Rightarrow> bool" where
  "canonical_block ev w x \<longleftrightarrow> (\<exists>b. fst (getBlockByNumber ev (bl_number x) w) = Inr b \<and> cb_hash b = bl_hash x)"

lemma canonical_any: "steady ev \<Longrightarrow> canonical_block ev v x = canonical_block ev w x"
  unfolding canonical_block_def using steady_block [of ev "bl_number x" v w] by simp

definition canonical_from :: "('w, 'c) idx_env \<Rightarrow> 'w \<Rightarrow> int \<Rightarrow> idx_db \<Rightarrow> bool" where
  "canonical_from ev w a db \<longleftrightarrow> db_wf db \<and> (\<forall>x\<in>set (blocks db). a \<le> bl_number x \<longrightarrow> canonical_block ev w x)"

lemma getBlock_unique: "db_wf db \<Longrightarrow> x \<in> set (blocks db) \<Longrightarrow> getBlock (bl_number x) db = Some x"
proof -
  assume wf: "db_wf db" and x: "x \<in> set (blocks db)"
  then obtain y where y: "getBlock (bl_number x) db = Some y"
    using getBlock_None [of "bl_number x" db] by (auto simp: block_numbers_def)
  then have "y \<in> set (blocks db)" "bl_number y = bl_number x" unfolding getBlock_def using find_SomeD by fastforce+
  with wf x have "y = x" by (meson db_wf_rows(10) distinct_map inj_onD)
  with y show ?thesis by simp
qed

text \<open>Blocks from \<open>a\<close> up to but not including \<open>c\<close> are canonical, and none is above \<open>b\<close>.\<close>

definition checked :: "('w, 'c) idx_env \<Rightarrow> 'w \<Rightarrow> int \<Rightarrow> int \<Rightarrow> int \<Rightarrow> idx_db \<Rightarrow> bool" where
  "checked ev w a c b db \<longleftrightarrow> db_wf db
     \<and> (\<forall>x\<in>set (blocks db). bl_number x \<le> b \<and> (a \<le> bl_number x \<and> bl_number x < c \<longrightarrow> canonical_block ev w x))"

lemma detect_checks:
  assumes "steady ev" "checked ev w a c b db" "detectAndHandleReorg ev c db v = (Inr q, db', v')"
  shows "checked ev w a (c + 1) b db'" "q \<Longrightarrow> canonical_from ev w a db'"
proof -
  have wf: "db_wf db" using assms(2) by (simp add: checked_def)
  have main: "if q then checked ev w a (c + 1) b db' \<and> canonical_from ev w a db' else checked ev w a (c + 1) b db'"
    using assms(3)
  proof (cases rule: detect_cases)
    case same
    then have nq: "\<not> q" and db': "db' = db" by auto
    have "canonical_block ev w x" if x: "x \<in> set (blocks db)" "bl_number x = c" for x
    proof -
      have g: "getBlock c db = Some x" using getBlock_unique [OF wf x(1)] x(2) by simp
      obtain gb v1 where gb: "getBlockByNumber ev c v = (gb, v1)" by fastforce
      have "\<exists>cb. gb = Inr cb \<and> bl_hash x = cb_hash cb"
        using assms(3) g gb nq by (cases gb) (auto simp: detectAndHandleReorg_def split: if_splits)
      then have "canonical_block ev v x" using gb x(2) by (auto simp: canonical_block_def)
      then show ?thesis using canonical_any [OF assms(1)] by blast
    qed
    moreover have "bl_number x \<le> b \<and> (a \<le> bl_number x \<and> bl_number x < c \<longrightarrow> canonical_block ev w x)" if "x \<in> set (blocks db)" for x
      using assms(2) that by (simp add: checked_def)
    ultimately have "checked ev w a (c + 1) b db" using wf unfolding checked_def by (metis zless_add1_eq)
    with nq db' show ?thesis by simp
  next
    case (rolled stored cb now w1)
    then show ?thesis
      using assms(2) by (auto simp: checked_def canonical_from_def reorg_tables(1) [OF wf] db_wf_reorg)
  qed
  then show "checked ev w a (c + 1) b db'" "q \<Longrightarrow> canonical_from ev w a db'" by (auto split: if_splits)
qed

lemma revalidate_canonical:
  assumes "steady ev" "checked ev w a c b db" "c \<le> b + 1" "revalidate_from ev [c..b] db v = (Inr r, db', v')"
  shows "canonical_from ev w a db'"
  using assms(2-4)
proof (induction "nat (b + 1 - c)" arbitrary: c db v)
  case 0
  then have "c = b + 1" by simp
  with 0 show ?case by (auto simp: checked_def canonical_from_def)
next
  case (Suc k)
  then have ns: "[c..b] = c # [c + 1..b]" by (simp add: upto_rec1)
  obtain q db1 v1 where d: "detectAndHandleReorg ev c db v = (q, db1, v1)" by (metis prod_cases3)
  then obtain t where t: "q = Inr t" using Suc.prems(3) by (cases q) (auto simp: ns)
  note ch = detect_checks [OF assms(1) Suc.prems(1) d [unfolded t]]
  show ?case
  proof (cases t)
    case True
    with Suc.prems(3) d t ch(2) show ?thesis by (simp add: ns)
  next
    case False
    then have "revalidate_from ev [c + 1..b] db1 v1 = (Inr r, db', v')" using Suc.prems(3) d t by (simp add: ns)
    then show ?thesis using Suc.hyps(1) [OF _ ch(1)] Suc.hyps(2) by simp
  qed
qed

interpretation canon_poll: poll_invariant ev cf "\<lambda>db. steady ev \<longrightarrow> canonical_from ev w0 a db" "\<lambda>_ _. True" hi for ev cf w0 a hi
proof
  fix db n and now :: int
  assume "steady ev \<longrightarrow> canonical_from ev w0 a db"
  then show "steady ev \<longrightarrow> canonical_from ev w0 a (handleReorg (addr_db ev) now n db)"
    by (auto simp: canonical_from_def db_wf_reorg reorg_tables(1))
next
  fix db
  assume "steady ev \<longrightarrow> canonical_from ev w0 a db"
  then show "steady ev \<longrightarrow> canonical_from ev w0 a (markBlocksConfirmed hi db)"
    by (auto simp: canonical_from_def db_wf_confirm) (auto simp: markBlocksConfirmed_def canonical_block_def)
next
  fix db and hc :: "(string, history_cache_entry) amap"
  assume "steady ev \<longrightarrow> canonical_from ev w0 a db"
  then show "steady ev \<longrightarrow> canonical_from ev w0 a (db\<lparr>historyCache := hc\<rparr>)" by (simp add: canonical_from_def)
next
  fix db n w b now c ps u db'
  assume inv: "steady ev \<longrightarrow> canonical_from ev w0 a db" and b: "fst (getBlockByNumber ev n w) = Inr b"
    and cm: "commit_block (addr_db ev) now n b c ps db = (Inr u, db')"
  have "canonical_from ev w0 a db'" if st: "steady ev"
  proof -
    have wf: "db_wf db" using inv st by (simp add: canonical_from_def)
    have "canonical_block ev w0 (block_row_of now n b c)"
      using b steady_block [OF st, of n w0 w] by (simp add: canonical_block_def block_row_of_def)
    with inv st commit_succeeded [OF wf cm] show ?thesis by (auto simp: canonical_from_def)
  qed
  then show "(steady ev \<longrightarrow> canonical_from ev w0 a db') \<and> True" by simp
qed auto

lemma setHead_simps [simp]:
  "blocks (setLatestChainSeqno n db) = blocks db"
  "latest_block_indexed (setLatestChainSeqno n db) = latest_block_indexed db"
  "block_numbers (setLatestChainSeqno n db) = block_numbers db"
  "db_wf (setLatestChainSeqno n db) = db_wf db"
  "latest_chain_seqno (setLatestChainSeqno n db) = max n (latest_chain_seqno db)"
  using db_wf_same [OF same_tables_ops(1)] by (auto simp: setLatestChainSeqno_def block_numbers_def)

lemma window_repaired:
  assumes "steady ev" "chain_ok ev0 cf db" "getLatestBlock ev w = (Some seqno, w0)"
    and "syncBlocks fuel ev cf db w = Some (Inr u, db', w')"
  shows "canonical_from ev w (max 1 (latest_block_indexed db - max 1 (cf_confirmationBlocks cf) + 1)) db'"
proof -
  let ?a = "max 1 (latest_block_indexed db - max 1 (cf_confirmationBlocks cf) + 1)"
  let ?db0 = "setLatestChainSeqno seqno db"
  have wf: "db_wf db" and con: "contiguous cf db" using assms(2) by (auto simp: chain_ok_def)
  have le: "bl_number x \<le> latest_block_indexed db" if "x \<in> set (blocks db)" for x
    using con that by (auto simp: contiguous_def block_numbers_def)
  obtain q db1 w1 where rv: "revalidateIndexedRange ev cf (latest_block_indexed db) ?db0 w0 = (q, db1, w1)" by (metis prod_cases3)
  then obtain x where q: "q = Inr x" using assms(3,4) by (cases q) (auto simp: syncBlocks_def getLatestBlockIndexed_def)
  have "canonical_from ev w ?a db1"
  proof (cases "latest_block_indexed db \<le> 0")
    case True
    then have "blocks db = []" using con le by (force simp: contiguous_def block_numbers_def)
    with True rv wf show ?thesis by (auto simp: revalidateIndexedRange_def canonical_from_def)
  next
    case False
    then have "revalidate_from ev [?a..latest_block_indexed db] ?db0 w0 = (Inr x, db1, w1)" using rv q by (simp add: revalidateIndexedRange_def)
    moreover have "checked ev w ?a ?a (latest_block_indexed db) ?db0" using wf le by (auto simp: checked_def)
    ultimately show ?thesis using revalidate_canonical [OF assms(1)] False by simp
  qed
  then show ?thesis
    using canon_poll.forward_keeps [of ev w ?a db1 w "seqno - cf_confirmationBlocks cf" cf w0 db x w1 fuel "Inr u" db' w'] assms(1,3,4) rv q
    by simp
qed

text \<open>Heights start at 1.\<close>

definition from_first :: "idx_db \<Rightarrow> bool" where
  "from_first db \<longleftrightarrow> db_wf db \<and> 0 \<le> latest_block_indexed db \<and> (\<forall>n\<in>block_numbers db. 1 \<le> n)"

interpretation first_poll: poll_invariant ev cf from_first "\<lambda>n _. 1 \<le> n" hi for ev cf hi
proof
  fix db n and now :: int
  assume a: "from_first db"
  then have wf: "db_wf db" by (simp add: from_first_def)
  have "block_numbers (handleReorg (addr_db ev) now n db) \<subseteq> block_numbers db" by (auto simp: block_numbers_def reorg_tables(1) [OF wf])
  moreover have "0 \<le> latest_block_indexed (handleReorg (addr_db ev) now n db)"
    using a by (auto simp: reorg_cursor [OF wf] getBlock_None from_first_def)
  ultimately show "from_first (handleReorg (addr_db ev) now n db)"
    using a by (auto simp: from_first_def db_wf_reorg)
next
  fix db and hc :: "(string, history_cache_entry) amap"
  assume "from_first db"
  then show "from_first (db\<lparr>historyCache := hc\<rparr>)" by (simp add: from_first_def block_numbers_def)
next
  fix db
  assume "from_first db"
  moreover have "latest_block_indexed (markBlocksConfirmed hi db) = latest_block_indexed db" by (simp add: markBlocksConfirmed_def)
  ultimately show "from_first (markBlocksConfirmed hi db)" by (simp add: from_first_def db_wf_confirm confirm_numbers)
next
  fix db n b now c ps u db'
  assume f: "from_first db" and n: "1 \<le> n" and cm: "commit_block (addr_db ev) now n b c ps db = (Inr u, db')"
  then have wf: "db_wf db" by (simp add: from_first_def)
  show "from_first db' \<and> 1 \<le> n + 1"
    using f n commit_cursor [OF cm] block_numbers_commit [OF cm wf] commit_succeeded(1) [OF wf cm] by (auto simp: from_first_def)
qed (auto simp: from_first_def)

section \<open>Progress\<close>

text \<open>
  The rows of the aggregates (protocol metrics, lock activity) are kept one per period, and a row of another period with the
  same transaction hash and log index makes the insert fail. \<open>E tx l e\<close> reads: the chain has event \<open>e\<close> at position \<open>l\<close> of
  transaction \<open>tx\<close>.
\<close>

type_synonym event_source = "string \<Rightarrow> nat \<Rightarrow> event_body \<Rightarrow> bool"

definition identified :: "event_source \<Rightarrow> bool" where
  "identified E \<longleftrightarrow> (\<forall>tx l e e'. E tx l e \<and> E tx l e' \<longrightarrow> e = e')"

definition metrics_known :: "event_source \<Rightarrow> metrics_data event_row \<Rightarrow> bool" where
  "metrics_known E r \<longleftrightarrow> (\<exists>a v c. E (r_tx r) (r_log r) (TransparencyProtocolMetrics (md_start (r_data r)) (md_end (r_data r)) a v c))"

definition lock_known :: "event_source \<Rightarrow> lock_data event_row \<Rightarrow> bool" where
  "lock_known E r \<longleftrightarrow> (\<exists>s c a f ov u. E (r_tx r) (r_log r) (TransparencyLockActivity (lk_start (r_data r)) (lk_end (r_data r)) s c a f ov u))"

definition agg_known :: "event_source \<Rightarrow> idx_db \<Rightarrow> bool" where
  "agg_known E db \<longleftrightarrow> (\<forall>r\<in>set (transparency_metrics db). metrics_known E r) \<and> (\<forall>r\<in>set (transparency_locks db). lock_known E r)"

lemma agg_known_mono:
  "agg_known E db \<Longrightarrow> set (transparency_metrics db') \<subseteq> set (transparency_metrics db) \<Longrightarrow>
   set (transparency_locks db') \<subseteq> set (transparency_locks db) \<Longrightarrow> agg_known E db'"
  by (auto simp: agg_known_def)

lemma upsert_subset: "upsert_period per bs row rows = Inr rows' \<Longrightarrow> set rows' \<subseteq> insert row (set rows)"
  by (auto simp: upsert_period_def split: option.splits if_splits)

lemma upsert_accepted:
  assumes "\<And>r. r \<in> set rows \<Longrightarrow> r_tx r = r_tx row \<Longrightarrow> r_log r = r_log row \<Longrightarrow> per (r_data r) = per (r_data row)"
    and "list_ex (\<lambda>b. bl_number b = r_block row) bs"
  shows "\<exists>rows'. upsert_period per bs row rows = Inr rows'"
proof (cases "find (\<lambda>r. per (r_data r) = per (r_data row)) rows")
  case None
  then have "\<not> list_ex (\<lambda>r. r_tx r = r_tx row \<and> r_log r = r_log row) rows"
    using assms(1) by (auto simp: find_None_iff list_ex_iff)
  with None assms(2) show ?thesis by (simp add: upsert_period_def)
next
  case (Some old)
  have "\<not> list_ex (\<lambda>r. per (r_data r) \<noteq> per (r_data row) \<and> r_tx r = r_tx row \<and> r_log r = r_log row) rows"
    using assms(1) by (auto simp: list_ex_iff)
  with Some assms(2) show ?thesis by (simp add: upsert_period_def)
qed

lemma insert_refused: "insert_or_ignore (blocks db) row rows = Inl e \<Longrightarrow> r_block row \<notin> block_numbers db"
  unfolding insert_or_ignore_def block_mem block_numbers_def by (simp split: if_splits)

lemma touch_aggs [simp]:
  "transparency_metrics (touch_parties ap now a b n db) = transparency_metrics db"
  "transparency_locks (touch_parties ap now a b n db) = transparency_locks db"
  by (simp_all add: touch_parties_def invalidateHistoryCache_def updateAccountSnapshot_def Let_def)

lemma metrics_row_known:
  "metrics_known E (event_row_of n tx l ts \<lparr>md_start = ps, md_end = pe, md_accounts = ac, md_volume = vs, md_transfers = c\<rparr>)
   \<longleftrightarrow> (\<exists>a v c. E tx l (TransparencyProtocolMetrics ps pe a v c))"
  by (simp add: metrics_known_def event_row_of_def)

lemma lock_row_known:
  "lock_known E (event_row_of n tx l ts \<lparr>lk_start = ps, lk_end = pe, lk_set = s, lk_cleared = c, lk_active = a, lk_filed = f,
      lk_overturned = ov, lk_upheld = u\<rparr>) \<longleftrightarrow> (\<exists>s c a f ov u. E tx l (TransparencyLockActivity ps pe s c a f ov u))"
  by (simp add: lock_known_def event_row_of_def)

lemma storeEvent_known:
  assumes "agg_known E db" "E tx l e"
  shows "agg_known E (snd (storeEvent ap now e n tx l ts db))"
proof (cases e)
  case (TransparencyProtocolMetrics ps pe a v c)
  then have k: "metrics_known E (event_row_of n tx l ts \<lparr>md_start = ps, md_end = pe, md_accounts = a, md_volume = dec_int v, md_transfers = c\<rparr>)"
    using assms(2) unfolding metrics_row_known by blast
  have "agg_known E (db\<lparr>transparency_metrics := rows\<rparr>)" if "upsert_period metrics_period (blocks db) (event_row_of n tx l ts
      \<lparr>md_start = ps, md_end = pe, md_accounts = a, md_volume = dec_int v, md_transfers = c\<rparr>) (transparency_metrics db) = Inr rows" for rows
    using assms(1) upsert_subset [OF that] k by (auto simp: agg_known_def)
  then show ?thesis using assms(1) TransparencyProtocolMetrics by (simp add: insertTransparencyProtocolMetrics_def split: sum.split)
next
  case (TransparencyLockActivity ps pe s c a f ov u)
  then have k: "lock_known E (event_row_of n tx l ts \<lparr>lk_start = ps, lk_end = pe, lk_set = s, lk_cleared = c, lk_active = a, lk_filed = f,
      lk_overturned = ov, lk_upheld = u\<rparr>)"
    using assms(2) unfolding lock_row_known by blast
  have "agg_known E (db\<lparr>transparency_locks := rows\<rparr>)" if "upsert_period lock_period (blocks db) (event_row_of n tx l ts
      \<lparr>lk_start = ps, lk_end = pe, lk_set = s, lk_cleared = c, lk_active = a, lk_filed = f, lk_overturned = ov, lk_upheld = u\<rparr>)
      (transparency_locks db) = Inr rows" for rows
    using assms(1) upsert_subset [OF that] k by (auto simp: agg_known_def)
  then show ?thesis using assms(1) TransparencyLockActivity by (simp add: insertTransparencyLockActivity_def split: sum.split)
qed (auto intro!: agg_known_mono [OF assms(1)] simp: insert_defs Let_def invalidateHistoryCache_def updateAccountSnapshot_def split: sum.split)

lemma storeEvent_ok:
  assumes "identified E" "agg_known E db" "E tx l e" "n \<in> block_numbers db"
  shows "\<exists>db'. storeEvent ap now e n tx l ts db = (Inr (), db')"
proof -
  have mem: "list_ex (\<lambda>b. bl_number b = n) (blocks db)" using assms(4) by (auto simp: list_ex_iff block_numbers_def)
  show ?thesis
  proof (cases e)
    case (TransparencyProtocolMetrics ps pe a v c)
    let ?row = "event_row_of n tx l ts \<lparr>md_start = ps, md_end = pe, md_accounts = a, md_volume = dec_int v, md_transfers = c\<rparr>"
    have "metrics_period (r_data r) = metrics_period (r_data ?row)"
      if r: "r \<in> set (transparency_metrics db)" "r_tx r = r_tx ?row" "r_log r = r_log ?row" for r
    proof -
      obtain a' v' c' where "E (r_tx r) (r_log r) (TransparencyProtocolMetrics (md_start (r_data r)) (md_end (r_data r)) a' v' c')"
        using assms(2) r(1) unfolding agg_known_def metrics_known_def by blast
      then have "TransparencyProtocolMetrics (md_start (r_data r)) (md_end (r_data r)) a' v' c' = e"
        using assms(1,3) r(2,3) unfolding identified_def event_row_of_def by simp
      then show ?thesis using TransparencyProtocolMetrics by (simp add: metrics_period_def event_row_of_def)
    qed
    then obtain rows where "upsert_period metrics_period (blocks db) ?row (transparency_metrics db) = Inr rows"
      using upsert_accepted [of "transparency_metrics db" ?row metrics_period "blocks db"] mem by (auto simp: event_row_of_def)
    then show ?thesis using TransparencyProtocolMetrics by (simp add: insertTransparencyProtocolMetrics_def)
  next
    case (TransparencyLockActivity ps pe s c a f ov u)
    let ?row = "event_row_of n tx l ts \<lparr>lk_start = ps, lk_end = pe, lk_set = s, lk_cleared = c, lk_active = a, lk_filed = f,
      lk_overturned = ov, lk_upheld = u\<rparr>"
    have "lock_period (r_data r) = lock_period (r_data ?row)"
      if r: "r \<in> set (transparency_locks db)" "r_tx r = r_tx ?row" "r_log r = r_log ?row" for r
    proof -
      obtain s' c' a' f' ov' u' where "E (r_tx r) (r_log r) (TransparencyLockActivity (lk_start (r_data r)) (lk_end (r_data r)) s' c' a' f' ov' u')"
        using assms(2) r(1) unfolding agg_known_def lock_known_def by blast
      then have "TransparencyLockActivity (lk_start (r_data r)) (lk_end (r_data r)) s' c' a' f' ov' u' = e"
        using assms(1,3) r(2,3) unfolding identified_def event_row_of_def by simp
      then show ?thesis using TransparencyLockActivity by (simp add: lock_period_def event_row_of_def)
    qed
    then obtain rows where "upsert_period lock_period (blocks db) ?row (transparency_locks db) = Inr rows"
      using upsert_accepted [of "transparency_locks db" ?row lock_period "blocks db"] mem by (auto simp: event_row_of_def)
    then show ?thesis using TransparencyLockActivity by (simp add: insertTransparencyLockActivity_def)
  qed (use assms(4) in \<open>auto simp: insert_defs Let_def event_row_of_def split: sum.split dest!: insert_refused\<close>)
qed

lemma store_events_known:
  assumes "agg_known E db" "\<And>p. p \<in> set ps \<Longrightarrow> E (pe_tx p) (pe_log p) (pe_event p)" "store_events ap now n ts ps db = (r, db')"
  shows "agg_known E db'"
  using assms
proof (induction ps arbitrary: db)
  case (Cons p ps)
  obtain q db1 where st: "storeEvent ap now (pe_event p) n (pe_tx p) (pe_log p) ts db = (q, db1)" by fastforce
  then have "agg_known E db1" using storeEvent_known [OF Cons.prems(1) Cons.prems(2), of p ap now n ts] by simp
  with Cons st show ?case by (cases q) auto
qed simp

lemma store_events_ok:
  assumes "identified E" "agg_known E db" "\<And>p. p \<in> set ps \<Longrightarrow> E (pe_tx p) (pe_log p) (pe_event p)" "n \<in> block_numbers db"
  shows "\<exists>db'. store_events ap now n ts ps db = (Inr (), db')"
  using assms(2-)
proof (induction ps arbitrary: db)
  case (Cons p ps)
  have p: "E (pe_tx p) (pe_log p) (pe_event p)" using Cons.prems(2) by simp
  obtain db1 where st: "storeEvent ap now (pe_event p) n (pe_tx p) (pe_log p) ts db = (Inr (), db1)"
    using storeEvent_ok [OF assms(1) Cons.prems(1) p Cons.prems(3)] by blast
  have "n \<in> block_numbers db1"
    using Cons.prems(3) same_chain_storeEvent [of db ap now "pe_event p" n "pe_tx p" "pe_log p" ts] st
    by (simp add: same_chain_def block_numbers_def)
  moreover have "agg_known E db1" using storeEvent_known [OF Cons.prems(1) p, of ap now n ts] st by simp
  ultimately show ?case using Cons st by simp
qed simp

lemma insertBlock_known: "agg_known E db \<Longrightarrow> agg_known E (insertBlock now n h p ts c db)"
  by (erule agg_known_mono) (auto simp: insertBlock_def Let_def delete_blocks_def)

lemma commit_known:
  assumes "agg_known E db" "\<And>p. p \<in> set ps \<Longrightarrow> E (pe_tx p) (pe_log p) (pe_event p)"
    and "commit_block ap now n b c ps db = (Inr u, db')"
  shows "agg_known E db'"
proof -
  obtain d where st: "store_events ap now n (cb_now b) ps (insertBlock now n (cb_hash b) (cb_parent b) (cb_now b) c db) = (Inr (), d)"
    and db': "db' = updateLatestBlock now n (cb_now b) d"
    using assms(3) by (auto simp: commit_block_def transaction_def split: prod.splits sum.splits)
  have "agg_known E d" by (rule store_events_known [OF insertBlock_known [OF assms(1)] assms(2) st])
  then show ?thesis by (simp add: db' agg_known_def updateLatestBlock_def)
qed

lemma commit_ok:
  assumes "identified E" "agg_known E db" "\<And>p. p \<in> set ps \<Longrightarrow> E (pe_tx p) (pe_log p) (pe_event p)"
  shows "\<exists>db'. commit_block ap now n b c ps db = (Inr (), db')"
proof -
  have "n \<in> block_numbers (insertBlock now n (cb_hash b) (cb_parent b) (cb_now b) c db)"
    by (simp add: block_numbers_def insertBlock_chain block_row_of_def)
  from store_events_ok [OF assms(1) insertBlock_known [OF assms(2)] assms(3) this] obtain d
    where "store_events ap now n (cb_now b) ps (insertBlock now n (cb_hash b) (cb_parent b) (cb_now b) c db) = (Inr (), d)" by blast
  then show ?thesis by (simp add: commit_block_def transaction_def)
qed

text \<open>The events the chain interface gives, whenever and for whatever block it is asked.\<close>

definition chain_event :: "('w, 'c) idx_env \<Rightarrow> idx_config \<Rightarrow> event_source" where
  "chain_event ev cf tx l e \<longleftrightarrow> (\<exists>n v b v1 txs v2. getBlockByNumber ev n v = (Inr b, v1) \<and> fetchBlockTransactions ev cf n v1 = (Inr txs, v2)
     \<and> (\<exists>p\<in>set (collectBlockEvents ev cf txs n (cb_now b)). pe_tx p = tx \<and> pe_log p = l \<and> pe_event p = e))"

interpretation agg_poll: poll_invariant ev cf "\<lambda>db. db_wf db \<and> agg_known (chain_event ev cf) db" "\<lambda>_ _. True" hi for ev cf hi
proof
  fix db n and now :: int
  assume a: "db_wf db \<and> agg_known (chain_event ev cf) db"
  then show "db_wf (handleReorg (addr_db ev) now n db) \<and> agg_known (chain_event ev cf) (handleReorg (addr_db ev) now n db)"
    by (auto simp: db_wf_reorg reorg_tables keep_below_def intro: agg_known_mono)
next
  fix db n w b now c ps u db' w1 txs w2
  assume a: "db_wf db \<and> agg_known (chain_event ev cf) db" and cm: "commit_block (addr_db ev) now n b c ps db = (Inr u, db')"
    and src: "getBlockByNumber ev n w = (Inr b, w1)" "fetchBlockTransactions ev cf n w1 = (Inr txs, w2)"
      "ps = collectBlockEvents ev cf txs n (cb_now b)"
  have "chain_event ev cf (pe_tx p) (pe_log p) (pe_event p)" if "p \<in> set ps" for p
    unfolding chain_event_def using src that by blast
  then show "(db_wf db' \<and> agg_known (chain_event ev cf) db') \<and> True"
    using a commit_known [OF _ _ cm] commit_succeeded(1) [OF _ cm] by blast
next
  fix db
  assume "db_wf db \<and> agg_known (chain_event ev cf) db"
  moreover have "transparency_metrics (markBlocksConfirmed hi db) = transparency_metrics db"
    "transparency_locks (markBlocksConfirmed hi db) = transparency_locks db" by (simp_all add: markBlocksConfirmed_def)
  ultimately show "db_wf (markBlocksConfirmed hi db) \<and> agg_known (chain_event ev cf) (markBlocksConfirmed hi db)"
    by (simp add: db_wf_confirm agg_known_def)
qed (auto simp: agg_known_def)

lemma setHead_aggs [simp]:
  "transparency_metrics (setLatestChainSeqno n db) = transparency_metrics db"
  "transparency_locks (setLatestChainSeqno n db) = transparency_locks db"
  by (simp_all add: setLatestChainSeqno_def)

text \<open>The chain interface answers for block \<open>n\<close>: its header and its transactions.\<close>

definition answers :: "('w, 'c) idx_env \<Rightarrow> idx_config \<Rightarrow> int \<Rightarrow> bool" where
  "answers ev cf n \<longleftrightarrow> (\<forall>w. \<exists>b w1. getBlockByNumber ev n w = (Inr b, w1)
     \<and> (\<exists>txs w2. fetchBlockTransactions ev cf n w1 = (Inr txs, w2)))"

definition ready :: "('w, 'c) idx_env \<Rightarrow> idx_config \<Rightarrow> idx_db \<Rightarrow> bool" where
  "ready ev cf db \<longleftrightarrow> chain_ok ev cf db \<and> agg_known (chain_event ev cf) db"

lemma process_ok:
  assumes "answers ev cf n" "identified (chain_event ev cf)" "agg_known (chain_event ev cf) db"
  shows "\<exists>db' w'. processBlock ev cf n db w = (Inr (), db', w')"
proof -
  obtain b w1 txs w2 where a: "getBlockByNumber ev n w = (Inr b, w1)" "fetchBlockTransactions ev cf n w1 = (Inr txs, w2)"
    using assms(1) unfolding answers_def by meson
  have "chain_event ev cf (pe_tx p) (pe_log p) (pe_event p)" if "p \<in> set (collectBlockEvents ev cf txs n (cb_now b))" for p
    unfolding chain_event_def using a that by blast
  from commit_ok [OF assms(2,3) this] obtain d where
    "commit_block (addr_db ev) (env_now ev w2) n b (length txs) (collectBlockEvents ev cf txs n (cb_now b)) db = (Inr (), d)" by blast
  with a show ?thesis by (simp add: processBlock_def)
qed

lemma detect_ok: "answers ev cf n \<Longrightarrow> \<exists>q db' w'. detectAndHandleReorg ev n db w = (Inr q, db', w')"
proof -
  assume a: "answers ev cf n"
  then obtain b w1 where "getBlockByNumber ev n w = (Inr b, w1)" unfolding answers_def by meson
  then show ?thesis by (auto simp: detectAndHandleReorg_def split: option.split)
qed

lemma revalidate_ok: "list_all (answers ev cf) ns \<Longrightarrow> \<exists>r db' w'. revalidate_from ev ns db w = (Inr r, db', w')"
proof (induction ns arbitrary: db w)
  case (Cons n ns)
  then obtain q db1 w1 where "detectAndHandleReorg ev n db w = (Inr q, db1, w1)" using detect_ok [of ev cf n db w] by auto
  with Cons show ?case by (cases q) auto
qed simp

lemma ready_process:
  assumes "distinct_hashes ev" "ready ev cf db" "next_block cf n db" "processBlock ev cf n db w = (Inr (), db', w')"
  shows "ready ev cf db' \<and> next_block cf (n + 1) db'"
proof -
  have wf: "db_wf db" using assms(2) by (simp add: ready_def chain_ok_def)
  show ?thesis
    using chain_poll.process_keeps [OF _ order_refl _ assms(4)] agg_poll.process_keeps(1) [OF _ order_refl TrueI assms(4)] assms(1-3) wf
    by (simp add: ready_def)
qed

lemma ready_revalidate:
  assumes "distinct_hashes ev" "ready ev cf db" "revalidate_from ev ns db w = (r, db', w')"
  shows "ready ev cf db'"
  using chain_poll.revalidate_keeps [OF _ assms(3), of cf] agg_poll.revalidate_keeps [OF _ assms(3), of cf] assms(1,2)
  by (auto simp: ready_def chain_ok_def)

lemma range_ok:
  assumes "distinct_hashes ev" "identified (chain_event ev cf)" "ready ev cf db" "next_block cf n db" "n \<le> m + 1" "list_all (answers ev cf) [n..m]"
  shows "\<exists>db' w'. sync_blocks_in ev cf [n..m] db w = (Inr (), db', w') \<and> ready ev cf db' \<and> next_block cf (m + 1) db'"
  using assms(3-6)
proof (induction "nat (m + 1 - n)" arbitrary: n db w)
  case 0
  then have "n = m + 1" by simp
  with 0 show ?case by simp
next
  case (Suc k)
  then have ns: "[n..m] = n # [n + 1..m]" by (simp add: upto_rec1)
  have "getBlock n db = None" using Suc.prems(1,2) next_not_stored by (auto simp: ready_def chain_ok_def)
  then have d: "detectAndHandleReorg ev n db w = (Inr False, db, w)" by (simp add: detectAndHandleReorg_def)
  have "answers ev cf n" using Suc.prems(4) by (simp add: ns)
  then obtain db1 w1 where p: "processBlock ev cf n db w = (Inr (), db1, w1)" using process_ok [of ev cf n db w] assms(2) Suc.prems(1) by (auto simp: ready_def)
  have "ready ev cf db1 \<and> next_block cf (n + 1) db1" by (rule ready_process [OF assms(1) Suc.prems(1,2) p])
  then have "\<exists>db' w'. sync_blocks_in ev cf [n + 1..m] db1 w1 = (Inr (), db', w') \<and> ready ev cf db' \<and> next_block cf (m + 1) db'"
    using Suc.hyps(1) [of "n + 1" db1 w1] Suc.hyps(2) Suc.prems(4) by (simp add: ns)
  then show ?case by (simp add: ns d p)
qed

lemma batches_ok:
  assumes "distinct_hashes ev" "0 < cf_batchSize cf" "identified (chain_event ev cf)" "ready ev cf db" "next_block cf n db" "n \<le> hi + 1"
    and "list_all (answers ev cf) [n..hi]" "nat (hi + 1 - n) \<le> fuel"
  shows "\<exists>db' w'. sync_batches fuel ev cf n hi db w = Some (Inr (), db', w') \<and> ready ev cf db' \<and> next_block cf (hi + 1) db'"
  using assms(4-8)
proof (induction fuel arbitrary: n db w)
  case 0
  then have "n = hi + 1" by simp
  with 0 show ?case by simp
next
  case (Suc fuel)
  show ?case
  proof (cases "n \<le> hi")
    case False
    with Suc.prems(3) have "n = hi + 1" by simp
    with Suc.prems show ?thesis by simp
  next
    case True
    let ?m = "min (n + cf_batchSize cf - 1) hi"
    have le: "n \<le> ?m + 1" using True assms(2) by simp
    have "list_all (answers ev cf) [n..?m]" using Suc.prems(4) by (auto simp: list_all_iff)
    then obtain db1 w1 where r: "syncBlockRange ev cf n ?m db w = (Inr (), db1, w1)" and k: "ready ev cf db1" "next_block cf (?m + 1) db1"
      using range_ok [OF assms(1,3) Suc.prems(1,2) le, of w] unfolding syncBlockRange_def by blast
    show ?thesis
    proof (cases "n + cf_batchSize cf \<le> hi")
      case T: True
      then have "?m + 1 = n + cf_batchSize cf" by simp
      moreover have "list_all (answers ev cf) [n + cf_batchSize cf..hi]" using Suc.prems(4) assms(2) by (auto simp: list_all_iff)
      ultimately show ?thesis
        using Suc.IH [of db1 "n + cf_batchSize cf" w1] k True T r Suc.prems(5) assms(2) by auto
    next
      case F: False
      then have "?m = hi" by simp
      moreover have "sync_batches fuel ev cf (n + cf_batchSize cf) hi db1 w1 = Some (Inr (), db1, w1)" using F by (cases fuel) simp_all
      ultimately show ?thesis using True r k by simp
    qed
  qed
qed

lemma revalidate_cursor:
  assumes "list_all (\<lambda>n. 1 \<le> n \<and> n \<le> latest_block_indexed db) ns" "0 \<le> latest_block_indexed db"
    and "revalidate_from ev ns db w = (r, db', w')"
  shows "0 \<le> latest_block_indexed db' \<and> latest_block_indexed db' \<le> latest_block_indexed db"
  using assms
proof (induction ns arbitrary: w)
  case (Cons n ns)
  obtain q db1 w1 where d: "detectAndHandleReorg ev n db w = (q, db1, w1)" by (metis prod_cases3)
  show ?case
    using d
  proof (cases rule: detect_cases)
    case same
    with Cons d show ?thesis by (cases q) (auto split: bool.splits)
  next
    case (rolled stored b now v)
    then have "db' = handleReorg (addr_db ev) now n db" using Cons.prems(3) d by simp
    then show ?thesis using reorg_cursor_range [of n "addr_db ev" now db] Cons.prems(1) by simp
  qed
qed simp

lemma poll_ok:
  assumes "distinct_hashes ev" "0 < cf_batchSize cf" "ready ev cf db" "getLatestBlock ev w = (Some seqno, w0)"
    and "list_all (answers ev cf) [1..seqno - cf_confirmationBlocks cf]" "latest_block_indexed db \<le> seqno - cf_confirmationBlocks cf"
    and "cf_startBlock cf \<le> seqno - cf_confirmationBlocks cf" "nat (seqno - cf_confirmationBlocks cf) \<le> fuel"
    and ident: "identified (chain_event ev cf)"
  shows "\<exists>db' w'. syncBlocks fuel ev cf db w = Some (Inr (), db', w') \<and> latest_block_indexed db' = seqno - cf_confirmationBlocks cf"
proof -
  let ?hi = "seqno - cf_confirmationBlocks cf"
  let ?db0 = "setLatestChainSeqno seqno db"
  have cur: "0 \<le> latest_block_indexed db" using assms(3) by (auto simp: ready_def chain_ok_def contiguous_def)
  obtain r db1 w1 where rv: "revalidateIndexedRange ev cf (latest_block_indexed db) ?db0 w0 = (Inr r, db1, w1)"
  proof (cases "latest_block_indexed db \<le> 0")
    case False
    let ?ns = "[max 1 (latest_block_indexed db - max 1 (cf_confirmationBlocks cf) + 1)..latest_block_indexed db]"
    have "list_all (answers ev cf) ?ns" using assms(5,6) by (auto simp: list_all_iff)
    from revalidate_ok [OF this, of ?db0 w0] False show thesis by (auto simp: revalidateIndexedRange_def intro: that)
  qed (auto simp: revalidateIndexedRange_def intro: that)
  have c0: "ready ev cf ?db0" using assms(3) by (simp add: ready_def chain_ok_def contiguous_def agg_known_def setHead_aggs)
  have inner: "db1 = ?db0 \<or> (\<exists>ns. list_all (\<lambda>n. 1 \<le> n \<and> n \<le> latest_block_indexed ?db0) ns \<and> revalidate_from ev ns ?db0 w0 = (Inr r, db1, w1))"
  proof (cases "latest_block_indexed db \<le> 0")
    case False
    let ?ns = "[max 1 (latest_block_indexed db - max 1 (cf_confirmationBlocks cf) + 1)..latest_block_indexed db]"
    have "revalidate_from ev ?ns ?db0 w0 = (Inr r, db1, w1)" using rv False by (simp add: revalidateIndexedRange_def)
    moreover have "list_all (\<lambda>n. 1 \<le> n \<and> n \<le> latest_block_indexed ?db0) ?ns" by (auto simp: list_all_iff)
    ultimately show ?thesis by blast
  qed (use rv in \<open>simp add: revalidateIndexedRange_def\<close>)
  have c1: "ready ev cf db1"
    using inner ready_revalidate [OF assms(1) c0] c0 by blast
  have le: "0 \<le> latest_block_indexed db1 \<and> latest_block_indexed db1 \<le> latest_block_indexed db"
    using inner
  proof
    assume "\<exists>ns. list_all (\<lambda>n. 1 \<le> n \<and> n \<le> latest_block_indexed ?db0) ns \<and> revalidate_from ev ns ?db0 w0 = (Inr r, db1, w1)"
    then obtain ns where "list_all (\<lambda>n. 1 \<le> n \<and> n \<le> latest_block_indexed ?db0) ns" "revalidate_from ev ns ?db0 w0 = (Inr r, db1, w1)" by blast
    from revalidate_cursor [OF this(1) _ this(2)] cur show ?thesis by simp
  qed (use cur in simp)
  let ?start = "max (latest_block_indexed db1 + 1) (cf_startBlock cf)"
  show ?thesis
  proof (cases "?start > ?hi")
    case True
    then have "latest_block_indexed db1 = ?hi" using assms(6,7) le by auto
    with True assms(4) rv show ?thesis by (simp add: syncBlocks_def getLatestBlockIndexed_def)
  next
    case False
    have "list_all (answers ev cf) [?start..?hi]" using assms(5) le by (auto simp: list_all_iff)
    moreover have "nat (?hi + 1 - ?start) \<le> fuel" using assms(8) le by (auto simp: max_def nat_le_iff)
    moreover have nx: "next_block cf ?start db1" and lim: "?start \<le> ?hi + 1"
      using False by (simp add: next_block_def, linarith)
    ultimately obtain db2 w2 where b: "sync_batches fuel ev cf ?start ?hi db1 w1 = Some (Inr (), db2, w2)" "next_block cf (?hi + 1) db2"
      using batches_ok [OF assms(1,2) ident c1, of ?start ?hi fuel w1] nx lim by blast
    have "latest_block_indexed db2 = ?hi" using b(2) assms(7) by (auto simp: next_block_def max_def split: if_splits)
    with b(1) False assms(4) rv show ?thesis
      by (simp add: syncBlocks_def getLatestBlockIndexed_def markBlocksConfirmed_def)
  qed
qed

section \<open>Requests\<close>

fun transient :: "http_reply \<Rightarrow> bool" where
  "transient Net_error = True"
| "transient (Http_error s) = (500 \<le> s)"
| "transient _ = False"

fun reply_result :: "http_reply \<Rightarrow> idx_error + json" where
  "reply_result Net_error = Inl Fetch_failed"
| "reply_result (Http_error s) = Inl (Http_status s)"
| "reply_result (Http_json j) = Inr j"
| "reply_result Http_garbled = Inl Bad_body"

text \<open>A server that gives a list of answers, one per request.\<close>

definition scripted :: "(http_reply list, 'c) idx_env \<Rightarrow> bool" where
  "scripted ev \<longleftrightarrow> (\<forall>m p w. http_get ev m p w = (case w of [] \<Rightarrow> (Net_error, []) | r # rs \<Rightarrow> (r, rs)))"

lemma scripted_attempts:
  assumes "scripted ev" "0 < n" "n \<le> length w"
  shows "fetch_attempts ev m p n w =
     (let k = min (n - 1) (length (takeWhile transient w)) in (reply_result (w ! k), drop (Suc k) w))"
  using assms(2,3)
proof (induction n arbitrary: w)
  case (Suc n)
  then obtain r rs where w: "w = r # rs" by (cases w) auto
  have h: "http_get ev m p w = (r, rs)" using assms(1) by (simp add: scripted_def w)
  show ?case
  proof (cases "transient r \<and> n \<noteq> 0")
    case True
    then have "fetch_attempts ev m p (Suc n) w = fetch_attempts ev m p n rs" using h by (cases r) auto
    moreover obtain j where "n = Suc j" using True not0_implies_Suc by blast
    ultimately show ?thesis using Suc.IH [of rs] Suc.prems(2) True by (simp add: w Let_def)
  next
    case False
    then have "fetch_attempts ev m p (Suc n) w = (reply_result r, rs)" using h by (cases r) auto
    moreover have "min n (length (takeWhile transient w)) = 0" using False by (auto simp: w)
    ultimately show ?thesis by (simp add: w Let_def)
  qed
qed simp

section \<open>Paging through a shard block\<close>

text \<open>The documented answer of \<open>getBlockTransactions\<close> for a block with the transactions \<open>L\<close> after the first \<open>i\<close>.\<close>

definition page_of :: "json list \<Rightarrow> nat \<Rightarrow> json" where
  "page_of L i = JObj [(''ok'', JBool True), (''result'', JObj [(''incomplete'', JBool (length L > i + 256)), (''transactions'', JArr (take 256 (drop i L)))])]"

definition serves :: "('w, 'c) idx_env \<Rightarrow> shard_id \<Rightarrow> json list \<Rightarrow> bool" where
  "serves ev shard L \<longleftrightarrow> list_all (\<lambda>t. \<not> nullish t \<and> js_truthy (jget ''lt'' t) \<and> js_truthy (jget ''hash'' t)) L
     \<and> (\<forall>w. fst (http_get ev ''getBlockTransactions'' (page_params shard JUndef JUndef) w) = Http_json (page_of L 0))
     \<and> (\<forall>w i. i < length L \<longrightarrow> fst (http_get ev ''getBlockTransactions'' (page_params shard (jget ''lt'' (L ! i)) (jget ''hash'' (L ! i))) w)
            = Http_json (page_of L (Suc i)))"

lemma api_json: "(\<And>w. fst (http_get ev m p w) = Http_json j) \<Longrightarrow> fst (fetchTonApi ev m p w) = Inr j"
proof -
  assume "\<And>w. fst (http_get ev m p w) = Http_json j"
  then obtain w' where "http_get ev m p w = (Http_json j, w')" by (metis prod.collapse)
  then show ?thesis by (simp add: fetchTonApi_def fetchWithRetry_def numeral_3_eq_3)
qed

lemma page_of_txs:
  assumes "list_all (\<lambda>t. \<not> nullish t \<and> P t) L"
  shows "page_txs (page_of L i) = Inr (take 256 (drop i L))" "page_incomplete (page_of L i) \<longleftrightarrow> length L > i + 256"
proof -
  have "\<not> list_ex nullish (take 256 (drop i L))"
    using assms by (auto simp: list_all_iff list_ex_iff dest: in_set_takeD in_set_dropD)
  then show "page_txs (page_of L i) = Inr (take 256 (drop i L))" "page_incomplete (page_of L i) \<longleftrightarrow> length L > i + 256"
    by (simp_all add: page_txs_def page_of_def jprop_def Let_def page_incomplete_def)
qed

lemma pages_complete:
  assumes "serves ev shard L" "i \<le> length L"
    and "\<And>w. fst (http_get ev ''getBlockTransactions'' (page_params shard lt hash) w) = Http_json (page_of L i)"
  shows "fst (fetch_pages_from ev shard pages lt hash w) = Inr (map descriptor_of (take (256 * pages) (drop i L)))"
  using assms(2,3)
proof (induction pages arbitrary: i lt hash w)
  case (Suc pages)
  have L: "list_all (\<lambda>t. \<not> nullish t \<and> (js_truthy (jget ''lt'' t) \<and> js_truthy (jget ''hash'' t))) L" using assms(1) by (simp add: serves_def)
  obtain w1 where f: "fetchTonApi ev ''getBlockTransactions'' (page_params shard lt hash) w = (Inr (page_of L i), w1)"
    using api_json [OF Suc.prems(2), of w] by (metis prod.collapse)
  let ?page = "take 256 (drop i L)"
  show ?case
  proof (cases "length L > i + 256")
    case False
    then have "take (256 * Suc pages) (drop i L) = drop i L" "?page = drop i L" by simp_all
    with False f show ?thesis by (simp add: page_of_txs [OF L])
  next
    case True
    then have last: "last ?page = L ! (i + 255)" and ne: "?page \<noteq> []" by (simp_all add: last_conv_nth)
    have "fst (http_get ev ''getBlockTransactions'' (page_params shard (jget ''lt'' (last ?page)) (jget ''hash'' (last ?page))) v)
        = Http_json (page_of L (i + 256))" for v
    proof -
      have "fst (http_get ev ''getBlockTransactions'' (page_params shard (jget ''lt'' (L ! (i + 255))) (jget ''hash'' (L ! (i + 255)))) v)
          = Http_json (page_of L (Suc (i + 255)))"
        using assms(1) True unfolding serves_def by (elim conjE) (drule spec, drule spec, erule mp, simp)
      moreover have "Suc (i + 255) = i + 256" by simp
      ultimately show ?thesis unfolding last by (simp only:)
    qed
    then have IH: "fst (fetch_pages_from ev shard pages (jget ''lt'' (last ?page)) (jget ''hash'' (last ?page)) w1) =
        Inr (map descriptor_of (take (256 * pages) (drop (i + 256) L)))"
      using Suc.IH [of "i + 256"] True by simp
    moreover have "take (256 * Suc pages) (drop i L) = ?page @ take (256 * pages) (drop (i + 256) L)"
      by (simp add: take_add add.commute)
    ultimately show ?thesis using f True ne
      by (auto simp: page_of_txs [OF L] split: prod.splits)
  qed
qed simp

section \<open>A chain interface to evaluate on\<close>

text \<open>\<open>demo_chain c\<close> is a chain whose block \<open>n\<close> has the root hash \<open>c\<close> followed by the digits of \<open>n\<close>.\<close>

definition demo_reply :: "char \<Rightarrow> string \<Rightarrow> (string \<times> json) list \<Rightarrow> json" where
  "demo_reply ch meth params =
     (let n = (case map_of params ''seqno'' of Some (JNum k) \<Rightarrow> k | _ \<Rightarrow> 0);
          result =
            (if meth = ''lookupBlock'' then JObj [(''workchain'', JNum (- 1)), (''shard'', JStr ''s''), (''seqno'', JNum n)]
             else if meth = ''getBlockHeader'' then
               JObj [(''id'', JObj [(''root_hash'', JStr (ch # dec_int n))]), (''gen_utime'', JNum (10 * n))]
             else if meth = ''shards'' then
               JObj [(''shards'', JArr [JObj [(''workchain'', JNum 0), (''shard'', JStr ''8''), (''seqno'', JNum n)]])]
             else if meth = ''getBlockTransactions'' then
               JObj [(''incomplete'', JBool False),
                     (''transactions'', JArr [JObj [(''account'', JStr ''hub''), (''lt'', JStr ''1''), (''hash'', JStr (CHR ''t'' # dec_int n))]])]
             else JArr [JObj [(''in_msg'', JObj [(''destination'', JStr ''hub'')]),
                              (''out_msgs'', JArr [JObj [(''destination'', JStr []), (''msg_data'', JObj [(''body'', JStr ''abcde'')])]])]])
      in JObj [(''ok'', JBool True), (''result'', result)])"

definition demo_chain :: "char \<Rightarrow> (unit, int list) idx_env" where
  "demo_chain ch = \<lparr>http_get = (\<lambda>m p w. (Http_json (demo_reply ch m p), w)), masterchainInfo = (\<lambda>w. (Some (JObj [(''latestSeqno'', JNum 5)]), w)),
     addr_db = Some, addr_std = Some, addr_raw = Some, env_slices = int_slices, env_now = (\<lambda>_. 0)\<rparr>"

definition demo_cf :: idx_config where
  "demo_cf = \<lparr>cf_network = ''testnet'', cf_tonApiEndpoint = ''https://testnet'', cf_tonApiKey = None,
     cf_paymentHub = ''hub'', cf_merchantPaymentHub = [], cf_nftCollections = [], cf_transparencyRegistry = [],
     cf_databasePath = ''indexer.db'', cf_startBlock = 1, cf_pollIntervalMs = 5000, cf_batchSize = 1, cf_confirmationBlocks = 3,
     cf_redis = None, cf_port = 3000, cf_host = ''0.0.0.0'', cf_trustProxy = False, cf_trustedProxyCount = 0,
     cf_rateWindowMs = 60000, cf_rateMaxRequests = 100, cf_logLevel = ''info'', cf_logPretty = True\<rparr>"

abbreviation demo_env :: "(unit, int list) idx_env" where
  "demo_env \<equiv> demo_chain CHR ''h''"

lemma demo_fetch: "fetchTonApi (demo_chain ch) m p w = (Inr (demo_reply ch m p), w)"
  by (simp add: fetchTonApi_def fetchWithRetry_def numeral_3_eq_3 demo_chain_def)

lemma demo_block:
  "getBlockByNumber (demo_chain ch) n w = (Inr \<lparr>cb_hash = ch # dec_int n, cb_parent = [], cb_now = 10 * n\<rparr>, w)"
  by (simp add: getBlockByNumber_def demo_fetch demo_reply_def api_result_def jprop_def Let_def block_of_header_def js_or_def first_prev_def)

lemma demo_hashes: "distinct_hashes (demo_chain ch)"
  by (auto simp: distinct_hashes_def demo_block)

lemma demo_steady: "steady (demo_chain ch)"
  by (simp add: steady_def demo_chain_def)

definition demo_tx :: "int \<Rightarrow> json" where
  "demo_tx n = JObj [(''in_msg'', JObj [(''destination'', JStr ''hub'')]),
     (''out_msgs'', JArr [JObj [(''destination'', JStr []), (''msg_data'', JObj [(''body'', JStr ''abcde'')])]]),
     (''destination'', JStr ''hub''), (''hash'', JStr (CHR ''t'' # dec_int n))]"

lemma demo_txs: "fetchBlockTransactions (demo_chain ch) demo_cf n () = (Inr [demo_tx n], ())"
proof -
  have tr: "trackedByRaw (demo_chain ch) demo_cf = [(''hub'', ''hub'')]" "trackedAddresses demo_cf = [''hub'']"
    by (simp_all add: trackedByRaw_def trackedAddresses_def demo_cf_def toRawAddress_def demo_chain_def)
  have pages: "fetch_pages_from (demo_chain ch) s (Suc k) JUndef JUndef () =
      (Inr [\<lparr>ds_account = JStr ''hub'', ds_lt = JStr ''1'', ds_hash = JStr (CHR ''t'' # dec_int n)\<rparr>], ())" if "sh_seqno s = JNum n" for s k
    using that by (simp add: demo_fetch demo_reply_def Let_def page_params_def page_txs_def jprop_def nullish_def page_incomplete_def descriptor_of_def)
  obtain k where k: "MAX_BLOCK_TX_PAGES = Suc k" by (metis MAX_BLOCK_TX_PAGES_def numeral_eq_Suc)
  have ds: "fetchBlockTransactionDescriptors (demo_chain ch) s () =
      (Inr [\<lparr>ds_account = JStr ''hub'', ds_lt = JStr ''1'', ds_hash = JStr (CHR ''t'' # dec_int n)\<rparr>], ())" if "sh_seqno s = JNum n" for s
    unfolding fetchBlockTransactionDescriptors_def k by (rule pages [OF that])
  have raw: "toRawAddress (demo_chain ch) (JStr a) = Some a" for a by (simp add: toRawAddress_def demo_chain_def)
  have "fetchTransactionByCursor (demo_chain ch) ''hub'' lt h () = (Some (JObj [(''in_msg'', JObj [(''destination'', JStr ''hub'')]),
      (''out_msgs'', JArr [JObj [(''destination'', JStr []), (''msg_data'', JObj [(''body'', JStr ''abcde'')])]])]), ())" for lt h
    by (simp add: fetchTransactionByCursor_def demo_fetch demo_reply_def Let_def)
  then have "resolve_descriptors (demo_chain ch) [(''hub'', ''hub'')]
      [\<lparr>ds_account = JStr ''hub'', ds_lt = JStr ''1'', ds_hash = JStr (CHR ''t'' # dec_int n)\<rparr>] () = ([demo_tx n], ())"
    by (simp add: raw amap_get_def tag_transaction_def js_or_def demo_tx_def)
  moreover have "getBlockShards (demo_chain ch) n () = ([\<lparr>sh_workchain = JNum 0, sh_shard = JStr ''8'', sh_seqno = JNum n\<rparr>], ())"
    by (simp add: getBlockShards_def demo_fetch demo_reply_def Let_def nullish_def shard_of_def)
  ultimately show ?thesis by (simp add: fetchBlockTransactions_def tr ds)
qed

lemma demo_events:
  "collectBlockEvents (demo_chain ch) demo_cf [demo_tx n] n ts =
     [\<lparr>pe_event = InternalTransfer ''98'' ''99'' 100 (hash256 101), pe_tx = CHR ''t'' # dec_int n, pe_log = 0\<rparr>]"
proof -
  have tr: "trackedAddresses demo_cf = [''hub'']" by code_simp
  have addr: "dec_int 98 = ''98''" "dec_int 99 = ''99''" by code_simp+
  have env: "env_slices (demo_chain ch) = int_slices" "normalizeAddress (demo_chain ch) ''hub'' = ''hub''"
    by (simp_all add: demo_chain_def normalizeAddress_def)
  have parse: "parseTransaction int_slices (demo_tx n) ''hub'' n ts =
      [(\<lparr>be_blockNumber = n, be_transactionHash = CHR ''t'' # dec_int n, be_timestamp = ts, be_logIndex = 0\<rparr>, InternalTransfer ''98'' ''99'' 100 (hash256 101))]"
    using addr by (simp add: parseTransaction_def demo_tx_def nullish_or_def parseOutMessage_def message_body_def Let_def int_slices_def ld_def
        route_message_def isExternalOut_def decodeInternalTransferEvent_def)
  show ?thesis
    unfolding collectBlockEvents_def collect_transaction_def Let_def env
    by (simp add: tr env parse getTransactionDestination_def getTransactionHash_def js_or_def) (simp add: demo_tx_def env parse [unfolded demo_tx_def])
qed

lemma demo_answers: "answers (demo_chain ch) demo_cf n"
  by (simp add: answers_def demo_block demo_txs)

lemma demo_identified: "identified (chain_event (demo_chain ch) demo_cf)"
  by (auto simp: identified_def chain_event_def demo_block demo_txs demo_events)

section \<open>Properties\<close>

text \<open>The databases that polls produce, whatever the chain interface answers and wherever a poll fails.\<close>

inductive polled_db :: "('w, 'c) idx_env \<Rightarrow> idx_config \<Rightarrow> idx_db \<Rightarrow> bool" for ev cf where
  fresh: "polled_db ev cf empty_db"
| poll: "polled_db ev cf db \<Longrightarrow> syncBlocks fuel ev cf db w = Some (r, db', w') \<Longrightarrow> polled_db ev cf db'"

lemma poll_cases:
  assumes "syncBlocks fuel ev cf db w = Some (r, db', w')"
  obtains (skip) "db' = db" | (sync) hi where "fst (getLatestBlock ev w) = Some (hi + cf_confirmationBlocks cf)"
proof (cases "getLatestBlock ev w")
  case (Pair h w0)
  then show thesis
  proof (cases h)
    case None
    with assms Pair show thesis by (intro skip) (simp add: syncBlocks_def)
  next
    case (Some seqno)
    with Pair show thesis by (intro sync [of "seqno - cf_confirmationBlocks cf"]) simp
  qed
qed

lemma polled_wf: "polled_db ev cf db \<Longrightarrow> db_wf db"
proof (induction rule: polled_db.induct)
  case (poll db fuel w r db' w')
  from poll(2) show ?case
    by (cases rule: poll_cases) (use poll wf_poll.poll_keeps in \<open>auto\<close>)
qed (rule db_wf_empty)

lemma polled_flags: "polled_db ev cf db \<Longrightarrow> flags_sound (cf_confirmationBlocks cf) db"
proof (induction rule: polled_db.induct)
  case fresh
  then show ?case by (simp add: flags_sound_def db_wf_empty) (simp add: empty_db_def)
next
  case (poll db fuel w r db' w')
  from poll(2) show ?case
  proof (cases rule: poll_cases)
    case (sync hi)
    have "flags_at cf hi (setLatestChainSeqno (hi + cf_confirmationBlocks cf) db)"
      using poll(3) confirmed_mono by (fastforce simp: flags_at_def flags_sound_def)
    from flag_poll.poll_keeps [OF this sync poll(2)] show ?thesis by (simp add: flags_at_def)
  qed (use poll in simp)
qed

lemma polled_chain: "polled_db ev cf db \<Longrightarrow> distinct_hashes ev \<Longrightarrow> chain_ok ev cf db"
proof (induction rule: polled_db.induct)
  case fresh
  show ?case by (simp add: chain_ok_def contiguous_def db_wf_empty) (simp add: empty_db_def block_numbers_def)
next
  case (poll db fuel w r db' w')
  from poll(2) show ?case
  proof (cases rule: poll_cases)
    case (sync hi)
    have "distinct_hashes ev \<longrightarrow> chain_ok ev cf (setLatestChainSeqno (hi + cf_confirmationBlocks cf) db)"
      using poll(3) by (simp add: chain_ok_def contiguous_def)
    from chain_poll.poll_keeps [OF this sync poll(2)] poll(4) show ?thesis by simp
  qed (use poll in simp)
qed

lemma polled_known: "polled_db ev cf db \<Longrightarrow> agg_known (chain_event ev cf) db"
proof (induction rule: polled_db.induct)
  case fresh
  show ?case by (simp add: agg_known_def empty_db_def)
next
  case (poll db fuel w r db' w')
  from poll(2) show ?case
  proof (cases rule: poll_cases)
    case (sync hi)
    have "db_wf (setLatestChainSeqno (hi + cf_confirmationBlocks cf) db) \<and>
        agg_known (chain_event ev cf) (setLatestChainSeqno (hi + cf_confirmationBlocks cf) db)"
      using poll(3) polled_wf [OF poll(1)] by (simp add: agg_known_def)
    from agg_poll.poll_keeps [OF this sync poll(2)] show ?thesis by simp
  qed (use poll in simp)
qed

lemma polled_ready: "polled_db ev cf db \<Longrightarrow> distinct_hashes ev \<Longrightarrow> ready ev cf db"
  by (simp add: ready_def polled_chain polled_known)

text \<open>
  C14. A block is indexed whole or not at all. When \<open>processBlock\<close> throws, for whatever reason, the
  database is as it was, except that some cached histories may have been dropped. When it returns,
  the block is stored with the hash the chain gave, the cursor is on it, and every event of its
  fetched transactions is stored (an aggregate as its period's row, or a newer one of that period).
\<close>

theorem block_commit_atomic:
  assumes "polled_db ev cf db" "processBlock ev cf n db w = (r, db', w')"
  shows "case r of
      Inl e \<Rightarrow> db' = db\<lparr>historyCache := historyCache db'\<rparr> \<and> set (historyCache db') \<subseteq> set (historyCache db)
    | Inr _ \<Rightarrow> latest_block_indexed db' = n \<and>
        (\<exists>b w1 txs w2. getBlockByNumber ev n w = (Inr b, w1) \<and> fetchBlockTransactions ev cf n w1 = (Inr txs, w2)
           \<and> map_option bl_hash (getBlock n db') = Some (cb_hash b)
           \<and> list_all (\<lambda>p. event_stored n (pe_event p) (pe_tx p) (pe_log p) db') (collectBlockEvents ev cf txs n (cb_now b)))"
  using assms(2)
proof (cases rule: processBlock_cases)
  case (failed b now c ps e)
  then show ?thesis using commit_failed [OF failed(2)] by simp
next
  case (stored b now w1 w2 txs)
  note wf = polled_wf [OF assms(1)]
  note ok = commit_succeeded [OF wf stored(4)]
  have "getBlock n db' = Some (block_row_of now n b (length txs))"
    using getBlock_unique [OF ok(1), of "block_row_of now n b (length txs)"] ok(4) by (simp add: block_row_of_def)
  then have "map_option bl_hash (getBlock n db') = Some (cb_hash b)" by (simp add: block_row_of_def)
  with stored ok(2,5) show ?thesis by simp
qed simp

lemma demo_head: "fst (getLatestBlock (demo_chain ch) w) = Some 5"
  by (simp add: getLatestBlock_def demo_chain_def extractLatestSeqno_def)

lemma demo_poll:
  "\<exists>db'. syncBlocks 2 demo_env demo_cf empty_db () = Some (Inr (), db', ()) \<and> latest_block_indexed db' = 2 \<and> polled_db demo_env demo_cf db'"
proof -
  have "ready demo_env demo_cf empty_db" by (rule polled_ready [OF fresh demo_hashes])
  moreover have "getLatestBlock demo_env () = (Some 5, ())" using demo_head by (simp add: prod_eq_iff)
  moreover have "list_all (answers demo_env demo_cf) [1..5 - cf_confirmationBlocks demo_cf]"
    using demo_answers by (simp add: list_all_iff)
  moreover have "0 < cf_batchSize demo_cf" "latest_block_indexed empty_db \<le> 5 - cf_confirmationBlocks demo_cf"
    "cf_startBlock demo_cf \<le> 5 - cf_confirmationBlocks demo_cf" "nat (5 - cf_confirmationBlocks demo_cf) \<le> 2" "5 - cf_confirmationBlocks demo_cf = 2"
    by (simp_all add: demo_cf_def empty_db_def)
  ultimately obtain db' where "syncBlocks 2 demo_env demo_cf empty_db () = Some (Inr (), db', ())" "latest_block_indexed db' = 2"
    using poll_ok [OF demo_hashes, where cf = demo_cf and db = empty_db and w = "()" and seqno = 5 and ?w0.0 = "()" and fuel = 2] demo_identified by auto
  moreover from this(1) have "polled_db demo_env demo_cf db'" by (rule polled_db.poll [OF fresh])
  ultimately show ?thesis by blast
qed

lemma demo_process: "\<exists>db' w'. processBlock demo_env demo_cf 1 empty_db w = (Inr (), db', w')"
  by (rule process_ok [OF demo_answers demo_identified polled_known [OF fresh]])

theorem block_commit_atomic_witness:
  "\<exists>db'. processBlock demo_env demo_cf 1 empty_db () = (Inr (), db', ()) \<and> latest_block_indexed db' = 1 \<and> has_row ''t1'' 0 (internal_transfers db')"
proof -
  obtain db' where p: "processBlock demo_env demo_cf 1 empty_db () = (Inr (), db', ())" using demo_process by auto
  have "CHR ''t'' # dec_int 1 = ''t1''" by code_simp
  with block_commit_atomic [OF fresh p] p show ?thesis by (auto simp: demo_block demo_txs demo_events)
qed

text \<open>
  C15. The indexed blocks are contiguous. If blocks of different height have different root hashes,
  then after any number of polls the stored blocks are exactly those from the start block (or 1) to
  the cursor, and a cursor of 0 means that none is stored: no block is ever skipped, whatever
  requests fail and whatever the chain reorganises.
\<close>

theorem polls_contiguous:
  assumes "polled_db ev cf db" "distinct_hashes ev"
  shows "block_numbers db = {max 1 (cf_startBlock cf)..latest_block_indexed db}
    \<and> (latest_block_indexed db = 0 \<or> max 1 (cf_startBlock cf) \<le> latest_block_indexed db)"
  using polled_chain [OF assms] by (simp add: chain_ok_def contiguous_def)

theorem polls_contiguous_witness:
  "\<exists>db'. syncBlocks 2 demo_env demo_cf empty_db () = Some (Inr (), db', ()) \<and> block_numbers db' = {1..2}"
proof -
  obtain db' where db': "syncBlocks 2 demo_env demo_cf empty_db () = Some (Inr (), db', ())" "latest_block_indexed db' = 2" "polled_db demo_env demo_cf db'"
    using demo_poll by blast
  have "cf_startBlock demo_cf = 1" by (simp add: demo_cf_def)
  with polls_contiguous [OF db'(3) demo_hashes] db' show ?thesis by simp
qed

text \<open>
  A poll stays within the confirmed chain. The blocks after a poll are among those before it
  and those at least \<open>confirmationBlocks\<close> below the head it was given, and a stored block is
  flagged as confirmed only if the canonical predicate confirms it at the recorded head.
\<close>

theorem poll_within_confirmed:
  assumes "polled_db ev cf db" "fst (getLatestBlock ev w) = Some seqno" "syncBlocks fuel ev cf db w = Some (r, db', w')"
  shows "block_numbers db' \<subseteq> block_numbers db \<union> {..seqno - cf_confirmationBlocks cf}
    \<and> list_all (\<lambda>b. bl_confirmed b \<longrightarrow> isBlockConfirmed (latest_chain_seqno db') (bl_number b) (cf_confirmationBlocks cf)) (blocks db')"
proof -
  let ?hi = "seqno - cf_confirmationBlocks cf"
  have "within_bound (block_numbers db) ?hi (setLatestChainSeqno (?hi + cf_confirmationBlocks cf) db)"
    using polled_wf [OF assms(1)] by (auto simp: within_bound_def)
  from bound_poll.poll_keeps [OF this _ assms(3)] assms(2) have "within_bound (block_numbers db) ?hi db'" by simp
  moreover have "flags_sound (cf_confirmationBlocks cf) db'" by (rule polled_flags [OF polled_db.poll [OF assms(1,3)]])
  ultimately show ?thesis by (simp add: within_bound_def flags_sound_def list_all_iff)
qed

theorem poll_within_confirmed_witness:
  "\<exists>db'. syncBlocks 2 demo_env demo_cf empty_db () = Some (Inr (), db', ()) \<and> block_numbers db' \<subseteq> {..2}"
proof -
  obtain db' where db': "syncBlocks 2 demo_env demo_cf empty_db () = Some (Inr (), db', ())" using demo_poll by blast
  have "cf_confirmationBlocks demo_cf = 3" "block_numbers empty_db = {}" by (simp_all add: demo_cf_def block_numbers_def empty_db_def)
  with poll_within_confirmed [OF fresh demo_head db'] db' show ?thesis by simp
qed

text \<open>
  C16. Reorganisations are repaired. Whatever the chain interface \<open>ev0\<close> answered while the database was filled, in any
  number of polls, a poll that returns and is answered the same way for its own duration, by \<open>ev\<close>, leaves only canonical blocks in
  the trailing window: every stored block less than \<open>confirmationBlocks\<close> below the old cursor (less than 1 where that is 0), and every block
  above it, has the root hash that \<open>ev\<close> gives for its height. In particular the
  stored blocks of a fork that \<open>ev\<close> no longer follows have been replaced there.
\<close>

theorem poll_repairs_window:
  assumes "polled_db ev0 cf db" "distinct_hashes ev0" "steady ev" "fst (getLatestBlock ev w) = Some seqno"
    and "syncBlocks fuel ev cf db w = Some (Inr u, db', w')"
    and "x \<in> set (blocks db')" "bl_number x > latest_block_indexed db - max 1 (cf_confirmationBlocks cf)"
  shows "\<exists>b. fst (getBlockByNumber ev (bl_number x) w) = Inr b \<and> cb_hash b = bl_hash x"
proof -
  note chain = polled_chain [OF assms(1,2)]
  obtain w0 where w0: "getLatestBlock ev w = (Some seqno, w0)" using assms(4) by (metis prod.collapse)
  have "from_first (setLatestChainSeqno seqno db)"
    using chain by (auto simp: chain_ok_def contiguous_def from_first_def)
  then have "from_first db'"
    using first_poll.poll_keeps [of "seqno - cf_confirmationBlocks cf" cf db ev w fuel "Inr u" db' w'] assms(4,5) by simp
  then have "1 \<le> bl_number x" using assms(6) by (simp add: from_first_def block_numbers_def)
  then have "max 1 (latest_block_indexed db - max 1 (cf_confirmationBlocks cf) + 1) \<le> bl_number x" using assms(7) by simp
  then have "canonical_block ev w x"
    using window_repaired [OF assms(3) chain w0 assms(5)] assms(6) by (simp add: canonical_from_def)
  then show ?thesis by (simp add: canonical_block_def)
qed

text \<open>A database filled from the chain \<open>h\<close>, polled from the chain \<open>g\<close>: both blocks are rolled back and indexed again.\<close>

lemma demo_no_aggregates: "agg_known (chain_event demo_env demo_cf) db \<Longrightarrow> transparency_metrics db = [] \<and> transparency_locks db = []"
  by (cases "transparency_metrics db"; cases "transparency_locks db")
    (auto simp: agg_known_def metrics_known_def lock_known_def chain_event_def demo_block demo_txs demo_events)

lemma fork_poll:
  assumes "polled_db demo_env demo_cf db" "latest_block_indexed db = 2" "list_all (\<lambda>x. bl_hash x = CHR ''h'' # dec_int (bl_number x)) (blocks db)"
  shows "\<exists>db'. syncBlocks 2 (demo_chain CHR ''g'') demo_cf db () = Some (Inr (), db', ())"
proof -
  let ?ev = "demo_chain CHR ''g''"
  let ?db0 = "setLatestChainSeqno 5 db"
  define db1 where "db1 = handleReorg (addr_db ?ev) (env_now ?ev ()) 1 ?db0"
  have wf: "db_wf ?db0" and nums: "block_numbers ?db0 = {1..2}"
    using polled_chain [OF assms(1) demo_hashes] assms(2) by (auto simp: chain_ok_def contiguous_def demo_cf_def)
  then obtain x where x: "getBlock 1 ?db0 = Some x" using getBlock_None [of 1 ?db0] by fastforce
  then have "x \<in> set (blocks ?db0)" "bl_number x = 1" unfolding getBlock_def using find_SomeD by fastforce+
  then have "bl_hash x = CHR ''h'' # dec_int 1" using assms(3) by (auto simp: list_all_iff)
  then have d: "detectAndHandleReorg ?ev 1 ?db0 () = (Inr True, db1, ())"
    by (simp add: detectAndHandleReorg_def x demo_block db1_def)
  have "[1..2] = [1, 2 :: int]" by (simp add: upto.simps)
  then have rv: "revalidateIndexedRange ?ev demo_cf 2 ?db0 () = (Inr (Some 1), db1, ())"
    by (simp add: revalidateIndexedRange_def demo_cf_def d)
  have "1 \<le> bl_number y" if "y \<in> set (blocks ?db0)" for y
  proof -
    have "bl_number y \<in> block_numbers ?db0" using that unfolding block_numbers_def by (rule imageI)
    then show ?thesis using nums by simp
  qed
  then have none: "blocks db1 = []"
    by (force simp: db1_def reorg_tables(1) [OF wf] filter_empty_conv)
  then have cur: "latest_block_indexed db1 = 0"
    using reorg_cursor [OF wf] nums getBlock_None [of 0 ?db0] by (simp add: db1_def)
  have "agg_known (chain_event ?ev demo_cf) db1"
    using demo_no_aggregates [OF polled_known [OF assms(1)]]
    by (simp add: agg_known_def db1_def reorg_tables [OF wf] keep_below_def)
  then have rd: "ready ?ev demo_cf db1"
    using none cur db_wf_reorg [OF wf] by (simp add: ready_def chain_ok_def contiguous_def block_numbers_def db1_def demo_cf_def)
  have "list_all (answers ?ev demo_cf) [1..2]" using demo_answers by (simp add: list_all_iff)
  then obtain db2 w2 where "sync_batches 2 ?ev demo_cf 1 2 db1 () = Some (Inr (), db2, w2)"
    using batches_ok [OF demo_hashes _ demo_identified rd, of 1 2 2 "()"] cur by (auto simp: next_block_def demo_cf_def)
  moreover have "getLatestBlock ?ev () = (Some 5, ())" using demo_head by (simp add: prod_eq_iff)
  moreover have "cf_startBlock demo_cf = 1" "cf_confirmationBlocks demo_cf = 3" by (simp_all add: demo_cf_def)
  ultimately show ?thesis using rv cur assms(2) by (simp add: syncBlocks_def getLatestBlockIndexed_def)
qed

lemma window_all:
  assumes "polled_db ev cf db" "distinct_hashes ev" "latest_block_indexed db0 - max 1 (cf_confirmationBlocks cf) < 1" "x \<in> set (blocks db)"
  shows "bl_number x > latest_block_indexed db0 - max 1 (cf_confirmationBlocks cf)"
proof -
  have "bl_number x \<in> block_numbers db" using assms(4) by (simp add: block_numbers_def)
  then have "1 \<le> bl_number x" using polled_chain [OF assms(1,2)] by (auto simp: chain_ok_def contiguous_def)
  then show ?thesis using assms(3) by linarith
qed

theorem poll_repairs_window_witness:
  "\<exists>db db'. polled_db demo_env demo_cf db \<and> block_numbers db = {1..2} \<and> list_all (\<lambda>x. bl_hash x = CHR ''h'' # dec_int (bl_number x)) (blocks db)
     \<and> syncBlocks 2 (demo_chain CHR ''g'') demo_cf db () = Some (Inr (), db', ())
     \<and> list_all (\<lambda>x. 0 < bl_number x \<longrightarrow> bl_hash x = CHR ''g'' # dec_int (bl_number x)) (blocks db')"
proof -
  obtain db where db: "syncBlocks 2 demo_env demo_cf empty_db () = Some (Inr (), db, ())" "latest_block_indexed db = 2" "polled_db demo_env demo_cf db"
    using demo_poll by blast
  have k: "cf_confirmationBlocks demo_cf = 3" "latest_block_indexed empty_db = 0" "cf_startBlock demo_cf = 1"
    by (simp_all add: demo_cf_def empty_db_def)
  have "bl_hash x = CHR ''h'' # dec_int (bl_number x)" if "x \<in> set (blocks db)" for x
    using poll_repairs_window [OF fresh demo_hashes demo_steady demo_head db(1) that]
      window_all [OF db(3) demo_hashes _ that, of empty_db] k by (auto simp: demo_block)
  then have h: "list_all (\<lambda>x. bl_hash x = CHR ''h'' # dec_int (bl_number x)) (blocks db)" by (simp add: list_all_iff)
  obtain db' where db': "syncBlocks 2 (demo_chain CHR ''g'') demo_cf db () = Some (Inr (), db', ())"
    using fork_poll [OF db(3,2) h] by blast
  have "bl_hash x = CHR ''g'' # dec_int (bl_number x)" if "x \<in> set (blocks db')" "0 < bl_number x" for x
    using poll_repairs_window [OF db(3) demo_hashes demo_steady demo_head db' that(1)] that(2) db(2) k by (auto simp: demo_block)
  moreover have "block_numbers db = {1..2}"
    using polled_chain [OF db(3) demo_hashes] db(2) k by (simp add: chain_ok_def contiguous_def)
  ultimately show ?thesis using db(3) h db' by (auto simp: list_all_iff)
qed

text \<open>
  C17. Progress. If the chain interface answers for every confirmed block, a transaction hash and a log index
  name one event of the chain, and the batch size is
  positive, a poll returns, with as much fuel as there are confirmed blocks, and the cursor is
  then on the last confirmed block, reorganisations in the window included. The inserts that a constraint of the schema could
  refuse, those of the aggregates, are among the ones that go through.
\<close>

theorem poll_progress:
  assumes "polled_db ev cf db" "distinct_hashes ev" "identified (chain_event ev cf)" "0 < cf_batchSize cf"
    and "fst (getLatestBlock ev w) = Some seqno" "list_all (answers ev cf) [1..seqno - cf_confirmationBlocks cf]"
    and "max (latest_block_indexed db) (cf_startBlock cf) \<le> seqno - cf_confirmationBlocks cf"
    and "nat (seqno - cf_confirmationBlocks cf) \<le> fuel"
  shows "\<exists>db' w'. syncBlocks fuel ev cf db w = Some (Inr (), db', w') \<and> latest_block_indexed db' = seqno - cf_confirmationBlocks cf"
proof -
  obtain w0 where w0: "getLatestBlock ev w = (Some seqno, w0)" using assms(5) by (metis prod.collapse)
  show ?thesis
    using poll_ok [OF assms(2,4) polled_ready [OF assms(1,2)] w0 assms(6) _ _ assms(8,3)] assms(7) by simp
qed

theorem poll_progress_witness:
  "\<exists>db'. syncBlocks 2 demo_env demo_cf empty_db () = Some (Inr (), db', ()) \<and> latest_block_indexed db' = 2"
proof -
  have "0 < cf_batchSize demo_cf"
    "max (latest_block_indexed empty_db) (cf_startBlock demo_cf) \<le> 5 - cf_confirmationBlocks demo_cf"
    "nat (5 - cf_confirmationBlocks demo_cf) \<le> 2"
    by (simp_all add: demo_cf_def empty_db_def)
  moreover have "list_all (answers demo_env demo_cf) [1..5 - cf_confirmationBlocks demo_cf]"
    using demo_answers by (simp add: list_all_iff)
  ultimately
  have "\<exists>db' w'. syncBlocks 2 demo_env demo_cf empty_db () = Some (Inr (), db', w') \<and> latest_block_indexed db' = 5 - cf_confirmationBlocks demo_cf"
    using poll_progress [OF fresh demo_hashes demo_identified _ demo_head, where fuel = 2 and w = "()"] by simp
  moreover have "5 - cf_confirmationBlocks demo_cf = 2" by (simp add: demo_cf_def)
  ultimately show ?thesis by simp
qed

text \<open>
  Bounded retries. Against a server that gives the answers \<open>w\<close> in turn, a request is answered
  with the first answer that is not transient (a network error or a 5xx status) if that is among
  the first three, and otherwise with the third; it consumes exactly the answers up to that one.
\<close>

theorem request_retries:
  assumes "scripted ev" "3 \<le> length w"
  shows "fetchTonApi ev meth params w =
    (let k = min 2 (length (takeWhile transient w)) in (reply_result (w ! k), drop (Suc k) w))"
  using scripted_attempts [OF assms(1) _ assms(2)] by (simp add: fetchTonApi_def fetchWithRetry_def)

definition demo_script :: "(http_reply list, int list) idx_env" where
  "demo_script = \<lparr>http_get = (\<lambda>m p w. case w of [] \<Rightarrow> (Net_error, []) | r # rs \<Rightarrow> (r, rs)), masterchainInfo = (\<lambda>w. (None, w)),
     addr_db = Some, addr_std = Some, addr_raw = Some, env_slices = int_slices, env_now = (\<lambda>_. 0)\<rparr>"

theorem request_retries_witness:
  "fetchTonApi demo_script ''shards'' [] [Net_error, Http_error 502, Http_json JNull, Net_error] = (Inr JNull, [Net_error])
   \<and> fetchTonApi demo_script ''shards'' [] [Http_error 404, Http_json JNull, Net_error] = (Inl (Http_status 404), [Http_json JNull, Net_error])"
proof -
  have "scripted demo_script" by (simp add: scripted_def demo_script_def)
  from request_retries [OF this, of "[Net_error, Http_error 502, Http_json JNull, Net_error]"]
    request_retries [OF this, of "[Http_error 404, Http_json JNull, Net_error]"]
  show ?thesis by (simp add: Let_def)
qed

text \<open>
  Paging is complete. Against a server that answers \<open>getBlockTransactions\<close> as documented for a
  shard block with the transactions \<open>L\<close>, the enumeration returns the descriptors of all of them in
  order, up to the cap of 1000 pages of 256.
\<close>

theorem descriptors_complete:
  assumes "serves ev shard L"
  shows "fst (fetchBlockTransactionDescriptors ev shard w) = Inr (map descriptor_of (take 256000 L))"
proof -
  have "fst (fetch_pages_from ev shard MAX_BLOCK_TX_PAGES JUndef JUndef w) = Inr (map descriptor_of (take (256 * MAX_BLOCK_TX_PAGES) (drop 0 L)))"
    using assms by (intro pages_complete) (simp_all add: serves_def)
  then show ?thesis by (simp add: fetchBlockTransactionDescriptors_def MAX_BLOCK_TX_PAGES_def)
qed

definition demo_shard :: shard_id where
  "demo_shard = \<lparr>sh_workchain = JNum 0, sh_shard = JStr ''8'', sh_seqno = JNum 3\<rparr>"

definition demo_block_txs :: "json list" where
  "demo_block_txs = [JObj [(''account'', JStr ''hub''), (''lt'', JStr ''1''), (''hash'', JStr ''t3'')]]"

definition demo_pager :: "(unit, int list) idx_env" where
  "demo_pager = demo_env\<lparr>http_get := (\<lambda>m p w. (Http_json (page_of demo_block_txs (if length p > 4 then 1 else 0)), w))\<rparr>"

theorem descriptors_complete_witness:
  "fst (fetchBlockTransactionDescriptors demo_pager demo_shard ()) = Inr [\<lparr>ds_account = JStr ''hub'', ds_lt = JStr ''1'', ds_hash = JStr ''t3''\<rparr>]"
proof -
  have "serves demo_pager demo_shard demo_block_txs"
    by (simp add: serves_def demo_pager_def demo_chain_def page_params_def demo_block_txs_def nullish_def)
  from descriptors_complete [OF this, of "()"] show ?thesis by (simp add: demo_block_txs_def descriptor_of_def)
qed

text \<open>
  C18. A failed shard request is not an error of the block. When contracts are tracked, the header
  is answered and the request for the shard blocks fails, \<open>processBlock\<close> still returns, stores the
  block without any of its events and advances the cursor to it, so that the block is not retried.
\<close>

theorem shard_failure_commits:
  assumes "trackedAddresses cf \<noteq> []" "getBlockByNumber ev n w = (Inr b, w1)"
    and "fst (fetchTonApi ev ''shards'' [(''seqno'', JNum n)] w1) = Inl e"
  shows "\<exists>db' w'. processBlock ev cf n db w = (Inr (), db', w') \<and> latest_block_indexed db' = n
    \<and> commit_block (addr_db ev) (env_now ev w') n b 0 [] db = (Inr (), db')"
proof -
  obtain w2 where "fetchTonApi ev ''shards'' [(''seqno'', JNum n)] w1 = (Inl e, w2)" using assms(3) by (metis prod.collapse)
  then have "fetchBlockTransactions ev cf n w1 = (Inr [], w2)"
    using assms(1) by (simp add: fetchBlockTransactions_def getBlockShards_def)
  moreover obtain db' where cm: "commit_block (addr_db ev) (env_now ev w2) n b 0 [] db = (Inr (), db')"
    by (simp add: commit_block_def transaction_def)
  ultimately show ?thesis using assms(2) commit_cursor [OF cm] by (simp add: processBlock_def collectBlockEvents_def)
qed

definition demo_no_shards :: "(unit, int list) idx_env" where
  "demo_no_shards = demo_env\<lparr>http_get := (\<lambda>m p w. if m = ''shards'' then (Http_error 503, w) else (Http_json (demo_reply CHR ''h'' m p), w))\<rparr>"

theorem shard_failure_commits_witness:
  "\<exists>db'. processBlock demo_no_shards demo_cf 1 empty_db () = (Inr (), db', ()) \<and> latest_block_indexed db' = 1 \<and> internal_transfers db' = []"
proof -
  have "trackedAddresses demo_cf \<noteq> []" by (simp add: trackedAddresses_def demo_cf_def)
  moreover have "getBlockByNumber demo_no_shards 1 () = (Inr \<lparr>cb_hash = CHR ''h'' # dec_int 1, cb_parent = [], cb_now = 10\<rparr>, ())"
    by (simp add: getBlockByNumber_def fetchTonApi_def fetchWithRetry_def numeral_3_eq_3 demo_no_shards_def demo_chain_def demo_reply_def
        api_result_def jprop_def Let_def block_of_header_def js_or_def first_prev_def)
  moreover have "fst (fetchTonApi demo_no_shards ''shards'' [(''seqno'', JNum 1)] ()) = Inl (Http_status 503)"
    by (simp add: fetchTonApi_def fetchWithRetry_def numeral_3_eq_3 demo_no_shards_def)
  ultimately obtain db' where "processBlock demo_no_shards demo_cf 1 empty_db () = (Inr (), db', ())" "latest_block_indexed db' = 1"
    "commit_block (addr_db demo_no_shards) (env_now demo_no_shards ()) 1 \<lparr>cb_hash = CHR ''h'' # dec_int 1, cb_parent = [], cb_now = 10\<rparr> 0 [] empty_db = (Inr (), db')"
    using shard_failure_commits [of demo_cf demo_no_shards 1 "()" _ "()" _ empty_db] by auto
  moreover from this(3) have "internal_transfers db' = []"
    by (auto simp: commit_block_def transaction_def updateLatestBlock_def insertBlock_def delete_blocks_def Let_def empty_db_def)
  ultimately show ?thesis by blast
qed

end
