(* ===== verification/Idx_Api.thy ===== *)
theory Idx_Api
  imports Complex_Main Idx_Database_Props Idx_Config
begin

text \<open>
  The HTTP interface of the indexer (\<open>backend/indexer/src/api/routes.ts\<close>, \<open>api/server.ts\<close>, \<open>api/requestId.ts\<close>): query
  parameters, the cursor of the account history, the six read-only endpoints over the database, the address that a
  request is counted under and the rate limit in front. Number parsing, base 64, JSON parsing and the rate limiter are
  parameters. The queries of the modelled database return, so the replies with status 500 are left out, as are log lines,
  headers and the constant members of a reply (version, disclaimer, list of endpoints).
\<close>

section \<open>Query parameters\<close>

text \<open>
  \<open>ia_num\<close> is \<open>Number(s)\<close> with \<open>None\<close> for \<open>NaN\<close> and infinities; \<open>ia_b64e\<close> and \<open>ia_b64d\<close> take text to and from base64url;
  \<open>ia_parse\<close> is \<open>JSON.parse\<close>, \<open>None\<close> where it throws, with a number that is not integral read as \<open>null\<close> (the decoder
  refuses both). A query parameter is a JSON value: absent, a string, an array or an object. The clock reads seconds
  (\<open>ia_now\<close>) and milliseconds (\<open>ia_ms\<close>).
\<close>

record idx_api_env =
  ia_num :: "string \<Rightarrow> rat option"
  ia_b64e :: "string \<Rightarrow> string"
  ia_b64d :: "string \<Rightarrow> string"
  ia_parse :: "string \<Rightarrow> json option"
  ia_ap :: "string \<Rightarrow> string option"
  ia_now :: int
  ia_ms :: int

definition ACCOUNT_HISTORY_DEFAULT_LIMIT :: int where
  "ACCOUNT_HISTORY_DEFAULT_LIMIT = 100"

definition ACCOUNT_HISTORY_MIN_LIMIT :: int where
  "ACCOUNT_HISTORY_MIN_LIMIT = 1"

definition ACCOUNT_HISTORY_MAX_LIMIT :: int where
  "ACCOUNT_HISTORY_MAX_LIMIT = 500"

definition first_value :: "json \<Rightarrow> json" where
  "first_value v = (case v of JArr (x # _) \<Rightarrow> x | JArr [] \<Rightarrow> JUndef | _ \<Rightarrow> v)"

definition parseQueryNumber :: "idx_api_env \<Rightarrow> json \<Rightarrow> rat option" where
  "parseQueryNumber e v =
     (case first_value v of
        JStr raw \<Rightarrow> (let trimmed = js_trim raw in if trimmed = [] then None else ia_num e trimmed)
      | _ \<Rightarrow> None)"

definition parseQueryString :: "json \<Rightarrow> string option" where
  "parseQueryString v =
     (case first_value v of
        JStr raw \<Rightarrow> (let trimmed = js_trim raw in if trimmed = [] then None else Some trimmed)
      | _ \<Rightarrow> None)"

definition js_safe_integer :: "int \<Rightarrow> bool" where
  "js_safe_integer n \<longleftrightarrow> \<bar>n\<bar> \<le> 2 ^ 53 - 1"

definition decodeAccountHistoryCursor :: "idx_api_env \<Rightarrow> string \<Rightarrow> string \<Rightarrow> history_cursor option" where
  "decodeAccountHistoryCursor e encoded nft =
     (case ia_parse e (ia_b64d e encoded) of
        None \<Rightarrow> None
      | Some cursor \<Rightarrow>
          if jget ''v'' cursor \<noteq> JNum 1 \<or> jget ''nftAddress'' cursor \<noteq> JStr nft then None
          else (case (jget ''transactionHash'' cursor, jget ''timestamp'' cursor, jget ''logIndex'' cursor) of
                  (JStr tx, JNum timestamp, JNum logIndex) \<Rightarrow>
                    if \<not> js_safe_integer timestamp \<or> \<not> js_safe_integer logIndex \<or> timestamp < 0 \<or> logIndex < 0 then None
                    else Some (Before_event timestamp tx (nat logIndex))
                | _ \<Rightarrow> None))"

definition cursor_object :: "string \<Rightarrow> history_event \<Rightarrow> json" where
  "cursor_object nft event = JObj
     [(''v'', JNum 1), (''nftAddress'', JStr nft), (''timestamp'', JNum (he_ts event)),
      (''transactionHash'', JStr (he_tx event)), (''logIndex'', JNum (int (he_log event)))]"

definition encodeAccountHistoryCursor :: "idx_api_env \<Rightarrow> string \<Rightarrow> history_event \<Rightarrow> string" where
  "encodeAccountHistoryCursor e nft event = ia_b64e e (json_enc (cursor_object nft event))"

record query_params =
  q_limit :: json
  q_offset :: json
  q_cursor :: json

definition integral :: "rat option \<Rightarrow> int option" where
  "integral x = (case x of None \<Rightarrow> None | Some r \<Rightarrow> if of_int \<lfloor>r\<rfloor> = r then Some \<lfloor>r\<rfloor> else None)"

definition query_cursor :: "idx_api_env \<Rightarrow> json \<Rightarrow> string \<Rightarrow> history_cursor option" where
  "query_cursor e v nft =
     (case parseQueryString v of None \<Rightarrow> Some No_cursor
      | Some encodedCursor \<Rightarrow> decodeAccountHistoryCursor e encodedCursor nft)"

definition parseAccountHistoryPagination :: "idx_api_env \<Rightarrow> query_params \<Rightarrow> string \<Rightarrow> (nat \<times> nat \<times> history_cursor) option" where
  "parseAccountHistoryPagination e query nft =
     (let parsedLimit = parseQueryNumber e (q_limit query);
          parsedOffset = parseQueryNumber e (q_offset query)
      in case query_cursor e (q_cursor query) nft of
           None \<Rightarrow> None
         | Some cursor \<Rightarrow>
             if (\<exists>x\<in>set_option parsedLimit. x < 0) \<or> (\<exists>x\<in>set_option parsedOffset. x < 0) then None
             else
               let rawLimit = integral parsedLimit;
                   rawOffset = integral parsedOffset;
                   limit = min (max (case rawLimit of None \<Rightarrow> ACCOUNT_HISTORY_DEFAULT_LIMIT | Some n \<Rightarrow> n)
                     ACCOUNT_HISTORY_MIN_LIMIT) ACCOUNT_HISTORY_MAX_LIMIT;
                   offset = (case rawOffset of None \<Rightarrow> 0 | Some n \<Rightarrow> n)
               in Some (nat limit, nat offset, cursor))"

section \<open>Responses\<close>

datatype payment_state = Pay_pending | Pay_confirmed | Pay_failed | Pay_not_found

record payment_response =
  pt_invoiceId :: string
  pt_status :: payment_state
  pt_payer :: "string option"
  pt_merchant :: "string option"
  pt_amount :: string
  pt_createdAt :: "int option"
  pt_blockNumber :: "int option"
  pt_tx :: "string option"
  pt_confirmations :: int
  pt_payloadHash :: "string option"

record history_response =
  ah_nft :: string
  ah_state :: string
  ah_owner :: "string option"
  ah_events :: "history_event list"
  ah_total :: nat
  ah_limit :: nat
  ah_offset :: nat
  ah_hasMore :: bool
  ah_nextCursor :: "string option"

record health_response =
  ht_healthy :: bool
  ht_indexed :: int
  ht_chain :: int
  ht_behind :: int
  ht_time :: int
  ht_events :: nat

record block_response =
  br_number :: int
  br_hash :: string
  br_timestamp :: int
  br_count :: nat

record transparency_response =
  tr_indexedAt :: int
  tr_latestBlock :: int
  tr_metrics :: "metrics_data event_row option"
  tr_metricsHistory :: "metrics_data event_row list"
  tr_locks :: "lock_data event_row option"
  tr_locksHistory :: "lock_data event_row list"
  tr_params :: "param_data event_row list"
  tr_counts :: "nat \<times> nat \<times> nat"

datatype idx_reply =
    R_health health_response
  | R_payment payment_response
  | R_events string "transfer_data event_row option"
  | R_history history_response
  | R_block block_response
  | R_transparency transparency_response
  | R_root
  | R_error string string

section \<open>Endpoints\<close>

definition health :: "idx_api_env \<Rightarrow> bool \<Rightarrow> idx_db \<Rightarrow> nat \<times> idx_reply" where
  "health e isRunning db =
     (let indexed = getLatestBlockIndexed db;
          chainLatestBlock = (if getLatestChainSeqno db = 0 then indexed else getLatestChainSeqno db)
      in (200, R_health \<lparr>ht_healthy = isRunning, ht_indexed = indexed, ht_chain = chainLatestBlock,
            ht_behind = chainLatestBlock - indexed, ht_time = ia_now e, ht_events = getEventCount db\<rparr>))"

definition payment_endpoint :: "int \<Rightarrow> string \<Rightarrow> idx_db \<Rightarrow> nat \<times> idx_reply" where
  "payment_endpoint confirmationBlocks invoice_id db =
     (case getPaymentByPayloadHash invoice_id db of
        None \<Rightarrow> (200, R_payment \<lparr>pt_invoiceId = invoice_id, pt_status = Pay_not_found, pt_payer = None, pt_merchant = None,
          pt_amount = ''0'', pt_createdAt = None, pt_blockNumber = None, pt_tx = None, pt_confirmations = 0,
          pt_payloadHash = None\<rparr>)
      | Some payment \<Rightarrow>
          let chainHeadSeqno = getLatestChainSeqno db;
              isConfirmed = isBlockConfirmed chainHeadSeqno (r_block payment) confirmationBlocks
          in (200, R_payment \<lparr>pt_invoiceId = invoice_id,
                pt_status = (if isConfirmed then Pay_confirmed else Pay_pending),
                pt_payer = Some (td_from (r_data payment)), pt_merchant = Some (td_to (r_data payment)),
                pt_amount = td_amount (r_data payment), pt_createdAt = Some (r_ts payment),
                pt_blockNumber = Some (r_block payment), pt_tx = Some (r_tx payment),
                pt_confirmations = confirmationDepth chainHeadSeqno (r_block payment),
                pt_payloadHash = Some (td_payload (r_data payment))\<rparr>))"

text \<open>The single event of a payment, if there is one.\<close>

definition payment_events :: "string \<Rightarrow> idx_db \<Rightarrow> nat \<times> idx_reply" where
  "payment_events invoice_id db = (200, R_events invoice_id (getPaymentByPayloadHash invoice_id db))"

definition state_string :: "int \<Rightarrow> string" where
  "state_string n = (case accountStateFromNumber n of None \<Rightarrow> ''UNKNOWN'' | Some st \<Rightarrow> accountStateToString st)"

definition account_history :: "idx_api_env \<Rightarrow> string \<Rightarrow> query_params \<Rightarrow> idx_db \<Rightarrow> (nat \<times> idx_reply) \<times> idx_db" where
  "account_history e nft_id query db =
     (case parseAccountHistoryPagination e query nft_id of
        None \<Rightarrow> ((400, R_error ''API_INVALID_PARAMETER'' ''Invalid pagination parameters''), db)
      | Some (limit, offset, cursor) \<Rightarrow>
          let snap = getAccountSnapshot (ia_ap e) nft_id db in
          (case getAccountHistory (ia_ap e) (ia_ms e) nft_id (limit + 1) offset cursor db of
             (history, db') \<Rightarrow>
               let events = take limit (hr_events history);
                   hasMore = length (hr_events history) > limit
               in ((200, R_history \<lparr>ah_nft = nft_id,
                     ah_state = (case snap of None \<Rightarrow> ''UNKNOWN'' | Some s \<Rightarrow> state_string (sn_state s)),
                     ah_owner = (case snap of None \<Rightarrow> None
                       | Some s \<Rightarrow> (case sn_owner s of None \<Rightarrow> None | Some w \<Rightarrow> if w = [] then None else Some w)),
                     ah_events = events, ah_total = hr_total history, ah_limit = limit, ah_offset = offset,
                     ah_hasMore = hasMore,
                     ah_nextCursor = (if hasMore \<and> events \<noteq> []
                       then Some (encodeAccountHistoryCursor e nft_id (last events)) else None)\<rparr>), db')))"

text \<open>\<open>parseInt\<close> without a radix: a hexadecimal prefix is recognised; a value beyond the doubles is infinite.\<close>

datatype js_int = Not_a_number | Infinite | Finite int

definition js_int_of :: "bool \<Rightarrow> bool \<Rightarrow> nat \<Rightarrow> js_int" where
  "js_int_of noDigits neg n =
     (if noDigits then Not_a_number else if n \<ge> double_overflow then Infinite
      else Finite (if neg then - int n else int n))"

definition parseInt_auto :: "string \<Rightarrow> js_int" where
  "parseInt_auto s =
     (let t = dropWhile js_space s;
          neg = starts_with ''-'' t;
          u = (if neg \<or> starts_with ''+'' t then tl t else t)
      in if starts_with ''0x'' u \<or> starts_with ''0X'' u
         then (let d = takeWhile is_hex (drop 2 u) in js_int_of (d = []) neg (nat (hex_number d)))
         else (let d = takeWhile is_digit u in js_int_of (d = []) neg (digits_val d)))"

definition block_endpoint :: "string \<Rightarrow> idx_db \<Rightarrow> nat \<times> idx_reply" where
  "block_endpoint block_number db =
     (let missing = (404, R_error ''API_NOT_FOUND'' ''Block not found'') in
      case parseInt_auto block_number of
        Not_a_number \<Rightarrow> (400, R_error ''API_INVALID_PARAMETER'' ''Invalid block number'')
      | Infinite \<Rightarrow> missing
      | Finite blockNumber \<Rightarrow>
          (case getBlock blockNumber db of
             None \<Rightarrow> missing
           | Some block \<Rightarrow> (200, R_block \<lparr>br_number = bl_number block, br_hash = bl_hash block,
               br_timestamp = bl_timestamp block, br_count = bl_tx_count block\<rparr>)))"

text \<open>\<open>parseInt\<close> of an array reads its first element, and of an absent value or an object gives \<open>NaN\<close>.\<close>

fun first_string :: "json \<Rightarrow> string" where
  "first_string (JStr s) = s"
| "first_string (JArr (x # _)) = first_string x"
| "first_string _ = []"

definition transparency_metrics_route :: "idx_api_env \<Rightarrow> json \<Rightarrow> idx_db \<Rightarrow> nat \<times> idx_reply" where
  "transparency_metrics_route e qlimit db =
     (let rawLimit = js_parseInt (first_string qlimit);
          limit = nat (min (max (case rawLimit of None \<Rightarrow> 12 | Some n \<Rightarrow> n) 1) 60)
      in (200, R_transparency \<lparr>tr_indexedAt = ia_now e, tr_latestBlock = getLatestBlockIndexed db,
            tr_metrics = getLatestTransparencyProtocolMetrics db,
            tr_metricsHistory = listTransparencyProtocolMetrics limit db,
            tr_locks = getLatestTransparencyLockActivity db,
            tr_locksHistory = listTransparencyLockActivity limit db,
            tr_params = listTransparencyParameterChanges limit db,
            tr_counts = getTransparencyCounts db\<rparr>))"

section \<open>The rate limit\<close>

text \<open>The values of the \<open>X-Forwarded-For\<close> header: none, one string or several.\<close>

definition splitForwardedFor :: "string list \<Rightarrow> string list" where
  "splitForwardedFor vals =
     filter (\<lambda>part. part \<noteq> []) (map js_trim (concat (map (js_split CHR '','') vals)))"

definition getClientIp :: "bool \<Rightarrow> int \<Rightarrow> string list \<Rightarrow> string option \<Rightarrow> string" where
  "getClientIp trustProxy proxyCount forwarded remote =
     (let remoteAddress = (case remote of None \<Rightarrow> ''unknown'' | Some a \<Rightarrow> if a = [] then ''unknown'' else a) in
      if \<not> trustProxy then remoteAddress
      else
        let trustedProxyCount = max 0 proxyCount;
            hops = splitForwardedFor forwarded @ [remoteAddress];
            clientIndex = int (length hops) - trustedProxyCount - 1
        in if clientIndex \<ge> 0 then hops ! nat clientIndex else remoteAddress)"

text \<open>
  What \<open>consume\<close> of the limiter may do: grant, with the points that remain; reject with a limiter result; or reject
  with an error of its store, which lets the request pass.
\<close>

datatype consume_result = Granted int int | Over_limit "int option" | Store_error

record 'l rate_limiter =
  rl_consume :: "string \<Rightarrow> 'l \<Rightarrow> consume_result \<times> 'l"

record idx_request =
  ir_path :: string
  ir_forwarded :: "string list"
  ir_remote :: "string option"
  ir_query :: query_params

datatype idx_route = Rt_health | Rt_payment string | Rt_events string | Rt_history string | Rt_block string | Rt_transparency
  | Rt_root | Rt_other

definition idx_dispatch :: "idx_api_env \<Rightarrow> idx_config \<Rightarrow> bool \<Rightarrow> idx_route \<Rightarrow> query_params \<Rightarrow> idx_db \<Rightarrow> (nat \<times> idx_reply) \<times> idx_db" where
  "idx_dispatch e cf isRunning r query db =
     (case r of
        Rt_health \<Rightarrow> (health e isRunning db, db)
      | Rt_payment i \<Rightarrow> (payment_endpoint (cf_confirmationBlocks cf) i db, db)
      | Rt_events i \<Rightarrow> (payment_events i db, db)
      | Rt_history nft \<Rightarrow> account_history e nft query db
      | Rt_block n \<Rightarrow> (block_endpoint n db, db)
      | Rt_transparency \<Rightarrow> (transparency_metrics_route e (q_limit query) db, db)
      | Rt_root \<Rightarrow> ((200, R_root), db)
      | Rt_other \<Rightarrow> ((404, R_error ''API_NOT_FOUND'' ''Endpoint not found''), db))"

definition idx_serve :: "idx_api_env \<Rightarrow> idx_config \<Rightarrow> 'l rate_limiter \<Rightarrow> bool \<Rightarrow> idx_route \<Rightarrow> idx_request \<Rightarrow> idx_db \<times> 'l \<Rightarrow>
    (nat \<times> idx_reply) \<times> idx_db \<times> 'l" where
  "idx_serve e cf rl isRunning r req st =
     (case st of (db, l) \<Rightarrow>
      let ip = getClientIp (cf_trustProxy cf) (cf_trustedProxyCount cf) (ir_forwarded req) (ir_remote req) in
      case rl_consume rl ip l of
        (Over_limit _, l') \<Rightarrow> ((429, R_error ''API_RATE_LIMIT_EXCEEDED'' ''Too many requests''), db, l')
      | (_, l') \<Rightarrow> (case idx_dispatch e cf isRunning r (ir_query req) db of (rep, db') \<Rightarrow> (rep, db', l')))"

end
