(* ===== verification/Idx_Api_Props.thy ===== *)
theory Idx_Api_Props
  imports Idx_Api
begin

text \<open>
  What a client of the indexer's HTTP interface can rely on: following the cursors of the account history reads it
  completely, the reported payment status is the canonical confirmation of the stored payment, and entries that a
  client prepends to the forwarding header do not change the address it is counted under.
\<close>

section \<open>Cursors\<close>

definition event_safe :: "history_event \<Rightarrow> bool" where
  "event_safe ev \<longleftrightarrow> 0 \<le> he_ts ev \<and> he_ts ev \<le> 2 ^ 53 - 1 \<and> int (he_log ev) \<le> 2 ^ 53 - 1"

text \<open>Base 64 and JSON parsing recover the cursor of an event, and the text of a cursor has no blanks.\<close>

definition cursor_codec :: "idx_api_env \<Rightarrow> string \<Rightarrow> history_event \<Rightarrow> bool" where
  "cursor_codec e nft ev \<longleftrightarrow>
     (let text = json_enc (cursor_object nft ev) in
      ia_b64d e (ia_b64e e text) = text \<and> ia_parse e text = Some (cursor_object nft ev)
      \<and> js_trim (ia_b64e e text) = ia_b64e e text \<and> ia_b64e e text \<noteq> [])"

lemma decode_encoded:
  assumes "cursor_codec e nft ev" "event_safe ev"
  shows "query_cursor e (JStr (encodeAccountHistoryCursor e nft ev)) nft = Some (cursor_of ev)"
proof -
  have c: "js_trim (encodeAccountHistoryCursor e nft ev) = encodeAccountHistoryCursor e nft ev"
      "encodeAccountHistoryCursor e nft ev \<noteq> []"
      "ia_parse e (ia_b64d e (encodeAccountHistoryCursor e nft ev)) = Some (cursor_object nft ev)"
    using assms(1) by (auto simp: cursor_codec_def encodeAccountHistoryCursor_def Let_def)
  then have "decodeAccountHistoryCursor e (encodeAccountHistoryCursor e nft ev) nft = Some (cursor_of ev)"
    using assms(2)
    by (simp add: decodeAccountHistoryCursor_def cursor_object_def cursor_of_def event_safe_def js_safe_integer_def)
  with c(1,2) show ?thesis by (simp add: query_cursor_def parseQueryString_def first_value_def Let_def)
qed

section \<open>A client that follows the cursors\<close>

definition page_query :: "nat \<Rightarrow> string option \<Rightarrow> query_params" where
  "page_query limit cursor = \<lparr>q_limit = JStr (dec limit), q_offset = JUndef,
     q_cursor = (case cursor of None \<Rightarrow> JUndef | Some c \<Rightarrow> JStr c)\<rparr>"

text \<open>\<open>ms k\<close> is the time of the request with \<open>k\<close> requests left; the database keeps what a request caches.\<close>

fun client_pages :: "idx_api_env \<Rightarrow> idx_config \<Rightarrow> bool \<Rightarrow> string \<Rightarrow> nat \<Rightarrow> (nat \<Rightarrow> int) \<Rightarrow> nat \<Rightarrow> string option \<Rightarrow> idx_db \<Rightarrow> history_event list list" where
  "client_pages e cf running nft limit ms 0 cursor db = []"
| "client_pages e cf running nft limit ms (Suc n) cursor db =
     (case idx_dispatch (e\<lparr>ia_ms := ms n\<rparr>) cf running (Rt_history nft) (page_query limit cursor) db of
        ((st, R_history r), db') \<Rightarrow> ah_events r # (case ah_nextCursor r of None \<Rightarrow> []
           | Some c \<Rightarrow> client_pages e cf running nft limit ms n (Some c) db')
      | _ \<Rightarrow> [])"

lemma page_pagination:
  assumes "ia_num e (dec limit) = Some (of_nat limit)" "1 \<le> limit" "limit \<le> 500"
    and "query_cursor e (q_cursor (page_query limit cursor)) nft = Some c"
  shows "parseAccountHistoryPagination (e\<lparr>ia_ms := t\<rparr>) (page_query limit cursor) nft = Some (limit, 0, c)"
proof -
  have "js_trim (dec limit) = dec limit" "dec limit \<noteq> []"
    using dec_digits [of limit] digit_not_space by (auto simp: list_all_iff intro!: js_trim_id)
  moreover have "query_cursor (e\<lparr>ia_ms := t\<rparr>) v nft = query_cursor e v nft" for v
    by (simp add: query_cursor_def decodeAccountHistoryCursor_def split: option.split)
  ultimately show ?thesis using assms
    by (simp add: parseAccountHistoryPagination_def parseQueryNumber_def first_value_def page_query_def integral_def
        ACCOUNT_HISTORY_DEFAULT_LIMIT_def ACCOUNT_HISTORY_MIN_LIMIT_def ACCOUNT_HISTORY_MAX_LIMIT_def)
qed

lemma history_read:
  assumes "ap_canonical ap" "cache_inv ap db" "getAccountHistory ap now nft limit off c db = (h, db')"
  shows "h = history_query (normalizeTonAddress ap nft) limit off c db" "cache_inv ap db'"
    "history_rows n db' = history_rows n db"
proof -
  show "h = history_query (normalizeTonAddress ap nft) limit off c db"
    using getAccountHistory_spec [of db ap now nft limit off c] assms(2,3) by (simp add: cache_inv_def)
  show "cache_inv ap db'"
    using cache_inv_run [OF assms(1,2), of "[(now, Op_history nft limit off c)]"] assms(3) by simp
  show "history_rows n db' = history_rows n db"
    using assms(3) by (auto simp: getAccountHistory_def Let_def history_rows_def setHistoryCacheEntry_def split: option.splits if_splits)
qed

lemma client_from:
  assumes laws: "ap_canonical (ia_ap e)" "ia_num e (dec limit) = Some (of_nat limit)" "1 \<le> limit" "limit \<le> 500"
    and distinct: "distinct (map history_key (history_rows (normalizeTonAddress (ia_ap e) nft) db))"
    and events: "\<forall>ev\<in>set (history_rows (normalizeTonAddress (ia_ap e) nft) db). event_safe ev \<and> cursor_codec e nft ev"
    and "cache_inv (ia_ap e) db" "query_cursor e (q_cursor (page_query limit cursor)) nft = Some c"
    and "\<And>l. hr_events (history_query (normalizeTonAddress (ia_ap e) nft) l 0 c db)
      = take l (drop i (full_history (normalizeTonAddress (ia_ap e) nft) db))"
    and "length (full_history (normalizeTonAddress (ia_ap e) nft) db) - i < n"
  shows "concat (client_pages e cf running nft limit ms n cursor db) = drop i (full_history (normalizeTonAddress (ia_ap e) nft) db)"
  using distinct events assms(7-)
proof (induction n arbitrary: i cursor c db)
  case (Suc n)
  let ?nft = "normalizeTonAddress (ia_ap e) nft"
  let ?S = "full_history ?nft db"
  obtain h db' where h: "getAccountHistory (ia_ap e) (ms n) nft (limit + 1) 0 c db = (h, db')" by fastforce
  note read = history_read [OF laws(1) Suc.prems(3) h]
  have full: "full_history ?nft db' = ?S" by (simp add: full_history_def read(3))
  have evs: "hr_events h = take (limit + 1) (drop i ?S)" using read(1) Suc.prems(5) by simp
  let ?events = "take limit (hr_events h)"
  have page: "?events = take limit (drop i ?S)" by (simp add: evs)
  let ?more = "length (hr_events h) > limit"
  let ?next = "if ?more \<and> ?events \<noteq> [] then Some (encodeAccountHistoryCursor e nft (last ?events)) else None"
  have step: "client_pages e cf running nft limit ms (Suc n) cursor db = ?events # (case ?next of None \<Rightarrow> []
      | Some c \<Rightarrow> client_pages e cf running nft limit ms n (Some c) db')"
    using page_pagination [OF laws(2-4) Suc.prems(4), of "ms n"] h
    by (simp add: idx_dispatch_def account_history_def Let_def encodeAccountHistoryCursor_def)
  show ?case
  proof (cases ?more)
    case False
    then have "length (drop i ?S) \<le> limit" using laws(3) by (simp add: evs min_def split: if_splits)
    with False show ?thesis unfolding step by (simp add: evs)
  next
    case True
    then have len: "i + limit < length ?S" by (simp add: evs min_def split: if_splits)
    have ne: "?events \<noteq> []" using True laws(3) by (cases "hr_events h") auto
    let ?j = "i + limit - 1"
    have j: "?j < length ?S" "Suc ?j = i + limit" using len laws(3) by auto
    have last: "last ?events = ?S ! ?j"
      using ne page len laws(3) by (simp add: last_conv_nth)
    have mem: "?S ! ?j \<in> set (history_rows ?nft db)"
      using nth_mem [OF j(1)] by (simp add: full_history_def history_sort_def)
    with Suc.prems(2) have ev: "event_safe (?S ! ?j)" "cursor_codec e nft (?S ! ?j)" by auto
    have "concat (client_pages e cf running nft limit ms n (Some (encodeAccountHistoryCursor e nft (?S ! ?j))) db') = drop (i + limit) (full_history ?nft db')"
    proof (rule Suc.IH)
      show "query_cursor e (q_cursor (page_query limit (Some (encodeAccountHistoryCursor e nft (?S ! ?j))))) nft = Some (cursor_of (?S ! ?j))"
        using decode_encoded [OF ev(2,1)] by (simp add: page_query_def)
      show "hr_events (history_query ?nft l 0 (cursor_of (?S ! ?j)) db') = take l (drop (i + limit) (full_history ?nft db'))" for l
        using page_after [OF Suc.prems(1) j(1), of l] unfolding j(2) by (simp add: full history_query_def read(3))
      show "length (full_history ?nft db') - (i + limit) < n" using Suc.prems(6) laws(3) len by (simp add: full)
    qed (use Suc.prems(1,2) read(2) in \<open>simp_all add: read(3)\<close>)
    then have "concat (client_pages e cf running nft limit ms (Suc n) cursor db) = take limit (drop i ?S) @ drop (i + limit) ?S"
      using True ne by (simp only: step page [symmetric] last full if_True simp_thms option.case concat.simps)
    then show ?thesis by (metis append_take_drop_id drop_drop add.commute)
  qed
qed simp

section \<open>Properties\<close>

text \<open>
  The stored events of an account, table by table: what an event states is a row of its table, and the account is a party to the
  transfer or payment, or the subject of the change of state.
\<close>

fun stored_for :: "string \<Rightarrow> idx_db \<Rightarrow> history_event \<Rightarrow> bool" where
  "stored_for nft db (H_transfer ts b tx l f t a p) \<longleftrightarrow> (f = nft \<or> t = nft) \<and>
     \<lparr>r_block = b, r_tx = tx, r_log = l, r_ts = ts, r_data = \<lparr>td_from = f, td_to = t, td_amount = a, td_payload = p\<rparr>\<rparr>
       \<in> set (internal_transfers db)"
| "stored_for nft db (H_payment ts b tx l f t a p) \<longleftrightarrow> (f = nft \<or> t = nft) \<and>
     \<lparr>r_block = b, r_tx = tx, r_log = l, r_ts = ts, r_data = \<lparr>td_from = f, td_to = t, td_amount = a, td_payload = p\<rparr>\<rparr>
       \<in> set (merchant_payments db)"
| "stored_for nft db (H_state_change ts b tx l old new) \<longleftrightarrow>
     \<lparr>r_block = b, r_tx = tx, r_log = l, r_ts = ts, r_data = \<lparr>sd_nft = nft, sd_old = old, sd_new = new\<rparr>\<rparr>
       \<in> set (account_state_changes db)"

lemma row_fields: "r = \<lparr>r_block = r_block r, r_tx = r_tx r, r_log = r_log r, r_ts = r_ts r, r_data = r_data r\<rparr>"
  by (cases r) simp

lemma stored_for_rows: "ev \<in> set (history_rows nft db) \<longleftrightarrow> stored_for nft db ev"
proof (cases ev)
  case (H_transfer ts b tx l f t a p)
  have "(\<exists>r\<in>set (internal_transfers db). P r) \<longleftrightarrow> (\<exists>b tx l ts f t a p. \<lparr>r_block = b, r_tx = tx, r_log = l, r_ts = ts,
      r_data = \<lparr>td_from = f, td_to = t, td_amount = a, td_payload = p\<rparr>\<rparr> \<in> set (internal_transfers db)
      \<and> P \<lparr>r_block = b, r_tx = tx, r_log = l, r_ts = ts, r_data = \<lparr>td_from = f, td_to = t, td_amount = a, td_payload = p\<rparr>\<rparr>)" for P
    by (metis event_row.surjective transfer_data.surjective old.unit.exhaust)
  then show ?thesis unfolding H_transfer by (auto simp: history_rows_def image_iff Bex_def)
next
  case (H_payment ts b tx l f t a p)
  have "(\<exists>r\<in>set (merchant_payments db). P r) \<longleftrightarrow> (\<exists>b tx l ts f t a p. \<lparr>r_block = b, r_tx = tx, r_log = l, r_ts = ts,
      r_data = \<lparr>td_from = f, td_to = t, td_amount = a, td_payload = p\<rparr>\<rparr> \<in> set (merchant_payments db)
      \<and> P \<lparr>r_block = b, r_tx = tx, r_log = l, r_ts = ts, r_data = \<lparr>td_from = f, td_to = t, td_amount = a, td_payload = p\<rparr>\<rparr>)" for P
    by (metis event_row.surjective transfer_data.surjective old.unit.exhaust)
  then show ?thesis unfolding H_payment by (auto simp: history_rows_def image_iff Bex_def)
next
  case (H_state_change ts b tx l old new)
  have "(\<exists>r\<in>set (account_state_changes db). P r) \<longleftrightarrow> (\<exists>b tx l ts n old new. \<lparr>r_block = b, r_tx = tx, r_log = l, r_ts = ts,
      r_data = \<lparr>sd_nft = n, sd_old = old, sd_new = new\<rparr>\<rparr> \<in> set (account_state_changes db)
      \<and> P \<lparr>r_block = b, r_tx = tx, r_log = l, r_ts = ts, r_data = \<lparr>sd_nft = n, sd_old = old, sd_new = new\<rparr>\<rparr>)" for P
    by (metis event_row.surjective state_data.surjective old.unit.exhaust)
  then show ?thesis unfolding H_state_change by (auto simp: history_rows_def image_iff Bex_def)
qed

text \<open>The pages in terms of the rows that the query collects.\<close>

lemma pages_are_rows:
  assumes "ap_canonical (ia_ap e)" "run_guarded new_block (ia_ap e) ops empty_db"
    and "db = db_run (ia_ap e) ops empty_db" "canon = normalizeTonAddress (ia_ap e) nft"
    and "distinct (map history_key (history_rows canon db))"
    and "\<forall>ev\<in>set (history_rows canon db). event_safe ev \<and> cursor_codec e nft ev"
    and "ia_num e (dec limit) = Some (of_nat limit)" "1 \<le> limit" "limit \<le> 500" "length (history_rows canon db) < n"
  shows "concat (client_pages e cf running nft limit ms n None db) = history_sort (history_rows canon db)
    \<and> mset (concat (client_pages e cf running nft limit ms n None db)) = mset (history_rows canon db)"
proof -
  have inv: "cache_inv (ia_ap e) db" using cache_inv_run [OF assms(1) cache_inv_empty assms(2)] assms(3) by simp
  have all: "filter (cursorFilter No_cursor) xs = xs" for xs by (simp add: filter_id_conv)
  have "concat (client_pages e cf running nft limit ms n None db) = drop 0 (full_history canon db)"
    unfolding assms(4)
  proof (rule client_from [OF assms(1,7-9) _ _ inv])
    show "query_cursor e (q_cursor (page_query limit None)) nft = Some No_cursor"
      by (simp add: page_query_def query_cursor_def parseQueryString_def first_value_def)
    show "hr_events (history_query (normalizeTonAddress (ia_ap e) nft) l 0 No_cursor db)
        = take l (drop 0 (full_history (normalizeTonAddress (ia_ap e) nft) db))" for l
      by (simp add: history_query_def full_history_def all)
  qed (use assms(4-6,10) in \<open>simp_all add: full_history_def history_sort_def\<close>)
  then show ?thesis by (simp add: full_history_def history_sort_def)
qed

lemma arm_distinct:
  assumes "distinct (map (\<lambda>r. (r_tx r, r_log r)) rows)" "\<And>r r'. f r = f r' \<Longrightarrow> r_tx r = r_tx r' \<and> r_log r = r_log r'"
  shows "distinct (map f (filter P rows))"
proof -
  have "inj_on f (set rows)"
  proof (rule inj_onI)
    fix r r' assume "r \<in> set rows" "r' \<in> set rows" "f r = f r'"
    with assms(2) [of r r'] assms(1) show "r = r'" unfolding distinct_map inj_on_def by simp
  qed
  moreover have "distinct rows" using assms(1) by (simp add: distinct_map)
  ultimately show ?thesis by (simp add: distinct_map inj_on_def)
qed

lemma history_rows_distinct:
  assumes "db_wf db"
  shows "distinct (history_rows nft db)" "length (history_rows nft db) \<le>
    length (internal_transfers db) + length (merchant_payments db) + length (account_state_changes db)"
proof -
  note rows = db_wf_rows(1-3) [OF assms, unfolded rows_ok_def, THEN conjunct2]
  show "distinct (history_rows nft db)"
    unfolding history_rows_def distinct_append
    by (intro conjI arm_distinct rows) auto
  show "length (history_rows nft db) \<le> length (internal_transfers db) + length (merchant_payments db) + length (account_state_changes db)"
    unfolding history_rows_def length_append length_map add.assoc by (intro add_mono length_filter_le)
qed

text \<open>
  C35. Paging through the HTTP interface is complete. A client that asks for the history of an account, in any spelling
  of its address, and follows \<open>nextCursor\<close> until there is none receives every stored transfer and payment to which the account is a
  party and every stored change of its state, and nothing else, each exactly once
  and in order, whatever the page size up to the maximum, whatever the history cache holds and whenever the requests
  are made, while no new events are stored. (Changes of the owner are stored too, but no part of the history.) Cursors survive base 64
  and JSON, and no two of these events share timestamp, transaction and log index. One request more than there are such rows in the
  tables is always enough.
\<close>

theorem api_history_complete:
  assumes "ap_canonical (ia_ap e)" "run_guarded new_block (ia_ap e) ops empty_db"
    and "db = db_run (ia_ap e) ops empty_db" "canon = normalizeTonAddress (ia_ap e) nft"
    and keys: "\<And>ev ev'. stored_for canon db ev \<Longrightarrow> stored_for canon db ev' \<Longrightarrow> history_key ev = history_key ev' \<Longrightarrow> ev = ev'"
    and codec: "\<And>ev. stored_for canon db ev \<Longrightarrow> event_safe ev \<and> cursor_codec e nft ev"
    and "ia_num e (dec limit) = Some (of_nat limit)" "1 \<le> limit" "limit \<le> 500"
    and enough: "length (internal_transfers db) + length (merchant_payments db) + length (account_state_changes db) < n"
  shows "(\<forall>ev. ev \<in> set (concat (client_pages e cf running nft limit ms n None db)) \<longleftrightarrow> stored_for canon db ev)
    \<and> distinct (concat (client_pages e cf running nft limit ms n None db))
    \<and> sorted (map history_key (concat (client_pages e cf running nft limit ms n None db)))"
proof -
  have wf: "db_wf db" unfolding assms(3) by (rule db_run_invariant [OF db_wf_empty db_wf_exec])
  note rows = history_rows_distinct [OF wf, of canon]
  have "distinct (map history_key (history_rows canon db))"
    using rows(1) keys by (auto simp: distinct_map inj_on_def stored_for_rows)
  moreover have "\<forall>ev\<in>set (history_rows canon db). event_safe ev \<and> cursor_codec e nft ev"
    using codec by (simp add: stored_for_rows)
  moreover have "length (history_rows canon db) < n" using rows(2) enough by linarith
  ultimately have pages: "concat (client_pages e cf running nft limit ms n None db) = history_sort (history_rows canon db)"
    using pages_are_rows [OF assms(1-4) _ _ assms(7-9)] by blast
  show ?thesis
    unfolding pages using rows(1) by (simp add: history_sort_def stored_for_rows)
qed

definition api_db0 :: idx_db where
  "api_db0 = db_run demo_ap (butlast demo_ops) empty_db"

definition api_env0 :: idx_api_env where
  "api_env0 = \<lparr>ia_num = (\<lambda>s. if s = ''2'' then Some 2 else None), ia_b64e = (\<lambda>s. s), ia_b64d = (\<lambda>s. s),
     ia_parse = (\<lambda>s. map_option (cursor_object ''EQa'') (find (\<lambda>ev. json_enc (cursor_object ''EQa'' ev) = s) (history_rows ''EQa'' api_db0))),
     ia_ap = demo_ap, ia_now = 0, ia_ms = 0\<rparr>"

lemma api_env0_facts:
  "distinct (map history_key (history_rows ''EQa'' api_db0))"
  "list_all (\<lambda>ev. event_safe ev \<and> cursor_codec api_env0 ''EQa'' ev) (history_rows ''EQa'' api_db0)"
  "length (internal_transfers api_db0) + length (merchant_payments api_db0) + length (account_state_changes api_db0) < 4"
  "set (history_rows ''EQa'' api_db0) = {H_transfer 10 1 ''t1'' 0 ''EQa'' ''EQb'' ''5'' ''p'', H_state_change 10 1 ''t2'' 0 0 1, H_state_change 20 2 ''t3'' 0 0 2}"
  by code_simp+

theorem api_history_complete_witness:
  "\<forall>cf. set (concat (client_pages api_env0 cf True ''EQa'' 2 (\<lambda>_. 0) 4 None api_db0)) =
     {H_transfer 10 1 ''t1'' 0 ''EQa'' ''EQb'' ''5'' ''p'', H_state_change 10 1 ''t2'' 0 0 1, H_state_change 20 2 ''t3'' 0 0 2}"
proof
  fix cf
  have "run_guarded new_block demo_ap (butlast demo_ops) empty_db" by code_simp
  moreover have n: "normalizeTonAddress demo_ap ''EQa'' = ''EQa''" "ia_num api_env0 (dec 2) = Some (of_nat 2)" by code_simp+
  moreover have "ia_ap api_env0 = demo_ap" by (simp add: api_env0_def)
  moreover have "ev = ev'" if "stored_for ''EQa'' api_db0 ev" "stored_for ''EQa'' api_db0 ev'" "history_key ev = history_key ev'" for ev ev'
    using api_env0_facts(1) that by (auto simp: distinct_map inj_on_def simp flip: stored_for_rows)
  moreover have "event_safe ev \<and> cursor_codec api_env0 ''EQa'' ev" if "stored_for ''EQa'' api_db0 ev" for ev
    using api_env0_facts(2) that by (simp add: list_all_iff flip: stored_for_rows)
  ultimately have "ev \<in> set (concat (client_pages api_env0 cf True ''EQa'' 2 (\<lambda>_. 0) 4 None api_db0)) \<longleftrightarrow> stored_for ''EQa'' api_db0 ev" for ev
    using api_history_complete [of api_env0 "butlast demo_ops" api_db0 "''EQa''" "''EQa''" 2 4 cf True "\<lambda>_. 0"]
      demo_ap_canonical api_env0_facts(3) by (simp add: api_db0_def)
  then show "set (concat (client_pages api_env0 cf True ''EQa'' 2 (\<lambda>_. 0) 4 None api_db0)) =
     {H_transfer 10 1 ''t1'' 0 ''EQa'' ''EQb'' ''5'' ''p'', H_state_change 10 1 ''t2'' 0 0 1, H_state_change 20 2 ''t3'' 0 0 2}"
    using api_env0_facts(4) by (simp add: set_eq_iff flip: stored_for_rows)
qed

section \<open>The address a request is counted under\<close>

lemma split_append: "splitForwardedFor (xs @ ys) = splitForwardedFor xs @ splitForwardedFor ys"
  by (simp add: splitForwardedFor_def)

lemma split_prepended: "CHR '','' \<notin> set p \<Longrightarrow> splitForwardedFor [p @ CHR '','' # h] = splitForwardedFor [p] @ splitForwardedFor [h]"
  by (simp add: splitForwardedFor_def js_split_append js_split_no_sep)

text \<open>
  The rate limit cannot be dodged by a forged header. When the trusted proxies have appended at least as many hops
  as are trusted, whatever a client puts in front of them, as further header values or as entries of the same value,
  leaves the address it is counted under unchanged; without trust the header has no effect at all.
\<close>

theorem client_ip_unspoofable:
  assumes "proxyCount \<le> int (length (splitForwardedFor genuine))"
  shows "getClientIp trustProxy proxyCount (forged @ genuine) remote = getClientIp trustProxy proxyCount genuine remote
    \<and> (genuine = [h] \<and> CHR '','' \<notin> set p \<longrightarrow>
         getClientIp trustProxy proxyCount [p @ CHR '','' # h] remote = getClientIp trustProxy proxyCount genuine remote)"
proof -
  have core: "getClientIp trustProxy proxyCount vals remote = getClientIp trustProxy proxyCount genuine remote"
    if split: "splitForwardedFor vals = xs @ splitForwardedFor genuine" for vals xs
  proof -
    obtain m where m: "max 0 proxyCount + int m = int (length (splitForwardedFor genuine))"
      using assms by (metis max.bounded_iff of_nat_0_le_iff zle_iff_zadd)
    then have "nat (int (length (splitForwardedFor genuine @ [r])) - max 0 proxyCount - 1) = m"
        "nat (int (length (splitForwardedFor vals @ [r])) - max 0 proxyCount - 1) = length xs + m"
        "0 \<le> int (length (splitForwardedFor genuine @ [r])) - max 0 proxyCount - 1"
        "0 \<le> int (length (splitForwardedFor vals @ [r])) - max 0 proxyCount - 1" for r
      using split by auto
    then show ?thesis unfolding getClientIp_def Let_def by (simp add: split)
  qed
  show ?thesis using core [OF split_append] core [of "[p @ CHR '','' # h]" "splitForwardedFor [p]"] split_prepended [of p h] by blast
qed

theorem client_ip_unspoofable_witness:
  "getClientIp True 1 [''9.9.9.9'', ''1.2.3.4''] (Some ''10.0.0.1'') = ''1.2.3.4''"
proof -
  have "getClientIp True 1 ([''9.9.9.9''] @ [''1.2.3.4'']) (Some ''10.0.0.1'') = getClientIp True 1 [''1.2.3.4''] (Some ''10.0.0.1'')"
    using client_ip_unspoofable [of 1 "[''1.2.3.4'']" True "[''9.9.9.9'']" "Some ''10.0.0.1''" "''1.2.3.4''" "[]"]
    by (simp add: splitForwardedFor_def js_trim_def js_space_def)
  moreover have "getClientIp True 1 [''1.2.3.4''] (Some ''10.0.0.1'') = ''1.2.3.4''" by code_simp
  ultimately show ?thesis by simp
qed

section \<open>Payment status\<close>

text \<open>
  The status the interface reports for a payment is the canonical confirmation predicate at the stored head, and in a
  database whose flags are canonical it is the flag of the payment's block.
\<close>

theorem payment_status_canonical:
  assumes "payment_endpoint k i db = (200, R_payment x)" "getPaymentByPayloadHash i db = Some pay"
  shows "(pt_status x = Pay_confirmed \<longleftrightarrow> getLatestChainSeqno db - r_block pay \<ge> k \<or> k \<le> 0)
    \<and> (pt_status x = Pay_pending \<longleftrightarrow> \<not> isBlockConfirmed (getLatestChainSeqno db) (r_block pay) k)
    \<and> pt_amount x = td_amount (r_data pay) \<and> pt_tx x = Some (r_tx pay)"
  using assms by (auto simp: payment_endpoint_def Let_def isBlockConfirmed_def confirmationDepth_def max_def split: if_splits)

end
