(* ===== verification/Idx_Migrations.thy ===== *)
theory Idx_Migrations
  imports Prelude "HOL-Library.Product_Lexorder"
begin

text \<open>
  The schema migrations of the indexer (\<open>backend/indexer/src/db/migrator.ts\<close>, \<open>db/sync-migrate.ts\<close>): numbered
  directories with an \<open>up\<close> and a \<open>down\<close> script per dialect, applied in the order of their versions, each in a transaction
  that also keeps the table \<open>schema_migrations\<close>. Executing SQL text and the digest are parameters; log lines are left
  out. Scripts neither end the transaction nor touch the table, as is the case for the scripts of the repository.
\<close>

section \<open>State\<close>

text \<open>\<open>me_exec sql\<close> acts on the schema and may fail having changed a part of it.\<close>

record 's mig_env =
  me_exec :: "string \<Rightarrow> 's \<Rightarrow> (string + unit) \<times> 's"
  me_sha256 :: "string \<Rightarrow> string"

text \<open>
  The directory of the migrations: \<open>None\<close> if it does not exist, else its entries in the order of \<open>readdir\<close>, each with
  whether it is a directory, and \<open>md_file dir file\<close> the content of a file.
\<close>

record mig_dir =
  md_entries :: "(string \<times> bool) list option"
  md_file :: "string \<Rightarrow> string \<Rightarrow> string option"

datatype dialect = Sqlite | Postgres

datatype direction = Up | Down

record migration =
  mg_version :: string
  mg_name :: string
  mg_dir :: string

record applied_migration =
  am_version :: string
  am_name :: string
  am_appliedAt :: int
  am_checksum :: string

record drift_entry =
  dr_version :: string
  dr_recorded :: string
  dr_current :: string

record migration_status =
  ms_dialect :: dialect
  ms_applied :: "applied_migration list"
  ms_pending :: "migration list"
  ms_drift :: "drift_entry list"

record 's mig_db =
  mdb_schema :: 's
  mdb_rows :: "applied_migration list"

section \<open>Discovery\<close>

definition is_alnum :: "char \<Rightarrow> bool" where
  "is_alnum c \<longleftrightarrow> (CHR ''A'' \<le> c \<and> c \<le> CHR ''Z'') \<or> (CHR ''a'' \<le> c \<and> c \<le> CHR ''z'') \<or> is_digit c"

definition match_migration_dir :: "string \<Rightarrow> (string \<times> string) option" where
  "match_migration_dir s =
     (let version = takeWhile is_digit s in
      case dropWhile is_digit s of
        c # n # rest \<Rightarrow>
          if 3 \<le> length version \<and> c = CHR ''_'' \<and> is_alnum n
             \<and> list_all (\<lambda>x. is_alnum x \<or> x = CHR ''_'' \<or> x = CHR ''-'') rest
          then Some (version, n # rest) else None
      | _ \<Rightarrow> None)"

text \<open>Versions are digits; \<open>localeCompare\<close> on them is the order of the dictionary.\<close>

definition compareMigrationVersions :: "string \<Rightarrow> string \<Rightarrow> int" where
  "compareMigrationVersions a b =
     (let aVersion = digits_val a; bVersion = digits_val b in
      if aVersion < bVersion then - 1 else if aVersion > bVersion then 1
      else if a < b then - 1 else if b < a then 1 else 0)"

text \<open>\<open>Array.sort\<close> with a comparison function, which is stable.\<close>

fun insert_by :: "('a \<Rightarrow> 'a \<Rightarrow> int) \<Rightarrow> 'a \<Rightarrow> 'a list \<Rightarrow> 'a list" where
  "insert_by cmp x [] = [x]"
| "insert_by cmp x (y # ys) = (if cmp x y \<le> 0 then x # y # ys else y # insert_by cmp x ys)"

definition array_sort :: "('a \<Rightarrow> 'a \<Rightarrow> int) \<Rightarrow> 'a list \<Rightarrow> 'a list" where
  "array_sort cmp xs = foldr (insert_by cmp) xs []"

fun first_repeated :: "string set \<Rightarrow> string list \<Rightarrow> string option" where
  "first_repeated seen [] = None"
| "first_repeated seen (v # vs) = (if v \<in> seen then Some v else first_repeated (insert v seen) vs)"

definition reject_duplicates :: "migration list \<Rightarrow> string + migration list" where
  "reject_duplicates ms =
     (case first_repeated {} (map mg_version ms) of
        Some v \<Rightarrow> Inl (''Duplicate migration version: '' @ v)
      | None \<Rightarrow> Inr ms)"

definition discover :: "mig_dir \<Rightarrow> string + migration list" where
  "discover fs =
     (case md_entries fs of
        None \<Rightarrow> Inr []
      | Some entries \<Rightarrow>
          let migrations = concat (map (\<lambda>(name, isDirectory).
                if \<not> isDirectory then []
                else case match_migration_dir name of None \<Rightarrow> []
                  | Some (v, n) \<Rightarrow> [\<lparr>mg_version = v, mg_name = n, mg_dir = name\<rparr>]) entries)
          in reject_duplicates (array_sort (\<lambda>a b. compareMigrationVersions (mg_version a) (mg_version b)) migrations))"

definition dialect_string :: "dialect \<Rightarrow> string" where
  "dialect_string d = (case d of Sqlite \<Rightarrow> ''sqlite'' | Postgres \<Rightarrow> ''postgres'')"

definition script_file :: "direction \<Rightarrow> dialect \<Rightarrow> string" where
  "script_file dir d = (case dir of Up \<Rightarrow> ''up'' | Down \<Rightarrow> ''down'') @ ''.'' @ dialect_string d @ ''.sql''"

definition readSql :: "dialect \<Rightarrow> mig_dir \<Rightarrow> migration \<Rightarrow> direction \<Rightarrow> string + string" where
  "readSql d fs m dir =
     (case md_file fs (mg_dir m) (script_file dir d) of
        None \<Rightarrow> Inl (''Migration '' @ mg_version m @ ''_'' @ mg_name m @ '' is missing '' @ script_file dir d)
      | Some sql \<Rightarrow> Inr sql)"

section \<open>The table of applied migrations\<close>

definition listApplied :: "'s mig_db \<Rightarrow> applied_migration list" where
  "listApplied db =
     array_sort (\<lambda>a b. compareMigrationVersions (am_version a) (am_version b)) (sort_key am_version (mdb_rows db))"

definition insert_row :: "applied_migration \<Rightarrow> 's mig_db \<Rightarrow> (string + unit) \<times> 's mig_db" where
  "insert_row r db =
     (if am_version r \<in> am_version ` set (mdb_rows db)
      then (Inl ''UNIQUE constraint failed: schema_migrations.version'', db)
      else (Inr (), db\<lparr>mdb_rows := mdb_rows db @ [r]\<rparr>))"

definition delete_row :: "string \<Rightarrow> 's mig_db \<Rightarrow> 's mig_db" where
  "delete_row v db = db\<lparr>mdb_rows := filter (\<lambda>r. am_version r \<noteq> v) (mdb_rows db)\<rparr>"

definition exec_sql :: "'s mig_env \<Rightarrow> string \<Rightarrow> 's mig_db \<Rightarrow> (string + unit) \<times> 's mig_db" where
  "exec_sql e sql db = (case me_exec e sql (mdb_schema db) of (r, s) \<Rightarrow> (r, db\<lparr>mdb_schema := s\<rparr>))"

text \<open>\<open>BEGIN\<close>, the body, and \<open>COMMIT\<close>, or \<open>ROLLBACK\<close> if the body throws.\<close>

definition in_transaction :: "('s mig_db \<Rightarrow> (string + unit) \<times> 's mig_db) \<Rightarrow> 's mig_db \<Rightarrow> (string + unit) \<times> 's mig_db" where
  "in_transaction body db = (case body db of (Inl err, _) \<Rightarrow> (Inl err, db) | (Inr u, db') \<Rightarrow> (Inr u, db'))"

definition apply_up :: "'s mig_env \<Rightarrow> string \<Rightarrow> applied_migration \<Rightarrow> 's mig_db \<Rightarrow> (string + unit) \<times> 's mig_db" where
  "apply_up e sql r = in_transaction (\<lambda>db.
     case exec_sql e sql db of (Inl err, db') \<Rightarrow> (Inl err, db') | (Inr _, db') \<Rightarrow> insert_row r db')"

definition apply_down :: "'s mig_env \<Rightarrow> string \<Rightarrow> string \<Rightarrow> 's mig_db \<Rightarrow> (string + unit) \<times> 's mig_db" where
  "apply_down e sql v = in_transaction (\<lambda>db.
     case exec_sql e sql db of (Inl err, db') \<Rightarrow> (Inl err, db') | (Inr _, db') \<Rightarrow> (Inr (), delete_row v db'))"

section \<open>The migrator\<close>

text \<open>\<open>clk k\<close> is the clock, in seconds, before the script that follows \<open>k\<close> others in this run.\<close>

definition applied_record :: "'s mig_env \<Rightarrow> (nat \<Rightarrow> int) \<Rightarrow> nat \<Rightarrow> migration \<Rightarrow> string \<Rightarrow> applied_migration" where
  "applied_record e clk k m sql =
     \<lparr>am_version = mg_version m, am_name = mg_name m, am_appliedAt = clk k, am_checksum = me_sha256 e sql\<rparr>"

fun up_loop :: "'s mig_env \<Rightarrow> dialect \<Rightarrow> mig_dir \<Rightarrow> (nat \<Rightarrow> int) \<Rightarrow> nat \<Rightarrow> migration list \<Rightarrow> 's mig_db \<Rightarrow>
    (string + applied_migration list) \<times> 's mig_db" where
  "up_loop e d fs clk k [] db = (Inr [], db)"
| "up_loop e d fs clk k (m # ms) db =
     (case readSql d fs m Up of
        Inl err \<Rightarrow> (Inl err, db)
      | Inr sql \<Rightarrow>
          let r = applied_record e clk k m sql in
          (case apply_up e sql r db of
             (Inl err, db') \<Rightarrow> (Inl err, db')
           | (Inr _, db') \<Rightarrow>
               (case up_loop e d fs clk (Suc k) ms db' of
                  (Inl err, db'') \<Rightarrow> (Inl err, db'')
                | (Inr rs, db'') \<Rightarrow> (Inr (r # rs), db''))))"

definition pending_of :: "migration list \<Rightarrow> applied_migration list \<Rightarrow> migration list" where
  "pending_of all_ms applied = filter (\<lambda>m. mg_version m \<notin> am_version ` set applied) all_ms"

definition mig_up :: "'s mig_env \<Rightarrow> dialect \<Rightarrow> mig_dir \<Rightarrow> (nat \<Rightarrow> int) \<Rightarrow> 's mig_db \<Rightarrow> (string + applied_migration list) \<times> 's mig_db" where
  "mig_up e d fs clk db =
     (case discover fs of
        Inl err \<Rightarrow> (Inl err, db)
      | Inr all_ms \<Rightarrow> up_loop e d fs clk 0 (pending_of all_ms (listApplied db)) db)"

fun down_loop :: "'s mig_env \<Rightarrow> dialect \<Rightarrow> mig_dir \<Rightarrow> migration list \<Rightarrow> applied_migration list \<Rightarrow> 's mig_db \<Rightarrow>
    (string + applied_migration list) \<times> 's mig_db" where
  "down_loop e d fs all_ms [] db = (Inr [], db)"
| "down_loop e d fs all_ms (r # rs) db =
     (case find (\<lambda>m. mg_version m = am_version r) all_ms of
        None \<Rightarrow> (Inl (''Cannot roll back '' @ am_version r @ '': migration files no longer exist on disk''), db)
      | Some m \<Rightarrow>
          (case readSql d fs m Down of
             Inl err \<Rightarrow> (Inl err, db)
           | Inr sql \<Rightarrow>
               (case apply_down e sql (mg_version m) db of
                  (Inl err, db') \<Rightarrow> (Inl err, db')
                | (Inr _, db') \<Rightarrow>
                    (case down_loop e d fs all_ms rs db' of
                       (Inl err, db'') \<Rightarrow> (Inl err, db'')
                     | (Inr done_rs, db'') \<Rightarrow> (Inr (r # done_rs), db'')))))"

definition mig_down :: "'s mig_env \<Rightarrow> dialect \<Rightarrow> mig_dir \<Rightarrow> int \<Rightarrow> 's mig_db \<Rightarrow> (string + applied_migration list) \<times> 's mig_db" where
  "mig_down e d fs steps db =
     (if steps < 1 then (Inl ''steps must be >= 1'', db)
      else
        let applied = listApplied db in
        if applied = [] then (Inr [], db)
        else case discover fs of
          Inl err \<Rightarrow> (Inl err, db)
        | Inr all_ms \<Rightarrow> down_loop e d fs all_ms (rev (drop (length applied - nat steps) applied)) db)"

fun drift_of :: "'s mig_env \<Rightarrow> dialect \<Rightarrow> mig_dir \<Rightarrow> migration list \<Rightarrow> applied_migration list \<Rightarrow> string + drift_entry list" where
  "drift_of e d fs all_ms [] = Inr []"
| "drift_of e d fs all_ms (r # rs) =
     (case find (\<lambda>m. mg_version m = am_version r) all_ms of
        None \<Rightarrow> drift_of e d fs all_ms rs
      | Some m \<Rightarrow>
          res_bind (readSql d fs m Up) (\<lambda>sql.
            res_bind (drift_of e d fs all_ms rs) (\<lambda>rest.
              Inr ((if me_sha256 e sql \<noteq> am_checksum r
                    then [\<lparr>dr_version = am_version r, dr_recorded = am_checksum r, dr_current = me_sha256 e sql\<rparr>]
                    else []) @ rest))))"

definition mig_status :: "'s mig_env \<Rightarrow> dialect \<Rightarrow> mig_dir \<Rightarrow> 's mig_db \<Rightarrow> string + migration_status" where
  "mig_status e d fs db =
     res_bind (discover fs) (\<lambda>all_ms.
       let applied = listApplied db in
       res_bind (drift_of e d fs all_ms applied) (\<lambda>drift.
         Inr \<lparr>ms_dialect = d, ms_applied = applied, ms_pending = pending_of all_ms applied, ms_drift = drift\<rparr>))"

section \<open>The synchronous runner of the start-up\<close>

fun discover_entries :: "mig_dir \<Rightarrow> (string \<times> bool) list \<Rightarrow> string + migration list" where
  "discover_entries fs [] = Inr []"
| "discover_entries fs ((name, isDirectory) # entries) =
     (if \<not> isDirectory then discover_entries fs entries
      else case match_migration_dir name of
        None \<Rightarrow> discover_entries fs entries
      | Some (v, n) \<Rightarrow>
          if md_file fs name ''up.sqlite.sql'' = None then Inl (''Migration '' @ name @ '' is missing up.sqlite.sql'')
          else res_bind (discover_entries fs entries) (\<lambda>ms. Inr (\<lparr>mg_version = v, mg_name = n, mg_dir = name\<rparr> # ms)))"

definition discoverSqliteMigrations :: "mig_dir \<Rightarrow> string + migration list" where
  "discoverSqliteMigrations fs =
     (case md_entries fs of
        None \<Rightarrow> Inr []
      | Some entries \<Rightarrow>
          res_bind (discover_entries fs entries) (\<lambda>ms.
            reject_duplicates (array_sort (\<lambda>a b. compareMigrationVersions (mg_version a) (mg_version b)) ms)))"

fun sync_loop :: "'s mig_env \<Rightarrow> mig_dir \<Rightarrow> (nat \<Rightarrow> int) \<Rightarrow> string set \<Rightarrow> nat \<Rightarrow> migration list \<Rightarrow> 's mig_db \<Rightarrow>
    (string + string list) \<times> 's mig_db" where
  "sync_loop e fs clk appliedSet k [] db = (Inr [], db)"
| "sync_loop e fs clk appliedSet k (m # ms) db =
     (if mg_version m \<in> appliedSet then sync_loop e fs clk appliedSet k ms db
      else case md_file fs (mg_dir m) ''up.sqlite.sql'' of
        None \<Rightarrow> (Inl ''ENOENT'', db)
      | Some sql \<Rightarrow>
          (case apply_up e sql (applied_record e clk k m sql) db of
             (Inl err, db') \<Rightarrow>
               (Inl (''Failed to apply migration '' @ mg_version m @ ''_'' @ mg_name m @ '': '' @ err), db')
           | (Inr _, db') \<Rightarrow>
               (case sync_loop e fs clk appliedSet (Suc k) ms db' of
                  (Inl err, db'') \<Rightarrow> (Inl err, db'')
                | (Inr names, db'') \<Rightarrow> (Inr ((mg_version m @ ''_'' @ mg_name m) # names), db''))))"

definition applySqliteMigrationsSync :: "'s mig_env \<Rightarrow> mig_dir \<Rightarrow> (nat \<Rightarrow> int) \<Rightarrow> 's mig_db \<Rightarrow> (string + string list) \<times> 's mig_db" where
  "applySqliteMigrationsSync e fs clk db =
     (case discoverSqliteMigrations fs of
        Inl err \<Rightarrow> (Inl err, db)
      | Inr discovered \<Rightarrow> sync_loop e fs clk (am_version ` set (mdb_rows db)) 0 discovered db)"

end
