(* ===== verification/Idx_Migrations_Props.thy ===== *)
theory Idx_Migrations_Props
  imports Idx_Migrations
begin

text \<open>
  The table of applied migrations is exact: the schema is what the recorded scripts make of the initial one, each applied
  once, over any runs up, runs down and start-up syncs and even when a script fails half-way; a completed run leaves
  nothing pending, the synchronous runner does what the
  migrator does, and rolling back what a run applied restores the schema.
\<close>

section \<open>Order of versions\<close>

abbreviation version_key :: "string \<Rightarrow> nat \<times> string" where
  "version_key v \<equiv> (digits_val v, v)"

lemma compare_key: "compareMigrationVersions a b \<le> 0 \<longleftrightarrow> version_key a \<le> version_key b"
  by (auto simp: compareMigrationVersions_def Let_def not_less)

lemma array_sort_key: "array_sort (\<lambda>a b. compareMigrationVersions (f a) (f b)) xs = sort_key (\<lambda>x. version_key (f x)) xs"
proof -
  have "insert_by (\<lambda>a b. compareMigrationVersions (f a) (f b)) x ys = insort_key (\<lambda>x. version_key (f x)) x ys" for x ys
    by (induction ys) (simp_all add: compare_key del: less_eq_prod_simp)
  then have "insert_by (\<lambda>a b. compareMigrationVersions (f a) (f b)) = insort_key (\<lambda>x. version_key (f x))"
    by (intro ext)
  then show ?thesis by (simp only: array_sort_def sort_key_def)
qed

lemma listApplied_set [simp]: "set (listApplied db) = set (mdb_rows db)"
  by (simp add: listApplied_def array_sort_key)

lemma first_repeated_None: "first_repeated seen vs = None \<longleftrightarrow> distinct vs \<and> set vs \<inter> seen = {}"
  by (induction vs arbitrary: seen) auto

lemma reject_duplicates_Inr: "reject_duplicates ms = Inr ms' \<longleftrightarrow> ms' = ms \<and> distinct (map mg_version ms)"
  using first_repeated_None [of "{}" "map mg_version ms"]
  by (cases "first_repeated {} (map mg_version ms)") (auto simp: reject_duplicates_def)

lemma discover_sorted:
  assumes "discover fs = Inr ms"
  shows "distinct (map mg_version ms)" "sorted (map (\<lambda>m. version_key (mg_version m)) ms)"
  using assms
  by (auto simp: discover_def Let_def reject_duplicates_Inr array_sort_key simp del: less_eq_prod_simp split: option.splits)

section \<open>One migration\<close>

lemma apply_up_Inr:
  "apply_up e sql r db = (Inr u, db') \<longleftrightarrow>
     (\<exists>s. me_exec e sql (mdb_schema db) = (Inr (), s) \<and> am_version r \<notin> am_version ` set (mdb_rows db)
        \<and> db' = db\<lparr>mdb_schema := s, mdb_rows := mdb_rows db @ [r]\<rparr>)"
  by (auto simp: apply_up_def in_transaction_def exec_sql_def insert_row_def split: prod.splits sum.splits if_splits)

lemma apply_up_Inl: "apply_up e sql r db = (Inl err, db') \<Longrightarrow> db' = db"
  by (auto simp: apply_up_def in_transaction_def split: prod.splits sum.splits)

lemma apply_down_Inr:
  "apply_down e sql v db = (Inr u, db') \<longleftrightarrow>
     (\<exists>s. me_exec e sql (mdb_schema db) = (Inr (), s)
        \<and> db' = db\<lparr>mdb_schema := s, mdb_rows := filter (\<lambda>r. am_version r \<noteq> v) (mdb_rows db)\<rparr>)"
  by (auto simp: apply_down_def in_transaction_def exec_sql_def delete_row_def split: prod.splits sum.splits)

section \<open>The ledger\<close>

fun replay :: "'s mig_env \<Rightarrow> string list \<Rightarrow> 's \<Rightarrow> 's option" where
  "replay e [] s = Some s"
| "replay e (sql # sqls) s = (case me_exec e sql s of (Inr _, s') \<Rightarrow> replay e sqls s' | _ \<Rightarrow> None)"

text \<open>
  The scripts that took effect on a database, in order: a migration that was applied with its record, or the version that was rolled back.
  What such a log leaves recorded; \<open>None\<close> for one that applies a recorded version or rolls back one that is not.
\<close>

datatype mig_step = Applied applied_migration string | Rolled_back string string

fun script_of :: "mig_step \<Rightarrow> string" where
  "script_of (Applied r sql) = sql"
| "script_of (Rolled_back v sql) = sql"

fun rows_after :: "mig_step list \<Rightarrow> applied_migration list \<Rightarrow> applied_migration list option" where
  "rows_after [] rows = Some rows"
| "rows_after (Applied r sql # h) rows = (if am_version r \<in> am_version ` set rows then None else rows_after h (rows @ [r]))"
| "rows_after (Rolled_back v sql # h) rows = (if v \<notin> am_version ` set rows then None else rows_after h (filter (\<lambda>r. am_version r \<noteq> v) rows))"

definition ledger :: "'s mig_env \<Rightarrow> 's \<Rightarrow> 's mig_db \<Rightarrow> bool" where
  "ledger e s0 db \<longleftrightarrow> distinct (map am_version (mdb_rows db)) \<and>
     (\<exists>h. rows_after h [] = Some (mdb_rows db) \<and> replay e (map script_of h) s0 = Some (mdb_schema db)
        \<and> (\<forall>r sql. Applied r sql \<in> set h \<longrightarrow> am_checksum r = me_sha256 e sql))"

text \<open>What a database can have gone through: runs of the migrator in both directions and starts of the service, failing or not.\<close>

inductive migrated :: "'s mig_env \<Rightarrow> 's \<Rightarrow> 's mig_db \<Rightarrow> bool" for e s0 where
  fresh: "migrated e s0 \<lparr>mdb_schema = s0, mdb_rows = []\<rparr>"
| run_up: "migrated e s0 db \<Longrightarrow> mig_up e d fs clk db = (res, db') \<Longrightarrow> migrated e s0 db'"
| run_down: "migrated e s0 db \<Longrightarrow> mig_down e d fs steps db = (res, db') \<Longrightarrow> migrated e s0 db'"
| run_sync: "migrated e s0 db \<Longrightarrow> applySqliteMigrationsSync e fs clk db = (names, db') \<Longrightarrow> migrated e s0 db'"

lemma rows_after_snoc: "rows_after (h @ [x]) rows = (case rows_after h rows of None \<Rightarrow> None | Some rows' \<Rightarrow> rows_after [x] rows')"
  by (induction h rows rule: rows_after.induct) auto

lemma replay_append: "replay e (xs @ [sql]) s = (case replay e xs s of None \<Rightarrow> None | Some t \<Rightarrow>
    (case me_exec e sql t of (Inr _, t') \<Rightarrow> Some t' | _ \<Rightarrow> None))"
  by (induction e xs s rule: replay.induct) (auto split: prod.splits sum.splits option.splits)

lemma apply_up_ledger:
  assumes "ledger e s0 db" "apply_up e sql r db = (res, db')" "am_checksum r = me_sha256 e sql"
  shows "ledger e s0 db'"
proof (cases res)
  case (Inr u)
  with assms(2) obtain s where s: "me_exec e sql (mdb_schema db) = (Inr (), s)" "am_version r \<notin> am_version ` set (mdb_rows db)"
      "db' = db\<lparr>mdb_schema := s, mdb_rows := mdb_rows db @ [r]\<rparr>"
    by (auto simp: apply_up_Inr)
  from assms(1) obtain h where h: "rows_after h [] = Some (mdb_rows db)" "replay e (map script_of h) s0 = Some (mdb_schema db)"
    "\<forall>r sql. Applied r sql \<in> set h \<longrightarrow> am_checksum r = me_sha256 e sql" by (auto simp: ledger_def)
  have "rows_after (h @ [Applied r sql]) [] = Some (mdb_rows db')" "replay e (map script_of (h @ [Applied r sql])) s0 = Some (mdb_schema db')"
    using h s by (simp_all add: rows_after_snoc replay_append)
  moreover have "\<forall>r' sql'. Applied r' sql' \<in> set (h @ [Applied r sql]) \<longrightarrow> am_checksum r' = me_sha256 e sql'" using h(3) assms(3) by simp
  moreover have "distinct (map am_version (mdb_rows db'))" using s assms(1) by (simp add: ledger_def)
  ultimately show ?thesis unfolding ledger_def by blast
qed (use assms apply_up_Inl in blast)

lemma apply_down_Inl: "apply_down e sql v db = (Inl err, db') \<Longrightarrow> db' = db"
  by (auto simp: apply_down_def in_transaction_def split: prod.splits sum.splits)

lemma apply_down_ledger:
  assumes "ledger e s0 db" "apply_down e sql v db = (res, db')" "v \<in> am_version ` set (mdb_rows db)"
  shows "ledger e s0 db'"
proof (cases res)
  case (Inr u)
  with assms(2) obtain s where s: "me_exec e sql (mdb_schema db) = (Inr (), s)"
      "db' = db\<lparr>mdb_schema := s, mdb_rows := filter (\<lambda>r. am_version r \<noteq> v) (mdb_rows db)\<rparr>"
    by (auto simp: apply_down_Inr)
  from assms(1) obtain h where h: "rows_after h [] = Some (mdb_rows db)" "replay e (map script_of h) s0 = Some (mdb_schema db)"
    "\<forall>r sql. Applied r sql \<in> set h \<longrightarrow> am_checksum r = me_sha256 e sql" by (auto simp: ledger_def)
  have "rows_after (h @ [Rolled_back v sql]) [] = Some (mdb_rows db')" "replay e (map script_of (h @ [Rolled_back v sql])) s0 = Some (mdb_schema db')"
    using h s assms(3) by (simp_all add: rows_after_snoc replay_append)
  moreover have "\<forall>r' sql'. Applied r' sql' \<in> set (h @ [Rolled_back v sql]) \<longrightarrow> am_checksum r' = me_sha256 e sql'" using h(3) by simp
  moreover have "distinct (map am_version (mdb_rows db'))" using s assms(1) by (simp add: ledger_def distinct_map_filter)
  ultimately show ?thesis unfolding ledger_def by blast
qed (use assms apply_down_Inl in blast)

lemma down_loop_Cons:
  assumes "down_loop e d fs ms (r # rs) db = (res, db')"
  obtains (stop) err where "res = Inl err" "db' = db"
  | (step) m sql u db1 res1 where "find (\<lambda>m. mg_version m = am_version r) ms = Some m" "readSql d fs m Down = Inr sql"
      "apply_down e sql (am_version r) db = (Inr u, db1)" "down_loop e d fs ms rs db1 = (res1, db')" "res = map_sum id ((#) r) res1"
proof (cases "find (\<lambda>m. mg_version m = am_version r) ms")
  case None
  with assms have "db' = db" "\<exists>err. res = Inl err" by auto
  then show thesis using stop by blast
next
  case (Some m)
  then have v: "mg_version m = am_version r" unfolding find_Some_iff by blast
  show thesis
  proof (cases "readSql d fs m Down")
    case (Inr sql)
    obtain r1 db1 where a: "apply_down e sql (am_version r) db = (r1, db1)" by fastforce
    obtain r2 db2 where b: "down_loop e d fs ms rs db1 = (r2, db2)" by fastforce
    show thesis
    proof (cases r1)
      case (Inl err)
      have "db' = db1 \<and> res = Inl err" using assms Some Inr a v \<open>r1 = Inl err\<close> by auto
      with apply_down_Inl [OF a [unfolded \<open>r1 = Inl err\<close>]] show thesis using stop by blast
    next
      case r1: (Inr u)
      have "res = map_sum id ((#) r) r2 \<and> db' = db2" using assms Some Inr a b r1 v by (cases r2) auto
      with Some Inr a b r1 show thesis using step by blast
    qed
  qed (use assms Some stop in auto)
qed

lemma down_loop_ledger:
  assumes "ledger e s0 db" "down_loop e d fs ms rs db = (res, db')" "set rs \<subseteq> set (mdb_rows db)" "distinct (map am_version rs)"
  shows "ledger e s0 db'"
  using assms
proof (induction rs arbitrary: db res)
  case (Cons r rs)
  from Cons.prems(2) show ?case
  proof (cases rule: down_loop_Cons)
    case (step m sql u db1 res1)
    have "ledger e s0 db1" by (rule apply_down_ledger [OF Cons.prems(1) step(3)]) (use Cons.prems(3) in simp)
    moreover have "x \<in> set (mdb_rows db1)" if x: "x \<in> set rs" for x
    proof -
      have "am_version x \<noteq> am_version r" using Cons.prems(4) imageI [OF x, of am_version] by auto
      moreover have "x \<in> set (mdb_rows db)" using Cons.prems(3) x by auto
      ultimately show ?thesis using step(3) by (auto simp: apply_down_Inr)
    qed
    ultimately show ?thesis using Cons.IH [OF _ step(4)] Cons.prems(4) by (simp add: subset_iff)
  qed (use Cons.prems in simp)
qed simp

lemma down_loop_rows:
  assumes "down_loop e d fs ms rs db = (Inr done_rs, db')"
  shows "done_rs = rs \<and> mdb_rows db' = filter (\<lambda>x. am_version x \<notin> am_version ` set rs) (mdb_rows db)"
  using assms
proof (induction rs arbitrary: db done_rs)
  case (Cons r rs)
  from Cons.prems show ?case
  proof (cases rule: down_loop_Cons)
    case (step m sql u db1 res1)
    then obtain rs1 where rs1: "res1 = Inr rs1" "done_rs = r # rs1" by (cases res1) auto
    with step Cons.IH [of db1 rs1] show ?thesis by (auto simp: apply_down_Inr intro: filter_cong)
  qed simp
qed simp

lemma listApplied_distinct: "distinct (map am_version (mdb_rows db)) \<Longrightarrow> distinct (map am_version (listApplied db))"
proof -
  assume d: "distinct (map am_version (mdb_rows db))"
  have "mset (map am_version (listApplied db)) = mset (map am_version (mdb_rows db))"
    by (simp add: listApplied_def array_sort_key)
  with d show ?thesis by (metis mset_eq_imp_distinct_iff)
qed

lemma mig_down_ledger: "ledger e s0 db \<Longrightarrow> ledger e s0 (snd (mig_down e d fs steps db))"
proof -
  assume l: "ledger e s0 db"
  let ?rs = "rev (drop (length (listApplied db) - nat steps) (listApplied db))"
  have "set ?rs \<subseteq> set (mdb_rows db)" using set_drop_subset [of "length (listApplied db) - nat steps" "listApplied db"] by simp
  moreover have "distinct (map am_version ?rs)"
    using distinct_drop [OF listApplied_distinct [of db]] l unfolding ledger_def by (simp add: rev_map [symmetric] drop_map)
  ultimately have "ledger e s0 (snd (down_loop e d fs ms ?rs db))" for ms
    using down_loop_ledger [OF l, of d fs ms ?rs "fst (down_loop e d fs ms ?rs db)"] by simp
  with l show ?thesis by (simp add: mig_down_def Let_def split: sum.split)
qed

lemma up_loop_Cons:
  assumes "up_loop e d fs clk k (m # ms) db = (res, db')"
  obtains (stop) err where "res = Inl err" "db' = db"
  | (step) sql u db1 res1 where "readSql d fs m Up = Inr sql" "apply_up e sql (applied_record e clk k m sql) db = (Inr u, db1)"
      "up_loop e d fs clk (Suc k) ms db1 = (res1, db')" "res = map_sum id ((#) (applied_record e clk k m sql)) res1"
proof (cases "readSql d fs m Up")
  case (Inr sql)
  obtain r1 db1 where a: "apply_up e sql (applied_record e clk k m sql) db = (r1, db1)" by fastforce
  obtain r2 db2 where b: "up_loop e d fs clk (Suc k) ms db1 = (r2, db2)" by fastforce
  show thesis
  proof (cases r1)
    case (Inl err)
    with assms Inr a show thesis using stop apply_up_Inl [of e sql _ db err db1] by auto
  next
    case r1: (Inr u)
    have "res = map_sum id ((#) (applied_record e clk k m sql)) r2 \<and> db' = db2"
      using assms Inr a b r1 by (cases r2) auto
    with Inr a b r1 show thesis using step by blast
  qed
qed (use assms stop in auto)

lemma up_loop_ledger: "ledger e s0 db \<Longrightarrow> up_loop e d fs clk k ms db = (res, db') \<Longrightarrow> ledger e s0 db'"
proof (induction ms arbitrary: k db res)
  case (Cons m ms)
  from Cons.prems(2) show ?case
  proof (cases rule: up_loop_Cons)
    case (step sql u db1 res1)
    with Cons.IH [of db1 "Suc k" res1] apply_up_ledger [OF Cons.prems(1) step(2)] show ?thesis
      by (simp add: applied_record_def)
  qed (use Cons.prems in simp)
qed simp

text \<open>The synchronous runner does what the migrator does with the migrations that are not recorded.\<close>

definition names_of :: "applied_migration list \<Rightarrow> string list" where
  "names_of rs = map (\<lambda>r. am_version r @ ''_'' @ am_name r) rs"

definition runs_agree :: "(string + string list) \<times> 's mig_db \<Rightarrow> (string + applied_migration list) \<times> 's mig_db \<Rightarrow> bool" where
  "runs_agree x y \<longleftrightarrow> snd x = snd y \<and>
     (case fst y of Inr rs \<Rightarrow> fst x = Inr (names_of rs) | Inl _ \<Rightarrow> isl (fst x))"

lemma sync_loop_up:
  assumes "\<forall>m\<in>set ms. md_file fs (mg_dir m) ''up.sqlite.sql'' \<noteq> None"
  shows "runs_agree (sync_loop e fs clk vs k ms db) (up_loop e Sqlite fs clk k (filter (\<lambda>m. mg_version m \<notin> vs) ms) db)"
  using assms
proof (induction ms arbitrary: k db)
  case (Cons m ms)
  then have IH: "runs_agree (sync_loop e fs clk vs k' ms db') (up_loop e Sqlite fs clk k' (filter (\<lambda>m. mg_version m \<notin> vs) ms) db')" for k' db'
    by simp
  show ?case
  proof (cases "mg_version m \<in> vs")
    case False
    from Cons.prems obtain sql where sql: "md_file fs (mg_dir m) ''up.sqlite.sql'' = Some sql" by auto
    then have read: "readSql Sqlite fs m Up = Inr sql" by (simp add: readSql_def script_file_def dialect_string_def)
    obtain r1 db1 where a: "apply_up e sql (applied_record e clk k m sql) db = (r1, db1)" by fastforce
    show ?thesis
      using IH [of "Suc k" db1] False sql read a
      by (cases r1; cases "up_loop e Sqlite fs clk (Suc k) (filter (\<lambda>m. mg_version m \<notin> vs) ms) db1";
          cases "sync_loop e fs clk vs (Suc k) ms db1")
        (auto simp: runs_agree_def names_of_def applied_record_def isl_def split: sum.splits)
  qed (simp add: IH)
qed (simp add: names_of_def runs_agree_def)

lemma discover_entries_Inr:
  "discover_entries fs es = Inr ms \<Longrightarrow>
     ms = concat (map (\<lambda>(name, isDirectory). if \<not> isDirectory then [] else case match_migration_dir name of None \<Rightarrow> []
        | Some (v, n) \<Rightarrow> [\<lparr>mg_version = v, mg_name = n, mg_dir = name\<rparr>]) es)
     \<and> (\<forall>m\<in>set ms. md_file fs (mg_dir m) ''up.sqlite.sql'' \<noteq> None)"
  by (induction fs es arbitrary: ms rule: discover_entries.induct) (auto simp: res_bind_eq_Inr split: if_splits option.splits)

lemma discoverSqlite_Inr:
  assumes "discoverSqliteMigrations fs = Inr ms"
  shows "discover fs = Inr ms" "\<forall>m\<in>set ms. md_file fs (mg_dir m) ''up.sqlite.sql'' \<noteq> None"
  using assms discover_entries_Inr [of fs]
  by (fastforce simp: discoverSqliteMigrations_def discover_def Let_def res_bind_eq_Inr reject_duplicates_Inr array_sort_key
      split: option.splits)+

lemma pending_rows: "pending_of ms (listApplied db) = filter (\<lambda>m. mg_version m \<notin> am_version ` set (mdb_rows db)) ms"
  by (simp add: pending_of_def)

text \<open>
  The synchronous runner and the migrator agree: when the former accepts the directory, both leave the same database,
  and one reports the migrations that the other returns.
\<close>

theorem sync_equals_async:
  assumes "discoverSqliteMigrations fs = Inr ms"
  shows "runs_agree (applySqliteMigrationsSync e fs clk db) (mig_up e Sqlite fs clk db)"
  using sync_loop_up [OF discoverSqlite_Inr(2) [OF assms], of e clk "am_version ` set (mdb_rows db)" 0 db]
  unfolding applySqliteMigrationsSync_def mig_up_def assms discoverSqlite_Inr(1) [OF assms] by (simp add: pending_rows)

lemma sync_snd:
  "snd (applySqliteMigrationsSync e fs clk db) = db \<or> snd (applySqliteMigrationsSync e fs clk db) = snd (mig_up e Sqlite fs clk db)"
  using sync_equals_async [of fs]
  by (cases "discoverSqliteMigrations fs") (auto simp: applySqliteMigrationsSync_def runs_agree_def)

lemma mig_up_ledger: "ledger e s0 db \<Longrightarrow> ledger e s0 (snd (mig_up e d fs clk db))"
  by (auto simp: mig_up_def split: sum.split) (metis prod.collapse up_loop_ledger)

lemma migrated_ledger: "migrated e s0 db \<Longrightarrow> ledger e s0 db"
proof (induction rule: migrated.induct)
  case fresh
  show ?case by (auto simp: ledger_def intro!: exI [of _ "[]"])
next
  case (run_up db d fs clk res db')
  with mig_up_ledger [OF run_up.IH, of d fs clk] show ?case by simp
next
  case (run_down db d fs steps res db')
  with mig_down_ledger [OF run_down.IH, of d fs steps] show ?case by simp
next
  case (run_sync db fs clk names db')
  with mig_up_ledger [OF run_sync.IH, of Sqlite fs clk] sync_snd [of e fs clk db] run_sync.IH show ?case
    by (metis run_sync.hyps(2) snd_conv)
qed

section \<open>A completed run\<close>

lemma up_loop_rows:
  "up_loop e d fs clk k ms db = (Inr rs, db') \<Longrightarrow> mdb_rows db' = mdb_rows db @ rs \<and> map am_version rs = map mg_version ms"
proof (induction ms arbitrary: k db rs)
  case (Cons m ms)
  from Cons.prems show ?case
  proof (cases rule: up_loop_Cons)
    case (step sql u db1 res1)
    then obtain rs1 where rs1: "res1 = Inr rs1" "rs = applied_record e clk k m sql # rs1" by (cases res1) auto
    with step Cons.IH [of "Suc k" db1 rs1] show ?thesis by (auto simp: apply_up_Inr applied_record_def)
  qed simp
qed simp

lemma mig_up_rows:
  assumes "mig_up e d fs clk db = (Inr rs, db')"
  obtains ms where "discover fs = Inr ms" "mdb_rows db' = mdb_rows db @ rs"
    "map am_version rs = filter (\<lambda>v. v \<notin> am_version ` set (mdb_rows db)) (map mg_version ms)"
    "pending_of ms (listApplied db') = []"
proof -
  from assms obtain ms where ms: "discover fs = Inr ms" "up_loop e d fs clk 0 (pending_of ms (listApplied db)) db = (Inr rs, db')"
    by (cases "discover fs") (simp_all add: mig_up_def)
  note rows = up_loop_rows [OF ms(2)]
  then have vs: "map am_version rs = filter (\<lambda>v. v \<notin> am_version ` set (mdb_rows db)) (map mg_version ms)"
    by (simp add: pending_of_def filter_map comp_def)
  have "mg_version m \<in> am_version ` set (mdb_rows db')" if "m \<in> set ms" for m
  proof -
    from that have "mg_version m \<in> set (map am_version rs) \<union> am_version ` set (mdb_rows db)" unfolding vs by auto
    then show ?thesis by (simp add: rows [THEN conjunct1] image_Un Un_commute)
  qed
  then have "pending_of ms (listApplied db') = []" by (simp add: pending_rows)
  with ms(1) rows vs show ?thesis using that by blast
qed


lemma completed_rerun:
  assumes "mig_up e d fs clk db = (Inr rs, db')"
  shows "mig_up e d fs clk' db' = (Inr [], db')"
  by (rule mig_up_rows [OF assms]) (simp add: mig_up_def)

lemma mig_down_rows:
  assumes distinct: "distinct (map am_version (mdb_rows db))" and run: "mig_down e d fs steps db = (Inr rs, db')"
  shows "length rs = min (nat steps) (length (mdb_rows db)) \<and> set rs \<subseteq> set (mdb_rows db)
    \<and> mdb_rows db' = filter (\<lambda>x. x \<notin> set rs) (mdb_rows db)
    \<and> (\<forall>x\<in>set rs. \<forall>y\<in>set (mdb_rows db'). version_key (am_version y) < version_key (am_version x))"
proof -
  let ?A = "listApplied db" and ?key = "\<lambda>r. version_key (am_version r)"
  let ?k = "length ?A - nat steps"
  have len: "length ?A = length (mdb_rows db)" by (simp add: listApplied_def array_sort_key)
  have sort: "sorted (map ?key ?A)" by (simp add: listApplied_def array_sort_key del: less_eq_prod_simp)
  have dist: "distinct (map am_version ?A)" by (rule listApplied_distinct [OF distinct])
  have rs: "rs = rev (drop ?k ?A) \<and> mdb_rows db' = filter (\<lambda>x. am_version x \<notin> am_version ` set (drop ?k ?A)) (mdb_rows db)"
  proof (cases "?A = []")
    case True
    then have "mdb_rows db = []" using len by simp
    with True run show ?thesis by (auto simp: mig_down_def split: if_splits)
  next
    case False
    with run obtain ms where "down_loop e d fs ms (rev (drop ?k ?A)) db = (Inr rs, db')"
      by (auto simp: mig_down_def Let_def split: if_splits sum.splits)
    from down_loop_rows [OF this] show ?thesis by simp
  qed
  have sub: "set rs \<subseteq> set (mdb_rows db)" using rs set_drop_subset [of ?k ?A] by simp
  have inj: "inj_on am_version (set (mdb_rows db))" using distinct by (simp add: distinct_map)
  have rest: "mdb_rows db' = filter (\<lambda>x. x \<notin> set rs) (mdb_rows db)"
  proof -
    have "am_version x \<notin> am_version ` set (drop ?k ?A) \<longleftrightarrow> x \<notin> set rs" if "x \<in> set (mdb_rows db)" for x
      using that sub inj rs by (auto simp: inj_on_def)
    then show ?thesis using rs by (simp cong: filter_cong)
  qed
  have above: "?key y < ?key x" if x: "x \<in> set rs" and y: "y \<in> set (mdb_rows db')" for x y
  proof -
    have "x \<in> set (drop ?k ?A)" using x rs by simp
    moreover have "y \<in> set (take ?k ?A)"
    proof -
      have "y \<in> set ?A" "y \<notin> set (drop ?k ?A)" using y rest rs by auto
      then show ?thesis using set_append [of "take ?k ?A" "drop ?k ?A"] by (metis Un_iff append_take_drop_id)
    qed
    moreover have "sorted (map ?key (take ?k ?A @ drop ?k ?A))" using sort by (simp only: append_take_drop_id)
    ultimately have "?key y \<le> ?key x" unfolding map_append sorted_append by auto
    moreover have "am_version y \<noteq> am_version x"
      using x y sub rest inj by (auto simp: inj_on_def)
    ultimately show ?thesis by (metis order_le_imp_less_or_eq prod.inject)
  qed
  show ?thesis using rs len sub rest above by (simp add: min_def)
qed

text \<open>
  C36. The table of migrations is exact. Whatever runs of the migrator, up and down, and starts of the service a database has seen, over
  whatever directories and with whatever failures in the middle of a script, there is a log of the scripts that took effect: a
  version is applied only when it is not recorded and rolled back only when it is, the table holds exactly the versions that are
  applied and not rolled back since, each once and with the digest of the script that was run, and the schema is exactly what
  the scripts of the log make of the initial schema. A run up that
  completes records the migrations of the directory that were missing, in the order of their versions, and repeating it
  changes nothing; a run down that completes takes back the given number of the highest versions, all of them if there are fewer, and
  removes just their records.
\<close>

theorem migrations_exactly_once:
  assumes "migrated e s0 db"
  shows "distinct (map am_version (mdb_rows db))
    \<and> (\<exists>h. rows_after h [] = Some (mdb_rows db) \<and> replay e (map script_of h) s0 = Some (mdb_schema db)
         \<and> (\<forall>r sql. Applied r sql \<in> set h \<longrightarrow> am_checksum r = me_sha256 e sql))
    \<and> (\<forall>rs db'. mig_up e d fs clk db = (Inr rs, db') \<longrightarrow>
         mdb_rows db' = mdb_rows db @ rs \<and> sorted (map version_key (map am_version rs))
         \<and> (\<exists>ms. discover fs = Inr ms \<and> set (map am_version rs) = mg_version ` set ms - am_version ` set (mdb_rows db))
         \<and> mig_up e d fs clk' db' = (Inr [], db'))
    \<and> (\<forall>rs db'. mig_down e d fs steps db = (Inr rs, db') \<longrightarrow>
         length rs = min (nat steps) (length (mdb_rows db)) \<and> set rs \<subseteq> set (mdb_rows db)
         \<and> mdb_rows db' = filter (\<lambda>x. x \<notin> set rs) (mdb_rows db)
         \<and> (\<forall>x\<in>set rs. \<forall>y\<in>set (mdb_rows db'). version_key (am_version y) < version_key (am_version x)))"
proof -
  note led = migrated_ledger [OF assms, unfolded ledger_def]
  have "mdb_rows db' = mdb_rows db @ rs \<and> sorted (map version_key (map am_version rs))
      \<and> (\<exists>ms. discover fs = Inr ms \<and> set (map am_version rs) = mg_version ` set ms - am_version ` set (mdb_rows db))"
    if run: "mig_up e d fs clk db = (Inr rs, db')" for rs db'
  proof (rule mig_up_rows [OF run])
    fix ms
    assume ms: "discover fs = Inr ms" "mdb_rows db' = mdb_rows db @ rs"
      "map am_version rs = filter (\<lambda>v. v \<notin> am_version ` set (mdb_rows db)) (map mg_version ms)"
    have "sorted (map version_key (map mg_version ms))" using discover_sorted(2) [OF ms(1)] by (simp add: comp_def)
    then have "sorted (map version_key (map am_version rs))" unfolding ms(3) by (rule sorted_filter)
    then show ?thesis using ms by auto
  qed
  with completed_rerun have up: "\<forall>rs db'. mig_up e d fs clk db = (Inr rs, db') \<longrightarrow>
         mdb_rows db' = mdb_rows db @ rs \<and> sorted (map version_key (map am_version rs))
         \<and> (\<exists>ms. discover fs = Inr ms \<and> set (map am_version rs) = mg_version ` set ms - am_version ` set (mdb_rows db))
         \<and> mig_up e d fs clk' db' = (Inr [], db')"
    by blast
  show ?thesis
  proof (intro conjI)
    show "distinct (map am_version (mdb_rows db))" by (rule led [THEN conjunct1])
    from mig_down_rows [OF this] show "\<forall>rs db'. mig_down e d fs steps db = (Inr rs, db') \<longrightarrow>
         length rs = min (nat steps) (length (mdb_rows db)) \<and> set rs \<subseteq> set (mdb_rows db)
         \<and> mdb_rows db' = filter (\<lambda>x. x \<notin> set rs) (mdb_rows db)
         \<and> (\<forall>x\<in>set rs. \<forall>y\<in>set (mdb_rows db'). version_key (am_version y) < version_key (am_version x))" by (intro allI impI)
  qed (rule led [THEN conjunct2], rule up)
qed

section \<open>Rolling back\<close>

text \<open>The scripts of a migration are inverse to each other wherever the first succeeds.\<close>

definition inverse_scripts :: "'s mig_env \<Rightarrow> dialect \<Rightarrow> mig_dir \<Rightarrow> migration \<Rightarrow> bool" where
  "inverse_scripts e d fs m \<longleftrightarrow>
     (\<exists>up_sql down_sql. readSql d fs m Up = Inr up_sql \<and> readSql d fs m Down = Inr down_sql
        \<and> (\<forall>s s'. me_exec e up_sql s = (Inr (), s') \<longrightarrow> me_exec e down_sql s' = (Inr (), s)))"

lemma down_loop_append:
  "down_loop e d fs ms (xs @ ys) db = (case down_loop e d fs ms xs db of
     (Inl err, db1) \<Rightarrow> (Inl err, db1)
   | (Inr r1, db1) \<Rightarrow> (case down_loop e d fs ms ys db1 of (Inl err, db2) \<Rightarrow> (Inl err, db2) | (Inr r2, db2) \<Rightarrow> (Inr (r1 @ r2), db2)))"
proof (induction xs arbitrary: db)
  case (Cons r xs)
  show ?case
  proof (cases "find (\<lambda>m. mg_version m = am_version r) ms")
    case (Some m)
    show ?thesis
    proof (cases "readSql d fs m Down")
      case (Inr sql)
      obtain r1 db1 where a: "apply_down e sql (mg_version m) db = (r1, db1)" by fastforce
      obtain r2 db2 where b: "down_loop e d fs ms xs db1 = (r2, db2)" by fastforce
      obtain r3 db3 where c: "down_loop e d fs ms ys db2 = (r3, db3)" by fastforce
      show ?thesis using Some Inr a b c Cons.IH [of db1] by (cases r1; cases r2; cases r3) simp_all
    qed (use Some in simp)
  qed simp
qed (simp split: prod.split sum.split)

lemma down_undoes_loop:
  assumes "up_loop e d fs clk k ms db = (Inr rs, db')" "set ms \<subseteq> set all_ms" "distinct (map mg_version all_ms)"
    and "\<forall>m\<in>set ms. inverse_scripts e d fs m" "distinct (map mg_version ms)" "mg_version ` set ms \<inter> am_version ` set (mdb_rows db) = {}"
  shows "down_loop e d fs all_ms (rev rs) db' = (Inr (rev rs), db)"
  using assms(1,2,4-)
proof (induction ms arbitrary: k db rs)
  case (Cons m ms)
  from Cons.prems(1) show ?case
  proof (cases rule: up_loop_Cons)
    case (step sql u db1 res1)
    let ?r = "applied_record e clk k m sql"
    obtain rs1 where rs1: "res1 = Inr rs1" "rs = ?r # rs1" using step(4) by (cases res1) auto
    from step(2) obtain s where s: "me_exec e sql (mdb_schema db) = (Inr (), s)" "db1 = db\<lparr>mdb_schema := s, mdb_rows := mdb_rows db @ [?r]\<rparr>"
      by (auto simp: apply_up_Inr)
    have later: "down_loop e d fs all_ms (rev rs1) db' = (Inr (rev rs1), db1)"
      by (rule Cons.IH [of "Suc k" db1 rs1]) (use step rs1 Cons.prems s in \<open>auto simp: applied_record_def\<close>)
    have found: "find (\<lambda>x. mg_version x = am_version ?r) all_ms = Some m"
      using Cons.prems(2) assms(3) unfolding find_Some_iff
      by (auto simp: applied_record_def in_set_conv_nth distinct_conv_nth)
    from Cons.prems(3) obtain up_sql down_sql where scripts: "readSql d fs m Up = Inr up_sql" "readSql d fs m Down = Inr down_sql"
        "\<And>s s'. me_exec e up_sql s = (Inr (), s') \<Longrightarrow> me_exec e down_sql s' = (Inr (), s)"
      by (auto simp: inverse_scripts_def)
    with step(1) s have "me_exec e down_sql (mdb_schema db1) = (Inr (), mdb_schema db)" by simp
    moreover have "filter (\<lambda>r. am_version r \<noteq> mg_version m) (mdb_rows db1) = mdb_rows db"
      using Cons.prems(5) s by (auto simp: applied_record_def filter_id_conv image_iff)
    ultimately have "apply_down e down_sql (mg_version m) db1 = (Inr (), db)"
      unfolding apply_down_Inr s(2) by simp
    with found scripts(2) have "down_loop e d fs all_ms [?r] db1 = (Inr [?r], db)" by simp
    with later rs1 show ?thesis by (simp only: rev.simps down_loop_append prod.case sum.case)
  qed simp
qed simp

text \<open>
  What a run applied can be taken back: if every version it added is above those recorded before, and the scripts of each
  new migration are inverse, rolling back as many steps as were applied restores schema and table.
\<close>

theorem down_undoes_up:
  assumes "migrated e s0 db" "mig_up e d fs clk db = (Inr rs, db')" "discover fs = Inr ms" "rs \<noteq> []"
    and "\<forall>m\<in>set ms. inverse_scripts e d fs m"
    and above: "\<forall>r\<in>set (mdb_rows db). \<forall>r'\<in>set rs. version_key (am_version r) < version_key (am_version r')"
  shows "mig_down e d fs (int (length rs)) db' = (Inr (rev rs), db)"
proof -
  let ?key = "\<lambda>r. version_key (am_version r)"
  from assms(2,3) have loop: "up_loop e d fs clk 0 (pending_of ms (listApplied db)) db = (Inr rs, db')" by (simp add: mig_up_def)
  note rows = up_loop_rows [OF loop]
  have d: "distinct (map mg_version ms)" "sorted (map (\<lambda>m. version_key (mg_version m)) ms)" using discover_sorted [OF assms(3)] by auto
  have "sorted (map version_key (map am_version rs))"
    unfolding rows [THEN conjunct2] using sorted_filter [OF d(2)] by (simp add: pending_of_def comp_def)
  then have sorted: "sorted (map ?key rs)" by (simp add: comp_def)
  have d': "distinct (map mg_version (pending_of ms (listApplied db)))" using d by (simp add: pending_of_def distinct_map_filter)
  have "distinct (map am_version (mdb_rows db'))"
    using migrated_ledger [OF run_up [OF assms(1,2)]] by (simp add: ledger_def)
  then have inj: "inj_on ?key (set (mdb_rows db'))" by (auto simp: distinct_map inj_on_def)
  have applied: "listApplied db' = sort_key ?key (mdb_rows db) @ rs"
    unfolding listApplied_def array_sort_key
  proof (rule sort_key_inj_key_eq)
    show "mset (sort_key am_version (mdb_rows db')) = mset (sort_key ?key (mdb_rows db) @ rs)" using rows by simp
    show "inj_on ?key (set (sort_key am_version (mdb_rows db')))" using inj by simp
    show "sorted (map ?key (sort_key ?key (mdb_rows db) @ rs))"
      using sorted above by (auto simp: sorted_append simp del: less_eq_prod_simp less_prod_simp intro: less_imp_le)
  qed
  have "down_loop e d fs ms (rev rs) db' = (Inr (rev rs), db)"
    by (rule down_undoes_loop [OF loop _ d(1) _ d']) (use assms(5) in \<open>auto simp: pending_of_def\<close>)
  moreover have "drop (length (listApplied db') - nat (int (length rs))) (listApplied db') = rs" by (simp add: applied)
  ultimately show ?thesis using assms(3,4) applied by (simp add: mig_down_def Let_def)
qed

section \<open>A database\<close>

text \<open>A schema is the list of executed statements; the script \<open>bad\<close> fails after a statement of its own.\<close>

definition demo_env :: "string list mig_env" where
  "demo_env = \<lparr>me_exec = (\<lambda>sql s. if sql = ''bad'' then (Inl ''syntax error'', s @ [''half'']) else (Inr (), s @ [sql])),
     me_sha256 = (\<lambda>sql. sql)\<rparr>"

definition demo_dir :: "string \<Rightarrow> mig_dir" where
  "demo_dir third = \<lparr>md_entries = Some [(''010_c'', True), (''README'', True), (''notes'', False), (''002_b'', True), (''001_a'', True)],
     md_file = (\<lambda>dir file. if file \<noteq> ''up.sqlite.sql'' then None
        else if dir = ''001_a'' then Some ''A'' else if dir = ''002_b'' then Some ''B''
        else if dir = ''010_c'' then Some third else None)\<rparr>"

definition demo_failed :: "string list mig_db" where
  "demo_failed = snd (applySqliteMigrationsSync demo_env (demo_dir ''bad'') int \<lparr>mdb_schema = [], mdb_rows = []\<rparr>)"

lemma demo_failed_facts:
  "mdb_schema demo_failed = [''A'', ''B'']" "map am_version (mdb_rows demo_failed) = [''001'', ''002'']"
  "isl (fst (applySqliteMigrationsSync demo_env (demo_dir ''bad'') int \<lparr>mdb_schema = [], mdb_rows = []\<rparr>))"
  "fst (mig_up demo_env Sqlite (demo_dir ''C'') int demo_failed) = Inr [\<lparr>am_version = ''010'', am_name = ''c'', am_appliedAt = 0, am_checksum = ''C''\<rparr>]"
  by code_simp+

definition late_dir :: mig_dir where
  "late_dir = \<lparr>md_entries = Some [(''001_a'', True), (''002_b'', True)], md_file = (\<lambda>dir file. Some (dir @ file))\<rparr>"

text \<open>Two migrations applied, the higher one rolled back.\<close>

definition demo_back :: "string list mig_db" where
  "demo_back = snd (mig_down demo_env Sqlite late_dir 1 (snd (mig_up demo_env Sqlite late_dir int \<lparr>mdb_schema = [], mdb_rows = []\<rparr>)))"

lemma demo_back_facts:
  "mdb_schema demo_back = [''001_aup.sqlite.sql'', ''002_bup.sqlite.sql'', ''002_bdown.sqlite.sql'']" "map am_version (mdb_rows demo_back) = [''001'']"
  by code_simp+

lemma demo_back_migrated: "migrated demo_env [] demo_back"
  unfolding demo_back_def by (rule migrated.run_down [OF migrated.run_up [OF migrated.fresh]]) (rule prod.collapse [symmetric])+

theorem migrations_exactly_once_witness:
  "mig_up demo_env Sqlite (demo_dir ''C'') int (snd (mig_up demo_env Sqlite (demo_dir ''C'') int demo_failed))
     = (Inr [], snd (mig_up demo_env Sqlite (demo_dir ''C'') int demo_failed))
   \<and> map am_version (mdb_rows (snd (mig_up demo_env Sqlite (demo_dir ''C'') int demo_failed))) = [''001'', ''002'', ''010'']
   \<and> (\<exists>h. rows_after h [] = Some (mdb_rows demo_back)
        \<and> replay demo_env (map script_of h) [] = Some [''001_aup.sqlite.sql'', ''002_bup.sqlite.sql'', ''002_bdown.sqlite.sql''])"
proof -
  obtain names where run: "applySqliteMigrationsSync demo_env (demo_dir ''bad'') int \<lparr>mdb_schema = [], mdb_rows = []\<rparr> = (names, demo_failed)"
    unfolding demo_failed_def by (metis prod.collapse)
  have m: "migrated demo_env [] demo_failed" by (rule migrated.run_sync [OF migrated.fresh run])
  have "mig_up demo_env Sqlite (demo_dir ''C'') int demo_failed
    = (Inr [\<lparr>am_version = ''010'', am_name = ''c'', am_appliedAt = 0, am_checksum = ''C''\<rparr>],
       snd (mig_up demo_env Sqlite (demo_dir ''C'') int demo_failed))"
    using demo_failed_facts(4) by (metis prod.collapse)
  with migrations_exactly_once [OF m, of Sqlite "demo_dir ''C''" int int] demo_failed_facts(2)
  have "mig_up demo_env Sqlite (demo_dir ''C'') int (snd (mig_up demo_env Sqlite (demo_dir ''C'') int demo_failed))
     = (Inr [], snd (mig_up demo_env Sqlite (demo_dir ''C'') int demo_failed))"
    "map am_version (mdb_rows (snd (mig_up demo_env Sqlite (demo_dir ''C'') int demo_failed))) = [''001'', ''002'', ''010'']"
    by simp_all
  moreover have "\<exists>h. rows_after h [] = Some (mdb_rows demo_back) \<and> replay demo_env (map script_of h) [] = Some (mdb_schema demo_back)"
    using migrations_exactly_once [OF demo_back_migrated, of Sqlite late_dir int int 1] by blast
  ultimately show ?thesis unfolding demo_back_facts(1) by blast
qed

text \<open>
  Rolling back goes by version and not by time: after a lower version has been applied late, one step takes back the
  highest version.
\<close>

lemma rollback_by_version:
  "(let db = \<lparr>mdb_schema = [], mdb_rows = [\<lparr>am_version = ''002'', am_name = ''b'', am_appliedAt = 1, am_checksum = []\<rparr>]\<rparr>;
        applied = mig_up demo_env Sqlite late_dir (\<lambda>_. 2) db
    in map_sum id (map am_version) (fst applied) = Inr [''001'']
       \<and> map_sum id (map am_version) (fst (mig_down demo_env Sqlite late_dir 1 (snd applied))) = Inr [''002''])"
  by code_simp

end
