(* ===== verification/Qr_Field.thy ===== *)
theory Qr_Field
  imports Prelude
begin

unbundle bit_operations_syntax

text \<open>
  Arithmetic of the QR encoder (\<open>wallet-ui/src/tonconnect/qrCode.ts\<close>): the tables of the field with
  256 elements, multiplication by logarithms, the Reed-Solomon generator polynomial and the division
  that computes the error-correction codewords. A \<open>Uint8Array\<close> is a list of bytes. The reference
  product is defined by shifts and reductions modulo \<open>0x11d\<close>; with it bytes form a commutative ring
  (the type \<open>gf\<close>), in which the encoder's polynomials are evaluated.
\<close>

type_synonym byte = "8 word"

section \<open>Tables\<close>

text \<open>\<open>x <<= 1; if (x & 0x100) x ^= 0x11d\<close> on the running value of the loop.\<close>

definition gf_double :: "int \<Rightarrow> int" where
  "gf_double x = (let y = push_bit 1 x in if y AND 0x100 \<noteq> 0 then y XOR 0x11d else y)"

definition gf_fill :: "int \<times> byte list \<times> byte list \<Rightarrow> nat \<Rightarrow> int \<times> byte list \<times> byte list" where
  "gf_fill = (\<lambda>(x, ex, lg) i. (gf_double x, ex[i := of_int x], lg[nat x := of_nat i]))"

definition gf_wrap :: "byte list \<Rightarrow> nat \<Rightarrow> byte list" where
  "gf_wrap ex i = ex[i := ex ! (i - 255)]"

definition initGf :: "byte list \<times> byte list" where
  "initGf = (case foldl gf_fill (1, replicate 512 0, replicate 256 0) [0..<255] of
     (x, ex, lg) \<Rightarrow> (foldl gf_wrap ex [255..<512], lg))"

definition GF_EXP :: "byte list" where
  "GF_EXP = fst initGf"

definition GF_LOG :: "byte list" where
  "GF_LOG = snd initGf"

definition gfMul :: "byte \<Rightarrow> byte \<Rightarrow> byte" where
  "gfMul a b = (if a = 0 \<or> b = 0 then 0 else GF_EXP ! (unat (GF_LOG ! unat a) + unat (GF_LOG ! unat b)))"

section \<open>Reed-Solomon codewords\<close>

definition rs_multiply_root :: "byte \<Rightarrow> byte list \<Rightarrow> byte list" where
  "rs_multiply_root c poly =
     foldl (\<lambda>nxt j. let nxt' = nxt[j := nxt ! j XOR poly ! j] in nxt'[Suc j := nxt' ! Suc j XOR gfMul (poly ! j) c])
       (replicate (length poly + 1) 0) [0..<length poly]"

definition rsGenerator :: "nat \<Rightarrow> byte list" where
  "rsGenerator degree = foldl (\<lambda>poly i. rs_multiply_root (GF_EXP ! i) poly) [1] [0..<degree]"

text \<open>\<open>out.copyWithin(0, 1); out[ecLen - 1] = 0\<close>, then the generator times \<open>factor\<close> is added.\<close>

definition rs_step :: "byte list \<Rightarrow> nat \<Rightarrow> byte list \<Rightarrow> byte \<Rightarrow> byte list" where
  "rs_step generator ecLen out d =
     (let factor = d XOR out ! 0;
          shifted = (tl out @ [last out])[ecLen - 1 := 0] in
      if factor \<noteq> 0
      then foldl (\<lambda>out j. out[j := out ! j XOR gfMul (generator ! Suc j) factor]) shifted [0..<ecLen]
      else shifted)"

definition rsEncode :: "byte list \<Rightarrow> nat \<Rightarrow> byte list" where
  "rsEncode dat ecLen = foldl (rs_step (rsGenerator ecLen) ecLen) (replicate ecLen 0) dat"

section \<open>The reference product\<close>

definition xtime :: "byte \<Rightarrow> byte" where
  "xtime a = (if bit a 7 then push_bit 1 a XOR 0x1d else push_bit 1 a)"

text \<open>Shift-and-add multiplication: bit \<open>k\<close> of \<open>a\<close> contributes \<open>b\<close> doubled \<open>k\<close> times.\<close>

fun gf_shift_add :: "nat \<Rightarrow> byte \<Rightarrow> byte \<Rightarrow> byte" where
  "gf_shift_add 0 a b = 0"
| "gf_shift_add (Suc k) a b = gf_shift_add k a b XOR (if bit a k then (xtime ^^ k) b else 0)"

definition gf_prod :: "byte \<Rightarrow> byte \<Rightarrow> byte" where
  "gf_prod a b = gf_shift_add 8 a b"

definition alpha_pow :: "nat \<Rightarrow> byte" where
  "alpha_pow i = (xtime ^^ i) 1"

lemma byte_xor_cancel: "a XOR (a XOR b) = (b :: byte)" "(b XOR a) XOR a = b" "a XOR b = 0 \<longleftrightarrow> a = b"
  by (simp_all flip: xor.assoc) (metis xor.assoc xor.right_neutral xor_self_eq)+

lemma xtime_xor: "xtime (a XOR b) = xtime a XOR xtime b"
  by (auto simp: xtime_def push_bit_xor bit_xor_iff ac_simps byte_xor_cancel)

lemma xtime_0 [simp]: "xtime 0 = 0"
  by (simp add: xtime_def)

lemma xtime_pow_xor: "(xtime ^^ k) (a XOR b) = (xtime ^^ k) a XOR (xtime ^^ k) b"
  by (induction k) (simp_all add: xtime_xor)

lemma xtime_pow_0 [simp]: "(xtime ^^ k) 0 = 0"
  by (induction k) simp_all

lemma shift_add_left: "gf_shift_add k (a XOR a') b = gf_shift_add k a b XOR gf_shift_add k a' b"
  by (induction k) (auto simp: bit_xor_iff ac_simps byte_xor_cancel)

lemma shift_add_right: "gf_shift_add k a (b XOR b') = gf_shift_add k a b XOR gf_shift_add k a b'"
  by (induction k) (simp_all add: xtime_pow_xor ac_simps)

lemma shift_add_zero [simp]: "gf_shift_add k 0 b = 0" "gf_shift_add k a 0 = 0"
  by (induction k) simp_all

lemma bit_twice: "bit (a * 2 :: byte) k \<longleftrightarrow> 0 < k \<and> k < 8 \<and> bit a (k - 1)"
  by (cases k) (auto simp: bit_double_iff mult.commute [of a] possible_bit_word)

lemma shift_add_one: "bit (gf_shift_add k a 1) n \<longleftrightarrow> n < k \<and> bit a n" if "k \<le> 8"
  using that
proof (induction k)
  case (Suc k)
  have "(xtime ^^ k) 1 = 2 ^ k" if "k < 8" for k
    using that by (induction k) (auto simp: xtime_def bit_exp_iff)
  with Suc show ?case by (auto simp: bit_xor_iff bit_simps less_Suc_eq)
qed simp

lemma gf_prod_one: "gf_prod a 1 = a"
  by (rule bit_word_eqI) (simp add: gf_prod_def shift_add_one)

text \<open>An additive map that commutes with doubling moves through a product.\<close>

lemma shift_add_linear:
  assumes "\<And>x y. h (x XOR y) = h x XOR h y" "\<And>x. h (xtime x) = xtime (h x)"
  shows "h (gf_shift_add k a b) = gf_shift_add k a (h b)"
proof -
  have "h 0 = 0" using assms(1) [of 0 0] by simp
  moreover have "h ((xtime ^^ k) x) = (xtime ^^ k) (h x)" for k x by (induction k) (simp_all add: assms(2))
  ultimately show ?thesis by (induction k) (simp_all add: assms(1))
qed

lemma xtime_shift_add: "xtime (gf_shift_add k a b) = gf_shift_add k a (xtime b)"
  by (rule shift_add_linear) (simp_all add: xtime_xor)

lemma gf_prod_left_commute: "gf_prod a (gf_prod b c) = gf_prod b (gf_prod a c)"
  unfolding gf_prod_def by (rule shift_add_linear) (simp_all add: shift_add_right xtime_shift_add)

lemma gf_prod_commute: "gf_prod a b = gf_prod b a"
  using gf_prod_left_commute [of a b 1] by (simp add: gf_prod_one)

lemma gf_prod_assoc: "gf_prod (gf_prod a b) c = gf_prod a (gf_prod b c)"
  by (metis gf_prod_commute gf_prod_left_commute)

lemma gf_prod_xor: "gf_prod (a XOR b) c = gf_prod a c XOR gf_prod b c" "gf_prod c (a XOR b) = gf_prod c a XOR gf_prod c b"
  by (simp_all add: gf_prod_def shift_add_left shift_add_right)

lemma gf_prod_xtime: "gf_prod (xtime a) b = xtime (gf_prod a b)"
  by (metis gf_prod_commute gf_prod_def xtime_shift_add)

lemma gf_prod_pow: "gf_prod (alpha_pow i) b = (xtime ^^ i) b"
proof (induction i)
  case 0
  then show ?case using gf_prod_one [of b] by (simp add: alpha_pow_def gf_prod_commute)
qed (simp add: alpha_pow_def gf_prod_xtime)

lemma gf_prod_pow_pow: "gf_prod (alpha_pow i) (alpha_pow j) = alpha_pow (i + j)"
  by (simp add: gf_prod_pow) (simp add: alpha_pow_def funpow_add)

section \<open>The order of the generator\<close>

lemma xtime_eq_0: "xtime a = 0 \<longleftrightarrow> a = 0"
proof
  assume *: "xtime a = 0"
  show "a = 0"
  proof (rule bit_word_eqI)
    fix n assume n: "n < LENGTH(8)"
    have "\<not> bit a 7"
    proof
      assume "bit a 7"
      with * have "bit (a * 2 XOR 0x1d) 0 = bit (0 :: byte) 0" by (simp add: xtime_def)
      then show False by (simp add: bit_xor_iff bit_twice)
    qed
    with * have "bit (a * 2) (Suc n) = bit (0 :: byte) (Suc n)" by (simp add: xtime_def)
    with n \<open>\<not> bit a 7\<close> show "bit a n = bit 0 n" by (cases "n = 7") (simp_all add: bit_twice)
  qed
qed simp

lemma xtime_inj: "xtime a = xtime b \<longleftrightarrow> a = b"
  using xtime_eq_0 [of "a XOR b"] by (simp add: xtime_xor byte_xor_cancel)

lemma xor_bit8: "0 \<le> y \<Longrightarrow> y < 512 \<Longrightarrow> bit y 8 \<Longrightarrow> y XOR 0x100 = take_bit 8 (y :: int)"
proof (rule bit_eqI)
  fix n assume y: "0 \<le> y" "y < 512" "bit y 8"
  have "take_bit 9 y = y" using y by (simp add: take_bit_int_eq_self)
  then have "bit y n \<Longrightarrow> n < 9" by (metis bit_take_bit_iff)
  moreover have "bit (0x100 :: int) n \<longleftrightarrow> n = 8" using bit_exp_iff [of 8 n, where ?'a = int] by (simp add: possible_bit_def)
  ultimately show "bit (y XOR 0x100) n \<longleftrightarrow> bit (take_bit 8 y) n" using y(3)
    by (auto simp: bit_xor_iff bit_take_bit_iff)
qed

lemma unat_byte: "unat (a :: byte) < 256"
  using unsigned_less [where w = a and 'a = nat] by simp

lemma uint_byte: "0 \<le> uint (a :: byte)" "uint (a :: byte) < 256"
  using unsigned_less [where w = a and 'a = int] by simp_all

lemma gf_double_xtime: "gf_double (uint a) = uint (xtime a)"
proof -
  let ?y = "2 * uint a"
  have y: "0 \<le> ?y" "?y < 512" using uint_byte [of a] by simp_all
  have b: "bit ?y 8 \<longleftrightarrow> bit a 7" by (simp add: bit_double_iff bit_unsigned_iff possible_bit_def)
  have c: "?y AND 0x100 = 0 \<longleftrightarrow> \<not> bit ?y 8" using and_exp_eq_0_iff_not_bit [of ?y 8] by simp
  have m: "take_bit 8 ?y = uint (a * 2)" by (simp add: uint_word_ariths take_bit_eq_mod mult.commute)
  show ?thesis
  proof (cases "bit a 7")
    case True
    have "?y XOR 0x11d = (?y XOR 0x100) XOR 0x1d" by (simp add: xor.assoc)
    also have "\<dots> = uint (a * 2) XOR 0x1d" using xor_bit8 [OF y] True b m by simp
    also have "\<dots> = uint (a * 2 XOR 0x1d)" by (simp add: unsigned_xor_eq)
    finally show ?thesis using True b c by (simp add: gf_double_def xtime_def Let_def mult.commute)
  next
    case False
    have "take_bit 8 ?y = ?y"
    proof -
      have "take_bit 9 ?y = ?y" using y by (simp add: take_bit_int_eq_self)
      then have "bit ?y n \<Longrightarrow> n < 9 \<and> n \<noteq> 8" for n using False b by (metis bit_take_bit_iff)
      then have "bit ?y n \<Longrightarrow> n < 8" for n by fastforce
      then show ?thesis by (intro bit_eqI) (auto simp: bit_take_bit_iff)
    qed
    with False b c m show ?thesis by (simp add: gf_double_def xtime_def Let_def mult.commute)
  qed
qed

fun walk :: "nat \<Rightarrow> int \<Rightarrow> int list" where
  "walk 0 x = []"
| "walk (Suc n) x = x # walk n (gf_double x)"

lemma nth_walk: "i < n \<Longrightarrow> walk n x ! i = (gf_double ^^ i) x"
  by (induction n arbitrary: i x) (auto simp: nth_Cons funpow_swap1 split: nat.splits)

lemma length_walk [simp]: "length (walk n x) = n"
  by (induction n arbitrary: x) simp_all

lemma walk_numeral: "walk (numeral k) x = x # walk (pred_numeral k) (gf_double x)"
  by (simp add: numeral_eq_Suc)

lemma walk_no_one: "list_all (\<lambda>x. x \<noteq> 1) (walk 254 2)"
  by (simp add: walk_numeral gf_double_def)

lemma walk_period: "last (walk 255 2) = 1"
  by (simp add: walk_numeral gf_double_def)

lemma uint_pow: "(gf_double ^^ i) (uint a) = uint ((xtime ^^ i) a)"
  by (induction i) (simp_all add: gf_double_xtime)

lemma alpha_pow_Suc: "alpha_pow (Suc i) = (xtime ^^ i) 2"
proof -
  have "xtime 1 = 2" by (simp add: xtime_def)
  then show ?thesis by (simp add: alpha_pow_def funpow_swap1)
qed

lemma alpha_pow_not_one: "0 < k \<Longrightarrow> k < 255 \<Longrightarrow> alpha_pow k \<noteq> 1"
proof -
  assume k: "0 < k" "k < 255"
  then obtain i where i: "k = Suc i" "i < 254" by (cases k) auto
  have "walk 254 2 ! i \<noteq> 1" using walk_no_one i by (simp add: list_all_length del: walk.simps)
  with i have "(gf_double ^^ i) 2 \<noteq> 1" by (simp add: nth_walk)
  then have "uint ((xtime ^^ i) 2) \<noteq> 1" using uint_pow [of i 2] by simp
  with i show ?thesis using alpha_pow_Suc [of i] by auto
qed

lemma alpha_pow_255: "alpha_pow 255 = 1"
proof -
  have "last (walk 255 2) = (gf_double ^^ 254) 2" by (simp add: last_conv_nth nth_walk flip: length_greater_0_conv)
  then have "uint ((xtime ^^ 254) 2) = uint (1 :: byte)" using walk_period uint_pow [of 254 2] by simp
  then have "(xtime ^^ 254) 2 = (1 :: byte)" by (simp only: word_uint_eq_iff)
  then show ?thesis using alpha_pow_Suc [of 254] by simp
qed

lemma alpha_pow_period: "alpha_pow (i + 255) = alpha_pow i"
  using alpha_pow_255 by (simp add: alpha_pow_def funpow_add)

lemma alpha_pow_nonzero: "alpha_pow i \<noteq> 0"
proof -
  have "(xtime ^^ i) a = 0 \<Longrightarrow> a = 0" for a by (induction i) (auto simp: xtime_eq_0)
  then show ?thesis unfolding alpha_pow_def using zero_neq_one by metis
qed

lemma alpha_pow_inj: "inj_on alpha_pow {..<255}"
proof (rule linorder_inj_onI')
  fix i j :: nat assume ij: "i \<in> {..<255}" "j \<in> {..<255}" "i < j"
  have cancel: "(xtime ^^ n) a = (xtime ^^ n) b \<Longrightarrow> a = b" for n a b by (induction n) (auto simp: xtime_inj)
  have "alpha_pow j = (xtime ^^ i) (alpha_pow (j - i))" using ij funpow_add [of i "j - i" xtime] by (simp add: alpha_pow_def)
  moreover have "alpha_pow (j - i) \<noteq> 1" using alpha_pow_not_one [of "j - i"] ij by (simp only: lessThan_iff) simp
  ultimately show "alpha_pow i \<noteq> alpha_pow j"
    using cancel [of i 1 "alpha_pow (j - i)"] alpha_pow_def [of i] by metis
qed

lemma alpha_pow_range: "alpha_pow ` {..<255} = UNIV - {0}"
proof (rule card_subset_eq)
  have "card (UNIV :: byte set) = 2 ^ 8" by (simp add: card_word)
  then have "card (UNIV - {0 :: byte}) = 255" by (simp add: card_Diff_subset)
  then show "card (alpha_pow ` {..<255}) = card (UNIV - {0 :: byte})"
    unfolding card_image [OF alpha_pow_inj] card_lessThan by (rule sym)
  show "alpha_pow ` {..<255} \<subseteq> UNIV - {0}" using alpha_pow_nonzero by (intro image_subsetI) simp
qed simp

lemma alpha_pow_cases:
  assumes "a \<noteq> 0"
  obtains i where "i < 255" "a = alpha_pow i"
proof -
  have "a \<in> alpha_pow ` {..<255}" using assms unfolding alpha_pow_range by blast
  then show ?thesis using that unfolding image_iff lessThan_iff Bex_def by blast
qed

section \<open>The tables hold powers and logarithms\<close>

lemma fill_invariant:
  assumes "n \<le> 255" "length ex = 512" "length lg = 256"
    and "foldl gf_fill (1, ex, lg) [0..<n] = (x, ex', lg')"
  shows "x = uint (alpha_pow n) \<and> length ex' = 512 \<and> length lg' = 256
    \<and> (\<forall>i<n. ex' ! i = alpha_pow i \<and> lg' ! unat (alpha_pow i) = of_nat i)"
  using assms(1,4)
proof (induction n arbitrary: x ex' lg')
  case 0
  then show ?case using assms(2,3) by (simp add: alpha_pow_def)
next
  case (Suc n)
  obtain y e l where p: "foldl gf_fill (1, ex, lg) [0..<n] = (y, e, l)"
    by (metis prod_cases3)
  note IH = Suc.IH [OF _ p]
  have y: "y = uint (alpha_pow n)" and len: "length e = 512" "length l = 256" using IH Suc.prems by simp_all
  have upd: "x = gf_double y" "ex' = e[n := of_int y]" "lg' = l[nat y := of_nat n]" using Suc.prems p by (simp_all add: gf_fill_def)
  have ny: "nat y = unat (alpha_pow n)" using y by simp
  have inj: "unat (alpha_pow i) \<noteq> unat (alpha_pow n)" if "i < n" for i
    using inj_onD [OF alpha_pow_inj, of i n] that Suc.prems(1) by (auto dest: unsigned_word_eqI)
  have "x = uint (alpha_pow (Suc n))" using upd(1) y by (simp add: gf_double_xtime alpha_pow_def)
  moreover have "ex' ! i = alpha_pow i \<and> lg' ! unat (alpha_pow i) = of_nat i" if "i < Suc n" for i
  proof (cases "i = n")
    case True
    then show ?thesis using upd len Suc.prems(1) y ny unat_byte [of "alpha_pow n"] by simp
  next
    case False
    with that have "i < n" by simp
    with IH Suc.prems(1) inj [of i] upd ny show ?thesis by (simp add: nth_list_update)
  qed
  ultimately show ?case using upd len by simp
qed

lemma wrap_invariant:
  assumes "length ex = 512" "\<forall>i<255. ex ! i = alpha_pow i" "n \<le> 257"
  shows "length (foldl gf_wrap ex [255..<255 + n]) = 512
    \<and> (\<forall>i<255 + n. foldl gf_wrap ex [255..<255 + n] ! i = alpha_pow i)"
  using assms(3)
proof (induction n)
  case 0
  then show ?case using assms by simp
next
  case (Suc n)
  let ?e = "foldl gf_wrap ex [255..<255 + n]"
  have IH: "length ?e = 512" "i < 255 + n \<Longrightarrow> ?e ! i = alpha_pow i" for i using Suc by simp_all
  have "[255..<255 + Suc n] = [255..<255 + n] @ [255 + n]" using upt_Suc_append [of 255 "255 + n"] by (simp only: add_Suc_right le_add1)
  then have step: "foldl gf_wrap ex [255..<255 + Suc n] = ?e[255 + n := ?e ! n]" by (simp add: gf_wrap_def)
  have "?e[255 + n := ?e ! n] ! i = alpha_pow i" if "i < 255 + Suc n" for i
  proof (cases "i = 255 + n")
    case True
    then show ?thesis using IH(1) IH(2) [of n] alpha_pow_period [of n] Suc.prems by (simp add: add.commute)
  next
    case False
    then show ?thesis using IH(2) [of i] that by simp
  qed
  with step IH(1) show ?case by (simp only: length_list_update) blast
qed

lemma tables:
  shows "i < 512 \<Longrightarrow> GF_EXP ! i = alpha_pow i" and "i < 255 \<Longrightarrow> GF_LOG ! unat (alpha_pow i) = of_nat i"
proof -
  let ?E = "replicate 512 (0 :: byte)" and ?L = "replicate 256 (0 :: byte)"
  obtain x e l where p: "foldl gf_fill (1, ?E, ?L) [0..<255] = (x, e, l)" by (rule prod_cases3)
  have f: "length e = 512" "\<forall>i<255. e ! i = alpha_pow i \<and> l ! unat (alpha_pow i) = of_nat i"
    using fill_invariant [OF order_refl length_replicate length_replicate p] by blast+
  have g: "GF_EXP = foldl gf_wrap e [255..<255 + 257]" "GF_LOG = l"
    unfolding GF_EXP_def GF_LOG_def initGf_def p prod.case fst_conv snd_conv by (simp_all only: numeral_plus_numeral add_num_simps)
  show "GF_LOG ! unat (alpha_pow i) = of_nat i" if "i < 255" using f g that by simp
  show "GF_EXP ! i = alpha_pow i" if "i < 512"
    using wrap_invariant [OF f(1) _ order_refl] f(2) that unfolding g by simp
qed

text \<open>The product by logarithms is the reference product.\<close>

lemma gfMul_prod: "gfMul a b = gf_prod a b"
proof (cases "a = 0 \<or> b = 0")
  case True
  then show ?thesis by (auto simp: gfMul_def gf_prod_def)
next
  case False
  then obtain i j where ij: "i < 255" "a = alpha_pow i" "j < 255" "b = alpha_pow j" by (metis alpha_pow_cases)
  then have "unat (of_nat i :: byte) = i" "unat (of_nat j :: byte) = j" by (simp_all add: unat_of_nat)
  with ij False show ?thesis by (simp add: gfMul_def tables gf_prod_pow_pow)
qed


section \<open>The ring of field elements\<close>

typedef gf = "UNIV :: byte set"
  morphisms byte_of Gf by simp

setup_lifting type_definition_gf

instantiation gf :: comm_ring_1
begin

lift_definition zero_gf :: gf is 0 .
lift_definition one_gf :: gf is 1 .
lift_definition plus_gf :: "gf \<Rightarrow> gf \<Rightarrow> gf" is "\<lambda>a b. a XOR b" .
lift_definition uminus_gf :: "gf \<Rightarrow> gf" is "\<lambda>a. a" .
lift_definition minus_gf :: "gf \<Rightarrow> gf \<Rightarrow> gf" is "\<lambda>a b. a XOR b" .
lift_definition times_gf :: "gf \<Rightarrow> gf \<Rightarrow> gf" is gf_prod .

instance
proof
  fix a b c :: gf
  show "a * b * c = a * (b * c)" by transfer (rule gf_prod_assoc)
  show "a * b = b * a" by transfer (rule gf_prod_commute)
  show "1 * a = a" by transfer (simp add: gf_prod_commute [of 1] gf_prod_one)
  show "(a + b) * c = a * c + b * c" by transfer (rule gf_prod_xor)
  show "(0 :: gf) \<noteq> 1" by transfer simp
qed (transfer; simp add: ac_simps)+

end

lemma Gf_simps: "Gf (a XOR b) = Gf a + Gf b" "Gf (gfMul a b) = Gf a * Gf b" "Gf 0 = 0" "Gf 1 = 1"
  by (simp_all add: plus_gf.abs_eq times_gf.abs_eq zero_gf.abs_eq one_gf.abs_eq eq_onp_def gfMul_prod)

lemma gf_self: "a + a = (0 :: gf)" "(a :: gf) + (a + b) = b"
  by (transfer; simp add: byte_xor_cancel)+

lemma Gf_eq_0: "Gf a = 0 \<longleftrightarrow> a = 0"
  using Gf_inject [of a 0] by (simp add: Gf_simps)

text \<open>Evaluation of a list of coefficients, highest first.\<close>

definition gf_eval :: "gf \<Rightarrow> byte list \<Rightarrow> gf" where
  "gf_eval x ws = foldl (\<lambda>acc c. acc * x + Gf c) 0 ws"

lemma gf_eval_snoc [simp]: "gf_eval x (ws @ [c]) = gf_eval x ws * x + Gf c" "gf_eval x [] = 0"
  by (simp_all add: gf_eval_def)

lemma gf_eval_append: "gf_eval x (vs @ ws) = gf_eval x vs * x ^ length ws + gf_eval x ws"
  by (induction ws rule: rev_induct) (simp_all add: algebra_simps flip: append_assoc)

lemma gf_eval_Cons: "gf_eval x (c # ws) = Gf c * x ^ length ws + gf_eval x ws"
  using gf_eval_append [of x "[c]" ws] gf_eval_snoc(1) [of x "[]" c] by simp

lemma gf_eval_add:
  "length vs = length ws \<Longrightarrow> gf_eval x (map2 (\<lambda>a b. a XOR gfMul b c) vs ws) = gf_eval x vs + Gf c * gf_eval x ws"
  by (induction vs ws rule: list_induct2) (simp_all add: gf_eval_Cons Gf_simps algebra_simps)

section \<open>The generator has the powers as roots\<close>

lemma multiply_root_list: "rs_multiply_root c poly = map2 (\<lambda>a b. a XOR gfMul b c) (poly @ [0]) (0 # poly)"
proof -
  define step where "step = (\<lambda>nxt j. let nxt' = nxt[j := nxt ! j XOR poly ! j] in nxt'[Suc j := nxt' ! Suc j XOR gfMul (poly ! j) c])"
  define F where "F n = foldl step (replicate (length poly + 1) 0) [0..<n]" for n
  have inv: "length (F n) = length poly + 1 \<and> (\<forall>i\<le>length poly. F n ! i
       = (if i < n then poly ! i else 0) XOR (if 0 < i \<and> i \<le> n then gfMul (poly ! (i - 1)) c else 0))" if "n \<le> length poly" for n
    using that
  proof (induction n)
    case 0
    have "F 0 ! i = 0" if "i \<le> length poly" for i using that unfolding F_def by (subst upt_conv_Nil) (simp_all del: replicate.simps)
    then show ?case by (simp add: F_def)
  next
    case (Suc n)
    then have IH: "length (F n) = length poly + 1" "\<And>i. i \<le> length poly \<Longrightarrow> F n ! i
        = (if i < n then poly ! i else 0) XOR (if 0 < i \<and> i \<le> n then gfMul (poly ! (i - 1)) c else 0)" by simp_all
    have "F (Suc n) = (F n)[n := F n ! n XOR poly ! n, Suc n := F n ! Suc n XOR gfMul (poly ! n) c]" by (simp add: F_def step_def)
    moreover have "\<dots> ! i = (if i < Suc n then poly ! i else 0) XOR (if 0 < i \<and> i \<le> Suc n then gfMul (poly ! (i - 1)) c else 0)"
      if "i \<le> length poly" for i
    proof -
      consider "i < n" | "i = n" | "i = Suc n" | "Suc n < i" by linarith
      then show ?thesis
        using IH(1) IH(2) [OF that] IH(2) [of n] IH(2) [of "Suc n"] Suc.prems that by cases (auto simp: xor.commute)
    qed
    ultimately show ?case using IH(1) by simp
  qed
  have "gfMul 0 c = 0" by (simp add: gfMul_def)
  with inv [of "length poly"] show ?thesis
    unfolding rs_multiply_root_def step_def [symmetric] F_def [symmetric]
    by (intro nth_equalityI) (auto simp: nth_append nth_Cons' less_Suc_eq_le)
qed

lemma multiply_root_eval: "gf_eval x (rs_multiply_root c poly) = gf_eval x poly * (x + Gf c)"
  by (simp add: multiply_root_list gf_eval_add) (simp add: gf_eval_Cons Gf_simps algebra_simps)

lemma generator_props:
  assumes "n \<le> 512"
  shows "length (rsGenerator n) = Suc n \<and> hd (rsGenerator n) = 1
    \<and> gf_eval x (rsGenerator n) = (\<Prod>i<n. x + Gf (alpha_pow i))"
  using assms
proof (induction n)
  case 0
  then show ?case by (simp add: rsGenerator_def gf_eval_Cons Gf_simps)
next
  case (Suc n)
  then have IH: "length (rsGenerator n) = Suc n" "hd (rsGenerator n) = 1" "gf_eval x (rsGenerator n) = (\<Prod>i<n. x + Gf (alpha_pow i))" by simp_all
  obtain p ps where g: "rsGenerator n = p # ps" using IH(1) by (cases "rsGenerator n") auto
  have "rsGenerator (Suc n) = rs_multiply_root (alpha_pow n) (rsGenerator n)" using Suc.prems by (simp add: rsGenerator_def tables)
  moreover have "gfMul 0 (alpha_pow n) = 0" by (simp add: gfMul_def)
  ultimately show ?case using IH g multiply_root_eval [of x "alpha_pow n" "rsGenerator n"] by (simp add: multiply_root_list)
qed

lemma generator_root: "i < n \<Longrightarrow> n \<le> 512 \<Longrightarrow> gf_eval (Gf (alpha_pow i)) (rsGenerator n) = 0"
  by (simp add: generator_props prod_zero_iff gf_self) (meson finite_lessThan gf_self(1) lessThan_iff prod_zero)

section \<open>Codewords have vanishing syndromes\<close>

lemma foldl_xor_list:
  "length vs = n \<Longrightarrow> length ws = n \<Longrightarrow> foldl (\<lambda>out j. out[j := out ! j XOR gfMul (ws ! j) c]) vs [0..<n] = map2 (\<lambda>a b. a XOR gfMul b c) vs ws"
proof -
  assume l: "length vs = n" "length ws = n"
  have "length (foldl (\<lambda>out j. out[j := out ! j XOR gfMul (ws ! j) c]) vs [0..<m]) = n \<and>
      (\<forall>i<n. foldl (\<lambda>out j. out[j := out ! j XOR gfMul (ws ! j) c]) vs [0..<m] ! i = (if i < m then vs ! i XOR gfMul (ws ! i) c else vs ! i))" if "m \<le> n" for m
    using that l by (induction m) (auto simp: nth_list_update less_Suc_eq)
  from this [of n] l show ?thesis by (intro nth_equalityI) auto
qed

lemma rs_step_list:
  assumes "length g = Suc n" "length out = n" "0 < n"
  shows "rs_step g n out d = map2 (\<lambda>a b. a XOR gfMul b (d XOR hd out)) (tl out @ [0]) (tl g)"
proof -
  have s: "(tl out @ [last out])[n - 1 := 0] = tl out @ [0]" using assms by (simp add: list_update_append)
  have h: "out ! 0 = hd out" using assms by (cases out) auto
  have t: "g ! Suc j = tl g ! j" if "j < n" for j using assms(1) that by (cases g) auto
  have e: "foldl (\<lambda>out j. out[j := out ! j XOR gfMul (g ! Suc j) c]) xs [0..<n] = foldl (\<lambda>out j. out[j := out ! j XOR gfMul (tl g ! j) c]) xs [0..<n]" for xs c
    by (rule foldl_cong) (auto simp: t)
  have z: "map2 (\<lambda>a b. a XOR gfMul b 0) xs ys = xs" if "length xs = length ys" for xs ys
    using that by (induction xs ys rule: list_induct2) (simp_all add: gfMul_def)
  show ?thesis
    using assms s h e foldl_xor_list [of "tl out @ [0]" n "tl g" "d XOR hd out"] z [of "tl out @ [0]" "tl g"]
    by (auto simp: rs_step_def Let_def)
qed

lemma rs_step_eval:
  assumes "length g = Suc n" "hd g = 1" "gf_eval x g = 0" "length out = n" "0 < n" "gf_eval x (ds @ out) = 0"
  shows "gf_eval x ((ds @ [d]) @ rs_step g n out d) = 0" "length (rs_step g n out d) = n"
proof -
  obtain p ps where g: "g = p # ps" using assms(1) by (cases g) auto
  obtain q qs where o: "out = q # qs" using assms(4,5) by (cases out) auto
  have l: "length ps = n" "length qs = n - 1" using assms(1,4) g o by simp_all
  have step: "rs_step g n out d = map2 (\<lambda>a b. a XOR gfMul b (d XOR q)) (qs @ [0]) ps"
    using rs_step_list [OF assms(1,4,5)] g o by simp
  then show len: "length (rs_step g n out d) = n" using l assms(5) by simp
  have gx: "gf_eval x ps = x ^ n" using assms(2,3) g l gf_self(2) [of "x ^ n" "gf_eval x ps"] by (simp add: gf_eval_Cons Gf_simps)
  have n: "x ^ n = x ^ (n - 1) * x" using assms(5) by (cases n) (simp_all add: mult.commute)
  have "gf_eval x (rs_step g n out d) = gf_eval x qs * x + (Gf d + Gf q) * x ^ n"
    using l assms(5) gx by (simp add: step gf_eval_add Gf_simps)
  moreover have "gf_eval x (ds @ out) = gf_eval x ds * x ^ n + (Gf q * x ^ (n - 1) + gf_eval x qs)"
    using l o assms(4) by (simp add: gf_eval_append gf_eval_Cons)
  ultimately have "gf_eval x ((ds @ [d]) @ rs_step g n out d) = gf_eval x (ds @ out) * x + ((Gf d + Gf d) * x ^ n)"
    by (simp add: gf_eval_append gf_eval_Cons len n algebra_simps del: append_assoc)
  then show "gf_eval x ((ds @ [d]) @ rs_step g n out d) = 0" using assms(6) by (simp add: gf_self)
qed

lemma rsEncode_eval:
  assumes "i < n" "n \<le> 512"
  shows "gf_eval (Gf (alpha_pow i)) (ds @ rsEncode ds n) = 0 \<and> length (rsEncode ds n) = n"
proof (induction ds rule: rev_induct)
  case Nil
  have "gf_eval x (replicate n 0) = 0" for x n by (induction n) (simp_all add: gf_eval_Cons Gf_simps)
  then show ?case by (simp add: rsEncode_def)
next
  case (snoc d ds)
  have "rsEncode (ds @ [d]) n = rs_step (rsGenerator n) n (rsEncode ds n) d" by (simp add: rsEncode_def)
  moreover have "length (rsGenerator n) = Suc n" "hd (rsGenerator n) = 1" using generator_props [OF assms(2)] by simp_all
  ultimately show ?case
    using rs_step_eval [of "rsGenerator n" n "Gf (alpha_pow i)" "rsEncode ds n" ds d] generator_root [OF assms] snoc assms(1) by simp
qed

section \<open>Distance of the code\<close>

lemma gf_prod_eq_0: "gf_prod a b = 0 \<longleftrightarrow> a = 0 \<or> b = 0"
proof
  assume *: "gf_prod a b = 0"
  show "a = 0 \<or> b = 0"
  proof (rule ccontr)
    assume "\<not> ?thesis"
    then obtain i j where "a = alpha_pow i" "b = alpha_pow j" by (metis alpha_pow_cases)
    with * show False by (simp add: gf_prod_pow_pow alpha_pow_nonzero)
  qed
qed (auto simp: gf_prod_def)

instance gf :: idom
  by standard (transfer, simp add: gf_prod_eq_0)

lemma Gf_alpha_pow: "Gf (alpha_pow (i * j)) = Gf (alpha_pow i) ^ j"
proof (induction j)
  case (Suc j)
  then show ?case using gf_prod_pow_pow [of i "i * j"] Gf_simps(2) [of "alpha_pow i" "alpha_pow (i * j)"] by (simp add: gfMul_prod)
qed (simp add: alpha_pow_def Gf_simps)

text \<open>Power sums over distinct points determine their coefficients.\<close>

lemma power_sums_zero:
  fixes c b :: "'k \<Rightarrow> gf"
  assumes "finite K" "inj_on b K" "\<And>i. i < card K \<Longrightarrow> (\<Sum>k\<in>K. c k * b k ^ i) = 0"
  shows "\<forall>k\<in>K. c k = 0"
  using assms
proof (induction K arbitrary: c rule: finite_induct)
  case (insert m K)
  define d where "d k = c k * (b k - b m)" for k
  have "(\<Sum>k\<in>K. d k * b k ^ i) = 0" if "i < card K" for i
  proof -
    have "(\<Sum>k\<in>insert m K. c k * b k ^ Suc i) - b m * (\<Sum>k\<in>insert m K. c k * b k ^ i) = (\<Sum>k\<in>insert m K. d k * b k ^ i)"
      by (simp only: sum_distrib_left sum_subtractf [symmetric]) (rule sum.cong, simp_all add: d_def algebra_simps)
    moreover have "(\<Sum>k\<in>insert m K. d k * b k ^ i) = (\<Sum>k\<in>K. d k * b k ^ i)" using insert.hyps by (simp add: d_def)
    ultimately show ?thesis using insert.prems(2) [of "Suc i"] insert.prems(2) [of i] that insert.hyps by simp
  qed
  then have d: "\<forall>k\<in>K. d k = 0" using insert.IH insert.prems(1) by (simp add: inj_on_def)
  have c: "c k = 0" if "k \<in> K" for k
  proof -
    have "b k \<noteq> b m" using insert.prems(1) insert.hyps(2) that by (auto simp: inj_on_def)
    with d that show ?thesis by (auto simp: d_def)
  qed
  then have "c m = 0" using insert.prems(2) [of 0] insert.hyps by simp
  with c show ?case by simp
qed simp

lemma gf_eval_sum: "gf_eval x ws = (\<Sum>k<length ws. Gf (ws ! k) * x ^ (length ws - 1 - k))"
proof (induction ws)
  case (Cons w ws)
  then show ?case
    by (simp add: gf_eval_Cons sum.lessThan_Suc_shift del: sum.lessThan_Suc)
qed simp

lemma words_equal:
  assumes len: "length v = length w" "length w \<le> 255"
    and zero: "\<And>i. i < n \<Longrightarrow> gf_eval (Gf (alpha_pow i)) v = 0" "\<And>i. i < n \<Longrightarrow> gf_eval (Gf (alpha_pow i)) w = 0"
    and few: "card {k. k < length w \<and> v ! k \<noteq> w ! k} \<le> n"
  shows "v = w"
proof -
  let ?K = "{k. k < length w \<and> v ! k \<noteq> w ! k}" and ?c = "\<lambda>k. Gf (v ! k) + Gf (w ! k)" and ?b = "\<lambda>k. Gf (alpha_pow (length w - 1 - k))"
  have sum: "(\<Sum>k\<in>?K. ?c k * ?b k ^ i) = 0" if "i < n" for i
  proof -
    have b: "?b k ^ i = Gf (alpha_pow i) ^ (length w - 1 - k)" for k
      by (metis Gf_alpha_pow mult.commute)
    have "(\<Sum>k<length w. ?c k * ?b k ^ i) = gf_eval (Gf (alpha_pow i)) v + gf_eval (Gf (alpha_pow i)) w"
      using len(1) unfolding gf_eval_sum b by (simp add: sum.distrib distrib_right)
    also have "\<dots> = 0" using zero that by simp
    finally have "(\<Sum>k<length w. ?c k * ?b k ^ i) = 0" .
    moreover have "(\<Sum>k<length w. ?c k * ?b k ^ i) = (\<Sum>k\<in>?K. ?c k * ?b k ^ i)"
      by (rule sum.mono_neutral_right) (auto simp: gf_self)
    ultimately show ?thesis by simp
  qed
  have "inj_on ?b ?K"
  proof (rule inj_onI)
    fix k l assume kl: "k \<in> ?K" "l \<in> ?K" "?b k = ?b l"
    then have "alpha_pow (length w - 1 - k) = alpha_pow (length w - 1 - l)" by (simp add: Gf_inject)
    then have "length w - 1 - k = length w - 1 - l" using inj_onD [OF alpha_pow_inj] kl len(2) by simp
    with kl show "k = l" by auto
  qed
  then have "\<forall>k\<in>?K. ?c k = 0" using few sum by (intro power_sums_zero) auto
  then have "?K = {}" using gf_self by (auto simp: Gf_inject) (metis Gf_inject UNIV_I add.commute add_left_cancel gf_self(1))
  then show "v = w" using len(1) by (auto intro: nth_equalityI)
qed

text \<open>
  Multiplication by the logarithm tables is multiplication of polynomials over two elements modulo
  \<open>x^8 + x^4 + x^3 + x^2 + 1\<close> (shift-and-add with reduction), and makes the bytes a commutative ring
  under exclusive-or without zero divisors.
\<close>

theorem gfMul_field:
  "gfMul a b = gf_prod a b \<and> gfMul a b = gfMul b a \<and> gfMul (gfMul a b) c = gfMul a (gfMul b c)
    \<and> gfMul (a XOR b) c = gfMul a c XOR gfMul b c \<and> gfMul a 1 = a \<and> (gfMul a b = 0 \<longleftrightarrow> a = 0 \<or> b = 0)"
  by (simp add: gfMul_prod gf_prod_assoc gf_prod_xor gf_prod_one gf_prod_eq_0 gf_prod_commute [of b a])

text \<open>
  The syndrome of a received word: its value as a polynomial at a power of the primitive element.
\<close>

definition rs_syndrome :: "byte list \<Rightarrow> nat \<Rightarrow> byte" where
  "rs_syndrome ws i = foldl (\<lambda>acc c. gf_prod acc (alpha_pow i) XOR c) 0 ws"

lemma rs_syndrome_eval: "Gf (rs_syndrome ws i) = gf_eval (Gf (alpha_pow i)) ws"
  by (induction ws rule: rev_induct) (simp_all add: rs_syndrome_def Gf_simps flip: gfMul_prod)

text \<open>
  C19. Error correction: data followed by its \<open>n\<close> error-correction codewords has all \<open>n\<close> syndromes
  zero, and the encodings of two different blocks of the same size differ in more than \<open>n\<close> places, so
  that up to half of \<open>n\<close> corrupted codewords of a block can be corrected.
\<close>

theorem rs_corrects:
  assumes "length ds = length es" "length ds + n \<le> 255" "0 < n"
  shows "length (rsEncode ds n) = n \<and> list_all (\<lambda>i. rs_syndrome (ds @ rsEncode ds n) i = 0) [0..<n]
    \<and> (ds \<noteq> es \<longrightarrow> n < card {k. k < length ds + n \<and> (ds @ rsEncode ds n) ! k \<noteq> (es @ rsEncode es n) ! k})"
proof -
  have zero: "i < n \<Longrightarrow> gf_eval (Gf (alpha_pow i)) (ds @ rsEncode ds n) = 0" and len: "length (rsEncode ds n) = n" for ds i
    using rsEncode_eval [of _ n ds] assms(2,3) by auto
  have "list_all (\<lambda>i. rs_syndrome (ds @ rsEncode ds n) i = 0) [0..<n]"
    using zero [of _ ds] rs_syndrome_eval [of "ds @ rsEncode ds n"] by (simp add: list_all_iff Gf_eq_0 [symmetric])
  moreover have "ds = es" if "card {k. k < length ds + n \<and> (ds @ rsEncode ds n) ! k \<noteq> (es @ rsEncode es n) ! k} \<le> n"
    using words_equal [of "ds @ rsEncode ds n" "es @ rsEncode es n" n] zero len assms that by simp
  ultimately show ?thesis using len by (auto simp: not_le [symmetric])
qed

theorem rs_corrects_witness:
  "3 < card {k. k < 2 + 3 \<and> ([0x40, 0x12] @ rsEncode [0x40, 0x12] 3) ! k \<noteq> ([0x40, 0x13] @ rsEncode [0x40, 0x13] 3) ! k}"
  using rs_corrects [of "[0x40, 0x12]" "[0x40, 0x13]" 3] by simp

end
