(* ===== verification/Qr_Codewords.thy ===== *)
theory Qr_Codewords
  imports Qr_Field
begin

text \<open>
  The codewords of a QR symbol (\<open>wallet-ui/src/tonconnect/qrCode.ts\<close>): the block tables, the choice of
  the version, the bit buffer with the byte-mode segment and its padding, and the interleaving of data
  and error-correction blocks. A string is its list of UTF-16 code units.
\<close>

section \<open>Tables and the choice of the version\<close>

datatype QRErrorLevel = EC_L | EC_M

datatype qr_error =
    Unsupported_version nat
  | Data_too_long QRErrorLevel nat
  | Internal_length nat nat
  | Empty_data

record block_group =
  bg_count :: nat
  bg_dataCount :: nat

record block_info =
  ecCodewordsPerBlock :: nat
  bi_blocks :: "block_group list"

definition BLOCK_TABLE :: "QRErrorLevel \<Rightarrow> (nat \<times> nat \<times> nat \<times> nat \<times> nat) list" where
  "BLOCK_TABLE ec = (case ec of
     EC_L \<Rightarrow>
      [(7, 1, 19, 0, 0), (10, 1, 34, 0, 0), (15, 1, 55, 0, 0), (20, 1, 80, 0, 0), (26, 1, 108, 0, 0),
       (18, 2, 68, 0, 0), (20, 2, 78, 0, 0), (24, 2, 97, 0, 0), (30, 2, 116, 0, 0), (18, 2, 68, 2, 69),
       (20, 4, 81, 0, 0), (24, 2, 92, 2, 93), (26, 4, 107, 0, 0), (30, 3, 115, 1, 116), (22, 5, 87, 1, 88),
       (24, 5, 98, 1, 99), (28, 1, 107, 5, 108), (30, 5, 120, 1, 121), (28, 3, 113, 4, 114), (28, 3, 107, 5, 108)]
   | EC_M \<Rightarrow>
      [(10, 1, 16, 0, 0), (16, 1, 28, 0, 0), (26, 1, 44, 0, 0), (18, 2, 32, 0, 0), (24, 2, 43, 0, 0),
       (16, 4, 27, 0, 0), (18, 4, 31, 0, 0), (22, 2, 38, 2, 39), (22, 3, 36, 2, 37), (26, 4, 43, 1, 44),
       (30, 1, 50, 4, 51), (22, 6, 36, 2, 37), (22, 8, 37, 1, 38), (24, 4, 40, 5, 41), (24, 5, 41, 5, 42),
       (28, 7, 45, 3, 46), (28, 10, 46, 1, 47), (26, 9, 43, 4, 44), (26, 3, 44, 11, 45), (26, 3, 41, 13, 42)])"

definition charCountBits :: "nat \<Rightarrow> nat" where
  "charCountBits version = (if version < 10 then 8 else 16)"

definition blockInfoFor :: "nat \<Rightarrow> QRErrorLevel \<Rightarrow> qr_error + block_info" where
  "blockInfoFor version ec =
     (if 1 \<le> version \<and> version - 1 < length (BLOCK_TABLE ec) then
        (case BLOCK_TABLE ec ! (version - 1) of (ecPer, g1, g1Data, g2, g2Data) \<Rightarrow>
           let blocks = [\<lparr>bg_count = g1, bg_dataCount = g1Data\<rparr>] in
           Inr \<lparr>ecCodewordsPerBlock = ecPer,
                bi_blocks = (if g2 > 0 then blocks @ [\<lparr>bg_count = g2, bg_dataCount = g2Data\<rparr>] else blocks)\<rparr>)
      else Inl (Unsupported_version version))"

definition dataCodewordsFor :: "nat \<Rightarrow> QRErrorLevel \<Rightarrow> qr_error + nat" where
  "dataCodewordsFor version ec = res_bind (blockInfoFor version ec) (\<lambda>info.
     Inr (foldl (\<lambda>sum b. sum + bg_count b * bg_dataCount b) 0 (bi_blocks info)))"

fun select_from :: "nat \<Rightarrow> QRErrorLevel \<Rightarrow> nat list \<Rightarrow> qr_error + nat" where
  "select_from dataLen ec [] = Inl (Data_too_long ec dataLen)"
| "select_from dataLen ec (v # vs) = res_bind (dataCodewordsFor v ec) (\<lambda>dc.
     let totalDataBits = dc * 8;
         usedBits = 4 + charCountBits v + dataLen * 8 in
     if usedBits \<le> totalDataBits then Inr v else select_from dataLen ec vs)"

definition selectVersion :: "nat \<Rightarrow> QRErrorLevel \<Rightarrow> int \<Rightarrow> qr_error + nat" where
  "selectVersion dataLen ec minVersion = select_from dataLen ec [nat (max 1 minVersion)..<21]"

section \<open>The bit buffer\<close>

record bit_buffer =
  bb_buffer :: "byte list"
  bb_length :: nat

definition putBit :: "bit_buffer \<Rightarrow> bool \<Rightarrow> bit_buffer" where
  "putBit bb b =
     (let bytePos = drop_bit 3 (bb_length bb);
          buf = (if bytePos \<ge> length (bb_buffer bb) then bb_buffer bb @ [0] else bb_buffer bb);
          buf = (if b then buf[bytePos := buf ! bytePos OR drop_bit (bb_length bb AND 7) 0x80] else buf) in
      \<lparr>bb_buffer = buf, bb_length = Suc (bb_length bb)\<rparr>)"

definition put :: "bit_buffer \<Rightarrow> nat \<Rightarrow> nat \<Rightarrow> bit_buffer" where
  "put bb value bits = foldl (\<lambda>bb i. putBit bb (drop_bit i value AND 1 = 1)) bb (rev [0..<bits])"

definition bitLength :: "bit_buffer \<Rightarrow> nat" where
  "bitLength bb = bb_length bb"

definition bb_bytes :: "bit_buffer \<Rightarrow> byte list" where
  "bb_bytes bb = bb_buffer bb"

lemma putBit_length [simp]: "bb_length (putBit bb b) = Suc (bb_length bb)"
  by (simp add: putBit_def Let_def)

lemma foldl_putBit_length: "bb_length (foldl (\<lambda>bb i. putBit bb (f i)) bb is) = bb_length bb + length is"
  by (induction "is" arbitrary: bb) simp_all

lemma put_length [simp]: "bb_length (put bb value bits) = bb_length bb + bits"
  by (simp add: put_def foldl_putBit_length)

text \<open>The two padding loops.\<close>

function pad_to_byte :: "bit_buffer \<Rightarrow> bit_buffer" where
  "pad_to_byte bb = (if bitLength bb mod 8 \<noteq> 0 then pad_to_byte (putBit bb False) else bb)"
  by auto
termination
  by (relation "measure (\<lambda>bb. (8 - bitLength bb mod 8) mod 8)") (auto simp: bitLength_def mod_Suc)

function pad_bytes :: "nat \<Rightarrow> nat \<Rightarrow> bit_buffer \<Rightarrow> bit_buffer" where
  "pad_bytes totalDataBits i bb =
     (if bitLength bb < totalDataBits
      then pad_bytes totalDataBits (Suc i) (put bb ([0xec, 0x11] ! (i mod 2)) 8) else bb)"
  by auto
termination
  by (relation "measure (\<lambda>(t, i, bb). t - bitLength bb)") (auto simp: bitLength_def)

declare pad_to_byte.simps [simp del] pad_bytes.simps [simp del]

definition encodeDataBytes :: "byte list \<Rightarrow> nat \<Rightarrow> QRErrorLevel \<Rightarrow> qr_error + byte list" where
  "encodeDataBytes dat version ec = res_bind (dataCodewordsFor version ec) (\<lambda>dc.
     let totalDataBits = dc * 8;
         bb = put \<lparr>bb_buffer = [], bb_length = 0\<rparr> 4 4;
         bb = put bb (length dat) (charCountBits version);
         bb = foldl (\<lambda>bb b. put bb (unat b) 8) bb dat;
         remaining = int totalDataBits - int (bitLength bb);
         bb = put bb 0 (nat (min 4 remaining));
         bb = pad_to_byte bb;
         bb = pad_bytes totalDataBits 0 bb in
     Inr (bb_bytes bb))"

section \<open>UTF-8\<close>

type_synonym utf16 = "16 word list"

definition byte :: "nat \<Rightarrow> byte" where
  "byte n = of_nat n"

text \<open>\<open>TextEncoder\<close>: surrogate pairs are joined, an unpaired surrogate becomes U+FFFD.\<close>

definition utf8_point :: "nat \<Rightarrow> byte list" where
  "utf8_point c =
     (if c < 0x80 then [byte c]
      else if c < 0x800 then [byte (0xc0 + c div 64), byte (0x80 + c mod 64)]
      else if c < 0x10000 then [byte (0xe0 + c div 4096), byte (0x80 + c div 64 mod 64), byte (0x80 + c mod 64)]
      else [byte (0xf0 + c div 262144), byte (0x80 + c div 4096 mod 64), byte (0x80 + c div 64 mod 64), byte (0x80 + c mod 64)])"

fun code_points :: "nat list \<Rightarrow> nat list" where
  "code_points [] = []"
| "code_points [c] = [if 0xd800 \<le> c \<and> c \<le> 0xdfff then 0xfffd else c]"
| "code_points (c # d # s) =
     (if 0xd800 \<le> c \<and> c \<le> 0xdbff \<and> 0xdc00 \<le> d \<and> d \<le> 0xdfff
      then (0x10000 + (c - 0xd800) * 1024 + (d - 0xdc00)) # code_points s
      else (if 0xd800 \<le> c \<and> c \<le> 0xdfff then 0xfffd else c) # code_points (d # s))"

definition textEncoder :: "utf16 \<Rightarrow> byte list" where
  "textEncoder s = concat (map utf8_point (code_points (map unat s)))"

text \<open>The second branch is taken where the platform has no \<open>TextEncoder\<close>.\<close>

definition utf8_unit :: "16 word \<Rightarrow> byte list" where
  "utf8_unit u =
     (let c = unat u in
      if c < 0x80 then [byte c]
      else if c < 0x800 then [byte (0xc0 OR drop_bit 6 c), byte (0x80 OR (c AND 0x3f))]
      else [byte (0xe0 OR drop_bit 12 c), byte (0x80 OR (drop_bit 6 c AND 0x3f)), byte (0x80 OR (c AND 0x3f))])"

definition utf8Bytes :: "bool \<Rightarrow> utf16 \<Rightarrow> byte list" where
  "utf8Bytes has_encoder input = (if has_encoder then textEncoder input else concat (map utf8_unit input))"

section \<open>Blocks and interleaving\<close>

definition take_block :: "byte list \<Rightarrow> nat \<Rightarrow> nat \<times> byte list list \<times> byte list list \<Rightarrow> nat \<Rightarrow> nat \<times> byte list list \<times> byte list list" where
  "take_block dat ecPer = (\<lambda>(offset, dataBlocks, ecBlocks) dataCount.
     let slice = take dataCount (drop offset dat) in
     (offset + dataCount, dataBlocks @ [slice], ecBlocks @ [rsEncode slice ecPer]))"

definition block_sizes :: "block_info \<Rightarrow> nat list" where
  "block_sizes info = concat (map (\<lambda>g. replicate (bg_count g) (bg_dataCount g)) (bi_blocks info))"

definition interleave :: "nat \<Rightarrow> byte list list \<Rightarrow> byte list" where
  "interleave n blocks = concat (map (\<lambda>i. concat (map (\<lambda>b. if i < length b then [b ! i] else []) blocks)) [0..<n])"

definition buildCodewords :: "byte list \<Rightarrow> nat \<Rightarrow> QRErrorLevel \<Rightarrow> qr_error + byte list" where
  "buildCodewords dat version ec =
     res_bind (blockInfoFor version ec) (\<lambda>info.
     res_bind (dataCodewordsFor version ec) (\<lambda>totalData.
     if length dat \<noteq> totalData then Inl (Internal_length (length dat) totalData)
     else
       (case foldl (take_block dat (ecCodewordsPerBlock info)) (0, [], []) (block_sizes info) of
          (_, dataBlocks, ecBlocks) \<Rightarrow>
            let maxData = fold max (map length dataBlocks) 0 in
            Inr (interleave maxData dataBlocks @ interleave (ecCodewordsPerBlock info) ecBlocks))))"

end
