(* ===== verification/Qr_Codewords_Thms.thy ===== *)
theory Qr_Codewords_Thms
  imports Qr_Codewords
begin

unbundle bit_operations_syntax

text \<open>
  Lemmas on the codewords of a QR symbol: the bit buffer refines a list of bits, the data stream of a
  chosen version is exactly as long as its data codewords and can be read back, and interleaving can be
  undone.
\<close>

section \<open>The bit buffer refines a list of bits\<close>

definition bb_repr :: "bit_buffer \<Rightarrow> bool list \<Rightarrow> bool" where
  "bb_repr bb bs \<longleftrightarrow> bb_length bb = length bs \<and> length (bb_buffer bb) = (length bs + 7) div 8
     \<and> (\<forall>p i. p < length (bb_buffer bb) \<longrightarrow> i < 8 \<longrightarrow> bit (bb_buffer bb ! p) (7 - i) = (8 * p + i < length bs \<and> bs ! (8 * p + i)))"

definition byte_bits :: "byte \<Rightarrow> bool list" where
  "byte_bits w = map (\<lambda>i. bit w (7 - i)) [0..<8]"

definition nat_bits :: "nat \<Rightarrow> nat \<Rightarrow> bool list" where
  "nat_bits n k = map (bit n) (rev [0..<k])"

lemma repr_empty: "bb_repr \<lparr>bb_buffer = [], bb_length = 0\<rparr> []"
  by (simp add: bb_repr_def)

lemma bit_0x80: "i < 8 \<Longrightarrow> k < 8 \<Longrightarrow> bit (drop_bit k 0x80 :: byte) (7 - i) \<longleftrightarrow> i = k"
proof -
  assume ik: "i < 8" "k < 8"
  have "(0x80 :: byte) = 2 ^ 7" by simp
  then have e: "bit (0x80 :: byte) n \<longleftrightarrow> n = 7" for n by (simp only: bit_exp_iff possible_bit_word) auto
  show ?thesis unfolding bit_drop_bit_eq comp_def e using ik by linarith
qed

lemma ceil8: "(n + 7) div 8 = (if n mod 8 = 0 then n div 8 else Suc (n div 8))" for n :: nat
proof -
  have "(n + 7) div 8 = n div 8 + (n mod 8 + 7) div 8" using div_mult_mod_eq [of n 8] by (metis add.assoc div_mult_self3 numeral_neq_zero)
  moreover have "n mod 8 \<noteq> 0 \<Longrightarrow> (n mod 8 + 7) div 8 = 1" using mod_less_divisor [of 8 n] by (intro div_nat_eqI) simp_all
  ultimately show ?thesis by simp
qed

lemma ceil8_le: "m \<le> 8 * d \<Longrightarrow> (m + 7) div 8 * 8 \<le> 8 * d" for m :: nat
  using div_le_mono [of "m + 7" "8 * d + 7" 8] by simp

lemma and_7: "n AND 7 = n mod 8" for n :: nat
  using take_bit_eq_mask [of 3 n] by (simp add: take_bit_eq_mod mask_eq_exp_minus_1)

lemma ceil8_mod: "n mod 8 \<noteq> 0 \<Longrightarrow> (Suc n + 7) div 8 = (n + 7) div 8"
  by (simp add: ceil8)

lemma repr_putBit: "bb_repr bb bs \<Longrightarrow> bb_repr (putBit bb b) (bs @ [b])"
proof -
  assume r: "bb_repr bb bs"
  let ?p = "length bs div 8" and ?k = "length bs mod 8"
  let ?buf = "if ?p \<ge> length (bb_buffer bb) then bb_buffer bb @ [0] else bb_buffer bb"
  have L: "bb_length bb = length bs" "length (bb_buffer bb) = (length bs + 7) div 8"
    and B: "\<And>p i. p < length (bb_buffer bb) \<Longrightarrow> i < 8 \<Longrightarrow> bit (bb_buffer bb ! p) (7 - i) = (8 * p + i < length bs \<and> bs ! (8 * p + i))"
    using r by (auto simp: bb_repr_def)
  have "length (bb_buffer bb) = (if ?k = 0 then ?p else Suc ?p)" using L(2) by (simp add: ceil8)
  then have len: "length ?buf = Suc ?p" by (simp split: if_splits)
  have bits: "bit (?buf ! p) (7 - i) = (8 * p + i < length bs \<and> bs ! (8 * p + i))" if "p \<le> ?p" "i < 8" for p i
  proof (cases "p < length (bb_buffer bb)")
    case True
    then show ?thesis using B [OF True that(2)] by (simp add: nth_append)
  next
    case False
    then have "8 * p \<ge> length bs" using L(2) by linarith
    then show ?thesis using False that len by (auto simp: nth_append split: if_splits)
  qed
  have idx: "8 * p + i = length bs \<longleftrightarrow> p = ?p \<and> i = ?k" if "i < 8" for p i
  proof
    assume *: "8 * p + i = length bs"
    have "(8 * p + i) div 8 = p" "(8 * p + i) mod 8 = i" using that by simp_all
    with * show "p = ?p \<and> i = ?k" by (simp del: mod_mult_self4 mod_mult_self2)
  qed simp
  have eq: "putBit bb b = \<lparr>bb_buffer = (if b then ?buf[?p := ?buf ! ?p OR drop_bit ?k 0x80] else ?buf), bb_length = Suc (length bs)\<rparr>"
    using L(1) by (simp add: putBit_def Let_def drop_bit_eq_div and_7)
  have "bit (bb_buffer (putBit bb b) ! p) (7 - i) = (8 * p + i < Suc (length bs) \<and> (bs @ [b]) ! (8 * p + i))" if "p \<le> ?p" "i < 8" for p i
  proof -
    have "bit (?buf ! p OR drop_bit ?k 0x80) (7 - i) = (bit (?buf ! p) (7 - i) \<or> i = ?k)"
      using bit_0x80 [of i ?k] that(2) by (simp add: bit_or_iff)
    then have "bit (bb_buffer (putBit bb b) ! p) (7 - i) = (bit (?buf ! p) (7 - i) \<or> b \<and> p = ?p \<and> i = ?k)"
      using len that(1) unfolding eq by (auto simp: nth_list_update)
    with bits [OF that] idx [OF that(2), of p] show ?thesis by (auto simp: nth_append less_Suc_eq)
  qed
  moreover have "length (bb_buffer (putBit bb b)) = Suc ?p" using len unfolding eq by simp
  moreover have "Suc ?p = (length (bs @ [b]) + 7) div 8" by simp
  ultimately show ?thesis using L(1) unfolding bb_repr_def by (simp add: less_Suc_eq_le)
qed

lemma repr_put: "bb_repr bb bs \<Longrightarrow> bb_repr (put bb n k) (bs @ nat_bits n k)"
proof -
  have "bb_repr bb bs \<Longrightarrow> bb_repr (foldl (\<lambda>bb i. putBit bb (drop_bit i n AND 1 = 1)) bb is) (bs @ map (bit n) is)" for "is"
  proof (induction "is" arbitrary: bb bs)
    case (Cons i "is")
    have "(drop_bit i n AND 1 = 1) = bit n i" by (simp add: and_one_eq bit_iff_odd_drop_bit odd_iff_mod_2_eq_one)
    with Cons.IH [OF repr_putBit [OF Cons.prems, of "bit n i"]] show ?case by simp
  qed simp
  then show "bb_repr bb bs \<Longrightarrow> bb_repr (put bb n k) (bs @ nat_bits n k)" by (simp add: put_def nat_bits_def)
qed

lemma repr_length: "bb_repr bb bs \<Longrightarrow> bitLength bb = length bs"
  by (simp add: bb_repr_def bitLength_def)

lemma nat_bits_length [simp]: "length (nat_bits n k) = k"
  by (simp add: nat_bits_def)

text \<open>Whole bytes are read back as the bits that were put.\<close>

lemma repr_bytes:
  assumes "bb_repr bb bs" "length bs = 8 * n"
  shows "length (bb_bytes bb) = n" "concat (map byte_bits (bb_bytes bb)) = bs"
proof -
  show len: "length (bb_bytes bb) = n" using assms by (simp add: bb_repr_def bb_bytes_def)
  have B: "bit (bb_buffer bb ! p) (7 - i) = bs ! (8 * p + i)" if "p < n" "i < 8" for p i
    using assms len that unfolding bb_repr_def bb_bytes_def by simp
  have chunk: "byte_bits (bb_bytes bb ! p) = take 8 (drop (8 * p) bs)" if "p < n" for p
    using that assms(2) B [OF that] by (auto intro!: nth_equalityI simp: byte_bits_def bb_bytes_def)
  have "concat (map byte_bits (take m (bb_bytes bb))) = take (8 * m) bs" if "m \<le> n" for m
    using that
  proof (induction m)
    case (Suc m)
    have "take (8 * Suc m) bs = take (8 * m) bs @ take 8 (drop (8 * m) bs)" by (simp add: take_add [symmetric] add.commute)
    with Suc chunk [of m] len show ?case by (simp add: take_Suc_conv_app_nth)
  qed simp
  from this [of n] len assms(2) show "concat (map byte_bits (bb_bytes bb)) = bs" by simp
qed

section \<open>Padding\<close>

lemma repr_pad_to_byte: "bb_repr bb bs \<Longrightarrow> \<exists>z. bb_repr (pad_to_byte bb) (bs @ z) \<and> length (bs @ z) = (length bs + 7) div 8 * 8"
proof (induction bb arbitrary: bs rule: pad_to_byte.induct)
  case (1 bb)
  note L = repr_length [OF "1.prems"]
  show ?case
  proof (cases "length bs mod 8 = 0")
    case True
    with L "1.prems" show ?thesis by (subst pad_to_byte.simps) (auto intro!: exI [of _ "[]"])
  next
    case False
    with L "1.IH" [OF _ repr_putBit [OF "1.prems"]] obtain z where
      z: "bb_repr (pad_to_byte (putBit bb False)) ((bs @ [False]) @ z)" "length ((bs @ [False]) @ z) = (length (bs @ [False]) + 7) div 8 * 8" by auto
    moreover have "(length (bs @ [False]) + 7) div 8 = (length bs + 7) div 8" using ceil8_mod [OF False] by simp
    ultimately show ?thesis using False L by (subst pad_to_byte.simps) (auto intro!: exI [of _ "False # z"])
  qed
qed

lemma repr_pad_bytes:
  "bb_repr bb bs \<Longrightarrow> length bs \<le> 8 * t \<Longrightarrow> 8 dvd length bs \<Longrightarrow> \<exists>z. bb_repr (pad_bytes (8 * t) i bb) (bs @ z) \<and> length (bs @ z) = 8 * t"
proof (induction "8 * t" i bb arbitrary: bs rule: pad_bytes.induct)
  case (1 i bb)
  note L = repr_length [OF "1.prems"(1)]
  show ?case
  proof (cases "length bs = 8 * t")
    case True
    with L "1.prems" show ?thesis by (subst pad_bytes.simps) (auto intro!: exI [of _ "[]"])
  next
    case False
    then have lt: "length bs < 8 * t" using "1.prems" by simp
    let ?v = "[0xec, 0x11] ! (i mod 2) :: nat"
    have "length (bs @ nat_bits ?v 8) \<le> 8 * t" "8 dvd length (bs @ nat_bits ?v 8)" using lt "1.prems"(3) by auto
    with "1.hyps" [OF _ repr_put [OF "1.prems"(1)]] lt L obtain z where
      "bb_repr (pad_bytes (8 * t) (Suc i) (put bb ?v 8)) ((bs @ nat_bits ?v 8) @ z)" "length ((bs @ nat_bits ?v 8) @ z) = 8 * t" by auto
    then show ?thesis using lt L by (subst pad_bytes.simps) (auto intro!: exI [of _ "nat_bits ?v 8 @ z"])
  qed
qed

section \<open>Reading the data stream\<close>

definition bits_nat :: "bool list \<Rightarrow> nat" where
  "bits_nat bs = foldl (\<lambda>a b. 2 * a + of_bool b) 0 bs"

lemma bits_nat_snoc [simp]: "bits_nat (bs @ [b]) = 2 * bits_nat bs + of_bool b" "bits_nat [] = 0"
  by (simp_all add: bits_nat_def)

lemma nat_bits_Suc: "nat_bits n (Suc k) = nat_bits (n div 2) k @ [odd n]"
proof -
  have "rev [0..<Suc k] = map Suc (rev [0..<k]) @ [0]" by (metis list.simps(8,9) map_Suc_upt map_append rev.simps(2) rev_map upt_conv_Cons zero_less_Suc)
  then show ?thesis by (simp add: nat_bits_def bit_Suc bit_0 del: upt_Suc)
qed

lemma bits_nat_bits: "n < 2 ^ k \<Longrightarrow> bits_nat (nat_bits n k) = n"
proof (induction k arbitrary: n)
  case 0
  then show ?case by (simp add: nat_bits_def)
next
  case (Suc k)
  then have "bits_nat (nat_bits (n div 2) k) = n div 2" by (simp add: less_mult_imp_div_less mult.commute)
  then show ?case by (simp add: nat_bits_Suc)
qed

lemma byte_of_bits: "(of_nat (bits_nat (nat_bits (unat b) 8)) :: byte) = b"
  using bits_nat_bits [of "unat b" 8] unat_byte [of b] by simp

text \<open>A reader of the byte-mode segment of a data stream.\<close>

definition decode_stream :: "nat \<Rightarrow> byte list \<Rightarrow> byte list option" where
  "decode_stream version ws =
     (let bs = concat (map byte_bits ws); cc = charCountBits version in
      if take 4 bs \<noteq> [False, True, False, False] then None
      else
        let n = bits_nat (take cc (drop 4 bs)); body = drop (4 + cc) bs in
        if length body < 8 * n then None
        else Some (map (\<lambda>i. of_nat (bits_nat (take 8 (drop (8 * i) body)))) [0..<n]))"

lemma foldl_put_repr: "bb_repr bb bs \<Longrightarrow> bb_repr (foldl (\<lambda>bb b. put bb (unat b) 8) bb dat) (bs @ concat (map (\<lambda>b. nat_bits (unat b) 8) dat))"
proof (induction dat arbitrary: bb bs)
  case (Cons b dat)
  from Cons.IH [OF repr_put [OF Cons.prems, of "unat b" 8]] show ?case by simp
qed simp

lemma length_concat_8: "length (concat (map (\<lambda>b. nat_bits (f b) 8) dat)) = 8 * length dat"
  by (induction dat) simp_all

lemma nth_chunk: "i < length dat \<Longrightarrow> take 8 (drop (8 * i) (concat (map (\<lambda>b. nat_bits (f b) 8) dat) @ z)) = nat_bits (f (dat ! i)) 8"
proof (induction dat arbitrary: i)
  case (Cons b dat)
  then show ?case by (cases i) (simp_all add: algebra_simps)
qed simp

lemma map_chunks:
  "map (\<lambda>i. of_nat (bits_nat (take 8 (drop (8 * i) (concat (map (\<lambda>b. nat_bits (unat b) 8) dat) @ z))))) [0..<length dat] = (dat :: byte list)"
  by (intro nth_equalityI) (simp_all add: nth_chunk byte_of_bits del: take_append drop_append)

lemma nat_bits_4: "nat_bits 4 4 = [False, True, False, False]"
  by (simp add: nat_bits_def upt_rec bit_0)

lemma encode_stream:
  assumes dc: "dataCodewordsFor v ec = Inr dc" and fit: "4 + charCountBits v + length dat * 8 \<le> dc * 8" "length dat < 2 ^ charCountBits v"
  obtains ws where "encodeDataBytes dat v ec = Inr ws" "length ws = dc" "decode_stream v ws = Some dat"
proof -
  let ?cc = "charCountBits v"
  let ?body = "concat (map (\<lambda>b. nat_bits (unat b) 8) dat)"
  let ?bs = "[] @ nat_bits 4 4 @ nat_bits (length dat) ?cc @ ?body"
  define b1 where "b1 = foldl (\<lambda>bb b. put bb (unat b) 8) (put (put \<lparr>bb_buffer = [], bb_length = 0\<rparr> 4 4) (length dat) ?cc) dat"
  have r1: "bb_repr b1 ?bs"
    using foldl_put_repr [OF repr_put [OF repr_put [OF repr_empty, of 4 4], of "length dat" ?cc], of dat] by (simp add: b1_def)
  have L: "length ?bs = 4 + ?cc + 8 * length dat" by (simp add: length_concat_8)
  define k where "k = nat (min 4 (int (dc * 8) - int (bitLength b1)))"
  define b2 where "b2 = put b1 0 k"
  have r2: "bb_repr b2 (?bs @ nat_bits 0 k)" unfolding b2_def by (rule repr_put [OF r1])
  have k: "length (?bs @ nat_bits 0 k) \<le> 8 * dc" using L fit(1) repr_length [OF r1] by (simp add: k_def)
  obtain z where z: "bb_repr (pad_to_byte b2) ((?bs @ nat_bits 0 k) @ z)" "length ((?bs @ nat_bits 0 k) @ z) = (length (?bs @ nat_bits 0 k) + 7) div 8 * 8"
    using repr_pad_to_byte [OF r2] by blast
  have "length ((?bs @ nat_bits 0 k) @ z) \<le> 8 * dc" using ceil8_le [OF k] z(2) by (simp only: mult.commute)
  moreover have "8 dvd length ((?bs @ nat_bits 0 k) @ z)" unfolding z(2) by simp
  ultimately obtain y where y: "bb_repr (pad_bytes (8 * dc) 0 (pad_to_byte b2)) (((?bs @ nat_bits 0 k) @ z) @ y)"
      "length (((?bs @ nat_bits 0 k) @ z) @ y) = 8 * dc"
    using repr_pad_bytes [OF z(1)] by blast
  let ?ws = "bb_bytes (pad_bytes (8 * dc) 0 (pad_to_byte b2))" and ?t = "nat_bits 0 k @ z @ y"
  have bits: "concat (map byte_bits ?ws) = nat_bits 4 4 @ nat_bits (length dat) ?cc @ ?body @ ?t" and len: "length ?ws = dc"
    using repr_bytes [OF y] by simp_all
  have "encodeDataBytes dat v ec = Inr ?ws"
    unfolding encodeDataBytes_def dc res_bind_simps Let_def b1_def [symmetric] k_def [symmetric] b2_def [symmetric] by (simp only: mult.commute)
  moreover have "decode_stream v ?ws = Some dat"
  proof -
    have parts: "take 4 (concat (map byte_bits ?ws)) = [False, True, False, False]"
        "take ?cc (drop 4 (concat (map byte_bits ?ws))) = nat_bits (length dat) ?cc"
        "drop (4 + ?cc) (concat (map byte_bits ?ws)) = ?body @ ?t"
      unfolding bits using drop_append [of "4 + ?cc" "nat_bits 4 4 @ nat_bits (length dat) ?cc" "?body @ ?t"] by (simp_all add: nat_bits_4)
    then show ?thesis
      unfolding decode_stream_def Let_def parts bits_nat_bits [OF fit(2)] map_chunks by (simp add: length_concat_8)
  qed
  ultimately show ?thesis using that len by blast
qed

section \<open>The tables\<close>

definition block_ok :: "nat \<Rightarrow> block_info \<Rightarrow> bool" where
  "block_ok v info \<longleftrightarrow> 0 < ecCodewordsPerBlock info \<and> block_sizes info \<noteq> []
     \<and> list_all (\<lambda>s. 0 < s \<and> s + ecCodewordsPerBlock info \<le> 255) (block_sizes info)
     \<and> sum_list (block_sizes info) < 2 ^ charCountBits v"

lemma table_row:
  assumes "1 \<le> v" "v \<le> 20"
  obtains info where "blockInfoFor v ec = Inr info" "block_ok v info" "dataCodewordsFor v ec = Inr (sum_list (block_sizes info))"
proof -
  have "list_all (\<lambda>v. \<exists>info. blockInfoFor v ec = Inr info \<and> block_ok v info) [1..<21]"
    by (cases ec) (simp_all add: upt_rec blockInfoFor_def BLOCK_TABLE_def block_ok_def block_sizes_def charCountBits_def list_all_iff sum_list_replicate)
  moreover have "v \<in> set [1..<21]" using assms by (simp only: set_upt atLeastLessThan_iff) simp
  ultimately have "\<exists>info. blockInfoFor v ec = Inr info \<and> block_ok v info" unfolding list_all_iff by blast
  then obtain info where i: "blockInfoFor v ec = Inr info" "block_ok v info" by blast
  have "foldl (\<lambda>sum b. sum + bg_count b * bg_dataCount b) a bs = a + sum_list (concat (map (\<lambda>g. replicate (bg_count g) (bg_dataCount g)) bs))" for a bs
    by (induction bs arbitrary: a) (simp_all add: sum_list_replicate)
  from this [of 0 "bi_blocks info"] have "dataCodewordsFor v ec = Inr (sum_list (block_sizes info))"
    unfolding dataCodewordsFor_def i(1) res_bind_simps block_sizes_def by (simp only: add_0)
  with i that show ?thesis by blast
qed

lemma select_from_props:
  "select_from n ec vs = Inr v \<Longrightarrow> v \<in> set vs \<and> (\<exists>dc. dataCodewordsFor v ec = Inr dc \<and> 4 + charCountBits v + n * 8 \<le> dc * 8)"
  by (induction vs) (auto simp: Let_def res_bind_eq_Inr split: if_splits)

lemma selectVersion_props:
  assumes "selectVersion n ec minV = Inr v"
  shows "1 \<le> v" "v \<le> 20" "\<exists>dc. dataCodewordsFor v ec = Inr dc \<and> 4 + charCountBits v + n * 8 \<le> dc * 8"
  using select_from_props [of n ec _ v] assms by (fastforce simp: selectVersion_def)+

section \<open>Interleaving can be undone\<close>

fun attach :: "nat list \<Rightarrow> byte list \<Rightarrow> byte list list \<Rightarrow> byte list list" where
  "attach [] hs bs = []"
| "attach (s # ss) hs bs = (if 0 < s then (hd hs # hd bs) # attach ss (tl hs) (tl bs) else hd bs # attach ss hs (tl bs))"

text \<open>A reader that deals the codewords of each column to the blocks that have one.\<close>

fun deinterleave :: "nat \<Rightarrow> nat list \<Rightarrow> byte list \<Rightarrow> byte list list" where
  "deinterleave 0 ss ws = map (\<lambda>_. []) ss"
| "deinterleave (Suc n) ss ws =
     (let k = length (filter (\<lambda>s. 0 < s) ss) in
      attach ss (take k ws) (deinterleave n (map (\<lambda>s. s - 1) ss) (drop k ws)))"

definition heads :: "byte list list \<Rightarrow> byte list" where
  "heads bs = map hd (filter (\<lambda>b. b \<noteq> []) bs)"

lemma interleave_Suc: "interleave (Suc n) bs = heads bs @ interleave n (map tl bs)"
proof -
  have "concat (map (\<lambda>b. if 0 < length b then [b ! 0] else []) bs) = heads bs"
    by (induction bs) (auto simp: heads_def hd_conv_nth)
  moreover have "concat (map (\<lambda>b. if Suc i < length b then [b ! Suc i] else []) bs) = concat (map (\<lambda>b. if i < length b then [b ! i] else []) (map tl bs))" for i
    by (induction bs) (auto simp: nth_tl)
  moreover have "[0..<Suc n] = 0 # map Suc [0..<n]" by (simp add: upt_conv_Cons map_Suc_upt del: upt_Suc)
  ultimately show ?thesis by (simp add: interleave_def comp_def del: upt_Suc)
qed

lemma attach_heads: "attach (map length bs) (heads bs) (map tl bs) = bs"
proof (induction bs)
  case (Cons b bs)
  then show ?case by (cases b) (simp_all add: heads_def)
qed simp

lemma deinterleave_interleave:
  "\<forall>b\<in>set bs. length b \<le> n \<Longrightarrow> deinterleave n (map length bs) (interleave n bs @ rest) = bs"
proof (induction n arbitrary: bs)
  case 0
  then show ?case by (auto intro!: map_idI)
next
  case (Suc n)
  have k: "length (filter (\<lambda>s. 0 < s) (map length bs)) = length (heads bs)"
    by (induction bs) (simp_all add: heads_def)
  have m: "map (\<lambda>s. s - 1) (map length bs) = map length (map tl bs)" by simp
  have "deinterleave n (map length (map tl bs)) (interleave n (map tl bs) @ rest) = map tl bs"
    using Suc.prems by (intro Suc.IH) auto
  then show ?case by (simp only: deinterleave.simps Let_def k m interleave_Suc append_assoc take_append drop_append) (simp add: attach_heads)
qed

lemma length_interleave: "\<forall>b\<in>set bs. length b \<le> n \<Longrightarrow> length (interleave n bs) = sum_list (map length bs)"
proof (induction n arbitrary: bs)
  case 0
  then show ?case by (simp add: interleave_def sum_list_eq_0_iff)
next
  case (Suc n)
  have "length (heads bs) + sum_list (map length (map tl bs)) = sum_list (map length bs)"
  proof (induction bs)
    case (Cons b bs)
    then show ?case by (cases b) (simp_all add: heads_def)
  qed (simp add: heads_def)
  moreover have "length (interleave n (map tl bs)) = sum_list (map length (map tl bs))" using Suc.prems by (intro Suc.IH) auto
  ultimately show ?case by (simp add: interleave_Suc)
qed

section \<open>The codeword sequence\<close>

lemma take_blocks:
  assumes "off + sum_list ss \<le> length dat"
  shows "\<exists>S. foldl (take_block dat n) (off, D, E) ss = (off + sum_list ss, D @ S, E @ map (\<lambda>b. rsEncode b n) S)
    \<and> map length S = ss \<and> concat S = take (sum_list ss) (drop off dat)"
  using assms
proof (induction ss arbitrary: off D E)
  case (Cons s ss)
  let ?b = "take s (drop off dat)"
  from Cons.prems have "off + s + sum_list ss \<le> length dat" by simp
  from Cons.IH [OF this, of "D @ [?b]" "E @ [rsEncode ?b n]"] obtain S where
    S: "foldl (take_block dat n) (off + s, D @ [?b], E @ [rsEncode ?b n]) ss
          = (off + s + sum_list ss, (D @ [?b]) @ S, (E @ [rsEncode ?b n]) @ map (\<lambda>b. rsEncode b n) S)"
      "map length S = ss" "concat S = take (sum_list ss) (drop (off + s) dat)" by blast
  have "?b @ take (sum_list ss) (drop (off + s) dat) = take (s + sum_list ss) (drop off dat)"
    by (simp add: take_add add.commute)
  with S Cons.prems show ?case by (intro exI [of _ "?b # S"]) (simp add: take_block_def Let_def)
qed simp

lemma fold_max_ge: "x \<in> set xs \<Longrightarrow> x \<le> fold max xs (a :: nat)" and fold_max_init: "a \<le> fold max xs a"
proof -
  show init: "a \<le> fold max xs a" for xs and a :: nat by (induction xs arbitrary: a) (auto intro: order_trans [OF max.cobounded2])
  show "x \<in> set xs \<Longrightarrow> x \<le> fold max xs a"
  proof (induction xs arbitrary: a)
    case (Cons y xs)
    have "y \<le> fold max xs (max y a)" using init [of "max y a" xs] by simp
    with Cons show ?case by auto
  qed simp
qed

text \<open>A reader that separates the data and the error-correction part of every block.\<close>

definition read_data :: "block_info \<Rightarrow> byte list \<Rightarrow> byte list list" where
  "read_data info cs = deinterleave (fold max (block_sizes info) 0) (block_sizes info) (take (sum_list (block_sizes info)) cs)"

definition read_ec :: "block_info \<Rightarrow> byte list \<Rightarrow> byte list list" where
  "read_ec info cs = deinterleave (ecCodewordsPerBlock info) (map (\<lambda>_. ecCodewordsPerBlock info) (block_sizes info))
     (drop (sum_list (block_sizes info)) cs)"

lemma codewords:
  assumes v: "blockInfoFor v ec = Inr info" "block_ok v info" "dataCodewordsFor v ec = Inr (sum_list (block_sizes info))"
    and len: "length ws = sum_list (block_sizes info)"
  obtains cs where "buildCodewords ws v ec = Inr cs"
    "length cs = sum_list (block_sizes info) + length (block_sizes info) * ecCodewordsPerBlock info"
    "\<And>cs'. take (sum_list (block_sizes info)) cs' = take (sum_list (block_sizes info)) cs \<Longrightarrow> concat (read_data info cs') = ws"
    "read_ec info cs = map (\<lambda>b. rsEncode b (ecCodewordsPerBlock info)) (read_data info cs)"
proof -
  let ?n = "ecCodewordsPerBlock info" and ?ss = "block_sizes info"
  obtain S where S: "foldl (take_block ws ?n) (0, [], []) ?ss = (sum_list ?ss, S, map (\<lambda>b. rsEncode b ?n) S)"
      "map length S = ?ss" "concat S = ws"
    using take_blocks [of 0 ?ss ws ?n "[]" "[]"] len by auto
  let ?m = "fold max (map length S) 0" and ?E = "map (\<lambda>b. rsEncode b ?n) S"
  let ?cs = "interleave ?m S @ interleave ?n ?E"
  have n: "0 < ?n" "list_all (\<lambda>s. 0 < s \<and> s + ?n \<le> 255) ?ss" using v(2) by (simp_all add: block_ok_def)
  have le: "\<forall>b\<in>set S. length b \<le> ?m" by (simp add: fold_max_ge)
  have elen: "\<forall>b\<in>set ?E. length b = ?n" using rsEncode_eval [of 0 ?n] n by (force simp: list_all_iff S(2) [symmetric])
  have lenD: "length (interleave ?m S) = sum_list ?ss" using length_interleave [OF le] S(2) by simp
  have mapE: "map length ?E = map (\<lambda>_. ?n) ?ss" using elen by (simp add: S(2) [symmetric] comp_def)
  have data: "read_data info cs' = S" if "take (sum_list ?ss) cs' = take (sum_list ?ss) ?cs" for cs'
    using deinterleave_interleave [OF le, of "[]"] that lenD by (simp add: read_data_def S(2))
  have "read_ec info ?cs = ?E"
    using deinterleave_interleave [of ?E ?n "[]"] elen lenD mapE by (simp add: read_ec_def)
  moreover have "length ?cs = sum_list ?ss + length ?ss * ?n"
    using length_interleave [of ?E ?n] elen lenD mapE by (simp add: sum_list_triv mult.commute del: map_map)
  moreover have "buildCodewords ws v ec = Inr ?cs" using v len S(1) by (simp add: buildCodewords_def Let_def S(2) [symmetric])
  ultimately show ?thesis using that [of ?cs] data S(3) by simp
qed

text \<open>
  Codewords round trip: for a string of bytes whose version was selected, the encoder produces a
  full sequence of codewords; undoing the interleaving gives blocks whose syndromes all vanish, and
  reading their data as a byte-mode segment gives the bytes back.
\<close>

theorem codewords_roundtrip:
  assumes "selectVersion (length dat) ec minVersion = Inr v"
  shows "\<exists>info ws cs. blockInfoFor v ec = Inr info \<and> encodeDataBytes dat v ec = Inr ws \<and> buildCodewords ws v ec = Inr cs
    \<and> length cs = sum_list (block_sizes info) + length (block_sizes info) * ecCodewordsPerBlock info
    \<and> list_all (\<lambda>(d, e). list_all (\<lambda>i. rs_syndrome (d @ e) i = 0) [0..<ecCodewordsPerBlock info]) (zip (read_data info cs) (read_ec info cs))
    \<and> decode_stream v (concat (read_data info cs)) = Some dat"
proof -
  note sel = selectVersion_props [OF assms]
  obtain info where i: "blockInfoFor v ec = Inr info" "block_ok v info" "dataCodewordsFor v ec = Inr (sum_list (block_sizes info))"
    using table_row [OF sel(1,2)] by blast
  have fit: "4 + charCountBits v + length dat * 8 \<le> sum_list (block_sizes info) * 8" using sel(3) i(3) by auto
  then have small: "length dat < 2 ^ charCountBits v" using i(2) by (simp add: block_ok_def)
  obtain ws where ws: "encodeDataBytes dat v ec = Inr ws" "length ws = sum_list (block_sizes info)" "decode_stream v ws = Some dat"
    using encode_stream [OF i(3) fit small] by blast
  obtain cs where cs: "buildCodewords ws v ec = Inr cs" "length cs = sum_list (block_sizes info) + length (block_sizes info) * ecCodewordsPerBlock info"
      "concat (read_data info cs) = ws" "read_ec info cs = map (\<lambda>b. rsEncode b (ecCodewordsPerBlock info)) (read_data info cs)"
    using codewords [OF i ws(2)] by metis
  have "rs_syndrome (d @ rsEncode d (ecCodewordsPerBlock info)) k = 0" if "k < ecCodewordsPerBlock info" for d k
  proof -
    have "ecCodewordsPerBlock info \<le> 512" using i(2) by (cases "block_sizes info") (auto simp: block_ok_def)
    then show ?thesis using rsEncode_eval [OF that] rs_syndrome_eval [of "d @ rsEncode d (ecCodewordsPerBlock info)" k] by (simp add: Gf_eq_0 [symmetric])
  qed
  then have "list_all (\<lambda>(d, e). list_all (\<lambda>i. rs_syndrome (d @ e) i = 0) [0..<ecCodewordsPerBlock info]) (zip (read_data info cs) (read_ec info cs))"
    unfolding cs(4) by (auto simp: list_all_iff set_zip)
  with i(1) ws cs show ?thesis by auto
qed

theorem codewords_roundtrip_witness:
  "\<exists>ws cs info. blockInfoFor 1 EC_M = Inr info \<and> encodeDataBytes [104, 105] 1 EC_M = Inr ws \<and> buildCodewords ws 1 EC_M = Inr cs
    \<and> decode_stream 1 (concat (read_data info cs)) = Some [104, 105]"
proof -
  have "[nat (max 1 1)..<21] = 1 # [2..<21]" by (simp add: upt_rec)
  then have "selectVersion (length [104 :: byte, 105]) EC_M 1 = Inr 1"
    by (simp add: selectVersion_def dataCodewordsFor_def blockInfoFor_def BLOCK_TABLE_def charCountBits_def del: upt_rec_numeral)
  from codewords_roundtrip [OF this] show ?thesis by blast
qed

end
