(* ===== verification/Qr_Matrix.thy ===== *)
theory Qr_Matrix
  imports Qr_Codewords_Thms
begin

unbundle bit_operations_syntax

text \<open>
  The module matrix of a QR symbol (\<open>wallet-ui/src/tonconnect/qrCode.ts\<close>): function patterns, data
  placement, masks, format and version information, the penalty score, the choice of the mask and the
  rendering as SVG. A matrix is the list of its rows, indexed \<open>[y][x]\<close>; every index the code computes
  lies inside the matrix, so an assignment is a list update. Scale and margin of the rendering are
  integers.
\<close>

section \<open>Matrices\<close>

type_synonym 'a grid = "'a list list"

definition makeMatrix :: "nat \<Rightarrow> 'a \<Rightarrow> 'a grid" where
  "makeMatrix sz fill = replicate sz (replicate sz fill)"

definition mget :: "'a grid \<Rightarrow> nat \<Rightarrow> nat \<Rightarrow> 'a" where
  "mget m y x = m ! y ! x"

definition mput :: "'a grid \<Rightarrow> nat \<Rightarrow> nat \<Rightarrow> 'a \<Rightarrow> 'a grid" where
  "mput m y x v = m[y := (m ! y)[x := v]]"

text \<open>The matrix under construction with the mask of its reserved modules.\<close>

type_synonym canvas = "nat grid \<times> bool grid"

definition paint :: "canvas \<Rightarrow> nat \<Rightarrow> nat \<Rightarrow> nat \<Rightarrow> canvas" where
  "paint c y x v = (mput (fst c) y x v, mput (snd c) y x True)"

section \<open>Function patterns\<close>

definition ALIGNMENT_PATTERNS :: "nat list list" where
  "ALIGNMENT_PATTERNS =
     [[], [], [6, 18], [6, 22], [6, 26], [6, 30], [6, 34], [6, 22, 38], [6, 24, 42], [6, 26, 46], [6, 28, 50],
      [6, 30, 54], [6, 32, 58], [6, 34, 62], [6, 26, 46, 66], [6, 26, 48, 70], [6, 26, 50, 74], [6, 30, 54, 78],
      [6, 30, 56, 82], [6, 30, 58, 86], [6, 34, 62, 90]]"

definition int_square :: "int \<Rightarrow> int \<Rightarrow> (int \<times> int) list" where
  "int_square a b = concat (map (\<lambda>dy. map (\<lambda>dx. (dy, dx)) [a..b]) [a..b])"

definition finder_module :: "int \<Rightarrow> int \<Rightarrow> canvas \<Rightarrow> int \<times> int \<Rightarrow> canvas" where
  "finder_module x y = (\<lambda>c (dy, dx).
     let xx = x + dx; yy = y + dy; sz = int (length (fst c)) in
     if xx < 0 \<or> yy < 0 \<or> xx \<ge> sz \<or> yy \<ge> sz then c
     else
       let inOuter = (dx \<ge> 0 \<and> dx \<le> 6 \<and> (dy = 0 \<or> dy = 6)) \<or> (dy \<ge> 0 \<and> dy \<le> 6 \<and> (dx = 0 \<or> dx = 6));
           inInner = dx \<ge> 2 \<and> dx \<le> 4 \<and> dy \<ge> 2 \<and> dy \<le> 4 in
       paint c (nat yy) (nat xx) (if inOuter \<or> inInner then 1 else 0))"

definition placeFinderPattern :: "nat \<Rightarrow> nat \<Rightarrow> canvas \<Rightarrow> canvas" where
  "placeFinderPattern x y c = foldl (finder_module (int x) (int y)) c (int_square (-1) 7)"

definition alignment_module :: "nat \<Rightarrow> nat \<Rightarrow> canvas \<Rightarrow> int \<times> int \<Rightarrow> canvas" where
  "alignment_module cx cy = (\<lambda>c (dy, dx).
     let onRing = max \<bar>dx\<bar> \<bar>dy\<bar> = 2 \<or> (dx = 0 \<and> dy = 0) in
     paint c (nat (int cy + dy)) (nat (int cx + dx)) (if onRing then 1 else 0))"

definition placeAlignmentPattern :: "nat \<Rightarrow> nat \<Rightarrow> canvas \<Rightarrow> canvas" where
  "placeAlignmentPattern cx cy c = foldl (alignment_module cx cy) c (int_square (-2) 2)"

definition reserveFormatArea :: "nat \<Rightarrow> bool grid \<Rightarrow> bool grid" where
  "reserveFormatArea sz r =
     foldl (\<lambda>r i. mput (mput r (sz - 1 - i) 8 True) 8 (sz - 1 - i) True)
       (foldl (\<lambda>r i. mput (mput r 8 i True) i 8 True) r [0..<9]) [0..<8]"

definition placeTimingPatterns :: "nat \<Rightarrow> canvas \<Rightarrow> canvas" where
  "placeTimingPatterns sz c =
     foldl (\<lambda>c i. let v = (if i mod 2 = 0 then 1 else 0) in
       (mput (mput (fst c) 6 i v) i 6 v, mput (mput (snd c) 6 i True) i 6 True)) c [8..<sz - 8]"

definition placeDarkModule :: "nat \<Rightarrow> canvas \<Rightarrow> canvas" where
  "placeDarkModule version c = paint c (4 * version + 9) 8 1"

section \<open>Data placement\<close>

text \<open>The modules in the order of the upward and downward scan in column pairs, column 6 skipped.\<close>

fun scan_columns :: "nat \<Rightarrow> nat \<Rightarrow> bool \<Rightarrow> (nat \<times> nat) list" where
  "scan_columns sz right upward =
     (if right = 0 then []
      else
        let right = (if right = 6 then right - 1 else right) in
        concat (map (\<lambda>vert. map (\<lambda>i. (if upward then sz - 1 - vert else vert, right - i)) [0..<2]) [0..<sz])
        @ scan_columns sz (right - 2) (\<not> upward))"

declare scan_columns.simps [simp del]

definition data_bit :: "byte list \<Rightarrow> nat \<Rightarrow> nat" where
  "data_bit dat bitIndex =
     (let byte = (if drop_bit 3 bitIndex < length dat then unat (dat ! drop_bit 3 bitIndex) else 0) in
      drop_bit (7 - (bitIndex AND 7)) byte AND 1)"

definition place_module :: "bool grid \<Rightarrow> byte list \<Rightarrow> nat grid \<times> nat \<Rightarrow> nat \<times> nat \<Rightarrow> nat grid \<times> nat" where
  "place_module r dat = (\<lambda>(m, bitIndex) (y, x).
     if mget r y x then (m, bitIndex) else (mput m y x (data_bit dat bitIndex), Suc bitIndex))"

definition placeData :: "nat grid \<Rightarrow> bool grid \<Rightarrow> byte list \<Rightarrow> nat grid" where
  "placeData m r dat = fst (foldl (place_module r dat) (m, 0) (scan_columns (length m) (length m - 1) True))"

section \<open>Masks\<close>

definition maskFn :: "nat \<Rightarrow> (nat \<Rightarrow> nat \<Rightarrow> bool) option" where
  "maskFn pattern =
     (if pattern = 0 then Some (\<lambda>x y. (x + y) mod 2 = 0)
      else if pattern = 1 then Some (\<lambda>x y. y mod 2 = 0)
      else if pattern = 2 then Some (\<lambda>x y. x mod 3 = 0)
      else if pattern = 3 then Some (\<lambda>x y. (x + y) mod 3 = 0)
      else if pattern = 4 then Some (\<lambda>x y. (x div 3 + y div 2) mod 2 = 0)
      else if pattern = 5 then Some (\<lambda>x y. (x * y) mod 2 + (x * y) mod 3 = 0)
      else if pattern = 6 then Some (\<lambda>x y. ((x * y) mod 2 + (x * y) mod 3) mod 2 = 0)
      else if pattern = 7 then Some (\<lambda>x y. ((x + y) mod 2 + (x * y) mod 3) mod 2 = 0)
      else None)"

definition positions :: "nat \<Rightarrow> (nat \<times> nat) list" where
  "positions sz = concat (map (\<lambda>y. map (\<lambda>x. (y, x)) [0..<sz]) [0..<sz])"

text \<open>\<open>None\<close> is the error thrown for a pattern outside 0..7.\<close>

definition applyMask :: "nat grid \<Rightarrow> bool grid \<Rightarrow> nat \<Rightarrow> nat grid option" where
  "applyMask m r pattern =
     (case maskFn pattern of
        None \<Rightarrow> None
      | Some fn \<Rightarrow> Some (foldl (\<lambda>masked (y, x). if \<not> mget r y x \<and> fn x y then mput masked y x (mget masked y x XOR 1) else masked)
          m (positions (length m))))"

section \<open>Format and version information\<close>

definition bch_round :: "nat \<Rightarrow> int \<Rightarrow> int \<Rightarrow> int" where
  "bch_round tp g bch = push_bit 1 bch XOR (if drop_bit tp bch AND 1 \<noteq> 0 then g else 0)"

definition formatInfoBits :: "QRErrorLevel \<Rightarrow> nat \<Rightarrow> int" where
  "formatInfoBits ec msk =
     (let ecBits = (if ec = EC_L then 1 else 0);
          dat = push_bit 3 ecBits OR int msk;
          bch = (bch_round 9 0x537 ^^ 10) dat in
      ((push_bit 10 dat OR (bch AND 0x3ff)) XOR 0x5412) AND 0x7fff)"

definition bit_of :: "int \<Rightarrow> nat \<Rightarrow> nat" where
  "bit_of bits i = nat (drop_bit i bits AND 1)"

text \<open>The module of the first copy that holds format bit \<open>i\<close>.\<close>

definition format_pos :: "nat \<Rightarrow> nat \<times> nat" where
  "format_pos i = (if i < 6 then (i, 8) else if i = 6 then (7, 8) else if i = 7 then (8, 8) else if i = 8 then (8, 7) else (8, 14 - i))"

definition placeFormatInfo :: "nat grid \<Rightarrow> QRErrorLevel \<Rightarrow> nat \<Rightarrow> nat grid" where
  "placeFormatInfo m ec msk =
     (let bits = formatInfoBits ec msk; sz = length m;
          m = foldl (\<lambda>m i. mput m (fst (format_pos i)) (snd (format_pos i)) (bit_of bits i)) m [0..<15];
          m = foldl (\<lambda>m i. if i < 7 then mput m (sz - 1 - i) 8 (bit_of bits i) else mput m 8 (sz - 15 + i) (bit_of bits i)) m [0..<15] in
      mput m (sz - 8) 8 1)"

definition versionInfoBits :: "nat \<Rightarrow> int" where
  "versionInfoBits version =
     (let bch = (bch_round 11 0x1f25 ^^ 12) (int version) in (push_bit 12 (int version) OR (bch AND 0xfff)) AND 0x3ffff)"

definition placeVersionInfo :: "nat grid \<Rightarrow> nat \<Rightarrow> nat grid" where
  "placeVersionInfo m version =
     (if version < 7 then m
      else
        let bits = versionInfoBits version; sz = length m in
        foldl (\<lambda>m i. let a = i div 3; b = i mod 3 + sz - 11 in
          mput (mput m a b (bit_of bits i)) b a (bit_of bits i)) m [0..<18])"

section \<open>Penalty score\<close>

definition penalty_run :: "nat \<Rightarrow> nat" where
  "penalty_run run = (if run \<ge> 5 then run - 2 else 0)"

definition penalty_line :: "nat grid \<Rightarrow> nat \<Rightarrow> nat" where
  "penalty_line m i =
     (case foldl (\<lambda>(score, runRow, runCol) j.
         let (score, runRow) = (if mget m i j = mget m i (j - 1) then (score, runRow + 1) else (score + penalty_run runRow, 1)) in
         if mget m j i = mget m (j - 1) i then (score, runRow, runCol + 1) else (score + penalty_run runCol, runRow, 1))
       (0, 1, 1) [1..<length m] of
        (score, runRow, runCol) \<Rightarrow> score + penalty_run runRow + penalty_run runCol)"

definition penalty_blocks :: "nat grid \<Rightarrow> nat" where
  "penalty_blocks m = sum_list (map (\<lambda>(y, x). let v = mget m y x in
     if mget m y (x + 1) = v \<and> mget m (y + 1) x = v \<and> mget m (y + 1) (x + 1) = v then 3 else 0) (positions (length m - 1)))"

definition finder_like :: "nat list \<Rightarrow> bool" where
  "finder_like w \<longleftrightarrow> w = [1, 0, 1, 1, 1, 0, 1, 0, 0, 0, 0] \<or> w = [0, 0, 0, 0, 1, 0, 1, 1, 1, 0, 1]"

definition penalty_finder :: "nat grid \<Rightarrow> nat" where
  "penalty_finder m =
     sum_list (map (\<lambda>y. sum_list (map (\<lambda>x. if finder_like (map (\<lambda>k. mget m y (x + k)) [0..<11]) then 40 else 0) [0..<length m - 10])) [0..<length m])
     + sum_list (map (\<lambda>x. sum_list (map (\<lambda>y. if finder_like (map (\<lambda>k. mget m (y + k) x) [0..<11]) then 40 else 0) [0..<length m - 10])) [0..<length m])"

text \<open>
  The deviation of the dark proportion from one half in steps of five per cent; the quotient differs
  from a whole number of steps by at least the reciprocal of the module count, so that rounding of the
  division in floating point never changes the step.
\<close>

definition penalty_dark :: "nat grid \<Rightarrow> nat" where
  "penalty_dark m =
     (let sz = length m; dark = sum_list (map (\<lambda>(y, x). mget m y x) (positions sz)) in
      nat (\<bar>int (dark * 100) - 50 * int (sz * sz)\<bar> div (5 * int (sz * sz))) * 10)"

definition penaltyScore :: "nat grid \<Rightarrow> nat" where
  "penaltyScore m = sum_list (map (penalty_line m) [0..<length m]) + penalty_blocks m + penalty_finder m + penalty_dark m"

section \<open>The symbol\<close>

record qr_options =
  errorLevel :: "QRErrorLevel option"
  minVersion :: "int option"
  scale :: "int option"
  margin :: "int option"
  darkColor :: "string option"
  lightColor :: "string option"

record qr_symbol =
  qr_matrix :: "nat grid"
  qr_version :: nat
  qr_size :: nat

definition place_alignments :: "nat \<Rightarrow> canvas \<Rightarrow> canvas" where
  "place_alignments version c =
     (let centres = ALIGNMENT_PATTERNS ! (version - 1) in
      foldl (\<lambda>c (cy, cx). if mget (snd c) cy cx then c else placeAlignmentPattern cx cy c) c
        (concat (map (\<lambda>cy. map (\<lambda>cx. (cy, cx)) centres) centres)))"

definition reserve_version :: "nat \<Rightarrow> nat \<Rightarrow> bool grid \<Rightarrow> bool grid" where
  "reserve_version version sz r =
     (if version \<ge> 7
      then foldl (\<lambda>r (i, j). mput (mput r i (sz - 11 + j) True) (sz - 11 + j) i True) r
        (concat (map (\<lambda>i. map (\<lambda>j. (i, j)) [0..<3]) [0..<6]))
      else r)"

text \<open>Everything that does not depend on the data: function patterns and the reserved areas.\<close>

definition function_patterns :: "nat \<Rightarrow> canvas" where
  "function_patterns version =
     (let sz = 17 + 4 * version;
          c = (makeMatrix sz 0, makeMatrix sz False);
          c = placeFinderPattern 0 0 c;
          c = placeFinderPattern (sz - 7) 0 c;
          c = placeFinderPattern 0 (sz - 7) c;
          c = (fst c, reserveFormatArea sz (snd c));
          c = place_alignments version c;
          c = placeTimingPatterns sz c;
          c = placeDarkModule version c in
      (fst c, reserve_version version sz (snd c)))"

definition candidate :: "nat grid \<Rightarrow> bool grid \<Rightarrow> QRErrorLevel \<Rightarrow> nat \<Rightarrow> nat \<Rightarrow> nat grid option" where
  "candidate base r ec version msk =
     map_option (\<lambda>m. placeVersionInfo (placeFormatInfo m ec msk) version) (applyMask base r msk)"

text \<open>The first candidate of least score; \<open>None\<close> stands for the initial infinite score.\<close>

definition select_mask :: "nat grid \<Rightarrow> bool grid \<Rightarrow> QRErrorLevel \<Rightarrow> nat \<Rightarrow> nat grid" where
  "select_mask base r ec version =
     snd (foldl (\<lambda>(bestScore, bestMatrix) msk.
         case candidate base r ec version msk of
           None \<Rightarrow> (bestScore, bestMatrix)
         | Some c \<Rightarrow>
             let score = penaltyScore c in
             if (case bestScore of None \<Rightarrow> True | Some s \<Rightarrow> score < s) then (Some score, c) else (bestScore, bestMatrix))
       (None, base) [0..<8])"

definition generateQRMatrix :: "bool \<Rightarrow> utf16 \<Rightarrow> qr_options \<Rightarrow> qr_error + qr_symbol" where
  "generateQRMatrix has_encoder dat options =
     (let ec = (case errorLevel options of None \<Rightarrow> EC_M | Some e \<Rightarrow> e);
          minV = (case minVersion options of None \<Rightarrow> 1 | Some v \<Rightarrow> v) in
      if dat = [] then Inl Empty_data
      else
        let bytes = utf8Bytes has_encoder dat in
        res_bind (selectVersion (length bytes) ec minV) (\<lambda>version.
        res_bind (encodeDataBytes bytes version ec) (\<lambda>dataCodewords.
        res_bind (buildCodewords dataCodewords version ec) (\<lambda>finalBits.
          let sz = 17 + 4 * version;
              (base, reserved) = function_patterns version;
              base = placeData base reserved finalBits in
          Inr \<lparr>qr_matrix = select_mask base reserved ec version, qr_version = version, qr_size = sz\<rparr>))))"

section \<open>Rendering\<close>

definition svg_rect :: "int \<Rightarrow> int \<Rightarrow> nat \<Rightarrow> nat \<Rightarrow> string" where
  "svg_rect sc mg y x =
     ''<rect x=\"'' @ dec_int ((int x + mg) * sc) @ ''\" y=\"'' @ dec_int ((int y + mg) * sc)
     @ ''\" width=\"'' @ dec_int sc @ ''\" height=\"'' @ dec_int sc @ ''\"/>''"

definition generateQRSvg :: "bool \<Rightarrow> utf16 \<Rightarrow> qr_options \<Rightarrow> qr_error + string" where
  "generateQRSvg has_encoder dat options = res_bind (generateQRMatrix has_encoder dat options) (\<lambda>q.
     let sc = (case scale options of None \<Rightarrow> 4 | Some s \<Rightarrow> s);
         mg = (case margin options of None \<Rightarrow> 4 | Some s \<Rightarrow> s);
         dark = (case darkColor options of None \<Rightarrow> ''#000000'' | Some s \<Rightarrow> s);
         light = (case lightColor options of None \<Rightarrow> ''#ffffff'' | Some s \<Rightarrow> s);
         dim = dec_int ((int (qr_size q) + mg * 2) * sc);
         rects = concat (map (\<lambda>(y, x). if mget (qr_matrix q) y x = 1 then svg_rect sc mg y x else []) (positions (qr_size q))) in
     Inr (''<svg xmlns=\"http://www.w3.org/2000/svg\" viewBox=\"0 0 '' @ dim @ '' '' @ dim @ ''\" width=\"'' @ dim @ ''\" height=\"'' @ dim
       @ ''\" shape-rendering=\"crispEdges\">'' @ ''<rect width=\"100%\" height=\"100%\" fill=\"'' @ light @ ''\"/>''
       @ ''<g fill=\"'' @ dark @ ''\">'' @ rects @ ''</g>'' @ ''</svg>''))"

text \<open>\<open>encodeURIComponent\<close> on the first 256 code points.\<close>

definition upper_hex :: "nat \<Rightarrow> char" where
  "upper_hex n = (if n < 10 then char_of (48 + n) else char_of (55 + n))"

definition uri_unreserved :: "char \<Rightarrow> bool" where
  "uri_unreserved c \<longleftrightarrow> is_digit c \<or>
     (let n = of_char c :: nat in (97 \<le> n \<and> n \<le> 122) \<or> (65 \<le> n \<and> n \<le> 90) \<or> n \<in> {33, 39, 40, 41, 42, 45, 46, 95, 126})"

definition encodeURIComponent :: "string \<Rightarrow> string" where
  "encodeURIComponent s = concat (map (\<lambda>c. if uri_unreserved c then [c]
     else concat (map (\<lambda>b. [CHR ''%'', upper_hex (unat b div 16), upper_hex (unat b mod 16)]) (utf8_point (of_char c)))) s)"

definition generateQRDataUrl :: "bool \<Rightarrow> utf16 \<Rightarrow> qr_options \<Rightarrow> qr_error + string" where
  "generateQRDataUrl has_encoder dat options = res_bind (generateQRSvg has_encoder dat options) (\<lambda>svg.
     Inr (''data:image/svg+xml;utf8,'' @ encodeURIComponent svg))"

end
