(* ===== verification/Qr_Matrix_Thms.thy ===== *)
theory Qr_Matrix_Thms
  imports Qr_Matrix
begin

unbundle bit_operations_syntax

text \<open>
  Lemmas on the module matrix: which modules each placement touches, the scan order of the data, the
  reserved modules and the capacity they leave, and the reading of format bits and data back from a
  finished symbol.
\<close>

section \<open>Square matrices\<close>

definition square :: "nat \<Rightarrow> 'a grid \<Rightarrow> bool" where
  "square n m \<longleftrightarrow> length m = n \<and> (\<forall>row\<in>set m. length row = n)"

lemma square_make [simp]: "square n (makeMatrix n v)"
  by (simp add: square_def makeMatrix_def)

lemma square_mput [simp]: "square n m \<Longrightarrow> square n (mput m y x v)"
  by (cases "y < length m") (auto simp: square_def mput_def list_update_beyond dest!: subsetD [OF set_update_subset_insert])

lemma square_length: "square n m \<Longrightarrow> length m = n"
  by (simp add: square_def)

lemma mget_mput: "square n m \<Longrightarrow> y < n \<Longrightarrow> x < n \<Longrightarrow> mget (mput m y x v) y' x' = (if y' = y \<and> x' = x then v else mget m y' x')"
  by (auto simp: square_def mget_def mput_def nth_list_update)

lemma mget_make: "y < n \<Longrightarrow> x < n \<Longrightarrow> mget (makeMatrix n v) y x = v"
  by (simp add: mget_def makeMatrix_def)

lemma mget_mput_other: "(y', x') \<noteq> (y, x) \<Longrightarrow> mget (mput m y x v) y' x' = mget m y' x'"
  by (cases "y < length m") (auto simp: mget_def mput_def nth_list_update list_update_beyond)

text \<open>A loop keeps what each of its steps keeps.\<close>

lemma foldl_keeps: "(\<And>a i. i \<in> set is \<Longrightarrow> P a \<Longrightarrow> P (f a i)) \<Longrightarrow> P a \<Longrightarrow> P (foldl f a is)"
  by (induction "is" arbitrary: a) auto

section \<open>Reserved modules\<close>

definition rset :: "nat \<Rightarrow> bool grid \<Rightarrow> (nat \<times> nat) set" where
  "rset n r = {(y, x). y < n \<and> x < n \<and> mget r y x}"

lemma rset_mput: "square n r \<Longrightarrow> y < n \<Longrightarrow> x < n \<Longrightarrow> rset n (mput r y x True) = insert (y, x) (rset n r)"
  by (auto simp: rset_def mget_mput)

lemma rset_make: "rset n (makeMatrix n False) = {}"
  by (auto simp: rset_def mget_make)

lemma finite_rset [simp]: "finite (rset n r)"
  by (rule finite_subset [of _ "{..<n} \<times> {..<n}"]) (auto simp: rset_def)

text \<open>\<open>grows n c c' A\<close>: from \<open>c\<close> to \<open>c'\<close> only modules of \<open>A\<close> become reserved, and the shape is kept.\<close>

definition grows :: "nat \<Rightarrow> canvas \<Rightarrow> canvas \<Rightarrow> (nat \<times> nat) set \<Rightarrow> bool" where
  "grows n c c' A \<longleftrightarrow> (square n (fst c) \<longrightarrow> square n (snd c) \<longrightarrow> square n (fst c') \<and> square n (snd c')
     \<and> rset n (snd c) \<subseteq> rset n (snd c') \<and> rset n (snd c') \<subseteq> rset n (snd c) \<union> A)"

lemma grows_refl: "grows n c c {}"
  by (simp add: grows_def)

lemma grows_trans: "grows n c c' A \<Longrightarrow> grows n c' c'' B \<Longrightarrow> grows n c c'' (A \<union> B)"
  by (auto simp: grows_def)

lemma grows_mono: "grows n c c' A \<Longrightarrow> A \<subseteq> B \<Longrightarrow> grows n c c' B"
  by (auto simp: grows_def)

lemma grows_paint: "y < n \<Longrightarrow> x < n \<Longrightarrow> grows n c (paint c y x v) {(y, x)}"
  by (auto simp: grows_def paint_def rset_mput)

lemma grows_foldl:
  assumes "\<And>c i. i \<in> set is \<Longrightarrow> square n (fst c) \<Longrightarrow> square n (snd c) \<Longrightarrow> grows n c (f c i) (A i)"
  shows "grows n c (foldl f c is) (\<Union>i\<in>set is. A i)"
  using assms
proof (induction "is" arbitrary: c)
  case (Cons i "is")
  show ?case
    unfolding grows_def
  proof (intro impI)
    assume sq: "square n (fst c)" "square n (snd c)"
    from Cons.prems [of i c] sq have 1: "grows n c (f c i) (A i)" by simp
    have "grows n (f c i) (foldl f (f c i) is) (\<Union>i\<in>set is. A i)" using Cons by simp
    from grows_trans [OF 1 this] sq show "square n (fst (foldl f c (i # is))) \<and> square n (snd (foldl f c (i # is)))
        \<and> rset n (snd c) \<subseteq> rset n (snd (foldl f c (i # is)))
        \<and> rset n (snd (foldl f c (i # is))) \<subseteq> rset n (snd c) \<union> (\<Union>i\<in>set (i # is). A i)"
      by (simp add: grows_def)
  qed
qed (simp add: grows_refl)

section \<open>The placements\<close>

lemma set_int_square: "set (int_square a b) = {a..b} \<times> {a..b}"
  by (auto simp: int_square_def)

definition finder_area :: "nat \<Rightarrow> nat \<Rightarrow> nat \<Rightarrow> (nat \<times> nat) set" where
  "finder_area n x y = {(yy, xx). yy < n \<and> xx < n \<and> y \<le> yy + 1 \<and> yy \<le> y + 7 \<and> x \<le> xx + 1 \<and> xx \<le> x + 7}"

lemma grows_finder: "grows n c (placeFinderPattern x y c) (finder_area n x y)"
proof -
  let ?A = "\<lambda>(dy, dx). if int x + dx < 0 \<or> int y + dy < 0 \<or> int x + dx \<ge> int n \<or> int y + dy \<ge> int n then {}
    else {(nat (int y + dy), nat (int x + dx))}"
  have "grows n c (finder_module (int x) (int y) c i) (?A i)" if "square n (fst c)" for c i
  proof (cases i)
    case (Pair dy dx)
    show ?thesis
      using grows_paint [of "nat (int y + dy)" n "nat (int x + dx)" c] grows_refl [of n c] square_length [OF that] Pair
      by (auto simp: finder_module_def Let_def)
  qed
  then have "grows n c (placeFinderPattern x y c) (\<Union>i\<in>set (int_square (-1) 7). ?A i)"
    unfolding placeFinderPattern_def by (intro grows_foldl)
  moreover have "(\<Union>i\<in>set (int_square (-1) 7). ?A i) \<subseteq> finder_area n x y"
    by (auto simp: set_int_square finder_area_def split: if_splits)
  ultimately show ?thesis by (rule grows_mono)
qed

lemma grows_alignment:
  assumes "2 \<le> cx" "cx + 2 < n" "2 \<le> cy" "cy + 2 < n"
  shows "grows n c (placeAlignmentPattern cx cy c) ({cy - 2..cy + 2} \<times> {cx - 2..cx + 2})"
proof -
  let ?A = "\<lambda>(dy, dx). {(nat (int cy + dy), nat (int cx + dx))}"
  have "grows n c (alignment_module cx cy c i) (?A i)" if "i \<in> {-2..2} \<times> {-2..2}" for c i
  proof (cases i)
    case (Pair dy dx)
    then have "nat (int cy + dy) < n" "nat (int cx + dx) < n" using that assms by auto
    then show ?thesis using grows_paint [of "nat (int cy + dy)" n "nat (int cx + dx)" c] Pair by (simp add: alignment_module_def)
  qed
  then have "grows n c (placeAlignmentPattern cx cy c) (\<Union>i\<in>set (int_square (-2) 2). ?A i)"
    unfolding placeAlignmentPattern_def by (intro grows_foldl) (simp add: set_int_square)
  moreover have "(\<Union>i\<in>set (int_square (-2) 2). ?A i) \<subseteq> {cy - 2..cy + 2} \<times> {cx - 2..cx + 2}"
    using assms by (auto simp: set_int_square)
  ultimately show ?thesis by (rule grows_mono)
qed

definition alignment_area :: "nat list \<Rightarrow> (nat \<times> nat) set" where
  "alignment_area cs = (\<Union>cy\<in>set cs. \<Union>cx\<in>set cs. {cy - 2..cy + 2} \<times> {cx - 2..cx + 2})"

lemma grows_alignments:
  assumes "\<And>k. k \<in> set (ALIGNMENT_PATTERNS ! (v - 1)) \<Longrightarrow> 2 \<le> k \<and> k + 2 < n"
  shows "grows n c (place_alignments v c) (alignment_area (ALIGNMENT_PATTERNS ! (v - 1)))"
proof -
  let ?cs = "ALIGNMENT_PATTERNS ! (v - 1)"
  let ?ps = "concat (map (\<lambda>cy. map (\<lambda>cx. (cy, cx)) ?cs) ?cs)"
  let ?A = "\<lambda>(cy, cx). {cy - 2..cy + 2} \<times> {cx - 2..cx + 2}"
  have "grows n c (case i of (cy, cx) \<Rightarrow> if mget (snd c) cy cx then c else placeAlignmentPattern cx cy c) (?A i)" if "i \<in> set ?ps" for c i
  proof (cases i)
    case (Pair cy cx)
    then have "2 \<le> cx" "cx + 2 < n" "2 \<le> cy" "cy + 2 < n" using that assms [of cy] assms [of cx] by auto
    from grows_alignment [OF this, of c] show ?thesis using grows_mono [OF grows_refl, of "?A i" n c] Pair by simp
  qed
  then have "grows n c (place_alignments v c) (\<Union>i\<in>set ?ps. ?A i)"
    unfolding place_alignments_def Let_def by (intro grows_foldl)
  then show ?thesis by (rule grows_mono) (auto simp: alignment_area_def)
qed

lemma card_alignment: "card (alignment_area cs) \<le> 25 * (length cs * length cs)"
proof -
  have box: "card ({cy - 2..cy + 2} \<times> {cx - 2..cx + 2}) \<le> 25" for cy cx :: nat
  proof -
    have "card {k - 2..k + 2} \<le> 5" for k :: nat by simp
    from mult_le_mono [OF this [of cy] this [of cx]] show ?thesis unfolding card_cartesian_product by simp
  qed
  have sum: "card (\<Union>k\<in>set cs. F k) \<le> b * length cs" if "\<And>k. card (F k) \<le> b" for F :: "nat \<Rightarrow> (nat \<times> nat) set" and b
  proof -
    have "card (\<Union>k\<in>set cs. F k) \<le> (\<Sum>k\<in>set cs. card (F k))" by (rule card_UN_le) simp
    also have "\<dots> \<le> card (set cs) * b" using sum_bounded_above [of "set cs" "\<lambda>k. card (F k)" b] that by simp
    also have "\<dots> \<le> b * length cs" by (simp add: card_length mult.commute)
    finally show ?thesis .
  qed
  have "card (alignment_area cs) \<le> 25 * length cs * length cs" unfolding alignment_area_def by (intro sum box)
  then show ?thesis by (simp only: mult.assoc)
qed

lemma grows_timing: "16 \<le> n \<Longrightarrow> grows n c (placeTimingPatterns n c) ({6} \<times> {8..<n - 8} \<union> {8..<n - 8} \<times> {6})"
proof -
  assume n: "16 \<le> n"
  let ?f = "\<lambda>c i. let v = (if i mod 2 = 0 then 1 else 0) in (mput (mput (fst c) 6 i v) i 6 v, mput (mput (snd c) 6 i True) i 6 True)"
  have "grows n c (?f c i) {(6, i), (i, 6)}" if "i \<in> set [8..<n - 8]" for c :: canvas and i
    using that n by (auto simp: grows_def Let_def rset_mput)
  then have "grows n c (placeTimingPatterns n c) (\<Union>i\<in>set [8..<n - 8]. {(6, i), (i, 6)})"
    unfolding placeTimingPatterns_def by (intro grows_foldl)
  then show ?thesis by (rule grows_mono) auto
qed

definition format_area :: "nat \<Rightarrow> (nat \<times> nat) set" where
  "format_area n = {8} \<times> {..8} \<union> {..8} \<times> {8} \<union> {n - 8..<n} \<times> {8} \<union> {8} \<times> {n - 8..<n}"

lemma rset_foldl_sym:
  assumes "\<And>i. i \<in> set is \<Longrightarrow> a i < n \<and> b i < n" "square n r"
  shows "square n (foldl (\<lambda>r i. mput (mput r (a i) (b i) True) (b i) (a i) True) r is)
    \<and> rset n (foldl (\<lambda>r i. mput (mput r (a i) (b i) True) (b i) (a i) True) r is) = rset n r \<union> (\<Union>i\<in>set is. {(a i, b i), (b i, a i)})"
  using assms by (induction "is" arbitrary: r) (auto simp: rset_mput)

lemma format_reserved:
  assumes n: "16 < n" and r: "square n r"
  shows "square n (reserveFormatArea n r) \<and> rset n (reserveFormatArea n r) = rset n r \<union> format_area n"
proof -
  let ?r = "foldl (\<lambda>r i. mput (mput r 8 i True) i 8 True) r [0..<9]"
  have 1: "square n ?r" "rset n ?r = rset n r \<union> (\<Union>i\<in>set [0..<9]. {(8, i), (i, 8)})"
    using rset_foldl_sym [of "[0..<9]" "\<lambda>i. 8" n "\<lambda>i. i" r] assms unfolding set_upt by auto
  have 2: "square n (reserveFormatArea n r)" "rset n (reserveFormatArea n r) = rset n ?r \<union> (\<Union>i\<in>set [0..<8]. {(n - 1 - i, 8), (8, n - 1 - i)})"
    using rset_foldl_sym [of "[0..<8]" "\<lambda>i. n - 1 - i" n "\<lambda>i. 8" ?r] 1(1) n unfolding reserveFormatArea_def set_upt by auto
  have 3: "(\<Union>i\<in>set [0..<9]. {(8 :: nat, i), (i, 8)}) = {8} \<times> {..8} \<union> {..8} \<times> {8}"
  proof -
    have "{0..<9} = {..8 :: nat}" by auto
    then show ?thesis unfolding set_upt by blast
  qed
  have "(\<Union>i\<in>set [0..<8]. {(n - 1 - i, 8 :: nat), (8, n - 1 - i)}) = {n - 8..<n} \<times> {8} \<union> {8} \<times> {n - 8..<n}"
  proof -
    have "(\<lambda>i. n - 1 - i) ` {0..<8} = {n - 8..<n}"
    proof (intro set_eqI iffI)
      fix k assume "k \<in> {n - 8..<n}"
      then have "k = n - 1 - (n - 1 - k)" "n - 1 - k \<in> {0..<8}" using n by auto
      then show "k \<in> (\<lambda>i. n - 1 - i) ` {0..<8}" by blast
    qed (use n in auto)
    then show ?thesis unfolding set_upt by blast
  qed
  with 1 2 3 show ?thesis by (simp only: format_area_def Un_assoc)
qed

lemma UN_sym_pairs: "(\<Union>p\<in>A \<times> B. {(fst p, f (snd p)), (f (snd p), fst p)}) = A \<times> f ` B \<union> f ` B \<times> A"
  by force

definition version_area :: "nat \<Rightarrow> nat \<Rightarrow> (nat \<times> nat) set" where
  "version_area v n = (if v \<ge> 7 then {..<6} \<times> {n - 11..<n - 8} \<union> {n - 11..<n - 8} \<times> {..<6} else {})"

lemma version_reserved:
  assumes n: "16 < n" and r: "square n r"
  shows "square n (reserve_version v n r) \<and> rset n (reserve_version v n r) = rset n r \<union> version_area v n"
proof (cases "v \<ge> 7")
  case True
  let ?ps = "concat (map (\<lambda>i. map (\<lambda>j. (i, j)) [0..<3]) [0..<6])"
  have ps: "set ?ps = {0..<6} \<times> {0..<3}" by auto
  have eq: "reserve_version v n r = foldl (\<lambda>r p. mput (mput r (fst p) (n - 11 + snd p) True) (n - 11 + snd p) (fst p) True) r ?ps"
    using True by (simp add: reserve_version_def case_prod_beta')
  have "square n (reserve_version v n r) \<and> rset n (reserve_version v n r)
      = rset n r \<union> (\<Union>p\<in>set ?ps. {(fst p, n - 11 + snd p), (n - 11 + snd p, fst p)})"
    unfolding eq by (rule rset_foldl_sym) (use n r ps in auto)
  moreover have "(\<Union>p\<in>{0..<6} \<times> {0..<3}. {(fst p, n - 11 + snd p), (n - 11 + snd p, fst p)}) = version_area v n"
  proof -
    have "(\<lambda>j. n - 11 + j) ` {0..<3} = {n - 11..<n - 8}" 
    proof -
      have "n - 11 + 3 = n - 8" using n by simp
      then show ?thesis using image_add_atLeastLessThan [of "n - 11" 0 3] by (simp only: add_0 add.commute [of 3])
    qed
    moreover have "{0..<6} = {..<6 :: nat}" by (rule atLeast0LessThan)
    ultimately show ?thesis using True UN_sym_pairs [where A = "{0..<6}" and B = "{0..<3}" and f = "\<lambda>j. n - 11 + j"] unfolding version_area_def by (simp only: if_True)
  qed
  ultimately show ?thesis unfolding ps by simp
qed (simp add: reserve_version_def version_area_def r)

section \<open>All function patterns\<close>

lemma alignment_table:
  assumes "1 \<le> v" "v \<le> 20" "k \<in> set (ALIGNMENT_PATTERNS ! (v - 1))"
  shows "2 \<le> k \<and> k + 2 < 17 + 4 * v"
proof -
  have "list_all (\<lambda>v. list_all (\<lambda>k. 2 \<le> k \<and> k + 2 < 17 + 4 * v) (ALIGNMENT_PATTERNS ! (v - 1))) [1..<21]"
    by (simp add: upt_rec ALIGNMENT_PATTERNS_def)
  moreover have "v \<in> set [1..<21]" using assms by (simp only: set_upt atLeastLessThan_iff) simp
  ultimately show ?thesis using assms(3) unfolding list_all_iff by blast
qed

lemma card_finders: "16 < n \<Longrightarrow> card (finder_area n 0 0 \<union> (finder_area n (n - 7) 0 \<union> finder_area n 0 (n - 7))) \<le> 192"
proof -
  assume n: "16 < n"
  have "finder_area n 0 0 \<subseteq> {..<8} \<times> {..<8}" "finder_area n (n - 7) 0 \<subseteq> {..<8} \<times> {n - 8..<n}" "finder_area n 0 (n - 7) \<subseteq> {n - 8..<n} \<times> {..<8}"
    using n unfolding finder_area_def by (auto simp only: mem_Times_iff fst_conv snd_conv lessThan_iff atLeastLessThan_iff mem_Collect_eq)
  moreover have "card ({..<8 :: nat} \<times> {..<8 :: nat}) = 64" "card ({..<8 :: nat} \<times> {n - 8..<n}) = 64" "card ({n - 8..<n} \<times> {..<8 :: nat}) = 64"
    using n by (simp_all only: card_cartesian_product card_lessThan card_atLeastLessThan)
  ultimately have "card (finder_area n 0 0) \<le> 64" "card (finder_area n (n - 7) 0) \<le> 64" "card (finder_area n 0 (n - 7)) \<le> 64"
    using card_mono [of "{..<8 :: nat} \<times> {..<8 :: nat}"] card_mono [of "{..<8 :: nat} \<times> {n - 8..<n}"] card_mono [of "{n - 8..<n} \<times> {..<8 :: nat}"]
    by (metis finite_SigmaI finite_lessThan finite_atLeastLessThan)+
  then show ?thesis
    using card_Un_le [of "finder_area n 0 0" "finder_area n (n - 7) 0 \<union> finder_area n 0 (n - 7)"]
      card_Un_le [of "finder_area n (n - 7) 0" "finder_area n 0 (n - 7)"] by linarith
qed

lemma card_reserved:
  fixes n v :: nat
  assumes n: "16 < n"
  defines "A \<equiv> finder_area n 0 0 \<union> (finder_area n (n - 7) 0 \<union> finder_area n 0 (n - 7))"
    and "T \<equiv> {6} \<times> {8..<n - 8} \<union> {8..<n - 8} \<times> {6 :: nat}"
  shows "card (A \<union> format_area n \<union> alignment_area cs \<union> T \<union> {(4 * v + 9, 8)} \<union> version_area v n)
    \<le> 192 + 34 + 25 * (length cs * length cs) + 2 * (n - 16) + 1 + (if v \<ge> 7 then 36 else 0)"
proof -
  have eight: "card {n - 8..<n} = 8" "card {n - 11..<n - 8} = 3" using n by simp_all
  have prod: "card (X \<times> Y) = card X * card Y" for X Y :: "nat set" by (rule card_cartesian_product)
  have "card (format_area n) \<le> 9 + 9 + 8 + 8"
    unfolding format_area_def by (intro order_trans [OF card_Un_le] add_mono) (simp_all only: prod eight card_atMost, simp_all)
  moreover have "card T \<le> 2 * (n - 16)"
    unfolding T_def by (rule order_trans [OF card_Un_le]) (simp add: card_cartesian_product)
  moreover have "card (version_area v n) \<le> (if v \<ge> 7 then 36 else 0)"
    unfolding version_area_def using card_Un_le [of "{..<6} \<times> {n - 11..<n - 8}" "{n - 11..<n - 8} \<times> {..<6}"]
    by (simp only: prod eight card_lessThan split: if_split) simp
  moreover have "card A \<le> 192" unfolding A_def by (rule card_finders [OF n])
  ultimately have "card A + card (format_area n) + card (alignment_area cs) + card T + card {(4 * v + 9, 8 :: nat)} + card (version_area v n)
      \<le> 192 + 34 + 25 * (length cs * length cs) + 2 * (n - 16) + 1 + (if v \<ge> 7 then 36 else 0)"
    using card_alignment [of cs] by (intro add_mono) simp_all
  moreover have "card (A \<union> format_area n \<union> alignment_area cs \<union> T \<union> {(4 * v + 9, 8)} \<union> version_area v n)
      \<le> card A + card (format_area n) + card (alignment_area cs) + card T + card {(4 * v + 9, 8 :: nat)} + card (version_area v n)"
    by (intro order_trans [OF card_Un_le] add_mono order_refl)
  ultimately show ?thesis by (rule order_trans [rotated])
qed

lemma patterns:
  assumes "1 \<le> v" "v \<le> 20" "n = 17 + 4 * v" "function_patterns v = (m, r)"
  shows "square n m" "square n r" "format_area n \<subseteq> rset n r" "version_area v n \<subseteq> rset n r"
    "card (rset n r) \<le> 192 + 34 + 25 * (length (ALIGNMENT_PATTERNS ! (v - 1)) * length (ALIGNMENT_PATTERNS ! (v - 1))) + 2 * (n - 16) + 1 + (if v \<ge> 7 then 36 else 0)"
proof -
  let ?cs = "ALIGNMENT_PATTERNS ! (v - 1)"
  have n: "16 < n" "16 \<le> n" "4 * v + 9 < n" "8 < n" using assms by simp_all
  define c0 where "c0 = (makeMatrix n (0 :: nat), makeMatrix n False)"
  define c1 where "c1 = placeFinderPattern 0 (n - 7) (placeFinderPattern (n - 7) 0 (placeFinderPattern 0 0 c0))"
  define c2 where "c2 = (fst c1, reserveFormatArea n (snd c1))"
  define c3 where "c3 = placeDarkModule v (placeTimingPatterns n (place_alignments v c2))"
  have fin: "m = fst c3" "r = reserve_version v n (snd c3)"
    using assms(4) unfolding function_patterns_def Let_def assms(3) [symmetric] c0_def [symmetric] c1_def [symmetric] c2_def [symmetric] c3_def [symmetric] by simp_all
  let ?A = "finder_area n 0 0 \<union> (finder_area n (n - 7) 0 \<union> finder_area n 0 (n - 7))"
  have "grows n c0 c1 ?A" unfolding c1_def
    by (rule grows_trans [OF grows_finder grows_trans [OF grows_finder grows_finder]])
  then have 1: "square n (fst c1)" "square n (snd c1)" "rset n (snd c1) \<subseteq> ?A" by (simp_all add: grows_def c0_def rset_make)
  have 2: "square n (fst c2)" "square n (snd c2)" "rset n (snd c2) = rset n (snd c1) \<union> format_area n"
    using 1 format_reserved [OF n(1) 1(2)] by (simp_all add: c2_def)
  let ?T = "{6} \<times> {8..<n - 8} \<union> {8..<n - 8} \<times> {6}"
  have "grows n c2 c3 (alignment_area ?cs \<union> (?T \<union> {(4 * v + 9, 8)}))"
    unfolding c3_def placeDarkModule_def
    by (intro grows_trans [OF grows_alignments grows_trans [OF grows_timing [OF n(2)] grows_paint [OF n(3,4)]]])
      (use alignment_table assms in simp)
  with 2 have 3: "square n (fst c3)" "square n (snd c3)" "rset n (snd c2) \<subseteq> rset n (snd c3)"
      "rset n (snd c3) \<subseteq> rset n (snd c2) \<union> (alignment_area ?cs \<union> (?T \<union> {(4 * v + 9, 8)}))" by (simp_all add: grows_def)
  have 4: "square n r" "rset n r = rset n (snd c3) \<union> version_area v n" using version_reserved [OF n(1) 3(2)] fin by simp_all
  show "square n m" using fin 3 by simp
  show "square n r" by (rule 4)
  show "format_area n \<subseteq> rset n r" "version_area v n \<subseteq> rset n r" using 2 3 4 by auto
  have "rset n r \<subseteq> ?A \<union> format_area n \<union> alignment_area ?cs \<union> ?T \<union> {(4 * v + 9, 8)} \<union> version_area v n" (is "_ \<subseteq> ?B") using 1 2 3 4 by blast
  moreover have "finite ?B" by (auto simp: format_area_def alignment_area_def version_area_def finder_area_def intro: finite_subset [of _ "{..<n} \<times> {..<n}"])
  ultimately have "card (rset n r) \<le> card ?B" by (intro card_mono)
  also note card_reserved [OF n(1)]
  finally show "card (rset n r) \<le> 192 + 34 + 25 * (length ?cs * length ?cs) + 2 * (n - 16) + 1 + (if v \<ge> 7 then 36 else 0)" .
qed

end
