(* ===== verification/Qr_Matrix_Props.thy ===== *)
theory Qr_Matrix_Props
  imports Qr_Matrix_Thms
begin

unbundle bit_operations_syntax

text \<open>
  The properties of finished QR symbols: a reader that shares the layout of the encoder recovers the
  encoded bytes from every symbol, and the alignment patterns of every version from 2 on are those of
  the version before it.
\<close>

section \<open>The scan order\<close>

lemma scan_columns_rec:
  "scan_columns n 0 u = []"
  "0 < r \<Longrightarrow> r' = (if r = 6 then 5 else r) \<Longrightarrow> scan_columns n r u
     = concat (map (\<lambda>vert. [(if u then n - 1 - vert else vert, r'), (if u then n - 1 - vert else vert, r' - 1)]) [0..<n]) @ scan_columns n (r' - 2) (\<not> u)"
  by (simp_all add: scan_columns.simps [of n r u] scan_columns.simps [of n 0 u] upt_rec)

lemma scan_bounds: "(y, x) \<in> set (scan_columns n r u) \<Longrightarrow> y < n \<and> x \<le> r"
proof (induction r arbitrary: u rule: less_induct)
  case (less r)
  show ?case
  proof (cases "r = 0")
    case False
    let ?r = "if r = 6 then 5 else r"
    have "y < n \<and> x \<le> ?r \<or> (y, x) \<in> set (scan_columns n (?r - 2) (\<not> u))"
      using less.prems scan_columns_rec(2) [of r ?r n u] False by auto
    moreover have "?r - 2 < r" "?r \<le> r" using False by (simp_all split: if_splits)
    ultimately show ?thesis using less.IH [of "?r - 2" "\<not> u"] by linarith
  qed (use less.prems in \<open>simp add: scan_columns_rec\<close>)
qed

lemma distinct_column: "0 < r \<Longrightarrow> distinct (concat (map (\<lambda>vert. [(if u then n - 1 - vert else vert, r), (if u then n - 1 - vert else vert, r - 1)]) [0..<n]))"
  for n r :: nat
proof -
  assume r: "0 < r"
  have "distinct (concat (map (\<lambda>vert. [(f vert, r), (f vert, r - 1)]) vs))" if "distinct (map f vs)" for f :: "nat \<Rightarrow> nat" and vs
    using that r by (induction vs) auto
  moreover have "distinct (map (\<lambda>vert. if u then n - 1 - vert else vert) [0..<n])"
    by (cases u) (auto simp: distinct_map inj_on_def)
  ultimately show ?thesis by blast
qed

lemma scan_distinct: "distinct (scan_columns n r u)"
proof (induction r arbitrary: u rule: less_induct)
  case (less r)
  show ?case
  proof (cases "r = 0")
    case False
    let ?r = "if r = 6 then 5 else r"
    have r: "0 < ?r" using False by simp
    have "set (concat (map (\<lambda>vert. [(if u then n - 1 - vert else vert, ?r), (if u then n - 1 - vert else vert, ?r - 1)]) [0..<n]))
        \<inter> set (scan_columns n (?r - 2) (\<not> u)) = {}"
    proof (cases "?r = 1")
      case True
      then show ?thesis by (simp add: scan_columns_rec)
    next
      case False
      with r have "?r - 2 < ?r - 1" by (simp split: if_splits)
      then show ?thesis using scan_bounds [of _ _ n "?r - 2" "\<not> u"] by fastforce
    qed
    moreover have "?r - 2 < r" using False by (simp split: if_splits)
    ultimately show ?thesis
      using less.IH [of "?r - 2" "\<not> u"] distinct_column [OF r, where n = n and u = u] scan_columns_rec(2) [of r ?r n u] False
      by (simp only: distinct_append)
  qed (simp add: scan_columns_rec)
qed

lemma length_column: "length (concat (map (\<lambda>v. [f v, g v]) vs)) = 2 * length vs"
  by (induction vs) simp_all

lemma scan_length: "length (scan_columns n (6 + 2 * k) u) = n * (6 + 2 * k)"
proof (induction k arbitrary: u)
  case 0
  have "length (scan_columns n 6 u) = 2 * n + length (scan_columns n 3 (\<not> u))" by (simp add: scan_columns_rec(2) [of 6 5] length_column)
  also have "length (scan_columns n 3 (\<not> u)) = 2 * n + length (scan_columns n 1 u)" by (simp add: scan_columns_rec(2) [of 3 3] length_column)
  also have "length (scan_columns n 1 u) = 2 * n" using scan_columns_rec(2) [of 1 1 n u] by (simp add: scan_columns_rec(1) length_column)
  finally show ?case by simp
next
  case (Suc k)
  have "scan_columns n (6 + 2 * Suc k) u = concat (map (\<lambda>vert. [(if u then n - 1 - vert else vert, 8 + 2 * k), (if u then n - 1 - vert else vert, 7 + 2 * k)]) [0..<n])
      @ scan_columns n (6 + 2 * k) (\<not> u)"
    using scan_columns_rec(2) [of "6 + 2 * Suc k" "6 + 2 * Suc k" n u] by simp
  then show ?case using Suc.IH [of "\<not> u"] by (simp add: length_column algebra_simps)
qed

section \<open>Data placement can be read back\<close>

lemma place_module_simps:
  "mget r y x \<Longrightarrow> place_module r dat (m, k) (y, x) = (m, k)"
  "\<not> mget r y x \<Longrightarrow> place_module r dat (m, k) (y, x) = (mput m y x (data_bit dat k), Suc k)"
  by (simp_all add: place_module_def)

lemma place_fold:
  fixes r :: "bool grid"
  assumes "square n m" "distinct ps" "\<And>y x. (y, x) \<in> set ps \<Longrightarrow> y < n \<and> x < n"
  defines "fs \<equiv> filter (\<lambda>(y, x). \<not> mget r y x) ps"
  shows "square n (fst (foldl (place_module r dat) (m, k) ps))
    \<and> (\<forall>i<length fs. mget (fst (foldl (place_module r dat) (m, k) ps)) (fst (fs ! i)) (snd (fs ! i)) = data_bit dat (k + i))
    \<and> (\<forall>y x. (y, x) \<notin> set fs \<longrightarrow> mget (fst (foldl (place_module r dat) (m, k) ps)) y x = mget m y x)"
  using assms(1-3) unfolding fs_def
proof (induction ps arbitrary: m k)
  case (Cons p ps)
  obtain y x where p: "p = (y, x)" by (cases p)
  let ?fs = "filter (\<lambda>(y, x). \<not> mget r y x) ps"
  have yx: "y < n" "x < n" "(y, x) \<notin> set ps" using Cons.prems p by auto
  show ?case
  proof (cases "mget r y x")
    case True
    have "distinct ps" "\<And>y x. (y, x) \<in> set ps \<Longrightarrow> y < n \<and> x < n" using Cons.prems(2) Cons.prems(3) [OF list.set_intros(2)] by (simp, blast)
    from Cons.IH [OF Cons.prems(1) this, of k] True p show ?thesis by (simp add: place_module_simps)
  next
    case False
    let ?m = "mput m y x (data_bit dat k)"
    have sq: "square n ?m" using Cons.prems(1) by simp
    have IH: "square n (fst (foldl (place_module r dat) (?m, Suc k) ps))"
      "\<And>i. i < length ?fs \<Longrightarrow> mget (fst (foldl (place_module r dat) (?m, Suc k) ps)) (fst (?fs ! i)) (snd (?fs ! i)) = data_bit dat (Suc k + i)"
      "\<And>y x. (y, x) \<notin> set ?fs \<Longrightarrow> mget (fst (foldl (place_module r dat) (?m, Suc k) ps)) y x = mget ?m y x"
      using Cons.IH [OF sq _ _, of "Suc k"] Cons.prems(2) Cons.prems(3) [OF list.set_intros(2)] by simp_all
    have "mget (fst (foldl (place_module r dat) (?m, Suc k) ps)) y x = data_bit dat k"
      using IH(3) [of y x] yx mget_mput [OF Cons.prems(1) yx(1,2)] by simp
    then show ?thesis using IH False p mget_mput [OF Cons.prems(1) yx(1,2)]
      by (auto simp: place_module_simps nth_Cons split: nat.splits)
  qed
qed simp

section \<open>Masking\<close>

lemma set_positions: "set (positions n) = {..<n} \<times> {..<n}"
  by (auto simp: positions_def)

lemma distinct_positions: "distinct (positions n)"
proof -
  have "distinct (concat (map (\<lambda>y. map (\<lambda>x. (y, x)) [0..<n]) ys))" if "distinct ys" for ys :: "nat list"
    using that by (induction ys) (auto simp: distinct_map inj_on_def)
  then show ?thesis by (simp add: positions_def)
qed

lemma mask_fold:
  fixes c :: "nat \<Rightarrow> nat \<Rightarrow> bool" and g :: "'a \<Rightarrow> 'a"
  assumes "square n m" "distinct ps" "set ps \<subseteq> {..<n} \<times> {..<n}"
  defines "f \<equiv> \<lambda>masked (y, x). if c y x then mput masked y x (g (mget masked y x)) else masked"
  shows "square n (foldl f m ps) \<and> (\<forall>y x. mget (foldl f m ps) y x = (if (y, x) \<in> set ps \<and> c y x then g (mget m y x) else mget m y x))"
  using assms(1-3)
proof (induction ps arbitrary: m)
  case (Cons p ps)
  obtain y x where p: "p = (y, x)" by (cases p)
  have yx: "y < n" "x < n" "(y, x) \<notin> set ps" "distinct ps" "set ps \<subseteq> {..<n} \<times> {..<n}" using Cons.prems p by auto
  have step: "f m p = (if c y x then mput m y x (g (mget m y x)) else m)" by (simp add: f_def p)
  have sq: "square n (f m p)" using Cons.prems(1) by (simp add: step)
  have "mget (f m p) y' x' = (if (y', x') = (y, x) \<and> c y x then g (mget m y x) else mget m y' x')" for y' x'
    using mget_mput [OF Cons.prems(1) yx(1,2)] by (simp add: step)
  with Cons.IH [OF sq yx(4,5)] yx(3) show ?case by (auto simp: p)
qed simp

lemma applyMask_get:
  assumes "square n m" "applyMask m r k = Some m'" "maskFn k = Some fn"
  shows "square n m'" "y < n \<Longrightarrow> x < n \<Longrightarrow> mget m' y x = (if \<not> mget r y x \<and> fn x y then mget m y x XOR 1 else mget m y x)"
proof -
  have "m' = foldl (\<lambda>masked (y, x). if \<not> mget r y x \<and> fn x y then mput masked y x (mget masked y x XOR 1) else masked) m (positions n)"
    using assms square_length [OF assms(1)] by (simp add: applyMask_def)
  with mask_fold [OF assms(1) distinct_positions, where c = "\<lambda>y x. \<not> mget r y x \<and> fn x y" and g = "\<lambda>v. v XOR 1"]
  show "square n m'" "y < n \<Longrightarrow> x < n \<Longrightarrow> mget m' y x = (if \<not> mget r y x \<and> fn x y then mget m y x XOR 1 else mget m y x)"
    by (simp_all add: set_positions)
qed

lemma maskFn_range: "k < 8 \<Longrightarrow> \<exists>fn. maskFn k = Some fn"
  by (simp add: maskFn_def)

lemma applyMask_range: "k < 8 \<Longrightarrow> \<exists>m'. applyMask m r k = Some m'"
  using maskFn_range [of k] by (auto simp: applyMask_def)

section \<open>Format and version information\<close>

lemma foldl_outside:
  assumes "\<And>m i. i \<in> set is \<Longrightarrow> square n m \<Longrightarrow> square n (f m i) \<and> (\<forall>p. p \<notin> A \<longrightarrow> mget (f m i) (fst p) (snd p) = mget m (fst p) (snd p))" "square n m"
  shows "square n (foldl f m is) \<and> (\<forall>p. p \<notin> A \<longrightarrow> mget (foldl f m is) (fst p) (snd p) = mget m (fst p) (snd p))"
  using assms by (induction "is" arbitrary: m) auto

lemma mput_outside: "q \<in> A \<Longrightarrow> p \<notin> A \<Longrightarrow> mget (mput m (fst q) (snd q) v) (fst p) (snd p) = mget m (fst p) (snd p)"
  by (rule mget_mput_other) (metis prod.collapse)

lemma format_pos_area: "i < 15 \<Longrightarrow> fst (format_pos i) \<le> 8 \<and> snd (format_pos i) \<le> 8 \<and> (fst (format_pos i) = 8 \<or> snd (format_pos i) = 8)"
  by (auto simp: format_pos_def)

lemma format_pos_inj: "i < 15 \<Longrightarrow> j < 15 \<Longrightarrow> format_pos i = format_pos j \<longleftrightarrow> i = j"
  by (auto simp: format_pos_def split: if_splits)

lemma first_copy:
  assumes "square n m" "8 < n" "k \<le> 15"
  shows "square n (foldl (\<lambda>m i. mput m (fst (format_pos i)) (snd (format_pos i)) (b i)) m [0..<k])
    \<and> (\<forall>i<k. mget (foldl (\<lambda>m i. mput m (fst (format_pos i)) (snd (format_pos i)) (b i)) m [0..<k]) (fst (format_pos i)) (snd (format_pos i)) = b i)"
  using assms(3)
proof (induction k)
  case (Suc k)
  let ?m = "foldl (\<lambda>m i. mput m (fst (format_pos i)) (snd (format_pos i)) (b i)) m [0..<k]"
  have sq: "square n ?m" and IH: "\<And>i. i < k \<Longrightarrow> mget ?m (fst (format_pos i)) (snd (format_pos i)) = b i" using Suc by simp_all
  have r: "fst (format_pos k) < n" "snd (format_pos k) < n" using format_pos_area [of k] Suc.prems assms(2) by linarith+
  have "mget (mput ?m (fst (format_pos k)) (snd (format_pos k)) (b k)) (fst (format_pos i)) (snd (format_pos i)) = b i" if "i < Suc k" for i
    using that IH [of i] format_pos_inj [of i k] Suc.prems mget_mput [OF sq r] by (auto simp: prod_eq_iff less_Suc_eq)
  then show ?case using sq by simp
qed (use assms in simp)

definition second_copy :: "nat \<Rightarrow> (nat \<times> nat) set" where
  "second_copy n = {n - 8..<n} \<times> {8} \<union> {8} \<times> {n - 8..<n}"

lemma format_info:
  assumes sq: "square n m" and n: "21 \<le> n"
  shows "square n (placeFormatInfo m ec k)"
    "i < 15 \<Longrightarrow> mget (placeFormatInfo m ec k) (fst (format_pos i)) (snd (format_pos i)) = bit_of (formatInfoBits ec k) i"
    "p \<notin> format_area n \<Longrightarrow> mget (placeFormatInfo m ec k) (fst p) (snd p) = mget m (fst p) (snd p)"
proof -
  let ?b = "bit_of (formatInfoBits ec k)"
  define m1 where "m1 = foldl (\<lambda>m i. mput m (fst (format_pos i)) (snd (format_pos i)) (?b i)) m [0..<15]"
  define m2 where "m2 = foldl (\<lambda>m i. if i < 7 then mput m (n - 1 - i) 8 (?b i) else mput m 8 (n - 15 + i) (?b i)) m1 [0..<15]"
  have eq: "placeFormatInfo m ec k = mput m2 (n - 8) 8 1"
    unfolding placeFormatInfo_def Let_def square_length [OF sq] m1_def [symmetric] m2_def [symmetric] by (rule refl)
  have one: "square n m1" "\<And>i. i < 15 \<Longrightarrow> mget m1 (fst (format_pos i)) (snd (format_pos i)) = ?b i"
    using first_copy [OF sq, of 15 ?b] n by (simp_all add: m1_def del: upt_rec_numeral)
  have in_area: "format_pos i \<in> format_area n" if "i < 15" for i
    using format_pos_area [OF that] unfolding format_area_def by (cases "format_pos i") auto
  have "square n m1 \<and> (\<forall>p. p \<notin> format_area n \<longrightarrow> mget m1 (fst p) (snd p) = mget m (fst p) (snd p))"
    unfolding m1_def
  proof (rule foldl_outside [OF _ sq])
    fix m :: "nat grid" and i assume i: "i \<in> set [0..<15]" and m: "square n m"
    have q: "format_pos i \<in> format_area n" using i in_area unfolding set_upt by simp
    show "square n (mput m (fst (format_pos i)) (snd (format_pos i)) (?b i)) \<and>
        (\<forall>p. p \<notin> format_area n \<longrightarrow> mget (mput m (fst (format_pos i)) (snd (format_pos i)) (?b i)) (fst p) (snd p) = mget m (fst p) (snd p))"
      by (intro conjI allI impI square_mput [OF m] mput_outside [OF q])
  qed
  then have out1: "p \<notin> format_area n \<Longrightarrow> mget m1 (fst p) (snd p) = mget m (fst p) (snd p)" for p by blast
  have two: "square n m2 \<and> (\<forall>p. p \<notin> second_copy n \<longrightarrow> mget m2 (fst p) (snd p) = mget m1 (fst p) (snd p))"
    unfolding m2_def
  proof (rule foldl_outside [OF _ one(1)])
    fix m :: "nat grid" and i assume i: "i \<in> set [0..<15]" and m: "square n m"
    let ?q = "if i < 7 then (n - 1 - i, 8) else (8, n - 15 + i)"
    have e: "(if i < 7 then mput m (n - 1 - i) 8 (?b i) else mput m 8 (n - 15 + i) (?b i)) = mput m (fst ?q) (snd ?q) (?b i)" by simp
    have q: "?q \<in> second_copy n" using i n unfolding set_upt second_copy_def by auto
    show "square n (if i < 7 then mput m (n - 1 - i) 8 (?b i) else mput m 8 (n - 15 + i) (?b i)) \<and>
        (\<forall>p. p \<notin> second_copy n \<longrightarrow> mget (if i < 7 then mput m (n - 1 - i) 8 (?b i) else mput m 8 (n - 15 + i) (?b i)) (fst p) (snd p) = mget m (fst p) (snd p))"
      unfolding e by (intro conjI allI impI square_mput [OF m] mput_outside [OF q])
  qed
  have dark: "(n - 8, 8) \<in> second_copy n" using n by (simp add: second_copy_def)
  have out2: "mget (mput m2 (n - 8) 8 1) (fst p) (snd p) = mget m1 (fst p) (snd p)" if "p \<notin> second_copy n" for p
    using mput_outside [OF dark that, of m2 1] two that by simp
  show "square n (placeFormatInfo m ec k)" unfolding eq using two by simp
  show "mget (placeFormatInfo m ec k) (fst (format_pos i)) (snd (format_pos i)) = ?b i" if "i < 15"
  proof -
    have "format_pos i \<notin> second_copy n" using format_pos_area [OF that] n unfolding second_copy_def by (cases "format_pos i") auto
    with out2 one(2) [OF that] show ?thesis by (simp add: eq)
  qed
  have "second_copy n \<subseteq> format_area n" by (auto simp: second_copy_def format_area_def)
  then have "p \<notin> format_area n \<Longrightarrow> p \<notin> second_copy n" by blast
  with out2 [of p] out1 [of p] show "p \<notin> format_area n \<Longrightarrow> mget (placeFormatInfo m ec k) (fst p) (snd p) = mget m (fst p) (snd p)"
    by (simp add: eq)
qed

lemma version_info:
  assumes sq: "square n m" and n: "21 \<le> n"
  shows "square n (placeVersionInfo m v)" "p \<notin> version_area v n \<Longrightarrow> mget (placeVersionInfo m v) (fst p) (snd p) = mget m (fst p) (snd p)"
proof -
  have "square n (placeVersionInfo m v) \<and> (\<forall>p. p \<notin> version_area v n \<longrightarrow> mget (placeVersionInfo m v) (fst p) (snd p) = mget m (fst p) (snd p))"
  proof (cases "v < 7")
    case False
    let ?b = "bit_of (versionInfoBits v)"
    have eq: "placeVersionInfo m v = foldl (\<lambda>m i. mput (mput m (i div 3) (i mod 3 + n - 11) (?b i)) (i mod 3 + n - 11) (i div 3) (?b i)) m [0..<18]"
      using False square_length [OF sq] by (simp add: placeVersionInfo_def Let_def del: upt_rec_numeral)
    show ?thesis unfolding eq
    proof (rule foldl_outside [OF _ sq])
      fix m :: "nat grid" and i assume i: "i \<in> set [0..<18]" and m: "square n m"
      let ?q = "(i div 3, i mod 3 + n - 11)" and ?q' = "(i mod 3 + n - 11, i div 3)"
      have "i div 3 < 6" "i mod 3 < 3" using i by (auto simp only: set_upt atLeastLessThan_iff less_mult_imp_div_less mod_less_divisor)
      then have q: "?q \<in> version_area v n" "?q' \<in> version_area v n" using False n by (auto simp: version_area_def)
      show "square n (mput (mput m (i div 3) (i mod 3 + n - 11) (?b i)) (i mod 3 + n - 11) (i div 3) (?b i)) \<and>
          (\<forall>p. p \<notin> version_area v n \<longrightarrow> mget (mput (mput m (i div 3) (i mod 3 + n - 11) (?b i)) (i mod 3 + n - 11) (i div 3) (?b i)) (fst p) (snd p) = mget m (fst p) (snd p))"
        using m mput_outside [OF q(1), of _ m "?b i"] mput_outside [OF q(2), of _ "mput m (i div 3) (i mod 3 + n - 11) (?b i)" "?b i"] by simp
    qed
  qed (simp add: placeVersionInfo_def sq)
  then show "square n (placeVersionInfo m v)" "p \<notin> version_area v n \<Longrightarrow> mget (placeVersionInfo m v) (fst p) (snd p) = mget m (fst p) (snd p)" by blast+
qed

lemma candidate_get:
  assumes base: "square n base" and v: "1 \<le> v" "n = 17 + 4 * v" and r: "format_area n \<subseteq> rset n r" "version_area v n \<subseteq> rset n r"
    and c: "candidate base r ec v k = Some c" and fn: "maskFn k = Some fn"
  shows "square n c" "i < 15 \<Longrightarrow> mget c (fst (format_pos i)) (snd (format_pos i)) = bit_of (formatInfoBits ec k) i"
    "y < n \<Longrightarrow> x < n \<Longrightarrow> \<not> mget r y x \<Longrightarrow> mget c y x = (if fn x y then mget base y x XOR 1 else mget base y x)"
proof -
  obtain m where m: "applyMask base r k = Some m" "c = placeVersionInfo (placeFormatInfo m ec k) v" using c by (auto simp: candidate_def)
  note am = applyMask_get [OF base m(1) fn]
  have n: "21 \<le> n" using v by simp
  note fi = format_info [OF am(1) n, where ec = ec and k = k]
  note vi = version_info [OF fi(1) n, where v = v]
  show "square n c" using vi(1) m(2) by simp
  show "mget c (fst (format_pos i)) (snd (format_pos i)) = bit_of (formatInfoBits ec k) i" if "i < 15"
  proof -
    have "format_pos i \<notin> version_area v n" using format_pos_area [OF that] v(2) by (cases "format_pos i") (auto simp: version_area_def)
    from vi(2) [OF this] fi(2) [OF that] show ?thesis by (simp add: m(2))
  qed
  assume yx: "y < n" "x < n" "\<not> mget r y x"
  then have "(y, x) \<notin> rset n r" by (simp add: rset_def)
  with r have "(y, x) \<notin> format_area n" "(y, x) \<notin> version_area v n" by blast+
  with fi(3) [of "(y, x)"] vi(2) [of "(y, x)"] am(2) [OF yx(1,2)] yx(3) show "mget c y x = (if fn x y then mget base y x XOR 1 else mget base y x)"
    by (simp add: m(2))
qed

section \<open>The choice of the mask\<close>

lemma select_mask_best:
  "\<exists>k<8. candidate base r ec v k = Some (select_mask base r ec v)
    \<and> (\<forall>j<8. \<forall>c. candidate base r ec v j = Some c \<longrightarrow> penaltyScore (select_mask base r ec v) \<le> penaltyScore c)"
proof -
  define step where "step = (\<lambda>(bestScore, bestMatrix) msk.
         case candidate base r ec v msk of
           None \<Rightarrow> (bestScore, bestMatrix)
         | Some c \<Rightarrow>
             let score = penaltyScore c in
             if (case bestScore of None \<Rightarrow> True | Some s \<Rightarrow> score < s) then (Some score, c) else (bestScore, bestMatrix))"
  have cand: "\<exists>c. candidate base r ec v k = Some c" if "k < 8" for k
    using applyMask_range [OF that, of base r] by (auto simp: candidate_def)
  have inv: "\<exists>b k. foldl step (None, base) [0..<Suc n] = (Some (penaltyScore b), b) \<and> k < 8 \<and> candidate base r ec v k = Some b
      \<and> (\<forall>j<Suc n. \<forall>c. candidate base r ec v j = Some c \<longrightarrow> penaltyScore b \<le> penaltyScore c)" if "n < 8" for n
    using that
  proof (induction n)
    case 0
    obtain c where "candidate base r ec v 0 = Some c" using cand [of 0] by auto
    then show ?case by (auto simp: step_def Let_def intro!: exI [of _ 0])
  next
    case (Suc n)
    then obtain b k where b: "foldl step (None, base) [0..<Suc n] = (Some (penaltyScore b), b)" "k < 8" "candidate base r ec v k = Some b"
      "\<And>j c. j < Suc n \<Longrightarrow> candidate base r ec v j = Some c \<Longrightarrow> penaltyScore b \<le> penaltyScore c" by auto
    obtain c where c: "candidate base r ec v (Suc n) = Some c" using cand [of "Suc n"] Suc.prems by auto
    have s: "foldl step (None, base) [0..<Suc (Suc n)] = (if penaltyScore c < penaltyScore b then (Some (penaltyScore c), c) else (Some (penaltyScore b), b))"
      using b(1) c by (simp add: step_def)
    show ?case
    proof (cases "penaltyScore c < penaltyScore b")
      case True
      then have "\<forall>j<Suc (Suc n). \<forall>c'. candidate base r ec v j = Some c' \<longrightarrow> penaltyScore c \<le> penaltyScore c'"
        using b(4) c by (auto simp: less_Suc_eq intro: less_imp_le order.strict_trans2)
      with True s c Suc.prems show ?thesis by (metis)
    next
      case False
      then have "\<forall>j<Suc (Suc n). \<forall>c'. candidate base r ec v j = Some c' \<longrightarrow> penaltyScore b \<le> penaltyScore c'"
        using b(4) c by (auto simp: less_Suc_eq)
      with False s b show ?thesis by metis
    qed
  qed
  have "Suc 7 = 8" by simp
  then have "select_mask base r ec v = snd (foldl step (None, base) [0..<Suc 7])" unfolding select_mask_def step_def by (simp only:)
  with inv [of 7] show ?thesis by auto
qed

section \<open>Capacity\<close>

text \<open>The modules that carry data, in scan order.\<close>

definition data_modules :: "nat \<Rightarrow> (nat \<times> nat) list" where
  "data_modules v = filter (\<lambda>(y, x). \<not> mget (snd (function_patterns v)) y x) (scan_columns (17 + 4 * v) (16 + 4 * v) True)"

lemma capacity:
  assumes "1 \<le> v" "v \<le> 20" "blockInfoFor v ec = Inr info"
  shows "8 * sum_list (block_sizes info) \<le> length (data_modules v)"
proof -
  let ?n = "17 + 4 * v" and ?r = "snd (function_patterns v)" and ?k = "length (ALIGNMENT_PATTERNS ! (v - 1))"
  let ?ps = "scan_columns ?n (16 + 4 * v) True"
  let ?B = "192 + 34 + 25 * (?k * ?k) + 2 * (?n - 16) + 1 + (if v \<ge> 7 then 36 else 0)"
  have card: "card (rset ?n ?r) \<le> ?B" using patterns(5) [OF assms(1,2) refl] by (metis prod.collapse)
  have "set (filter (\<lambda>(y, x). mget ?r y x) ?ps) \<subseteq> rset ?n ?r"
    using scan_bounds [of _ _ ?n "16 + 4 * v" True] by (fastforce simp: rset_def)
  then have "length (filter (\<lambda>(y, x). mget ?r y x) ?ps) \<le> card (rset ?n ?r)"
    by (metis card_mono distinct_card distinct_filter finite_rset scan_distinct)
  moreover have "length (filter (\<lambda>(y, x). mget ?r y x) ?ps) + length (data_modules v) = length ?ps"
    using sum_length_filter_compl [of "\<lambda>(y, x). mget ?r y x" ?ps] by (simp add: data_modules_def case_prod_beta')
  moreover have "length ?ps = ?n * (16 + 4 * v)" using scan_length [of ?n "5 + 2 * v" True] by (simp add: algebra_simps)
  ultimately have free: "?n * (16 + 4 * v) \<le> ?B + length (data_modules v)" using card by linarith
  have "list_all (\<lambda>v. list_all (\<lambda>ec. case blockInfoFor v ec of Inl _ \<Rightarrow> True | Inr info \<Rightarrow>
      (let k = length (ALIGNMENT_PATTERNS ! (v - 1)); n = 17 + 4 * v in
       192 + 34 + 25 * (k * k) + 2 * (n - 16) + 1 + (if v \<ge> 7 then 36 else 0) + 8 * sum_list (block_sizes info) \<le> n * (16 + 4 * v))) [EC_L, EC_M]) [1..<21]"
    by (simp add: upt_rec ALIGNMENT_PATTERNS_def blockInfoFor_def BLOCK_TABLE_def block_sizes_def sum_list_replicate Let_def)
  moreover have "v \<in> set [1..<21]" using assms by (simp only: set_upt atLeastLessThan_iff) simp
  moreover have "ec \<in> set [EC_L, EC_M]" by (cases ec) simp_all
  ultimately have "?B + 8 * sum_list (block_sizes info) \<le> ?n * (16 + 4 * v)"
    using assms(3) unfolding list_all_iff by (fastforce simp: Let_def)
  with free show ?thesis by linarith
qed

section \<open>Reading a symbol\<close>

definition format_choices :: "(QRErrorLevel \<times> nat) list" where
  "format_choices = concat (map (\<lambda>ec. map (\<lambda>k. (ec, k)) [0..<8]) [EC_L, EC_M])"

definition format_bits :: "QRErrorLevel \<times> nat \<Rightarrow> nat list" where
  "format_bits = (\<lambda>(ec, k). map (bit_of (formatInfoBits ec k)) [0..<15])"

definition read_format :: "nat grid \<Rightarrow> (QRErrorLevel \<times> nat) option" where
  "read_format m = find (\<lambda>c. format_bits c = map (\<lambda>i. mget m (fst (format_pos i)) (snd (format_pos i))) [0..<15]) format_choices"

definition bits_bytes :: "bool list \<Rightarrow> byte list" where
  "bits_bytes bs = map (\<lambda>i. of_nat (bits_nat (take 8 (drop (8 * i) bs)))) [0..<length bs div 8]"

text \<open>
  A reader of symbols: level and mask from the first copy of the format information, then the data
  modules in scan order without the mask, the data codewords without their interleaving, and the
  byte-mode segment. It takes the reserved modules from the encoder's layout.
\<close>

definition read_symbol :: "nat grid \<Rightarrow> byte list option" where
  "read_symbol m =
     (let v = (length m - 17) div 4 in
      case read_format m of
        None \<Rightarrow> None
      | Some (ec, k) \<Rightarrow>
          (case (blockInfoFor v ec, maskFn k) of
             (Inr info, Some fn) \<Rightarrow>
               let bits = map (\<lambda>(y, x). (mget m y x = 1) \<noteq> fn x y) (data_modules v) in
               decode_stream v (concat (read_data info (bits_bytes (take (8 * sum_list (block_sizes info)) bits))))
           | _ \<Rightarrow> None))"

text \<open>The format information of every level and mask, as the standard tabulates it.\<close>

lemma format_table:
  "map (formatInfoBits EC_L) [0..<8] = [0x77c4, 0x72f3, 0x7daa, 0x789d, 0x662f, 0x6318, 0x6c41, 0x6976]"
  "map (formatInfoBits EC_M) [0..<8] = [0x5412, 0x5125, 0x5e7c, 0x5b4b, 0x45f9, 0x40ce, 0x4f97, 0x4aa0]"
  by code_simp+

lemma format_values: "distinct (map (\<lambda>(ec, k). formatInfoBits ec k) format_choices)"
proof -
  have "map (\<lambda>(ec, k). formatInfoBits ec k) format_choices = map (formatInfoBits EC_L) [0..<8] @ map (formatInfoBits EC_M) [0..<8]"
    by (simp add: format_choices_def comp_def del: upt_rec_numeral)
  then show ?thesis unfolding format_table by simp
qed

lemma format_bits_value: "format_bits (ec, k) = format_bits (ec', k') \<Longrightarrow> formatInfoBits ec k = formatInfoBits ec' k'"
proof -
  assume *: "format_bits (ec, k) = format_bits (ec', k')"
  have t: "take_bit 15 (formatInfoBits e j) = formatInfoBits e j" for e j
  proof -
    have "(0x7fff :: int) = mask 15" by (simp add: mask_eq_exp_minus_1)
    then have "\<exists>x. formatInfoBits e j = take_bit 15 x" unfolding formatInfoBits_def Let_def take_bit_eq_mask by metis
    then show ?thesis by auto
  qed
  have b: "bit_of x i = of_bool (bit x i)" for x i by (simp add: bit_of_def and_one_eq bit_iff_odd_drop_bit mod2_eq_if)
  have "bit (formatInfoBits ec k) i = bit (formatInfoBits ec' k') i" if "i < 15" for i
  proof -
    have "i \<in> set [0..<15]" using that by (simp only: set_upt atLeastLessThan_iff) simp
    with * have "bit_of (formatInfoBits ec k) i = bit_of (formatInfoBits ec' k') i" unfolding format_bits_def prod.case map_eq_conv by blast
    then show ?thesis unfolding b by (auto simp: of_bool_def split: if_splits)
  qed
  then have "take_bit 15 (formatInfoBits ec k) = take_bit 15 (formatInfoBits ec' k')" by (intro bit_eqI) (auto simp: bit_take_bit_iff)
  then show ?thesis by (simp only: t)
qed

lemma read_format_candidate:
  assumes "k < 8" "\<And>i. i < 15 \<Longrightarrow> mget m (fst (format_pos i)) (snd (format_pos i)) = bit_of (formatInfoBits ec k) i"
  shows "read_format m = Some (ec, k)"
proof -
  have e: "map (\<lambda>i. mget m (fst (format_pos i)) (snd (format_pos i))) [0..<15] = format_bits (ec, k)"
    unfolding format_bits_def prod.case using assms(2) by (intro map_cong refl) (simp only: set_upt atLeastLessThan_iff)
  have mem: "(ec, k) \<in> set format_choices" using assms(1) by (cases ec) (auto simp: format_choices_def)
  have "c = (ec, k)" if "c \<in> set format_choices" "format_bits c = format_bits (ec, k)" for c
  proof -
    obtain ec' k' where c: "c = (ec', k')" by (cases c)
    from format_bits_value [of ec' k' ec k] that(2) have "(case c of (e, j) \<Rightarrow> formatInfoBits e j) = (case (ec, k) of (e, j) \<Rightarrow> formatInfoBits e j)" by (simp add: c)
    with that(1) mem format_values show ?thesis unfolding distinct_map inj_on_def by blast
  qed
  then show ?thesis unfolding read_format_def e
    using mem by (cases "find (\<lambda>c. format_bits c = format_bits (ec, k)) format_choices") (auto simp: find_None_iff dest: find_SomeD)
qed

lemma data_bit_bit: "data_bit cs k = of_bool (k div 8 < length cs \<and> bit (cs ! (k div 8)) (7 - k mod 8))"
proof -
  have "drop_bit j n AND 1 = of_bool (bit n j)" for j and n :: nat by (simp add: and_one_eq bit_iff_odd_drop_bit mod2_eq_if)
  then show ?thesis by (simp add: data_bit_def Let_def drop_bit_eq_div and_7 bit_unsigned_iff)
qed

lemma nat_bits_byte: "nat_bits (unat b) 8 = byte_bits b"
  by (simp add: nat_bits_def byte_bits_def upt_rec bit_unsigned_iff eval_nat_numeral)

lemma bits_bytes_codewords:
  assumes "length bs = 8 * t" "t \<le> length cs" "\<And>k. k < 8 * t \<Longrightarrow> bs ! k = (data_bit cs k = 1)"
  shows "bits_bytes bs = take t cs"
proof (rule nth_equalityI)
  show len: "length (bits_bytes bs) = length (take t cs)" using assms by (simp add: bits_bytes_def)
  fix i assume "i < length (bits_bytes bs)"
  with len assms have i: "i < t" by simp
  have "take 8 (drop (8 * i) bs) = byte_bits (cs ! i)"
  proof (rule nth_equalityI)
    show "length (take 8 (drop (8 * i) bs)) = length (byte_bits (cs ! i))" using i assms(1) by (simp add: byte_bits_def)
    fix j assume "j < length (take 8 (drop (8 * i) bs))"
    then have j: "j < 8" "8 * i + j < 8 * t" using i by simp_all
    have "(8 * i + j) div 8 = i" "(8 * i + j) mod 8 = j" using j by simp_all
    with assms(3) [OF j(2)] i assms(2) j assms(1) show "take 8 (drop (8 * i) bs) ! j = byte_bits (cs ! i) ! j"
      by (simp add: data_bit_bit byte_bits_def)
  qed
  then show "bits_bytes bs ! i = take t cs ! i" using i assms(1,2) byte_of_bits [of "cs ! i"] by (simp add: bits_bytes_def nat_bits_byte)
qed

section \<open>The symbol as a whole\<close>

lemma placed_data:
  assumes v: "1 \<le> v" "v \<le> 20" "n = 17 + 4 * v" and fp: "function_patterns v = (m, r)"
  shows "square n (placeData m r cs)"
    "i < length (data_modules v) \<Longrightarrow> mget (placeData m r cs) (fst (data_modules v ! i)) (snd (data_modules v ! i)) = data_bit cs i"
    "(y, x) \<in> set (data_modules v) \<Longrightarrow> y < n \<and> x < n \<and> \<not> mget r y x"
proof -
  have sq: "square n m" using patterns(1) [OF v fp] .
  have scan: "y < n \<and> x < n" if "(y, x) \<in> set (scan_columns n (n - 1) True)" for y x
    using scan_bounds [OF that] v(3) by linarith
  have dm: "data_modules v = filter (\<lambda>(y, x). \<not> mget r y x) (scan_columns n (n - 1) True)"
    using v(3) fp by (simp add: data_modules_def)
  note pf = place_fold [OF sq scan_distinct scan, where r = r and dat = cs and k = 0]
  show "square n (placeData m r cs)" using pf by (simp add: placeData_def square_length [OF sq])
  show "mget (placeData m r cs) (fst (data_modules v ! i)) (snd (data_modules v ! i)) = data_bit cs i" if "i < length (data_modules v)"
    using pf that by (simp add: placeData_def square_length [OF sq] dm)
  show "y < n \<and> x < n \<and> \<not> mget r y x" if "(y, x) \<in> set (data_modules v)" using that scan unfolding dm by auto
qed

lemma read_candidate_bits:
  assumes v: "1 \<le> v" "v \<le> 20" "n = 17 + 4 * v" and fp: "function_patterns v = (m, r)"
    and c: "candidate (placeData m r cs) r ec v k = Some c" and fn: "maskFn k = Some fn" and i: "i < length (data_modules v)"
  shows "map (\<lambda>(y, x). (mget c y x = 1) \<noteq> fn x y) (data_modules v) ! i = (data_bit cs i = 1)"
proof -
  obtain y x where yx: "data_modules v ! i = (y, x)" by (cases "data_modules v ! i")
  have free: "y < n" "x < n" "\<not> mget r y x" using placed_data(3) [OF v fp, of y x] i yx by (metis nth_mem)+
  have "mget (placeData m r cs) y x = data_bit cs i" using placed_data(2) [OF v fp i, of cs] yx by simp
  then have "mget c y x = (if fn x y then data_bit cs i XOR 1 else data_bit cs i)"
    using candidate_get(3) [OF placed_data(1) [OF v fp, of cs] v(1,3) patterns(3,4) [OF v fp] c fn free] by simp
  moreover have "data_bit cs i = 0 \<or> data_bit cs i = 1" by (simp add: data_bit_bit)
  ultimately show ?thesis using i yx by auto
qed

text \<open>
  C20. A symbol can be read back. For every non-empty string whose bytes fit a version, the encoder
  returns a square matrix of that version from which the reader recovers the level and mask from the
  format information and exactly the encoded bytes.
\<close>

theorem qr_roundtrip:
  assumes "dat \<noteq> []" "ec = (case errorLevel options of None \<Rightarrow> EC_M | Some e \<Rightarrow> e)"
    and "selectVersion (length (utf8Bytes enc dat)) ec (case minVersion options of None \<Rightarrow> 1 | Some v \<Rightarrow> v) = Inr v"
  shows "\<exists>q. generateQRMatrix enc dat options = Inr q \<and> qr_version q = v \<and> qr_size q = 17 + 4 * v \<and> square (qr_size q) (qr_matrix q)
    \<and> read_symbol (qr_matrix q) = Some (utf8Bytes enc dat)"
proof -
  let ?bytes = "utf8Bytes enc dat" and ?n = "17 + 4 * v"
  note sel = selectVersion_props [OF assms(3)]
  obtain info where i: "blockInfoFor v ec = Inr info" "block_ok v info" "dataCodewordsFor v ec = Inr (sum_list (block_sizes info))"
    using table_row [OF sel(1,2)] by blast
  let ?t = "sum_list (block_sizes info)"
  have fit: "4 + charCountBits v + length ?bytes * 8 \<le> ?t * 8" using sel(3) i(3) by auto
  then have small: "length ?bytes < 2 ^ charCountBits v" using i(2) by (simp add: block_ok_def)
  obtain ws where ws: "encodeDataBytes ?bytes v ec = Inr ws" "length ws = ?t" "decode_stream v ws = Some ?bytes"
    using encode_stream [OF i(3) fit small] by blast
  obtain cs where cs: "buildCodewords ws v ec = Inr cs" "?t \<le> length cs"
      "\<And>cs'. take ?t cs' = take ?t cs \<Longrightarrow> concat (read_data info cs') = ws"
    using codewords [OF i ws(2)] by (metis le_add1)
  obtain m r where fp: "function_patterns v = (m, r)" by (cases "function_patterns v")
  let ?q = "select_mask (placeData m r cs) r ec v"
  have gen: "generateQRMatrix enc dat options = Inr \<lparr>qr_matrix = ?q, qr_version = v, qr_size = ?n\<rparr>"
    using assms ws(1) cs(1) fp by (simp add: generateQRMatrix_def Let_def)
  obtain k where k: "k < 8" "candidate (placeData m r cs) r ec v k = Some ?q" using select_mask_best by blast
  obtain fn where fn: "maskFn k = Some fn" using maskFn_range [OF k(1)] by blast
  note cg = candidate_get [OF placed_data(1) [OF sel(1,2) refl fp] sel(1) refl patterns(3,4) [OF sel(1,2) refl fp] k(2) fn]
  have format: "read_format ?q = Some (ec, k)" using read_format_candidate [OF k(1) cg(2)] .
  let ?bits = "map (\<lambda>(y, x). (mget ?q y x = 1) \<noteq> fn x y) (data_modules v)"
  have cap: "8 * ?t \<le> length ?bits" using capacity [OF sel(1,2) i(1)] by simp
  have "take (8 * ?t) ?bits ! j = (data_bit cs j = 1)" if "j < 8 * ?t" for j
    using read_candidate_bits [OF sel(1,2) refl fp k(2) fn, of j] that cap by simp
  then have "bits_bytes (take (8 * ?t) ?bits) = take ?t cs" using cap cs(2) by (intro bits_bytes_codewords) simp_all
  then have data: "concat (read_data info (bits_bytes (take (8 * ?t) ?bits))) = ws" using cs(3) by simp
  have "(length ?q - 17) div 4 = v" using square_length [OF cg(1)] by simp
  then have "read_symbol ?q = Some ?bytes" using format i(1) fn data ws(3) by (simp add: read_symbol_def Let_def)
  with gen cg(1) show ?thesis by simp
qed

definition demo_options :: qr_options where
  "demo_options = \<lparr>errorLevel = None, minVersion = None, scale = None, margin = None, darkColor = None, lightColor = None\<rparr>"

theorem qr_roundtrip_witness:
  "\<exists>q. generateQRMatrix False [0x74, 0x6f, 0x6e] demo_options = Inr q \<and> qr_size q = 21 \<and> read_symbol (qr_matrix q) = Some [0x74, 0x6f, 0x6e]"
proof -
  have u: "utf8Bytes False [0x74, 0x6f, 0x6e] = [0x74, 0x6f, 0x6e]" by (simp add: utf8Bytes_def utf8_unit_def byte_def)
  have "[nat (max 1 1)..<21] = 1 # [2..<21]" by (simp add: upt_rec)
  then have "selectVersion (length (utf8Bytes False [0x74, 0x6f, 0x6e])) EC_M 1 = Inr 1" unfolding u
    by (simp add: selectVersion_def dataCodewordsFor_def blockInfoFor_def BLOCK_TABLE_def charCountBits_def del: upt_rec_numeral)
  with qr_roundtrip [of "[0x74, 0x6f, 0x6e]" EC_M demo_options False 1] show ?thesis unfolding u by (auto simp: demo_options_def)
qed

end
