(* ===== verification/Qr_Layout.thy ===== *)
theory Qr_Layout
  imports Qr_Matrix_Props
begin

text \<open>
  The alignment patterns of the encoder against the standard. The table is indexed by version, with
  empty rows for the versions 0 and 1, but the encoder reads the row of the preceding version; this
  theory proves the mismatch and that it costs some symbols part of their error correction.
\<close>

section \<open>The centres of the standard\<close>

text \<open>
  Centres are 6 and \<open>size - 7\<close>, with the others placed backwards from \<open>size - 7\<close> at an even distance.
\<close>

definition standard_centres :: "nat \<Rightarrow> nat list" where
  "standard_centres v =
     (if v = 1 then []
      else
        let n = 17 + 4 * v; count = v div 7 + 2; step = (v * 4 + count * 2 + 1) div (count * 2 - 2) * 2 in
        6 # rev (map (\<lambda>i. n - 7 - i * step) [0..<count - 1]))"

lemma table_is_standard: "list_all (\<lambda>v. ALIGNMENT_PATTERNS ! v = standard_centres v) [1..<21]"
  by (simp add: upt_rec ALIGNMENT_PATTERNS_def standard_centres_def Let_def)

lemma encoder_row_differs: "list_all (\<lambda>v. ALIGNMENT_PATTERNS ! (v - 1) \<noteq> standard_centres v) [2..<21]"
  by (simp add: upt_rec ALIGNMENT_PATTERNS_def standard_centres_def Let_def)

section \<open>Counting data modules by rows\<close>

definition free_modules :: "bool grid \<Rightarrow> nat" where
  "free_modules r = sum_list (map (\<lambda>row. length (filter Not row)) r)"

lemma free_modules_card: "square n r \<Longrightarrow> free_modules r = card {(y, x). y < n \<and> x < n \<and> \<not> mget r y x}"
proof -
  assume sq: "square n r"
  have row: "length (r ! y) = n" if "y < n" for y using sq that by (simp add: square_def)
  have "{(y, x). y < n \<and> x < n \<and> \<not> mget r y x} = (SIGMA y:{..<n}. {x. x < n \<and> \<not> mget r y x})" by auto
  then have "card {(y, x). y < n \<and> x < n \<and> \<not> mget r y x} = (\<Sum>y<n. card {x. x < n \<and> \<not> mget r y x})" by (simp add: card_SigmaI)
  also have "\<dots> = (\<Sum>y<n. length (filter Not (r ! y)))"
    by (rule sum.cong) (simp_all add: length_filter_conv_card row mget_def)
  also have "\<dots> = free_modules r"
    using square_length [OF sq] by (simp add: free_modules_def sum_list_sum_nth atLeast0LessThan)
  finally show ?thesis by simp
qed

lemma data_modules_le:
  assumes "1 \<le> v" "v \<le> 20"
  shows "length (data_modules v) \<le> free_modules (snd (function_patterns v))"
proof -
  let ?n = "17 + 4 * v" and ?r = "snd (function_patterns v)"
  have sq: "square ?n ?r" using patterns(2) [OF assms refl] by (metis prod.collapse)
  have "length (data_modules v) = card (set (data_modules v))"
    by (rule distinct_card [symmetric]) (simp add: data_modules_def scan_distinct)
  also have "\<dots> \<le> card {(y, x). y < ?n \<and> x < ?n \<and> \<not> mget ?r y x}"
  proof (rule card_mono)
    show "finite {(y, x). y < ?n \<and> x < ?n \<and> \<not> mget ?r y x}" by (rule finite_subset [of _ "{..<?n} \<times> {..<?n}"]) auto
    show "set (data_modules v) \<subseteq> {(y, x). y < ?n \<and> x < ?n \<and> \<not> mget ?r y x}"
      using placed_data(3) [OF assms refl] by (metis (no_types, lifting) case_prodI2 mem_Collect_eq prod.collapse subsetI)
  qed
  finally show ?thesis by (simp add: free_modules_card [OF sq])
qed

lemma free_modules_3: "free_modules (snd (function_patterns 3)) = 527"
  by code_simp

text \<open>
  The alignment table lists the centres of the standard for versions 1 to 20 under the version
  itself, but for every version from 2 on the encoder places the patterns of another row; a version 3
  symbol thereby has fewer data modules than its codewords have bits, so the last error-correction
  codewords are missing from it.
\<close>

theorem alignment_off_by_one:
  "list_all (\<lambda>v. ALIGNMENT_PATTERNS ! v = standard_centres v) [1..<21]
   \<and> list_all (\<lambda>v. ALIGNMENT_PATTERNS ! (v - 1) \<noteq> standard_centres v) [2..<21]
   \<and> (case blockInfoFor 3 EC_M of
        Inl _ \<Rightarrow> False
      | Inr info \<Rightarrow> length (data_modules 3) < 8 * (sum_list (block_sizes info) + length (block_sizes info) * ecCodewordsPerBlock info))"
proof -
  have "length (data_modules 3) \<le> 527" using data_modules_le [of 3] by (simp add: free_modules_3)
  moreover obtain info where "blockInfoFor 3 EC_M = Inr info" "block_sizes info = [44]" "ecCodewordsPerBlock info = 26"
    by (simp add: blockInfoFor_def BLOCK_TABLE_def block_sizes_def Let_def)
  ultimately show ?thesis using table_is_standard encoder_row_differs by simp
qed

end
