(* ===== verification/Sdk_Amount.thy ===== *)
theory Sdk_Amount
  imports Complex_Main Prelude
begin

text \<open>
  Amounts of the merchant SDK (\<open>sdk/src/amount.ts\<close>): printing nanocoins as decimal TBC with a
  chosen number of places and reading decimal TBC back. A \<open>bigint\<close> is an \<open>int\<close>; the number of places
  is the double the caller passes, of which the code uses the integral part: \<open>None\<close> is \<open>NaN\<close>, and an
  infinite or fractional value enters as \<open>places\<close>.
\<close>

section \<open>Constants and the number of places\<close>

definition NANOCOINS_PER_TBC :: int where
  "NANOCOINS_PER_TBC = 1000000000"

definition MAX_TBC_NANOCOINS :: int where
  "MAX_TBC_NANOCOINS = 2 ^ 120 - 1"

definition MAX_FIXED_DECIMALS :: int where
  "MAX_FIXED_DECIMALS = 100"

datatype amount_error = Range_error | Invalid_TBC | Invalid_amount string

text \<open>A double: not a number, infinite, or finite with its truncation \<open>Math.trunc\<close>.\<close>

datatype places = NaN_places | Infinite_places | Finite_places rat

definition js_trunc :: "rat \<Rightarrow> int" where
  "js_trunc q = (if q < 0 then - \<lfloor>- q\<rfloor> else \<lfloor>q\<rfloor>)"

definition normalizeFixedDecimals :: "places \<Rightarrow> amount_error + nat" where
  "normalizeFixedDecimals d =
     (case d of
        NaN_places \<Rightarrow> Inr 0
      | Infinite_places \<Rightarrow> Inl Range_error
      | Finite_places q \<Rightarrow>
          (let digits = js_trunc q in
           if digits < 0 \<or> digits > MAX_FIXED_DECIMALS then Inl Range_error else Inr (nat digits)))"

definition pow10 :: "nat \<Rightarrow> int" where
  "pow10 e = 10 ^ e"

definition padStart0 :: "nat \<Rightarrow> string \<Rightarrow> string" where
  "padStart0 n s = replicate (n - length s) CHR ''0'' @ s"

section \<open>Printing\<close>

definition formatTBC :: "int \<Rightarrow> places \<Rightarrow> amount_error + string" where
  "formatTBC nanocoins decimals = res_bind (normalizeFixedDecimals decimals) (\<lambda>digits.
     let sign = (if nanocoins < 0 then ''-'' else []);
         absoluteNanocoins = (if nanocoins < 0 then - nanocoins else nanocoins) in
     if digits \<le> 9 then
       let roundingDivisor = pow10 (9 - digits);
           roundedUnits = (absoluteNanocoins + roundingDivisor div 2) div roundingDivisor in
       if digits = 0 then Inr (sign @ dec_int roundedUnits)
       else
         let fractionalScale = pow10 digits;
             whole = roundedUnits div fractionalScale;
             fraction = padStart0 digits (dec_int (roundedUnits mod fractionalScale)) in
         Inr (sign @ dec_int whole @ ''.'' @ fraction)
     else
       let whole = absoluteNanocoins div NANOCOINS_PER_TBC;
           fraction = padStart0 9 (dec_int (absoluteNanocoins mod NANOCOINS_PER_TBC)) @ replicate (digits - 9) CHR ''0'' in
       Inr (sign @ dec_int whole @ ''.'' @ fraction))"

section \<open>Reading\<close>

text \<open>
  \<open>DECIMAL_AMOUNT\<close>, \<open>^\+?(?:(\d+)(?:\.(\d*))?|\.(\d+))$\<close>: the digits before and after the point.
\<close>

definition match_DECIMAL_AMOUNT :: "string \<Rightarrow> (string \<times> string) option" where
  "match_DECIMAL_AMOUNT s =
     (let body = (case s of c # t \<Rightarrow> if c = CHR ''+'' then t else s | [] \<Rightarrow> []);
          whole = takeWhile is_digit body; rest = dropWhile is_digit body in
      if whole \<noteq> [] then
        (case rest of
           [] \<Rightarrow> Some (whole, [])
         | c # f \<Rightarrow> if c = CHR ''.'' \<and> list_all is_digit f then Some (whole, f) else None)
      else
        (case rest of
           c # f \<Rightarrow> if c = CHR ''.'' \<and> f \<noteq> [] \<and> list_all is_digit f then Some (''0'', f) else None
         | [] \<Rightarrow> None))"

definition parseTBC :: "string \<Rightarrow> amount_error + int" where
  "parseTBC tbc =
     (case match_DECIMAL_AMOUNT (js_trim tbc) of
        None \<Rightarrow> Inl Invalid_TBC
      | Some (wholePart, fractionalPart) \<Rightarrow>
          let nanocoinFraction = take 9 (fractionalPart @ replicate 9 CHR ''0'') in
          Inr (int (digits_val wholePart) * NANOCOINS_PER_TBC + int (digits_val nanocoinFraction)))"

definition assertAmount :: "string \<Rightarrow> amount_error + string" where
  "assertAmount amount = (if amount \<noteq> [] \<and> list_all is_digit amount then Inr amount else Inl (Invalid_amount amount))"

section \<open>Numerals\<close>

lemma digits_val_append: "digits_val (a @ b) = digits_val a * 10 ^ length b + digits_val b"
  by (induction b rule: rev_induct) (simp_all add: algebra_simps flip: append_assoc)

lemma digits_val_zeros [simp]: "digits_val (replicate n CHR ''0'') = 0"
  by (induction n) (simp_all add: digit_val_char0 flip: replicate_append_same)

lemma padStart0_props:
  assumes "m < 10 ^ k" "0 < k"
  shows "length (padStart0 k (dec m)) = k" "list_all is_digit (padStart0 k (dec m))" "digits_val (padStart0 k (dec m)) = m"
  using length_dec_le [OF assms] dec_digits [of m]
  by (auto simp: padStart0_def digits_val_append list_all_iff is_digit_of_char)

lemma dec_int_div: "dec_int (int u) = dec u" "dec_int (int u div 10 ^ k) = dec (u div 10 ^ k)" "dec_int (int u mod 10 ^ k) = dec (u mod 10 ^ k)"
proof -
  show *: "dec_int (int u) = dec u" for u by (simp add: dec_int_def)
  show "dec_int (int u div 10 ^ k) = dec (u div 10 ^ k)" "dec_int (int u mod 10 ^ k) = dec (u mod 10 ^ k)"
    using * [of "u div 10 ^ k"] * [of "u mod 10 ^ k"] by (simp_all add: zdiv_int zmod_int)
qed

section \<open>Reading back a rendered amount\<close>

lemma trim_numeral: "list_all (\<lambda>c. is_digit c \<or> c = CHR ''.'') s \<Longrightarrow> js_trim s = s"
  by (rule js_trim_id) (auto simp: list_all_iff js_space_def is_digit_of_char)

lemma dot_not_digit [simp]: "\<not> is_digit CHR ''.''"
  by (simp add: is_digit_of_char)

lemma match_decimal:
  assumes "w \<noteq> []" "list_all is_digit w" "list_all is_digit f"
  shows "match_DECIMAL_AMOUNT (w @ CHR ''.'' # f) = Some (w, f)" "match_DECIMAL_AMOUNT w = Some (w, [])"
proof -
  obtain c t where w: "w = c # t" by (meson assms(1) neq_Nil_conv)
  have c: "c \<noteq> CHR ''+''" using assms(2) w by (auto simp: is_digit_of_char)
  have "takeWhile is_digit (w @ CHR ''.'' # f) = w" "dropWhile is_digit (w @ CHR ''.'' # f) = CHR ''.'' # f"
    using assms(2) by (simp_all add: list_all_iff)
  note whole = this
  have t: "takeWhile is_digit t = t" "dropWhile is_digit t = []" using assms(2) w by (simp_all add: list_all_iff)
  show "match_DECIMAL_AMOUNT (w @ CHR ''.'' # f) = Some (w, f)" "match_DECIMAL_AMOUNT w = Some (w, [])"
    using c w assms whole by (simp_all add: match_DECIMAL_AMOUNT_def t)
qed

text \<open>\<open>nano w f\<close> is the value of the digits \<open>w\<close> before and \<open>f\<close> after the point.\<close>

definition nano :: "string \<Rightarrow> string \<Rightarrow> int" where
  "nano w f = int (digits_val w) * NANOCOINS_PER_TBC + int (digits_val (take 9 (f @ replicate 9 CHR ''0'')))"

lemma parse_decimal:
  assumes "w \<noteq> []" "list_all is_digit w" "list_all is_digit f"
  shows "parseTBC (w @ CHR ''.'' # f) = Inr (nano w f)" "parseTBC w = Inr (nano w [])"
proof -
  have "js_trim (w @ CHR ''.'' # f) = w @ CHR ''.'' # f" "js_trim w = w"
    using assms by (auto intro!: trim_numeral simp: list_all_iff)
  then show "parseTBC (w @ CHR ''.'' # f) = Inr (nano w f)" "parseTBC w = Inr (nano w [])"
    using match_decimal [OF assms] by (simp_all add: parseTBC_def nano_def)
qed

lemma parse_minus: "s \<noteq> [] \<Longrightarrow> list_all (\<lambda>c. is_digit c \<or> c = CHR ''.'') s \<Longrightarrow> parseTBC (CHR ''-'' # s) = Inl Invalid_TBC"
proof -
  assume s: "s \<noteq> []" "list_all (\<lambda>c. is_digit c \<or> c = CHR ''.'') s"
  have "js_trim (CHR ''-'' # s) = CHR ''-'' # s"
    by (rule js_trim_id) (use s in \<open>auto simp: list_all_iff js_space_def is_digit_of_char\<close>)
  then show ?thesis by (simp add: parseTBC_def match_DECIMAL_AMOUNT_def)
qed

lemma nano_fraction: "length f = k \<Longrightarrow> k \<le> 9 \<Longrightarrow> nano w f = (int (digits_val w) * 10 ^ k + int (digits_val f)) * 10 ^ (9 - k)"
proof -
  assume k: "length f = k" "k \<le> 9"
  have "(10::int) ^ k * 10 ^ (9 - k) = NANOCOINS_PER_TBC" using k(2) by (simp add: NANOCOINS_PER_TBC_def flip: power_add)
  then show ?thesis using k by (simp add: nano_def digits_val_append algebra_simps)
qed

text \<open>The amount a rendering with \<open>k\<close> places stands for: rounded half up to a multiple of \<open>10 ^ (9 - k)\<close>.\<close>

definition rounded :: "nat \<Rightarrow> int \<Rightarrow> int" where
  "rounded k n = (if k \<le> 9 then (n + 10 ^ (9 - k) div 2) div 10 ^ (9 - k) * 10 ^ (9 - k) else n)"

lemma rounded_exact: "9 \<le> k \<Longrightarrow> rounded k n = n"
  by (cases "k = 9") (simp_all add: rounded_def)

lemma rounded_near: "2 * \<bar>rounded k n - n\<bar> \<le> 10 ^ (9 - k)"
proof (cases "k < 9")
  case True
  define e where "e = 8 - k"
  have D: "(10::int) ^ (9 - k) = 2 * (5 * 10 ^ e)" using True by (simp add: e_def Suc_diff_le flip: power_Suc)
  define h :: int where "h = 5 * 10 ^ e"
  have h: "0 < h" by (simp add: h_def)
  have "(n + h) div (2 * h) * (2 * h) = n + h - (n + h) mod (2 * h)" by (simp add: minus_mod_eq_div_mult)
  moreover have "0 \<le> (n + h) mod (2 * h)" "(n + h) mod (2 * h) < 2 * h" using h by simp_all
  ultimately show ?thesis using True unfolding rounded_def D h_def [symmetric] by (simp add: abs_le_iff)
qed (simp add: rounded_exact)

lemma formatTBC_parts:
  assumes "normalizeFixedDecimals d = Inr k"
  obtains w f where "w \<noteq> []" "list_all is_digit w" "list_all is_digit f" "nano w (if k = 0 then [] else f) = rounded k \<bar>n\<bar>"
    "formatTBC n d = Inr ((if n < 0 then ''-'' else []) @ w @ (if k = 0 then [] else CHR ''.'' # f))"
proof (cases "k \<le> 9")
  case True
  define D where "D = (10::int) ^ (9 - k)"
  define U where "U = nat ((\<bar>n\<bar> + D div 2) div D)"
  have U: "(\<bar>n\<bar> + D div 2) div D = int U" by (simp add: U_def D_def pos_imp_zdiv_nonneg_iff)
  have *: "formatTBC n d = Inr ((if n < 0 then ''-'' else []) @ dec (U div 10 ^ k) @ (if k = 0 then [] else CHR ''.'' # padStart0 k (dec (U mod 10 ^ k))))"
    using assms True U dec_int_div [of U] by (cases "k = 0") (simp_all add: formatTBC_def Let_def pow10_def abs_if [symmetric] D_def)
  show ?thesis
  proof (rule that [OF _ _ _ _ *])
    show "list_all is_digit (padStart0 k (dec (U mod 10 ^ k)))" using dec_digits [of "U mod 10 ^ k"]
      by (auto simp: padStart0_def list_all_iff is_digit_of_char)
    show "nano (dec (U div 10 ^ k)) (if k = 0 then [] else padStart0 k (dec (U mod 10 ^ k))) = rounded k \<bar>n\<bar>"
    proof (cases "k = 0")
      case True
      then show ?thesis using U by (simp add: nano_def rounded_def D_def NANOCOINS_PER_TBC_def)
    next
      case False
      have "int (U div 10 ^ k * 10 ^ k + U mod 10 ^ k) = int U" by (simp only: div_mult_mod_eq)
      then have "int (U div 10 ^ k) * 10 ^ k + int (U mod 10 ^ k) = int U" by (simp only: of_nat_add of_nat_mult of_nat_power of_nat_numeral)
      moreover have "nano (dec (U div 10 ^ k)) (padStart0 k (dec (U mod 10 ^ k)))
          = (int (U div 10 ^ k) * 10 ^ k + int (U mod 10 ^ k)) * 10 ^ (9 - k)"
        using nano_fraction [of "padStart0 k (dec (U mod 10 ^ k))" k] padStart0_props [of "U mod 10 ^ k" k] False True by simp
      ultimately show ?thesis using False True U [symmetric] unfolding rounded_def D_def by (simp only: if_True if_False)
    qed
  qed (simp_all add: dec_digits)
next
  case False
  define N where "N = nat \<bar>n\<bar>"
  have N: "\<bar>n\<bar> = int N" by (simp add: N_def)
  define f where "f = padStart0 9 (dec (N mod 10 ^ 9)) @ replicate (k - 9) CHR ''0''"
  have *: "formatTBC n d = Inr ((if n < 0 then ''-'' else []) @ dec (N div 10 ^ 9) @ (if k = 0 then [] else CHR ''.'' # f))"
    using assms False dec_int_div(2,3) [of N 9] unfolding formatTBC_def Let_def abs_if [symmetric] N
    by (simp add: f_def NANOCOINS_PER_TBC_def)
  have pad: "length (padStart0 9 (dec (N mod 10 ^ 9))) = 9" "list_all is_digit (padStart0 9 (dec (N mod 10 ^ 9)))" "digits_val (padStart0 9 (dec (N mod 10 ^ 9))) = N mod 10 ^ 9"
    using padStart0_props [of "N mod 10 ^ 9" 9] by simp_all
  show ?thesis
  proof (rule that [OF _ _ _ _ *])
    show "list_all is_digit f" using pad(2) by (auto simp: f_def list_all_iff is_digit_of_char)
    have "nano (dec (N div 10 ^ 9)) f = int (N div 10 ^ 9 * 10 ^ 9 + N mod 10 ^ 9)"
      using pad by (simp add: nano_def f_def NANOCOINS_PER_TBC_def zdiv_int zmod_int)
    then show "nano (dec (N div 10 ^ 9)) (if k = 0 then [] else f) = rounded k \<bar>n\<bar>" using False N by (simp add: rounded_def)
  qed (simp_all add: dec_digits)
qed

text \<open>
  C21. Printing an amount and reading it back: with nine or more places the amount is unchanged, with
  fewer it is a multiple of the last printed place at most half a place away; a negative amount
  prints with a minus sign and is refused by the reader. The number of places is refused only when
  its integral part is outside 0..100 or it is infinite.
\<close>

theorem amount_roundtrip:
  assumes "normalizeFixedDecimals d = Inr k"
  shows "\<exists>s. formatTBC n d = Inr s \<and>
    (if n < 0 then parseTBC s = Inl Invalid_TBC
     else \<exists>v. parseTBC s = Inr v \<and> (9 \<le> k \<longrightarrow> v = n) \<and> (k < 9 \<longrightarrow> 10 ^ (9 - k) dvd v \<and> 2 * \<bar>v - n\<bar> \<le> 10 ^ (9 - k)))"
proof -
  obtain w f where wf: "w \<noteq> []" "list_all is_digit w" "list_all is_digit f" "nano w (if k = 0 then [] else f) = rounded k \<bar>n\<bar>"
    and fmt: "formatTBC n d = Inr ((if n < 0 then ''-'' else []) @ w @ (if k = 0 then [] else CHR ''.'' # f))"
    by (rule formatTBC_parts [OF assms])
  let ?t = "w @ (if k = 0 then [] else CHR ''.'' # f)"
  have "parseTBC ?t = Inr (rounded k \<bar>n\<bar>)" using parse_decimal [OF wf(1-3)] wf(4) by (cases "k = 0") simp_all
  moreover have "parseTBC (CHR ''-'' # ?t) = Inl Invalid_TBC" using wf(1-3) by (intro parse_minus) (auto simp: list_all_iff)
  moreover have "k < 9 \<Longrightarrow> 10 ^ (9 - k) dvd rounded k \<bar>n\<bar>" by (simp add: rounded_def)
  ultimately show ?thesis using fmt rounded_exact [of k n] rounded_near [of k n] by (cases "n < 0") simp_all
qed

theorem amount_roundtrip_witness:
  "\<exists>s. formatTBC 1005000000 (Finite_places 2) = Inr s \<and> (\<exists>v. parseTBC s = Inr v \<and> 10 ^ 7 dvd v \<and> 2 * \<bar>v - 1005000000\<bar> \<le> 10 ^ 7)"
proof -
  have "normalizeFixedDecimals (Finite_places 2) = Inr 2"
    by (simp add: normalizeFixedDecimals_def js_trunc_def MAX_FIXED_DECIMALS_def)
  from amount_roundtrip [OF this, of 1005000000] show ?thesis by simp
qed

end
