(* ===== verification/Api_Ssrf.thy ===== *)
theory Api_Ssrf
  imports Prelude
begin

unbundle bit_operations_syntax

text \<open>
  The SSRF guard of outgoing webhooks (\<open>api/src/utils/ssrfGuard.ts\<close>): the blocked address ranges, the
  parsing of IPv4 and IPv6 literals and the check of a webhook URL. Node's \<open>net.isIP\<close> is modelled from
  its address grammar; the URL parser of the platform and the resolver are parameters. A \<open>bigint\<close> is an
  \<open>int\<close>.
\<close>

section \<open>Address literals\<close>

text \<open>\<open>s.split('::')\<close>.\<close>

fun split_dcolon :: "string \<Rightarrow> string list" where
  "split_dcolon [] = [[]]"
| "split_dcolon [c] = [[c]]"
| "split_dcolon (c # d # s) =
     (if c = CHR '':'' \<and> d = CHR '':'' then [] # split_dcolon s
      else (case split_dcolon (d # s) of [] \<Rightarrow> [[c]] | w # ws \<Rightarrow> (c # w) # ws))"

definition hex_group :: "string \<Rightarrow> bool" where
  "hex_group s \<longleftrightarrow> 1 \<le> length s \<and> length s \<le> 4 \<and> list_all is_hex s"

definition v4_segment :: "string \<Rightarrow> bool" where
  "v4_segment s \<longleftrightarrow> s \<noteq> [] \<and> list_all is_digit s \<and> length s \<le> 3 \<and> digits_val s \<le> 255 \<and> (1 < length s \<longrightarrow> hd s \<noteq> CHR ''0'')"

definition is_v4 :: "string \<Rightarrow> bool" where
  "is_v4 s \<longleftrightarrow> (let ps = js_split CHR ''.'' s in length ps = 4 \<and> list_all v4_segment ps)"

definition v6_groups :: "string \<Rightarrow> string list" where
  "v6_groups s = (if s = [] then [] else js_split CHR '':'' s)"

text \<open>The number of groups a part stands for, where its last group may be dotted; \<open>None\<close> if malformed.\<close>

definition v6_part :: "bool \<Rightarrow> string \<Rightarrow> nat option" where
  "v6_part tail_allowed s =
     (let gs = v6_groups s in
      if list_all hex_group gs then Some (length gs)
      else if tail_allowed \<and> gs \<noteq> [] \<and> list_all hex_group (butlast gs) \<and> is_v4 (last gs) then Some (Suc (length gs))
      else None)"

definition zone_char :: "char \<Rightarrow> bool" where
  "zone_char c \<longleftrightarrow> (let n = of_char c :: nat in is_digit c \<or> (65 \<le> n \<and> n \<le> 90) \<or> (97 \<le> n \<and> n \<le> 122) \<or> n \<in> {45, 46, 58})"

definition is_v6 :: "string \<Rightarrow> bool" where
  "is_v6 s =
     (let addr = takeWhile (\<lambda>c. c \<noteq> CHR ''%'') s; zone = dropWhile (\<lambda>c. c \<noteq> CHR ''%'') s in
      (zone = [] \<or> (tl zone \<noteq> [] \<and> list_all zone_char (tl zone))) \<and>
      (case split_dcolon addr of
         [h] \<Rightarrow> v6_part True h = Some 8
       | [l, r] \<Rightarrow> (case (v6_part False l, v6_part True r) of (Some i, Some j) \<Rightarrow> i + j \<le> 7 | _ \<Rightarrow> False)
       | _ \<Rightarrow> False))"

definition net_isIP :: "string \<Rightarrow> nat" where
  "net_isIP s = (if is_v4 s then 4 else if is_v6 s then 6 else 0)"

section \<open>Conversion to integers\<close>

datatype ssrf_reason = Invalid_url | Scheme_not_allowed | Host_not_allowed | Dns_resolution_failed | Blocked_address

record ssrf_error =
  se_message :: string
  se_reason :: ssrf_reason

definition malformed4 :: "string \<Rightarrow> ssrf_error" where
  "malformed4 ip = \<lparr>se_message = ''Malformed IPv4 address: '' @ ip, se_reason = Blocked_address\<rparr>"

definition malformed6 :: "string \<Rightarrow> ssrf_error" where
  "malformed6 ip = \<lparr>se_message = ''Malformed IPv6 address: '' @ ip, se_reason = Blocked_address\<rparr>"

text \<open>\<open>Number(part)\<close> of a part made of decimal digits; the function is reached with no other parts.\<close>

fun octets :: "string \<Rightarrow> int \<Rightarrow> string list \<Rightarrow> ssrf_error + int" where
  "octets ip value [] = Inr value"
| "octets ip value (part # parts) =
     (if \<not> list_all is_digit part \<or> digits_val part > 255 then Inl (malformed4 ip)
      else octets ip (push_bit 8 value OR int (digits_val part)) parts)"

definition ipv4ToBigInt :: "string \<Rightarrow> ssrf_error + int" where
  "ipv4ToBigInt ip =
     (let parts = js_split CHR ''.'' ip in if length parts \<noteq> 4 then Inl (malformed4 ip) else octets ip 0 parts)"

definition hex_string :: "nat \<Rightarrow> string" where
  "hex_string n = (if n < 16 then [hex_digit n] else if n < 256 then map hex_digit [n div 16, n mod 16]
     else if n < 4096 then map hex_digit [n div 256, n div 16 mod 16, n mod 16]
     else map hex_digit [n div 4096, n div 256 mod 16, n div 16 mod 16, n mod 16])"

text \<open>The two hextets of an embedded IPv4 tail, and the rest without its separator.\<close>

definition v4_tail :: "string \<Rightarrow> ssrf_error + (string \<times> string list)" where
  "v4_tail head =
     (if CHR ''.'' \<in> set head then
        (if CHR '':'' \<notin> set head then Inl (malformed6 head)
         else
           let last_part = rev (takeWhile (\<lambda>c. c \<noteq> CHR '':'') (rev head));
               rest = butlast (take (length head - length last_part) head) in
           res_bind (ipv4ToBigInt last_part) (\<lambda>v4.
             Inr (rest, [hex_string (nat (drop_bit 16 v4 AND 0xffff)), hex_string (nat (v4 AND 0xffff))])))
      else Inr (head, []))"

fun hextets :: "string \<Rightarrow> int \<Rightarrow> string list \<Rightarrow> ssrf_error + int" where
  "hextets ip value [] = Inr value"
| "hextets ip value (g # gs) = (if \<not> hex_group g then Inl (malformed6 ip) else hextets ip (push_bit 16 value OR hex_number g) gs)"

definition ipv6ToBigInt :: "string \<Rightarrow> ssrf_error + int" where
  "ipv6ToBigInt ip = res_bind (v4_tail (takeWhile (\<lambda>c. c \<noteq> CHR ''%'') ip)) (\<lambda>(head, tail).
     let halves = split_dcolon head in
     if length halves > 2 then Inl (malformed6 ip)
     else
       let left = v6_groups (halves ! 0);
           right = (if length halves = 2 then v6_groups (halves ! 1) else []) in
       if length halves = 2 \<and> length left + length right + length tail > 8 then Inl (malformed6 ip)
       else
         let expanded = (if length halves = 2
           then left @ replicate (8 - (length left + length right + length tail)) ''0'' @ right @ tail
           else left @ tail) in
         if length expanded \<noteq> 8 then Inl (malformed6 ip) else hextets ip 0 expanded)"

section \<open>Blocked ranges\<close>

definition BLOCKED_IPV4_CIDRS :: "string list" where
  "BLOCKED_IPV4_CIDRS =
     [''0.0.0.0/8'', ''10.0.0.0/8'', ''100.64.0.0/10'', ''127.0.0.0/8'', ''169.254.0.0/16'', ''172.16.0.0/12'', ''192.0.0.0/24'',
      ''192.0.2.0/24'', ''192.168.0.0/16'', ''198.18.0.0/15'', ''198.51.100.0/24'', ''203.0.113.0/24'', ''224.0.0.0/4'', ''240.0.0.0/4'']"

definition BLOCKED_IPV6_CIDRS :: "string list" where
  "BLOCKED_IPV6_CIDRS =
     [''::/128'', ''::1/128'', ''::/96'', ''64:ff9b::/96'', ''100::/64'', ''2001:db8::/32'', ''fc00::/7'', ''fe80::/10'', ''ff00::/8'']"

record parsed_cidr =
  pc_base :: int
  pc_mask :: int

definition parseCidr :: "string \<Rightarrow> nat \<Rightarrow> (string \<Rightarrow> ssrf_error + int) \<Rightarrow> ssrf_error + parsed_cidr" where
  "parseCidr cidr bits toBigInt =
     (case js_split CHR ''/'' cidr of
        addr # prefixStr # _ \<Rightarrow>
          (let hostBits = bits - digits_val prefixStr;
               msk = (if hostBits = 0 then push_bit bits 1 - 1 else NOT (push_bit hostBits 1 - 1) AND (push_bit bits 1 - 1)) in
           res_bind (toBigInt addr) (\<lambda>v. Inr \<lparr>pc_base = v AND msk, pc_mask = msk\<rparr>))
      | _ \<Rightarrow> Inl (malformed4 cidr))"

text \<open>The constants of the module; an entry that failed to parse would stop it from loading.\<close>

definition parse_all :: "nat \<Rightarrow> (string \<Rightarrow> ssrf_error + int) \<Rightarrow> string list \<Rightarrow> parsed_cidr list" where
  "parse_all bits f cs = concat (map (\<lambda>c. case parseCidr c bits f of Inl _ \<Rightarrow> [] | Inr p \<Rightarrow> [p]) cs)"

definition PARSED_IPV4 :: "parsed_cidr list" where
  "PARSED_IPV4 = parse_all 32 ipv4ToBigInt BLOCKED_IPV4_CIDRS"

definition PARSED_IPV6 :: "parsed_cidr list" where
  "PARSED_IPV6 = parse_all 128 ipv6ToBigInt BLOCKED_IPV6_CIDRS"

definition in_ranges :: "int \<Rightarrow> parsed_cidr list \<Rightarrow> bool" where
  "in_ranges value ranges \<longleftrightarrow> list_ex (\<lambda>c. value AND pc_mask c = pc_base c) ranges"

definition blocked_v4 :: "string \<Rightarrow> bool" where
  "blocked_v4 ip = (case ipv4ToBigInt ip of Inl _ \<Rightarrow> True | Inr value \<Rightarrow> in_ranges value PARSED_IPV4)"

text \<open>The two forms of IPv4-mapped literals that are unwrapped; the result is checked as a literal of its own.\<close>

definition dotted_mapped :: "string \<Rightarrow> string option" where
  "dotted_mapped lower =
     (if starts_with ''::ffff:'' lower
        \<and> (let ps = js_split CHR ''.'' (drop 7 lower) in
           length ps = 4 \<and> list_all (\<lambda>p. 1 \<le> length p \<and> length p \<le> 3 \<and> list_all is_digit p) ps)
      then Some (drop 7 lower) else None)"

definition hex_mapped :: "string \<Rightarrow> string option" where
  "hex_mapped lower =
     (if starts_with ''::ffff:'' lower then
        (case js_split CHR '':'' (drop 7 lower) of
           [h, l] \<Rightarrow>
             if hex_group h \<and> hex_group l then
               (let hi = nat (hex_number h); lo = nat (hex_number l) in
                Some (dec (hi div 256 mod 256) @ ''.'' @ dec (hi mod 256) @ ''.'' @ dec (lo div 256 mod 256) @ ''.'' @ dec (lo mod 256)))
             else None
         | _ \<Rightarrow> None)
      else None)"

definition blocked_unwrapped :: "string \<Rightarrow> bool" where
  "blocked_unwrapped ip = (if net_isIP ip = 4 then blocked_v4 ip else True)"

definition isBlockedAddress :: "string \<Rightarrow> bool" where
  "isBlockedAddress ip =
     (let family = net_isIP ip in
      if family = 0 then True
      else if family = 4 then blocked_v4 ip
      else
        let lower = js_lower ip in
        case dotted_mapped lower of
          Some v4 \<Rightarrow> blocked_unwrapped v4
        | None \<Rightarrow>
            (case hex_mapped lower of
               Some v4 \<Rightarrow> blocked_unwrapped v4
             | None \<Rightarrow> (case ipv6ToBigInt ip of Inl _ \<Rightarrow> True | Inr value \<Rightarrow> in_ranges value PARSED_IPV6)))"

section \<open>The check of a URL\<close>

record parsed_url =
  protocol :: string
  hostname :: string

text \<open>The allowlist variable is split at commas and white space.\<close>

definition readAllowHostsFromEnv :: "(string \<Rightarrow> string option) \<Rightarrow> string list" where
  "readAllowHostsFromEnv env =
     (case env ''WEBHOOK_HOST_ALLOWLIST'' of
        None \<Rightarrow> []
      | Some raw \<Rightarrow>
          if raw = [] then []
          else filter (\<lambda>h. h \<noteq> [])
            (map (\<lambda>h. js_lower (js_trim h)) (js_split CHR '','' (map (\<lambda>c. if js_space c then CHR '','' else c) raw))))"

definition stripBrackets :: "string \<Rightarrow> string" where
  "stripBrackets host =
     (if host \<noteq> [] \<and> hd host = CHR ''['' \<and> last host = CHR '']'' then butlast (tl host) else host)"

record 'w url_env =
  parseURL :: "string \<Rightarrow> parsed_url option"
  lookup_host :: "string \<Rightarrow> 'w \<Rightarrow> string list option \<times> 'w"
  url_process_env :: "string \<Rightarrow> string option"

text \<open>\<open>allowHosts\<close> is the option of the caller.\<close>

definition assertSafeWebhookUrl :: "'w url_env \<Rightarrow> string list option \<Rightarrow> string \<Rightarrow> 'w \<Rightarrow> (ssrf_error + parsed_url) \<times> 'w" where
  "assertSafeWebhookUrl ue allowHosts rawUrl w =
     (case parseURL ue rawUrl of
        None \<Rightarrow> (Inl \<lparr>se_message = ''Webhook URL is not a valid URL'', se_reason = Invalid_url\<rparr>, w)
      | Some parsed \<Rightarrow>
          if protocol parsed \<noteq> ''https:''
          then (Inl \<lparr>se_message = ''Webhook URL must use the https scheme'', se_reason = Scheme_not_allowed\<rparr>, w)
          else
            let host = js_lower (hostname parsed);
                hosts = map js_lower (case allowHosts of Some hs \<Rightarrow> hs | None \<Rightarrow> readAllowHostsFromEnv (url_process_env ue)) in
            if hosts \<noteq> [] \<and> host \<notin> set hosts
            then (Inl \<lparr>se_message = ''Webhook host is not in the operator allowlist'', se_reason = Host_not_allowed\<rparr>, w)
            else if net_isIP host \<noteq> 0 \<or> net_isIP (stripBrackets host) \<noteq> 0 then
              (if isBlockedAddress (stripBrackets host)
               then (Inl \<lparr>se_message = ''Webhook host resolves to a blocked address'', se_reason = Blocked_address\<rparr>, w)
               else (Inr parsed, w))
            else
              (case lookup_host ue host w of
                 (None, w) \<Rightarrow> (Inl \<lparr>se_message = ''Webhook host could not be resolved'', se_reason = Dns_resolution_failed\<rparr>, w)
               | (Some addresses, w) \<Rightarrow>
                   if addresses = []
                   then (Inl \<lparr>se_message = ''Webhook host did not resolve to any address'', se_reason = Dns_resolution_failed\<rparr>, w)
                   else if list_ex isBlockedAddress addresses
                   then (Inl \<lparr>se_message = ''Webhook host resolves to a blocked address'', se_reason = Blocked_address\<rparr>, w)
                   else (Inr parsed, w)))"

end
