(* ===== verification/Api_Webhooks.thy ===== *)
theory Api_Webhooks
  imports Api_Secrets Api_Ssrf
begin

text \<open>
  Signed outgoing webhooks: the signature header (\<open>api/src/utils/webhookSignature.ts\<close>) and its verification
  in the merchant SDK (\<open>sdk/src/webhook.ts\<close>), the encryption of signing secrets at rest
  (\<open>api/src/utils/secretCipher.ts\<close>) and the delivery service (\<open>api/src/services/WebhookService.ts\<close>). The
  digests and ciphers of Node's \<open>crypto\<close>, the base 64 codec and the conversion between strings and doubles are
  parameters with their documented laws; the HTTP client and the clock act on a world \<open>'w\<close>.
\<close>

section \<open>Signature header\<close>

definition SIGNATURE_HEADER :: string where
  "SIGNATURE_HEADER = ''X-Tonbankcard-Signature''"

definition DEFAULT_TOLERANCE_SECONDS :: int where
  "DEFAULT_TOLERANCE_SECONDS = 300"

definition SIGNATURE_VERSION :: string where
  "SIGNATURE_VERSION = ''v1''"

datatype signature_failure =
  Invalid_secret | Missing_signature | Malformed_signature | Unsupported_version | Timestamp_out_of_tolerance | Signature_mismatch

text \<open>\<open>None\<close> stands for \<open>{ valid: true }\<close>, a reason for \<open>{ valid: false, reason }\<close>.\<close>

type_synonym verification = "signature_failure option"

text \<open>
  The double conversions of the engine: \<open>toNumber\<close> is \<open>Number(s)\<close> where that is an integer and \<open>None\<close> elsewhere,
  \<open>numText\<close> is \<open>n.toString()\<close>. On safe integers both are exact.
\<close>

record js_num =
  toNumber :: "string \<Rightarrow> int option"
  numText :: "int \<Rightarrow> string"

definition num_laws :: "js_num \<Rightarrow> bool" where
  "num_laws nm \<longleftrightarrow> (\<forall>n. 0 < n \<and> n < 2 ^ 53 \<longrightarrow> toNumber nm (dec_int n) = Some n \<and> numText nm n = dec_int n)"

definition computeSignature :: "js_rt \<Rightarrow> string \<Rightarrow> string \<Rightarrow> string \<Rightarrow> string" where
  "computeSignature rt secret timestamp rawBody = hmac rt secret (timestamp @ ''.'' @ rawBody)"

definition signWebhook :: "js_rt \<Rightarrow> js_num \<Rightarrow> string \<Rightarrow> string \<Rightarrow> int \<Rightarrow> string" where
  "signWebhook rt nm secret rawBody timestamp =
     (let ts = numText nm timestamp in
      ''t='' @ ts @ '','' @ SIGNATURE_VERSION @ ''='' @ computeSignature rt secret ts rawBody)"

record parsed_signature =
  ps_timestamp :: "int option"
  ps_text :: string
  ps_versions :: "(string, string) amap"

definition version_key :: "string \<Rightarrow> bool" where
  "version_key k \<longleftrightarrow> (case k of [] \<Rightarrow> False | c # ds \<Rightarrow> c = CHR ''v'' \<and> ds \<noteq> [] \<and> list_all is_digit ds)"

text \<open>
  One \<open>key=value\<close> part; \<open>read_time\<close> reads the value of \<open>t\<close>, which the two implementations do differently.
  \<open>None\<close> is the early \<open>return null\<close>.
\<close>

definition header_part :: "(string \<Rightarrow> int option) \<Rightarrow> string \<Rightarrow> parsed_signature \<Rightarrow> parsed_signature option" where
  "header_part read_time part p =
     (case js_split CHR ''='' part of
        rawKey # rawVal # _ \<Rightarrow>
          if rawKey = [] then None
          else
            let key = js_trim rawKey; val = js_trim rawVal in
            if key = ''t'' then
              (case read_time val of None \<Rightarrow> None | Some n \<Rightarrow> Some (p\<lparr>ps_timestamp := Some n, ps_text := val\<rparr>))
            else if version_key key then Some (p\<lparr>ps_versions := amap_set key val (ps_versions p)\<rparr>)
            else Some p
      | _ \<Rightarrow> None)"

fun header_parts :: "(string \<Rightarrow> int option) \<Rightarrow> string list \<Rightarrow> parsed_signature \<Rightarrow> parsed_signature option" where
  "header_parts rd [] p = Some p"
| "header_parts rd (x # xs) p = (case header_part rd x p of None \<Rightarrow> None | Some p' \<Rightarrow> header_parts rd xs p')"

definition parse_header :: "(string \<Rightarrow> int option) \<Rightarrow> string \<Rightarrow> parsed_signature option" where
  "parse_header rd value =
     (if value = [] then None
      else
        case header_parts rd (js_split CHR '','' value) \<lparr>ps_timestamp = None, ps_text = [], ps_versions = []\<rparr> of
          None \<Rightarrow> None
        | Some p \<Rightarrow> if ps_timestamp p = None \<or> ps_versions p = [] then None else Some p)"

definition server_time :: "js_num \<Rightarrow> string \<Rightarrow> int option" where
  "server_time nm val = (case toNumber nm val of None \<Rightarrow> None | Some n \<Rightarrow> if n \<le> 0 then None else Some n)"

text \<open>A numeral of decimal digits denotes a safe integer exactly if its value is below \<open>2^53\<close>.\<close>

definition sdk_time :: "string \<Rightarrow> int option" where
  "sdk_time val =
     (if val = [] \<or> \<not> list_all is_digit val then None
      else if digits_val val < 2 ^ 53 \<and> 0 < digits_val val then Some (int (digits_val val)) else None)"

definition parseSignatureHeader :: "js_num \<Rightarrow> string \<Rightarrow> parsed_signature option" where
  "parseSignatureHeader nm = parse_header (server_time nm)"

definition sdk_parseSignatureHeader :: "string \<Rightarrow> parsed_signature option" where
  "sdk_parseSignatureHeader = parse_header sdk_time"

text \<open>\<open>tolerance\<close> and \<open>now\<close> are the values after their defaults are filled in.\<close>

definition verifyWebhookSignature ::
  "js_rt \<Rightarrow> js_num \<Rightarrow> string \<Rightarrow> string \<Rightarrow> string option \<Rightarrow> int \<Rightarrow> int \<Rightarrow> exn + verification" where
  "verifyWebhookSignature rt nm secret rawBody header tolerance now =
     (case header of
        None \<Rightarrow> Inr (Some Missing_signature)
      | Some h \<Rightarrow>
          if h = [] then Inr (Some Missing_signature)
          else
            case parseSignatureHeader nm h of
              None \<Rightarrow> Inr (Some Malformed_signature)
            | Some p \<Rightarrow>
                let ts = the (ps_timestamp p) in
                if \<bar>now - ts\<bar> > tolerance then Inr (Some Timestamp_out_of_tolerance)
                else
                  case amap_get SIGNATURE_VERSION (ps_versions p) of
                    None \<Rightarrow> Inr (Some Unsupported_version)
                  | Some provided \<Rightarrow>
                      if provided = [] then Inr (Some Unsupported_version)
                      else res_bind (constantTimeEqual provided (computeSignature rt secret (numText nm ts) rawBody))
                        (\<lambda>eq. Inr (if eq then None else Some Signature_mismatch)))"

definition computeWebhookSignature :: "js_rt \<Rightarrow> string \<Rightarrow> string \<Rightarrow> string \<Rightarrow> string" where
  "computeWebhookSignature rt secret timestamp rawBody = hmac rt secret (timestamp @ ''.'' @ rawBody)"

definition verifyWebhook :: "js_rt \<Rightarrow> string \<Rightarrow> string \<Rightarrow> string option \<Rightarrow> int \<Rightarrow> int \<Rightarrow> exn + verification" where
  "verifyWebhook rt secret rawBody signature tolerance now =
     (if js_trim secret = [] then Inr (Some Invalid_secret)
      else
        case signature of
          None \<Rightarrow> Inr (Some Missing_signature)
        | Some h \<Rightarrow>
            if h = [] then Inr (Some Missing_signature)
            else
              case sdk_parseSignatureHeader h of
                None \<Rightarrow> Inr (Some Malformed_signature)
              | Some p \<Rightarrow>
                  if \<bar>now - the (ps_timestamp p)\<bar> > tolerance then Inr (Some Timestamp_out_of_tolerance)
                  else
                    case amap_get SIGNATURE_VERSION (ps_versions p) of
                      None \<Rightarrow> Inr (Some Unsupported_version)
                    | Some provided \<Rightarrow>
                        if provided = [] then Inr (Some Unsupported_version)
                        else res_bind (constantTimeEqual (js_lower provided) (computeWebhookSignature rt secret (ps_text p) rawBody))
                          (\<lambda>eq. Inr (if eq then None else Some Signature_mismatch)))"

section \<open>Secrets at rest\<close>

type_synonym bytes = "8 word list"

text \<open>
  \<open>hkdf\<close> is \<open>deriveKey\<close>'s call of \<open>crypto.hkdfSync\<close> on the arguments below; \<open>gcm_seal key iv text\<close> gives the
  ciphertext and the tag, \<open>gcm_open\<close> the text or the message of the error; \<open>b64\<close> and \<open>unb64\<close> are the codec of
  \<open>Buffer\<close>.
\<close>

record node_crypto =
  hkdf :: "string \<Rightarrow> string \<Rightarrow> string \<Rightarrow> string \<Rightarrow> nat \<Rightarrow> bytes"
  gcm_seal :: "string \<Rightarrow> bytes \<Rightarrow> bytes \<Rightarrow> string \<Rightarrow> bytes \<times> bytes"
  gcm_open :: "string \<Rightarrow> bytes \<Rightarrow> bytes \<Rightarrow> bytes \<Rightarrow> bytes \<Rightarrow> string + string"
  b64 :: "bytes \<Rightarrow> string"
  unb64 :: "string \<Rightarrow> bytes"

definition crypto_laws :: "node_crypto \<Rightarrow> bool" where
  "crypto_laws nc \<longleftrightarrow>
     (\<forall>bs. unb64 nc (b64 nc bs) = bs \<and> CHR '':'' \<notin> set (b64 nc bs)) \<and>
     (\<forall>alg key iv text. length iv = 12 \<longrightarrow> gcm_open nc alg key iv (snd (gcm_seal nc alg key iv text)) (fst (gcm_seal nc alg key iv text)) = Inr text)"

definition SCHEME_VERSION :: string where
  "SCHEME_VERSION = ''v1''"

definition ALGORITHM :: string where
  "ALGORITHM = ''aes-256-gcm''"

definition IV_LENGTH :: nat where
  "IV_LENGTH = 12"

definition KEY_LENGTH :: nat where
  "KEY_LENGTH = 32"

definition HKDF_SALT :: string where
  "HKDF_SALT = ''tonbankcard-webhook-secret-cipher-v1''"

definition HKDF_INFO :: string where
  "HKDF_INFO = ''webhook-signing-secret''"

definition deriveKey :: "node_crypto \<Rightarrow> string \<Rightarrow> bytes" where
  "deriveKey nc keyMaterial = hkdf nc ''sha256'' keyMaterial HKDF_SALT HKDF_INFO KEY_LENGTH"

definition SecretDecryptionError :: "string \<Rightarrow> exn" where
  "SecretDecryptionError message = OtherError ''SecretDecryptionError'' message"

text \<open>A \<open>SecretCipher\<close> is its key; \<open>iv\<close> are the random bytes of the call.\<close>

definition encrypt :: "node_crypto \<Rightarrow> bytes \<Rightarrow> bytes \<Rightarrow> string \<Rightarrow> string" where
  "encrypt nc key iv plaintext =
     (let (ciphertext, authTag) = gcm_seal nc ALGORITHM key iv plaintext in
      js_join '':'' [SCHEME_VERSION, b64 nc iv, b64 nc authTag, b64 nc ciphertext])"

definition decrypt :: "node_crypto \<Rightarrow> bytes \<Rightarrow> string \<Rightarrow> exn + string" where
  "decrypt nc key value =
     (case js_split CHR '':'' value of
        [version, ivB64, tagB64, dataB64] \<Rightarrow>
          if version \<noteq> SCHEME_VERSION then Inl (SecretDecryptionError (''Unsupported ciphertext scheme: '' @ version))
          else
            (case gcm_open nc ALGORITHM key (unb64 nc ivB64) (unb64 nc tagB64) (unb64 nc dataB64) of
               Inl msg \<Rightarrow> Inl (SecretDecryptionError (''Failed to decrypt secret: '' @ msg))
             | Inr text \<Rightarrow> Inr text)
      | _ \<Rightarrow> Inl (SecretDecryptionError ''Malformed ciphertext: expected 4 segments''))"

definition createWebhookSecretCipher :: "node_crypto \<Rightarrow> env \<Rightarrow> exn + bytes" where
  "createWebhookSecretCipher nc env = res_bind (resolveWebhookSecretEncryptionKey env) (\<lambda>k. Inr (deriveKey nc k))"

section \<open>The delivery service\<close>

record webhook_endpoint =
  we_id :: string
  we_url :: string
  we_secret_encrypted :: string
  we_merchant_nft :: string
  we_created_at :: string
  we_is_active :: bool

record delivery_result =
  dr_ok :: bool
  dr_status :: int
  dr_durationMs :: int
  dr_error :: "string option"

record webhook_service =
  ws_endpoints :: "(string, webhook_endpoint) amap"
  ws_cipher :: "bytes option"

record fetch_request =
  fr_url :: string
  fr_method :: string
  fr_headers :: "(string \<times> string) list"
  fr_body :: string
  fr_timeoutMs :: int
  fr_redirect :: string

record fetch_response =
  fp_ok :: bool
  fp_status :: int

text \<open>What the service calls: the URL guard, the clock, the HTTP client (which sees the abort timeout) and \<open>crypto\<close>.\<close>

record 'w hook_env =
  he_rt :: js_rt
  he_num :: js_num
  he_crypto :: node_crypto
  he_env :: env
  he_urls :: "'w url_env"
  he_now :: "'w \<Rightarrow> int"
  he_fetch :: "fetch_request \<Rightarrow> 'w \<Rightarrow> (string + fetch_response) \<times> 'w"
  he_update_undefined :: string

definition new_webhook_service :: "bytes option \<Rightarrow> webhook_service" where
  "new_webhook_service c = \<lparr>ws_endpoints = [], ws_cipher = c\<rparr>"

text \<open>The lazy getter \<open>cipher\<close>.\<close>

definition get_cipher :: "'w hook_env \<Rightarrow> webhook_service \<Rightarrow> exn + (bytes \<times> webhook_service)" where
  "get_cipher he svc =
     (case ws_cipher svc of
        Some k \<Rightarrow> Inr (k, svc)
      | None \<Rightarrow> res_bind (createWebhookSecretCipher (he_crypto he) (he_env he)) (\<lambda>k. Inr (k, svc\<lparr>ws_cipher := Some k\<rparr>)))"

datatype hook_error = Ssrf ssrf_error | Thrown exn

text \<open>\<open>idBytes\<close> and \<open>iv\<close> are the random bytes drawn by the call.\<close>

definition register :: "'w hook_env \<Rightarrow> bytes \<Rightarrow> bytes \<Rightarrow> string list option \<Rightarrow> string \<Rightarrow> string \<Rightarrow> string \<Rightarrow> webhook_service \<Rightarrow> 'w
    \<Rightarrow> (hook_error + webhook_endpoint) \<times> webhook_service \<times> 'w" where
  "register he idBytes iv allowHosts merchantNft url secret svc w =
     (case assertSafeWebhookUrl (he_urls he) allowHosts url w of
        (Inl e, w) \<Rightarrow> (Inl (Ssrf e), svc, w)
      | (Inr _, w) \<Rightarrow>
          (case get_cipher he svc of
             Inl e \<Rightarrow> (Inl (Thrown e), svc, w)
           | Inr (key, svc) \<Rightarrow>
               let endpointId = ''wh_'' @ to_hex idBytes;
                   endpoint = \<lparr>we_id = endpointId, we_url = url, we_secret_encrypted = encrypt (he_crypto he) key iv secret,
                     we_merchant_nft = merchantNft, we_created_at = toISO (he_rt he) (he_now he w), we_is_active = True\<rparr> in
               (Inr endpoint, svc\<lparr>ws_endpoints := amap_set endpointId endpoint (ws_endpoints svc)\<rparr>, w)))"

definition find_endpoint :: "string \<Rightarrow> webhook_service \<Rightarrow> webhook_endpoint option" where
  "find_endpoint endpointId svc = amap_get endpointId (ws_endpoints svc)"

definition deactivate :: "string \<Rightarrow> webhook_service \<Rightarrow> bool \<times> webhook_service" where
  "deactivate endpointId svc =
     (case amap_get endpointId (ws_endpoints svc) of
        None \<Rightarrow> (False, svc)
      | Some ep \<Rightarrow> (True, svc\<lparr>ws_endpoints := amap_set endpointId (ep\<lparr>we_is_active := False\<rparr>) (ws_endpoints svc)\<rparr>))"

definition clear_endpoints :: "webhook_service \<Rightarrow> webhook_service" where
  "clear_endpoints svc = svc\<lparr>ws_endpoints := []\<rparr>"

definition refused :: "string \<Rightarrow> delivery_result" where
  "refused msg = \<lparr>dr_ok = False, dr_status = 0, dr_durationMs = 0, dr_error = Some msg\<rparr>"

fun exn_message :: "exn \<Rightarrow> string" where
  "exn_message (ValidationError _ msg _) = msg"
| "exn_message (OtherError _ msg) = msg"

definition DEFAULT_TIMEOUT_MS :: int where
  "DEFAULT_TIMEOUT_MS = 5000"

record deliver_options =
  do_timestamp :: "int option"
  do_timeoutMs :: "int option"
  do_allowHosts :: "string list option"

text \<open>The signature of a delivery: the \<open>try\<close> block around decryption and signing.\<close>

definition delivery_signature :: "'w hook_env \<Rightarrow> webhook_endpoint \<Rightarrow> string option \<Rightarrow> int option \<Rightarrow> webhook_service \<Rightarrow> 'w
    \<Rightarrow> (string + string) \<times> webhook_service" where
  "delivery_signature he ep rawBody timestamp svc w =
     (case get_cipher he svc of
        Inl e \<Rightarrow> (Inl (exn_message e), svc)
      | Inr (key, svc) \<Rightarrow>
          (case decrypt (he_crypto he) key (we_secret_encrypted ep) of
             Inl e \<Rightarrow> (Inl (exn_message e), svc)
           | Inr secret \<Rightarrow>
               (case rawBody of
                  None \<Rightarrow> (Inl (he_update_undefined he), svc)
                | Some body \<Rightarrow>
                    (Inr (signWebhook (he_rt he) (he_num he) secret body
                       (case timestamp of Some t \<Rightarrow> t | None \<Rightarrow> he_now he w div 1000)), svc))))"

text \<open>\<open>deliver\<close> up to the call of \<open>fetch\<close>: a result without a request, or the request it sends.\<close>

definition deliver_request :: "'w hook_env \<Rightarrow> string \<Rightarrow> json \<Rightarrow> deliver_options \<Rightarrow> webhook_service \<Rightarrow> 'w
    \<Rightarrow> (delivery_result + fetch_request) \<times> webhook_service \<times> 'w" where
  "deliver_request he endpointId payload options svc w =
     (case amap_get endpointId (ws_endpoints svc) of
        None \<Rightarrow> (Inl (refused (''Unknown webhook endpoint: '' @ endpointId)), svc, w)
      | Some ep \<Rightarrow>
          if \<not> we_is_active ep then (Inl (refused ''Endpoint is deactivated''), svc, w)
          else
            (case assertSafeWebhookUrl (he_urls he) (do_allowHosts options) (we_url ep) w of
               (Inl e, w) \<Rightarrow> (Inl (refused (''SSRF guard: '' @ se_message e)), svc, w)
             | (Inr _, w) \<Rightarrow>
                 let rawBody = json_stringify payload in
                 (case delivery_signature he ep rawBody (do_timestamp options) svc w of
                    (Inl msg, svc) \<Rightarrow> (Inl (refused (''Secret decryption failed: '' @ msg)), svc, w)
                  | (Inr sig, svc) \<Rightarrow>
                      (Inr \<lparr>fr_url = we_url ep, fr_method = ''POST'',
                         fr_headers = [(''Content-Type'', ''application/json''), (SIGNATURE_HEADER, sig)],
                         fr_body = or_empty rawBody,
                         fr_timeoutMs = (case do_timeoutMs options of Some t \<Rightarrow> t | None \<Rightarrow> DEFAULT_TIMEOUT_MS),
                         fr_redirect = ''error''\<rparr>, svc, w))))"

definition deliver :: "'w hook_env \<Rightarrow> string \<Rightarrow> json \<Rightarrow> deliver_options \<Rightarrow> webhook_service \<Rightarrow> 'w
    \<Rightarrow> delivery_result \<times> webhook_service \<times> 'w" where
  "deliver he endpointId payload options svc w =
     (case deliver_request he endpointId payload options svc w of
        (Inl r, svc, w) \<Rightarrow> (r, svc, w)
      | (Inr req, svc, w) \<Rightarrow>
          (let startedAt = he_now he w in
           case he_fetch he req w of
             (Inl msg, w) \<Rightarrow> (\<lparr>dr_ok = False, dr_status = 0, dr_durationMs = he_now he w - startedAt, dr_error = Some msg\<rparr>, svc, w)
           | (Inr resp, w) \<Rightarrow> (\<lparr>dr_ok = fp_ok resp, dr_status = fp_status resp, dr_durationMs = he_now he w - startedAt, dr_error = None\<rparr>, svc, w)))"

end
