(* ===== verification/Api_Ssrf_Thms.thy ===== *)
theory Api_Ssrf_Thms
  imports Api_Ssrf
begin

unbundle bit_operations_syntax

text \<open>
  The decision of the SSRF guard on address literals: on dotted IPv4 addresses and their \<open>::ffff:\<close> forms
  it is exactly the list of reserved blocks, and the forms of IPv4-mapped addresses it does not unwrap.
\<close>

section \<open>Ranges\<close>

lemma and_prefix_mask:
  fixes v :: int
  assumes "0 \<le> v" "v < 2 ^ n" "h \<le> n"
  shows "v AND (2 ^ n - 2 ^ h) = v div 2 ^ h * 2 ^ h"
proof -
  have "(2 ^ n - 2 ^ h :: int) = push_bit h (mask (n - h))"
    using assms(3) by (simp add: push_bit_eq_mult mask_eq_exp_minus_1 algebra_simps flip: power_add)
  then have "v AND (2 ^ n - 2 ^ h) = push_bit h (take_bit (n - h) (drop_bit h v))"
    by (intro bit_eqI) (auto simp: bit_push_bit_iff bit_take_bit_iff bit_drop_bit_eq bit_and_iff bit_mask_iff)
  also have "take_bit (n - h) (drop_bit h v) = drop_bit h v"
    using assms by (metis drop_bit_take_bit take_bit_int_eq_self)
  finally show ?thesis by (simp add: push_bit_eq_mult drop_bit_eq_div)
qed

lemma in_prefix:
  fixes v :: int
  assumes "0 \<le> v" "v < 2 ^ n" "h \<le> n"
  shows "v AND (2 ^ n - 2 ^ h) = q * 2 ^ h \<longleftrightarrow> v div 2 ^ h = q"
  using assms by (simp add: and_prefix_mask)

lemma PARSED_IPV4_value:
  "map (\<lambda>c. (pc_base c, pc_mask c)) PARSED_IPV4 =
     map (\<lambda>(q, h). (q * 2 ^ h, 2 ^ 32 - 2 ^ h))
       [(0, 24), (10, 24), (100 * 4 + 1, 22), (127, 24), (169 * 256 + 254, 16), (172 * 16 + 1, 20), (192 * 65536, 8),
        (192 * 65536 + 2, 8), (192 * 256 + 168, 16), (198 * 128 + 9, 17), (198 * 65536 + 51 * 256 + 100, 8),
        (203 * 65536 + 113, 8), (14, 28), (15, 28)]"
  by code_simp

lemma in_ranges_pairs: "in_ranges v rs \<longleftrightarrow> list_ex (\<lambda>(b, m). v AND m = b) (map (\<lambda>c. (pc_base c, pc_mask c)) rs)"
  by (simp add: in_ranges_def list_ex_iff)

definition v4_value :: "nat \<Rightarrow> nat \<Rightarrow> nat \<Rightarrow> nat \<Rightarrow> int" where
  "v4_value a b c d = ((int a * 256 + int b) * 256 + int c) * 256 + int d"

text \<open>The reserved blocks, octet by octet.\<close>

definition reserved4 :: "nat \<Rightarrow> nat \<Rightarrow> nat \<Rightarrow> nat \<Rightarrow> bool" where
  "reserved4 a b c d \<longleftrightarrow>
     a = 0 \<or> a = 10 \<or> (a = 100 \<and> 64 \<le> b \<and> b < 128) \<or> a = 127 \<or> (a = 169 \<and> b = 254) \<or> (a = 172 \<and> 16 \<le> b \<and> b < 32) \<or>
     (a = 192 \<and> b = 0 \<and> c = 0) \<or> (a = 192 \<and> b = 0 \<and> c = 2) \<or> (a = 192 \<and> b = 168) \<or> (a = 198 \<and> 18 \<le> b \<and> b < 20) \<or>
     (a = 198 \<and> b = 51 \<and> c = 100) \<or> (a = 203 \<and> b = 0 \<and> c = 113) \<or> 224 \<le> a"

lemma v4_value_div:
  assumes "b < 256" "c < 256" "d < 256"
  shows "v4_value a b c d div 2 ^ 24 = int a" "v4_value a b c d div 2 ^ 16 = int a * 256 + int b"
    "v4_value a b c d div 2 ^ 8 = int a * 65536 + int b * 256 + int c"
    "v4_value a b c d div 2 ^ 28 = int a div 16" "v4_value a b c d div 2 ^ 22 = int a * 4 + int b div 64"
    "v4_value a b c d div 2 ^ 20 = int a * 16 + int b div 16" "v4_value a b c d div 2 ^ 17 = int a * 128 + int b div 2"
  using assms unfolding v4_value_def by simp_all

lemma v4_value_bounds:
  assumes "a < 256" "b < 256" "c < 256" "d < 256"
  shows "0 \<le> v4_value a b c d" "v4_value a b c d < 2 ^ 32"
  using assms unfolding v4_value_def by simp_all

lemma prefix_list:
  fixes v :: int
  assumes "0 \<le> v" "v < 2 ^ n" "list_all (\<lambda>(q, h). h \<le> n) L"
  shows "list_ex (\<lambda>(b, m). v AND m = b) (map (\<lambda>(q, h). (q * 2 ^ h, 2 ^ n - 2 ^ h)) L) \<longleftrightarrow> list_ex (\<lambda>(q, h). v div 2 ^ h = q) L"
  using assms(3) by (induction L) (auto simp: in_prefix [OF assms(1,2)])

lemma radix2:
  fixes x y p k m :: int
  assumes "0 \<le> y" "y < m" "0 \<le> k" "k < m"
  shows "x * m + y = p * m + k \<longleftrightarrow> x = p \<and> y = k"
proof
  assume eq: "x * m + y = p * m + k"
  have "x = (x * m + y) div m" "p = (p * m + k) div m" using assms by simp_all
  with eq show "x = p \<and> y = k" by simp
qed simp

lemma radix3:
  assumes "b < 256" "c < 256" "0 \<le> q" "q < 256" "0 \<le> r" "r < 256"
  shows "int a * 65536 + int b * 256 + int c = p * 65536 + q * 256 + r \<longleftrightarrow> int a = p \<and> int b = q \<and> int c = r"
  using radix2 [of "int c" 256 r "int a * 256 + int b" "p * 256 + q"] radix2 [of "int b" 256 q "int a" p] assms
  by (simp add: algebra_simps)

lemma v4_block_eqs:
  assumes "a < 256" "b < 256" "c < 256"
  shows "int a * 4 + int b div 64 = 100 * 4 + 1 \<longleftrightarrow> a = 100 \<and> 64 \<le> b \<and> b < 128"
    "int a * 256 + int b = 169 * 256 + 254 \<longleftrightarrow> a = 169 \<and> b = 254"
    "int a * 16 + int b div 16 = 172 * 16 + 1 \<longleftrightarrow> a = 172 \<and> 16 \<le> b \<and> b < 32"
    "int a * 65536 + int b * 256 + int c = 192 * 65536 \<longleftrightarrow> a = 192 \<and> b = 0 \<and> c = 0"
    "int a * 65536 + int b * 256 + int c = 192 * 65536 + 2 \<longleftrightarrow> a = 192 \<and> b = 0 \<and> c = 2"
    "int a * 256 + int b = 192 * 256 + 168 \<longleftrightarrow> a = 192 \<and> b = 168"
    "int a * 128 + int b div 2 = 198 * 128 + 9 \<longleftrightarrow> a = 198 \<and> 18 \<le> b \<and> b < 20"
    "int a * 65536 + int b * 256 + int c = 198 * 65536 + 51 * 256 + 100 \<longleftrightarrow> a = 198 \<and> b = 51 \<and> c = 100"
    "int a * 65536 + int b * 256 + int c = 203 * 65536 + 113 \<longleftrightarrow> a = 203 \<and> b = 0 \<and> c = 113"
    "int a div 16 = 14 \<or> int a div 16 = 15 \<or> False \<longleftrightarrow> 224 \<le> a"
proof -
  have b64: "int b div 64 = 1 \<longleftrightarrow> 64 \<le> b \<and> b < 128" by linarith
  have b16: "int b div 16 = 1 \<longleftrightarrow> 16 \<le> b \<and> b < 32" by linarith
  have b2: "int b div 2 = 9 \<longleftrightarrow> 18 \<le> b \<and> b < 20" by linarith
  have lt: "int b div 64 < 4" "int b div 16 < 16" "int b div 2 < 128" using assms by simp_all
  show "int a * 4 + int b div 64 = 100 * 4 + 1 \<longleftrightarrow> a = 100 \<and> 64 \<le> b \<and> b < 128"
    using radix2 [of "int b div 64" 4 1 "int a" 100] lt b64 by simp
  show "int a * 16 + int b div 16 = 172 * 16 + 1 \<longleftrightarrow> a = 172 \<and> 16 \<le> b \<and> b < 32"
    using radix2 [of "int b div 16" 16 1 "int a" 172] lt b16 by simp
  show "int a * 128 + int b div 2 = 198 * 128 + 9 \<longleftrightarrow> a = 198 \<and> 18 \<le> b \<and> b < 20"
    using radix2 [of "int b div 2" 128 9 "int a" 198] lt b2 by simp
  show "int a * 256 + int b = 169 * 256 + 254 \<longleftrightarrow> a = 169 \<and> b = 254"
    using radix2 [of "int b" 256 254 "int a" 169] assms by simp
  show "int a * 256 + int b = 192 * 256 + 168 \<longleftrightarrow> a = 192 \<and> b = 168"
    using radix2 [of "int b" 256 168 "int a" 192] assms by simp
  show "int a * 65536 + int b * 256 + int c = 192 * 65536 \<longleftrightarrow> a = 192 \<and> b = 0 \<and> c = 0"
    using radix3 [of b c 0 0 a 192] assms by simp
  show "int a * 65536 + int b * 256 + int c = 192 * 65536 + 2 \<longleftrightarrow> a = 192 \<and> b = 0 \<and> c = 2"
    using radix3 [of b c 0 2 a 192] assms by simp
  show "int a * 65536 + int b * 256 + int c = 198 * 65536 + 51 * 256 + 100 \<longleftrightarrow> a = 198 \<and> b = 51 \<and> c = 100"
    using radix3 [of b c 51 100 a 198] assms by simp
  show "int a * 65536 + int b * 256 + int c = 203 * 65536 + 113 \<longleftrightarrow> a = 203 \<and> b = 0 \<and> c = 113"
    using radix3 [of b c 0 113 a 203] assms by simp
  show "int a div 16 = 14 \<or> int a div 16 = 15 \<or> False \<longleftrightarrow> 224 \<le> a"
  proof -
    have "int a div 16 < 16" "14 \<le> int a div 16 \<longleftrightarrow> 224 \<le> a" using assms(1) by linarith+
    then show ?thesis by auto
  qed
qed

lemma in_ranges_v4:
  assumes "a < 256" "b < 256" "c < 256" "d < 256"
  shows "in_ranges (v4_value a b c d) PARSED_IPV4 \<longleftrightarrow> reserved4 a b c d"
proof -
  have i: "int a = 0 \<longleftrightarrow> a = 0" "int a = 10 \<longleftrightarrow> a = 10" "int a = 127 \<longleftrightarrow> a = 127" by simp_all
  show ?thesis
    unfolding in_ranges_pairs PARSED_IPV4_value reserved4_def
    by (subst prefix_list [OF v4_value_bounds [OF assms]], simp,
      simp only: list_ex_Nil_iff list_ex_Cons_iff prod.case v4_value_div [OF assms(2-4)] v4_block_eqs [OF assms(1-3)] i)
qed

section \<open>Dotted literals\<close>

definition dotted :: "nat \<Rightarrow> nat \<Rightarrow> nat \<Rightarrow> nat \<Rightarrow> string" where
  "dotted a b c d = dec a @ ''.'' @ dec b @ ''.'' @ dec c @ ''.'' @ dec d"

lemma dec_no_char: "\<not> is_digit x \<Longrightarrow> x \<notin> set (dec n)"
  using dec_digits [of n] by (auto simp: list_all_iff)

lemma split_dotted: "js_split CHR ''.'' (dotted a b c d) = [dec a, dec b, dec c, dec d]"
  using dec_no_char [of "CHR ''.''"] by (simp add: dotted_def js_split_append js_split_no_sep is_digit_of_char)

lemma v4_segment_dec: "n < 256 \<Longrightarrow> v4_segment (dec n)"
proof -
  assume n: "n < 256"
  have "1 < length (dec n) \<longrightarrow> hd (dec n) \<noteq> CHR ''0''"
    using hd_dec [of n] by (cases "n = 0") (simp_all add: dec.simps [of 0])
  with n length_dec_le [of n 3] show ?thesis by (simp add: v4_segment_def dec_digits)
qed

lemma push_or:
  fixes n v :: int
  assumes "0 \<le> n" "n < 2 ^ k"
  shows "push_bit k v OR n = v * 2 ^ k + n"
proof -
  have n: "take_bit k n = n" using assms by (simp add: take_bit_int_eq_self)
  have "push_bit k v AND take_bit k n = 0"
    by (rule bit_eqI) (auto simp: bit_and_iff bit_push_bit_iff bit_take_bit_iff)
  then have "push_bit k v AND n = 0" by (simp only: n)
  then show ?thesis by (simp add: push_bit_eq_mult flip: disjunctive_add_eq_or)
qed

lemma push_or_octet: "n < 256 \<Longrightarrow> push_bit 8 v OR int n = v * 256 + int n"
  using push_or [of "int n" 8 v] by simp

lemma is_v4_dotted: "a < 256 \<Longrightarrow> b < 256 \<Longrightarrow> c < 256 \<Longrightarrow> d < 256 \<Longrightarrow> is_v4 (dotted a b c d)"
  by (simp add: is_v4_def split_dotted v4_segment_dec)

lemma ipv4_dotted:
  assumes "a < 256" "b < 256" "c < 256" "d < 256"
  shows "ipv4ToBigInt (dotted a b c d) = Inr (v4_value a b c d)"
  using assms by (simp add: ipv4ToBigInt_def split_dotted dec_digits push_or_octet v4_value_def)

lemma blocked_v4_dotted:
  assumes "a < 256" "b < 256" "c < 256" "d < 256"
  shows "blocked_v4 (dotted a b c d) \<longleftrightarrow> reserved4 a b c d"
  using assms by (simp add: blocked_v4_def ipv4_dotted in_ranges_v4)

section \<open>Mapped literals\<close>

lemma split_dcolon_no_colon: "CHR '':'' \<notin> set s \<Longrightarrow> split_dcolon s = [s]"
  by (induction s rule: split_dcolon.induct) auto

lemma split_dcolon_colon:
  assumes "CHR '':'' \<notin> set p" "t \<noteq> []" "hd t \<noteq> CHR '':''" "split_dcolon t = [w]"
  shows "split_dcolon (p @ CHR '':'' # t) = [p @ CHR '':'' # w]"
  using assms(1)
proof (induction p)
  case Nil
  from assms(2,3) obtain x t' where "t = x # t'" "x \<noteq> CHR '':''" by (cases t) auto
  with assms(4) show ?case by simp
next
  case (Cons c p)
  then show ?case by (cases p) auto
qed

lemma split_mapped:
  "CHR '':'' \<notin> set t \<Longrightarrow> t \<noteq> [] \<Longrightarrow> split_dcolon (''::ffff:'' @ t) = [[], ''ffff:'' @ t]"
  using split_dcolon_colon [of "''ffff''" t t] split_dcolon_no_colon [of t] by (cases t) auto

lemma js_lower_digit: "is_digit c \<Longrightarrow> js_lower_char c = c"
  by (simp add: is_digit_of_char js_lower_char_def)

lemma js_lower_dec: "js_lower (dec n) = dec n"
  using dec_digits [of n] by (induction "dec n") (auto simp: js_lower_def list_all_iff js_lower_digit map_idI)

lemma js_lower_append: "js_lower (s @ t) = js_lower s @ js_lower t"
  by (simp add: js_lower_def)

lemma js_lower_dotted: "js_lower (''::ffff:'' @ dotted a b c d) = ''::ffff:'' @ dotted a b c d"
proof -
  have "js_lower ''::ffff:'' = ''::ffff:''" "js_lower ''.'' = ''.''" by code_simp+
  then show ?thesis by (simp only: dotted_def js_lower_append js_lower_dec)
qed

lemma dotted_chars: "x \<in> set (dotted a b c d) \<Longrightarrow> is_digit x \<or> x = CHR ''.''"
  using dec_digits by (auto simp: dotted_def list_all_iff)

lemma dotted_mapped_dotted:
  assumes "a < 256" "b < 256" "c < 256" "d < 256"
  shows "dotted_mapped (''::ffff:'' @ dotted a b c d) = Some (dotted a b c d)"
proof -
  have len: "Suc 0 \<le> length (dec n)" for n by (cases "dec n") auto
  have "length (dec a) \<le> 3" "length (dec b) \<le> 3" "length (dec c) \<le> 3" "length (dec d) \<le> 3"
    using assms length_dec_le [of _ 3] by simp_all
  with len show ?thesis by (simp add: dotted_mapped_def split_dotted dec_digits starts_with_def)
qed

lemma hex_group_ffff: "hex_group ''ffff''"
  by code_simp

lemma dot_not_hex: "CHR ''.'' \<in> set s \<Longrightarrow> \<not> hex_group s"
proof -
  have "\<not> is_hex CHR ''.''" by code_simp
  then show "CHR ''.'' \<in> set s \<Longrightarrow> \<not> hex_group s" by (auto simp: hex_group_def list_all_iff)
qed

lemma not_v4_mapped: "\<not> is_v4 (''::ffff:'' @ t)"
proof -
  obtain w ws where "js_split CHR ''.'' (''::ffff:'' @ t) = (CHR '':'' # w) # ws"
    by (cases "js_split CHR ''.'' (''ffff:'' @ t)"; cases "js_split CHR ''.'' ('':ffff:'' @ t)") auto
  then show ?thesis by (auto simp: is_v4_def v4_segment_def is_digit_of_char)
qed

lemma is_v6_mapped:
  assumes "CHR ''%'' \<notin> set t" "split_dcolon (''::ffff:'' @ t) = [[], ''ffff:'' @ t]"
    and "v6_part True (''ffff:'' @ t) = Some 3"
  shows "net_isIP (''::ffff:'' @ t) = 6"
proof -
  have tw: "takeWhile (\<lambda>c. c \<noteq> CHR ''%'') (''::ffff:'' @ t) = ''::ffff:'' @ t"
    "dropWhile (\<lambda>c. c \<noteq> CHR ''%'') (''::ffff:'' @ t) = []"
    using assms(1) by (auto simp: takeWhile_eq_all_conv dropWhile_eq_Nil_conv)
  have "v6_part False [] = Some 0" by (simp add: v6_part_def v6_groups_def)
  then have "is_v6 (''::ffff:'' @ t)" unfolding is_v6_def Let_def tw assms(2) list.case assms(3) by simp
  then show ?thesis using not_v4_mapped [of t] unfolding net_isIP_def by simp
qed

lemma split_ffff: "js_split CHR '':'' (''ffff:'' @ t) = ''ffff'' # js_split CHR '':'' t"
  using js_split_append [of "CHR '':''" "''ffff''" t] by simp

lemma net_isIP_dotted_mapped:
  assumes "a < 256" "b < 256" "c < 256" "d < 256"
  shows "net_isIP (''::ffff:'' @ dotted a b c d) = 6"
proof (rule is_v6_mapped)
  have "\<not> is_digit CHR '':''" "\<not> is_digit CHR ''%''" by code_simp+
  then have ch: "CHR '':'' \<notin> set (dotted a b c d)" "CHR ''%'' \<notin> set (dotted a b c d)" "dotted a b c d \<noteq> []"
    by (simp_all add: dotted_def dec_no_char)
  show "CHR ''%'' \<notin> set (dotted a b c d)" by (rule ch)
  show "split_dcolon (''::ffff:'' @ dotted a b c d) = [[], ''ffff:'' @ dotted a b c d]" by (rule split_mapped [OF ch(1,3)])
  have "\<not> hex_group (dotted a b c d)" by (rule dot_not_hex) (simp add: dotted_def)
  then show "v6_part True (''ffff:'' @ dotted a b c d) = Some 3"
    unfolding v6_part_def v6_groups_def split_ffff js_split_no_sep [OF ch(1)]
    by (simp add: hex_group_ffff is_v4_dotted assms)
qed

lemma blocked_dotted:
  assumes "a < 256" "b < 256" "c < 256" "d < 256"
  shows "isBlockedAddress (dotted a b c d) \<longleftrightarrow> reserved4 a b c d"
    and "isBlockedAddress (''::ffff:'' @ dotted a b c d) \<longleftrightarrow> reserved4 a b c d"
proof -
  have v4: "net_isIP (dotted a b c d) = 4" by (simp add: net_isIP_def is_v4_dotted assms)
  then show "isBlockedAddress (dotted a b c d) \<longleftrightarrow> reserved4 a b c d"
    by (simp add: isBlockedAddress_def blocked_v4_dotted assms)
  show "isBlockedAddress (''::ffff:'' @ dotted a b c d) \<longleftrightarrow> reserved4 a b c d"
    unfolding isBlockedAddress_def Let_def net_isIP_dotted_mapped [OF assms] js_lower_dotted dotted_mapped_dotted [OF assms]
    by (simp add: blocked_unwrapped_def v4 blocked_v4_dotted assms)
qed

section \<open>Mapped literals in hexadecimal\<close>

lemma is_hex_chars: "is_hex c \<Longrightarrow> c \<noteq> CHR '':'' \<and> c \<noteq> CHR ''%'' \<and> c \<noteq> CHR ''.''"
  by (auto simp: is_hex_def)

lemma js_lower_hex: "is_hex c \<Longrightarrow> is_hex (js_lower_char c) \<and> hex_value (js_lower_char c) = hex_value c"
  by (auto simp: is_hex_def hex_value_def js_lower_char_def Let_def of_char_of split: if_splits)

lemma hex_value_lt: "is_hex c \<Longrightarrow> hex_value c < 16"
  by (auto simp: is_hex_def hex_value_def Let_def)

lemma hex_group_lower: "hex_group s \<Longrightarrow> hex_group (js_lower s)"
  by (auto simp: hex_group_def js_lower_def list_all_iff js_lower_hex)

lemma hex_number_snoc: "hex_number (s @ [c]) = 16 * hex_number s + int (hex_value c)"
  by (simp add: hex_number_def)

lemma hex_number_lower: "list_all is_hex s \<Longrightarrow> hex_number (js_lower s) = hex_number s"
  by (induction s rule: rev_induct) (simp_all add: js_lower_append hex_number_snoc js_lower_hex js_lower_def [of "[_]"] js_lower_def [of "[]"])

lemma hex_number_bounds: "list_all is_hex s \<Longrightarrow> 0 \<le> hex_number s \<and> hex_number s < 16 ^ length s"
proof (induction s rule: rev_induct)
  case Nil
  then show ?case by (simp add: hex_number_def)
next
  case (snoc c s)
  then have "int (hex_value c) < 16" using hex_value_lt [of c] by simp
  with snoc show ?case by (simp add: hex_number_snoc)
qed

lemma hex_group_bounds: "hex_group s \<Longrightarrow> 0 \<le> hex_number s \<and> hex_number s < 65536"
proof -
  assume "hex_group s"
  then have "list_all is_hex s" "length s \<le> 4" by (simp_all add: hex_group_def)
  moreover from this have "(16 :: int) ^ length s \<le> 16 ^ 4" by (intro power_increasing) simp_all
  ultimately show ?thesis using hex_number_bounds [of s] by simp
qed

lemma octet_of:
  fixes n :: nat
  assumes "n < 65536"
  shows "n div 256 < 256" "n mod 256 < 256"
  using assms by (simp_all add: div_less_iff_less_mult)

text \<open>The two hextets of a mapped address in either case, as the four octets they stand for.\<close>

definition hi_octet :: "string \<Rightarrow> nat" where
  "hi_octet h = nat (hex_number h) div 256"

definition lo_octet :: "string \<Rightarrow> nat" where
  "lo_octet h = nat (hex_number h) mod 256"

lemma octet_bounds: "hex_group h \<Longrightarrow> hi_octet h < 256 \<and> lo_octet h < 256"
proof -
  assume "hex_group h"
  then have "nat (hex_number h) < 65536" using hex_group_bounds [of h] by linarith
  from octet_of [OF this] show ?thesis by (simp only: hi_octet_def lo_octet_def)
qed

lemma hex_group_no_sep: "hex_group h \<Longrightarrow> CHR '':'' \<notin> set h \<and> CHR ''%'' \<notin> set h \<and> CHR ''.'' \<notin> set h \<and> h \<noteq> []"
  using is_hex_chars by (fastforce simp: hex_group_def list_all_iff)

lemma net_isIP_hex_mapped:
  assumes "hex_group h" "hex_group l"
  shows "net_isIP (''::ffff:'' @ h @ '':'' @ l) = 6"
proof (rule is_v6_mapped)
  note h = hex_group_no_sep [OF assms(1)] and l = hex_group_no_sep [OF assms(2)]
  have hd: "hd h \<noteq> CHR '':''" "hd l \<noteq> CHR '':''" using h l hd_in_set by metis+
  show "CHR ''%'' \<notin> set (h @ '':'' @ l)" using h l by simp
  have A: "split_dcolon (h @ CHR '':'' # l) = [h @ CHR '':'' # l]"
    using h l hd by (intro split_dcolon_colon split_dcolon_no_colon) auto
  have "split_dcolon (''ffff'' @ CHR '':'' # h @ CHR '':'' # l) = [''ffff'' @ CHR '':'' # h @ CHR '':'' # l]"
    by (rule split_dcolon_colon) (use h hd A in \<open>simp_all add: hd_append\<close>)
  then show "split_dcolon (''::ffff:'' @ h @ '':'' @ l) = [[], ''ffff:'' @ h @ '':'' @ l]" by simp
  have "js_split CHR '':'' (h @ '':'' @ l) = [h, l]" using h l by (simp add: js_split_append js_split_no_sep)
  then show "v6_part True (''ffff:'' @ h @ '':'' @ l) = Some 3"
    unfolding v6_part_def v6_groups_def split_ffff by (simp add: hex_group_ffff assms)
qed

lemma js_lower_hex_mapped: "js_lower (''::ffff:'' @ h @ '':'' @ l) = ''::ffff:'' @ js_lower h @ '':'' @ js_lower l"
proof -
  have "js_lower ''::ffff:'' = ''::ffff:''" "js_lower '':'' = '':''" by code_simp+
  then show ?thesis by (simp only: js_lower_append)
qed

lemma hex_mapped_hex:
  assumes "hex_group h" "hex_group l"
  shows "dotted_mapped (''::ffff:'' @ h @ '':'' @ l) = None"
    and "hex_mapped (''::ffff:'' @ h @ '':'' @ l) = Some (dotted (hi_octet h) (lo_octet h) (hi_octet l) (lo_octet l))"
proof -
  note h = hex_group_no_sep [OF assms(1)] and l = hex_group_no_sep [OF assms(2)]
  have "js_split CHR ''.'' (h @ '':'' @ l) = [h @ '':'' @ l]" using h l by (simp add: js_split_no_sep)
  then show "dotted_mapped (''::ffff:'' @ h @ '':'' @ l) = None" by (simp add: dotted_mapped_def starts_with_def)
  have "js_split CHR '':'' (h @ '':'' @ l) = [h, l]" using h l by (simp add: js_split_append js_split_no_sep)
  moreover have "nat (hex_number h) div 256 mod 256 = hi_octet h" "nat (hex_number l) div 256 mod 256 = hi_octet l"
    using octet_bounds assms by (simp_all add: hi_octet_def)
  ultimately show "hex_mapped (''::ffff:'' @ h @ '':'' @ l) = Some (dotted (hi_octet h) (lo_octet h) (hi_octet l) (lo_octet l))"
    by (simp add: hex_mapped_def starts_with_def assms dotted_def lo_octet_def)
qed

lemma octets_lower: "hex_group h \<Longrightarrow> hi_octet (js_lower h) = hi_octet h \<and> lo_octet (js_lower h) = lo_octet h"
  by (simp add: hi_octet_def lo_octet_def hex_number_lower hex_group_def)

lemma blocked_hex:
  assumes "hex_group h" "hex_group l"
  shows "isBlockedAddress (''::ffff:'' @ h @ '':'' @ l) \<longleftrightarrow> reserved4 (hi_octet h) (lo_octet h) (hi_octet l) (lo_octet l)"
proof -
  note g = hex_group_lower [OF assms(1)] hex_group_lower [OF assms(2)]
  have o: "hi_octet h < 256" "lo_octet h < 256" "hi_octet l < 256" "lo_octet l < 256" using octet_bounds assms by auto
  have "net_isIP (dotted (hi_octet h) (lo_octet h) (hi_octet l) (lo_octet l)) = 4" by (simp add: net_isIP_def is_v4_dotted o)
  then show ?thesis
    unfolding isBlockedAddress_def Let_def net_isIP_hex_mapped [OF assms] js_lower_hex_mapped hex_mapped_hex [OF g]
    by (simp add: octets_lower assms blocked_unwrapped_def blocked_v4_dotted o)
qed

section \<open>The decision on IPv4 addresses\<close>

text \<open>
  C22. On every dotted IPv4 literal, on its \<open>::ffff:a.b.c.d\<close> form and on every \<open>::ffff:hhhh:hhhh\<close> form (hextets in
  either case), \<open>isBlockedAddress\<close> answers exactly whether the four octets lie in one of the reserved blocks
  (this network, private, shared, loopback, link-local with the metadata address, documentation, benchmarking,
  multicast and reserved): no address of those blocks passes and no other address is refused.
\<close>

theorem ssrf_ipv4_exact:
  assumes "a < 256" "b < 256" "c < 256" "d < 256" "hex_group h" "hex_group l"
  shows "(isBlockedAddress (dotted a b c d) \<longleftrightarrow> reserved4 a b c d) \<and>
    (isBlockedAddress (''::ffff:'' @ dotted a b c d) \<longleftrightarrow> reserved4 a b c d) \<and>
    (isBlockedAddress (''::ffff:'' @ h @ '':'' @ l) \<longleftrightarrow> reserved4 (hi_octet h) (lo_octet h) (hi_octet l) (lo_octet l))"
  using blocked_dotted [OF assms(1-4)] blocked_hex [OF assms(5,6)] by simp

theorem ssrf_ipv4_exact_witness:
  "isBlockedAddress (dotted 169 254 169 254) \<and> isBlockedAddress (''::ffff:'' @ ''A9fe'' @ '':'' @ ''a9FE'')"
proof -
  have r: "reserved4 169 254 169 254" by (simp add: reserved4_def)
  have g: "hex_group ''A9fe''" "hex_group ''a9FE''" by code_simp+
  have o: "hi_octet ''A9fe'' = 169" "lo_octet ''A9fe'' = 254" "hi_octet ''a9FE'' = 169" "lo_octet ''a9FE'' = 254"
    by (simp_all add: hi_octet_def lo_octet_def hex_number_def hex_value_def Let_def)
  have "(169 :: nat) < 256" "(254 :: nat) < 256" by simp_all
  from ssrf_ipv4_exact [OF this this g, unfolded o] r show ?thesis by blast
qed

lemma PARSED_IPV6_value: "map (\<lambda>c. (pc_base c, pc_mask c)) PARSED_IPV6 =
     map (\<lambda>(q, h). (q * 2 ^ h, 2 ^ 128 - 2 ^ h))
       [(0, 0), (1, 0), (0, 32), (0x64ff9b * 2 ^ 64, 32), (2 ^ 56, 64), (0x20010db8, 96), (126, 121), (1018, 118), (255, 120)]"
  by code_simp

text \<open>The prefix \<open>0:0:0:0:0:ffff:\<close>.\<close>

definition long_mapped :: "string \<Rightarrow> string \<Rightarrow> string" where
  "long_mapped h l = ''0:0:0:0:0:ffff:'' @ h @ '':'' @ l"

lemma split_long_mapped:
  assumes "hex_group h" "hex_group l"
  shows "js_split CHR '':'' (long_mapped h l) = [''0'', ''0'', ''0'', ''0'', ''0'', ''ffff'', h, l]"
    and "js_split CHR ''.'' (long_mapped h l) = [long_mapped h l]"
    and "split_dcolon (long_mapped h l) = [long_mapped h l]"
    and "takeWhile (\<lambda>c. c \<noteq> CHR ''%'') (long_mapped h l) = long_mapped h l"
    and "dropWhile (\<lambda>c. c \<noteq> CHR ''%'') (long_mapped h l) = []"
    and "CHR ''.'' \<notin> set (long_mapped h l)" "long_mapped h l \<noteq> []"
proof -
  note h = hex_group_no_sep [OF assms(1)] and l = hex_group_no_sep [OF assms(2)]
  have hd: "hd h \<noteq> CHR '':''" "hd l \<noteq> CHR '':''" using h l hd_in_set by metis+
  show "js_split CHR '':'' (long_mapped h l) = [''0'', ''0'', ''0'', ''0'', ''0'', ''ffff'', h, l]"
    using h l by (simp add: long_mapped_def js_split_append js_split_no_sep)
  show "js_split CHR ''.'' (long_mapped h l) = [long_mapped h l]" using h l by (intro js_split_no_sep) (simp add: long_mapped_def)
  have A: "split_dcolon (h @ CHR '':'' # l) = [h @ CHR '':'' # l]"
    using h l hd by (intro split_dcolon_colon split_dcolon_no_colon) auto
  have B: "split_dcolon (''ffff'' @ CHR '':'' # h @ CHR '':'' # l) = [''ffff'' @ CHR '':'' # h @ CHR '':'' # l]"
    by (rule split_dcolon_colon) (use h hd A in \<open>simp_all add: hd_append\<close>)
  then show "split_dcolon (long_mapped h l) = [long_mapped h l]" by (simp add: long_mapped_def)
  show "takeWhile (\<lambda>c. c \<noteq> CHR ''%'') (long_mapped h l) = long_mapped h l"
    and "dropWhile (\<lambda>c. c \<noteq> CHR ''%'') (long_mapped h l) = []"
    using h l by (auto simp: takeWhile_eq_all_conv dropWhile_eq_Nil_conv long_mapped_def)
  show "CHR ''.'' \<notin> set (long_mapped h l)" "long_mapped h l \<noteq> []" using h l by (simp_all add: long_mapped_def)
qed

lemma hex_group_0: "hex_group ''0''"
  by code_simp

lemma hex_number_groups: "hex_number ''0'' = 0" "hex_number ''ffff'' = 65535"
  by (simp_all add: hex_number_def hex_value_def Let_def)

lemma hextets_step: "hex_group g \<Longrightarrow> hextets ip v (g # gs) = hextets ip (v * 65536 + hex_number g) gs"
  using push_or [of "hex_number g" 16 v] hex_group_bounds [of g] by simp

lemma long_mapped_literal:
  assumes "hex_group h" "hex_group l"
  shows "net_isIP (long_mapped h l) = 6"
    and "ipv6ToBigInt (long_mapped h l) = Inr ((65535 * 65536 + hex_number h) * 65536 + hex_number l)"
proof -
  note sp = split_long_mapped [OF assms]
  have "v6_part True (long_mapped h l) = Some 8"
    by (simp add: v6_part_def v6_groups_def sp assms hex_group_0 hex_group_ffff)
  then show "net_isIP (long_mapped h l) = 6"
    by (simp add: net_isIP_def is_v4_def is_v6_def sp)
  have "v4_tail (long_mapped h l) = Inr (long_mapped h l, [])" by (simp add: v4_tail_def sp)
  then show "ipv6ToBigInt (long_mapped h l) = Inr ((65535 * 65536 + hex_number h) * 65536 + hex_number l)"
    unfolding ipv6ToBigInt_def
    by (simp add: sp v6_groups_def hextets_step assms hex_group_0 hex_group_ffff hex_number_groups del: hextets.simps(2))
qed

lemma js_lower_long: "js_lower (long_mapped h l) = long_mapped (js_lower h) (js_lower l)"
proof -
  have "js_lower ''0:0:0:0:0:ffff:'' = ''0:0:0:0:0:ffff:''" "js_lower '':'' = '':''" by code_simp+
  then show ?thesis by (simp only: long_mapped_def js_lower_append)
qed

lemma long_not_unwrapped: "dotted_mapped (long_mapped h l) = None" "hex_mapped (long_mapped h l) = None"
  by (simp_all add: dotted_mapped_def hex_mapped_def starts_with_def long_mapped_def)

lemma mapped_range_unblocked:
  assumes "0xffff00000000 \<le> v" "v < 0x1000000000000"
  shows "\<not> in_ranges v PARSED_IPV6"
proof -
  have b: "0 \<le> v" "v < 2 ^ 128" using assms by simp_all
  have d: "v div 2 ^ 0 = v" "v div 2 ^ 32 = 0xffff" "v div 2 ^ 64 = 0" "v div 2 ^ 96 = 0" "v div 2 ^ 118 = 0" "v div 2 ^ 120 = 0" "v div 2 ^ 121 = 0"
    using assms by (simp_all add: div_pos_pos_trivial)
  show ?thesis unfolding in_ranges_pairs PARSED_IPV6_value
    by (subst prefix_list [OF b], simp, simp only: list_ex_Nil_iff list_ex_Cons_iff prod.case d) (use assms in simp)
qed

text \<open>
  The mapped forms with the zero groups written out, which \<open>net.isIP\<close> accepts too, are compared with the IPv6
  ranges only, and those do not contain \<open>::ffff:0:0/96\<close>: every IPv4 address passes in that form, loopback included.
\<close>

theorem ssrf_long_mapped_passes:
  assumes "hex_group h" "hex_group l"
  shows "net_isIP (long_mapped h l) = 6 \<and> \<not> isBlockedAddress (long_mapped h l)"
proof -
  let ?v = "(65535 * 65536 + hex_number h) * 65536 + hex_number l"
  have "0xffff00000000 \<le> ?v" "?v < 0x1000000000000" using hex_group_bounds [OF assms(1)] hex_group_bounds [OF assms(2)] by auto
  from mapped_range_unblocked [OF this] show ?thesis
    unfolding isBlockedAddress_def Let_def long_mapped_literal [OF assms] js_lower_long long_not_unwrapped by simp
qed

theorem ssrf_long_mapped_passes_witness:
  "\<not> isBlockedAddress (long_mapped ''7f00'' ''1'') \<and> isBlockedAddress (''::ffff:'' @ dotted 127 0 0 1)"
proof -
  have g: "hex_group ''7f00''" "hex_group ''1''" by code_simp+
  show ?thesis using ssrf_long_mapped_passes [OF g] blocked_dotted(2) [of 127 0 0 1] by (simp add: reserved4_def)
qed

end
