(* ===== verification/Api_Webhooks_Props.thy ===== *)
theory Api_Webhooks_Props
  imports Api_Webhooks Api_Ssrf_Thms
begin

text \<open>
  What the webhook component guarantees: the header the server signs is the header the SDK accepts, a valid header
  fixes its time and its body, secrets survive encryption at rest, and every request the service sends goes to a URL
  the guard accepted in the same call and verifies at the merchant under the registered secret.
\<close>

section \<open>Reading a signed header\<close>

definition hmac_hex :: "js_rt \<Rightarrow> bool" where
  "hmac_hex rt \<longleftrightarrow> (\<forall>k m. hmac rt k m \<noteq> [] \<and> list_all is_hex_lower (hmac rt k m))"

lemma is_hex_lower_props: "is_hex_lower c \<Longrightarrow> c \<noteq> CHR '','' \<and> c \<noteq> CHR ''='' \<and> \<not> js_space c \<and> js_lower_char c = c"
  by (auto simp: is_hex_lower_def is_digit_of_char js_space_def js_lower_char_def less_eq_char_def Let_def)

lemma is_digit_hex: "is_digit c \<Longrightarrow> is_hex_lower c"
  by (simp add: is_hex_lower_def)

lemma hex_text:
  assumes "list_all is_hex_lower s"
  shows "CHR '','' \<notin> set s" "CHR ''='' \<notin> set s" "js_trim s = s" "js_lower s = s"
proof -
  have all: "\<forall>c\<in>set s. c \<noteq> CHR '','' \<and> c \<noteq> CHR ''='' \<and> \<not> js_space c \<and> js_lower_char c = c"
    using assms is_hex_lower_props by (simp add: list_all_iff)
  then show "CHR '','' \<notin> set s" "CHR ''='' \<notin> set s" by blast+
  from all show "js_trim s = s" "js_lower s = s" by (simp_all add: js_trim_id list_all_iff js_lower_def map_idI)
qed

lemma dec_int_hex: "0 < n \<Longrightarrow> list_all is_hex_lower (dec_int n)"
  using list_all_dec_int [of n] by (auto simp: list_all_iff is_digit_hex)

lemma split_header:
  assumes "list_all is_hex_lower ts" "list_all is_hex_lower sig"
  shows "js_split CHR '','' (''t='' @ ts @ '',v1='' @ sig) = [''t='' @ ts, ''v1='' @ sig]"
    and "js_split CHR ''='' (''t='' @ ts) = [''t'', ts]"
    and "js_split CHR ''='' (''v1='' @ sig) = [''v1'', sig]"
  using hex_text [OF assms(1)] hex_text [OF assms(2)] js_split_append [of "CHR '',''" "''t='' @ ts"]
  by (simp_all add: js_split_no_sep)

lemma trim_keys: "js_trim ''t'' = ''t''" "js_trim ''v1'' = ''v1''"
  by (simp_all add: js_trim_id js_space_def)

lemma version_key_v1: "version_key ''v1''"
  by (simp add: version_key_def is_digit_of_char)

lemma parse_signed:
  assumes "list_all is_hex_lower ts" "list_all is_hex_lower sig" "rd ts = Some n"
  shows "parse_header rd (''t='' @ ts @ '',v1='' @ sig) = Some \<lparr>ps_timestamp = Some n, ps_text = ts, ps_versions = [(''v1'', sig)]\<rparr>"
proof -
  have "header_part rd (''t='' @ ts) p = Some (p\<lparr>ps_timestamp := Some n, ps_text := ts\<rparr>)" for p
    unfolding header_part_def split_header [OF assms(1,2)] by (simp add: trim_keys hex_text [OF assms(1)] assms(3))
  moreover have "header_part rd (''v1='' @ sig) p = Some (p\<lparr>ps_versions := amap_set ''v1'' sig (ps_versions p)\<rparr>)" for p
    unfolding header_part_def split_header [OF assms(1,2)] by (simp add: trim_keys hex_text [OF assms(2)] version_key_v1)
  ultimately show ?thesis
    unfolding parse_header_def split_header [OF assms(1,2)] by simp
qed

lemma constantTimeEqual_refl: "constantTimeEqual a a = Inr True"
  by (simp add: constantTimeEqual_def)

lemma constant_time_True: "constantTimeEqual a b = Inr True \<longleftrightarrow> a = b"
  by (auto simp: constantTimeEqual_def)

lemma sdk_time_dec: "0 < n \<Longrightarrow> n < 2 ^ 53 \<Longrightarrow> sdk_time (dec_int n) = Some n"
proof -
  assume n: "0 < n" "n < 2 ^ 53"
  then have "dec_int n = dec (nat n)" by (simp add: dec_int_def)
  moreover have "nat n < 2 ^ 53" using n by (simp add: nat_less_iff)
  ultimately show ?thesis using n by (simp add: sdk_time_def dec_digits)
qed

lemma signed_text:
  assumes "num_laws nm" "0 < ts" "ts < 2 ^ 53"
  shows "signWebhook rt nm secret body ts = ''t='' @ dec_int ts @ '',v1='' @ hmac rt secret (dec_int ts @ ''.'' @ body)"
  using assms by (simp add: signWebhook_def num_laws_def computeSignature_def SIGNATURE_VERSION_def Let_def)

lemma signed_accepted:
  assumes "num_laws nm" "hmac_hex rt" "0 < ts" "ts < 2 ^ 53" "js_trim secret \<noteq> []"
  shows "verifyWebhook rt secret body (Some (signWebhook rt nm secret body ts)) tol now =
      Inr (if \<bar>now - ts\<bar> \<le> tol then None else Some Timestamp_out_of_tolerance)
    \<and> verifyWebhookSignature rt nm secret body (Some (signWebhook rt nm secret body ts)) tol now =
      Inr (if \<bar>now - ts\<bar> \<le> tol then None else Some Timestamp_out_of_tolerance)"
proof -
  let ?sig = "hmac rt secret (dec_int ts @ ''.'' @ body)"
  have h: "list_all is_hex_lower ?sig" "?sig \<noteq> []" using assms(2) by (simp_all add: hmac_hex_def)
  have n: "toNumber nm (dec_int ts) = Some ts" "numText nm ts = dec_int ts" using assms(1,3,4) by (simp_all add: num_laws_def)
  then have srv: "server_time nm (dec_int ts) = Some ts" using assms(3) by (simp add: server_time_def)
  note p = parse_signed [OF dec_int_hex [OF assms(3)] h(1)]
  define H where "H = signWebhook rt nm secret body ts"
  have H: "H \<noteq> []" by (simp add: H_def signWebhook_def Let_def)
  have "sdk_parseSignatureHeader H = Some \<lparr>ps_timestamp = Some ts, ps_text = dec_int ts, ps_versions = [(''v1'', ?sig)]\<rparr>"
    "parseSignatureHeader nm H = Some \<lparr>ps_timestamp = Some ts, ps_text = dec_int ts, ps_versions = [(''v1'', ?sig)]\<rparr>"
    unfolding sdk_parseSignatureHeader_def parseSignatureHeader_def H_def signed_text [OF assms(1,3,4)]
    using p [of sdk_time, OF sdk_time_dec [OF assms(3,4)]] p [of "server_time nm", OF srv] by simp_all
  with assms(5) h n H show ?thesis
    unfolding H_def [symmetric] verifyWebhook_def verifyWebhookSignature_def
    by (simp add: amap_get_def SIGNATURE_VERSION_def computeWebhookSignature_def computeSignature_def hex_text constantTimeEqual_refl Let_def)
qed

text \<open>
  C23. The two halves of the signature scheme agree: a header the server signs at time \<open>ts\<close> is accepted by the merchant
  SDK, and by the server's own verification, for the same secret and body exactly while the receiver's clock is
  within the tolerance of \<open>ts\<close>, and is refused as out of tolerance otherwise.
\<close>

theorem webhook_signature_roundtrip:
  assumes "num_laws nm" "hmac_hex rt" "0 < ts" "ts < 2 ^ 53" "js_trim secret \<noteq> []"
  shows "verifyWebhook rt secret body (Some (signWebhook rt nm secret body ts)) tol now =
      Inr (if \<bar>now - ts\<bar> \<le> tol then None else Some Timestamp_out_of_tolerance)
    \<and> verifyWebhookSignature rt nm secret body (Some (signWebhook rt nm secret body ts)) tol now =
      Inr (if \<bar>now - ts\<bar> \<le> tol then None else Some Timestamp_out_of_tolerance)"
  using signed_accepted [OF assms] .

definition nm0 :: js_num where
  "nm0 = \<lparr>toNumber = (\<lambda>s. if s \<noteq> [] \<and> list_all is_digit s then Some (int (digits_val s)) else None), numText = dec_int\<rparr>"

text \<open>A toy digest of three hexadecimal characters per character of the key and the message.\<close>

definition rt2 :: js_rt where
  "rt2 = rt0\<lparr>hmac := (\<lambda>k m. CHR ''0'' # to_hex (map (\<lambda>c. of_nat (of_char c)) (k @ m)))\<rparr>"

lemma nm0_laws: "num_laws nm0"
  by (simp add: num_laws_def nm0_def dec_digits dec_int_def)

lemma rt2_hex: "hmac_hex rt2"
  by (simp add: hmac_hex_def rt2_def to_hex_lower is_digit_hex is_digit_of_char)

theorem webhook_signature_roundtrip_witness:
  "verifyWebhook rt2 ''k'' ''{}'' (Some (signWebhook rt2 nm0 ''k'' ''{}'' 1000)) 300 1300 = Inr None
   \<and> verifyWebhook rt2 ''k'' ''{}'' (Some (signWebhook rt2 nm0 ''k'' ''{}'' 1000)) 300 1301 = Inr (Some Timestamp_out_of_tolerance)"
proof -
  have "js_trim ''k'' \<noteq> []" by (simp add: js_trim_id js_space_def)
  then show ?thesis
    using webhook_signature_roundtrip [OF nm0_laws rt2_hex, of 1000 "''k''" "''{}''" 300 1300]
      webhook_signature_roundtrip [OF nm0_laws rt2_hex, of 1000 "''k''" "''{}''" 300 1301] by simp
qed

section \<open>Binding\<close>

lemma verifyWebhook_valid:
  assumes "verifyWebhook rt secret body h tol now = Inr None"
  shows "\<exists>hd p sig. h = Some hd \<and> sdk_parseSignatureHeader hd = Some p \<and> \<bar>now - the (ps_timestamp p)\<bar> \<le> tol
    \<and> amap_get ''v1'' (ps_versions p) = Some sig \<and> js_lower sig = hmac rt secret (ps_text p @ ''.'' @ body)"
  using assms
  by (auto simp: verifyWebhook_def SIGNATURE_VERSION_def computeWebhookSignature_def result_simps constant_time_True
      split: if_splits option.splits)

text \<open>
  A signature header binds time and body: if the SDK accepts one header for two bodies, at whatever two moments,
  the bodies are equal (where the HMAC does not collide under the secret), and the two moments are at most twice the
  tolerance apart, so a captured header cannot be replayed later.
\<close>

theorem webhook_signature_binds:
  assumes "verifyWebhook rt secret body h tol now = Inr None"
    and "verifyWebhook rt secret body' h tol now' = Inr None"
    and no_collision: "\<And>m m'. hmac rt secret m = hmac rt secret m' \<Longrightarrow> m = m'"
  shows "body = body' \<and> \<bar>now - now'\<bar> \<le> 2 * tol"
proof -
  obtain hd p sig where a: "h = Some hd" "sdk_parseSignatureHeader hd = Some p" "\<bar>now - the (ps_timestamp p)\<bar> \<le> tol"
    "amap_get ''v1'' (ps_versions p) = Some sig" "js_lower sig = hmac rt secret (ps_text p @ ''.'' @ body)"
    using verifyWebhook_valid [OF assms(1)] by blast
  moreover have "\<bar>now' - the (ps_timestamp p)\<bar> \<le> tol" "js_lower sig = hmac rt secret (ps_text p @ ''.'' @ body')"
    using verifyWebhook_valid [OF assms(2)] a by auto
  ultimately show ?thesis using no_collision by fastforce
qed

lemma char_byte_inj: "inj (\<lambda>c :: char. of_nat (of_char c) :: 8 word)"
proof (rule injI)
  fix c d :: char
  assume "(of_nat (of_char c) :: 8 word) = of_nat (of_char d)"
  then have "unat (of_nat (of_char c) :: 8 word) = unat (of_nat (of_char d) :: 8 word)" by simp
  moreover have "(of_char c :: nat) < 256" "(of_char d :: nat) < 256" by simp_all
  ultimately have "(of_char c :: nat) = of_char d" by (simp add: unat_of_nat)
  then show "c = d" by simp
qed

lemma rt2_no_collision: "hmac rt2 k m = hmac rt2 k m' \<Longrightarrow> m = m'"
  by (simp add: rt2_def to_hex_inj inj_map_eq_map [OF char_byte_inj])

theorem webhook_signature_binds_witness:
  "verifyWebhook rt2 ''k'' ''{}'' (Some (signWebhook rt2 nm0 ''k'' ''{}'' 1000)) 300 1300 = Inr None
   \<and> verifyWebhook rt2 ''k'' ''{}'' (Some (signWebhook rt2 nm0 ''k'' ''{}'' 1000)) 300 701 = Inr None
   \<and> \<bar>1300 - 701\<bar> \<le> 2 * (300 :: int)"
proof -
  have k: "js_trim ''k'' \<noteq> []" by (simp add: js_trim_id js_space_def)
  let ?H = "Some (signWebhook rt2 nm0 ''k'' ''{}'' 1000)"
  have p: "list_all is_hex_lower (hmac rt2 ''k'' (dec_int 1000 @ ''.'' @ ''{}''))" "hmac rt2 ''k'' (dec_int 1000 @ ''.'' @ ''{}'') \<noteq> []"
    using rt2_hex by (simp_all add: hmac_hex_def)
  have "verifyWebhook rt2 ''k'' ''{}'' ?H 300 now = Inr None" if "\<bar>now - 1000\<bar> \<le> 300" for now
    using that k p sdk_time_dec [of 1000] parse_signed [OF dec_int_hex [of 1000] p(1), of sdk_time 1000]
    by (simp add: verifyWebhook_def sdk_parseSignatureHeader_def signed_text [OF nm0_laws] amap_get_def SIGNATURE_VERSION_def
        computeWebhookSignature_def hex_text constantTimeEqual_refl)
  then have v: "verifyWebhook rt2 ''k'' ''{}'' ?H 300 1300 = Inr None" "verifyWebhook rt2 ''k'' ''{}'' ?H 300 701 = Inr None" by simp_all
  show ?thesis using webhook_signature_binds [OF v rt2_no_collision] v by simp
qed

section \<open>Secrets at rest\<close>

lemma SCHEME_no_colon: "CHR '':'' \<notin> set SCHEME_VERSION"
  by (simp add: SCHEME_VERSION_def)

lemma decrypt_encrypt:
  assumes "crypto_laws nc" "length iv = 12"
  shows "decrypt nc key (encrypt nc key iv secret) = Inr secret"
proof -
  obtain ct tag where seal: "gcm_seal nc ALGORITHM key iv secret = (ct, tag)" by fastforce
  have b: "unb64 nc (b64 nc bs) = bs" "CHR '':'' \<notin> set (b64 nc bs)" for bs using assms(1) by (simp_all add: crypto_laws_def)
  have "js_split CHR '':'' (encrypt nc key iv secret) = [SCHEME_VERSION, b64 nc iv, b64 nc tag, b64 nc ct]"
    using SCHEME_no_colon b(2) by (simp add: encrypt_def seal js_split_append js_split_no_sep)
  moreover have "gcm_open nc ALGORITHM key iv tag ct = Inr secret"
    using assms seal unfolding crypto_laws_def by (metis fst_conv snd_conv)
  ultimately show ?thesis by (simp add: decrypt_def b)
qed

section \<open>Histories of the service\<close>

datatype hook_op =
    Register bytes bytes "string list option" string string string
  | Deactivate string
  | Clear_endpoints
  | Deliver string json deliver_options

fun hook_step :: "'w hook_env \<Rightarrow> hook_op \<Rightarrow> webhook_service \<times> 'w \<Rightarrow> webhook_service \<times> 'w" where
  "hook_step he (Register idBytes iv hosts m u s) (svc, w) = snd (register he idBytes iv hosts m u s svc w)"
| "hook_step he (Deactivate i) (svc, w) = (snd (deactivate i svc), w)"
| "hook_step he Clear_endpoints (svc, w) = (clear_endpoints svc, w)"
| "hook_step he (Deliver i payload opts) (svc, w) = snd (deliver he i payload opts svc w)"

definition hook_run :: "'w hook_env \<Rightarrow> hook_op list \<Rightarrow> 'w \<Rightarrow> webhook_service \<times> 'w" where
  "hook_run he ops w = fold (hook_step he) ops (new_webhook_service None, w)"

text \<open>The endpoint comes from a registration that no later operation took back.\<close>

definition registered :: "hook_op list \<Rightarrow> string \<Rightarrow> string \<Rightarrow> bytes \<Rightarrow> string \<Rightarrow> bool" where
  "registered ops i url iv secret \<longleftrightarrow>
     (\<exists>pre post idBytes hosts m. ops = pre @ Register idBytes iv hosts m url secret # post
        \<and> i = ''wh_'' @ to_hex idBytes \<and> Deactivate i \<notin> set post \<and> Clear_endpoints \<notin> set post)"

definition endpoint_ok :: "'w hook_env \<Rightarrow> hook_op list \<Rightarrow> string \<Rightarrow> webhook_endpoint \<Rightarrow> bool" where
  "endpoint_ok he ops i ep \<longleftrightarrow>
     (\<exists>key iv secret. createWebhookSecretCipher (he_crypto he) (he_env he) = Inr key
        \<and> we_secret_encrypted ep = encrypt (he_crypto he) key iv secret
        \<and> registered ops i (we_url ep) iv secret)"

definition cipher_ok :: "'w hook_env \<Rightarrow> webhook_service \<Rightarrow> bool" where
  "cipher_ok he svc \<longleftrightarrow>
     (case ws_cipher svc of None \<Rightarrow> True | Some key \<Rightarrow> createWebhookSecretCipher (he_crypto he) (he_env he) = Inr key)"

definition hooks_ok :: "'w hook_env \<Rightarrow> hook_op list \<Rightarrow> webhook_service \<Rightarrow> bool" where
  "hooks_ok he ops svc \<longleftrightarrow>
     cipher_ok he svc \<and>
     (\<forall>i ep. amap_get i (ws_endpoints svc) = Some ep \<longrightarrow> we_is_active ep \<longrightarrow> endpoint_ok he ops i ep)"

lemma registered_snoc:
  "registered ops i u iv s \<Longrightarrow> op \<noteq> Deactivate i \<Longrightarrow> op \<noteq> Clear_endpoints \<Longrightarrow> registered (ops @ [op]) i u iv s"
  unfolding registered_def by fastforce

lemma registered_new: "registered (ops @ [Register idBytes iv hosts m u s]) (''wh_'' @ to_hex idBytes) u iv s"
  unfolding registered_def by fastforce

lemma endpoint_ok_snoc:
  "endpoint_ok he ops i ep \<Longrightarrow> op \<noteq> Deactivate i \<Longrightarrow> op \<noteq> Clear_endpoints \<Longrightarrow> endpoint_ok he (ops @ [op]) i ep"
  unfolding endpoint_ok_def using registered_snoc by blast

lemma hooks_ok_cong:
  assumes "hooks_ok he ops svc" "ws_endpoints svc' = ws_endpoints svc" "cipher_ok he svc'"
    and "\<And>i. op \<noteq> Deactivate i" "op \<noteq> Clear_endpoints"
  shows "hooks_ok he (ops @ [op]) svc'"
  using assms endpoint_ok_snoc unfolding hooks_ok_def by (metis (no_types))

lemma get_cipher_ok:
  assumes "cipher_ok he svc" "get_cipher he svc = Inr (key, svc')"
  shows "createWebhookSecretCipher (he_crypto he) (he_env he) = Inr key" "ws_endpoints svc' = ws_endpoints svc" "cipher_ok he svc'"
  using assms by (auto simp: get_cipher_def cipher_ok_def result_simps split: option.splits)

lemma delivery_signature_frame:
  assumes "cipher_ok he svc"
  shows "cipher_ok he (snd (delivery_signature he ep body t svc w))
    \<and> ws_endpoints (snd (delivery_signature he ep body t svc w)) = ws_endpoints svc"
proof (cases "get_cipher he svc")
  case (Inl e)
  with assms show ?thesis by (simp add: delivery_signature_def)
next
  case (Inr ks)
  obtain key svc1 where ks: "ks = (key, svc1)" by (cases ks)
  note gc = get_cipher_ok [OF assms Inr [unfolded ks]]
  with Inr ks show ?thesis
    by (cases "decrypt (he_crypto he) key (we_secret_encrypted ep)"; cases body) (simp_all add: delivery_signature_def)
qed

lemma deliver_request_frame:
  assumes "cipher_ok he svc" "deliver_request he i payload opts svc w = (r, svc', w')"
  shows "cipher_ok he svc' \<and> ws_endpoints svc' = ws_endpoints svc"
proof (cases "amap_get i (ws_endpoints svc)")
  case None
  with assms show ?thesis by (auto simp: deliver_request_def)
next
  case (Some ep)
  obtain g w1 where g: "assertSafeWebhookUrl (he_urls he) (do_allowHosts opts) (we_url ep) w = (g, w1)" by fastforce
  obtain d svc1 where d: "delivery_signature he ep (json_stringify payload) (do_timestamp opts) svc w1 = (d, svc1)" by fastforce
  have "cipher_ok he svc1 \<and> ws_endpoints svc1 = ws_endpoints svc"
    using delivery_signature_frame [OF assms(1), of ep "json_stringify payload" "do_timestamp opts" w1] d by simp
  with assms Some g d show ?thesis
    by (cases "we_is_active ep"; cases g; cases d) (auto simp: deliver_request_def)
qed

lemma deliver_frame:
  assumes "cipher_ok he svc" "deliver he i payload opts svc w = (r, svc', w')"
  shows "cipher_ok he svc' \<and> ws_endpoints svc' = ws_endpoints svc"
proof -
  obtain q svc1 w1 where q: "deliver_request he i payload opts svc w = (q, svc1, w1)" by (metis prod_cases3)
  have "svc' = svc1"
    using assms(2) q by (cases q; cases "he_fetch he (projr q) w1"; cases "fst (he_fetch he (projr q) w1)") (auto simp: deliver_def Let_def)
  with deliver_request_frame [OF assms(1) q] show ?thesis by simp
qed

lemma register_ok:
  assumes ok: "hooks_ok he ops svc" and r: "register he idBytes iv hosts m u s svc w = (r, svc', w')"
  shows "hooks_ok he (ops @ [Register idBytes iv hosts m u s]) svc'"
proof -
  have c: "cipher_ok he svc" using ok by (simp add: hooks_ok_def)
  obtain g w1 where g: "assertSafeWebhookUrl (he_urls he) hosts u w = (g, w1)" by fastforce
  show ?thesis
  proof (cases "isl g \<or> isl (get_cipher he svc)")
    case True
    with r g have "svc' = svc" by (cases g; cases "get_cipher he svc") (auto simp: register_def)
    with ok c show ?thesis by (intro hooks_ok_cong [OF ok]) simp_all
  next
    case False
    then obtain p key svc1 where gi: "g = Inr p" and k: "get_cipher he svc = Inr (key, svc1)"
      by (cases g; cases "get_cipher he svc") auto
    note gc = get_cipher_ok [OF c k]
    let ?ep = "\<lparr>we_id = ''wh_'' @ to_hex idBytes, we_url = u, we_secret_encrypted = encrypt (he_crypto he) key iv s,
       we_merchant_nft = m, we_created_at = toISO (he_rt he) (he_now he w1), we_is_active = True\<rparr>"
    have svc': "svc' = svc1\<lparr>ws_endpoints := amap_set (''wh_'' @ to_hex idBytes) ?ep (ws_endpoints svc1)\<rparr>"
      using r g gi k by (auto simp: register_def Let_def)
    have "endpoint_ok he (ops @ [Register idBytes iv hosts m u s]) (''wh_'' @ to_hex idBytes) ?ep"
      using gc(1) registered_new [of ops idBytes iv hosts m u s] by (auto simp: endpoint_ok_def)
    moreover have "endpoint_ok he (ops @ [Register idBytes iv hosts m u s]) i ep"
      if "amap_get i (ws_endpoints svc) = Some ep" "we_is_active ep" for i ep
      using that ok by (intro endpoint_ok_snoc) (auto simp: hooks_ok_def)
    ultimately show ?thesis
      using gc(2,3) by (simp add: hooks_ok_def svc' amap_get_set cipher_ok_def split: if_splits)
  qed
qed

lemma hook_run_snoc: "hook_run he (ops @ [op]) w = hook_step he op (hook_run he ops w)"
  by (simp add: hook_run_def)

lemma deactivate_ok:
  assumes "hooks_ok he ops svc"
  shows "hooks_ok he (ops @ [Deactivate i]) (snd (deactivate i svc))"
proof -
  have k: "endpoint_ok he (ops @ [Deactivate i]) j ep"
    if "amap_get j (ws_endpoints svc) = Some ep" "we_is_active ep" "j \<noteq> i" for j ep
    using that assms by (intro endpoint_ok_snoc) (auto simp: hooks_ok_def)
  show ?thesis
  proof (cases "amap_get i (ws_endpoints svc)")
    case None
    with k assms show ?thesis by (simp add: deactivate_def hooks_ok_def) (metis option.distinct(1))
  next
    case (Some ep)
    with k assms show ?thesis by (simp add: deactivate_def hooks_ok_def amap_get_set cipher_ok_def split: if_splits)
  qed
qed

lemma hook_run_ok: "hook_run he ops w = (svc, w') \<Longrightarrow> hooks_ok he ops svc"
proof (induction ops arbitrary: svc w' rule: rev_induct)
  case Nil
  then show ?case by (auto simp: hook_run_def new_webhook_service_def hooks_ok_def cipher_ok_def)
next
  case (snoc op ops)
  obtain svc1 w1 where run: "hook_run he ops w = (svc1, w1)" by fastforce
  note ok = snoc.IH [OF run]
  then have c: "cipher_ok he svc1" by (simp add: hooks_ok_def)
  from snoc.prems run have step: "hook_step he op (svc1, w1) = (svc, w')" by (simp add: hook_run_snoc)
  show ?case
  proof (cases op)
    case (Register idBytes iv hosts m u s)
    with step obtain r where "register he idBytes iv hosts m u s svc1 w1 = (r, svc, w')" by (cases "register he idBytes iv hosts m u s svc1 w1") auto
    from register_ok [OF ok this] Register show ?thesis by simp
  next
    case (Deactivate i)
    with step deactivate_ok [OF ok, of i] show ?thesis by simp
  next
    case Clear_endpoints
    with step ok show ?thesis by (auto simp: clear_endpoints_def hooks_ok_def cipher_ok_def)
  next
    case (Deliver i payload opts)
    with step obtain r where d: "deliver he i payload opts svc1 w1 = (r, svc, w')" by (cases "deliver he i payload opts svc1 w1") auto
    show ?thesis using deliver_frame [OF c d] Deliver by (intro hooks_ok_cong [OF ok]) simp_all
  qed
qed

section \<open>What a delivery sends\<close>

text \<open>The destination the guard accepts: https, on the allowlist if there is one, and no address in a blocked range.\<close>

definition safe_destination :: "'w url_env \<Rightarrow> string list option \<Rightarrow> string \<Rightarrow> 'w \<Rightarrow> bool" where
  "safe_destination ue allowHosts url w \<longleftrightarrow>
     (\<exists>p. parseURL ue url = Some p \<and> protocol p = ''https:'' \<and>
        (let host = js_lower (hostname p);
             hosts = map js_lower (case allowHosts of Some hs \<Rightarrow> hs | None \<Rightarrow> readAllowHostsFromEnv (url_process_env ue)) in
         (hosts = [] \<or> host \<in> set hosts) \<and>
         (if net_isIP host \<noteq> 0 \<or> net_isIP (stripBrackets host) \<noteq> 0 then \<not> isBlockedAddress (stripBrackets host)
          else \<exists>as. fst (lookup_host ue host w) = Some as \<and> as \<noteq> [] \<and> (\<forall>a\<in>set as. \<not> isBlockedAddress a))))"

lemma guard_sound: "fst (assertSafeWebhookUrl ue hosts url w) = Inr p \<Longrightarrow> safe_destination ue hosts url w"
  unfolding assertSafeWebhookUrl_def safe_destination_def Let_def
  by (auto simp: list_ex_iff split: option.splits if_splits prod.splits)

lemma delivery_signature_signed:
  assumes laws: "crypto_laws (he_crypto he)" and c: "cipher_ok he svc"
    and key: "createWebhookSecretCipher (he_crypto he) (he_env he) = Inr key"
    and ep: "we_secret_encrypted ep = encrypt (he_crypto he) key iv secret" "length iv = 12"
    and r: "delivery_signature he ep body t svc w = (Inr sig, svc')"
  shows "\<exists>b. body = Some b \<and> sig = signWebhook (he_rt he) (he_num he) secret b (case t of Some n \<Rightarrow> n | None \<Rightarrow> he_now he w div 1000)"
proof (cases "get_cipher he svc")
  case (Inl e)
  with r show ?thesis by (simp add: delivery_signature_def)
next
  case (Inr ks)
  obtain key' svc1 where ks: "ks = (key', svc1)" by (cases ks)
  from get_cipher_ok(1) [OF c Inr [unfolded ks]] key have "key' = key" by simp
  with Inr ks r decrypt_encrypt [OF laws ep(2), of key secret] ep(1) show ?thesis
    by (cases body) (auto simp: delivery_signature_def)
qed

text \<open>
  C24. End to end, after any history of registrations, deactivations, deliveries and clearings: a delivery reaches the
  network only for an endpoint that was registered and not taken back since, with the URL of that registration,
  which the guard accepts in the world of this very call (https, allowed host, no resolved address in a blocked
  range), with redirects refused; and the merchant's SDK accepts body and header under the secret of that
  registration at every time within the tolerance of the signing time, although the service stored the secret only
  encrypted.
\<close>

theorem webhook_delivery_safe:
  assumes run: "hook_run he ops w0 = (svc, w)"
    and laws: "crypto_laws (he_crypto he)" "num_laws (he_num he)" "hmac_hex (he_rt he)"
    and ivs: "\<And>idBytes iv hosts m u s. Register idBytes iv hosts m u s \<in> set ops \<Longrightarrow> length iv = 12 \<and> js_trim s \<noteq> []"
    and sent: "deliver_request he i payload opts svc w = (Inr req, svc', w')"
    and time: "t = (case do_timestamp opts of Some n \<Rightarrow> n | None \<Rightarrow> he_now he w' div 1000)" "0 < t" "t < 2 ^ 53"
  shows "\<exists>iv secret. registered ops i (fr_url req) iv secret
    \<and> safe_destination (he_urls he) (do_allowHosts opts) (fr_url req) w
    \<and> fr_redirect req = ''error''
    \<and> json_stringify payload = Some (fr_body req)
    \<and> (\<forall>tol now. \<bar>now - t\<bar> \<le> tol \<longrightarrow>
         verifyWebhook (he_rt he) secret (fr_body req) (map_of (fr_headers req) SIGNATURE_HEADER) tol now = Inr None)"
proof -
  have ok: "hooks_ok he ops svc" and c: "cipher_ok he svc" using hook_run_ok [OF run] by (simp_all add: hooks_ok_def)
  obtain ep where ep: "amap_get i (ws_endpoints svc) = Some ep" "we_is_active ep"
    using sent by (auto simp: deliver_request_def split: option.splits if_splits)
  with ok have "endpoint_ok he ops i ep" by (simp add: hooks_ok_def)
  then obtain key iv secret where k: "createWebhookSecretCipher (he_crypto he) (he_env he) = Inr key"
    "we_secret_encrypted ep = encrypt (he_crypto he) key iv secret" and reg: "registered ops i (we_url ep) iv secret"
    by (auto simp: endpoint_ok_def)
  have iv: "length iv = 12" "js_trim secret \<noteq> []" using reg ivs unfolding registered_def by fastforce+
  obtain g w1 where g: "assertSafeWebhookUrl (he_urls he) (do_allowHosts opts) (we_url ep) w = (g, w1)" by fastforce
  obtain p where p: "g = Inr p" using sent ep g by (cases g) (auto simp: deliver_request_def)
  obtain d svc1 where d: "delivery_signature he ep (json_stringify payload) (do_timestamp opts) svc w1 = (d, svc1)" by fastforce
  obtain sig where sig: "d = Inr sig" using sent ep g p d by (cases d) (auto simp: deliver_request_def)
  have req: "w' = w1" "fr_url req = we_url ep" "fr_redirect req = ''error''" "fr_body req = or_empty (json_stringify payload)"
    "map_of (fr_headers req) SIGNATURE_HEADER = Some sig"
    using sent ep g p d sig by (auto simp: deliver_request_def SIGNATURE_HEADER_def)
  from delivery_signature_signed [OF laws(1) c k iv(1) d [unfolded sig]] obtain b where
    b: "json_stringify payload = Some b" "sig = signWebhook (he_rt he) (he_num he) secret b t"
    using time(1) req(1) by auto
  have "verifyWebhook (he_rt he) secret b (Some sig) tol now = Inr None" if "\<bar>now - t\<bar> \<le> tol" for tol now
    using signed_accepted [OF laws(2,3) time(2,3) iv(2)] that b(2) by simp
  moreover have "safe_destination (he_urls he) (do_allowHosts opts) (we_url ep) w"
    using guard_sound [of _ _ "we_url ep" w] g p by fastforce
  ultimately show ?thesis using reg req b(1) by (auto simp: or_empty_def)
qed

fun unhex :: "string \<Rightarrow> bytes" where
  "unhex (a # b # s) = of_nat (16 * hex_value a + hex_value b) # unhex s"
| "unhex _ = []"

definition nc0 :: node_crypto where
  "nc0 = \<lparr>hkdf = (\<lambda>_ m _ _ n. map (\<lambda>c. of_nat (of_char c)) (take n m)),
     gcm_seal = (\<lambda>_ _ iv text. (map (\<lambda>c. of_nat (of_char c)) text, iv)),
     gcm_open = (\<lambda>_ _ iv tag ct. if tag = iv then Inr (map (\<lambda>b. char_of (unat b)) ct) else Inl ''authentication''),
     b64 = to_hex, unb64 = unhex\<rparr>"

definition he0 :: "unit hook_env" where
  "he0 = \<lparr>he_rt = rt2, he_num = nm0, he_crypto = nc0, he_env = (\<lambda>v. if v = ''NODE_ENV'' then Some ''test'' else None),
     he_urls = \<lparr>parseURL = (\<lambda>u. Some \<lparr>protocol = ''https:'', hostname = ''shop''\<rparr>),
       lookup_host = (\<lambda>h w. (Some [dotted 8 8 8 8], w)), url_process_env = (\<lambda>_. None)\<rparr>,
     he_now = (\<lambda>_. 5000), he_fetch = (\<lambda>_ w. (Inr \<lparr>fp_ok = True, fp_status = 200\<rparr>, w)), he_update_undefined = ''undefined''\<rparr>"

lemma hex_value_digit: "n < 16 \<Longrightarrow> hex_value (hex_digit n) = n"
  by (auto simp: hex_value_def hex_digit_def Let_def of_char_of)

lemma unhex_hex: "unhex (to_hex bs) = bs"
  by (induction bs) (simp_all add: to_hex_def byte_hex_def hex_value_digit byte_high)

lemma nc0_laws: "crypto_laws nc0"
proof -
  have "char_of (unat (of_nat (of_char c) :: 8 word)) = (c :: char)" for c by (simp add: unat_of_nat)
  moreover have "CHR '':'' \<notin> set (to_hex bs)" for bs
    using to_hex_lower [of bs] by (auto simp: is_hex_lower_def is_digit_def list_all_iff)
  ultimately show ?thesis by (simp add: crypto_laws_def nc0_def unhex_hex map_idI)
qed

definition ops0 :: "hook_op list" where
  "ops0 = [Register [7] (replicate 12 1) None ''EQm'' ''https://shop/hook'' ''k'']"

lemma guard0: "assertSafeWebhookUrl (he_urls he0) None url w = (Inr \<lparr>protocol = ''https:'', hostname = ''shop''\<rparr>, w)"
proof -
  have "net_isIP ''shop'' = 0" "js_lower ''shop'' = ''shop''" "stripBrackets ''shop'' = ''shop''" by code_simp+
  moreover have "\<not> isBlockedAddress (dotted 8 8 8 8)" using blocked_dotted(1) [of 8 8 8 8] by (simp add: reserved4_def)
  ultimately show ?thesis by (simp add: assertSafeWebhookUrl_def he0_def readAllowHostsFromEnv_def Let_def)
qed

lemma sent0:
  obtains svc req svc' where "hook_run he0 ops0 () = (svc, ())"
    "deliver_request he0 ''wh_07'' (JObj []) \<lparr>do_timestamp = Some 5, do_timeoutMs = None, do_allowHosts = None\<rparr> svc () = (Inr req, svc', ())"
proof -
  have id: "''wh_'' @ to_hex [7] = ''wh_07''" by code_simp
  have env: "createWebhookSecretCipher nc0 (he_env he0) = Inr (deriveKey nc0 TEST_WEBHOOK_SECRET_ENCRYPTION_KEY)"
    by (simp add: createWebhookSecretCipher_def resolveWebhookSecretEncryptionKey_def resolveStrongSecret_def he0_def isTestEnv_def
        or_empty_def js_trim_def Let_def)
  let ?key = "deriveKey nc0 TEST_WEBHOOK_SECRET_ENCRYPTION_KEY"
  have c: "he_crypto he0 = nc0" by (simp add: he0_def)
  have dec: "decrypt nc0 ?key (encrypt nc0 ?key (replicate 12 1) ''k'') = Inr ''k''" by (rule decrypt_encrypt [OF nc0_laws]) simp
  let ?ep = "\<lparr>we_id = ''wh_07'', we_url = ''https://shop/hook'', we_secret_encrypted = encrypt nc0 ?key (replicate 12 1) ''k'',
    we_merchant_nft = ''EQm'', we_created_at = toISO (he_rt he0) (he_now he0 ()), we_is_active = True\<rparr>"
  let ?svc = "\<lparr>ws_endpoints = [(''wh_07'', ?ep)], ws_cipher = Some ?key\<rparr>"
  have "hook_run he0 ops0 () = (?svc, ())"
    using id by (simp add: hook_run_def ops0_def register_def guard0 new_webhook_service_def get_cipher_def c env Let_def)
  moreover have "\<exists>req. deliver_request he0 ''wh_07'' (JObj []) \<lparr>do_timestamp = Some 5, do_timeoutMs = None, do_allowHosts = None\<rparr> ?svc ()
      = (Inr req, ?svc, ())"
    by (simp add: deliver_request_def guard0 delivery_signature_def get_cipher_def c dec amap_get_def)
  ultimately show thesis using that by blast
qed

theorem webhook_delivery_safe_witness:
  "\<exists>svc req iv secret. fst (deliver_request he0 ''wh_07'' (JObj []) \<lparr>do_timestamp = Some 5, do_timeoutMs = None, do_allowHosts = None\<rparr> svc ()) = Inr req
     \<and> registered ops0 ''wh_07'' (fr_url req) iv secret \<and> fr_redirect req = ''error''
     \<and> verifyWebhook rt2 secret (fr_body req) (map_of (fr_headers req) SIGNATURE_HEADER) 300 5 = Inr None"
proof -
  obtain svc req svc' where s: "hook_run he0 ops0 () = (svc, ())"
    "deliver_request he0 ''wh_07'' (JObj []) \<lparr>do_timestamp = Some 5, do_timeoutMs = None, do_allowHosts = None\<rparr> svc () = (Inr req, svc', ())"
    by (rule sent0)
  have laws: "crypto_laws (he_crypto he0)" "num_laws (he_num he0)" "hmac_hex (he_rt he0)"
    using nc0_laws nm0_laws rt2_hex by (simp_all add: he0_def)
  have iv: "length iv = 12 \<and> js_trim sec \<noteq> []" if "Register b iv h m u sec \<in> set ops0" for b iv h m u sec
    using that by (simp add: ops0_def js_trim_id js_space_def)
  have t: "(5 :: int) = (case do_timestamp \<lparr>do_timestamp = Some 5, do_timeoutMs = None, do_allowHosts = None\<rparr> of Some n \<Rightarrow> n | None \<Rightarrow> he_now he0 () div 1000)"
    "0 < (5 :: int)" "(5 :: int) < 2 ^ 53" by simp_all
  have rt: "he_rt he0 = rt2" by (simp add: he0_def)
  have "\<exists>iv secret. registered ops0 ''wh_07'' (fr_url req) iv secret
    \<and> safe_destination (he_urls he0) (do_allowHosts \<lparr>do_timestamp = Some 5, do_timeoutMs = None, do_allowHosts = None\<rparr>) (fr_url req) ()
    \<and> fr_redirect req = ''error'' \<and> json_stringify (JObj []) = Some (fr_body req)
    \<and> (\<forall>tol now. \<bar>now - 5\<bar> \<le> tol \<longrightarrow>
         verifyWebhook (he_rt he0) secret (fr_body req) (map_of (fr_headers req) SIGNATURE_HEADER) tol now = Inr None)"
    by (rule webhook_delivery_safe [OF s(1) laws _ s(2) t]) (rule iv)
  then obtain iv secret where
    w: "registered ops0 ''wh_07'' (fr_url req) iv secret" "fr_redirect req = ''error''"
    "\<forall>tol now. \<bar>now - 5\<bar> \<le> tol \<longrightarrow> verifyWebhook rt2 secret (fr_body req) (map_of (fr_headers req) SIGNATURE_HEADER) tol now = Inr None"
    unfolding rt by auto
  moreover have "verifyWebhook rt2 secret (fr_body req) (map_of (fr_headers req) SIGNATURE_HEADER) 300 5 = Inr None"
    using w(3) by simp
  ultimately show ?thesis using s(2) by (metis fst_conv)
qed

end
