(* ===== verification/Api_Production.thy ===== *)
theory Api_Production
  imports Api_Invoice
begin

text \<open>
  Production storage: the invoice table of PostgreSQL (\<open>api/src/storage/PostgresStorage.ts\<close> over the schema of
  \<open>api/migrations\<close>), the idempotency keys of Redis (\<open>api/src/storage/RedisIdempotencyStorage.ts\<close>) and the start-up
  that connects them (\<open>api/src/storage/production.ts\<close>). The statements are functions on the rows; a \<open>jsonb\<close> column
  returns \<open>jsonb\<close> of what is written, a \<open>timestamptz\<close> column the instant in milliseconds. Redis keeps a value with the
  last instant of its server clock at which it is visible.
\<close>

section \<open>Invoices in PostgreSQL\<close>

record invoice_row =
  ro_invoice_id :: string
  ro_merchant_nft :: string
  ro_amount_tbc :: string
  ro_currency :: string
  ro_status :: invoice_status
  ro_metadata :: "details option"
  ro_settlement :: "settlement option"
  ro_created_at :: int
  ro_expires_at :: int
  ro_payment_url :: string

type_synonym invoice_rows = "(string, invoice_row) amap"

definition parseJsonbColumn :: "'a option \<Rightarrow> 'a option" where
  "parseJsonbColumn value = (case value of None \<Rightarrow> None | Some v \<Rightarrow> Some v)"

definition toIsoString :: "js_rt \<Rightarrow> int \<Rightarrow> string" where
  "toIsoString rt value = toISO rt value"

definition rowToInvoice :: "js_rt \<Rightarrow> invoice_row \<Rightarrow> invoice" where
  "rowToInvoice rt row =
     \<lparr>iv_id = ro_invoice_id row, iv_merchant_nft = ro_merchant_nft row, iv_amount_tbc = ro_amount_tbc row, iv_currency = ''TBC'',
      iv_metadata = parseJsonbColumn (ro_metadata row), iv_status = ro_status row, iv_created_at = toIsoString rt (ro_created_at row),
      iv_expires_at = toIsoString rt (ro_expires_at row), iv_payment_url = ro_payment_url row,
      iv_settlement = parseJsonbColumn (ro_settlement row)\<rparr>"

definition database_error :: "string \<Rightarrow> exn" where
  "database_error msg = OtherError ''error'' msg"

text \<open>The row of an \<open>INSERT\<close>: the columns have the widths of the schema, and times must parse.\<close>

definition invoice_values :: "js_rt \<Rightarrow> (details \<Rightarrow> details) \<Rightarrow> invoice \<Rightarrow> exn + invoice_row" where
  "invoice_values rt jsonb v =
     (if 32 < length (iv_id v) \<or> 128 < length (iv_merchant_nft v) \<or> 40 < length (iv_amount_tbc v) \<or> 8 < length (iv_currency v)
      then Inl (database_error ''value too long for type character varying'')
      else
        case (dateParse rt (iv_created_at v), dateParse rt (iv_expires_at v)) of
          (Some c, Some e) \<Rightarrow>
            Inr \<lparr>ro_invoice_id = iv_id v, ro_merchant_nft = iv_merchant_nft v, ro_amount_tbc = iv_amount_tbc v,
              ro_currency = iv_currency v, ro_status = iv_status v, ro_metadata = map_option jsonb (iv_metadata v),
              ro_settlement = iv_settlement v, ro_created_at = c, ro_expires_at = e, ro_payment_url = iv_payment_url v\<rparr>
        | _ \<Rightarrow> Inl (database_error ''invalid input syntax for type timestamp with time zone''))"

text \<open>On a conflict only the status, the metadata and the settlement are updated.\<close>

definition pg_set :: "js_rt \<Rightarrow> (details \<Rightarrow> details) \<Rightarrow> invoice \<Rightarrow> invoice_rows \<Rightarrow> exn + invoice_rows" where
  "pg_set rt jsonb v rows =
     res_bind (invoice_values rt jsonb v) (\<lambda>excluded.
       case amap_get (iv_id v) rows of
         None \<Rightarrow> Inr (amap_set (iv_id v) excluded rows)
       | Some row \<Rightarrow> Inr (amap_set (iv_id v)
           (row\<lparr>ro_status := ro_status excluded, ro_metadata := ro_metadata excluded, ro_settlement := ro_settlement excluded\<rparr>) rows))"

text \<open>\<open>now\<close> is the clock of the database.\<close>

definition pg_transition :: "js_rt \<Rightarrow> int \<Rightarrow> string \<Rightarrow> invoice_status \<Rightarrow> invoice_status \<Rightarrow> settlement option \<Rightarrow> invoice_rows
    \<Rightarrow> invoice option \<times> invoice_rows" where
  "pg_transition rt now invoiceId fro to patch rows =
     (case amap_get invoiceId rows of
        None \<Rightarrow> (None, rows)
      | Some row \<Rightarrow>
          if ro_status row = fro \<and> (to \<noteq> Expired \<or> ro_expires_at row \<le> now) then
            (let row' = row\<lparr>ro_status := to, ro_settlement := (case patch of Some x \<Rightarrow> Some x | None \<Rightarrow> ro_settlement row)\<rparr> in
             (Some (rowToInvoice rt row'), amap_set invoiceId row' rows))
          else (None, rows))"

definition pg_invoice_get :: "js_rt \<Rightarrow> string \<Rightarrow> invoice_rows \<Rightarrow> invoice option" where
  "pg_invoice_get rt invoiceId rows = map_option (rowToInvoice rt) (amap_get invoiceId rows)"

definition pg_delete :: "string \<Rightarrow> invoice_rows \<Rightarrow> invoice_rows" where
  "pg_delete invoiceId rows = amap_delete invoiceId rows"

text \<open>
  The rows in the order of their insertion. \<open>SELECT\<close> without \<open>ORDER BY\<close> promises no order, and \<open>IStorage\<close> asks for none; an
  update may move a row, so only the set of the entries is to be relied on.
\<close>

definition pg_entries :: "js_rt \<Rightarrow> invoice_rows \<Rightarrow> (string \<times> invoice) list" where
  "pg_entries rt rows = map (\<lambda>(_, row). (iv_id (rowToInvoice rt row), rowToInvoice rt row)) rows"

section \<open>Idempotency keys in Redis\<close>

definition KEY_PREFIX :: string where
  "KEY_PREFIX = ''idempotency:''"

text \<open>The value of a key is the JSON text of a record, kept as the record; the second component is the last visible instant.\<close>

type_synonym redis_db = "(string, idempotency_record \<times> int) amap"

definition redis_GET :: "int \<Rightarrow> string \<Rightarrow> redis_db \<Rightarrow> idempotency_record option" where
  "redis_GET t key db = (case amap_get key db of None \<Rightarrow> None | Some (r, d) \<Rightarrow> if d < t then None else Some r)"

text \<open>\<open>SET key value PX px [NX]\<close> at the server time \<open>t\<close>: whether it answered \<open>OK\<close>.\<close>

definition redis_SET :: "int \<Rightarrow> bool \<Rightarrow> string \<Rightarrow> idempotency_record \<Rightarrow> int \<Rightarrow> redis_db \<Rightarrow> bool \<times> redis_db" where
  "redis_SET t nx key value px db =
     (if nx \<and> redis_GET t key db \<noteq> None then (False, db) else (True, amap_set key (value, t + px) db))"

definition not_an_integer :: exn where
  "not_an_integer = OtherError ''ReplyError'' ''ERR value is not an integer or out of range''"

definition ttlMs :: "idempotency_record \<Rightarrow> int \<Rightarrow> int option" where
  "ttlMs rec now = map_option (\<lambda>e. max 1 (e - now)) (ir_expiresAt rec)"

definition redis_set :: "int \<Rightarrow> int \<Rightarrow> string \<Rightarrow> idempotency_record \<Rightarrow> redis_db \<Rightarrow> exn + redis_db" where
  "redis_set now t key record db =
     (case ttlMs record now of
        None \<Rightarrow> Inl not_an_integer
      | Some px \<Rightarrow> Inr (snd (redis_SET t False (KEY_PREFIX @ key) record px db)))"

definition redis_get :: "int \<Rightarrow> int \<Rightarrow> string \<Rightarrow> redis_db \<Rightarrow> idempotency_record option" where
  "redis_get now t key db =
     (case redis_GET t (KEY_PREFIX @ key) db of
        None \<Rightarrow> None
      | Some record \<Rightarrow> if date_lt (ir_expiresAt record) now then None else Some record)"

text \<open>
  The loop of \<open>setIfAbsent\<close>: attempt \<open>n\<close> reads the clock of the process at \<open>clk (2n)\<close> and \<open>clk (2n+1)\<close>, and the server
  executes its commands at \<open>srv (2n)\<close> and \<open>srv (2n+1)\<close>.
\<close>

function redis_attempts :: "(nat \<Rightarrow> int) \<Rightarrow> (nat \<Rightarrow> int) \<Rightarrow> string \<Rightarrow> idempotency_record \<Rightarrow> nat \<Rightarrow> redis_db
    \<Rightarrow> (exn + idempotency_record option) \<times> redis_db" where
  "redis_attempts clk srv key record attempt db =
     (if attempt < 8 then
        (case ttlMs record (clk (2 * attempt)) of
           None \<Rightarrow> (Inl not_an_integer, db)
         | Some px \<Rightarrow>
             (case redis_SET (srv (2 * attempt)) True (KEY_PREFIX @ key) record px db of
                (True, db') \<Rightarrow> (Inr None, db')
              | (False, db') \<Rightarrow>
                  (case redis_get (clk (2 * attempt + 1)) (srv (2 * attempt + 1)) key db' of
                     Some existing \<Rightarrow> (Inr (Some existing), db')
                   | None \<Rightarrow> redis_attempts clk srv key record (attempt + 1) db')))
      else (Inl (OtherError ''Error'' ''Unable to acquire idempotency key after concurrent expiry''), db))"
  by pat_completeness auto
termination
  by (relation "measure (\<lambda>(_, _, _, _, attempt, _). 8 - attempt)") auto

declare redis_attempts.simps [simp del]

definition redis_setIfAbsent :: "(nat \<Rightarrow> int) \<Rightarrow> (nat \<Rightarrow> int) \<Rightarrow> string \<Rightarrow> idempotency_record \<Rightarrow> redis_db
    \<Rightarrow> (exn + idempotency_record option) \<times> redis_db" where
  "redis_setIfAbsent clk srv key record db = redis_attempts clk srv key record 0 db"

definition redis_delete :: "string \<Rightarrow> redis_db \<Rightarrow> redis_db" where
  "redis_delete key db = amap_delete (KEY_PREFIX @ key) db"

section \<open>Start-up\<close>

text \<open>The stores the two services hold, and the clients with their effect on a world.\<close>

record storage_config =
  sc_invoices :: storage_kind
  sc_idempotency :: storage_kind
  sc_keys :: storage_kind

record 'w clients =
  pool_query :: "string \<Rightarrow> 'w \<Rightarrow> (exn + unit) \<times> 'w"
  pool_end :: "'w \<Rightarrow> (exn + unit) \<times> 'w"
  redis_connect :: "'w \<Rightarrow> (exn + unit) \<times> 'w"
  redis_ping :: "'w \<Rightarrow> (exn + unit) \<times> 'w"
  redis_disconnect :: "'w \<Rightarrow> 'w"

definition w_bind :: "('w \<Rightarrow> (exn + 'a) \<times> 'w) \<Rightarrow> ('w \<Rightarrow> (exn + 'b) \<times> 'w) \<Rightarrow> 'w \<Rightarrow> (exn + 'b) \<times> 'w" where
  "w_bind f g w = (case f w of (Inl e, w) \<Rightarrow> (Inl e, w) | (Inr _, w) \<Rightarrow> g w)"

definition probes :: "'w clients \<Rightarrow> 'w \<Rightarrow> (exn + unit) \<times> 'w" where
  "probes c =
     w_bind (pool_query c ''SELECT 1'') (w_bind (redis_connect c) (w_bind (redis_ping c)
       (w_bind (pool_query c ''SELECT invoice_id FROM invoices LIMIT 0'') (pool_query c ''SELECT key_hash FROM api_keys LIMIT 0''))))"

text \<open>The result is whether stores were configured; \<open>connect\<close> makes the clients from the two URLs.\<close>

definition configureProductionStorage :: "(string \<Rightarrow> string \<Rightarrow> 'w clients) \<Rightarrow> env \<Rightarrow> storage_config \<Rightarrow> 'w
    \<Rightarrow> (exn + bool) \<times> storage_config \<times> 'w" where
  "configureProductionStorage connect env sc w =
     (if env ''NODE_ENV'' \<noteq> Some ''production'' then (Inr False, sc, w)
      else if or_empty (env ''DATABASE_URL'') = [] \<or> or_empty (env ''REDIS_URL'') = []
      then (Inl (OtherError ''Error'' ''Production requires DATABASE_URL and REDIS_URL''), sc, w)
      else
        let c = connect (or_empty (env ''DATABASE_URL'')) (or_empty (env ''REDIS_URL'')) in
        (case probes c w of
           (Inr _, w) \<Rightarrow> (Inr True, \<lparr>sc_invoices = Durable, sc_idempotency = Durable, sc_keys = Durable\<rparr>, w)
         | (Inl e, w) \<Rightarrow>
             (case pool_end c (redis_disconnect c w) of
                (Inl e', w) \<Rightarrow> (Inl e', sc, w)
              | (Inr _, w) \<Rightarrow> (Inl e, sc, w))))"

section \<open>PostgreSQL refines the in-memory store\<close>

text \<open>The invoices the service writes: canonical times, metadata that \<open>jsonb\<close> keeps, values within the column widths.\<close>

definition storable :: "js_rt \<Rightarrow> (details \<Rightarrow> details) \<Rightarrow> invoice \<Rightarrow> bool" where
  "storable rt jsonb v \<longleftrightarrow>
     length (iv_id v) \<le> 32 \<and> length (iv_merchant_nft v) \<le> 128 \<and> length (iv_amount_tbc v) \<le> 40 \<and> iv_currency v = ''TBC'' \<and>
     map_option jsonb (iv_metadata v) = iv_metadata v \<and>
     (\<exists>t. dateParse rt (iv_created_at v) = Some t \<and> toISO rt t = iv_created_at v) \<and>
     (\<exists>t. dateParse rt (iv_expires_at v) = Some t \<and> toISO rt t = iv_expires_at v)"

text \<open>The columns an upsert leaves alone.\<close>

definition fixed_columns :: "invoice \<Rightarrow> string \<times> string \<times> string \<times> string \<times> string \<times> string \<times> string" where
  "fixed_columns v = (iv_id v, iv_merchant_nft v, iv_amount_tbc v, iv_currency v, iv_created_at v, iv_expires_at v, iv_payment_url v)"

definition invoice_rows_ok :: "js_rt \<Rightarrow> invoice_rows \<Rightarrow> bool" where
  "invoice_rows_ok rt rows \<longleftrightarrow> list_all (\<lambda>(i, row). ro_invoice_id row = i \<and> dateParse rt (toISO rt (ro_expires_at row)) = Some (ro_expires_at row)) rows"

definition pg_abs :: "js_rt \<Rightarrow> invoice_rows \<Rightarrow> mem_invoices" where
  "pg_abs rt rows = map (\<lambda>(i, row). (i, rowToInvoice rt row)) rows"

lemma amap_get_map: "amap_get k (map (\<lambda>(i, x). (i, f x)) m) = map_option f (amap_get k m)"
  by (induction m) (auto simp: amap_get_def)

lemma amap_set_map: "map (\<lambda>(i, x). (i, f x)) (amap_set k v m) = amap_set k (f v) (map (\<lambda>(i, x). (i, f x)) m)"
  by (induction k v m rule: amap_set.induct) auto

lemma amap_delete_map: "map (\<lambda>(i, x). (i, f x)) (amap_delete k m) = amap_delete k (map (\<lambda>(i, x). (i, f x)) m)"
  by (induction m) (auto simp: amap_delete_def)

lemma invoice_rows_ok_get: "invoice_rows_ok rt rows \<Longrightarrow> amap_get i rows = Some row \<Longrightarrow>
    ro_invoice_id row = i \<and> dateParse rt (toISO rt (ro_expires_at row)) = Some (ro_expires_at row)"
  by (auto simp: invoice_rows_ok_def list_all_iff amap_get_def dest: map_of_SomeD)

lemma invoice_rows_ok_amap_set:
  assumes "invoice_rows_ok rt rows" "ro_invoice_id row = i" "dateParse rt (toISO rt (ro_expires_at row)) = Some (ro_expires_at row)"
  shows "invoice_rows_ok rt (amap_set i row rows)"
  using assms set_amap_set [of i row rows] by (fastforce simp: invoice_rows_ok_def list_all_iff)

lemma invoice_rows_ok_delete: "invoice_rows_ok rt rows \<Longrightarrow> invoice_rows_ok rt (pg_delete i rows)"
  by (auto simp: invoice_rows_ok_def list_all_iff pg_delete_def amap_delete_def)

lemma invoice_values_ok:
  assumes "storable rt jsonb v"
  obtains row where "invoice_values rt jsonb v = Inr row" "rowToInvoice rt row = v" "ro_invoice_id row = iv_id v"
    "dateParse rt (toISO rt (ro_expires_at row)) = Some (ro_expires_at row)"
proof -
  obtain c e where ce: "dateParse rt (iv_created_at v) = Some c" "toISO rt c = iv_created_at v"
    "dateParse rt (iv_expires_at v) = Some e" "toISO rt e = iv_expires_at v"
    using assms by (auto simp: storable_def)
  have "invoice_values rt jsonb v =
      Inr \<lparr>ro_invoice_id = iv_id v, ro_merchant_nft = iv_merchant_nft v, ro_amount_tbc = iv_amount_tbc v,
        ro_currency = iv_currency v, ro_status = iv_status v, ro_metadata = iv_metadata v,
        ro_settlement = iv_settlement v, ro_created_at = c, ro_expires_at = e, ro_payment_url = iv_payment_url v\<rparr>"
    using assms ce by (simp add: invoice_values_def storable_def)
  moreover have "rowToInvoice rt \<lparr>ro_invoice_id = iv_id v, ro_merchant_nft = iv_merchant_nft v, ro_amount_tbc = iv_amount_tbc v,
        ro_currency = iv_currency v, ro_status = iv_status v, ro_metadata = iv_metadata v,
        ro_settlement = iv_settlement v, ro_created_at = c, ro_expires_at = e, ro_payment_url = iv_payment_url v\<rparr> = v"
    using assms ce by (cases v) (simp add: rowToInvoice_def storable_def toIsoString_def parseJsonbColumn_def split: option.split)
  ultimately show thesis using that ce by simp
qed

end
