(* ===== verification/Api_Production_Props.thy ===== *)
theory Api_Production_Props
  imports Api_Production
begin

text \<open>
  PostgreSQL refines the in-memory invoice store on what the service writes, a Redis key has one winner whatever the
  clocks of the processes say, and start-up in production either wires durable stores or fails.
\<close>

section \<open>Invoice storage\<close>

lemma rowToInvoice_status:
  "rowToInvoice rt (row\<lparr>ro_status := s, ro_settlement := x\<rparr>) = (rowToInvoice rt row)\<lparr>iv_status := s, iv_settlement := x\<rparr>"
  by (simp add: rowToInvoice_def parseJsonbColumn_def split: option.split)

lemma pg_set_refines:
  assumes "invoice_rows_ok rt rows" "storable rt jsonb v"
    and "\<And>u. mem_get (iv_id v) (pg_abs rt rows) = Some u \<Longrightarrow> fixed_columns u = fixed_columns v"
  shows "\<exists>rows'. pg_set rt jsonb v rows = Inr rows' \<and> invoice_rows_ok rt rows' \<and> pg_abs rt rows' = mem_set v (pg_abs rt rows)"
proof -
  obtain r where r: "invoice_values rt jsonb v = Inr r" "rowToInvoice rt r = v" "ro_invoice_id r = iv_id v"
    "dateParse rt (toISO rt (ro_expires_at r)) = Some (ro_expires_at r)"
    by (rule invoice_values_ok [OF assms(2)])
  show ?thesis
  proof (cases "amap_get (iv_id v) rows")
    case None
    then show ?thesis
      using r invoice_rows_ok_amap_set [OF assms(1) r(3,4)] by (simp add: pg_set_def pg_abs_def mem_set_def amap_set_map)
  next
    case (Some row)
    let ?row = "row\<lparr>ro_status := ro_status r, ro_metadata := ro_metadata r, ro_settlement := ro_settlement r\<rparr>"
    have "mem_get (iv_id v) (pg_abs rt rows) = Some (rowToInvoice rt row)"
      using Some by (simp add: mem_get_def pg_abs_def amap_get_map)
    then have "fixed_columns (rowToInvoice rt row) = fixed_columns (rowToInvoice rt r)" using assms(3) r(2) by simp
    then have "rowToInvoice rt ?row = v"
      using r(2) by (simp add: rowToInvoice_def fixed_columns_def)
    moreover have "invoice_rows_ok rt (amap_set (iv_id v) ?row rows)"
      using invoice_rows_ok_get [OF assms(1) Some] by (intro invoice_rows_ok_amap_set [OF assms(1)]) simp_all
    ultimately show ?thesis
      using Some r(1) by (simp add: pg_set_def pg_abs_def mem_set_def amap_set_map)
  qed
qed

lemma pg_transition_refines:
  assumes "invoice_rows_ok rt rows"
  shows "fst (pg_transition rt now i fro to patch rows) = fst (mem_transition rt now i fro to patch (pg_abs rt rows))
    \<and> invoice_rows_ok rt (snd (pg_transition rt now i fro to patch rows))
    \<and> pg_abs rt (snd (pg_transition rt now i fro to patch rows)) = snd (mem_transition rt now i fro to patch (pg_abs rt rows))"
proof (cases "amap_get i rows")
  case None
  then show ?thesis using assms by (simp add: pg_transition_def mem_transition_def pg_abs_def amap_get_map)
next
  case (Some row)
  note row = invoice_rows_ok_get [OF assms Some]
  have get: "amap_get i (pg_abs rt rows) = Some (rowToInvoice rt row)" using Some by (simp add: pg_abs_def amap_get_map)
  have st: "iv_status (rowToInvoice rt row) = ro_status row" "iv_settlement (rowToInvoice rt row) = ro_settlement row"
    "dateParse rt (iv_expires_at (rowToInvoice rt row)) = Some (ro_expires_at row)"
    using row by (simp_all add: rowToInvoice_def parseJsonbColumn_def toIsoString_def split: option.split)
  let ?row = "row\<lparr>ro_status := to, ro_settlement := (case patch of Some x \<Rightarrow> Some x | None \<Rightarrow> ro_settlement row)\<rparr>"
  have row': "rowToInvoice rt ?row = transition_result to patch (rowToInvoice rt row)"
    using st by (simp add: rowToInvoice_status transition_result_def split: option.split)
  have "transition_applies rt now fro to (rowToInvoice rt row) \<longleftrightarrow> ro_status row = fro \<and> (to \<noteq> Expired \<or> ro_expires_at row \<le> now)"
    using st by (auto simp: transition_applies_def)
  moreover have "invoice_rows_ok rt (amap_set i ?row rows)" using row by (intro invoice_rows_ok_amap_set [OF assms]) simp_all
  ultimately show ?thesis
    unfolding mem_transition_eq get pg_transition_def Some using assms row' by (simp add: pg_abs_def amap_set_map Let_def)
qed

text \<open>
  C25. PostgreSQL refines the in-memory store. On rows as the service leaves them every operation returns what the
  in-memory store returns on the invoices read from the rows, and leaves rows that read as its next state: storing
  a storable invoice that is new or keeps the columns an upsert does not touch, the guarded status transition with
  the clock of the database, reading, deleting and listing.
\<close>

theorem pg_refines_memory:
  assumes ok: "invoice_rows_ok rt rows"
    and v: "storable rt jsonb v" "\<And>u. mem_get (iv_id v) (pg_abs rt rows) = Some u \<Longrightarrow> fixed_columns u = fixed_columns v"
  shows "(\<exists>rows'. pg_set rt jsonb v rows = Inr rows' \<and> invoice_rows_ok rt rows' \<and> pg_abs rt rows' = mem_set v (pg_abs rt rows))
    \<and> fst (pg_transition rt now i fro to patch rows) = fst (mem_transition rt now i fro to patch (pg_abs rt rows))
    \<and> invoice_rows_ok rt (snd (pg_transition rt now i fro to patch rows))
    \<and> pg_abs rt (snd (pg_transition rt now i fro to patch rows)) = snd (mem_transition rt now i fro to patch (pg_abs rt rows))
    \<and> pg_invoice_get rt i rows = mem_get i (pg_abs rt rows)
    \<and> invoice_rows_ok rt (pg_delete i rows) \<and> pg_abs rt (pg_delete i rows) = mem_delete i (pg_abs rt rows)
    \<and> pg_entries rt rows = mem_entries (pg_abs rt rows)"
proof -
  have "pg_entries rt rows = mem_entries (pg_abs rt rows)"
    using ok by (auto simp: pg_entries_def mem_entries_def pg_abs_def invoice_rows_ok_def list_all_iff rowToInvoice_def intro!: map_cong)
  then show ?thesis
    using pg_set_refines [OF ok v] pg_transition_refines [OF ok] invoice_rows_ok_delete [OF ok]
    by (simp add: pg_invoice_get_def mem_get_def mem_delete_def pg_delete_def pg_abs_def amap_get_map amap_delete_map)
qed

definition row0 :: invoice_row where
  "row0 = \<lparr>ro_invoice_id = ''inv_1'', ro_merchant_nft = ''EQm'', ro_amount_tbc = ''5'', ro_currency = ''TBC'', ro_status = Pending,
     ro_metadata = None, ro_settlement = None, ro_created_at = 10, ro_expires_at = 20, ro_payment_url = ''u''\<rparr>"

theorem pg_refines_memory_witness:
  "fst (pg_transition rt0 15 ''inv_1'' Pending Expired None [(''inv_1'', row0)]) =
     fst (mem_transition rt0 15 ''inv_1'' Pending Expired None (pg_abs rt0 [(''inv_1'', row0)]))
   \<and> (\<exists>rows'. pg_set rt0 id ((rowToInvoice rt0 row0)\<lparr>iv_status := Expired\<rparr>) [(''inv_1'', row0)] = Inr rows'
        \<and> pg_abs rt0 rows' = [(''inv_1'', (rowToInvoice rt0 row0)\<lparr>iv_status := Expired\<rparr>)])"
proof -
  let ?v = "(rowToInvoice rt0 row0)\<lparr>iv_status := Expired\<rparr>"
  have d: "dateParse rt0 (toISO rt0 10) = Some 10" "dateParse rt0 (toISO rt0 20) = Some 20"
    by (simp_all add: rt0_def dec_int_def canonical_dec_iff)
  have ok: "invoice_rows_ok rt0 [(''inv_1'', row0)]" using d by (simp add: invoice_rows_ok_def row0_def)
  have st: "storable rt0 id ?v"
    using d by (auto simp: storable_def rowToInvoice_def row0_def toIsoString_def parseJsonbColumn_def)
  have fx: "mem_get (iv_id ?v) (pg_abs rt0 [(''inv_1'', row0)]) = Some u \<Longrightarrow> fixed_columns u = fixed_columns ?v" for u
    by (auto simp: mem_get_def pg_abs_def amap_get_def fixed_columns_def split: if_splits)
  have id: "iv_id ?v = ''inv_1''" by (simp add: rowToInvoice_def row0_def)
  show ?thesis
    using pg_refines_memory [OF ok st fx, of 15 "''inv_1''" Pending Expired None] id
    by (auto simp: mem_set_def pg_abs_def)
qed

section \<open>Idempotency keys\<close>

lemma redis_acquired:
  assumes "redis_attempts clk srv key rec a db = (Inr None, db')"
  shows "\<exists>n px. a \<le> n \<and> n < 8 \<and> ttlMs rec (clk (2 * n)) = Some px \<and> redis_GET (srv (2 * n)) (KEY_PREFIX @ key) db = None
    \<and> db' = amap_set (KEY_PREFIX @ key) (rec, srv (2 * n) + px) db"
  using assms
proof (induction clk srv key rec a db rule: redis_attempts.induct)
  case (1 clk srv key rec a db)
  show ?case
  proof (cases "a < 8 \<and> redis_GET (srv (2 * a)) (KEY_PREFIX @ key) db \<noteq> None")
    case True
    then obtain px where px: "ttlMs rec (clk (2 * a)) = Some px"
      using "1.prems" by (subst (asm) redis_attempts.simps) (auto split: option.splits)
    have "redis_get (clk (2 * a + 1)) (srv (2 * a + 1)) key db = None"
      "redis_attempts clk srv key rec (a + 1) db = (Inr None, db')"
      using "1.prems" True px by (subst (asm) redis_attempts.simps, simp add: redis_SET_def split: option.splits)+
    from "1.IH" [OF _ px, of False db] this True show ?thesis
      by (auto simp: redis_SET_def Suc_le_eq intro: less_imp_le)
  next
    case False
    then have "a < 8" using "1.prems" by (subst (asm) redis_attempts.simps) (simp split: if_splits)
    with False "1.prems" show ?thesis
      by (subst (asm) redis_attempts.simps) (auto simp: redis_SET_def split: option.splits)
  qed
qed

lemma redis_held:
  assumes "amap_get (KEY_PREFIX @ key) db = Some (rec, d)" "\<And>j. srv j \<le> d"
  shows "\<exists>r. redis_attempts clk srv key rec' a db = (r, db) \<and> r \<noteq> Inr None \<and> (\<forall>y. r = Inr (Some y) \<longrightarrow> y = rec)"
proof (induction "8 - a" arbitrary: a)
  case 0
  then show ?case by (subst redis_attempts.simps) simp
next
  case (Suc m)
  then have a: "a < 8" "m = 8 - (a + 1)" by simp_all
  have g: "redis_GET (srv n) (KEY_PREFIX @ key) db = Some rec" for n
    using assms by (simp add: redis_GET_def not_less)
  show ?case
    using Suc.hyps(1) [OF a(2)] a(1) g
    by (subst redis_attempts.simps) (auto simp: redis_SET_def redis_get_def split: option.split)
qed

text \<open>
  C26. One winner per key, whatever the clocks of the API processes say: once \<open>setIfAbsent\<close> acquired a key at the server
  time of its attempt \<open>n\<close>, no call of any process acquires it again up to the server time at which the key expires
  (the attempt's time plus the rest of the record's life, at least a millisecond), as long as nobody deletes it:
  each such call changes nothing and either throws or returns the winner's record, and it does return the record if
  its own clock has not passed the record's expiry.
\<close>

theorem redis_single_winner:
  assumes first: "redis_setIfAbsent clk srv key rec db = (Inr None, db1)"
    and keep: "amap_get (KEY_PREFIX @ key) db2 = amap_get (KEY_PREFIX @ key) db1"
    and e: "ir_expiresAt rec = Some e"
  shows "\<exists>n<8. \<forall>clk' srv' rec'. (\<forall>j. srv' j \<le> srv (2 * n) + max 1 (e - clk (2 * n))) \<longrightarrow>
    snd (redis_setIfAbsent clk' srv' key rec' db2) = db2
    \<and> fst (redis_setIfAbsent clk' srv' key rec' db2) \<noteq> Inr None
    \<and> (\<forall>y. fst (redis_setIfAbsent clk' srv' key rec' db2) = Inr (Some y) \<longrightarrow> y = rec)
    \<and> (ir_expiresAt rec' \<noteq> None \<and> clk' 1 \<le> e \<longrightarrow> fst (redis_setIfAbsent clk' srv' key rec' db2) = Inr (Some rec))"
proof -
  obtain n where n: "n < 8" "db1 = amap_set (KEY_PREFIX @ key) (rec, srv (2 * n) + max 1 (e - clk (2 * n))) db"
    using redis_acquired [OF first [unfolded redis_setIfAbsent_def]] e by (auto simp: ttlMs_def)
  let ?d = "srv (2 * n) + max 1 (e - clk (2 * n))"
  have get: "amap_get (KEY_PREFIX @ key) db2 = Some (rec, ?d)" using keep n(2) by (simp add: amap_get_set)
  have "fst (redis_attempts clk' srv' key rec' 0 db2) = Inr (Some rec)"
    if "\<And>j. srv' j \<le> ?d" "ir_expiresAt rec' \<noteq> None" "clk' 1 \<le> e" for clk' srv' :: "nat \<Rightarrow> int" and rec'
  proof -
    have "redis_GET (srv' j) (KEY_PREFIX @ key) db2 = Some rec" for j
      using that(1) [of j] get by (simp add: redis_GET_def not_less)
    with that e show ?thesis by (subst redis_attempts.simps) (auto simp: redis_SET_def redis_get_def ttlMs_def split: option.split)
  qed
  then show ?thesis
    using redis_held [OF get] n(1) unfolding redis_setIfAbsent_def by (metis (lifting) fst_conv snd_conv)
qed

theorem redis_single_winner_witness:
  "fst (redis_setIfAbsent (\<lambda>_. 100) (\<lambda>_. 90) ''k'' \<lparr>ir_invoiceId = ''a'', ir_expiresAt = Some 500\<rparr> []) = Inr None
   \<and> fst (redis_setIfAbsent (\<lambda>_. 300) (\<lambda>_. 400) ''k'' \<lparr>ir_invoiceId = ''b'', ir_expiresAt = Some 900\<rparr>
       [(''idempotency:k'', (\<lparr>ir_invoiceId = ''a'', ir_expiresAt = Some 500\<rparr>, 490))]) = Inr (Some \<lparr>ir_invoiceId = ''a'', ir_expiresAt = Some 500\<rparr>)"
proof -
  let ?rec = "\<lparr>ir_invoiceId = ''a'', ir_expiresAt = Some 500\<rparr>"
  let ?db = "[(''idempotency:k'', (?rec, 490))]"
  have first: "redis_setIfAbsent (\<lambda>_. 100) (\<lambda>_. 90) ''k'' ?rec [] = (Inr None, ?db)"
    unfolding redis_setIfAbsent_def
    by (subst redis_attempts.simps) (simp add: ttlMs_def redis_SET_def redis_GET_def KEY_PREFIX_def)
  have e: "ir_expiresAt ?rec = Some 500" by simp
  obtain n :: nat where "\<forall>clk' srv' rec'. (\<forall>j. srv' j \<le> 90 + max 1 (500 - 100)) \<longrightarrow>
    snd (redis_setIfAbsent clk' srv' ''k'' rec' ?db) = ?db
    \<and> fst (redis_setIfAbsent clk' srv' ''k'' rec' ?db) \<noteq> Inr None
    \<and> (\<forall>y. fst (redis_setIfAbsent clk' srv' ''k'' rec' ?db) = Inr (Some y) \<longrightarrow> y = ?rec)
    \<and> (ir_expiresAt rec' \<noteq> None \<and> clk' 1 \<le> 500 \<longrightarrow> fst (redis_setIfAbsent clk' srv' ''k'' rec' ?db) = Inr (Some ?rec))"
    using redis_single_winner [OF first refl e] by auto
  then have "fst (redis_setIfAbsent (\<lambda>_. 300) (\<lambda>_. 400) ''k'' \<lparr>ir_invoiceId = ''b'', ir_expiresAt = Some 900\<rparr> ?db) = Inr (Some ?rec)"
    by simp
  with first show ?thesis by simp
qed

section \<open>Start-up\<close>

lemma startup_outcomes:
  assumes "configureProductionStorage connect env sc w = (r, sc', w')"
  shows "(env ''NODE_ENV'' \<noteq> Some ''production'' \<and> r = Inr False \<and> sc' = sc) \<or>
    (env ''NODE_ENV'' = Some ''production'' \<and> r = Inr True \<and> assertProductionStorageConfigured (sc_invoices sc') (sc_idempotency sc') env = Inr ()
      \<and> (\<exists>d q. or_empty (env ''DATABASE_URL'') = d \<and> d \<noteq> [] \<and> or_empty (env ''REDIS_URL'') = q \<and> q \<noteq> []
            \<and> fst (probes (connect d q) w) = Inr ())) \<or>
    (env ''NODE_ENV'' = Some ''production'' \<and> (\<exists>e. r = Inl e) \<and> sc' = sc)"
  using assms
  by (auto simp: configureProductionStorage_def assertProductionStorageConfigured_def Let_def split: if_splits sum.splits prod.splits)

end
