(* ===== verification/Faucet.thy ===== *)
theory Faucet
  imports Js_Json
begin

text \<open>
  The testnet faucet: the sliding-window limiter (\<open>scripts/faucet/src/rateLimit.ts\<close>), the checks of a request
  (\<open>scripts/faucet/src/validation.ts\<close>) and the handlers of the server (\<open>scripts/faucet/src/server.ts\<close>). \<open>Address.parse\<close>
  of the TON library followed by \<open>toRawString\<close> is a parameter, and so is the dispenser, which acts on a world.
\<close>

section \<open>The limiter\<close>

record rate_decision =
  rd_allowed :: bool
  rd_retryAfterSeconds :: int
  rd_nextAvailableAt :: int

record limiter =
  lm_windowMs :: int
  lm_maxPerWindow :: int
  lm_hits :: "(string, int list) amap"

definition DEFAULT_WINDOW_MS :: int where
  "DEFAULT_WINDOW_MS = 60 * 60 * 1000"

definition DEFAULT_MAX_PER_WINDOW :: int where
  "DEFAULT_MAX_PER_WINDOW = 1"

definition new_limiter :: "int option \<Rightarrow> int option \<Rightarrow> string + limiter" where
  "new_limiter windowMs maxPerWindow =
     (let w = (case windowMs of None \<Rightarrow> DEFAULT_WINDOW_MS | Some x \<Rightarrow> x);
          n = (case maxPerWindow of None \<Rightarrow> DEFAULT_MAX_PER_WINDOW | Some x \<Rightarrow> x) in
      if w \<le> 0 then Inl ''windowMs must be positive''
      else if n \<le> 0 then Inl ''maxPerWindow must be positive''
      else Inr \<lparr>lm_windowMs = w, lm_maxPerWindow = n, lm_hits = []\<rparr>)"

definition hits_of :: "string \<Rightarrow> limiter \<Rightarrow> int list" where
  "hits_of key lm = (case amap_get key (lm_hits lm) of None \<Rightarrow> [] | Some ts \<Rightarrow> ts)"

definition activeTimestamps :: "string \<Rightarrow> int \<Rightarrow> limiter \<Rightarrow> int list \<times> limiter" where
  "activeTimestamps key now lm =
     (let cutoff = now - lm_windowMs lm;
          previous = hits_of key lm;
          fresh = filter (\<lambda>ts. ts > cutoff) previous in
      (fresh,
       if fresh = [] then lm\<lparr>lm_hits := amap_delete key (lm_hits lm)\<rparr>
       else if length fresh \<noteq> length previous then lm\<lparr>lm_hits := amap_set key fresh (lm_hits lm)\<rparr>
       else lm))"

text \<open>\<open>Math.ceil(x / 1000)\<close>.\<close>

definition ceil_seconds :: "int \<Rightarrow> int" where
  "ceil_seconds x = - ((- x) div 1000)"

definition decide :: "limiter \<Rightarrow> int list \<Rightarrow> int \<Rightarrow> rate_decision" where
  "decide lm timestamps now =
     (if int (length timestamps) < lm_maxPerWindow lm then \<lparr>rd_allowed = True, rd_retryAfterSeconds = 0, rd_nextAvailableAt = 0\<rparr>
      else
        let oldest = hd timestamps; nextAvailableAt = oldest + lm_windowMs lm in
        \<lparr>rd_allowed = False, rd_retryAfterSeconds = max 1 (ceil_seconds (nextAvailableAt - now)), rd_nextAvailableAt = nextAvailableAt\<rparr>)"

text \<open>The loop over the keys; entries are dropped while it runs.\<close>

definition prune :: "int \<Rightarrow> limiter \<Rightarrow> limiter" where
  "prune now lm = fold (\<lambda>k lm. snd (activeTimestamps k now lm)) (map fst (lm_hits lm)) lm"

text \<open>\<open>key\<close> is the normalised address: \<open>normaliseAddress\<close> throws before any state changes.\<close>

definition limiter_peek :: "string \<Rightarrow> int \<Rightarrow> limiter \<Rightarrow> rate_decision \<times> limiter" where
  "limiter_peek key now lm =
     (case activeTimestamps key now (prune now lm) of (timestamps, lm) \<Rightarrow> (decide lm timestamps now, lm))"

definition limiter_consume :: "string \<Rightarrow> int \<Rightarrow> limiter \<Rightarrow> rate_decision \<times> limiter" where
  "limiter_consume key now lm =
     (case activeTimestamps key now (prune now lm) of (timestamps, lm) \<Rightarrow>
        let decision = decide lm timestamps now in
        (decision, if rd_allowed decision then lm\<lparr>lm_hits := amap_set key (timestamps @ [now]) (lm_hits lm)\<rparr> else lm))"

definition limiter_reset :: "string option \<Rightarrow> limiter \<Rightarrow> limiter" where
  "limiter_reset key lm =
     (case key of Some k \<Rightarrow> lm\<lparr>lm_hits := amap_delete k (lm_hits lm)\<rparr> | None \<Rightarrow> lm\<lparr>lm_hits := []\<rparr>)"

definition limiter_size :: "limiter \<Rightarrow> nat" where
  "limiter_size lm = length (lm_hits lm)"

definition getConfig :: "limiter \<Rightarrow> int \<times> int" where
  "getConfig lm = (lm_windowMs lm, lm_maxPerWindow lm)"

definition normaliseAddress :: "(string \<Rightarrow> string option) \<Rightarrow> string \<Rightarrow> string option" where
  "normaliseAddress parse address = parse (js_trim address)"

section \<open>Validation of a request\<close>

datatype faucet_code = INVALID_ADDRESS | INVALID_AMOUNT | MISSING_FIELD | AMOUNT_EXCEEDED

datatype faucet_error = FaucetValidationError faucet_code string | OtherFaucetError string

definition isValidTonAddress :: "(string \<Rightarrow> string option) \<Rightarrow> string \<Rightarrow> bool" where
  "isValidTonAddress parse address \<longleftrightarrow> js_trim address \<noteq> [] \<and> parse (js_trim address) \<noteq> None"

definition assertValidTonAddress :: "(string \<Rightarrow> string option) \<Rightarrow> json \<Rightarrow> faucet_error + string" where
  "assertValidTonAddress parse address =
     (case address of
        JStr s \<Rightarrow>
          if s = [] then Inl (FaucetValidationError MISSING_FIELD ''address is required'')
          else
            let trimmed = js_trim s in
            if \<not> isValidTonAddress parse trimmed then
              Inl (FaucetValidationError INVALID_ADDRESS
                ''address must be a TON address in raw (`0:hex`) or user-friendly (48-char base64url) form'')
            else (case parse trimmed of Some raw \<Rightarrow> Inr raw | None \<Rightarrow> Inl (OtherFaucetError ''Address.parse''))
      | _ \<Rightarrow> Inl (FaucetValidationError MISSING_FIELD ''address is required''))"

definition DEFAULT_DISPENSE_NANOCOINS :: int where
  "DEFAULT_DISPENSE_NANOCOINS = 10000000000"

definition MAX_DISPENSE_NANOCOINS :: int where
  "MAX_DISPENSE_NANOCOINS = 100000000000"

text \<open>\<open>text\<close> is \<open>String(raw)\<close> of a value that is not missing.\<close>

definition parseDispenseAmount :: "(json \<Rightarrow> string) \<Rightarrow> json \<Rightarrow> int \<Rightarrow> faucet_error + int" where
  "parseDispenseAmount text raw maximum =
     (if raw = JUndef \<or> raw = JNull \<or> raw = JStr [] then Inr maximum
      else if text raw = [] \<or> \<not> list_all is_digit (text raw)
      then Inl (FaucetValidationError INVALID_AMOUNT ''amount must be an integer number of TBC nanocoins'')
      else
        let value = int (digits_val (text raw)) in
        if value \<le> 0 then Inl (FaucetValidationError INVALID_AMOUNT ''amount must be positive'')
        else if value > maximum
        then Inl (FaucetValidationError AMOUNT_EXCEEDED (''amount may not exceed '' @ dec_int maximum @ '' nanocoins per dispense''))
        else Inr value)"

section \<open>The server\<close>

record faucet =
  fc_limiter :: limiter
  fc_budget :: "(string, int list) amap"
  fc_default :: int
  fc_ipMax :: int
  fc_globalMax :: int

definition createFaucetServer :: "limiter \<Rightarrow> int option \<Rightarrow> int option \<Rightarrow> int option \<Rightarrow> string + faucet" where
  "createFaucetServer lm dflt ipMax globalMax =
     (let d = (case dflt of None \<Rightarrow> DEFAULT_DISPENSE_NANOCOINS | Some x \<Rightarrow> x) in
      if d \<le> 0 \<or> d > 100000000000 then Inl ''Invalid dispense configuration''
      else Inr \<lparr>fc_limiter = lm, fc_budget = [], fc_default = d,
        fc_ipMax = (case ipMax of None \<Rightarrow> 5 | Some x \<Rightarrow> x), fc_globalMax = (case globalMax of None \<Rightarrow> 100 | Some x \<Rightarrow> x)\<rparr>)"

definition allowBudget :: "string \<Rightarrow> int \<Rightarrow> int \<Rightarrow> (string, int list) amap \<Rightarrow> bool \<times> (string, int list) amap" where
  "allowBudget key maximum now budget =
     (let budget = filter (\<lambda>(id, hits). \<not> list_all (\<lambda>t. t \<le> now - 3600000) hits) budget;
          hits = filter (\<lambda>t. t > now - 3600000) (case amap_get key budget of None \<Rightarrow> [] | Some hs \<Rightarrow> hs) in
      if int (length hits) \<ge> maximum then (False, budget)
      else (True, amap_set key (hits @ [now]) budget))"

datatype dispense_reply =
    Dispensed string int string
  | Budget_exceeded
  | Rate_limited rate_decision
  | Rejected faucet_error

text \<open>The status of the reply; the last middleware turns what was thrown into 400, 422 or 500.\<close>

fun reply_status :: "dispense_reply \<Rightarrow> nat" where
  "reply_status (Dispensed _ _ _) = 200"
| "reply_status Budget_exceeded = 429"
| "reply_status (Rate_limited _) = 429"
| "reply_status (Rejected (FaucetValidationError c _)) = (if c = AMOUNT_EXCEEDED then 422 else 400)"
| "reply_status (Rejected (OtherFaucetError _)) = 500"

text \<open>
  \<open>POST /faucet/dispense\<close> up to the call of the dispenser: a reply, or the address and the amount to dispense. The
  clock is read for the two budgets and by the limiter.
\<close>

definition dispense_begin :: "(string \<Rightarrow> string option) \<Rightarrow> (json \<Rightarrow> string) \<Rightarrow> (nat \<Rightarrow> int) \<Rightarrow> string \<Rightarrow> json \<Rightarrow> faucet
    \<Rightarrow> (dispense_reply + (string \<times> int)) \<times> faucet" where
  "dispense_begin parse text clk ip body s =
     (case assertValidTonAddress parse (jget ''address'' body) of
        Inl e \<Rightarrow> (Inl (Rejected e), s)
      | Inr address \<Rightarrow>
          (case parseDispenseAmount text (jget ''amount'' body) (fc_default s) of
             Inl e \<Rightarrow> (Inl (Rejected e), s)
           | Inr amount \<Rightarrow>
               (case allowBudget (''ip:'' @ ip) (fc_ipMax s) (clk 0) (fc_budget s) of
                  (False, b) \<Rightarrow> (Inl Budget_exceeded, s\<lparr>fc_budget := b\<rparr>)
                | (True, b) \<Rightarrow>
                    (case allowBudget ''global'' (fc_globalMax s) (clk 1) b of
                       (False, b) \<Rightarrow> (Inl Budget_exceeded, s\<lparr>fc_budget := b\<rparr>)
                     | (True, b) \<Rightarrow>
                         (case normaliseAddress parse address of
                            None \<Rightarrow> (Inl (Rejected (OtherFaucetError ''Address.parse'')), s\<lparr>fc_budget := b\<rparr>)
                          | Some key \<Rightarrow>
                              (case limiter_consume key (clk 2) (fc_limiter s) of
                                 (decision, lm) \<Rightarrow>
                                   (if rd_allowed decision then Inr (address, amount) else Inl (Rate_limited decision),
                                    s\<lparr>fc_budget := b, fc_limiter := lm\<rparr>)))))))"

text \<open>The rest of the handler, on the answer of the dispenser; a failure gives the slots of the address back.\<close>

definition dispense_end :: "(string \<Rightarrow> string option) \<Rightarrow> string \<Rightarrow> int \<Rightarrow> (string + string) \<Rightarrow> faucet \<Rightarrow> dispense_reply \<times> faucet" where
  "dispense_end parse address amount outcome s =
     (case outcome of
        Inr txHash \<Rightarrow> (Dispensed address amount txHash, s)
      | Inl e \<Rightarrow>
          (case normaliseAddress parse address of
             None \<Rightarrow> (Rejected (OtherFaucetError ''Address.parse''), s)
           | Some key \<Rightarrow> (Rejected (OtherFaucetError e), s\<lparr>fc_limiter := limiter_reset (Some key) (fc_limiter s)\<rparr>)))"

definition dispense :: "(string \<Rightarrow> string option) \<Rightarrow> (json \<Rightarrow> string) \<Rightarrow> (string \<Rightarrow> int \<Rightarrow> 'w \<Rightarrow> (string + string) \<times> 'w) \<Rightarrow> (nat \<Rightarrow> int)
    \<Rightarrow> string \<Rightarrow> json \<Rightarrow> faucet \<Rightarrow> 'w \<Rightarrow> dispense_reply \<times> faucet \<times> 'w" where
  "dispense parse text dispenser clk ip body s w =
     (case dispense_begin parse text clk ip body s of
        (Inl r, s) \<Rightarrow> (r, s, w)
      | (Inr (address, amount), s) \<Rightarrow>
          (case dispenser address amount w of
             (outcome, w) \<Rightarrow> (case dispense_end parse address amount outcome s of (r, s) \<Rightarrow> (r, s, w))))"

text \<open>\<open>GET /faucet/status\<close> with an address: the normalised address and the decision.\<close>

definition faucet_status :: "(string \<Rightarrow> string option) \<Rightarrow> int \<Rightarrow> string \<Rightarrow> faucet \<Rightarrow> (faucet_error + (string \<times> rate_decision)) \<times> faucet" where
  "faucet_status parse now address s =
     (case assertValidTonAddress parse (JStr address) of
        Inl e \<Rightarrow> (Inl e, s)
      | Inr trimmed \<Rightarrow>
          (case normaliseAddress parse trimmed of
             None \<Rightarrow> (Inl (OtherFaucetError ''Address.parse''), s)
           | Some key \<Rightarrow> (case limiter_peek key now (fc_limiter s) of (d, lm) \<Rightarrow> (Inr (trimmed, d), s\<lparr>fc_limiter := lm\<rparr>))))"

end
