(* ===== verification/Faucet_Props.thy ===== *)
theory Faucet_Props
  imports Faucet
begin

text \<open>
  The faucet's limiter is an exact sliding window over the history of granted requests, whatever peeks come between,
  and a dispense stays within its bounds.
\<close>

section \<open>One step of the limiter\<close>

definition recent :: "int \<Rightarrow> int \<Rightarrow> int list \<Rightarrow> int list" where
  "recent w now ts = filter (\<lambda>t. t > now - w) ts"

lemma active_hits:
  "fst (activeTimestamps k now lm) = recent (lm_windowMs lm) now (hits_of k lm)"
  "hits_of j (snd (activeTimestamps k now lm)) = (if j = k then recent (lm_windowMs lm) now (hits_of k lm) else hits_of j lm)"
  "lm_windowMs (snd (activeTimestamps k now lm)) = lm_windowMs lm"
  "lm_maxPerWindow (snd (activeTimestamps k now lm)) = lm_maxPerWindow lm"
proof -
  let ?f = "recent (lm_windowMs lm) now (hits_of k lm)"
  have same: "length ?f = length (hits_of k lm) \<Longrightarrow> ?f = hits_of k lm"
    unfolding recent_def by (metis filter_True length_filter_less less_irrefl)
  show "fst (activeTimestamps k now lm) = ?f" by (simp add: activeTimestamps_def recent_def Let_def)
  show "hits_of j (snd (activeTimestamps k now lm)) = (if j = k then ?f else hits_of j lm)"
    using same unfolding activeTimestamps_def Let_def recent_def [symmetric]
    by (auto simp: hits_of_def amap_get_set amap_get_delete)
  show "lm_windowMs (snd (activeTimestamps k now lm)) = lm_windowMs lm"
    "lm_maxPerWindow (snd (activeTimestamps k now lm)) = lm_maxPerWindow lm"
    by (simp_all add: activeTimestamps_def Let_def)
qed

lemma fold_active:
  "hits_of j (fold (\<lambda>k lm. snd (activeTimestamps k now lm)) ks lm) =
     (if j \<in> set ks then recent (lm_windowMs lm) now (hits_of j lm) else hits_of j lm)
   \<and> lm_windowMs (fold (\<lambda>k lm. snd (activeTimestamps k now lm)) ks lm) = lm_windowMs lm
   \<and> lm_maxPerWindow (fold (\<lambda>k lm. snd (activeTimestamps k now lm)) ks lm) = lm_maxPerWindow lm"
  by (induction ks arbitrary: lm) (auto simp: active_hits recent_def)

lemma prune_hits:
  "hits_of j (prune now lm) = recent (lm_windowMs lm) now (hits_of j lm)"
  "lm_windowMs (prune now lm) = lm_windowMs lm" "lm_maxPerWindow (prune now lm) = lm_maxPerWindow lm"
proof -
  have "j \<notin> fst ` set (lm_hits lm) \<Longrightarrow> hits_of j lm = []"
    by (simp add: hits_of_def amap_get_def map_of_eq_None_iff [THEN iffD2])
  then show "hits_of j (prune now lm) = recent (lm_windowMs lm) now (hits_of j lm)"
    using fold_active [of j now "map fst (lm_hits lm)" lm] by (auto simp: prune_def recent_def)
  show "lm_windowMs (prune now lm) = lm_windowMs lm" "lm_maxPerWindow (prune now lm) = lm_maxPerWindow lm"
    using fold_active [of j now "map fst (lm_hits lm)" lm] by (simp_all add: prune_def)
qed

lemma recent_idem: "recent w now (recent w now ts) = recent w now ts"
  by (simp add: recent_def)

lemma peek_spec:
  "fst (limiter_peek k now lm) = decide lm (recent (lm_windowMs lm) now (hits_of k lm)) now"
  "hits_of j (snd (limiter_peek k now lm)) = recent (lm_windowMs lm) now (hits_of j lm)"
  "lm_windowMs (snd (limiter_peek k now lm)) = lm_windowMs lm" "lm_maxPerWindow (snd (limiter_peek k now lm)) = lm_maxPerWindow lm"
proof -
  obtain ts lm' where a: "activeTimestamps k now (prune now lm) = (ts, lm')" by fastforce
  note h = active_hits [where k = k and now = now and lm = "prune now lm", unfolded a prune_hits fst_conv snd_conv recent_idem]
  show "fst (limiter_peek k now lm) = decide lm (recent (lm_windowMs lm) now (hits_of k lm)) now"
    using h(1,3,4) by (simp add: limiter_peek_def a decide_def)
  show "hits_of j (snd (limiter_peek k now lm)) = recent (lm_windowMs lm) now (hits_of j lm)"
    using h(2) [of j] by (auto simp: limiter_peek_def a prune_hits)
  show "lm_windowMs (snd (limiter_peek k now lm)) = lm_windowMs lm" "lm_maxPerWindow (snd (limiter_peek k now lm)) = lm_maxPerWindow lm"
    using h(3,4) by (simp_all add: limiter_peek_def a)
qed

lemma consume_spec:
  "fst (limiter_consume k now lm) = decide lm (recent (lm_windowMs lm) now (hits_of k lm)) now"
  "hits_of j (snd (limiter_consume k now lm)) =
     recent (lm_windowMs lm) now (hits_of j lm) @ (if j = k \<and> rd_allowed (fst (limiter_consume k now lm)) then [now] else [])"
  "lm_windowMs (snd (limiter_consume k now lm)) = lm_windowMs lm" "lm_maxPerWindow (snd (limiter_consume k now lm)) = lm_maxPerWindow lm"
proof -
  obtain ts lm' where a: "activeTimestamps k now (prune now lm) = (ts, lm')" by fastforce
  note h = active_hits [where k = k and now = now and lm = "prune now lm", unfolded a prune_hits fst_conv snd_conv recent_idem]
  show d: "fst (limiter_consume k now lm) = decide lm (recent (lm_windowMs lm) now (hits_of k lm)) now"
    using h(1,3,4) by (simp add: limiter_consume_def a decide_def Let_def)
  show "hits_of j (snd (limiter_consume k now lm)) =
     recent (lm_windowMs lm) now (hits_of j lm) @ (if j = k \<and> rd_allowed (fst (limiter_consume k now lm)) then [now] else [])"
    using h(1) h(2) [of j] prune_hits(1) [of j now lm] by (auto simp: limiter_consume_def a Let_def hits_of_def amap_get_set split: if_splits)
  show "lm_windowMs (snd (limiter_consume k now lm)) = lm_windowMs lm" "lm_maxPerWindow (snd (limiter_consume k now lm)) = lm_maxPerWindow lm"
    using h(3,4) by (simp_all add: limiter_consume_def a Let_def)
qed

section \<open>Histories\<close>

text \<open>The calls of the limiter, each at an instant, and the granted requests they leave behind.\<close>

datatype call = Peek string int | Consume string int

fun call_time :: "call \<Rightarrow> int" where
  "call_time (Peek _ t) = t"
| "call_time (Consume _ t) = t"

fun limiter_step :: "call \<Rightarrow> limiter \<times> (string \<times> int) list \<Rightarrow> limiter \<times> (string \<times> int) list" where
  "limiter_step (Peek k t) (lm, granted) = (snd (limiter_peek k t lm), granted)"
| "limiter_step (Consume k t) (lm, granted) =
     (snd (limiter_consume k t lm), granted @ (if rd_allowed (fst (limiter_consume k t lm)) then [(k, t)] else []))"

definition limiter_run :: "limiter \<Rightarrow> call list \<Rightarrow> limiter \<times> (string \<times> int) list" where
  "limiter_run lm calls = fold limiter_step calls (lm, [])"

text \<open>The granted requests of an address in the window that ends at \<open>now\<close>.\<close>

definition granted_in :: "int \<Rightarrow> int \<Rightarrow> string \<Rightarrow> (string \<times> int) list \<Rightarrow> int list" where
  "granted_in w now k granted = map snd (filter (\<lambda>(j, t). j = k \<and> now - w < t \<and> t \<le> now) granted)"

definition tracks :: "int \<Rightarrow> int \<Rightarrow> int \<Rightarrow> limiter \<Rightarrow> (string \<times> int) list \<Rightarrow> bool" where
  "tracks w n now lm granted \<longleftrightarrow>
     lm_windowMs lm = w \<and> lm_maxPerWindow lm = n \<and> (\<forall>k. recent w now (hits_of k lm) = granted_in w now k granted)
     \<and> (\<forall>x \<in> set granted. snd x \<le> now)"

lemma recent_later: "now \<le> now' \<Longrightarrow> recent w now' (recent w now xs) = recent w now' xs"
  by (auto simp: recent_def intro!: filter_cong)

lemma granted_later:
  assumes "now \<le> now'" "\<forall>x \<in> set granted. snd x \<le> now"
  shows "granted_in w now' k granted = recent w now' (granted_in w now k granted)"
  using assms(2) assms(1)
  by (induction granted) (auto simp: granted_in_def recent_def)

lemma tracks_later: "tracks w n now lm granted \<Longrightarrow> now \<le> now' \<Longrightarrow> tracks w n now' lm granted"
  unfolding tracks_def using granted_later [of now now' granted w] recent_later [of now now' w] by (metis order_trans)

lemma tracks_same:
  assumes "tracks w n now lm granted" "lm_windowMs lm' = w" "lm_maxPerWindow lm' = n" "\<And>k. hits_of k lm' = recent w now (hits_of k lm)"
  shows "tracks w n now lm' granted"
  using assms unfolding tracks_def by (metis recent_idem)

lemma tracks_step:
  assumes "tracks w n now lm granted" "now \<le> call_time c"
  shows "tracks w n (call_time c) (fst (limiter_step c (lm, granted))) (snd (limiter_step c (lm, granted)))"
proof (cases c)
  case (Peek k t)
  with assms tracks_later have t: "tracks w n t lm granted" by simp
  then have wn: "lm_windowMs lm = w" "lm_maxPerWindow lm = n" by (simp_all add: tracks_def)
  have "tracks w n t (snd (limiter_peek k t lm)) granted"
    by (rule tracks_same [OF t]) (simp_all only: peek_spec wn)
  with Peek show ?thesis by simp
next
  case (Consume k t)
  with assms tracks_later have t: "tracks w n t lm granted" by simp
  then have wn: "lm_windowMs lm = w" "lm_maxPerWindow lm = n" by (simp_all add: tracks_def)
  with t Consume show ?thesis
    by (auto simp: tracks_def consume_spec recent_def granted_in_def)
qed

definition bounded :: "int \<Rightarrow> int \<Rightarrow> (string \<times> int) list \<Rightarrow> bool" where
  "bounded w n granted \<longleftrightarrow> (\<forall>t k. int (length (granted_in w t k granted)) \<le> n)"

lemma consume_allowed:
  assumes "tracks w n now lm granted"
  shows "rd_allowed (fst (limiter_consume k now lm)) \<longleftrightarrow> int (length (granted_in w now k granted)) < n"
    and "fst (limiter_peek k now lm) = fst (limiter_consume k now lm)"
  using assms by (simp_all add: consume_spec peek_spec decide_def tracks_def Let_def)

lemma granted_in_snoc:
  "granted_in w t k (granted @ [(j, u)]) = granted_in w t k granted @ (if j = k \<and> t - w < u \<and> u \<le> t then [u] else [])"
  by (simp add: granted_in_def)

lemma granted_shrinks:
  assumes "\<forall>x \<in> set granted. snd x \<le> now" "now \<le> t"
  shows "length (granted_in w t k granted) \<le> length (granted_in w now k granted)"
  using granted_later [OF assms(2,1)] by (simp add: recent_def)

lemma bounded_grant:
  assumes "tracks w n now lm granted" "bounded w n granted" "int (length (granted_in w now k granted)) < n"
  shows "bounded w n (granted @ [(k, now)])"
proof -
  have "int (length (granted_in w t k granted)) + 1 \<le> n" if "now \<le> t" for t
    using granted_shrinks [of granted now t w k] assms(1,3) that by (simp add: tracks_def)
  then show ?thesis using assms(2) by (auto simp: bounded_def granted_in_snoc)
qed

lemma bounded_step:
  assumes "tracks w n now lm granted" "now \<le> call_time c" "bounded w n granted"
  shows "bounded w n (snd (limiter_step c (lm, granted)))"
proof (cases c)
  case (Consume k t)
  with assms tracks_later have t: "tracks w n t lm granted" by simp
  with Consume bounded_grant [OF t assms(3)] consume_allowed(1) [OF t] assms(3) show ?thesis by simp
qed (use assms in simp)

lemma run_tracks:
  assumes "lm_windowMs lm = w" "lm_maxPerWindow lm = n" "lm_hits lm = []" "0 < n"
    and "sorted (map call_time calls)" "\<forall>c \<in> set calls. call_time c \<le> now"
  shows "tracks w n now (fst (limiter_run lm calls)) (snd (limiter_run lm calls)) \<and> bounded w n (snd (limiter_run lm calls))"
  using assms(5,6)
proof (induction calls arbitrary: now rule: rev_induct)
  case Nil
  with assms(1-4) show ?case
    by (simp add: limiter_run_def tracks_def bounded_def granted_in_def recent_def hits_of_def)
next
  case (snoc c calls)
  obtain lm1 g1 where run: "limiter_run lm calls = (lm1, g1)" by fastforce
  have "tracks w n (call_time c) lm1 g1 \<and> bounded w n g1"
    using snoc.IH [of "call_time c"] snoc.prems run by (simp add: sorted_append)
  then have "tracks w n (call_time c) (fst (limiter_step c (lm1, g1))) (snd (limiter_step c (lm1, g1)))"
    "bounded w n (snd (limiter_step c (lm1, g1)))"
    using tracks_step bounded_step by blast+
  moreover have "limiter_run lm (calls @ [c]) = limiter_step c (lm1, g1)"
    using run by (simp add: limiter_run_def)
  ultimately show ?case using tracks_later snoc.prems(2) by simp
qed

text \<open>
  C27. The limiter is an exact sliding window. After any history of peeks and requests at non-decreasing instants, a
  request is granted exactly if fewer than the maximum of requests of that address were granted in the window that
  ends now, and a peek gives the same answer; a refusal names the instant at which a request is granted again if
  nothing happens in between, no earlier than now, and asks to wait at least that long; and no window of that length,
  wherever it lies, ever holds more than the maximum of granted requests of one address.
\<close>

theorem faucet_sliding_window:
  assumes new: "new_limiter windowMs maxPerWindow = Inr lm0"
    and run: "limiter_run lm0 calls = (lm, granted)"
    and times: "sorted (map call_time calls)" "\<forall>c \<in> set calls. call_time c \<le> now"
    and w: "w = lm_windowMs lm0" "n = lm_maxPerWindow lm0"
    and d: "d = fst (limiter_consume k now lm)"
  shows "(rd_allowed d \<longleftrightarrow> int (length (granted_in w now k granted)) < n)
    \<and> fst (limiter_peek k now lm) = d
    \<and> (\<not> rd_allowed d \<longrightarrow>
         now < rd_nextAvailableAt d \<and> rd_nextAvailableAt d \<le> now + 1000 * rd_retryAfterSeconds d
         \<and> (\<forall>t \<ge> rd_nextAvailableAt d. rd_allowed (fst (limiter_consume k t lm))))
    \<and> (\<forall>t j. int (length (granted_in w t j granted)) \<le> n)"
proof -
  have lm0: "lm_hits lm0 = []" "0 < w" "0 < n" using new w by (auto simp: new_limiter_def Let_def split: if_splits)
  have tr: "tracks w n now lm granted" "bounded w n granted"
    using run_tracks [OF w(1) [symmetric] w(2) [symmetric] lm0(1,3) times] run by simp_all
  have wn: "lm_windowMs lm = w" "lm_maxPerWindow lm = n" using tr(1) by (simp_all add: tracks_def)
  let ?g = "granted_in w now k granted"
  have dec: "d = decide lm ?g now" using tr(1) by (simp add: d consume_spec tracks_def)
  have refused: "now < rd_nextAvailableAt d \<and> rd_nextAvailableAt d \<le> now + 1000 * rd_retryAfterSeconds d
         \<and> (\<forall>t \<ge> rd_nextAvailableAt d. rd_allowed (fst (limiter_consume k t lm)))" if "\<not> rd_allowed d"
  proof -
    have n: "n \<le> int (length ?g)" using that dec wn by (simp add: decide_def Let_def split: if_splits)
    with lm0 obtain x xs where g: "?g = x # xs" by (cases ?g) auto
    have "x \<in> set ?g" using g by simp
    then have x: "now - w < x" by (auto simp: granted_in_def)
    have nxt: "rd_nextAvailableAt d = x + w" "rd_retryAfterSeconds d = max 1 (ceil_seconds (x + w - now))"
      using dec n g wn by (simp_all add: decide_def Let_def)
    have "x + w - now \<le> 1000 * ceil_seconds (x + w - now)" by (simp add: ceil_seconds_def)
    then have "x + w \<le> now + 1000 * max 1 (ceil_seconds (x + w - now))" by (simp add: max_def)
    moreover have "rd_allowed (fst (limiter_consume k t lm))" if "x + w \<le> t" for t
    proof -
      have le: "now \<le> t" using x that by simp
      have "\<forall>y \<in> set granted. snd y \<le> now" using tr(1) by (simp add: tracks_def)
      from granted_later [OF le this] have "granted_in w t k granted = recent w t xs" using g that by (simp add: recent_def)
      moreover have "int (length (x # xs)) \<le> n" using tr(2) g unfolding bounded_def by metis
      moreover have "length (recent w t xs) \<le> length xs" by (simp add: recent_def)
      ultimately have "int (length (granted_in w t k granted)) < n" by simp
      with consume_allowed(1) [OF tracks_later [OF tr(1) le]] show ?thesis by simp
    qed
    ultimately show ?thesis using x nxt by simp
  qed
  show ?thesis using consume_allowed [OF tr(1)] refused tr(2) by (simp add: d bounded_def)
qed

theorem faucet_sliding_window_witness:
  "rd_nextAvailableAt (fst (limiter_consume ''a'' 2000 (fst (limiter_run \<lparr>lm_windowMs = 1000, lm_maxPerWindow = 1, lm_hits = []\<rparr>
       [Consume ''a'' 100, Consume ''b'' 900, Consume ''a'' 1100])))) = 2100
   \<and> rd_allowed (fst (limiter_consume ''a'' 2100 (fst (limiter_run \<lparr>lm_windowMs = 1000, lm_maxPerWindow = 1, lm_hits = []\<rparr>
       [Consume ''a'' 100, Consume ''b'' 900, Consume ''a'' 1100]))))"
proof -
  let ?lm0 = "\<lparr>lm_windowMs = 1000, lm_maxPerWindow = 1, lm_hits = []\<rparr>"
  let ?calls = "[Consume ''a'' 100, Consume ''b'' 900, Consume ''a'' 1100]"
  obtain lm granted where run: "limiter_run ?lm0 ?calls = (lm, granted)" by fastforce
  have new: "new_limiter (Some 1000) (Some 1) = Inr ?lm0" by (simp add: new_limiter_def)
  have t: "sorted (map call_time ?calls)" "\<forall>c \<in> set ?calls. call_time c \<le> 2000" by simp_all
  have v: "limiter_run ?lm0 ?calls = (\<lparr>lm_windowMs = 1000, lm_maxPerWindow = 1, lm_hits = [(''b'', [900]), (''a'', [1100])]\<rparr>, [(''a'', 100), (''b'', 900), (''a'', 1100)])"
    by code_simp
  have d: "fst (limiter_consume ''a'' 2000 lm) = \<lparr>rd_allowed = False, rd_retryAfterSeconds = 1, rd_nextAvailableAt = 2100\<rparr>"
  proof -
    have "lm = \<lparr>lm_windowMs = 1000, lm_maxPerWindow = 1, lm_hits = [(''b'', [900]), (''a'', [1100])]\<rparr>" using run v by simp
    then show ?thesis by (simp only:) code_simp
  qed
  have "rd_allowed (fst (limiter_consume ''a'' 2100 lm))"
    using faucet_sliding_window [OF new run t refl refl refl, of "''a''"] d by simp
  with d run show ?thesis by simp
qed

section \<open>What is dispensed\<close>

text \<open>The amount that reaches the dispenser is positive and at most the configured one, which is at most 100 TBC.\<close>

lemma dispense_amount:
  assumes "dispense_begin parse text clk ip body s = (Inr (address, amount), s')" "0 < fc_default s"
  shows "0 < amount \<and> amount \<le> fc_default s"
  using assms
  by (auto simp: dispense_begin_def parseDispenseAmount_def Let_def split: sum.splits prod.splits bool.splits option.splits if_splits)

text \<open>
  A failed dispense clears every slot of the address, not only its own: with more than one slot a window can hold
  more successful dispenses than the maximum.
\<close>

lemma failed_dispense_clears:
  "hits_of k (limiter_reset (Some k) lm) = []"
  by (simp add: limiter_reset_def hits_of_def amap_get_delete)

end
