(* ===== verification/Sdk_Utils.thy ===== *)
theory Sdk_Utils
  imports Api_Helpers Sdk_Amount
begin

text \<open>
  Helpers of the merchant SDK (\<open>sdk/src/utils.ts\<close>, \<open>sdk/src/utils.browser.ts\<close>): canonical JSON, invoice identifiers,
  payload hashes and small conversions. An \<open>Address\<close> of the TON library is the string its \<open>toString()\<close> gives, which
  determines it; parsing and the raw form are the record \<open>ton_address\<close>.
\<close>

section \<open>Values\<close>

text \<open>
  JavaScript values as the helpers tell them apart. A number is an integer, finite with a fraction or non-finite;
  \<open>VOther\<close> stands for the values of any other type (its \<open>typeof\<close>) and \<open>VExotic\<close> for objects with a prototype of their own
  and their own enumerable properties. Messages are written in ASCII.
\<close>

datatype js_value =
    VNull
  | VBig int
  | VStr string
  | VBool bool
  | VInt int
  | VFraction
  | VNonFinite
  | VArr "js_value list"
  | VObj "(string \<times> js_value) list"
  | VExotic "(string \<times> js_value) list"
  | VOther string

datatype type_error = TypeError string | RangeErr string

text \<open>The first error of a list of results, in order.\<close>

fun res_all :: "('e + 'a) list \<Rightarrow> 'e + 'a list" where
  "res_all [] = Inr []"
| "res_all (r # rs) = res_bind r (\<lambda>x. res_bind (res_all rs) (\<lambda>xs. Inr (x # xs)))"

section \<open>Canonical JSON\<close>

text \<open>Strings here have code points below 256, so the two replacements of \<open>encodeCanonicalString\<close> find nothing.\<close>

definition encodeCanonicalString :: "string \<Rightarrow> string" where
  "encodeCanonicalString value = json_quote value"

definition safe_integer :: "int \<Rightarrow> bool" where
  "safe_integer i \<longleftrightarrow> \<bar>i\<bar> < 2 ^ 53"

function canonicalJson :: "js_value \<Rightarrow> type_error + string" where
  "canonicalJson VNull = Inr ''null''"
| "canonicalJson (VBig i) = Inr (encodeCanonicalString (dec_int i))"
| "canonicalJson (VStr s) = Inr (encodeCanonicalString s)"
| "canonicalJson (VBool b) = Inr (if b then ''true'' else ''false'')"
| "canonicalJson (VInt i) =
     (if safe_integer i then Inr (dec_int i)
      else Inl (TypeError ''Canonical JSON forbids integers outside the 53-bit safe range; use a bigint or a decimal string''))"
| "canonicalJson VFraction =
     Inl (TypeError ''Canonical JSON forbids floating-point numbers; use integer minor units, a bigint, or a decimal string'')"
| "canonicalJson VNonFinite = Inl (TypeError ''Canonical JSON does not support non-finite numbers'')"
| "canonicalJson (VArr vs) = res_bind (res_all (map canonicalJson vs)) (\<lambda>ws. Inr (json_brackets ws))"
| "canonicalJson (VObj kvs) =
     res_bind (res_all (map (\<lambda>(k, v). res_bind (canonicalJson v) (\<lambda>s. Inr (encodeCanonicalString k @ '':'' @ s))) (sort_key fst kvs)))
       (\<lambda>ws. Inr (json_braces ws))"
| "canonicalJson (VExotic kvs) = Inl (TypeError ''Canonical JSON supports only plain objects and arrays'')"
| "canonicalJson (VOther t) = Inl (TypeError (''Canonical JSON does not support '' @ t @ '' values''))"
  by pat_completeness auto
termination
proof (relation "measure size", goal_cases)
  case (2 vs v)
  then show ?case by (induction vs) auto
next
  case (3 kvs kv k v)
  then have "(k, v) \<in> set kvs" by simp
  then show ?case by (induction kvs) auto
qed simp

fun cloneJsonSerializable :: "js_value \<Rightarrow> type_error + js_value" where
  "cloneJsonSerializable VNonFinite = Inl (TypeError ''JSON clone does not support non-finite numbers'')"
| "cloneJsonSerializable (VArr vs) = res_bind (res_all (map cloneJsonSerializable vs)) (\<lambda>ws. Inr (VArr ws))"
| "cloneJsonSerializable (VObj kvs) =
     res_bind (res_all (map (\<lambda>(k, v). res_bind (cloneJsonSerializable v) (\<lambda>w. Inr (k, w))) kvs)) (\<lambda>ws. Inr (VObj ws))"
| "cloneJsonSerializable (VExotic kvs) = Inl (TypeError ''JSON clone supports only plain objects and arrays'')"
| "cloneJsonSerializable (VOther t) = Inl (TypeError (''JSON clone does not support '' @ t @ '' values''))"
| "cloneJsonSerializable v = Inr v"

fun serializeBigInt :: "js_value \<Rightarrow> js_value" where
  "serializeBigInt (VBig i) = VStr (dec_int i)"
| "serializeBigInt (VArr vs) = VArr (map serializeBigInt vs)"
| "serializeBigInt (VObj kvs) = VObj (map (\<lambda>(k, v). (k, serializeBigInt v)) kvs)"
| "serializeBigInt (VExotic kvs) = VObj (map (\<lambda>(k, v). (k, serializeBigInt v)) kvs)"
| "serializeBigInt v = v"

section \<open>Addresses and identifiers\<close>

record ton_address =
  ta_parse :: "string \<Rightarrow> string option"
  ta_raw :: "string \<Rightarrow> string"

datatype address_arg = Address_object string | Address_string string

definition canonicalizeTonAddress :: "ton_address \<Rightarrow> address_arg \<Rightarrow> type_error + string" where
  "canonicalizeTonAddress ta address =
     (case address of
        Address_object a \<Rightarrow> Inr (ta_raw ta a)
      | Address_string s \<Rightarrow>
          (case ta_parse ta (js_trim s) of None \<Rightarrow> Inl (TypeError (''Invalid address: '' @ js_trim s)) | Some a \<Rightarrow> Inr (ta_raw ta a)))"

definition sdk_isValidTonAddress :: "ton_address \<Rightarrow> string \<Rightarrow> bool" where
  "sdk_isValidTonAddress ta address \<longleftrightarrow> ta_parse ta (js_trim address) \<noteq> None"

datatype timestamp_arg = Ts_big int | Ts_int int | Ts_other

record invoice_id_params =
  ii_merchantNft :: address_arg
  ii_amountTbc :: int
  ii_orderId :: "string option"
  ii_timestamp :: timestamp_arg

definition validateInvoiceAmount :: "int \<Rightarrow> type_error + unit" where
  "validateInvoiceAmount amountTbc =
     (if amountTbc \<le> 0 then Inl (RangeErr (''Invalid amount_tbc: '' @ dec_int amountTbc @ '' - expected a positive integer of nanocoins''))
      else if amountTbc > MAX_TBC_NANOCOINS
      then Inl (RangeErr (''amount_tbc exceeds maximum of 2^120 - 1: '' @ dec_int amountTbc))
      else Inr ())"

definition canonicalTimestamp :: "timestamp_arg \<Rightarrow> type_error + string" where
  "canonicalTimestamp timestamp =
     (case timestamp of
        Ts_big i \<Rightarrow> Inr (dec_int i)
      | Ts_int i \<Rightarrow> if safe_integer i then Inr (dec_int i) else Inl (TypeError ''Invoice timestamp must be a safe integer Unix timestamp'')
      | Ts_other \<Rightarrow> Inl (TypeError ''Invoice timestamp must be a safe integer Unix timestamp''))"

definition canonicalInvoiceIdPayload :: "ton_address \<Rightarrow> invoice_id_params \<Rightarrow> type_error + string" where
  "canonicalInvoiceIdPayload ta params =
     res_bind (validateInvoiceAmount (ii_amountTbc params)) (\<lambda>_.
     res_bind (canonicalizeTonAddress ta (ii_merchantNft params)) (\<lambda>merchant.
     res_bind (canonicalTimestamp (ii_timestamp params)) (\<lambda>ts.
       canonicalJson (VObj
         [(''amount_tbc'', VStr (dec_int (ii_amountTbc params))), (''merchant_nft'', VStr merchant),
          (''order_id'', VStr (or_empty (ii_orderId params))), (''timestamp'', VStr ts)]))))"

definition sdk_generateInvoiceId :: "js_rt \<Rightarrow> ton_address \<Rightarrow> invoice_id_params \<Rightarrow> type_error + string" where
  "sdk_generateInvoiceId rt ta params = res_bind (canonicalInvoiceIdPayload ta params) (\<lambda>data. Inr (sha256 rt data))"

definition createPayloadHash :: "js_rt \<Rightarrow> js_value \<Rightarrow> type_error + int" where
  "createPayloadHash rt payload = res_bind (canonicalJson payload) (\<lambda>data. Inr (hex_number (sha256 rt data)))"

definition shortAddress :: "string \<Rightarrow> nat \<Rightarrow> string" where
  "shortAddress addr chars =
     (if length addr \<le> chars * 2 + 3 then addr
      else take chars addr @ ''...'' @ (if chars = 0 then addr else drop (length addr - chars) addr))"

text \<open>\<open>now\<close> is \<open>Date.now()\<close> in milliseconds.\<close>

definition sdk_isExpired :: "int option \<Rightarrow> int \<Rightarrow> bool" where
  "sdk_isExpired expiresAt now = (case expiresAt of None \<Rightarrow> False | Some e \<Rightarrow> e \<le> now div 1000)"

definition formatTimestamp :: "js_rt \<Rightarrow> int \<Rightarrow> string" where
  "formatTimestamp rt timestamp = toISO rt (timestamp * 1000)"

section \<open>Canonical JSON determines the value\<close>

text \<open>The JSON value a supported value stands for: a \<open>bigint\<close> is its decimal string.\<close>

fun sdk_json :: "js_value \<Rightarrow> json" where
  "sdk_json (VBig i) = JStr (dec_int i)"
| "sdk_json (VStr s) = JStr s"
| "sdk_json (VBool b) = JBool b"
| "sdk_json (VInt i) = JNum i"
| "sdk_json (VArr vs) = JArr (map sdk_json vs)"
| "sdk_json (VObj kvs) = JObj (map (\<lambda>(k, v). (k, sdk_json v)) kvs)"
| "sdk_json _ = JNull"

lemma sdk_json_not_undef [simp]: "sdk_json v \<noteq> JUndef"
  by (cases v) simp_all

lemma res_all_Inr: "res_all rs = Inr xs \<longleftrightarrow> rs = map Inr xs"
  by (induction rs arbitrary: xs) (auto simp: result_simps)

lemma sort_key_map_snd: "sort_key fst (map (\<lambda>(k, v). (k, f v)) kvs) = map (\<lambda>(k, v). (k, f v)) (sort_key fst kvs)"
proof -
  have ins: "insort_key fst (k, f v) (map (\<lambda>(k, v). (k, f v)) xs) = map (\<lambda>(k, v). (k, f v)) (insort_key fst (k, v) xs)" for k v xs
    by (induction xs) auto
  have "foldr (insort_key fst) (map (\<lambda>(k, v). (k, f v)) kvs) [] = map (\<lambda>(k, v). (k, f v)) (foldr (insort_key fst) kvs [])"
    by (induction kvs) (auto simp: ins)
  then show ?thesis by (simp add: sort_key_def)
qed

lemma res_all_map: "res_all (map f xs) = Inr ys \<longleftrightarrow> list_all2 (\<lambda>x y. f x = Inr y) xs ys"
  by (induction xs arbitrary: ys) (auto simp: result_simps list_all2_Cons1)

lemma obj_parts_fields:
  assumes "list_all2 (\<lambda>x w. \<exists>s. canonicalJson (snd x) = Inr s \<and> encodeCanonicalString (fst x) @ CHR '':'' # s = w) kvs ws"
    and "\<And>k v s. (k, v) \<in> set kvs \<Longrightarrow> canonicalJson v = Inr s \<Longrightarrow> canonicalize (sdk_json v) = Some s"
  shows "obj_parts (map (\<lambda>(k, v). (k, canonicalize v)) (map (\<lambda>(k, v). (k, sdk_json v)) kvs)) = ws"
  using assms
proof (induction kvs ws rule: list_all2_induct)
  case (Cons kv kvs w ws)
  obtain k v where kv: "kv = (k, v)" by (cases kv)
  from Cons.hyps(1) kv obtain s where s: "canonicalJson v = Inr s" "w = encodeCanonicalString k @ '':'' @ s" by auto
  have "canonicalize (sdk_json v) = Some s" using Cons.prems [of k v s] s kv by simp
  moreover have "obj_parts (map (\<lambda>(k, v). (k, canonicalize v)) (map (\<lambda>(k, v). (k, sdk_json v)) kvs)) = ws"
    by (rule Cons.IH) (use Cons.prems in auto)
  ultimately show ?case using kv s by (simp add: encodeCanonicalString_def)
qed simp

lemma canonicalJson_canonicalize: "canonicalJson v = Inr s \<Longrightarrow> canonicalize (sdk_json v) = Some s"
proof (induction v arbitrary: s rule: canonicalJson.induct)
  case (8 vs)
  then obtain ws where ws: "list_all2 (\<lambda>x y. canonicalJson x = Inr y) vs ws" "s = json_brackets ws"
    by (auto simp: result_simps res_all_map)
  have "list_all2 (\<lambda>x y. or_null (canonicalize (sdk_json x)) = y) vs ws"
    using ws(1) by (rule list.rel_mono_strong) (simp add: "8.IH" or_null_def)
  then have "map (\<lambda>v. or_null (canonicalize (sdk_json v))) vs = ws"
    by (simp add: list.rel_map(1) [of "(=)", unfolded list.rel_eq, symmetric] list.rel_eq)
  with ws(2) show ?case by (simp add: comp_def)
next
  case (9 kvs)
  then obtain ws where ws: "list_all2 (\<lambda>x w. \<exists>s. canonicalJson (snd x) = Inr s \<and> encodeCanonicalString (fst x) @ CHR '':'' # s = w) (sort_key fst kvs) ws"
      "s = json_braces ws"
    by (auto simp: result_simps res_all_map case_prod_beta)
  have "canonicalize (sdk_json v) = Some s" if "(k, v) \<in> set (sort_key fst kvs)" "canonicalJson v = Inr s" for k v s
    using "9.IH" [OF that(1) refl that(2)] .
  from obj_parts_fields [OF ws(1) this] ws(2) show ?case by (simp add: sort_key_map_snd)
qed (auto simp: encodeCanonicalString_def split: if_splits)

lemma canonicalJson_inj:
  "canonicalJson v = Inr s \<Longrightarrow> canonicalJson w = Inr s \<Longrightarrow> json_norm (sdk_json v) = json_norm (sdk_json w)"
  using canonicalJson_canonicalize canonicalize_eq_iff by metis

text \<open>The order in which the keys of an object were inserted does not matter.\<close>

lemma canonicalJson_key_order:
  "distinct (map fst kvs) \<Longrightarrow> mset kvs = mset kvs' \<Longrightarrow> canonicalJson (VObj kvs) = canonicalJson (VObj kvs')"
  by (simp only: canonicalJson.simps sort_key_unique [of kvs kvs'])

lemma canonicalJson_fields:
  "canonicalJson (VObj [(''amount_tbc'', VStr a), (''merchant_nft'', VStr m), (''order_id'', VStr k), (''timestamp'', VStr t)]) =
   canonicalJson (VObj [(''amount_tbc'', VStr a'), (''merchant_nft'', VStr m'), (''order_id'', VStr k'), (''timestamp'', VStr t')])
   \<longleftrightarrow> a = a' \<and> m = m' \<and> k = k' \<and> t = t'"
proof
  let ?o = "\<lambda>a m k t. VObj [(''amount_tbc'', VStr a), (''merchant_nft'', VStr m), (''order_id'', VStr k), (''timestamp'', VStr t)]"
  assume eq: "canonicalJson (?o a m k t) = canonicalJson (?o a' m' k' t')"
  have ok: "\<exists>s. canonicalJson (?o a m k t) = Inr s" for a m k t
    by simp
  then obtain s where s: "canonicalJson (?o a m k t) = Inr s" by blast
  have n: "json_norm (sdk_json (?o a m k t)) = json_norm (sdk_json (?o a' m' k' t'))"
    by (rule canonicalJson_inj [OF s]) (rule trans [OF eq [symmetric] s])
  let ?j = "\<lambda>a m k t. JObj [(''amount_tbc'', JStr a), (''merchant_nft'', JStr m), (''order_id'', JStr k), (''timestamp'', JStr t)]"
  have "json_norm (?j a m k t) = json_norm (?j a' m' k' t')" using n by (simp only: sdk_json.simps list.map prod.case)
  then have "json_norm (jget f (?j a m k t)) = json_norm (jget f (?j a' m' k' t'))" for f
    by (rule json_norm_field) simp_all
  from this [of "''amount_tbc''"] this [of "''merchant_nft''"] this [of "''order_id''"] this [of "''timestamp''"]
  show "a = a' \<and> m = m' \<and> k = k' \<and> t = t'" by simp
qed simp

text \<open>
  An SDK invoice identifier identifies the invoice: two parameter sets that both yield an identifier yield the
  same one exactly if merchant address (in raw form, so however it was written), amount, order identifier and time
  agree, where a missing order identifier counts as the empty one and a time given as a number or as a \<open>bigint\<close> is the
  same; and it yields one only for amounts from 1 to \<open>2^120 - 1\<close>.
\<close>

theorem sdk_invoice_id_exact:
  assumes p: "sdk_generateInvoiceId rt ta p = Inr i" and q: "sdk_generateInvoiceId rt ta q = Inr j"
    and no_collision: "\<And>x y. sha256 rt x = sha256 rt y \<Longrightarrow> x = y"
  shows "(i = j \<longleftrightarrow>
      ii_amountTbc p = ii_amountTbc q \<and>
      canonicalizeTonAddress ta (ii_merchantNft p) = canonicalizeTonAddress ta (ii_merchantNft q) \<and>
      or_empty (ii_orderId p) = or_empty (ii_orderId q) \<and>
      canonicalTimestamp (ii_timestamp p) = canonicalTimestamp (ii_timestamp q))
    \<and> 0 < ii_amountTbc p \<and> ii_amountTbc p < 2 ^ 120"
proof -
  obtain a t where a: "canonicalizeTonAddress ta (ii_merchantNft p) = Inr a" "canonicalTimestamp (ii_timestamp p) = Inr t"
    and ip: "\<exists>s. canonicalJson (VObj [(''amount_tbc'', VStr (dec_int (ii_amountTbc p))), (''merchant_nft'', VStr a),
      (''order_id'', VStr (or_empty (ii_orderId p))), (''timestamp'', VStr t)]) = Inr s \<and> i = sha256 rt s"
    and v: "validateInvoiceAmount (ii_amountTbc p) = Inr ()"
    using p by (auto simp: sdk_generateInvoiceId_def canonicalInvoiceIdPayload_def result_simps)
  obtain b u where b: "canonicalizeTonAddress ta (ii_merchantNft q) = Inr b" "canonicalTimestamp (ii_timestamp q) = Inr u"
    and jq: "\<exists>s. canonicalJson (VObj [(''amount_tbc'', VStr (dec_int (ii_amountTbc q))), (''merchant_nft'', VStr b),
      (''order_id'', VStr (or_empty (ii_orderId q))), (''timestamp'', VStr u)]) = Inr s \<and> j = sha256 rt s"
    using q by (auto simp: sdk_generateInvoiceId_def canonicalInvoiceIdPayload_def result_simps)
  have "i = j \<longleftrightarrow> dec_int (ii_amountTbc p) = dec_int (ii_amountTbc q) \<and> a = b \<and> or_empty (ii_orderId p) = or_empty (ii_orderId q) \<and> t = u"
    using ip jq no_collision canonicalJson_fields by (metis Inr_inject)
  moreover have "0 < ii_amountTbc p \<and> ii_amountTbc p < 2 ^ 120"
    using v by (simp add: validateInvoiceAmount_def MAX_TBC_NANOCOINS_def split: if_splits)
  ultimately show ?thesis using a b by simp
qed

definition ta0 :: ton_address where
  "ta0 = \<lparr>ta_parse = (\<lambda>s. if s = [] then None else Some s), ta_raw = (\<lambda>a. a)\<rparr>"

theorem sdk_invoice_id_exact_witness:
  "sdk_generateInvoiceId rt0 ta0 \<lparr>ii_merchantNft = Address_string '' EQm '', ii_amountTbc = 5, ii_orderId = None, ii_timestamp = Ts_int 7\<rparr> =
   sdk_generateInvoiceId rt0 ta0 \<lparr>ii_merchantNft = Address_object ''EQm'', ii_amountTbc = 5, ii_orderId = Some [], ii_timestamp = Ts_big 7\<rparr>"
proof -
  let ?p = "\<lparr>ii_merchantNft = Address_string '' EQm '', ii_amountTbc = 5, ii_orderId = None, ii_timestamp = Ts_int 7\<rparr>"
  let ?q = "\<lparr>ii_merchantNft = Address_object ''EQm'', ii_amountTbc = 5, ii_orderId = Some [], ii_timestamp = Ts_big 7\<rparr>"
  have a: "canonicalizeTonAddress ta0 (ii_merchantNft ?p) = Inr ''EQm''" "canonicalizeTonAddress ta0 (ii_merchantNft ?q) = Inr ''EQm''"
    by (simp_all add: canonicalizeTonAddress_def ta0_def js_trim_def js_space_def)
  have t: "canonicalTimestamp (ii_timestamp ?p) = Inr (dec_int 7)" "canonicalTimestamp (ii_timestamp ?q) = Inr (dec_int 7)"
    by (simp_all add: canonicalTimestamp_def safe_integer_def)
  have v: "validateInvoiceAmount 5 = Inr ()" by (simp add: validateInvoiceAmount_def MAX_TBC_NANOCOINS_def)
  have "\<exists>i. sdk_generateInvoiceId rt0 ta0 ?p = Inr i" "\<exists>j. sdk_generateInvoiceId rt0 ta0 ?q = Inr j"
    using a t v by (simp_all add: sdk_generateInvoiceId_def canonicalInvoiceIdPayload_def)
  then obtain i j where ij: "sdk_generateInvoiceId rt0 ta0 ?p = Inr i" "sdk_generateInvoiceId rt0 ta0 ?q = Inr j" by blast
  have "sha256 rt0 x = sha256 rt0 y \<Longrightarrow> x = y" for x y by (simp add: rt0_def)
  from sdk_invoice_id_exact [OF ij this] a t have "i = j" by (simp add: or_empty_def)
  with ij show ?thesis by simp
qed

end
