(* ===== verification/Sdk_Core.thy ===== *)
theory Sdk_Core
  imports Sdk_Utils Idx_Events
begin

text \<open>
  The core of the merchant SDK (\<open>sdk/src/sdk.ts\<close>): invoices, their status, and the verification of a settlement on
  chain. HTTP, the TON client and the cell library are outside the repository: the first two act on a world, cells
  are read through the operations of \<open>Idx_Events\<close>. JSON of a server is a \<open>json\<close> value.
\<close>

section \<open>Types\<close>

datatype sdk_error =
    SdkValidation string
  | SdkConfiguration string
  | SdkApi string "int option"
  | SdkInvoiceNotFound
  | SdkBlockchain string
  | SdkOther type_error

record sdk_config =
  co_network :: string
  co_paymentHubAddress :: string
  co_rpcEndpoint :: "string option"
  co_apiEndpoint :: "string option"

record sdk_invoice =
  si_id :: string
  si_merchantNft :: string
  si_amountTbc :: int
  si_orderId :: "string option"
  si_description :: "string option"
  si_metadata :: "js_value option"
  si_createdAt :: int
  si_expiresAt :: "int option"

record create_params =
  cp_merchantNft :: string
  cp_amountTbc :: int
  cp_orderId :: "string option"
  cp_description :: "string option"
  cp_metadata :: "js_value option"
  cp_expirationSeconds :: "int option"

datatype payment_status = PENDING | SETTLED | EXPIRED

text \<open>What the API returns, with the members the code does not convert kept as JSON.\<close>

record api_invoice =
  ai_id :: json
  ai_merchantNft :: string
  ai_amountTbc :: int
  ai_orderId :: json
  ai_description :: json
  ai_metadata :: json
  ai_createdAt :: json
  ai_expiresAt :: json

record api_settlement =
  as_invoiceId :: json
  as_payerNft :: string
  as_merchantNft :: string
  as_amountTbc :: int
  as_txHash :: json
  as_blockNumber :: json
  as_timestamp :: json
  as_status :: json

record settlement_criteria =
  cr_merchantNft :: string
  cr_amountTbc :: int
  cr_payloadHash :: "int option"

record transaction_verification =
  tv_isValid :: bool
  tv_txHash :: string
  tv_confirmations :: int
  tv_matchesInvoice :: bool
  tv_error :: "string option"

record http_response =
  hr_ok :: bool
  hr_status :: int
  hr_statusText :: string
  hr_json :: "string + json"

record 'c out_message =
  om_type :: string
  om_body :: "'c option"

text \<open>\<open>tr_now\<close> is \<open>None\<close> if the generation time is not finite.\<close>

record 'c ton_transaction =
  tr_now :: "int option"
  tr_type :: string
  tr_aborted :: bool
  tr_outMessages :: "'c out_message list"

text \<open>
  \<open>bigInt\<close> is \<open>BigInt(v)\<close> of a JSON value (the message where it throws) and \<open>num_le v n\<close> the comparison \<open>v <= n\<close> with
  the conversions of the language.
\<close>

record ('c, 'w) sdk_env =
  se_rt :: js_rt
  se_addr :: ton_address
  se_slices :: "'c slice_ops"
  se_now :: "'w \<Rightarrow> int"
  se_fetch :: "string \<Rightarrow> 'w \<Rightarrow> (string + http_response) \<times> 'w"
  se_getTransaction :: "string \<Rightarrow> string \<Rightarrow> string \<Rightarrow> 'w \<Rightarrow> (string + 'c ton_transaction option) \<times> 'w"
  se_getMasterchainInfo :: "'w \<Rightarrow> (string + json) \<times> 'w"
  se_bigInt :: "json \<Rightarrow> string + int"
  se_num_le :: "json \<Rightarrow> int \<Rightarrow> bool"

section \<open>Invoices\<close>

definition sdk_isValidAddress :: "ton_address \<Rightarrow> string \<Rightarrow> bool" where
  "sdk_isValidAddress ta address \<longleftrightarrow> sdk_isValidTonAddress ta address"

fun type_error_message :: "type_error \<Rightarrow> string" where
  "type_error_message (TypeError m) = m"
| "type_error_message (RangeErr m) = m"

text \<open>\<open>now\<close> is \<open>Date.now()\<close>.\<close>

definition sdk_createInvoice :: "js_rt \<Rightarrow> ton_address \<Rightarrow> create_params \<Rightarrow> int \<Rightarrow> sdk_error + sdk_invoice" where
  "sdk_createInvoice rt ta params nowMs =
     (if cp_amountTbc params \<le> 0 then Inl (SdkValidation ''Invoice amount must be positive'')
      else if cp_amountTbc params > MAX_TBC_NANOCOINS then Inl (SdkValidation ''Invoice amount exceeds maximum of 2^120 - 1'')
      else if \<not> sdk_isValidAddress ta (cp_merchantNft params) then Inl (SdkValidation ''Invalid merchant NFT address'')
      else
        let now = nowMs div 1000 in
        case (case cp_metadata params of None \<Rightarrow> Inr None | Some v \<Rightarrow> res_bind (cloneJsonSerializable v) (\<lambda>w. Inr (Some w))) of
          Inl e \<Rightarrow> Inl (SdkValidation (''Invalid invoice metadata: '' @ type_error_message e))
        | Inr metadata \<Rightarrow>
            (case sdk_generateInvoiceId rt ta \<lparr>ii_merchantNft = Address_object (cp_merchantNft params),
                    ii_amountTbc = cp_amountTbc params, ii_orderId = cp_orderId params, ii_timestamp = Ts_int now\<rparr> of
               Inl e \<Rightarrow> Inl (SdkOther e)
             | Inr invoiceId \<Rightarrow>
                 Inr \<lparr>si_id = invoiceId, si_merchantNft = cp_merchantNft params, si_amountTbc = cp_amountTbc params,
                   si_orderId = cp_orderId params, si_description = cp_description params, si_metadata = metadata,
                   si_createdAt = now, si_expiresAt = map_option (\<lambda>s. now + s) (cp_expirationSeconds params)\<rparr>))"

definition sdk_endpoint :: "sdk_config \<Rightarrow> string" where
  "sdk_endpoint config =
     (if or_empty (co_rpcEndpoint config) \<noteq> [] then or_empty (co_rpcEndpoint config)
      else if co_network config = ''mainnet'' then ''https://toncenter.com/api/v2/jsonRPC''
      else ''https://testnet.toncenter.com/api/v2/jsonRPC'')"

text \<open>\<open>Address.parse\<close> of a member: anything that is not the text of an address throws.\<close>

definition parse_member :: "ton_address \<Rightarrow> json \<Rightarrow> string + string" where
  "parse_member ta v =
     (case v of JStr s \<Rightarrow> (case ta_parse ta s of None \<Rightarrow> Inl ''Invalid address'' | Some a \<Rightarrow> Inr a) | _ \<Rightarrow> Inl ''Invalid address'')"

definition sdk_parseInvoice :: "('c, 'w) sdk_env \<Rightarrow> json \<Rightarrow> string + api_invoice" where
  "sdk_parseInvoice se data =
     res_bind (parse_member (se_addr se) (jget ''merchantNft'' data)) (\<lambda>merchant.
     res_bind (se_bigInt se (jget ''amountTbc'' data)) (\<lambda>amount.
       Inr \<lparr>ai_id = jget ''id'' data, ai_merchantNft = merchant, ai_amountTbc = amount, ai_orderId = jget ''orderId'' data,
         ai_description = jget ''description'' data, ai_metadata = jget ''metadata'' data, ai_createdAt = jget ''createdAt'' data,
         ai_expiresAt = jget ''expiresAt'' data\<rparr>))"

definition sdk_parseSettlement :: "('c, 'w) sdk_env \<Rightarrow> json \<Rightarrow> string + api_settlement" where
  "sdk_parseSettlement se data =
     res_bind (parse_member (se_addr se) (jget ''payerNft'' data)) (\<lambda>payer.
     res_bind (parse_member (se_addr se) (jget ''merchantNft'' data)) (\<lambda>merchant.
     res_bind (se_bigInt se (jget ''amountTbc'' data)) (\<lambda>amount.
       Inr \<lparr>as_invoiceId = jget ''invoiceId'' data, as_payerNft = payer, as_merchantNft = merchant, as_amountTbc = amount,
         as_txHash = jget ''txHash'' data, as_blockNumber = jget ''blockNumber'' data, as_timestamp = jget ''timestamp'' data,
         as_status = jget ''status'' data\<rparr>)))"

definition sdk_getInvoice :: "('c, 'w) sdk_env \<Rightarrow> sdk_config \<Rightarrow> string \<Rightarrow> 'w \<Rightarrow> (sdk_error + api_invoice option) \<times> 'w" where
  "sdk_getInvoice se config invoiceId w =
     (if or_empty (co_apiEndpoint config) = []
      then (Inl (SdkConfiguration ''API endpoint not configured. Invoice storage is merchant responsibility.''), w)
      else
        case se_fetch se (or_empty (co_apiEndpoint config) @ ''/invoice/'' @ invoiceId) w of
          (Inl msg, w) \<Rightarrow> (Inl (SdkApi (''Failed to fetch invoice: '' @ msg) None), w)
        | (Inr response, w) \<Rightarrow>
            if \<not> hr_ok response then
              (if hr_status response = 404 then (Inr None, w)
               else (Inl (SdkApi (''API error: '' @ hr_statusText response) (Some (hr_status response))), w))
            else
              (case res_bind (hr_json response) (sdk_parseInvoice se) of
                 Inl msg \<Rightarrow> (Inl (SdkApi (''Failed to fetch invoice: '' @ msg) None), w)
               | Inr invoice \<Rightarrow> (Inr (Some invoice), w)))"

definition sdk_getSettlement :: "('c, 'w) sdk_env \<Rightarrow> sdk_config \<Rightarrow> string \<Rightarrow> 'w \<Rightarrow> api_settlement option \<times> 'w" where
  "sdk_getSettlement se config invoiceId w =
     (if or_empty (co_apiEndpoint config) = [] then (None, w)
      else
        case se_fetch se (or_empty (co_apiEndpoint config) @ ''/settlement/'' @ invoiceId) w of
          (Inl _, w) \<Rightarrow> (None, w)
        | (Inr response, w) \<Rightarrow>
            if \<not> hr_ok response then (None, w)
            else (case res_bind (hr_json response) (sdk_parseSettlement se) of Inl _ \<Rightarrow> (None, w) | Inr s \<Rightarrow> (Some s, w)))"

text \<open>\<open>isExpired(invoice.expiresAt)\<close> on the member as the server sent it.\<close>

definition api_expired :: "('c, 'w) sdk_env \<Rightarrow> json \<Rightarrow> 'w \<Rightarrow> bool" where
  "api_expired se v w = (if v = JUndef then False else se_num_le se v (se_now se w div 1000))"

definition sdk_getInvoiceStatus :: "('c, 'w) sdk_env \<Rightarrow> sdk_config \<Rightarrow> string \<Rightarrow> 'w \<Rightarrow> (sdk_error + payment_status) \<times> 'w" where
  "sdk_getInvoiceStatus se config invoiceId w =
     (let on_chain = (\<lambda>w. case sdk_getSettlement se config invoiceId w of
            (Some s, w) \<Rightarrow> (Inr (if as_status s = JStr ''settled'' then SETTLED else PENDING), w)
          | (None, w) \<Rightarrow> (Inr PENDING, w)) in
      if or_empty (co_apiEndpoint config) = [] then on_chain w
      else
        case sdk_getInvoice se config invoiceId w of
          (Inl e, w) \<Rightarrow> (Inl e, w)
        | (Inr None, w) \<Rightarrow> (Inl SdkInvoiceNotFound, w)
        | (Inr (Some invoice), w) \<Rightarrow> if api_expired se (ai_expiresAt invoice) w then (Inr EXPIRED, w) else on_chain w)"

section \<open>Verification of a settlement\<close>

definition MASTERCHAIN_SHARD :: string where
  "MASTERCHAIN_SHARD = ''-9223372036854775808''"

definition sdk_extractLatestSeqno :: "json \<Rightarrow> int option" where
  "sdk_extractLatestSeqno info =
     (case jget ''latestSeqno'' info of
        JNum n \<Rightarrow> Some n
      | _ \<Rightarrow> (case jget ''seqno'' (jget ''last'' info) of JNum n \<Rightarrow> Some n | _ \<Rightarrow> None))"

definition computeConfirmations :: "int option \<Rightarrow> int option \<Rightarrow> int" where
  "computeConfirmations headSeqno inclusionSeqno =
     (case (headSeqno, inclusionSeqno) of
        (Some h, Some i) \<Rightarrow> let depth = h - i in if depth > 0 then depth else 0
      | _ \<Rightarrow> 0)"

text \<open>\<open>endpoint.replace(/jsonRPC\/?$/i, '')\<close>: the last seven characters, before a final slash.\<close>

definition strip_json_rpc :: "string \<Rightarrow> string" where
  "strip_json_rpc s =
     (let t = (if s \<noteq> [] \<and> last s = CHR ''/'' then butlast s else s); n = length t - 7 in
      if 7 \<le> length t \<and> js_lower (drop n t) = ''jsonrpc'' then take n t else s)"

definition resolveTransactionSeqno :: "('c, 'w) sdk_env \<Rightarrow> sdk_config \<Rightarrow> 'c ton_transaction \<Rightarrow> 'w \<Rightarrow> int option \<times> 'w" where
  "resolveTransactionSeqno se config tx w =
     (case tr_now tx of
        None \<Rightarrow> (None, w)
      | Some t \<Rightarrow>
          (case se_fetch se (strip_json_rpc (sdk_endpoint config) @ ''lookupBlock?workchain=-1&shard='' @ MASTERCHAIN_SHARD
                  @ ''&unixtime='' @ dec_int t) w of
             (Inl _, w) \<Rightarrow> (None, w)
           | (Inr response, w) \<Rightarrow>
               if \<not> hr_ok response then (None, w)
               else (case hr_json response of
                   Inl _ \<Rightarrow> (None, w)
                 | Inr data \<Rightarrow> (case jget ''seqno'' (jget ''result'' data) of JNum n \<Rightarrow> (Some n, w) | _ \<Rightarrow> (None, w)))))"

text \<open>One message: \<open>None\<close> for each \<open>continue\<close>, a decoding that throws included.\<close>

definition message_payment :: "'c slice_ops \<Rightarrow> 'c out_message \<Rightarrow> (string \<times> int \<times> int) option" where
  "message_payment sl message =
     (if om_type message \<noteq> ''external-out'' then None
      else
        case om_body message of
          None \<Rightarrow> None
        | Some slc \<Rightarrow>
            if sl_remainingBits sl slc < 32 then None
            else
              ld (sl_loadUint sl 32) slc (\<lambda>opc slc.
                if opc \<noteq> OP_MERCHANT_PAYMENT then None
                else
                  ld (sl_loadAddress sl) slc (\<lambda>_ slc.
                  ld (sl_loadAddress sl) slc (\<lambda>nft slc.
                  ld (sl_loadCoins sl) slc (\<lambda>amount slc.
                  ld (sl_loadInt sl 257) slc (\<lambda>hash _.
                    Some (nft, amount, hash)))))))"

fun extractMerchantPayment :: "'c slice_ops \<Rightarrow> 'c out_message list \<Rightarrow> (string \<times> int \<times> int) option" where
  "extractMerchantPayment sl [] = None"
| "extractMerchantPayment sl (m # ms) =
     (case message_payment sl m of Some p \<Rightarrow> Some p | None \<Rightarrow> extractMerchantPayment sl ms)"

definition failed_verification :: "string \<Rightarrow> string \<Rightarrow> transaction_verification" where
  "failed_verification txHash msg =
     \<lparr>tv_isValid = False, tv_txHash = txHash, tv_confirmations = 0, tv_matchesInvoice = False, tv_error = Some msg\<rparr>"

definition match_invoice :: "'c slice_ops \<Rightarrow> 'c ton_transaction \<Rightarrow> settlement_criteria option \<Rightarrow> bool \<times> string option" where
  "match_invoice sl tx expected =
     (case expected of
        None \<Rightarrow> (False, Some (''No invoice provided; matchesInvoice cannot be verified. '' @
          ''Pass the target invoice to verifySettlement to enable matching.''))
      | Some x \<Rightarrow>
          (case extractMerchantPayment sl (tr_outMessages tx) of
             None \<Rightarrow> (False, Some ''No MerchantPayment event found in transaction'')
           | Some (nft, amount, hash) \<Rightarrow>
               let matches = nft = cr_merchantNft x \<and> amount = cr_amountTbc x
                 \<and> (cr_payloadHash x = None \<or> cr_payloadHash x = Some hash) in
               (matches, if matches then None else Some ''On-chain payment does not match the expected invoice'')))"

definition verifySettlement :: "('c, 'w) sdk_env \<Rightarrow> sdk_config \<Rightarrow> string \<Rightarrow> settlement_criteria option \<Rightarrow> 'w
    \<Rightarrow> transaction_verification \<times> 'w" where
  "verifySettlement se config txHash expected w =
     (if CHR '':'' \<notin> set txHash then (failed_verification txHash ''Invalid txHash format: expected \"<lt>:<hash>\"'', w)
      else
        let lt = takeWhile (\<lambda>c. c \<noteq> CHR '':'') txHash; hash = drop (Suc (length lt)) txHash in
        case se_getTransaction se (co_paymentHubAddress config) lt hash w of
          (Inl msg, w) \<Rightarrow> (failed_verification txHash msg, w)
        | (Inr None, w) \<Rightarrow> (failed_verification txHash ''Transaction not found'', w)
        | (Inr (Some tx), w) \<Rightarrow>
            (case se_getMasterchainInfo se w of
               (Inl msg, w) \<Rightarrow> (failed_verification txHash msg, w)
             | (Inr info, w) \<Rightarrow>
                 (case resolveTransactionSeqno se config tx w of
                    (inclusionSeqno, w) \<Rightarrow>
                      (let (matches, matchError) = match_invoice (se_slices se) tx expected in
                       (\<lparr>tv_isValid = (tr_type tx = ''generic'' \<and> \<not> tr_aborted tx), tv_txHash = txHash,
                          tv_confirmations = computeConfirmations (sdk_extractLatestSeqno info) inclusionSeqno,
                          tv_matchesInvoice = matches, tv_error = matchError\<rparr>, w)))))"

end
