(* ===== verification/Sdk_Wallet.thy ===== *)
theory Sdk_Wallet
  imports Sdk_Core
begin

text \<open>
  The payment link of the SDK (\<open>sdk/src/walletLink.ts\<close>): the cell of the payment request and the \<open>ton://\<close> URL around it.
  The cell builder is a parameter; \<open>URLSearchParams\<close> is modelled from its serializer and its parser. Characters have
  code points below 256, so their UTF-8 form has one or two bytes.
\<close>

section \<open>The body of the request\<close>

text \<open>A store that does not fit throws its message.\<close>

record ('b, 'c) cell_builder =
  cb_beginCell :: 'b
  cb_storeUint :: "int \<Rightarrow> nat \<Rightarrow> 'b \<Rightarrow> string + 'b"
  cb_storeAddress :: "string \<Rightarrow> 'b \<Rightarrow> string + 'b"
  cb_storeCoins :: "int \<Rightarrow> 'b \<Rightarrow> string + 'b"
  cb_storeMaybeRef :: "'c option \<Rightarrow> 'b \<Rightarrow> string + 'b"
  cb_storeStringTail :: "string \<Rightarrow> 'b \<Rightarrow> string + 'b"
  cb_endCell :: "'b \<Rightarrow> 'c"
  cb_bocBase64url :: "'c \<Rightarrow> string"

definition MERCHANT_PAYMENT_REQUEST_OP :: int where
  "MERCHANT_PAYMENT_REQUEST_OP = 112790503"

definition DEFAULT_WALLET_LINK_NATIVE_AMOUNT :: int where
  "DEFAULT_WALLET_LINK_NATIVE_AMOUNT = 50000000"

definition INVOICE_ID_PAYLOAD_TYPE :: int where
  "INVOICE_ID_PAYLOAD_TYPE = 2"

definition assertAddress :: "ton_address \<Rightarrow> string \<Rightarrow> string \<Rightarrow> string + unit" where
  "assertAddress ta address fieldName = ensure (ta_parse ta address \<noteq> None) (''Invalid '' @ fieldName @ '' address'')"

definition buildDefaultInvoicePayload :: "('b, 'c) cell_builder \<Rightarrow> sdk_invoice \<Rightarrow> string + 'c" where
  "buildDefaultInvoicePayload cb invoice =
     res_bind (cb_storeUint cb INVOICE_ID_PAYLOAD_TYPE 8 (cb_beginCell cb)) (\<lambda>b.
     res_bind (cb_storeStringTail cb (si_id invoice) b) (\<lambda>b. Inr (cb_endCell cb b)))"

definition encodeCellBase64Url :: "('b, 'c) cell_builder \<Rightarrow> 'c \<Rightarrow> string" where
  "encodeCellBase64Url cb c = cb_bocBase64url cb c"

definition address_parse :: "ton_address \<Rightarrow> string \<Rightarrow> string + string" where
  "address_parse ta s = (case ta_parse ta s of None \<Rightarrow> Inl ''Invalid address'' | Some a \<Rightarrow> Inr a)"

definition buildMerchantPaymentRequestBody :: "ton_address \<Rightarrow> ('b, 'c) cell_builder \<Rightarrow> sdk_invoice \<Rightarrow> string \<Rightarrow> 'c option \<Rightarrow> string + 'c" where
  "buildMerchantPaymentRequestBody ta cb invoice payer payload =
     res_bind (cb_storeUint cb MERCHANT_PAYMENT_REQUEST_OP 32 (cb_beginCell cb)) (\<lambda>b.
     res_bind (address_parse ta payer) (\<lambda>p.
     res_bind (cb_storeAddress cb p b) (\<lambda>b.
     res_bind (address_parse ta (si_merchantNft invoice)) (\<lambda>m.
     res_bind (cb_storeAddress cb m b) (\<lambda>b.
     res_bind (cb_storeCoins cb (si_amountTbc invoice) b) (\<lambda>b.
     res_bind (case payload of Some c \<Rightarrow> Inr c | None \<Rightarrow> buildDefaultInvoicePayload cb invoice) (\<lambda>ref.
     res_bind (cb_storeMaybeRef cb (Some ref) b) (\<lambda>b. Inr (cb_endCell cb b)))))))))"

section \<open>The query string\<close>

definition form_plain :: "char \<Rightarrow> bool" where
  "form_plain c \<longleftrightarrow> (let n = of_char c :: nat in 48 \<le> n \<and> n < 58 \<or> 65 \<le> n \<and> n < 91 \<or> 97 \<le> n \<and> n < 123 \<or> n = 42 \<or> n = 45 \<or> n = 46 \<or> n = 95)"

definition utf8_bytes :: "char \<Rightarrow> nat list" where
  "utf8_bytes c = (let n = of_char c in if n < 128 then [n] else [192 + n div 64, 128 + n mod 64])"

definition form_hex :: "nat \<Rightarrow> char" where
  "form_hex n = (if n < 10 then char_of (48 + n) else char_of (55 + n))"

definition percent_byte :: "nat \<Rightarrow> string" where
  "percent_byte b = [CHR ''%'', form_hex (b div 16), form_hex (b mod 16)]"

definition form_char :: "char \<Rightarrow> string" where
  "form_char c = (if form_plain c then [c] else if c = CHR '' '' then ''+'' else concat (map percent_byte (utf8_bytes c)))"

definition form_encode :: "string \<Rightarrow> string" where
  "form_encode s = concat (map form_char s)"

definition search_params :: "(string \<times> string) list \<Rightarrow> string" where
  "search_params kvs = js_join ''&'' (map (\<lambda>(k, v). form_encode k @ ''='' @ form_encode v) kvs)"

section \<open>The link\<close>

record ('c) link_params =
  wl_invoice :: sdk_invoice
  wl_payerNft :: string
  wl_nativeAmountNanoTon :: "int option"
  wl_payload :: "'c option"
  wl_returnUrl :: "string option"

definition link_memo :: "sdk_invoice \<Rightarrow> string" where
  "link_memo invoice = ''TONBANKCARD Payment: '' @ si_id invoice @
     (let d = or_empty (si_description invoice) in if d = [] then [] else '' - '' @ d)"

definition link_amount :: "'c link_params \<Rightarrow> int" where
  "link_amount p = (case wl_nativeAmountNanoTon p of None \<Rightarrow> DEFAULT_WALLET_LINK_NATIVE_AMOUNT | Some n \<Rightarrow> n)"

definition link_query :: "('b, 'c) cell_builder \<Rightarrow> 'c link_params \<Rightarrow> 'c \<Rightarrow> (string \<times> string) list" where
  "link_query cb p body =
     [(''amount'', dec_int (link_amount p)), (''bin'', encodeCellBase64Url cb body), (''text'', link_memo (wl_invoice p))]
     @ (let r = or_empty (wl_returnUrl p) in if r = [] then [] else [(''return'', r)])"

definition buildWalletLink :: "ton_address \<Rightarrow> ('b, 'c) cell_builder \<Rightarrow> sdk_config \<Rightarrow> 'c link_params \<Rightarrow> string + string" where
  "buildWalletLink ta cb config p =
     res_bind (ensure (si_amountTbc (wl_invoice p) > 0) ''Invalid invoice amount'') (\<lambda>_.
     res_bind (assertAddress ta (si_merchantNft (wl_invoice p)) ''merchant NFT'') (\<lambda>_.
     res_bind (assertAddress ta (wl_payerNft p) ''payer NFT'') (\<lambda>_.
     res_bind (assertAddress ta (co_paymentHubAddress config) ''payment hub'') (\<lambda>_.
     res_bind (ensure (link_amount p > 0) ''Native TON amount must be a positive bigint'') (\<lambda>_.
     res_bind (buildMerchantPaymentRequestBody ta cb (wl_invoice p) (wl_payerNft p) (wl_payload p)) (\<lambda>body.
       Inr (''ton://transfer/'' @ co_paymentHubAddress config @ ''?'' @ search_params (link_query cb p body))))))))"

section \<open>Reading a query\<close>

text \<open>The parser of \<open>application/x-www-form-urlencoded\<close>, for text the serializer can have written.\<close>

fun form_bytes :: "string \<Rightarrow> nat list" where
  "form_bytes [] = []"
| "form_bytes (c # s) =
     (if c = CHR ''+'' then 32 # form_bytes s
      else if c = CHR ''%'' then
        (case s of
           h # l # r \<Rightarrow> if is_hex h \<and> is_hex l then (16 * hex_value h + hex_value l) # form_bytes r else 37 # form_bytes s
         | _ \<Rightarrow> 37 # form_bytes s)
      else of_char c # form_bytes s)"

fun utf8_decode :: "nat list \<Rightarrow> string" where
  "utf8_decode [] = []"
| "utf8_decode (b # bs) =
     (if b < 128 then char_of b # utf8_decode bs
      else case bs of [] \<Rightarrow> [] | b' # r \<Rightarrow> char_of ((b - 192) * 64 + (b' - 128)) # utf8_decode r)"

definition form_decode :: "string \<Rightarrow> string" where
  "form_decode s = utf8_decode (form_bytes s)"

definition form_pair :: "string \<Rightarrow> string \<times> string" where
  "form_pair s = (let k = takeWhile (\<lambda>c. c \<noteq> CHR ''='') s in (form_decode k, form_decode (drop (Suc (length k)) s)))"

definition form_parse :: "string \<Rightarrow> (string \<times> string) list" where
  "form_parse s = map form_pair (filter (\<lambda>w. w \<noteq> []) (js_split CHR ''&'' s))"

text \<open>The query of a URL: what follows the first question mark.\<close>

definition url_query :: "string \<Rightarrow> string" where
  "url_query u = drop 1 (dropWhile (\<lambda>c. c \<noteq> CHR ''?'') u)"

lemma nat_of_char_less: "(of_char c :: nat) < 256"
  using of_char_mod_256 [of c, where ?'a = nat] by (metis mod_less_divisor zero_less_numeral)

lemma form_hex_read: "n < 16 \<Longrightarrow> is_hex (form_hex n) \<and> hex_value (form_hex n) = n"
  by (auto simp: form_hex_def is_hex_def hex_value_def Let_def of_char_of is_digit_of_char less_eq_char_def)

definition separators :: "char set" where
  "separators = {CHR ''&'', CHR ''='', CHR ''?''}"

lemma form_hex_sep: "n < 16 \<Longrightarrow> form_hex n \<notin> separators"
proof
  assume n: "n < 16" and "form_hex n \<in> separators"
  then have "(of_char (form_hex n) :: nat) \<in> {38, 61, 63}" by (auto simp: separators_def)
  with n show False by (auto simp: form_hex_def of_char_of split: if_splits)
qed

lemma percent_bytes:
  "b < 256 \<Longrightarrow> form_bytes (percent_byte b @ s) = b # form_bytes s"
  using form_hex_read [of "b div 16"] form_hex_read [of "b mod 16"] by (simp add: percent_byte_def)

lemma utf8_bytes_less: "b \<in> set (utf8_bytes c) \<Longrightarrow> b < 256"
  using nat_of_char_less [of c] less_mult_imp_div_less [of "of_char c" 4 64] by (auto simp: utf8_bytes_def Let_def split: if_splits)

lemma form_plain_not: "form_plain c \<Longrightarrow> c \<noteq> CHR ''+'' \<and> c \<noteq> CHR ''%'' \<and> c \<noteq> CHR ''&'' \<and> c \<noteq> CHR ''='' \<and> c \<noteq> CHR ''?'' \<and> (of_char c :: nat) < 128"
  by (auto simp: form_plain_def Let_def)

lemma form_bytes_char: "form_bytes (form_char c @ s) = utf8_bytes c @ form_bytes s"
proof (cases "form_plain c")
  case True
  then show ?thesis using form_plain_not [OF True] by (simp add: form_char_def utf8_bytes_def)
next
  case False
  have "form_bytes (concat (map percent_byte bs) @ s) = bs @ form_bytes s" if "\<forall>b \<in> set bs. b < 256" for bs
    using that by (induction bs) (simp_all add: percent_bytes)
  with False utf8_bytes_less [of _ c] show ?thesis by (auto simp: form_char_def utf8_bytes_def)
qed

lemma utf8_decode_char: "utf8_decode (utf8_bytes c @ bs) = c # utf8_decode bs"
proof -
  have "(of_char c :: nat) div 64 * 64 + of_char c mod 64 = of_char c" by simp
  then show ?thesis by (simp add: utf8_bytes_def Let_def)
qed

lemma form_decode_encode [simp]: "form_decode (form_encode s) = s"
proof -
  have "form_bytes (form_encode s) = concat (map utf8_bytes s)"
    by (induction s) (simp_all add: form_encode_def form_bytes_char)
  moreover have "utf8_decode (concat (map utf8_bytes s)) = s"
    by (induction s) (simp_all add: utf8_decode_char)
  ultimately show ?thesis by (simp add: form_decode_def)
qed

lemma percent_no_sep: "b < 256 \<Longrightarrow> set (percent_byte b) \<inter> separators = {}"
  using form_hex_sep [of "b div 16"] form_hex_sep [of "b mod 16"]
  by (simp add: percent_byte_def separators_def less_mult_imp_div_less)

lemma form_encode_no_sep: "d \<in> separators \<Longrightarrow> d \<notin> set (form_encode s)"
proof (induction s)
  case (Cons c s)
  have "d \<notin> set (form_char c)"
    using Cons.prems percent_no_sep utf8_bytes_less form_plain_not [of c]
    by (auto simp: form_char_def separators_def)
  with Cons show ?case by (simp add: form_encode_def)
qed (simp add: form_encode_def)

lemma takeWhile_sep: "d \<notin> set p \<Longrightarrow> takeWhile (\<lambda>c. c \<noteq> d) (p @ d # s) = p"
  by (induction p) auto

lemma form_pair_encoded: "form_pair (form_encode k @ ''='' @ form_encode v) = (k, v)"
  using form_encode_no_sep [of "CHR ''=''" k] takeWhile_sep [of "CHR ''=''" "form_encode k" "form_encode v"]
  by (simp add: form_pair_def separators_def Let_def)

lemma js_split_join:
  "ws \<noteq> [] \<Longrightarrow> \<forall>w \<in> set ws. d \<notin> set w \<Longrightarrow> js_split d (js_join [d] ws) = ws"
proof (induction ws)
  case (Cons w ws)
  then show ?case by (cases ws) (simp_all add: js_split_no_sep js_split_append)
qed simp

lemma form_parse_params: "kvs \<noteq> [] \<Longrightarrow> form_parse (search_params kvs) = kvs"
proof -
  assume n: "kvs \<noteq> []"
  let ?ws = "map (\<lambda>(k, v). form_encode k @ ''='' @ form_encode v) kvs"
  have "\<forall>w \<in> set ?ws. CHR ''&'' \<notin> set w" using form_encode_no_sep [of "CHR ''&''"] by (auto simp: separators_def)
  then have "js_split CHR ''&'' (search_params kvs) = ?ws" using n by (simp add: search_params_def js_split_join)
  moreover have "filter (\<lambda>w. w \<noteq> []) ?ws = ?ws" by (simp add: filter_id_conv split_beta)
  moreover have "map form_pair ?ws = kvs" using form_pair_encoded by (induction kvs) auto
  ultimately show ?thesis by (simp add: form_parse_def)
qed

lemma url_query_after: "CHR ''?'' \<notin> set p \<Longrightarrow> url_query (p @ ''?'' @ q) = q"
  by (induction p) (auto simp: url_query_def)

text \<open>
  A payment link is read back as it was meant: the query of every link the SDK builds has exactly the members
  amount, request body, memo and, if there is one, return URL, in that order and with their values, whatever characters the
  invoice identifier, the description or the return URL hold, so none of them adds or replaces a member; the link goes to the
  payment hub, and it is built for positive amounts only.
\<close>

theorem wallet_link_roundtrip:
  assumes link: "buildWalletLink ta cb config p = Inr url" and hub: "CHR ''?'' \<notin> set (co_paymentHubAddress config)"
  shows "\<exists>body. buildMerchantPaymentRequestBody ta cb (wl_invoice p) (wl_payerNft p) (wl_payload p) = Inr body
    \<and> form_parse (url_query url) =
        [(''amount'', dec_int (link_amount p)), (''bin'', cb_bocBase64url cb body),
         (''text'', ''TONBANKCARD Payment: '' @ si_id (wl_invoice p)
            @ (if or_empty (si_description (wl_invoice p)) = [] then [] else '' - '' @ or_empty (si_description (wl_invoice p))))]
        @ (if or_empty (wl_returnUrl p) = [] then [] else [(''return'', or_empty (wl_returnUrl p))])
    \<and> starts_with (''ton://transfer/'' @ co_paymentHubAddress config @ ''?'') url
    \<and> 0 < si_amountTbc (wl_invoice p) \<and> 0 < link_amount p"
proof -
  obtain body where b: "buildMerchantPaymentRequestBody ta cb (wl_invoice p) (wl_payerNft p) (wl_payload p) = Inr body"
    and u: "url = (''ton://transfer/'' @ co_paymentHubAddress config) @ ''?'' @ search_params (link_query cb p body)"
    and pos: "0 < si_amountTbc (wl_invoice p)" "0 < link_amount p"
    using link by (auto simp: buildWalletLink_def result_simps)
  have "url_query url = search_params (link_query cb p body)"
    unfolding u by (rule url_query_after) (use hub in simp)
  then have "form_parse (url_query url) = link_query cb p body" by (simp add: form_parse_params link_query_def)
  then show ?thesis using b pos
    by (intro exI [of _ body]) (simp add: u link_query_def link_memo_def encodeCellBase64Url_def Let_def starts_with_iff)
qed

text \<open>A builder whose cells are the lists of what was stored.\<close>

definition cb0 :: "(string, string) cell_builder" where
  "cb0 = \<lparr>cb_beginCell = [], cb_storeUint = (\<lambda>i n b. Inr (b @ dec_int i)), cb_storeAddress = (\<lambda>a b. Inr (b @ a)),
     cb_storeCoins = (\<lambda>i b. Inr (b @ dec_int i)), cb_storeMaybeRef = (\<lambda>c b. Inr b), cb_storeStringTail = (\<lambda>s b. Inr (b @ s)),
     cb_endCell = (\<lambda>b. b), cb_bocBase64url = (\<lambda>c. c)\<rparr>"

definition link0 :: "string link_params" where
  "link0 = \<lparr>wl_invoice = \<lparr>si_id = ''1&bin=x'', si_merchantNft = ''EQm'', si_amountTbc = 5, si_orderId = None, si_description = None,
      si_metadata = None, si_createdAt = 0, si_expiresAt = None\<rparr>, wl_payerNft = ''EQp'', wl_nativeAmountNanoTon = None,
     wl_payload = Some [], wl_returnUrl = Some ''https://shop/?a=b''\<rparr>"

theorem wallet_link_roundtrip_witness:
  "\<exists>url b. buildWalletLink ta0 cb0 \<lparr>co_network = [], co_paymentHubAddress = ''EQhub'', co_rpcEndpoint = None, co_apiEndpoint = None\<rparr> link0 = Inr url
     \<and> form_parse (url_query url) = [(''amount'', dec_int 50000000), (''bin'', b), (''text'', ''TONBANKCARD Payment: 1&bin=x''),
          (''return'', ''https://shop/?a=b'')]"
proof -
  let ?config = "\<lparr>co_network = [], co_paymentHubAddress = ''EQhub'', co_rpcEndpoint = None, co_apiEndpoint = None\<rparr>"
  obtain url where l: "buildWalletLink ta0 cb0 ?config link0 = Inr url"
    by (simp add: buildWalletLink_def buildMerchantPaymentRequestBody_def link0_def assertAddress_def ta0_def cb0_def
      address_parse_def link_amount_def DEFAULT_WALLET_LINK_NATIVE_AMOUNT_def)
  have "CHR ''?'' \<notin> set (co_paymentHubAddress ?config)" by simp
  from wallet_link_roundtrip [OF l this] l show ?thesis
    by (auto simp: link0_def or_empty_def link_amount_def DEFAULT_WALLET_LINK_NATIVE_AMOUNT_def)
qed

end
