(* ===== verification/Sdk_Core_Props.thy ===== *)
theory Sdk_Core_Props
  imports Sdk_Core
begin

text \<open>
  The SDK's verification of a settlement against the indexer's reading of the same transaction, and the status of an
  invoice.
\<close>

section \<open>Hashes are printed one to one\<close>

definition read_hex :: "string \<Rightarrow> nat" where
  "read_hex s = foldl (\<lambda>a c. 16 * a + hex_value c) 0 s"

lemma read_hex_append [simp]: "read_hex (s @ [c]) = 16 * read_hex s + hex_value c"
  by (simp add: read_hex_def)

lemma hex_value_of_digit: "n < 16 \<Longrightarrow> hex_value (hex_digit n) = n"
  by (auto simp: hex_value_def hex_digit_def Let_def of_char_of)

lemma read_hex_nat: "read_hex (hex_nat n) = n"
proof (induction n rule: hex_nat.induct)
  case (1 n)
  then show ?case
    by (subst hex_nat.simps) (auto simp: hex_value_of_digit read_hex_def)
qed

lemma read_hex_zeros: "read_hex (replicate k CHR ''0'' @ s) = read_hex s"
  by (induction k) (simp_all add: read_hex_def hex_value_def)

lemma hash257_inj: "hash257 h = hash257 h' \<longleftrightarrow> h = h'"
proof
  have pad: "nat x = nat y" if "padStart64 (hex_nat (nat x)) = padStart64 (hex_nat (nat y))" for x y
    using that by (metis padStart64_def read_hex_nat read_hex_zeros)
  assume "hash257 h = hash257 h'"
  then have "nat h = nat h' \<and> h \<ge> 0 \<and> h' \<ge> 0 \<or> nat (- h) = nat (- h') \<and> h < 0 \<and> h' < 0"
    using pad by (auto simp: hash257_def split: if_splits)
  then show "h = h'" by linarith
qed simp

section \<open>Two views of a message\<close>

text \<open>
  The SDK gets parsed messages of the client library, the indexer JSON of the HTTP API: the same kind of message, with
  the same body.
\<close>

definition same_message :: "'c slice_ops \<Rightarrow> 'c out_message \<Rightarrow> json \<Rightarrow> bool" where
  "same_message sl m j \<longleftrightarrow> js_truthy j \<and> (om_type m = ''external-out'' \<longleftrightarrow> isExternalOut j) \<and>
     om_body m = (if js_truthy (message_body j) then sl_fromBase64 sl (jstr (message_body j)) else None)"

text \<open>The first merchant payment among indexed events.\<close>

fun first_payment :: "indexed_event list \<Rightarrow> event_body option" where
  "first_payment [] = None"
| "first_payment ((_, MerchantPayment p m a h) # es) = Some (MerchantPayment p m a h)"
| "first_payment (_ # es) = first_payment es"

definition pays :: "event_body \<Rightarrow> string \<times> int \<times> int \<Rightarrow> bool" where
  "pays e p \<longleftrightarrow> (case p of (m, a, h) \<Rightarrow> \<exists>payer. e = MerchantPayment payer m a (hash257 h))"

definition is_payment :: "event_body \<Rightarrow> bool" where
  "is_payment e \<longleftrightarrow> (\<exists>p m a h. e = MerchantPayment p m a h)"

lemma is_payment_iff [simp]: "is_payment (MerchantPayment p m a h)"
  by (simp add: is_payment_def)

lemma first_payment_Cons:
  "first_payment ((b, e) # es) = (if is_payment e then Some e else first_payment es)"
  by (cases e) (simp_all add: is_payment_def)

lemma decoders_payment:
  "decodeInternalTransferEvent sl c = Some e \<Longrightarrow> \<not> is_payment e"
  "decodeAccountStateChangedEvent sl c = Some e \<Longrightarrow> \<not> is_payment e"
  "decodeNFTOwnershipChange sl msg c opc x = Some e \<Longrightarrow> \<not> is_payment e"
  "decodeProtocolMetricsRecorded sl c = Some e \<Longrightarrow> \<not> is_payment e"
  "decodeLockActivityRecorded sl c = Some e \<Longrightarrow> \<not> is_payment e"
  "decodeParameterChangeRecorded sl c = Some e \<Longrightarrow> \<not> is_payment e"
  by (auto simp: decodeInternalTransferEvent_def decodeAccountStateChangedEvent_def decodeNFTOwnershipChange_def
    decodeProtocolMetricsRecorded_def decodeLockActivityRecorded_def decodeParameterChangeRecorded_def ld_Some is_payment_def Let_def
    split: option.splits if_splits)

lemma route_payment:
  "route_message sl msg c opc x = Some e \<Longrightarrow> is_payment e \<Longrightarrow>
     isExternalOut msg \<and> opc = OP_MERCHANT_PAYMENT \<and> decodeMerchantPaymentEvent sl c = Some e"
  by (auto simp: route_message_def split: if_splits dest: decoders_payment)

lemma route_merchant:
  "isExternalOut msg \<Longrightarrow> route_message sl msg c OP_MERCHANT_PAYMENT x = decodeMerchantPaymentEvent sl c"
  by (simp add: route_message_def op_defs)

lemma decode_merchant_pays:
  "decodeMerchantPaymentEvent sl c = Some e \<Longrightarrow> is_payment e"
  by (auto simp: decodeMerchantPaymentEvent_def ld_Some)

definition payment_body :: "'c slice_ops \<Rightarrow> 'c \<Rightarrow> (string \<times> int \<times> int) option" where
  "payment_body sl slc = ld (sl_loadAddress sl) slc (\<lambda>_ slc. ld (sl_loadAddress sl) slc (\<lambda>nft slc.
     ld (sl_loadCoins sl) slc (\<lambda>amount slc. ld (sl_loadInt sl 257) slc (\<lambda>hash _. Some (nft, amount, hash)))))"

lemma payment_body_None: "payment_body sl c = None \<longleftrightarrow> decodeMerchantPaymentEvent sl c = None"
  by (auto simp: payment_body_def decodeMerchantPaymentEvent_def ld_def split: option.splits)

lemma payment_body_Some:
  "payment_body sl c = Some p \<Longrightarrow> decodeMerchantPaymentEvent sl c = Some e \<Longrightarrow> pays e p"
  by (auto simp: payment_body_def decodeMerchantPaymentEvent_def ld_def pays_def split: option.splits)

lemma message_agrees:
  assumes "same_message sl m j"
  shows "case message_payment sl m of
      None \<Rightarrow> (\<forall>e. parseOutMessage sl j addr base = Some e \<longrightarrow> \<not> is_payment (snd e))
    | Some p \<Rightarrow> (\<exists>e. parseOutMessage sl j addr base = Some (base, e) \<and> is_payment e \<and> pays e p)"
proof -
  have j: "js_truthy j" using assms by (simp add: same_message_def)
  show ?thesis
  proof (cases "om_body m")
    case None
    then have "message_payment sl m = None" by (simp add: message_payment_def)
    moreover have "parseOutMessage sl j addr base = None"
      using assms None by (auto simp: same_message_def parseOutMessage_def split: if_splits)
    ultimately show ?thesis by simp
  next
    case (Some c)
    then have c: "js_truthy (message_body j)" "sl_fromBase64 sl (jstr (message_body j)) = Some c"
      using assms by (auto simp: same_message_def split: if_splits)
    have ext: "om_type m = ''external-out'' \<longleftrightarrow> isExternalOut j" using assms by (simp add: same_message_def)
    show ?thesis
    proof (cases "sl_remainingBits sl c < 32 \<or> sl_loadUint sl 32 c = None")
      case True
      then have "message_payment sl m = None" "parseOutMessage sl j addr base = None"
        using j c Some by (auto simp: message_payment_def parseOutMessage_def ld_def)
      then show ?thesis by simp
    next
      case False
      then obtain opc c' where l: "sl_loadUint sl 32 c = Some (opc, c')" "\<not> sl_remainingBits sl c < 32" by auto
      have mp: "message_payment sl m = (if isExternalOut j \<and> opc = OP_MERCHANT_PAYMENT then payment_body sl c' else None)"
        using l Some ext by (simp add: message_payment_def ld_def [of "sl_loadUint sl 32"] payment_body_def)
      have po: "parseOutMessage sl j addr base = map_option (Pair base) (route_message sl j c' opc addr)"
        using l j c by (simp add: parseOutMessage_def ld_def)
      show ?thesis
      proof (cases "message_payment sl m")
        case None
        then have "\<not> is_payment e" if "route_message sl j c' opc addr = Some e" for e
          using route_payment [OF that] mp payment_body_None [of sl c'] by auto
        with None po show ?thesis by auto
      next
        case (Some p)
        with mp have r: "isExternalOut j" "opc = OP_MERCHANT_PAYMENT" "payment_body sl c' = Some p"
          by (auto split: if_splits)
        then obtain e where e: "decodeMerchantPaymentEvent sl c' = Some e" using payment_body_None [of sl c'] by auto
        with r po Some payment_body_Some [OF r(3) e] decode_merchant_pays [OF e] show ?thesis
          by (simp add: route_merchant)
      qed
    qed
  qed
qed

lemma first_payment_agrees:
  "list_all2 (same_message sl) ms js \<Longrightarrow>
     (case extractMerchantPayment sl ms of
        None \<Rightarrow> first_payment (parse_out_msgs sl addr bn th ts i js) = None
      | Some p \<Rightarrow> (\<exists>e. first_payment (parse_out_msgs sl addr bn th ts i js) = Some e \<and> pays e p))"
proof (induction ms js arbitrary: i rule: list_all2_induct)
  case Nil
  show ?case by simp
next
  case (Cons m ms j js)
  let ?base = "\<lparr>be_blockNumber = bn, be_transactionHash = th, be_timestamp = ts, be_logIndex = i\<rparr>"
  note a = message_agrees [OF Cons(1), of addr ?base]
  show ?case
  proof (cases "message_payment sl m")
    case None
    with a Cons.IH [of "Suc i"] show ?thesis
      by (cases "parseOutMessage sl j addr ?base") (auto simp: first_payment_Cons split: option.splits)
  next
    case (Some p)
    with a show ?thesis by (auto simp: first_payment_Cons)
  qed
qed

text \<open>
  C28. The SDK's authoritative check and the indexer agree on what a transaction pays: for a transaction both see,
  \<open>verifySettlement\<close> reports \<open>matchesInvoice\<close> exactly if the first merchant payment the indexer records for the
  transaction has the invoice's merchant and amount and, where the criteria give a payload hash, that hash; without a
  payment, or without criteria, it reports no match; and its confirmations are the indexer's confirmation depth of the
  including block.
\<close>

theorem settlement_matches_index:
  assumes colon: "CHR '':'' \<in> set txHash"
    and tx: "se_getTransaction se (co_paymentHubAddress config) (takeWhile (\<lambda>c. c \<noteq> CHR '':'') txHash)
      (drop (Suc (length (takeWhile (\<lambda>c. c \<noteq> CHR '':'') txHash))) txHash) w = (Inr (Some t), w1)"
    and info: "se_getMasterchainInfo se w1 = (Inr info, w2)"
    and views: "list_all2 (same_message (se_slices se)) (tr_outMessages t) js"
    and run: "verifySettlement se config txHash expected w = (r, w3)"
  shows "(tv_matchesInvoice r \<longleftrightarrow>
      (\<exists>x payer hash. expected = Some x \<and>
         first_payment (parse_out_msgs (se_slices se) addr bn txHash ts 0 js) =
           Some (MerchantPayment payer (cr_merchantNft x) (cr_amountTbc x) hash) \<and>
         (\<forall>h. cr_payloadHash x = Some h \<longrightarrow> hash = hash257 h)))
    \<and> (\<forall>head incl w'. sdk_extractLatestSeqno info = Some head \<longrightarrow> resolveTransactionSeqno se config t w2 = (Some incl, w') \<longrightarrow>
        tv_confirmations r = confirmationDepth head incl)
    \<and> (tv_isValid r \<longleftrightarrow> tr_type t = ''generic'' \<and> \<not> tr_aborted t)"
proof -
  obtain incl w' where s: "resolveTransactionSeqno se config t w2 = (incl, w')" by fastforce
  have r: "tv_matchesInvoice r = fst (match_invoice (se_slices se) t expected)"
    "tv_confirmations r = computeConfirmations (sdk_extractLatestSeqno info) incl"
    "tv_isValid r \<longleftrightarrow> tr_type t = ''generic'' \<and> \<not> tr_aborted t"
    using run colon tx info s by (auto simp: verifySettlement_def Let_def split: prod.splits)
  note a = first_payment_agrees [OF views, of addr bn txHash ts 0]
  have "fst (match_invoice (se_slices se) t expected) \<longleftrightarrow>
      (\<exists>x payer hash. expected = Some x \<and>
         first_payment (parse_out_msgs (se_slices se) addr bn txHash ts 0 js) =
           Some (MerchantPayment payer (cr_merchantNft x) (cr_amountTbc x) hash) \<and>
         (\<forall>h. cr_payloadHash x = Some h \<longrightarrow> hash = hash257 h))"
  proof (cases "extractMerchantPayment (se_slices se) (tr_outMessages t)")
    case None
    with a show ?thesis by (cases expected) (simp_all add: match_invoice_def)
  next
    case (Some p)
    obtain nft amount hash where p: "p = (nft, amount, hash)" by (cases p)
    with a Some obtain payer where f: "first_payment (parse_out_msgs (se_slices se) addr bn txHash ts 0 js) =
        Some (MerchantPayment payer nft amount (hash257 hash))" by (auto simp: pays_def)
    show ?thesis
    proof (cases expected)
      case None
      then show ?thesis by (simp add: match_invoice_def)
    next
      case (Some x)
      with f p \<open>extractMerchantPayment (se_slices se) (tr_outMessages t) = Some p\<close> show ?thesis
        by (cases "cr_payloadHash x") (auto simp: match_invoice_def Let_def hash257_inj)
    qed
  qed
  moreover have "tv_confirmations r = confirmationDepth head i"
    if "sdk_extractLatestSeqno info = Some head" "resolveTransactionSeqno se config t w2 = (Some i, v)" for head i v
    using that r(2) s by (simp add: computeConfirmations_def confirmationDepth_def Let_def)
  ultimately show ?thesis using r by blast
qed

text \<open>A library whose cells are lists of integers, and a transaction with one payment event.\<close>

definition list_slices :: "int list slice_ops" where
  "list_slices =
     (let first = (\<lambda>c. case c of [] \<Rightarrow> None | x # r \<Rightarrow> Some (x, r)) in
      \<lparr>sl_fromBase64 = (\<lambda>s. Some (map of_char s)), sl_remainingBits = (\<lambda>c. 32 * length c),
       sl_loadUint = (\<lambda>n c. map_option (\<lambda>(x, r). (if n = 32 then OP_MERCHANT_PAYMENT else x, r)) (first c)), sl_loadInt = (\<lambda>n. first),
       sl_loadCoins = first, sl_loadAddress = (\<lambda>c. map_option (\<lambda>(x, r). (dec_int x, r)) (first c)), sl_loadMaybeAddress = (\<lambda>c. None),
       sl_loadBit = (\<lambda>c. None), sl_loadRefString = (\<lambda>c. None)\<rparr>)"

definition se0 :: "(int list, unit) sdk_env" where
  "se0 = \<lparr>se_rt = rt0, se_addr = ta0, se_slices = list_slices, se_now = (\<lambda>_. 0),
     se_fetch = (\<lambda>_ w. (Inl ''offline'', w)),
     se_getTransaction = (\<lambda>_ _ _ w. (Inr (Some \<lparr>tr_now = None, tr_type = ''generic'', tr_aborted = False,
        tr_outMessages = [\<lparr>om_type = ''external-out'', om_body = Some [97, 98, 99, 100, 101]\<rparr>]\<rparr>), w)),
     se_getMasterchainInfo = (\<lambda>w. (Inr (JObj [(''latestSeqno'', JNum 9)]), w)),
     se_bigInt = (\<lambda>_. Inl []), se_num_le = (\<lambda>_ _. False)\<rparr>"

theorem settlement_matches_index_witness:
  "tv_matchesInvoice (fst (verifySettlement se0 \<lparr>co_network = [], co_paymentHubAddress = [], co_rpcEndpoint = None, co_apiEndpoint = None\<rparr>
     ''1:h'' (Some \<lparr>cr_merchantNft = dec_int 99, cr_amountTbc = 100, cr_payloadHash = Some 101\<rparr>) ()))"
proof -
  let ?config = "\<lparr>co_network = [], co_paymentHubAddress = [], co_rpcEndpoint = None, co_apiEndpoint = None\<rparr>"
  let ?x = "\<lparr>cr_merchantNft = dec_int 99, cr_amountTbc = 100, cr_payloadHash = Some 101\<rparr>"
  let ?t = "\<lparr>tr_now = None, tr_type = ''generic'', tr_aborted = False,
    tr_outMessages = [\<lparr>om_type = ''external-out'', om_body = Some [97, 98, 99, 100, 101]\<rparr>]\<rparr> :: int list ton_transaction"
  let ?m = "JObj [(''body'', JStr ''abcde'')]"
  have tx: "se_getTransaction se0 (co_paymentHubAddress ?config) (takeWhile (\<lambda>c. c \<noteq> CHR '':'') ''1:h'')
      (drop (Suc (length (takeWhile (\<lambda>c. c \<noteq> CHR '':'') ''1:h''))) ''1:h'') () = (Inr (Some ?t), ())"
    and info: "se_getMasterchainInfo se0 () = (Inr (JObj [(''latestSeqno'', JNum 9)]), ())"
    by (simp_all add: se0_def)
  have ext: "isExternalOut ?m" by (simp add: isExternalOut_def)
  have views: "list_all2 (same_message (se_slices se0)) (tr_outMessages ?t) [?m]"
    using ext by (simp add: same_message_def se0_def list_slices_def message_body_def Let_def)
  obtain r w where run: "verifySettlement se0 ?config ''1:h'' (Some ?x) () = (r, w)" by (rule prod.exhaust)
  have "first_payment (parse_out_msgs (se_slices se0) [] 1 ''1:h'' 2 0 [?m]) = Some (MerchantPayment (dec_int 98) (dec_int 99) 100 (hash257 101))"
    using ext by (simp add: parseOutMessage_def message_body_def se0_def list_slices_def ld_def route_message_def
      decodeMerchantPaymentEvent_def Let_def op_defs)
  with settlement_matches_index [OF _ tx info views run, of "[]" 1 2] show ?thesis by (simp add: run)
qed

text \<open>An invoice that has a settlement is reported as expired once its time is over.\<close>

lemma expired_before_settlement:
  assumes "or_empty (co_apiEndpoint config) \<noteq> []" "sdk_getInvoice se config i w = (Inr (Some invoice), w1)"
    "api_expired se (ai_expiresAt invoice) w1"
  shows "sdk_getInvoiceStatus se config i w = (Inr EXPIRED, w1)"
  using assms by (simp add: sdk_getInvoiceStatus_def Let_def)

end
