(* ===== verification/Sdk_Mock.thy ===== *)
theory Sdk_Mock
  imports Sdk_Wallet Sdk_Core_Props
begin

text \<open>
  The sandbox provider of the SDK (\<open>sdk/src/mock.ts\<close>): the settlement store and the mock SDK over three maps. Delays
  are left out. The last section compares the mock with the SDK it replaces.
\<close>

section \<open>The settlement store\<close>

record payment_settlement =
  ps_invoiceId :: string
  ps_payerNft :: string
  ps_merchantNft :: string
  ps_amountTbc :: int
  ps_txHash :: string
  ps_blockNumber :: int
  ps_timestamp :: int
  ps_status :: payment_status

type_synonym settlement_store = "(string, payment_settlement) amap"

definition MOCK_PAYER :: string where
  "MOCK_PAYER = ''EQAjHkHtt1MIoU5c7dks73Rz8NMxAA3oStSrcQ_qgn3il-Le''"

text \<open>\<open>payer\<close> is the parsed default payer, \<open>nowMs\<close> the clock.\<close>

definition store_settle :: "string \<Rightarrow> int \<Rightarrow> sdk_invoice \<Rightarrow> string \<Rightarrow> string option \<Rightarrow> int option \<Rightarrow> settlement_store
    \<Rightarrow> payment_settlement \<times> settlement_store" where
  "store_settle payer nowMs invoice txHash payer_nft block_number store =
     (let settlement = \<lparr>ps_invoiceId = si_id invoice, ps_payerNft = (case payer_nft of None \<Rightarrow> payer | Some a \<Rightarrow> a),
            ps_merchantNft = si_merchantNft invoice, ps_amountTbc = si_amountTbc invoice, ps_txHash = txHash,
            ps_blockNumber = (case block_number of None \<Rightarrow> 1000000 | Some n \<Rightarrow> n), ps_timestamp = nowMs div 1000, ps_status = SETTLED\<rparr> in
      (settlement, amap_set (si_id invoice) settlement store))"

definition store_get :: "string \<Rightarrow> settlement_store \<Rightarrow> payment_settlement option" where
  "store_get invoiceId store = amap_get invoiceId store"

definition isSettled :: "string \<Rightarrow> settlement_store \<Rightarrow> bool" where
  "isSettled invoiceId store \<longleftrightarrow> amap_get invoiceId store \<noteq> None"

definition store_clear :: "settlement_store \<Rightarrow> settlement_store" where
  "store_clear store = []"

text \<open>A copy of the map, not the map.\<close>

definition asMap :: "settlement_store \<Rightarrow> settlement_store" where
  "asMap store = store"

section \<open>Accounts\<close>

record account_info =
  ac_nftAddress :: string
  ac_balance :: int
  ac_state :: int
  ac_canSend :: bool
  ac_canReceive :: bool

text \<open>The client's \<open>runMethod\<close> with one address argument, and the readers of the first item of its stack.\<close>

record ('s, 'w) method_client =
  mc_runMethod :: "string \<Rightarrow> string \<Rightarrow> string \<Rightarrow> 'w \<Rightarrow> (string + 's) \<times> 'w"
  mc_readBigNumber :: "'s \<Rightarrow> string + int"
  mc_readNumber :: "'s \<Rightarrow> string + int"
  mc_readBoolean :: "'s \<Rightarrow> string + bool"

definition run_then :: "('s, 'w) method_client \<Rightarrow> sdk_config \<Rightarrow> string \<Rightarrow> string \<Rightarrow> ('s \<Rightarrow> 'w \<Rightarrow> (string + 'a) \<times> 'w) \<Rightarrow> 'w
    \<Rightarrow> (string + 'a) \<times> 'w" where
  "run_then mc config nft method k w =
     (case mc_runMethod mc (co_paymentHubAddress config) method nft w of (Inl msg, w) \<Rightarrow> (Inl msg, w) | (Inr s, w) \<Rightarrow> k s w)"

definition sdk_getAccountInfo :: "('s, 'w) method_client \<Rightarrow> sdk_config \<Rightarrow> string \<Rightarrow> 'w \<Rightarrow> (sdk_error + account_info) \<times> 'w" where
  "sdk_getAccountInfo mc config nft w =
     (case run_then mc config nft ''getBalance'' (\<lambda>balance. run_then mc config nft ''getAccountState'' (\<lambda>state.
           run_then mc config nft ''canSend'' (\<lambda>canSend. run_then mc config nft ''canReceive'' (\<lambda>canReceive w.
             (res_bind (mc_readBigNumber mc balance) (\<lambda>b. res_bind (mc_readNumber mc state) (\<lambda>st.
              res_bind (mc_readBoolean mc canSend) (\<lambda>cs. res_bind (mc_readBoolean mc canReceive) (\<lambda>cr.
                Inr \<lparr>ac_nftAddress = nft, ac_balance = b, ac_state = st, ac_canSend = cs, ac_canReceive = cr\<rparr>)))), w))))) w of
        (Inl msg, w) \<Rightarrow> (Inl (SdkBlockchain (''Failed to fetch account info: '' @ msg)), w)
      | (Inr a, w) \<Rightarrow> (Inr a, w))"

section \<open>The mock SDK\<close>

record mock_options =
  mo_settlements :: "settlement_store option"
  mo_invoices :: "(string, sdk_invoice) amap option"
  mo_accounts :: "(string, account_info) amap option"
  mo_autoApproveSettlements :: "bool option"
  mo_defaultConfirmations :: "int option"

record mock_sdk =
  mk_autoApproveSettlements :: bool
  mk_defaultConfirmations :: int
  mk_invoices :: "(string, sdk_invoice) amap"
  mk_settlements :: settlement_store
  mk_accounts :: "(string, account_info) amap"
  mk_config :: sdk_config

definition or_else :: "'a option \<Rightarrow> 'a \<Rightarrow> 'a" where
  "or_else x d = (case x of None \<Rightarrow> d | Some v \<Rightarrow> v)"

definition new_mock :: "sdk_config \<Rightarrow> mock_options \<Rightarrow> mock_sdk" where
  "new_mock config options =
     \<lparr>mk_autoApproveSettlements = or_else (mo_autoApproveSettlements options) False,
      mk_defaultConfirmations = or_else (mo_defaultConfirmations options) 10,
      mk_invoices = or_else (mo_invoices options) [], mk_settlements = or_else (mo_settlements options) [],
      mk_accounts = or_else (mo_accounts options) [], mk_config = config\<rparr>"

definition mock_isValidAddress :: "string \<Rightarrow> bool" where
  "mock_isValidAddress address \<longleftrightarrow> length address > 0"

definition mock_createInvoice :: "js_rt \<Rightarrow> ton_address \<Rightarrow> create_params \<Rightarrow> int \<Rightarrow> mock_sdk \<Rightarrow> (sdk_error + sdk_invoice) \<times> mock_sdk" where
  "mock_createInvoice rt ta params nowMs mk =
     (if cp_amountTbc params \<le> 0 then (Inl (SdkValidation ''Invoice amount must be positive''), mk)
      else if cp_amountTbc params > MAX_TBC_NANOCOINS then (Inl (SdkValidation ''Invoice amount exceeds maximum of 2^120 - 1''), mk)
      else if \<not> mock_isValidAddress (cp_merchantNft params) then (Inl (SdkValidation ''Invalid merchant NFT address''), mk)
      else
        let now = nowMs div 1000 in
        case (case cp_metadata params of None \<Rightarrow> Inr None | Some v \<Rightarrow> res_bind (cloneJsonSerializable v) (\<lambda>w. Inr (Some w))) of
          Inl e \<Rightarrow> (Inl (SdkValidation (''Invalid invoice metadata: '' @ type_error_message e)), mk)
        | Inr metadata \<Rightarrow>
            (case sdk_generateInvoiceId rt ta \<lparr>ii_merchantNft = Address_object (cp_merchantNft params),
                    ii_amountTbc = cp_amountTbc params, ii_orderId = cp_orderId params, ii_timestamp = Ts_int now\<rparr> of
               Inl e \<Rightarrow> (Inl (SdkOther e), mk)
             | Inr invoiceId \<Rightarrow>
                 (let invoice = \<lparr>si_id = invoiceId, si_merchantNft = cp_merchantNft params, si_amountTbc = cp_amountTbc params,
                       si_orderId = cp_orderId params, si_description = cp_description params, si_metadata = metadata,
                       si_createdAt = now, si_expiresAt = map_option (\<lambda>s. now + s) (cp_expirationSeconds params)\<rparr> in
                  (Inr invoice, mk\<lparr>mk_invoices := amap_set invoiceId invoice (mk_invoices mk)\<rparr>))))"

definition mock_getInvoice :: "string \<Rightarrow> mock_sdk \<Rightarrow> sdk_invoice option" where
  "mock_getInvoice invoiceId mk = amap_get invoiceId (mk_invoices mk)"

definition mock_getInvoiceStatus :: "int \<Rightarrow> string \<Rightarrow> mock_sdk \<Rightarrow> payment_status" where
  "mock_getInvoiceStatus nowMs invoiceId mk =
     (if sdk_isExpired (case amap_get invoiceId (mk_invoices mk) of None \<Rightarrow> None | Some i \<Rightarrow> si_expiresAt i) nowMs then EXPIRED
      else
        case amap_get invoiceId (mk_settlements mk) of
          Some s \<Rightarrow> if ps_status s = SETTLED then SETTLED else PENDING
        | None \<Rightarrow> PENDING)"

definition mock_generateWalletLink :: "ton_address \<Rightarrow> ('b, 'c) cell_builder \<Rightarrow> 'c link_params \<Rightarrow> mock_sdk \<Rightarrow> string + string" where
  "mock_generateWalletLink ta cb p mk = buildWalletLink ta cb (mk_config mk) p"

definition computeMatch :: "payment_settlement option \<Rightarrow> settlement_criteria option \<Rightarrow> bool" where
  "computeMatch settlement expected =
     (case expected of
        None \<Rightarrow> False
      | Some x \<Rightarrow>
          (case settlement of
             None \<Rightarrow> True
           | Some s \<Rightarrow> ps_merchantNft s = cr_merchantNft x \<and> ps_amountTbc s = cr_amountTbc x))"

definition NO_INVOICE_MATCH_NOTE :: string where
  "NO_INVOICE_MATCH_NOTE = ''No invoice provided; matchesInvoice cannot be verified. '' @
     ''Pass the target invoice to verifySettlement to enable matching.''"

definition matchNote :: "payment_settlement option \<Rightarrow> settlement_criteria option \<Rightarrow> bool \<Rightarrow> string option" where
  "matchNote settlement expected matchesInvoice =
     (if expected = None then Some NO_INVOICE_MATCH_NOTE
      else if settlement \<noteq> None \<and> \<not> matchesInvoice then Some ''On-chain payment does not match the expected invoice''
      else None)"

definition mock_verifySettlement :: "string \<Rightarrow> settlement_criteria option \<Rightarrow> mock_sdk \<Rightarrow> transaction_verification" where
  "mock_verifySettlement txHash expected mk =
     (if mk_autoApproveSettlements mk then
        \<lparr>tv_isValid = True, tv_txHash = txHash, tv_confirmations = mk_defaultConfirmations mk,
         tv_matchesInvoice = computeMatch None expected,
         tv_error = (if expected \<noteq> None then None else Some NO_INVOICE_MATCH_NOTE)\<rparr>
      else
        case find (\<lambda>s. ps_txHash s = txHash) (map snd (mk_settlements mk)) of
          Some s \<Rightarrow>
            (let m = computeMatch (Some s) expected in
             \<lparr>tv_isValid = True, tv_txHash = txHash, tv_confirmations = mk_defaultConfirmations mk, tv_matchesInvoice = m,
              tv_error = matchNote (Some s) expected m\<rparr>)
        | None \<Rightarrow> failed_verification txHash ''Transaction not found in mock store'')"

definition mock_getAccountInfo :: "string \<Rightarrow> mock_sdk \<Rightarrow> account_info" where
  "mock_getAccountInfo nft mk =
     (case amap_get nft (mk_accounts mk) of
        Some a \<Rightarrow> a
      | None \<Rightarrow> \<lparr>ac_nftAddress = nft, ac_balance = 0, ac_state = 0, ac_canSend = True, ac_canReceive = True\<rparr>)"

definition registerSettlement :: "payment_settlement \<Rightarrow> mock_sdk \<Rightarrow> mock_sdk" where
  "registerSettlement s mk = mk\<lparr>mk_settlements := amap_set (ps_invoiceId s) s (mk_settlements mk)\<rparr>"

definition registerInvoice :: "sdk_invoice \<Rightarrow> mock_sdk \<Rightarrow> mock_sdk" where
  "registerInvoice invoice mk = mk\<lparr>mk_invoices := amap_set (si_id invoice) invoice (mk_invoices mk)\<rparr>"

definition registerAccount :: "account_info \<Rightarrow> mock_sdk \<Rightarrow> mock_sdk" where
  "registerAccount a mk = mk\<lparr>mk_accounts := amap_set (ac_nftAddress a) a (mk_accounts mk)\<rparr>"

definition simulateSettlement :: "string \<Rightarrow> int \<Rightarrow> string \<Rightarrow> string option \<Rightarrow> mock_sdk \<Rightarrow> string + mock_sdk" where
  "simulateSettlement payer nowMs invoiceId txHash mk =
     (case amap_get invoiceId (mk_invoices mk) of
        None \<Rightarrow> Inl (''Invoice '' @ invoiceId @ '' not found in mock store'')
      | Some invoice \<Rightarrow>
          Inr (mk\<lparr>mk_settlements := amap_set invoiceId
            \<lparr>ps_invoiceId = invoiceId, ps_payerNft = payer, ps_merchantNft = si_merchantNft invoice, ps_amountTbc = si_amountTbc invoice,
             ps_txHash = or_else txHash (''mock_tx_'' @ dec_int nowMs), ps_blockNumber = 1000000, ps_timestamp = nowMs div 1000,
             ps_status = SETTLED\<rparr> (mk_settlements mk)\<rparr>))"

definition mock_reset :: "mock_sdk \<Rightarrow> mock_sdk" where
  "mock_reset mk = mk\<lparr>mk_invoices := [], mk_settlements := [], mk_accounts := []\<rparr>"

section \<open>The mock and the SDK\<close>

text \<open>Invoices are made as the SDK makes them, for an address the SDK accepts, and they are kept.\<close>

lemma mock_creates:
  assumes "sdk_isValidAddress ta (cp_merchantNft params)" "cp_merchantNft params \<noteq> []"
  shows "fst (mock_createInvoice rt ta params nowMs mk) = sdk_createInvoice rt ta params nowMs"
    and "fst (mock_createInvoice rt ta params nowMs mk) = Inr i \<Longrightarrow>
      mock_getInvoice (si_id i) (snd (mock_createInvoice rt ta params nowMs mk)) = Some i"
  using assms
  by (auto simp: mock_createInvoice_def sdk_createInvoice_def mock_isValidAddress_def mock_getInvoice_def amap_get_set Let_def
    split: sum.splits if_splits)

text \<open>
  The mock replaces the SDK: if the mock's first settlement for a transaction records what the transaction's
  payment event says on chain, both return the same validity and the same confirmation of the invoice for criteria without
  payload hash, with the same error text; with a payload hash the SDK confirms exactly if the mock does and the hash on
  chain is that hash, since the mock does not look at it.
\<close>

theorem mock_agrees_with_sdk:
  assumes colon: "CHR '':'' \<in> set txHash"
    and tx: "se_getTransaction se (co_paymentHubAddress config) (takeWhile (\<lambda>c. c \<noteq> CHR '':'') txHash)
      (drop (Suc (length (takeWhile (\<lambda>c. c \<noteq> CHR '':'') txHash))) txHash) w = (Inr (Some t), w1)"
    and info: "se_getMasterchainInfo se w1 = (Inr info, w2)"
    and ok: "tr_type t = ''generic''" "\<not> tr_aborted t"
    and paid: "extractMerchantPayment (se_slices se) (tr_outMessages t) = Some (nft, amount, hash)"
    and recorded: "find (\<lambda>s. ps_txHash s = txHash) (map snd (mk_settlements mk)) = Some s"
    and same: "ps_merchantNft s = nft" "ps_amountTbc s = amount" and auto: "\<not> mk_autoApproveSettlements mk"
    and run: "verifySettlement se config txHash expected w = (r, w3)"
  shows "tv_isValid r = tv_isValid (mock_verifySettlement txHash expected mk)
    \<and> (tv_matchesInvoice r \<longleftrightarrow> tv_matchesInvoice (mock_verifySettlement txHash expected mk)
         \<and> (\<forall>x h. expected = Some x \<longrightarrow> cr_payloadHash x = Some h \<longrightarrow> h = hash))
    \<and> ((\<forall>x. expected = Some x \<longrightarrow> cr_payloadHash x = None) \<longrightarrow> tv_error r = tv_error (mock_verifySettlement txHash expected mk))"
proof -
  have r: "tv_isValid r" "tv_matchesInvoice r = fst (match_invoice (se_slices se) t expected)"
    "tv_error r = snd (match_invoice (se_slices se) t expected)"
    using run colon tx info ok by (auto simp: verifySettlement_def Let_def split: prod.splits)
  have v: "tv_isValid (mock_verifySettlement txHash expected mk)"
    "tv_matchesInvoice (mock_verifySettlement txHash expected mk) = computeMatch (Some s) expected"
    "tv_error (mock_verifySettlement txHash expected mk) = matchNote (Some s) expected (computeMatch (Some s) expected)"
    using auto recorded by (simp_all add: mock_verifySettlement_def Let_def)
  show ?thesis
  proof (cases expected)
    case None
    with r v show ?thesis by (simp add: match_invoice_def computeMatch_def matchNote_def NO_INVOICE_MATCH_NOTE_def)
  next
    case (Some x)
    with r v paid same show ?thesis
      by (cases "cr_payloadHash x") (auto simp: match_invoice_def computeMatch_def matchNote_def Let_def)
  qed
qed

theorem mock_agrees_with_sdk_witness:
  "\<exists>r mk. tv_matchesInvoice r \<and> mock_verifySettlement ''1:h'' (Some \<lparr>cr_merchantNft = dec_int 99, cr_amountTbc = 100, cr_payloadHash = None\<rparr>) mk
       = \<lparr>tv_isValid = True, tv_txHash = ''1:h'', tv_confirmations = 10, tv_matchesInvoice = True, tv_error = None\<rparr>
     \<and> r = fst (verifySettlement se0 \<lparr>co_network = [], co_paymentHubAddress = [], co_rpcEndpoint = None, co_apiEndpoint = None\<rparr> ''1:h''
        (Some \<lparr>cr_merchantNft = dec_int 99, cr_amountTbc = 100, cr_payloadHash = None\<rparr>) ())"
proof -
  let ?config = "\<lparr>co_network = [], co_paymentHubAddress = [], co_rpcEndpoint = None, co_apiEndpoint = None\<rparr>"
  let ?x = "\<lparr>cr_merchantNft = dec_int 99, cr_amountTbc = 100, cr_payloadHash = None\<rparr>"
  let ?s = "\<lparr>ps_invoiceId = ''i'', ps_payerNft = [], ps_merchantNft = dec_int 99, ps_amountTbc = 100, ps_txHash = ''1:h'',
     ps_blockNumber = 1, ps_timestamp = 2, ps_status = SETTLED\<rparr>"
  let ?mk = "\<lparr>mk_autoApproveSettlements = False, mk_defaultConfirmations = 10, mk_invoices = [], mk_settlements = [(''i'', ?s)],
     mk_accounts = [], mk_config = ?config\<rparr>"
  let ?t = "\<lparr>tr_now = None, tr_type = ''generic'', tr_aborted = False,
    tr_outMessages = [\<lparr>om_type = ''external-out'', om_body = Some [97, 98, 99, 100, 101]\<rparr>]\<rparr> :: int list ton_transaction"
  have tx: "se_getTransaction se0 (co_paymentHubAddress ?config) (takeWhile (\<lambda>c. c \<noteq> CHR '':'') ''1:h'')
      (drop (Suc (length (takeWhile (\<lambda>c. c \<noteq> CHR '':'') ''1:h''))) ''1:h'') () = (Inr (Some ?t), ())"
    and info: "se_getMasterchainInfo se0 () = (Inr (JObj [(''latestSeqno'', JNum 9)]), ())"
    by (simp_all add: se0_def)
  have paid: "extractMerchantPayment (se_slices se0) (tr_outMessages ?t) = Some (dec_int 99, 100, 101)"
    by (simp add: message_payment_def se0_def list_slices_def ld_def Let_def)
  obtain r w where run: "verifySettlement se0 ?config ''1:h'' (Some ?x) () = (r, w)" by (rule prod.exhaust)
  have v: "mock_verifySettlement ''1:h'' (Some ?x) ?mk =
      \<lparr>tv_isValid = True, tv_txHash = ''1:h'', tv_confirmations = 10, tv_matchesInvoice = True, tv_error = None\<rparr>"
    by (simp add: mock_verifySettlement_def computeMatch_def matchNote_def Let_def)
  have "tv_matchesInvoice r"
    using mock_agrees_with_sdk [OF _ tx info _ _ paid, of ?mk ?s "Some ?x" r w] run v by simp
  with v run show ?thesis by (intro exI [of _ r] exI [of _ ?mk]) simp
qed

text \<open>A simulated payment settles an invoice that is not expired.\<close>

lemma simulated_settles:
  assumes "simulateSettlement payer nowMs i tx mk = Inr mk'" "mock_getInvoice i mk = Some v" "\<not> sdk_isExpired (si_expiresAt v) t"
  shows "mock_getInvoiceStatus t i mk' = SETTLED"
  using assms by (auto simp: simulateSettlement_def mock_getInvoice_def mock_getInvoiceStatus_def amap_get_set)

end
