(* ===== verification/Wallet_Connect.thy ===== *)
theory Wallet_Connect
  imports Sdk_Wallet Qr_Matrix
begin

text \<open>
  The wallet connection of the wallet interface (\<open>wallet-ui/src/tonconnect\<close>): the registry of wallets (\<open>wallets.ts\<close>), the
  validation of a manifest (\<open>manifest.ts\<close>), connection and transfer links (\<open>deepLink.ts\<close>), and the session with its stored
  state (\<open>connector.ts\<close>). Address parsing, \<open>new URL\<close>, \<open>JSON.parse\<close>, random bytes and the clock are parameters. An operation of
  the session returns the events it emits; what a listener does with them is left out.
\<close>

section \<open>Wallets\<close>

datatype wallet_platform = Ios | Android | Macos | Windows | Linux | Web | Browser_extension

datatype wallet_bridge = Sse_bridge string | Js_bridge string

record ton_wallet =
  tw_id :: string
  tw_name :: string
  tw_aboutUrl :: string
  tw_imageUrl :: string
  tw_platforms :: "wallet_platform list"
  tw_universalLink :: "string option"
  tw_deepLink :: "string option"
  tw_bridge :: "wallet_bridge list"

definition KNOWN_WALLETS :: "ton_wallet list" where
  "KNOWN_WALLETS =
     [\<lparr>tw_id = ''tonkeeper'', tw_name = ''Tonkeeper'', tw_aboutUrl = ''https://tonkeeper.com'',
        tw_imageUrl = ''https://tonkeeper.com/assets/tonconnect-icon.png'',
        tw_platforms = [Ios, Android, Macos, Windows, Linux, Browser_extension],
        tw_universalLink = Some ''https://app.tonkeeper.com/ton-connect?{payload}'',
        tw_deepLink = Some ''tonkeeper-tc://?{payload}'',
        tw_bridge = [Sse_bridge ''https://bridge.tonapi.io/bridge'', Js_bridge ''tonkeeper'']\<rparr>,
      \<lparr>tw_id = ''tonhub'', tw_name = ''Tonhub'', tw_aboutUrl = ''https://tonhub.com'',
        tw_imageUrl = ''https://tonhub.com/tonconnect_logo.png'', tw_platforms = [Ios, Android],
        tw_universalLink = Some ''https://tonhub.com/ton-connect?{payload}'', tw_deepLink = None,
        tw_bridge = [Sse_bridge ''https://connect.tonhubapi.com/tonconnect'']\<rparr>,
      \<lparr>tw_id = ''openmask'', tw_name = ''OpenMask'', tw_aboutUrl = ''https://www.openmask.app'',
        tw_imageUrl = ''https://raw.githubusercontent.com/OpenProduct/openmask-extension/main/public/openmask-logo-288.png'',
        tw_platforms = [Browser_extension], tw_universalLink = None, tw_deepLink = None, tw_bridge = [Js_bridge ''openmask'']\<rparr>,
      \<lparr>tw_id = ''mytonwallet'', tw_name = ''MyTonWallet'', tw_aboutUrl = ''https://mytonwallet.io'',
        tw_imageUrl = ''https://mytonwallet.io/icon-256.png'',
        tw_platforms = [Ios, Android, Macos, Windows, Linux, Web, Browser_extension],
        tw_universalLink = Some ''https://connect.mytonwallet.org?{payload}'',
        tw_deepLink = Some ''mytonwallet-tc://?{payload}'',
        tw_bridge = [Sse_bridge ''https://tonconnectbridge.mytonwallet.org/bridge/'', Js_bridge ''mytonwallet'']\<rparr>]"

definition getWalletById :: "string \<Rightarrow> ton_wallet option" where
  "getWalletById i = (if i = [] then None else find (\<lambda>w. js_lower (tw_id w) = js_lower i) KNOWN_WALLETS)"

fun contains_text :: "string \<Rightarrow> string \<Rightarrow> bool" where
  "contains_text p [] \<longleftrightarrow> p = []"
| "contains_text p (c # s) \<longleftrightarrow> starts_with p (c # s) \<or> contains_text p s"

text \<open>\<open>None\<close> is the platform \<open>unknown\<close>.\<close>

definition detectPlatform :: "string \<Rightarrow> wallet_platform option" where
  "detectPlatform ua =
     (let has = (\<lambda>p. contains_text (js_lower p) (js_lower ua)) in
      if ua = [] then None
      else if has ''iPad'' \<or> has ''iPhone'' \<or> has ''iPod'' then Some Ios
      else if has ''Android'' then Some Android
      else if has ''Mac OS X'' then Some Macos
      else if has ''Windows'' then Some Windows
      else if has ''Linux'' then Some Linux
      else Some Web)"

definition walletsForPlatform :: "wallet_platform option \<Rightarrow> ton_wallet list \<Rightarrow> ton_wallet list" where
  "walletsForPlatform p wallets =
     (case p of None \<Rightarrow> wallets | Some x \<Rightarrow> filter (\<lambda>w. x \<in> set (tw_platforms w)) wallets)"

section \<open>Manifests\<close>

text \<open>Members of a manifest are untyped values; \<open>protocol_of\<close> is the protocol that \<open>new URL\<close> reads, if it accepts the text.\<close>

record connect_manifest =
  cm_url :: json
  cm_name :: json
  cm_iconUrl :: json
  cm_termsOfUseUrl :: json
  cm_privacyPolicyUrl :: json

definition isHttpsUrl :: "(string \<Rightarrow> string option) \<Rightarrow> json \<Rightarrow> bool" where
  "isHttpsUrl protocol_of v = (case v of JStr s \<Rightarrow> s \<noteq> [] \<and> protocol_of s = Some ''https:'' | _ \<Rightarrow> False)"

definition MAX_NAME_LENGTH :: nat where
  "MAX_NAME_LENGTH = 64"

definition validateManifest :: "(string \<Rightarrow> string option) \<Rightarrow> connect_manifest \<Rightarrow> string list" where
  "validateManifest po mf =
     (if \<not> isHttpsUrl po (cm_url mf) then [''url must be a valid HTTPS URL''] else [])
     @ (case cm_name mf of
          JStr n \<Rightarrow> if n = [] then [''name is required'']
            else if length n > MAX_NAME_LENGTH then [''name must be at most '' @ dec MAX_NAME_LENGTH @ '' characters''] else []
        | _ \<Rightarrow> [''name is required''])
     @ (if \<not> isHttpsUrl po (cm_iconUrl mf) then [''iconUrl must be a valid HTTPS URL''] else [])
     @ (if cm_termsOfUseUrl mf \<noteq> JUndef \<and> \<not> isHttpsUrl po (cm_termsOfUseUrl mf)
        then [''termsOfUseUrl must be a valid HTTPS URL when provided''] else [])
     @ (if cm_privacyPolicyUrl mf \<noteq> JUndef \<and> \<not> isHttpsUrl po (cm_privacyPolicyUrl mf)
        then [''privacyPolicyUrl must be a valid HTTPS URL when provided''] else [])"

definition buildManifest :: "(string \<Rightarrow> string option) \<Rightarrow> connect_manifest \<Rightarrow> string + connect_manifest" where
  "buildManifest po mf =
     (let errors = validateManifest po mf in
      if errors = [] then Inr mf else Inl (''Invalid TON Connect manifest: '' @ js_join '', '' errors))"

section \<open>Links\<close>

record transfer_params =
  tp_address :: string
  tp_amount :: "string option"
  tp_text :: "string option"
  tp_bin :: "string option"
  tp_init :: "string option"

record request_item =
  ri_name :: string
  ri_payload :: "string option"

record connect_request =
  rq_v :: int
  rq_manifestUrl :: string
  rq_items :: "request_item list"

definition assertValidAddress :: "ton_address \<Rightarrow> string \<Rightarrow> string + unit" where
  "assertValidAddress ta address =
     (if address = [] then Inl ''address is required''
      else if ta_parse ta address = None then Inl (''invalid TON address: '' @ address) else Inr ())"

definition assertNonNegativeIntegerString :: "string \<Rightarrow> string \<Rightarrow> string + unit" where
  "assertNonNegativeIntegerString s field =
     ensure (s \<noteq> [] \<and> list_all is_digit s) (field @ '' must be a non-negative integer string'')"

definition nonempty_field :: "string \<Rightarrow> string option \<Rightarrow> (string \<times> string) list" where
  "nonempty_field k x = (case x of None \<Rightarrow> [] | Some s \<Rightarrow> if s = [] then [] else [(k, s)])"

definition transfer_query :: "transfer_params \<Rightarrow> (string \<times> string) list" where
  "transfer_query p =
     (case tp_amount p of None \<Rightarrow> [] | Some a \<Rightarrow> [(''amount'', a)])
     @ nonempty_field ''text'' (tp_text p) @ nonempty_field ''bin'' (tp_bin p) @ nonempty_field ''init'' (tp_init p)"

definition buildTonTransferLink :: "ton_address \<Rightarrow> transfer_params \<Rightarrow> string + string" where
  "buildTonTransferLink ta p =
     res_bind (assertValidAddress ta (tp_address p)) (\<lambda>_.
     res_bind (case tp_amount p of None \<Rightarrow> Inr () | Some a \<Rightarrow> assertNonNegativeIntegerString a ''amount'') (\<lambda>_.
       let qs = search_params (transfer_query p) in
       Inr (''ton://transfer/'' @ encodeURIComponent (tp_address p) @ (if qs = [] then [] else ''?'' @ qs))))"

fun check_items :: "request_item list \<Rightarrow> string + unit" where
  "check_items [] = Inr ()"
| "check_items (x # xs) =
     (if ri_name x \<noteq> ''ton_addr'' \<and> ri_name x \<noteq> ''ton_proof'' then Inl (''unknown TON Connect item: '' @ ri_name x)
      else if ri_name x = ''ton_proof'' \<and> or_empty (ri_payload x) = [] then Inl ''ton_proof item requires a payload''
      else check_items xs)"

definition opt_json :: "string option \<Rightarrow> json" where
  "opt_json x = (case x of None \<Rightarrow> JUndef | Some s \<Rightarrow> JStr s)"

definition request_json :: "connect_request \<Rightarrow> json" where
  "request_json r = JObj
     [(''v'', JNum (rq_v r)), (''manifestUrl'', JStr (rq_manifestUrl r)),
      (''items'', JArr (map (\<lambda>x. JObj [(''name'', JStr (ri_name x)), (''payload'', opt_json (ri_payload x))]) (rq_items r)))]"

definition cryptoRandomId :: "8 word list \<Rightarrow> string" where
  "cryptoRandomId bytes = concat (map byte_hex bytes)"

definition encodeTonConnectRequest :: "8 word list \<Rightarrow> connect_request \<Rightarrow> string + string" where
  "encodeTonConnectRequest bytes r =
     (if rq_v r \<noteq> 2 then Inl ''only TON Connect v2 is supported''
      else if rq_manifestUrl r = [] then Inl ''manifestUrl is required''
      else if rq_items r = [] then Inl ''items must be a non-empty array''
      else res_bind (check_items (rq_items r)) (\<lambda>_.
        Inr (''v=2&id='' @ cryptoRandomId bytes @ ''&r='' @ encodeURIComponent (json_enc (request_json r)))))"

text \<open>\<open>String.replace\<close> of a text: its first occurrence. The replacement has no dollar signs, which would be patterns.\<close>

fun replace_first :: "string \<Rightarrow> string \<Rightarrow> string \<Rightarrow> string" where
  "replace_first p r [] = []"
| "replace_first p r (c # s) = (if starts_with p (c # s) then r @ drop (length p) (c # s) else c # replace_first p r s)"

definition orElse :: "string option \<Rightarrow> string option \<Rightarrow> string option" where
  "orElse x y = (case x of None \<Rightarrow> y | Some _ \<Rightarrow> x)"

definition buildWalletConnectLink :: "8 word list \<Rightarrow> ton_wallet \<Rightarrow> string \<Rightarrow> request_item list option \<Rightarrow> bool \<Rightarrow> string + string option" where
  "buildWalletConnectLink bytes wallet manifestUrl items preferDeepLink =
     res_bind (encodeTonConnectRequest bytes \<lparr>rq_v = 2, rq_manifestUrl = manifestUrl,
         rq_items = (case items of None \<Rightarrow> [\<lparr>ri_name = ''ton_addr'', ri_payload = None\<rparr>] | Some xs \<Rightarrow> xs)\<rparr>) (\<lambda>payload.
       let template = or_empty (if preferDeepLink then orElse (tw_deepLink wallet) (tw_universalLink wallet)
                                else orElse (tw_universalLink wallet) (tw_deepLink wallet)) in
       Inr (if template = [] then None else Some (replace_first ''{payload}'' payload template)))"

text \<open>The expression \<open>/\\/ton-connect.*$/\<close> on a text of one line: everything from its first match.\<close>

fun cut_at :: "string \<Rightarrow> string \<Rightarrow> string" where
  "cut_at p [] = []"
| "cut_at p (c # s) = (if starts_with p (c # s) then [] else c # cut_at p s)"

definition buildWalletTransferLink :: "ton_address \<Rightarrow> ton_wallet \<Rightarrow> transfer_params \<Rightarrow> string + string option" where
  "buildWalletTransferLink ta wallet p =
     (let universal = or_empty (tw_universalLink wallet) in
      if universal = [] then Inr None
      else
        res_bind (assertValidAddress ta (tp_address p)) (\<lambda>_.
        let base = cut_at ''/ton-connect'' universal in
        res_bind (buildTonTransferLink ta p) (\<lambda>link.
          let transfer = (if starts_with ''ton://'' link then drop 6 link else link) in
          Inr (Some (base @ ''/'' @ transfer)))))"

definition resolveTonLinks :: "8 word list \<Rightarrow> 8 word list \<Rightarrow> ton_wallet \<Rightarrow> string \<Rightarrow> string + string option \<times> string option" where
  "resolveTonLinks bytes bytes' wallet manifestUrl =
     res_bind (buildWalletConnectLink bytes wallet manifestUrl None False) (\<lambda>primary.
     res_bind (buildWalletConnectLink bytes' wallet manifestUrl None True) (\<lambda>fallback. Inr (primary, fallback)))"

section \<open>The session\<close>

datatype connection_status = Cs_disconnected | Cs_pending | Cs_connected

datatype ton_network = Mainnet | Testnet

text \<open>A restored session holds whatever was stored, so its members are untyped; absent ones are \<open>JUndef\<close>.\<close>

record connection_state =
  cs_status :: connection_status
  cs_walletId :: json
  cs_address :: json
  cs_network :: json
  cs_updatedAt :: json

datatype connector_event = Ev_status connection_state | Ev_connected connection_state ton_wallet | Ev_disconnected

record connect_env =
  ce_ta :: ton_address
  ce_parse :: "string \<Rightarrow> json option"
  ce_protocol :: "string \<Rightarrow> string option"

record connector_options =
  op_manifestUrl :: string
  op_manifest :: "connect_manifest option"
  op_wallets :: "ton_wallet list option"
  op_items :: "request_item list option"
  op_storageKey :: "string option"
  op_network :: "ton_network option"

record connector =
  cn_opts :: connector_options
  cn_state :: connection_state
  cn_storage :: "(string, string) amap"

definition DEFAULT_STORAGE_KEY :: string where
  "DEFAULT_STORAGE_KEY = ''tonbankcard.tonconnect.session''"

definition storage_key :: "connector_options \<Rightarrow> string" where
  "storage_key o' = (case op_storageKey o' of None \<Rightarrow> DEFAULT_STORAGE_KEY | Some k \<Rightarrow> k)"

definition status_string :: "connection_status \<Rightarrow> string" where
  "status_string s = (case s of Cs_disconnected \<Rightarrow> ''disconnected'' | Cs_pending \<Rightarrow> ''pending'' | Cs_connected \<Rightarrow> ''connected'')"

definition status_of :: "json \<Rightarrow> connection_status option" where
  "status_of v =
     (if v = JStr ''pending'' then Some Cs_pending else if v = JStr ''connected'' then Some Cs_connected
      else if v = JStr ''disconnected'' then Some Cs_disconnected else None)"

definition network_json :: "ton_network option \<Rightarrow> json" where
  "network_json n = (case n of None \<Rightarrow> JUndef | Some Mainnet \<Rightarrow> JStr ''mainnet'' | Some Testnet \<Rightarrow> JStr ''testnet'')"

definition no_session :: connection_state where
  "no_session = \<lparr>cs_status = Cs_disconnected, cs_walletId = JUndef, cs_address = JUndef, cs_network = JUndef, cs_updatedAt = JUndef\<rparr>"

definition session_json :: "connection_state \<Rightarrow> json" where
  "session_json s = JObj
     [(''status'', JStr (status_string (cs_status s))), (''walletId'', cs_walletId s), (''address'', cs_address s),
      (''network'', cs_network s), (''updatedAt'', cs_updatedAt s)]"

definition valid_wallet_address :: "ton_address \<Rightarrow> json \<Rightarrow> bool" where
  "valid_wallet_address ta v = (case v of JStr s \<Rightarrow> ta_parse ta s \<noteq> None | _ \<Rightarrow> False)"

definition loadState :: "connect_env \<Rightarrow> connector_options \<Rightarrow> (string, string) amap \<Rightarrow> connection_state \<times> (string, string) amap" where
  "loadState e o' st =
     (let raw = or_empty (amap_get (storage_key o') st);
          cleared = (no_session, amap_delete (storage_key o') st)
      in if raw = [] then (no_session, st)
      else case ce_parse e raw of
        None \<Rightarrow> (no_session, st)
      | Some parsed \<Rightarrow>
          (case status_of (jget ''status'' parsed) of
             None \<Rightarrow> (no_session, st)
           | Some s \<Rightarrow>
               let address = jget ''address'' parsed in
               if js_truthy address \<and> \<not> valid_wallet_address (ce_ta e) address then cleared
               else if s = Cs_connected \<and> \<not> js_truthy address then cleared
               else (\<lparr>cs_status = s, cs_walletId = jget ''walletId'' parsed, cs_address = address,
                      cs_network = jget ''network'' parsed, cs_updatedAt = jget ''updatedAt'' parsed\<rparr>, st)))"

definition new_connector :: "connect_env \<Rightarrow> connector_options \<Rightarrow> (string, string) amap \<Rightarrow> string + connector" where
  "new_connector e o' st =
     (if op_manifestUrl o' = [] then Inl ''manifestUrl is required''
      else
        let errors = (case op_manifest o' of None \<Rightarrow> [] | Some mf \<Rightarrow> validateManifest (ce_protocol e) mf) in
        if errors \<noteq> [] then Inl (''Invalid TON Connect manifest: '' @ js_join '', '' errors)
        else case loadState e o' st of (s, st') \<Rightarrow> Inr \<lparr>cn_opts = o', cn_state = s, cn_storage = st'\<rparr>)"

definition updateState :: "connection_state \<Rightarrow> connector \<Rightarrow> connector_event list \<times> connector" where
  "updateState next_s c =
     (let k = storage_key (cn_opts c) in
      ([Ev_status next_s],
       c\<lparr>cn_state := next_s,
         cn_storage := (if cs_status next_s = Cs_disconnected then amap_delete k (cn_storage c)
                        else amap_set k (json_enc (session_json next_s)) (cn_storage c))\<rparr>))"

definition connect :: "connect_env \<Rightarrow> 8 word list \<Rightarrow> int \<Rightarrow> string \<Rightarrow> connector \<Rightarrow> (string + string) \<times> connector_event list \<times> connector" where
  "connect e bytes now walletId c =
     (case getWalletById walletId of
        None \<Rightarrow> (Inl (''unknown wallet: '' @ walletId), [], c)
      | Some wallet \<Rightarrow>
          (case buildWalletConnectLink bytes wallet (op_manifestUrl (cn_opts c)) (op_items (cn_opts c)) False of
             Inl err \<Rightarrow> (Inl err, [], c)
           | Inr link \<Rightarrow>
               if or_empty link = [] then (Inl (''wallet '' @ walletId @ '' does not expose a connection link''), [], c)
               else (Inr (or_empty link), updateState \<lparr>cs_status = Cs_pending, cs_walletId = JStr (tw_id wallet),
                       cs_address = JUndef, cs_network = network_json (op_network (cn_opts c)), cs_updatedAt = JNum now\<rparr> c)))"

text \<open>The wallet of an untyped id; a truthy id that is no string has no \<open>toLowerCase\<close>.\<close>

definition wallet_of :: "json \<Rightarrow> string + ton_wallet option" where
  "wallet_of v = (case v of JStr s \<Rightarrow> Inr (getWalletById s) | _ \<Rightarrow>
     if js_truthy v then Inl ''id.toLowerCase is not a function'' else Inr None)"

definition applyReply :: "connect_env \<Rightarrow> int \<Rightarrow> string \<Rightarrow> string option \<Rightarrow> connector \<Rightarrow> (string + unit) \<times> connector_event list \<times> connector" where
  "applyReply e now address replyWallet c =
     (if cs_status (cn_state c) \<noteq> Cs_pending then (Inl ''connector is not waiting for a reply'', [], c)
      else if address = [] then (Inl ''reply must include address'', [], c)
      else if \<not> valid_wallet_address (ce_ta e) (JStr address) then (Inl (''invalid TON address: '' @ address), [], c)
      else case wallet_of (case replyWallet of Some w \<Rightarrow> JStr w | None \<Rightarrow> cs_walletId (cn_state c)) of
        Inl err \<Rightarrow> (Inl err, [], c)
      | Inr None \<Rightarrow> (Inl ''reply does not correspond to a known wallet'', [], c)
      | Inr (Some wallet) \<Rightarrow>
          let s = \<lparr>cs_status = Cs_connected, cs_walletId = JStr (tw_id wallet), cs_address = JStr address,
                   cs_network = network_json (op_network (cn_opts c)), cs_updatedAt = JNum now\<rparr>
          in (case updateState s c of (evs, c') \<Rightarrow> (Inr (), evs @ [Ev_connected s wallet], c')))"

definition cancel :: "connector \<Rightarrow> connector_event list \<times> connector" where
  "cancel c = (if cs_status (cn_state c) = Cs_disconnected then ([], c) else updateState no_session c)"

definition disconnect :: "connector \<Rightarrow> connector_event list \<times> connector" where
  "disconnect c =
     (if cs_status (cn_state c) = Cs_disconnected then ([], c)
      else case updateState no_session c of (evs, c') \<Rightarrow> (evs @ [Ev_disconnected], c'))"

definition buildTransferLink :: "connect_env \<Rightarrow> transfer_params \<Rightarrow> connector \<Rightarrow> string + string" where
  "buildTransferLink e p c =
     (if cs_status (cn_state c) \<noteq> Cs_connected \<or> \<not> js_truthy (cs_walletId (cn_state c))
      then Inl ''cannot build transfer link: no wallet connected''
      else
        res_bind (wallet_of (cs_walletId (cn_state c))) (\<lambda>w. case w of
          None \<Rightarrow> Inl ''connected wallet id is no longer known''
        | Some wallet \<Rightarrow>
            res_bind (buildWalletTransferLink (ce_ta e) wallet p) (\<lambda>link.
              if or_empty link = [] then Inl (''wallet '' @ tw_id wallet @ '' does not expose a transfer link'')
              else Inr (or_empty link))))"

end
