(* ===== verification/Wallet_Connect_Props.thy ===== *)
theory Wallet_Connect_Props
  imports Wallet_Connect
begin

text \<open>
  The session of a wallet survives a reload unchanged and is connected only to an address that parses, given in reply to
  a pending request; links carry exactly the members they were given.
\<close>

section \<open>Runs of a session\<close>

datatype session_op = Op_connect "8 word list" int string | Op_reply int string "string option" | Op_cancel | Op_disconnect

definition session_step :: "connect_env \<Rightarrow> session_op \<Rightarrow> connector \<Rightarrow> connector_event list \<times> connector" where
  "session_step e op c = (case op of
       Op_connect bytes now i \<Rightarrow> snd (connect e bytes now i c)
     | Op_reply now a w \<Rightarrow> snd (applyReply e now a w c)
     | Op_cancel \<Rightarrow> cancel c
     | Op_disconnect \<Rightarrow> disconnect c)"

inductive session :: "connect_env \<Rightarrow> connector_options \<Rightarrow> connector \<Rightarrow> bool" for e opts where
  created: "new_connector e opts st = Inr c \<Longrightarrow> session e opts c"
| used: "session e opts c \<Longrightarrow> session_step e op c = (evs, c') \<Longrightarrow> session e opts c'"

text \<open>\<open>JSON.parse\<close> gives back the members of a state that was written.\<close>

definition reads_back :: "connect_env \<Rightarrow> connection_state \<Rightarrow> bool" where
  "reads_back e s \<longleftrightarrow> (\<exists>v. ce_parse e (json_enc (session_json s)) = Some v \<and> (\<forall>k. jget k v = jget k (session_json s)))"

definition state_ok :: "connect_env \<Rightarrow> connection_state \<Rightarrow> bool" where
  "state_ok e s \<longleftrightarrow>
     (js_truthy (cs_address s) \<longrightarrow> valid_wallet_address (ce_ta e) (cs_address s))
     \<and> (cs_status s = Cs_connected \<longrightarrow> js_truthy (cs_address s))"

definition session_ok :: "connect_env \<Rightarrow> connector_options \<Rightarrow> connector \<Rightarrow> bool" where
  "session_ok e opts c \<longleftrightarrow> cn_opts c = opts \<and> state_ok e (cn_state c)
     \<and> (loadState e opts (cn_storage c) = (cn_state c, cn_storage c)
        \<or> amap_get (storage_key opts) (cn_storage c) = Some (json_enc (session_json (cn_state c))))"

lemma load_ok: "loadState e opts st = (s, st') \<Longrightarrow> state_ok e s \<and> loadState e opts st' = (s, st')"
  by (auto simp: loadState_def Let_def state_ok_def no_session_def amap_get_delete or_empty_def split: if_splits option.splits)

lemma load_written:
  assumes "amap_get (storage_key opts) st = Some (json_enc (session_json s))" "reads_back e s" "state_ok e s"
  shows "loadState e opts st = (s, st)"
proof -
  from assms(2) obtain v where v: "ce_parse e (json_enc (session_json s)) = Some v" "\<And>k. jget k v = jget k (session_json s)"
    by (auto simp: reads_back_def)
  have "json_enc (session_json s) \<noteq> []" by (simp add: session_json_def json_enc_def or_null_def json_braces_def)
  moreover have "status_of (JStr (status_string (cs_status s))) = Some (cs_status s)"
    by (cases "cs_status s") (simp_all add: status_of_def status_string_def)
  ultimately show ?thesis
    using assms(1,3) v by (auto simp: loadState_def Let_def or_empty_def state_ok_def session_json_def)
qed

lemma updateState_ok:
  assumes "updateState s c = (evs, c')" "cn_opts c = opts" "state_ok e s" "cs_status s = Cs_disconnected \<longrightarrow> s = no_session"
  shows "session_ok e opts c' \<and> cn_state c' = s"
  using assms by (auto simp: updateState_def Let_def session_ok_def amap_get_set loadState_def amap_get_delete or_empty_def)

lemma no_session_ok [simp]: "state_ok e no_session" "cs_status no_session = Cs_disconnected"
  by (simp_all add: state_ok_def no_session_def)

lemma session_step_cases:
  assumes "session_step e op c = (evs, c')"
  obtains (same) "c' = c"
  | (ended) evs1 where "updateState no_session c = (evs1, c')"
  | (asked) bytes now i wallet evs1 where "op = Op_connect bytes now i" "getWalletById i = Some wallet"
      "updateState \<lparr>cs_status = Cs_pending, cs_walletId = JStr (tw_id wallet), cs_address = JUndef,
         cs_network = network_json (op_network (cn_opts c)), cs_updatedAt = JNum now\<rparr> c = (evs1, c')"
  | (replied) now a w wallet evs1 where "op = Op_reply now a w" "cs_status (cn_state c) = Cs_pending" "a \<noteq> []"
      "ta_parse (ce_ta e) a \<noteq> None" "\<exists>v. wallet_of v = Inr (Some wallet)"
      "updateState \<lparr>cs_status = Cs_connected, cs_walletId = JStr (tw_id wallet), cs_address = JStr a,
         cs_network = network_json (op_network (cn_opts c)), cs_updatedAt = JNum now\<rparr> c = (evs1, c')"
proof (cases op)
  case (Op_connect bytes now i)
  with assms show thesis
    by (auto simp: session_step_def connect_def split: option.splits sum.splits if_splits intro: same asked)
next
  case (Op_reply now a w)
  with assms show thesis
    by (auto simp: session_step_def applyReply_def valid_wallet_address_def Let_def
        split: option.splits sum.splits if_splits prod.splits intro: same replied)
next
  case Op_cancel
  with assms show thesis by (auto simp: session_step_def cancel_def split: if_splits intro: same ended)
next
  case Op_disconnect
  with assms show thesis by (auto simp: session_step_def disconnect_def split: if_splits prod.splits intro: same ended)
qed

lemma session_session_ok: "session e opts c \<Longrightarrow> session_ok e opts c"
proof (induction rule: session.induct)
  case (created st c)
  then show ?case
    by (auto simp: new_connector_def Let_def session_ok_def split: if_splits prod.splits dest: load_ok)
next
  case (used c op evs c')
  have opts: "cn_opts c = opts" using used.IH by (simp add: session_ok_def)
  from used.hyps(2) show ?case
  proof (cases rule: session_step_cases)
    case (replied now a w wallet evs1)
    with updateState_ok [OF replied(6) opts] show ?thesis by (simp add: state_ok_def valid_wallet_address_def)
  next
    case (asked bytes now i wallet evs1)
    with updateState_ok [OF asked(3) opts] show ?thesis by (simp add: state_ok_def)
  qed (use used.IH updateState_ok [OF _ opts] in auto)
qed

lemma session_created:
  assumes "session e opts c"
  shows "\<exists>st. isl (new_connector e opts st) = False"
  using assms by (induction rule: session.induct) (metis sum.disc(2), simp)

text \<open>
  C37. A wallet session is sound and survives a reload. Whatever was stored before and whatever calls were made, a connected
  session holds an address that parses, a new connector over the same storage restores exactly this session, and a call
  that makes a session connected is a reply to a pending request that brings an address that parses and names a known
  wallet. \<open>JSON.parse\<close> reads back the members of the state.
\<close>

theorem wallet_session:
  assumes "session e opts c" "reads_back e (cn_state c)"
  shows "(cs_status (cn_state c) = Cs_connected \<longrightarrow> (\<exists>a. cs_address (cn_state c) = JStr a \<and> ta_parse (ce_ta e) a \<noteq> None))
    \<and> new_connector e opts (cn_storage c) = Inr c
    \<and> (\<forall>op. cs_status (cn_state (snd (session_step e op c))) = Cs_connected \<longrightarrow> cs_status (cn_state c) = Cs_connected
         \<or> cs_status (cn_state c) = Cs_pending \<and> (\<exists>now a w wallet. op = Op_reply now a w \<and> ta_parse (ce_ta e) a \<noteq> None
             \<and> cs_address (cn_state (snd (session_step e op c))) = JStr a \<and> (\<exists>v. wallet_of v = Inr (Some wallet))
             \<and> cs_walletId (cn_state (snd (session_step e op c))) = JStr (tw_id wallet)))"
proof (intro conjI impI allI)
  note ok = session_session_ok [OF assms(1)]
  show "\<exists>a. cs_address (cn_state c) = JStr a \<and> ta_parse (ce_ta e) a \<noteq> None" if "cs_status (cn_state c) = Cs_connected"
    using ok that by (auto simp: session_ok_def state_ok_def valid_wallet_address_def split: json.splits)
  have load: "loadState e opts (cn_storage c) = (cn_state c, cn_storage c)"
    using ok load_written [OF _ assms(2)] by (auto simp: session_ok_def)
  obtain st where "isl (new_connector e opts st) = False" using session_created [OF assms(1)] by blast
  then have "op_manifestUrl opts \<noteq> []" "(case op_manifest opts of None \<Rightarrow> [] | Some mf \<Rightarrow> validateManifest (ce_protocol e) mf) = []"
    by (auto simp: new_connector_def Let_def split: if_splits)
  moreover have "cn_opts c = opts" using ok by (simp add: session_ok_def)
  ultimately show "new_connector e opts (cn_storage c) = Inr c" by (auto simp: new_connector_def Let_def load)
next
  fix op
  obtain evs c' where step: "session_step e op c = (evs, c')" by fastforce
  assume connected: "cs_status (cn_state (snd (session_step e op c))) = Cs_connected"
  have upd: "cn_state c' = s" if "updateState s c = (evs1, c')" for s evs1 using that by (auto simp: updateState_def Let_def)
  from step show "cs_status (cn_state c) = Cs_connected
      \<or> cs_status (cn_state c) = Cs_pending \<and> (\<exists>now a w wallet. op = Op_reply now a w \<and> ta_parse (ce_ta e) a \<noteq> None
             \<and> cs_address (cn_state (snd (session_step e op c))) = JStr a \<and> (\<exists>v. wallet_of v = Inr (Some wallet))
             \<and> cs_walletId (cn_state (snd (session_step e op c))) = JStr (tw_id wallet))"
  proof (cases rule: session_step_cases)
    case same
    with connected step show ?thesis by simp
  next
    case (ended evs1)
    with connected step upd show ?thesis by simp
  next
    case (asked bytes now i wallet evs1)
    with connected step upd [OF asked(3)] show ?thesis by simp
  next
    case (replied now a w wallet evs1)
    with step upd [OF replied(6)] show ?thesis by auto
  qed
qed

definition ce0 :: "string \<Rightarrow> connect_env" where
  "ce0 a = \<lparr>ce_ta = \<lparr>ta_parse = (\<lambda>s. if starts_with ''EQ'' s then Some s else None), ta_raw = (\<lambda>s. s)\<rparr>,
     ce_parse = (\<lambda>s. let v = JObj [(''status'', JStr ''connected''), (''walletId'', JStr ''tonkeeper''), (''address'', JStr a),
         (''network'', JStr ''mainnet''), (''updatedAt'', JNum 7)] in if s = json_enc v then Some v else None),
     ce_protocol = (\<lambda>_. Some ''https:'')\<rparr>"

definition opts0 :: connector_options where
  "opts0 = \<lparr>op_manifestUrl = ''https://tbc.example/manifest.json'', op_manifest = None, op_wallets = None, op_items = None,
     op_storageKey = None, op_network = Some Mainnet\<rparr>"

definition connected0 :: connector where
  "connected0 = \<lparr>cn_opts = opts0,
     cn_state = \<lparr>cs_status = Cs_connected, cs_walletId = JStr ''tonkeeper'', cs_address = JStr ''EQb'', cs_network = JStr ''mainnet'',
       cs_updatedAt = JNum 7\<rparr>,
     cn_storage = [(DEFAULT_STORAGE_KEY, json_enc (JObj [(''status'', JStr ''connected''), (''walletId'', JStr ''tonkeeper''),
       (''address'', JStr ''EQb''), (''network'', JStr ''mainnet''), (''updatedAt'', JNum 7)]))]\<rparr>"

theorem wallet_session_witness:
  "new_connector (ce0 ''EQb'') opts0 (cn_storage connected0) = Inr connected0"
proof -
  have "new_connector (ce0 ''EQb'') opts0 [] = Inr \<lparr>cn_opts = opts0, cn_state = no_session, cn_storage = []\<rparr>" by code_simp
  then have s0: "session (ce0 ''EQb'') opts0 \<lparr>cn_opts = opts0, cn_state = no_session, cn_storage = []\<rparr>" by (rule session.created)
  have "snd (session_step (ce0 ''EQb'') (Op_reply 7 ''EQb'' None)
      (snd (session_step (ce0 ''EQb'') (Op_connect [] 5 ''TonKeeper'') \<lparr>cn_opts = opts0, cn_state = no_session, cn_storage = []\<rparr>))) = connected0"
    by code_simp
  then have "session (ce0 ''EQb'') opts0 connected0"
    by (metis prod.collapse session.used [OF session.used [OF s0]])
  moreover have "reads_back (ce0 ''EQb'') (cn_state connected0)"
    by (simp add: reads_back_def ce0_def connected0_def session_json_def status_string_def Let_def)
  ultimately show ?thesis using wallet_session by blast
qed

section \<open>Links\<close>

lemma upper_hex_plain: "n < 16 \<Longrightarrow> uri_unreserved (upper_hex n)"
proof -
  assume "n < 16"
  moreover have "list_all (\<lambda>n. uri_unreserved (upper_hex n)) [0..<16]" by code_simp
  ultimately show ?thesis by (simp add: list_all_iff del: upt_Suc)
qed

lemma unat_digits: "unat (b :: 8 word) div 16 < 16" "unat (b :: 8 word) mod 16 < 16"
proof -
  have "unat b < 256" using unsigned_less [of b] by simp
  then show "unat b div 16 < 16" "unat b mod 16 < 16" by (simp_all add: less_mult_imp_div_less)
qed

lemma uri_chars: "c \<in> set (encodeURIComponent s) \<Longrightarrow> uri_unreserved c \<or> c = CHR ''%''"
  by (auto simp: encodeURIComponent_def upper_hex_plain unat_digits split: if_splits)

lemma uri_no_separator:
  assumes "d \<in> {CHR ''?'', CHR ''&'', CHR ''='', CHR ''#'', CHR ''/'', CHR ''$''}"
  shows "d \<notin> set (encodeURIComponent s)"
proof -
  have "list_all (\<lambda>d. \<not> uri_unreserved d \<and> d \<noteq> CHR ''%'') [CHR ''?'', CHR ''&'', CHR ''='', CHR ''#'', CHR ''/'', CHR ''$'']"
    by code_simp
  then show ?thesis using assms uri_chars by fastforce
qed

text \<open>
  A transfer link holds exactly what it was given: its query parses back to the members, and no text of a member or of the
  address can add another one.
\<close>

theorem transfer_link_exact:
  assumes "buildTonTransferLink ta p = Inr link" "transfer_query p \<noteq> []"
  shows "form_parse (url_query link) = transfer_query p \<and> ta_parse ta (tp_address p) \<noteq> None"
proof -
  have ne: "search_params (transfer_query p) \<noteq> []"
  proof
    assume "search_params (transfer_query p) = []"
    then have "form_parse [] = transfer_query p" using form_parse_params [OF assms(2)] by simp
    with assms(2) show False by (simp add: form_parse_def js_split.simps)
  qed
  with assms(1) have link: "link = (''ton://transfer/'' @ encodeURIComponent (tp_address p)) @ ''?'' @ search_params (transfer_query p)"
    and addr: "ta_parse ta (tp_address p) \<noteq> None"
    by (auto simp: buildTonTransferLink_def res_bind_eq_Inr assertValidAddress_def Let_def split: if_splits)
  have "CHR ''?'' \<notin> set (''ton://transfer/'' @ encodeURIComponent (tp_address p))" using uri_no_separator by simp
  from url_query_after [OF this] show ?thesis unfolding link using form_parse_params [OF assms(2)] addr by simp
qed

text \<open>The payload of a connection link has no dollar sign, so \<open>replace\<close> takes it literally.\<close>

lemma payload_no_dollar:
  assumes "encodeTonConnectRequest bytes r = Inr payload"
  shows "CHR ''$'' \<notin> set payload"
proof -
  have "CHR ''$'' \<notin> set (byte_hex b)" for b
    using to_hex_lower [of "[b]"] by (auto simp: to_hex_def is_hex_lower_def is_digit_def list_all_iff)
  then show ?thesis using assms uri_no_separator [of "CHR ''$''"]
    by (auto simp: encodeTonConnectRequest_def res_bind_eq_Inr cryptoRandomId_def split: if_splits)
qed

text \<open>The universal link of MyTonWallet has no \<open>/ton-connect\<close>: its transfer links keep the placeholder of the template.\<close>

lemma transfer_link_keeps_placeholder:
  "\<exists>w \<in> set KNOWN_WALLETS. tw_id w = ''mytonwallet'' \<and>
     buildWalletTransferLink (ce_ta (ce0 [])) w \<lparr>tp_address = ''EQb'', tp_amount = Some ''5'', tp_text = None, tp_bin = None, tp_init = None\<rparr>
       = Inr (Some ''https://connect.mytonwallet.org?{payload}/transfer/EQb?amount=5'')"
  by code_simp

text \<open>The wallets a session is configured with do not restrict it.\<close>

lemma wallets_option_ignored:
  "fst (connect e bytes now i (c\<lparr>cn_opts := cn_opts c\<lparr>op_wallets := ws\<rparr>\<rparr>)) = fst (connect e bytes now i c)"
  by (simp add: connect_def split: option.split sum.split)

end
