(* ===== verification/Mobile.thy ===== *)
theory Mobile
  imports Sdk_Wallet Sdk_Amount Api_Validation
begin

text \<open>
  The mobile library and application (\<open>mobile/src\<close>, \<open>mobile-app/src/lib\<close>): amounts and addresses for display, payment links
  and what a scanned link is read as, return URLs, the session of a wallet, requests over pinned HTTPS, and the biometric
  gate in front of a wallet. Address parsing, \<open>new URL\<close> (protocol and host name), \<open>JSON.parse\<close>, the cell builder, the network,
  the device and the clock are parameters. The read-only requests to the API, the listeners of the session and the screens
  are left out.
\<close>

section \<open>Display\<close>

definition mobile_formatTBC :: "string \<Rightarrow> places \<Rightarrow> amount_error + string" where
  "mobile_formatTBC nanocoins decimals =
     (case decimals of
        Finite_places q \<Rightarrow>
          if of_int \<lfloor>q\<rfloor> \<noteq> q \<or> q < 0 \<or> q > 100 then Inl Range_error
          else
            (case js_bigint nanocoins of
               None \<Rightarrow> Inl (Invalid_amount nanocoins)
             | Some amount \<Rightarrow>
                 let decimalPlaces = nat \<lfloor>q\<rfloor>;
                     sign = (if amount < 0 then ''-'' else []);
                     absoluteAmount = (if amount < 0 then - amount else amount);
                     scale = 10 ^ decimalPlaces;
                     rounded = (absoluteAmount * scale + NANOCOINS_PER_TBC div 2) div NANOCOINS_PER_TBC;
                     integerPart = rounded div scale
                 in if decimalPlaces = 0 then Inr (sign @ dec_int integerPart)
                    else Inr (sign @ dec_int integerPart @ ''.'' @ padStart0 decimalPlaces (dec_int (rounded mod scale))))
      | _ \<Rightarrow> Inl Range_error)"

definition mobile_shortAddress :: "string \<Rightarrow> nat \<Rightarrow> string" where
  "mobile_shortAddress address chars =
     (if length address \<le> chars * 2 + 3 then address
      else take chars address @ ''...'' @ (if chars = 0 then address else drop (length address - chars) address))"

definition time_ago :: "int \<Rightarrow> string \<Rightarrow> string" where
  "time_ago n unit_name = (if n = 1 then ''1 '' @ unit_name @ '' ago'' else dec_int n @ '' '' @ unit_name @ ''s ago'')"

definition formatRelativeTime :: "int \<Rightarrow> int \<Rightarrow> string" where
  "formatRelativeTime now timestamp =
     (let diff = now - timestamp in
      if diff < 0 then ''in the future''
      else if diff < 60 then time_ago diff ''second''
      else if diff div 60 < 60 then time_ago (diff div 60) ''minute''
      else if diff div 3600 < 24 then time_ago (diff div 3600) ''hour''
      else if diff div 86400 < 30 then time_ago (diff div 86400) ''day''
      else if diff div 2592000 < 12 then time_ago (diff div 2592000) ''month''
      else time_ago (diff div 31536000) ''year'')"

definition parseDecimalToNanocoins :: "string \<Rightarrow> string + string" where
  "parseDecimalToNanocoins decimal =
     (let trimmed = js_trim decimal;
          whole = takeWhile is_digit trimmed;
          invalid = Inl (''Invalid TBC amount: '' @ decimal);
          value = (\<lambda>f. Inr (dec_int (int (digits_val whole) * 1000000000 + int (digits_val (take 9 (f @ ''000000000''))))))
      in if trimmed = [] then Inl ''Empty amount''
         else if whole = [] then invalid
         else case dropWhile is_digit trimmed of
           [] \<Rightarrow> value []
         | c # f \<Rightarrow> if c = CHR ''.'' \<and> f \<noteq> [] \<and> length f \<le> 9 \<and> list_all is_digit f then value f else invalid)"

section \<open>Return URLs and configuration\<close>

type_synonym url_parser = "string \<Rightarrow> (string \<times> string) option"

definition isAllowedReturnUrl :: "url_parser \<Rightarrow> string list option \<Rightarrow> string \<Rightarrow> bool" where
  "isAllowedReturnUrl parse allowedHosts url \<longleftrightarrow>
     url \<noteq> [] \<and> url = js_trim url \<and>
     (case parse url of
        None \<Rightarrow> False
      | Some (protocol, hostname) \<Rightarrow>
          protocol = ''https:'' \<and>
          (case allowedHosts of None \<Rightarrow> True
           | Some hosts \<Rightarrow> hosts = [] \<or> list_ex (\<lambda>h. js_lower h = js_lower hostname) hosts))"

definition assertReturnUrl :: "url_parser \<Rightarrow> string list option \<Rightarrow> string \<Rightarrow> string + string" where
  "assertReturnUrl parse allowedHosts url =
     (if isAllowedReturnUrl parse allowedHosts url then Inr url else Inl (''Invalid return URL: '' @ url))"

record certificate_pin =
  cp_host :: string
  cp_sha256Pins :: "string list"

record mobile_config =
  mo_network :: string
  mo_paymentHubAddress :: string
  mo_rpcEndpoint :: "string option"
  mo_apiEndpoint :: "string option"
  mo_allowedReturnUrlHosts :: "string list option"

record app_config = mobile_config +
  ac_tonConnectManifestUrl :: string
  ac_appName :: string
  ac_appUrl :: string
  ac_certificatePins :: "certificate_pin list option"
  ac_biometricPayments :: bool
  ac_biometricUnlock :: bool

definition assertHttpsEndpoint :: "url_parser \<Rightarrow> string option \<Rightarrow> string \<Rightarrow> string + unit" where
  "assertHttpsEndpoint parse url fieldName =
     (let u = or_empty url in
      if u = [] then Inr ()
      else ensure (map_option fst (parse u) = Some ''https:'') (fieldName @ '' must use HTTPS, received: '' @ u))"

definition validateAppConfig :: "url_parser \<Rightarrow> app_config \<Rightarrow> string + app_config" where
  "validateAppConfig parse cf =
     res_bind (ensure (mo_paymentHubAddress cf \<noteq> []) ''paymentHubAddress is required'') (\<lambda>_.
     res_bind (ensure (mo_network cf = ''mainnet'' \<or> mo_network cf = ''testnet'')
       (''network must be '' @ json_quote ''mainnet'' @ '' or '' @ json_quote ''testnet'')) (\<lambda>_.
     res_bind (assertHttpsEndpoint parse (mo_apiEndpoint cf) ''apiEndpoint'') (\<lambda>_.
     res_bind (assertHttpsEndpoint parse (mo_rpcEndpoint cf) ''rpcEndpoint'') (\<lambda>_.
     res_bind (assertHttpsEndpoint parse (Some (ac_tonConnectManifestUrl cf)) ''tonConnectManifestUrl'') (\<lambda>_.
     res_bind (assertHttpsEndpoint parse (Some (ac_appUrl cf)) ''appUrl'') (\<lambda>_.
     res_bind (ensure (case ac_certificatePins cf of None \<Rightarrow> True
         | Some pins \<Rightarrow> list_all (\<lambda>p. cp_host p \<noteq> [] \<and> cp_sha256Pins p \<noteq> []) pins)
       ''certificatePins entries require host and at least one sha256Pin'') (\<lambda>_. Inr cf)))))))"

section \<open>Payment links\<close>

record payment_request =
  pr_payerNft :: "string option"
  pr_merchantNft :: string
  pr_amountTbc :: string
  pr_orderId :: "string option"
  pr_description :: "string option"
  pr_returnUrl :: "string option"

definition link_invoice :: "payment_request \<Rightarrow> string \<Rightarrow> int \<Rightarrow> int \<Rightarrow> sdk_invoice" where
  "link_invoice r merchant amount now =
     \<lparr>si_id = (if or_empty (pr_orderId r) = [] then ''mobile-payment'' else or_empty (pr_orderId r)),
      si_merchantNft = merchant, si_amountTbc = amount, si_orderId = None, si_description = pr_description r,
      si_metadata = None, si_createdAt = now, si_expiresAt = None\<rparr>"

definition generatePaymentLink :: "ton_address \<Rightarrow> ('b, 'c) cell_builder \<Rightarrow> url_parser \<Rightarrow> int \<Rightarrow> ('z) mobile_config_scheme \<Rightarrow> payment_request \<Rightarrow>
    string + string" where
  "generatePaymentLink ta cb parse now cf r =
     res_bind (ensure (ta_parse ta (pr_merchantNft r) \<noteq> None) (''Invalid merchant NFT address: '' @ pr_merchantNft r)) (\<lambda>_.
     res_bind (ensure (pr_amountTbc r \<noteq> [] \<and> list_all is_digit (pr_amountTbc r)) (''Invalid amount: '' @ pr_amountTbc r)) (\<lambda>_.
     res_bind (ensure (or_empty (pr_payerNft r) \<noteq> []) ''payerNft is required'') (\<lambda>_.
     res_bind (if or_empty (pr_returnUrl r) = [] then Inr None
       else res_bind (assertReturnUrl parse (mo_allowedReturnUrlHosts cf) (or_empty (pr_returnUrl r))) (\<lambda>u. Inr (Some u))) (\<lambda>returnUrl.
     res_bind (address_parse ta (mo_paymentHubAddress cf)) (\<lambda>hub.
     res_bind (address_parse ta (or_empty (pr_payerNft r))) (\<lambda>payer.
     res_bind (address_parse ta (pr_merchantNft r)) (\<lambda>merchant.
       buildWalletLink ta cb
         \<lparr>co_network = mo_network cf, co_paymentHubAddress = hub, co_rpcEndpoint = mo_rpcEndpoint cf, co_apiEndpoint = mo_apiEndpoint cf\<rparr>
         \<lparr>wl_invoice = link_invoice r merchant (int (digits_val (pr_amountTbc r))) now, wl_payerNft = payer,
          wl_nativeAmountNanoTon = None, wl_payload = None, wl_returnUrl = returnUrl\<rparr>)))))))"

record payment_link_result =
  pl_request :: payment_request
  pl_link :: string
  pl_amountFormatted :: string

text \<open>\<open>BigInt\<close> of an amount that is not an integer throws; so does the formatter.\<close>

definition buildPaymentLink :: "ton_address \<Rightarrow> ('b, 'c) cell_builder \<Rightarrow> url_parser \<Rightarrow> int \<Rightarrow> ('z) mobile_config_scheme \<Rightarrow> payment_request \<Rightarrow>
    string + payment_link_result" where
  "buildPaymentLink ta cb parse now cf r =
     res_bind (ensure (ta_parse ta (pr_merchantNft r) \<noteq> None) (''Invalid merchant NFT address: '' @ pr_merchantNft r)) (\<lambda>_.
     res_bind (case js_bigint (pr_amountTbc r) of None \<Rightarrow> Inl (''Cannot convert '' @ pr_amountTbc r @ '' to a BigInt'') | Some n \<Rightarrow> Inr n) (\<lambda>amount.
     res_bind (ensure (amount > 0) ''Payment amount must be a positive integer in nanocoins'') (\<lambda>_.
     res_bind (generatePaymentLink ta cb parse now cf r) (\<lambda>link.
       (case mobile_formatTBC (pr_amountTbc r) (Finite_places 2) of
          Inl _ \<Rightarrow> Inl (''Cannot convert '' @ pr_amountTbc r @ '' to a BigInt'')
        | Inr s \<Rightarrow> Inr \<lparr>pl_request = r, pl_link = link, pl_amountFormatted = s @ '' TBC''\<rparr>)))))"

datatype wallet_scheme = Ws_tonkeeper | Ws_tonhub | Ws_mytonwallet | Ws_openmask | Ws_universal

record deep_link_bundle =
  db_tonLink :: string
  db_walletLink :: string
  db_scheme :: wallet_scheme

definition UNIVERSAL_HOST :: "wallet_scheme \<Rightarrow> string" where
  "UNIVERSAL_HOST s = (case s of
       Ws_tonkeeper \<Rightarrow> ''https://app.tonkeeper.com/transfer/''
     | Ws_tonhub \<Rightarrow> ''https://tonhub.com/transfer/''
     | Ws_mytonwallet \<Rightarrow> ''https://connect.mytonwallet.org/transfer/''
     | Ws_openmask \<Rightarrow> ''https://wallet.openmask.app/transfer/''
     | Ws_universal \<Rightarrow> [])"

text \<open>The links of the library always have a query, so the slice up to the question mark is the recipient.\<close>

definition buildPaymentDeepLink :: "ton_address \<Rightarrow> ('b, 'c) cell_builder \<Rightarrow> url_parser \<Rightarrow> int \<Rightarrow> ('z) mobile_config_scheme \<Rightarrow> payment_request \<Rightarrow>
    wallet_scheme option \<Rightarrow> string + deep_link_bundle" where
  "buildPaymentDeepLink ta cb parse now cf r sch =
     res_bind (ensure (ta_parse ta (pr_merchantNft r) \<noteq> None) (''Invalid merchant NFT address: '' @ pr_merchantNft r)) (\<lambda>_.
     res_bind (generatePaymentLink ta cb parse now cf r) (\<lambda>tonLink.
       let scheme = (case sch of None \<Rightarrow> Ws_universal | Some s \<Rightarrow> s);
           recipient = drop 15 (takeWhile (\<lambda>c. c \<noteq> CHR ''?'') tonLink);
           search = dropWhile (\<lambda>c. c \<noteq> CHR ''?'') tonLink
       in Inr \<lparr>db_tonLink = tonLink,
            db_walletLink = (if scheme = Ws_universal then tonLink else UNIVERSAL_HOST scheme @ recipient @ search),
            db_scheme = scheme\<rparr>))"

section \<open>Scanned links\<close>

text \<open>
  \<open>decodeURIComponent\<close> on text of the first 256 code points; \<open>None\<close> where it throws, and for a code point beyond them, which
  no address contains.
\<close>

fun decodeURIComponent :: "string \<Rightarrow> string option" where
  "decodeURIComponent [] = Some []"
| "decodeURIComponent (c # s) =
     (if c \<noteq> CHR ''%'' then map_option (Cons c) (decodeURIComponent s)
      else case s of
        h # l # r \<Rightarrow>
          (if \<not> (is_hex h \<and> is_hex l) then None
           else let b = 16 * hex_value h + hex_value l in
             if b < 128 then map_option (Cons (char_of b)) (decodeURIComponent r)
             else if 194 \<le> b \<and> b \<le> 195 then
               (case r of
                  p # h2 # l2 # r2 \<Rightarrow>
                    (let b2 = 16 * hex_value h2 + hex_value l2 in
                     if p = CHR ''%'' \<and> is_hex h2 \<and> is_hex l2 \<and> 128 \<le> b2 \<and> b2 < 192
                     then map_option (Cons (char_of ((b - 192) * 64 + (b2 - 128)))) (decodeURIComponent r2) else None)
                | _ \<Rightarrow> None)
             else None)
      | _ \<Rightarrow> None)"

record parsed_ton_link =
  pt_recipient :: string
  pt_amount :: "string option"
  pt_text :: "string option"
  pt_returnUrl :: "string option"

text \<open>
  \<open>URLSearchParams\<close> drops one leading question mark; the members are read by \<open>form_parse\<close>, which is exact for text of the
  ASCII characters whose escapes are well formed, as the serializer writes it.
\<close>

text \<open>\<open>TON_LINK_RE\<close>, \<open>^ton:\/\/transfer\/([^?]+)\?(.+)$\<close>: the recipient and the query.\<close>

definition match_TON_LINK :: "string \<Rightarrow> (string \<times> string) option" where
  "match_TON_LINK link =
     (let rest = drop 15 link;
          recipient = takeWhile (\<lambda>c. c \<noteq> CHR ''?'') rest;
          query = drop (Suc (length recipient)) rest
      in if starts_with ''ton://transfer/'' link \<and> recipient \<noteq> [] \<and> query \<noteq> [] \<and> CHR 0x0A \<notin> set query \<and> CHR 0x0D \<notin> set query
         then Some (recipient, query) else None)"

definition parseTonLink :: "ton_address \<Rightarrow> url_parser \<Rightarrow> string list option \<Rightarrow> string \<Rightarrow> parsed_ton_link option" where
  "parseTonLink ta parse allowedHosts link =
     (case match_TON_LINK link of
        None \<Rightarrow> None
      | Some (encodedRecipient, query) \<Rightarrow>
          (case decodeURIComponent encodedRecipient of
             None \<Rightarrow> None
           | Some recipient \<Rightarrow>
               let params = map_of (form_parse (if starts_with ''?'' query then drop 1 query else query)); returnUrl = params ''return'' in
               if ta_parse ta recipient = None then None
               else if or_empty returnUrl \<noteq> [] \<and> \<not> isAllowedReturnUrl parse allowedHosts (or_empty returnUrl) then None
               else Some \<lparr>pt_recipient = recipient, pt_amount = params ''amount'',
                 pt_text = (if or_empty (params ''text'') = [] then None else params ''text''), pt_returnUrl = returnUrl\<rparr>))"

definition tryParseTonLink :: "ton_address \<Rightarrow> url_parser \<Rightarrow> string \<Rightarrow> parsed_ton_link option" where
  "tryParseTonLink ta parse raw =
     (case parseTonLink ta parse None (js_trim raw) of
        None \<Rightarrow> None
      | Some p \<Rightarrow>
          if ta_parse ta (pt_recipient p) = None then None
          else if or_empty (pt_amount p) \<noteq> [] \<and> \<not> list_all is_digit (or_empty (pt_amount p)) then None
          else Some p)"

text \<open>A scanned payment has the members of a parsed link.\<close>

definition parseScannedPayment :: "ton_address \<Rightarrow> url_parser \<Rightarrow> string \<Rightarrow> parsed_ton_link option" where
  "parseScannedPayment ta parse raw =
     (case tryParseTonLink ta parse raw of
        Some p \<Rightarrow> Some p
      | None \<Rightarrow>
          if ta_parse ta (js_trim raw) \<noteq> None
          then Some \<lparr>pt_recipient = js_trim raw, pt_amount = None, pt_text = None, pt_returnUrl = None\<rparr> else None)"

section \<open>Requests over pinned HTTPS\<close>

datatype https_error = Https_only string | Pinning string string | Https_other string

record ('w, 'r) https_client =
  hc_pins :: "certificate_pin list option"
  hc_provider :: "(string \<Rightarrow> string \<Rightarrow> 'w \<Rightarrow> (string + string option) \<times> 'w) option"
  hc_validator :: "(string \<Rightarrow> string \<Rightarrow> 'w \<Rightarrow> (string + unit) \<times> 'w) option"
  hc_fetch :: "string \<Rightarrow> 'w \<Rightarrow> (string + 'r) \<times> 'w"

definition pinsFor :: "('w, 'r) https_client \<Rightarrow> string \<Rightarrow> string list" where
  "pinsFor c host =
     (let pins = fold (\<lambda>p. amap_set (cp_host p) (cp_sha256Pins p)) (case hc_pins c of None \<Rightarrow> [] | Some ps \<Rightarrow> ps) [] in
      case amap_get host pins of None \<Rightarrow> [] | Some ps \<Rightarrow> ps)"

definition check_pins :: "('w, 'r) https_client \<Rightarrow> string \<Rightarrow> string \<Rightarrow> 'w \<Rightarrow> (https_error + unit) \<times> 'w" where
  "check_pins c host url w =
     (case hc_provider c of
        None \<Rightarrow> (Inl (Pinning host ''live certificate fingerprint is unavailable''), w)
      | Some provider \<Rightarrow>
          (case provider host url w of
             (Inl err, w) \<Rightarrow> (Inl (Https_other err), w)
           | (Inr live, w) \<Rightarrow>
               if or_empty live = [] then (Inl (Pinning host ''live certificate fingerprint is unavailable''), w)
               else if or_empty live \<notin> set (pinsFor c host)
                 then (Inl (Pinning host ''live certificate fingerprint does not match configured pins''), w)
               else (case hc_validator c of
                 None \<Rightarrow> (Inr (), w)
               | Some validate \<Rightarrow> (case validate host (or_empty live) w of
                     (Inl err, w) \<Rightarrow> (Inl (Https_other err), w) | (Inr _, w) \<Rightarrow> (Inr (), w)))))"

definition https_fetch :: "url_parser \<Rightarrow> ('w, 'r) https_client \<Rightarrow> string \<Rightarrow> string option \<Rightarrow> 'w \<Rightarrow> (https_error + 'r) \<times> 'w" where
  "https_fetch parse c url init_host w =
     (if url \<noteq> js_trim url \<or> CHR 0x5C \<in> set url then (Inl (Https_only url), w)
      else case parse url of
        None \<Rightarrow> (Inl (Https_only url), w)
      | Some (protocol, hostname) \<Rightarrow>
          if protocol \<noteq> ''https:'' then (Inl (Https_only url), w)
          else
            let host = (case init_host of None \<Rightarrow> hostname | Some h \<Rightarrow> h) in
            (case (if pinsFor c host = [] then (Inr (), w) else check_pins c host url w) of
               (Inl err, w) \<Rightarrow> (Inl err, w)
             | (Inr _, w) \<Rightarrow> (case hc_fetch c url w of (Inl err, w) \<Rightarrow> (Inl (Https_other err), w) | (Inr r, w) \<Rightarrow> (Inr r, w))))"

section \<open>The biometric gate\<close>

datatype biometric_error = Biometric_unavailable "string option" | Biometric_failed

record 'w biometric_device =
  bd_available :: "'w \<Rightarrow> (bool \<times> string option) \<times> 'w"
  bd_authenticate :: "'w \<Rightarrow> bool \<times> 'w"
  bd_openUrl :: "string \<Rightarrow> 'w \<Rightarrow> 'w"

definition requireBiometricAuthentication :: "'w biometric_device \<Rightarrow> 'w \<Rightarrow> (biometric_error + unit) \<times> 'w" where
  "requireBiometricAuthentication d w =
     (case bd_available d w of ((available, reason), w) \<Rightarrow>
        if \<not> available then (Inl (Biometric_unavailable reason), w)
        else case bd_authenticate d w of (authenticated, w) \<Rightarrow>
          (if authenticated then Inr () else Inl Biometric_failed, w))"

definition openUrlWithBiometricGate :: "'w biometric_device \<Rightarrow> string \<Rightarrow> 'w \<Rightarrow> (biometric_error + unit) \<times> 'w" where
  "openUrlWithBiometricGate d url w =
     (case requireBiometricAuthentication d w of
        (Inl err, w) \<Rightarrow> (Inl err, w)
      | (Inr _, w) \<Rightarrow> (Inr (), bd_openUrl d url w))"

section \<open>The session of a wallet\<close>

text \<open>A restored session is whatever was stored, so its members are untyped; absent ones are \<open>JUndef\<close>.\<close>

record mobile_session =
  ss_status :: string
  ss_walletId :: json
  ss_address :: json
  ss_platform :: json
  ss_establishedAt :: json

datatype mobile_event = Me_status mobile_session | Me_connected mobile_session | Me_disconnected

record mobile_connector =
  mc_session :: mobile_session
  mc_storage :: "(string, string) amap"

definition STORAGE_KEY :: string where
  "STORAGE_KEY = ''tonbankcard.tonconnect.session.v1''"

definition mobile_no_session :: "string \<Rightarrow> mobile_session" where
  "mobile_no_session status =
     \<lparr>ss_status = status, ss_walletId = JUndef, ss_address = JUndef, ss_platform = JUndef, ss_establishedAt = JUndef\<rparr>"

definition mobile_session_json :: "mobile_session \<Rightarrow> json" where
  "mobile_session_json s = JObj [(''status'', JStr (ss_status s)), (''walletId'', ss_walletId s), (''address'', ss_address s),
     (''platform'', ss_platform s), (''establishedAt'', ss_establishedAt s)]"

definition mobile_valid_address :: "ton_address \<Rightarrow> json \<Rightarrow> bool" where
  "mobile_valid_address ta v = (case v of JStr s \<Rightarrow> ta_parse ta s \<noteq> None | _ \<Rightarrow> False)"

definition new_mobile_connector :: "(string, string) amap \<Rightarrow> mobile_connector" where
  "new_mobile_connector st = \<lparr>mc_session = mobile_no_session ''disconnected'', mc_storage = st\<rparr>"

text \<open>Reading a member of \<open>null\<close> throws like text that does not parse; both remove the entry.\<close>

definition mobile_restore :: "ton_address \<Rightarrow> (string \<Rightarrow> json option) \<Rightarrow> mobile_connector \<Rightarrow> mobile_session \<times> mobile_connector" where
  "mobile_restore ta parse c =
     (let stored = or_empty (amap_get STORAGE_KEY (mc_storage c));
          c' = (if stored = [] then c
                else case parse stored of
                  None \<Rightarrow> c\<lparr>mc_storage := amap_delete STORAGE_KEY (mc_storage c)\<rparr>
                | Some v \<Rightarrow>
                    if v = JNull \<or> v = JUndef then c\<lparr>mc_storage := amap_delete STORAGE_KEY (mc_storage c)\<rparr>
                    else if jget ''status'' v = JStr ''connected'' \<and> js_truthy (jget ''address'' v)
                            \<and> mobile_valid_address ta (jget ''address'' v)
                    then c\<lparr>mc_session := \<lparr>ss_status = ''connected'', ss_walletId = jget ''walletId'' v, ss_address = jget ''address'' v,
                           ss_platform = jget ''platform'' v, ss_establishedAt = jget ''establishedAt'' v\<rparr>\<rparr>
                    else c)
      in (mc_session c', c'))"

definition setSession :: "mobile_session \<Rightarrow> mobile_connector \<Rightarrow> mobile_event list \<times> mobile_connector" where
  "setSession s c = ([Me_status s], c\<lparr>mc_session := s\<rparr>)"

definition beginConnect :: "mobile_connector \<Rightarrow> mobile_event list \<times> mobile_connector" where
  "beginConnect c = setSession (mobile_no_session ''pending'') c"

definition finishConnect :: "ton_address \<Rightarrow> int \<Rightarrow> string \<Rightarrow> string \<Rightarrow> string \<Rightarrow> mobile_connector \<Rightarrow>
    (string + mobile_session) \<times> mobile_event list \<times> mobile_connector" where
  "finishConnect ta now walletId address platform c =
     (if ta_parse ta address = None then (Inl (''Invalid TON address: '' @ address), [], c)
      else
        let s = \<lparr>ss_status = ''connected'', ss_walletId = JStr walletId, ss_address = JStr address, ss_platform = JStr platform,
                 ss_establishedAt = JNum now\<rparr>
        in (case setSession s (c\<lparr>mc_storage := amap_set STORAGE_KEY (json_enc (mobile_session_json s)) (mc_storage c)\<rparr>) of
              (evs, c') \<Rightarrow> (Inr s, evs @ [Me_connected s], c')))"

definition mobile_disconnect :: "mobile_connector \<Rightarrow> mobile_event list \<times> mobile_connector" where
  "mobile_disconnect c =
     (case setSession (mobile_no_session ''disconnected'') (c\<lparr>mc_storage := amap_delete STORAGE_KEY (mc_storage c)\<rparr>) of
        (evs, c') \<Rightarrow> (evs @ [Me_disconnected], c'))"

end
