(* ===== verification/Mobile_Props.thy ===== *)
theory Mobile_Props
  imports Mobile
begin

text \<open>
  The mobile library prints and reads amounts as the SDK does; a scanned link is read as the members of the link that the
  library builds; a request goes out only over HTTPS and past the pins of its host; a wallet opens only behind the
  biometric gate; a session survives a restart.
\<close>

section \<open>Amounts\<close>

lemma rounded_units:
  assumes "0 \<le> a" "d \<le> (9 :: nat)"
  shows "(a * 10 ^ d + 500000000) div 1000000000 = (a + 10 ^ (9 - d) div 2) div (10 ^ (9 - d) :: int)"
proof (cases "d = 9")
  case True
  have "(a * 1000000000 + 500000000) div 1000000000 = a" by simp
  with True show ?thesis by simp
next
  case False
  define k where "k = 8 - d"
  have k: "9 - d = Suc k" "k + d = 8" using False assms(2) by (auto simp: k_def)
  have eq: "a * 10 ^ d + 500000000 = 10 ^ d * (a + 5 * 10 ^ k)"
  proof -
    have "(10 :: int) ^ d * 10 ^ k = 100000000" using k(2) by (simp add: add.commute flip: power_add)
    then show ?thesis by (simp add: algebra_simps)
  qed
  have big: "(1000000000 :: int) = 10 ^ d * 10 ^ Suc k"
  proof -
    have "(10 :: int) ^ d * 10 ^ k = 100000000" using k(2) by (simp add: add.commute flip: power_add)
    then show ?thesis by simp
  qed
  have "(a * 10 ^ d + 500000000) div 1000000000 = (10 ^ d * (a + 5 * 10 ^ k)) div (10 ^ d * 10 ^ Suc k)" by (simp only: eq big)
  also have "\<dots> = (a + 5 * 10 ^ k) div 10 ^ Suc k" by (rule div_mult_mult1) simp
  finally show ?thesis by (simp add: k(1))
qed

lemma digit_zero: "digit_char 0 = CHR ''0''"
  by code_simp

lemma dec_int_nat: "dec_int (int n) = dec n"
  by (simp add: dec_int_def)

lemma dec_times10: "0 < m \<Longrightarrow> dec (m * 10 ^ k) = dec m @ replicate k CHR ''0''"
proof (induction k)
  case (Suc k)
  have "10 * 1 \<le> (10 * 10 ^ k) * m" using Suc.prems by (intro mult_mono) simp_all
  then have "10 \<le> m * 10 ^ Suc k" by (simp add: mult.commute)
  then have "dec (m * 10 ^ Suc k) = dec (m * 10 ^ Suc k div 10) @ [digit_char (m * 10 ^ Suc k mod 10)]"
    by (subst dec.simps) simp
  moreover have "m * 10 ^ Suc k div 10 = m * 10 ^ k" "m * 10 ^ Suc k mod 10 = 0" by simp_all
  ultimately show ?case using Suc by (simp add: digit_zero replicate_append_same)
qed simp

lemma replicate_split: "replicate (a + k) c @ [c] = replicate a c @ [c] @ replicate k c"
  by (simp add: replicate_add replicate_app_Cons_same replicate_append_same)

lemma pad_scaled:
  assumes "0 \<le> m" "m < 1000000000" "9 < d"
  shows "padStart0 d (dec_int (m * 10 ^ (d - 9))) = padStart0 9 (dec_int m) @ replicate (d - 9) CHR ''0''"
proof (cases "m = 0")
  case True
  have "replicate (8 + (d - 9)) c @ [c] = replicate 8 c @ [c] @ replicate (d - 9) c" for c :: char by (rule replicate_split)
  moreover have "8 + (d - 9) = d - 1" using assms(3) by simp
  ultimately have "replicate (d - 1) c @ [c] = replicate 8 c @ [c] @ replicate (d - 9) c" for c :: char by metis
  then show ?thesis using True digit_zero by (simp add: padStart0_def dec_int_def dec.simps)
next
  case False
  then obtain n where n: "m = int n" "0 < n" using assms(1) by (metis nonneg_int_cases of_nat_0_less_iff order_le_less)
  have int_form: "m * 10 ^ (d - 9) = int (n * 10 ^ (d - 9))" using n(1) by simp
  have "dec_int (m * 10 ^ (d - 9)) = dec n @ replicate (d - 9) CHR ''0''"
    unfolding int_form by (simp only: dec_int_nat dec_times10 [OF n(2)])
  moreover have "d - (length (dec n) + (d - 9)) = 9 - length (dec n)" using assms(3) by simp
  ultimately show ?thesis using n(1) by (simp add: padStart0_def dec_int_def)
qed

text \<open>The library prints an amount exactly as the SDK does, for every whole number of places it accepts.\<close>

theorem mobile_format_agrees:
  assumes "js_bigint s = Some n" "d \<le> 100"
  shows "mobile_formatTBC s (Finite_places (of_nat d)) = formatTBC n (Finite_places (of_nat d))"
proof -
  define A where "A = (if n < 0 then - n else n)"
  have a: "0 \<le> A" by (simp add: A_def)
  have places: "normalizeFixedDecimals (Finite_places (of_nat d)) = Inr d" "nat \<lfloor>of_nat d :: rat\<rfloor> = d"
    using assms(2) by (simp_all add: normalizeFixedDecimals_def js_trunc_def MAX_FIXED_DECIMALS_def Let_def)
  have ok: "of_int \<lfloor>of_nat d :: rat\<rfloor> = (of_nat d :: rat)" "\<not> (of_nat d :: rat) < 0" "\<not> (of_nat d :: rat) > 100"
    using assms(2) by (simp_all add: linorder_not_less)
  have half: "NANOCOINS_PER_TBC div 2 = 500000000" "NANOCOINS_PER_TBC = 1000000000" by (simp_all add: NANOCOINS_PER_TBC_def)
  show ?thesis
  proof (cases "d \<le> 9")
    case True
    show ?thesis
      unfolding mobile_formatTBC_def formatTBC_def places ok res_bind_simps half Let_def pow10_def places.case
      using True assms(1) rounded_units [OF a True] ok places(2) by (simp flip: A_def)
  next
    case False
    define k where "k = d - 9"
    have d: "d = 9 + k" using False by (simp add: k_def)
    have big: "(10 :: int) ^ d = 1000000000 * 10 ^ k" by (simp add: d power_add)
    have r: "(A * 10 ^ d + 500000000) div 1000000000 = A * 10 ^ k" by (simp add: big)
    have i: "A * 10 ^ k div 10 ^ d = A div 1000000000" by (simp add: big)
    have m: "A * 10 ^ k mod 10 ^ d = A mod 1000000000 * 10 ^ (d - 9)" by (simp only: big mult_mod_left flip: k_def)
    have p: "padStart0 d (dec_int (A mod 1000000000 * 10 ^ (d - 9))) = padStart0 9 (dec_int (A mod 1000000000)) @ replicate (d - 9) CHR ''0''"
      using False by (intro pad_scaled) simp_all
    show ?thesis
      unfolding mobile_formatTBC_def formatTBC_def places ok res_bind_simps half Let_def places.case
      using False assms(1) ok places(2) by (simp add: r i m p flip: A_def)
  qed
qed

text \<open>What the application reads as an amount is the SDK's reading of it; it only refuses more.\<close>

theorem mobile_parse_agrees: "parseDecimalToNanocoins s = Inr v \<Longrightarrow> \<exists>n. parseTBC s = Inr n \<and> v = dec_int n"
proof -
  assume s: "parseDecimalToNanocoins s = Inr v"
  define w where "w = takeWhile is_digit (js_trim s)"
  have w: "w \<noteq> []" "list_all is_digit w"
    using s by (auto simp: parseDecimalToNanocoins_def w_def Let_def list_all_iff dest: set_takeWhileD split: if_splits)
  have split: "js_trim s = w @ dropWhile is_digit (js_trim s)" by (simp add: w_def)
  have zeros: "replicate 9 CHR ''0'' = ''000000000''" by code_simp
  show ?thesis
  proof (cases "dropWhile is_digit (js_trim s)")
    case Nil
    then have t: "js_trim s = w" using split by (metis append_Nil2)
    have "match_DECIMAL_AMOUNT (js_trim s) = Some (w, [])" unfolding t by (rule match_decimal(2) [OF w, of "[]"]) simp
    moreover have "v = dec_int (int (digits_val w) * 1000000000 + int (digits_val ''000000000''))"
      using s w(1) unfolding parseDecimalToNanocoins_def Let_def w_def [symmetric] Nil by (auto split: if_splits)
    ultimately show ?thesis by (simp add: parseTBC_def NANOCOINS_PER_TBC_def zeros)
  next
    case (Cons c f)
    then have f: "c = CHR ''.''" "list_all is_digit f"
      and v: "v = dec_int (int (digits_val w) * 1000000000 + int (digits_val (take 9 (f @ ''000000000''))))"
      using s w(1) unfolding parseDecimalToNanocoins_def Let_def w_def [symmetric] Cons by (auto split: if_splits)
    then have "match_DECIMAL_AMOUNT (js_trim s) = Some (w, f)" using split Cons match_decimal(1) [OF w f(2)] by simp
    then show ?thesis using v by (simp add: parseTBC_def NANOCOINS_PER_TBC_def zeros Let_def)
  qed
qed

text \<open>A time between 360 and 364 days ago is shown as zero years.\<close>

theorem zero_years_ago:
  assumes "31104000 \<le> now - timestamp" "now - timestamp < 31536000"
  shows "formatRelativeTime now timestamp = ''0 years ago''"
proof -
  have "(now - timestamp) div 31536000 = 0" using assms by simp
  moreover have "12 \<le> (now - timestamp) div 2592000" "30 \<le> (now - timestamp) div 86400"
    "24 \<le> (now - timestamp) div 3600" "60 \<le> (now - timestamp) div 60"
    using zdiv_mono1 [OF assms(1), of 2592000] zdiv_mono1 [OF assms(1), of 86400] zdiv_mono1 [OF assms(1), of 3600]
      zdiv_mono1 [OF assms(1), of 60] by simp_all
  moreover have "dec_int 0 = ''0''" by code_simp
  ultimately show ?thesis using assms by (simp add: formatRelativeTime_def time_ago_def Let_def)
qed

section \<open>Links\<close>

definition base64url :: "char \<Rightarrow> bool" where
  "base64url c \<longleftrightarrow> (let n = of_char c :: nat in 48 \<le> n \<and> n < 58 \<or> 65 \<le> n \<and> n < 91 \<or> 97 \<le> n \<and> n < 123 \<or> n = 45 \<or> n = 95)"

text \<open>An address as the parser prints it: it parses, and it is written in the URL-safe base-64 alphabet.\<close>

definition printed_address :: "ton_address \<Rightarrow> string \<Rightarrow> bool" where
  "printed_address ta a \<longleftrightarrow> a \<noteq> [] \<and> ta_parse ta a \<noteq> None \<and> list_all base64url a"

lemma base64url_not: "base64url c \<Longrightarrow> c \<noteq> CHR ''?'' \<and> c \<noteq> CHR ''%'' \<and> \<not> js_space c"
  by (auto simp: base64url_def js_space_def Let_def)

lemma form_hex_not_space: "n < 16 \<Longrightarrow> \<not> js_space (form_hex n)"
  by (auto simp: form_hex_def js_space_def of_char_of)

lemma percent_byte_no_space: "b < 256 \<Longrightarrow> list_all (\<lambda>c. \<not> js_space c) (percent_byte b)"
  using form_hex_not_space [of "b div 16"] form_hex_not_space [of "b mod 16"]
  by (simp add: percent_byte_def js_space_def less_mult_imp_div_less)

lemma form_encode_no_space: "list_all (\<lambda>c. \<not> js_space c) (form_encode s)"
proof -
  have "list_all (\<lambda>c. \<not> js_space c) (concat (map percent_byte bs))" if "\<forall>b \<in> set bs. b < 256" for bs
    using that by (induction bs) (simp_all add: percent_byte_no_space)
  moreover have "form_plain c \<Longrightarrow> \<not> js_space c" for c by (auto simp: form_plain_def js_space_def Let_def)
  ultimately have "list_all (\<lambda>c. \<not> js_space c) (form_char c)" for c
    using utf8_bytes_less [of _ c] by (simp add: form_char_def js_space_def)
  then show ?thesis by (induction s) (simp_all add: form_encode_def)
qed

lemma search_params_no_space: "list_all (\<lambda>c. \<not> js_space c) (search_params kvs)"
  unfolding search_params_def
proof (induction kvs rule: induct_list012)
  case (2 x)
  then show ?case using form_encode_no_space by (simp add: split_beta js_space_def)
next
  case (3 x y zs)
  then show ?case using form_encode_no_space by (simp add: split_beta js_space_def)
qed simp

lemma decode_plain: "CHR ''%'' \<notin> set s \<Longrightarrow> decodeURIComponent s = Some s"
  by (induction s) auto

lemma takeWhile_append_sep: "\<forall>c \<in> set p. P c \<Longrightarrow> \<not> P d \<Longrightarrow> takeWhile P (p @ d # s) = p"
  by (simp add: takeWhile_append2)

text \<open>A link of the library is matched into its recipient and its query, and is unchanged by \<open>trim\<close>.\<close>

lemma match_link:
  assumes "printed_address ta hub" "kvs \<noteq> []"
  shows "match_TON_LINK (''ton://transfer/'' @ hub @ ''?'' @ search_params kvs) = Some (hub, search_params kvs)"
    "js_trim (''ton://transfer/'' @ hub @ ''?'' @ search_params kvs) = ''ton://transfer/'' @ hub @ ''?'' @ search_params kvs"
proof -
  have hub: "hub \<noteq> []" "\<forall>c \<in> set hub. c \<noteq> CHR ''?'' \<and> c \<noteq> CHR ''%'' \<and> \<not> js_space c"
    using assms(1) base64url_not by (auto simp: printed_address_def list_all_iff)
  have q: "search_params kvs \<noteq> []" using form_parse_params [OF assms(2)] assms(2) by (auto simp: form_parse_def js_split.simps)
  have ns: "\<forall>c \<in> set (search_params kvs). \<not> js_space c" using search_params_no_space by (simp add: list_all_iff)
  then have "CHR 0x0A \<notin> set (search_params kvs)" "CHR 0x0D \<notin> set (search_params kvs)" by (auto simp: js_space_def)
  moreover have "takeWhile (\<lambda>c. c \<noteq> CHR ''?'') (hub @ ''?'' @ search_params kvs) = hub"
    using hub(2) takeWhile_append_sep [of hub "\<lambda>c. c \<noteq> CHR ''?''" "CHR ''?''"] by simp
  ultimately show "match_TON_LINK (''ton://transfer/'' @ hub @ ''?'' @ search_params kvs) = Some (hub, search_params kvs)"
    using hub(1) q by (simp add: match_TON_LINK_def Let_def starts_with_iff)
  show "js_trim (''ton://transfer/'' @ hub @ ''?'' @ search_params kvs) = ''ton://transfer/'' @ hub @ ''?'' @ search_params kvs"
    by (rule js_trim_id) (use hub(2) ns in \<open>auto simp: list_all_iff js_space_def\<close>)
qed

lemma parse_link:
  assumes "printed_address ta hub"
  shows "parseTonLink ta parse hosts (''ton://transfer/'' @ hub @ ''?'' @ search_params ([(''amount'', x), y, z] @ kvs)) =
    (let params = map_of ([(''amount'', x), y, z] @ kvs); u = params ''return'' in
     if or_empty u \<noteq> [] \<and> \<not> isAllowedReturnUrl parse hosts (or_empty u) then None
     else Some \<lparr>pt_recipient = hub, pt_amount = params ''amount'',
       pt_text = (if or_empty (params ''text'') = [] then None else params ''text''), pt_returnUrl = u\<rparr>)"
proof -
  define q where "q = [(''amount'', x), y, z] @ kvs"
  have n: "q \<noteq> []" by (simp add: q_def)
  have "take 1 (form_encode ''amount'' @ v) = ''a''" for v by (simp add: form_encode_def form_char_def form_plain_def Let_def)
  then have nq: "\<not> starts_with ''?'' (search_params q)"
    by (cases kvs) (simp_all add: q_def search_params_def starts_with_def split_beta)
  have h: "decodeURIComponent hub = Some hub" "ta_parse ta hub \<noteq> None"
    using assms base64url_not by (auto simp: printed_address_def list_all_iff intro!: decode_plain)
  show ?thesis unfolding q_def [symmetric] parseTonLink_def match_link(1) [OF assms n]
    using nq h form_parse_params [OF n] by (auto simp: Let_def)
qed

lemma allowed_for_any: "isAllowedReturnUrl parse hosts u \<Longrightarrow> isAllowedReturnUrl parse None u"
  by (auto simp: isAllowedReturnUrl_def split: option.splits prod.splits)

text \<open>The memo, and the members of the query of a link for a payer, a merchant and a return URL.\<close>

definition request_memo :: "payment_request \<Rightarrow> string" where
  "request_memo r = ''TONBANKCARD Payment: '' @ (if or_empty (pr_orderId r) = [] then ''mobile-payment'' else or_empty (pr_orderId r))
     @ (if or_empty (pr_description r) = [] then [] else '' - '' @ or_empty (pr_description r))"

lemma generated_link:
  assumes "generatePaymentLink ta cb parse now cf r = Inr link" "ta_parse ta (mo_paymentHubAddress cf) = Some hub"
  shows "\<exists>boc. link = ''ton://transfer/'' @ hub @ ''?'' @ search_params ([(''amount'', ''50000000''), (''bin'', boc), (''text'', request_memo r)]
       @ (if or_empty (pr_returnUrl r) = [] then [] else [(''return'', or_empty (pr_returnUrl r))]))
    \<and> 0 < digits_val (pr_amountTbc r)
    \<and> (or_empty (pr_returnUrl r) \<noteq> [] \<longrightarrow> isAllowedReturnUrl parse (mo_allowedReturnUrlHosts cf) (or_empty (pr_returnUrl r)))"
proof -
  have d: "dec_int 50000000 = ''50000000''"
  proof -
    have "dec_int (int (5 * 10 ^ 7)) = dec 5 @ replicate 7 CHR ''0''" unfolding dec_int_nat by (rule dec_times10) simp
    moreover have "dec 5 @ replicate 7 CHR ''0'' = ''50000000''" by code_simp
    ultimately show ?thesis by simp
  qed
  let ?u = "if or_empty (pr_returnUrl r) = [] then None else Some (or_empty (pr_returnUrl r))"
  let ?p = "\<lambda>merchant payer. \<lparr>wl_invoice = link_invoice r merchant (int (digits_val (pr_amountTbc r))) now, wl_payerNft = payer,
      wl_nativeAmountNanoTon = None, wl_payload = None, wl_returnUrl = ?u\<rparr>"
  obtain co merchant payer where b: "buildWalletLink ta cb co (?p merchant payer) = Inr link" "co_paymentHubAddress co = hub"
    and ret: "or_empty (pr_returnUrl r) \<noteq> [] \<longrightarrow> isAllowedReturnUrl parse (mo_allowedReturnUrlHosts cf) (or_empty (pr_returnUrl r))"
    using assms by (auto simp: generatePaymentLink_def result_simps address_parse_def assertReturnUrl_def split: if_splits)
  obtain body where body: "link = ''ton://transfer/'' @ hub @ ''?'' @ search_params (link_query cb (?p merchant payer) body)"
      "0 < si_amountTbc (wl_invoice (?p merchant payer))"
    using b by (auto simp: buildWalletLink_def result_simps)
  have "link_query cb (?p merchant payer) body = [(''amount'', ''50000000''), (''bin'', encodeCellBase64Url cb body), (''text'', request_memo r)]
      @ (if or_empty (pr_returnUrl r) = [] then [] else [(''return'', or_empty (pr_returnUrl r))])"
    by (simp add: link_query_def link_amount_def DEFAULT_WALLET_LINK_NATIVE_AMOUNT_def d link_memo_def link_invoice_def request_memo_def
      or_empty_def Let_def)
  then show ?thesis using body ret by (intro exI [of _ "encodeCellBase64Url cb body"]) (simp add: link_invoice_def)
qed

text \<open>
  C39. A payment link of the mobile library survives the scan: what the application reads from any link the library builds is
  the payment hub, the attached native amount, the memo with the order and the description, and the return URL, with exactly
  the characters of the request, whatever characters these hold; the link exists only for a positive amount.
\<close>

theorem mobile_link_scanned:
  assumes link: "generatePaymentLink ta cb parse now cf r = Inr link"
    and hub: "ta_parse ta (mo_paymentHubAddress cf) = Some hub" "printed_address ta hub"
  shows "parseScannedPayment ta parse link =
      Some \<lparr>pt_recipient = hub, pt_amount = Some ''50000000'', pt_text = Some (request_memo r),
        pt_returnUrl = (if or_empty (pr_returnUrl r) = [] then None else pr_returnUrl r)\<rparr>
    \<and> 0 < digits_val (pr_amountTbc r)"
proof -
  let ?ret = "if or_empty (pr_returnUrl r) = [] then [] else [(''return'', or_empty (pr_returnUrl r))]"
  obtain boc where l: "link = ''ton://transfer/'' @ hub @ ''?'' @ search_params ([(''amount'', ''50000000''), (''bin'', boc), (''text'', request_memo r)] @ ?ret)"
    (is "_ = _ @ _ @ _ @ search_params ?kvs") and pos: "0 < digits_val (pr_amountTbc r)"
    and ret: "or_empty (pr_returnUrl r) \<noteq> [] \<Longrightarrow> isAllowedReturnUrl parse (mo_allowedReturnUrlHosts cf) (or_empty (pr_returnUrl r))"
    using generated_link [OF link hub(1)] by (elim exE conjE) (rule that, assumption+, simp)
  have m: "match_TON_LINK link = Some (hub, search_params ?kvs)" "js_trim link = link"
    unfolding l by (rule match_link [OF hub(2)], simp)+
  have ok: "or_empty (pr_returnUrl r) \<noteq> [] \<Longrightarrow> isAllowedReturnUrl parse None (or_empty (pr_returnUrl r))"
    using ret allowed_for_any by blast
  have params: "map_of ?kvs ''amount'' = Some ''50000000''" "map_of ?kvs ''text'' = Some (request_memo r)"
    "map_of ?kvs ''return'' = (if or_empty (pr_returnUrl r) = [] then None else Some (or_empty (pr_returnUrl r)))"
    by simp_all
  have memo: "or_empty (Some (request_memo r)) \<noteq> []" by (simp add: or_empty_def request_memo_def)
  have or_empty_some: "or_empty (Some u) = u" "or_empty None = []" "or_empty v \<noteq> [] \<Longrightarrow> v = Some (or_empty v)" for u v
    by (cases v; simp add: or_empty_def)+
  have given: "or_empty (pr_returnUrl r) \<noteq> [] \<Longrightarrow> pr_returnUrl r = Some (or_empty (pr_returnUrl r))" by (rule or_empty_some(3))
  have "parseTonLink ta parse None link = Some \<lparr>pt_recipient = hub, pt_amount = Some ''50000000'', pt_text = Some (request_memo r),
      pt_returnUrl = (if or_empty (pr_returnUrl r) = [] then None else pr_returnUrl r)\<rparr>"
    unfolding l parse_link [OF hub(2)] params
    using ok memo by (cases "or_empty (pr_returnUrl r) = []") (simp_all add: or_empty_some(1,2) flip: given)
  moreover have "is_digit CHR ''5''" "is_digit CHR ''0''" by code_simp+
  ultimately show ?thesis
    using hub(2) pos by (simp add: parseScannedPayment_def tryParseTonLink_def m(2) or_empty_def printed_address_def)
qed

definition shop_config :: mobile_config where
  "shop_config = \<lparr>mo_network = ''testnet'', mo_paymentHubAddress = ''EQhub'', mo_rpcEndpoint = None, mo_apiEndpoint = None,
     mo_allowedReturnUrlHosts = Some [''shop'']\<rparr>"

definition shop_request :: payment_request where
  "shop_request = \<lparr>pr_payerNft = Some ''EQp'', pr_merchantNft = ''EQm'', pr_amountTbc = ''7'', pr_orderId = Some ''1&amount=9'',
     pr_description = None, pr_returnUrl = Some ''https://shop/?a=b''\<rparr>"

theorem mobile_link_scanned_witness:
  "\<exists>link. generatePaymentLink ta0 cb0 (\<lambda>_. Some (''https:'', ''shop'')) 0 shop_config shop_request = Inr link
     \<and> parseScannedPayment ta0 (\<lambda>_. Some (''https:'', ''shop'')) link =
         Some \<lparr>pt_recipient = ''EQhub'', pt_amount = Some ''50000000'', pt_text = Some ''TONBANKCARD Payment: 1&amount=9'',
           pt_returnUrl = Some ''https://shop/?a=b''\<rparr>"
proof -
  let ?parse = "\<lambda>_ :: string. Some (''https:'', ''shop'')"
  have t: "js_trim ''https://shop/?a=b'' = ''https://shop/?a=b''" by (rule js_trim_id) (simp add: js_space_def)
  have "list_all is_digit ''7''" "digits_val ''7'' = 7" by code_simp+
  then obtain link where l: "generatePaymentLink ta0 cb0 ?parse 0 shop_config shop_request = Inr link"
    by (simp add: generatePaymentLink_def shop_config_def shop_request_def ta0_def cb0_def assertReturnUrl_def isAllowedReturnUrl_def t
      address_parse_def buildWalletLink_def buildMerchantPaymentRequestBody_def buildDefaultInvoicePayload_def assertAddress_def
      link_invoice_def link_amount_def DEFAULT_WALLET_LINK_NATIVE_AMOUNT_def or_empty_def)
  have "ta_parse ta0 (mo_paymentHubAddress shop_config) = Some ''EQhub''" "printed_address ta0 ''EQhub''"
    by (simp_all add: ta0_def shop_config_def printed_address_def base64url_def Let_def)
  from mobile_link_scanned [OF l this] l show ?thesis
    by (simp add: request_memo_def shop_request_def or_empty_def)
qed

text \<open>The link for a chosen wallet asks for the same payment: the same recipient and the same query under the host of the wallet.\<close>

theorem deep_link_same_payment:
  assumes "buildPaymentDeepLink ta cb parse now cf r sch = Inr b"
    and hub: "ta_parse ta (mo_paymentHubAddress cf) = Some hub" "printed_address ta hub"
  shows "\<exists>q. db_tonLink b = ''ton://transfer/'' @ hub @ ''?'' @ q
    \<and> db_walletLink b = (if db_scheme b = Ws_universal then db_tonLink b else UNIVERSAL_HOST (db_scheme b) @ hub @ ''?'' @ q)
    \<and> generatePaymentLink ta cb parse now cf r = Inr (db_tonLink b)"
proof -
  obtain link where l: "generatePaymentLink ta cb parse now cf r = Inr link"
    and b: "db_tonLink b = link" "db_walletLink b = (if db_scheme b = Ws_universal then link
        else UNIVERSAL_HOST (db_scheme b) @ drop 15 (takeWhile (\<lambda>c. c \<noteq> CHR ''?'') link) @ dropWhile (\<lambda>c. c \<noteq> CHR ''?'') link)"
    using assms(1) by (auto simp: buildPaymentDeepLink_def result_simps Let_def)
  obtain q where q: "link = (''ton://transfer/'' @ hub) @ CHR ''?'' # q" using generated_link [OF l hub(1)] by auto
  have h: "\<forall>c \<in> set (''ton://transfer/'' @ hub). c \<noteq> CHR ''?''"
    using hub(2) base64url_not by (auto simp: printed_address_def list_all_iff)
  have "takeWhile (\<lambda>c. c \<noteq> CHR ''?'') link = ''ton://transfer/'' @ hub" "dropWhile (\<lambda>c. c \<noteq> CHR ''?'') link = CHR ''?'' # q"
    unfolding q using h takeWhile_append2 [OF h [rule_format], of "CHR ''?'' # q"] dropWhile_append2 [OF h [rule_format], of "CHR ''?'' # q"]
    by simp_all
  then show ?thesis using b l q by auto
qed

section \<open>Requests\<close>

text \<open>
  A response means a request over HTTPS; and where the host has pins, one whose live fingerprint is among them and has passed
  the validator. Nothing else reaches the network: after a refusal the world is as the provider and the validator left it.
\<close>

theorem https_pinned:
  assumes "https_fetch parse c url init_host w = (Inr r, w')"
  shows "\<exists>hostname host w1. parse url = Some (''https:'', hostname) \<and> url = js_trim url \<and> host = (case init_host of None \<Rightarrow> hostname | Some h \<Rightarrow> h)
    \<and> hc_fetch c url w1 = (Inr r, w')
    \<and> (pinsFor c host = [] \<and> w1 = w
       \<or> (\<exists>provider live w2. hc_provider c = Some provider \<and> provider host url w = (Inr (Some live), w2) \<and> live \<in> set (pinsFor c host)
            \<and> (case hc_validator c of None \<Rightarrow> w1 = w2 | Some v \<Rightarrow> v host live w2 = (Inr (), w1))))"
proof -
  obtain hostname where p: "parse url = Some (''https:'', hostname)" "url = js_trim url"
    using assms by (auto simp: https_fetch_def split: if_splits option.splits prod.splits)
  define host where "host = (case init_host of None \<Rightarrow> hostname | Some h \<Rightarrow> h)"
  obtain w1 where checked: "(if pinsFor c host = [] then (Inr (), w) else check_pins c host url w) = (Inr (), w1)"
    and fetched: "hc_fetch c url w1 = (Inr r, w')"
    using assms p by (auto simp: https_fetch_def host_def Let_def split: if_splits prod.splits sum.splits)
  show ?thesis
  proof (cases "pinsFor c host = []")
    case False
    with checked have k: "check_pins c host url w = (Inr (), w1)" by simp
    then obtain provider live w2 where "hc_provider c = Some provider" "provider host url w = (Inr live, w2)" "or_empty live \<noteq> []"
        "or_empty live \<in> set (pinsFor c host)"
        "case hc_validator c of None \<Rightarrow> w1 = w2 | Some v \<Rightarrow> v host (or_empty live) w2 = (Inr (), w1)"
      by (auto simp: check_pins_def split: if_splits prod.splits sum.splits option.splits)
    moreover from this(3) have "live = Some (or_empty live)" by (cases live) (simp_all add: or_empty_def)
    ultimately show ?thesis using p fetched unfolding host_def by metis
  qed (use p fetched checked host_def in auto)
qed

theorem https_only:
  assumes "\<nexists>h. parse url = Some (''https:'', h)"
  shows "https_fetch parse c url init_host w = (Inl (Https_only url), w)"
  using assms by (auto simp: https_fetch_def split: option.splits)

text \<open>The option \<open>host\<close> of a request replaces the host whose pins are compared, but not the host that is asked.\<close>

theorem host_option_skips_pins:
  assumes "parse url = Some (''https:'', hostname)" "url = js_trim url" "CHR 0x5C \<notin> set url" "pinsFor c other = []"
  shows "fst (https_fetch parse c url (Some other) w) = (case fst (hc_fetch c url w) of Inl e \<Rightarrow> Inl (Https_other e) | Inr r \<Rightarrow> Inr r)"
  using assms by (auto simp: https_fetch_def split: prod.splits sum.splits)

section \<open>The biometric gate\<close>

text \<open>A wallet is opened exactly when the device authenticated its user; otherwise the device has only been asked.\<close>

theorem gate_opens_iff:
  "openUrlWithBiometricGate d url w =
     (let ((available, reason), w1) = bd_available d w; (authenticated, w2) = bd_authenticate d w1 in
      if available \<and> authenticated then (Inr (), bd_openUrl d url w2)
      else if available then (Inl Biometric_failed, w2) else (Inl (Biometric_unavailable reason), w1))"
  by (auto simp: openUrlWithBiometricGate_def requireBiometricAuthentication_def split: prod.splits)

section \<open>The session\<close>

datatype session_call = Call_begin | Call_finish int string string string | Call_disconnect

definition session_call :: "ton_address \<Rightarrow> session_call \<Rightarrow> mobile_connector \<Rightarrow> mobile_connector" where
  "session_call ta call c =
     (case call of
        Call_begin \<Rightarrow> snd (beginConnect c)
      | Call_finish now walletId address platform \<Rightarrow> snd (snd (finishConnect ta now walletId address platform c))
      | Call_disconnect \<Rightarrow> snd (mobile_disconnect c))"

definition established :: "ton_address \<Rightarrow> mobile_session \<Rightarrow> bool" where
  "established ta s \<longleftrightarrow> ss_status s = ''connected'' \<and> mobile_valid_address ta (ss_address s)
     \<and> (\<exists>i a p t. s = \<lparr>ss_status = ''connected'', ss_walletId = JStr i, ss_address = JStr a, ss_platform = JStr p, ss_establishedAt = JNum t\<rparr>)"

definition session_inv :: "ton_address \<Rightarrow> mobile_connector \<Rightarrow> bool" where
  "session_inv ta c \<longleftrightarrow>
     (\<forall>x. amap_get STORAGE_KEY (mc_storage c) = Some x \<longrightarrow> (\<exists>s. established ta s \<and> x = json_enc (mobile_session_json s)))
     \<and> (mc_session c = mobile_no_session ''disconnected'' \<and> amap_get STORAGE_KEY (mc_storage c) = None
        \<or> mc_session c = mobile_no_session ''pending''
        \<or> established ta (mc_session c) \<and> amap_get STORAGE_KEY (mc_storage c) = Some (json_enc (mobile_session_json (mc_session c))))"

lemma session_inv_finish:
  assumes "session_inv ta c"
  shows "session_inv ta (snd (snd (finishConnect ta now walletId address platform c)))"
proof (cases "ta_parse ta address")
  case None
  with assms show ?thesis by (simp add: finishConnect_def)
next
  case (Some a)
  define s where "s = \<lparr>ss_status = ''connected'', ss_walletId = JStr walletId, ss_address = JStr address, ss_platform = JStr platform,
      ss_establishedAt = JNum now\<rparr>"
  have "established ta s" using Some by (simp add: established_def mobile_valid_address_def s_def)
  moreover have "snd (snd (finishConnect ta now walletId address platform c)) =
      c\<lparr>mc_session := s, mc_storage := amap_set STORAGE_KEY (json_enc (mobile_session_json s)) (mc_storage c)\<rparr>"
    using Some by (simp add: finishConnect_def setSession_def Let_def flip: s_def)
  ultimately show ?thesis by (auto simp: session_inv_def amap_get_set)
qed

lemma session_inv_call: "session_inv ta c \<Longrightarrow> session_inv ta (session_call ta call c)"
proof (cases call)
  case (Call_finish now walletId address platform)
  then show "session_inv ta c \<Longrightarrow> ?thesis" by (simp add: session_call_def session_inv_finish)
qed (auto simp: session_call_def beginConnect_def mobile_disconnect_def setSession_def session_inv_def amap_get_delete)

lemma restore_established:
  assumes "established ta s" "parse (json_enc (mobile_session_json s)) = Some (mobile_session_json s)" "ta_parse ta [] = None"
    "amap_get STORAGE_KEY st = Some (json_enc (mobile_session_json s))"
  shows "fst (mobile_restore ta parse (new_mobile_connector st)) = s"
proof -
  have "json_enc (mobile_session_json s) \<noteq> []" by (simp add: mobile_session_json_def json_enc_def or_null_def json_braces_def)
  then show ?thesis
    using assms by (auto simp: mobile_restore_def new_mobile_connector_def established_def mobile_session_json_def mobile_valid_address_def
      or_empty_def Let_def split: option.splits)
qed

theorem session_survives_restart:
  assumes calls: "c = fold (session_call ta) calls (new_mobile_connector [])"
    and json: "\<And>s. established ta s \<Longrightarrow> parse (json_enc (mobile_session_json s)) = Some (mobile_session_json s)"
    and addr: "ta_parse ta [] = None"
  shows "ss_status (mc_session c) = ''connected'' \<Longrightarrow> mobile_valid_address ta (ss_address (mc_session c))
      \<and> fst (mobile_restore ta parse (new_mobile_connector (mc_storage c))) = mc_session c"
    "ss_status (mc_session c) = ''disconnected'' \<Longrightarrow> fst (mobile_restore ta parse (new_mobile_connector (mc_storage c))) = mobile_no_session ''disconnected''"
proof -
  have "session_inv ta (new_mobile_connector [])" by (simp add: session_inv_def new_mobile_connector_def amap_get_def)
  then have inv: "session_inv ta c" unfolding calls
    by (induction calls rule: rev_induct) (simp_all add: session_inv_call)
  have restored: "established ta s \<Longrightarrow> amap_get STORAGE_KEY st = Some (json_enc (mobile_session_json s))
      \<Longrightarrow> fst (mobile_restore ta parse (new_mobile_connector st)) = s" for s st
    using restore_established json addr by blast
  show "ss_status (mc_session c) = ''connected'' \<Longrightarrow> mobile_valid_address ta (ss_address (mc_session c))
      \<and> fst (mobile_restore ta parse (new_mobile_connector (mc_storage c))) = mc_session c"
    using inv restored by (auto simp: session_inv_def mobile_no_session_def established_def)
  show "ss_status (mc_session c) = ''disconnected'' \<Longrightarrow> fst (mobile_restore ta parse (new_mobile_connector (mc_storage c))) = mobile_no_session ''disconnected''"
    using inv by (auto simp: session_inv_def mobile_no_session_def established_def mobile_restore_def new_mobile_connector_def or_empty_def)
qed

end
