(* ===== verification/Protocol.thy ===== *)
theory Protocol
  imports Prelude
begin

text \<open>
  The executable model of the protocol (\<open>tests/invariants/model/protocol-model.ts\<close>) whose property tests are the repository's
  authoritative statement of the invariants I1 to I7 of \<open>docs/invariants.md\<close>, and its merchant extension
  (\<open>tests/adversarial/model/merchant-model.ts\<close>). Every operation returns a result and the next state; the maps of the
  classes are association lists in insertion order.
\<close>

section \<open>Accounts, callers, results\<close>

datatype account_status = Active | Frozen | Suspended | Closed

record ledger_account =
  la_nft :: string
  la_owner :: string
  la_balance :: int
  la_state :: account_status
  la_fraudLocked :: bool
  la_collateralLocked :: bool

datatype caller_role = Admin | Risk_authority | Lending_adapter | External_adapter | User

record caller =
  ca_address :: string
  ca_role :: caller_role

datatype tx_result = Success | Reverted string

record protocol =
  pm_accounts :: "(string, ledger_account) amap"
  pm_admin :: string
  pm_riskAuthority :: string
  pm_lendingAdapter :: string
  pm_reentrancyLocked :: bool

definition new_protocol :: "string \<Rightarrow> string option \<Rightarrow> string option \<Rightarrow> protocol" where
  "new_protocol admin risk lending =
     \<lparr>pm_accounts = [], pm_admin = admin, pm_riskAuthority = (case risk of None \<Rightarrow> admin | Some a \<Rightarrow> a),
      pm_lendingAdapter = (case lending of None \<Rightarrow> admin | Some a \<Rightarrow> a), pm_reentrancyLocked = False\<rparr>"

definition getAccount :: "string \<Rightarrow> protocol \<Rightarrow> ledger_account option" where
  "getAccount nft s = amap_get nft (pm_accounts s)"

definition balanceOf :: "string \<Rightarrow> protocol \<Rightarrow> int" where
  "balanceOf nft s = (case amap_get nft (pm_accounts s) of None \<Rightarrow> 0 | Some a \<Rightarrow> la_balance a)"

definition totalSupply :: "protocol \<Rightarrow> int" where
  "totalSupply s = foldl (\<lambda>sum (_, a). sum + la_balance a) 0 (pm_accounts s)"

section \<open>Operations\<close>

definition initializeAccount :: "caller \<Rightarrow> string \<Rightarrow> string \<Rightarrow> int \<Rightarrow> account_status option \<Rightarrow> protocol \<Rightarrow> tx_result \<times> protocol" where
  "initializeAccount c nft owner balance status s =
     (if ca_role c \<noteq> Admin \<or> ca_address c \<noteq> pm_admin s then (Reverted ''NOT_ADMIN'', s)
      else if balance < 0 then (Reverted ''NEGATIVE_BALANCE'', s)
      else (Success, s\<lparr>pm_accounts := amap_set nft
        \<lparr>la_nft = nft, la_owner = owner, la_balance = balance, la_state = (case status of None \<Rightarrow> Active | Some x \<Rightarrow> x),
         la_fraudLocked = False, la_collateralLocked = False\<rparr> (pm_accounts s)\<rparr>))"

definition transferUnchecked :: "caller \<Rightarrow> string \<Rightarrow> string \<Rightarrow> int \<Rightarrow> protocol \<Rightarrow> tx_result \<times> protocol" where
  "transferUnchecked c fromNft toNft amount s =
     (case (amap_get fromNft (pm_accounts s), amap_get toNft (pm_accounts s)) of
        (None, _) \<Rightarrow> (Reverted ''NO_FROM_ACCOUNT'', s)
      | (Some fr, None) \<Rightarrow> (Reverted ''NO_TO_ACCOUNT'', s)
      | (Some fr, Some to) \<Rightarrow>
          if amount < 0 then (Reverted ''NEGATIVE_AMOUNT'', s)
          else if ca_role c \<noteq> User \<or> ca_address c \<noteq> la_owner fr then (Reverted ''NOT_OWNER'', s)
          else if la_state fr \<noteq> Active then (Reverted ''FROM_NOT_ACTIVE'', s)
          else if la_state to = Closed then (Reverted ''TO_CLOSED'', s)
          else if la_fraudLocked fr then (Reverted ''FRAUD_LOCKED'', s)
          else if la_collateralLocked fr then (Reverted ''COLLATERAL_LOCKED'', s)
          else if la_balance fr < amount then (Reverted ''INSUFFICIENT_BALANCE'', s)
          else if fromNft = toNft then (Success, s)
          else (Success, s\<lparr>pm_accounts :=
            amap_set toNft (to\<lparr>la_balance := la_balance to + amount\<rparr>)
              (amap_set fromNft (fr\<lparr>la_balance := la_balance fr - amount\<rparr>) (pm_accounts s))\<rparr>))"

definition transfer :: "caller \<Rightarrow> string \<Rightarrow> string \<Rightarrow> int \<Rightarrow> protocol \<Rightarrow> tx_result \<times> protocol" where
  "transfer c fromNft toNft amount s =
     (if pm_reentrancyLocked s then (Reverted ''REENTRANCY'', s)
      else case transferUnchecked c fromNft toNft amount (s\<lparr>pm_reentrancyLocked := True\<rparr>) of
        (r, s') \<Rightarrow> (r, s'\<lparr>pm_reentrancyLocked := False\<rparr>))"

definition update_account :: "string \<Rightarrow> (ledger_account \<Rightarrow> ledger_account) \<Rightarrow> protocol \<Rightarrow> tx_result \<times> protocol" where
  "update_account nft f s =
     (case amap_get nft (pm_accounts s) of
        None \<Rightarrow> (Reverted ''NO_ACCOUNT'', s)
      | Some a \<Rightarrow> (Success, s\<lparr>pm_accounts := amap_set nft (f a) (pm_accounts s)\<rparr>))"

definition transferNFT :: "caller \<Rightarrow> string \<Rightarrow> string \<Rightarrow> protocol \<Rightarrow> tx_result \<times> protocol" where
  "transferNFT c nft newOwner s =
     (case amap_get nft (pm_accounts s) of
        None \<Rightarrow> (Reverted ''NO_ACCOUNT'', s)
      | Some a \<Rightarrow>
          if ca_role c \<noteq> User \<or> ca_address c \<noteq> la_owner a then (Reverted ''NOT_OWNER'', s)
          else update_account nft (\<lambda>a. a\<lparr>la_owner := newOwner\<rparr>) s)"

definition setFraudLock :: "caller \<Rightarrow> string \<Rightarrow> bool \<Rightarrow> protocol \<Rightarrow> tx_result \<times> protocol" where
  "setFraudLock c nft value s =
     (if ca_role c \<noteq> Risk_authority \<or> ca_address c \<noteq> pm_riskAuthority s then (Reverted ''NOT_RISK_AUTHORITY'', s)
      else update_account nft (\<lambda>a. a\<lparr>la_fraudLocked := value\<rparr>) s)"

definition setCollateralLock :: "caller \<Rightarrow> string \<Rightarrow> bool \<Rightarrow> protocol \<Rightarrow> tx_result \<times> protocol" where
  "setCollateralLock c nft value s =
     (if ca_role c \<noteq> Lending_adapter \<or> ca_address c \<noteq> pm_lendingAdapter s then (Reverted ''NOT_LENDING_ADAPTER'', s)
      else update_account nft (\<lambda>a. a\<lparr>la_collateralLocked := value\<rparr>) s)"

definition setAccountState :: "caller \<Rightarrow> string \<Rightarrow> account_status \<Rightarrow> protocol \<Rightarrow> tx_result \<times> protocol" where
  "setAccountState c nft status s =
     (if ca_role c \<noteq> Admin \<or> ca_address c \<noteq> pm_admin s then (Reverted ''NOT_ADMIN'', s)
      else update_account nft (\<lambda>a. a\<lparr>la_state := status\<rparr>) s)"

section \<open>Merchant payments\<close>

record merchant_invoice =
  mi_id :: string
  mi_merchantNft :: string
  mi_amount :: int

record receipt =
  rc_invoiceId :: string
  rc_payerNft :: string
  rc_merchantNft :: string
  rc_amount :: int
  rc_at :: int

record merchant_model =
  mm_protocol :: protocol
  mm_collections :: "(string, string) amap"
  mm_whitelist :: "string list"
  mm_settledInvoices :: "string list"
  mm_receipts :: "receipt list"
  mm_clock :: int

definition new_merchant_model :: "string \<Rightarrow> string option \<Rightarrow> string option \<Rightarrow> merchant_model" where
  "new_merchant_model admin risk lending =
     \<lparr>mm_protocol = new_protocol admin risk lending, mm_collections = [], mm_whitelist = [], mm_settledInvoices = [],
      mm_receipts = [], mm_clock = 0\<rparr>"

text \<open>\<open>Set.add\<close> and \<open>Set.delete\<close>.\<close>

definition set_add :: "string \<Rightarrow> string list \<Rightarrow> string list" where
  "set_add x xs = (if x \<in> set xs then xs else xs @ [x])"

definition settledInvoiceCount :: "merchant_model \<Rightarrow> nat" where
  "settledInvoiceCount m = length (mm_settledInvoices m)"

definition receiptsOf :: "string \<Rightarrow> merchant_model \<Rightarrow> receipt list" where
  "receiptsOf invoiceId m = filter (\<lambda>r. rc_invoiceId r = invoiceId) (mm_receipts m)"

definition registerAccount_at :: "caller \<Rightarrow> string \<Rightarrow> string \<Rightarrow> int \<Rightarrow> string \<Rightarrow> account_status option \<Rightarrow> merchant_model
    \<Rightarrow> tx_result \<times> merchant_model" where
  "registerAccount_at c nft owner balance collection status m =
     (case initializeAccount c nft owner balance status (mm_protocol m) of
        (r, p) \<Rightarrow>
          if r \<noteq> Success then (r, m\<lparr>mm_protocol := p\<rparr>)
          else (Success, m\<lparr>mm_protocol := p, mm_collections := amap_set nft collection (mm_collections m)\<rparr>))"

definition whitelistCollection :: "caller \<Rightarrow> string \<Rightarrow> merchant_model \<Rightarrow> tx_result \<times> merchant_model" where
  "whitelistCollection c collection m =
     (if ca_role c \<noteq> Admin \<or> ca_address c \<noteq> pm_admin (mm_protocol m) then (Reverted ''NOT_ADMIN'', m)
      else (Success, m\<lparr>mm_whitelist := set_add collection (mm_whitelist m)\<rparr>))"

definition revokeCollection :: "caller \<Rightarrow> string \<Rightarrow> merchant_model \<Rightarrow> tx_result \<times> merchant_model" where
  "revokeCollection c collection m =
     (if ca_role c \<noteq> Admin \<or> ca_address c \<noteq> pm_admin (mm_protocol m) then (Reverted ''NOT_ADMIN'', m)
      else (Success, m\<lparr>mm_whitelist := filter (\<lambda>x. x \<noteq> collection) (mm_whitelist m)\<rparr>))"

text \<open>A collection that is missing, or empty, is not whitelisted.\<close>

definition whitelisted :: "string \<Rightarrow> merchant_model \<Rightarrow> bool" where
  "whitelisted nft m \<longleftrightarrow>
     (case amap_get nft (mm_collections m) of None \<Rightarrow> False | Some col \<Rightarrow> col \<noteq> [] \<and> col \<in> set (mm_whitelist m))"

definition payInvoice :: "caller \<Rightarrow> merchant_invoice \<Rightarrow> string \<Rightarrow> merchant_model \<Rightarrow> (tx_result \<times> receipt option) \<times> merchant_model" where
  "payInvoice c invoice payer m =
     (if mi_id invoice \<in> set (mm_settledInvoices m) then ((Reverted ''INVOICE_ALREADY_SETTLED'', None), m)
      else if \<not> whitelisted payer m then ((Reverted ''PAYER_COLLECTION_NOT_WHITELISTED'', None), m)
      else if \<not> whitelisted (mi_merchantNft invoice) m then ((Reverted ''MERCHANT_COLLECTION_NOT_WHITELISTED'', None), m)
      else
        case transfer c payer (mi_merchantNft invoice) (mi_amount invoice) (mm_protocol m) of
          (r, p) \<Rightarrow>
            if r \<noteq> Success then ((r, None), m\<lparr>mm_protocol := p\<rparr>)
            else
              let t = mm_clock m + 1;
                  rcpt = \<lparr>rc_invoiceId = mi_id invoice, rc_payerNft = payer, rc_merchantNft = mi_merchantNft invoice,
                    rc_amount = mi_amount invoice, rc_at = t\<rparr> in
              ((Success, Some rcpt), m\<lparr>mm_protocol := p, mm_settledInvoices := set_add (mi_id invoice) (mm_settledInvoices m),
                mm_receipts := mm_receipts m @ [rcpt], mm_clock := t\<rparr>))"

section \<open>Steps\<close>

datatype protocol_op =
    Initialize string string int "account_status option"
  | Transfer string string int
  | Transfer_NFT string string
  | Fraud_lock string bool
  | Collateral_lock string bool
  | Set_state string account_status

datatype merchant_op =
    Core protocol_op
  | Register string string int string "account_status option"
  | Whitelist string
  | Revoke string
  | Pay merchant_invoice string

text \<open>A call of one operation, and the states that calls lead to.\<close>

inductive protocol_call :: "caller \<Rightarrow> protocol_op \<Rightarrow> protocol \<Rightarrow> tx_result \<Rightarrow> protocol \<Rightarrow> bool" where
  initialize: "initializeAccount c nft owner balance status s = (r, s') \<Longrightarrow> protocol_call c (Initialize nft owner balance status) s r s'"
| send: "transfer c fromNft toNft amount s = (r, s') \<Longrightarrow> protocol_call c (Transfer fromNft toNft amount) s r s'"
| hand_over: "transferNFT c nft newOwner s = (r, s') \<Longrightarrow> protocol_call c (Transfer_NFT nft newOwner) s r s'"
| fraud: "setFraudLock c nft value s = (r, s') \<Longrightarrow> protocol_call c (Fraud_lock nft value) s r s'"
| collateral: "setCollateralLock c nft value s = (r, s') \<Longrightarrow> protocol_call c (Collateral_lock nft value) s r s'"
| set_state: "setAccountState c nft status s = (r, s') \<Longrightarrow> protocol_call c (Set_state nft status) s r s'"

inductive protocol_reach :: "protocol \<Rightarrow> bool" where
  fresh: "protocol_reach (new_protocol admin risk lending)"
| later: "protocol_reach s \<Longrightarrow> protocol_call c opr s r s' \<Longrightarrow> protocol_reach s'"

inductive merchant_call :: "caller \<Rightarrow> merchant_op \<Rightarrow> merchant_model \<Rightarrow> tx_result \<Rightarrow> merchant_model \<Rightarrow> bool" where
  core: "protocol_call c opr (mm_protocol m) r p \<Longrightarrow> merchant_call c (Core opr) m r (m\<lparr>mm_protocol := p\<rparr>)"
| register: "registerAccount_at c nft owner balance collection status m = (r, m') \<Longrightarrow>
    merchant_call c (Register nft owner balance collection status) m r m'"
| whitelist: "whitelistCollection c collection m = (r, m') \<Longrightarrow> merchant_call c (Whitelist collection) m r m'"
| revoke: "revokeCollection c collection m = (r, m') \<Longrightarrow> merchant_call c (Revoke collection) m r m'"
| pay: "payInvoice c invoice payer m = ((r, rcpt), m') \<Longrightarrow> merchant_call c (Pay invoice payer) m r m'"

inductive merchant_reach :: "merchant_model \<Rightarrow> bool" where
  fresh: "merchant_reach (new_merchant_model admin risk lending)"
| later: "merchant_reach m \<Longrightarrow> merchant_call c opr m r m' \<Longrightarrow> merchant_reach m'"

inductive_simps protocol_call_simps:
  "protocol_call c (Initialize nft owner balance status) s r s'"
  "protocol_call c (Transfer fromNft toNft amount) s r s'"
  "protocol_call c (Transfer_NFT nft newOwner) s r s'"
  "protocol_call c (Fraud_lock nft value) s r s'"
  "protocol_call c (Collateral_lock nft value) s r s'"
  "protocol_call c (Set_state nft status) s r s'"
inductive_simps merchant_call_simps:
  "merchant_call c (Core opr) m r m'"
  "merchant_call c (Register nft owner balance collection status) m r m'"
  "merchant_call c (Whitelist collection) m r m'"
  "merchant_call c (Revoke collection) m r m'"
  "merchant_call c (Pay invoice payer) m r m'"

end
