(* ===== verification/Protocol_Props.thy ===== *)
theory Protocol_Props
  imports Protocol
begin

text \<open>
  The invariants I1 to I7 of the protocol model for every reachable state and every call, and replay protection of the
  merchant model.
\<close>

section \<open>Balances\<close>

definition sum_balances :: "(string, ledger_account) amap \<Rightarrow> int" where
  "sum_balances m = sum_list (map (\<lambda>(_, a). la_balance a) m)"

lemma totalSupply_sum: "totalSupply s = sum_balances (pm_accounts s)"
proof -
  have "foldl (\<lambda>sum (_, a). sum + la_balance a) x m = x + sum_balances m" for x and m :: "(string, ledger_account) amap"
    by (induction m arbitrary: x) (auto simp: sum_balances_def)
  then show ?thesis by (simp add: totalSupply_def)
qed

lemma sum_balances_set:
  "sum_balances (amap_set k v m) = sum_balances m + la_balance v - (case amap_get k m of None \<Rightarrow> 0 | Some a \<Rightarrow> la_balance a)"
  by (induction m) (auto simp: sum_balances_def amap_get_def)

lemma balance_set:
  "balanceOf n (s\<lparr>pm_accounts := amap_set k v m\<rparr>) = (if n = k then la_balance v else (case amap_get n m of None \<Rightarrow> 0 | Some a \<Rightarrow> la_balance a))"
  by (simp add: balanceOf_def amap_get_set)

text \<open>What a step needs of a state: distinct keys, the key in the record, no negative balance, no call in progress.\<close>

definition ledger_ok :: "protocol \<Rightarrow> bool" where
  "ledger_ok s \<longleftrightarrow> amap_wf (pm_accounts s) \<and> \<not> pm_reentrancyLocked s \<and>
     (\<forall>n a. amap_get n (pm_accounts s) = Some a \<longrightarrow> la_nft a = n \<and> 0 \<le> la_balance a)"

lemma ledger_ok_set:
  "ledger_ok s \<Longrightarrow> la_nft a = n \<Longrightarrow> 0 \<le> la_balance a \<Longrightarrow> ledger_ok (s\<lparr>pm_accounts := amap_set n a (pm_accounts s)\<rparr>)"
  by (auto simp: ledger_ok_def amap_simps split: if_splits)

lemma ledger_ok_update:
  "ledger_ok s \<Longrightarrow> amap_get n (pm_accounts s) = Some a \<Longrightarrow> la_nft a' = la_nft a \<Longrightarrow> la_balance a' = la_balance a \<Longrightarrow>
     ledger_ok (s\<lparr>pm_accounts := amap_set n a' (pm_accounts s)\<rparr>)"
  by (rule ledger_ok_set) (auto simp: ledger_ok_def)

lemma transfer_cases:
  assumes "transfer c f t amount s = (r, s')" "\<not> pm_reentrancyLocked s"
  shows "r \<noteq> Success \<and> s' = s \<or>
    r = Success \<and> (\<exists>fr to. amap_get f (pm_accounts s) = Some fr \<and> amap_get t (pm_accounts s) = Some to \<and> 0 \<le> amount \<and>
      ca_role c = User \<and> ca_address c = la_owner fr \<and> la_state fr = Active \<and> la_state to \<noteq> Closed \<and>
      \<not> la_fraudLocked fr \<and> \<not> la_collateralLocked fr \<and> amount \<le> la_balance fr \<and>
      s' = (if f = t then s else s\<lparr>pm_accounts := amap_set t (to\<lparr>la_balance := la_balance to + amount\<rparr>)
              (amap_set f (fr\<lparr>la_balance := la_balance fr - amount\<rparr>) (pm_accounts s))\<rparr>))"
  using assms
  by (auto simp: transfer_def transferUnchecked_def Let_def split: option.splits if_splits prod.splits)

lemma update_cases:
  assumes "update_account n f s = (r, s')"
  shows "r \<noteq> Success \<and> s' = s \<or>
    r = Success \<and> (\<exists>a. amap_get n (pm_accounts s) = Some a \<and> s' = s\<lparr>pm_accounts := amap_set n (f a) (pm_accounts s)\<rparr>)"
  using assms by (auto simp: update_account_def split: option.splits)

lemma guarded_update:
  assumes "(if b then (Reverted e, s) else update_account n f s) = (r, s')"
  shows "r \<noteq> Success \<and> s' = s \<or>
    \<not> b \<and> r = Success \<and> (\<exists>a. amap_get n (pm_accounts s) = Some a \<and> s' = s\<lparr>pm_accounts := amap_set n (f a) (pm_accounts s)\<rparr>)"
  using assms update_cases by (auto split: if_splits)

lemma transferNFT_cases:
  assumes "transferNFT c n newOwner s = (r, s')"
  shows "r \<noteq> Success \<and> s' = s \<or>
    r = Success \<and> (\<exists>a. amap_get n (pm_accounts s) = Some a \<and> ca_role c = User \<and> ca_address c = la_owner a \<and>
      s' = s\<lparr>pm_accounts := amap_set n (a\<lparr>la_owner := newOwner\<rparr>) (pm_accounts s)\<rparr>)"
  using assms by (auto simp: transferNFT_def update_account_def split: option.splits if_splits)

definition new_account :: "string \<Rightarrow> string \<Rightarrow> int \<Rightarrow> account_status option \<Rightarrow> ledger_account" where
  "new_account n owner b st = \<lparr>la_nft = n, la_owner = owner, la_balance = b,
     la_state = (case st of None \<Rightarrow> Active | Some x \<Rightarrow> x), la_fraudLocked = False, la_collateralLocked = False\<rparr>"

lemma initialize_cases:
  assumes "initializeAccount c n owner b st s = (r, s')"
  shows "r \<noteq> Success \<and> s' = s \<or>
    r = Success \<and> ca_role c = Admin \<and> ca_address c = pm_admin s \<and> 0 \<le> b \<and>
      s' = s\<lparr>pm_accounts := amap_set n (new_account n owner b st) (pm_accounts s)\<rparr>"
  using assms by (auto simp: initializeAccount_def new_account_def split: if_splits)

lemma lock_cases:
  "setFraudLock c n v s = (r, s') \<Longrightarrow> r \<noteq> Success \<and> s' = s \<or> r = Success \<and> ca_role c = Risk_authority \<and>
     (\<exists>a. amap_get n (pm_accounts s) = Some a \<and> s' = s\<lparr>pm_accounts := amap_set n (a\<lparr>la_fraudLocked := v\<rparr>) (pm_accounts s)\<rparr>)"
  "setCollateralLock c n v s = (r, s') \<Longrightarrow> r \<noteq> Success \<and> s' = s \<or> r = Success \<and> ca_role c = Lending_adapter \<and>
     (\<exists>a. amap_get n (pm_accounts s) = Some a \<and> s' = s\<lparr>pm_accounts := amap_set n (a\<lparr>la_collateralLocked := v\<rparr>) (pm_accounts s)\<rparr>)"
  "setAccountState c n st s = (r, s') \<Longrightarrow> r \<noteq> Success \<and> s' = s \<or> r = Success \<and> ca_role c = Admin \<and>
     (\<exists>a. amap_get n (pm_accounts s) = Some a \<and> s' = s\<lparr>pm_accounts := amap_set n (a\<lparr>la_state := st\<rparr>) (pm_accounts s)\<rparr>)"
  unfolding setFraudLock_def setCollateralLock_def setAccountState_def by (drule guarded_update; blast)+

section \<open>The invariant of the ledger\<close>

lemma call_keeps_ok:
  assumes "protocol_call c opr s r s'" "ledger_ok s"
  shows "ledger_ok s'"
  using assms(1)
proof cases
  case (initialize n owner b st)
  then show ?thesis using initialize_cases [OF initialize(2)] assms(2) ledger_ok_set [OF assms(2), of "new_account n owner b st" n]
    by (auto simp: new_account_def)
next
  case (send f t amount)
  have "\<not> pm_reentrancyLocked s" using assms(2) by (simp add: ledger_ok_def)
  from transfer_cases [OF send(2) this] show ?thesis
  proof (elim disjE conjE exE)
    fix fr to
    assume *: "amap_get f (pm_accounts s) = Some fr" "amap_get t (pm_accounts s) = Some to" "0 \<le> amount" "amount \<le> la_balance fr"
      and s': "s' = (if f = t then s else s\<lparr>pm_accounts := amap_set t (to\<lparr>la_balance := la_balance to + amount\<rparr>)
              (amap_set f (fr\<lparr>la_balance := la_balance fr - amount\<rparr>) (pm_accounts s))\<rparr>)"
    have "la_nft fr = f" "la_nft to = t" "0 \<le> la_balance to" using * assms(2) by (auto simp: ledger_ok_def)
    then have "ledger_ok (s\<lparr>pm_accounts := amap_set f (fr\<lparr>la_balance := la_balance fr - amount\<rparr>) (pm_accounts s)\<rparr>)"
      using * by (intro ledger_ok_set [OF assms(2)]) simp_all
    from ledger_ok_set [OF this, of "to\<lparr>la_balance := la_balance to + amount\<rparr>" t] * \<open>la_nft to = t\<close> \<open>0 \<le> la_balance to\<close> s' assms(2)
    show ?thesis by simp
  qed (use assms(2) in simp)
next
  case (hand_over n o')
  then show ?thesis using transferNFT_cases [OF hand_over(2)] assms(2) ledger_ok_update [OF assms(2)] by auto
next
  case (fraud n v)
  then show ?thesis using lock_cases(1) [OF fraud(2)] assms(2) ledger_ok_update [OF assms(2)] by auto
next
  case (collateral n v)
  then show ?thesis using lock_cases(2) [OF collateral(2)] assms(2) ledger_ok_update [OF assms(2)] by auto
next
  case (set_state n st)
  then show ?thesis using lock_cases(3) [OF set_state(2)] assms(2) ledger_ok_update [OF assms(2)] by auto
qed

lemma reach_ok: "protocol_reach s \<Longrightarrow> ledger_ok s"
  by (induction rule: protocol_reach.induct) (auto simp: call_keeps_ok, simp add: ledger_ok_def new_protocol_def)

text \<open>The supply after a call, and who changed what.\<close>

lemma update_same_balance:
  assumes "amap_get n (pm_accounts s) = Some a" "la_balance a' = la_balance a" "s' = s\<lparr>pm_accounts := amap_set n a' (pm_accounts s)\<rparr>"
  shows "balanceOf k s' = balanceOf k s" "totalSupply s' = totalSupply s"
  using assms by (auto simp: balanceOf_def totalSupply_sum sum_balances_set amap_get_set)

lemma call_balances:
  assumes call: "protocol_call c opr s r s'" and ok: "ledger_ok s"
    and opr: "\<And>n owner b st. opr = Initialize n owner b st \<Longrightarrow> r \<noteq> Success" "\<And>f t x. opr = Transfer f t x \<Longrightarrow> r \<noteq> Success"
  shows "balanceOf k s' = balanceOf k s" "totalSupply s' = totalSupply s"
proof -
  have "balanceOf k s' = balanceOf k s \<and> totalSupply s' = totalSupply s"
    using call
  proof cases
    case (initialize n owner b st)
    then show ?thesis using initialize_cases [OF initialize(2)] opr(1) by auto
  next
    case (send f t amount)
    then show ?thesis using transfer_cases [OF send(2)] opr(2) ok by (auto simp: ledger_ok_def)
  next
    case (hand_over n o')
    then show ?thesis using transferNFT_cases [OF hand_over(2)] update_same_balance [of n s] by (auto simp: protocol.defs)
  next
    case (fraud n v)
    then show ?thesis using lock_cases(1) [OF fraud(2)] update_same_balance [of n s] by auto
  next
    case (collateral n v)
    then show ?thesis using lock_cases(2) [OF collateral(2)] update_same_balance [of n s] by auto
  next
    case (set_state n st)
    then show ?thesis using lock_cases(3) [OF set_state(2)] update_same_balance [of n s] by auto
  qed
  then show "balanceOf k s' = balanceOf k s" "totalSupply s' = totalSupply s" by blast+
qed

section \<open>The invariants of the documentation\<close>

lemma transfer_moves:
  assumes fr: "amap_get f (pm_accounts s) = Some fr" and to: "amap_get t (pm_accounts s) = Some to"
    and s': "s' = (if f = t then s else s\<lparr>pm_accounts := amap_set t (to\<lparr>la_balance := la_balance to + x\<rparr>)
              (amap_set f (fr\<lparr>la_balance := la_balance fr - x\<rparr>) (pm_accounts s))\<rparr>)"
  shows "f \<noteq> t \<Longrightarrow> balanceOf f s' = balanceOf f s - x" "f \<noteq> t \<Longrightarrow> balanceOf t s' = balanceOf t s + x"
    "k \<noteq> f \<Longrightarrow> k \<noteq> t \<Longrightarrow> balanceOf k s' = balanceOf k s" "f = t \<Longrightarrow> s' = s" "totalSupply s' = totalSupply s"
  using assms by (auto simp: balanceOf_def totalSupply_sum sum_balances_set amap_get_set)

text \<open>
  C29. Supply accounting (I5) with atomicity (I4). In every reachable state no balance is negative. Transfers, hand-overs of an
  account, locks and changes of state, by whomever, conserve the total supply exactly. Only a successful initialisation
  changes it, and only the administrator's: by the given balance where the account is new (a mint), and by the
  difference to the balance that it replaces where the account exists, which may be a burn. That last case is not the conservation
  I5 asks for (\<open>reinitialize_burns\<close>). A call that does not succeed changes nothing at all.
\<close>

theorem protocol_conserves:
  assumes reach: "protocol_reach s" and call: "protocol_call c opr s r s'"
  shows "totalSupply s' = totalSupply s +
      (case opr of Initialize n owner b st \<Rightarrow> if r = Success then b - balanceOf n s else 0 | _ \<Rightarrow> 0)
    \<and> (totalSupply s' \<noteq> totalSupply s \<longrightarrow> ca_role c = Admin \<and> ca_address c = pm_admin s)
    \<and> (\<forall>n. 0 \<le> balanceOf n s \<and> 0 \<le> balanceOf n s')
    \<and> (r \<noteq> Success \<longrightarrow> s' = s)"
proof -
  have ok: "ledger_ok s" "ledger_ok s'" using reach reach_ok call call_keeps_ok by blast+
  have nonneg: "0 \<le> balanceOf n s" "0 \<le> balanceOf n s'" for n
    using ok by (auto simp: balanceOf_def ledger_ok_def split: option.splits)
  have free: "\<not> pm_reentrancyLocked s" using ok(1) by (simp add: ledger_ok_def)
  have "totalSupply s' = totalSupply s +
      (case opr of Initialize n owner b st \<Rightarrow> if r = Success then b - balanceOf n s else 0 | _ \<Rightarrow> 0)
      \<and> (totalSupply s' \<noteq> totalSupply s \<longrightarrow> ca_role c = Admin \<and> ca_address c = pm_admin s) \<and> (r \<noteq> Success \<longrightarrow> s' = s)"
    using call
  proof cases
    case (initialize n owner b st)
    then show ?thesis using initialize_cases [OF initialize(2)]
      by (auto simp: totalSupply_sum sum_balances_set balanceOf_def new_account_def)
  next
    case (send f t x)
    then show ?thesis using transfer_cases [OF send(2) free] transfer_moves(5) by auto
  next
    case (hand_over n o')
    then show ?thesis using transferNFT_cases [OF hand_over(2)] update_same_balance(2) [of n s] by auto
  next
    case (fraud n v)
    then show ?thesis using lock_cases(1) [OF fraud(2)] update_same_balance(2) [of n s] by auto
  next
    case (collateral n v)
    then show ?thesis using lock_cases(2) [OF collateral(2)] update_same_balance(2) [of n s] by auto
  next
    case (set_state n st)
    then show ?thesis using lock_cases(3) [OF set_state(2)] update_same_balance(2) [of n s] by auto
  qed
  with nonneg show ?thesis by blast
qed

text \<open>A debit is a transfer of the account itself.\<close>

lemma debit_is_transfer:
  assumes ok: "ledger_ok s" and call: "protocol_call c opr s r s'" and less: "balanceOf n s' < balanceOf n s"
    and fresh: "\<And>own b st. opr \<noteq> Initialize n own b st"
  shows "\<exists>a t x. opr = Transfer n t x \<and> getAccount n s = Some a \<and> ca_role c = User \<and> ca_address c = la_owner a \<and> la_state a = Active
    \<and> \<not> la_fraudLocked a \<and> \<not> la_collateralLocked a \<and> t \<noteq> n
    \<and> balanceOf n s' = balanceOf n s - x \<and> balanceOf t s' = balanceOf t s + x \<and> (\<forall>k. k \<noteq> n \<and> k \<noteq> t \<longrightarrow> balanceOf k s' = balanceOf k s)"
proof -
  have free: "\<not> pm_reentrancyLocked s" using ok by (simp add: ledger_ok_def)
  show ?thesis
    using call
  proof cases
    case (initialize m owner b st)
    then have "m \<noteq> n" using fresh by blast
    then have "balanceOf n s' = balanceOf n s"
      using initialize_cases [OF initialize(2)] by (auto simp: balanceOf_def amap_get_set)
    with less show ?thesis by simp
  next
    case (send f t x)
    from transfer_cases [OF send(2) free] less obtain fr to where
      g: "amap_get f (pm_accounts s) = Some fr" "amap_get t (pm_accounts s) = Some to" "0 \<le> x" "ca_role c = User"
        "ca_address c = la_owner fr" "la_state fr = Active" "\<not> la_fraudLocked fr" "\<not> la_collateralLocked fr"
      and s': "s' = (if f = t then s else s\<lparr>pm_accounts := amap_set t (to\<lparr>la_balance := la_balance to + x\<rparr>)
              (amap_set f (fr\<lparr>la_balance := la_balance fr - x\<rparr>) (pm_accounts s))\<rparr>)" by blast
    note mv = transfer_moves [OF g(1,2) s']
    have "f \<noteq> t" using less mv(4) by auto
    moreover have "n = f"
    proof (rule ccontr)
      assume "n \<noteq> f"
      then show False using less mv(2) mv(3) [of n] \<open>f \<noteq> t\<close> g(3) by (cases "n = t") auto
    qed
    ultimately show ?thesis using g mv send(1) by (auto simp: getAccount_def)
  next
    case (hand_over m o')
    then show ?thesis using less call_balances(1) [OF call ok] by simp
  next
    case (fraud m v)
    then show ?thesis using less call_balances(1) [OF call ok] by simp
  next
    case (collateral m v)
    then show ?thesis using less call_balances(1) [OF call ok] by simp
  next
    case (set_state m st)
    then show ?thesis using less call_balances(1) [OF call ok] by simp
  qed
qed

lemma owner_change_is_handover:
  assumes ok: "ledger_ok s" and call: "protocol_call c opr s r s'"
    and a: "getAccount n s = Some a" "getAccount n s' = Some a'" "la_owner a' \<noteq> la_owner a"
    and fresh: "\<And>own b st. opr \<noteq> Initialize n own b st"
  shows "opr = Transfer_NFT n (la_owner a') \<and> ca_role c = User \<and> ca_address c = la_owner a"
proof -
  have free: "\<not> pm_reentrancyLocked s" using ok by (simp add: ledger_ok_def)
  show ?thesis
    using call
  proof cases
    case (initialize m owner b st)
    then have "m \<noteq> n" using fresh by blast
    then show ?thesis using initialize_cases [OF initialize(2)] a by (auto simp: getAccount_def amap_get_set)
  next
    case (send f t x)
    then show ?thesis using transfer_cases [OF send(2) free] a by (auto simp: getAccount_def amap_get_set split: if_splits)
  next
    case (hand_over m o')
    then show ?thesis using transferNFT_cases [OF hand_over(2)] a by (auto simp: getAccount_def amap_get_set split: if_splits)
  next
    case (fraud m v)
    then show ?thesis using lock_cases(1) [OF fraud(2)] a by (auto simp: getAccount_def amap_get_set split: if_splits)
  next
    case (collateral m v)
    then show ?thesis using lock_cases(2) [OF collateral(2)] a by (auto simp: getAccount_def amap_get_set split: if_splits)
  next
    case (set_state m st)
    then show ?thesis using lock_cases(3) [OF set_state(2)] a by (auto simp: getAccount_def amap_get_set split: if_splits)
  qed
qed

text \<open>
  C30. Funds and authority belong to the owner (I1, I2, I3, I6, I7). In every reachable state, whatever call anybody makes: an
  account that loses funds loses them to a transfer of its own, made by its owner as a user while the account is active and
  carries neither lock, and the recipient gets exactly what it loses, no other balance moving; an account that changes its
  owner does so by the owner's own transfer of the NFT. The one exception is the administrator's initialisation of that account.
\<close>

theorem protocol_funds_safe:
  assumes reach: "protocol_reach s" and call: "protocol_call c opr s r s'"
    and fresh: "\<And>own b st. opr \<noteq> Initialize n own b st"
  shows "(balanceOf n s' < balanceOf n s \<longrightarrow>
       (\<exists>a t x. opr = Transfer n t x \<and> getAccount n s = Some a \<and> ca_role c = User \<and> ca_address c = la_owner a \<and> la_state a = Active
          \<and> \<not> la_fraudLocked a \<and> \<not> la_collateralLocked a \<and> t \<noteq> n
          \<and> balanceOf n s' = balanceOf n s - x \<and> balanceOf t s' = balanceOf t s + x
          \<and> (\<forall>k. k \<noteq> n \<and> k \<noteq> t \<longrightarrow> balanceOf k s' = balanceOf k s)))
    \<and> (\<forall>a a'. getAccount n s = Some a \<longrightarrow> getAccount n s' = Some a' \<longrightarrow> la_owner a' \<noteq> la_owner a \<longrightarrow>
         opr = Transfer_NFT n (la_owner a') \<and> ca_role c = User \<and> ca_address c = la_owner a)"
  using debit_is_transfer [OF reach_ok [OF reach] call _ fresh] owner_change_is_handover [OF reach_ok [OF reach] call _ _ _ fresh]
  by blast

text \<open>A protocol with an administrator and two accounts, reached by two calls.\<close>

definition demo_accounts :: "(string, ledger_account) amap" where
  "demo_accounts = [(''n1'', new_account ''n1'' ''alice'' 10 None), (''n2'', new_account ''n2'' ''bob'' 0 None)]"

definition demo_protocol :: protocol where
  "demo_protocol = \<lparr>pm_accounts = demo_accounts, pm_admin = ''root'', pm_riskAuthority = ''root'', pm_lendingAdapter = ''root'',
     pm_reentrancyLocked = False\<rparr>"

definition demo_admin :: caller where "demo_admin = \<lparr>ca_address = ''root'', ca_role = Admin\<rparr>"
definition demo_alice :: caller where "demo_alice = \<lparr>ca_address = ''alice'', ca_role = User\<rparr>"

lemma demo_reach: "protocol_reach demo_protocol"
proof -
  let ?s1 = "snd (initializeAccount demo_admin ''n1'' ''alice'' 10 None (new_protocol ''root'' None None))"
  have "protocol_reach ?s1"
    by (rule protocol_reach.later [OF protocol_reach.fresh [of "''root''" None None] protocol_call.initialize [OF prod.collapse [symmetric]]])
  moreover have "initializeAccount demo_admin ''n2'' ''bob'' 0 None ?s1 = (Success, demo_protocol)"
    by (simp add: initializeAccount_def demo_admin_def new_protocol_def demo_protocol_def demo_accounts_def new_account_def)
  ultimately show ?thesis by (rule protocol_reach.later [OF _ protocol_call.initialize])
qed

theorem protocol_conserves_witness:
  "totalSupply (snd (transfer demo_alice ''n1'' ''n2'' 4 demo_protocol)) = 10 \<and> fst (transfer demo_alice ''n1'' ''n2'' 4 demo_protocol) = Success"
proof -
  have "protocol_call demo_alice (Transfer ''n1'' ''n2'' 4) demo_protocol (fst (transfer demo_alice ''n1'' ''n2'' 4 demo_protocol))
      (snd (transfer demo_alice ''n1'' ''n2'' 4 demo_protocol))"
    by (rule protocol_call.send) simp
  from protocol_conserves [OF demo_reach this] have "totalSupply (snd (transfer demo_alice ''n1'' ''n2'' 4 demo_protocol)) = totalSupply demo_protocol"
    by simp
  moreover have "totalSupply demo_protocol = 10" by (simp add: totalSupply_def demo_protocol_def demo_accounts_def new_account_def)
  moreover have "fst (transfer demo_alice ''n1'' ''n2'' 4 demo_protocol) = Success" by code_simp
  ultimately show ?thesis by simp
qed

theorem protocol_funds_safe_witness:
  "\<exists>s'. protocol_call demo_alice (Transfer ''n1'' ''n2'' 4) demo_protocol Success s' \<and> balanceOf ''n1'' s' = 6 \<and> balanceOf ''n2'' s' = 4"
proof -
  let ?s' = "snd (transfer demo_alice ''n1'' ''n2'' 4 demo_protocol)"
  have ok: "fst (transfer demo_alice ''n1'' ''n2'' 4 demo_protocol) = Success" "balanceOf ''n1'' demo_protocol = 10" "balanceOf ''n1'' ?s' = 6"
    "balanceOf ''n2'' demo_protocol = 0"
    by code_simp+
  then have "transfer demo_alice ''n1'' ''n2'' 4 demo_protocol = (Success, ?s')" by (metis prod.collapse)
  then have call: "protocol_call demo_alice (Transfer ''n1'' ''n2'' 4) demo_protocol Success ?s'" by (rule protocol_call.send)
  from protocol_funds_safe [OF demo_reach call, of "''n1''"] ok have "balanceOf ''n2'' ?s' = 4" by auto
  with call ok show ?thesis by blast
qed

section \<open>Which transfers succeed\<close>

text \<open>
  A transfer succeeds exactly under the conditions of the source; the locks of the recipient are not among them (I6), and
  whoever may set a lock may clear it.
\<close>

lemma transfer_success_iff:
  assumes "protocol_reach s"
  shows "fst (transfer c f t x s) = Success \<longleftrightarrow>
    (\<exists>fr to. getAccount f s = Some fr \<and> getAccount t s = Some to \<and> 0 \<le> x \<and> x \<le> la_balance fr \<and> ca_role c = User
       \<and> ca_address c = la_owner fr \<and> la_state fr = Active \<and> \<not> la_fraudLocked fr \<and> \<not> la_collateralLocked fr \<and> la_state to \<noteq> Closed)"
proof -
  have "\<not> pm_reentrancyLocked s" using reach_ok [OF assms] by (simp add: ledger_ok_def)
  then show ?thesis
    by (auto simp: transfer_def transferUnchecked_def getAccount_def not_less split: option.split prod.split)
qed

lemma lock_reversible:
  assumes "setFraudLock c n v s = (Success, s')"
  shows "fst (setFraudLock c n w s') = Success" and "balanceOf k s' = balanceOf k s"
proof -
  from guarded_update [OF assms [unfolded setFraudLock_def]] obtain a where
    a: "\<not> (ca_role c \<noteq> Risk_authority \<or> ca_address c \<noteq> pm_riskAuthority s)" "amap_get n (pm_accounts s) = Some a"
      "s' = s\<lparr>pm_accounts := amap_set n (a\<lparr>la_fraudLocked := v\<rparr>) (pm_accounts s)\<rparr>" by blast
  then show "fst (setFraudLock c n w s') = Success" by (simp add: setFraudLock_def update_account_def amap_get_set)
  show "balanceOf k s' = balanceOf k s" using update_same_balance(1) [OF a(2) _ a(3)] by simp
qed

text \<open>Initialising an account that exists gives it to another owner, whoever it belongs to.\<close>

lemma initialize_overwrites:
  assumes "ca_role c = Admin" "ca_address c = pm_admin s" "0 \<le> b"
  shows "\<exists>s'. initializeAccount c n owner b st s = (Success, s') \<and> getAccount n s' = Some (new_account n owner b st)"
  using assms by (simp add: initializeAccount_def getAccount_def amap_get_set new_account_def)

text \<open>
  The supply can shrink: initialising an account that holds 10 with the balance 3 destroys 7, although I5 counts no burns and
  the sum of the balances is to be invariant.
\<close>

lemma reinitialize_burns:
  "let admin = \<lparr>ca_address = ''a'', ca_role = Admin\<rparr>;
       s = snd (initializeAccount admin ''n'' ''owner'' 10 None (new_protocol ''a'' None None));
       again = initializeAccount admin ''n'' ''owner'' 3 None s
   in totalSupply s = 10 \<and> fst again = Success \<and> totalSupply (snd again) = 3"
  by code_simp

section \<open>Replay protection\<close>

definition receipts_ok :: "merchant_model \<Rightarrow> bool" where
  "receipts_ok m \<longleftrightarrow> distinct (mm_settledInvoices m) \<and> map rc_invoiceId (mm_receipts m) = mm_settledInvoices m
     \<and> map rc_at (mm_receipts m) = map int [1..<Suc (length (mm_receipts m))] \<and> mm_clock m = int (length (mm_receipts m))"

lemma payInvoice_cases:
  assumes "payInvoice c invoice payer m = ((r, rcpt), m')"
  shows "r \<noteq> Success \<and> rcpt = None \<and> (m' = m \<or> (\<exists>p. m' = m\<lparr>mm_protocol := p\<rparr> \<and> transfer c payer (mi_merchantNft invoice) (mi_amount invoice) (mm_protocol m) = (r, p)))
    \<or> (\<exists>p x. r = Success \<and> rcpt = Some x \<and> mi_id invoice \<notin> set (mm_settledInvoices m) \<and> whitelisted payer m \<and> whitelisted (mi_merchantNft invoice) m
        \<and> transfer c payer (mi_merchantNft invoice) (mi_amount invoice) (mm_protocol m) = (Success, p)
        \<and> x = \<lparr>rc_invoiceId = mi_id invoice, rc_payerNft = payer, rc_merchantNft = mi_merchantNft invoice,
            rc_amount = mi_amount invoice, rc_at = mm_clock m + 1\<rparr>
        \<and> m' = m\<lparr>mm_protocol := p, mm_settledInvoices := mm_settledInvoices m @ [mi_id invoice], mm_receipts := mm_receipts m @ [x],
            mm_clock := mm_clock m + 1\<rparr>)"
  using assms by (auto simp: payInvoice_def Let_def set_add_def split: if_splits prod.splits)

lemma merchant_call_protocol:
  assumes "merchant_call c opr m r m'"
  shows "mm_protocol m' = mm_protocol m \<or> (\<exists>o' r'. protocol_call c o' (mm_protocol m) r' (mm_protocol m'))"
  using assms
proof cases
  case (core o')
  then show ?thesis by auto
next
  case (register n owner b col st)
  obtain r' p where i: "initializeAccount c n owner b st (mm_protocol m) = (r', p)" by fastforce
  then have "mm_protocol m' = p" using register by (auto simp: registerAccount_at_def split: if_splits)
  then show ?thesis using protocol_call.initialize [OF i] by blast
next
  case (whitelist col)
  then show ?thesis by (auto simp: whitelistCollection_def split: if_splits)
next
  case (revoke col)
  then show ?thesis by (auto simp: revokeCollection_def split: if_splits)
next
  case (pay invoice payer rcpt)
  then show ?thesis using payInvoice_cases [OF pay(2)] protocol_call.send by fastforce
qed

lemma merchant_reach_protocol: "merchant_reach m \<Longrightarrow> protocol_reach (mm_protocol m)"
proof (induction rule: merchant_reach.induct)
  case (fresh admin risk lending)
  show ?case by (simp add: new_merchant_model_def protocol_reach.fresh)
next
  case (later m c opr r m')
  then show ?case using merchant_call_protocol [OF later(2)] protocol_reach.later by metis
qed

lemma call_receipts_ok:
  assumes "merchant_call c opr m r m'" "receipts_ok m"
  shows "receipts_ok m'"
  using assms(1)
proof cases
  case (core o' p)
  then show ?thesis using assms(2) by (simp add: receipts_ok_def)
next
  case (register n owner b col st)
  then show ?thesis using assms(2) by (auto simp: registerAccount_at_def receipts_ok_def split: prod.splits if_splits)
next
  case (whitelist col)
  then show ?thesis using assms(2) by (auto simp: whitelistCollection_def receipts_ok_def split: if_splits)
next
  case (revoke col)
  then show ?thesis using assms(2) by (auto simp: revokeCollection_def receipts_ok_def split: if_splits)
next
  case (pay invoice payer rcpt)
  then show ?thesis using payInvoice_cases [OF pay(2)] assms(2) by (auto simp: receipts_ok_def)
qed

lemma reach_receipts_ok: "merchant_reach m \<Longrightarrow> receipts_ok m"
  by (induction rule: merchant_reach.induct) (auto simp: call_receipts_ok, simp add: receipts_ok_def new_merchant_model_def)

lemma count_distinct: "distinct xs \<Longrightarrow> count_list xs i = (if i \<in> set xs then 1 else 0)"
  by (induction xs) auto

text \<open>
  Merchant payments are paid once. In every reachable state each settled invoice has exactly one receipt, receipts carry
  the ticks 1, 2, 3 and so on; paying a settled invoice again is refused and changes nothing; and a payment that succeeds is one
  of an invoice not settled before, between accounts of whitelisted collections, made by the payer's owner, and it moves
  exactly the invoice's amount from payer to merchant and no other balance.
\<close>

theorem merchant_pays_once:
  assumes reach: "merchant_reach m"
  shows "distinct (mm_settledInvoices m)
    \<and> (\<forall>i. length (receiptsOf i m) = (if i \<in> set (mm_settledInvoices m) then 1 else 0))
    \<and> map rc_at (mm_receipts m) = map int [1..<Suc (length (mm_receipts m))]
    \<and> (mi_id invoice \<in> set (mm_settledInvoices m) \<longrightarrow> payInvoice c invoice payer m = ((Reverted ''INVOICE_ALREADY_SETTLED'', None), m))
    \<and> (\<forall>rcpt m'. payInvoice c invoice payer m = ((Success, rcpt), m') \<longrightarrow>
        mi_id invoice \<notin> set (mm_settledInvoices m) \<and> mi_id invoice \<in> set (mm_settledInvoices m')
        \<and> whitelisted payer m \<and> whitelisted (mi_merchantNft invoice) m
        \<and> (\<exists>a. getAccount payer (mm_protocol m) = Some a \<and> ca_role c = User \<and> ca_address c = la_owner a \<and> mi_amount invoice \<le> la_balance a)
        \<and> (\<forall>n. balanceOf n (mm_protocol m') = balanceOf n (mm_protocol m)
             - (if n = payer \<and> payer \<noteq> mi_merchantNft invoice then mi_amount invoice else 0)
             + (if n = mi_merchantNft invoice \<and> payer \<noteq> mi_merchantNft invoice then mi_amount invoice else 0)))"
proof -
  have ok: "receipts_ok m" using reach by (rule reach_receipts_ok)
  have free: "\<not> pm_reentrancyLocked (mm_protocol m)"
    using reach_ok [OF merchant_reach_protocol [OF reach]] by (simp add: ledger_ok_def)
  have count: "length (receiptsOf i m) = (if i \<in> set (mm_settledInvoices m) then 1 else 0)" for i
  proof -
    have "length (receiptsOf i m) = length (filter ((=) i) (map rc_invoiceId (mm_receipts m)))"
      by (simp add: receiptsOf_def filter_map comp_def eq_commute)
    also have "\<dots> = count_list (mm_settledInvoices m) i" using ok by (simp only: receipts_ok_def count_list_eq_length_filter)
    also have "\<dots> = (if i \<in> set (mm_settledInvoices m) then 1 else 0)"
      using ok by (simp only: receipts_ok_def count_distinct)
    finally show ?thesis .
  qed
  have paid: "\<forall>rcpt m'. payInvoice c invoice payer m = ((Success, rcpt), m') \<longrightarrow>
        mi_id invoice \<notin> set (mm_settledInvoices m) \<and> mi_id invoice \<in> set (mm_settledInvoices m')
        \<and> whitelisted payer m \<and> whitelisted (mi_merchantNft invoice) m
        \<and> (\<exists>a. getAccount payer (mm_protocol m) = Some a \<and> ca_role c = User \<and> ca_address c = la_owner a \<and> mi_amount invoice \<le> la_balance a)
        \<and> (\<forall>n. balanceOf n (mm_protocol m') = balanceOf n (mm_protocol m)
             - (if n = payer \<and> payer \<noteq> mi_merchantNft invoice then mi_amount invoice else 0)
             + (if n = mi_merchantNft invoice \<and> payer \<noteq> mi_merchantNft invoice then mi_amount invoice else 0))"
  proof (intro allI impI)
    fix rcpt m'
    assume p: "payInvoice c invoice payer m = ((Success, rcpt), m')"
    from payInvoice_cases [OF p] obtain q where
      q: "transfer c payer (mi_merchantNft invoice) (mi_amount invoice) (mm_protocol m) = (Success, q)" "mm_protocol m' = q"
        "mi_id invoice \<notin> set (mm_settledInvoices m)" "mi_id invoice \<in> set (mm_settledInvoices m')" "whitelisted payer m"
        "whitelisted (mi_merchantNft invoice) m" by auto
    from transfer_cases [OF q(1) free] obtain fr to where
      g: "amap_get payer (pm_accounts (mm_protocol m)) = Some fr" "amap_get (mi_merchantNft invoice) (pm_accounts (mm_protocol m)) = Some to"
        "ca_role c = User" "ca_address c = la_owner fr" "mi_amount invoice \<le> la_balance fr"
      and q': "q = (if payer = mi_merchantNft invoice then mm_protocol m else (mm_protocol m)\<lparr>pm_accounts :=
          amap_set (mi_merchantNft invoice) (to\<lparr>la_balance := la_balance to + mi_amount invoice\<rparr>)
            (amap_set payer (fr\<lparr>la_balance := la_balance fr - mi_amount invoice\<rparr>) (pm_accounts (mm_protocol m)))\<rparr>)" by auto
    show "mi_id invoice \<notin> set (mm_settledInvoices m) \<and> mi_id invoice \<in> set (mm_settledInvoices m')
        \<and> whitelisted payer m \<and> whitelisted (mi_merchantNft invoice) m
        \<and> (\<exists>a. getAccount payer (mm_protocol m) = Some a \<and> ca_role c = User \<and> ca_address c = la_owner a \<and> mi_amount invoice \<le> la_balance a)
        \<and> (\<forall>n. balanceOf n (mm_protocol m') = balanceOf n (mm_protocol m)
             - (if n = payer \<and> payer \<noteq> mi_merchantNft invoice then mi_amount invoice else 0)
             + (if n = mi_merchantNft invoice \<and> payer \<noteq> mi_merchantNft invoice then mi_amount invoice else 0))"
      using q g transfer_moves [OF g(1,2) q'] by (auto simp: getAccount_def)
  qed
  have again: "mi_id invoice \<in> set (mm_settledInvoices m) \<longrightarrow> payInvoice c invoice payer m = ((Reverted ''INVOICE_ALREADY_SETTLED'', None), m)"
    by (simp add: payInvoice_def)
  have "distinct (mm_settledInvoices m)" "map rc_at (mm_receipts m) = map int [1..<Suc (length (mm_receipts m))]"
    using ok unfolding receipts_ok_def by blast+
  moreover have "\<forall>i. length (receiptsOf i m) = (if i \<in> set (mm_settledInvoices m) then 1 else 0)" using count by (rule allI)
  ultimately show ?thesis using again paid by (intro conjI)
qed

definition demo_merchant :: merchant_model where
  "demo_merchant = \<lparr>mm_protocol = demo_protocol, mm_collections = [(''n1'', ''col''), (''n2'', ''col'')], mm_whitelist = [''col''],
     mm_settledInvoices = [], mm_receipts = [], mm_clock = 0\<rparr>"

lemma demo_merchant_reach: "merchant_reach demo_merchant"
proof -
  let ?m0 = "new_merchant_model ''root'' None None"
  let ?m1 = "snd (registerAccount_at demo_admin ''n1'' ''alice'' 10 ''col'' None ?m0)"
  let ?m2 = "snd (registerAccount_at demo_admin ''n2'' ''bob'' 0 ''col'' None ?m1)"
  have "merchant_reach ?m1"
    by (rule merchant_reach.later [OF merchant_reach.fresh merchant_call.register [OF prod.collapse [symmetric]]])
  then have "merchant_reach ?m2"
    by (rule merchant_reach.later [OF _ merchant_call.register [OF prod.collapse [symmetric]]])
  moreover have "whitelistCollection demo_admin ''col'' ?m2 = (Success, demo_merchant)"
    by (simp add: whitelistCollection_def registerAccount_at_def initializeAccount_def demo_admin_def new_merchant_model_def
      new_protocol_def demo_merchant_def demo_protocol_def demo_accounts_def new_account_def set_add_def)
  ultimately show ?thesis by (rule merchant_reach.later [OF _ merchant_call.whitelist])
qed

theorem merchant_pays_once_witness:
  "\<exists>m'. merchant_reach m' \<and> length (receiptsOf ''i'' m') = 1 \<and> balanceOf ''n1'' (mm_protocol m') = 7"
proof -
  let ?i = "\<lparr>mi_id = ''i'', mi_merchantNft = ''n2'', mi_amount = 3\<rparr>"
  let ?x = "payInvoice demo_alice ?i ''n1'' demo_merchant"
  have "fst (fst ?x) = Success" by code_simp
  then obtain rcpt m' where p: "?x = ((Success, rcpt), m')" by (metis prod.collapse)
  then have r: "merchant_reach m'" by (rule merchant_reach.later [OF demo_merchant_reach merchant_call.pay])
  have "balanceOf ''n1'' (mm_protocol demo_merchant) = 10" by code_simp
  moreover note q = merchant_pays_once [OF demo_merchant_reach, THEN conjunct2, THEN conjunct2, THEN conjunct2, THEN conjunct2,
    THEN spec, THEN spec, THEN mp, OF p]
  moreover have "balanceOf ''n1'' (mm_protocol m') = balanceOf ''n1'' (mm_protocol demo_merchant) - 3"
    using q [THEN conjunct2, THEN conjunct2, THEN conjunct2, THEN conjunct2, THEN conjunct2, THEN spec, of "''n1''"] by simp
  moreover have "''i'' \<in> set (mm_settledInvoices m')" using q [THEN conjunct2, THEN conjunct1] by simp
  moreover have "length (receiptsOf ''i'' m') = 1"
    using merchant_pays_once [OF r, THEN conjunct2, THEN conjunct1, THEN spec, of "''i''"] \<open>''i'' \<in> set (mm_settledInvoices m')\<close> by simp
  ultimately show ?thesis using r by (intro exI [of _ m']) simp
qed

end
