(* ===== verification/Adapters.thy ===== *)
theory Adapters
  imports Complex_Main Prelude
begin

text \<open>
  The coordination adapters of \<open>backend/adapters\<close> without network access: decimal amounts (\<open>validation.ts\<close>), multi-signature
  proposals (\<open>multisig.ts\<close>), recurring mandates (\<open>recurring.ts\<close>) and bridge intents (\<open>bridge.ts\<close>). A time is in milliseconds;
  the text that \<open>Math.random\<close> gives for an identifier is an argument.
\<close>

section \<open>Errors and identifiers\<close>

datatype external_provider = ChangeNOW | NOWPayments | CoinRabbit | RecurringPayments

record provider_error =
  pe_message :: string
  pe_code :: "string option"
  pe_provider :: external_provider

definition createError :: "external_provider \<Rightarrow> string \<Rightarrow> string \<Rightarrow> provider_error" where
  "createError p message code = \<lparr>pe_message = message, pe_code = Some code, pe_provider = p\<rparr>"

text \<open>\<open>toString(36)\<close> of a non-negative integer.\<close>

fun base36 :: "nat \<Rightarrow> string" where
  "base36 n = (if n < 36 then [if n < 10 then char_of (48 + n) else char_of (87 + n)]
     else base36 (n div 36) @ [if n mod 36 < 10 then char_of (48 + n mod 36) else char_of (87 + n mod 36)])"

declare base36.simps [simp del]

definition generateId :: "string \<Rightarrow> int \<Rightarrow> string \<Rightarrow> string" where
  "generateId prefix now random = prefix @ ''_'' @ base36 (nat now) @ ''_'' @ take 8 (drop 2 random)"

section \<open>Decimal amounts\<close>

definition decimal_whole :: "string \<Rightarrow> bool" where
  "decimal_whole w \<longleftrightarrow> w = ''0'' \<or> w \<noteq> [] \<and> list_all is_digit w \<and> hd w \<noteq> CHR ''0''"

definition decimal_fraction :: "string \<Rightarrow> bool" where
  "decimal_fraction f \<longleftrightarrow> f \<noteq> [] \<and> length f \<le> 9 \<and> list_all is_digit f"

text \<open>The two parts of \<open>value.split('.')\<close> where the regular expression matches.\<close>

definition decimal_parts :: "string \<Rightarrow> (string \<times> string) option" where
  "decimal_parts s =
     (case js_split CHR ''.'' s of
        [w] \<Rightarrow> if decimal_whole w then Some (w, []) else None
      | [w, f] \<Rightarrow> if decimal_whole w \<and> decimal_fraction f then Some (w, f) else None
      | _ \<Rightarrow> None)"

definition padEnd9 :: "string \<Rightarrow> string" where
  "padEnd9 f = f @ replicate (9 - length f) CHR ''0''"

definition isPositiveDecimal :: "string \<Rightarrow> bool" where
  "isPositiveDecimal s \<longleftrightarrow>
     length s \<le> 80 \<and>
     (case decimal_parts s of
        None \<Rightarrow> False
      | Some (whole, fractional) \<Rightarrow> int (digits_val whole) * 1000000000 + int (digits_val (padEnd9 fractional)) > 0)"

section \<open>Multi-signature cards\<close>

definition MAX_SIGNERS :: int where
  "MAX_SIGNERS = 3"

text \<open>
  A number of signatures is a number as the caller gives it, whole or not (the infinities would be refused as any other number
  out of range), or not a number (\<open>None\<close>), with which every comparison fails.
\<close>

definition num_lt :: "rat option \<Rightarrow> int \<Rightarrow> bool" where
  "num_lt x n = (case x of None \<Rightarrow> False | Some q \<Rightarrow> q < of_int n)"

definition num_gt :: "rat option \<Rightarrow> int \<Rightarrow> bool" where
  "num_gt x n = (case x of None \<Rightarrow> False | Some q \<Rightarrow> q > of_int n)"

definition num_ge :: "int \<Rightarrow> rat option \<Rightarrow> bool" where
  "num_ge n x = (case x of None \<Rightarrow> False | Some q \<Rightarrow> of_int n \<ge> q)"

record multisig_config =
  ms_nftAccountId :: string
  ms_requiredSignatures :: "rat option"
  ms_signers :: "string list"
  ms_isActive :: bool
  ms_createdAt :: int

datatype proposal_status = Pending | Approved | Rejected | Executed

record payment_proposal =
  pp_proposalId :: string
  pp_nftAccountId :: string
  pp_recipient :: string
  pp_amount :: string
  pp_status :: proposal_status
  pp_approvalCount :: int
  pp_requiredApprovals :: "rat option"
  pp_approvers :: "string list"
  pp_createdAt :: int

definition ms_error :: "string \<Rightarrow> string \<Rightarrow> provider_error" where
  "ms_error message code = createError ChangeNOW message code"

definition validateConfig :: "rat option \<Rightarrow> string list \<Rightarrow> provider_error + unit" where
  "validateConfig requiredSignatures signers =
     (if num_lt requiredSignatures 1 \<or> num_gt requiredSignatures MAX_SIGNERS
      then Inl (ms_error ''Required signatures must be between 1 and 3'' ''INVALID_THRESHOLD'')
      else if num_gt requiredSignatures (int (length signers))
      then Inl (ms_error ''Not enough signers for the required threshold'' ''INSUFFICIENT_SIGNERS'')
      else if int (length signers) > MAX_SIGNERS then Inl (ms_error ''Maximum 3 co-signers allowed'' ''TOO_MANY_SIGNERS'')
      else if length (remdups signers) \<noteq> length signers then Inl (ms_error ''Duplicate signer addresses'' ''DUPLICATE_SIGNERS'')
      else Inr ())"

definition createConfig :: "int \<Rightarrow> string \<Rightarrow> rat option \<Rightarrow> string list \<Rightarrow> provider_error + multisig_config" where
  "createConfig now nftAccountId requiredSignatures signers =
     res_bind (validateConfig requiredSignatures signers) (\<lambda>_.
       Inr \<lparr>ms_nftAccountId = nftAccountId, ms_requiredSignatures = requiredSignatures, ms_signers = signers, ms_isActive = True,
         ms_createdAt = now\<rparr>)"

definition deactivateConfig :: "multisig_config \<Rightarrow> multisig_config" where
  "deactivateConfig config = config\<lparr>ms_isActive := False\<rparr>"

definition createProposal :: "int \<Rightarrow> string \<Rightarrow> string \<Rightarrow> string \<Rightarrow> string \<Rightarrow> multisig_config \<Rightarrow> provider_error + payment_proposal" where
  "createProposal now random nftAccountId recipient amount config =
     (if \<not> ms_isActive config then Inl (ms_error ''Multi-sig is not active for this account'' ''NOT_CONFIGURED'')
      else if \<not> isPositiveDecimal amount then Inl (ms_error ''Invalid payment amount'' ''INVALID_AMOUNT'')
      else if js_trim recipient = [] then Inl (ms_error ''Recipient address required'' ''INVALID_RECIPIENT'')
      else Inr \<lparr>pp_proposalId = generateId ''proposal'' now random, pp_nftAccountId = nftAccountId, pp_recipient = recipient,
        pp_amount = amount, pp_status = Pending, pp_approvalCount = 0, pp_requiredApprovals = ms_requiredSignatures config,
        pp_approvers = [], pp_createdAt = now\<rparr>)"

definition recordApproval :: "payment_proposal \<Rightarrow> string \<Rightarrow> multisig_config \<Rightarrow> provider_error + payment_proposal" where
  "recordApproval proposal approver config =
     (if pp_status proposal \<noteq> Pending then Inl (ms_error ''Can only approve pending proposals'' ''INVALID_STATUS'')
      else if approver \<notin> set (ms_signers config) then Inl (ms_error ''Approver is not a registered co-signer'' ''NOT_SIGNER'')
      else if approver \<in> set (pp_approvers proposal) then Inl (ms_error ''Already approved by this signer'' ''ALREADY_APPROVED'')
      else
        let newApprovers = pp_approvers proposal @ [approver]; newCount = pp_approvalCount proposal + 1;
            isApproved = num_ge newCount (pp_requiredApprovals proposal) in
        Inr (proposal\<lparr>pp_approvalCount := newCount, pp_approvers := newApprovers,
          pp_status := (if isApproved then Approved else Pending)\<rparr>))"

definition rejectProposal :: "payment_proposal \<Rightarrow> provider_error + payment_proposal" where
  "rejectProposal proposal =
     (if pp_status proposal \<noteq> Pending then Inl (ms_error ''Can only reject pending proposals'' ''INVALID_STATUS'')
      else Inr (proposal\<lparr>pp_status := Rejected\<rparr>))"

definition markExecuted :: "payment_proposal \<Rightarrow> provider_error + payment_proposal" where
  "markExecuted proposal =
     (if pp_status proposal \<noteq> Approved then Inl (ms_error ''Can only execute approved proposals'' ''INVALID_STATUS'')
      else Inr (proposal\<lparr>pp_status := Executed\<rparr>))"

section \<open>Recurring payments\<close>

definition MIN_PERIOD_SECONDS :: int where
  "MIN_PERIOD_SECONDS = 3600"

definition MAX_PERIOD_SECONDS :: int where
  "MAX_PERIOD_SECONDS = 365 * 24 * 3600"

datatype mandate_status = Mandate_active | Mandate_cancelled | Mandate_completed

record mandate =
  rm_mandateId :: string
  rm_payer :: string
  rm_merchant :: string
  rm_amountPerPeriod :: string
  rm_periodSeconds :: int
  rm_maxExecutions :: int
  rm_executionCount :: int
  rm_lastExecutedAt :: "int option"
  rm_status :: mandate_status
  rm_createdAt :: int

datatype execution_status = Execution_pending | Execution_confirmed

record execution =
  ex_mandateId :: string
  ex_executionNumber :: int
  ex_amount :: string
  ex_txHash :: "string option"
  ex_executedAt :: int
  ex_status :: execution_status

definition rp_error :: "string \<Rightarrow> string \<Rightarrow> provider_error" where
  "rp_error message code = createError RecurringPayments message code"

text \<open>A number that is not a safe integer is \<open>None\<close>.\<close>

definition validateMandateParams :: "string \<Rightarrow> int option \<Rightarrow> int option \<Rightarrow> provider_error + (int \<times> int)" where
  "validateMandateParams amountPerPeriod periodSeconds maxExecutions =
     (if \<not> isPositiveDecimal amountPerPeriod then Inl (rp_error ''Amount per period must be positive'' ''INVALID_AMOUNT'')
      else
        case periodSeconds of
          None \<Rightarrow> Inl (rp_error ''Period must be at least 3600 seconds (1 hour)'' ''INVALID_PERIOD'')
        | Some p \<Rightarrow>
            if p < MIN_PERIOD_SECONDS then Inl (rp_error ''Period must be at least 3600 seconds (1 hour)'' ''INVALID_PERIOD'')
            else if p > MAX_PERIOD_SECONDS then Inl (rp_error ''Period must not exceed 31536000 seconds (1 year)'' ''INVALID_PERIOD'')
            else (case maxExecutions of
                None \<Rightarrow> Inl (rp_error ''Max executions must be non-negative'' ''INVALID_MAX_EXECUTIONS'')
              | Some m \<Rightarrow> if m < 0 then Inl (rp_error ''Max executions must be non-negative'' ''INVALID_MAX_EXECUTIONS'') else Inr (p, m)))"

definition createMandate :: "int \<Rightarrow> string \<Rightarrow> string \<Rightarrow> string \<Rightarrow> string \<Rightarrow> int option \<Rightarrow> int option \<Rightarrow> provider_error + mandate" where
  "createMandate now random payer merchant amountPerPeriod periodSeconds maxExecutions =
     res_bind (validateMandateParams amountPerPeriod periodSeconds maxExecutions) (\<lambda>(p, m).
       Inr \<lparr>rm_mandateId = generateId ''mandate'' now random, rm_payer = payer, rm_merchant = merchant,
         rm_amountPerPeriod = amountPerPeriod, rm_periodSeconds = p, rm_maxExecutions = m, rm_executionCount = 0,
         rm_lastExecutedAt = None, rm_status = Mandate_active, rm_createdAt = now\<rparr>)"

definition cancelMandate :: "mandate \<Rightarrow> provider_error + mandate" where
  "cancelMandate mandate =
     (if rm_status mandate \<noteq> Mandate_active then Inl (rp_error ''Can only cancel active mandates'' ''INVALID_STATUS'')
      else Inr (mandate\<lparr>rm_status := Mandate_cancelled\<rparr>))"

definition recordExecution :: "int \<Rightarrow> mandate \<Rightarrow> string option \<Rightarrow> provider_error + (mandate \<times> execution)" where
  "recordExecution now mandate txHash =
     (if rm_status mandate \<noteq> Mandate_active then Inl (rp_error ''Can only execute active mandates'' ''INVALID_STATUS'')
      else
        let newCount = rm_executionCount mandate + 1;
            isCompleted = rm_maxExecutions mandate > 0 \<and> newCount \<ge> rm_maxExecutions mandate in
        Inr (mandate\<lparr>rm_executionCount := newCount, rm_lastExecutedAt := Some now,
               rm_status := (if isCompleted then Mandate_completed else Mandate_active)\<rparr>,
             \<lparr>ex_mandateId = rm_mandateId mandate, ex_executionNumber = newCount, ex_amount = rm_amountPerPeriod mandate,
              ex_txHash = txHash, ex_executedAt = now,
              ex_status = (if txHash = None \<or> txHash = Some [] then Execution_pending else Execution_confirmed)\<rparr>))"

definition exhausted :: "mandate \<Rightarrow> bool" where
  "exhausted mandate \<longleftrightarrow> rm_maxExecutions mandate > 0 \<and> rm_executionCount mandate \<ge> rm_maxExecutions mandate"

definition canExecute :: "int \<Rightarrow> mandate \<Rightarrow> bool" where
  "canExecute now mandate =
     (if rm_status mandate \<noteq> Mandate_active then False
      else if exhausted mandate then False
      else
        case rm_lastExecutedAt mandate of
          None \<Rightarrow> True
        | Some t \<Rightarrow> \<not> now < t + rm_periodSeconds mandate * 1000)"

definition getNextExecutionTime :: "int \<Rightarrow> mandate \<Rightarrow> int option" where
  "getNextExecutionTime now mandate =
     (if rm_status mandate \<noteq> Mandate_active then None
      else if exhausted mandate then None
      else case rm_lastExecutedAt mandate of None \<Rightarrow> Some now | Some t \<Rightarrow> Some (t + rm_periodSeconds mandate * 1000))"

section \<open>Bridge intents\<close>

datatype bridge_chain = Ethereum | Bitcoin | Bsc | Polygon | Solana

record bridge_config =
  bc_supportedChains :: "bridge_chain list"
  bc_defaultProvider :: external_provider
  bc_bridgeContractAddress :: string

datatype intent_status = Intent_pending | Intent_confirmed | Intent_cancelled | Intent_failed

record bridge_intent =
  bi_intentId :: string
  bi_nftAccountId :: string
  bi_targetChain :: bridge_chain
  bi_amount :: string
  bi_targetAddress :: string
  bi_provider :: external_provider
  bi_providerTxId :: "string option"
  bi_status :: intent_status
  bi_createdAt :: int
  bi_confirmedAt :: "int option"
  bi_externalTxHash :: "string option"

definition DEFAULT_SUPPORTED_CHAINS :: "bridge_chain list" where
  "DEFAULT_SUPPORTED_CHAINS = [Ethereum, Bitcoin, Bsc, Polygon, Solana]"

fun chain_name :: "bridge_chain \<Rightarrow> string" where
  "chain_name Ethereum = ''ethereum''"
| "chain_name Bitcoin = ''bitcoin''"
| "chain_name Bsc = ''bsc''"
| "chain_name Polygon = ''polygon''"
| "chain_name Solana = ''solana''"

fun BRIDGE_CHAIN_IDS :: "bridge_chain \<Rightarrow> int" where
  "BRIDGE_CHAIN_IDS Ethereum = 1"
| "BRIDGE_CHAIN_IDS Bitcoin = 2"
| "BRIDGE_CHAIN_IDS Bsc = 3"
| "BRIDGE_CHAIN_IDS Polygon = 4"
| "BRIDGE_CHAIN_IDS Solana = 5"

fun getChainTicker :: "bridge_chain \<Rightarrow> string" where
  "getChainTicker Ethereum = ''eth''"
| "getChainTicker Bitcoin = ''btc''"
| "getChainTicker Bsc = ''bnb''"
| "getChainTicker Polygon = ''matic''"
| "getChainTicker Solana = ''sol''"

fun getChainNetwork :: "bridge_chain \<Rightarrow> string" where
  "getChainNetwork Ethereum = ''eth''"
| "getChainNetwork Bitcoin = ''btc''"
| "getChainNetwork Bsc = ''bsc''"
| "getChainNetwork Polygon = ''matic''"
| "getChainNetwork Solana = ''sol''"

definition new_bridge :: "bridge_chain list option \<Rightarrow> external_provider option \<Rightarrow> string option \<Rightarrow> bridge_config" where
  "new_bridge supported provider address =
     \<lparr>bc_supportedChains = (case supported of None \<Rightarrow> DEFAULT_SUPPORTED_CHAINS | Some cs \<Rightarrow> cs),
      bc_defaultProvider = (case provider of None \<Rightarrow> ChangeNOW | Some p \<Rightarrow> p),
      bc_bridgeContractAddress = (case address of None \<Rightarrow> [] | Some a \<Rightarrow> a)\<rparr>"

definition isChainSupported :: "bridge_config \<Rightarrow> bridge_chain \<Rightarrow> bool" where
  "isChainSupported cfg chain \<longleftrightarrow> chain \<in> set (bc_supportedChains cfg)"

definition createBridgeIntent :: "bridge_config \<Rightarrow> int \<Rightarrow> string \<Rightarrow> string \<Rightarrow> bridge_chain \<Rightarrow> string \<Rightarrow> string \<Rightarrow> provider_error + bridge_intent" where
  "createBridgeIntent cfg now random nftAccountId targetChain amount targetAddress =
     (if \<not> isChainSupported cfg targetChain
      then Inl (createError (bc_defaultProvider cfg) (''Unsupported target chain: '' @ chain_name targetChain) ''UNSUPPORTED_CHAIN'')
      else if \<not> isPositiveDecimal amount then Inl (createError (bc_defaultProvider cfg) ''Invalid bridge amount'' ''INVALID_AMOUNT'')
      else if js_trim targetAddress = [] then Inl (createError (bc_defaultProvider cfg) ''Target address is required'' ''INVALID_ADDRESS'')
      else Inr \<lparr>bi_intentId = generateId ''bridge'' now random, bi_nftAccountId = nftAccountId, bi_targetChain = targetChain,
        bi_amount = amount, bi_targetAddress = targetAddress, bi_provider = bc_defaultProvider cfg, bi_providerTxId = None,
        bi_status = Intent_pending, bi_createdAt = now, bi_confirmedAt = None, bi_externalTxHash = None\<rparr>)"

definition linkProviderTransaction :: "bridge_intent \<Rightarrow> string \<Rightarrow> bridge_intent" where
  "linkProviderTransaction intent providerTxId = intent\<lparr>bi_providerTxId := Some providerTxId, bi_status := Intent_pending\<rparr>"

definition confirmBridgeIntent :: "int \<Rightarrow> bridge_intent \<Rightarrow> string \<Rightarrow> bridge_intent" where
  "confirmBridgeIntent now intent externalTxHash =
     intent\<lparr>bi_status := Intent_confirmed, bi_confirmedAt := Some now, bi_externalTxHash := Some externalTxHash\<rparr>"

definition cancelBridgeIntent :: "bridge_config \<Rightarrow> bridge_intent \<Rightarrow> provider_error + bridge_intent" where
  "cancelBridgeIntent cfg intent =
     (if bi_status intent \<noteq> Intent_pending then Inl (createError (bc_defaultProvider cfg) ''Can only cancel pending intents'' ''INVALID_STATUS'')
      else Inr (intent\<lparr>bi_status := Intent_cancelled\<rparr>))"

record quote_request =
  qr_fromAsset :: string
  qr_toAsset :: string
  qr_targetChain :: bridge_chain
  qr_amount :: string

record quote_params =
  qp_fromCurrency :: string
  qp_toCurrency :: string
  qp_fromNetwork :: string
  qp_toNetwork :: string
  qp_amount :: string

definition getBridgeQuoteParams :: "bridge_config \<Rightarrow> quote_request \<Rightarrow> provider_error + quote_params" where
  "getBridgeQuoteParams cfg request =
     (if \<not> isChainSupported cfg (qr_targetChain request)
      then Inl (createError (bc_defaultProvider cfg) (''Unsupported target chain: '' @ chain_name (qr_targetChain request)) ''UNSUPPORTED_CHAIN'')
      else Inr \<lparr>qp_fromCurrency = js_lower (qr_fromAsset request), qp_toCurrency = js_lower (qr_toAsset request), qp_fromNetwork = ''ton'',
        qp_toNetwork = getChainNetwork (qr_targetChain request), qp_amount = qr_amount request\<rparr>)"

end
