(* ===== verification/Adapters_Props.thy ===== *)
theory Adapters_Props
  imports Adapters
begin

text \<open>Reachable states of proposals, mandates and intents, and what holds in them.\<close>

section \<open>Multi-signature proposals\<close>

inductive proposal_step :: "multisig_config \<Rightarrow> payment_proposal \<Rightarrow> payment_proposal \<Rightarrow> bool" for cfg where
  approve: "recordApproval p a cfg = Inr p' \<Longrightarrow> proposal_step cfg p p'"
| reject: "rejectProposal p = Inr p' \<Longrightarrow> proposal_step cfg p p'"
| execute: "markExecuted p = Inr p' \<Longrightarrow> proposal_step cfg p p'"

inductive proposal_reach :: "multisig_config \<Rightarrow> payment_proposal \<Rightarrow> bool" for cfg where
  created: "createProposal now random nft recipient amount cfg = Inr p \<Longrightarrow> proposal_reach cfg p"
| later: "proposal_reach cfg p \<Longrightarrow> proposal_step cfg p p' \<Longrightarrow> proposal_reach cfg p'"

text \<open>The number of approvals a threshold asks for: a fraction is rounded up.\<close>

definition proposal_ok :: "multisig_config \<Rightarrow> payment_proposal \<Rightarrow> bool" where
  "proposal_ok cfg p \<longleftrightarrow> pp_requiredApprovals p = ms_requiredSignatures cfg \<and> distinct (pp_approvers p)
     \<and> set (pp_approvers p) \<subseteq> set (ms_signers cfg) \<and> pp_approvalCount p = int (length (pp_approvers p))
     \<and> (case ms_requiredSignatures cfg of
          None \<Rightarrow> pp_status p \<in> {Pending, Rejected}
        | Some k \<Rightarrow> if pp_status p \<in> {Approved, Executed} then int (length (pp_approvers p)) = \<lceil>k\<rceil>
                    else int (length (pp_approvers p)) < \<lceil>k\<rceil>)"

lemma num_ge_iff: "num_ge n x \<longleftrightarrow> (\<exists>k. x = Some k \<and> \<lceil>k\<rceil> \<le> n)"
  by (simp add: num_ge_def ceiling_le_iff split: option.split)

lemma reach_proposal_ok:
  assumes "proposal_reach cfg p" "\<And>k. ms_requiredSignatures cfg = Some k \<Longrightarrow> 1 \<le> \<lceil>k\<rceil>"
  shows "proposal_ok cfg p"
  using assms(1)
proof (induction rule: proposal_reach.induct)
  case (created now random nft recipient amount p)
  then show ?case using assms(2) by (force simp: createProposal_def proposal_ok_def split: if_splits option.split)
next
  case (later p p')
  from later(2) show ?case
  proof cases
    case (approve a)
    with later(3) show ?thesis
      by (auto simp: recordApproval_def proposal_ok_def num_ge_iff Let_def split: if_splits option.splits)
  next
    case reject
    with later(3) show ?thesis by (auto simp: rejectProposal_def proposal_ok_def split: if_splits option.splits)
  next
    case execute
    with later(3) show ?thesis by (auto simp: markExecuted_def proposal_ok_def split: if_splits option.splits)
  qed
qed

lemma config_valid:
  assumes "createConfig now nft required signers = Inr cfg"
  shows "ms_requiredSignatures cfg = required" "ms_signers cfg = signers" "distinct signers" "length signers \<le> 3"
    "required = Some k \<Longrightarrow> 1 \<le> \<lceil>k\<rceil> \<and> \<lceil>k\<rceil> \<le> int (length signers)"
proof -
  have *: "ms_requiredSignatures cfg = required \<and> ms_signers cfg = signers \<and> distinct signers \<and> int (length signers) \<le> 3
      \<and> \<not> num_lt required 1 \<and> \<not> num_gt required (int (length signers))"
    using assms by (auto simp: createConfig_def validateConfig_def MAX_SIGNERS_def length_remdups_card_conv card_distinct split: if_splits)
  then show "ms_requiredSignatures cfg = required" "ms_signers cfg = signers" "distinct signers" "length signers \<le> 3" by simp_all
  show "1 \<le> \<lceil>k\<rceil> \<and> \<lceil>k\<rceil> \<le> int (length signers)" if "required = Some k"
  proof -
    have "1 \<le> k" "k \<le> of_int (int (length signers))" using * that by (simp_all add: num_lt_def num_gt_def)
    then show ?thesis by (simp add: ceiling_le_iff)
  qed
qed

text \<open>
  C31. A proposal is approved by exactly the required number of different registered signers. For every configuration the
  adapter accepts and every sequence of approvals, rejections and executions of a proposal made under it, the recorded approvers
  are distinct signers and their number is the count. With a threshold that is a number, rounded up where it is a fraction,
  the proposal is approved or executed exactly if it is neither pending nor
  rejected, and then the number of approvers is the threshold, otherwise below it; and while it is pending there is a signer
  whose approval is still missing, and every such approval is accepted and
  approves the proposal exactly if it is the last one that the threshold asks for, so the proposal can be completed. A threshold that is not
  a number is accepted too: a proposal under it is never approved.
\<close>

theorem multisig_threshold:
  assumes cfg: "createConfig t0 nft required signers = Inr cfg" and reach: "proposal_reach cfg p"
  shows "distinct (pp_approvers p) \<and> set (pp_approvers p) \<subseteq> set signers \<and> pp_approvalCount p = int (length (pp_approvers p))
    \<and> (case required of
         None \<Rightarrow> pp_status p \<in> {Pending, Rejected}
       | Some k \<Rightarrow>
           (pp_status p \<in> {Approved, Executed} \<longrightarrow> int (length (pp_approvers p)) = \<lceil>k\<rceil>)
         \<and> (pp_status p \<in> {Pending, Rejected} \<longrightarrow> int (length (pp_approvers p)) < \<lceil>k\<rceil>)
         \<and> (pp_status p = Pending \<longrightarrow> (\<exists>a \<in> set signers. a \<notin> set (pp_approvers p)))
         \<and> (\<forall>a \<in> set signers. pp_status p = Pending \<longrightarrow> a \<notin> set (pp_approvers p) \<longrightarrow>
              (\<exists>p'. recordApproval p a cfg = Inr p' \<and> (pp_status p' = Approved \<longleftrightarrow> int (length (pp_approvers p)) + 1 = \<lceil>k\<rceil>))))"
proof -
  note c = config_valid [OF cfg]
  have ok: "proposal_ok cfg p" by (rule reach_proposal_ok [OF reach]) (use c in auto)
  then have facts: "distinct (pp_approvers p)" "set (pp_approvers p) \<subseteq> set signers" "pp_approvalCount p = int (length (pp_approvers p))"
    "pp_requiredApprovals p = required" using c(1,2) by (simp_all add: proposal_ok_def)
  show ?thesis
  proof (cases required)
    case None
    with ok facts c(1) show ?thesis by (simp add: proposal_ok_def)
  next
    case (Some k)
    have num: "pp_status p \<in> {Approved, Executed} \<longrightarrow> int (length (pp_approvers p)) = \<lceil>k\<rceil>"
      "pp_status p \<in> {Pending, Rejected} \<longrightarrow> int (length (pp_approvers p)) < \<lceil>k\<rceil>"
      using ok c(1) Some by (auto simp: proposal_ok_def split: if_splits)
    have more: "\<exists>a \<in> set signers. a \<notin> set (pp_approvers p)" if "pp_status p = Pending"
    proof (rule ccontr)
      assume "\<not> (\<exists>a \<in> set signers. a \<notin> set (pp_approvers p))"
      then have "set signers \<subseteq> set (pp_approvers p)" by blast
      then have "length signers \<le> length (pp_approvers p)"
        using c(3) facts(1) by (metis card_mono distinct_card List.finite_set)
      with num(2) c(5) [OF Some] that show False by simp
    qed
    have acc: "\<exists>p'. recordApproval p a cfg = Inr p' \<and> (pp_status p' = Approved \<longleftrightarrow> int (length (pp_approvers p)) + 1 = \<lceil>k\<rceil>)"
      if "a \<in> set signers" "pp_status p = Pending" "a \<notin> set (pp_approvers p)" for a
      using that facts num(2) c(2) Some by (auto simp: recordApproval_def num_ge_iff Let_def)
    show ?thesis using facts num more acc Some by simp
  qed
qed

theorem multisig_threshold_witness:
  "\<exists>cfg p. createConfig 0 ''n'' (Some (3 / 2)) [''a'', ''b'', ''c''] = Inr cfg \<and> proposal_reach cfg p \<and> pp_status p = Approved \<and> length (pp_approvers p) = 2"
proof -
  have k: "\<lceil>3 / 2 :: rat\<rceil> = 2" by (simp add: ceiling_eq_iff)
  obtain cfg where cfg: "createConfig 0 ''n'' (Some (3 / 2)) [''a'', ''b'', ''c''] = Inr cfg"
    by (simp add: createConfig_def validateConfig_def num_lt_def num_gt_def MAX_SIGNERS_def)
  then have c: "cfg = \<lparr>ms_nftAccountId = ''n'', ms_requiredSignatures = Some (3 / 2), ms_signers = [''a'', ''b'', ''c''], ms_isActive = True, ms_createdAt = 0\<rparr>"
    by (simp add: createConfig_def validateConfig_def num_lt_def num_gt_def MAX_SIGNERS_def)
  have "isPositiveDecimal ''5''"
    by (simp add: isPositiveDecimal_def decimal_parts_def decimal_whole_def is_digit_def digits_val_def digit_val_def padEnd9_def)
  then obtain p0 where p0: "createProposal 0 ''0.abc'' ''n'' ''r'' ''5'' cfg = Inr p0" "pp_status p0 = Pending" "pp_approvers p0 = []"
    by (auto simp: createProposal_def c js_trim_def js_space_def)
  note r0 = proposal_reach.created [OF p0(1)]
  from multisig_threshold [OF cfg r0] p0 obtain p1 where p1: "recordApproval p0 ''a'' cfg = Inr p1" "pp_status p1 \<noteq> Approved" by (auto simp: k)
  note r1 = proposal_reach.later [OF r0 proposal_step.approve [OF p1(1)]]
  have a1: "pp_approvers p1 = [''a'']" "pp_status p1 = Pending"
    using p1 p0 by (auto simp: recordApproval_def c Let_def split: if_splits)
  from multisig_threshold [OF cfg r1] a1 obtain p2 where p2: "recordApproval p1 ''c'' cfg = Inr p2" "pp_status p2 = Approved" by (auto simp: k)
  note r2 = proposal_reach.later [OF r1 proposal_step.approve [OF p2(1)]]
  from multisig_threshold [OF cfg r2] p2 have "length (pp_approvers p2) = 2" by (auto simp: k)
  with cfg r2 p2 show ?thesis by blast
qed

text \<open>A threshold that is not a number passes the validation, and no number of approvals reaches it.\<close>

lemma nan_threshold_accepted: "createConfig now nft None [''a''] = Inr \<lparr>ms_nftAccountId = nft, ms_requiredSignatures = None,
    ms_signers = [''a''], ms_isActive = True, ms_createdAt = now\<rparr>"
  by (simp add: createConfig_def validateConfig_def num_lt_def num_gt_def MAX_SIGNERS_def)

lemma nan_threshold_never_approved:
  "pp_requiredApprovals p = None \<Longrightarrow> recordApproval p a cfg = Inr p' \<Longrightarrow> pp_status p' = Pending"
  by (auto simp: recordApproval_def num_ge_def Let_def split: if_splits)

section \<open>Mandates\<close>

inductive mandate_step :: "mandate \<Rightarrow> mandate \<Rightarrow> bool" where
  run: "recordExecution now m tx = Inr (m', e) \<Longrightarrow> mandate_step m m'"
| cancel: "cancelMandate m = Inr m' \<Longrightarrow> mandate_step m m'"

definition mandate_ok :: "mandate \<Rightarrow> bool" where
  "mandate_ok m \<longleftrightarrow> 0 \<le> rm_executionCount m \<and> 0 \<le> rm_maxExecutions m \<and> MIN_PERIOD_SECONDS \<le> rm_periodSeconds m
     \<and> rm_periodSeconds m \<le> MAX_PERIOD_SECONDS \<and> isPositiveDecimal (rm_amountPerPeriod m)
     \<and> (rm_executionCount m = 0 \<longleftrightarrow> rm_lastExecutedAt m = None)
     \<and> (rm_status m = Mandate_completed \<longleftrightarrow> rm_maxExecutions m > 0 \<and> rm_executionCount m = rm_maxExecutions m)
     \<and> (rm_maxExecutions m > 0 \<longrightarrow> rm_executionCount m \<le> rm_maxExecutions m)"

lemma validated_params:
  "validateMandateParams a p m = Inr (x, y) \<Longrightarrow>
     isPositiveDecimal a \<and> MIN_PERIOD_SECONDS \<le> x \<and> x \<le> MAX_PERIOD_SECONDS \<and> 0 \<le> y"
  by (cases p; cases m) (simp_all add: validateMandateParams_def split: if_split_asm)

lemma created_mandate:
  assumes "createMandate now random payer merchant amount period maxExec = Inr m"
  shows "mandate_ok m"
proof -
  obtain x y where v: "validateMandateParams amount period maxExec = Inr (x, y)"
    and m: "m = \<lparr>rm_mandateId = generateId ''mandate'' now random, rm_payer = payer, rm_merchant = merchant,
         rm_amountPerPeriod = amount, rm_periodSeconds = x, rm_maxExecutions = y, rm_executionCount = 0,
         rm_lastExecutedAt = None, rm_status = Mandate_active, rm_createdAt = now\<rparr>"
    using assms by (cases "validateMandateParams amount period maxExec") (auto simp: createMandate_def)
  show ?thesis using validated_params [OF v] by (simp add: m mandate_ok_def)
qed

lemma step_mandate_ok:
  assumes "mandate_step m m'" "mandate_ok m"
  shows "mandate_ok m' \<and> rm_periodSeconds m' = rm_periodSeconds m \<and> rm_maxExecutions m' = rm_maxExecutions m
    \<and> rm_amountPerPeriod m' = rm_amountPerPeriod m"
  using assms(1)
proof cases
  case (run now tx e)
  then have a: "rm_status m = Mandate_active" by (simp add: recordExecution_def split: if_splits)
  define n where "n = rm_executionCount m + 1"
  define done_now where "done_now \<longleftrightarrow> rm_maxExecutions m > 0 \<and> n \<ge> rm_maxExecutions m"
  have m': "m' = m\<lparr>rm_executionCount := n, rm_lastExecutedAt := Some now,
      rm_status := (if done_now then Mandate_completed else Mandate_active)\<rparr>"
    using run a by (simp add: recordExecution_def Let_def n_def done_now_def)
  show ?thesis
    using assms(2) a unfolding m' mandate_ok_def by (simp add: done_now_def) (simp add: n_def, arith?)
next
  case cancel
  with assms(2) show ?thesis by (auto simp: cancelMandate_def mandate_ok_def split: if_splits)
qed

lemma steps_mandate_ok:
  assumes "mandate_step\<^sup>*\<^sup>* m m'" "mandate_ok m"
  shows "mandate_ok m' \<and> rm_periodSeconds m' = rm_periodSeconds m \<and> rm_maxExecutions m' = rm_maxExecutions m
    \<and> rm_amountPerPeriod m' = rm_amountPerPeriod m"
  using assms by (induction rule: rtranclp_induct) (auto dest: step_mandate_ok)

text \<open>
  C32. A mandate keeps its terms and its schedule. Once it is created with a period of \<open>p\<close> seconds and a maximum of \<open>n\<close>
  executions (0 for none), the period is between an hour and 365 days, and after any sequence of recorded executions and
  cancellations: the count never exceeds a positive maximum, and the mandate is completed exactly when it reaches it; at any
  instant the eligibility test holds exactly if the next execution time exists and has come; and an execution that is recorded
  at \<open>now\<close> is numbered by the count, carries the agreed amount, and is followed by eligibility exactly from \<open>now\<close> plus the period \<open>p\<close> on,
  as long as the mandate is active. Recording an execution is not itself subject to the schedule: it is
  possible exactly while the mandate is active, at any instant.
\<close>

theorem mandate_schedule:
  assumes "createMandate t0 random payer merchant amount period maxExec = Inr m0" "mandate_step\<^sup>*\<^sup>* m0 m"
  shows "\<exists>p n. period = Some p \<and> maxExec = Some n \<and> 3600 \<le> p \<and> p \<le> 31536000 \<and> 0 \<le> n \<and> isPositiveDecimal amount
    \<and> 0 \<le> rm_executionCount m \<and> (n > 0 \<longrightarrow> rm_executionCount m \<le> n)
    \<and> (rm_status m = Mandate_completed \<longleftrightarrow> n > 0 \<and> rm_executionCount m = n)
    \<and> (canExecute now m \<longleftrightarrow> (\<exists>t. getNextExecutionTime now m = Some t \<and> t \<le> now))
    \<and> ((\<exists>x. recordExecution now m tx = Inr x) \<longleftrightarrow> rm_status m = Mandate_active)
    \<and> (\<forall>m' e. recordExecution now m tx = Inr (m', e) \<longrightarrow>
         ex_executionNumber e = rm_executionCount m + 1 \<and> rm_executionCount m' = ex_executionNumber e \<and> ex_amount e = amount
         \<and> (ex_status e = Execution_confirmed \<longleftrightarrow> tx \<noteq> None \<and> tx \<noteq> Some [])
         \<and> (\<forall>t. canExecute t m' \<longleftrightarrow> rm_status m' = Mandate_active \<and> now + p * 1000 \<le> t)
         \<and> (\<forall>t. getNextExecutionTime t m' = (if rm_status m' = Mandate_active then Some (now + p * 1000) else None)))"
proof -
  note ok0 = created_mandate [OF assms(1)]
  obtain p n where v: "validateMandateParams amount period maxExec = Inr (p, n)"
    and m0: "rm_periodSeconds m0 = p" "rm_maxExecutions m0 = n" "rm_amountPerPeriod m0 = amount"
    using assms(1) by (cases "validateMandateParams amount period maxExec") (auto simp: createMandate_def)
  have given: "period = Some p" "maxExec = Some n"
    using v by (cases period; cases maxExec; simp add: validateMandateParams_def split: if_split_asm)+
  have ok: "mandate_ok m" and terms: "rm_periodSeconds m = p" "rm_maxExecutions m = n" "rm_amountPerPeriod m = amount"
    using steps_mandate_ok [OF assms(2) ok0] m0 by simp_all
  have sched: "canExecute now m \<longleftrightarrow> (\<exists>t. getNextExecutionTime now m = Some t \<and> t \<le> now)"
    by (auto simp: canExecute_def getNextExecutionTime_def split: option.splits)
  have rec: "(\<exists>x. recordExecution now m tx = Inr x) \<longleftrightarrow> rm_status m = Mandate_active"
    by (simp add: recordExecution_def Let_def)
  have after: "ex_executionNumber e = rm_executionCount m + 1 \<and> rm_executionCount m' = ex_executionNumber e \<and> ex_amount e = amount
         \<and> (ex_status e = Execution_confirmed \<longleftrightarrow> tx \<noteq> None \<and> tx \<noteq> Some [])
         \<and> (\<forall>t. canExecute t m' \<longleftrightarrow> rm_status m' = Mandate_active \<and> now + p * 1000 \<le> t)
         \<and> (\<forall>t. getNextExecutionTime t m' = (if rm_status m' = Mandate_active then Some (now + p * 1000) else None))"
    if r: "recordExecution now m tx = Inr (m', e)" for m' e
  proof -
    have "mandate_ok m'" "rm_maxExecutions m' = n" "rm_periodSeconds m' = p"
      using step_mandate_ok [OF mandate_step.run [OF r] ok] terms by simp_all
    moreover have "rm_lastExecutedAt m' = Some now"
      using r by (auto simp: recordExecution_def Let_def split: if_splits)
    moreover have "\<not> exhausted m'" if "rm_status m' = Mandate_active"
      using \<open>mandate_ok m'\<close> that by (auto simp: exhausted_def mandate_ok_def)
    ultimately have "(\<forall>t. canExecute t m' \<longleftrightarrow> rm_status m' = Mandate_active \<and> now + p * 1000 \<le> t)
         \<and> (\<forall>t. getNextExecutionTime t m' = (if rm_status m' = Mandate_active then Some (now + p * 1000) else None))"
      by (auto simp: canExecute_def getNextExecutionTime_def)
    with r terms show ?thesis by (auto simp: recordExecution_def Let_def split: if_splits)
  qed
  have bounds: "3600 \<le> p" "p \<le> 31536000" "0 \<le> n" "isPositiveDecimal amount"
    using validated_params [OF v] by (simp_all add: MIN_PERIOD_SECONDS_def MAX_PERIOD_SECONDS_def)
  have counts: "0 \<le> rm_executionCount m" "n > 0 \<longrightarrow> rm_executionCount m \<le> n"
    "rm_status m = Mandate_completed \<longleftrightarrow> n > 0 \<and> rm_executionCount m = n"
    using ok terms by (simp_all add: mandate_ok_def)
  show ?thesis using given bounds counts sched rec after by blast
qed

theorem mandate_schedule_witness:
  "\<exists>m m' e. createMandate 1000 ''0.x'' ''p'' ''q'' ''2.5'' (Some 7200) (Some 2) = Inr m \<and> recordExecution 5000 m None = Inr (m', e)
     \<and> ex_executionNumber e = 1 \<and> \<not> canExecute 7204999 m' \<and> canExecute 7205000 m'"
proof -
  have d: "isPositiveDecimal ''2.5''"
    by (simp add: isPositiveDecimal_def decimal_parts_def decimal_whole_def decimal_fraction_def is_digit_def digits_val_def digit_val_def padEnd9_def)
  obtain m where m: "createMandate 1000 ''0.x'' ''p'' ''q'' ''2.5'' (Some 7200) (Some 2) = Inr m" "rm_executionCount m = 0" "rm_status m = Mandate_active"
      "rm_maxExecutions m = 2"
    using d by (auto simp: createMandate_def validateMandateParams_def MIN_PERIOD_SECONDS_def MAX_PERIOD_SECONDS_def)
  obtain m' e where x: "recordExecution 5000 m None = Inr (m', e)" "rm_status m' = Mandate_active"
    using m by (simp add: recordExecution_def Let_def)
  from mandate_schedule [OF m(1) rtranclp.rtrancl_refl, of 5000 None] x m(2)
  have "ex_executionNumber e = 1" "\<not> canExecute 7204999 m'" "canExecute 7205000 m'" by auto
  with m(1) x show ?thesis by blast
qed

text \<open>
  A client that records an execution only when the test allows it keeps the agreed rhythm: consecutive executions are a period apart,
  and their number is bounded by the maximum.
\<close>

fun guarded_run :: "int list \<Rightarrow> mandate \<Rightarrow> mandate option" where
  "guarded_run [] m = Some m"
| "guarded_run (t # ts) m =
     (if canExecute t m then (case recordExecution t m None of Inr (m', _) \<Rightarrow> guarded_run ts m' | Inl _ \<Rightarrow> None) else None)"

lemma guarded_run_after:
  assumes "mandate_ok m" "rm_lastExecutedAt m = Some t0" "guarded_run ts m = Some m'"
  shows "list_all (\<lambda>t. t0 + rm_periodSeconds m * 1000 \<le> t) ts \<and> sorted_wrt (\<lambda>a b. a + rm_periodSeconds m * 1000 \<le> b) ts
    \<and> rm_executionCount m' = rm_executionCount m + int (length ts)"
  using assms
proof (induction ts arbitrary: m t0)
  case (Cons t ts)
  then obtain m1 e where r: "canExecute t m" "recordExecution t m None = Inr (m1, e)" "guarded_run ts m1 = Some m'"
    by (auto split: if_splits sum.splits prod.splits)
  have ge: "t0 + rm_periodSeconds m * 1000 \<le> t" using r(1) Cons.prems(2) by (auto simp: canExecute_def split: if_splits)
  have s: "mandate_ok m1" "rm_periodSeconds m1 = rm_periodSeconds m"
    using step_mandate_ok [OF mandate_step.run [OF r(2)] Cons.prems(1)] by simp_all
  have l: "rm_lastExecutedAt m1 = Some t" "rm_executionCount m1 = rm_executionCount m + 1"
    using r(2) by (auto simp: recordExecution_def Let_def split: if_splits)
  have p: "0 \<le> rm_periodSeconds m" using Cons.prems(1) by (simp add: mandate_ok_def MIN_PERIOD_SECONDS_def)
  show ?case using Cons.IH [OF s(1) l(1) r(3)] ge p s(2) l(2) by (auto simp: list_all_iff)
qed simp

section \<open>Bridge intents\<close>

text \<open>Confirming and linking do not look at the status: a cancelled intent comes back.\<close>

lemma cancelled_intent_revived:
  assumes "cancelBridgeIntent cfg i = Inr j"
  shows "bi_status (linkProviderTransaction j tx) = Intent_pending" "bi_status (confirmBridgeIntent now j hash) = Intent_confirmed"
    "bi_status j = Intent_cancelled"
  using assms by (auto simp: cancelBridgeIntent_def linkProviderTransaction_def confirmBridgeIntent_def split: if_splits)

lemma intent_cancelled_once:
  "cancelBridgeIntent cfg i = Inr j \<Longrightarrow> \<exists>e. cancelBridgeIntent cfg j = Inl e"
  by (auto simp: cancelBridgeIntent_def split: if_splits)

end
