(* ===== verification/Lending.thy ===== *)
theory Lending
  imports Adapters Sdk_Wallet
begin

text \<open>
  The lending adapter (\<open>backend/adapters/coinrabbit.ts\<close> with its part of \<open>types.ts\<close>): the identity of a borrower and a
  collateral signal, read through a gateway to the chain at one fresh snapshot, and the intent handed to the lender. The
  gateway, the clock and \<open>Math.random\<close> act on a world of their own; a call of the gateway that throws answers \<open>Inl ()\<close>. A time is
  in milliseconds, an invalid date has none, and a number is rational, except for the maximal age, which is any number of the program.
\<close>

section \<open>Data\<close>

datatype verification_status = Verified | Unverified | Unavailable | Invalid

record chain_snapshot =
  ch_chainId :: int
  ch_blockSeqno :: "rat option"
  ch_observedAt :: "int option"

record nft_chain_data =
  nc_account :: string
  nc_nftAddress :: string
  nc_collection :: string
  nc_owner :: "string option"
  nc_initialized :: bool

record signal_info =
  sg_id :: string
  sg_account :: string
  sg_assetType :: string
  sg_amount :: string
  sg_active :: bool
  sg_createdAt :: int
  sg_expiresAt :: "int option"
  sg_txHash :: "string option"

record signal_chain_data =
  sc_info :: signal_info
  sc_nftAddress :: string

record 'w chain_gateway =
  gw_snapshot :: "int \<Rightarrow> 'w \<Rightarrow> (unit + chain_snapshot) \<times> 'w"
  gw_account :: "string \<Rightarrow> chain_snapshot \<Rightarrow> 'w \<Rightarrow> (unit + nft_chain_data option) \<times> 'w"
  gw_signal :: "string \<Rightarrow> chain_snapshot \<Rightarrow> 'w \<Rightarrow> (unit + signal_chain_data option) \<times> 'w"

record 'w lending_env =
  le_gateway :: "'w chain_gateway option"
  le_now :: "'w \<Rightarrow> int \<times> 'w"
  le_random :: "'w \<Rightarrow> string \<times> 'w"

text \<open>A number of the program as a maximal age: with \<open>NaN\<close> or \<open>Infinity\<close> the comparison \<open>age > limit\<close> is never true.\<close>

datatype age_limit = Finite_Age rat | Nan_Age | Plus_Infinity | Minus_Infinity

fun older_than :: "int \<Rightarrow> age_limit \<Rightarrow> bool" where
  "older_than age (Finite_Age s) \<longleftrightarrow> s * 1000 < of_int age"
| "older_than age Nan_Age \<longleftrightarrow> False"
| "older_than age Plus_Infinity \<longleftrightarrow> False"
| "older_than age Minus_Infinity \<longleftrightarrow> True"

record lending_input =
  li_baseUrl :: "string option"
  li_affiliateId :: "string option"
  li_collateralContract :: "string option"
  li_chainId :: "int option"
  li_maxSnapshotAge :: "age_limit option"

record lending_config =
  lc_baseUrl :: string
  lc_affiliateId :: string
  lc_collateralContract :: string
  lc_chainId :: int
  lc_maxSnapshotAge :: age_limit

record borrower_identity =
  bi_account :: string
  bi_collection :: string
  bi_owner :: "string option"
  bi_nftAddress :: "string option"
  bi_valid :: bool
  bi_status :: verification_status
  bi_block :: "rat option"
  bi_resolvedAt :: int

record collateral_response =
  cr_valid :: bool
  cr_ownership :: bool
  cr_status :: verification_status
  cr_signal :: "signal_info option"
  cr_block :: "rat option"
  cr_verifiedAt :: int
  cr_disclaimer :: string

record loan_request =
  lr_account :: string
  lr_signalId :: "string option"
  lr_amount :: "string option"
  lr_currency :: "string option"

record lender_data =
  ld_account :: string
  ld_collection :: string
  ld_index :: "int option"
  ld_signalId :: "string option"
  ld_collateralContract :: "string option"
  ld_chainId :: int
  ld_version :: string
  ld_disclaimer :: string

record loan_intent =
  in_id :: string
  in_identity :: borrower_identity
  in_collateral :: "signal_info option"
  in_lenderUrl :: string
  in_createdAt :: int
  in_expiresAt :: int
  in_data :: lender_data

datatype loan_status = Loan_pending | Loan_active | Loan_completed | Loan_cancelled | Loan_unknown

record loan_reference =
  rf_id :: string
  rf_provider :: external_provider
  rf_externalId :: "string option"
  rf_account :: string
  rf_signalId :: "string option"
  rf_intentId :: string
  rf_createdAt :: int
  rf_updatedAt :: int
  rf_status :: loan_status
  rf_metadata :: "(string, json) amap"

section \<open>Configuration\<close>

definition PROTOCOL_VERSION :: string where
  "PROTOCOL_VERSION = ''1.0.0''"

definition SERIES_7777 :: string where
  "SERIES_7777 = ''EQAjHkHtt1MIoU5c7dks73Rz8NMxAA3oStSrcQ_qgn3il-Le''"

definition SERIES_8888 :: string where
  "SERIES_8888 = ''EQBedyJo8oEKJEmGUaxPELXM8dQUzXN3QYx7e8WBsfu9aVQ7''"

definition LENDER_DISCLAIMER :: string where
  "LENDER_DISCLAIMER = ''TONBANKCARD protocol makes NO guarantees about collateral, balances, or repayment. ''
     @ ''Lenders MUST verify all data on-chain independently. ''
     @ ''The protocol is non-custodial and does not enforce loan terms.''"

definition non_empty_or :: "string option \<Rightarrow> string \<Rightarrow> string" where
  "non_empty_or x d = (if or_empty x = [] then d else or_empty x)"

definition lending_config_of :: "lending_input \<Rightarrow> lending_config" where
  "lending_config_of i = \<lparr>lc_baseUrl = non_empty_or (li_baseUrl i) ''https://coinrabbit.io'',
     lc_affiliateId = or_empty (li_affiliateId i), lc_collateralContract = or_empty (li_collateralContract i),
     lc_chainId = (case li_chainId i of None \<Rightarrow> 1 | Some n \<Rightarrow> if n = 0 then 1 else n),
     lc_maxSnapshotAge = (case li_maxSnapshotAge i of None \<Rightarrow> Finite_Age 120 | Some s \<Rightarrow> s)\<rparr>"

section \<open>Accounts\<close>

definition isValidNFTAccountId :: "string \<Rightarrow> bool" where
  "isValidNFTAccountId s \<longleftrightarrow>
     (starts_with ''7777'' s \<or> starts_with ''8888'' s) \<and>
     (let d = drop 4 s in 1 \<le> length d \<and> length d \<le> 15 \<and> list_all is_digit d)"

definition getCollectionForAccount :: "string \<Rightarrow> string" where
  "getCollectionForAccount account =
     (let numericId = filter is_digit account in
      if starts_with ''7777'' numericId then SERIES_7777
      else if starts_with ''8888'' numericId then SERIES_8888 else [])"

definition isWhitelistedCollection :: "string \<Rightarrow> bool" where
  "isWhitelistedCollection c \<longleftrightarrow> c \<in> {SERIES_7777, SERIES_8888}"

text \<open>Exact below \<open>2 ^ 53\<close>, which holds for every account identifier that the adapter accepts.\<close>

definition extractNFTIndex :: "string \<Rightarrow> int option" where
  "extractNFTIndex account =
     (let numericId = filter is_digit account; n = digits_val (drop 4 numericId) in
      if (starts_with ''7777'' numericId \<or> starts_with ''8888'' numericId) \<and> n \<noteq> 0 then Some (int n) else None)"

section \<open>Reading the chain\<close>

definition safe_seqno :: "rat option \<Rightarrow> bool" where
  "safe_seqno x \<longleftrightarrow> (case x of None \<Rightarrow> False | Some r \<Rightarrow> of_int \<lfloor>r\<rfloor> = r \<and> 0 \<le> r \<and> r \<le> 2 ^ 53 - 1)"

definition usable :: "lending_config \<Rightarrow> chain_snapshot \<Rightarrow> int \<Rightarrow> bool" where
  "usable cf s now \<longleftrightarrow> ch_chainId s = lc_chainId cf \<and> safe_seqno (ch_blockSeqno s) \<and>
     (case ch_observedAt s of None \<Rightarrow> False
      | Some t \<Rightarrow> 0 \<le> now - t \<and> \<not> older_than (now - t) (lc_maxSnapshotAge cf))"

definition getUsableSnapshot :: "'w lending_env \<Rightarrow> lending_config \<Rightarrow> 'w \<Rightarrow> chain_snapshot option \<times> 'w" where
  "getUsableSnapshot e cf w =
     (case le_gateway e of
        None \<Rightarrow> (None, w)
      | Some g \<Rightarrow>
          (case gw_snapshot g (lc_chainId cf) w of
             (Inl _, w) \<Rightarrow> (None, w)
           | (Inr s, w) \<Rightarrow> (case le_now e w of (now, w) \<Rightarrow> (if usable cf s now then Some s else None, w))))"

definition no_identity :: "'w lending_env \<Rightarrow> string \<Rightarrow> verification_status \<Rightarrow> rat option \<Rightarrow> 'w \<Rightarrow> borrower_identity \<times> 'w" where
  "no_identity e account status block w =
     (case le_now e w of (now, w) \<Rightarrow>
       (\<lparr>bi_account = account, bi_collection = [], bi_owner = None, bi_nftAddress = None, bi_valid = False,
         bi_status = status, bi_block = block, bi_resolvedAt = now\<rparr>, w))"

definition owned_account :: "string \<Rightarrow> nft_chain_data \<Rightarrow> bool" where
  "owned_account account d \<longleftrightarrow> nc_account d = account \<and> nc_initialized d \<and> or_empty (nc_owner d) \<noteq> []
     \<and> isWhitelistedCollection (nc_collection d)"

definition found_identity :: "'w lending_env \<Rightarrow> string \<Rightarrow> nft_chain_data \<Rightarrow> bool \<Rightarrow> chain_snapshot \<Rightarrow> 'w \<Rightarrow> borrower_identity \<times> 'w" where
  "found_identity e account d isValid snap w =
     (case le_now e w of (now, w) \<Rightarrow>
       (\<lparr>bi_account = account, bi_collection = nc_collection d, bi_owner = nc_owner d, bi_nftAddress = Some (nc_nftAddress d),
         bi_valid = isValid, bi_status = (if isValid then Verified else Unverified), bi_block = ch_blockSeqno snap,
         bi_resolvedAt = now\<rparr>, w))"

definition resolveBorrowerIdentity :: "'w lending_env \<Rightarrow> lending_config \<Rightarrow> string \<Rightarrow> string option \<Rightarrow> 'w \<Rightarrow> borrower_identity \<times> 'w" where
  "resolveBorrowerIdentity e cf account ownerAddress w =
     (if \<not> isValidNFTAccountId account then no_identity e account Invalid None w
      else case getUsableSnapshot e cf w of
        (None, w) \<Rightarrow> no_identity e account Unavailable None w
      | (Some snap, w) \<Rightarrow>
          (case le_gateway e of
             None \<Rightarrow> no_identity e account Unavailable None w
           | Some g \<Rightarrow>
               (case gw_account g account snap w of
                  (Inl _, w) \<Rightarrow> no_identity e account Unavailable None w
                | (Inr None, w) \<Rightarrow> no_identity e account Unverified (ch_blockSeqno snap) w
                | (Inr (Some d), w) \<Rightarrow>
                    let ownerMatches = (or_empty ownerAddress = [] \<or> nc_owner d = ownerAddress)
                    in found_identity e account d (owned_account account d \<and> ownerMatches) snap w)))"

definition resolveBorrowerIdentityAtSnapshot :: "'w lending_env \<Rightarrow> string \<Rightarrow> chain_snapshot \<Rightarrow> 'w \<Rightarrow> borrower_identity \<times> 'w" where
  "resolveBorrowerIdentityAtSnapshot e account snap w =
     (case le_gateway e of
        None \<Rightarrow> no_identity e account Unavailable None w
      | Some g \<Rightarrow>
          (case gw_account g account snap w of
             (Inl _, w) \<Rightarrow> no_identity e account Unavailable None w
           | (Inr None, w) \<Rightarrow> no_identity e account Unverified (ch_blockSeqno snap) w
           | (Inr (Some d), w) \<Rightarrow> found_identity e account d (owned_account account d) snap w))"

definition failedCollateralVerification :: "'w lending_env \<Rightarrow> verification_status \<Rightarrow> rat option \<Rightarrow> 'w \<Rightarrow> collateral_response \<times> 'w" where
  "failedCollateralVerification e status block w =
     (case le_now e w of (now, w) \<Rightarrow>
       (\<lparr>cr_valid = False, cr_ownership = False, cr_status = status, cr_signal = None, cr_block = block, cr_verifiedAt = now,
         cr_disclaimer = LENDER_DISCLAIMER\<rparr>, w))"

definition signal_verified :: "string \<Rightarrow> string \<Rightarrow> borrower_identity \<Rightarrow> signal_chain_data \<Rightarrow> bool" where
  "signal_verified signalId account identity s \<longleftrightarrow>
     sg_id (sc_info s) = signalId \<and> sg_account (sc_info s) = account \<and> Some (sc_nftAddress s) = bi_nftAddress identity
     \<and> sg_active (sc_info s)"

definition verifyCollateralSignal :: "'w lending_env \<Rightarrow> lending_config \<Rightarrow> string \<Rightarrow> string \<Rightarrow> 'w \<Rightarrow> collateral_response \<times> 'w" where
  "verifyCollateralSignal e cf signalId account w =
     (if signalId = [] \<or> \<not> isValidNFTAccountId account then failedCollateralVerification e Invalid None w
      else case getUsableSnapshot e cf w of
        (None, w) \<Rightarrow> failedCollateralVerification e Unavailable None w
      | (Some snap, w) \<Rightarrow>
          (case le_gateway e of
             None \<Rightarrow> failedCollateralVerification e Unavailable None w
           | Some g \<Rightarrow>
               (case resolveBorrowerIdentityAtSnapshot e account snap w of (identity, w) \<Rightarrow>
                  if \<not> bi_valid identity then failedCollateralVerification e (bi_status identity) (ch_blockSeqno snap) w
                  else case gw_signal g signalId snap w of
                    (Inl _, w) \<Rightarrow> failedCollateralVerification e Unavailable (ch_blockSeqno snap) w
                  | (Inr None, w) \<Rightarrow> failedCollateralVerification e Unverified (ch_blockSeqno snap) w
                  | (Inr (Some s), w) \<Rightarrow>
                      if \<not> signal_verified signalId account identity s
                      then failedCollateralVerification e Unverified (ch_blockSeqno snap) w
                      else (case le_now e w of (now, w) \<Rightarrow>
                        (\<lparr>cr_valid = True, cr_ownership = True, cr_status = Verified, cr_signal = Some (sc_info s),
                          cr_block = ch_blockSeqno snap, cr_verifiedAt = now, cr_disclaimer = LENDER_DISCLAIMER\<rparr>, w)))))"

definition getCollateralSignalInfo :: "'w lending_env \<Rightarrow> lending_config \<Rightarrow> string \<Rightarrow> string \<Rightarrow> 'w \<Rightarrow> signal_info option \<times> 'w" where
  "getCollateralSignalInfo e cf signalId account w =
     (if signalId = [] \<or> account = [] then (None, w)
      else case verifyCollateralSignal e cf signalId account w of
        (r, w) \<Rightarrow> (if cr_status r = Verified then cr_signal r else None, w))"

section \<open>Intents\<close>

definition lender_query :: "lending_config \<Rightarrow> loan_request \<Rightarrow> (string \<times> string) list" where
  "lender_query cf r =
     (let opt = (\<lambda>k x. if or_empty x = [] then [] else [(k, or_empty x)]) in
      opt ''ref'' (Some (lc_affiliateId cf)) @ [(''source'', ''tonbankcard''), (''nft_account'', lr_account r), (''chain'', ''ton'')]
      @ opt ''collateral_signal'' (lr_signalId r) @ opt ''amount'' (lr_amount r) @ opt ''currency'' (lr_currency r))"

definition generateLenderUrl :: "lending_config \<Rightarrow> loan_request \<Rightarrow> string" where
  "generateLenderUrl cf r = lc_baseUrl cf @ ''/loans?'' @ search_params (lender_query cf r)"

definition lender_data_of :: "lending_config \<Rightarrow> string \<Rightarrow> string option \<Rightarrow> borrower_identity \<Rightarrow> lender_data" where
  "lender_data_of cf account signalId identity =
     \<lparr>ld_account = account, ld_collection = bi_collection identity, ld_index = extractNFTIndex account, ld_signalId = signalId,
      ld_collateralContract = (if lc_collateralContract cf = [] then None else Some (lc_collateralContract cf)),
      ld_chainId = lc_chainId cf, ld_version = PROTOCOL_VERSION, ld_disclaimer = LENDER_DISCLAIMER\<rparr>"

definition generated_id :: "'w lending_env \<Rightarrow> string \<Rightarrow> 'w \<Rightarrow> string \<times> 'w" where
  "generated_id e prefix w =
     (case le_now e w of (now, w) \<Rightarrow> (case le_random e w of (r, w) \<Rightarrow> (generateId prefix now r, w)))"

definition createLoanIntent :: "'w lending_env \<Rightarrow> lending_config \<Rightarrow> loan_request \<Rightarrow> 'w \<Rightarrow> (provider_error + loan_intent) \<times> 'w" where
  "createLoanIntent e cf r w =
     (case resolveBorrowerIdentity e cf (lr_account r) None w of (identity, w) \<Rightarrow>
        if \<not> bi_valid identity
        then (Inl (createError CoinRabbit (''Invalid NFT Account ID: '' @ lr_account r) ''INVALID_ACCOUNT''), w)
        else
          (case (if or_empty (lr_signalId r) = [] then (None, w)
                 else getCollateralSignalInfo e cf (or_empty (lr_signalId r)) (lr_account r) w) of (collateral, w) \<Rightarrow>
           (case generated_id e ''intent'' w of (intentId, w) \<Rightarrow>
           (case le_now e w of (now, w) \<Rightarrow>
             (Inr \<lparr>in_id = intentId, in_identity = identity, in_collateral = collateral, in_lenderUrl = generateLenderUrl cf r,
                in_createdAt = now, in_expiresAt = now + 24 * 60 * 60 * 1000,
                in_data = lender_data_of cf (lr_account r) (lr_signalId r) identity\<rparr>, w)))))"

definition getLenderMetadata :: "'w lending_env \<Rightarrow> lending_config \<Rightarrow> string \<Rightarrow> string option \<Rightarrow> 'w \<Rightarrow> lender_data \<times> 'w" where
  "getLenderMetadata e cf account signalId w =
     (case resolveBorrowerIdentity e cf account None w of (identity, w) \<Rightarrow> (lender_data_of cf account signalId identity, w))"

definition createLoanReference :: "'w lending_env \<Rightarrow> string \<Rightarrow> string \<Rightarrow> string option \<Rightarrow> string option \<Rightarrow> 'w \<Rightarrow> loan_reference \<times> 'w" where
  "createLoanReference e intentId account externalId signalId w =
     (case le_now e w of (now, w) \<Rightarrow> (case generated_id e ''ref'' w of (i, w) \<Rightarrow>
       (\<lparr>rf_id = i, rf_provider = CoinRabbit, rf_externalId = externalId, rf_account = account, rf_signalId = signalId,
         rf_intentId = intentId, rf_createdAt = now, rf_updatedAt = now, rf_status = Loan_pending, rf_metadata = []\<rparr>, w)))"

definition updateLoanReferenceStatus :: "int \<Rightarrow> loan_reference \<Rightarrow> loan_status \<Rightarrow> (string, json) amap \<Rightarrow> loan_reference" where
  "updateLoanReferenceStatus now reference newStatus metadata =
     reference\<lparr>rf_status := newStatus, rf_updatedAt := now,
       rf_metadata := fold (\<lambda>(k, v). amap_set k v) metadata (rf_metadata reference)\<rparr>"

end
