(* ===== verification/Lending_Props.thy ===== *)
theory Lending_Props
  imports Lending
begin

text \<open>
  A collateral signal is confirmed only on what the chain says at one fresh snapshot, an intent exists only for an account
  that the chain confirms, and its link carries what was asked and nothing else.
\<close>

section \<open>Reading the chain\<close>

lemma usable_snapshot:
  assumes "getUsableSnapshot e cf w = (Some snap, w')"
  obtains g w1 now where "le_gateway e = Some g" "gw_snapshot g (lc_chainId cf) w = (Inr snap, w1)" "le_now e w1 = (now, w')"
    "usable cf snap now"
  using assms by (auto simp: getUsableSnapshot_def split: option.splits prod.splits sum.splits if_splits)

lemma no_identity_invalid: "no_identity e account status block w = (i, w') \<Longrightarrow> \<not> bi_valid i"
  by (auto simp: no_identity_def split: prod.splits)

lemma found_identity_fields:
  "found_identity e account d b snap w = (i, w') \<Longrightarrow> bi_valid i = b \<and> bi_nftAddress i = Some (nc_nftAddress d)
     \<and> bi_collection i = nc_collection d \<and> bi_account i = account \<and> bi_owner i = nc_owner d \<and> bi_block i = ch_blockSeqno snap"
  by (auto simp: found_identity_def split: prod.splits)

lemma identity_at_snapshot:
  assumes "resolveBorrowerIdentityAtSnapshot e account snap w = (i, w')" "bi_valid i" "le_gateway e = Some g"
  obtains d w1 where "gw_account g account snap w = (Inr (Some d), w1)" "owned_account account d" "bi_nftAddress i = Some (nc_nftAddress d)"
  using assms no_identity_invalid found_identity_fields
  by (fastforce simp: resolveBorrowerIdentityAtSnapshot_def split: prod.splits sum.splits option.splits)

lemma identity_resolved:
  assumes "resolveBorrowerIdentity e cf account owner w = (i, w')" "bi_valid i"
  obtains g snap w1 d w2 where "isValidNFTAccountId account" "le_gateway e = Some g" "getUsableSnapshot e cf w = (Some snap, w1)"
    "gw_account g account snap w1 = (Inr (Some d), w2)" "owned_account account d" "or_empty owner = [] \<or> nc_owner d = owner"
    "bi_collection i = nc_collection d" "bi_block i = ch_blockSeqno snap"
proof -
  from assms have acc: "isValidNFTAccountId account"
    by (auto simp: resolveBorrowerIdentity_def dest: no_identity_invalid split: if_splits)
  obtain s w1 where s: "getUsableSnapshot e cf w = (s, w1)" by fastforce
  with assms acc obtain snap where snap: "s = Some snap"
    by (cases s) (auto simp: resolveBorrowerIdentity_def dest: no_identity_invalid)
  with s obtain g where g: "le_gateway e = Some g" by (auto elim: usable_snapshot)
  obtain r w2 where r: "gw_account g account snap w1 = (r, w2)" by fastforce
  from assms acc s snap g r obtain d where d: "r = Inr (Some d)"
    by (cases r) (auto simp: resolveBorrowerIdentity_def dest: no_identity_invalid split: option.splits)
  with assms acc s snap g r have "found_identity e account d (owned_account account d \<and> (or_empty owner = [] \<or> nc_owner d = owner)) snap w2 = (i, w')"
    by (simp add: resolveBorrowerIdentity_def Let_def)
  from found_identity_fields [OF this] assms(2) acc g s snap r d that show thesis by auto
qed

text \<open>What a usable snapshot promises: of the configured chain, at a block number, and no older than configured,
  where the configured age is not \<open>NaN\<close> or \<open>Infinity\<close>, which bound nothing.\<close>

definition fresh_snapshot :: "lending_config \<Rightarrow> chain_snapshot \<Rightarrow> int \<Rightarrow> bool" where
  "fresh_snapshot cf s now \<longleftrightarrow> ch_chainId s = lc_chainId cf \<and> (\<exists>n t. ch_blockSeqno s = Some (of_nat n)
     \<and> ch_observedAt s = Some t \<and> t \<le> now \<and> (case lc_maxSnapshotAge cf of Finite_Age m \<Rightarrow> of_int (now - t) \<le> m * 1000
         | Minus_Infinity \<Rightarrow> False | _ \<Rightarrow> True))"

lemma not_older: "\<not> older_than age l \<Longrightarrow> case l of Finite_Age m \<Rightarrow> of_int age \<le> m * 1000 | Minus_Infinity \<Rightarrow> False | _ \<Rightarrow> True"
  by (cases l) auto

lemma usable_fresh: "usable cf s now \<Longrightarrow> fresh_snapshot cf s now"
proof -
  assume u: "usable cf s now"
  then obtain r t where r: "ch_blockSeqno s = Some r" "of_int \<lfloor>r\<rfloor> = r" "0 \<le> r"
    and t: "ch_observedAt s = Some t" "t \<le> now" "\<not> older_than (now - t) (lc_maxSnapshotAge cf)"
    by (auto simp: usable_def safe_seqno_def split: option.splits)
  have "r = of_nat (nat \<lfloor>r\<rfloor>)" using r by (metis of_int_of_nat_eq int_nat_eq zero_le_floor)
  with r t not_older [OF t(3)] u show ?thesis unfolding fresh_snapshot_def usable_def by metis
qed

lemma collateral_core:
  assumes "verifyCollateralSignal e cf signalId account w = (r, w')"
  shows "(cr_valid r \<longrightarrow> isValidNFTAccountId account \<and> (\<exists>g snap w1 now w2 d w3 w4 s w5. le_gateway e = Some g
       \<and> gw_snapshot g (lc_chainId cf) w = (Inr snap, w1) \<and> le_now e w1 = (now, w2) \<and> fresh_snapshot cf snap now
       \<and> gw_account g account snap w2 = (Inr (Some d), w3) \<and> owned_account account d
       \<and> gw_signal g signalId snap w4 = (Inr (Some s), w5) \<and> sg_id (sc_info s) = signalId \<and> sg_account (sc_info s) = account
       \<and> sc_nftAddress s = nc_nftAddress d \<and> sg_active (sc_info s) \<and> cr_signal r = Some (sc_info s)
       \<and> cr_block r = ch_blockSeqno snap))
    \<and> (cr_valid r \<longleftrightarrow> cr_status r = Verified) \<and> (\<not> cr_valid r \<longrightarrow> \<not> cr_ownership r \<and> cr_signal r = None)"
proof -
  have fail: "\<not> cr_valid r \<and> \<not> cr_ownership r \<and> cr_signal r = None \<and> cr_status r = st"
    if "failedCollateralVerification e st b v = (r, w')" for st b v
    using that by (auto simp: failedCollateralVerification_def split: prod.splits)
  show ?thesis
  proof (cases "signalId = [] \<or> \<not> isValidNFTAccountId account")
    case True
    with assms fail [of Invalid None w] show ?thesis by (simp add: verifyCollateralSignal_def)
  next
    case acc: False
    obtain s0 w2 where s0: "getUsableSnapshot e cf w = (s0, w2)" by fastforce
    show ?thesis
    proof (cases s0)
      case None
      with assms acc s0 fail [of Unavailable None w2] show ?thesis by (simp add: verifyCollateralSignal_def)
    next
      case (Some snap)
      with s0 obtain g w1 now where g: "le_gateway e = Some g" "gw_snapshot g (lc_chainId cf) w = (Inr snap, w1)"
          "le_now e w1 = (now, w2)" "usable cf snap now"
        by (auto elim: usable_snapshot)
      obtain i w4 where i: "resolveBorrowerIdentityAtSnapshot e account snap w2 = (i, w4)" by fastforce
      have stat: "bi_valid i = (bi_status i = Verified)"
        using i by (auto simp: resolveBorrowerIdentityAtSnapshot_def no_identity_def found_identity_def g
            split: sum.splits prod.splits option.splits if_splits)
      obtain sr w5 where sr: "gw_signal g signalId snap w4 = (sr, w5)" by fastforce
      show ?thesis
      proof (cases "bi_valid i \<and> (\<exists>s. sr = Inr (Some s) \<and> signal_verified signalId account i s)")
        case False
        then have "\<exists>st b v. failedCollateralVerification e st b v = (r, w') \<and> st \<noteq> Verified"
          using assms acc s0 Some g(1) i sr stat
          by (cases sr) (auto simp: verifyCollateralSignal_def split: if_splits option.splits)
        with fail show ?thesis by metis
      next
        case True
        then obtain s where s: "bi_valid i" "sr = Inr (Some s)" "signal_verified signalId account i s" by blast
        from identity_at_snapshot [OF i s(1) g(1)] obtain d w3 where d: "gw_account g account snap w2 = (Inr (Some d), w3)"
            "owned_account account d" "bi_nftAddress i = Some (nc_nftAddress d)" .
        have "cr_valid r \<and> cr_status r = Verified \<and> cr_signal r = Some (sc_info s) \<and> cr_block r = ch_blockSeqno snap"
          using assms acc s0 Some g(1) i sr s by (auto simp: verifyCollateralSignal_def split: prod.splits)
        moreover have "sc_nftAddress s = nc_nftAddress d" "sg_id (sc_info s) = signalId" "sg_account (sc_info s) = account" "sg_active (sc_info s)"
          using s(3) d(3) by (auto simp: signal_verified_def)
        ultimately show ?thesis using acc g(1-3) usable_fresh [OF g(4)] d(1,2) sr s(2) by blast
      qed
    qed
  qed
qed

lemma verified_signal:
  assumes "verifyCollateralSignal e cf signalId account w = (r, w')" "cr_status r = Verified" "cr_signal r = Some x"
  shows "sg_id x = signalId \<and> sg_account x = account \<and> sg_active x"
  using collateral_core [OF assms(1)] assms(2,3) by auto

text \<open>
  C38. A confirmed collateral signal rests on the chain. When the adapter answers that a signal is valid, the gateway gave
  one snapshot of the configured chain that was no older than the configured age (whenever that age is a finite number:
  \<open>NaN\<close> and \<open>Infinity\<close> set no bound), and at this same snapshot it reported
  that the account is initialised, has an owner and belongs to a whitelisted collection, and that the signal has the
  identifier asked for, belongs to this account and to its NFT, and is active; the answer repeats the reported signal. In
  every other case the answer is negative, with neither ownership nor a signal.
\<close>

theorem collateral_signal_sound:
  assumes "verifyCollateralSignal e cf signalId account w = (r, w')"
  shows "(cr_valid r \<longrightarrow> isValidNFTAccountId account \<and> (\<exists>g snap w1 now w2 d w3 w4 s w5. le_gateway e = Some g
       \<and> gw_snapshot g (lc_chainId cf) w = (Inr snap, w1) \<and> le_now e w1 = (now, w2) \<and> fresh_snapshot cf snap now
       \<and> gw_account g account snap w2 = (Inr (Some d), w3) \<and> owned_account account d
       \<and> gw_signal g signalId snap w4 = (Inr (Some s), w5) \<and> sg_id (sc_info s) = signalId \<and> sg_account (sc_info s) = account
       \<and> sc_nftAddress s = nc_nftAddress d \<and> sg_active (sc_info s) \<and> cr_signal r = Some (sc_info s)
       \<and> cr_block r = ch_blockSeqno snap))
    \<and> (cr_valid r \<longleftrightarrow> cr_status r = Verified) \<and> (\<not> cr_valid r \<longrightarrow> \<not> cr_ownership r \<and> cr_signal r = None)"
  by (rule collateral_core [OF assms])

definition snap0 :: chain_snapshot where
  "snap0 = \<lparr>ch_chainId = 1, ch_blockSeqno = Some 42, ch_observedAt = Some 1000\<rparr>"

definition account0 :: nft_chain_data where
  "account0 = \<lparr>nc_account = ''7777001'', nc_nftAddress = ''EQnft'', nc_collection = SERIES_7777, nc_owner = Some ''EQo'', nc_initialized = True\<rparr>"

definition signal0 :: signal_chain_data where
  "signal0 = \<lparr>sc_info = \<lparr>sg_id = ''s1'', sg_account = ''7777001'', sg_assetType = ''TON'', sg_amount = ''10'', sg_active = True,
     sg_createdAt = 0, sg_expiresAt = Some 1, sg_txHash = None\<rparr>, sc_nftAddress = ''EQnft''\<rparr>"

definition lending0 :: "unit lending_env" where
  "lending0 = \<lparr>le_gateway = Some \<lparr>gw_snapshot = (\<lambda>c w. (Inr snap0, w)), gw_account = (\<lambda>a s w. (Inr (Some account0), w)),
     gw_signal = (\<lambda>i s w. (Inr (Some signal0), w))\<rparr>, le_now = (\<lambda>w. (121000, w)), le_random = (\<lambda>w. (''0.abc'', w))\<rparr>"

definition config0 :: lending_config where
  "config0 = lending_config_of \<lparr>li_baseUrl = None, li_affiliateId = None, li_collateralContract = None, li_chainId = None,
     li_maxSnapshotAge = None\<rparr>"

theorem collateral_signal_sound_witness:
  "cr_valid (fst (verifyCollateralSignal lending0 config0 ''s1'' ''7777001'' ()))
   \<and> isValidNFTAccountId ''7777001'' \<and> cr_status (fst (verifyCollateralSignal lending0 config0 ''s1'' ''7777001'' ())) = Verified"
proof -
  obtain r where r: "verifyCollateralSignal lending0 config0 ''s1'' ''7777001'' () = (r, ())" by (cases "verifyCollateralSignal lending0 config0 ''s1'' ''7777001'' ()") simp
  have "cr_valid (fst (verifyCollateralSignal lending0 config0 ''s1'' ''7777001'' ()))" by code_simp
  with collateral_signal_sound [OF r] r show ?thesis by auto
qed

text \<open>A signal whose expiration lies in the past is confirmed as long as it is reported active (here at 121000).\<close>

lemma expired_signal_confirmed:
  "cr_valid (fst (verifyCollateralSignal lending0 config0 ''s1'' ''7777001'' ())) \<and> sg_expiresAt (sc_info signal0) = Some 1"
  by code_simp

text \<open>With the maximal age \<open>NaN\<close> a snapshot of any age is used.\<close>

lemma nan_age_unbounded: "usable (config0\<lparr>lc_maxSnapshotAge := Nan_Age\<rparr>) snap0 (1000 + int n)"
  by (simp add: usable_def config0_def lending_config_of_def snap0_def safe_seqno_def)

text \<open>An account of the first series is accepted from the collection of the second.\<close>

lemma series_not_checked:
  "owned_account ''7777001'' (account0\<lparr>nc_collection := SERIES_8888\<rparr>) \<and> getCollectionForAccount ''7777001'' \<noteq> SERIES_8888"
  by code_simp

section \<open>Intents\<close>

text \<open>
  An intent exists only for an account that the chain confirmed at a usable snapshot; its collateral is a confirmed signal
  with the identifier asked for, and its link reads back to the members of the request.
\<close>

theorem loan_intent_sound:
  assumes "createLoanIntent e cf r w = (Inr it, w')" "CHR ''?'' \<notin> set (lc_baseUrl cf)"
  shows "bi_valid (in_identity it) \<and> isValidNFTAccountId (lr_account r)
    \<and> (\<exists>g snap w1 d w2. le_gateway e = Some g \<and> gw_account g (lr_account r) snap w1 = (Inr (Some d), w2) \<and> owned_account (lr_account r) d
         \<and> ld_collection (in_data it) = nc_collection d)
    \<and> (\<forall>c. in_collateral it = Some c \<longrightarrow> sg_id c = or_empty (lr_signalId r) \<and> sg_account c = lr_account r \<and> sg_active c)
    \<and> form_parse (url_query (in_lenderUrl it)) = lender_query cf r \<and> in_expiresAt it = in_createdAt it + 86400000"
proof -
  obtain i w1 where i: "resolveBorrowerIdentity e cf (lr_account r) None w = (i, w1)" by fastforce
  with assms(1) have valid: "bi_valid i" by (auto simp: createLoanIntent_def split: if_splits)
  obtain c w2 where c: "(if or_empty (lr_signalId r) = [] then (None, w1)
      else getCollateralSignalInfo e cf (or_empty (lr_signalId r)) (lr_account r) w1) = (c, w2)"
    by fastforce
  obtain x w3 where x: "generated_id e ''intent'' w2 = (x, w3)" by fastforce
  obtain now w4 where now: "le_now e w3 = (now, w4)" by fastforce
  have "createLoanIntent e cf r w = (Inr \<lparr>in_id = x, in_identity = i, in_collateral = c, in_lenderUrl = generateLenderUrl cf r,
      in_createdAt = now, in_expiresAt = now + 24 * 60 * 60 * 1000,
      in_data = lender_data_of cf (lr_account r) (lr_signalId r) i\<rparr>, w4)"
    by (simp only: createLoanIntent_def i prod.case valid c x now not_True_eq_False if_False)
  with assms(1) have it: "in_identity it = i" "in_collateral it = c" "in_lenderUrl it = generateLenderUrl cf r"
      "in_data it = lender_data_of cf (lr_account r) (lr_signalId r) i" "in_expiresAt it = in_createdAt it + 86400000"
    by auto
  have collateral: "sg_id x = or_empty (lr_signalId r) \<and> sg_account x = lr_account r \<and> sg_active x" if "c = Some x" for x
  proof -
    obtain resp w3 where v: "verifyCollateralSignal e cf (or_empty (lr_signalId r)) (lr_account r) w1 = (resp, w3)" by fastforce
    have "cr_status resp = Verified" "cr_signal resp = Some x"
      using c v that by (auto simp: getCollateralSignalInfo_def split: if_splits)
    with verified_signal [OF v] show ?thesis by simp
  qed
  have "lender_query cf r \<noteq> []" by (simp add: lender_query_def Let_def)
  then have "form_parse (search_params (lender_query cf r)) = lender_query cf r" by (rule form_parse_params)
  moreover have "url_query (in_lenderUrl it) = search_params (lender_query cf r)"
    using url_query_after [of "lc_baseUrl cf @ ''/loans''"] assms(2) by (simp add: it generateLenderUrl_def)
  ultimately have link: "form_parse (url_query (in_lenderUrl it)) = lender_query cf r" by simp
  from identity_resolved [OF i valid] obtain g snap v1 d v2 where "isValidNFTAccountId (lr_account r)" "le_gateway e = Some g"
    "gw_account g (lr_account r) snap v1 = (Inr (Some d), v2)" "owned_account (lr_account r) d" "ld_collection (in_data it) = nc_collection d"
    unfolding it lender_data_of_def by (metis lender_data.select_convs(2))
  with valid it(1,2,5) collateral link show ?thesis by metis
qed

text \<open>A signal that is not confirmed is still named to the lender.\<close>

lemma unconfirmed_signal_forwarded:
  assumes "createLoanIntent e cf r w = (Inr it, w')" "lr_signalId r = Some i" "i \<noteq> []"
  shows "(''collateral_signal'', i) \<in> set (lender_query cf r) \<and> ld_signalId (in_data it) = Some i"
  using assms by (auto simp: createLoanIntent_def lender_query_def lender_data_of_def Let_def or_empty_def split: prod.splits if_splits)

end
