(* ===== verification/Providers.thy ===== *)
theory Providers
  imports Adapters Sdk_Wallet
begin

text \<open>
  The adapters of the payment and the exchange provider (\<open>backend/adapters/nowpayments.ts\<close>, \<open>backend/adapters/changenow.ts\<close>):
  requests to the provider and the errors they end in, the verification of a signed notification, and the records kept for an
  NFT account. The network, HMAC-SHA512, \<open>JSON.parse\<close>, the reading of a date and the clock are parameters. A number of a JSON
  value is an integer; a reply that is mapped to a record has the members its type declares.
\<close>

section \<open>Requests to a provider\<close>

record provider_request =
  rq_method :: string
  rq_url :: string
  rq_headers :: "(string \<times> string) list"
  rq_body :: "string option"

text \<open>The body of a reply, or the message with which its parser fails.\<close>

record provider_reply =
  hr_ok :: bool
  hr_status :: int
  hr_statusText :: string
  hr_json :: "string + json"

text \<open>A rejected request carries the message of an \<open>Error\<close>, or nothing.\<close>

type_synonym 'w provider_fetch = "provider_request \<Rightarrow> 'w \<Rightarrow> (string option + provider_reply) \<times> 'w"

record api_error =
  ae_message :: json
  ae_code :: json
  ae_statusCode :: "int option"
  ae_provider :: external_provider

definition json_or :: "json \<Rightarrow> json \<Rightarrow> json" where
  "json_or a b = (if js_truthy a then a else b)"

definition handleError :: "external_provider \<Rightarrow> string \<Rightarrow> provider_reply \<Rightarrow> api_error" where
  "handleError provider initial r =
     (case hr_json r of
        Inr v \<Rightarrow>
          if v = JNull then \<lparr>ae_message = json_or (JStr (hr_statusText r)) (JStr initial), ae_code = JUndef, ae_statusCode = Some (hr_status r), ae_provider = provider\<rparr>
          else \<lparr>ae_message = json_or (jget ''message'' v) (json_or (jget ''error'' v) (JStr initial)), ae_code = jget ''code'' v,
                ae_statusCode = Some (hr_status r), ae_provider = provider\<rparr>
      | Inl _ \<Rightarrow> \<lparr>ae_message = json_or (JStr (hr_statusText r)) (JStr initial), ae_code = JUndef, ae_statusCode = Some (hr_status r), ae_provider = provider\<rparr>)"

text \<open>\<open>wrapError\<close> of an error that is not yet one of the provider.\<close>

definition wrapError :: "external_provider \<Rightarrow> string option \<Rightarrow> api_error" where
  "wrapError provider e =
     \<lparr>ae_message = JStr (case e of None \<Rightarrow> ''Unknown error'' | Some m \<Rightarrow> m), ae_code = JUndef, ae_statusCode = None, ae_provider = provider\<rparr>"

definition provider_call :: "external_provider \<Rightarrow> string \<Rightarrow> 'w provider_fetch \<Rightarrow> provider_request \<Rightarrow> (json \<Rightarrow> string + 'a) \<Rightarrow> 'w \<Rightarrow> (api_error + 'a) \<times> 'w" where
  "provider_call provider initial fetch req handle w =
     (case fetch req w of
        (Inl e, w) \<Rightarrow> (Inl (wrapError provider e), w)
      | (Inr r, w) \<Rightarrow>
          if \<not> hr_ok r then (Inl (handleError provider initial r), w)
          else (case hr_json r of
                  Inl m \<Rightarrow> (Inl (wrapError provider (Some m)), w)
                | Inr v \<Rightarrow> (case handle v of Inl m \<Rightarrow> (Inl (wrapError provider (Some m)), w) | Inr x \<Rightarrow> (Inr x, w))))"

definition read_member :: "string \<Rightarrow> json \<Rightarrow> string + json" where
  "read_member k v =
     (if v = JNull then Inl (''Cannot read properties of null (reading '' @ [CHR 0x27] @ k @ [CHR 0x27] @ '')'') else Inr (jget k v))"

definition own_members :: "json \<Rightarrow> (string \<times> json) list" where
  "own_members v =
     (case v of
        JObj kvs \<Rightarrow> kvs
      | JArr vs \<Rightarrow> zip (map dec [0..<length vs]) vs
      | JStr s \<Rightarrow> zip (map dec [0..<length s]) (map (\<lambda>c. JStr [c]) s)
      | _ \<Rightarrow> [])"

text \<open>The members \<open>ks\<close> of the reply, and then all of its own.\<close>

definition reply_fields :: "string list \<Rightarrow> json \<Rightarrow> string + json" where
  "reply_fields ks v =
     res_bind (read_member (hd ks) v) (\<lambda>_.
       Inr (JObj (fold (\<lambda>(k, x). amap_set k x) (own_members v) (map (\<lambda>k. (k, jget k v)) ks))))"

definition opt_member :: "string \<Rightarrow> string option \<Rightarrow> (string \<times> json) list" where
  "opt_member k x = (if or_empty x = [] then [] else [(k, JStr (or_empty x))])"

section \<open>Records for an NFT account\<close>

datatype transaction_status = Tx_pending | Tx_waiting | Tx_confirming | Tx_exchanging | Tx_sending | Tx_finished | Tx_failed | Tx_refunded

record external_transaction =
  et_provider :: external_provider
  et_providerTxId :: string
  et_nftAccountId :: string
  et_amountIn :: string
  et_amountOut :: string
  et_assetIn :: string
  et_assetOut :: string
  et_status :: "transaction_status option"
  et_tonTxHash :: "string option"
  et_createdAt :: "int option"
  et_updatedAt :: int
  et_metadata :: "(string \<times> json) list"

text \<open>
  A lookup in an object literal also finds the members every object inherits; of these only two are their own lower case,
  and then the value is not a status.
\<close>

definition status_lookup :: "(string \<times> transaction_status) list \<Rightarrow> string \<Rightarrow> transaction_status option" where
  "status_lookup table s =
     (let k = js_lower s in
      case map_of table k of
        Some t \<Rightarrow> Some t
      | None \<Rightarrow> if k = ''constructor'' \<or> k = ''__proto__'' then None else Some Tx_pending)"

definition optional_json :: "string option \<Rightarrow> json" where
  "optional_json x = (case x of None \<Rightarrow> JUndef | Some s \<Rightarrow> JStr s)"

definition non_empty :: "string \<Rightarrow> string \<Rightarrow> string" where
  "non_empty s d = (if s = [] then d else s)"

section \<open>NOWPayments\<close>

record nowpayments =
  np_apiKey :: string
  np_baseUrl :: string
  np_ipnSecretKey :: "string option"

definition new_nowpayments :: "string \<Rightarrow> string option \<Rightarrow> string option \<Rightarrow> string + nowpayments" where
  "new_nowpayments apiKey baseUrl ipnSecretKey =
     (if apiKey = [] then Inl ''NOWPayments API key is required''
      else Inr \<lparr>np_apiKey = apiKey, np_baseUrl = non_empty (or_empty baseUrl) ''https://api.nowpayments.io'' @ ''/v1'', np_ipnSecretKey = ipnSecretKey\<rparr>)"

definition np_headers :: "nowpayments \<Rightarrow> (string \<times> string) list" where
  "np_headers a = [(''x-api-key'', np_apiKey a), (''Content-Type'', ''application/json'')]"

definition np_get :: "nowpayments \<Rightarrow> string \<Rightarrow> provider_request" where
  "np_get a path = \<lparr>rq_method = ''GET'', rq_url = np_baseUrl a @ path, rq_headers = np_headers a, rq_body = None\<rparr>"

definition np_call :: "'w provider_fetch \<Rightarrow> provider_request \<Rightarrow> (json \<Rightarrow> string + 'a) \<Rightarrow> 'w \<Rightarrow> (api_error + 'a) \<times> 'w" where
  "np_call = provider_call NOWPayments ''NOWPayments API error''"

record invoice_request =
  ir_price_amount :: int
  ir_price_currency :: string
  ir_pay_currency :: string
  ir_ipn_callback_url :: "string option"
  ir_success_url :: "string option"
  ir_cancel_url :: "string option"
  ir_order_id :: "string option"
  ir_order_description :: "string option"

definition np_invoice_payload :: "invoice_request \<Rightarrow> json" where
  "np_invoice_payload r = JObj ([(''price_amount'', JNum (ir_price_amount r)), (''price_currency'', JStr (ir_price_currency r)),
     (''pay_currency'', JStr (ir_pay_currency r))]
     @ opt_member ''ipn_callback_url'' (ir_ipn_callback_url r) @ opt_member ''success_url'' (ir_success_url r)
     @ opt_member ''cancel_url'' (ir_cancel_url r) @ opt_member ''order_id'' (ir_order_id r)
     @ opt_member ''order_description'' (ir_order_description r))"

definition np_createInvoice :: "'w provider_fetch \<Rightarrow> nowpayments \<Rightarrow> invoice_request \<Rightarrow> 'w \<Rightarrow> (api_error + json) \<times> 'w" where
  "np_createInvoice fetch a r =
     np_call fetch \<lparr>rq_method = ''POST'', rq_url = np_baseUrl a @ ''/invoice'', rq_headers = np_headers a,
         rq_body = Some (json_enc (np_invoice_payload r))\<rparr>
       (reply_fields [''id'', ''invoice_url'', ''price_amount'', ''price_currency'', ''pay_currency'', ''pay_amount'', ''payment_status'',
          ''order_id'', ''created_at''])"

definition np_getPaymentStatus :: "'w provider_fetch \<Rightarrow> nowpayments \<Rightarrow> string \<Rightarrow> 'w \<Rightarrow> (api_error + json) \<times> 'w" where
  "np_getPaymentStatus fetch a paymentId = np_call fetch (np_get a (''/payment/'' @ paymentId)) Inr"

definition np_getAvailableCurrencies :: "'w provider_fetch \<Rightarrow> nowpayments \<Rightarrow> 'w \<Rightarrow> (api_error + json) \<times> 'w" where
  "np_getAvailableCurrencies fetch a =
     np_call fetch (np_get a ''/currencies'') (\<lambda>v. res_bind (read_member ''currencies'' v) (\<lambda>c. Inr (json_or c v)))"

definition np_getMinAmount :: "'w provider_fetch \<Rightarrow> nowpayments \<Rightarrow> string \<Rightarrow> 'w \<Rightarrow> (api_error + json) \<times> 'w" where
  "np_getMinAmount fetch a currency =
     np_call fetch (np_get a (''/min-amount?currency_from='' @ currency @ ''&currency_to='' @ currency)) (read_member ''min_amount'')"

section \<open>Notifications\<close>

text \<open>
  \<open>sortObjectKeys\<close> assigns the members of an object in the order of their names to a fresh object. The assignment of
  \<open>__proto__\<close> sets the prototype and adds no member; and an object lists names that are array indices first, by value.
  Numbers are integers here, so a notification with a fractional amount is outside of the model.
\<close>

definition array_index :: "string \<Rightarrow> bool" where
  "array_index k \<longleftrightarrow> k \<noteq> [] \<and> list_all is_digit k \<and> dec (digits_val k) = k \<and> digits_val k < 4294967295"

definition own_order :: "(string \<times> json) list \<Rightarrow> (string \<times> json) list" where
  "own_order kvs = sort_key (\<lambda>kv. digits_val (fst kv)) (filter (\<lambda>kv. array_index (fst kv)) kvs) @ filter (\<lambda>kv. \<not> array_index (fst kv)) kvs"

function sortObjectKeys :: "json \<Rightarrow> json" where
  "sortObjectKeys JUndef = JUndef"
| "sortObjectKeys JNull = JNull"
| "sortObjectKeys (JBool b) = JBool b"
| "sortObjectKeys (JNum i) = JNum i"
| "sortObjectKeys (JStr s) = JStr s"
| "sortObjectKeys (JArr vs) = JArr (map sortObjectKeys vs)"
| "sortObjectKeys (JObj kvs) =
     JObj (own_order (map (\<lambda>(k, v). (k, sortObjectKeys v)) (filter (\<lambda>(k, _). k \<noteq> ''__proto__'') (sort_key fst kvs))))"
  by pat_completeness auto
termination
proof (relation "measure size", goal_cases)
  case (2 vs v)
  then show ?case by (induction vs) auto
next
  case (3 kvs kv k v)
  then have "(k, v) \<in> set kvs" by simp
  then show ?case by (induction kvs) auto
qed simp

datatype callback_payload = Payload_text string | Payload_object json

definition payload_value :: "(string \<Rightarrow> json option) \<Rightarrow> callback_payload \<Rightarrow> json option" where
  "payload_value parse p = (case p of Payload_text s \<Rightarrow> parse s | Payload_object v \<Rightarrow> Some v)"

definition canonicalizePayload :: "(string \<Rightarrow> json option) \<Rightarrow> callback_payload \<Rightarrow> string option" where
  "canonicalizePayload parse p = map_option (\<lambda>v. json_enc (sortObjectKeys v)) (payload_value parse p)"

definition constantTimeCompare :: "string \<Rightarrow> string \<Rightarrow> bool" where
  "constantTimeCompare a b =
     (let bufferA = concat (map utf8_bytes a); bufferB = concat (map utf8_bytes b) in
      if length bufferA \<noteq> length bufferB then False else bufferA = bufferB)"

definition verifyCallback :: "(string \<Rightarrow> string \<Rightarrow> string) \<Rightarrow> (string \<Rightarrow> json option) \<Rightarrow> nowpayments \<Rightarrow> callback_payload \<Rightarrow> string option \<Rightarrow>
    string + bool" where
  "verifyCallback hmac512 parse a payload signature =
     (if or_empty (np_ipnSecretKey a) = [] then Inl ''IPN Secret Key is required for webhook verification''
      else if or_empty signature = [] then Inr False
      else case canonicalizePayload parse payload of
          None \<Rightarrow> Inr False
        | Some canonicalPayload \<Rightarrow>
            Inr (constantTimeCompare (or_empty signature) (hmac512 (or_empty (np_ipnSecretKey a)) canonicalPayload)))"

section \<open>The records of a payment\<close>

record invoice_response =
  iv_id :: string
  iv_invoice_url :: string
  iv_price_amount :: string
  iv_price_currency :: string
  iv_pay_currency :: string
  iv_pay_amount :: string
  iv_payment_status :: string
  iv_order_id :: "string option"
  iv_created_at :: string

record payment_callback =
  cb_payment_id :: int
  cb_payment_status :: string
  cb_pay_address :: string
  cb_price_amount :: int
  cb_price_currency :: string
  cb_pay_amount :: "int option"
  cb_pay_currency :: string
  cb_order_id :: "string option"
  cb_purchase_id :: "string option"
  cb_outcome_amount :: "int option"
  cb_outcome_currency :: "string option"
  cb_payin_hash :: "string option"

definition np_mapStatus :: "string \<Rightarrow> transaction_status option" where
  "np_mapStatus = status_lookup
     [(''waiting'', Tx_waiting), (''confirming'', Tx_confirming), (''confirmed'', Tx_finished), (''sending'', Tx_sending),
      (''partially_paid'', Tx_pending), (''finished'', Tx_finished), (''failed'', Tx_failed), (''refunded'', Tx_refunded),
      (''expired'', Tx_failed)]"

definition mapPaymentToNFTAccount :: "(string \<Rightarrow> int option) \<Rightarrow> int \<Rightarrow> invoice_response \<Rightarrow> string \<Rightarrow> external_transaction" where
  "mapPaymentToNFTAccount date_of now r nftAccountId =
     \<lparr>et_provider = NOWPayments, et_providerTxId = iv_id r, et_nftAccountId = nftAccountId,
      et_amountIn = non_empty (iv_pay_amount r) ''0'', et_amountOut = iv_price_amount r, et_assetIn = iv_pay_currency r,
      et_assetOut = iv_price_currency r, et_status = np_mapStatus (iv_payment_status r), et_tonTxHash = None,
      et_createdAt = date_of (iv_created_at r), et_updatedAt = now,
      et_metadata = [(''invoiceUrl'', JStr (iv_invoice_url r)), (''orderId'', optional_json (iv_order_id r)),
        (''originalStatus'', JStr (iv_payment_status r))]\<rparr>"

definition emitPaymentSettledEvent :: "int \<Rightarrow> payment_callback \<Rightarrow> string \<Rightarrow> external_transaction" where
  "emitPaymentSettledEvent now c nftAccountId =
     \<lparr>et_provider = NOWPayments, et_providerTxId = dec_int (cb_payment_id c), et_nftAccountId = nftAccountId,
      et_amountIn = (case cb_pay_amount c of None \<Rightarrow> ''0'' | Some n \<Rightarrow> dec_int n),
      et_amountOut = (case cb_outcome_amount c of None \<Rightarrow> dec_int (cb_price_amount c) | Some n \<Rightarrow> dec_int n),
      et_assetIn = cb_pay_currency c, et_assetOut = non_empty (or_empty (cb_outcome_currency c)) (cb_price_currency c),
      et_status = np_mapStatus (cb_payment_status c), et_tonTxHash = cb_payin_hash c, et_createdAt = Some now, et_updatedAt = now,
      et_metadata = [(''orderId'', optional_json (cb_order_id c)), (''purchaseId'', optional_json (cb_purchase_id c)),
        (''payAddress'', JStr (cb_pay_address c)), (''originalStatus'', JStr (cb_payment_status c))]\<rparr>"

section \<open>ChangeNOW\<close>

record changenow =
  cw_apiKey :: string
  cw_baseUrl :: string

definition new_changenow :: "string \<Rightarrow> string option \<Rightarrow> string option \<Rightarrow> string + changenow" where
  "new_changenow apiKey baseUrl apiVersion =
     (if apiKey = [] then Inl ''ChangeNOW API key is required''
      else Inr \<lparr>cw_apiKey = apiKey,
        cw_baseUrl = non_empty (or_empty baseUrl) ''https://api.changenow.io'' @ ''/'' @ non_empty (or_empty apiVersion) ''v2''\<rparr>)"

definition cw_headers :: "changenow \<Rightarrow> (string \<times> string) list" where
  "cw_headers a = [(''x-changenow-api-key'', cw_apiKey a), (''Content-Type'', ''application/json'')]"

definition cw_get :: "changenow \<Rightarrow> string \<Rightarrow> provider_request" where
  "cw_get a path = \<lparr>rq_method = ''GET'', rq_url = cw_baseUrl a @ path, rq_headers = cw_headers a, rq_body = None\<rparr>"

definition cw_call :: "'w provider_fetch \<Rightarrow> provider_request \<Rightarrow> (json \<Rightarrow> string + 'a) \<Rightarrow> 'w \<Rightarrow> (api_error + 'a) \<times> 'w" where
  "cw_call = provider_call ChangeNOW ''ChangeNOW API error''"

definition getQuote :: "'w provider_fetch \<Rightarrow> changenow \<Rightarrow> string \<Rightarrow> string \<Rightarrow> string \<Rightarrow> string \<Rightarrow> 'w \<Rightarrow> (api_error + json) \<times> 'w" where
  "getQuote fetch a fromCurrency toCurrency fromAmount flow =
     cw_call fetch (cw_get a (''/exchange/estimated-amount?'' @ search_params [(''fromCurrency'', js_lower fromCurrency),
         (''toCurrency'', js_lower toCurrency), (''fromAmount'', fromAmount), (''flow'', flow)]))
       (\<lambda>v. res_bind (read_member ''toAmount'' v) (\<lambda>t. Inr (JObj [(''estimatedAmount'', json_or t (jget ''estimatedAmount'' v)),
          (''rate'', jget ''rate'' v), (''rateId'', jget ''rateId'' v), (''minAmount'', jget ''minAmount'' v),
          (''maxAmount'', jget ''maxAmount'' v), (''networkFee'', jget ''networkFee'' v)])))"

record swap_request =
  sw_fromCurrency :: string
  sw_toCurrency :: string
  sw_fromNetwork :: string
  sw_toNetwork :: string
  sw_fromAmount :: string
  sw_address :: string
  sw_flow :: string
  sw_refundAddress :: "string option"
  sw_extraId :: "string option"

definition swap_payload :: "swap_request \<Rightarrow> json" where
  "swap_payload r = JObj ([(''fromCurrency'', JStr (js_lower (sw_fromCurrency r))), (''toCurrency'', JStr (js_lower (sw_toCurrency r))),
     (''fromNetwork'', JStr (js_lower (sw_fromNetwork r))), (''toNetwork'', JStr (js_lower (sw_toNetwork r))),
     (''fromAmount'', JStr (sw_fromAmount r)), (''address'', JStr (sw_address r)), (''flow'', JStr (sw_flow r))]
     @ opt_member ''refundAddress'' (sw_refundAddress r) @ opt_member ''extraId'' (sw_extraId r))"

definition swap_fields :: "json \<Rightarrow> string + json" where
  "swap_fields = reply_fields [''id'', ''payinAddress'', ''payoutAddress'', ''fromAmount'', ''toAmount'', ''status'', ''payoutHash'']"

definition createSwap :: "'w provider_fetch \<Rightarrow> changenow \<Rightarrow> swap_request \<Rightarrow> 'w \<Rightarrow> (api_error + json) \<times> 'w" where
  "createSwap fetch a r =
     cw_call fetch \<lparr>rq_method = ''POST'', rq_url = cw_baseUrl a @ ''/exchange'', rq_headers = cw_headers a,
       rq_body = Some (json_enc (swap_payload r))\<rparr> swap_fields"

definition trackSwapStatus :: "'w provider_fetch \<Rightarrow> changenow \<Rightarrow> string \<Rightarrow> 'w \<Rightarrow> (api_error + json) \<times> 'w" where
  "trackSwapStatus fetch a exchangeId = cw_call fetch (cw_get a (''/exchange/by-id?id='' @ exchangeId)) swap_fields"

definition cw_getMinAmount :: "'w provider_fetch \<Rightarrow> changenow \<Rightarrow> string \<Rightarrow> string \<Rightarrow> 'w \<Rightarrow> (api_error + json) \<times> 'w" where
  "cw_getMinAmount fetch a fromCurrency toCurrency =
     cw_call fetch (cw_get a (''/exchange/min-amount?'' @ search_params [(''fromCurrency'', js_lower fromCurrency),
         (''toCurrency'', js_lower toCurrency)])) (read_member ''minAmount'')"

definition cw_getAvailableCurrencies :: "'w provider_fetch \<Rightarrow> changenow \<Rightarrow> 'w \<Rightarrow> (api_error + json) \<times> 'w" where
  "cw_getAvailableCurrencies fetch a = cw_call fetch (cw_get a ''/exchange/currencies'') Inr"

definition cw_mapStatus :: "string \<Rightarrow> transaction_status option" where
  "cw_mapStatus = status_lookup
     [(''new'', Tx_pending), (''waiting'', Tx_waiting), (''confirming'', Tx_confirming), (''exchanging'', Tx_exchanging),
      (''sending'', Tx_sending), (''finished'', Tx_finished), (''failed'', Tx_failed), (''refunded'', Tx_refunded),
      (''expired'', Tx_failed)]"

text \<open>The declared members, and the two further ones that are read.\<close>

record swap_response =
  sr_id :: string
  sr_payinAddress :: string
  sr_payoutAddress :: string
  sr_fromAmount :: string
  sr_toAmount :: string
  sr_status :: string
  sr_payoutHash :: "string option"
  sr_fromCurrency :: "string option"
  sr_toCurrency :: "string option"

definition mapSwapToNFTAccount :: "int \<Rightarrow> swap_response \<Rightarrow> string \<Rightarrow> external_transaction" where
  "mapSwapToNFTAccount now r nftAccountId =
     \<lparr>et_provider = ChangeNOW, et_providerTxId = sr_id r, et_nftAccountId = nftAccountId, et_amountIn = sr_fromAmount r,
      et_amountOut = sr_toAmount r, et_assetIn = non_empty (or_empty (sr_fromCurrency r)) ''unknown'',
      et_assetOut = non_empty (or_empty (sr_toCurrency r)) ''unknown'', et_status = cw_mapStatus (sr_status r),
      et_tonTxHash = sr_payoutHash r, et_createdAt = Some now, et_updatedAt = now,
      et_metadata = [(''payinAddress'', JStr (sr_payinAddress r)), (''payoutAddress'', JStr (sr_payoutAddress r)),
        (''originalStatus'', JStr (sr_status r))]\<rparr>"

end
