(* ===== verification/Providers_Props.thy ===== *)
theory Providers_Props
  imports Providers
begin

text \<open>
  A notification is accepted exactly for the signed body up to the order of members, with one gap; every failed request
  ends in an error of its provider; records of an account carry the amounts of the reply.
\<close>

section \<open>Notifications\<close>

lemma utf8_inj: "concat (map utf8_bytes a) = concat (map utf8_bytes b) \<Longrightarrow> a = b"
proof -
  have "utf8_decode (concat (map utf8_bytes s)) = s" for s by (induction s) (simp_all add: utf8_decode_char)
  then show "concat (map utf8_bytes a) = concat (map utf8_bytes b) \<Longrightarrow> a = b" by metis
qed

lemma constantTimeCompare_iff: "constantTimeCompare a b \<longleftrightarrow> a = b"
  by (auto simp: constantTimeCompare_def Let_def dest: utf8_inj)

lemma set_own_order: "set (own_order kvs) = set kvs"
  by (auto simp: own_order_def)

lemma sortObjectKeys_clean: "json_clean v \<Longrightarrow> json_clean (sortObjectKeys v)"
  by (induction v rule: sortObjectKeys.induct) (auto simp: list_all_iff set_own_order)

text \<open>The order of the members does not matter.\<close>

lemma sortObjectKeys_order:
  "distinct (map fst kvs) \<Longrightarrow> mset kvs = mset kvs' \<Longrightarrow> sortObjectKeys (JObj kvs) = sortObjectKeys (JObj kvs')"
  using sort_key_unique [of kvs kvs'] by simp

lemma map_of_sorted_members:
  assumes "distinct (map fst kvs)" "k \<noteq> ''__proto__''"
    and "sortObjectKeys (JObj kvs) = JObj ms"
  shows "map_of ms k = map_option sortObjectKeys (map_of kvs k)"
proof -
  let ?xs = "map (\<lambda>(k, v). (k, sortObjectKeys v)) (filter (\<lambda>(k, _). k \<noteq> ''__proto__'') (sort_key fst kvs))"
  have ms: "ms = own_order ?xs" using assms(3) by simp
  have d: "distinct (map fst (sort_key fst kvs))" using assms(1) by (simp add: distinct_map)
  have fst: "map fst ?xs = filter (\<lambda>k. k \<noteq> ''__proto__'') (map fst (sort_key fst kvs))"
    by (simp add: filter_map comp_def case_prod_unfold)
  have dx: "distinct (map fst ?xs)" unfolding fst using d by simp
  have m: "mset (own_order ?xs) = mset ?xs" by (simp add: own_order_def)
  have "mset (map fst (own_order ?xs)) = mset (map fst ?xs)" unfolding mset_map m ..
  then have "distinct (map fst (own_order ?xs))" using dx mset_eq_imp_distinct_iff by blast
  then have "map_of (own_order ?xs) = map_of ?xs" using dx by (simp only: map_of_inject_set set_own_order)
  moreover have "map_of ?xs k = map_option sortObjectKeys (map_of (sort_key fst kvs) k)"
  proof -
    have "map_of (map (\<lambda>(k, v). (k, sortObjectKeys v)) (filter (\<lambda>(k, _). k \<noteq> ''__proto__'') zs)) k = map_option sortObjectKeys (map_of zs k)" for zs
      using assms(2) by (induction zs) auto
    then show ?thesis .
  qed
  ultimately show ?thesis using map_of_sort_key [OF assms(1)] ms by simp
qed

lemma verifyCallback_object:
  assumes "np_ipnSecretKey a = Some k" "k \<noteq> []" "payload_value parse p = Some v" "sig \<noteq> []"
  shows "verifyCallback hmac512 parse a p (Some sig) = Inr (sig = hmac512 k (json_enc (sortObjectKeys v)))"
  using assms by (simp add: verifyCallback_def canonicalizePayload_def or_empty_def constantTimeCompare_iff)

text \<open>
  C40. A notification of the payment provider is authentic. With the merchant's secret, the signature the provider made for a
  body is accepted with a body, given as text or parsed, exactly when both are the same once the members of every object are
  sorted; so the order of the members is free, but the accepted body has no other value for any member of the signed one and
  no member beside them, whatever its name, except one: a member called \<open>__proto__\<close> is not covered by the signature.
\<close>

theorem callback_authentic:
  assumes secret: "np_ipnSecretKey a = Some k" "k \<noteq> []"
    and hmac: "\<And>m m'. hmac512 k m = hmac512 k m' \<Longrightarrow> m = m'" "\<And>m. hmac512 k m \<noteq> []"
    and signed: "json_clean (JObj ms)" "distinct (map fst ms)"
    and received: "payload_value parse p = Some (JObj ms')" "json_clean (JObj ms')" "distinct (map fst ms')"
  shows "verifyCallback hmac512 parse a p (Some (hmac512 k (json_enc (sortObjectKeys (JObj ms))))) =
      Inr (sortObjectKeys (JObj ms') = sortObjectKeys (JObj ms))
    \<and> (mset ms' = mset ms \<longrightarrow> sortObjectKeys (JObj ms') = sortObjectKeys (JObj ms))
    \<and> (sortObjectKeys (JObj ms') = sortObjectKeys (JObj ms) \<longrightarrow>
        (\<forall>m. m \<noteq> ''__proto__'' \<longrightarrow> map_option sortObjectKeys (map_of ms' m) = map_option sortObjectKeys (map_of ms m)))"
proof (intro conjI impI allI)
  let ?v = "sortObjectKeys (JObj ms)" and ?v' = "sortObjectKeys (JObj ms')"
  have clean: "json_clean ?v" "json_clean ?v'" using sortObjectKeys_clean signed(1) received(2) by blast+
  have "json_enc ?v = json_enc ?v' \<Longrightarrow> ?v' = ?v"
    using json_stringify_inj [OF clean] json_stringify_clean clean by metis
  then have "hmac512 k (json_enc ?v) = hmac512 k (json_enc ?v') \<longleftrightarrow> ?v' = ?v" using hmac(1) by metis
  then show "verifyCallback hmac512 parse a p (Some (hmac512 k (json_enc ?v))) = Inr (?v' = ?v)"
    using verifyCallback_object [OF secret received(1) hmac(2)] by simp
  show "mset ms' = mset ms \<Longrightarrow> ?v' = ?v" using sortObjectKeys_order [OF received(3)] by blast
  fix m :: string assume same: "?v' = ?v" and m: "m \<noteq> ''__proto__''"
  obtain kvs where kvs: "?v = JObj kvs" by simp
  then show "map_option sortObjectKeys (map_of ms' m) = map_option sortObjectKeys (map_of ms m)"
    using map_of_sorted_members [OF signed(2) m kvs] map_of_sorted_members [OF received(3) m, of kvs] same by simp
qed

definition signed_body :: "(string \<times> json) list" where
  "signed_body = [(''payment_id'', JNum 7), (''payment_status'', JStr ''finished'')]"

theorem callback_authentic_witness:
  "\<exists>a. verifyCallback (\<lambda>k m. k @ m) (\<lambda>_. None) a (Payload_object (JObj (rev signed_body)))
        (Some (''s'' @ json_enc (sortObjectKeys (JObj signed_body)))) = Inr True"
proof -
  let ?a = "\<lparr>np_apiKey = ''k'', np_baseUrl = [], np_ipnSecretKey = Some ''s''\<rparr>"
  have same: "mset (rev signed_body) = mset signed_body" by simp
  have "json_clean (JObj signed_body)" "distinct (map fst signed_body)" "json_clean (JObj (rev signed_body))"
      "distinct (map fst (rev signed_body))" "payload_value (\<lambda>_. None) (Payload_object (JObj (rev signed_body))) = Some (JObj (rev signed_body))"
    by (simp_all add: signed_body_def payload_value_def)
  with callback_authentic [where a = ?a and k = "''s''" and ?hmac512.0 = "\<lambda>k m. k @ m" and ms = signed_body and ms' = "rev signed_body"
      and parse = "\<lambda>_. None" and p = "Payload_object (JObj (rev signed_body))"] same
  show ?thesis by (intro exI [of _ ?a]) simp
qed

text \<open>A member called \<open>__proto__\<close> may be added to a signed body.\<close>

theorem proto_member_unsigned: "sortObjectKeys (JObj (ms @ [(''__proto__'', x)])) = sortObjectKeys (JObj ms)"
  by (simp add: filter_sort)

section \<open>Requests\<close>

text \<open>Whatever the network and the provider do, a call ends in a value or in an error of its provider.\<close>

theorem provider_error_named:
  assumes "provider_call provider initial fetch req handle w = (Inl e, w')"
  shows "ae_provider e = provider \<and> (ae_statusCode e \<noteq> None \<longrightarrow> js_truthy (ae_message e) \<or> initial = [])"
  using assms by (auto simp: provider_call_def wrapError_def handleError_def json_or_def split: prod.splits sum.splits if_splits)

lemma fold_members:
  assumes "distinct (map fst kvs)" "k \<in> fst ` set kvs"
  shows "map_of (fold (\<lambda>(k, x). amap_set k x) kvs m) k = map_of kvs k"
proof -
  have "map_of (fold (\<lambda>(k, x). amap_set k x) kvs m) k = (case map_of (rev kvs) k of None \<Rightarrow> map_of m k | Some v \<Rightarrow> Some v)"
    by (induction kvs arbitrary: m) (auto simp: map_add_def amap_get_set [unfolded amap_get_def] split: option.splits)
  moreover have "map_of (rev kvs) = map_of kvs"
    using assms(1) by (intro map_of_inject_set [THEN iffD2]) (simp_all add: rev_map [symmetric])
  moreover obtain v where "map_of kvs k = Some v" using assms(2) by (metis map_of_eq_None_iff not_None_eq)
  ultimately show ?thesis by simp
qed

lemma reply_fields_members:
  assumes "reply_fields ks (JObj kvs) = Inr out" "distinct (map fst kvs)" "k \<in> fst ` set kvs"
  shows "jget k out = jget k (JObj kvs)"
  using assms(1) fold_members [OF assms(2,3)] by (auto simp: reply_fields_def read_member_def own_members_def)

text \<open>An invoice that the provider confirmed is returned with every member of the reply.\<close>

theorem created_invoice_members:
  assumes "np_createInvoice fetch a r w = (Inr invoice, w')"
  shows "\<exists>reply v. fetch \<lparr>rq_method = ''POST'', rq_url = np_baseUrl a @ ''/invoice'', rq_headers = np_headers a,
      rq_body = Some (json_enc (np_invoice_payload r))\<rparr> w = (Inr reply, w') \<and> hr_ok reply \<and> hr_json reply = Inr v \<and>
      (\<forall>kvs k. v = JObj kvs \<longrightarrow> distinct (map fst kvs) \<longrightarrow> k \<in> fst ` set kvs \<longrightarrow> jget k invoice = jget k (JObj kvs))"
proof -
  obtain reply v ks where "fetch \<lparr>rq_method = ''POST'', rq_url = np_baseUrl a @ ''/invoice'', rq_headers = np_headers a,
      rq_body = Some (json_enc (np_invoice_payload r))\<rparr> w = (Inr reply, w')" "hr_ok reply" "hr_json reply = Inr v" "reply_fields ks v = Inr invoice"
    using assms unfolding np_createInvoice_def np_call_def provider_call_def by (auto split: prod.splits sum.splits if_splits)
  then show ?thesis using reply_fields_members by blast
qed

section \<open>Records\<close>

text \<open>
  Only a notification that names a final success is recorded as finished; the record called settled takes whatever status
  the notification has.
\<close>

theorem finished_only_if_reported:
  "et_status (emitPaymentSettledEvent now c nft) = Some Tx_finished \<longleftrightarrow> js_lower (cb_payment_status c) \<in> {''confirmed'', ''finished''}"
  by (auto simp: emitPaymentSettledEvent_def np_mapStatus_def status_lookup_def Let_def)

theorem waiting_recorded_as_settled:
  "cb_payment_status c = ''waiting'' \<Longrightarrow> et_status (emitPaymentSettledEvent now c nft) = Some Tx_waiting"
  by (simp add: emitPaymentSettledEvent_def np_mapStatus_def status_lookup_def Let_def js_lower_def js_lower_char_def)

end
