(* ===== verification/Governance.thy ===== *)
theory Governance
  imports Js_Json
begin

text \<open>
  Voter snapshots for governance proposals (\<open>scripts/governance/snapshot.ts\<close>): the JSON-RPC provider whose reads are pinned to
  one masterchain block, the creation of a snapshot and its verification. The network acts on a world; addresses are their
  friendly text, and the cell library, \<open>BigInt\<close> and the printing of a percentage are parameters.
\<close>

section \<open>Types\<close>

record governance_config =
  gc_collectionAddress :: string
  gc_totalSupply :: int
  gc_tonApiEndpoint :: string
  gc_tonApiKey :: "string option"

definition DEFAULT_CONFIG :: governance_config where
  "DEFAULT_CONFIG = \<lparr>gc_collectionAddress = [], gc_totalSupply = 222,
     gc_tonApiEndpoint = ''https://toncenter.com/api/v2/jsonRPC'', gc_tonApiKey = None\<rparr>"

record voter_snapshot =
  vs_nft_index :: int
  vs_owner_address :: string
  vs_voting_power :: int

record snapshot_metadata =
  sm_created_at :: int
  sm_tool_version :: string
  sm_governance_type :: string
  sm_complete :: bool
  sm_failed_indices :: "int list"

record governance_snapshot =
  gs_snapshot_block :: int
  gs_snapshot_time :: int
  gs_collection_address :: string
  gs_total_supply :: int
  gs_voters :: "voter_snapshot list"
  gs_total_voting_power :: int
  gs_unique_owners :: int
  gs_metadata :: snapshot_metadata

record nft_data =
  nd_init :: bool
  nd_index :: int
  nd_collection_address :: string
  nd_owner_address :: "string option"

record 'w snapshot_provider =
  sp_getLatestBlock :: "'w \<Rightarrow> (string + int) \<times> 'w"
  sp_getNFTAddress :: "string \<Rightarrow> int \<Rightarrow> int \<Rightarrow> 'w \<Rightarrow> (string + string) \<times> 'w"
  sp_getNFTData :: "string \<Rightarrow> int \<Rightarrow> 'w \<Rightarrow> (string + nft_data) \<times> 'w"

section \<open>The JSON-RPC provider\<close>

record rpc_response =
  rr_ok :: bool
  rr_status :: int
  rr_json :: "string + json"

record ('c, 'w) rpc_env =
  re_fetcher :: "string \<Rightarrow> json \<Rightarrow> string option \<Rightarrow> 'w \<Rightarrow> (string + rpc_response) \<times> 'w"
  re_bigInt :: "string \<Rightarrow> int option"
  re_toHex :: "int \<Rightarrow> string"
  re_fromBase64 :: "string \<Rightarrow> 'c option"
  re_loadAddress :: "'c \<Rightarrow> string + string option"
  re_loadMaybeAddress :: "'c \<Rightarrow> string + string option"

definition rpc_call :: "('c, 'w) rpc_env \<Rightarrow> governance_config \<Rightarrow> string \<Rightarrow> json \<Rightarrow> 'w \<Rightarrow> (string + json) \<times> 'w" where
  "rpc_call re cfg method params w =
     (case re_fetcher re (gc_tonApiEndpoint cfg)
         (JObj [(''jsonrpc'', JStr ''2.0''), (''id'', JNum 1), (''method'', JStr method), (''params'', params)])
         (if gc_tonApiKey cfg = Some [] then None else gc_tonApiKey cfg) w of
        (Inl e, w) \<Rightarrow> (Inl e, w)
      | (Inr response, w) \<Rightarrow>
          if \<not> rr_ok response then (Inl (''TON endpoint returned HTTP '' @ dec_int (rr_status response)), w)
          else
            (res_bind (rr_json response) (\<lambda>payload.
              if payload = JNull then Inl ''Cannot read properties of null''
              else if jget ''result'' payload = JUndef then
                Inl (let m = jget ''message'' (jget ''error'' payload) in
                     if m = JUndef \<or> m = JNull then ''TON endpoint returned no result'' else jstr m)
              else Inr (jget ''result'' payload)), w))"

definition max_safe :: int where
  "max_safe = 2 ^ 53 - 1"

definition rpc_getLatestBlock :: "('c, 'w) rpc_env \<Rightarrow> governance_config \<Rightarrow> 'w \<Rightarrow> (string + int) \<times> 'w" where
  "rpc_getLatestBlock re cfg w =
     (case rpc_call re cfg ''getMasterchainInfo'' (JObj []) w of
        (Inl e, w) \<Rightarrow> (Inl e, w)
      | (Inr result, w) \<Rightarrow>
          (case jget ''seqno'' (jget ''last'' result) of
             JNum n \<Rightarrow> (if \<bar>n\<bar> > max_safe \<or> n \<le> 0 then Inl ''TON endpoint did not return a valid masterchain seqno'' else Inr n, w)
           | _ \<Rightarrow> (Inl ''TON endpoint did not return a valid masterchain seqno'', w)))"

text \<open>A value in a template string, for numbers and strings.\<close>

definition json_number :: "json \<Rightarrow> string" where
  "json_number v = (case v of JNum n \<Rightarrow> dec_int n | JUndef \<Rightarrow> ''undefined'' | JNull \<Rightarrow> ''null'' | _ \<Rightarrow> jstr v)"

definition rpc_runMethod :: "('c, 'w) rpc_env \<Rightarrow> governance_config \<Rightarrow> string \<Rightarrow> string \<Rightarrow> json \<Rightarrow> int \<Rightarrow> 'w \<Rightarrow> (string + json list) \<times> 'w" where
  "rpc_runMethod re cfg address method stack block w =
     (case rpc_call re cfg ''runGetMethod''
         (JObj [(''address'', JStr address), (''method'', JStr method), (''stack'', stack), (''seqno'', JNum block)]) w of
        (Inl e, w) \<Rightarrow> (Inl e, w)
      | (Inr result, w) \<Rightarrow>
          (if jget ''exit_code'' result \<noteq> JNum 0 then Inl (method @ '' failed with exit code '' @ json_number (jget ''exit_code'' result))
           else if jget ''seqno'' (jget ''block_id'' result) \<noteq> JNum block
           then Inl (method @ '' was not executed at requested block '' @ dec_int block)
           else (case jget ''stack'' result of JArr vs \<Rightarrow> Inr vs | _ \<Rightarrow> Inl (method @ '' returned no stack'')), w))"

text \<open>An entry of a stack: its kind and its value, a string or a member of an object.\<close>

definition entry_kind :: "json \<Rightarrow> json" where
  "entry_kind entry = (case entry of JArr (k # _) \<Rightarrow> k | _ \<Rightarrow> JUndef)"

definition entry_text :: "string \<Rightarrow> json \<Rightarrow> string" where
  "entry_text key entry =
     (case entry of
        JArr (_ # JStr s # _) \<Rightarrow> s
      | JArr (_ # v # _) \<Rightarrow> (case jget key v of JStr s \<Rightarrow> s | _ \<Rightarrow> [])
      | _ \<Rightarrow> [])"

definition stack_at :: "nat \<Rightarrow> json list \<Rightarrow> json" where
  "stack_at i stack = (if i < length stack then stack ! i else JUndef)"

definition readNumber :: "('c, 'w) rpc_env \<Rightarrow> json \<Rightarrow> string \<Rightarrow> string + int" where
  "readNumber re entry label =
     (if entry_kind entry \<noteq> JStr ''num'' \<or> entry_text ''number'' entry = [] then Inl (''get_nft_data returned invalid '' @ label)
      else case re_bigInt re (entry_text ''number'' entry) of
        None \<Rightarrow> Inl (''get_nft_data returned invalid '' @ label) | Some i \<Rightarrow> Inr i)"

definition toSafeNumber :: "int \<Rightarrow> string \<Rightarrow> string + int" where
  "toSafeNumber value label = (if \<bar>value\<bar> > max_safe \<or> value < 0 then Inl (''get_nft_data returned invalid '' @ label) else Inr value)"

definition readCell :: "('c, 'w) rpc_env \<Rightarrow> json \<Rightarrow> string \<Rightarrow> string + 'c" where
  "readCell re entry label =
     (if entry_kind entry \<noteq> JStr ''cell'' \<and> entry_kind entry \<noteq> JStr ''slice'' \<or> entry_text ''bytes'' entry = []
      then Inl (''TON getter returned invalid '' @ label)
      else case re_fromBase64 re (entry_text ''bytes'' entry) of
        None \<Rightarrow> Inl (''TON getter returned invalid '' @ label) | Some c \<Rightarrow> Inr c)"

definition readAddress :: "('c, 'w) rpc_env \<Rightarrow> json \<Rightarrow> string \<Rightarrow> string + string" where
  "readAddress re entry label =
     res_bind (readCell re entry label) (\<lambda>c. res_bind (re_loadAddress re c) (\<lambda>a.
       case a of None \<Rightarrow> Inl (''TON getter returned empty '' @ label) | Some x \<Rightarrow> Inr x))"

definition readOptionalAddress :: "('c, 'w) rpc_env \<Rightarrow> json \<Rightarrow> string \<Rightarrow> string + string option" where
  "readOptionalAddress re entry label = res_bind (readCell re entry label) (re_loadMaybeAddress re)"

definition rpc_getNFTAddress :: "('c, 'w) rpc_env \<Rightarrow> governance_config \<Rightarrow> string \<Rightarrow> int \<Rightarrow> int \<Rightarrow> 'w \<Rightarrow> (string + string) \<times> 'w" where
  "rpc_getNFTAddress re cfg collection index block w =
     (case rpc_runMethod re cfg collection ''get_nft_address_by_index''
         (JArr [JArr [JStr ''num'', JStr (''0x'' @ re_toHex re index)]]) block w of
        (Inl e, w) \<Rightarrow> (Inl e, w)
      | (Inr stack, w) \<Rightarrow> (readAddress re (stack_at 0 stack) ''get_nft_address_by_index address'', w))"

definition rpc_getNFTData :: "('c, 'w) rpc_env \<Rightarrow> governance_config \<Rightarrow> string \<Rightarrow> int \<Rightarrow> 'w \<Rightarrow> (string + nft_data) \<times> 'w" where
  "rpc_getNFTData re cfg nft block w =
     (case rpc_runMethod re cfg nft ''get_nft_data'' (JArr []) block w of
        (Inl e, w) \<Rightarrow> (Inl e, w)
      | (Inr stack, w) \<Rightarrow>
          (if length stack < 5 then Inl ''get_nft_data returned an incomplete TEP-62 stack''
           else
             res_bind (readNumber re (stack ! 0) ''init'') (\<lambda>init.
             res_bind (readNumber re (stack ! 1) ''index'') (\<lambda>i.
             res_bind (toSafeNumber i ''index'') (\<lambda>i.
             res_bind (readAddress re (stack ! 2) ''collection address'') (\<lambda>col.
             res_bind (readOptionalAddress re (stack ! 3) ''owner address'') (\<lambda>owner.
             res_bind (readCell re (stack ! 4) ''individual content'') (\<lambda>_.
               Inr \<lparr>nd_init = (init \<noteq> 0), nd_index = i, nd_collection_address = col, nd_owner_address = owner\<rparr>)))))), w))"

definition rpc_provider :: "('c, 'w) rpc_env \<Rightarrow> governance_config \<Rightarrow> 'w snapshot_provider" where
  "rpc_provider re cfg = \<lparr>sp_getLatestBlock = rpc_getLatestBlock re cfg, sp_getNFTAddress = rpc_getNFTAddress re cfg,
     sp_getNFTData = rpc_getNFTData re cfg\<rparr>"

section \<open>Creating a snapshot\<close>

text \<open>One round of the loop up to the checks: the data of the item, or why it failed.\<close>

definition query_item :: "'w snapshot_provider \<Rightarrow> string \<Rightarrow> int \<Rightarrow> int \<Rightarrow> 'w \<Rightarrow> (string + nft_data) \<times> 'w" where
  "query_item sp collection block index w =
     (case sp_getNFTAddress sp collection index block w of
        (Inl e, w) \<Rightarrow> (Inl e, w)
      | (Inr nft, w) \<Rightarrow>
          (case sp_getNFTData sp nft block w of
             (Inl e, w) \<Rightarrow> (Inl e, w)
           | (Inr d, w) \<Rightarrow>
               (if nd_index d \<noteq> index then Inl (''get_nft_data returned index '' @ dec_int (nd_index d))
                else if nd_collection_address d \<noteq> collection then Inl ''get_nft_data returned another collection address''
                else Inr d, w)))"

definition voter_of :: "int \<Rightarrow> nft_data \<Rightarrow> voter_snapshot list" where
  "voter_of index d =
     (case nd_owner_address d of
        Some owner \<Rightarrow> if nd_init d then [\<lparr>vs_nft_index = index, vs_owner_address = owner, vs_voting_power = 1\<rparr>] else []
      | None \<Rightarrow> [])"

fun query_items :: "'w snapshot_provider \<Rightarrow> bool \<Rightarrow> string \<Rightarrow> int \<Rightarrow> int list \<Rightarrow> voter_snapshot list \<Rightarrow> int list \<Rightarrow> 'w
    \<Rightarrow> (string + voter_snapshot list \<times> int list) \<times> 'w" where
  "query_items sp allowPartial collection block [] voters failed w = (Inr (voters, failed), w)"
| "query_items sp allowPartial collection block (index # rest) voters failed w =
     (case query_item sp collection block index w of
        (Inl e, w) \<Rightarrow>
          if allowPartial then query_items sp allowPartial collection block rest voters (failed @ [index]) w
          else (Inl (''Snapshot incomplete at Diamond #'' @ dec_int index @ '': '' @ e), w)
      | (Inr d, w) \<Rightarrow> query_items sp allowPartial collection block rest (voters @ voter_of index d) failed w)"

text \<open>\<open>now\<close> is the clock at the start, \<open>later\<close> the clock at the end.\<close>

definition snapshot_block :: "'w snapshot_provider \<Rightarrow> int option option \<Rightarrow> 'w \<Rightarrow> (string + int) \<times> 'w" where
  "snapshot_block sp blockNumber w =
     (case blockNumber of
        Some b \<Rightarrow>
          (case b of
             None \<Rightarrow> (Inl ''Snapshot block must be a positive integer masterchain seqno'', w)
           | Some n \<Rightarrow>
               (if \<bar>n\<bar> > max_safe \<or> n \<le> 0 then Inl ''Snapshot block must be a positive integer masterchain seqno'' else Inr n, w))
      | None \<Rightarrow> sp_getLatestBlock sp w)"

definition createSnapshot :: "(string \<Rightarrow> string option) \<Rightarrow> governance_config \<Rightarrow> 'w snapshot_provider \<Rightarrow> int \<Rightarrow> int \<Rightarrow> int option option \<Rightarrow> bool
    \<Rightarrow> 'w \<Rightarrow> (string + governance_snapshot) \<times> 'w" where
  "createSnapshot parse cfg sp now later blockNumber allowPartial w =
     (if gc_collectionAddress cfg = [] then
        (Inl (''TBC Diamonds collection address not configured. '' @ ''Please set diamondsCollectionAddress in config.json''), w)
      else
        case parse (gc_collectionAddress cfg) of
          None \<Rightarrow> (Inl ''Invalid address'', w)
        | Some collection \<Rightarrow>
            (case snapshot_block sp blockNumber w of
               (Inl e, w) \<Rightarrow> (Inl e, w)
             | (Inr block, w) \<Rightarrow>
                 (case query_items sp allowPartial collection block [0..gc_totalSupply cfg - 1] [] [] w of
                    (Inl e, w) \<Rightarrow> (Inl e, w)
                  | (Inr (voters, failed), w) \<Rightarrow>
                      (Inr \<lparr>gs_snapshot_block = block, gs_snapshot_time = now, gs_collection_address = gc_collectionAddress cfg,
                         gs_total_supply = gc_totalSupply cfg, gs_voters = sort_key vs_nft_index voters,
                         gs_total_voting_power = int (length voters),
                         gs_unique_owners = int (length (remdups (map vs_owner_address voters))),
                         gs_metadata = \<lparr>sm_created_at = later, sm_tool_version = ''1.0.0'', sm_governance_type = ''advisory-non-binding'',
                           sm_complete = (failed = []), sm_failed_indices = failed\<rparr>\<rparr>, w))))"

section \<open>Verifying a snapshot\<close>

record verification_report =
  vr_valid :: bool
  vr_errors :: "string list"
  vr_warnings :: "string list"

definition voter_label :: "nat \<Rightarrow> string" where
  "voter_label i = ''Voter '' @ dec i @ '': ''"

text \<open>The errors of voter \<open>i\<close>, given the indices of the voters before.\<close>

definition voter_errors :: "(string \<Rightarrow> string option) \<Rightarrow> int set \<Rightarrow> nat \<Rightarrow> voter_snapshot \<Rightarrow> string list" where
  "voter_errors parse indices i v =
     (if vs_nft_index v < 0 \<or> vs_nft_index v \<ge> 222 then [voter_label i @ ''Invalid NFT index '' @ dec_int (vs_nft_index v)] else [])
     @ (if vs_nft_index v \<in> indices then [voter_label i @ ''Duplicate NFT index '' @ dec_int (vs_nft_index v)] else [])
     @ (if parse (vs_owner_address v) = None then [voter_label i @ ''Invalid owner address format''] else [])
     @ (if vs_voting_power v \<noteq> 1 then [voter_label i @ ''Voting power must be 1 (got '' @ dec_int (vs_voting_power v) @ '')''] else [])"

fun voters_errors :: "(string \<Rightarrow> string option) \<Rightarrow> int set \<Rightarrow> nat \<Rightarrow> voter_snapshot list \<Rightarrow> string list" where
  "voters_errors parse indices i [] = []"
| "voters_errors parse indices i (v # vs) = voter_errors parse indices i v @ voters_errors parse (insert (vs_nft_index v) indices) (Suc i) vs"

definition total_errors :: "governance_snapshot \<Rightarrow> string list" where
  "total_errors s =
     (let n = int (length (gs_voters s)); owners = int (length (remdups (map vs_owner_address (gs_voters s)))) in
      (if gs_total_voting_power s \<noteq> n
       then [''Total voting power mismatch: expected '' @ dec_int n @ '', got '' @ dec_int (gs_total_voting_power s)] else [])
      @ (if gs_unique_owners s \<noteq> owners
         then [''Unique owners mismatch: expected '' @ dec_int owners @ '', got '' @ dec_int (gs_unique_owners s)] else []))"

definition snapshot_warnings :: "(int \<Rightarrow> int \<Rightarrow> string) \<Rightarrow> governance_snapshot \<Rightarrow> string list" where
  "snapshot_warnings percent s =
     (let n = int (length (gs_voters s)) in
      (if 2 * n < gs_total_supply s
       then [''Low participation: Only '' @ dec_int n @ ''/'' @ dec_int (gs_total_supply s) @ '' NFTs included (''
         @ percent n (gs_total_supply s) @ ''%)''] else [])
      @ (if length (remdups (map vs_owner_address (gs_voters s))) = 1
         then [''All NFTs owned by single address - potential centralization''] else [])
      @ (if sm_governance_type (gs_metadata s) \<noteq> ''advisory-non-binding''
         then [''Governance type should be \"advisory-non-binding\"''] else []))"

definition verifySnapshot :: "(string \<Rightarrow> string option) \<Rightarrow> (int \<Rightarrow> int \<Rightarrow> string) \<Rightarrow> governance_snapshot \<Rightarrow> verification_report" where
  "verifySnapshot parse percent s =
     (let errors =
        (if gs_snapshot_block s = 0 \<or> gs_snapshot_block s < 0 then [''Invalid snapshot_block''] else [])
        @ (if gs_collection_address s = [] then [''Missing collection_address''] else [])
        @ (if gs_total_supply s \<noteq> 222 then [''Total supply must be 222''] else [])
        @ voters_errors parse {} 0 (gs_voters s)
        @ total_errors s
        @ (if \<not> sm_complete (gs_metadata s) \<or> length (sm_failed_indices (gs_metadata s)) > 0
           then [''Snapshot is partial or completeness is not attested''] else []) in
      \<lparr>vr_valid = (errors = []), vr_errors = errors, vr_warnings = snapshot_warnings percent s\<rparr>)"

end
