(* ===== verification/Governance_Props.thy ===== *)
theory Governance_Props
  imports Governance
begin

text \<open>What a snapshot contains, and exactly which snapshots the verification accepts.\<close>

section \<open>The verification, exactly\<close>

definition voter_ok :: "(string \<Rightarrow> string option) \<Rightarrow> voter_snapshot \<Rightarrow> bool" where
  "voter_ok parse v \<longleftrightarrow> 0 \<le> vs_nft_index v \<and> vs_nft_index v < 222 \<and> parse (vs_owner_address v) \<noteq> None \<and> vs_voting_power v = 1"

lemma voter_errors_Nil: "voter_errors parse I i v = [] \<longleftrightarrow> voter_ok parse v \<and> vs_nft_index v \<notin> I"
  by (auto simp: voter_errors_def voter_ok_def voter_label_def)

lemma voters_errors_Nil:
  "voters_errors parse I i vs = [] \<longleftrightarrow>
     (\<forall>v \<in> set vs. voter_ok parse v \<and> vs_nft_index v \<notin> I) \<and> distinct (map vs_nft_index vs)"
  by (induction vs arbitrary: I i) (auto simp: voter_errors_Nil intro: rev_image_eqI)

lemma total_errors_Nil:
  "total_errors s = [] \<longleftrightarrow> gs_total_voting_power s = int (length (gs_voters s))
     \<and> gs_unique_owners s = int (length (remdups (map vs_owner_address (gs_voters s))))"
  by (simp add: total_errors_def Let_def)

lemma verify_exact:
  "vr_valid (verifySnapshot parse percent s) \<longleftrightarrow>
     0 < gs_snapshot_block s \<and> gs_collection_address s \<noteq> [] \<and> gs_total_supply s = 222
     \<and> (\<forall>v \<in> set (gs_voters s). voter_ok parse v) \<and> distinct (map vs_nft_index (gs_voters s))
     \<and> gs_total_voting_power s = int (length (gs_voters s))
     \<and> gs_unique_owners s = int (length (remdups (map vs_owner_address (gs_voters s))))
     \<and> sm_complete (gs_metadata s) \<and> sm_failed_indices (gs_metadata s) = []"
  by (auto simp: verifySnapshot_def Let_def voters_errors_Nil total_errors_Nil)

section \<open>The loop over the items\<close>

definition voters_from :: "(int \<Rightarrow> string + nft_data) \<Rightarrow> int list \<Rightarrow> voter_snapshot list" where
  "voters_from ans is = concat (map (\<lambda>i. case ans i of Inl _ \<Rightarrow> [] | Inr d \<Rightarrow> voter_of i d) is)"

definition failed_from :: "(int \<Rightarrow> string + nft_data) \<Rightarrow> int list \<Rightarrow> int list" where
  "failed_from ans is = filter (\<lambda>i. \<exists>e. ans i = Inl e) is"

lemma query_items_result:
  assumes "query_items sp p col b is vs fs w = (Inr (vs', fs'), w')" "\<And>i w. fst (query_item sp col b i w) = ans i"
  shows "vs' = vs @ voters_from ans is \<and> fs' = fs @ failed_from ans is \<and> (\<not> p \<longrightarrow> failed_from ans is = [])"
  using assms(1)
proof (induction "is" arbitrary: vs fs w)
  case Nil
  then show ?case by (simp add: voters_from_def failed_from_def)
next
  case (Cons i "is")
  obtain r w1 where q: "query_item sp col b i w = (r, w1)" by fastforce
  then have r: "r = ans i" using assms(2) [of i w] by simp
  show ?case
  proof (cases r)
    case (Inl e)
    with Cons.prems q have p: "p" and run: "query_items sp p col b is vs (fs @ [i]) w1 = (Inr (vs', fs'), w')"
      by (auto split: if_splits)
    from Cons.IH [OF run] p Inl r show ?thesis by (simp add: voters_from_def failed_from_def)
  next
    case (Inr d)
    with Cons.prems q have run: "query_items sp p col b is (vs @ voter_of i d) fs w1 = (Inr (vs', fs'), w')" by simp
    from Cons.IH [OF run] Inr r show ?thesis by (simp add: voters_from_def failed_from_def)
  qed
qed

lemma voter_of_index: "v \<in> set (voter_of i d) \<Longrightarrow> vs_nft_index v = i \<and> vs_voting_power v = 1 \<and> nd_init d \<and> nd_owner_address d = Some (vs_owner_address v)"
  by (auto simp: voter_of_def split: option.splits if_splits)

lemma voters_from_mem:
  "v \<in> set (voters_from ans is) \<longleftrightarrow>
     (\<exists>d. vs_nft_index v \<in> set is \<and> ans (vs_nft_index v) = Inr d \<and> nd_init d \<and> nd_owner_address d = Some (vs_owner_address v) \<and> vs_voting_power v = 1)"
proof
  assume "v \<in> set (voters_from ans is)"
  then obtain i where i: "i \<in> set is" "v \<in> set (case ans i of Inl _ \<Rightarrow> [] | Inr d \<Rightarrow> voter_of i d)"
    by (auto simp: voters_from_def)
  then obtain d where "ans i = Inr d" "v \<in> set (voter_of i d)" by (cases "ans i") simp_all
  note this i
  with voter_of_index [of v i d] show "\<exists>d. vs_nft_index v \<in> set is \<and> ans (vs_nft_index v) = Inr d \<and> nd_init d
      \<and> nd_owner_address d = Some (vs_owner_address v) \<and> vs_voting_power v = 1" by auto
next
  assume "\<exists>d. vs_nft_index v \<in> set is \<and> ans (vs_nft_index v) = Inr d \<and> nd_init d
      \<and> nd_owner_address d = Some (vs_owner_address v) \<and> vs_voting_power v = 1"
  then obtain d where d: "vs_nft_index v \<in> set is" "ans (vs_nft_index v) = Inr d" "nd_init d"
    "nd_owner_address d = Some (vs_owner_address v)" "vs_voting_power v = 1" by blast
  then have "v \<in> set (voter_of (vs_nft_index v) d)" by (simp add: voter_of_def)
  with d show "v \<in> set (voters_from ans is)" by (force simp: voters_from_def split: sum.split)
qed

lemma voters_from_indices:
  "sorted is \<Longrightarrow> distinct is \<Longrightarrow> sorted (map vs_nft_index (voters_from ans is)) \<and> distinct (map vs_nft_index (voters_from ans is))"
proof (induction "is")
  case Nil
  then show ?case by (simp add: voters_from_def)
next
  case (Cons i "is")
  have split: "voters_from ans (i # is) = (case ans i of Inl _ \<Rightarrow> [] | Inr d \<Rightarrow> voter_of i d) @ voters_from ans is"
    by (simp add: voters_from_def)
  have rest: "\<forall>v \<in> set (voters_from ans is). vs_nft_index v \<in> set is" by (auto simp: voters_from_mem)
  show ?case
  proof (cases "ans i")
    case (Inl e)
    with Cons split show ?thesis by simp
  next
    case (Inr d)
    have "voter_of i d = [] \<or> (\<exists>v. voter_of i d = [v] \<and> vs_nft_index v = i)" by (auto simp: voter_of_def split: option.split)
    with Cons split Inr rest show ?thesis by (auto simp: less_imp_le)
  qed
qed

section \<open>Snapshots\<close>

text \<open>The register, in terms of what each round of the loop found.\<close>

lemma snapshot_by_answers:
  assumes run: "createSnapshot parse cfg sp now later blockNumber allowPartial w = (Inr s, w')"
    and total: "gc_totalSupply cfg = 222" and col: "parse (gc_collectionAddress cfg) = Some col"
    and steady: "\<And>i w. fst (query_item sp col (gs_snapshot_block s) i w) = ans i"
    and owners: "\<And>i d a. ans i = Inr d \<Longrightarrow> nd_owner_address d = Some a \<Longrightarrow> parse a \<noteq> None"
    and latest: "\<And>w n w'. sp_getLatestBlock sp w = (Inr n, w') \<Longrightarrow> 0 < n"
  shows "(\<forall>v. v \<in> set (gs_voters s) \<longleftrightarrow>
        (\<exists>d. 0 \<le> vs_nft_index v \<and> vs_nft_index v < 222 \<and> ans (vs_nft_index v) = Inr d \<and> nd_init d
           \<and> nd_owner_address d = Some (vs_owner_address v) \<and> vs_voting_power v = 1))
    \<and> sorted (map vs_nft_index (gs_voters s)) \<and> distinct (map vs_nft_index (gs_voters s))
    \<and> sm_failed_indices (gs_metadata s) = filter (\<lambda>i. \<exists>e. ans i = Inl e) [0..221]
    \<and> (vr_valid (verifySnapshot parse percent s) \<longleftrightarrow> (\<forall>i \<in> {0..221}. \<exists>d. ans i = Inr d))
    \<and> (\<not> allowPartial \<longrightarrow> vr_valid (verifySnapshot parse percent s))"
proof -
  obtain b w1 where b: "snapshot_block sp blockNumber w = (Inr b, w1)"
    using run col by (auto simp: createSnapshot_def split: if_splits prod.splits sum.splits)
  obtain vs fs w2 where q: "query_items sp allowPartial col b [0..221] [] [] w1 = (Inr (vs, fs), w2)"
    using run col b total by (auto simp: createSnapshot_def split: if_splits prod.splits sum.splits)
  have s: "s = \<lparr>gs_snapshot_block = b, gs_snapshot_time = now, gs_collection_address = gc_collectionAddress cfg,
      gs_total_supply = 222, gs_voters = sort_key vs_nft_index vs, gs_total_voting_power = int (length vs),
      gs_unique_owners = int (length (remdups (map vs_owner_address vs))),
      gs_metadata = \<lparr>sm_created_at = later, sm_tool_version = ''1.0.0'', sm_governance_type = ''advisory-non-binding'',
        sm_complete = (fs = []), sm_failed_indices = fs\<rparr>\<rparr>" and named: "gc_collectionAddress cfg \<noteq> []"
    using run col b q total by (auto simp: createSnapshot_def split: if_splits)
  have pos: "0 < b" using b latest by (auto simp: snapshot_block_def split: option.splits if_splits)
  have v: "vs = voters_from ans [0..221]" "fs = failed_from ans [0..221]" "\<not> allowPartial \<longrightarrow> fs = []"
    using query_items_result [OF q, of ans] steady by (auto simp: s)
  have "sorted (map vs_nft_index vs)" "distinct (map vs_nft_index vs)"
    using voters_from_indices [of "[0..221]" ans] v(1) by auto
  then have sorted: "sort_key vs_nft_index vs = vs" by (simp add: sorted_sort_id sort_key_id_if_sorted)
  have mem: "x \<in> set vs \<longleftrightarrow> (\<exists>d. 0 \<le> vs_nft_index x \<and> vs_nft_index x < 222 \<and> ans (vs_nft_index x) = Inr d \<and> nd_init d
           \<and> nd_owner_address d = Some (vs_owner_address x) \<and> vs_voting_power x = 1)" for x
    by (auto simp: v(1) voters_from_mem)
  have "\<forall>x \<in> set vs. voter_ok parse x" using mem owners by (auto simp: voter_ok_def)
  then have valid: "vr_valid (verifySnapshot parse percent s) \<longleftrightarrow> fs = []"
    using pos named \<open>distinct (map vs_nft_index vs)\<close> by (simp add: verify_exact s sorted)
  have none: "fs = [] \<longleftrightarrow> (\<forall>i \<in> {0..221}. \<exists>d. ans i = Inr d)"
    unfolding v(2) failed_from_def filter_empty_conv set_upto
    by (metis Inl_Inr_False sumE)
  have gv: "gs_voters s = vs" "sm_failed_indices (gs_metadata s) = filter (\<lambda>i. \<exists>e. ans i = Inl e) [0..221]"
    using v(2) by (simp_all add: s sorted failed_from_def)
  have "vr_valid (verifySnapshot parse percent s) \<longleftrightarrow> (\<forall>i \<in> {0..221}. \<exists>d. ans i = Inr d)"
    "\<not> allowPartial \<longrightarrow> vr_valid (verifySnapshot parse percent s)"
    using valid none v(3) by blast+
  then show ?thesis
    using mem \<open>sorted (map vs_nft_index vs)\<close> \<open>distinct (map vs_nft_index vs)\<close> gv(2) unfolding gv(1) by blast
qed

text \<open>What a round finds, from the answers of the provider: the item must have the index it was asked for and belong to the collection.\<close>

definition item_at :: "(int \<Rightarrow> string + string) \<Rightarrow> (string \<Rightarrow> string + nft_data) \<Rightarrow> string \<Rightarrow> int \<Rightarrow> nft_data \<Rightarrow> bool" where
  "item_at addr data col i d \<longleftrightarrow> (\<exists>a. addr i = Inr a \<and> data a = Inr d) \<and> nd_index d = i \<and> nd_collection_address d = col"

lemma query_item_answers:
  assumes "\<And>i w. fst (sp_getNFTAddress sp col i b w) = addr i" "\<And>a w. fst (sp_getNFTData sp a b w) = data a"
  shows "fst (query_item sp col b i w) = Inr d \<longleftrightarrow> item_at addr data col i d"
    "fst (query_item sp col b i w) = fst (query_item sp col b i w')"
proof -
  obtain x v where x: "sp_getNFTAddress sp col i b w = (x, v)" by fastforce
  obtain x' v' where x': "sp_getNFTAddress sp col i b w' = (x', v')" by fastforce
  have eq: "x = addr i" "x' = addr i" using assms(1) [of i w] assms(1) [of i w'] x x' by simp_all
  show "fst (query_item sp col b i w) = Inr d \<longleftrightarrow> item_at addr data col i d"
  proof (cases "addr i")
    case (Inl e)
    with x eq show ?thesis by (simp add: query_item_def item_at_def)
  next
    case (Inr a)
    obtain y u where y: "sp_getNFTData sp a b v = (y, u)" by fastforce
    then have "y = data a" using assms(2) [of a v] by simp
    with x eq Inr y show ?thesis by (cases "data a") (auto simp: query_item_def item_at_def split: if_splits)
  qed
  show "fst (query_item sp col b i w) = fst (query_item sp col b i w')"
  proof (cases "addr i")
    case (Inl e)
    with x x' eq show ?thesis by (simp add: query_item_def)
  next
    case (Inr a)
    obtain y u y' u' where y: "sp_getNFTData sp a b v = (y, u)" "sp_getNFTData sp a b v' = (y', u')" by fastforce
    then have "y = data a" "y' = data a" using assms(2) [of a v] assms(2) [of a v'] by simp_all
    with x x' eq Inr y show ?thesis by (cases "data a") (auto simp: query_item_def)
  qed
qed

text \<open>
  C33. A snapshot is the vote register of one block. Let the provider answer the same whenever it is asked at the pinned block: the
  address \<open>addr i\<close> for index \<open>i\<close> of the collection \<open>col\<close>, and \<open>data a\<close> for the item at \<open>a\<close>. A
  snapshot that is created lists, in increasing order of the index, exactly one vote for each index from 0 to 221 whose item answers at that
  block, states that very index and that very collection, and is initialised and owned, and the vote is its owner's; it records as failed exactly
  the indices whose item could not be read or states another index or collection; and the verification accepts it exactly if no index
  failed, so a snapshot made without permission for partial results is always accepted.
\<close>

theorem snapshot_exact:
  assumes run: "createSnapshot parse cfg sp now later blockNumber allowPartial w = (Inr s, w')"
    and total: "gc_totalSupply cfg = 222" and col: "parse (gc_collectionAddress cfg) = Some col"
    and addr: "\<And>i w. fst (sp_getNFTAddress sp col i (gs_snapshot_block s) w) = addr i"
    and data: "\<And>a w. fst (sp_getNFTData sp a (gs_snapshot_block s) w) = data a"
    and owners: "\<And>a d own. data a = Inr d \<Longrightarrow> nd_owner_address d = Some own \<Longrightarrow> parse own \<noteq> None"
    and latest: "\<And>w n w'. sp_getLatestBlock sp w = (Inr n, w') \<Longrightarrow> 0 < n"
  shows "(\<forall>v. v \<in> set (gs_voters s) \<longleftrightarrow>
        0 \<le> vs_nft_index v \<and> vs_nft_index v < 222 \<and> vs_voting_power v = 1
        \<and> (\<exists>a d. addr (vs_nft_index v) = Inr a \<and> data a = Inr d \<and> nd_index d = vs_nft_index v \<and> nd_collection_address d = col
             \<and> nd_init d \<and> nd_owner_address d = Some (vs_owner_address v)))
    \<and> sorted (map vs_nft_index (gs_voters s)) \<and> distinct (map vs_nft_index (gs_voters s))
    \<and> sm_failed_indices (gs_metadata s) =
        filter (\<lambda>i. \<not> (\<exists>a d. addr i = Inr a \<and> data a = Inr d \<and> nd_index d = i \<and> nd_collection_address d = col)) [0..221]
    \<and> (vr_valid (verifySnapshot parse percent s) \<longleftrightarrow>
        (\<forall>i \<in> {0..221}. \<exists>a d. addr i = Inr a \<and> data a = Inr d \<and> nd_index d = i \<and> nd_collection_address d = col))
    \<and> (\<not> allowPartial \<longrightarrow> vr_valid (verifySnapshot parse percent s))"
proof -
  let ?ans = "\<lambda>i. fst (query_item sp col (gs_snapshot_block s) i w)"
  have item: "?ans i = Inr d \<longleftrightarrow> item_at addr data col i d" for i d by (rule query_item_answers(1) [OF addr data])
  have failed: "(\<exists>e. ?ans i = Inl e) \<longleftrightarrow> \<not> (\<exists>d. item_at addr data col i d)" for i
    by (cases "?ans i") (auto simp flip: item)
  have same: "fst (query_item sp col (gs_snapshot_block s) i v) = ?ans i" for i v by (rule query_item_answers(2) [OF addr data])
  have own: "parse x \<noteq> None" if "?ans i = Inr d" "nd_owner_address d = Some x" for i d x
    using that owners unfolding item item_at_def by blast
  have vote: "(\<exists>d. 0 \<le> vs_nft_index v \<and> vs_nft_index v < 222 \<and> item_at addr data col (vs_nft_index v) d \<and> nd_init d
           \<and> nd_owner_address d = Some (vs_owner_address v) \<and> vs_voting_power v = 1) \<longleftrightarrow>
        0 \<le> vs_nft_index v \<and> vs_nft_index v < 222 \<and> vs_voting_power v = 1
        \<and> (\<exists>a d. addr (vs_nft_index v) = Inr a \<and> data a = Inr d \<and> nd_index d = vs_nft_index v \<and> nd_collection_address d = col
             \<and> nd_init d \<and> nd_owner_address d = Some (vs_owner_address v))" for v
    by (auto simp: item_at_def)
  have found: "(\<exists>d. item_at addr data col i d) \<longleftrightarrow> (\<exists>a d. addr i = Inr a \<and> data a = Inr d \<and> nd_index d = i \<and> nd_collection_address d = col)" for i
    by (auto simp: item_at_def)
  show ?thesis
    using snapshot_by_answers [where percent = percent and ans = ?ans, OF run total col same own latest]
    unfolding failed unfolding item vote found by assumption
qed

text \<open>A collection whose item \<open>i\<close> has the address of \<open>i\<close> letters and is owned.\<close>

definition sp0 :: "unit snapshot_provider" where
  "sp0 = \<lparr>sp_getLatestBlock = (\<lambda>w. (Inr 5, w)), sp_getNFTAddress = (\<lambda>_ i _ w. (Inr (replicate (nat i) CHR ''x''), w)),
     sp_getNFTData = (\<lambda>a _ w. (Inr \<lparr>nd_init = True, nd_index = int (length a), nd_collection_address = ''c'', nd_owner_address = Some ''o''\<rparr>, w))\<rparr>"

lemma query_items_partial: "\<exists>vs fs w'. query_items sp True col b is vs0 fs0 w = (Inr (vs, fs), w')"
  by (induction "is" arbitrary: vs0 fs0 w) (auto split: prod.split sum.split)

theorem snapshot_exact_witness:
  "\<exists>s w'. createSnapshot Some (DEFAULT_CONFIG\<lparr>gc_collectionAddress := ''c''\<rparr>) sp0 1 2 None True () = (Inr s, w')
     \<and> vr_valid (verifySnapshot Some (\<lambda>_ _. []) s) \<and> \<lparr>vs_nft_index = 7, vs_owner_address = ''o'', vs_voting_power = 1\<rparr> \<in> set (gs_voters s)"
proof -
  let ?cfg = "DEFAULT_CONFIG\<lparr>gc_collectionAddress := ''c''\<rparr>"
  obtain s w' where run: "createSnapshot Some ?cfg sp0 1 2 None True () = (Inr s, w')"
    using query_items_partial [of sp0 "''c''" 5 "[0..221]" "[]" "[]" "()"]
    by (fastforce simp: createSnapshot_def DEFAULT_CONFIG_def snapshot_block_def sp0_def)
  have total: "gc_totalSupply ?cfg = 222" and col: "Some (gc_collectionAddress ?cfg) = Some ''c''"
    by (simp_all add: DEFAULT_CONFIG_def)
  define addr where "addr i = (Inr (replicate (nat i) CHR ''x'') :: string + string)" for i
  define data where "data a = (Inr \<lparr>nd_init = True, nd_index = int (length a), nd_collection_address = ''c'', nd_owner_address = Some ''o''\<rparr>
    :: string + nft_data)" for a :: string
  have a: "fst (sp_getNFTAddress sp0 ''c'' i b v) = addr i" "fst (sp_getNFTData sp0 x b v) = data x" for i b v x
    by (simp_all add: sp0_def addr_def data_def)
  have l: "sp_getLatestBlock sp0 w = (Inr n, v) \<Longrightarrow> 0 < n" for w n v by (simp add: sp0_def)
  note exact = snapshot_exact [where percent = "\<lambda>_ _. []" and addr = addr and data = data, OF run total col a(1,2) _ l]
  have "vr_valid (verifySnapshot Some (\<lambda>_ _. []) s)" using exact by (auto simp: addr_def data_def)
  moreover have "\<lparr>vs_nft_index = 7, vs_owner_address = ''o'', vs_voting_power = 1\<rparr> \<in> set (gs_voters s)"
    using exact by (auto simp: addr_def data_def)
  ultimately show ?thesis using run by blast
qed

text \<open>The network provider answers with a positive block only, and only with reads made at the block it was asked for.\<close>

lemma rpc_latest_positive: "rpc_getLatestBlock re cfg w = (Inr n, w') \<Longrightarrow> 0 < n"
  by (auto simp: rpc_getLatestBlock_def split: prod.splits sum.splits json.splits if_splits)

lemma rpc_reads_at_block:
  assumes "rpc_runMethod re cfg address method stack block w = (Inr vs, w')"
  shows "\<exists>result w1. rpc_call re cfg ''runGetMethod''
      (JObj [(''address'', JStr address), (''method'', JStr method), (''stack'', stack), (''seqno'', JNum block)]) w = (Inr result, w1)
    \<and> jget ''exit_code'' result = JNum 0 \<and> jget ''seqno'' (jget ''block_id'' result) = JNum block \<and> jget ''stack'' result = JArr vs"
  using assms by (auto simp: rpc_runMethod_def split: prod.splits sum.splits json.splits if_splits)

end
