(* ===== verification/Parameters.thy ===== *)
theory Parameters
  imports Js_Json Api_Helpers
begin

text \<open>
  The validator of parameter changes (\<open>scripts/governance/check-parameter-changes.ts\<close>): the inventory of parameters, the
  classification of one, the check of a proposal and the audit of a deployment manifest. A proposal is what the parser of
  its document found, so every member may be absent; an absent number is \<open>undefined\<close>, with which every comparison is false.
  An issue and a line of the audit are named instead of spelled out. The reading of a proposal from its document by regular
  expressions, the text of the lines and the hash that is only printed are left out; \<open>JSON.parse\<close> is a parameter.
\<close>

section \<open>The inventory\<close>

datatype parameter_class = Cls_G | Cls_T | Cls_I | Cls_U

record parameter_record =
  pm_id :: string
  pm_contract :: string
  pm_parameter :: string
  pm_classification :: parameter_class
  pm_recommendedQuorum :: int
  pm_recommendedCooldownHours :: int
  pm_proposalCategory :: "int option"

abbreviation pm :: "string \<Rightarrow> string \<Rightarrow> string \<Rightarrow> parameter_class \<Rightarrow> int \<Rightarrow> int \<Rightarrow> int option \<Rightarrow> parameter_record" where
  "pm i c p k q h cat \<equiv> \<lparr>pm_id = i, pm_contract = c, pm_parameter = p, pm_classification = k, pm_recommendedQuorum = q,
     pm_recommendedCooldownHours = h, pm_proposalCategory = cat\<rparr>"

definition PARAMETER_INVENTORY :: "parameter_record list" where
  "PARAMETER_INVENTORY =
     [pm ''PP-1'' ''governance/ProposalRegistry.tact'' ''DEFAULT_VOTING_DURATION'' Cls_I 0 0 None,
      pm ''PP-2'' ''governance/ProposalRegistry.tact'' ''DEFAULT_QUORUM_THRESHOLD'' Cls_I 0 0 None,
      pm ''PP-3'' ''governance/ProposalRegistry.tact'' ''DIAMONDS_TOTAL_SUPPLY'' Cls_I 0 0 None,
      pm ''PP-4'' ''governance/ProposalRegistry.tact'' ''DIAMONDS_COLLECTION'' Cls_I 0 0 None,
      pm ''PP-5'' ''governance/ProposalRegistry.tact'' ''category enum 0..5'' Cls_I 0 0 None,
      pm ''PP-6'' ''governance/ProposalRegistry.tact'' ''vote enum 0..2'' Cls_I 0 0 None,
      pm ''PP-7'' ''governance/SnapshotVerifier.tact'' ''proposal_registry'' Cls_T 0 0 None,
      pm ''PP-41'' ''governance/SnapshotVerifier.tact'' ''trusted_indexer'' Cls_G 44 48 (Some 1),
      pm ''PP-8'' ''governance/TransparencyRegistry.tact'' ''snapshot pointer'' Cls_G 22 48 (Some 3),
      pm ''PP-9'' ''governance/TransparencyRegistry.tact'' ''quorum_threshold (init-only)'' Cls_I 0 0 None,
      pm ''PP-10'' ''governance/TransparencyRegistry.tact'' ''counters'' Cls_U 0 0 None,
      pm ''PP-11'' ''payments/PaymentHub.tact'' ''admin'' Cls_T 0 168 None,
      pm ''PP-12'' ''payments/PaymentHub.tact'' ''ADMIN_TRANSFER_DELAY'' Cls_I 0 0 None,
      pm ''PP-13'' ''payments/PaymentHub.tact'' ''whitelisted_collections'' Cls_G 44 48 (Some 0),
      pm ''PP-14'' ''payments/PaymentHub.tact'' ''accounts (no admin init; Issue #427)'' Cls_U 0 0 None,
      pm ''PP-15'' ''MerchantPaymentHub.tact'' ''admin'' Cls_T 0 168 None,
      pm ''PP-16'' ''MerchantPaymentHub.tact'' ''MERCHANT_ADMIN_TRANSFER_DELAY'' Cls_I 0 0 None,
      pm ''PP-17'' ''MerchantPaymentHub.tact'' ''whitelisted_collections'' Cls_G 44 48 (Some 0),
      pm ''PP-18'' ''MerchantPaymentHub.tact'' ''account_states'' Cls_G 22 48 (Some 1),
      pm ''PP-19'' ''MerchantPaymentHub.tact'' ''account_balances (initial)'' Cls_G 44 48 (Some 1),
      pm ''PP-20'' ''MerchantPaymentHub.tact'' ''account_locks'' Cls_G 22 24 (Some 3),
      pm ''PP-21'' ''RecurringPayments.tact'' ''MIN_PERIOD_SECONDS'' Cls_I 0 0 None,
      pm ''PP-22'' ''RecurringPayments.tact'' ''mandates'' Cls_U 0 0 None,
      pm ''PP-23'' ''MultiSigCard.tact'' ''multisig_configs'' Cls_U 0 0 None,
      pm ''PP-24'' ''MultiSigCard.tact'' ''MAX_SIGNERS'' Cls_I 0 0 None,
      pm ''PP-25'' ''CrossChainBridge.tact'' ''bridge_intents'' Cls_U 0 0 None,
      pm ''PP-26'' ''CrossChainBridge.tact'' ''authorized_relayers'' Cls_G 44 48 (Some 1),
      pm ''PP-27'' ''CrossChainBridge.tact'' ''CHAIN_* enum'' Cls_I 0 0 None,
      pm ''PP-28'' ''CrossChainBridge.tact'' ''MAX_SUPPORTED_CHAIN'' Cls_I 0 0 None,
      pm ''PP-29'' ''CollateralSignal.tact'' ''collateral_signals'' Cls_U 0 0 None,
      pm ''PP-30'' ''LendingProtocolCoordinator.tact'' ''lending_intents'' Cls_U 0 0 None,
      pm ''PP-31'' ''collateral-lookup/PublicCollateralLookup.tact'' ''owner'' Cls_I 0 0 None,
      pm ''PP-32'' ''collateral-lookup/PublicCollateralLookup.tact'' ''accountLocksContract'' Cls_G 22 48 (Some 1),
      pm ''PP-33'' ''collateral-lookup/PublicCollateralLookup.tact'' ''VERSION'' Cls_I 0 0 None,
      pm ''PP-34'' ''nft-resolver/nft_account_resolver.tact'' ''payment_hub'' Cls_G 22 48 (Some 1),
      pm ''PP-35'' ''nft-resolver/nft_account_resolver.tact'' ''COLLECTION_7777/8888'' Cls_I 0 0 None]"

definition DEFAULT_QUORUM :: int where
  "DEFAULT_QUORUM = 22"

definition MIN_COOLDOWN_HOURS :: int where
  "MIN_COOLDOWN_HOURS = 48"

definition MIN_EMERGENCY_COOLDOWN_HOURS :: int where
  "MIN_EMERGENCY_COOLDOWN_HOURS = 24"

definition MIN_EXECUTOR_M :: int where
  "MIN_EXECUTOR_M = 2"

definition MIN_EXECUTOR_N :: int where
  "MIN_EXECUTOR_N = 3"

definition MIN_VOTING_WINDOW_DAYS :: int where
  "MIN_VOTING_WINDOW_DAYS = 7"

definition find_parameter :: "string \<Rightarrow> parameter_record option" where
  "find_parameter i = List.find (\<lambda>p. pm_id p = i) PARAMETER_INVENTORY"

definition class_json :: "parameter_class \<Rightarrow> json" where
  "class_json k = JStr (case k of Cls_G \<Rightarrow> ''G'' | Cls_T \<Rightarrow> ''T'' | Cls_I \<Rightarrow> ''I'' | Cls_U \<Rightarrow> ''U'')"

definition required_quorum :: "parameter_record \<Rightarrow> int" where
  "required_quorum r = (if pm_recommendedQuorum r > 0 then pm_recommendedQuorum r else DEFAULT_QUORUM)"

text \<open>The exit code and what is printed.\<close>

definition classify :: "string \<Rightarrow> int \<times> json option" where
  "classify parameterId =
     (case find_parameter parameterId of
        None \<Rightarrow> (2, None)
      | Some r \<Rightarrow> (0, Some (JObj [
          (''parameter_id'', JStr (pm_id r)), (''contract'', JStr (pm_contract r)), (''parameter'', JStr (pm_parameter r)),
          (''classification'', class_json (pm_classification r)), (''recommended_quorum'', JNum (required_quorum r)),
          (''recommended_cooldown_hours'', JNum (if pm_recommendedCooldownHours r > 0 then pm_recommendedCooldownHours r else 0)),
          (''proposal_category'', case pm_proposalCategory r of None \<Rightarrow> JNull | Some c \<Rightarrow> JNum c),
          (''requires_governance_proposal'', JBool (pm_classification r = Cls_G \<or> pm_classification r = Cls_T))])))"

section \<open>Proposals\<close>

record change_proposal =
  pc_authorNftId :: "int option"
  pc_category :: "int option"
  pc_votingWindowDays :: "int option"
  pc_quorumThreshold :: "int option"
  pc_cooldownHours :: "int option"
  pc_parameterId :: "string option"
  pc_executorMultisig :: "string option"
  pc_executorThresholdM :: "int option"
  pc_executorThresholdN :: "int option"
  pc_transparencyChecklist :: "bool list option"
  pc_metadataJson :: "string option"

datatype issue_level = Lv_error | Lv_warning

datatype proposal_issue =
    Is_unknown_parameter string
  | Is_not_changeable string parameter_class
  | Is_voting_window "int option"
  | Is_quorum "int option" int
  | Is_cooldown_floor "int option" int
  | Is_cooldown_recommended "int option" int
  | Is_category "int option" int
  | Is_author "int option"
  | Is_threshold "int option" "int option"
  | Is_executor
  | Is_checklist
  | Is_metadata_missing
  | Is_metadata_invalid

definition js_less :: "int option \<Rightarrow> int \<Rightarrow> bool" where
  "js_less x y = (case x of None \<Rightarrow> False | Some n \<Rightarrow> n < y)"

definition js_greater :: "int option \<Rightarrow> int option \<Rightarrow> bool" where
  "js_greater x y = (case (x, y) of (Some m, Some n) \<Rightarrow> m > n | _ \<Rightarrow> False)"

definition when_issue :: "bool \<Rightarrow> issue_level \<Rightarrow> proposal_issue \<Rightarrow> (issue_level \<times> proposal_issue) list" where
  "when_issue b l i = (if b then [(l, i)] else [])"

definition cooldown_floor :: "change_proposal \<Rightarrow> int" where
  "cooldown_floor p = (if pc_parameterId p = Some ''PP-20'' then MIN_EMERGENCY_COOLDOWN_HOURS else MIN_COOLDOWN_HOURS)"

definition required_cooldown :: "parameter_record \<Rightarrow> int" where
  "required_cooldown r = (if pm_recommendedCooldownHours r > 0 then pm_recommendedCooldownHours r else MIN_COOLDOWN_HOURS)"

definition low_threshold :: "int option \<Rightarrow> int option \<Rightarrow> bool" where
  "low_threshold m n \<longleftrightarrow> js_less m MIN_EXECUTOR_M \<or> js_less n MIN_EXECUTOR_N \<or> js_greater m n"

definition checklist_open :: "bool list option \<Rightarrow> bool" where
  "checklist_open x = (case x of None \<Rightarrow> True | Some cs \<Rightarrow> length cs < 3 \<or> \<not> list_all (\<lambda>c. c) (take 3 cs))"

definition validateProposal :: "(string \<Rightarrow> json option) \<Rightarrow> change_proposal \<Rightarrow> bool \<Rightarrow> (issue_level \<times> proposal_issue) list" where
  "validateProposal parse p strict =
     (let i = or_empty (pc_parameterId p) in
      case find_parameter i of
        None \<Rightarrow> [(Lv_error, Is_unknown_parameter i)]
      | Some r \<Rightarrow>
          when_issue (pm_classification r \<noteq> Cls_G \<and> pm_classification r \<noteq> Cls_T) Lv_error (Is_not_changeable i (pm_classification r))
          @ when_issue (js_less (pc_votingWindowDays p) MIN_VOTING_WINDOW_DAYS) Lv_error (Is_voting_window (pc_votingWindowDays p))
          @ when_issue (js_less (pc_quorumThreshold p) (required_quorum r)) Lv_error (Is_quorum (pc_quorumThreshold p) (required_quorum r))
          @ when_issue (js_less (pc_cooldownHours p) (cooldown_floor p)) Lv_error (Is_cooldown_floor (pc_cooldownHours p) (cooldown_floor p))
          @ when_issue (js_less (pc_cooldownHours p) (required_cooldown r)) Lv_warning
              (Is_cooldown_recommended (pc_cooldownHours p) (required_cooldown r))
          @ (case pm_proposalCategory r of None \<Rightarrow> []
             | Some c \<Rightarrow> when_issue (pc_category p \<noteq> Some c) Lv_warning (Is_category (pc_category p) c))
          @ when_issue (js_less (pc_authorNftId p) 1 \<or> js_greater (pc_authorNftId p) (Some 222)) Lv_error (Is_author (pc_authorNftId p))
          @ when_issue (low_threshold (pc_executorThresholdM p) (pc_executorThresholdN p)) Lv_error
              (Is_threshold (pc_executorThresholdM p) (pc_executorThresholdN p))
          @ when_issue (\<not> starts_with ''EQ'' (or_empty (pc_executorMultisig p))) Lv_error Is_executor
          @ when_issue (checklist_open (pc_transparencyChecklist p)) Lv_error Is_checklist
          @ when_issue (strict \<and> or_empty (pc_metadataJson p) = []) Lv_error Is_metadata_missing
          @ when_issue (or_empty (pc_metadataJson p) \<noteq> [] \<and> parse (or_empty (pc_metadataJson p)) = None) Lv_error Is_metadata_invalid)"

text \<open>The exit code for a document that was read.\<close>

definition validateProposalFile :: "(string \<Rightarrow> json option) \<Rightarrow> change_proposal \<Rightarrow> bool \<Rightarrow> int" where
  "validateProposalFile parse p strict =
     (if or_empty (pc_parameterId p) = [] then 2
      else if filter (\<lambda>i. fst i = Lv_error) (validateProposal parse p strict) = [] then 0 else 2)"

section \<open>The audit of a manifest\<close>

record admin_threshold =
  at_m :: "int option"
  at_n :: "int option"

record contract_admin =
  ca_kind :: string
  ca_address :: string
  ca_threshold :: "admin_threshold option"
  ca_signers :: "string list option"

record deployed_contract =
  dc_name :: string
  dc_address :: string
  dc_admin :: "contract_admin option"

datatype audit_line = Al_no_admin | Al_single_key | Al_low_threshold | Al_signers | Al_ok

definition audit_contract :: "deployed_contract \<Rightarrow> audit_line" where
  "audit_contract c =
     (case dc_admin c of
        None \<Rightarrow> Al_no_admin
      | Some a \<Rightarrow>
          if ca_kind a = ''eoa'' then Al_single_key
          else if ca_kind a = ''multisig'' then
            (case ca_threshold a of
               None \<Rightarrow> Al_low_threshold
             | Some t \<Rightarrow>
                 if low_threshold (at_m t) (at_n t) then Al_low_threshold
                 else case ca_signers a of
                     None \<Rightarrow> Al_signers
                   | Some ss \<Rightarrow> if Some (int (length ss)) \<noteq> at_n t then Al_signers else Al_ok)
          else Al_ok)"

text \<open>The manifest is \<open>None\<close> where it is not JSON; absent contracts are none.\<close>

definition auditManifest :: "deployed_contract list option option \<Rightarrow> int" where
  "auditManifest manifest =
     (case manifest of
        None \<Rightarrow> 1
      | Some cs \<Rightarrow>
          let lines = map audit_contract (case cs of None \<Rightarrow> [] | Some cs \<Rightarrow> cs) in
          if filter (\<lambda>l. l \<noteq> Al_ok) lines \<noteq> [] then 2 else 0)"

end
