(* ===== verification/Parameters_Props.thy ===== *)
theory Parameters_Props
  imports Parameters
begin

text \<open>
  What an accepted proposal guarantees of the members it has, what it does not guarantee of those it lacks, and which
  manifests pass the audit.
\<close>

lemma filter_when [simp]:
  "filter P (when_issue b l i) = (if b \<and> P (l, i) then [(l, i)] else [])"
  by (simp add: when_issue_def)

lemma errors_of_category: "filter (\<lambda>i. fst i = Lv_error) (case c of None \<Rightarrow> [] | Some c \<Rightarrow> when_issue (x \<noteq> Some c) Lv_warning (f c)) = []"
  by (cases c) simp_all

text \<open>The parameters have distinct identifiers; what governance may change has a quorum and a category of its own.\<close>

theorem inventory_consistent:
  "distinct (map pm_id PARAMETER_INVENTORY)"
  "list_all (\<lambda>r. pm_classification r = Cls_G \<longrightarrow> 22 \<le> pm_recommendedQuorum r \<and> pm_proposalCategory r \<noteq> None
     \<and> (if pm_id r = ''PP-20'' then 24 else 48) \<le> pm_recommendedCooldownHours r) PARAMETER_INVENTORY"
  by code_simp+

text \<open>A proposal with all its numbers is accepted exactly when it meets every floor of the policy.\<close>

theorem proposal_accepted_iff:
  assumes "pc_parameterId p = Some i" "pc_votingWindowDays p = Some w" "pc_quorumThreshold p = Some q" "pc_cooldownHours p = Some h"
    "pc_authorNftId p = Some a" "pc_executorThresholdM p = Some m" "pc_executorThresholdN p = Some n"
  shows "validateProposalFile parse p strict = 0 \<longleftrightarrow>
    i \<noteq> [] \<and> (\<exists>r. find_parameter i = Some r \<and> (pm_classification r = Cls_G \<or> pm_classification r = Cls_T) \<and> required_quorum r \<le> q)
    \<and> 7 \<le> w \<and> (if i = ''PP-20'' then 24 else 48) \<le> h \<and> 1 \<le> a \<and> a \<le> 222 \<and> 2 \<le> m \<and> 3 \<le> n \<and> m \<le> n
    \<and> (\<exists>e. pc_executorMultisig p = Some (''EQ'' @ e))
    \<and> (\<exists>rest. pc_transparencyChecklist p = Some ([True, True, True] @ rest))
    \<and> (strict \<longrightarrow> or_empty (pc_metadataJson p) \<noteq> [])
    \<and> (or_empty (pc_metadataJson p) \<noteq> [] \<longrightarrow> parse (or_empty (pc_metadataJson p)) \<noteq> None)"
proof -
  have i: "or_empty (Some i) = i" by (simp add: or_empty_def)
  have ex: "starts_with ''EQ'' (or_empty x) \<longleftrightarrow> (\<exists>e. x = Some (''EQ'' @ e))" for x
    by (cases x) (auto simp: or_empty_def starts_with_iff)
  have ck: "\<not> checklist_open x \<longleftrightarrow> (\<exists>rest. x = Some ([True, True, True] @ rest))" for x
  proof (cases x)
    case (Some cs)
    then show ?thesis
      by (cases cs rule: remdups_adj.cases; cases "tl (tl cs)") (auto simp: checklist_open_def)
  qed (simp add: checklist_open_def)
  show ?thesis
    using assms ck [of "pc_transparencyChecklist p"]
    by (cases "find_parameter i")
      (auto simp: validateProposalFile_def validateProposal_def Let_def i errors_of_category js_less_def js_greater_def low_threshold_def
        ex cooldown_floor_def MIN_VOTING_WINDOW_DAYS_def MIN_COOLDOWN_HOURS_def MIN_EMERGENCY_COOLDOWN_HOURS_def MIN_EXECUTOR_M_def
        MIN_EXECUTOR_N_def linorder_not_less)
qed

text \<open>A proposal that states no window, quorum, cooldown, author or threshold at all is accepted.\<close>

theorem silent_proposal_accepted:
  "validateProposalFile parse
     \<lparr>pc_authorNftId = None, pc_category = None, pc_votingWindowDays = None, pc_quorumThreshold = None, pc_cooldownHours = None,
      pc_parameterId = Some ''PP-13'', pc_executorMultisig = Some ''EQx'', pc_executorThresholdM = None, pc_executorThresholdN = None,
      pc_transparencyChecklist = Some [True, True, True], pc_metadataJson = None\<rparr> False = 0"
proof -
  have "map_option pm_classification (find_parameter ''PP-13'') = Some Cls_G" by code_simp
  then obtain r where "find_parameter ''PP-13'' = Some r" "pm_classification r = Cls_G" by auto
  then show ?thesis
    by (simp add: validateProposalFile_def validateProposal_def Let_def or_empty_def errors_of_category js_less_def js_greater_def low_threshold_def
      checklist_open_def starts_with_def)
qed

text \<open>
  A manifest passes exactly when every contract has an administrator that is not a single key and, where it is called a
  multi-signature wallet, has as many signers as it states and a threshold that is not below 2 of 3 in the numbers present.
\<close>

theorem audit_passes_iff:
  "auditManifest (Some (Some cs)) = 0 \<longleftrightarrow>
     (\<forall>c \<in> set cs. \<exists>a. dc_admin c = Some a \<and> ca_kind a \<noteq> ''eoa'' \<and>
        (ca_kind a = ''multisig'' \<longrightarrow> (\<exists>t ss. ca_threshold a = Some t \<and> ca_signers a = Some ss \<and> at_n t = Some (int (length ss))
           \<and> 3 \<le> length ss \<and> (\<forall>m. at_m t = Some m \<longrightarrow> 2 \<le> m \<and> m \<le> int (length ss)))))"
proof -
  have "audit_contract c = Al_ok \<longleftrightarrow> (\<exists>a. dc_admin c = Some a \<and> ca_kind a \<noteq> ''eoa'' \<and>
        (ca_kind a = ''multisig'' \<longrightarrow> (\<exists>t ss. ca_threshold a = Some t \<and> ca_signers a = Some ss \<and> at_n t = Some (int (length ss))
           \<and> 3 \<le> length ss \<and> (\<forall>m. at_m t = Some m \<longrightarrow> 2 \<le> m \<and> m \<le> int (length ss)))))" for c
    by (auto simp: audit_contract_def low_threshold_def js_less_def js_greater_def MIN_EXECUTOR_M_def MIN_EXECUTOR_N_def
      split: option.splits if_splits)
  then show ?thesis by (auto simp: auditManifest_def Let_def filter_empty_conv)
qed

text \<open>A threshold without its first number and an administrator of an unknown kind pass the audit.\<close>

theorem audit_gaps:
  "auditManifest (Some (Some [\<lparr>dc_name = n, dc_address = d, dc_admin = Some \<lparr>ca_kind = ''multisig'', ca_address = x,
     ca_threshold = Some \<lparr>at_m = None, at_n = Some 3\<rparr>, ca_signers = Some [s1, s2, s3]\<rparr>\<rparr>])) = 0"
  "auditManifest (Some (Some [\<lparr>dc_name = n, dc_address = d, dc_admin = Some \<lparr>ca_kind = ''EOA'', ca_address = x,
     ca_threshold = None, ca_signers = None\<rparr>\<rparr>])) = 0"
  by (simp_all add: audit_passes_iff)

end
