(* ===== verification/Spec2Isabelle.thy ===== *)
theory Spec2Isabelle
  imports Api_Http_Props Idx_Service_Props Idx_Api_Props Idx_Migrations_Props Qr_Layout Sdk_Amount Api_Webhooks_Props Api_Production_Props Faucet_Props Sdk_Mock Wallet_Connect_Props Mobile_Props
    Protocol_Props Adapters_Props Lending_Props Providers_Props Governance_Props Parameters_Props
begin

text \<open>
  A verification development of the off-chain code of the TON Bank Card protocol: a non-custodial payment system in
  which cards are NFTs, payments settle on the TON blockchain, and everything off-chain only orchestrates and reports.

  \<^bold>\<open>The program.\<close> The TypeScript code under \<open>src\<close> has these parts. The \<^emph>\<open>Merchant API\<close> (\<open>api/src\<close>) issues API keys,
  creates and reads invoices, settles them on attested events of the indexer and notifies merchants by signed webhooks.
  The \<^emph>\<open>indexer\<close> (\<open>backend/indexer/src\<close>) follows the blockchain, decodes the events of the payment contracts into
  a SQL database and answers queries about accounts and payments. The \<^emph>\<open>adapters\<close> (\<open>backend/adapters\<close>) coordinate
  multi-signature proposals, recurring mandates and bridge intents. The \<^emph>\<open>merchant SDK\<close> (\<open>sdk/src\<close>) creates payment
  links, verifies settlements on chain by itself and verifies webhooks; the \<^emph>\<open>wallet interface\<close> (\<open>wallet-ui/src\<close>) draws
  the QR code of a payment link. Around them stand the testnet \<^emph>\<open>faucet\<close> (\<open>scripts/faucet\<close>), the \<^emph>\<open>governance snapshots\<close>
  (\<open>scripts/governance\<close>) and the executable \<^emph>\<open>protocol model\<close> (\<open>tests/invariants/model\<close>) that states the invariants of
  the contracts.

  They interact as follows. A merchant's request passes the HTTP front (\<open>Api_Http\<close>), which authenticates it with the key
  service (\<open>Api_Keys\<close>) and calls the invoice service (\<open>Api_Invoice\<close>) over two stores (\<open>Api_Storage\<close>, \<open>Api_Production\<close>).
  The payer's wallet sends the payment of the invoice's link (\<open>Sdk_Wallet\<close>, \<open>Qr_Matrix\<close>). The indexer (\<open>Idx_Service\<close>)
  decodes the transaction (\<open>Idx_Events\<close>) into its database (\<open>Idx_Database\<close>) and attests a settlement event, which the
  invoice service accepts only if it names the terms of the invoice; the SDK (\<open>Sdk_Core\<close>) reaches the same verdict from
  the chain.

  \<^bold>\<open>Conventions.\<close> A component is a record of its state and one definition per operation, which takes the state and
  returns a result with the next state. A thrown error is an \<open>Inl\<close>, an optional value an \<open>option\<close>, a JavaScript \<open>Map\<close> an
  association list in insertion order, a \<open>bigint\<close> an \<open>int\<close>, an untyped body a value of \<open>json\<close>. Whatever is not under
  \<open>src\<close> is a parameter: dates and digests (\<open>js_rt\<close>), ciphers, the cell library, address parsing, the network and its
  replies (functions on a world), the clock (one argument per reading) and random bytes. Laws of such a parameter that a
  theorem needs are hypotheses of the theorem, and its witness discharges them on a concrete function. A string is a
  list of characters with code points below 256.

  \<^bold>\<open>Theories.\<close>
  \<^item> \<open>Prelude\<close>, \<open>Js_Json\<close>: results, maps with the contract \<open>kv_map\<close>, strings, decimal and hexadecimal text, JSON values
    and the injectivity of \<open>JSON.stringify\<close>.
  \<^item> \<open>Api_Types\<close>, \<open>Api_Validation\<close>, \<open>Api_Helpers\<close>, \<open>Api_Secrets\<close> (\<open>api/src/types\<close>, \<open>utils\<close>, \<open>config/secrets.ts\<close>): error
    codes, validators, canonical JSON, idempotency keys, API key format, settlement attestation, and secrets. Canonical
    JSON identifies two values exactly when they agree up to the order of keys, so the keys and attestations built on it
    bind every field.
  \<^item> \<open>Api_Keys\<close> (\<open>services/ApiKeyService.ts\<close>, \<open>storage/PostgresApiKeyStorage.ts\<close>): registry, authorisation cache and
    persistent store; the cache invariant, soundness of authorisations and immediate revocation.
  \<^item> \<open>Api_Storage\<close>, \<open>Api_Invoice\<close>, \<open>Api_Invoice_Thms\<close>, \<open>Api_Invoice_Props\<close> (\<open>storage/IStorage.ts\<close>, \<open>InMemoryStorage.ts\<close>,
    \<open>services/InvoiceService.ts\<close>): the contracts \<open>invoice_store\<close> and \<open>idempotency_store\<close>, the service over any backend that
    keeps them (\<open>invoice_backend\<close>), and over the in-memory stores by interpretation: the invariant of stored invoices, the
    life cycle of each, exactness of settlement, idempotent creation, and its end within two passes whatever the stores
    hold, records of vanished invoices included.
  \<^item> \<open>Api_Production\<close>, \<open>Api_Production_Props\<close> (\<open>storage/PostgresStorage.ts\<close>, \<open>RedisIdempotencyStorage.ts\<close>, \<open>production.ts\<close>):
    the SQL table refines the in-memory store, and a Redis key has one winner.
  \<^item> \<open>Api_Http\<close>, \<open>Api_Http_Props\<close> (\<open>middleware\<close>, \<open>routes\<close>, \<open>config/trustProxy.ts\<close>, \<open>index.ts\<close>): the chain of handlers around
    the services; access control of every route and confidential error replies over all reachable states.
  \<^item> \<open>Api_Ssrf\<close>, \<open>Api_Ssrf_Thms\<close>, \<open>Api_Webhooks\<close>, \<open>Api_Webhooks_Props\<close> (\<open>utils/ssrfGuard.ts\<close>, \<open>webhookSignature.ts\<close>,
    \<open>secretCipher.ts\<close>, \<open>services/WebhookService.ts\<close>, \<open>sdk/src/webhook.ts\<close>): which addresses the guard blocks, that the SDK
    accepts what the server signs, and that every delivery goes to an accepted address under the registered secret.
  \<^item> \<open>Idx_Events\<close>, \<open>Idx_Database\<close>, \<open>Idx_Database_Thms\<close>, \<open>Idx_Database_Props\<close> (\<open>types\<close>, \<open>services/confirmations.ts\<close>,
    \<open>parsers/event-parser.ts\<close>, \<open>db/database.ts\<close>): events, and the database as tables of rows: integrity, snapshots as the
    fold of the stored events (of the first inserted row, where several share a log index), complete rollback, convergence of the transparency aggregates, keyset pagination and a
    transparent, bounded history cache.
  \<^item> \<open>Idx_Config\<close>, \<open>Idx_Service\<close>, \<open>Idx_Service_Thms\<close>, \<open>Idx_Service_Props\<close> (\<open>types/config.ts\<close>, \<open>services/indexer-service.ts\<close>):
    a poll of the chain over the contract \<open>poll_invariant\<close>: atomic blocks, contiguity, the confirmation bound, repair of
    a window that was filled from a chain that has since been reorganised, and progress when every event names what its
    aggregates need.
  \<^item> \<open>Idx_Api\<close>, \<open>Idx_Api_Props\<close> (\<open>api/routes.ts\<close>, \<open>api/server.ts\<close>, \<open>types/api.ts\<close>): the read-only endpoints; a client
    that follows the cursors of a history reads every event that the three event tables hold of the account (the changes of
    ownership are kept in a table that the code's query does not read), and a forged header does not change the address counted.
  \<^item> \<open>Idx_Migrations\<close>, \<open>Idx_Migrations_Props\<close> (\<open>db/migrator.ts\<close>, \<open>db/sync-migrate.ts\<close>): schema migrations are applied
    exactly once and in order over any runs up, runs down and start-up syncs, the two runners agree, and what a run applied
    can be rolled back.
  \<^item> \<open>Qr_Field\<close>, \<open>Qr_Codewords\<close>, \<open>Qr_Codewords_Thms\<close>, \<open>Qr_Matrix\<close>, \<open>Qr_Matrix_Thms\<close>, \<open>Qr_Matrix_Props\<close>, \<open>Qr_Layout\<close>
    (\<open>wallet-ui/src/tonconnect/qrCode.ts\<close>): the field with 256 elements as a ring (type \<open>gf\<close>), error correction, the bit
    stream, the matrix, and the reading of every symbol back to the encoded bytes.
  \<^item> \<open>Sdk_Amount\<close>, \<open>Sdk_Utils\<close>, \<open>Sdk_Core\<close>, \<open>Sdk_Core_Props\<close>, \<open>Sdk_Wallet\<close>, \<open>Sdk_Mock\<close> (\<open>sdk/src\<close>): amounts, canonical JSON, the
    client and its verification of a settlement, payment links, and the mock provider against the client it replaces.
  \<^item> \<open>Wallet_Connect\<close>, \<open>Wallet_Connect_Props\<close> (\<open>wallet-ui/src/tonconnect\<close>): the registry of wallets, links and the session:
    what is stored restores the session, and only a valid reply to a pending request connects it.
  \<^item> \<open>Mobile\<close>, \<open>Mobile_Props\<close> (\<open>mobile/src\<close>, \<open>mobile-app/src/lib\<close>): amounts agree with the SDK, a scanned link is read as it
    was built, requests over pinned HTTPS, the biometric gate, and a session that survives a restart.
  \<^item> \<open>Adapters\<close>, \<open>Adapters_Props\<close> (\<open>backend/adapters\<close>): proposals, mandates and intents as reachable states; the threshold of a
    proposal is any number the adapter accepts, fractions and not-a-number included.
  \<^item> \<open>Lending\<close>, \<open>Lending_Props\<close> (\<open>backend/adapters/coinrabbit.ts\<close>): borrowers and collateral signals are confirmed only on
    one fresh snapshot of the chain.
  \<^item> \<open>Providers\<close>, \<open>Providers_Props\<close> (\<open>backend/adapters/nowpayments.ts\<close>, \<open>changenow.ts\<close>): requests to the providers, and which
    signed notifications are accepted.
  \<^item> \<open>Faucet\<close>, \<open>Faucet_Props\<close> (\<open>scripts/faucet/src\<close>): the limiter is an exact sliding window over the granted requests.
  \<^item> \<open>Governance\<close>, \<open>Governance_Props\<close> (\<open>scripts/governance/snapshot.ts\<close>): what a voter snapshot contains, in terms of the
    provider's answers, and which snapshots the verification accepts.
  \<^item> \<open>Parameters\<close>, \<open>Parameters_Props\<close> (\<open>scripts/governance/check-parameter-changes.ts\<close>): which proposals and
    manifests the checks accept.
  \<^item> \<open>Protocol\<close>, \<open>Protocol_Props\<close> (\<open>tests/invariants/model/protocol-model.ts\<close>, \<open>tests/adversarial/model/merchant-model.ts\<close>):
    conservation (the supply changes only by the administrator's initialisation), safety of funds and replay protection for
    every reachable state.

  \<^bold>\<open>Bounds and fuel.\<close> \<open>createInvoice\<close> calls itself after a lost race and takes fuel; two passes are enough for a caller
  that is not interrupted (\<open>createInvoice_two_attempts\<close>), and the HTTP front passes its fuel on. \<open>syncBlocks\<close> takes fuel for
  the blocks of one poll, and the number of confirmed blocks above the cursor is enough (\<open>poll_progress\<close>). The page limit
  of a shard block, the retries of a request, the eight attempts on a Redis key and the rounds of \<open>retryWithBackoff\<close> are
  bounds of the code. Every other definition is total.

  \<^bold>\<open>Not modelled.\<close> The rendering of the wallet interface, the dashboard, the payment widget and the mobile screens (browser
  and platform interfaces); the mobile requests that only copy the fields of a reply; the readiness and governance checklists under \<open>scripts\<close>, which compare planning documents with
  constants; deployment, gas and documentation tooling; the contracts in Tact and FunC, the TLA+ specification, and the Go
  and Python SDKs, which are other languages. Within modelled parts: requests and database transactions are single steps,
  so the interleaving of two requests inside one process is not covered except where the stores are shared between
  processes (the attempts on a Redis key and on a table row); log output is modelled only where it is part of an error
  reply or an audit line; timers, \<open>formatTbcAmount\<close> and \<open>parseTbcAmount\<close> (floating point) are left out.
\<close>

end
